(* ===== verification/Prelude.thy ===== *)
theory Prelude
  imports Complex_Main "HOL-Library.AList" "HOL-Library.Product_Lexorder" "HOL-Library.Sublist"
begin

section \<open>Prelude: Python values, strings, dictionaries and sorting\<close>

text \<open>
  What every component of the development shares.  Python's \<open>str\<close> is a sequence of code
  points and is modelled as such (type \<open>ustr\<close>, with \<open>u\<close> injecting ASCII literals), so that lone
  surrogates and characters beyond ASCII are values of the model.  A Python \<open>dict\<close> is an
  association list with distinct keys, in insertion order: \<open>AList.update\<close> keeps the position
  of an existing key and appends a new one, exactly as \<open>d[k] = v\<close> does.  A \<open>float\<close> is a real
  number (rounding is not modelled).  JSON values are the datatype \<open>json\<close>.
\<close>

named_theorems dict_simps \<open>lookup and key-set equations of Python dictionaries\<close>
named_theorems frame_simps \<open>fields an operation leaves unchanged\<close>
named_theorems model_defs \<open>definitions unfolded when a model is evaluated at a concrete input\<close>

subsection \<open>Strings\<close>

type_synonym ustr = "nat list"
type_synonym secs = real

definition u :: "string \<Rightarrow> ustr" where
  "u s = map of_char s"

lemma u_inject [simp]: "u s = u t \<longleftrightarrow> s = t"
  unfolding u_def by (rule inj_map_eq_map) (simp add: inj_on_def)

lemma u_Nil [simp]: "u [] = []"
  by (simp add: u_def)

lemma u_eq_Nil [simp]: "u s = [] \<longleftrightarrow> s = []" "[] = u s \<longleftrightarrow> s = []"
  by (simp_all add: u_def)

lemma u_append: "u (s @ t) = u s @ u t"
  by (simp add: u_def)

lemma length_u [simp]: "length (u s) = length s"
  by (simp add: u_def)

lemma u_code_point: "c \<in> set (u s) \<Longrightarrow> c < 256"
  by (auto simp: u_def of_char_def intro!: horner_sum_of_bool_2_less [of "[_, _, _, _, _, _, _, _]", simplified])

text \<open>The code points \<open>str.isspace\<close> accepts (what \<open>str.strip()\<close> removes).\<close>

definition py_isspace :: "nat \<Rightarrow> bool" where
  "py_isspace c \<longleftrightarrow>
     (9 \<le> c \<and> c \<le> 13) \<or> (28 \<le> c \<and> c \<le> 32) \<or> c = 133 \<or> c = 160 \<or> c = 5760 \<or>
     (8192 \<le> c \<and> c \<le> 8202) \<or> c = 8232 \<or> c = 8233 \<or> c = 8239 \<or> c = 8287 \<or> c = 12288"

text \<open>\<open>s.lstrip(cs)\<close>, \<open>s.rstrip(cs)\<close> and \<open>s.strip(cs)\<close> for a set of characters given as a predicate.\<close>

definition lstrip_by :: "('c \<Rightarrow> bool) \<Rightarrow> 'c list \<Rightarrow> 'c list" where
  "lstrip_by P s = dropWhile P s"

definition rstrip_by :: "('c \<Rightarrow> bool) \<Rightarrow> 'c list \<Rightarrow> 'c list" where
  "rstrip_by P s = rev (dropWhile P (rev s))"

definition strip_by :: "('c \<Rightarrow> bool) \<Rightarrow> 'c list \<Rightarrow> 'c list" where
  "strip_by P s = rstrip_by P (lstrip_by P s)"

abbreviation py_strip :: "ustr \<Rightarrow> ustr" where
  "py_strip \<equiv> strip_by py_isspace"

abbreviation py_rstrip :: "ustr \<Rightarrow> ustr" where
  "py_rstrip \<equiv> rstrip_by py_isspace"

abbreviation py_lstrip :: "ustr \<Rightarrow> ustr" where
  "py_lstrip \<equiv> lstrip_by py_isspace"

lemma lstrip_by_id: "s = [] \<or> \<not> P (hd s) \<Longrightarrow> lstrip_by P s = s"
  by (cases s) (auto simp: lstrip_by_def)

lemma rstrip_by_id: "s = [] \<or> \<not> P (last s) \<Longrightarrow> rstrip_by P s = s"
  by (cases s rule: rev_cases) (auto simp: rstrip_by_def)

lemma rstrip_by_prefix: "prefix (rstrip_by P s) s"
  unfolding rstrip_by_def by (metis suffix_dropWhile suffix_to_prefix rev_rev_ident)

lemma lstrip_by_suffix: "suffix (lstrip_by P s) s"
  by (simp add: lstrip_by_def suffix_dropWhile)

lemma last_rstrip_by: "rstrip_by P s \<noteq> [] \<Longrightarrow> \<not> P (last (rstrip_by P s))"
  unfolding rstrip_by_def by (metis last_rev hd_dropWhile rev_is_Nil_conv)

lemma length_rstrip_by: "length (rstrip_by P s) \<le> length s"
  by (metis length_rev length_dropWhile_le rstrip_by_def)

lemma length_lstrip_by: "length (lstrip_by P s) \<le> length s"
  by (simp add: lstrip_by_def length_dropWhile_le)

text \<open>\<open>s[-n:]\<close> for a positive \<open>n\<close>, and \<open>s[i:j]\<close> for non-negative bounds.\<close>

definition last_n :: "nat \<Rightarrow> 'a list \<Rightarrow> 'a list" where
  "last_n n s = drop (length s - n) s"

definition slice :: "nat \<Rightarrow> nat \<Rightarrow> 'a list \<Rightarrow> 'a list" where
  "slice i j s = take (j - i) (drop i s)"

lemma length_last_n [simp]: "length (last_n n s) = min n (length s)"
  by (simp add: last_n_def)

lemma last_n_id [simp]: "length s \<le> n \<Longrightarrow> last_n n s = s"
  by (simp add: last_n_def)

lemma last_n_suffix: "suffix (last_n n s) s"
  by (simp add: last_n_def suffix_drop)

lemma last_n_last_n: "last_n n (last_n n s) = last_n n s"
  by (simp add: last_n_id)

lemma last_n_append_last_n: "last_n n (last_n n s @ t) = last_n n (s @ t)"
  by (cases "length s \<le> n") (simp_all add: last_n_def add.commute)

lemma last_n_if: "(if n < length s then last_n n s else s) = last_n n s"
  by simp

lemma take_if: "(if n < length s then take n s else s) = take n s"
  by simp

lemma take_append_take: "take n (take n s @ t) = take n (s @ t)"
  by (cases "length s \<le> n") simp_all

lemma length_slice: "length (slice i j s) \<le> j - i"
  by (simp add: slice_def)

text \<open>\<open>str.splitlines()\<close>: every Unicode line boundary, with CR LF as one.\<close>

definition is_line_break :: "nat \<Rightarrow> bool" where
  "is_line_break c \<longleftrightarrow> (10 \<le> c \<and> c \<le> 13) \<or> (28 \<le> c \<and> c \<le> 30) \<or> c = 133 \<or> c = 8232 \<or> c = 8233"

fun splitlines_acc :: "ustr \<Rightarrow> ustr \<Rightarrow> ustr list" where
  "splitlines_acc acc [] = (if acc = [] then [] else [rev acc])"
| "splitlines_acc acc [c] = (if is_line_break c then [rev acc] else [rev (c # acc)])"
| "splitlines_acc acc (c # d # s) =
     (if c = 13 \<and> d = 10 then rev acc # splitlines_acc [] s
      else if is_line_break c then rev acc # splitlines_acc [] (d # s)
      else splitlines_acc (c # acc) (d # s))"

definition splitlines :: "ustr \<Rightarrow> ustr list" where
  "splitlines s = splitlines_acc [] s"

abbreviation unbroken :: "ustr \<Rightarrow> bool" where
  "unbroken s \<equiv> list_all (\<lambda>c. \<not> is_line_break c) s"

lemma splitlines_acc_line:
  "unbroken x \<Longrightarrow> is_line_break c \<Longrightarrow> c \<noteq> 13 \<Longrightarrow> splitlines_acc acc (x @ c # y) = (rev acc @ x) # splitlines_acc [] y"
proof (induction x arbitrary: acc)
  case Nil
  then show ?case by (cases y) auto
next
  case (Cons a x)
  then have a: "a \<noteq> 13" "\<not> is_line_break a" by (auto simp: is_line_break_def)
  obtain d s where ds: "x @ c # y = d # s" by (cases "x @ c # y") auto
  have "splitlines_acc acc ((a # x) @ c # y) = splitlines_acc (a # acc) (x @ c # y)"
    using a ds by simp
  with Cons show ?case by simp
qed

lemma splitlines_line: "unbroken x \<Longrightarrow> splitlines (x @ 10 # y) = x # splitlines y"
  using splitlines_acc_line [of x 10 "[]" y] by (simp add: splitlines_def is_line_break_def)

lemma splitlines_lines: "list_all unbroken xs \<Longrightarrow> splitlines (concat (map (\<lambda>x. x @ [10]) xs) @ y) = xs @ splitlines y"
  by (induction xs) (simp_all add: splitlines_line)

lemma splitlines_Nil [simp]: "splitlines [] = []"
  by (simp add: splitlines_def)

lemma splitlines_acc_unbroken: "unbroken (rev acc) \<Longrightarrow> x \<in> set (splitlines_acc acc s) \<Longrightarrow> unbroken x"
proof (induction acc s rule: splitlines_acc.induct)
  case (3 acc c d s)
  then show ?case by (auto split: if_splits)
qed (auto split: if_splits)

lemma splitlines_unbroken: "x \<in> set (splitlines s) \<Longrightarrow> unbroken x"
  unfolding splitlines_def by (rule splitlines_acc_unbroken [of "[]"]) simp_all

text \<open>\<open>s.split(d)\<close> for a one-character separator.\<close>

fun split_on :: "nat \<Rightarrow> ustr \<Rightarrow> ustr list" where
  "split_on d [] = [[]]"
| "split_on d (c # s) = (if c = d then [] # split_on d s else (c # hd (split_on d s)) # tl (split_on d s))"

lemma split_on_ne [simp]: "split_on d s \<noteq> []"
  by (cases s) auto

lemma split_on_append: "split_on d (a @ d # b) = split_on d a @ split_on d b"
  by (induction a) auto

lemma split_on_single: "d \<notin> set a \<Longrightarrow> split_on d a = [a]"
  by (induction a) auto

text \<open>\<open>str(n)\<close> for an integer.\<close>

fun digits_of :: "nat \<Rightarrow> ustr" where
  "digits_of n = (if n < 10 then [48 + n] else digits_of (n div 10) @ [48 + n mod 10])"

declare digits_of.simps [simp del]

definition str_of_nat :: "nat \<Rightarrow> ustr" where
  "str_of_nat n = digits_of n"

definition str_of_int :: "int \<Rightarrow> ustr" where
  "str_of_int i = (if i < 0 then u ''-'' @ digits_of (nat (- i)) else digits_of (nat i))"

lemma digits_of_digits: "c \<in> set (digits_of n) \<Longrightarrow> 48 \<le> c \<and> c \<le> 57"
proof (induction n rule: digits_of.induct)
  case (1 n)
  show ?case
  proof (cases "n < 10")
    case True
    with "1.prems" show ?thesis by (simp add: digits_of.simps [of n])
  next
    case False
    with "1" show ?thesis by (auto simp: digits_of.simps [of n])
  qed
qed

fun nat_of_digits :: "nat \<Rightarrow> ustr \<Rightarrow> nat" where
  "nat_of_digits acc [] = acc"
| "nat_of_digits acc (c # s) = nat_of_digits (10 * acc + (c - 48)) s"

lemma nat_of_digits_append: "nat_of_digits a (s @ t) = nat_of_digits (nat_of_digits a s) t"
  by (induction s arbitrary: a) auto

lemma nat_of_digits_digits_of [simp]: "nat_of_digits 0 (digits_of n) = n"
proof (induction n rule: digits_of.induct)
  case (1 n)
  then show ?case
    by (cases "n < 10") (simp_all add: digits_of.simps [of n] nat_of_digits_append)
qed

lemma digits_of_inject: "digits_of m = digits_of n \<longleftrightarrow> m = n"
  by (metis nat_of_digits_digits_of)

lemma digits_of_nonempty [simp]: "digits_of n \<noteq> []"
  by (subst digits_of.simps) simp

text \<open>\<open>int(x)\<close> of a float: truncation towards zero.\<close>

definition trunc :: "real \<Rightarrow> int" where
  "trunc x = (if x < 0 then \<lceil>x\<rceil> else \<lfloor>x\<rfloor>)"

lemma trunc_nonneg: "0 \<le> x \<Longrightarrow> trunc x = \<lfloor>x\<rfloor>"
  by (simp add: trunc_def)

lemma trunc_of_int [simp]: "trunc (of_int i) = i"
  by (simp add: trunc_def)

lemma trunc_numeral [simp]: "trunc (numeral n) = numeral n" "trunc 0 = 0" "trunc 1 = 1"
  by (simp_all add: trunc_def)

end
