(* ===== verification/Json.thy ===== *)
theory Json
  imports PyData
begin

section \<open>JSON values, surrogate scrubbing, JSON-lines files\<close>

text \<open>
  JSON values as Python holds them after \<open>json.loads\<close>; the scrubbing of lone surrogates
  (\<open>src/src/diploid_agent/sanitize.py\<close>); and the JSON-lines files behind the wake queue and the
  plan store: a line is blank, not JSON, or a decoded value.
\<close>

datatype py_exn = TypeError | KeyError | ValueError | AttributeError | IndexError | TimeoutError
  | RuntimeError | PermissionError | FileNotFoundError
  | Unmodelled \<comment> \<open>a value of a type the source's annotations exclude and its code does not check\<close>

datatype json =
    JNull
  | JBool bool
  | JInt int
  | JFloat real
  | JStr ustr
  | JList "json list"
  | JObj "(ustr \<times> json) list"

text \<open>Python's truth value of a JSON value (the \<open>x or default\<close> idiom).\<close>

fun truthy :: "json \<Rightarrow> bool" where
  "truthy JNull = False"
| "truthy (JBool b) = b"
| "truthy (JInt i) = (i \<noteq> 0)"
| "truthy (JFloat r) = (r \<noteq> 0)"
| "truthy (JStr s) = (s \<noteq> [])"
| "truthy (JList xs) = (xs \<noteq> [])"
| "truthy (JObj kvs) = (kvs \<noteq> [])"

definition truthy_opt :: "json option \<Rightarrow> bool" where
  "truthy_opt v = (case v of None \<Rightarrow> False | Some j \<Rightarrow> truthy j)"

subsection \<open>\<open>sanitize.py\<close>\<close>

definition is_surrogate :: "nat \<Rightarrow> bool" where
  "is_surrogate c \<longleftrightarrow> 55296 \<le> c \<and> c \<le> 57343"

definition sanitize_surrogates :: "ustr \<Rightarrow> ustr" where
  "sanitize_surrogates s = map (\<lambda>c. if is_surrogate c then 65533 else c) s"

fun sanitize_json_value :: "json \<Rightarrow> json" where
  "sanitize_json_value (JStr s) = JStr (sanitize_surrogates s)"
| "sanitize_json_value (JList xs) = JList (map sanitize_json_value xs)"
| "sanitize_json_value (JObj kvs) =
     JObj (dmerge [] (map (\<lambda>(k, v). (sanitize_surrogates k, sanitize_json_value v)) kvs))"
| "sanitize_json_value v = v"

text \<open>The same scrubbing of an object, as a dictionary.\<close>

definition sanitize_dict :: "(ustr, json) dict \<Rightarrow> (ustr, json) dict" where
  "sanitize_dict kvs = dmerge [] (map (\<lambda>(k, v). (sanitize_surrogates k, sanitize_json_value v)) kvs)"

lemma sanitize_JObj: "sanitize_json_value (JObj kvs) = JObj (sanitize_dict kvs)"
  by (simp add: sanitize_dict_def)

fun no_surrogates :: "json \<Rightarrow> bool" where
  "no_surrogates (JStr s) = list_all (\<lambda>c. \<not> is_surrogate c) s"
| "no_surrogates (JList xs) = list_all no_surrogates xs"
| "no_surrogates (JObj kvs) =
     list_all (\<lambda>(k, v). list_all (\<lambda>c. \<not> is_surrogate c) k \<and> no_surrogates v) kvs"
| "no_surrogates _ = True"

fun keys_distinct :: "json \<Rightarrow> bool" where
  "keys_distinct (JList xs) = list_all keys_distinct xs"
| "keys_distinct (JObj kvs) = (dict_ok kvs \<and> list_all (\<lambda>(k, v). keys_distinct v) kvs)"
| "keys_distinct _ = True"

lemma sanitize_surrogates_clean: "c \<in> set (sanitize_surrogates s) \<Longrightarrow> \<not> is_surrogate c"
  by (auto simp: sanitize_surrogates_def is_surrogate_def split: if_splits)

lemma sanitize_surrogates_id: "list_all (\<lambda>c. \<not> is_surrogate c) s \<Longrightarrow> sanitize_surrogates s = s"
  unfolding sanitize_surrogates_def by (induction s) auto

lemma length_sanitize_surrogates: "length (sanitize_surrogates s) = length s"
  by (simp add: sanitize_surrogates_def)

lemma set_dmerge: "set (dmerge d e) \<subseteq> set d \<union> set e"
  unfolding dmerge_def
proof (induction e arbitrary: d)
  case (Cons p e)
  obtain k v where p: "p = (k, v)" by force
  from Cons [of "dset k v d"] set_dset [of k v d] p show ?case by auto
qed simp

lemma dmerge_fresh: "dict_ok (d @ e) \<Longrightarrow> dmerge d e = d @ e"
  unfolding dmerge_def
proof (induction e arbitrary: d)
  case (Cons p e)
  obtain k v where p: "p = (k, v)" by force
  with Cons.prems have "k \<notin> set (dkeys d)" by (auto simp: dict_ok_def)
  with p Cons show ?case by (simp add: dset_new)
qed simp

lemma dmerge_Nil: "dict_ok e \<Longrightarrow> dmerge [] e = e"
  by (simp add: dmerge_fresh)

lemma no_surrogates_sanitize: "no_surrogates (sanitize_json_value v)"
proof (induction v rule: sanitize_json_value.induct)
  case (3 kvs)
  have "list_all (\<lambda>c. \<not> is_surrogate c) k \<and> no_surrogates w"
    if "(k, w) \<in> set (dmerge [] (map (\<lambda>(k, v). (sanitize_surrogates k, sanitize_json_value v)) kvs))" for k w
  proof -
    from that have "(k, w) \<in> set (map (\<lambda>(k, v). (sanitize_surrogates k, sanitize_json_value v)) kvs)"
      using set_dmerge by fastforce
    then obtain k0 v0 where "(k0, v0) \<in> set kvs" and "k = sanitize_surrogates k0"
      and "w = sanitize_json_value v0" by auto
    with 3 show ?thesis by (auto simp: list_all_iff dest: sanitize_surrogates_clean)
  qed
  then show ?case by (auto simp: list_all_iff)
qed (auto simp: list_all_iff dest: sanitize_surrogates_clean)

lemma sanitize_json_value_id: "no_surrogates v \<Longrightarrow> keys_distinct v \<Longrightarrow> sanitize_json_value v = v"
proof (induction v rule: sanitize_json_value.induct)
  case (2 xs)
  then show ?case by (auto simp: list_all_iff intro: map_idI)
next
  case (3 kvs)
  have "map (\<lambda>(k, v). (sanitize_surrogates k, sanitize_json_value v)) kvs = kvs"
  proof (rule map_idI)
    fix p assume p: "p \<in> set kvs"
    obtain k w where kw: "p = (k, w)" by force
    from 3(2,3) p kw have "list_all (\<lambda>c. \<not> is_surrogate c) k" "no_surrogates w" "keys_distinct w"
      by (auto simp: list_all_iff)
    with 3(1) p kw show "(case p of (k, v) \<Rightarrow> (sanitize_surrogates k, sanitize_json_value v)) = p"
      by (simp add: sanitize_surrogates_id)
  qed
  with 3(3) show ?case by (simp add: dmerge_Nil)
qed (auto simp: sanitize_surrogates_id)

lemma keys_distinct_sanitize: "keys_distinct (sanitize_json_value v)"
proof (induction v rule: sanitize_json_value.induct)
  case (3 kvs)
  have "keys_distinct w"
    if "(k, w) \<in> set (dmerge [] (map (\<lambda>(k, v). (sanitize_surrogates k, sanitize_json_value v)) kvs))" for k w
  proof -
    from that have "(k, w) \<in> set (map (\<lambda>(k, v). (sanitize_surrogates k, sanitize_json_value v)) kvs)"
      using set_dmerge by fastforce
    with 3 show ?thesis by auto
  qed
  then show ?case by (auto simp: list_all_iff dict_ok_dmerge)
qed (auto simp: list_all_iff)

text \<open>Scrubbing twice is scrubbing once.\<close>

lemma sanitize_json_value_idem: "sanitize_json_value (sanitize_json_value v) = sanitize_json_value v"
  by (rule sanitize_json_value_id [OF no_surrogates_sanitize keys_distinct_sanitize])

text \<open>
  Claim C40.  What the sanitizer returns is clean: no text and no key of it, at any depth, holds a surrogate,
  the keys of each object differ, and sanitizing it again changes nothing.
\<close>

theorem sanitized_values_are_clean:
  "no_surrogates (sanitize_json_value v) \<and> keys_distinct (sanitize_json_value v)
     \<and> sanitize_json_value (sanitize_json_value v) = sanitize_json_value v"
  using no_surrogates_sanitize keys_distinct_sanitize sanitize_json_value_idem by blast

subsection \<open>JSON-lines files\<close>

datatype 'j line = Blank | Malformed | Parsed 'j

datatype 'v decoded = Good 'v | Skip | Crash py_exn

fun jsonl_load_from :: "('j \<Rightarrow> 'v decoded) \<Rightarrow> ('v \<Rightarrow> 'k) \<Rightarrow> ('k, 'v) dict \<Rightarrow> 'j line list
    \<Rightarrow> py_exn + ('k, 'v) dict" where
  "jsonl_load_from dec key d [] = Inr d"
| "jsonl_load_from dec key d (Blank # ls) = jsonl_load_from dec key d ls"
| "jsonl_load_from dec key d (Malformed # ls) = jsonl_load_from dec key d ls"
| "jsonl_load_from dec key d (Parsed j # ls) =
     (case dec j of
        Good v \<Rightarrow> jsonl_load_from dec key (dset (key v) v d) ls
      | Skip \<Rightarrow> jsonl_load_from dec key d ls
      | Crash e \<Rightarrow> Inl e)"

definition jsonl_save :: "('v \<Rightarrow> 'j) \<Rightarrow> ('k, 'v) dict \<Rightarrow> 'j line list" where
  "jsonl_save enc d = map (\<lambda>v. Parsed (enc v)) (dvals d)"

text \<open>A dictionary keyed by its values' own ids, all of them well-typed.\<close>

definition keyed_ok :: "('v \<Rightarrow> 'k) \<Rightarrow> ('v \<Rightarrow> bool) \<Rightarrow> ('k, 'v) dict \<Rightarrow> bool" where
  "keyed_ok key valid d \<longleftrightarrow> dict_ok d \<and> list_all (\<lambda>(k, v). key v = k \<and> valid v) d"

lemma keyed_ok_Nil [simp]: "keyed_ok key valid []"
  by (simp add: keyed_ok_def)

lemma keyed_ok_dset: "keyed_ok key valid d \<Longrightarrow> key v = k \<Longrightarrow> valid v \<Longrightarrow> keyed_ok key valid (dset k v d)"
  using set_dset [of k v d] by (auto simp: keyed_ok_def list_all_iff)

lemma keyed_ok_ddel: "keyed_ok key valid d \<Longrightarrow> keyed_ok key valid (ddel k d)"
  by (auto simp: keyed_ok_def list_all_iff set_ddel)

lemma keyed_ok_dpop_all: "keyed_ok key valid d \<Longrightarrow> keyed_ok key valid (dpop_all ks d)"
  unfolding dpop_all_def by (induction ks arbitrary: d) (auto intro: keyed_ok_ddel)

lemma keyed_ok_map:
  "keyed_ok key valid d \<Longrightarrow> (\<And>k v. valid v \<Longrightarrow> key (f k v) = key v \<and> valid (f k v)) \<Longrightarrow>
   keyed_ok key valid (map (\<lambda>(k, v). (k, f k v)) d)"
  by (fastforce simp: keyed_ok_def list_all_iff)

lemma keyed_ok_get: "keyed_ok key valid d \<Longrightarrow> dget k d = Some v \<Longrightarrow> key v = k \<and> valid v"
  by (auto simp: keyed_ok_def list_all_iff dest!: map_of_SomeD)

lemma keyed_ok_vals:
  "keyed_ok key valid d \<Longrightarrow> v \<in> set (dvals d) \<longleftrightarrow> dget (key v) d = Some v"
proof -
  assume ok: "keyed_ok key valid d"
  have "v \<in> set (dvals d) \<longleftrightarrow> (key v, v) \<in> set d"
    using ok by (force simp: keyed_ok_def list_all_iff)
  with ok show ?thesis by (simp add: keyed_ok_def dget_iff_mem)
qed

locale jsonl_codec =
  fixes enc :: "'v \<Rightarrow> 'j" and dec :: "'j \<Rightarrow> 'v decoded" and key :: "'v \<Rightarrow> 'k" and valid :: "'v \<Rightarrow> bool"
  assumes dec_enc: "valid v \<Longrightarrow> dec (enc v) = Good v"
    and valid_dec: "dec j = Good v \<Longrightarrow> valid v"
begin

lemma load_from_save:
  "keyed_ok key valid (d @ e) \<Longrightarrow> jsonl_load_from dec key d (jsonl_save enc e) = Inr (d @ e)"
proof (induction e arbitrary: d)
  case (Cons p e)
  obtain k v where p: "p = (k, v)" by force
  with Cons.prems have kv: "key v = k" "valid v" and k: "k \<notin> set (dkeys d)"
    by (auto simp: keyed_ok_def dict_ok_def)
  then have step: "dset (key v) v d = d @ [(k, v)]" by (simp add: dset_new)
  have "jsonl_load_from dec key (d @ [(k, v)]) (jsonl_save enc e) = Inr ((d @ [(k, v)]) @ e)"
    by (rule Cons.IH) (use Cons.prems p in simp)
  then show ?case by (simp add: p jsonl_save_def dec_enc [OF kv(2)] step)
qed (simp add: jsonl_save_def)

lemma load_save: "keyed_ok key valid e \<Longrightarrow> jsonl_load_from dec key [] (jsonl_save enc e) = Inr e"
  using load_from_save [of "[]" e] by simp

lemma load_from_ok:
  "jsonl_load_from dec key d ls = Inr e \<Longrightarrow> keyed_ok key valid d \<Longrightarrow> keyed_ok key valid e"
proof (induction ls arbitrary: d)
  case (Cons l ls)
  show ?case
  proof (cases l)
    case (Parsed j)
    with Cons show ?thesis
      by (cases "dec j") (auto intro: Cons.IH keyed_ok_dset valid_dec)
  qed (use Cons in auto)
qed simp

lemma load_ok: "jsonl_load_from dec key [] ls = Inr e \<Longrightarrow> keyed_ok key valid e"
  by (rule load_from_ok) auto

end

subsection \<open>Stores shared by several processes\<close>

text \<open>Running steps one after the other, collecting what they hand out.\<close>

fun run_steps :: "('a \<Rightarrow> 's \<Rightarrow> 's \<times> 'o list) \<Rightarrow> 'a list \<Rightarrow> 's \<Rightarrow> 's \<times> 'o list" where
  "run_steps f [] s = (s, [])"
| "run_steps f (x # xs) s =
     (let (s', out) = f x s; (s'', out') = run_steps f xs s' in (s'', out @ out'))"

lemma run_steps_inv:
  "P s \<Longrightarrow> (\<And>x s. P s \<Longrightarrow> P (fst (f x s))) \<Longrightarrow> P (fst (run_steps f xs s))"
  by (induction xs arbitrary: s) (simp_all add: case_prod_unfold Let_def)

text \<open>
  A store in a file: \<open>app\<close> is what an operation does to the decoded contents, \<open>proc\<close> is a process
  (with some private state of its own) running the operation on the file.
\<close>

locale loaded_store =
  fixes load :: "'f \<Rightarrow> py_exn + 'd"
    and app :: "'op \<Rightarrow> 'd \<Rightarrow> 'd \<times> 'o list" and proc :: "'c \<times> 'op \<Rightarrow> 'f \<Rightarrow> 'f \<times> 'o list"
  assumes proc_load: "load f = Inr d \<Longrightarrow>
    load (fst (proc (c, op) f)) = Inr (fst (app op d)) \<and> snd (proc (c, op) f) = snd (app op d)"
begin

lemma processes_refine:
  "load f = Inr d \<Longrightarrow>
   load (fst (run_steps proc steps f)) = Inr (fst (run_steps app (map snd steps) d)) \<and>
   snd (run_steps proc steps f) = snd (run_steps app (map snd steps) d)"
proof (induction steps arbitrary: f d)
  case (Cons st steps)
  obtain c op where st: "st = (c, op)" by force
  note s = proc_load [OF Cons.prems, of c op]
  from Cons.IH [OF s [THEN conjunct1]] s st show ?case
    by (simp add: case_prod_unfold Let_def)
qed simp

end

text \<open>A store every transaction of which rewrites the file is one.\<close>

locale atomic_store =
  fixes load :: "'f \<Rightarrow> py_exn + 'd" and save :: "'d \<Rightarrow> 'f" and ok :: "'d \<Rightarrow> bool"
    and app :: "'op \<Rightarrow> 'd \<Rightarrow> 'd \<times> 'o list" and proc :: "'c \<times> 'op \<Rightarrow> 'f \<Rightarrow> 'f \<times> 'o list"
  assumes load_save: "ok d \<Longrightarrow> load (save d) = Inr d"
    and load_ok: "load f = Inr d \<Longrightarrow> ok d"
    and app_ok: "ok d \<Longrightarrow> ok (fst (app op d))"
    and proc_step: "load f = Inr d \<Longrightarrow> proc (c, op) f = (save (fst (app op d)), snd (app op d))"
begin

lemma run_ok: "ok d \<Longrightarrow> ok (fst (run_steps app ops d))"
  by (rule run_steps_inv) (auto intro: app_ok)

lemma proc_saves:
  "load f = Inr d \<Longrightarrow> load (fst (proc (c, op) f)) = Inr (fst (app op d)) \<and> snd (proc (c, op) f) = snd (app op d)"
  by (simp add: proc_step load_save [OF app_ok [OF load_ok]])

end

sublocale atomic_store \<subseteq> loaded_store load app proc
  by unfold_locales (rule proc_saves)

end
