(* ===== verification/Models.thy ===== *)
theory Models
  imports Json
begin

section \<open>Shared records: sessions, chat state, the running turn\<close>

text \<open>
  \<open>src/src/diploid_agent/models.py\<close>: the session record with its turn counter, the state of a
  chat, the result of a turn, and the running turn's rolling text window with the separation of
  the thought stream from the message stream.
\<close>

subsection \<open>\<open>SessionRecord\<close>: numbering turns\<close>

text \<open>The fields the modelled code reads or writes.\<close>

record session_record =
  sr_chat_id :: ustr
  sr_session_number :: int
  sr_session_id :: ustr
  sr_model :: ustr
  sr_persona :: ustr
  sr_cwd :: ustr
  sr_created_at :: secs
  sr_updated_at :: secs
  sr_turn_number :: int
  sr_pending_turn_number :: "int option"
  sr_label :: "ustr option"
  sr_parent :: "int option"
  sr_last_stop_reason :: "ustr option"
  sr_persona_memory_exceeded :: bool
  sr_chat_memory_exceeded :: bool
  sr_cumulative_metrics :: "(ustr, json) dict option"
  sr_last_turn_metrics :: "(ustr, json) dict option"
  sr_first_turn_metrics :: "(ustr, json) dict option"
  sr_enabled_mcp_servers :: "ustr list option"
  sr_disabled_mcp_servers :: "ustr list option"
  sr_enabled_skills :: "ustr list option"
  sr_disabled_skills :: "ustr list option"
  sr_plugin_overrides :: "(ustr, bool) dict option"
  sr_pressure_handoff_done :: bool
  sr_external_turns :: int

definition next_turn_number :: "session_record \<Rightarrow> int" where
  "next_turn_number r =
     (case sr_pending_turn_number r of Some p \<Rightarrow> p | None \<Rightarrow> sr_turn_number r + 1)"

definition reserve_turn_number :: "session_record \<Rightarrow> session_record \<times> int" where
  "reserve_turn_number r =
     (let p = (case sr_pending_turn_number r of Some p \<Rightarrow> p + 1 | None \<Rightarrow> sr_turn_number r + 1)
      in (r\<lparr>sr_pending_turn_number := Some p\<rparr>, p))"

definition consume_turn_number :: "session_record \<Rightarrow> session_record \<times> int" where
  "consume_turn_number r =
     (case sr_pending_turn_number r of
        Some p \<Rightarrow> (r\<lparr>sr_turn_number := p, sr_pending_turn_number := None\<rparr>, p)
      | None \<Rightarrow> (r\<lparr>sr_turn_number := sr_turn_number r + 1\<rparr>, sr_turn_number r + 1))"

datatype turn_op = Reserve | Consume

fun turn_step :: "session_record \<Rightarrow> turn_op \<Rightarrow> session_record \<times> int" where
  "turn_step r Reserve = reserve_turn_number r"
| "turn_step r Consume = consume_turn_number r"

text \<open>The numbers a run of reservations (turns that start) and completions hands out.\<close>

fun reserved_numbers :: "session_record \<Rightarrow> turn_op list \<Rightarrow> int list" where
  "reserved_numbers r [] = []"
| "reserved_numbers r (op # ops) =
     (let (r', n) = turn_step r op
      in (if op = Reserve then n # reserved_numbers r' ops else reserved_numbers r' ops))"

definition turn_floor :: "session_record \<Rightarrow> int" where
  "turn_floor r = (case sr_pending_turn_number r of Some p \<Rightarrow> p | None \<Rightarrow> sr_turn_number r)"

lemma reserve_floor:
  "reserve_turn_number r = (r', n) \<Longrightarrow> turn_floor r < n \<and> turn_floor r' = n \<and> next_turn_number r' = n"
  by (auto simp: reserve_turn_number_def turn_floor_def next_turn_number_def Let_def split: option.splits)

lemma consume_floor:
  "consume_turn_number r = (r', n) \<Longrightarrow> turn_floor r \<le> turn_floor r' \<and> turn_floor r' = n \<and> sr_turn_number r' = n"
  by (auto simp: consume_turn_number_def turn_floor_def split: option.splits)

lemma turn_step_floor: "turn_step r op = (r', n) \<Longrightarrow> turn_floor r \<le> turn_floor r'"
  by (cases op) (auto dest: reserve_floor consume_floor)

lemma reserved_above_floor: "n \<in> set (reserved_numbers r ops) \<Longrightarrow> turn_floor r < n"
proof (induction ops arbitrary: r)
  case (Cons op ops)
  obtain r' m where st: "turn_step r op = (r', m)" by force
  from Cons.prems st consider "op = Reserve" "n = m" | "n \<in> set (reserved_numbers r' ops)"
    by (auto split: if_splits)
  then show ?case
  proof cases
    case 1
    with st show ?thesis by (auto dest: reserve_floor)
  next
    case 2
    with Cons.IH [of r'] turn_step_floor [OF st] show ?thesis by simp
  qed
qed simp

lemma reserved_sorted: "sorted_wrt (<) (reserved_numbers r ops)"
proof (induction ops arbitrary: r)
  case (Cons op ops)
  obtain r' m where st: "turn_step r op = (r', m)" by force
  show ?case
  proof (cases "op = Reserve")
    case True
    with st have "turn_floor r' = m" by (auto dest: reserve_floor)
    with True st Cons show ?thesis by (auto dest: reserved_above_floor)
  next
    case False
    with st Cons show ?thesis by auto
  qed
qed simp

subsection \<open>\<open>ChatState\<close> and \<open>ChatResult\<close>\<close>

record chat_state =
  cs_sessions :: "(int, session_record) dict"
  cs_next_session_number :: int

record chat_result =
  cr_reply :: ustr
  cr_notice :: "ustr option"
  cr_continuation :: bool
  cr_dispatch_id :: "ustr option"
  cr_session_id :: "ustr option"
  cr_session_number :: "int option"
  cr_turn_number :: "int option"
  cr_metrics :: "(ustr, json) dict option"
  cr_reply_to_message_id :: "int option"
  cr_transient :: bool

definition mk_result :: "ustr \<Rightarrow> chat_result" where
  "mk_result s = \<lparr>cr_reply = s, cr_notice = None, cr_continuation = False, cr_dispatch_id = None,
     cr_session_id = None, cr_session_number = None, cr_turn_number = None, cr_metrics = None,
     cr_reply_to_message_id = None, cr_transient = False\<rparr>"


subsection \<open>\<open>ActiveTurn\<close>: the rolling window of a running turn\<close>

definition MAX_THOUGHT_TEXT_CHARS :: nat where
  "MAX_THOUGHT_TEXT_CHARS = 20000"

lemma MAX_pos [simp]: "0 < MAX_THOUGHT_TEXT_CHARS"
  by (simp add: MAX_THOUGHT_TEXT_CHARS_def)

record active_turn =
  at_chat_id :: ustr
  at_session_id :: "ustr option"
  at_user_message :: ustr
  at_start_time :: secs
  at_message_text :: ustr
  at_thought_text :: ustr
  at_thought_prefix :: ustr
  at_full_text :: ustr
  at_thought_total :: nat
  at_full_text_offset :: nat
  at_stopped :: bool
  at_current_intent :: ustr
  at_last_side_effect :: ustr
  at_last_side_effect_at :: secs
  at_side_effects :: "json list"

text \<open>
  \<open>__post_init__\<close> derives the intent from the first line of the message.  A message of white
  space only has no line after \<open>strip()\<close>, and \<open>splitlines()[0]\<close> raises.
\<close>

definition first_intent :: "ustr \<Rightarrow> py_exn + ustr" where
  "first_intent msg =
     (if msg = [] then Inr []
      else (case splitlines (py_strip msg) of
              [] \<Rightarrow> Inl IndexError
            | l # _ \<Rightarrow> Inr (take 200 l)))"

definition new_active_turn :: "ustr \<Rightarrow> ustr option \<Rightarrow> ustr \<Rightarrow> secs \<Rightarrow> py_exn + active_turn" where
  "new_active_turn chat sid msg t =
     (case first_intent msg of
        Inl e \<Rightarrow> Inl e
      | Inr intent \<Rightarrow> Inr \<lparr>at_chat_id = chat, at_session_id = sid, at_user_message = msg,
          at_start_time = t, at_message_text = [], at_thought_text = [], at_thought_prefix = [],
          at_full_text = [], at_thought_total = 0, at_full_text_offset = 0, at_stopped = False,
          at_current_intent = intent, at_last_side_effect = [], at_last_side_effect_at = 0,
          at_side_effects = []\<rparr>)"

definition append_full_text :: "active_turn \<Rightarrow> ustr \<Rightarrow> active_turn" where
  "append_full_text a text =
     (let full = at_full_text a @ text;
          excess = length full - MAX_THOUGHT_TEXT_CHARS
      in if excess > 0
         then a\<lparr>at_full_text := drop excess full,
                 at_full_text_offset := at_full_text_offset a + length (take excess full)\<rparr>
         else a\<lparr>at_full_text := full\<rparr>)"

definition full_text_has_thought_prefix :: "active_turn \<Rightarrow> bool" where
  "full_text_has_thought_prefix a =
     (if at_thought_total a = 0 \<or> at_full_text a = [] then False
      else if at_thought_total a \<le> MAX_THOUGHT_TEXT_CHARS
      then prefix (at_thought_text a) (at_full_text a)
      else let prefix_start = at_full_text_offset a;
               prefix_end = min MAX_THOUGHT_TEXT_CHARS (prefix_start + length (at_full_text a))
           in if prefix_end \<le> prefix_start then False
              else take (prefix_end - prefix_start) (at_full_text a)
                   = slice prefix_start prefix_end (at_thought_prefix a))"

definition recompute_message_text :: "active_turn \<Rightarrow> active_turn" where
  "recompute_message_text a =
     (if at_full_text a = [] then a\<lparr>at_message_text := []\<rparr>
      else let m = (if at_thought_total a > 0 \<and> full_text_has_thought_prefix a
                    then drop (at_thought_total a - at_full_text_offset a) (at_full_text a)
                    else at_full_text a)
           in a\<lparr>at_message_text :=
                 (if length m > MAX_THOUGHT_TEXT_CHARS then last_n MAX_THOUGHT_TEXT_CHARS m else m)\<rparr>)"

definition append_thought_text :: "active_turn \<Rightarrow> ustr \<Rightarrow> active_turn" where
  "append_thought_text a text =
     (let thought = at_thought_text a @ text;
          pre = at_thought_prefix a @ text
      in a\<lparr>at_thought_text :=
             (if length thought > MAX_THOUGHT_TEXT_CHARS then last_n MAX_THOUGHT_TEXT_CHARS thought else thought),
           at_thought_prefix :=
             (if length pre > MAX_THOUGHT_TEXT_CHARS then take MAX_THOUGHT_TEXT_CHARS pre else pre),
           at_thought_total := at_thought_total a + length text\<rparr>)"

definition final_reply_text :: "active_turn \<Rightarrow> ustr \<Rightarrow> ustr" where
  "final_reply_text a reply =
     (if at_thought_total a = 0 then reply
      else let thought = (if at_thought_total a \<le> MAX_THOUGHT_TEXT_CHARS
                          then at_thought_text a else at_thought_prefix a)
           in if thought \<noteq> [] \<and> prefix thought reply
              then lstrip_by (\<lambda>c. c = 10) (drop (at_thought_total a) reply)
              else reply)"

text \<open>
  The abstract view: the whole thought \<open>T\<close> and the whole message stream \<open>S\<close> received so far.
  The turn keeps the last \<open>MAX\<close> characters of \<open>S\<close>, the first and the last \<open>MAX\<close> of \<open>T\<close>.
\<close>

definition window_of :: "active_turn \<Rightarrow> ustr \<Rightarrow> ustr \<Rightarrow> bool" where
  "window_of a T S \<longleftrightarrow>
     at_full_text a = last_n MAX_THOUGHT_TEXT_CHARS S \<and>
     at_full_text_offset a = length S - MAX_THOUGHT_TEXT_CHARS \<and>
     at_thought_text a = last_n MAX_THOUGHT_TEXT_CHARS T \<and>
     at_thought_prefix a = take MAX_THOUGHT_TEXT_CHARS T \<and>
     at_thought_total a = length T"

datatype chunk = MessageChunk ustr | ThoughtChunk ustr

fun feed :: "active_turn \<Rightarrow> chunk \<Rightarrow> active_turn" where
  "feed a (MessageChunk t) = append_full_text a t"
| "feed a (ThoughtChunk t) = append_thought_text a t"

definition message_stream :: "chunk list \<Rightarrow> ustr" where
  "message_stream cs = concat (map (\<lambda>c. case c of MessageChunk t \<Rightarrow> t | ThoughtChunk t \<Rightarrow> []) cs)"

definition thought_stream :: "chunk list \<Rightarrow> ustr" where
  "thought_stream cs = concat (map (\<lambda>c. case c of MessageChunk t \<Rightarrow> [] | ThoughtChunk t \<Rightarrow> t) cs)"

lemma append_full_text_eq:
  "append_full_text a t = a\<lparr>at_full_text := last_n MAX_THOUGHT_TEXT_CHARS (at_full_text a @ t),
     at_full_text_offset := at_full_text_offset a + (length (at_full_text a @ t) - MAX_THOUGHT_TEXT_CHARS)\<rparr>"
proof (cases "MAX_THOUGHT_TEXT_CHARS < length (at_full_text a @ t)")
  case True
  then have "length (take (length (at_full_text a @ t) - MAX_THOUGHT_TEXT_CHARS) (at_full_text a @ t))
      = length (at_full_text a @ t) - MAX_THOUGHT_TEXT_CHARS" by (simp only: length_take)
  with True show ?thesis
    by (simp only: append_full_text_def Let_def last_n_def zero_less_diff if_True simp_thms)
next
  case False
  then show ?thesis by (simp add: append_full_text_def Let_def)
qed

lemma append_thought_text_eq:
  "append_thought_text a t = a\<lparr>at_thought_text := last_n MAX_THOUGHT_TEXT_CHARS (at_thought_text a @ t),
     at_thought_prefix := take MAX_THOUGHT_TEXT_CHARS (at_thought_prefix a @ t),
     at_thought_total := at_thought_total a + length t\<rparr>"
  by (simp only: append_thought_text_def Let_def last_n_if take_if)

lemma append_full_text_window: "window_of a T S \<Longrightarrow> window_of (append_full_text a t) T (S @ t)"
  by (auto simp: window_of_def append_full_text_eq last_n_append_last_n)

lemma append_thought_text_window: "window_of a T S \<Longrightarrow> window_of (append_thought_text a t) (T @ t) S"
  by (auto simp: window_of_def append_thought_text_eq last_n_append_last_n take_append_take
      simp del: take_append)

lemma feed_window:
  "window_of a T S \<Longrightarrow> window_of (foldl feed a cs) (T @ thought_stream cs) (S @ message_stream cs)"
proof (induction cs arbitrary: a T S)
  case (Cons c cs)
  show ?case
  proof (cases c)
    case (MessageChunk t)
    from Cons.IH [OF append_full_text_window [OF Cons.prems, of t]] MessageChunk show ?thesis
      by (simp add: message_stream_def thought_stream_def)
  next
    case (ThoughtChunk t)
    from Cons.IH [OF append_thought_text_window [OF Cons.prems, of t]] ThoughtChunk show ?thesis
      by (simp add: message_stream_def thought_stream_def)
  qed
qed (simp add: message_stream_def thought_stream_def)

lemma new_active_turn_window: "new_active_turn chat sid msg t = Inr a \<Longrightarrow> window_of a [] []"
  by (auto simp: new_active_turn_def window_of_def last_n_def split: sum.splits)

lemma full_text_of_window:
  "window_of a T (T @ M) \<Longrightarrow> length M \<le> MAX_THOUGHT_TEXT_CHARS \<Longrightarrow>
   at_full_text a = drop (at_full_text_offset a) T @ M"
  by (auto simp: window_of_def last_n_def)

lemma message_text_of_prefix:
  assumes "full_text_has_thought_prefix a" "length (at_full_text a) \<le> MAX_THOUGHT_TEXT_CHARS"
  shows "at_message_text (recompute_message_text a)
    = drop (at_thought_total a - at_full_text_offset a) (at_full_text a)"
  using assms by (auto simp: recompute_message_text_def full_text_has_thought_prefix_def Let_def)

lemma message_text_no_prefix:
  assumes "\<not> full_text_has_thought_prefix a" "length (at_full_text a) \<le> MAX_THOUGHT_TEXT_CHARS"
  shows "at_message_text (recompute_message_text a) = at_full_text a"
  using assms by (auto simp: recompute_message_text_def Let_def)

lemma window_length: "window_of a T S \<Longrightarrow> length (at_full_text a) \<le> MAX_THOUGHT_TEXT_CHARS"
  by (simp add: window_of_def)

lemma short_thought_prefix:
  "window_of a T (T @ M) \<Longrightarrow> length (T @ M) \<le> MAX_THOUGHT_TEXT_CHARS \<Longrightarrow> T \<noteq> [] \<Longrightarrow>
   full_text_has_thought_prefix a"
  by (simp add: window_of_def full_text_has_thought_prefix_def last_n_id)

lemma long_thought_prefix:
  assumes w: "window_of a T (T @ M)" and long: "MAX_THOUGHT_TEXT_CHARS < length T"
    and short: "length (T @ M) < 2 * MAX_THOUGHT_TEXT_CHARS"
  shows "full_text_has_thought_prefix a"
proof -
  let ?X = MAX_THOUGHT_TEXT_CHARS
  let ?off = "length (T @ M) - ?X"
  have off: "at_full_text_offset a = ?off" "?off < ?X" using w long short by (auto simp: window_of_def)
  have full: "at_full_text a = drop ?off (T @ M)" "length (at_full_text a) = ?X"
    using w long by (auto simp: window_of_def last_n_def)
  have e: "min ?X (?off + ?X) = ?X" by simp
  have "take (?X - ?off) (drop ?off (T @ M)) = drop ?off (take ?X (T @ M))"
    by (simp only: drop_take)
  also have "take ?X (T @ M) = at_thought_prefix a" using w long by (simp add: window_of_def)
  also have "drop ?off (at_thought_prefix a) = slice ?off ?X (at_thought_prefix a)"
    using w by (simp add: slice_def window_of_def)
  finally have eq: "take (?X - at_full_text_offset a) (at_full_text a)
      = slice (at_full_text_offset a) ?X (at_thought_prefix a)" by (simp only: full off)
  have end_X: "min ?X (at_full_text_offset a + length (at_full_text a)) = ?X"
    using full(2) by (simp add: min_def)
  have "at_full_text a \<noteq> []" using full(2) MAX_pos by (metis length_0_conv less_numeral_extra(3))
  moreover have "at_full_text_offset a < ?X" "at_thought_total a = length T"
    using off w by (auto simp: window_of_def)
  ultimately show ?thesis using eq end_X long end_X long
    by (auto simp: full_text_has_thought_prefix_def Let_def)
qed

lemma message_text_separated:
  assumes w: "window_of a T (T @ M)"
    and c: "length (T @ M) \<le> MAX_THOUGHT_TEXT_CHARS \<or> MAX_THOUGHT_TEXT_CHARS \<le> length M \<or>
      (MAX_THOUGHT_TEXT_CHARS < length T \<and> length (T @ M) < 2 * MAX_THOUGHT_TEXT_CHARS)"
  shows "at_message_text (recompute_message_text a) = last_n MAX_THOUGHT_TEXT_CHARS M"
proof (cases "MAX_THOUGHT_TEXT_CHARS \<le> length M")
  case True
  have "at_full_text a = last_n MAX_THOUGHT_TEXT_CHARS M"
    using w True by (simp add: window_of_def last_n_def)
  moreover have "at_thought_total a - at_full_text_offset a = 0"
    using w True by (simp add: window_of_def)
  ultimately show ?thesis
    using message_text_of_prefix [of a] message_text_no_prefix [of a] window_length [OF w]
    by (cases "full_text_has_thought_prefix a") simp_all
next
  case False
  then have M: "last_n MAX_THOUGHT_TEXT_CHARS M = M" and full: "at_full_text a = drop (at_full_text_offset a) T @ M"
    using full_text_of_window [OF w] by (auto simp: last_n_id)
  have tot: "at_thought_total a = length T" using w by (simp add: window_of_def)
  show ?thesis
  proof (cases "T = []")
    case True
    with M full tot window_length [OF w] show ?thesis
      by (simp add: message_text_no_prefix full_text_has_thought_prefix_def)
  next
    case T: False
    have "full_text_has_thought_prefix a"
      using c False T short_thought_prefix [OF w] long_thought_prefix [OF w] by auto
    with M full tot window_length [OF w] show ?thesis
      by (simp add: message_text_of_prefix)
  qed
qed

lemma message_text_leak:
  assumes w: "window_of a T (T @ M)" and short: "length T \<le> MAX_THOUGHT_TEXT_CHARS"
    and over: "MAX_THOUGHT_TEXT_CHARS < length (T @ M)" and M: "length M < MAX_THOUGHT_TEXT_CHARS"
    and differ: "\<not> prefix T (drop (length (T @ M) - MAX_THOUGHT_TEXT_CHARS) T @ M)"
  shows "at_message_text (recompute_message_text a)
           = drop (length (T @ M) - MAX_THOUGHT_TEXT_CHARS) T @ M"
    and "drop (length (T @ M) - MAX_THOUGHT_TEXT_CHARS) T \<noteq> []"
proof -
  have off: "at_full_text_offset a = length (T @ M) - MAX_THOUGHT_TEXT_CHARS"
    using w by (simp add: window_of_def)
  have full: "at_full_text a = drop (length (T @ M) - MAX_THOUGHT_TEXT_CHARS) T @ M"
    using full_text_of_window [OF w] M off by simp
  have "at_thought_text a = T" "at_thought_total a = length T"
    using w short by (simp_all add: window_of_def last_n_id)
  with full differ short have "\<not> full_text_has_thought_prefix a"
    by (simp add: full_text_has_thought_prefix_def)
  from message_text_no_prefix [OF this window_length [OF w]] full
  show "at_message_text (recompute_message_text a)
           = drop (length (T @ M) - MAX_THOUGHT_TEXT_CHARS) T @ M" by simp
  show "drop (length (T @ M) - MAX_THOUGHT_TEXT_CHARS) T \<noteq> []" using over M by simp
qed

text \<open>
  Turn numbers are never reused: over any sequence of turns that start (each reserves a number)
  and turns that complete (the reserved number becomes the session's turn number), the reserved numbers are
  strictly increasing and above the number the session had reached before, completed or reserved.
\<close>

theorem reserved_turn_numbers_increase:
  "sorted_wrt (<) (turn_floor r # reserved_numbers r ops)"
  using reserved_sorted [of r ops] reserved_above_floor [of _ r ops] by simp

end
