(* ===== verification/WakeQueue.thy ===== *)
theory WakeQueue
  imports Models
begin

section \<open>The wake queue\<close>

text \<open>
  \<open>src/src/diploid_agent/runtime/wake_queue.py\<close> and \<open>WakeEvent\<close> of \<open>models.py\<close>.  The queue is a
  JSON-lines file and an in-memory dictionary; every operation takes the cross-process lock,
  re-reads the file, works on the dictionary and rewrites the file (\<open>transaction\<close>).  The lock makes
  a transaction atomic, so the steps of several processes are a sequence of transactions.
  Operations take the clock reading the code obtains from \<open>time.time()\<close> as an argument.
  A line that holds JSON which is not an object raises \<open>AttributeError\<close> in \<open>from_dict\<close>, which
  \<open>_load\<close> does not catch; a field of a type the annotations exclude is \<open>Unmodelled\<close>.
\<close>

record wake_event =
  we_id :: ustr
  we_chat_id :: ustr
  we_reason :: ustr
  we_priority :: int
  we_scheduled_at :: secs
  we_payload :: "(ustr, json) dict"
  we_silent :: bool
  we_created_at :: secs
  we_ready :: bool
  we_attempts :: int
  we_leased_until :: "secs option"

subsection \<open>\<open>to_dict\<close> and \<open>from_dict\<close>\<close>

definition wake_to_dict :: "wake_event \<Rightarrow> json" where
  "wake_to_dict e = JObj
     [(u ''id'', JStr (we_id e)), (u ''chat_id'', JStr (we_chat_id e)), (u ''reason'', JStr (we_reason e)),
      (u ''priority'', JInt (we_priority e)), (u ''scheduled_at'', JFloat (we_scheduled_at e)),
      (u ''payload'', JObj (we_payload e)), (u ''silent'', JBool (we_silent e)),
      (u ''created_at'', JFloat (we_created_at e)), (u ''ready'', JBool (we_ready e)),
      (u ''attempts'', JInt (we_attempts e)),
      (u ''leased_until'', case we_leased_until e of None \<Rightarrow> JNull | Some t \<Rightarrow> JFloat t)]"

text \<open>A constructor argument: absent, of the annotated type, or of another type.\<close>

datatype 'a arg = Missing | Arg 'a | BadArg

definition field_of :: "string \<Rightarrow> (json \<Rightarrow> 'a option) \<Rightarrow> (ustr, json) dict \<Rightarrow> 'a arg" where
  "field_of name conv kvs =
     (case dget (u name) kvs of
        None \<Rightarrow> Missing
      | Some j \<Rightarrow> (case conv j of None \<Rightarrow> BadArg | Some v \<Rightarrow> Arg v))"

fun with_default :: "'a \<Rightarrow> 'a arg \<Rightarrow> 'a arg" where
  "with_default d Missing = Arg d"
| "with_default d a = a"

fun as_str :: "json \<Rightarrow> ustr option" where
  "as_str (JStr s) = Some s" | "as_str _ = None"

fun as_int :: "json \<Rightarrow> int option" where
  "as_int (JInt i) = Some i" | "as_int _ = None"

fun as_num :: "json \<Rightarrow> real option" where
  "as_num (JInt i) = Some (of_int i)" | "as_num (JFloat r) = Some r" | "as_num _ = None"

fun as_bool :: "json \<Rightarrow> bool option" where
  "as_bool (JBool b) = Some b" | "as_bool _ = None"

fun as_obj :: "json \<Rightarrow> (ustr, json) dict option" where
  "as_obj (JObj d) = Some d" | "as_obj _ = None"

fun as_opt_num :: "json \<Rightarrow> real option option" where
  "as_opt_num JNull = Some None"
| "as_opt_num (JInt i) = Some (Some (of_int i))"
| "as_opt_num (JFloat r) = Some (Some r)"
| "as_opt_num _ = None"

text \<open>
  A missing required field is the constructor's \<open>TypeError\<close>, which the loader catches and logs.
\<close>

definition wake_from_dict :: "json \<Rightarrow> wake_event decoded" where
  "wake_from_dict j =
     (case j of
        JObj kvs \<Rightarrow>
          (let i = field_of ''id'' as_str kvs; c = field_of ''chat_id'' as_str kvs;
               r = field_of ''reason'' as_str kvs; p = field_of ''priority'' as_int kvs;
               s = field_of ''scheduled_at'' as_num kvs;
               pl = with_default [] (field_of ''payload'' as_obj kvs);
               si = with_default True (field_of ''silent'' as_bool kvs);
               cr = with_default 0 (field_of ''created_at'' as_num kvs);
               rd = with_default False (field_of ''ready'' as_bool kvs);
               att = with_default 0 (field_of ''attempts'' as_int kvs);
               le = with_default None (field_of ''leased_until'' as_opt_num kvs)
           in if i = Missing \<or> c = Missing \<or> r = Missing \<or> p = Missing \<or> s = Missing then Skip
              else case (i, c, r, p, s) of
                (Arg i, Arg c, Arg r, Arg p, Arg s) \<Rightarrow>
                  (case (pl, si, cr, rd, att, le) of
                     (Arg pl, Arg si, Arg cr, Arg rd, Arg att, Arg le) \<Rightarrow>
                       Good \<lparr>we_id = i, we_chat_id = c, we_reason = r, we_priority = p,
                         we_scheduled_at = s, we_payload = pl, we_silent = si, we_created_at = cr,
                         we_ready = rd, we_attempts = att, we_leased_until = le\<rparr>
                   | _ \<Rightarrow> Crash Unmodelled)
              | _ \<Rightarrow> Crash Unmodelled)
      | _ \<Rightarrow> Crash AttributeError)"

lemma wake_roundtrip: "wake_from_dict (wake_to_dict e) = Good e"
  by (cases "we_leased_until e") (simp_all add: wake_from_dict_def wake_to_dict_def field_of_def Let_def)

interpretation wake_codec: jsonl_codec wake_to_dict wake_from_dict we_id "\<lambda>_. True"
  by unfold_locales (simp_all add: wake_roundtrip)

subsection \<open>The queue and its transactions\<close>

type_synonym events = "(ustr, wake_event) dict"

record wake_queue =
  wq_file :: "json line list"  \<comment> \<open>no file reads like an empty one\<close>
  wq_in_memory :: events

definition wake_load :: "json line list \<Rightarrow> py_exn + events" where
  "wake_load ls = jsonl_load_from wake_from_dict we_id [] ls"

definition wake_save :: "events \<Rightarrow> json line list" where
  "wake_save d = jsonl_save wake_to_dict d"

text \<open>The body works on the freshly loaded events; the file is rewritten when it returns.\<close>

definition wake_transaction :: "(events \<Rightarrow> events \<times> 'r) \<Rightarrow> wake_queue \<Rightarrow> wake_queue \<times> (py_exn + 'r)" where
  "wake_transaction body q =
     (case wake_load (wq_file q) of
        Inl e \<Rightarrow> (q, Inl e)
      | Inr d \<Rightarrow> (let (d', r) = body d in (\<lparr>wq_file = wake_save d', wq_in_memory = d'\<rparr>, Inr r)))"

definition unleased :: "secs \<Rightarrow> wake_event \<Rightarrow> bool" where
  "unleased now e \<longleftrightarrow> (case we_leased_until e of None \<Rightarrow> True | Some t \<Rightarrow> t \<le> now)"

definition due :: "secs \<Rightarrow> wake_event \<Rightarrow> bool" where
  "due now e \<longleftrightarrow> we_ready e \<and> we_scheduled_at e \<le> now \<and> unleased now e"

definition wake_key :: "wake_event \<Rightarrow> int \<times> secs \<times> secs" where
  "wake_key e = (- we_priority e, we_scheduled_at e, we_created_at e)"

definition now_or :: "secs option \<Rightarrow> secs \<Rightarrow> secs" where
  "now_or now clock = (case now of Some t \<Rightarrow> t | None \<Rightarrow> clock)"

text \<open>\<open>wake-\<close> and twelve random hex digits are the argument \<open>fresh\<close>.\<close>

definition enqueue_event :: "ustr \<Rightarrow> wake_event \<Rightarrow> wake_event" where
  "enqueue_event fresh e =
     e\<lparr>we_id := (if we_id e = [] then fresh else we_id e),
       we_payload := sanitize_dict (we_payload e)\<rparr>"

definition enqueue_body :: "wake_event \<Rightarrow> events \<Rightarrow> events \<times> wake_event" where
  "enqueue_body e d = (dset (we_id e) e d, e)"

definition wake_enqueue :: "ustr \<Rightarrow> wake_event \<Rightarrow> wake_queue \<Rightarrow> wake_queue \<times> (py_exn + wake_event)" where
  "wake_enqueue fresh e = wake_transaction (enqueue_body (enqueue_event fresh e))"

definition get_body :: "ustr \<Rightarrow> events \<Rightarrow> events \<times> wake_event option" where
  "get_body i d = (d, dget i d)"

definition ready_body :: "ustr \<Rightarrow> secs \<Rightarrow> events \<Rightarrow> events \<times> wake_event option" where
  "ready_body i now d =
     (case dget i d of
        None \<Rightarrow> (d, None)
      | Some e \<Rightarrow>
          if we_ready e then (d, Some e)
          else let e' = e\<lparr>we_ready := True, we_scheduled_at := now, we_leased_until := None\<rparr>
               in (dset i e' d, Some e'))"

definition wake_ready :: "ustr \<Rightarrow> secs option \<Rightarrow> secs \<Rightarrow> wake_queue \<Rightarrow> wake_queue \<times> (py_exn + wake_event option)" where
  "wake_ready i now clock = wake_transaction (ready_body i (now_or now clock))"

definition pending_body :: "ustr option \<Rightarrow> secs option \<Rightarrow> events \<Rightarrow> events \<times> wake_event list" where
  "pending_body chat now d =
     (d, sort_key wake_key
        (filter (\<lambda>e. case now of None \<Rightarrow> True | Some t \<Rightarrow> \<not> we_ready e \<or> we_scheduled_at e \<le> t)
          (filter (\<lambda>e. case chat of None \<Rightarrow> True | Some c \<Rightarrow> we_chat_id e = c) (dvals d))))"

text \<open>The claimed events are the ones in the dictionary: the lease written into them is saved.\<close>

definition lease :: "secs \<Rightarrow> wake_event \<Rightarrow> wake_event" where
  "lease t e = e\<lparr>we_leased_until := Some t\<rparr>"

definition pop_due_body :: "secs \<Rightarrow> secs \<Rightarrow> events \<Rightarrow> events \<times> wake_event list" where
  "pop_due_body now lease_seconds d =
     (map (\<lambda>(k, e). (k, if due now e then lease (now + lease_seconds) e else e)) d,
      map (lease (now + lease_seconds)) (sort_key wake_key (filter (due now) (dvals d))))"

definition wake_pop_due :: "secs option \<Rightarrow> secs \<Rightarrow> secs \<Rightarrow> wake_queue \<Rightarrow> wake_queue \<times> (py_exn + wake_event list)" where
  "wake_pop_due now clock lease_seconds = wake_transaction (pop_due_body (now_or now clock) lease_seconds)"

definition complete_body :: "ustr \<Rightarrow> events \<Rightarrow> events \<times> wake_event option" where
  "complete_body i d = (ddel i d, dget i d)"

definition wake_complete :: "ustr \<Rightarrow> wake_queue \<Rightarrow> wake_queue \<times> (py_exn + wake_event option)" where
  "wake_complete i = wake_transaction (complete_body i)"

definition fail_body :: "ustr \<Rightarrow> secs \<Rightarrow> secs \<Rightarrow> events \<Rightarrow> events \<times> wake_event option" where
  "fail_body i retry_after now d =
     (case dget i d of
        None \<Rightarrow> (d, None)
      | Some e \<Rightarrow>
          let e' = e\<lparr>we_attempts := we_attempts e + 1, we_scheduled_at := now + retry_after,
                     we_leased_until := None\<rparr>
          in (dset i e' d, Some e'))"

definition wake_fail :: "ustr \<Rightarrow> secs \<Rightarrow> secs option \<Rightarrow> secs \<Rightarrow> wake_queue \<Rightarrow> wake_queue \<times> (py_exn + wake_event option)" where
  "wake_fail i retry_after now clock = wake_transaction (fail_body i retry_after (now_or now clock))"

definition wake_get :: "ustr \<Rightarrow> wake_queue \<Rightarrow> wake_queue \<times> (py_exn + wake_event option)" where
  "wake_get i = wake_transaction (get_body i)"

definition wake_pending :: "ustr option \<Rightarrow> secs option \<Rightarrow> wake_queue \<Rightarrow> wake_queue \<times> (py_exn + wake_event list)" where
  "wake_pending chat now = wake_transaction (pending_body chat now)"

definition pending_count_body :: "secs \<Rightarrow> events \<Rightarrow> events \<times> nat" where
  "pending_count_body clock d = (d, length (filter (\<lambda>e. we_ready e \<and> unleased clock e) (dvals d)))"

definition wake_pending_count :: "secs \<Rightarrow> wake_queue \<Rightarrow> wake_queue \<times> (py_exn + nat)" where
  "wake_pending_count clock = wake_transaction (pending_count_body clock)"

definition due_count_body :: "secs \<Rightarrow> events \<Rightarrow> events \<times> nat" where
  "due_count_body now d = (d, length (filter (due now) (dvals d)))"

definition wake_due_count :: "secs option \<Rightarrow> secs \<Rightarrow> wake_queue \<Rightarrow> wake_queue \<times> (py_exn + nat)" where
  "wake_due_count now clock = wake_transaction (due_count_body (now_or now clock))"

definition cancel_event_body :: "ustr \<Rightarrow> ustr option \<Rightarrow> secs \<Rightarrow> events \<Rightarrow> events \<times> wake_event option" where
  "cancel_event_body i chat now d =
     (case dget i d of
        None \<Rightarrow> (d, None)
      | Some e \<Rightarrow>
          if \<not> we_ready e \<or> (case chat of None \<Rightarrow> False | Some c \<Rightarrow> we_chat_id e \<noteq> c)
             \<or> (case we_leased_until e of None \<Rightarrow> False | Some t \<Rightarrow> t > now)
          then (d, None)
          else (ddel i d, Some e))"

definition wake_cancel_event ::
  "ustr \<Rightarrow> ustr option \<Rightarrow> secs option \<Rightarrow> secs \<Rightarrow> wake_queue \<Rightarrow> wake_queue \<times> (py_exn + wake_event option)" where
  "wake_cancel_event i chat now clock = wake_transaction (cancel_event_body i chat (now_or now clock))"

definition cancel_where :: "(wake_event \<Rightarrow> bool) \<Rightarrow> events \<Rightarrow> events \<times> nat" where
  "cancel_where P d =
     (let to_remove = dkeys (filter (\<lambda>(i, e). P e) d) in (dpop_all to_remove d, length to_remove))"

definition cancel_body :: "ustr option \<Rightarrow> ustr option \<Rightarrow> secs \<Rightarrow> events \<Rightarrow> events \<times> nat" where
  "cancel_body chat reason now =
     cancel_where (\<lambda>e. we_ready e \<and> (case chat of None \<Rightarrow> True | Some c \<Rightarrow> we_chat_id e = c)
       \<and> (case reason of None \<Rightarrow> True | Some r \<Rightarrow> we_reason e = r) \<and> unleased now e)"

definition wake_cancel ::
  "ustr option \<Rightarrow> ustr option \<Rightarrow> secs option \<Rightarrow> secs \<Rightarrow> wake_queue \<Rightarrow> wake_queue \<times> (py_exn + nat)" where
  "wake_cancel chat reason now clock = wake_transaction (cancel_body chat reason (now_or now clock))"

definition cancel_older_body :: "secs \<Rightarrow> ustr option \<Rightarrow> secs \<Rightarrow> events \<Rightarrow> events \<times> nat" where
  "cancel_older_body before reason now =
     cancel_where (\<lambda>e. we_ready e \<and> we_created_at e < before
       \<and> (case reason of None \<Rightarrow> True | Some r \<Rightarrow> we_reason e = r) \<and> unleased now e)"

definition wake_cancel_older_than ::
  "secs \<Rightarrow> ustr option \<Rightarrow> secs option \<Rightarrow> secs \<Rightarrow> wake_queue \<Rightarrow> wake_queue \<times> (py_exn + nat)" where
  "wake_cancel_older_than before reason now clock =
     wake_transaction (cancel_older_body before reason (now_or now clock))"

text \<open>
  \<open>list(payload.get("tasks") or [])\<close>: a falsy value counts as no tasks; a value that is neither a
  list nor falsy is outside the annotated shape.
\<close>

fun task_list :: "json option \<Rightarrow> json list option" where
  "task_list None = Some []"
| "task_list (Some (JList xs)) = Some xs"
| "task_list (Some j) = (if truthy j then None else Some [])"

definition merge_candidate :: "wake_event \<Rightarrow> ustr \<Rightarrow> secs \<Rightarrow> wake_event \<Rightarrow> bool" where
  "merge_candidate ev key now e \<longleftrightarrow>
     we_chat_id e = we_chat_id ev \<and> we_reason e = we_reason ev \<and> we_ready e \<and> unleased now e
     \<and> dget (u ''plan_id'') (we_payload e) = Some (JStr key)"

definition merged_payload :: "(ustr, json) dict \<Rightarrow> (ustr, json) dict \<Rightarrow> json list \<Rightarrow> (ustr, json) dict" where
  "merged_payload old new tasks =
     dset (u ''tasks'') (JList tasks) (dmerge old (filter (\<lambda>(k, v). k \<noteq> u ''tasks'') new))"

definition merge_body :: "wake_event \<Rightarrow> ustr \<Rightarrow> secs \<Rightarrow> events \<Rightarrow> events \<times> (py_exn + bool)" where
  "merge_body ev key now d =
     (case py_max_key we_created_at (filter (merge_candidate ev key now) (dvals d)) of
        None \<Rightarrow> (d, Inr False)
      | Some target \<Rightarrow>
          (case (task_list (dget (u ''tasks'') (we_payload target)), task_list (dget (u ''tasks'') (we_payload ev))) of
             (Some old, Some new) \<Rightarrow>
               (dset (we_id target) (target\<lparr>we_payload :=
                  sanitize_dict (merged_payload (we_payload target) (we_payload ev) (old @ new))\<rparr>) d, Inr True)
           | _ \<Rightarrow> (d, Inl Unmodelled)))"

definition wake_merge_into_ready ::
  "wake_event \<Rightarrow> ustr \<Rightarrow> secs \<Rightarrow> wake_queue \<Rightarrow> wake_queue \<times> (py_exn + (py_exn + bool))" where
  "wake_merge_into_ready ev key now = wake_transaction (merge_body ev key now)"

subsection \<open>Well-formed queues and the effect of a transaction\<close>

definition queue_ok :: "events \<Rightarrow> bool" where
  "queue_ok d \<longleftrightarrow> keyed_ok we_id (\<lambda>_. True) d"

lemma wake_load_save: "queue_ok d \<Longrightarrow> wake_load (wake_save d) = Inr d"
  unfolding wake_load_def wake_save_def queue_ok_def by (rule wake_codec.load_save)

lemma wake_load_ok: "wake_load ls = Inr d \<Longrightarrow> queue_ok d"
  unfolding wake_load_def queue_ok_def by (rule wake_codec.load_ok)

lemma queue_ok_get: "queue_ok d \<Longrightarrow> dget i d = Some e \<Longrightarrow> we_id e = i"
  unfolding queue_ok_def by (drule keyed_ok_get) auto

lemma queue_ok_dict: "queue_ok d \<Longrightarrow> dict_ok d"
  by (simp add: queue_ok_def keyed_ok_def)

lemma queue_ok_vals: "queue_ok d \<Longrightarrow> e \<in> set (dvals d) \<longleftrightarrow> dget (we_id e) d = Some e"
  unfolding queue_ok_def by (rule keyed_ok_vals)

lemma queue_ok_dset: "queue_ok d \<Longrightarrow> we_id e = i \<Longrightarrow> queue_ok (dset i e d)"
  by (auto simp: queue_ok_def intro: keyed_ok_dset)

lemma queue_ok_ddel: "queue_ok d \<Longrightarrow> queue_ok (ddel i d)"
  by (auto simp: queue_ok_def intro: keyed_ok_ddel)

lemma queue_ok_dpop_all: "queue_ok d \<Longrightarrow> queue_ok (dpop_all ks d)"
  by (auto simp: queue_ok_def intro: keyed_ok_dpop_all)

lemma lease_frame [simp, frame_simps]:
  "we_id (lease t e) = we_id e" "we_leased_until (lease t e) = Some t" "we_ready (lease t e) = we_ready e"
  "wake_key (lease t e) = wake_key e" "we_chat_id (lease t e) = we_chat_id e"
  by (simp_all add: lease_def wake_key_def)

subsection \<open>Sequences of operations\<close>

text \<open>Every operation of the queue with its arguments; the clock reading is part of the step.\<close>

datatype wake_op =
    Enqueue ustr wake_event
  | MergeIntoReady wake_event ustr secs
  | Get ustr
  | MarkReady ustr secs
  | Pending "ustr option" "secs option"
  | PopDue secs secs
  | Complete ustr
  | Fail ustr secs secs
  | PendingCount secs
  | DueCount secs
  | CancelEvent ustr "ustr option" secs
  | Cancel "ustr option" "ustr option" secs
  | CancelOlder secs "ustr option" secs

fun wake_apply :: "wake_op \<Rightarrow> events \<Rightarrow> events \<times> wake_event list" where
  "wake_apply (Enqueue fresh e) d = (fst (enqueue_body (enqueue_event fresh e) d), [])"
| "wake_apply (MergeIntoReady ev key now) d = (fst (merge_body ev key now d), [])"
| "wake_apply (Get i) d = (fst (get_body i d), [])"
| "wake_apply (MarkReady i now) d = (fst (ready_body i now d), [])"
| "wake_apply (Pending c now) d = (fst (pending_body c now d), [])"
| "wake_apply (PopDue now l) d = pop_due_body now l d"
| "wake_apply (Complete i) d = (fst (complete_body i d), [])"
| "wake_apply (Fail i r now) d = (fst (fail_body i r now d), [])"
| "wake_apply (PendingCount now) d = (fst (pending_count_body now d), [])"
| "wake_apply (DueCount now) d = (fst (due_count_body now d), [])"
| "wake_apply (CancelEvent i c now) d = (fst (cancel_event_body i c now d), [])"
| "wake_apply (Cancel c r now) d = (fst (cancel_body c r now d), [])"
| "wake_apply (CancelOlder b r now) d = (fst (cancel_older_body b r now d), [])"

lemma merge_body_effect:
  assumes "queue_ok d"
  shows "fst (merge_body ev key now d) = d \<or>
    (\<exists>t p. dget (we_id t) d = Some t \<and> merge_candidate ev key now t \<and>
       fst (merge_body ev key now d) = dset (we_id t) (t\<lparr>we_payload := p\<rparr>) d)"
proof (cases "py_max_key we_created_at (filter (merge_candidate ev key now) (dvals d))")
  case None
  then show ?thesis by (simp add: merge_body_def)
next
  case (Some t)
  from py_max_key_mem [OF Some] have t: "t \<in> set (dvals d)" "merge_candidate ev key now t" by auto
  then have g: "dget (we_id t) d = Some t" using queue_ok_vals [OF assms] by blast
  from Some t(2) g show ?thesis
    by (cases "task_list (dget (u ''tasks'') (we_payload t))";
        cases "task_list (dget (u ''tasks'') (we_payload ev))") (auto simp: merge_body_def)
qed

lemma wake_apply_ok: "queue_ok d \<Longrightarrow> queue_ok (fst (wake_apply op d))"
proof (cases op)
  case (MergeIntoReady ev key now)
  assume ok: "queue_ok d"
  with merge_body_effect [OF ok, of ev key now] MergeIntoReady show ?thesis
    by (auto simp: queue_ok_dset)
next
  case (PopDue now l)
  assume "queue_ok d"
  then show ?thesis using PopDue
    by (auto simp: pop_due_body_def queue_ok_def intro!: keyed_ok_map)
qed (auto simp: enqueue_body_def get_body_def ready_body_def pending_body_def complete_body_def
    fail_body_def pending_count_body_def due_count_body_def cancel_event_body_def cancel_body_def
    cancel_older_body_def cancel_where_def Let_def queue_ok_get
    intro: queue_ok_dset queue_ok_ddel queue_ok_dpop_all split: option.splits)

subsection \<open>Leases\<close>

text \<open>The event \<open>i\<close> is claimed until \<open>t\<close>.\<close>

definition leased_at :: "events \<Rightarrow> ustr \<Rightarrow> secs \<Rightarrow> bool" where
  "leased_at d i t \<longleftrightarrow> (\<exists>e. dget i d = Some e \<and> we_ready e \<and> we_leased_until e = Some t)"

text \<open>The operations that legitimately end or take over the claim on \<open>i\<close>.\<close>

fun releases :: "ustr \<Rightarrow> wake_op \<Rightarrow> bool" where
  "releases i (Enqueue fresh e) = (we_id (enqueue_event fresh e) = i)"
| "releases i (Complete j) = (j = i)"
| "releases i (Fail j r now) = (j = i)"
| "releases i _ = False"

fun op_time :: "wake_op \<Rightarrow> secs option" where
  "op_time (MergeIntoReady ev key now) = Some now"
| "op_time (PopDue now l) = Some now"
| "op_time (CancelEvent i c now) = Some now"
| "op_time (Cancel c r now) = Some now"
| "op_time (CancelOlder b r now) = Some now"
| "op_time _ = None"

definition before :: "secs \<Rightarrow> wake_op \<Rightarrow> bool" where
  "before t op \<longleftrightarrow> (case op_time op of None \<Rightarrow> True | Some now \<Rightarrow> now < t)"

lemma dget_cancel_where:
  "dict_ok d \<Longrightarrow> dget i (fst (cancel_where P d)) =
     (case dget i d of None \<Rightarrow> None | Some e \<Rightarrow> if P e then None else Some e)"
proof -
  assume ok: "dict_ok d"
  have "i \<in> set (dkeys (filter (\<lambda>(i, e). P e) d)) \<longleftrightarrow> (case dget i d of None \<Rightarrow> False | Some e \<Rightarrow> P e)"
  proof -
    have "i \<in> set (dkeys (filter (\<lambda>(i, e). P e) d)) \<longleftrightarrow> (\<exists>e. (i, e) \<in> set d \<and> P e)" by force
    also have "\<dots> \<longleftrightarrow> (\<exists>e. dget i d = Some e \<and> P e)" by (simp add: dget_iff_mem [OF ok])
    finally show ?thesis by (auto split: option.splits)
  qed
  then show ?thesis by (simp add: cancel_where_def Let_def split: option.splits)
qed

lemma leased_step:
  assumes ok: "queue_ok d" and l: "leased_at d i t" and nr: "\<not> releases i op" and b: "before t op"
  shows "leased_at (fst (wake_apply op d)) i t" and "\<forall>e \<in> set (snd (wake_apply op d)). we_id e \<noteq> i"
proof -
  from l obtain e where e: "dget i d = Some e" "we_ready e" "we_leased_until e = Some t"
    by (auto simp: leased_at_def)
  note d_ok = queue_ok_dict [OF ok]
  have ei: "we_id e = i" using queue_ok_get [OF ok e(1)] .
  show "leased_at (fst (wake_apply op d)) i t"
  proof (cases op)
    case (MergeIntoReady ev key now)
    with b have n: "\<not> merge_candidate ev key now e"
      by (simp add: before_def merge_candidate_def unleased_def e)
    have "fst (wake_apply op d) = d \<or> (\<exists>tg p. we_id tg \<noteq> i \<and>
        fst (wake_apply op d) = dset (we_id tg) (tg\<lparr>we_payload := p\<rparr>) d)"
      using merge_body_effect [OF ok, of ev key now] n e(1) unfolding MergeIntoReady wake_apply.simps
      by (metis fst_conv option.inject)
    then show ?thesis using l e by (auto simp: leased_at_def)
  next
    case (PopDue now lease_s)
    with b have "\<not> due now e" by (simp add: before_def due_def unleased_def e)
    with PopDue e show ?thesis by (simp add: leased_at_def pop_due_body_def)
  next
    case (Enqueue fresh ev)
    with e nr show ?thesis by (auto simp: leased_at_def enqueue_body_def)
  next
    case (MarkReady j now)
    with e show ?thesis by (cases "j = i") (auto simp: leased_at_def ready_body_def Let_def split: option.split)
  next
    case (Complete j)
    with e nr show ?thesis by (simp add: leased_at_def complete_body_def)
  next
    case (Fail j r now)
    with e nr show ?thesis by (auto simp: leased_at_def fail_body_def Let_def split: option.split)
  next
    case (CancelEvent j c now)
    with e b show ?thesis
      by (cases "j = i") (auto simp: leased_at_def cancel_event_body_def before_def split: option.split)
  next
    case (Cancel c r now)
    with e b show ?thesis
      by (simp add: leased_at_def cancel_body_def dget_cancel_where [OF d_ok] before_def unleased_def)
  next
    case (CancelOlder bf r now)
    with e b show ?thesis
      by (simp add: leased_at_def cancel_older_body_def dget_cancel_where [OF d_ok] before_def unleased_def)
  qed (use e in \<open>simp_all add: leased_at_def get_body_def pending_body_def pending_count_body_def
    due_count_body_def\<close>)
  show "\<forall>e \<in> set (snd (wake_apply op d)). we_id e \<noteq> i"
  proof (cases op)
    case (PopDue now lease_s)
    with b have "\<not> due now e" by (simp add: before_def due_def unleased_def e)
    then have "we_id x \<noteq> i" if "x \<in> set (dvals d)" "due now x" for x
      using that queue_ok_vals [OF ok] e by auto
    with PopDue show ?thesis by (auto simp: pop_due_body_def)
  qed simp_all
qed

definition wake_run :: "wake_op list \<Rightarrow> events \<Rightarrow> events \<times> wake_event list" where
  "wake_run ops d = run_steps wake_apply ops d"

lemma wake_run_simps [simp]:
  "wake_run [] d = (d, [])"
  "wake_run (op # ops) d =
     (let (d', out) = wake_apply op d; (d'', out') = wake_run ops d' in (d'', out @ out'))"
  by (simp_all add: wake_run_def)

lemma leased_run:
  "queue_ok d \<Longrightarrow> leased_at d i t \<Longrightarrow> (\<And>op. op \<in> set ops \<Longrightarrow> \<not> releases i op \<and> before t op) \<Longrightarrow>
   leased_at (fst (wake_run ops d)) i t \<and> (\<forall>e \<in> set (snd (wake_run ops d)). we_id e \<noteq> i)"
proof (induction ops arbitrary: d)
  case (Cons op ops)
  from Cons.prems(3) have op: "\<not> releases i op" "before t op" by auto
  note st = leased_step [OF Cons.prems(1,2) op]
  from Cons.IH [OF wake_apply_ok [OF Cons.prems(1)] st(1)] Cons.prems(3) st(2) show ?case
    by (auto simp: case_prod_unfold Let_def)
qed simp

subsection \<open>Processes sharing the queue's file\<close>

text \<open>
  Each step is run by some process whose in-memory copy of the queue may be arbitrarily stale.
\<close>

definition wake_process :: "events \<times> wake_op \<Rightarrow> json line list \<Rightarrow> json line list \<times> wake_event list" where
  "wake_process step fs =
     (let (q, r) = wake_transaction (wake_apply (snd step)) \<lparr>wq_file = fs, wq_in_memory = fst step\<rparr>
      in (wq_file q, case r of Inl e \<Rightarrow> [] | Inr es \<Rightarrow> es))"

lemma wake_transaction_loaded:
  "wake_load (wq_file q) = Inr d \<Longrightarrow> wake_transaction body q =
     (\<lparr>wq_file = wake_save (fst (body d)), wq_in_memory = fst (body d)\<rparr>, Inr (snd (body d)))"
  by (simp add: wake_transaction_def case_prod_unfold Let_def)

interpretation wake_store: atomic_store wake_load wake_save queue_ok wake_apply wake_process
  by unfold_locales
    (auto simp: wake_load_save wake_apply_ok wake_process_def wake_transaction_loaded Let_def dest: wake_load_ok)

text \<open>
  Claim C1.  Processes that share the queue file behave like one queue: whatever each one's
  in-memory copy holds, a sequence of their operations leaves in the file, and hands out,
  exactly what the same operations do on the single dictionary the file started as.
\<close>

theorem shared_queue_refines_dictionary:
  assumes "wake_load fs = Inr d"
  shows "wake_load (fst (run_steps wake_process steps fs)) = Inr (fst (wake_run (map snd steps) d))
       \<and> snd (run_steps wake_process steps fs) = snd (wake_run (map snd steps) d)"
  unfolding wake_run_def using assms by (rule wake_store.processes_refine)

definition sample_wake :: "string \<Rightarrow> int \<Rightarrow> secs \<Rightarrow> wake_event" where
  "sample_wake i p t = \<lparr>we_id = u i, we_chat_id = u ''chat'', we_reason = u ''continue'', we_priority = p,
     we_scheduled_at = t, we_payload = [], we_silent = True, we_created_at = t, we_ready = True,
     we_attempts = 0, we_leased_until = None\<rparr>"

theorem shared_queue_refines_dictionary_witness:
  "wake_load (fst (run_steps wake_process [([], Complete (u ''a''))] (wake_save [(u ''a'', sample_wake ''a'' 1 5)])))
     = Inr (fst (wake_run [Complete (u ''a'')] [(u ''a'', sample_wake ''a'' 1 5)]))"
proof -
  have "wake_load (wake_save [(u ''a'', sample_wake ''a'' 1 5)]) = Inr [(u ''a'', sample_wake ''a'' 1 5)]"
    by (rule wake_load_save) (simp add: queue_ok_def keyed_ok_def sample_wake_def)
  from shared_queue_refines_dictionary [OF this, of "[([], Complete (u ''a''))]"] show ?thesis by simp
qed

lemma pop_due_body_leased:
  assumes "queue_ok d" "e \<in> set (snd (pop_due_body now l d))"
  shows "leased_at (fst (pop_due_body now l d)) (we_id e) (now + l)"
proof -
  from assms(2) obtain e0 where e0: "e0 \<in> set (dvals d)" "due now e0" "e = lease (now + l) e0"
    by (auto simp: pop_due_body_def)
  from e0(1) have "dget (we_id e0) d = Some e0" using queue_ok_vals [OF assms(1)] by blast
  with e0 show ?thesis by (auto simp: leased_at_def pop_due_body_def due_def)
qed

text \<open>
  Claim C2.  A claim is exclusive: after \<open>pop_due\<close> handed an event out, no later \<open>pop_due\<close> of any
  process hands it out again before the lease ends, and no \<open>cancel\<close>, \<open>merge_into_ready\<close> or \<open>ready\<close>
  removes it or breaks its lease, whatever the interleaving; only completing it, failing it or enqueueing
  a new event under its id ends the claim.
\<close>

theorem claim_is_exclusive:
  assumes "wake_load fs = Inr d" and "e \<in> set (snd (pop_due_body now l d))"
    and "\<And>op. op \<in> set ops \<Longrightarrow> \<not> releases (we_id e) op \<and> before (now + l) op"
  shows "leased_at (fst (wake_run (PopDue now l # ops) d)) (we_id e) (now + l)
       \<and> (\<forall>e' \<in> set (snd (wake_run ops (fst (pop_due_body now l d)))). we_id e' \<noteq> we_id e)"
proof -
  have ok: "queue_ok d" by (rule wake_load_ok [OF assms(1)])
  have "queue_ok (fst (pop_due_body now l d))" using wake_apply_ok [OF ok, of "PopDue now l"] by simp
  from leased_run [OF this pop_due_body_leased [OF ok assms(2)] assms(3)] show ?thesis
    by (simp add: case_prod_unfold Let_def)
qed

lemma sample_claim:
  "snd (pop_due_body 10 300 [(u ''a'', sample_wake ''a'' 1 5)]) = [lease 310 (sample_wake ''a'' 1 5)]"
  by (simp add: pop_due_body_def due_def unleased_def sample_wake_def)

lemma sample_queue_load:
  "wake_load (wake_save [(u ''a'', sample_wake ''a'' 1 5)]) = Inr [(u ''a'', sample_wake ''a'' 1 5)]"
  by (rule wake_load_save) (simp add: queue_ok_def keyed_ok_def sample_wake_def)

theorem claim_is_exclusive_witness:
  "leased_at (fst (wake_run (PopDue 10 300 # [PopDue 20 300, MarkReady (u ''a'') 30])
     [(u ''a'', sample_wake ''a'' 1 5)])) (we_id (lease 310 (sample_wake ''a'' 1 5))) (10 + 300)"
proof -
  have "lease 310 (sample_wake ''a'' 1 5) \<in> set (snd (pop_due_body 10 300 [(u ''a'', sample_wake ''a'' 1 5)]))"
    by (simp add: sample_claim)
  then show ?thesis
    by (rule claim_is_exclusive [OF sample_queue_load, THEN conjunct1])
      (auto simp: before_def)
qed

lemma pop_due_ids:
  assumes "queue_ok d"
  shows "we_id ` set (snd (pop_due_body now l d)) = {i. \<exists>e. dget i d = Some e \<and> due now e}"
proof -
  have "we_id ` {e \<in> set (dvals d). due now e} = {i. \<exists>e. dget i d = Some e \<and> due now e}"
  proof (intro set_eqI iffI)
    fix i assume "i \<in> we_id ` {e \<in> set (dvals d). due now e}"
    then show "i \<in> {i. \<exists>e. dget i d = Some e \<and> due now e}" using queue_ok_vals [OF assms] by fast
  next
    fix i assume "i \<in> {i. \<exists>e. dget i d = Some e \<and> due now e}"
    then obtain e where "dget i d = Some e" "due now e" by blast
    then show "i \<in> we_id ` {e \<in> set (dvals d). due now e}"
      using queue_ok_get [OF assms] queue_ok_vals [OF assms] by (intro image_eqI [of _ _ e]) auto
  qed
  then show ?thesis by (simp add: pop_due_body_def image_image)
qed

text \<open>
  \<open>pop_due\<close> hands out exactly the ready, scheduled and unclaimed events, each once, most
  urgent first (priority descending, then scheduled time, then creation time), and marks each as
  claimed until the end of the lease.
\<close>

theorem pop_due_hands_out_the_due_events:
  assumes "queue_ok d"
  shows "(we_id ` set (snd (pop_due_body now l d)) = {i. \<exists>e. dget i d = Some e \<and> due now e})
       \<and> distinct (map we_id (snd (pop_due_body now l d)))
       \<and> sorted (map wake_key (snd (pop_due_body now l d)))
       \<and> (\<forall>e \<in> set (snd (pop_due_body now l d)). we_leased_until e = Some (now + l))"
proof -
  have ids: "map we_id (dvals d) = dkeys d"
    using assms by (auto simp: queue_ok_def keyed_ok_def list_all_iff intro!: map_cong)
  have "distinct (map we_id (filter (due now) (dvals d)))"
    using queue_ok_dict [OF assms] ids by (metis dict_ok_def distinct_map_filter)
  then have "distinct (map we_id (sort_key wake_key (filter (due now) (dvals d))))"
    by (simp add: distinct_map)
  then show ?thesis
    using pop_due_ids [OF assms, of now l] by (simp add: pop_due_body_def comp_def)
qed

theorem pop_due_hands_out_the_due_events_witness:
  "map we_id (snd (pop_due_body 10 300 [(u ''a'', sample_wake ''a'' 1 5), (u ''b'', sample_wake ''b'' 7 5)]))
     = [u ''b'', u ''a'']
   \<and> sorted (map wake_key (snd (pop_due_body 10 300 [(u ''a'', sample_wake ''a'' 1 5), (u ''b'', sample_wake ''b'' 7 5)])))"
proof -
  have "queue_ok [(u ''a'', sample_wake ''a'' 1 5), (u ''b'', sample_wake ''b'' 7 5)]"
    by (simp add: queue_ok_def keyed_ok_def sample_wake_def)
  from pop_due_hands_out_the_due_events [OF this, of 10 300] show ?thesis
    by (simp add: pop_due_body_def due_def unleased_def sample_wake_def wake_key_def)
qed



end
