(* ===== verification/SessionStore.thy ===== *)
theory SessionStore
  imports WakeQueue Models
begin

section \<open>The session store\<close>

text \<open>
  \<open>src/src/diploid_agent/runtime/store.py\<close> (\<open>ChatSessionStore\<close>) with \<open>SessionRecord.to_dict\<close> and \<open>from_dict\<close> of
  \<open>models.py\<close>: the registry of the sessions of every chat, appended to a file of JSON lines, rewritten when old
  sessions are pruned and read back at the start of the process; and the session directories, of which the
  files that belong to the chat (not to one session) stay in place when sessions are archived and resumed.
\<close>

subsection \<open>\<open>to_dict\<close> and \<open>from_dict\<close>\<close>

fun jopt :: "('a \<Rightarrow> json) \<Rightarrow> 'a option \<Rightarrow> json" where
  "jopt f None = JNull"
| "jopt f (Some x) = f x"

definition jstrs :: "ustr list \<Rightarrow> json" where
  "jstrs xs = JList (map JStr xs)"

definition jflags :: "(ustr, bool) dict \<Rightarrow> json" where
  "jflags d = JObj (map (\<lambda>(k, b). (k, JBool b)) d)"

definition record_to_dict :: "session_record \<Rightarrow> (ustr, json) dict" where
  "record_to_dict r =
     [(u ''chat_id'', JStr (sr_chat_id r)), (u ''session_number'', JInt (sr_session_number r)),
      (u ''session_id'', JStr (sr_session_id r)), (u ''model'', JStr (sr_model r)), (u ''persona'', JStr (sr_persona r)),
      (u ''cwd'', JStr (sr_cwd r)), (u ''created_at'', JFloat (sr_created_at r)), (u ''updated_at'', JFloat (sr_updated_at r)),
      (u ''turn_number'', JInt (sr_turn_number r)), (u ''pending_turn_number'', jopt JInt (sr_pending_turn_number r)),
      (u ''label'', jopt JStr (sr_label r)), (u ''parent'', jopt JInt (sr_parent r)),
      (u ''last_stop_reason'', jopt JStr (sr_last_stop_reason r)),
      (u ''persona_memory_exceeded'', JBool (sr_persona_memory_exceeded r)),
      (u ''chat_memory_exceeded'', JBool (sr_chat_memory_exceeded r)),
      (u ''cumulative_metrics'', jopt JObj (sr_cumulative_metrics r)),
      (u ''last_turn_metrics'', jopt JObj (sr_last_turn_metrics r)),
      (u ''first_turn_metrics'', jopt JObj (sr_first_turn_metrics r)),
      (u ''enabled_mcp_servers'', jopt jstrs (sr_enabled_mcp_servers r)),
      (u ''disabled_mcp_servers'', jopt jstrs (sr_disabled_mcp_servers r)),
      (u ''enabled_skills'', jopt jstrs (sr_enabled_skills r)), (u ''disabled_skills'', jopt jstrs (sr_disabled_skills r)),
      (u ''plugin_overrides'', jopt jflags (sr_plugin_overrides r)),
      (u ''pressure_handoff_done'', JBool (sr_pressure_handoff_done r)), (u ''external_turns'', JInt (sr_external_turns r))]"

fun as_opt :: "(json \<Rightarrow> 'a option) \<Rightarrow> json \<Rightarrow> 'a option option" where
  "as_opt conv JNull = Some None"
| "as_opt conv j = map_option Some (conv j)"

fun collect :: "'a option list \<Rightarrow> 'a list option" where
  "collect [] = Some []"
| "collect (None # xs) = None"
| "collect (Some x # xs) = map_option ((#) x) (collect xs)"

fun as_strs :: "json \<Rightarrow> ustr list option" where
  "as_strs (JList xs) = collect (map as_str xs)"
| "as_strs _ = None"

fun as_flags :: "json \<Rightarrow> (ustr, bool) dict option" where
  "as_flags (JObj d) = collect (map (\<lambda>(k, j). map_option (Pair k) (as_bool j)) d)"
| "as_flags _ = None"

text \<open>A keyword argument that is given replaces the default; one of another type is not modelled.\<close>

definition keyword :: "string \<Rightarrow> (json \<Rightarrow> 'a option) \<Rightarrow> ('a \<Rightarrow> 'r \<Rightarrow> 'r) \<Rightarrow> (ustr, json) dict \<Rightarrow> 'r \<Rightarrow> 'r option" where
  "keyword name conv upd kvs r =
     (case field_of name conv kvs of Missing \<Rightarrow> Some r | Arg v \<Rightarrow> Some (upd v r) | BadArg \<Rightarrow> None)"

fun all_keywords :: "((ustr, json) dict \<Rightarrow> 'r \<Rightarrow> 'r option) list \<Rightarrow> (ustr, json) dict \<Rightarrow> 'r \<Rightarrow> 'r option" where
  "all_keywords [] kvs r = Some r"
| "all_keywords (k # ks) kvs r = Option.bind (k kvs r) (all_keywords ks kvs)"

definition blank_session :: session_record where
  "blank_session = \<lparr>sr_chat_id = [], sr_session_number = 1, sr_session_id = [], sr_model = [], sr_persona = u ''default-persona'',
     sr_cwd = [], sr_created_at = 0, sr_updated_at = 0, sr_turn_number = 0, sr_pending_turn_number = None, sr_label = None,
     sr_parent = None, sr_last_stop_reason = None, sr_persona_memory_exceeded = False, sr_chat_memory_exceeded = False,
     sr_cumulative_metrics = None, sr_last_turn_metrics = None, sr_first_turn_metrics = None, sr_enabled_mcp_servers = None,
     sr_disabled_mcp_servers = None, sr_enabled_skills = None, sr_disabled_skills = None, sr_plugin_overrides = None,
     sr_pressure_handoff_done = False, sr_external_turns = 0\<rparr>"

definition record_keywords :: "((ustr, json) dict \<Rightarrow> session_record \<Rightarrow> session_record option) list" where
  "record_keywords =
     [keyword ''chat_id'' as_str (\<lambda>v r. r\<lparr>sr_chat_id := v\<rparr>), keyword ''session_number'' as_int (\<lambda>v r. r\<lparr>sr_session_number := v\<rparr>),
      keyword ''session_id'' as_str (\<lambda>v r. r\<lparr>sr_session_id := v\<rparr>), keyword ''model'' as_str (\<lambda>v r. r\<lparr>sr_model := v\<rparr>),
      keyword ''persona'' as_str (\<lambda>v r. r\<lparr>sr_persona := v\<rparr>), keyword ''cwd'' as_str (\<lambda>v r. r\<lparr>sr_cwd := v\<rparr>),
      keyword ''created_at'' as_num (\<lambda>v r. r\<lparr>sr_created_at := v\<rparr>), keyword ''updated_at'' as_num (\<lambda>v r. r\<lparr>sr_updated_at := v\<rparr>),
      keyword ''turn_number'' as_int (\<lambda>v r. r\<lparr>sr_turn_number := v\<rparr>),
      keyword ''pending_turn_number'' (as_opt as_int) (\<lambda>v r. r\<lparr>sr_pending_turn_number := v\<rparr>),
      keyword ''label'' (as_opt as_str) (\<lambda>v r. r\<lparr>sr_label := v\<rparr>), keyword ''parent'' (as_opt as_int) (\<lambda>v r. r\<lparr>sr_parent := v\<rparr>),
      keyword ''last_stop_reason'' (as_opt as_str) (\<lambda>v r. r\<lparr>sr_last_stop_reason := v\<rparr>),
      keyword ''persona_memory_exceeded'' as_bool (\<lambda>v r. r\<lparr>sr_persona_memory_exceeded := v\<rparr>),
      keyword ''chat_memory_exceeded'' as_bool (\<lambda>v r. r\<lparr>sr_chat_memory_exceeded := v\<rparr>),
      keyword ''cumulative_metrics'' (as_opt as_obj) (\<lambda>v r. r\<lparr>sr_cumulative_metrics := v\<rparr>),
      keyword ''last_turn_metrics'' (as_opt as_obj) (\<lambda>v r. r\<lparr>sr_last_turn_metrics := v\<rparr>),
      keyword ''first_turn_metrics'' (as_opt as_obj) (\<lambda>v r. r\<lparr>sr_first_turn_metrics := v\<rparr>),
      keyword ''enabled_mcp_servers'' (as_opt as_strs) (\<lambda>v r. r\<lparr>sr_enabled_mcp_servers := v\<rparr>),
      keyword ''disabled_mcp_servers'' (as_opt as_strs) (\<lambda>v r. r\<lparr>sr_disabled_mcp_servers := v\<rparr>),
      keyword ''enabled_skills'' (as_opt as_strs) (\<lambda>v r. r\<lparr>sr_enabled_skills := v\<rparr>),
      keyword ''disabled_skills'' (as_opt as_strs) (\<lambda>v r. r\<lparr>sr_disabled_skills := v\<rparr>),
      keyword ''plugin_overrides'' (as_opt as_flags) (\<lambda>v r. r\<lparr>sr_plugin_overrides := v\<rparr>),
      keyword ''pressure_handoff_done'' as_bool (\<lambda>v r. r\<lparr>sr_pressure_handoff_done := v\<rparr>),
      keyword ''external_turns'' as_int (\<lambda>v r. r\<lparr>sr_external_turns := v\<rparr>)]"

text \<open>
  A missing required field is a \<open>TypeError\<close>, which the loader skips; a line that is no object has no
  \<open>items\<close>, and that error is not caught.
\<close>

definition record_from_dict :: "json \<Rightarrow> session_record decoded" where
  "record_from_dict j =
     (case j of
        JObj kvs \<Rightarrow>
          if list_ex (\<lambda>k. dget (u k) kvs = None) [''chat_id'', ''session_id'', ''model'', ''cwd'', ''created_at'', ''updated_at'']
          then Skip
          else (case all_keywords record_keywords kvs blank_session of None \<Rightarrow> Crash Unmodelled | Some r \<Rightarrow> Good r)
      | _ \<Rightarrow> Crash AttributeError)"

lemma collect_Some [simp]: "collect (map Some xs) = Some xs"
  by (induction xs) auto

lemma as_opt_jopt [simp]: "(\<And>x. g (f x) = Some x) \<Longrightarrow> (\<And>x. f x \<noteq> JNull) \<Longrightarrow> as_opt g (jopt f a) = Some a"
proof (cases a)
  case (Some x)
  assume "\<And>x. g (f x) = Some x" "\<And>x. f x \<noteq> JNull"
  then show ?thesis using Some by (cases "f x") (metis as_opt.simps jopt.simps(2) option.simps(9))+
qed simp

lemma as_strs_jstrs [simp]: "as_opt as_strs (jopt jstrs xs) = Some xs"
  by (cases xs) (simp_all add: jstrs_def comp_def)

lemma as_flags_jflags [simp]: "as_opt as_flags (jopt jflags d) = Some d"
  by (cases d) (simp_all add: jflags_def case_prod_unfold comp_def)

lemma record_roundtrip: "record_from_dict (JObj (record_to_dict r)) = Good r"
  by (simp add: record_from_dict_def record_keywords_def keyword_def field_of_def record_to_dict_def)

subsection \<open>The registry and its file\<close>

record chat_store =
  st_states :: "(ustr, chat_state) dict"
  st_file :: "json line list"  \<comment> \<open>no file reads like an empty one\<close>

definition no_sessions :: chat_state where
  "no_sessions = \<lparr>cs_sessions = [], cs_next_session_number = 1\<rparr>"

definition state_of :: "ustr \<Rightarrow> (ustr, chat_state) dict \<Rightarrow> chat_state" where
  "state_of chat d = (case dget chat d of None \<Rightarrow> no_sessions | Some cs \<Rightarrow> cs)"

definition add_loaded :: "session_record \<Rightarrow> (ustr, chat_state) dict \<Rightarrow> (ustr, chat_state) dict" where
  "add_loaded r d =
     (let cs = state_of (sr_chat_id r) d
      in dset (sr_chat_id r)
           \<lparr>cs_sessions = dset (sr_session_number r) r (cs_sessions cs),
            cs_next_session_number = max (cs_next_session_number cs) (sr_session_number r + 1)\<rparr> d)"

fun load_lines :: "json line list \<Rightarrow> (ustr, chat_state) dict \<Rightarrow> py_exn + (ustr, chat_state) dict" where
  "load_lines [] d = Inr d"
| "load_lines (Parsed j # ls) d =
     (case record_from_dict j of
        Good r \<Rightarrow> load_lines ls (add_loaded r d)
      | Skip \<Rightarrow> load_lines ls d
      | Crash e \<Rightarrow> Inl e)"
| "load_lines (_ # ls) d = load_lines ls d"

definition load_store :: "json line list \<Rightarrow> py_exn + chat_store" where
  "load_store ls = map_sum id (\<lambda>d. \<lparr>st_states = d, st_file = ls\<rparr>) (load_lines ls [])"

definition record_line :: "session_record \<Rightarrow> json line" where
  "record_line r = Parsed (JObj (record_to_dict r))"

definition append_record :: "session_record \<Rightarrow> chat_store \<Rightarrow> chat_store" where
  "append_record r s = s\<lparr>st_file := st_file s @ [record_line r]\<rparr>"

definition compact_store :: "chat_store \<Rightarrow> chat_store" where
  "compact_store s = s\<lparr>st_file := concat (map (\<lambda>cs. map record_line (dvals (cs_sessions cs))) (dvals (st_states s)))\<rparr>"

text \<open>The state, which comes into being when it is first asked for.\<close>

definition chat_state_of :: "ustr \<Rightarrow> chat_store \<Rightarrow> chat_store \<times> chat_state" where
  "chat_state_of chat s =
     (case dget chat (st_states s) of
        Some cs \<Rightarrow> (s, cs)
      | None \<Rightarrow> (s\<lparr>st_states := dset chat no_sessions (st_states s)\<rparr>, no_sessions))"

definition active_record :: "ustr \<Rightarrow> chat_store \<Rightarrow> session_record option" where
  "active_record chat s =
     (case dget chat (st_states s) of
        None \<Rightarrow> None
      | Some cs \<Rightarrow> py_max_key sr_updated_at (dvals (cs_sessions cs)))"

definition next_session_number :: "ustr \<Rightarrow> chat_store \<Rightarrow> chat_store \<times> int" where
  "next_session_number chat s =
     (case chat_state_of chat s of
        (s1, cs) \<Rightarrow>
          (s1\<lparr>st_states := dset chat (cs\<lparr>cs_next_session_number := cs_next_session_number cs + 1\<rparr>) (st_states s1)\<rparr>,
           cs_next_session_number cs))"

text \<open>\<open>chat_state(chat_id).sessions[n] = record\<close>, as the turn and session code does.\<close>

definition set_session :: "session_record \<Rightarrow> chat_store \<Rightarrow> chat_store" where
  "set_session r s =
     (case chat_state_of (sr_chat_id r) s of
        (s1, cs) \<Rightarrow> s1\<lparr>st_states := dset (sr_chat_id r) (cs\<lparr>cs_sessions := dset (sr_session_number r) r (cs_sessions cs)\<rparr>) (st_states s1)\<rparr>)"

record prune_config =
  pn_enabled :: bool
  pn_days :: int

definition prunable :: "prune_config \<Rightarrow> secs \<Rightarrow> session_record option \<Rightarrow> int \<times> session_record \<Rightarrow> bool" where
  "prunable cfg now active p \<longleftrightarrow>
     \<not> (case active of None \<Rightarrow> False | Some a \<Rightarrow> fst p = sr_session_number a)
     \<and> \<not> sr_updated_at (snd p) \<ge> now - of_int (pn_days cfg * 86400)"

text \<open>The numbers removed are those whose archive is deleted.\<close>

definition prune_chat :: "prune_config \<Rightarrow> secs \<Rightarrow> ustr \<Rightarrow> chat_store \<Rightarrow> chat_store \<times> int list" where
  "prune_chat cfg now chat s =
     (if \<not> pn_enabled cfg then (s, [])
      else case chat_state_of chat s of
             (s1, cs) \<Rightarrow>
               let gone = map fst (filter (prunable cfg now (active_record chat s1)) (cs_sessions cs))
               in (s1\<lparr>st_states := dset chat (cs\<lparr>cs_sessions := dpop_all gone (cs_sessions cs)\<rparr>) (st_states s1)\<rparr>, gone))"

definition prune_and_compact :: "prune_config \<Rightarrow> secs \<Rightarrow> ustr \<Rightarrow> chat_store \<Rightarrow> chat_store" where
  "prune_and_compact cfg now chat s = (if pn_enabled cfg then compact_store (fst (prune_chat cfg now chat s)) else s)"

definition prune_all :: "prune_config \<Rightarrow> secs \<Rightarrow> chat_store \<Rightarrow> chat_store" where
  "prune_all cfg now s =
     (if \<not> pn_enabled cfg then s
      else compact_store (foldl (\<lambda>s chat. fst (prune_chat cfg now chat s)) s (dkeys (st_states s))))"

subsection \<open>The file and the registry agree\<close>

definition sessions_ok :: "ustr \<Rightarrow> chat_state \<Rightarrow> bool" where
  "sessions_ok chat cs \<longleftrightarrow> dict_ok (cs_sessions cs) \<and> 1 \<le> cs_next_session_number cs
     \<and> (\<forall>(n, r) \<in> set (cs_sessions cs). sr_session_number r = n \<and> sr_chat_id r = chat \<and> n < cs_next_session_number cs)"

definition states_ok :: "(ustr, chat_state) dict \<Rightarrow> bool" where
  "states_ok d \<longleftrightarrow> dict_ok d \<and> (\<forall>(chat, cs) \<in> set d. sessions_ok chat cs)"

abbreviation sessions_of :: "ustr \<Rightarrow> (ustr, chat_state) dict \<Rightarrow> (int, session_record) dict" where
  "sessions_of chat d \<equiv> cs_sessions (state_of chat d)"

abbreviation next_of :: "ustr \<Rightarrow> (ustr, chat_state) dict \<Rightarrow> int" where
  "next_of chat d \<equiv> cs_next_session_number (state_of chat d)"

definition synced :: "chat_store \<Rightarrow> bool" where
  "synced s \<longleftrightarrow> states_ok (st_states s)
     \<and> (\<exists>d. load_lines (st_file s) [] = Inr d \<and> states_ok d
          \<and> (\<forall>chat. sessions_of chat d = sessions_of chat (st_states s) \<and> next_of chat d \<le> next_of chat (st_states s)))"

lemma state_of_dset [simp]: "state_of c (dset chat cs d) = (if c = chat then cs else state_of c d)"
  by (simp add: state_of_def)

lemma state_of_Nil [simp]: "state_of c [] = no_sessions"
  by (simp add: state_of_def)

lemma no_sessions_sel [simp]: "cs_sessions no_sessions = []" "cs_next_session_number no_sessions = 1" "sessions_ok c no_sessions"
  by (simp_all add: no_sessions_def sessions_ok_def)

lemma states_ok_Nil [simp]: "states_ok []"
  by (simp add: states_ok_def)

lemma states_ok_dset: "states_ok d \<Longrightarrow> sessions_ok chat cs \<Longrightarrow> states_ok (dset chat cs d)"
  using set_dset [of chat cs d] by (auto simp: states_ok_def)

lemma states_ok_get: "states_ok d \<Longrightarrow> sessions_ok chat (state_of chat d)"
  by (auto simp: states_ok_def state_of_def split: option.split dest: map_of_SomeD)

lemma sessions_ok_dset:
  "sessions_ok chat cs \<Longrightarrow> sr_chat_id r = chat \<Longrightarrow> sr_session_number r < k \<Longrightarrow> cs_next_session_number cs \<le> k \<Longrightarrow>
   sessions_ok chat \<lparr>cs_sessions = dset (sr_session_number r) r (cs_sessions cs), cs_next_session_number = k\<rparr>"
  using set_dset [of "sr_session_number r" r "cs_sessions cs"] by (fastforce simp: sessions_ok_def)

lemma add_loaded_ok: "states_ok d \<Longrightarrow> states_ok (add_loaded r d)"
  unfolding add_loaded_def Let_def
  by (intro states_ok_dset sessions_ok_dset) (auto intro: states_ok_get)

lemma add_loaded_state:
  "sessions_of chat (add_loaded r d) =
     (if chat = sr_chat_id r then dset (sr_session_number r) r (sessions_of chat d) else sessions_of chat d)"
  "next_of chat (add_loaded r d) =
     (if chat = sr_chat_id r then max (next_of chat d) (sr_session_number r + 1) else next_of chat d)"
  by (simp_all add: add_loaded_def Let_def)

lemma load_lines_append:
  "load_lines (xs @ ys) d = (case load_lines xs d of Inl e \<Rightarrow> Inl e | Inr d' \<Rightarrow> load_lines ys d')"
  by (induction xs d rule: load_lines.induct) (auto split: decoded.split)

lemma load_lines_ok: "load_lines ls d = Inr d' \<Longrightarrow> states_ok d \<Longrightarrow> states_ok d'"
  by (induction ls d rule: load_lines.induct) (auto intro: add_loaded_ok split: decoded.splits)

lemma load_record_lines: "load_lines (map record_line rs) d = Inr (foldl (\<lambda>d r. add_loaded r d) d rs)"
  by (induction rs arbitrary: d) (simp_all add: record_line_def record_roundtrip)

lemma loaded_sessions:
  "sessions_of chat (foldl (\<lambda>d r. add_loaded r d) d rs) =
     foldl (\<lambda>m r. dset (sr_session_number r) r m) (sessions_of chat d) (filter (\<lambda>r. sr_chat_id r = chat) rs)"
  by (induction rs arbitrary: d) (simp_all add: add_loaded_state)

lemma loaded_next:
  "next_of chat (foldl (\<lambda>d r. add_loaded r d) d rs) \<le> k \<longleftrightarrow>
     next_of chat d \<le> k \<and> (\<forall>r \<in> set rs. sr_chat_id r = chat \<longrightarrow> sr_session_number r < k)"
  by (induction rs arbitrary: d) (auto simp: add_loaded_state)

lemma fold_keyed:
  "dict_ok (m @ e) \<Longrightarrow> (\<forall>(n, r) \<in> set e. sr_session_number r = n) \<Longrightarrow>
   foldl (\<lambda>m r. dset (sr_session_number r) r m) m (dvals e) = m @ e"
proof (induction e arbitrary: m)
  case (Cons p e)
  obtain n r where p: "p = (n, r)" by force
  with Cons.prems have "sr_session_number r = n" "n \<notin> set (dkeys m)" by (auto simp: dict_ok_def)
  then have "dset (sr_session_number r) r m = m @ [(n, r)]" by (simp add: dset_new)
  with Cons.IH [of "m @ [(n, r)]"] Cons.prems p show ?case by simp
qed simp

definition all_records :: "(ustr, chat_state) dict \<Rightarrow> session_record list" where
  "all_records d = concat (map (\<lambda>cs. dvals (cs_sessions cs)) (dvals d))"

lemma compact_file: "st_file (compact_store s) = map record_line (all_records (st_states s))"
  by (simp add: compact_store_def all_records_def map_concat comp_def)

lemma records_of_chat:
  "states_ok d \<Longrightarrow> filter (\<lambda>r. sr_chat_id r = chat) (all_records d) = dvals (sessions_of chat d)"
proof (induction d)
  case (Cons p d)
  obtain c cs where p: "p = (c, cs)" by force
  have ok: "states_ok d" "sessions_ok c cs" "c \<notin> set (dkeys d)" using Cons.prems p by (auto simp: states_ok_def)
  have "filter (\<lambda>r. sr_chat_id r = chat) (dvals (cs_sessions cs)) = (if chat = c then dvals (cs_sessions cs) else [])"
    using ok(2) by (force simp: sessions_ok_def filter_id_conv filter_empty_conv)
  moreover have "all_records (p # d) = dvals (cs_sessions cs) @ all_records d" by (simp add: all_records_def p)
  moreover have "state_of chat (p # d) = (if chat = c then cs else state_of chat d)" by (simp add: state_of_def p)
  moreover have "chat = c \<Longrightarrow> state_of chat d = no_sessions"
    using ok(3) by (simp add: state_of_def map_of_eq_None_iff [THEN iffD2] split: option.split)
  ultimately show ?case using Cons.IH [OF ok(1)] by simp
qed (simp add: all_records_def)

lemma compact_loads:
  assumes "states_ok (st_states s)"
  shows "\<exists>d. load_lines (st_file (compact_store s)) [] = Inr d \<and> states_ok d
    \<and> (\<forall>chat. sessions_of chat d = sessions_of chat (st_states s)
        \<and> (\<forall>k. next_of chat d \<le> k \<longleftrightarrow> 1 \<le> k \<and> (\<forall>(n, r) \<in> set (sessions_of chat (st_states s)). n < k)))"
proof -
  let ?d = "foldl (\<lambda>d r. add_loaded r d) [] (all_records (st_states s))"
  have l: "load_lines (st_file (compact_store s)) [] = Inr ?d" by (simp add: compact_file load_record_lines)
  have "sessions_of chat ?d = sessions_of chat (st_states s)
      \<and> (next_of chat ?d \<le> k \<longleftrightarrow> 1 \<le> k \<and> (\<forall>(n, r) \<in> set (sessions_of chat (st_states s)). n < k))" for chat k
  proof
    have ok: "dict_ok (sessions_of chat (st_states s))" "\<forall>(n, r) \<in> set (sessions_of chat (st_states s)). sr_session_number r = n"
      using states_ok_get [OF assms, of chat] by (auto simp: sessions_ok_def)
    then show "sessions_of chat ?d = sessions_of chat (st_states s)"
      using fold_keyed [of "[]" "sessions_of chat (st_states s)"] by (simp add: loaded_sessions records_of_chat [OF assms])
    have "(\<forall>r \<in> set (all_records (st_states s)). sr_chat_id r = chat \<longrightarrow> sr_session_number r < k)
        \<longleftrightarrow> (\<forall>r \<in> set (filter (\<lambda>r. sr_chat_id r = chat) (all_records (st_states s))). sr_session_number r < k)" by auto
    also have "\<dots> \<longleftrightarrow> (\<forall>(n, r) \<in> set (sessions_of chat (st_states s)). n < k)"
      unfolding records_of_chat [OF assms] using ok(2) by force
    finally show "next_of chat ?d \<le> k \<longleftrightarrow> 1 \<le> k \<and> (\<forall>(n, r) \<in> set (sessions_of chat (st_states s)). n < k)"
      by (simp add: loaded_next)
  qed
  moreover have "states_ok ?d" by (rule load_lines_ok [OF l]) simp
  ultimately show ?thesis using l by blast
qed

lemma compact_synced: "states_ok (st_states s) \<Longrightarrow> synced (compact_store s)"
proof -
  assume ok: "states_ok (st_states s)"
  from compact_loads [OF ok] obtain d where d: "load_lines (st_file (compact_store s)) [] = Inr d" "states_ok d"
    "\<forall>chat. sessions_of chat d = sessions_of chat (st_states s)
        \<and> (\<forall>k. next_of chat d \<le> k \<longleftrightarrow> 1 \<le> k \<and> (\<forall>(n, r) \<in> set (sessions_of chat (st_states s)). n < k))" by blast
  moreover have "1 \<le> next_of chat (st_states s) \<and> (\<forall>(n, r) \<in> set (sessions_of chat (st_states s)). n < next_of chat (st_states s))" for chat
    using states_ok_get [OF ok, of chat] by (auto simp: sessions_ok_def)
  moreover have "st_states (compact_store s) = st_states s" by (simp add: compact_store_def)
  ultimately show ?thesis using ok unfolding synced_def by metis
qed

subsection \<open>Operations of the running service\<close>

text \<open>
  A session is opened under the chat's next number; later its record is changed and appended again; old
  sessions are pruned and the file is rewritten.  \<open>Restart\<close> forgets the registry and reads the file.
\<close>

datatype store_op = Open session_record | Save session_record | Prune secs ustr | Prune_all secs | Restart

definition put_session :: "session_record \<Rightarrow> chat_store \<Rightarrow> chat_store" where
  "put_session r s = append_record r (set_session r s)"

fun store_step :: "prune_config \<Rightarrow> store_op \<Rightarrow> chat_store \<Rightarrow> chat_store" where
  "store_step cfg (Open r) s =
     (case next_session_number (sr_chat_id r) s of (s1, n) \<Rightarrow> put_session (r\<lparr>sr_session_number := n\<rparr>) s1)"
| "store_step cfg (Save r) s =
     (if dget (sr_session_number r) (sessions_of (sr_chat_id r) (st_states s)) = None then s else put_session r s)"
| "store_step cfg (Prune now chat) s = prune_and_compact cfg now chat s"
| "store_step cfg (Prune_all now) s = prune_all cfg now s"
| "store_step cfg Restart s = (case load_store (st_file s) of Inl e \<Rightarrow> s | Inr s' \<Rightarrow> s')"

definition run_store :: "prune_config \<Rightarrow> store_op list \<Rightarrow> chat_store \<Rightarrow> chat_store" where
  "run_store cfg ops s = foldl (\<lambda>s op. store_step cfg op s) s ops"

lemma chat_state_of_eq: "chat_state_of chat s = (s1, cs) \<Longrightarrow>
    cs = state_of chat (st_states s) \<and> st_file s1 = st_file s
    \<and> (\<forall>c. state_of c (st_states s1) = state_of c (st_states s)) \<and> (states_ok (st_states s) \<longrightarrow> states_ok (st_states s1))"
proof (cases "dget chat (st_states s)")
  case None
  assume "chat_state_of chat s = (s1, cs)"
  with None have s: "s1 = s\<lparr>st_states := dset chat no_sessions (st_states s)\<rparr>" "cs = no_sessions"
    by (simp_all add: chat_state_of_def)
  have "state_of chat (st_states s) = no_sessions" using None by (simp add: state_of_def)
  with s show ?thesis by (simp add: states_ok_dset)
qed (auto simp: chat_state_of_def state_of_def)

lemma put_session_synced:
  assumes "synced s" and "sr_session_number r < next_of (sr_chat_id r) (st_states s)"
  shows "synced (put_session r s)"
proof -
  let ?c = "sr_chat_id r" and ?n = "sr_session_number r"
  obtain s1 cs where c: "chat_state_of ?c s = (s1, cs)" by force
  note e = chat_state_of_eq [OF c]
  from assms(1) obtain d where d: "load_lines (st_file s) [] = Inr d" "states_ok d"
    "\<forall>chat. sessions_of chat d = sessions_of chat (st_states s) \<and> next_of chat d \<le> next_of chat (st_states s)"
    and ok: "states_ok (st_states s)" by (auto simp: synced_def)
  let ?cs = "cs\<lparr>cs_sessions := dset ?n r (cs_sessions cs)\<rparr>"
  have p: "put_session r s = s1\<lparr>st_states := dset ?c ?cs (st_states s1), st_file := st_file s @ [record_line r]\<rparr>"
    using c e by (simp add: put_session_def append_record_def set_session_def)
  have cs: "?cs = \<lparr>cs_sessions = dset ?n r (cs_sessions cs), cs_next_session_number = cs_next_session_number cs\<rparr>" by simp
  have "sessions_ok ?c ?cs" unfolding cs using assms(2) e ok
    by (intro sessions_ok_dset) (auto intro: states_ok_get)
  then have "states_ok (dset ?c ?cs (st_states s1))" using e ok by (intro states_ok_dset) auto
  moreover have "load_lines (st_file s @ [record_line r]) [] = Inr (add_loaded r d)"
    by (simp add: load_lines_append d(1) record_line_def record_roundtrip)
  moreover have "sessions_of chat (add_loaded r d) = sessions_of chat (dset ?c ?cs (st_states s1))
      \<and> next_of chat (add_loaded r d) \<le> next_of chat (dset ?c ?cs (st_states s1))" for chat
    using d(3) e assms(2) by (simp add: add_loaded_state)
  ultimately show ?thesis unfolding synced_def p by (auto intro: add_loaded_ok d(2))
qed

lemma next_number_synced:
  assumes "synced s" and "next_session_number chat s = (s1, n)"
  shows "synced s1 \<and> n < next_of chat (st_states s1) \<and> n = next_of chat (st_states s)"
proof -
  obtain s0 cs where c: "chat_state_of chat s = (s0, cs)" by force
  note e = chat_state_of_eq [OF c]
  have s1: "s1 = s0\<lparr>st_states := dset chat (cs\<lparr>cs_next_session_number := n + 1\<rparr>) (st_states s0)\<rparr>" and n: "n = cs_next_session_number cs"
    using assms(2) c by (auto simp: next_session_number_def)
  have ok: "states_ok (st_states s)" using assms(1) by (simp add: synced_def)
  have "sessions_ok chat (cs\<lparr>cs_next_session_number := n + 1\<rparr>)"
    using states_ok_get [OF ok, of chat] e n by (auto simp: sessions_ok_def)
  then have "states_ok (st_states s1)" unfolding s1 using e ok by (simp add: states_ok_dset)
  moreover have "next_of c (st_states s) \<le> next_of c (st_states s1) \<and> sessions_of c (st_states s1) = sessions_of c (st_states s)" for c
    using e n by (simp add: s1)
  moreover have "st_file s1 = st_file s" using e by (simp add: s1)
  ultimately have "synced s1" using assms(1) unfolding synced_def by (metis order.trans)
  with e n show ?thesis by (simp add: s1)
qed

lemma prune_chat_ok: "states_ok (st_states s) \<Longrightarrow> states_ok (st_states (fst (prune_chat cfg now chat s)))"
proof (cases "pn_enabled cfg")
  case True
  assume ok: "states_ok (st_states s)"
  obtain s0 cs where c: "chat_state_of chat s = (s0, cs)" by force
  note e = chat_state_of_eq [OF c]
  have "sessions_ok chat (cs\<lparr>cs_sessions := dpop_all gone (cs_sessions cs)\<rparr>)" for gone
    using states_ok_get [OF ok, of chat] e by (auto simp: sessions_ok_def dpop_all_ok mem_dpop_all)
  with e ok True c show ?thesis by (auto simp: prune_chat_def Let_def intro: states_ok_dset)
qed (simp add: prune_chat_def)

lemma store_step_synced: "synced s \<Longrightarrow> synced (store_step cfg op s)"
proof (cases op)
  case (Open r)
  assume s: "synced s"
  obtain s1 n where n: "next_session_number (sr_chat_id r) s = (s1, n)" by force
  from next_number_synced [OF s n] show ?thesis using Open n by (auto intro!: put_session_synced)
next
  case (Save r)
  assume s: "synced s"
  then have "sessions_ok (sr_chat_id r) (state_of (sr_chat_id r) (st_states s))" by (auto simp: synced_def intro: states_ok_get)
  then have "dget (sr_session_number r) (sessions_of (sr_chat_id r) (st_states s)) \<noteq> None
      \<Longrightarrow> sr_session_number r < next_of (sr_chat_id r) (st_states s)"
    by (auto simp: sessions_ok_def dest!: map_of_SomeD)
  with s Save show ?thesis by (auto intro: put_session_synced)
next
  case (Prune now chat)
  assume "synced s"
  with Prune show ?thesis by (auto simp: prune_and_compact_def synced_def [of s] intro!: compact_synced prune_chat_ok)
next
  case (Prune_all now)
  assume s: "synced s"
  have "states_ok (st_states s) \<Longrightarrow> states_ok (st_states (foldl (\<lambda>s chat. fst (prune_chat cfg now chat s)) s ks))" for ks
    by (induction ks arbitrary: s) (simp_all add: prune_chat_ok)
  with s Prune_all show ?thesis by (auto simp: prune_all_def synced_def [of s] intro!: compact_synced)
next
  case Restart
  assume s: "synced s"
  then obtain d where d: "load_lines (st_file s) [] = Inr d" "states_ok d" by (auto simp: synced_def)
  then show ?thesis using Restart by (auto simp: load_store_def synced_def)
qed

lemma run_store_synced: "synced s \<Longrightarrow> synced (run_store cfg ops s)"
  unfolding run_store_def by (induction ops arbitrary: s) (simp_all add: store_step_synced)

lemma active_record_eq: "active_record chat s = py_max_key sr_updated_at (dvals (sessions_of chat (st_states s)))"
  by (simp add: active_record_def state_of_def split: option.split)

lemma load_synced: "load_store ls = Inr s \<Longrightarrow> synced s"
  using load_lines_ok [OF _ states_ok_Nil]
  by (cases "load_lines ls []") (auto simp: load_store_def synced_def)

text \<open>
  Claim C15.  Sessions survive restarts: starting from any file the service can read, after any openings,
  changes, prunings and restarts, the file can be read, and every chat then has the same sessions in the same
  order and the same active session as before; and a session opened next gets a number no session there has.
\<close>

theorem sessions_survive_restarts:
  assumes "load_store ls = Inr s0"
  shows "\<exists>s'. load_store (st_file (run_store cfg ops s0)) = Inr s'
    \<and> sessions_of chat (st_states s') = sessions_of chat (st_states (run_store cfg ops s0))
    \<and> active_record chat s' = active_record chat (run_store cfg ops s0)
    \<and> snd (next_session_number chat s') \<notin> set (dkeys (sessions_of chat (st_states s')))"
proof -
  from run_store_synced [OF load_synced [OF assms]] have s: "synced (run_store cfg ops s0)" .
  then obtain d where d: "load_lines (st_file (run_store cfg ops s0)) [] = Inr d" "states_ok d"
    "sessions_of chat d = sessions_of chat (st_states (run_store cfg ops s0))" by (auto simp: synced_def)
  let ?s = "\<lparr>st_states = d, st_file = st_file (run_store cfg ops s0)\<rparr>"
  have l: "load_store (st_file (run_store cfg ops s0)) = Inr ?s" using d(1) by (simp add: load_store_def)
  have "snd (next_session_number chat ?s) = next_of chat d"
    using next_number_synced [OF load_synced [OF l]] by (metis chat_store.select_convs(1) prod.collapse)
  then have "snd (next_session_number chat ?s) \<notin> set (dkeys (sessions_of chat d))"
    using states_ok_get [OF d(2), of chat] by (auto simp: sessions_ok_def)
  with l d show ?thesis by (auto simp: active_record_eq)
qed

theorem sessions_survive_restarts_witness:
  "\<exists>s'. load_store (st_file (run_store \<lparr>pn_enabled = True, pn_days = 30\<rparr>
          [Open blank_session, Open blank_session, Prune 5000000 [], Restart, Open blank_session] \<lparr>st_states = [], st_file = []\<rparr>)) = Inr s'
    \<and> sessions_of [] (st_states s') = sessions_of [] (st_states (run_store \<lparr>pn_enabled = True, pn_days = 30\<rparr>
          [Open blank_session, Open blank_session, Prune 5000000 [], Restart, Open blank_session] \<lparr>st_states = [], st_file = []\<rparr>))
    \<and> active_record [] s' = active_record [] (run_store \<lparr>pn_enabled = True, pn_days = 30\<rparr>
          [Open blank_session, Open blank_session, Prune 5000000 [], Restart, Open blank_session] \<lparr>st_states = [], st_file = []\<rparr>)
    \<and> snd (next_session_number [] s') \<notin> set (dkeys (sessions_of [] (st_states s')))"
  by (rule sessions_survive_restarts [where ls = "[]"]) (simp add: load_store_def)

text \<open>
  A pruned number is given out again: when the sessions with the highest numbers of a chat are the
  ones that are pruned, the first session opened after a restart gets the number of a pruned session or a
  lower one, under which the chat's transcript and memory know the pruned session.
\<close>

theorem pruned_number_is_given_out_again:
  assumes "states_ok (st_states s)" and "pn_enabled cfg" and "1 \<le> n"
    and "n \<in> set (snd (prune_chat cfg now chat s))"
    and "\<forall>k \<in> set (dkeys (sessions_of chat (st_states (fst (prune_chat cfg now chat s))))). k < n"
  shows "\<exists>s'. load_store (st_file (prune_and_compact cfg now chat s)) = Inr s' \<and> snd (next_session_number chat s') \<le> n"
proof -
  let ?s = "fst (prune_chat cfg now chat s)"
  from compact_loads [OF prune_chat_ok [OF assms(1)], of cfg now chat] obtain d where d:
    "load_lines (st_file (compact_store ?s)) [] = Inr d"
    "\<forall>k. next_of chat d \<le> k \<longleftrightarrow> 1 \<le> k \<and> (\<forall>(n, r) \<in> set (sessions_of chat (st_states ?s)). n < k)" by blast
  have "next_of chat d \<le> n" using d(2) assms(3,5) by (auto simp: image_iff)
  moreover have l: "load_store (st_file (compact_store ?s)) = Inr \<lparr>st_states = d, st_file = st_file (compact_store ?s)\<rparr>"
    using d(1) by (simp add: load_store_def)
  moreover have "snd (next_session_number chat \<lparr>st_states = d, st_file = st_file (compact_store ?s)\<rparr>) = next_of chat d"
    using next_number_synced [OF load_synced [OF l]] by (metis chat_store.select_convs(1) prod.collapse)
  ultimately show ?thesis using assms(2) by (simp add: prune_and_compact_def)
qed

definition two_sessions :: chat_store where
  "two_sessions = \<lparr>st_states = [([], \<lparr>cs_sessions = [(1, blank_session\<lparr>sr_updated_at := 9000000\<rparr>), (2, blank_session\<lparr>sr_session_number := 2\<rparr>)],
     cs_next_session_number = 3\<rparr>)], st_file = []\<rparr>"

theorem pruned_number_is_given_out_again_witness:
  "\<exists>s'. load_store (st_file (prune_and_compact \<lparr>pn_enabled = True, pn_days = 30\<rparr> 9000000 [] two_sessions)) = Inr s'
     \<and> snd (next_session_number [] s') \<le> 2"
proof -
  have "snd (prune_chat \<lparr>pn_enabled = True, pn_days = 30\<rparr> 9000000 [] two_sessions) = [2]
      \<and> dkeys (sessions_of [] (st_states (fst (prune_chat \<lparr>pn_enabled = True, pn_days = 30\<rparr> 9000000 [] two_sessions)))) = [1]"
    by (simp add: prune_chat_def two_sessions_def chat_state_of_def prunable_def active_record_def blank_session_def
        Let_def dpop_all_def state_of_def)
  then show ?thesis
    by (intro pruned_number_is_given_out_again)
      (simp_all add: two_sessions_def states_ok_def sessions_ok_def blank_session_def)
qed

text \<open>A line that is JSON but no object stops the service from starting.\<close>

lemma foreign_line_stops_the_service: "load_store [Parsed (JList [])] = Inl AttributeError"
  by (simp add: load_store_def record_from_dict_def)

end
