(* ===== verification/DispatchStore.thy ===== *)
theory DispatchStore
  imports Json
begin

section \<open>The dispatch store\<close>

text \<open>
  \<open>src/src/diploid_agent/dispatch.py\<close>: the records of work handed to the harness for continuation.  The
  store is a dictionary, written to a JSON-lines file after every change (if it has a path at all:
  \<open>ds_file\<close>); each write first evicts terminal dispatches past a retention window or a count cap.  The
  clock reading of an eviction is an argument.
\<close>

datatype dispatch_status = D_PENDING | D_COMPLETED | D_FAILED | D_TIMEOUT | D_CANCELLED

definition terminal :: "dispatch_status \<Rightarrow> bool" where
  "terminal s \<longleftrightarrow> s \<noteq> D_PENDING"

definition TERMINAL_RETENTION_SECONDS :: secs where
  "TERMINAL_RETENTION_SECONDS = 7 * 86400"

definition TERMINAL_MAX_KEPT :: nat where
  "TERMINAL_MAX_KEPT = 200"

record dispatch =
  dp_id :: ustr
  dp_chat_id :: ustr
  dp_session_id :: ustr
  dp_status :: dispatch_status
  dp_result :: "ustr option"
  dp_context :: "ustr option"
  dp_metadata :: "(ustr, json) dict"
  dp_type :: ustr
  dp_started_at :: "secs option"
  dp_finished_at :: "secs option"
  dp_summary :: "ustr option"
  dp_stop_reason :: "ustr option"
  dp_cancelled :: bool
  dp_partial :: bool
  dp_timed_out :: bool
  dp_full_result_path :: "ustr option"

text \<open>\<open>finished_at or started_at or 0.0\<close>: zero is a missing date too.\<close>

definition age_key :: "dispatch \<Rightarrow> secs" where
  "age_key d =
     (case dp_finished_at d of
        Some t \<Rightarrow> if t \<noteq> 0 then t else (case dp_started_at d of Some s \<Rightarrow> s | None \<Rightarrow> 0)
      | None \<Rightarrow> (case dp_started_at d of Some s \<Rightarrow> s | None \<Rightarrow> 0))"

type_synonym dispatches = "(ustr, dispatch) dict"

record dispatch_store =
  ds_items :: dispatches
  ds_file :: "dispatch line list option"

subsection \<open>Loading, eviction, saving\<close>

text \<open>
  \<open>from_dict\<close> raises \<open>KeyError\<close> for a missing required field and \<open>ValueError\<close> for an unknown status, both
  caught: such a line is \<open>Malformed\<close> here.  The lines are merged into the dictionary.
\<close>

definition dispatch_load :: "dispatches \<Rightarrow> dispatch line list \<Rightarrow> dispatches" where
  "dispatch_load d ls = (case jsonl_load_from Good dp_id d ls of Inr e \<Rightarrow> e | Inl x \<Rightarrow> d)"

definition expired :: "secs \<Rightarrow> dispatch \<Rightarrow> bool" where
  "expired now d \<longleftrightarrow> terminal (dp_status d) \<and> age_key d \<noteq> 0 \<and> now - age_key d > TERMINAL_RETENTION_SECONDS"

definition evict_expired :: "secs \<Rightarrow> dispatches \<Rightarrow> dispatches" where
  "evict_expired now d = dpop_all (map dp_id (filter (expired now) (dvals d))) d"

definition kept_terminal :: "dispatches \<Rightarrow> dispatch list" where
  "kept_terminal d = filter (\<lambda>x. terminal (dp_status x)) (dvals d)"

definition evict_over_cap :: "dispatches \<Rightarrow> dispatches" where
  "evict_over_cap d =
     (let r = kept_terminal d
      in if length r > TERMINAL_MAX_KEPT
         then dpop_all (map dp_id (take (length r - TERMINAL_MAX_KEPT) (sort_key age_key r))) d
         else d)"

definition evict_terminal :: "secs \<Rightarrow> dispatches \<Rightarrow> dispatches" where
  "evict_terminal now d = evict_over_cap (evict_expired now d)"

definition dispatch_save :: "secs \<Rightarrow> dispatch_store \<Rightarrow> dispatch_store" where
  "dispatch_save now s =
     (case ds_file s of
        None \<Rightarrow> s
      | Some ls \<Rightarrow> let d = evict_terminal now (ds_items s)
                   in s\<lparr>ds_items := d, ds_file := Some (jsonl_save id d)\<rparr>)"

definition dispatch_open :: "secs \<Rightarrow> dispatch line list option \<Rightarrow> dispatch_store" where
  "dispatch_open now f =
     (case f of
        None \<Rightarrow> \<lparr>ds_items = [], ds_file = None\<rparr>
      | Some ls \<Rightarrow> dispatch_save now \<lparr>ds_items = dispatch_load [] ls, ds_file = Some ls\<rparr>)"

subsection \<open>Operations\<close>

definition dispatch_add ::
  "ustr \<Rightarrow> ustr \<Rightarrow> ustr \<Rightarrow> ustr option \<Rightarrow> ustr \<Rightarrow> secs option \<Rightarrow> secs \<Rightarrow> dispatch_store \<Rightarrow> dispatch_store \<times> dispatch" where
  "dispatch_add i chat session ctx ty started now s =
     (let d = \<lparr>dp_id = i, dp_chat_id = chat, dp_session_id = session, dp_status = D_PENDING, dp_result = None,
        dp_context = ctx, dp_metadata = [], dp_type = ty, dp_started_at = started, dp_finished_at = None,
        dp_summary = None, dp_stop_reason = None, dp_cancelled = False, dp_partial = False,
        dp_timed_out = False, dp_full_result_path = None\<rparr>
      in (dispatch_save now (s\<lparr>ds_items := dset i d (ds_items s)\<rparr>), d))"

definition dispatch_get :: "ustr \<Rightarrow> dispatch_store \<Rightarrow> dispatch option" where
  "dispatch_get i s = dget i (ds_items s)"

text \<open>The keyword arguments of \<open>set_result\<close>.\<close>

record result_update =
  ru_result :: ustr
  ru_summary :: "ustr option"
  ru_finished_at :: "secs option"
  ru_status :: "dispatch_status option"
  ru_stop_reason :: "ustr option"
  ru_cancelled :: bool
  ru_partial :: bool
  ru_timed_out :: bool
  ru_full_result_path :: "ustr option"

definition or_old :: "'a option \<Rightarrow> 'a option \<Rightarrow> 'a option" where
  "or_old n old = (case n of None \<Rightarrow> old | Some x \<Rightarrow> Some x)"

definition takes_result :: "dispatch \<Rightarrow> bool" where
  "takes_result d \<longleftrightarrow> dp_status d = D_PENDING \<or> dp_status d = D_TIMEOUT \<or> dp_status d = D_CANCELLED"

definition updated :: "result_update \<Rightarrow> dispatch \<Rightarrow> dispatch" where
  "updated r d =
     (let d1 = (if takes_result d
                then d\<lparr>dp_result := Some (ru_result r), dp_summary := or_old (ru_summary r) (dp_summary d),
                       dp_finished_at := or_old (ru_finished_at r) (dp_finished_at d)\<rparr> else d)
      in d1\<lparr>dp_status := (case ru_status r of None \<Rightarrow> dp_status d | Some s \<Rightarrow> s),
            dp_stop_reason := or_old (ru_stop_reason r) (dp_stop_reason d),
            dp_cancelled := ru_cancelled r, dp_partial := ru_partial r, dp_timed_out := ru_timed_out r,
            dp_full_result_path := or_old (ru_full_result_path r) (dp_full_result_path d)\<rparr>)"

definition change_dispatch ::
  "ustr \<Rightarrow> (dispatch \<Rightarrow> dispatch) \<Rightarrow> secs \<Rightarrow> dispatch_store \<Rightarrow> dispatch_store \<times> dispatch option" where
  "change_dispatch i f now s =
     (case dget i (ds_items s) of
        None \<Rightarrow> (s, None)
      | Some d \<Rightarrow> (dispatch_save now (s\<lparr>ds_items := dset i (f d) (ds_items s)\<rparr>), Some (f d)))"

definition set_result :: "ustr \<Rightarrow> result_update \<Rightarrow> secs \<Rightarrow> dispatch_store \<Rightarrow> dispatch_store \<times> dispatch option" where
  "set_result i r = change_dispatch i (updated r)"

definition dispatch_complete :: "ustr \<Rightarrow> ustr \<Rightarrow> secs \<Rightarrow> dispatch_store \<Rightarrow> dispatch_store \<times> dispatch option" where
  "dispatch_complete i result = change_dispatch i (\<lambda>d. d\<lparr>dp_status := D_COMPLETED, dp_result := Some result\<rparr>)"

definition dispatch_fail :: "ustr \<Rightarrow> ustr \<Rightarrow> secs \<Rightarrow> dispatch_store \<Rightarrow> dispatch_store \<times> dispatch option" where
  "dispatch_fail i result = change_dispatch i (\<lambda>d. d\<lparr>dp_status := D_FAILED, dp_result := Some result\<rparr>)"

definition list_by_chat :: "ustr \<Rightarrow> dispatch_status option \<Rightarrow> dispatch_store \<Rightarrow> dispatch list" where
  "list_by_chat chat status s =
     filter (\<lambda>d. dp_chat_id d = chat \<and> (status = None \<or> status = Some (dp_status d))) (dvals (ds_items s))"

subsection \<open>Eviction\<close>

definition items_ok :: "dispatches \<Rightarrow> bool" where
  "items_ok d \<longleftrightarrow> keyed_ok dp_id (\<lambda>_. True) d"

interpretation dispatch_codec: jsonl_codec id Good dp_id "\<lambda>_::dispatch. True"
  by unfold_locales auto

lemma items_ok_simps: "items_ok d \<longleftrightarrow> dict_ok d \<and> (\<forall>(k, v) \<in> set d. dp_id v = k)"
  by (auto simp: items_ok_def keyed_ok_def list_all_iff)

lemma dget_ids: "items_ok d \<Longrightarrow> dget i d = Some x \<Longrightarrow> dp_id x = i"
  by (auto simp: items_ok_simps dest: map_of_SomeD)

lemma vals_iff: "items_ok d \<Longrightarrow> x \<in> set (dvals d) \<longleftrightarrow> dget (dp_id x) d = Some x"
  unfolding items_ok_def by (rule keyed_ok_vals)

lemma dget_vals: "dget i d = Some x \<Longrightarrow> x \<in> set (dvals d)"
  by (auto dest: map_of_SomeD intro: rev_image_eqI)

lemma popped_ids:
  assumes ok: "items_ok d" and xs: "set xs \<subseteq> set (dvals d)"
  shows "dget i (dpop_all (map dp_id xs) d) = (case dget i d of None \<Rightarrow> None | Some x \<Rightarrow> if x \<in> set xs then None else Some x)"
proof (cases "dget i d")
  case (Some x)
  have "i \<in> dp_id ` set xs \<longleftrightarrow> x \<in> set xs"
  proof
    assume "i \<in> dp_id ` set xs"
    then obtain y where y: "y \<in> set xs" "i = dp_id y" by blast
    with xs have "y \<in> set (dvals d)" by blast
    with vals_iff [OF ok] y(2) have "dget i d = Some y" by blast
    with Some y(1) show "x \<in> set xs" by simp
  qed (use dget_ids [OF ok Some] in force)
  with Some show ?thesis by simp
qed simp

lemma items_ok_dpop_all: "items_ok d \<Longrightarrow> items_ok (dpop_all is d)"
  by (simp add: items_ok_def keyed_ok_dpop_all)

lemma items_ok_dset: "items_ok d \<Longrightarrow> dp_id x = i \<Longrightarrow> items_ok (dset i x d)"
  by (simp add: items_ok_def keyed_ok_dset)

lemma evict_ok: "items_ok d \<Longrightarrow> items_ok (evict_terminal now d)"
  by (simp add: evict_terminal_def evict_over_cap_def evict_expired_def items_ok_dpop_all Let_def)

lemma dget_evict_expired:
  "items_ok d \<Longrightarrow> dget i (evict_expired now d) =
     (case dget i d of None \<Rightarrow> None | Some x \<Rightarrow> if expired now x then None else Some x)"
  unfolding evict_expired_def
  by (subst popped_ids) (auto split: option.splits dest: dget_vals simp del: set_map)

text \<open>The terminal dispatches dropped for the cap: the first of the stable sort by age.\<close>

definition over_cap :: "dispatches \<Rightarrow> dispatch list" where
  "over_cap d = take (length (kept_terminal d) - TERMINAL_MAX_KEPT) (sort_key age_key (kept_terminal d))"

lemma dget_evict_over_cap:
  "items_ok d \<Longrightarrow> dget i (evict_over_cap d) =
     (case dget i d of None \<Rightarrow> None | Some x \<Rightarrow> if x \<in> set (over_cap d) then None else Some x)"
proof -
  assume ok: "items_ok d"
  have "set (over_cap d) \<subseteq> set (dvals d)"
    unfolding over_cap_def kept_terminal_def by (auto dest: in_set_takeD)
  from popped_ids [OF ok this] show ?thesis
    by (auto simp: evict_over_cap_def over_cap_def Let_def split: option.splits)
qed

lemma over_cap_terminal: "x \<in> set (over_cap d) \<Longrightarrow> terminal (dp_status x)"
  by (auto simp: over_cap_def kept_terminal_def dest: in_set_takeD)

lemma pending_not_evicted:
  "items_ok d \<Longrightarrow> dget i d = Some x \<Longrightarrow> dp_status x = D_PENDING \<Longrightarrow> dget i (evict_terminal now d) = Some x"
proof -
  assume ok: "items_ok d" and x: "dget i d = Some x" "dp_status x = D_PENDING"
  have "items_ok (evict_expired now d)" by (simp add: evict_expired_def items_ok_dpop_all ok)
  with x over_cap_terminal [of x] show ?thesis
    by (auto simp: evict_terminal_def dget_evict_over_cap dget_evict_expired [OF ok] expired_def terminal_def)
qed

lemma distinct_dvals: "items_ok d \<Longrightarrow> distinct (dvals d)"
proof -
  assume ok: "items_ok d"
  have "map dp_id (dvals d) = dkeys d" using ok by (induction d) (auto simp: items_ok_simps)
  with ok show ?thesis by (metis distinct_map dict_ok_def items_ok_simps)
qed

lemma distinct_kept: "items_ok d \<Longrightarrow> distinct (kept_terminal d)"
  unfolding kept_terminal_def by (intro distinct_filter distinct_dvals)

lemma kept_after_cap: "items_ok d \<Longrightarrow> length (kept_terminal (evict_over_cap d)) \<le> TERMINAL_MAX_KEPT"
proof -
  assume ok: "items_ok d"
  have ok': "items_ok (evict_over_cap d)" using ok by (simp add: evict_over_cap_def items_ok_dpop_all Let_def)
  let ?r = "kept_terminal d"
  have sub: "set (kept_terminal (evict_over_cap d)) \<subseteq> set (drop (length ?r - TERMINAL_MAX_KEPT) (sort_key age_key ?r))"
  proof
    fix x assume "x \<in> set (kept_terminal (evict_over_cap d))"
    then have x: "x \<in> set (dvals (evict_over_cap d))" "terminal (dp_status x)" by (auto simp: kept_terminal_def)
    from vals_iff [OF ok'] x(1) have "dget (dp_id x) (evict_over_cap d) = Some x" by blast
    then have "dget (dp_id x) d = Some x" "x \<notin> set (over_cap d)"
      unfolding dget_evict_over_cap [OF ok] by (auto split: option.splits if_splits)
    then have "x \<in> set (sort_key age_key ?r)" "x \<notin> set (over_cap d)"
      using x(2) by (auto simp: kept_terminal_def dest: map_of_SomeD intro: rev_image_eqI)
    then show "x \<in> set (drop (length ?r - TERMINAL_MAX_KEPT) (sort_key age_key ?r))"
      unfolding over_cap_def by (metis Un_iff append_take_drop_id set_append)
  qed
  have "length (kept_terminal (evict_over_cap d)) = card (set (kept_terminal (evict_over_cap d)))"
    by (rule distinct_card [OF distinct_kept [OF ok'], symmetric])
  also have "\<dots> \<le> length (drop (length ?r - TERMINAL_MAX_KEPT) (sort_key age_key ?r))"
    using card_mono [OF finite_set sub] card_length order.trans by blast
  also have "\<dots> \<le> TERMINAL_MAX_KEPT" by simp
  finally show ?thesis .
qed

subsection \<open>Runs\<close>

datatype dispatch_op =
    DAdd ustr ustr ustr "ustr option" ustr "secs option" secs
  | DSetResult ustr result_update secs
  | DComplete ustr ustr secs
  | DFail ustr ustr secs

fun dispatch_step :: "dispatch_op \<Rightarrow> dispatch_store \<Rightarrow> dispatch_store" where
  "dispatch_step (DAdd i chat session ctx ty started now) s = fst (dispatch_add i chat session ctx ty started now s)"
| "dispatch_step (DSetResult i r now) s = fst (set_result i r now s)"
| "dispatch_step (DComplete i result now) s = fst (dispatch_complete i result now s)"
| "dispatch_step (DFail i result now) s = fst (dispatch_fail i result now s)"

fun target :: "dispatch_op \<Rightarrow> ustr" where
  "target (DAdd i chat session ctx ty started now) = i"
| "target (DSetResult i r now) = i"
| "target (DComplete i result now) = i"
| "target (DFail i result now) = i"

definition dispatch_run :: "dispatch_op list \<Rightarrow> dispatch_store \<Rightarrow> dispatch_store" where
  "dispatch_run ops s = foldl (\<lambda>s op. dispatch_step op s) s ops"

definition saved_ok :: "dispatch_store \<Rightarrow> bool" where
  "saved_ok s \<longleftrightarrow> items_ok (ds_items s) \<and> length (kept_terminal (ds_items s)) \<le> TERMINAL_MAX_KEPT
     \<and> ds_file s = Some (jsonl_save id (ds_items s))"

lemma evict_small: "items_ok d \<Longrightarrow> length (kept_terminal (evict_terminal now d)) \<le> TERMINAL_MAX_KEPT"
  unfolding evict_terminal_def by (rule kept_after_cap) (simp add: evict_expired_def items_ok_dpop_all)

lemma save_ok: "items_ok (ds_items s) \<Longrightarrow> ds_file s = Some ls \<Longrightarrow> saved_ok (dispatch_save now s)"
  by (simp add: dispatch_save_def saved_ok_def Let_def evict_ok evict_small)

lemma change_ok:
  assumes "saved_ok s" "\<And>d. dp_id (f d) = dp_id d"
  shows "saved_ok (fst (change_dispatch i f now s))"
proof (cases "dget i (ds_items s)")
  case (Some d)
  have ok: "items_ok (ds_items s)" using assms(1) by (simp add: saved_ok_def)
  have "items_ok (dset i (f d) (ds_items s))"
    using items_ok_dset [OF ok, of "f d" i] dget_ids [OF ok Some] assms(2) by simp
  then have "saved_ok (dispatch_save now (s\<lparr>ds_items := dset i (f d) (ds_items s)\<rparr>))"
    using assms(1) by (intro save_ok [where ls = "jsonl_save id (ds_items s)"]) (simp_all add: saved_ok_def)
  with Some show ?thesis by (simp add: change_dispatch_def)
qed (simp add: change_dispatch_def assms)

lemma updated_id: "dp_id (updated r d) = dp_id d"
  by (simp add: updated_def Let_def)

lemma step_ok: "saved_ok s \<Longrightarrow> saved_ok (dispatch_step op s)"
proof (cases op)
  case (DAdd i chat session ctx ty started now)
  assume "saved_ok s"
  with DAdd show ?thesis
    by (auto simp: dispatch_add_def Let_def saved_ok_def [of s]
        intro!: save_ok [where ls = "jsonl_save id (ds_items s)"] items_ok_dset)
qed (simp_all add: set_result_def dispatch_complete_def dispatch_fail_def change_ok updated_id)

lemma saved_run_ok: "saved_ok s \<Longrightarrow> saved_ok (dispatch_run ops s)"
  unfolding dispatch_run_def by (induction ops arbitrary: s) (simp_all add: step_ok)

lemma open_ok: "saved_ok (dispatch_open now (Some ls))"
proof -
  have "items_ok (dispatch_load [] ls)"
    unfolding dispatch_load_def items_ok_def
    by (auto split: sum.splits intro: dispatch_codec.load_ok)
  then show ?thesis by (simp add: dispatch_open_def) (rule save_ok [where ls = ls], simp_all)
qed

lemma reload: "saved_ok s \<Longrightarrow> dispatch_load [] (the (ds_file s)) = ds_items s"
  by (simp add: dispatch_load_def saved_ok_def items_ok_def dispatch_codec.load_save)

lemma save_keeps_pending:
  assumes "items_ok (ds_items s)" "dget i (ds_items s) = Some x" "dp_status x = D_PENDING"
  shows "dget i (ds_items (dispatch_save now s)) = Some x"
  using pending_not_evicted [OF assms] assms by (auto simp: dispatch_save_def Let_def split: option.splits)

lemma change_keeps_pending:
  assumes "saved_ok s" "\<And>d. dp_id (f d) = dp_id d" "i \<noteq> j" "dget i (ds_items s) = Some x" "dp_status x = D_PENDING"
  shows "dget i (ds_items (fst (change_dispatch j f now s))) = Some x"
proof (cases "dget j (ds_items s)")
  case (Some d)
  have ok: "items_ok (ds_items s)" using assms(1) by (simp add: saved_ok_def)
  have "items_ok (dset j (f d) (ds_items s))"
    using items_ok_dset [OF ok, of "f d" j] dget_ids [OF ok Some] assms(2) by simp
  with Some assms(3-5) show ?thesis
    by (simp add: change_dispatch_def save_keeps_pending)
qed (simp add: change_dispatch_def assms)

lemma step_keeps_pending:
  assumes "saved_ok s" "target op \<noteq> i" "dget i (ds_items s) = Some x" "dp_status x = D_PENDING"
  shows "dget i (ds_items (dispatch_step op s)) = Some x"
proof (cases op)
  case (DAdd j chat session ctx ty started now)
  with assms show ?thesis
    by (auto simp: dispatch_add_def Let_def saved_ok_def intro!: save_keeps_pending items_ok_dset)
qed (use assms in \<open>auto simp: set_result_def dispatch_complete_def dispatch_fail_def updated_id intro!: change_keeps_pending\<close>)

lemma run_keeps_pending:
  "saved_ok s \<Longrightarrow> \<forall>op \<in> set ops. target op \<noteq> i \<Longrightarrow> dget i (ds_items s) = Some x \<Longrightarrow> dp_status x = D_PENDING \<Longrightarrow>
   dget i (ds_items (dispatch_run ops s)) = Some x"
  unfolding dispatch_run_def
  by (induction ops arbitrary: s) (simp_all add: step_keeps_pending step_ok)

subsection \<open>Properties\<close>



text \<open>
  What \<open>set_result\<close> may overwrite: the result, summary and finish time of a dispatch are replaced
  only while it is pending, timed out or cancelled; a completed or failed one keeps them, while its status
  (when one is given) and its flags always follow the call; other dispatches in the dictionary are not changed.
\<close>

theorem set_result_respects_closed_results:
  assumes "dispatch_get i s = Some d" and "ds_file s = None"
  shows "set_result i r now s = (s\<lparr>ds_items := dset i (updated r d) (ds_items s)\<rparr>, Some (updated r d))
    \<and> (if dp_status d = D_COMPLETED \<or> dp_status d = D_FAILED
       then dp_result (updated r d) = dp_result d \<and> dp_summary (updated r d) = dp_summary d
            \<and> dp_finished_at (updated r d) = dp_finished_at d
       else dp_result (updated r d) = Some (ru_result r))
    \<and> dp_status (updated r d) = (case ru_status r of None \<Rightarrow> dp_status d | Some st \<Rightarrow> st)
    \<and> dp_cancelled (updated r d) = ru_cancelled r \<and> dp_timed_out (updated r d) = ru_timed_out r
    \<and> (j \<noteq> i \<longrightarrow> dispatch_get j (fst (set_result i r now s)) = dispatch_get j s)"
  using assms by (cases "dp_status d")
    (simp_all add: set_result_def change_dispatch_def dispatch_get_def dispatch_save_def updated_def takes_result_def Let_def)

theorem set_result_respects_closed_results_witness:
  "\<exists>d. dp_status d = D_COMPLETED \<and> dp_result (updated
     \<lparr>ru_result = u ''new'', ru_summary = None, ru_finished_at = None, ru_status = None, ru_stop_reason = None,
      ru_cancelled = False, ru_partial = False, ru_timed_out = False, ru_full_result_path = None\<rparr> d) = Some (u ''old'')"
proof -
  define d where "d = \<lparr>dp_id = u ''a'', dp_chat_id = [], dp_session_id = [], dp_status = D_COMPLETED,
    dp_result = Some (u ''old''), dp_context = None, dp_metadata = [], dp_type = [], dp_started_at = None,
    dp_finished_at = None, dp_summary = None, dp_stop_reason = None, dp_cancelled = False, dp_partial = False,
    dp_timed_out = False, dp_full_result_path = None\<rparr>"
  have "dispatch_get (u ''a'') \<lparr>ds_items = [(u ''a'', d)], ds_file = None\<rparr> = Some d"
    by (simp add: dispatch_get_def)
  from set_result_respects_closed_results [OF this] show ?thesis
    by (intro exI [of _ d]) (simp add: d_def)
qed

lemma dpop_all_Nil [simp]: "dpop_all [] d = d"
  by (simp add: dpop_all_def)

lemma undated_first:
  assumes ok: "items_ok d" and x: "dget i d = Some x" "terminal (dp_status x)" "age_key x = 0"
    and dated: "\<And>y. y \<in> set (kept_terminal d) \<Longrightarrow> y \<noteq> x \<Longrightarrow> 0 < age_key y"
    and full: "length (kept_terminal d) = Suc TERMINAL_MAX_KEPT"
  shows "dget i (evict_over_cap d) = None"
proof -
  let ?ys = "sort_key age_key (kept_terminal d)"
  have mem: "x \<in> set ?ys" using x(2) dget_vals [OF x(1)] by (simp add: kept_terminal_def)
  then obtain y ys where ys: "?ys = y # ys" by (cases ?ys) auto
  have "sorted (map age_key ?ys)" by simp
  then have "age_key y \<le> age_key x" using mem unfolding ys by auto
  moreover have "y \<in> set (kept_terminal d)" using ys by (metis list.set_intros(1) set_sort)
  ultimately have "y = x" using dated [of y] x(3) by force
  with ys full have "over_cap d = [x]" by (simp add: over_cap_def)
  with x(1) show ?thesis unfolding dget_evict_over_cap [OF ok] by simp
qed

text \<open>
  A dispatch completed without a date is forgotten at once: \<open>complete\<close> sets no finish time, and a
  dispatch added without a start time then counts as the oldest of all.  When the store already keeps 200
  dated terminal dispatches, completing such a one reports success and evicts it in the same write, so that
  the next lookup does not find it.
\<close>

theorem undated_completion_is_evicted:
  assumes "saved_ok s" and "dispatch_get i s = Some x" and "dp_status x = D_PENDING" and "age_key x = 0"
    and "length (kept_terminal (ds_items s)) = TERMINAL_MAX_KEPT"
    and "\<forall>y \<in> set (kept_terminal (ds_items s)). 0 < age_key y \<and> now - age_key y \<le> TERMINAL_RETENTION_SECONDS"
  shows "snd (dispatch_complete i result now s) = Some (x\<lparr>dp_status := D_COMPLETED, dp_result := Some result\<rparr>)
    \<and> dispatch_get i (fst (dispatch_complete i result now s)) = None"
proof -
  let ?y = "x\<lparr>dp_status := D_COMPLETED, dp_result := Some result\<rparr>"
  let ?d = "dset i ?y (ds_items s)"
  have ok: "items_ok (ds_items s)" and f: "ds_file s = Some (jsonl_save id (ds_items s))"
    using assms(1) by (simp_all add: saved_ok_def)
  have x: "dget i (ds_items s) = Some x" using assms(2) by (simp add: dispatch_get_def)
  have "dp_id ?y = i" using dget_ids [OF ok x] by simp
  then have ok': "items_ok ?d" by (rule items_ok_dset [OF ok])
  have y: "terminal (dp_status ?y)" "age_key ?y = 0" using assms(4)
    by (auto simp: terminal_def age_key_def split: option.splits if_splits)
  have kept: "z \<in> set (kept_terminal ?d) \<longleftrightarrow> z = ?y \<or> z \<in> set (kept_terminal (ds_items s))" for z
  proof -
    have "dp_id z = i \<Longrightarrow> dget i (ds_items s) = Some z \<Longrightarrow> \<not> terminal (dp_status z)"
      using x assms(3) by (auto simp: terminal_def)
    moreover have "z \<in> set (dvals ?d) \<longleftrightarrow> (if dp_id z = i then z = ?y else dget (dp_id z) (ds_items s) = Some z)"
      unfolding vals_iff [OF ok'] by auto
    ultimately show ?thesis
      using y(1) \<open>dp_id ?y = i\<close> vals_iff [OF ok, of z] unfolding kept_terminal_def by auto
  qed
  have new: "?y \<notin> set (kept_terminal (ds_items s))" using assms(6) y(2) by fastforce
  have "length (kept_terminal ?d) = card (set (kept_terminal ?d))"
    by (rule distinct_card [OF distinct_kept [OF ok'], symmetric])
  also have "set (kept_terminal ?d) = insert ?y (set (kept_terminal (ds_items s)))" using kept by blast
  also have "card \<dots> = Suc TERMINAL_MAX_KEPT"
    using new distinct_card [OF distinct_kept [OF ok]] assms(5) by simp
  finally have full: "length (kept_terminal ?d) = Suc TERMINAL_MAX_KEPT" .
  have "\<not> expired now z" if "z \<in> set (dvals ?d)" for z
    using that kept [of z] assms(6) y(2) by (auto simp: expired_def kept_terminal_def)
  then have "filter (expired now) (dvals ?d) = []" by (simp only: filter_empty_conv) blast
  then have "evict_expired now ?d = ?d" by (simp only: evict_expired_def list.map dpop_all_Nil)
  moreover have "dget i (evict_over_cap ?d) = None"
    by (rule undated_first [OF ok' _ y _ full]) (use kept assms(6) in auto)
  ultimately have "dget i (evict_terminal now ?d) = None" by (simp add: evict_terminal_def)
  with x f show ?thesis
    by (simp add: dispatch_complete_def change_dispatch_def dispatch_save_def dispatch_get_def Let_def)
qed

definition sample_dispatch :: "ustr \<Rightarrow> dispatch_status \<Rightarrow> secs option \<Rightarrow> dispatch" where
  "sample_dispatch i st started = \<lparr>dp_id = i, dp_chat_id = [], dp_session_id = [], dp_status = st,
    dp_result = None, dp_context = None, dp_metadata = [], dp_type = [], dp_started_at = started,
    dp_finished_at = None, dp_summary = None, dp_stop_reason = None, dp_cancelled = False, dp_partial = False,
    dp_timed_out = False, dp_full_result_path = None\<rparr>"

definition full_store :: dispatch_store where
  "full_store =
     (let d = map (\<lambda>n. ([n], sample_dispatch [n] D_COMPLETED (Some 100))) [0..<200]
              @ [([200], sample_dispatch [200] D_PENDING None)]
      in \<lparr>ds_items = d, ds_file = Some (jsonl_save id d)\<rparr>)"

lemma sample_dispatch_sel [simp]:
  "dp_id (sample_dispatch i st t) = i" "dp_status (sample_dispatch i st t) = st"
  "age_key (sample_dispatch i st t) = (case t of None \<Rightarrow> 0 | Some x \<Rightarrow> x)"
  by (simp_all add: sample_dispatch_def age_key_def)

lemma full_store_kept:
  "kept_terminal (ds_items full_store) = map (\<lambda>n. sample_dispatch [n] D_COMPLETED (Some 100)) [0..<200]"
proof -
  have "filter (\<lambda>x. terminal (dp_status x)) (map (\<lambda>n. sample_dispatch [n] D_COMPLETED (Some 100)) xs)
      = map (\<lambda>n. sample_dispatch [n] D_COMPLETED (Some 100)) xs" for xs
    by (induction xs) (simp_all add: terminal_def)
  then show ?thesis
    by (simp add: kept_terminal_def full_store_def Let_def comp_def terminal_def del: upt_rec_numeral upt_Suc filter_map)
qed

lemma full_store_ok: "saved_ok full_store" "dispatch_get [200] full_store = Some (sample_dispatch [200] D_PENDING None)"
proof -
  have inj: "distinct (map (\<lambda>n. [n]) [0..<200])" by (simp add: distinct_map inj_on_def del: upt_rec_numeral)
  have d: "dict_ok (ds_items full_store)"
    using inj by (auto simp: dict_ok_def full_store_def Let_def comp_def simp del: upt_rec_numeral)
  have "\<forall>(k, v) \<in> set (ds_items full_store). dp_id v = k"
    by (auto simp: full_store_def Let_def simp del: upt_rec_numeral)
  with d show "saved_ok full_store"
    by (simp add: saved_ok_def items_ok_simps full_store_kept TERMINAL_MAX_KEPT_def del: upt_rec_numeral)
      (simp add: full_store_def Let_def del: upt_rec_numeral)
  have "([200], sample_dispatch [200] D_PENDING None) \<in> set (ds_items full_store)"
    by (simp add: full_store_def Let_def del: upt_rec_numeral)
  with d show "dispatch_get [200] full_store = Some (sample_dispatch [200] D_PENDING None)"
    unfolding dispatch_get_def by (simp add: dget_iff_mem)
qed

theorem undated_completion_is_evicted_witness:
  "dispatch_get [200] (fst (dispatch_complete [200] (u ''done'') 150 full_store)) = None"
proof -
  have "length (kept_terminal (ds_items full_store)) = TERMINAL_MAX_KEPT"
    "\<forall>y \<in> set (kept_terminal (ds_items full_store)). 0 < age_key y \<and> 150 - age_key y \<le> TERMINAL_RETENTION_SECONDS"
    by (simp_all add: full_store_kept TERMINAL_MAX_KEPT_def TERMINAL_RETENTION_SECONDS_def del: upt_rec_numeral)
  from undated_completion_is_evicted [OF full_store_ok _ _ this] show ?thesis by simp
qed

end
