(* ===== verification/Delivery.thy ===== *)
theory Delivery
  imports SessionStore DispatchStore
begin

section \<open>Delivery: outbox, auto-continue, timer and event bus\<close>

text \<open>
  \<open>src/src/diploid_agent/runtime/outbox.py\<close> (\<open>RuntimeOutbox\<close>), \<open>runtime/auto_continue.py\<close>,
  \<open>runtime/timer_service.py\<close> and \<open>runtime/event_bus.py\<close>.  What a notifier sends and what the event log gets is
  collected in lists; \<open>isdigit\<close> is Python's predicate on characters.  Blocking in \<open>outbox_pop\<close> is repeating
  the scan; the threads of the timer and the bus are the order of their steps.
\<close>

subsection \<open>The outbox\<close>

datatype notifier = Noop | Webhook ustr | Telegram ustr

record outbox_config =
  oc_outbox_delivery :: bool
  oc_enabled :: bool
  oc_webhook_url :: "ustr option"
  oc_telegram_token :: "ustr option"
  oc_mirror_chat :: "int option"
  oc_mesh_float :: bool
  oc_event_log :: bool

text \<open>An item is a result or the marker of a turn that has started.\<close>

datatype outbox_item = Result_item chat_result | Turn_started "int option" "int option" "ustr option"

record outbox =
  ob_queue :: "(ustr \<times> outbox_item) list"
  ob_logged :: "(ustr \<times> ustr \<times> (ustr, json) dict) list"
  ob_sent :: "(notifier \<times> ustr \<times> ustr) list"

definition is_telegram_chat_id :: "(nat \<Rightarrow> bool) \<Rightarrow> ustr \<Rightarrow> bool" where
  "is_telegram_chat_id isdigit chat = (let s = lstrip_by (\<lambda>c. c = 45) chat in s \<noteq> [] \<and> list_all isdigit s)"

definition nonempty_opt :: "ustr option \<Rightarrow> ustr option" where
  "nonempty_opt x = (case x of None \<Rightarrow> None | Some s \<Rightarrow> if s = [] then None else Some s)"

definition direct_notifier :: "outbox_config \<Rightarrow> notifier" where
  "direct_notifier cfg =
     (case nonempty_opt (oc_webhook_url cfg) of
        Some url \<Rightarrow> Webhook url
      | None \<Rightarrow> (case nonempty_opt (oc_telegram_token cfg) of Some t \<Rightarrow> Telegram t | None \<Rightarrow> Noop))"

definition create_notifier :: "outbox_config \<Rightarrow> notifier" where
  "create_notifier cfg = (if oc_outbox_delivery cfg \<or> \<not> oc_enabled cfg then Noop else direct_notifier cfg)"

definition log_event :: "outbox_config \<Rightarrow> ustr \<Rightarrow> ustr \<Rightarrow> (ustr, json) dict \<Rightarrow> outbox \<Rightarrow> outbox" where
  "log_event cfg chat kind payload ob =
     (if oc_event_log cfg then ob\<lparr>ob_logged := ob_logged ob @ [(chat, kind, payload)]\<rparr> else ob)"

definition enqueue_outbox :: "outbox_config \<Rightarrow> ustr \<Rightarrow> chat_result \<Rightarrow> outbox \<Rightarrow> outbox" where
  "enqueue_outbox cfg chat r ob =
     (let ob1 = (if cr_transient r then log_event cfg chat (u ''system'') [(u ''text'', JStr (cr_reply r))] ob else ob)
      in ob1\<lparr>ob_queue := ob_queue ob1 @ [(chat, Result_item r)]\<rparr>)"

definition emit_turn_started :: "outbox_config \<Rightarrow> ustr \<Rightarrow> int option \<Rightarrow> int option \<Rightarrow> ustr option \<Rightarrow> outbox \<Rightarrow> outbox" where
  "emit_turn_started cfg chat session_number turn_number msg ob =
     (if \<not> oc_outbox_delivery cfg then ob
      else ob\<lparr>ob_queue := ob_queue ob @ [(chat, Turn_started session_number turn_number msg)]\<rparr>)"

text \<open>A failing notifier is logged and changes nothing else.\<close>

definition safe_notifier_send :: "notifier \<Rightarrow> ustr \<Rightarrow> ustr \<Rightarrow> outbox \<Rightarrow> outbox" where
  "safe_notifier_send n chat text ob = (if text = [] then ob else ob\<lparr>ob_sent := ob_sent ob @ [(n, chat, text)]\<rparr>)"

definition mirror_target :: "(nat \<Rightarrow> bool) \<Rightarrow> outbox_config \<Rightarrow> ustr \<Rightarrow> chat_result \<Rightarrow> ustr option" where
  "mirror_target isdigit cfg chat r =
     (case oc_mirror_chat cfg of
        None \<Rightarrow> None
      | Some m \<Rightarrow>
          if \<not> oc_enabled cfg \<or> cr_reply r = [] \<or> is_telegram_chat_id isdigit chat \<or> chat = str_of_int m then None
          else Some (str_of_int m))"

definition mirror_result :: "ustr \<Rightarrow> chat_result \<Rightarrow> chat_result" where
  "mirror_result chat r = (mk_result (u ''['' @ chat @ u ''] '' @ take 400 (cr_reply r)))\<lparr>cr_transient := True\<rparr>"

text \<open>
  \<open>_deliver_chat_result\<close> and \<open>emit_activity_mirror\<close> call each other; the mirror's own mirror is the chat itself.
\<close>

function deliver_chat_result :: "(nat \<Rightarrow> bool) \<Rightarrow> outbox_config \<Rightarrow> ustr \<Rightarrow> chat_result \<Rightarrow> outbox \<Rightarrow> outbox" where
  "deliver_chat_result isdigit cfg chat r ob =
     (let ob1 = (case mirror_target isdigit cfg chat r of
                   None \<Rightarrow> ob
                 | Some m \<Rightarrow> deliver_chat_result isdigit cfg m (mirror_result chat r) ob)
      in if oc_outbox_delivery cfg then enqueue_outbox cfg chat r ob1
         else if oc_enabled cfg \<and> cr_reply r \<noteq> []
         then safe_notifier_send (create_notifier cfg) chat (cr_reply r) ob1
         else ob1)"
  by pat_completeness auto
termination
  by (relation "measure (\<lambda>(isdigit, cfg, chat, r, ob). if Some chat = map_option str_of_int (oc_mirror_chat cfg) then 0 else 1)")
    (auto simp: mirror_target_def split: option.splits if_splits)

declare deliver_chat_result.simps [simp del]

definition opt_json :: "('a \<Rightarrow> json) \<Rightarrow> 'a option \<Rightarrow> json" where
  "opt_json f x = (case x of None \<Rightarrow> JNull | Some v \<Rightarrow> f v)"

definition log_result_event :: "outbox_config \<Rightarrow> ustr \<Rightarrow> chat_result \<Rightarrow> outbox \<Rightarrow> outbox" where
  "log_result_event cfg chat r =
     log_event cfg chat (u ''result'')
       [(u ''session_number'', opt_json JInt (cr_session_number r)), (u ''turn_number'', opt_json JInt (cr_turn_number r)),
        (u ''reply'', JStr (cr_reply r)), (u ''notice'', opt_json JStr (cr_notice r))]"

definition float_mesh_to_telegram ::
  "(nat \<Rightarrow> bool) \<Rightarrow> outbox_config \<Rightarrow> ustr \<Rightarrow> ustr \<Rightarrow> ustr \<Rightarrow> ustr \<Rightarrow> ustr \<Rightarrow> ustr \<Rightarrow> ustr \<Rightarrow> outbox \<Rightarrow> outbox" where
  "float_mesh_to_telegram isdigit cfg chat sender recipient body action reply msg_id ob =
     (if \<not> oc_mesh_float cfg \<or> \<not> oc_enabled cfg \<or> \<not> is_telegram_chat_id isdigit chat then ob
      else let text = u ''System: [mesh] '' @ sender @ [32, 8594, 32] @ recipient @ u '': '' @ body
                      @ (if action \<noteq> [] then u '' (action='' @ action @ u '')'' else [])
                      @ (if reply \<noteq> [] then u '' (reply='' @ reply @ u '')'' else [])
                      @ (if msg_id \<noteq> [] then u '' (id='' @ msg_id @ u '')'' else [])
           in deliver_chat_result isdigit cfg chat ((mk_result text)\<lparr>cr_transient := True\<rparr>) ob)"

text \<open>One scan of \<open>outbox_pop\<close>: the first item of the chat, or of any chat.\<close>

fun pop_first :: "('a \<Rightarrow> bool) \<Rightarrow> 'a list \<Rightarrow> 'a option \<times> 'a list" where
  "pop_first P [] = (None, [])"
| "pop_first P (x # xs) = (if P x then (Some x, xs) else (case pop_first P xs of (r, ys) \<Rightarrow> (r, x # ys)))"

definition outbox_pop :: "ustr option \<Rightarrow> outbox \<Rightarrow> (ustr \<times> outbox_item) option \<times> outbox" where
  "outbox_pop chat ob =
     (case pop_first (\<lambda>(c, item). case chat of None \<Rightarrow> True | Some x \<Rightarrow> c = x) (ob_queue ob) of
        (r, q) \<Rightarrow> (r, ob\<lparr>ob_queue := q\<rparr>))"

definition RESTART_NOTICE :: ustr where
  "RESTART_NOTICE = u ''System: service was restarted. You can resume the conversation at any time.''"

text \<open>The chats with a session that was active within a day.\<close>

definition recent_chats :: "secs \<Rightarrow> (ustr, chat_state) dict \<Rightarrow> ustr list" where
  "recent_chats now store =
     map fst (filter (\<lambda>(chat, cs). case py_max_key sr_updated_at (dvals (cs_sessions cs)) of
        None \<Rightarrow> False | Some r \<Rightarrow> sr_updated_at r \<ge> now - 86400) store)"

definition send_restart_notices :: "(nat \<Rightarrow> bool) \<Rightarrow> outbox_config \<Rightarrow> secs \<Rightarrow> (ustr, chat_state) dict \<Rightarrow> outbox \<Rightarrow> outbox" where
  "send_restart_notices isdigit cfg now store ob =
     (let chats = recent_chats now store;
          tg = filter (is_telegram_chat_id isdigit) chats;
          ob1 = foldl (\<lambda>ob c. log_event cfg c (u ''service_started'') [] ob) ob chats
      in if \<not> oc_enabled cfg \<or> tg = [] \<or> direct_notifier cfg = Noop then ob1
         else foldl (\<lambda>ob c. safe_notifier_send (direct_notifier cfg) c RESTART_NOTICE ob) ob1 tg)"

subsection \<open>Auto-continue\<close>

record auto_continue =
  ac_suppressed :: "(ustr, secs) dict"
  ac_global_until :: secs

definition suppress :: "ustr option \<Rightarrow> secs \<Rightarrow> secs \<Rightarrow> auto_continue \<Rightarrow> auto_continue" where
  "suppress chat seconds now a =
     (case chat of
        None \<Rightarrow> a\<lparr>ac_global_until := now + seconds\<rparr>
      | Some c \<Rightarrow> a\<lparr>ac_suppressed := dset c (now + seconds) (ac_suppressed a)\<rparr>)"

definition is_suppressed :: "ustr \<Rightarrow> secs \<Rightarrow> auto_continue \<Rightarrow> auto_continue \<times> bool" where
  "is_suppressed chat now a =
     (if now < ac_global_until a then (a, True)
      else if now < (case dget chat (ac_suppressed a) of None \<Rightarrow> 0 | Some t \<Rightarrow> t) then (a, True)
      else (a\<lparr>ac_suppressed := ddel chat (ac_suppressed a)\<rparr>, False))"

subsection \<open>Timer and event bus\<close>

record bus_event =
  be_id :: ustr
  be_type :: ustr
  be_payload :: "(ustr, json) dict"
  be_created_at :: secs

text \<open>A subscriber handles an event, or raises; \<open>bus_seen\<close> is what the subscribers were called with.\<close>

record bus =
  bus_queue :: "bus_event list"
  bus_subscribers :: "nat list"
  bus_running :: bool
  bus_seen :: "(nat \<times> bus_event) list"

definition bus_post :: "bus_event \<Rightarrow> bus \<Rightarrow> bus" where
  "bus_post e b = b\<lparr>bus_queue := bus_queue b @ [e]\<rparr>"

definition bus_subscribe :: "nat \<Rightarrow> bus \<Rightarrow> bus" where
  "bus_subscribe s b = b\<lparr>bus_subscribers := bus_subscribers b @ [s]\<rparr>"

definition bus_unsubscribe :: "nat \<Rightarrow> bus \<Rightarrow> py_exn + bus" where
  "bus_unsubscribe s b =
     (if s \<in> set (bus_subscribers b) then Inr (b\<lparr>bus_subscribers := remove1 s (bus_subscribers b)\<rparr>) else Inl ValueError)"

definition stop_event :: "ustr \<Rightarrow> secs \<Rightarrow> bus_event" where
  "stop_event i now = \<lparr>be_id = i, be_type = u ''stop'', be_payload = [], be_created_at = now\<rparr>"

definition bus_stop :: "ustr \<Rightarrow> secs \<Rightarrow> bus \<Rightarrow> bus" where
  "bus_stop i now b = (if bus_running b then bus_post (stop_event i now) (b\<lparr>bus_running := False\<rparr>) else b)"

text \<open>One round of \<open>_dispatch_loop\<close>; a failing subscriber does not keep the others from the event.\<close>

definition bus_round :: "bus \<Rightarrow> bus" where
  "bus_round b =
     (if \<not> bus_running b then b
      else case bus_queue b of
             [] \<Rightarrow> b
           | e # q \<Rightarrow>
               if be_type e = u ''stop'' then b\<lparr>bus_queue := q, bus_running := False\<rparr>
               else b\<lparr>bus_queue := q, bus_seen := bus_seen b @ map (\<lambda>s. (s, e)) (bus_subscribers b)\<rparr>)"

definition timer_event :: "ustr \<Rightarrow> secs \<Rightarrow> wake_event \<Rightarrow> bus_event" where
  "timer_event i now e =
     \<lparr>be_id = i, be_type = u ''timer.fired'',
      be_payload = [(u ''event_id'', JStr (we_id e)), (u ''chat_id'', JStr (we_chat_id e)),
                    (u ''reason'', JStr (we_reason e)), (u ''silent'', JBool (we_silent e))],
      be_created_at = now\<rparr>"

text \<open>\<open>fresh n\<close> is the id of the \<open>n\<close>-th event posted; an error of the queue is logged and ends the tick.\<close>

definition timer_tick :: "(nat \<Rightarrow> ustr) \<Rightarrow> bool \<Rightarrow> secs \<Rightarrow> secs \<Rightarrow> wake_queue \<times> bus \<Rightarrow> wake_queue \<times> bus" where
  "timer_tick fresh enabled lease_seconds now qb = (case qb of (q, b) \<Rightarrow>
     if \<not> enabled then (q, b)
     else (case wake_pop_due (Some now) now lease_seconds q of
             (q1, Inl e) \<Rightarrow> (q1, b)
           | (q1, Inr es) \<Rightarrow> (q1, foldl (\<lambda>b (n, e). bus_post (timer_event (fresh n) now e) b) b (enumerate 0 es))))"

subsection \<open>Order of delivery\<close>

datatype box_op = Put_result ustr chat_result | Put_marker ustr "int option" "int option" "ustr option" | Take "ustr option"

fun box_step :: "outbox_config \<Rightarrow> box_op \<Rightarrow> outbox \<Rightarrow> (ustr \<times> outbox_item) list \<times> outbox" where
  "box_step cfg (Put_result c r) ob = ([], enqueue_outbox cfg c r ob)"
| "box_step cfg (Put_marker c s t m) ob = ([], emit_turn_started cfg c s t m ob)"
| "box_step cfg (Take c) ob = (case outbox_pop c ob of (None, ob1) \<Rightarrow> ([], ob1) | (Some x, ob1) \<Rightarrow> ([x], ob1))"

fun box_run :: "outbox_config \<Rightarrow> box_op list \<Rightarrow> outbox \<Rightarrow> (ustr \<times> outbox_item) list \<times> outbox" where
  "box_run cfg [] ob = ([], ob)"
| "box_run cfg (op # ops) ob =
     (case box_step cfg op ob of (out, ob1) \<Rightarrow> (case box_run cfg ops ob1 of (outs, ob2) \<Rightarrow> (out @ outs, ob2)))"

text \<open>What is put in for a chat, in order.\<close>

fun put_for :: "outbox_config \<Rightarrow> ustr \<Rightarrow> box_op list \<Rightarrow> (ustr \<times> outbox_item) list" where
  "put_for cfg chat [] = []"
| "put_for cfg chat (Put_result c r # ops) = (if c = chat then [(c, Result_item r)] else []) @ put_for cfg chat ops"
| "put_for cfg chat (Put_marker c s t m # ops) =
     (if c = chat \<and> oc_outbox_delivery cfg then [(c, Turn_started s t m)] else []) @ put_for cfg chat ops"
| "put_for cfg chat (Take c # ops) = put_for cfg chat ops"

abbreviation items_for :: "ustr \<Rightarrow> (ustr \<times> outbox_item) list \<Rightarrow> (ustr \<times> outbox_item) list" where
  "items_for chat q \<equiv> filter (\<lambda>p. fst p = chat) q"

lemma pop_first_filter:
  "pop_first P xs = (r, ys) \<Longrightarrow> (\<forall>x. Q x \<longrightarrow> P x) \<or> (\<forall>x. Q x \<longrightarrow> \<not> P x) \<Longrightarrow>
   filter Q xs = (case r of None \<Rightarrow> [] | Some x \<Rightarrow> filter Q [x]) @ filter Q ys"
proof (induction xs arbitrary: ys)
  case (Cons x xs)
  show ?case
  proof (cases "P x")
    case True
    with Cons.prems show ?thesis by auto
  next
    case False
    obtain r' zs where z: "pop_first P xs = (r', zs)" by force
    with False Cons.prems(1) have rz: "r' = r" "ys = x # zs" by auto
    from Cons.IH [of zs] z rz Cons.prems(2) have ih: "filter Q xs = (case r of None \<Rightarrow> [] | Some x \<Rightarrow> filter Q [x]) @ filter Q zs" by simp
    show ?thesis
    proof (cases "Q x")
      case True
      then have "\<forall>x. Q x \<longrightarrow> \<not> P x" using False Cons.prems(2) by blast
      moreover have "r = Some y \<Longrightarrow> P y" for y using z rz(1) by (induction xs arbitrary: zs) (auto split: if_splits prod.splits)
      ultimately have "(case r of None \<Rightarrow> [] | Some x \<Rightarrow> filter Q [x]) = []" by (auto split: option.split)
      with ih rz show ?thesis by simp
    next
      case False
      with ih rz show ?thesis by simp
    qed
  qed
qed simp

lemma log_event_queue [simp]: "ob_queue (log_event cfg c k p ob) = ob_queue ob"
  by (simp add: log_event_def)

lemma box_step_items:
  "box_step cfg op ob = (out, ob1) \<Longrightarrow> items_for chat (ob_queue ob) @ put_for cfg chat [op] = items_for chat out @ items_for chat (ob_queue ob1)"
proof (cases op)
  case (Take c)
  assume s: "box_step cfg op ob = (out, ob1)"
  obtain r q where r: "pop_first (\<lambda>(d, item). case c of None \<Rightarrow> True | Some x \<Rightarrow> d = x) (ob_queue ob) = (r, q)" by force
  have "(\<forall>x. fst x = chat \<longrightarrow> (\<lambda>(d, item). case c of None \<Rightarrow> True | Some x \<Rightarrow> d = x) x)
      \<or> (\<forall>x. fst x = chat \<longrightarrow> \<not> (\<lambda>(d, item). case c of None \<Rightarrow> True | Some x \<Rightarrow> d = x) x)"
    by (auto split: option.split)
  from pop_first_filter [OF r this]
  have "items_for chat (ob_queue ob) = (case r of None \<Rightarrow> [] | Some x \<Rightarrow> items_for chat [x]) @ items_for chat q" .
  moreover have "ob_queue ob1 = q" "out = (case r of None \<Rightarrow> [] | Some x \<Rightarrow> [x])"
    using s r Take by (auto simp: outbox_pop_def split: option.splits)
  ultimately show ?thesis using Take by (auto split: option.split)
qed (auto simp: enqueue_outbox_def emit_turn_started_def Let_def)

text \<open>
  Claim C26.  The outbox is a queue per chat: however deliveries, turn markers and the polls of any consumers
  (of one chat or of all) interleave, what the consumers got for a chat, followed by what still waits for it,
  is what waited for it before followed by what was put in for it, in that order: nothing is lost, handed out
  twice or overtaken.
\<close>

theorem outbox_is_fifo_per_chat:
  "items_for chat (fst (box_run cfg ops ob)) @ items_for chat (ob_queue (snd (box_run cfg ops ob)))
     = items_for chat (ob_queue ob) @ put_for cfg chat ops"
proof (induction ops arbitrary: ob)
  case (Cons op ops)
  obtain out ob1 where s: "box_step cfg op ob = (out, ob1)" by force
  have "put_for cfg chat (op # ops) = put_for cfg chat [op] @ put_for cfg chat ops" by (cases op) simp_all
  with Cons.IH [of ob1] box_step_items [OF s, of chat] s show ?case by (simp add: case_prod_unfold)
qed simp

text \<open>
  A mirrored reply arrives once: with outbox delivery, a reply in a chat that is neither a Telegram
  chat nor the observer's puts exactly two items into the outbox, the labelled preview for the observer and
  the reply itself for the chat; delivering to the observer's own chat mirrors nothing, so it never loops.
\<close>

theorem mirror_reaches_observer_once:
  assumes "oc_outbox_delivery cfg" and "oc_enabled cfg" and "oc_mirror_chat cfg = Some m" and "cr_reply r \<noteq> []"
    and "\<not> is_telegram_chat_id isdigit chat" and "chat \<noteq> str_of_int m"
  shows "ob_queue (deliver_chat_result isdigit cfg chat r ob) =
     ob_queue ob @ [(str_of_int m, Result_item (mirror_result chat r)), (chat, Result_item r)]"
proof -
  have "mirror_target isdigit cfg chat r = Some (str_of_int m)" using assms by (simp add: mirror_target_def)
  moreover have "mirror_target isdigit cfg (str_of_int m) (mirror_result chat r) = None"
    using assms(3) by (simp add: mirror_target_def)
  ultimately show ?thesis using assms(1)
    by (simp add: deliver_chat_result.simps [of isdigit cfg chat] deliver_chat_result.simps [of isdigit cfg "str_of_int m"]
        enqueue_outbox_def Let_def)
qed

definition mirror_config :: outbox_config where
  "mirror_config = \<lparr>oc_outbox_delivery = True, oc_enabled = True, oc_webhook_url = None, oc_telegram_token = None,
     oc_mirror_chat = Some 42, oc_mesh_float = False, oc_event_log = True\<rparr>"

theorem mirror_reaches_observer_once_witness:
  "ob_queue (deliver_chat_result (\<lambda>c. 48 \<le> c \<and> c \<le> 57) mirror_config (u ''mesh:a'') (mk_result (u ''hi'')) \<lparr>ob_queue = [], ob_logged = [], ob_sent = []\<rparr>) =
     [] @ [(str_of_int 42, Result_item (mirror_result (u ''mesh:a'') (mk_result (u ''hi'')))), (u ''mesh:a'', Result_item (mk_result (u ''hi'')))]"
  by (subst mirror_reaches_observer_once [where m = 42])
    (simp_all add: mirror_config_def mk_result_def is_telegram_chat_id_def lstrip_by_def str_of_int_def digits_of.simps u_def)

lemma suppressed_until: "snd (is_suppressed c now (suppress (Some c) s t a)) \<longleftrightarrow> now < ac_global_until a \<or> now < t + s"
  by (simp add: is_suppressed_def suppress_def)

lemma global_suppression: "now < t + s \<Longrightarrow> snd (is_suppressed c now (suppress None s t a))"
  by (simp add: is_suppressed_def suppress_def)

subsection \<open>From the wake queue to the subscribers\<close>

lemma bus_rounds:
  "bus_running b \<Longrightarrow> bus_queue b = es @ q \<Longrightarrow> \<forall>e \<in> set es. be_type e \<noteq> u ''stop'' \<Longrightarrow>
   (bus_round ^^ length es) b = b\<lparr>bus_queue := q, bus_seen := bus_seen b @ concat (map (\<lambda>e. map (\<lambda>s. (s, e)) (bus_subscribers b)) es)\<rparr>"
proof (induction es arbitrary: b)
  case (Cons e es)
  let ?b = "b\<lparr>bus_queue := es @ q, bus_seen := bus_seen b @ map (\<lambda>s. (s, e)) (bus_subscribers b)\<rparr>"
  have "bus_round b = ?b" using Cons.prems by (simp add: bus_round_def)
  then have "(bus_round ^^ length (e # es)) b = (bus_round ^^ length es) ?b"
    by (simp only: funpow_swap1 length_Cons funpow.simps comp_def)
  with Cons.IH [of ?b] Cons.prems show ?case by simp
qed simp

lemma posts_queue: "foldl (\<lambda>b (n, e). bus_post (f n e) b) b xs = b\<lparr>bus_queue := bus_queue b @ map (\<lambda>(n, e). f n e) xs\<rparr>"
  by (induction xs arbitrary: b) (auto simp: bus_post_def)

text \<open>
  Every due wake reaches every subscriber, in order of urgency: after a tick of the timer, as many
  rounds of an idle bus as events were due hand each event to each subscriber in turn, whatever other
  subscribers do; the queue is saved with the events claimed, and until the claim ends a later tick of any
  process posts none of them again.
\<close>

theorem due_wakes_reach_subscribers:
  assumes "wake_load (wq_file q) = Inr d" and "bus_running b" and "bus_queue b = []"
    and "timer_tick fresh True l now (q, b) = (q1, b1)" and "now2 < now + l"
  shows "bus_seen ((bus_round ^^ length (snd (pop_due_body now l d))) b1) =
      bus_seen b @ concat (map (\<lambda>(n, e). map (\<lambda>s. (s, timer_event (fresh n) now e)) (bus_subscribers b))
        (enumerate 0 (snd (pop_due_body now l d))))
    \<and> wake_load (wq_file q1) = Inr (fst (pop_due_body now l d))
    \<and> we_id ` set (snd (pop_due_body now l d)) \<inter> we_id ` set (snd (pop_due_body now2 l2 (fst (pop_due_body now l d)))) = {}"
proof -
  let ?d1 = "fst (pop_due_body now l d)" and ?es = "snd (pop_due_body now l d)"
  have ok: "queue_ok d" by (rule wake_load_ok [OF assms(1)])
  have ok1: "queue_ok ?d1" using wake_apply_ok [OF ok, of "PopDue now l"] by simp
  have q1: "q1 = \<lparr>wq_file = wake_save ?d1, wq_in_memory = ?d1\<rparr>"
    and b1: "b1 = b\<lparr>bus_queue := map (\<lambda>(n, e). timer_event (fresh n) now e) (enumerate 0 ?es)\<rparr>"
    using assms(3,4) by (auto simp: timer_tick_def wake_pop_due_def now_or_def posts_queue wake_transaction_loaded [OF assms(1)])
  have "(bus_round ^^ length (map (\<lambda>(n, e). timer_event (fresh n) now e) (enumerate 0 ?es))) b1 =
      b1\<lparr>bus_queue := [], bus_seen := bus_seen b1 @ concat (map (\<lambda>e. map (\<lambda>s. (s, e)) (bus_subscribers b1))
        (map (\<lambda>(n, e). timer_event (fresh n) now e) (enumerate 0 ?es)))\<rparr>"
    by (rule bus_rounds) (auto simp: b1 assms(2) timer_event_def)
  moreover have "\<not> due now2 e'" if "e \<in> set ?es" "dget (we_id e) ?d1 = Some e'" for e e'
    using pop_due_body_leased [OF ok that(1)] that(2) assms(5) by (auto simp: leased_at_def due_def unleased_def)
  then have "we_id ` set ?es \<inter> we_id ` set (snd (pop_due_body now2 l2 ?d1)) = {}"
    using pop_due_ids [OF ok1, of now2 l2] by auto
  ultimately show ?thesis using wake_load_save [OF ok1]
    by (simp add: b1 q1 comp_def case_prod_unfold)
qed

theorem due_wakes_reach_subscribers_witness:
  "we_id ` set (snd (pop_due_body 10 300 [(u ''a'', sample_wake ''a'' 1 5)]))
     \<inter> we_id ` set (snd (pop_due_body 20 300 (fst (pop_due_body 10 300 [(u ''a'', sample_wake ''a'' 1 5)])))) = {}"
  by (rule due_wakes_reach_subscribers
      [where q = "\<lparr>wq_file = wake_save [(u ''a'', sample_wake ''a'' 1 5)], wq_in_memory = []\<rparr>" and fresh = "\<lambda>n. digits_of n"
        and b = "\<lparr>bus_queue = [], bus_subscribers = [1, 2], bus_running = True, bus_seen = []\<rparr>",
        THEN conjunct2, THEN conjunct2, OF _ _ _ prod.collapse [symmetric]])
    (simp_all add: sample_queue_load)

end
