(* ===== verification/Restart.thy ===== *)
theory Restart
  imports Delivery
begin

section \<open>Graceful restarts\<close>

text \<open>
  \<open>src/src/diploid_agent/runtime/restart.py\<close> (\<open>RuntimeRestart\<close> and the three service managers), the flags of
  \<open>runtime/state.py\<close> and the operator's door \<open>graceful_service_restart\<close> of \<open>runtime/actions.py\<close>.  A subprocess is
  what it answered: \<open>None\<close> when it could not be run, otherwise its exit code, output and error output.  The threads
  the code starts are entries of the state; a step relation lets them, the clock, turns and requests interleave.
  \<open>lower\<close> is \<open>str.lower\<close>, \<open>repr\<close> the representation of a text.
\<close>

subsection \<open>Service managers\<close>

type_synonym proc = "(int \<times> ustr \<times> ustr) option"

datatype backend = Systemd | Launchd | Windows

definition remove_suffix :: "ustr \<Rightarrow> ustr \<Rightarrow> ustr" where
  "remove_suffix suf s = (if suf \<noteq> [] \<and> suffix suf s then take (length s - length suf) s else s)"

definition backend_name :: "backend \<Rightarrow> ustr" where
  "backend_name b = (case b of Systemd \<Rightarrow> u ''systemd'' | Launchd \<Rightarrow> u ''launchd'' | Windows \<Rightarrow> u ''windows-service'')"

definition launchd_resolve :: "ustr \<Rightarrow> (ustr, ustr) dict \<Rightarrow> ustr" where
  "launchd_resolve service units =
     (case dget service units of Some t \<Rightarrow> t | None \<Rightarrow> u ''local.devin.agent.'' @ remove_suffix (u ''.service'') service)"

definition windows_resolve :: "ustr \<Rightarrow> (ustr, ustr) dict \<Rightarrow> ustr" where
  "windows_resolve service units =
     (case dget service units of Some t \<Rightarrow> t | None \<Rightarrow> remove_suffix (u ''.service'') service)"

definition systemd_resolve :: "ustr \<Rightarrow> (ustr, ustr) dict \<Rightarrow> ustr" where
  "systemd_resolve service units = (case dget service units of Some t \<Rightarrow> t | None \<Rightarrow> service)"

definition resolve_unit :: "backend \<Rightarrow> ustr \<Rightarrow> (ustr, ustr) dict \<Rightarrow> ustr" where
  "resolve_unit b = (case b of Systemd \<Rightarrow> systemd_resolve | Launchd \<Rightarrow> launchd_resolve | Windows \<Rightarrow> windows_resolve)"

definition launchd_target :: "nat \<Rightarrow> ustr \<Rightarrow> ustr" where
  "launchd_target uid label = (if 47 \<in> set label then label else u ''gui/'' @ str_of_nat uid @ u ''/'' @ label)"

text \<open>Only a definite answer counts as a missing unit.\<close>

definition systemd_exists :: "(ustr \<Rightarrow> ustr) \<Rightarrow> proc \<Rightarrow> bool" where
  "systemd_exists lower p =
     (case p of
        None \<Rightarrow> True
      | Some (rc, out, err) \<Rightarrow>
          rc = 0 \<or> \<not> sublist (u ''No files found'') (out @ 10 # err) \<and> \<not> sublist (u ''not found'') (lower (out @ 10 # err)))"

definition launchd_exists :: "(ustr \<Rightarrow> ustr) \<Rightarrow> proc \<Rightarrow> bool" where
  "launchd_exists lower p =
     (case p of
        None \<Rightarrow> True
      | Some (rc, out, err) \<Rightarrow>
          rc = 0 \<or> list_all (\<lambda>m. \<not> sublist m (lower (out @ 10 # err))) [u ''could not find'', u ''not found'', u ''bad request''])"

definition windows_exists :: "(ustr \<Rightarrow> ustr) \<Rightarrow> proc \<Rightarrow> bool" where
  "windows_exists lower p =
     (case p of
        None \<Rightarrow> True
      | Some (rc, out, err) \<Rightarrow>
          rc = 0 \<or> list_all (\<lambda>m. \<not> sublist m (lower (out @ 10 # err))) [u ''does not exist'', u ''failed'', u ''1060''])"

definition service_unit_exists :: "(ustr \<Rightarrow> ustr) \<Rightarrow> backend \<Rightarrow> proc \<Rightarrow> bool" where
  "service_unit_exists lower b = (case b of Systemd \<Rightarrow> systemd_exists lower | Launchd \<Rightarrow> launchd_exists lower | Windows \<Rightarrow> windows_exists lower)"

lemma unknown_answer_is_no_refusal: "service_unit_exists lower b None"
  by (cases b) (simp_all add: service_unit_exists_def systemd_exists_def launchd_exists_def windows_exists_def)

text \<open>The command that defers the restart; \<open>fmt\<close> is the text of a number of seconds.\<close>

definition systemd_schedule :: "(secs \<Rightarrow> ustr) \<Rightarrow> ustr \<Rightarrow> secs \<Rightarrow> ustr list" where
  "systemd_schedule fmt tgt delay =
     [u ''systemd-run'', u ''--user'', u ''--on-active='' @ fmt delay @ u ''s'', u ''--timer-property=AccuracySec=1s'',
      u ''/usr/bin/systemctl'', u ''--user'', u ''restart'', tgt]"

definition launchd_schedule :: "(secs \<Rightarrow> ustr) \<Rightarrow> nat \<Rightarrow> ustr \<Rightarrow> secs \<Rightarrow> ustr list" where
  "launchd_schedule fmt uid tgt delay =
     [u ''/bin/sh'', u ''-c'',
      u ''( sleep '' @ fmt delay @ u ''; launchctl kickstart -k '' @ launchd_target uid tgt @ u '' ) </dev/null >/dev/null 2>&1 &'']"

definition windows_schedule :: "ustr \<Rightarrow> secs \<Rightarrow> ustr list" where
  "windows_schedule tgt delay =
     [u ''cmd'', u ''/c'', u ''start'', [], u ''/min'', u ''powershell'', u ''-NoProfile'', u ''-WindowStyle'', u ''Hidden'', u ''-Command'',
      u ''Start-Sleep -Seconds '' @ str_of_int (max 1 (trunc delay)) @ u ''; Restart-Service -Name '' @ [39] @ tgt @ [39] @ u '' -Force'']"

definition schedule_command :: "(secs \<Rightarrow> ustr) \<Rightarrow> nat \<Rightarrow> backend \<Rightarrow> ustr \<Rightarrow> secs \<Rightarrow> ustr list" where
  "schedule_command fmt uid b =
     (case b of Systemd \<Rightarrow> systemd_schedule fmt | Launchd \<Rightarrow> launchd_schedule fmt uid | Windows \<Rightarrow> windows_schedule)"

subsection \<open>State\<close>

record plugin_entry =
  pe_name :: ustr
  pe_enabled :: bool
  pe_restart :: "bool option"  \<comment> \<open>\<open>restart_enabled\<close> of its configuration; None: the configuration is invalid\<close>

record restart_config =
  rc_persona :: ustr             \<comment> \<open>empty: no persona\<close>
  rc_units :: "(ustr, ustr) dict"
  rc_allowed :: "ustr list"
  rc_plugins :: "plugin_entry list"
  rc_fallback :: ustr            \<comment> \<open>\<open>mesh.fallback_chat_id\<close>; empty: none\<close>
  rc_backend :: backend
  rc_notify :: bool
  rc_incidents :: bool
  rc_cooldown :: secs

record incident =
  in_phase :: ustr
  in_error :: ustr
  in_action :: ustr
  in_chat :: "ustr option"

record pending_restart =
  pr_service :: ustr
  pr_reason :: ustr
  pr_chat :: "ustr option"
  pr_since :: secs

text \<open>
  \<open>Drain\<close> is the thread that waits for the turns (until the time given), \<open>Schedule\<close> the one that runs the service
  manager, \<open>Arm\<close> what is left of the draining thread then, \<open>Reaper\<close> the watchdog with the time it fires, and \<open>Stamp\<close>
  what is left of an agent's request when the drain has been started.
\<close>

datatype thread =
    Drain ustr "ustr option" ustr secs
  | Schedule ustr "ustr option" ustr
  | Arm ustr "ustr option"
  | Reaper ustr "ustr option" secs
  | Stamp ustr ustr secs

record restart_world =
  rw_now :: secs
  rw_started :: bool
  rw_draining :: bool
  rw_pending :: "pending_restart option"
  rw_last_at :: secs
  rw_turns :: "ustr list"
  rw_ops :: "ustr list"
  rw_chats :: "ustr list"
  rw_threads :: "thread list"
  rw_flushed :: "ustr list"       \<comment> \<open>the chats whose plugins were told to save their state, in order\<close>
  rw_scheduled :: "ustr list"     \<comment> \<open>the targets whose restart the service manager accepted\<close>
  rw_incidents :: "incident list"
  rw_notices :: "(ustr \<times> ustr) list"
  rw_queue :: wake_queue
  rw_auto :: auto_continue

abbreviation own_unit :: "restart_config \<Rightarrow> ustr" where
  "own_unit cfg \<equiv> rc_persona cfg @ u ''.service''"

definition is_self_unit :: "restart_config \<Rightarrow> ustr \<Rightarrow> bool" where
  "is_self_unit cfg service \<longleftrightarrow> rc_persona cfg \<noteq> [] \<and> service = own_unit cfg"

definition persona_or_agent :: "restart_config \<Rightarrow> ustr" where
  "persona_or_agent cfg = (if rc_persona cfg = [] then u ''agent'' else rc_persona cfg)"

definition record_incident :: "restart_config \<Rightarrow> incident \<Rightarrow> restart_world \<Rightarrow> restart_world" where
  "record_incident cfg i w = (if rc_incidents cfg then w\<lparr>rw_incidents := rw_incidents w @ [i]\<rparr> else w)"

definition notify :: "restart_config \<Rightarrow> ustr \<Rightarrow> ustr \<Rightarrow> restart_world \<Rightarrow> restart_world" where
  "notify cfg chat text w = (if \<not> rc_notify cfg \<or> chat = [] then w else w\<lparr>rw_notices := rw_notices w @ [(chat, text)]\<rparr>)"

subsection \<open>Requests\<close>

text \<open>The first plugin entry named authorship decides.\<close>

definition restart_enabled :: "restart_config \<Rightarrow> bool" where
  "restart_enabled cfg =
     (case filter (\<lambda>p. pe_name p = u ''authorship'') (rc_plugins cfg) of
        [] \<Rightarrow> False
      | p # _ \<Rightarrow> pe_enabled p \<and> pe_restart p = Some True)"

definition allowed_units :: "restart_config \<Rightarrow> ustr list" where
  "allowed_units cfg = (if rc_allowed cfg \<noteq> [] then rc_allowed cfg else if rc_persona cfg = [] then [] else [own_unit cfg])"

definition agent_restart_verdict :: "(ustr \<Rightarrow> ustr) \<Rightarrow> restart_config \<Rightarrow> ustr \<Rightarrow> ustr \<Rightarrow> ustr option" where
  "agent_restart_verdict repr cfg service reason =
     (if \<not> restart_enabled cfg then Some (u ''restart is not enabled for this persona (authorship restart_enabled)'')
      else if py_strip reason = [] then Some (u ''a non-empty reason is required'')
      else if service \<notin> set (allowed_units cfg) then Some (u ''service '' @ repr service @ u '' is not in restart_allowed_units'')
      else None)"

definition DRAIN_CAP :: secs where
  "DRAIN_CAP = 120"

text \<open>\<open>exists_now\<close> is the answer of \<open>_service_unit_exists\<close>.\<close>

definition schedule_draining_restart ::
  "bool \<Rightarrow> ustr \<Rightarrow> ustr option \<Rightarrow> ustr \<Rightarrow> restart_world \<Rightarrow> restart_world \<times> bool" where
  "schedule_draining_restart exists_now service chat reason w =
     (if \<not> exists_now then (w, False)
      else (w\<lparr>rw_draining := True,
              rw_pending := Some \<lparr>pr_service = service, pr_reason = reason, pr_chat = chat, pr_since = rw_now w\<rparr>,
              rw_threads := rw_threads w @ [Drain service chat reason (rw_now w + DRAIN_CAP)]\<rparr>, True))"

definition cancel_wakes :: "ustr option \<Rightarrow> restart_world \<Rightarrow> restart_world" where
  "cancel_wakes chat w = w\<lparr>rw_queue := fst (wake_cancel chat (Some (u ''auto_continue'')) None (rw_now w) (rw_queue w))\<rparr>"

definition suppress_auto :: "ustr option \<Rightarrow> restart_world \<Rightarrow> restart_world" where
  "suppress_auto chat w = w\<lparr>rw_auto := suppress chat 300 (rw_now w) (rw_auto w)\<rparr>"

definition graceful_incident :: "ustr \<Rightarrow> ustr option \<Rightarrow> incident" where
  "graceful_incident text chat = \<lparr>in_phase = u ''graceful_restart'', in_error = text, in_action = u ''scheduled'', in_chat = chat\<rparr>"

text \<open>The agent's door.  The cooldown is stamped, and the operator told, after the drain has started: by \<open>Stamp\<close>.\<close>

definition on_service_restart ::
  "(ustr \<Rightarrow> ustr) \<Rightarrow> restart_config \<Rightarrow> bool \<Rightarrow> ustr \<Rightarrow> ustr \<Rightarrow> restart_world \<Rightarrow> restart_world \<times> ustr" where
  "on_service_restart repr cfg exists_now service reason w =
     (case agent_restart_verdict repr cfg service reason of
        Some v \<Rightarrow>
          (record_incident cfg \<lparr>in_phase = u ''agent_restart_gate'', in_error = service @ u '': '' @ v, in_action = u ''rejected'', in_chat = None\<rparr> w,
           u ''rejected: '' @ v)
      | None \<Rightarrow>
          if rw_now w - rw_last_at w < rc_cooldown cfg then (w, u ''cooldown'')
          else
            let w1 = record_incident cfg (graceful_incident (u ''ACP subprocess requested restart of '' @ service @ u '': '' @ reason) None)
                       (suppress_auto None (cancel_wakes None w))
            in case schedule_draining_restart exists_now service None reason w1 of
                 (w2, False) \<Rightarrow> (w2, u ''rejected: no such unit'')
               | (w2, True) \<Rightarrow> (w2\<lparr>rw_threads := rw_threads w2 @ [Stamp service reason (rw_now w)]\<rparr>, u ''scheduled''))"

definition restart_notice :: "restart_config \<Rightarrow> ustr \<Rightarrow> ustr \<Rightarrow> ustr" where
  "restart_notice cfg service reason =
     u ''[harness] '' @ persona_or_agent cfg @ u '' scheduled a graceful restart of '' @ service @
     (if py_strip reason = [] then [] else u '' '' @ [8212] @ u '' '' @ py_strip reason)"

definition stamp_request :: "restart_config \<Rightarrow> ustr \<Rightarrow> ustr \<Rightarrow> secs \<Rightarrow> restart_world \<Rightarrow> restart_world" where
  "stamp_request cfg service reason tm w =
     notify cfg (rc_fallback cfg) (restart_notice cfg service reason) (w\<lparr>rw_last_at := tm\<rparr>)"

text \<open>The operator's door; it holds the runtime's lock throughout.\<close>

definition graceful_service_restart ::
  "restart_config \<Rightarrow> bool \<Rightarrow> ustr \<Rightarrow> ustr option \<Rightarrow> ustr \<Rightarrow> restart_world \<Rightarrow> restart_world \<times> chat_result" where
  "graceful_service_restart cfg exists_now chat service0 reason w =
     (let service = (case service0 of None \<Rightarrow> own_unit cfg | Some s \<Rightarrow> s)
      in if rw_now w - rw_last_at w < rc_cooldown cfg
         then (w, (mk_result (u ''A restart for '' @ service @ u '' is already scheduled.''))\<lparr>cr_notice := Some (u ''Please wait for it to complete.'')\<rparr>)
         else
           let w1 = record_incident cfg (graceful_incident (u ''User requested restart of '' @ service @ u '': '' @ reason) (Some chat))
                      (cancel_wakes (Some chat) (suppress_auto (Some chat) (w\<lparr>rw_last_at := rw_now w\<rparr>)))
           in case schedule_draining_restart exists_now service (Some chat) reason w1 of
                (w2, False) \<Rightarrow> (w2\<lparr>rw_last_at := 0\<rparr>,
                  (mk_result (u ''Could not restart '' @ service @ u '': no such service unit.''))
                    \<lparr>cr_notice := Some (u ''Check the service name and try again.'')\<rparr>)
              | (w2, True) \<Rightarrow> (w2,
                  (mk_result (u ''Restarting '' @ service @ u '' after the current turn finishes (or in '' @ [8804] @
                     u ''2 min, whichever comes first). I'' @ [39] @ u ''ll be back in a moment.''))
                    \<lparr>cr_notice := Some (u ''The service drains in-flight work before restarting.'')\<rparr>))"

subsection \<open>Threads\<close>

definition restart_failed :: "restart_config \<Rightarrow> ustr \<Rightarrow> ustr option \<Rightarrow> ustr \<Rightarrow> restart_world \<Rightarrow> restart_world" where
  "restart_failed cfg service chat cause w =
     (let w1 = record_incident cfg
            \<lparr>in_phase = u ''graceful_restart'', in_error = u ''Scheduled restart of '' @ service @ u '' did not fire: '' @ cause,
             in_action = u ''drain_cleared'', in_chat = chat\<rparr>
            (w\<lparr>rw_draining := False, rw_pending := None, rw_last_at := 0\<rparr>);
          chat' = (case chat of None \<Rightarrow> rc_fallback cfg | Some c \<Rightarrow> if c = [] then rc_fallback cfg else c)
      in notify cfg chat' (u ''[harness] '' @ persona_or_agent cfg @ u '' restart of '' @ service @ u '' did not fire '' @ [8212] @ 32 # cause) w1)"

definition drain_ready :: "secs \<Rightarrow> restart_world \<Rightarrow> bool" where
  "drain_ready deadline w \<longleftrightarrow> rw_turns w = [] \<and> rw_ops w = [] \<or> deadline \<le> rw_now w"

definition flush_plugins :: "restart_world \<Rightarrow> restart_world" where
  "flush_plugins w = w\<lparr>rw_flushed := rw_flushed w @ rw_chats w\<rparr>"

definition failure_detail :: "int \<times> ustr \<times> ustr \<Rightarrow> ustr" where
  "failure_detail p =
     (case p of (rc, out, err) \<Rightarrow>
        let d = py_strip (if err \<noteq> [] then err else out) in if d \<noteq> [] then d else u ''exit '' @ str_of_int rc)"

text \<open>\<open>_do_restart\<close>: the left side is an exception of the service manager with its text.\<close>

definition do_restart :: "restart_config \<Rightarrow> ustr + int \<times> ustr \<times> ustr \<Rightarrow> ustr \<Rightarrow> ustr option \<Rightarrow> restart_world \<Rightarrow> restart_world" where
  "do_restart cfg outcome service chat w =
     (case outcome of
        Inl exc \<Rightarrow> restart_failed cfg service chat (backend_name (rc_backend cfg) @ u '' scheduler error: '' @ exc) w
      | Inr p \<Rightarrow>
          if fst p \<noteq> 0 then restart_failed cfg service chat (failure_detail p) w
          else
            let w1 = w\<lparr>rw_scheduled := rw_scheduled w @ [resolve_unit (rc_backend cfg) service (rc_units cfg)]\<rparr>
            in if is_self_unit cfg service then w1 else w1\<lparr>rw_draining := False, rw_pending := None\<rparr>)"

definition reap :: "restart_config \<Rightarrow> ustr \<Rightarrow> ustr option \<Rightarrow> restart_world \<Rightarrow> restart_world" where
  "reap cfg service chat w =
     (if \<not> rw_started w \<or> \<not> rw_draining w then w
      else restart_failed cfg service chat (u ''scheduled restart never fired'') w)"

definition WATCHDOG_DELAY :: secs where
  "WATCHDOG_DELAY = 5 + 60"

text \<open>One thread moves: what it does and the threads it leaves behind.\<close>

inductive thread_move :: "restart_config \<Rightarrow> thread \<Rightarrow> restart_world \<Rightarrow> thread list \<Rightarrow> restart_world \<Rightarrow> bool" for cfg where
  drained: "drain_ready deadline w \<Longrightarrow>
    thread_move cfg (Drain service chat reason deadline) w [Schedule service chat reason, Arm service chat] (flush_plugins w)"
| scheduled: "thread_move cfg (Schedule service chat reason) w [] (do_restart cfg outcome service chat w)"
| armed: "thread_move cfg (Arm service chat) w
    (if is_self_unit cfg service then [Reaper service chat (rw_now w + WATCHDOG_DELAY)] else []) w"
| reaped: "due_at \<le> rw_now w \<Longrightarrow> thread_move cfg (Reaper service chat due_at) w [] (reap cfg service chat w)"
| stamped: "thread_move cfg (Stamp service reason tm) w [] (stamp_request cfg service reason tm w)"

inductive thread_step :: "restart_config \<Rightarrow> restart_world \<Rightarrow> restart_world \<Rightarrow> bool" for cfg where
  move: "rw_threads w = pre @ t # post \<Longrightarrow> thread_move cfg t w ts w' \<Longrightarrow> thread_step cfg w (w'\<lparr>rw_threads := pre @ ts @ post\<rparr>)"

inductive restart_step :: "(ustr \<Rightarrow> ustr) \<Rightarrow> restart_config \<Rightarrow> restart_world \<Rightarrow> restart_world \<Rightarrow> bool" for repr cfg where
  clock: "rw_now w \<le> t \<Longrightarrow> restart_step repr cfg w (w\<lparr>rw_now := t\<rparr>)"
| turn_begins: "\<not> rw_draining w \<Longrightarrow> restart_step repr cfg w (w\<lparr>rw_turns := rw_turns w @ [chat]\<rparr>)"
| turn_ends: "restart_step repr cfg w (w\<lparr>rw_turns := filter (\<lambda>c. c \<noteq> chat) (rw_turns w)\<rparr>)"
| op_begins: "restart_step repr cfg w (w\<lparr>rw_ops := rw_ops w @ [chat]\<rparr>)"
| op_ends: "restart_step repr cfg w (w\<lparr>rw_ops := filter (\<lambda>c. c \<noteq> chat) (rw_ops w)\<rparr>)"
| agent: "restart_step repr cfg w (fst (on_service_restart repr cfg exists_now service reason w))"
| operator: "restart_step repr cfg w (fst (graceful_service_restart cfg exists_now chat service0 reason w))"
| thread: "thread_step cfg w w' \<Longrightarrow> restart_step repr cfg w w'"
| shutdown: "restart_step repr cfg w (w\<lparr>rw_started := False, rw_draining := True\<rparr>)"

subsection \<open>The memory of restarts\<close>

text \<open>\<open>_record_restart_memory\<close>: \<open>written\<close> says when an item was last written for a chat, \<open>fmt\<close> is the text of a time.\<close>

definition record_restart_memory ::
  "(secs \<Rightarrow> ustr) \<Rightarrow> secs \<Rightarrow> ustr \<Rightarrow> ustr option \<Rightarrow> (ustr, secs) dict \<times> (ustr \<times> ustr) list \<Rightarrow> (ustr, secs) dict \<times> (ustr \<times> ustr) list" where
  "record_restart_memory fmt now chat reason m =
     (case m of (written, items) \<Rightarrow>
        if now - (case dget chat written of None \<Rightarrow> 0 | Some t \<Rightarrow> t) < 60 then (written, items)
        else (dset chat now written,
              items @ [(chat, u ''ACP transport restarted at '' @ fmt now @ u ''.'' @
                 (case reason of None \<Rightarrow> [] | Some r \<Rightarrow> if r = [] then [] else u '' Reason: '' @ r @ u ''.''))]))"

lemma restart_memory_spaced:
  assumes "record_restart_memory fmt t1 chat r1 (written, items) = (written1, items1)" and "items1 \<noteq> items" and "t2 < t1 + 60"
  shows "record_restart_memory fmt t2 chat r2 (written1, items1) = (written1, items1)"
  using assms by (auto simp: record_restart_memory_def split: if_splits)

subsection \<open>The gate is reopened\<close>

lemma effect_frames [simp]:
  "rw_threads (record_incident cfg i w) = rw_threads w" "rw_draining (record_incident cfg i w) = rw_draining w"
  "rw_started (record_incident cfg i w) = rw_started w" "rw_last_at (record_incident cfg i w) = rw_last_at w"
  "rw_pending (record_incident cfg i w) = rw_pending w" "rw_now (record_incident cfg i w) = rw_now w"
  "rw_threads (notify cfg c t w) = rw_threads w" "rw_draining (notify cfg c t w) = rw_draining w"
  "rw_started (notify cfg c t w) = rw_started w" "rw_last_at (notify cfg c t w) = rw_last_at w" "rw_now (notify cfg c t w) = rw_now w"
  "rw_threads (cancel_wakes chat w) = rw_threads w" "rw_draining (cancel_wakes chat w) = rw_draining w"
  "rw_started (cancel_wakes chat w) = rw_started w" "rw_last_at (cancel_wakes chat w) = rw_last_at w"
  "rw_pending (cancel_wakes chat w) = rw_pending w" "rw_now (cancel_wakes chat w) = rw_now w"
  "rw_threads (suppress_auto chat w) = rw_threads w" "rw_draining (suppress_auto chat w) = rw_draining w"
  "rw_started (suppress_auto chat w) = rw_started w" "rw_last_at (suppress_auto chat w) = rw_last_at w"
  "rw_pending (suppress_auto chat w) = rw_pending w" "rw_now (suppress_auto chat w) = rw_now w"
  "rw_threads (flush_plugins w) = rw_threads w" "rw_draining (flush_plugins w) = rw_draining w"
  "rw_started (flush_plugins w) = rw_started w" "rw_now (flush_plugins w) = rw_now w"
  by (simp_all add: record_incident_def notify_def cancel_wakes_def suppress_auto_def flush_plugins_def)

lemma failed_frames [simp]:
  "rw_threads (restart_failed cfg s c x w) = rw_threads w" "\<not> rw_draining (restart_failed cfg s c x w)"
  "rw_started (restart_failed cfg s c x w) = rw_started w" "rw_last_at (restart_failed cfg s c x w) = 0"
  "rw_now (restart_failed cfg s c x w) = rw_now w"
  by (simp_all add: restart_failed_def Let_def)

lemma move_frames [simp]:
  "rw_threads (do_restart cfg out s c w) = rw_threads w" "rw_started (do_restart cfg out s c w) = rw_started w"
  "rw_now (do_restart cfg out s c w) = rw_now w"
  "rw_threads (reap cfg s c w) = rw_threads w" "rw_started (reap cfg s c w) = rw_started w" "rw_now (reap cfg s c w) = rw_now w"
  "rw_threads (stamp_request cfg s r tm w) = rw_threads w" "rw_started (stamp_request cfg s r tm w) = rw_started w"
  "rw_draining (stamp_request cfg s r tm w) = rw_draining w" "rw_now (stamp_request cfg s r tm w) = rw_now w"
  by (auto simp: do_restart_def reap_def stamp_request_def Let_def split: sum.split)

lemma do_restart_draining:
  "rw_draining (do_restart cfg out s c w) \<Longrightarrow> rw_draining w \<and> is_self_unit cfg s"
  by (auto simp: do_restart_def Let_def split: sum.splits if_splits)

lemma reap_draining: "rw_started w \<Longrightarrow> \<not> rw_draining (reap cfg s c w)"
  by (simp add: reap_def)

text \<open>The threads that keep the promise to open the gate again.\<close>

fun opener :: "restart_config \<Rightarrow> thread \<Rightarrow> bool" where
  "opener cfg (Drain s c r d) = True"
| "opener cfg (Schedule s c r) = (\<not> is_self_unit cfg s)"
| "opener cfg (Arm s c) = is_self_unit cfg s"
| "opener cfg (Reaper s c d) = True"
| "opener cfg (Stamp s r a) = False"

definition gate_ok :: "restart_config \<Rightarrow> restart_world \<Rightarrow> bool" where
  "gate_ok cfg w \<longleftrightarrow> (rw_started w \<and> rw_draining w \<longrightarrow> list_ex (opener cfg) (rw_threads w))"

inductive_cases moveE: "thread_move cfg t w ts w'"

lemma move_opener:
  assumes "thread_move cfg t w ts w'" and "rw_started w'" and "rw_draining w'"
  shows "rw_draining w \<and> rw_started w \<and> (opener cfg t \<longrightarrow> list_ex (opener cfg) ts)"
  using assms by (cases rule: thread_move.cases) (auto dest: do_restart_draining reap_draining)

lemma moveI: "thread_move cfg t w ts w' \<Longrightarrow> rw_threads w = pre @ t # post \<Longrightarrow> thread_step cfg w (w'\<lparr>rw_threads := pre @ ts @ post\<rparr>)"
  by (rule thread_step.move)

lemma thread_step_ok: "thread_step cfg w w' \<Longrightarrow> gate_ok cfg w \<Longrightarrow> gate_ok cfg w'"
  by (auto simp: gate_ok_def elim!: thread_step.cases dest: move_opener)

lemma request_ok:
  "gate_ok cfg w \<Longrightarrow> gate_ok cfg (fst (on_service_restart repr cfg ex service reason w))"
  "gate_ok cfg w \<Longrightarrow> gate_ok cfg (fst (graceful_service_restart cfg ex chat service0 reason w))"
  by (auto simp: gate_ok_def on_service_restart_def graceful_service_restart_def schedule_draining_restart_def Let_def
      split: option.split)

lemma restart_step_ok: "restart_step repr cfg w w' \<Longrightarrow> gate_ok cfg w \<Longrightarrow> gate_ok cfg w'"
proof (induction rule: restart_step.induct)
  case (agent w ex service reason)
  then show ?case by (rule request_ok)
next
  case (operator w ex chat service0 reason)
  then show ?case by (rule request_ok)
next
  case (thread w w')
  then show ?case by (rule thread_step_ok)
qed (simp_all add: gate_ok_def)

lemma restart_steps_ok: "(restart_step repr cfg)\<^sup>*\<^sup>* w w' \<Longrightarrow> gate_ok cfg w \<Longrightarrow> gate_ok cfg w'"
  by (induction rule: rtranclp_induct) (auto intro: restart_step_ok)

text \<open>How many moves a thread and those it starts can still make.\<close>

fun moves_left :: "thread \<Rightarrow> nat" where
  "moves_left (Drain s c r d) = 4"
| "moves_left (Arm s c) = 2"
| "moves_left _ = 1"

definition work_left :: "restart_world \<Rightarrow> nat" where
  "work_left w = sum_list (map moves_left (rw_threads w))"

lemma thread_step_work: "thread_step cfg w w' \<Longrightarrow> work_left w' < work_left w"
  by (auto simp: work_left_def elim!: thread_step.cases thread_move.cases)

fun wakes_at :: "thread \<Rightarrow> secs" where
  "wakes_at (Drain s c r d) = d"
| "wakes_at (Reaper s c d) = d"
| "wakes_at _ = 0"

text \<open>The clock and the threads alone: no request, no turn, no shutdown.\<close>

inductive background :: "restart_config \<Rightarrow> restart_world \<Rightarrow> restart_world \<Rightarrow> bool" for cfg where
  time: "rw_now w \<le> t \<Longrightarrow> background cfg w (w\<lparr>rw_now := t\<rparr>)"
| threads: "thread_step cfg w w' \<Longrightarrow> background cfg w w'"

lemma some_move: "wakes_at t \<le> rw_now w \<Longrightarrow> \<exists>ts w'. thread_move cfg t w ts w'"
  by (cases t) (auto intro!: exI intro: thread_move.intros simp: drain_ready_def)

lemma some_thread_step:
  assumes "rw_threads w = t # rest"
  shows "\<exists>w'. thread_step cfg (w\<lparr>rw_now := max (rw_now w) (wakes_at t)\<rparr>) w'"
proof -
  let ?w = "w\<lparr>rw_now := max (rw_now w) (wakes_at t)\<rparr>"
  obtain ts w' where "thread_move cfg t ?w ts w'" using some_move [of t ?w cfg] by auto
  moreover have "rw_threads ?w = [] @ t # rest" using assms by simp
  ultimately show ?thesis by (blast intro: thread_step.move)
qed

lemma threads_finish: "\<exists>w'. (background cfg)\<^sup>*\<^sup>* w w' \<and> rw_threads w' = []"
proof (induction "work_left w" arbitrary: w rule: less_induct)
  case less
  show ?case
  proof (cases "rw_threads w")
    case Nil
    then show ?thesis by blast
  next
    case (Cons t rest)
    let ?w = "w\<lparr>rw_now := max (rw_now w) (wakes_at t)\<rparr>"
    obtain w1 where st: "thread_step cfg ?w w1" using some_thread_step [OF Cons, of cfg] by blast
    have "work_left ?w = work_left w" by (simp add: work_left_def)
    with thread_step_work [OF st] have "work_left w1 < work_left w" by simp
    from less [OF this] obtain w2 where w2: "(background cfg)\<^sup>*\<^sup>* w1 w2" "rw_threads w2 = []" by blast
    have "background cfg w ?w" by (simp add: background.time)
    moreover have "background cfg ?w w1" using st by (rule background.threads)
    ultimately show ?thesis using w2 by (meson converse_rtranclp_into_rtranclp)
  qed
qed

lemma background_ok: "(background cfg)\<^sup>*\<^sup>* w w' \<Longrightarrow> gate_ok cfg w \<Longrightarrow> gate_ok cfg w' \<and> rw_started w' = rw_started w"
proof (induction rule: rtranclp_induct)
  case (step y z)
  then have y: "gate_ok cfg y" "rw_started y = rw_started w" by auto
  from step(2) show ?case
  proof cases
    case (time t)
    with y show ?thesis by (simp add: gate_ok_def)
  next
    case threads
    have "rw_started z = rw_started y" using threads by (auto elim!: thread_step.cases thread_move.cases)
    with threads y thread_step_ok show ?thesis by auto
  qed
qed simp

definition idle_world :: "restart_world \<Rightarrow> bool" where
  "idle_world w \<longleftrightarrow> rw_started w \<and> \<not> rw_draining w \<and> rw_threads w = []"

text \<open>
  Claim C34.  The service never stays closed: whatever requests, turns and threads have interleaved (short of a
  shutdown), and whatever the service manager answers to the threads that are left, once they have all ended
  the gate is open and turns are admitted again; and they do end, with no other event than time passing.
\<close>

theorem drain_always_ends:
  assumes "idle_world w0" and "(restart_step repr cfg)\<^sup>*\<^sup>* w0 w" and "rw_started w"
  shows "(\<exists>w'. (background cfg)\<^sup>*\<^sup>* w w' \<and> rw_threads w' = [])
    \<and> (\<forall>w'. (background cfg)\<^sup>*\<^sup>* w w' \<and> rw_threads w' = [] \<longrightarrow> \<not> rw_draining w')"
proof -
  have "gate_ok cfg w0" using assms(1) by (simp add: idle_world_def gate_ok_def)
  with assms(2) have ok: "gate_ok cfg w" by (rule restart_steps_ok)
  have "\<not> rw_draining w'" if "(background cfg)\<^sup>*\<^sup>* w w'" "rw_threads w' = []" for w'
    using background_ok [OF that(1) ok] that(2) assms(3) by (simp add: gate_ok_def)
  with threads_finish show ?thesis by blast
qed

definition sample_config :: restart_config where
  "sample_config = \<lparr>rc_persona = u ''a'', rc_units = [], rc_allowed = [],
     rc_plugins = [\<lparr>pe_name = u ''authorship'', pe_enabled = True, pe_restart = Some True\<rparr>],
     rc_fallback = u ''9'', rc_backend = Systemd, rc_notify = True, rc_incidents = True, rc_cooldown = 60\<rparr>"

definition sample_world :: restart_world where
  "sample_world = \<lparr>rw_now = 100, rw_started = True, rw_draining = False, rw_pending = None, rw_last_at = 0, rw_turns = [], rw_ops = [],
     rw_chats = [u ''1''], rw_threads = [], rw_flushed = [], rw_scheduled = [], rw_incidents = [], rw_notices = [],
     rw_queue = \<lparr>wq_file = [], wq_in_memory = []\<rparr>, rw_auto = \<lparr>ac_suppressed = [], ac_global_until = 0\<rparr>\<rparr>"

lemma sample_idle: "idle_world sample_world"
  by (simp add: idle_world_def sample_world_def)

definition after_request :: restart_world where
  "after_request = fst (graceful_service_restart sample_config True (u ''1'') None (u ''r'') sample_world)"

lemma own_self [simp]: "is_self_unit sample_config (u ''a.service'')" "own_unit sample_config = u ''a.service''"
  by (simp_all add: is_self_unit_def sample_config_def u_append [symmetric])

lemma after_request_sel:
  "rw_threads after_request = [Drain (u ''a.service'') (Some (u ''1'')) (u ''r'') 220]" "rw_draining after_request"
  "rw_started after_request" "rw_now after_request = 100" "rw_turns after_request = []" "rw_ops after_request = []"
  by (simp_all add: after_request_def graceful_service_restart_def schedule_draining_restart_def DRAIN_CAP_def Let_def
      record_incident_def cancel_wakes_def suppress_auto_def)
    (simp_all add: sample_world_def sample_config_def)

theorem drain_always_ends_witness:
  "(\<exists>w'. (background sample_config)\<^sup>*\<^sup>* after_request w' \<and> rw_threads w' = [])
   \<and> rw_draining after_request
   \<and> \<not> (\<exists>w'. (background sample_config)\<^sup>*\<^sup>* after_request w' \<and> rw_threads w' = [] \<and> rw_draining w')"
proof -
  have "restart_step id sample_config sample_world after_request"
    unfolding after_request_def by (rule restart_step.operator)
  then have "(restart_step id sample_config)\<^sup>*\<^sup>* sample_world after_request" by (rule r_into_rtranclp)
  from drain_always_ends [OF sample_idle this] show ?thesis by (auto simp: after_request_sel)
qed

subsection \<open>The gate opens too early\<close>

text \<open>
  A watchdog knows neither the request it belongs to nor that the failure was reported long ago: it fires into a
  later drain.
\<close>

lemma stray_watchdog:
  assumes "rw_threads w = pre @ Reaper s c tm # post" and "tm \<le> rw_now w" and "rw_started w" and "rw_draining w"
  shows "\<exists>w'. restart_step repr cfg w w' \<and> \<not> rw_draining w' \<and> rw_threads w' = pre @ post \<and> rw_pending w' = None
    \<and> rw_turns w' = rw_turns w \<and> rw_now w' = rw_now w"
proof -
  have "thread_step cfg w ((reap cfg s c w)\<lparr>rw_threads := pre @ [] @ post\<rparr>)"
    using assms(1,2) by (intro moveI [OF thread_move.reaped])
  moreover have "rw_pending (reap cfg s c w) = None" "rw_turns (reap cfg s c w) = rw_turns w"
    using assms(3,4) by (simp_all add: reap_def restart_failed_def Let_def record_incident_def notify_def)
  ultimately show ?thesis using assms(3)
    by (intro exI [of _ "(reap cfg s c w)\<lparr>rw_threads := pre @ [] @ post\<rparr>"]) (auto intro: restart_step.thread simp: reap_draining)
qed

text \<open>The same when a restart of another service is scheduled while this one drains for its own.\<close>

lemma sister_opens_the_gate:
  assumes "rw_threads w = pre @ Schedule s c r # post" and "\<not> is_self_unit cfg s" and "rw_draining w"
  shows "\<exists>w'. restart_step repr cfg w w' \<and> \<not> rw_draining w' \<and> rw_threads w' = pre @ post"
proof -
  have "thread_step cfg w ((do_restart cfg (Inr (0, [], [])) s c w)\<lparr>rw_threads := pre @ [] @ post\<rparr>)"
    using assms(1) by (rule moveI [OF thread_move.scheduled])
  with assms(2) show ?thesis
    by (intro exI [of _ "(do_restart cfg (Inr (0, [], [])) s c w)\<lparr>rw_threads := pre @ [] @ post\<rparr>"])
      (auto intro: restart_step.thread simp: do_restart_def Let_def)
qed

definition failed_world :: restart_world where
  "failed_world = (restart_failed sample_config (u ''a.service'') (Some (u ''1'')) (u ''exit 1'') (flush_plugins after_request))
     \<lparr>rw_threads := [Arm (u ''a.service'') (Some (u ''1''))]\<rparr>"

lemma bare_exit: "failure_detail (1, [], []) = u ''exit 1''"
  by (simp add: failure_detail_def strip_by_def lstrip_by_def rstrip_by_def str_of_int_def str_of_nat_def u_def digits_of.simps)

lemma failed_threads: "restart_failed cfg s c x (w\<lparr>rw_threads := ts\<rparr>) = (restart_failed cfg s c x w)\<lparr>rw_threads := ts\<rparr>"
  by (simp add: restart_failed_def Let_def record_incident_def notify_def)

lemma failed_world_reached: "(restart_step repr sample_config)\<^sup>*\<^sup>* sample_world failed_world"
proof -
  let ?s = "u ''a.service''" and ?c = "Some (u ''1'')" and ?r = "u ''r''"
  let ?w2 = "(flush_plugins after_request)\<lparr>rw_threads := [] @ [Schedule ?s ?c ?r, Arm ?s ?c] @ []\<rparr>"
  have 1: "restart_step repr sample_config sample_world after_request"
    unfolding after_request_def by (rule restart_step.operator)
  have "thread_step sample_config after_request ?w2"
    by (rule moveI [OF thread_move.drained [where deadline = 220]]) (simp_all add: after_request_sel drain_ready_def)
  then have 2: "restart_step repr sample_config after_request ?w2" by (rule restart_step.thread)
  have "do_restart sample_config (Inr (1, [], [])) ?s ?c ?w2 =
      restart_failed sample_config ?s ?c (u ''exit 1'') (flush_plugins after_request)\<lparr>rw_threads := [Schedule ?s ?c ?r, Arm ?s ?c]\<rparr>"
    by (simp add: do_restart_def bare_exit failed_threads)
  moreover have "thread_step sample_config ?w2 ((do_restart sample_config (Inr (1, [], [])) ?s ?c ?w2)\<lparr>rw_threads := [] @ [] @ [Arm ?s ?c]\<rparr>)"
    by (rule moveI [OF thread_move.scheduled]) simp
  ultimately have 3: "restart_step repr sample_config ?w2 failed_world"
    by (simp add: failed_world_def restart_step.thread)
  from 1 2 3 show ?thesis by (meson converse_rtranclp_into_rtranclp rtranclp.rtrancl_refl)
qed

text \<open>
  A drain can lose its gate: an own restart that the service manager refused leaves its watchdog behind; a second
  request made within the minute is drained, and while it still waits for a turn, the watchdog of the first
  reports that the restart did not fire and opens the gate, so that new turns begin during the drain and are
  killed by the restart that follows.
\<close>

theorem stray_watchdog_opens_the_gate:
  "\<exists>w. (restart_step repr sample_config)\<^sup>*\<^sup>* sample_world w \<and> rw_threads w = [Drain (u ''a.service'') (Some (u ''1'')) (u ''r'') 270]
     \<and> \<not> drain_ready 270 w \<and> \<not> rw_draining w \<and> rw_pending w = None
     \<and> restart_step repr sample_config w (w\<lparr>rw_turns := rw_turns w @ [u ''2'']\<rparr>)"
proof -
  let ?s = "u ''a.service''" and ?c = "Some (u ''1'')" and ?r = "u ''r''"
  let ?w4 = "failed_world\<lparr>rw_threads := [Reaper ?s ?c 165]\<rparr>"
  let ?w5 = "?w4\<lparr>rw_turns := [u ''1'']\<rparr>"
  let ?w6 = "?w5\<lparr>rw_now := 150\<rparr>"
  let ?w7 = "fst (graceful_service_restart sample_config True (u ''1'') None ?r ?w6)"
  let ?w8 = "?w7\<lparr>rw_now := 165\<rparr>"
  have f: "\<not> rw_draining failed_world" "rw_now failed_world = 100" "rw_turns failed_world = []" "rw_started failed_world"
    "rw_last_at failed_world = 0"
    by (simp_all add: failed_world_def after_request_sel)
      (simp add: restart_failed_def Let_def record_incident_def notify_def flush_plugins_def after_request_sel)
  have "thread_step sample_config failed_world (failed_world\<lparr>rw_threads := [] @
      (if is_self_unit sample_config ?s then [Reaper ?s ?c (rw_now failed_world + WATCHDOG_DELAY)] else []) @ []\<rparr>)"
    by (rule moveI [OF thread_move.armed]) (simp add: failed_world_def)
  then have 4: "restart_step repr sample_config failed_world ?w4" by (simp add: WATCHDOG_DELAY_def f restart_step.thread)
  have 5: "restart_step repr sample_config ?w4 ?w5"
    using restart_step.turn_begins [of ?w4 repr sample_config "u ''1''"] f by simp
  have 6: "restart_step repr sample_config ?w5 ?w6" using f by (intro restart_step.clock) simp
  have 7: "restart_step repr sample_config ?w6 ?w7" by (rule restart_step.operator)
  have t: "rw_threads ?w7 = [Reaper ?s ?c 165, Drain ?s ?c ?r 270]" "rw_draining ?w7" "rw_started ?w7" "rw_turns ?w7 = [u ''1'']"
    "rw_now ?w7 = 150"
    by (simp_all add: graceful_service_restart_def schedule_draining_restart_def DRAIN_CAP_def Let_def
        record_incident_def cancel_wakes_def suppress_auto_def f) (simp_all add: sample_config_def f)
  have 8: "restart_step repr sample_config ?w7 ?w8" using t by (intro restart_step.clock) simp
  obtain w where w: "restart_step repr sample_config ?w8 w" "\<not> rw_draining w" "rw_threads w = [Drain ?s ?c ?r 270]"
    "rw_pending w = None" "rw_turns w = [u ''1'']" and now: "rw_now w = 165"
    using stray_watchdog [of ?w8 "[]" ?s ?c 165 "[Drain ?s ?c ?r 270]" repr sample_config] t by auto
  have "(restart_step repr sample_config)\<^sup>*\<^sup>* sample_world w"
    using failed_world_reached [of repr] 4 5 6 7 8 w(1) by (meson rtranclp.rtrancl_into_rtrancl)
  moreover have "restart_step repr sample_config w (w\<lparr>rw_turns := rw_turns w @ [u ''2'']\<rparr>)"
    using w(2) by (rule restart_step.turn_begins)
  ultimately show ?thesis using w now by (auto simp: drain_ready_def)
qed

subsection \<open>Refused requests\<close>

text \<open>
  A request of the agent that is not granted changes neither the gate nor the cooldown and starts no
  thread; it is granted only when the authorship plugin is enabled and allows restarts, a reason is given, the
  unit is on the list (by default the persona's own unit only) and exists, and the cooldown has passed; a
  request in the cooldown leaves everything as it is.
\<close>

theorem agent_restarts_are_gated:
  "(snd (on_service_restart repr cfg ex service reason w) \<noteq> u ''scheduled'' \<longrightarrow>
      (let w' = fst (on_service_restart repr cfg ex service reason w)
       in rw_draining w' = rw_draining w \<and> rw_pending w' = rw_pending w \<and> rw_last_at w' = rw_last_at w \<and> rw_threads w' = rw_threads w))
   \<and> (snd (on_service_restart repr cfg ex service reason w) = u ''scheduled'' \<longrightarrow>
      restart_enabled cfg \<and> py_strip reason \<noteq> [] \<and> service \<in> set (allowed_units cfg) \<and> ex \<and> rc_cooldown cfg \<le> rw_now w - rw_last_at w)
   \<and> (snd (on_service_restart repr cfg ex service reason w) = u ''cooldown'' \<longrightarrow> fst (on_service_restart repr cfg ex service reason w) = w)"
proof -
  have ne: "u ''rejected: '' @ v \<noteq> u ''scheduled''" "u ''rejected: '' @ v \<noteq> u ''cooldown''" for v
    by (simp_all add: u_def)
  have ne2: "u ''rejected: no such unit'' \<noteq> u ''scheduled''" "u ''rejected: no such unit'' \<noteq> u ''cooldown''"
    "u ''cooldown'' \<noteq> u ''scheduled''" "u ''scheduled'' \<noteq> u ''cooldown''"
    by (simp_all add: u_def)
  show ?thesis
  proof (cases "agent_restart_verdict repr cfg service reason")
    case None
    then have "restart_enabled cfg" "py_strip reason \<noteq> []" "service \<in> set (allowed_units cfg)"
      by (auto simp: agent_restart_verdict_def split: if_splits)
    with None ne2 show ?thesis by (auto simp: on_service_restart_def schedule_draining_restart_def Let_def)
  next
    case (Some v)
    with ne show ?thesis by (simp add: on_service_restart_def Let_def)
  qed
qed

text \<open>
  A request for a unit that does not exist is refused, but only after every pending auto-continue wake has been
  cancelled, auto-continue suppressed for all chats and an incident recorded that says \<open>scheduled\<close>.
\<close>

theorem refused_restart_cancels_continuations:
  assumes "agent_restart_verdict repr cfg service reason = None" and "rc_cooldown cfg \<le> rw_now w - rw_last_at w" and "rc_incidents cfg"
  shows "snd (on_service_restart repr cfg False service reason w) = u ''rejected: no such unit''
    \<and> rw_queue (fst (on_service_restart repr cfg False service reason w)) = fst (wake_cancel None (Some (u ''auto_continue'')) None (rw_now w) (rw_queue w))
    \<and> ac_global_until (rw_auto (fst (on_service_restart repr cfg False service reason w))) = rw_now w + 300
    \<and> in_action (last (rw_incidents (fst (on_service_restart repr cfg False service reason w)))) = u ''scheduled''"
  using assms
  by (simp add: on_service_restart_def schedule_draining_restart_def Let_def record_incident_def cancel_wakes_def suppress_auto_def
      suppress_def graceful_incident_def)

end
