(* ===== verification/McpSkills.thy ===== *)
theory McpSkills
  imports SessionStore "HOL-Library.List_Lexorder"
begin

section \<open>MCP servers and skills of a chat\<close>

text \<open>
  \<open>src/src/diploid_agent/runtime/mcp_skills.py\<close> (\<open>RuntimeMcpSkills\<close>) and \<open>mcp.py\<close> (\<open>McpManager\<close> with its
  placeholders).  A Python set of names that is only tested or sorted is a set; what a record stores is the
  sorted list.  A plugin hook that rewrites a name is the argument \<open>hook\<close>.
\<close>

subsection \<open>Server configuration\<close>

record mcp_server =
  ms_name :: ustr
  ms_command :: ustr
  ms_args :: "ustr list"
  ms_env :: "ustr list"
  ms_disabled :: bool

record tool_config =
  tc_servers :: "mcp_server list"
  tc_default_mcp :: "ustr list option"
  tc_plugin_mcp :: "ustr list"       \<comment> \<open>\<open>plugins.default_mcp_names()\<close>\<close>
  tc_default_skills :: "ustr list"
  tc_plugin_skills :: "ustr list"    \<comment> \<open>\<open>plugins.default_skill_names()\<close>\<close>
  tc_default_lazy :: bool
  tc_sessions_root :: ustr
  tc_listen_host :: ustr
  tc_listen_port :: int
  tc_api_key :: "ustr option"

definition harness_url :: "tool_config \<Rightarrow> ustr" where
  "harness_url cfg = u ''http://'' @ tc_listen_host cfg @ u '':'' @ str_of_int (tc_listen_port cfg)"

text \<open>\<open>text.find("}", i)\<close>: the text before the first closing brace and the text after it.\<close>

fun cut_brace :: "ustr \<Rightarrow> (ustr \<times> ustr) option" where
  "cut_brace [] = None"
| "cut_brace (c # cs) = (if c = 125 then Some ([], cs) else map_option (\<lambda>(a, b). (c # a, b)) (cut_brace cs))"

lemma cut_brace_length: "cut_brace s = Some (a, b) \<Longrightarrow> length b < length s"
  by (induction s arbitrary: a b) (auto split: if_splits)

record placeholders =
  ph_chat_id :: ustr
  ph_sessions_root :: ustr
  ph_chat_dir :: ustr
  ph_harness_url :: ustr

definition placeholder_value :: "placeholders \<Rightarrow> ustr \<Rightarrow> ustr option" where
  "placeholder_value p key =
     (if key = u ''chat_id'' then Some (ph_chat_id p) else if key = u ''sessions_root'' then Some (ph_sessions_root p)
      else if key = u ''chat_dir'' then Some (ph_chat_dir p) else if key = u ''harness_url'' then Some (ph_harness_url p)
      else None)"

text \<open>\<open>_PlaceholderFormatter.format\<close>; 123 and 125 are the braces.\<close>

function format_text :: "placeholders \<Rightarrow> ustr \<Rightarrow> ustr" where
  "format_text p [] = []"
| "format_text p (c # cs) =
     (if c = 123 \<and> (case cs of [] \<Rightarrow> False | d # ds \<Rightarrow> d = 123) then 123 # format_text p (tl cs)
      else if c = 125 \<and> (case cs of [] \<Rightarrow> False | d # ds \<Rightarrow> d = 125) then 125 # format_text p (tl cs)
      else if c = 123
      then (case cut_brace cs of
              None \<Rightarrow> c # format_text p cs
            | Some (key, rest) \<Rightarrow>
                (case placeholder_value p key of None \<Rightarrow> 123 # key @ [125] | Some v \<Rightarrow> v) @ format_text p rest)
      else c # format_text p cs)"
  by pat_completeness auto
termination
  by (relation "measure (length \<circ> snd)") (auto dest: cut_brace_length simp: less_Suc_eq)

definition starts_with :: "ustr \<Rightarrow> ustr \<Rightarrow> bool" where
  "starts_with pre s \<longleftrightarrow> take (length pre) s = pre"

record rendered_server =
  rs_name :: ustr
  rs_command :: ustr
  rs_args :: "ustr list"
  rs_env :: "ustr list"

definition chat_placeholders :: "tool_config \<Rightarrow> (ustr \<Rightarrow> ustr) \<Rightarrow> ustr \<Rightarrow> placeholders" where
  "chat_placeholders cfg chat_dir chat =
     \<lparr>ph_chat_id = chat, ph_sessions_root = tc_sessions_root cfg, ph_chat_dir = chat_dir chat, ph_harness_url = harness_url cfg\<rparr>"

definition render_server :: "tool_config \<Rightarrow> (ustr \<Rightarrow> ustr) \<Rightarrow> mcp_server \<Rightarrow> ustr \<Rightarrow> rendered_server" where
  "render_server cfg chat_dir srv chat =
     (let fmt = format_text (chat_placeholders cfg chat_dir chat);
          env0 = map fmt (ms_env srv);
          env1 = (if list_ex (starts_with (u ''HARNESS_URL='')) env0 then env0 else env0 @ [u ''HARNESS_URL='' @ harness_url cfg]);
          env2 = (case tc_api_key cfg of
                    None \<Rightarrow> env1
                  | Some k \<Rightarrow> if k \<noteq> [] \<and> \<not> list_ex (starts_with (u ''HARNESS_API_KEY='')) env1
                              then env1 @ [u ''HARNESS_API_KEY='' @ k] else env1)
      in \<lparr>rs_name = ms_name srv, rs_command = fmt (ms_command srv), rs_args = map fmt (ms_args srv), rs_env = env2\<rparr>)"

definition default_enabled_names :: "tool_config \<Rightarrow> ustr set" where
  "default_enabled_names cfg = (case tc_default_mcp cfg of None \<Rightarrow> {} | Some xs \<Rightarrow> set xs)"

definition enabled_servers :: "tool_config \<Rightarrow> (ustr \<Rightarrow> ustr) \<Rightarrow> ustr \<Rightarrow> ustr list \<Rightarrow> rendered_server list" where
  "enabled_servers cfg chat_dir chat names =
     map (\<lambda>s. render_server cfg chat_dir s chat)
       (filter (\<lambda>s. ms_name s \<in> set names \<and> \<not> ms_disabled s \<and> ms_name s \<noteq> u ''test-stdio'') (tc_servers cfg))"

subsection \<open>Effective sets\<close>

abbreviation py_sorted :: "ustr set \<Rightarrow> ustr list" where
  "py_sorted \<equiv> sorted_list_of_set"

definition opt_names :: "ustr list option \<Rightarrow> ustr set" where
  "opt_names o1 = (case o1 of None \<Rightarrow> {} | Some xs \<Rightarrow> set xs)"

definition default_mcp_names :: "tool_config \<Rightarrow> ustr list" where
  "default_mcp_names cfg = py_sorted (default_enabled_names cfg \<union> set (tc_plugin_mcp cfg))"

definition mcp_names_of :: "tool_config \<Rightarrow> session_record option \<Rightarrow> ustr set" where
  "mcp_names_of cfg r =
     (case r of
        None \<Rightarrow> set (default_mcp_names cfg)
      | Some x \<Rightarrow> (set (default_mcp_names cfg) \<union> opt_names (sr_enabled_mcp_servers x)) - opt_names (sr_disabled_mcp_servers x))"

definition active_mcp_server_names :: "tool_config \<Rightarrow> ustr \<Rightarrow> chat_store \<Rightarrow> ustr list" where
  "active_mcp_server_names cfg chat s = py_sorted (mcp_names_of cfg (active_record chat s))"

definition active_mcp_servers :: "tool_config \<Rightarrow> (ustr \<Rightarrow> ustr) \<Rightarrow> ustr \<Rightarrow> chat_store \<Rightarrow> rendered_server list" where
  "active_mcp_servers cfg chat_dir chat s = enabled_servers cfg chat_dir chat (active_mcp_server_names cfg chat s)"

definition mcp_record_drifted :: "tool_config \<Rightarrow> ustr \<Rightarrow> session_record option \<Rightarrow> chat_store \<Rightarrow> bool" where
  "mcp_record_drifted cfg chat r s =
     (case Option.bind r sr_enabled_mcp_servers of
        None \<Rightarrow> False
      | Some xs \<Rightarrow> sort xs \<noteq> sort (active_mcp_server_names cfg chat s))"

definition default_active_skills :: "tool_config \<Rightarrow> ustr set" where
  "default_active_skills cfg = (if tc_default_lazy cfg then {} else set (tc_default_skills cfg) \<union> set (tc_plugin_skills cfg))"

definition skills_of :: "tool_config \<Rightarrow> session_record option \<Rightarrow> ustr set" where
  "skills_of cfg r = (case Option.bind r sr_enabled_skills of None \<Rightarrow> default_active_skills cfg | Some xs \<Rightarrow> set xs)"

text \<open>\<open>turn\<close> are the skills matched for the running turn (\<open>_active_chat_skills\<close>).\<close>

definition active_skill_names :: "tool_config \<Rightarrow> (ustr, ustr set) dict \<Rightarrow> ustr \<Rightarrow> chat_store \<Rightarrow> ustr set" where
  "active_skill_names cfg turn chat s =
     skills_of cfg (active_record chat s) \<union> (case dget chat turn of None \<Rightarrow> {} | Some m \<Rightarrow> m)"

definition match_and_activate_skills ::
  "tool_config \<Rightarrow> (ustr \<Rightarrow> ustr set \<Rightarrow> ustr set) \<Rightarrow> ustr set \<Rightarrow> ustr \<Rightarrow> ustr \<Rightarrow> (ustr, ustr set) dict \<Rightarrow> chat_store \<Rightarrow> (ustr, ustr set) dict \<times> ustr set" where
  "match_and_activate_skills cfg match_skills all_skills chat msg turn s =
     (let disabled = (case active_record chat s of None \<Rightarrow> {} | Some r \<Rightarrow> opt_names (sr_disabled_skills r));
          turn' = dset chat (match_skills msg (all_skills - disabled)) turn
      in (turn', active_skill_names cfg turn' chat s))"

subsection \<open>Switching servers and skills\<close>

definition NO_SESSION :: ustr where
  "NO_SESSION = u ''No active session. Start one with /new first.''"

text \<open>The record is changed in place (in the registry) and a line appended to the file: \<open>put_session\<close>.\<close>

definition mcp_enable :: "tool_config \<Rightarrow> (ustr \<Rightarrow> ustr) \<Rightarrow> ustr \<Rightarrow> ustr \<Rightarrow> chat_store \<Rightarrow> chat_store \<times> ustr" where
  "mcp_enable cfg hook chat name0 s =
     (case active_record chat s of
        None \<Rightarrow> (s, NO_SESSION)
      | Some r \<Rightarrow>
          let name = hook name0;
              names = insert name (set (active_mcp_server_names cfg chat s));
              disabled = opt_names (sr_disabled_mcp_servers r) - {name}
          in (put_session (r\<lparr>sr_enabled_mcp_servers := Some (py_sorted names), sr_disabled_mcp_servers := Some (py_sorted disabled)\<rparr>) s,
              u ''Enabled MCP server '' @ name @ u ''. New sessions will use it.''))"

definition mcp_disable :: "tool_config \<Rightarrow> (ustr \<Rightarrow> ustr) \<Rightarrow> ustr \<Rightarrow> ustr \<Rightarrow> chat_store \<Rightarrow> chat_store \<times> ustr" where
  "mcp_disable cfg hook chat name0 s =
     (case active_record chat s of
        None \<Rightarrow> (s, NO_SESSION)
      | Some r \<Rightarrow>
          let name = hook name0;
              names = set (active_mcp_server_names cfg chat s) - {name};
              disabled = insert name (opt_names (sr_disabled_mcp_servers r))
          in (put_session (r\<lparr>sr_enabled_mcp_servers := Some (py_sorted names), sr_disabled_mcp_servers := Some (py_sorted disabled)\<rparr>) s,
              u ''Disabled MCP server '' @ name @ u ''.''))"

text \<open>\<open>record.enabled_skills or defaults\<close>: an empty list counts like no list.\<close>

definition enabled_or_default :: "tool_config \<Rightarrow> session_record \<Rightarrow> ustr set" where
  "enabled_or_default cfg r =
     (case sr_enabled_skills r of None \<Rightarrow> default_active_skills cfg | Some xs \<Rightarrow> if xs = [] then default_active_skills cfg else set xs)"

definition skill_enable :: "tool_config \<Rightarrow> (ustr \<Rightarrow> ustr) \<Rightarrow> ustr \<Rightarrow> ustr \<Rightarrow> chat_store \<Rightarrow> chat_store \<times> ustr" where
  "skill_enable cfg hook chat name0 s =
     (case active_record chat s of
        None \<Rightarrow> (s, NO_SESSION)
      | Some r \<Rightarrow>
          let name = hook name0
          in (put_session (r\<lparr>sr_enabled_skills := Some (py_sorted (insert name (enabled_or_default cfg r))),
                               sr_disabled_skills := Some (py_sorted (opt_names (sr_disabled_skills r) - {name}))\<rparr>) s,
              u ''Enabled skill /'' @ name @ u ''.''))"

definition skill_disable :: "tool_config \<Rightarrow> (ustr \<Rightarrow> ustr) \<Rightarrow> ustr \<Rightarrow> ustr \<Rightarrow> chat_store \<Rightarrow> chat_store \<times> ustr" where
  "skill_disable cfg hook chat name0 s =
     (case active_record chat s of
        None \<Rightarrow> (s, NO_SESSION)
      | Some r \<Rightarrow>
          let name = hook name0
          in (put_session (r\<lparr>sr_enabled_skills := Some (py_sorted (enabled_or_default cfg r - {name})),
                               sr_disabled_skills := Some (py_sorted (insert name (opt_names (sr_disabled_skills r))))\<rparr>) s,
              u ''Disabled skill /'' @ name @ u ''.''))"

subsection \<open>What a switch does\<close>

declare sorted_list_of_set_insert_remove [simp del]

lemma max_key_from_map:
  "f (g b) = f b \<Longrightarrow> \<forall>x \<in> set xs. f (g x) = f x \<Longrightarrow> max_key_from f (g b) (map g xs) = g (max_key_from f b xs)"
  by (induction xs arbitrary: b) auto

lemma py_max_key_map: "\<forall>x \<in> set xs. f (g x) = f x \<Longrightarrow> py_max_key f (map g xs) = map_option g (py_max_key f xs)"
  by (cases xs) (auto simp: max_key_from_map)

lemma dvals_dset_keyed:
  "dict_ok d \<Longrightarrow> dget n d \<noteq> None \<Longrightarrow> \<forall>(k, x) \<in> set d. num x = k \<Longrightarrow> dvals (dset n y d) = map (\<lambda>x. if num x = n then y else x) (dvals d)"
proof (induction d)
  case (Cons p d)
  obtain k x where p: "p = (k, x)" by force
  show ?case
  proof (cases "k = n")
    case True
    have "num z \<noteq> n" if z: "z \<in> set (dvals d)" for z
    proof -
      obtain k' where k': "(k', z) \<in> set d" using z by auto
      then have "k' \<in> set (dkeys d)" by force
      moreover have "n \<notin> set (dkeys d)" using Cons.prems(1) p True by (simp add: map_of_eq_None_iff)
      moreover have "num z = k'" using Cons.prems(3) k' by auto
      ultimately show ?thesis by auto
    qed
    then have "map (\<lambda>x. if num x = n then y else x) (dvals d) = dvals d" by (induction d) auto
    with p True Cons.prems show ?thesis by simp
  next
    case False
    with Cons p show ?thesis by auto
  qed
qed simp

lemma active_record_in:
  assumes "active_record chat s = Some r" and "states_ok (st_states s)"
  shows "sr_chat_id r = chat \<and> dget (sr_session_number r) (sessions_of chat (st_states s)) = Some r
    \<and> sessions_ok chat (state_of chat (st_states s))"
proof -
  obtain cs where cs: "dget chat (st_states s) = Some cs" "py_max_key sr_updated_at (dvals (cs_sessions cs)) = Some r"
    using assms(1) by (auto simp: active_record_def split: option.splits)
  have ok: "sessions_ok chat cs" using states_ok_get [OF assms(2), of chat] cs(1) by (simp add: state_of_def)
  have "r \<in> set (dvals (cs_sessions cs))" using cs(2) by (rule py_max_key_mem)
  then obtain n where "(n, r) \<in> set (cs_sessions cs)" by auto
  moreover from this ok have "sr_session_number r = n" "sr_chat_id r = chat" by (auto simp: sessions_ok_def)
  ultimately show ?thesis using ok cs(1) by (auto simp: sessions_ok_def state_of_def dget_iff_mem)
qed

lemma active_record_replaced:
  assumes "states_ok (st_states s)" and "dget n (sessions_of chat (st_states s)) = Some x"
    and "sr_chat_id x' = chat" and "sr_session_number x' = n" and "sr_updated_at x' = sr_updated_at x"
  shows "active_record chat (put_session x' s) = map_option (\<lambda>y. if sr_session_number y = n then x' else y) (active_record chat s)"
proof -
  obtain cs where cs: "dget chat (st_states s) = Some cs" using assms(2) by (cases "dget chat (st_states s)") (auto simp: state_of_def)
  then have st: "state_of chat (st_states s) = cs" by (simp add: state_of_def)
  let ?g = "\<lambda>y. if sr_session_number y = n then x' else y"
  have d: "dict_ok (cs_sessions cs)" and at: "dget n (cs_sessions cs) = Some x"
    and keyed: "\<forall>(k, y) \<in> set (cs_sessions cs). sr_session_number y = k"
    using states_ok_get [OF assms(1), of chat] assms(2) by (auto simp: st sessions_ok_def)
  have v: "dvals (dset n x' (cs_sessions cs)) = map ?g (dvals (cs_sessions cs))"
    using dvals_dset_keyed [OF d _ keyed, of n x'] at by simp
  have "\<forall>y \<in> set (dvals (cs_sessions cs)). sr_updated_at (?g y) = sr_updated_at y"
  proof
    fix y assume "y \<in> set (dvals (cs_sessions cs))"
    then obtain k where m: "(k, y) \<in> set (cs_sessions cs)" by auto
    with keyed have k: "sr_session_number y = k" by auto
    show "sr_updated_at (?g y) = sr_updated_at y"
    proof (cases "k = n")
      case True
      with m d at have "y = x" by (auto simp: dget_iff_mem [symmetric])
      with k True assms(5) show ?thesis by simp
    qed (simp add: k)
  qed
  then have "py_max_key sr_updated_at (map ?g (dvals (cs_sessions cs))) = map_option ?g (py_max_key sr_updated_at (dvals (cs_sessions cs)))"
    by (rule py_max_key_map)
  with v have "py_max_key sr_updated_at (dvals (dset n x' (cs_sessions cs))) = map_option ?g (py_max_key sr_updated_at (dvals (cs_sessions cs)))"
    by (simp del: map_map)
  then show ?thesis
    using assms(3,4) cs by (simp add: active_record_def put_session_def append_record_def set_session_def chat_state_of_def)
qed

lemma active_record_changed:
  assumes "active_record chat s = Some r" and "states_ok (st_states s)"
    and "sr_chat_id r' = chat" and "sr_session_number r' = sr_session_number r" and "sr_updated_at r' = sr_updated_at r"
  shows "active_record chat (put_session r' s) = Some r'"
  using active_record_replaced [OF assms(2) _ assms(3-5)] active_record_in [OF assms(1,2)] assms(1) by simp

lemma finite_names [simp]:
  "finite (default_enabled_names cfg)" "finite (opt_names o1)" "finite (default_active_skills cfg)" "finite (skills_of cfg r)"
  "finite (mcp_names_of cfg r)" "finite (enabled_or_default cfg x)"
  by (simp_all add: default_enabled_names_def opt_names_def default_active_skills_def skills_of_def mcp_names_of_def
      enabled_or_default_def split: option.split)

lemma set_default_mcp_names [simp]: "set (default_mcp_names cfg) = default_enabled_names cfg \<union> set (tc_plugin_mcp cfg)"
  by (simp add: default_mcp_names_def)

lemma set_active_mcp_names [simp]: "set (active_mcp_server_names cfg chat s) = mcp_names_of cfg (active_record chat s)"
  by (simp add: active_mcp_server_names_def)

lemma opt_names_Some [simp]: "opt_names (Some xs) = set xs"
  by (simp add: opt_names_def)

lemma drifted_iff:
  "mcp_record_drifted cfg chat (active_record chat s) s \<longleftrightarrow>
     (case Option.bind (active_record chat s) sr_enabled_mcp_servers of
        None \<Rightarrow> False | Some xs \<Rightarrow> sort xs \<noteq> py_sorted (mcp_names_of cfg (active_record chat s)))"
  by (simp add: mcp_record_drifted_def active_mcp_server_names_def sorted_sort_id split: option.split)

lemma mcp_enable_active:
  assumes "active_record chat s = Some r" and "states_ok (st_states s)"
  shows "active_record chat (fst (mcp_enable cfg hook chat name s)) =
     Some (r\<lparr>sr_enabled_mcp_servers := Some (py_sorted (insert (hook name) (mcp_names_of cfg (Some r)))),
             sr_disabled_mcp_servers := Some (py_sorted (opt_names (sr_disabled_mcp_servers r) - {hook name}))\<rparr>)"
  using active_record_changed [OF assms] active_record_in [OF assms] assms(1) by (simp add: mcp_enable_def Let_def)

lemma mcp_disable_active:
  assumes "active_record chat s = Some r" and "states_ok (st_states s)"
  shows "active_record chat (fst (mcp_disable cfg hook chat name s)) =
     Some (r\<lparr>sr_enabled_mcp_servers := Some (py_sorted (mcp_names_of cfg (Some r) - {hook name})),
             sr_disabled_mcp_servers := Some (py_sorted (insert (hook name) (opt_names (sr_disabled_mcp_servers r))))\<rparr>)"
  using active_record_changed [OF assms] active_record_in [OF assms] assms(1) by (simp add: mcp_disable_def Let_def)

text \<open>
  Switching a server takes effect at once, stays in force against the defaults, touches no other server, and is
  not taken for a drift of the session at the next turn.
\<close>

theorem switched_server_is_effective:
  assumes "active_record chat s = Some r" and "states_ok (st_states s)"
  shows "set (active_mcp_server_names cfg chat (fst (mcp_enable cfg hook chat name s)))
      = insert (hook name) (set (active_mcp_server_names cfg chat s))
    \<and> set (active_mcp_server_names cfg chat (fst (mcp_disable cfg hook chat name s)))
      = set (active_mcp_server_names cfg chat s) - {hook name}
    \<and> \<not> mcp_record_drifted cfg chat (active_record chat (fst (mcp_enable cfg hook chat name s))) (fst (mcp_enable cfg hook chat name s))
    \<and> \<not> mcp_record_drifted cfg chat (active_record chat (fst (mcp_disable cfg hook chat name s))) (fst (mcp_disable cfg hook chat name s))"
proof -
  have e: "mcp_names_of cfg (active_record chat (fst (mcp_enable cfg hook chat name s))) = insert (hook name) (mcp_names_of cfg (Some r))"
    unfolding mcp_enable_active [OF assms] by (auto simp: mcp_names_of_def)
  have d: "mcp_names_of cfg (active_record chat (fst (mcp_disable cfg hook chat name s))) = mcp_names_of cfg (Some r) - {hook name}"
    unfolding mcp_disable_active [OF assms] by (auto simp: mcp_names_of_def)
  have "\<not> mcp_record_drifted cfg chat (active_record chat (fst (mcp_enable cfg hook chat name s))) (fst (mcp_enable cfg hook chat name s))"
    unfolding drifted_iff e by (simp add: mcp_enable_active [OF assms] sorted_sort_id)
  moreover have "\<not> mcp_record_drifted cfg chat (active_record chat (fst (mcp_disable cfg hook chat name s))) (fst (mcp_disable cfg hook chat name s))"
    unfolding drifted_iff d by (simp add: mcp_disable_active [OF assms] sorted_sort_id)
  ultimately show ?thesis using e d assms(1) by simp
qed

text \<open>
  A chat whose skills have all been switched off: the next skill switched on brings the default skills back,
  although the record still lists them as switched off.
\<close>

theorem enabling_a_skill_revives_the_defaults:
  assumes "active_record chat s = Some r" and "states_ok (st_states s)"
    and "sr_enabled_skills r = Some []" and "d \<in> default_active_skills cfg" and "d \<noteq> hook name"
    and "d \<in> opt_names (sr_disabled_skills r)"
  shows "d \<notin> active_skill_names cfg [] chat s
    \<and> d \<in> active_skill_names cfg [] chat (fst (skill_enable cfg hook chat name s))
    \<and> (\<exists>r'. active_record chat (fst (skill_enable cfg hook chat name s)) = Some r' \<and> d \<in> opt_names (sr_disabled_skills r'))"
proof -
  have "active_record chat (fst (skill_enable cfg hook chat name s)) =
     Some (r\<lparr>sr_enabled_skills := Some (py_sorted (insert (hook name) (enabled_or_default cfg r))),
             sr_disabled_skills := Some (py_sorted (opt_names (sr_disabled_skills r) - {hook name}))\<rparr>)"
    using active_record_changed [OF assms(1,2)] active_record_in [OF assms(1,2)] assms(1)
    by (simp add: skill_enable_def Let_def)
  with assms show ?thesis by (simp add: active_skill_names_def skills_of_def enabled_or_default_def)
qed

subsection \<open>Placeholders\<close>

abbreviation brace :: "nat \<Rightarrow> bool" where
  "brace c \<equiv> c = 123 \<or> c = 125"

lemma format_plain: "\<not> list_ex brace s \<Longrightarrow> format_text p (s @ t) = s @ format_text p t"
  by (induction s) auto

lemma cut_brace_plain: "125 \<notin> set key \<Longrightarrow> cut_brace (key @ 125 # t) = Some (key, t)"
  by (induction key) auto

text \<open>
  A value is put in as it is: braces in it (in a chat id, say) are not placeholders; unknown placeholders stay.
\<close>

theorem format_replaces_once:
  assumes "\<not> list_ex brace pre" and "\<not> list_ex brace key" and "key \<noteq> []"
  shows "format_text p (pre @ 123 # key @ 125 # post) =
     pre @ (case placeholder_value p key of None \<Rightarrow> 123 # key @ [125] | Some v \<Rightarrow> v) @ format_text p post"
proof -
  have "125 \<notin> set key" "hd key \<noteq> 123" using assms(2,3) by (auto simp: list_ex_iff) 
  then show ?thesis
    using assms(3) by (cases key) (auto simp: format_plain [OF assms(1)] cut_brace_plain split: option.split)
qed

end
