(* ===== verification/SessionDirs.thy ===== *)
theory SessionDirs
  imports SessionStore
begin

section \<open>Session directories\<close>

text \<open>
  The directory part of \<open>src/src/diploid_agent/runtime/store.py\<close>: \<open>copy_session_dir\<close>,
  \<open>archive_active_session\<close> and \<open>clear_active_session\<close>, with the composition \<open>_resume_session\<close> of
  \<open>turn/session.py\<close> makes of them, and \<open>load_message_registry\<close>.  A directory maps the names of its items to
  files or directories; the archive, a directory \<open>.archive\<close> inside the chat's, is kept beside it.
\<close>

datatype node = File ustr | Dir "(ustr \<times> node) list"

type_synonym dir = "(ustr, node) dict"

record session_dirs =
  sd_active :: "dir option"  \<comment> \<open>None: the directory does not exist\<close>
  sd_archives :: "(int, dir) dict option"

definition CHAT_DURABLE_FILES :: "ustr list" where
  "CHAT_DURABLE_FILES =
     [u ''chat_transcript.jsonl'', u ''chat_events.jsonl'', u ''chat_MEMORY.md'', u ''chat_PROMOTED.md'', u ''chat_self_state.md'',
      u ''chat_open_items.jsonl'', u ''chat_body_state.json'', u ''hindsight-pending-retain.jsonl'']"

definition durable_file_names :: "ustr list \<Rightarrow> ustr list" where
  "durable_file_names plugin_files = CHAT_DURABLE_FILES @ plugin_files"

text \<open>\<open>Path(name).suffix == ".lock"\<close>.\<close>

definition lock_file :: "ustr \<Rightarrow> bool" where
  "lock_file name \<longleftrightarrow> length name > 5 \<and> suffix (u ''.lock'') name"

definition clean_target :: "ustr list \<Rightarrow> dir option \<Rightarrow> dir" where
  "clean_target durable target = (case target of None \<Rightarrow> [] | Some t \<Rightarrow> filter (\<lambda>p. fst p \<in> set durable) t)"

definition copy_items :: "ustr list \<Rightarrow> dir \<Rightarrow> dir \<Rightarrow> dir" where
  "copy_items durable source target =
     foldl (\<lambda>t (name, item). if name \<in> set durable \<or> lock_file name then t else dset name item t) target source"

text \<open>The target is cleaned first; a source that does not exist is an error after that.\<close>

definition copy_session_dir :: "ustr list \<Rightarrow> dir option \<Rightarrow> dir option \<Rightarrow> dir \<times> bool" where
  "copy_session_dir durable source target =
     (let t = clean_target durable target
      in case source of None \<Rightarrow> (t, False) | Some s \<Rightarrow> (copy_items durable s t, True))"

definition archives :: "session_dirs \<Rightarrow> (int, dir) dict" where
  "archives s = (case sd_archives s of None \<Rightarrow> [] | Some d \<Rightarrow> d)"

definition archive_active_session :: "ustr list \<Rightarrow> int \<Rightarrow> session_dirs \<Rightarrow> session_dirs" where
  "archive_active_session durable n s =
     (case sd_active s of
        None \<Rightarrow> s
      | Some a \<Rightarrow>
          if a = [] \<and> sd_archives s = None then s
          else s\<lparr>sd_archives := Some (dset n (fst (copy_session_dir durable (Some a) (dget n (archives s)))) (archives s))\<rparr>)"

definition clear_active_session :: "ustr list \<Rightarrow> session_dirs \<Rightarrow> session_dirs" where
  "clear_active_session durable s =
     s\<lparr>sd_active := Some (case sd_active s of
        None \<Rightarrow> []
      | Some a \<Rightarrow> filter (\<lambda>p. fst p \<in> set durable \<or> fst p = u ''.snapshots'' \<or> lock_file (fst p)) a)\<rparr>"

text \<open>Resuming session \<open>n\<close> while session \<open>m\<close> is active, as far as the directories go.\<close>

definition resume_dirs :: "ustr list \<Rightarrow> int option \<Rightarrow> int \<Rightarrow> session_dirs \<Rightarrow> session_dirs \<times> bool" where
  "resume_dirs durable m n s =
     (let s1 = (case m of None \<Rightarrow> s | Some k \<Rightarrow> archive_active_session durable k s);
          (a, ok) = copy_session_dir durable (dget n (archives s1)) (sd_active s1)
      in (s1\<lparr>sd_active := Some a\<rparr>, ok))"

lemma dget_copy_items:
  "dict_ok source \<Longrightarrow> dget name (copy_items durable source target) =
     (if name \<in> set durable \<or> lock_file name then dget name target
      else case dget name source of None \<Rightarrow> dget name target | Some i \<Rightarrow> Some i)"
  unfolding copy_items_def
proof (induction source arbitrary: target)
  case (Cons p source)
  obtain k i where p: "p = (k, i)" by force
  with Cons.prems have "dget k source = None" by (simp add: map_of_eq_None_iff)
  with Cons p show ?case by (auto split: option.split)
qed simp

lemma dget_clean_target:
  "dget name (clean_target durable target) =
     (if name \<in> set durable then (case target of None \<Rightarrow> None | Some t \<Rightarrow> dget name t) else None)"
proof -
  have "dget name (filter (\<lambda>p. fst p \<in> set durable) t) = (if name \<in> set durable then dget name t else None)" for t :: dir
    by (induction t) auto
  then show ?thesis by (simp add: clean_target_def split: option.split)
qed

lemma dget_copy:
  "dict_ok s \<Longrightarrow> dget name (fst (copy_session_dir durable (Some s) target)) =
     (if name \<in> set durable then (case target of None \<Rightarrow> None | Some t \<Rightarrow> dget name t)
      else if lock_file name then None else dget name s)"
  by (auto simp: copy_session_dir_def Let_def dget_copy_items dget_clean_target split: option.split)

lemma copy_items_ok: "dict_ok target \<Longrightarrow> dict_ok (copy_items durable source target)"
  unfolding copy_items_def by (induction source arbitrary: target) auto

lemma copy_ok: "(\<And>t. target = Some t \<Longrightarrow> dict_ok t) \<Longrightarrow> dict_ok (fst (copy_session_dir durable source target))"
  by (auto simp: copy_session_dir_def Let_def clean_target_def intro!: copy_items_ok dict_ok_filter split: option.split)


definition sample_dir :: dir where
  "sample_dir = [(u ''chat_MEMORY.md'', File (u ''old'')), (u ''notes.txt'', File (u ''x'')), (u ''a.lock'', File [])]"

definition sample_dirs :: session_dirs where
  "sample_dirs = \<lparr>sd_active = Some sample_dir, sd_archives = None\<rparr>"

definition later_dirs :: session_dirs where
  "later_dirs = (clear_active_session CHAT_DURABLE_FILES (archive_active_session CHAT_DURABLE_FILES 1 sample_dirs))
     \<lparr>sd_active := Some [(u ''chat_MEMORY.md'', File (u ''new'')), (u ''other.txt'', File (u ''y''))]\<rparr>"


text \<open>
  A session without an archive (its directory was empty when it was archived): resuming it removes every file
  of the active directory that is not durable before it fails.
\<close>

lemma resume_without_archive_wipes:
  "dget n (archives (archive_active_session durable k s)) = None \<Longrightarrow> sd_active s = Some b \<Longrightarrow>
   resume_dirs durable (Some k) n s =
     ((archive_active_session durable k s)\<lparr>sd_active := Some (filter (\<lambda>p. fst p \<in> set durable) b)\<rparr>, False)"
  by (auto simp: resume_dirs_def copy_session_dir_def clean_target_def archive_active_session_def archives_def Let_def
      split: option.splits)

text \<open>
  Clearing leaves the lock files of the active directory in place, copying an archive into it removes them.
\<close>

lemma resuming_unlinks_locks:
  assumes "lock_file name" and "name \<notin> set durable" and "sd_active s = Some b" and "dget name b \<noteq> None" and "dict_ok b"
  shows "(\<exists>c. sd_active (clear_active_session durable s) = Some c \<and> dget name c = dget name b)
    \<and> (\<forall>c. dget n (archives s) = Some d \<and> dict_ok d \<and> sd_active (fst (resume_dirs durable None n s)) = Some c \<longrightarrow> dget name c = None)"
  using assms
  by (auto simp: clear_active_session_def resume_dirs_def Let_def dget_filter dget_copy case_prod_unfold split: option.split)

subsection \<open>The registry of Telegram messages\<close>

text \<open>\<open>entry.get\<close> is looked up on whatever the line holds, outside the handler for malformed lines.\<close>

fun load_message_registry :: "json line list \<Rightarrow> (json, (ustr, json) dict) dict \<Rightarrow> py_exn + (json, (ustr, json) dict) dict" where
  "load_message_registry [] d = Inr d"
| "load_message_registry (Parsed (JObj e) # ls) d =
     load_message_registry ls (case dget (u ''message_id'') e of None \<Rightarrow> d | Some JNull \<Rightarrow> d | Some i \<Rightarrow> dset i e d)"
| "load_message_registry (Parsed _ # ls) d = Inl AttributeError"
| "load_message_registry (_ # ls) d = load_message_registry ls d"

lemma registry_last_wins:
  "load_message_registry ls d = Inr d' \<Longrightarrow> i \<noteq> JNull \<Longrightarrow> dget (u ''message_id'') e = Some i \<Longrightarrow>
   load_message_registry (ls @ [Parsed (JObj e)]) d = Inr (dset i e d')"
  by (induction ls d rule: load_message_registry.induct) (auto split: json.split)

end
