(* ===== verification/InstanceLock.thy ===== *)
theory InstanceLock
  imports SessionDirs
begin

section \<open>One instance per chat: the lock files\<close>

text \<open>
  \<open>src/src/diploid_agent/runtime/instance.py\<close> (\<open>InstanceManager\<close>) and \<open>safe_dir_name\<close> of \<open>_compat.py\<close> (on POSIX).
  The lock file of a chat is \<open>instance.lock\<close> in its directory.  A lock is held on the file's inode by the
  process that opened it, also when the name is unlinked; opening a name that does not exist makes a new inode.
  Whether a process is alive is a parameter; the heartbeat thread is the order of the heartbeats.
\<close>

definition safe_dir_name :: "ustr \<Rightarrow> ustr" where
  "safe_dir_name chat = map (\<lambda>c. if c = 47 then 95 else c) chat"

record lock_data =
  ld_pid :: int
  ld_instance :: ustr
  ld_heartbeat :: secs

record lock_files =
  lf_path :: "(ustr, nat) dict"  \<comment> \<open>the inode a directory's \<open>instance.lock\<close> names\<close>
  lf_content :: "(nat, lock_data) dict"  \<comment> \<open>an empty file has none\<close>
  lf_owner :: "(nat, int) dict"  \<comment> \<open>the process with the exclusive \<open>flock\<close>\<close>
  lf_next :: nat

record manager =
  im_pid :: int
  im_instance :: ustr
  im_ttl :: secs
  im_holder :: "(ustr, int) dict"  \<comment> \<open>the thread that holds a chat; its keys are \<open>_held\<close>\<close>
  im_fds :: "(ustr, nat) dict"

definition open_lock :: "ustr \<Rightarrow> lock_files \<Rightarrow> lock_files \<times> nat" where
  "open_lock chat fs =
     (case dget (safe_dir_name chat) (lf_path fs) of
        Some i \<Rightarrow> (fs, i)
      | None \<Rightarrow> (fs\<lparr>lf_path := dset (safe_dir_name chat) (lf_next fs) (lf_path fs),
                   lf_content := ddel (lf_next fs) (lf_content fs), lf_next := lf_next fs + 1\<rparr>, lf_next fs))"

definition write_lock :: "manager \<Rightarrow> secs \<Rightarrow> nat \<Rightarrow> lock_files \<Rightarrow> lock_files" where
  "write_lock m now i fs =
     fs\<lparr>lf_content := dset i \<lparr>ld_pid = im_pid m, ld_instance = im_instance m, ld_heartbeat = now\<rparr> (lf_content fs)\<rparr>"

definition read_lock :: "ustr \<Rightarrow> lock_files \<Rightarrow> lock_data option" where
  "read_lock chat fs = Option.bind (dget (safe_dir_name chat) (lf_path fs)) (\<lambda>i. dget i (lf_content fs))"

definition is_held :: "(int \<Rightarrow> bool) \<Rightarrow> secs \<Rightarrow> ustr \<Rightarrow> manager \<Rightarrow> lock_files \<Rightarrow> bool" where
  "is_held alive now chat m fs =
     (case read_lock chat fs of None \<Rightarrow> False | Some d \<Rightarrow> \<not> now - ld_heartbeat d > im_ttl m \<and> alive (ld_pid d))"

definition is_ours :: "ustr \<Rightarrow> manager \<Rightarrow> lock_files \<Rightarrow> bool" where
  "is_ours chat m fs = (case read_lock chat fs of None \<Rightarrow> False | Some d \<Rightarrow> ld_instance d = im_instance m)"

text \<open>The file names another live instance that has written it lately.\<close>

definition foreign_owner :: "(int \<Rightarrow> bool) \<Rightarrow> secs \<Rightarrow> manager \<Rightarrow> lock_data option \<Rightarrow> bool" where
  "foreign_owner alive now m d =
     (case d of
        None \<Rightarrow> False
      | Some x \<Rightarrow> ld_pid x \<noteq> im_pid m \<and> ld_instance x \<noteq> im_instance m \<and> alive (ld_pid x)
          \<and> now - ld_heartbeat x \<le> im_ttl m)"

definition acquire :: "(int \<Rightarrow> bool) \<Rightarrow> int \<Rightarrow> secs \<Rightarrow> ustr \<Rightarrow> lock_files \<times> manager \<Rightarrow> (lock_files \<times> manager) \<times> bool" where
  "acquire alive tid now chat fm = (case fm of (fs, m) \<Rightarrow>
     case dget chat (im_holder m) of
       Some t \<Rightarrow>
         if t = tid
         then ((case dget chat (im_fds m) of None \<Rightarrow> fs | Some i \<Rightarrow> write_lock m now i fs, m), True)
         else ((fs, m), False)
     | None \<Rightarrow>
         (case open_lock chat fs of
            (fs1, i) \<Rightarrow>
              if dget i (lf_owner fs1) \<noteq> None \<or> foreign_owner alive now m (dget i (lf_content fs1)) then ((fs1, m), False)
              else ((write_lock m now i (fs1\<lparr>lf_owner := dset i (im_pid m) (lf_owner fs1)\<rparr>),
                     m\<lparr>im_holder := dset chat tid (im_holder m), im_fds := dset chat i (im_fds m)\<rparr>), True)))"

text \<open>The caller is not compared with the thread that holds the chat.\<close>

definition release :: "ustr \<Rightarrow> lock_files \<times> manager \<Rightarrow> lock_files \<times> manager" where
  "release chat fm = (case fm of (fs, m) \<Rightarrow>
     ((case dget chat (im_fds m) of
         None \<Rightarrow> fs
       | Some i \<Rightarrow> fs\<lparr>lf_content := ddel i (lf_content fs), lf_owner := ddel i (lf_owner fs)\<rparr>),
      m\<lparr>im_holder := ddel chat (im_holder m), im_fds := ddel chat (im_fds m)\<rparr>))"

definition heartbeat :: "secs \<Rightarrow> lock_files \<times> manager \<Rightarrow> lock_files \<times> manager" where
  "heartbeat now fm = (case fm of (fs, m) \<Rightarrow> (foldl (\<lambda>fs i. write_lock m now i fs) fs (dvals (im_fds m)), m))"

subsection \<open>Several processes\<close>

record world =
  w_fs :: lock_files
  w_procs :: "(int, manager) dict"

definition new_manager :: "int \<Rightarrow> ustr \<Rightarrow> secs \<Rightarrow> manager" where
  "new_manager pid instance_id ttl = \<lparr>im_pid = pid, im_instance = instance_id, im_ttl = ttl, im_holder = [], im_fds = []\<rparr>"

definition put_proc :: "int \<Rightarrow> lock_files \<times> manager \<Rightarrow> world \<Rightarrow> world" where
  "put_proc p fm w = w\<lparr>w_fs := fst fm, w_procs := dset p (snd fm) (w_procs w)\<rparr>"

text \<open>A process starts, dies (its locks go with it), or one of its threads takes a step.\<close>

inductive world_step :: "world \<Rightarrow> world \<Rightarrow> bool" where
  w_start: "dget p (w_procs w) = None \<Longrightarrow> world_step w (w\<lparr>w_procs := dset p (new_manager p instance_id ttl) (w_procs w)\<rparr>)"
| w_exit: "world_step w (w\<lparr>w_fs := (w_fs w)\<lparr>lf_owner := filter (\<lambda>(i, q). q \<noteq> p) (lf_owner (w_fs w))\<rparr>, w_procs := ddel p (w_procs w)\<rparr>)"
| w_acquire: "dget p (w_procs w) = Some m \<Longrightarrow> world_step w (put_proc p (fst (acquire alive tid now chat (w_fs w, m))) w)"
| w_release: "dget p (w_procs w) = Some m \<Longrightarrow> world_step w (put_proc p (release chat (w_fs w, m)) w)"
| w_heartbeat: "dget p (w_procs w) = Some m \<Longrightarrow> world_step w (put_proc p (heartbeat now (w_fs w, m)) w)"

abbreviation world_steps :: "world \<Rightarrow> world \<Rightarrow> bool" where
  "world_steps \<equiv> world_step\<^sup>*\<^sup>*"

definition holds :: "int \<Rightarrow> ustr \<Rightarrow> world \<Rightarrow> bool" where
  "holds p chat w \<longleftrightarrow> (\<exists>m. dget p (w_procs w) = Some m \<and> dget chat (im_holder m) \<noteq> None)"

definition empty_world :: "lock_files \<Rightarrow> world" where
  "empty_world fs = \<lparr>w_fs = fs, w_procs = []\<rparr>"

definition files_ok :: "lock_files \<Rightarrow> bool" where
  "files_ok fs \<longleftrightarrow> dict_ok (lf_owner fs) \<and> (\<forall>d i. dget d (lf_path fs) = Some i \<longrightarrow> i < lf_next fs)
     \<and> (\<forall>i p. dget i (lf_owner fs) = Some p \<longrightarrow> i < lf_next fs)"

text \<open>What a manager holds, it has locked under the name the chat has.\<close>

definition manager_wf :: "int \<Rightarrow> manager \<Rightarrow> bool" where
  "manager_wf p m \<longleftrightarrow> im_pid m = p \<and> (\<forall>c. dget c (im_holder m) = None \<longleftrightarrow> dget c (im_fds m) = None)
     \<and> (\<forall>c c' i. dget c (im_fds m) = Some i \<longrightarrow> dget c' (im_fds m) = Some i \<longrightarrow> c = c')"

definition locked_by :: "int \<Rightarrow> lock_files \<Rightarrow> manager \<Rightarrow> bool" where
  "locked_by p fs m \<longleftrightarrow>
     (\<forall>c i. dget c (im_fds m) = Some i \<longrightarrow> dget (safe_dir_name c) (lf_path fs) = Some i \<and> dget i (lf_owner fs) = Some p)"

definition procs_ok :: "lock_files \<Rightarrow> (int, manager) dict \<Rightarrow> bool" where
  "procs_ok fs ps \<longleftrightarrow> (\<forall>p m. dget p ps = Some m \<longrightarrow> manager_wf p m \<and> locked_by p fs m)"

definition world_ok :: "world \<Rightarrow> bool" where
  "world_ok w \<longleftrightarrow> files_ok (w_fs w) \<and> procs_ok (w_fs w) (w_procs w)"

lemma write_lock_sel [simp]:
  "lf_path (write_lock m now i fs) = lf_path fs" "lf_owner (write_lock m now i fs) = lf_owner fs"
  "lf_next (write_lock m now i fs) = lf_next fs"
  by (simp_all add: write_lock_def)

lemma write_lock_ok [simp]:
  "files_ok (write_lock m now i fs) = files_ok fs" "procs_ok (write_lock m now i fs) ps = procs_ok fs ps"
  by (simp_all add: files_ok_def procs_ok_def locked_by_def)

lemma write_locks_ok [simp]:
  "files_ok (foldl (\<lambda>fs i. write_lock m now i fs) fs is) = files_ok fs"
  "procs_ok (foldl (\<lambda>fs i. write_lock m now i fs) fs is) ps = procs_ok fs ps"
  by (induction "is" arbitrary: fs) simp_all

lemma manager_wf_held: "manager_wf p m \<Longrightarrow> dget c (im_holder m) \<noteq> None \<longleftrightarrow> dget c (im_fds m) \<noteq> None"
  by (simp add: manager_wf_def)

lemma locked_byD: "locked_by p fs m \<Longrightarrow> dget c (im_fds m) = Some i \<Longrightarrow>
    dget (safe_dir_name c) (lf_path fs) = Some i \<and> dget i (lf_owner fs) = Some p"
  by (simp add: locked_by_def)

lemma procs_okD: "procs_ok fs ps \<Longrightarrow> dget p ps = Some m \<Longrightarrow> manager_wf p m \<and> locked_by p fs m"
  by (simp add: procs_ok_def)

lemma procs_ok_dset:
  "manager_wf p m \<Longrightarrow> locked_by p fs m \<Longrightarrow> (\<And>q n. q \<noteq> p \<Longrightarrow> dget q ps = Some n \<Longrightarrow> manager_wf q n \<and> locked_by q fs n) \<Longrightarrow>
   procs_ok fs (dset p m ps)"
  by (simp add: procs_ok_def)

lemma open_lock_ok:
  assumes "open_lock chat fs = (fs1, i)" and "files_ok fs"
  shows "files_ok fs1" "dget (safe_dir_name chat) (lf_path fs1) = Some i" "lf_owner fs1 = lf_owner fs" "i < lf_next fs1"
    "procs_ok fs ps \<Longrightarrow> procs_ok fs1 ps"
proof -
  have "files_ok fs1 \<and> dget (safe_dir_name chat) (lf_path fs1) = Some i \<and> lf_owner fs1 = lf_owner fs \<and> i < lf_next fs1
      \<and> (\<forall>d j. dget d (lf_path fs) = Some j \<longrightarrow> dget d (lf_path fs1) = Some j)"
  proof (cases "dget (safe_dir_name chat) (lf_path fs)")
    case None
    with assms(1) have "fs1 = fs\<lparr>lf_path := dset (safe_dir_name chat) (lf_next fs) (lf_path fs),
        lf_content := ddel (lf_next fs) (lf_content fs), lf_next := lf_next fs + 1\<rparr>"
      "i = lf_next fs" by (auto simp: open_lock_def)
    with None assms(2) show ?thesis by (simp add: files_ok_def) (metis less_SucI option.distinct(1))
  next
    case (Some j)
    with assms show ?thesis by (auto simp: open_lock_def files_ok_def)
  qed
  then show "files_ok fs1" "dget (safe_dir_name chat) (lf_path fs1) = Some i" "lf_owner fs1 = lf_owner fs" "i < lf_next fs1"
    "procs_ok fs ps \<Longrightarrow> procs_ok fs1 ps" by (simp_all add: procs_ok_def locked_by_def)
qed

lemma acquire_ok:
  assumes "world_ok w" and "dget p (w_procs w) = Some m"
  shows "world_ok (put_proc p (fst (acquire alive tid now chat (w_fs w, m))) w)"
proof -
  have f: "files_ok (w_fs w)" and ps: "procs_ok (w_fs w) (w_procs w)" using assms by (simp_all add: world_ok_def)
  note m = procs_okD [OF ps assms(2)]
  obtain fs1 i where o: "open_lock chat (w_fs w) = (fs1, i)" by force
  note o1 = open_lock_ok [OF o f]
  have same: "world_ok (put_proc p (fs, m) w)" if "files_ok fs" "procs_ok fs (w_procs w)" for fs
    using that procs_okD [OF that(2)] assms(2) by (simp add: world_ok_def put_proc_def procs_ok_dset)
  show ?thesis
  proof (cases "dget chat (im_holder m)")
    case (Some t)
    then have "\<exists>fs. fst (acquire alive tid now chat (w_fs w, m)) = (fs, m) \<and> files_ok fs \<and> procs_ok fs (w_procs w)"
      using f ps by (simp add: acquire_def split: option.split)
    then show ?thesis using same by metis
  next
    case None
    show ?thesis
    proof (cases "dget i (lf_owner fs1) \<noteq> None \<or> foreign_owner alive now m (dget i (lf_content fs1))")
      case True
      then have "acquire alive tid now chat (w_fs w, m) = ((fs1, m), False)" using None o by (simp add: acquire_def)
      with same [OF o1(1) o1(5) [OF ps]] show ?thesis by simp
    next
      case False
      let ?fs1 = "fs1\<lparr>lf_owner := dset i (im_pid m) (lf_owner fs1)\<rparr>"
      let ?m = "m\<lparr>im_holder := dset chat tid (im_holder m), im_fds := dset chat i (im_fds m)\<rparr>"
      have a: "acquire alive tid now chat (w_fs w, m) = ((write_lock m now i ?fs1, ?m), True)"
        using None o False by (simp add: acquire_def)
      have free: "dget i (lf_owner fs1) = None" using False by simp
      have "files_ok ?fs1" using o1(1,4) by (simp add: files_ok_def)
      have keep: "locked_by q ?fs1 n" if "locked_by q fs1 n" for q n
        using locked_byD [OF that] free unfolding locked_by_def by (metis dget_dset lock_files.select_convs(1,3) lock_files.surjective lock_files.update_convs(3) option.distinct(1))
      have other: "dget c (im_fds n) \<noteq> Some i" if "locked_by q fs1 n" for q n c
        using locked_byD [OF that, of c i] free by auto
      have m1: "manager_wf p m" "locked_by p fs1 m" using procs_okD [OF o1(5) [OF ps] assms(2)] by auto
      have "manager_wf p ?m" using m1 other [OF m1(2)] by (auto simp: manager_wf_def)
      moreover have "locked_by p ?fs1 ?m" using o1(2) m1 by (auto simp: locked_by_def manager_wf_def)
      ultimately have "procs_ok ?fs1 (dset p ?m (w_procs w))"
        using procs_okD [OF o1(5) [OF ps]] keep by (intro procs_ok_dset) auto
      with \<open>files_ok ?fs1\<close> show ?thesis unfolding a by (simp add: world_ok_def put_proc_def)
    qed
  qed
qed

lemma release_ok:
  assumes "world_ok w" and "dget p (w_procs w) = Some m"
  shows "world_ok (put_proc p (release chat (w_fs w, m)) w)"
proof -
  have f: "files_ok (w_fs w)" and ps: "procs_ok (w_fs w) (w_procs w)" using assms by (simp_all add: world_ok_def)
  note m = procs_okD [OF ps assms(2)]
  let ?m = "m\<lparr>im_holder := ddel chat (im_holder m), im_fds := ddel chat (im_fds m)\<rparr>"
  have wf: "manager_wf p ?m" using m by (simp add: manager_wf_def)
  show ?thesis
  proof (cases "dget chat (im_fds m)")
    case None
    have "locked_by p (w_fs w) ?m" using m by (simp add: locked_by_def)
    then have "procs_ok (w_fs w) (dset p ?m (w_procs w))" using wf procs_okD [OF ps] by (intro procs_ok_dset) auto
    then show ?thesis using None f by (simp add: release_def world_ok_def put_proc_def)
  next
    case (Some i)
    let ?fs = "(w_fs w)\<lparr>lf_content := ddel i (lf_content (w_fs w)), lf_owner := ddel i (lf_owner (w_fs w))\<rparr>"
    have i: "dget i (lf_owner (w_fs w)) = Some p" using m Some by (simp add: locked_by_def)
    have "files_ok ?fs" using f by (simp add: files_ok_def)
    have "locked_by p ?fs ?m" using m Some unfolding locked_by_def manager_wf_def by simp metis
    moreover have "locked_by q ?fs n" if "q \<noteq> p" "locked_by q (w_fs w) n" for q n
      using that i unfolding locked_by_def by simp (metis option.inject)
    ultimately have "procs_ok ?fs (dset p ?m (w_procs w))" using wf procs_okD [OF ps] by (intro procs_ok_dset) auto
    with \<open>files_ok ?fs\<close> show ?thesis using Some by (simp add: release_def world_ok_def put_proc_def)
  qed
qed

lemma world_step_ok: "world_step w w' \<Longrightarrow> world_ok w \<Longrightarrow> world_ok w'"
proof (induction rule: world_step.induct)
  case (w_start p w instance_id ttl)
  then show ?case using procs_okD
    by (auto simp: world_ok_def manager_wf_def locked_by_def new_manager_def intro!: procs_ok_dset)
next
  case (w_exit w p)
  then have f: "files_ok (w_fs w)" and ps: "procs_ok (w_fs w) (w_procs w)" by (simp_all add: world_ok_def)
  have own: "dget i (filter (\<lambda>(i, q). q \<noteq> p) (lf_owner (w_fs w))) =
      (case dget i (lf_owner (w_fs w)) of None \<Rightarrow> None | Some q \<Rightarrow> if q \<noteq> p then Some q else None)" for i
    using f by (simp add: files_ok_def dget_filter split: option.split)
  have "files_ok ((w_fs w)\<lparr>lf_owner := filter (\<lambda>(i, q). q \<noteq> p) (lf_owner (w_fs w))\<rparr>)"
    using f by (auto simp: files_ok_def own dict_ok_filter split: option.splits if_splits)
  moreover have "procs_ok ((w_fs w)\<lparr>lf_owner := filter (\<lambda>(i, q). q \<noteq> p) (lf_owner (w_fs w))\<rparr>) (ddel p (w_procs w))"
    using ps by (simp add: procs_ok_def locked_by_def own)
  ultimately show ?case by (simp add: world_ok_def)
next
  case (w_heartbeat p w m now)
  then have f: "files_ok (w_fs w)" and ps: "procs_ok (w_fs w) (w_procs w)" by (simp_all add: world_ok_def)
  have "procs_ok (w_fs w) (dset p m (w_procs w))" using procs_okD [OF ps] w_heartbeat(1) by (intro procs_ok_dset) auto
  with f show ?case by (simp add: heartbeat_def world_ok_def put_proc_def)
qed (simp_all add: acquire_ok release_ok)

lemma world_steps_ok: "world_steps w w' \<Longrightarrow> world_ok w \<Longrightarrow> world_ok w'"
  by (induction rule: rtranclp_induct) (auto dest: world_step_ok)

text \<open>
  Claim C12.  One instance per chat: whatever processes start, die, take and release locks and write
  heartbeats, in any order and with any view of who is alive, two of them never hold chats with the same
  directory; in one process neither do two chats with the same directory.
\<close>

theorem one_instance_per_chat:
  assumes "world_steps (empty_world fs) w" and "files_ok fs"
    and "holds p c w" and "holds q c' w" and "safe_dir_name c = safe_dir_name c'"
  shows "p = q \<and> c = c'"
proof -
  have "world_ok (empty_world fs)" using assms(2) by (simp add: world_ok_def empty_world_def procs_ok_def)
  with assms(1) have "world_ok w" by (rule world_steps_ok)
  then have ps: "procs_ok (w_fs w) (w_procs w)" by (simp add: world_ok_def)
  from assms(3,4) obtain m n where mn: "dget p (w_procs w) = Some m" "dget c (im_holder m) \<noteq> None"
    "dget q (w_procs w) = Some n" "dget c' (im_holder n) \<noteq> None" by (auto simp: holds_def)
  note ok = procs_okD [OF ps mn(1)] procs_okD [OF ps mn(3)]
  have "dget c (im_fds m) \<noteq> None" "dget c' (im_fds n) \<noteq> None" using mn(2,4) ok manager_wf_held by metis+
  then obtain i j where ij: "dget c (im_fds m) = Some i" "dget c' (im_fds n) = Some j" by auto
  have "i = j" "dget i (lf_owner (w_fs w)) = Some p" "dget j (lf_owner (w_fs w)) = Some q"
    using locked_byD [OF _ ij(1), of p "w_fs w"] locked_byD [OF _ ij(2), of q "w_fs w"] ok assms(5) by simp_all
  then have "p = q" "i = j" by simp_all
  with ok ij mn show ?thesis by (auto simp: manager_wf_def)
qed

definition no_files :: lock_files where
  "no_files = \<lparr>lf_path = [], lf_content = [], lf_owner = [], lf_next = 0\<rparr>"

definition held_world :: world where
  "held_world = (let w = \<lparr>w_fs = no_files, w_procs = [(7, new_manager 7 (u ''a'') 60)]\<rparr>
     in put_proc 7 (fst (acquire (\<lambda>_. True) 1 0 (u ''x/y'') (w_fs w, new_manager 7 (u ''a'') 60))) w)"

lemma held_world_reached: "world_steps (empty_world no_files) held_world"
proof -
  have "world_step (empty_world no_files) \<lparr>w_fs = no_files, w_procs = [(7, new_manager 7 (u ''a'') 60)]\<rparr>"
    using w_start [where p = 7 and w = "empty_world no_files" and instance_id = "u ''a''" and ttl = 60] by (simp add: empty_world_def)
  moreover have "world_step \<lparr>w_fs = no_files, w_procs = [(7, new_manager 7 (u ''a'') 60)]\<rparr> held_world"
    unfolding held_world_def Let_def by (rule w_acquire) simp
  ultimately show ?thesis by (simp add: converse_rtranclp_into_rtranclp)
qed

lemma held_world_holds: "holds 7 (u ''x/y'') held_world"
  by (simp add: holds_def held_world_def put_proc_def acquire_def open_lock_def no_files_def new_manager_def foreign_owner_def)

theorem one_instance_per_chat_witness: "(7 :: int) = 7 \<and> u ''x/y'' = u ''x/y''"
  by (rule one_instance_per_chat [OF held_world_reached _ held_world_holds held_world_holds])
    (simp_all add: files_ok_def no_files_def)

subsection \<open>Where the exclusion is lost\<close>

text \<open>What resuming a session does to the lock file of its chat (\<open>resuming_unlinks_locks\<close>).\<close>

definition unlink_lock :: "ustr \<Rightarrow> lock_files \<Rightarrow> lock_files" where
  "unlink_lock chat fs = fs\<lparr>lf_path := ddel (safe_dir_name chat) (lf_path fs)\<rparr>"

text \<open>
  Resuming a session lets a second instance in: the copy of the archive into the chat's directory
  unlinks \<open>instance.lock\<close> while the instance that resumes the session (a queued session operation runs under
  the lock) holds it; any other process then acquires the chat at once, on a new inode, although it is held.
\<close>

theorem resume_lets_second_instance_in:
  assumes "world_steps (empty_world fs) w" and "files_ok fs"
    and "holds p c w" and "dget q (w_procs w) = Some m" and "dget c (im_holder m) = None"
    and "acquire alive tid now c (unlink_lock c (w_fs w), m) = (fm, ok)"
  shows "p \<noteq> q \<and> ok \<and> holds p c (put_proc q fm w) \<and> holds q c (put_proc q fm w)"
proof -
  have "world_ok (empty_world fs)" using assms(2) by (simp add: world_ok_def empty_world_def procs_ok_def)
  with assms(1) have "world_ok w" by (rule world_steps_ok)
  then have "dget (lf_next (w_fs w)) (lf_owner (w_fs w)) = None" by (fastforce simp: world_ok_def files_ok_def)
  then have "ok \<and> dget c (im_holder (snd fm)) \<noteq> None"
    using assms(5,6) by (auto simp: acquire_def open_lock_def unlink_lock_def foreign_owner_def)
  with assms(3,4,5) show ?thesis by (auto simp: holds_def put_proc_def)
qed

definition two_world :: world where
  "two_world = held_world\<lparr>w_procs := dset 8 (new_manager 8 (u ''b'') 60) (w_procs held_world)\<rparr>"

lemma two_world_reached: "world_steps (empty_world no_files) two_world"
proof -
  have "world_step held_world two_world" unfolding two_world_def
    by (rule w_start) (simp add: held_world_def put_proc_def)
  with held_world_reached show ?thesis by (rule rtranclp.rtrancl_into_rtrancl)
qed

theorem resume_lets_second_instance_in_witness:
  "(7 :: int) \<noteq> 8 \<and> snd (acquire (\<lambda>_. True) 1 5 (u ''x/y'') (unlink_lock (u ''x/y'') (w_fs two_world), new_manager 8 (u ''b'') 60))
   \<and> holds 7 (u ''x/y'') (put_proc 8 (fst (acquire (\<lambda>_. True) 1 5 (u ''x/y'') (unlink_lock (u ''x/y'') (w_fs two_world), new_manager 8 (u ''b'') 60))) two_world)
   \<and> holds 8 (u ''x/y'') (put_proc 8 (fst (acquire (\<lambda>_. True) 1 5 (u ''x/y'') (unlink_lock (u ''x/y'') (w_fs two_world), new_manager 8 (u ''b'') 60))) two_world)"
proof (rule resume_lets_second_instance_in [OF two_world_reached, where m = "new_manager 8 (u ''b'') 60" and alive = "\<lambda>_. True" and tid = 1 and now = 5])
  show "holds 7 (u ''x/y'') two_world" using held_world_holds by (simp add: holds_def two_world_def)
qed (simp_all add: files_ok_def no_files_def two_world_def new_manager_def)

text \<open>
  Releasing twice drops somebody else's lock: a wake that continues a dispatch runs
  \<open>continue_turn\<close> under the lock it already holds, and both release it; if another thread acquires the chat
  between the two, the second release, which does not look at the holder, takes that thread's lock away, and
  a third acquisition succeeds while its turn runs.
\<close>

theorem second_release_drops_foreign_lock:
  assumes "acquire alive t2 now chat (release chat fm) = (fm2, True)"
    and "files_ok (fst fm)"
  shows "dget chat (im_holder (snd fm2)) = Some t2 \<and> snd (acquire alive t3 now' chat (release chat fm2))"
proof -
  obtain fs m where fm: "release chat fm = (fs, m)" by force
  then have none: "dget chat (im_holder m) = None" by (auto simp: release_def split: prod.splits)
  have fs: "files_ok fs" using fm assms(2) by (auto simp: release_def files_ok_def split: prod.splits option.splits if_splits)
  obtain fs1 i where o: "open_lock chat fs = (fs1, i)" by force
  note o1 = open_lock_ok [OF o fs]
  have free: "dget i (lf_owner fs1) = None" and
    fm2: "fm2 = (write_lock m now i (fs1\<lparr>lf_owner := dset i (im_pid m) (lf_owner fs1)\<rparr>),
        m\<lparr>im_holder := dset chat t2 (im_holder m), im_fds := dset chat i (im_fds m)\<rparr>)"
    using assms(1) fm none o by (auto simp: acquire_def split: if_splits)
  obtain fs3 m3 where r: "release chat fm2 = (fs3, m3)" by force
  then have "dget chat (im_holder m3) = None" "dget (safe_dir_name chat) (lf_path fs3) = Some i"
    "dget i (lf_owner fs3) = None" "dget i (lf_content fs3) = None"
    using o1(2) by (auto simp: release_def fm2)
  then have "snd (acquire alive t3 now' chat (fs3, m3))"
    by (simp add: acquire_def open_lock_def foreign_owner_def)
  with r fm2 show ?thesis by simp
qed

definition held_once :: "lock_files \<times> manager" where
  "held_once = fst (acquire (\<lambda>_. True) 1 0 (u ''c'') (no_files, new_manager 7 (u ''a'') 60))"

theorem second_release_drops_foreign_lock_witness:
  "dget (u ''c'') (im_holder (snd (fst (acquire (\<lambda>_. True) 2 1 (u ''c'') (release (u ''c'') held_once))))) = Some 2
   \<and> snd (acquire (\<lambda>_. True) 3 2 (u ''c'') (release (u ''c'') (fst (acquire (\<lambda>_. True) 2 1 (u ''c'') (release (u ''c'') held_once)))))"
  by (rule second_release_drops_foreign_lock [where fm = held_once and ?t2.0 = 2 and now = 1])
    (auto simp: held_once_def acquire_def release_def open_lock_def no_files_def new_manager_def foreign_owner_def
      files_ok_def write_lock_def)

text \<open>\<open>/\<close> becomes \<open>_\<close>: different chats can share a directory, and with it lock, transcript and memory.\<close>

lemma chats_share_a_directory: "safe_dir_name (u ''a/b'') = safe_dir_name (u ''a_b'') \<and> u ''a/b'' \<noteq> u ''a_b''"
  by (simp add: safe_dir_name_def) (simp add: u_def)

end
