(* ===== verification/Ingress.thy ===== *)
theory Ingress
  imports InstanceLock Delivery
begin

section \<open>Turn entry: messages, wakes and dispatch results\<close>

text \<open>
  \<open>src/src/diploid_agent/runtime/ingress.py\<close> (\<open>RuntimeIngress\<close>): \<open>process\<close>, \<open>continue_turn\<close> and \<open>wake\<close> take
  the chat's instance lock and drive the turn controller, which is the argument \<open>ctl\<close> (a function of the
  request and of the whole state, that may raise).  \<open>dumps\<close> is the JSON text of a payload, \<open>plan_msg\<close> the
  messages \<open>RuntimePlanning\<close> builds.  A keyword of a turn is the JSON value it has in a wake's payload.
\<close>

record turn_call =
  tc_chat :: ustr
  tc_message :: ustr
  tc_model :: json
  tc_reply_to :: json
  tc_reply_to_is_bot :: json
  tc_reply_to_id :: json
  tc_notify :: json
  tc_wake :: "wake_event option"

datatype turn_request = Process turn_call | Continue ustr ustr | Session_op ustr "(ustr, json) dict"

record ingress =
  ig_locks :: lock_files
  ig_manager :: manager
  ig_queue :: wake_queue
  ig_dispatches :: dispatch_store
  ig_outbox :: outbox

type_synonym controller = "turn_request \<Rightarrow> ingress \<Rightarrow> ingress \<times> (py_exn + chat_result)"

definition ig_acquire :: "(int \<Rightarrow> bool) \<Rightarrow> int \<Rightarrow> secs \<Rightarrow> ustr \<Rightarrow> ingress \<Rightarrow> ingress \<times> bool" where
  "ig_acquire alive tid now chat s =
     (case acquire alive tid now chat (ig_locks s, ig_manager s) of
        ((fs, m), ok) \<Rightarrow> (s\<lparr>ig_locks := fs, ig_manager := m\<rparr>, ok))"

definition ig_release :: "ustr \<Rightarrow> ingress \<Rightarrow> ingress" where
  "ig_release chat s =
     (case release chat (ig_locks s, ig_manager s) of (fs, m) \<Rightarrow> s\<lparr>ig_locks := fs, ig_manager := m\<rparr>)"

definition queued_payload :: "turn_call \<Rightarrow> (ustr, json) dict" where
  "queued_payload c =
     [(u ''user_message'', JStr (tc_message c)), (u ''model'', tc_model c), (u ''reply_to'', tc_reply_to c),
      (u ''reply_to_is_bot'', tc_reply_to_is_bot c), (u ''reply_to_message_id'', tc_reply_to_id c),
      (u ''notify'', JBool True), (u ''retry_after'', JFloat 2)]"

definition queued_wake :: "turn_call \<Rightarrow> secs \<Rightarrow> wake_event" where
  "queued_wake c now =
     \<lparr>we_id = [], we_chat_id = tc_chat c, we_reason = u ''user_request'', we_priority = 10, we_scheduled_at = now,
      we_payload = queued_payload c, we_silent = False, we_created_at = now, we_ready = True, we_attempts = 0,
      we_leased_until = None\<rparr>"

definition BUSY_REPLY :: chat_result where
  "BUSY_REPLY = (mk_result (u ''I'' @ [39] @ u ''ll get back to you in a moment.''))
     \<lparr>cr_notice := Some (u ''This chat is busy; your message was queued.'')\<rparr>"

definition with_reply_id :: "json \<Rightarrow> chat_result \<Rightarrow> chat_result" where
  "with_reply_id j r = (case j of JInt i \<Rightarrow> r\<lparr>cr_reply_to_message_id := Some i\<rparr> | _ \<Rightarrow> r)"

definition ingress_process ::
  "(int \<Rightarrow> bool) \<Rightarrow> ustr \<Rightarrow> controller \<Rightarrow> int \<Rightarrow> secs \<Rightarrow> turn_call \<Rightarrow> ingress \<Rightarrow> ingress \<times> (py_exn + chat_result)" where
  "ingress_process alive fresh ctl tid now c s =
     (case ig_acquire alive tid now (tc_chat c) s of
        (s1, False) \<Rightarrow>
          (case wake_enqueue fresh (queued_wake c now) (ig_queue s1) of
             (q, Inl e) \<Rightarrow> (s1\<lparr>ig_queue := q\<rparr>, Inl e)
           | (q, Inr ev) \<Rightarrow> (s1\<lparr>ig_queue := q\<rparr>, Inr BUSY_REPLY))
      | (s1, True) \<Rightarrow>
          (case ctl (Process c) s1 of
             (s2, r) \<Rightarrow> (ig_release (tc_chat c) s2, map_sum id (with_reply_id (tc_reply_to_id c)) r)))"

definition WAKE_BUSY :: ustr where
  "WAKE_BUSY = u ''Chat is busy; wake re-enqueued.''"

text \<open>
  \<open>ready\<close> runs before the \<open>try\<close>: when it raises, the lock is not released.
\<close>

definition continue_turn ::
  "(int \<Rightarrow> bool) \<Rightarrow> secs \<Rightarrow> controller \<Rightarrow> int \<Rightarrow> secs \<Rightarrow> ustr \<Rightarrow> ustr \<Rightarrow> ingress \<Rightarrow> ingress \<times> (py_exn + chat_result)" where
  "continue_turn alive retry_after ctl tid now i result s =
     (case dispatch_get i (ig_dispatches s) of
        None \<Rightarrow> (s, Inr (mk_result (u ''Unknown dispatch.'')))
      | Some d \<Rightarrow>
          let chat = dp_chat_id d; wake_id = u ''wake-'' @ i
          in case ig_acquire alive tid now chat s of
               (s1, False) \<Rightarrow> (s1, Inr (mk_result (u ''Another instance is currently handling this chat.'')))
             | (s1, True) \<Rightarrow>
                 (case wake_ready wake_id (Some now) now (ig_queue s1) of
                    (q, Inl e) \<Rightarrow> (s1\<lparr>ig_queue := q\<rparr>, Inl e)
                  | (q, Inr ev) \<Rightarrow>
                      (case ctl (Continue i result) (s1\<lparr>ig_queue := q\<rparr>) of
                         (s2, Inr r) \<Rightarrow>
                           if cr_turn_number r = None then (ig_release chat s2, Inr r)
                           else (case wake_complete wake_id (ig_queue s2) of
                                   (q2, Inr x) \<Rightarrow> (ig_release chat (s2\<lparr>ig_queue := q2\<rparr>), Inr r)
                                 | (q2, Inl e) \<Rightarrow>
                                     (ig_release chat (s2\<lparr>ig_queue := fst (wake_fail wake_id retry_after None now q2)\<rparr>), Inl e))
                       | (s2, Inl e) \<Rightarrow>
                           (ig_release chat (s2\<lparr>ig_queue := fst (wake_fail wake_id retry_after None now (ig_queue s2))\<rparr>), Inl e))))"

text \<open>The message of a wake that is no session operation.\<close>

definition wake_message :: "((ustr, json) dict \<Rightarrow> ustr) \<Rightarrow> (ustr \<Rightarrow> (ustr, json) dict \<Rightarrow> ustr) \<Rightarrow> ustr \<Rightarrow> (ustr, json) dict \<Rightarrow> ustr" where
  "wake_message dumps plan_msg reason payload =
     (if reason = u ''plan_task_update'' \<or> reason = u ''plan_completed'' then plan_msg reason payload
      else case dget (u ''user_message'') payload of
             Some (JStr m) \<Rightarrow> m
           | _ \<Rightarrow> u ''[system wake: '' @ reason @ u '']'' @ (if payload = [] then [] else 10 # dumps payload))"

definition get_or :: "json \<Rightarrow> string \<Rightarrow> (ustr, json) dict \<Rightarrow> json" where
  "get_or d k kvs = (case dget (u k) kvs of None \<Rightarrow> d | Some j \<Rightarrow> j)"

definition wake_call :: "((ustr, json) dict \<Rightarrow> ustr) \<Rightarrow> (ustr \<Rightarrow> (ustr, json) dict \<Rightarrow> ustr) \<Rightarrow> ustr \<Rightarrow> ustr \<Rightarrow> bool \<Rightarrow> wake_event option \<Rightarrow> turn_call" where
  "wake_call dumps plan_msg chat reason silent ev =
     (let p = (case ev of None \<Rightarrow> [] | Some e \<Rightarrow> we_payload e)
      in \<lparr>tc_chat = chat, tc_message = wake_message dumps plan_msg reason p, tc_model = get_or JNull ''model'' p,
          tc_reply_to = get_or JNull ''reply_to'' p, tc_reply_to_is_bot = get_or JNull ''reply_to_is_bot'' p,
          tc_reply_to_id = get_or JNull ''reply_to_message_id'' p, tc_notify = get_or (JBool (\<not> silent)) ''notify'' p,
          tc_wake = ev\<rparr>)"

text \<open>The dispatch a wake resumes, with the result to hand over (a text, as everything that writes one makes it).\<close>

definition wake_dispatch :: "ustr \<Rightarrow> (ustr, json) dict \<Rightarrow> dispatch_store \<Rightarrow> (ustr \<times> ustr) option" where
  "wake_dispatch reason p ds =
     (if reason \<noteq> u ''dispatch'' then None
      else case dget (u ''dispatch_id'') p of
             Some (JStr i) \<Rightarrow>
               (case dispatch_get i ds of
                  None \<Rightarrow> None
                | Some d \<Rightarrow>
                    if dp_status d = D_COMPLETED then None
                    else Some (i, case dget (u ''result'') p of
                                    Some (JStr r) \<Rightarrow> r
                                  | _ \<Rightarrow> (case dp_result d of None \<Rightarrow> [] | Some r \<Rightarrow> r)))
           | _ \<Rightarrow> None)"

text \<open>With the lock held; the caller releases it in every case.\<close>

definition wake_locked ::
  "(int \<Rightarrow> bool) \<Rightarrow> (nat \<Rightarrow> bool) \<Rightarrow> outbox_config \<Rightarrow> secs \<Rightarrow> ((ustr, json) dict \<Rightarrow> ustr) \<Rightarrow> (ustr \<Rightarrow> (ustr, json) dict \<Rightarrow> ustr) \<Rightarrow> controller \<Rightarrow> int \<Rightarrow> secs \<Rightarrow>
   ustr \<Rightarrow> ustr \<Rightarrow> bool \<Rightarrow> wake_event option \<Rightarrow> ingress \<Rightarrow> ingress \<times> (py_exn + chat_result)" where
  "wake_locked alive isdigit cfg retry_after dumps plan_msg ctl tid now chat reason silent ev s =
     (let p = (case ev of None \<Rightarrow> [] | Some e \<Rightarrow> we_payload e)
      in if reason = u ''session_op''
         then (case ctl (Session_op chat p) s of
                 (s1, Inl e) \<Rightarrow> (s1, Inl e)
               | (s1, Inr r) \<Rightarrow>
                   if cr_reply r = WAKE_BUSY then (s1, Inr r)
                   else (if cr_reply r \<noteq> [] \<or> (case cr_notice r of None \<Rightarrow> False | Some n \<Rightarrow> n \<noteq> [])
                         then s1\<lparr>ig_outbox := deliver_chat_result isdigit cfg chat r (log_result_event cfg chat r (ig_outbox s1))\<rparr>
                         else s1, Inr (mk_result [])))
         else (case wake_dispatch reason p (ig_dispatches s) of
                 Some (i, result) \<Rightarrow> continue_turn alive retry_after ctl tid now i result s
               | None \<Rightarrow>
                   (case ctl (Process (wake_call dumps plan_msg chat reason silent ev)) s of
                      (s1, r) \<Rightarrow> (s1, map_sum id (with_reply_id (tc_reply_to_id (wake_call dumps plan_msg chat reason silent ev))) r))))"

definition ingress_wake ::
  "(int \<Rightarrow> bool) \<Rightarrow> (nat \<Rightarrow> bool) \<Rightarrow> outbox_config \<Rightarrow> secs \<Rightarrow> ((ustr, json) dict \<Rightarrow> ustr) \<Rightarrow> (ustr \<Rightarrow> (ustr, json) dict \<Rightarrow> ustr) \<Rightarrow> controller \<Rightarrow> int \<Rightarrow> secs \<Rightarrow>
   ustr \<Rightarrow> ustr option \<Rightarrow> ustr option \<Rightarrow> bool option \<Rightarrow> ingress \<Rightarrow> ingress \<times> (py_exn + chat_result)" where
  "ingress_wake alive isdigit cfg retry_after dumps plan_msg ctl tid now chat0 event_id reason0 silent0 s0 =
     (let (s, found) = (case event_id of
            None \<Rightarrow> (s0, Inr None)
          | Some i \<Rightarrow> (case wake_get i (ig_queue s0) of (q, r) \<Rightarrow> (s0\<lparr>ig_queue := q\<rparr>, r)))
      in case found of
           Inl e \<Rightarrow> (s, Inl e)
         | Inr ev \<Rightarrow>
             if event_id \<noteq> None \<and> ev = None then (s, Inr (mk_result (u ''Unknown or already completed wake event.'')))
             else
               let chat = (case ev of None \<Rightarrow> chat0 | Some e \<Rightarrow> we_chat_id e);
                   reason1 = (case ev of None \<Rightarrow> reason0 | Some e \<Rightarrow> Some (we_reason e));
                   reason = (case reason1 of None \<Rightarrow> u ''user_request'' | Some r \<Rightarrow> if r = [] then u ''user_request'' else r);
                   silent = (case silent0 of Some b \<Rightarrow> b | None \<Rightarrow> (case ev of None \<Rightarrow> False | Some e \<Rightarrow> we_silent e))
               in case ig_acquire alive tid now chat s of
                    (s1, False) \<Rightarrow> (s1, Inr (mk_result WAKE_BUSY))
                  | (s1, True) \<Rightarrow>
                      (case wake_locked alive isdigit cfg retry_after dumps plan_msg ctl tid now chat reason silent ev s1 of
                         (s2, r) \<Rightarrow> (ig_release chat s2, r)))"

subsection \<open>A queued message is replayed\<close>

lemma wake_call_queued:
  "we_payload e = queued_payload c \<Longrightarrow>
   wake_call dumps plan_msg (tc_chat c) (u ''user_request'') silent (Some e) = c\<lparr>tc_notify := JBool True, tc_wake := Some e\<rparr>"
  by (simp add: wake_call_def wake_message_def queued_payload_def get_or_def)

lemma no_dispatch: "reason \<noteq> u ''dispatch'' \<Longrightarrow> wake_dispatch reason p ds = None"
  by (simp add: wake_dispatch_def)

lemma queued_sanitized:
  "no_surrogates (JObj (queued_payload c)) \<Longrightarrow> keys_distinct (JObj (queued_payload c)) \<Longrightarrow> sanitize_dict (queued_payload c) = queued_payload c"
  using sanitize_json_value_id [of "JObj (queued_payload c)"] unfolding sanitize_JObj by blast

definition replayed :: "ustr \<Rightarrow> turn_call \<Rightarrow> secs \<Rightarrow> wake_event" where
  "replayed fresh c now = (queued_wake c now)\<lparr>we_id := fresh\<rparr>"

lemma busy_message_queued:
  assumes "wake_load (wq_file (ig_queue s)) = Inr d" and "fresh \<noteq> []"
    and "no_surrogates (JObj (queued_payload c))" and "keys_distinct (JObj (queued_payload c))"
    and "ig_acquire alive tid now (tc_chat c) s = (s1, False)"
  shows "snd (ingress_process alive fresh ctl tid now c s) = Inr BUSY_REPLY
    \<and> wake_load (wq_file (ig_queue (fst (ingress_process alive fresh ctl tid now c s)))) = Inr (dset fresh (replayed fresh c now) d)"
proof -
  have q: "ig_queue s1 = ig_queue s" using assms(5) by (auto simp: ig_acquire_def split: prod.splits)
  have e: "enqueue_event fresh (queued_wake c now) = replayed fresh c now"
    using queued_sanitized [OF assms(3,4)] by (simp add: enqueue_event_def replayed_def queued_wake_def)
  have ok: "queue_ok (dset fresh (replayed fresh c now) d)"
    using wake_load_ok [OF assms(1)] by (intro queue_ok_dset) (simp_all add: replayed_def)
  have i: "we_id (replayed fresh c now) = fresh" by (simp add: replayed_def)
  show ?thesis using assms(1,5) q
    by (simp add: ingress_process_def wake_enqueue_def e wake_transaction_loaded enqueue_body_def i wake_load_save [OF ok])
qed

text \<open>
  Claim C16.  A message sent to a busy chat is not lost: it is answered at once and kept as an event that is due
  immediately; and when that event (claimed by the timer or not) is woken and the chat is free, the turn
  controller is called with the same message, model and reply references as the message came with, to be
  announced, and the lock taken for it is released whatever the turn does.
\<close>

theorem busy_message_is_replayed:
  assumes "wake_load (wq_file (ig_queue s)) = Inr d" and "fresh \<noteq> []"
    and "no_surrogates (JObj (queued_payload c))" and "keys_distinct (JObj (queued_payload c))"
    and "snd (ig_acquire alive tid now (tc_chat c) s) = False"
    and "wake_load (wq_file (ig_queue s2)) = Inr d2" and "dget fresh d2 = Some ev"
    and "ev = replayed fresh c now \<or> ev = lease t (replayed fresh c now)"
    and "ig_acquire alive tid2 now2 (tc_chat c)
           (s2\<lparr>ig_queue := \<lparr>wq_file = wake_save d2, wq_in_memory = d2\<rparr>\<rparr>) = (s3, True)"
  shows "snd (ingress_process alive fresh ctl tid now c s) = Inr BUSY_REPLY
    \<and> (\<exists>d1. wake_load (wq_file (ig_queue (fst (ingress_process alive fresh ctl tid now c s)))) = Inr d1
          \<and> fresh \<in> we_id ` set (snd (pop_due_body now l d1)))
    \<and> ingress_wake alive isdigit cfg ra dumps plan_msg ctl tid2 now2 chat0 (Some fresh) None None s2 =
        (case ctl (Process (c\<lparr>tc_notify := JBool True, tc_wake := Some ev\<rparr>)) s3 of
           (s4, r) \<Rightarrow> (ig_release (tc_chat c) s4, map_sum id (with_reply_id (tc_reply_to_id c)) r))"
proof -
  obtain s1 where s1: "ig_acquire alive tid now (tc_chat c) s = (s1, False)" using assms(5) by (metis prod.collapse)
  note b = busy_message_queued [OF assms(1-4) s1, of ctl]
  let ?d1 = "dset fresh (replayed fresh c now) d"
  have "queue_ok ?d1" using wake_load_ok [OF assms(1)] by (intro queue_ok_dset) (simp_all add: replayed_def)
  then have "fresh \<in> we_id ` set (snd (pop_due_body now l ?d1))"
    by (subst pop_due_ids) (auto simp: due_def unleased_def replayed_def queued_wake_def)
  moreover have ev: "we_chat_id ev = tc_chat c" "we_reason ev = u ''user_request''" "we_payload ev = queued_payload c" "\<not> we_silent ev"
    using assms(8) by (auto simp: replayed_def queued_wake_def lease_def)
  have "wake_call dumps plan_msg (tc_chat c) (u ''user_request'') False (Some ev) = c\<lparr>tc_notify := JBool True, tc_wake := Some ev\<rparr>"
    by (rule wake_call_queued [OF ev(3)])
  then have "ingress_wake alive isdigit cfg ra dumps plan_msg ctl tid2 now2 chat0 (Some fresh) None None s2 =
        (case ctl (Process (c\<lparr>tc_notify := JBool True, tc_wake := Some ev\<rparr>)) s3 of
           (s4, r) \<Rightarrow> (ig_release (tc_chat c) s4, map_sum id (with_reply_id (tc_reply_to_id c)) r))"
    using assms(7,9) ev
    by (simp add: ingress_wake_def wake_get_def wake_transaction_loaded [OF assms(6)] get_body_def wake_locked_def
        no_dispatch case_prod_unfold Let_def)
  ultimately show ?thesis using b by blast
qed

text \<open>A wake that continues a dispatch no longer holds the chat when the wake itself releases it.\<close>

lemma inner_release_opens_window:
  assumes "wake_dispatch reason (case ev of None \<Rightarrow> [] | Some e \<Rightarrow> we_payload e) (ig_dispatches s) = Some (i, r)"
    and "dispatch_get i (ig_dispatches s) = Some x" and "dp_chat_id x = chat"
    and "ig_acquire alive tid now chat s = (s1, True)" and "snd (wake_ready (u ''wake-'' @ i) (Some now) now (ig_queue s1)) = Inr w"
    and "reason \<noteq> u ''session_op''"
  shows "dget chat (im_holder (ig_manager (fst (wake_locked alive isdigit cfg ra dumps plan_msg ctl tid now chat reason silent ev s)))) = None"
proof -
  have "dget chat (im_holder (ig_manager (ig_release chat s'))) = None" for s'
    by (auto simp: ig_release_def release_def split: prod.splits)
  with assms show ?thesis
    by (auto simp: wake_locked_def continue_turn_def Let_def case_prod_unfold split: sum.splits)
qed

text \<open>A queue that cannot be read makes \<open>continue_turn\<close> raise with the lock still held.\<close>

lemma unreadable_queue_leaks_lock:
  assumes "dispatch_get i (ig_dispatches s) = Some x" and "ig_acquire alive tid now (dp_chat_id x) s = (s1, True)"
    and "wake_load (wq_file (ig_queue s1)) = Inl e" and "dget (dp_chat_id x) (im_holder (ig_manager s)) = None"
  shows "snd (continue_turn alive ra ctl tid now i r s) = Inl e
    \<and> dget (dp_chat_id x) (im_holder (ig_manager (fst (continue_turn alive ra ctl tid now i r s)))) = Some tid"
proof -
  have "dget (dp_chat_id x) (im_holder (ig_manager s1)) = Some tid"
    using assms(2,4) by (auto simp: ig_acquire_def acquire_def split: prod.splits if_splits option.splits)
  moreover have "wake_ready (u ''wake-'' @ i) (Some now) now (ig_queue s1) = (ig_queue s1, Inl e)"
    using assms(3) by (simp add: wake_ready_def wake_transaction_def)
  ultimately show ?thesis using assms(1,2) by (simp add: continue_turn_def Let_def)
qed

definition sample_call :: turn_call where
  "sample_call = \<lparr>tc_chat = u ''a'', tc_message = u ''hello'', tc_model = JNull, tc_reply_to = JNull, tc_reply_to_is_bot = JNull,
     tc_reply_to_id = JInt 5, tc_notify = JBool True, tc_wake = None\<rparr>"

definition sample_state :: "(ustr, int) dict \<Rightarrow> events \<Rightarrow> ingress" where
  "sample_state held d = \<lparr>ig_locks = no_files, ig_manager = (new_manager 7 (u ''i'') 60)\<lparr>im_holder := held\<rparr>,
     ig_queue = \<lparr>wq_file = wake_save d, wq_in_memory = []\<rparr>, ig_dispatches = \<lparr>ds_items = [], ds_file = None\<rparr>,
     ig_outbox = \<lparr>ob_queue = [], ob_logged = [], ob_sent = []\<rparr>\<rparr>"

abbreviation sample_events :: events where
  "sample_events \<equiv> [(u ''w'', replayed (u ''w'') sample_call 3)]"

theorem busy_message_is_replayed_witness:
  "snd (ingress_process (\<lambda>_. True) (u ''w'') (\<lambda>r s. (s, Inr (mk_result []))) 2 3 sample_call (sample_state [(u ''a'', 1)] [])) = Inr BUSY_REPLY
   \<and> snd (ingress_wake (\<lambda>_. True) (\<lambda>_. False) mirror_config 5 (\<lambda>_. []) (\<lambda>_ _. []) (\<lambda>r s. (s, Inr (mk_result []))) 2 9 [] (Some (u ''w'')) None None
        (sample_state [] sample_events)) = Inr ((mk_result [])\<lparr>cr_reply_to_message_id := Some 5\<rparr>)"
proof -
  have ok: "queue_ok sample_events" by (simp add: queue_ok_def keyed_ok_def replayed_def)
  obtain s3 where s3: "ig_acquire (\<lambda>_. True) 2 9 (tc_chat sample_call)
      ((sample_state [] sample_events)\<lparr>ig_queue := \<lparr>wq_file = wake_save sample_events, wq_in_memory = sample_events\<rparr>\<rparr>) = (s3, True)"
    by (simp add: ig_acquire_def acquire_def open_lock_def sample_state_def new_manager_def no_files_def foreign_owner_def)
  have clean: "no_surrogates (JObj (queued_payload sample_call))"
    by (auto simp: queued_payload_def sample_call_def is_surrogate_def list_all_iff dest!: u_code_point)
  have busy: "snd (ig_acquire (\<lambda>_. True) 2 3 (tc_chat sample_call) (sample_state [(u ''a'', 1)] [])) = False"
    by (simp add: ig_acquire_def acquire_def sample_state_def sample_call_def)
  have l1: "wake_load (wq_file (ig_queue (sample_state [(u ''a'', 1)] []))) = Inr []"
    by (simp add: sample_state_def wake_load_def wake_save_def jsonl_save_def)
  have l2: "wake_load (wq_file (ig_queue (sample_state [] sample_events))) = Inr sample_events"
    by (simp add: sample_state_def wake_load_save [OF ok])
  have keys: "keys_distinct (JObj (queued_payload sample_call))"
    by (simp add: queued_payload_def sample_call_def dict_ok_def)
  have ne: "u ''w'' \<noteq> []" and at: "dget (u ''w'') sample_events = Some (replayed (u ''w'') sample_call 3)" by simp_all
  note r = busy_message_is_replayed [where ctl = "\<lambda>r s. (s, Inr (mk_result []))" and isdigit = "\<lambda>_. False" and cfg = mirror_config
      and ra = 5 and dumps = "\<lambda>_. []" and plan_msg = "\<lambda>_ _. []" and ?chat0.0 = "[]" and l = 1, OF l1 ne clean keys busy l2 at disjI1 s3]
  have "tc_reply_to_id sample_call = JInt 5" by (simp add: sample_call_def)
  with r show ?thesis by (simp add: with_reply_id_def)
qed

end
