(* ===== verification/SessionOps.thy ===== *)
theory SessionOps
  imports McpSkills Ingress
begin

section \<open>Session operations\<close>

text \<open>
  \<open>src/src/diploid_agent/turn/session.py\<close> (\<open>TurnSession\<close>): the gate that keeps turns and session operations of a
  chat apart, the operation parked as a wake behind a running turn, \<open>run_session_op\<close> of \<open>turn/controller.py\<close>, and
  the four operations (new session, model switch, resume, branch) with \<open>_create_record\<close>,
  \<open>_start_new_session\<close> and \<open>_check_chat_memory_transition\<close> of \<open>runtime/prompts.py\<close>.  The engine, the prompt
  builder and the gate hooks of plugins are arguments (\<open>session_env\<close>); an engine call may raise, and what has been
  done before stays done.  While an operation runs, \<open>_session_ops\<close> keeps every other turn and operation of the
  chat out, so it is one step.
\<close>

subsection \<open>State\<close>

record recorded_turn =
  rd_chat :: ustr
  rd_message :: ustr
  rd_reply :: ustr
  rd_model :: ustr
  rd_session :: int
  rd_turn :: int
  rd_notice :: "ustr option"

record runtime =
  rt_draining :: bool
  rt_turns :: "ustr list"         \<comment> \<open>chats with an active turn\<close>
  rt_ops :: "ustr list"           \<comment> \<open>chats with a session operation in flight\<close>
  rt_queue :: "wake_queue option"
  rt_store :: chat_store
  rt_dirs :: "ustr \<Rightarrow> session_dirs"
  rt_skills :: "(ustr, ustr set) dict"
  rt_recorded :: "recorded_turn list"
  rt_notes :: "(ustr \<times> ustr) list"

record start_ctx =
  sc_chat :: ustr
  sc_kind :: ustr
  sc_user_message :: ustr
  sc_model :: "ustr option"
  sc_session_number :: int
  sc_old_model :: "ustr option"
  sc_skill_names :: "ustr set option"
  sc_mcp_servers :: "rendered_server list option"

record prompt_ctx =
  pc_prompt :: ustr
  pc_notice :: "ustr option"
  pc_model :: "ustr option"
  pc_persona_exceeded :: bool
  pc_chat_exceeded :: bool

record turn_result =
  tr_reply :: ustr
  tr_session_id :: "ustr option"
  tr_model :: "ustr option"
  tr_usage :: "(ustr, json) dict option"

record session_env =
  se_tools :: tool_config
  se_durable :: "ustr list"
  se_prune :: prune_config
  se_default_model :: ustr
  se_persona :: ustr
  se_resume_enabled :: bool
  se_chat_dir :: "ustr \<Rightarrow> ustr"
  se_before_start :: "start_ctx \<Rightarrow> chat_result + start_ctx"
  se_build_first :: "runtime \<Rightarrow> ustr \<Rightarrow> ustr \<Rightarrow> session_record option \<Rightarrow> ustr \<Rightarrow> ustr set option \<Rightarrow> prompt_ctx"
  se_build_follow_up :: "runtime \<Rightarrow> ustr \<Rightarrow> ustr \<Rightarrow> session_record \<Rightarrow> ustr set \<Rightarrow> prompt_ctx"
  se_sync_skills :: "ustr set \<Rightarrow> dir \<Rightarrow> dir"
  se_start :: "ustr \<Rightarrow> ustr \<Rightarrow> rendered_server list \<Rightarrow> py_exn + turn_result"
  se_prompt :: "ustr \<Rightarrow> ustr \<Rightarrow> ustr \<Rightarrow> py_exn + turn_result"
  se_resume :: "ustr \<Rightarrow> ustr \<Rightarrow> rendered_server list \<Rightarrow> py_exn + ustr option"
  se_alive :: "ustr \<Rightarrow> py_exn + bool"
  se_set_model :: "ustr \<Rightarrow> ustr \<Rightarrow> ustr + ustr option"  \<comment> \<open>left: the text of the exception\<close>
  se_memory_cap :: int
  se_memory_file :: "ustr \<Rightarrow> (ustr \<times> nat) option"  \<comment> \<open>path and length of the chat's memory, when it exists\<close>
  se_transition :: "ustr option \<Rightarrow> session_record \<Rightarrow> bool \<times> ustr option"

definition opt_or :: "ustr option \<Rightarrow> ustr \<Rightarrow> ustr" where
  "opt_or o1 d = (case o1 of None \<Rightarrow> d | Some x \<Rightarrow> if x = [] then d else x)"

definition current_model :: "session_env \<Rightarrow> session_record option \<Rightarrow> ustr" where
  "current_model env r = (case r of None \<Rightarrow> se_default_model env | Some x \<Rightarrow> sr_model x)"

definition skill_names :: "session_env \<Rightarrow> ustr \<Rightarrow> runtime \<Rightarrow> ustr set" where
  "skill_names env chat rt = active_skill_names (se_tools env) (rt_skills rt) chat (rt_store rt)"

definition server_names :: "session_env \<Rightarrow> ustr \<Rightarrow> runtime \<Rightarrow> ustr list" where
  "server_names env chat rt = active_mcp_server_names (se_tools env) chat (rt_store rt)"

definition servers_named :: "session_env \<Rightarrow> ustr \<Rightarrow> ustr list \<Rightarrow> rendered_server list" where
  "servers_named env chat names = enabled_servers (se_tools env) (se_chat_dir env) chat names"

definition put_dirs :: "ustr \<Rightarrow> session_dirs \<Rightarrow> runtime \<Rightarrow> runtime" where
  "put_dirs chat d rt = rt\<lparr>rt_dirs := (rt_dirs rt)(chat := d)\<rparr>"

definition put_record :: "session_record \<Rightarrow> runtime \<Rightarrow> runtime" where
  "put_record r rt = rt\<lparr>rt_store := set_session r (rt_store rt)\<rparr>"

definition write_record :: "session_record \<Rightarrow> runtime \<Rightarrow> runtime" where
  "write_record r rt = rt\<lparr>rt_store := append_record r (rt_store rt)\<rparr>"

subsection \<open>Gate and parked operations\<close>

datatype session_op = Op_new "ustr option" | Op_switch ustr bool | Op_resume int | Op_branch int

definition op_label :: "session_op \<Rightarrow> ustr" where
  "op_label op =
     (case op of
        Op_new m \<Rightarrow> u ''New session''
      | Op_switch m b \<Rightarrow> u ''Switch to model `'' @ m @ u ''`''
      | Op_resume n \<Rightarrow> u ''Resume of session '' @ str_of_int n
      | Op_branch n \<Rightarrow> u ''Branch of session '' @ str_of_int n)"

definition op_dict :: "session_op \<Rightarrow> (ustr, json) dict" where
  "op_dict op =
     (case op of
        Op_new m \<Rightarrow> [(u ''op'', JStr (u ''new'')), (u ''model'', jopt JStr m), (u ''label'', JStr (op_label op))]
      | Op_switch m b \<Rightarrow> [(u ''op'', JStr (u ''switch_model'')), (u ''model'', JStr m), (u ''in_place'', JBool b), (u ''label'', JStr (op_label op))]
      | Op_resume n \<Rightarrow> [(u ''op'', JStr (u ''resume'')), (u ''session_number'', JInt n), (u ''label'', JStr (op_label op))]
      | Op_branch n \<Rightarrow> [(u ''op'', JStr (u ''branch'')), (u ''session_number'', JInt n), (u ''label'', JStr (op_label op))])"

definition busy_reply :: chat_result where
  "busy_reply = (mk_result (u ''A turn or session operation is in progress for this chat.''))
     \<lparr>cr_notice := Some (u ''Wait for it to finish, then retry.'')\<rparr>"

definition parked_wake :: "ustr \<Rightarrow> session_op \<Rightarrow> secs \<Rightarrow> wake_event" where
  "parked_wake chat op now =
     \<lparr>we_id = [], we_chat_id = chat, we_reason = u ''session_op'', we_priority = 10, we_scheduled_at = now,
      we_payload = op_dict op @ [(u ''retry_after'', JFloat 2)], we_silent = True, we_created_at = now, we_ready = True,
      we_attempts = 0, we_leased_until = None\<rparr>"

definition queue_session_op :: "ustr \<Rightarrow> ustr \<Rightarrow> session_op \<Rightarrow> secs \<Rightarrow> runtime \<Rightarrow> runtime \<times> (py_exn + chat_result)" where
  "queue_session_op fresh chat op now rt =
     (case rt_queue rt of
        None \<Rightarrow> (rt, Inr busy_reply)
      | Some q \<Rightarrow>
          (case wake_pending (Some chat) None q of
             (q1, Inl e) \<Rightarrow> (rt\<lparr>rt_queue := Some q1\<rparr>, Inl e)
           | (q1, Inr evs) \<Rightarrow>
               if list_ex (\<lambda>e. we_reason e = u ''session_op'') evs
               then (rt\<lparr>rt_queue := Some q1\<rparr>,
                     Inr ((mk_result (u ''A session operation is already queued for this chat.''))
                       \<lparr>cr_notice := Some (u ''It will run when the current turn finishes.'')\<rparr>))
               else (case wake_enqueue fresh (parked_wake chat op now) q1 of
                       (q2, Inl e) \<Rightarrow> (rt\<lparr>rt_queue := Some q2\<rparr>, Inl e)
                     | (q2, Inr ev) \<Rightarrow> (rt\<lparr>rt_queue := Some q2\<rparr>,
                         Inr ((mk_result (op_label op @ u '' queued '' @ [8212] @ u '' it will run when the current turn finishes.''))
                           \<lparr>cr_notice := Some (u ''The session operation was parked behind the active turn.'')\<rparr>)))))"

definition chat_busy :: "ustr \<Rightarrow> runtime \<Rightarrow> bool" where
  "chat_busy chat rt \<longleftrightarrow> chat \<in> set (rt_turns rt) \<or> chat \<in> set (rt_ops rt)"

text \<open>\<open>None\<close>: the gate is open.\<close>

definition session_op_busy ::
  "ustr \<Rightarrow> ustr \<Rightarrow> session_op \<Rightarrow> bool \<Rightarrow> secs \<Rightarrow> runtime \<Rightarrow> (runtime \<times> (py_exn + chat_result)) option" where
  "session_op_busy fresh chat op queue_on_busy now rt =
     (if \<not> chat_busy chat rt then None
      else if queue_on_busy then Some (queue_session_op fresh chat op now rt)
      else Some (rt, Inr busy_reply))"

definition hold_session_op :: "ustr \<Rightarrow> (runtime \<Rightarrow> runtime \<times> 'r) \<Rightarrow> runtime \<Rightarrow> runtime \<times> 'r" where
  "hold_session_op chat body rt =
     (case body (rt\<lparr>rt_ops := rt_ops rt @ [chat]\<rparr>) of (rt', r) \<Rightarrow> (rt'\<lparr>rt_ops := filter (\<lambda>c. c \<noteq> chat) (rt_ops rt')\<rparr>, r))"

subsection \<open>Records and notices\<close>

definition create_record ::
  "session_env \<Rightarrow> secs \<Rightarrow> ustr \<Rightarrow> int \<Rightarrow> ustr \<Rightarrow> ustr \<Rightarrow> prompt_ctx \<Rightarrow> int option \<Rightarrow> ustr option \<Rightarrow> session_record" where
  "create_record env now chat n sid model pctx parent label =
     blank_session\<lparr>sr_chat_id := chat, sr_session_number := n, sr_session_id := sid, sr_model := model, sr_persona := se_persona env,
       sr_cwd := se_chat_dir env chat, sr_created_at := now, sr_updated_at := now, sr_turn_number := 0, sr_label := label,
       sr_parent := parent, sr_persona_memory_exceeded := pc_persona_exceeded pctx, sr_chat_memory_exceeded := pc_chat_exceeded pctx\<rparr>"

definition exceeded_notice :: "ustr \<Rightarrow> nat \<Rightarrow> int \<Rightarrow> ustr" where
  "exceeded_notice path len cap =
     u ''Chat memory ('' @ path @ u '') has grown beyond the context budget ('' @ str_of_nat len @ u '' > '' @ str_of_int cap @
     u '' characters). Older content is still saved but is not loaded. You can ask me to read and prune it.''"

text \<open>The record's flag is set, then a change of it may become a notice, which a plugin can replace or suppress.\<close>

definition check_chat_memory_transition :: "session_env \<Rightarrow> session_record \<Rightarrow> session_record \<times> ustr option" where
  "check_chat_memory_transition env r =
     (if se_memory_cap env = 0 then (r, None)
      else case se_memory_file env (sr_chat_id r) of
             None \<Rightarrow> (r, None)
           | Some (path, len) \<Rightarrow>
               let exceeded = (int len > se_memory_cap env);
                   r' = r\<lparr>sr_chat_memory_exceeded := exceeded\<rparr>;
                   dflt = (if exceeded then Some (exceeded_notice path len (se_memory_cap env)) else None)
               in if sr_chat_memory_exceeded r = exceeded then (r', None)
                  else case se_transition env dflt r' of
                         (suppress_it, notice) \<Rightarrow>
                           if suppress_it
                           then (r', case notice of None \<Rightarrow> None | Some n \<Rightarrow> if n \<noteq> [] \<and> notice \<noteq> dflt then notice else None)
                           else (r', case notice of None \<Rightarrow> dflt | Some n \<Rightarrow> if n = [] then dflt else notice))"

definition join_transition :: "ustr option \<Rightarrow> ustr option \<Rightarrow> ustr option" where
  "join_transition notice t =
     (case t of
        None \<Rightarrow> notice
      | Some x \<Rightarrow> if x = [] then notice else case notice of None \<Rightarrow> Some x | Some n \<Rightarrow> Some (n @ [10, 10] @ x))"

definition finalize_session_activation ::
  "session_env \<Rightarrow> secs \<Rightarrow> session_record \<Rightarrow> ustr \<Rightarrow> ustr \<Rightarrow> ustr \<Rightarrow> ustr option \<Rightarrow> runtime \<Rightarrow> runtime \<times> (py_exn + chat_result)" where
  "finalize_session_activation env fin r0 reply system_message opening notice rt =
     (let r1 = (fst (consume_turn_number r0))\<lparr>sr_updated_at := fin\<rparr>;
          (r2, transition) = check_chat_memory_transition env r1;
          rt1 = rt\<lparr>rt_recorded := rt_recorded rt @ [\<lparr>rd_chat = sr_chat_id r1, rd_message = u ''[system: '' @ system_message @ u '']'',
                     rd_reply = reply, rd_model = sr_model r1, rd_session = sr_session_number r1, rd_turn = sr_turn_number r1,
                     rd_notice = notice\<rparr>]\<rparr>;
          rt2 = write_record r2 (put_record r2 rt1);
          rt3 = rt2\<lparr>rt_store := prune_and_compact (se_prune env) fin (sr_chat_id r2) (rt_store rt2)\<rparr>
      in (rt3, Inr ((mk_result (opening @ [10, 10] @ py_strip reply))
           \<lparr>cr_notice := join_transition notice transition, cr_session_id := Some (sr_session_id r2),
            cr_session_number := Some (sr_session_number r2), cr_turn_number := Some (sr_turn_number r2)\<rparr>)))"

text \<open>\<open>_start_new_session\<close>; a result without a session id is an \<open>AcpError\<close> (a \<open>RuntimeError\<close>).\<close>

definition start_new_session ::
  "session_env \<Rightarrow> ustr \<Rightarrow> ustr \<Rightarrow> ustr \<Rightarrow> rendered_server list \<Rightarrow> ustr set \<Rightarrow> runtime \<Rightarrow> runtime \<times> (py_exn + turn_result \<times> ustr)" where
  "start_new_session env chat prompt model servers names rt =
     (let d = rt_dirs rt chat;
          rt1 = put_dirs chat (d\<lparr>sd_active := Some (se_sync_skills env (if names = {} then skill_names env chat rt else names)
                  (case sd_active d of None \<Rightarrow> [] | Some a \<Rightarrow> a))\<rparr>) rt
      in case se_start env prompt model (if servers = [] then active_mcp_servers (se_tools env) (se_chat_dir env) chat (rt_store rt) else servers) of
           Inl e \<Rightarrow> (rt1, Inl e)
         | Inr res \<Rightarrow> (case tr_session_id res of None \<Rightarrow> (rt1, Inl RuntimeError) | Some sid \<Rightarrow> (rt1, Inr (res, sid))))"

subsection \<open>A fresh session\<close>

definition ACTIVATION :: ustr where
  "ACTIVATION = u ''Continue the conversation as your true self. Acknowledge that you are ready to continue. '' @
     u ''Do not claim to know the name of the model serving you. Do not sign your reply.''"

definition CONTINUE :: ustr where
  "CONTINUE = u ''Continue the conversation as your true self.''"

definition first_metrics :: "ustr \<Rightarrow> (ustr, json) dict option \<Rightarrow> (ustr, json) dict option" where
  "first_metrics prompt usage =
     (case usage of
        None \<Rightarrow> None
      | Some us \<Rightarrow>
          if us = [] then None
          else Some [(u ''input_tokens'', if truthy_opt (dget (u ''inputTokens'') us) then get_or JNull ''inputTokens'' us
                                         else get_or (JInt 0) ''input_tokens'' us),
                     (u ''prompt_chars'', JInt (int (length prompt)))])"

definition archive_if :: "session_env \<Rightarrow> ustr \<Rightarrow> session_record option \<Rightarrow> runtime \<Rightarrow> runtime" where
  "archive_if env chat r rt =
     (case r of None \<Rightarrow> rt | Some x \<Rightarrow> put_dirs chat (archive_active_session (se_durable env) (sr_session_number x) (rt_dirs rt chat)) rt)"

definition take_number :: "ustr \<Rightarrow> runtime \<Rightarrow> runtime \<times> int" where
  "take_number chat rt = (case next_session_number chat (rt_store rt) of (st, n) \<Rightarrow> (rt\<lparr>rt_store := st\<rparr>, n))"

definition servers_or_active :: "session_env \<Rightarrow> ustr \<Rightarrow> runtime \<Rightarrow> rendered_server list option \<Rightarrow> rendered_server list" where
  "servers_or_active env chat rt o1 =
     (case o1 of None \<Rightarrow> active_mcp_servers (se_tools env) (se_chat_dir env) chat (rt_store rt)
      | Some xs \<Rightarrow> if xs = [] then active_mcp_servers (se_tools env) (se_chat_dir env) chat (rt_store rt) else xs)"

definition skills_or :: "ustr set option \<Rightarrow> ustr set \<Rightarrow> ustr set" where
  "skills_or o1 d = (case o1 of None \<Rightarrow> d | Some x \<Rightarrow> if x = {} then d else x)"

text \<open>The record of the fresh session.\<close>

definition fresh_record ::
  "session_env \<Rightarrow> secs \<Rightarrow> ustr \<Rightarrow> int \<Rightarrow> ustr \<Rightarrow> ustr \<Rightarrow> ustr \<Rightarrow> prompt_ctx \<Rightarrow> turn_result \<Rightarrow> session_record option \<Rightarrow>
   (ustr, bool) dict option \<Rightarrow> runtime \<Rightarrow> session_record" where
  "fresh_record env now chat n label sid model pctx res old overrides rt =
     (create_record env now chat n sid model pctx None (Some label))
       \<lparr>sr_enabled_mcp_servers := Some (server_names env chat rt),
        sr_disabled_mcp_servers := (case old of None \<Rightarrow> None | Some r \<Rightarrow> Some (case sr_disabled_mcp_servers r of None \<Rightarrow> [] | Some xs \<Rightarrow> xs)),
        sr_enabled_skills := Some (py_sorted (skill_names env chat rt)),
        sr_first_turn_metrics := first_metrics (pc_prompt pctx) (tr_usage res),
        sr_plugin_overrides := (case overrides of Some ov \<Rightarrow> Some ov | None \<Rightarrow> (case old of None \<Rightarrow> None | Some r \<Rightarrow> sr_plugin_overrides r))\<rparr>"

definition start_fresh_session ::
  "session_env \<Rightarrow> secs \<Rightarrow> secs \<Rightarrow> ustr \<Rightarrow> ustr \<Rightarrow> ustr \<Rightarrow> ustr \<Rightarrow> ustr \<Rightarrow> ustr \<Rightarrow> ustr option \<Rightarrow> bool \<Rightarrow> (ustr, bool) dict option \<Rightarrow>
   runtime \<Rightarrow> runtime \<times> (py_exn + chat_result)" where
  "start_fresh_session env now fin chat desired kind label system_message opening old_model clear overrides rt =
     (let r = active_record chat (rt_store rt);
          cur = current_model env r
      in if r \<noteq> None \<and> desired = cur \<and> kind = u ''switch_model''
         then (rt, Inr (mk_result (u ''Already using model `'' @ desired @ u ''` for this chat.'')))
         else
           let rt1 = archive_if env chat r rt;
               rt2 = (if clear then put_dirs chat (clear_active_session (se_durable env) (rt_dirs rt1 chat)) rt1 else rt1);
               (rt3, n) = take_number chat rt2
           in case se_before_start env
                     \<lparr>sc_chat = chat, sc_kind = kind, sc_user_message = ACTIVATION, sc_model = Some (if desired = [] then cur else desired),
                      sc_session_number = n, sc_old_model = old_model, sc_skill_names = Some (skill_names env chat rt3),
                      sc_mcp_servers = Some (active_mcp_servers (se_tools env) (se_chat_dir env) chat (rt_store rt3))\<rparr> of
                Inl result \<Rightarrow> (rt3, Inr result)
              | Inr ctx \<Rightarrow>
                  let use1 = opt_or (sc_model ctx) (if desired = [] then cur else desired);
                      pctx = se_build_first env rt3 chat (sc_user_message ctx) r use1 (sc_skill_names ctx);
                      use2 = opt_or (pc_model pctx) use1
                  in case start_new_session env chat (pc_prompt pctx) use2 (servers_or_active env chat rt3 (sc_mcp_servers ctx))
                            (skills_or (sc_skill_names ctx) (skill_names env chat rt3)) rt3 of
                       (rt4, Inl e) \<Rightarrow> (rt4, Inl e)
                     | (rt4, Inr (res, sid)) \<Rightarrow>
                         let rec1 = fresh_record env now chat n label sid (opt_or (tr_model res) use2) pctx res r overrides rt4
                         in finalize_session_activation env fin rec1 (tr_reply res) system_message opening (pc_notice pctx) (put_record rec1 rt4))"

definition new_session ::
  "session_env \<Rightarrow> ustr \<Rightarrow> secs \<Rightarrow> secs \<Rightarrow> ustr \<Rightarrow> ustr option \<Rightarrow> bool \<Rightarrow> runtime \<Rightarrow> runtime \<times> (py_exn + chat_result)" where
  "new_session env fresh now fin chat model queue_on_busy rt =
     (case session_op_busy fresh chat (Op_new model) queue_on_busy now rt of
        Some out \<Rightarrow> out
      | None \<Rightarrow>
          hold_session_op chat (\<lambda>rt.
            let r = active_record chat (rt_store rt)
            in start_fresh_session env now fin chat (opt_or model (current_model env r)) (u ''new'') (u ''new session'')
                 (u ''new session started'') (u ''New session started.'') None True (Option.bind r sr_plugin_overrides) rt) rt)"

subsection \<open>Switching the model\<close>

definition normalize_model :: "ustr \<Rightarrow> ustr" where
  "normalize_model m = map (\<lambda>c. if c = 46 then 45 else c) m"

text \<open>
  \<open>changed\<close> says whether the active record is another one when the call returns (the code compares identities).
\<close>

definition switch_model_in_place ::
  "session_env \<Rightarrow> secs \<Rightarrow> bool \<Rightarrow> ustr \<Rightarrow> session_record \<Rightarrow> ustr \<Rightarrow> ustr \<Rightarrow> runtime \<Rightarrow> runtime \<times> (py_exn + chat_result)" where
  "switch_model_in_place env fin changed chat r model cur rt =
     (let desired = normalize_model model
      in if desired = normalize_model cur then (rt, Inr (mk_result (u ''Already using model `'' @ desired @ u ''` for this chat.'')))
         else case se_set_model env (sr_session_id r) desired of
                Inl text \<Rightarrow> (rt, Inr ((mk_result (u ''Could not switch to `'' @ desired @ u ''` in place: '' @ text))
                  \<lparr>cr_notice := Some (u ''The live session'' @ [39] @ u ''s model state may be inconsistent; '' @
                      u ''retry the switch or use a fresh-session model switch.'')\<rparr>))
              | Inr applied \<Rightarrow>
                  if changed
                  then (rt, Inr ((mk_result (u ''Applied `'' @ opt_or applied desired @ u ''`, but the active session changed mid-switch.''))
                    \<lparr>cr_notice := Some (u ''Retry the model switch to update the current session.'')\<rparr>))
                  else
                    let r' = r\<lparr>sr_model := opt_or applied desired, sr_updated_at := fin\<rparr>;
                        rt1 = write_record r' (put_record r' rt)
                    in (rt1\<lparr>rt_notes := rt_notes rt1 @ [(chat, u ''[model switched to '' @ sr_model r' @ u '' in place]'')]\<rparr>,
                        Inr ((mk_result (u ''Now running on model `'' @ sr_model r' @ u ''` (same session).''))
                          \<lparr>cr_session_id := Some (sr_session_id r'), cr_session_number := Some (sr_session_number r'),
                           cr_turn_number := Some (sr_turn_number r')\<rparr>)))"

definition switch_model ::
  "session_env \<Rightarrow> ustr \<Rightarrow> secs \<Rightarrow> secs \<Rightarrow> bool \<Rightarrow> ustr \<Rightarrow> ustr \<Rightarrow> bool \<Rightarrow> bool \<Rightarrow> runtime \<Rightarrow> runtime \<times> (py_exn + chat_result)" where
  "switch_model env fresh now fin changed chat model in_place queue_on_busy rt =
     (if rt_draining rt
      then (rt, Inr ((mk_result (u ''The service is draining for a restart; please retry in a moment.''))
        \<lparr>cr_notice := Some (u ''Restart in progress; the model was not switched.'')\<rparr>))
      else case session_op_busy fresh chat (Op_switch model in_place) queue_on_busy now rt of
        Some out \<Rightarrow> out
      | None \<Rightarrow>
          hold_session_op chat (\<lambda>rt.
            let r = active_record chat (rt_store rt); cur = current_model env r
            in case r of
                 Some x \<Rightarrow>
                   if in_place \<and> sr_session_id x \<noteq> [] then switch_model_in_place env fin changed chat x model cur rt
                   else start_fresh_session env now fin chat model (u ''switch_model'') (u ''switched to '' @ model)
                          (u ''switched to model '' @ model) (u ''Now running on model `'' @ model @ u ''`.'') (Some cur) False None rt
               | None \<Rightarrow>
                   start_fresh_session env now fin chat model (u ''switch_model'') (u ''switched to '' @ model)
                     (u ''switched to model '' @ model) (u ''Now running on model `'' @ model @ u ''`.'') (Some cur) False None rt) rt)"

subsection \<open>Resuming and branching\<close>

definition can_resume_record :: "session_record \<Rightarrow> ustr set \<Rightarrow> bool" where
  "can_resume_record r expected \<longleftrightarrow>
     sr_session_id r \<noteq> [] \<and> sr_last_stop_reason r \<noteq> Some (u ''timeout'')
     \<and> (case sr_enabled_skills r of None \<Rightarrow> True | Some xs \<Rightarrow> sort xs = py_sorted expected)"

definition mcp_names_or_default :: "session_env \<Rightarrow> session_record \<Rightarrow> ustr list" where
  "mcp_names_or_default env r = (case sr_enabled_mcp_servers r of None \<Rightarrow> default_mcp_names (se_tools env) | Some xs \<Rightarrow> xs)"

definition source_skills :: "session_env \<Rightarrow> ustr \<Rightarrow> runtime \<Rightarrow> session_record \<Rightarrow> ustr set" where
  "source_skills env chat rt r = (case sr_enabled_skills r of None \<Rightarrow> skill_names env chat rt | Some xs \<Rightarrow> set xs)"

definition sync_active :: "session_env \<Rightarrow> ustr \<Rightarrow> ustr set \<Rightarrow> runtime \<Rightarrow> runtime" where
  "sync_active env chat names rt =
     (let d = rt_dirs rt chat
      in put_dirs chat (d\<lparr>sd_active := map_option (se_sync_skills env names) (sd_active d)\<rparr>) rt)"

text \<open>Archiving the active session and copying the source's archive into its place.\<close>

definition swap_dirs :: "session_env \<Rightarrow> ustr \<Rightarrow> session_record option \<Rightarrow> int \<Rightarrow> runtime \<Rightarrow> runtime \<times> bool" where
  "swap_dirs env chat active n rt =
     (case resume_dirs (se_durable env) (map_option sr_session_number active) n (rt_dirs rt chat) of
        (d, ok) \<Rightarrow> (put_dirs chat d rt, ok))"

definition nonempty_id :: "ustr option \<Rightarrow> ustr option" where
  "nonempty_id o1 = (case o1 of None \<Rightarrow> None | Some x \<Rightarrow> if x = [] then None else Some x)"

text \<open>A refused or failed resume counts as none.\<close>

definition try_resume :: "session_env \<Rightarrow> session_record \<Rightarrow> ustr \<Rightarrow> rendered_server list \<Rightarrow> ustr option" where
  "try_resume env r model servers =
     (case se_resume env (sr_session_id r) model servers of Inl e \<Rightarrow> None | Inr o1 \<Rightarrow> nonempty_id o1)"

definition probe_alive :: "session_env \<Rightarrow> session_record \<Rightarrow> ustr set \<Rightarrow> bool" where
  "probe_alive env r names \<longleftrightarrow>
     can_resume_record r names \<and> (case se_alive env (sr_session_id r) of Inl e \<Rightarrow> False | Inr b \<Rightarrow> b)"

definition taken_over :: "session_env \<Rightarrow> secs \<Rightarrow> ustr \<Rightarrow> ustr list \<Rightarrow> ustr set \<Rightarrow> session_record \<Rightarrow> session_record" where
  "taken_over env fin chat mcp names r =
     r\<lparr>sr_updated_at := fin, sr_cwd := se_chat_dir env chat, sr_enabled_mcp_servers := Some mcp, sr_enabled_skills := Some (py_sorted names)\<rparr>"

definition with_flags :: "prompt_ctx \<Rightarrow> session_record \<Rightarrow> session_record" where
  "with_flags pctx r = r\<lparr>sr_chat_memory_exceeded := pc_chat_exceeded pctx, sr_persona_memory_exceeded := pc_persona_exceeded pctx\<rparr>"

definition reserve_and_write :: "session_record \<Rightarrow> runtime \<Rightarrow> runtime \<times> session_record" where
  "reserve_and_write r rt = (let r' = fst (reserve_turn_number r) in (write_record r' (put_record r' rt), r'))"

definition resume_ctx :: "session_env \<Rightarrow> ustr \<Rightarrow> ustr \<Rightarrow> session_record \<Rightarrow> int \<Rightarrow> ustr list \<Rightarrow> ustr set \<Rightarrow> start_ctx" where
  "resume_ctx env kind chat r n mcp names =
     \<lparr>sc_chat = chat, sc_kind = kind, sc_user_message = CONTINUE, sc_model = Some (sr_model r), sc_session_number = n, sc_old_model = None,
      sc_skill_names = Some names, sc_mcp_servers = Some (servers_named env chat mcp)\<rparr>"

definition resumed_reply ::
  "session_env \<Rightarrow> secs \<Rightarrow> session_record \<Rightarrow> int \<Rightarrow> ustr \<Rightarrow> runtime \<Rightarrow> runtime \<times> (py_exn + chat_result)" where
  "resumed_reply env fin r n reply rt =
     finalize_session_activation env fin r reply (u ''resumed session'') (u ''Resumed session '' @ str_of_int n @ u ''.'') None rt"

text \<open>The ACP session was resumed: a follow-up prompt on it.\<close>

definition resume_on_session ::
  "session_env \<Rightarrow> secs \<Rightarrow> ustr \<Rightarrow> session_record \<Rightarrow> int \<Rightarrow> ustr \<Rightarrow> ustr list \<Rightarrow> ustr set \<Rightarrow> runtime \<Rightarrow> runtime \<times> (py_exn + chat_result)" where
  "resume_on_session env fin chat source n sid mcp names rt =
     (case se_before_start env (resume_ctx env (u ''resume'') chat source n mcp names) of
        Inl result \<Rightarrow> (rt, Inr result)
      | Inr ctx \<Rightarrow>
          let pctx = se_build_follow_up env rt chat (sc_user_message ctx) source names;
              model = opt_or (pc_model pctx) (opt_or (sc_model ctx) (sr_model source));
              (rt1, r1) = reserve_and_write source rt
          in case se_prompt env sid (pc_prompt pctx) model of
               Inl e \<Rightarrow> (rt1, Inl e)
             | Inr res \<Rightarrow>
                 let r2 = (with_flags pctx (taken_over env fin chat mcp names r1))\<lparr>sr_session_id := sid, sr_model := model\<rparr>
                 in resumed_reply env fin r2 n (tr_reply res) (sync_active env chat names (put_record r2 rt1)))"

text \<open>The ACP session is gone: a new one, with the session's history in the prompt.\<close>

definition resume_rebuilt ::
  "session_env \<Rightarrow> secs \<Rightarrow> ustr \<Rightarrow> session_record option \<Rightarrow> session_record \<Rightarrow> int \<Rightarrow> ustr list \<Rightarrow> ustr set \<Rightarrow> runtime \<Rightarrow> runtime \<times> (py_exn + chat_result)" where
  "resume_rebuilt env fin chat active source n mcp names rt =
     (case se_before_start env (resume_ctx env (u ''resume'') chat source n mcp names) of
        Inl result \<Rightarrow> (rt, Inr result)
      | Inr ctx \<Rightarrow>
          let use1 = opt_or (sc_model ctx) (sr_model source);
              pctx = se_build_first env rt chat (sc_user_message ctx) active use1 (sc_skill_names ctx);
              model = opt_or (pc_model pctx) use1;
              (rt1, r1) = reserve_and_write source rt
          in case start_new_session env chat (pc_prompt pctx) model
                    (case sc_mcp_servers ctx of None \<Rightarrow> servers_named env chat mcp | Some xs \<Rightarrow> if xs = [] then servers_named env chat mcp else xs)
                    (skills_or (sc_skill_names ctx) names) rt1 of
               (rt2, Inl e) \<Rightarrow> (rt2, Inl e)
             | (rt2, Inr (res, sid)) \<Rightarrow>
                 let r2 = (with_flags pctx (taken_over env fin chat mcp names r1))\<lparr>sr_session_id := sid, sr_model := opt_or (tr_model res) model\<rparr>
                 in resumed_reply env fin r2 n (tr_reply res) (put_record r2 rt2))"

definition resume_held :: "session_env \<Rightarrow> secs \<Rightarrow> ustr \<Rightarrow> int \<Rightarrow> runtime \<Rightarrow> runtime \<times> (py_exn + chat_result)" where
  "resume_held env fin chat n rt0 =
     (let (st, cs) = chat_state_of chat (rt_store rt0); rt = rt0\<lparr>rt_store := st\<rparr>; active = active_record chat st
      in case dget n (cs_sessions cs) of
           None \<Rightarrow> (rt, Inr (mk_result (u ''Session '' @ str_of_int n @ u '' not found for this chat.'')))
         | Some source \<Rightarrow>
             if (case active of None \<Rightarrow> False | Some a \<Rightarrow> sr_session_number a = n)
             then (rt, Inr (mk_result (u ''Session '' @ str_of_int n @ u '' is already active.'')))
             else case swap_dirs env chat active n rt of
                    (rt1, False) \<Rightarrow> (rt1, Inl FileNotFoundError)
                  | (rt1, True) \<Rightarrow>
                      let mcp = mcp_names_or_default env source; names = source_skills env chat rt1 source
                      in case (if se_resume_enabled env then try_resume env source (sr_model source) (servers_named env chat mcp) else None) of
                           Some sid \<Rightarrow> resume_on_session env fin chat source n sid mcp names rt1
                         | None \<Rightarrow>
                             if probe_alive env source names
                             then let r2 = taken_over env fin chat mcp names source
                                  in resumed_reply env fin r2 n (u ''Resumed existing session.'') (put_record r2 (sync_active env chat names rt1))
                             else resume_rebuilt env fin chat active source n mcp names rt1)"

definition resume_session ::
  "session_env \<Rightarrow> ustr \<Rightarrow> secs \<Rightarrow> secs \<Rightarrow> ustr \<Rightarrow> int \<Rightarrow> bool \<Rightarrow> runtime \<Rightarrow> runtime \<times> (py_exn + chat_result)" where
  "resume_session env fresh now fin chat n queue_on_busy rt =
     (case session_op_busy fresh chat (Op_resume n) queue_on_busy now rt of
        Some out \<Rightarrow> out
      | None \<Rightarrow> hold_session_op chat (resume_held env fin chat n) rt)"

definition branch_record ::
  "session_env \<Rightarrow> secs \<Rightarrow> ustr \<Rightarrow> int \<Rightarrow> int \<Rightarrow> session_record \<Rightarrow> ustr \<Rightarrow> ustr \<Rightarrow> prompt_ctx \<Rightarrow> ustr list \<Rightarrow> ustr set \<Rightarrow> session_record" where
  "branch_record env now chat new n source sid model pctx mcp names =
     (create_record env now chat new sid model pctx (Some n) (Some (u ''branch of '' @ str_of_int n)))
       \<lparr>sr_enabled_mcp_servers := Some mcp,
        sr_disabled_mcp_servers := Some (case sr_disabled_mcp_servers source of None \<Rightarrow> [] | Some xs \<Rightarrow> xs),
        sr_enabled_skills := Some (py_sorted names),
        sr_plugin_overrides := Some (case sr_plugin_overrides source of None \<Rightarrow> [] | Some ov \<Rightarrow> ov)\<rparr>"

definition branch_finish ::
  "session_env \<Rightarrow> secs \<Rightarrow> int \<Rightarrow> session_record \<Rightarrow> ustr \<Rightarrow> ustr option \<Rightarrow> runtime \<Rightarrow> runtime \<times> (py_exn + chat_result)" where
  "branch_finish env fin n r reply notice rt =
     finalize_session_activation env fin r reply (u ''branched session'') (u ''Branched from session '' @ str_of_int n @ u ''.'') notice
       (put_record r rt)"

text \<open>With the number taken and the start allowed: on the resumed ACP session, or on a new one.\<close>

definition branch_resumed ::
  "session_env \<Rightarrow> secs \<Rightarrow> secs \<Rightarrow> ustr \<Rightarrow> int \<Rightarrow> int \<Rightarrow> session_record \<Rightarrow> start_ctx \<Rightarrow> ustr \<Rightarrow> ustr \<Rightarrow> ustr list \<Rightarrow> ustr set \<Rightarrow> runtime \<Rightarrow>
   runtime \<times> (py_exn + chat_result)" where
  "branch_resumed env now fin chat new n source ctx sid use1 mcp names rt =
     (let pctx = se_build_follow_up env rt chat (sc_user_message ctx) source names;
          model = opt_or (pc_model pctx) use1
      in case se_prompt env sid (pc_prompt pctx) model of
           Inl e \<Rightarrow> (rt, Inl e)
         | Inr res \<Rightarrow> branch_finish env fin n (branch_record env now chat new n source sid model pctx mcp names) (tr_reply res) (pc_notice pctx) rt)"

definition branch_rebuilt ::
  "session_env \<Rightarrow> secs \<Rightarrow> secs \<Rightarrow> ustr \<Rightarrow> int \<Rightarrow> int \<Rightarrow> session_record option \<Rightarrow> session_record \<Rightarrow> start_ctx \<Rightarrow> ustr \<Rightarrow> rendered_server list \<Rightarrow>
   ustr list \<Rightarrow> ustr set \<Rightarrow> runtime \<Rightarrow> runtime \<times> (py_exn + chat_result)" where
  "branch_rebuilt env now fin chat new n active source ctx use1 servers mcp names rt =
     (let pctx = se_build_first env rt chat (sc_user_message ctx) active use1 (sc_skill_names ctx);
          model = opt_or (pc_model pctx) use1
      in case start_new_session env chat (pc_prompt pctx) model servers (skills_or (sc_skill_names ctx) names) rt of
           (rt1, Inl e) \<Rightarrow> (rt1, Inl e)
         | (rt1, Inr (res, sid)) \<Rightarrow>
             branch_finish env fin n (branch_record env now chat new n source sid (opt_or (tr_model res) model) pctx mcp names)
               (tr_reply res) (pc_notice pctx) rt1)"

definition branch_started ::
  "session_env \<Rightarrow> secs \<Rightarrow> secs \<Rightarrow> ustr \<Rightarrow> int \<Rightarrow> int \<Rightarrow> session_record option \<Rightarrow> session_record \<Rightarrow> start_ctx \<Rightarrow> runtime \<Rightarrow>
   runtime \<times> (py_exn + chat_result)" where
  "branch_started env now fin chat new n active source ctx rt =
     (let use1 = opt_or (sc_model ctx) (sr_model source);
          mcp = (case sc_mcp_servers ctx of Some xs \<Rightarrow> map rs_name xs | None \<Rightarrow> mcp_names_or_default env source);
          names = (case sc_skill_names ctx of Some x \<Rightarrow> x | None \<Rightarrow> source_skills env chat rt source);
          servers = (case sc_mcp_servers ctx of None \<Rightarrow> servers_named env chat mcp | Some xs \<Rightarrow> if xs = [] then servers_named env chat mcp else xs)
      in case (if se_resume_enabled env \<and> can_resume_record source names then try_resume env source use1 servers else None) of
           Some sid \<Rightarrow> branch_resumed env now fin chat new n source ctx sid use1 mcp names rt
         | None \<Rightarrow> branch_rebuilt env now fin chat new n active source ctx use1 servers mcp names rt)"

definition branch_held :: "session_env \<Rightarrow> secs \<Rightarrow> secs \<Rightarrow> ustr \<Rightarrow> int \<Rightarrow> runtime \<Rightarrow> runtime \<times> (py_exn + chat_result)" where
  "branch_held env now fin chat n rt0 =
     (let (st, cs) = chat_state_of chat (rt_store rt0); rt = rt0\<lparr>rt_store := st\<rparr>; active = active_record chat st
      in case dget n (cs_sessions cs) of
           None \<Rightarrow> (rt, Inr (mk_result (u ''Session '' @ str_of_int n @ u '' not found for this chat.'')))
         | Some source \<Rightarrow>
             case swap_dirs env chat active n rt of
               (rt1, False) \<Rightarrow> (rt1, Inl FileNotFoundError)
             | (rt1, True) \<Rightarrow>
                 let (rt2, new) = take_number chat rt1
                 in case se_before_start env (resume_ctx env (u ''branch'') chat source new (mcp_names_or_default env source) (source_skills env chat rt2 source)) of
                      Inl result \<Rightarrow> (rt2, Inr result)
                    | Inr ctx \<Rightarrow> branch_started env now fin chat new n active source ctx rt2)"

definition branch_session ::
  "session_env \<Rightarrow> ustr \<Rightarrow> secs \<Rightarrow> secs \<Rightarrow> ustr \<Rightarrow> int \<Rightarrow> bool \<Rightarrow> runtime \<Rightarrow> runtime \<times> (py_exn + chat_result)" where
  "branch_session env fresh now fin chat n queue_on_busy rt =
     (case session_op_busy fresh chat (Op_branch n) queue_on_busy now rt of
        Some out \<Rightarrow> out
      | None \<Rightarrow> hold_session_op chat (branch_held env now fin chat n) rt)"

subsection \<open>A parked operation is run\<close>

text \<open>What \<open>run_session_op\<close> reads from a payload: \<open>Inr None\<close> for an unknown operation, which is dropped.\<close>

definition decode_op :: "(ustr, json) dict \<Rightarrow> py_exn + session_op option" where
  "decode_op p =
     (let op = get_or JNull ''op'' p; model = get_or JNull ''model'' p; number = get_or JNull ''session_number'' p
      in if op = JStr (u ''new'')
         then (case model of JNull \<Rightarrow> Inr (Some (Op_new None)) | JStr m \<Rightarrow> Inr (Some (Op_new (Some m))) | _ \<Rightarrow> Inl Unmodelled)
         else if op = JStr (u ''switch_model'') \<and> truthy model
         then (case model of JStr m \<Rightarrow> Inr (Some (Op_switch m (truthy (get_or JNull ''in_place'' p)))) | _ \<Rightarrow> Inl Unmodelled)
         else if op = JStr (u ''resume'') \<and> number \<noteq> JNull
         then (case number of JInt n \<Rightarrow> Inr (Some (Op_resume n)) | _ \<Rightarrow> Inl Unmodelled)
         else if op = JStr (u ''branch'') \<and> number \<noteq> JNull
         then (case number of JInt n \<Rightarrow> Inr (Some (Op_branch n)) | _ \<Rightarrow> Inl Unmodelled)
         else Inr None)"

definition do_session_op ::
  "session_env \<Rightarrow> ustr \<Rightarrow> secs \<Rightarrow> secs \<Rightarrow> bool \<Rightarrow> ustr \<Rightarrow> session_op \<Rightarrow> bool \<Rightarrow> runtime \<Rightarrow> runtime \<times> (py_exn + chat_result)" where
  "do_session_op env fresh now fin changed chat op queue_on_busy rt =
     (case op of
        Op_new m \<Rightarrow> new_session env fresh now fin chat m queue_on_busy rt
      | Op_switch m b \<Rightarrow> switch_model env fresh now fin changed chat m b queue_on_busy rt
      | Op_resume n \<Rightarrow> resume_session env fresh now fin chat n queue_on_busy rt
      | Op_branch n \<Rightarrow> branch_session env fresh now fin chat n queue_on_busy rt)"

definition run_session_op ::
  "session_env \<Rightarrow> secs \<Rightarrow> secs \<Rightarrow> bool \<Rightarrow> ustr \<Rightarrow> (ustr, json) dict \<Rightarrow> runtime \<Rightarrow> runtime \<times> (py_exn + chat_result)" where
  "run_session_op env now fin changed chat p rt =
     (if rt_draining rt \<or> chat_busy chat rt then (rt, Inr (mk_result WAKE_BUSY))
      else case decode_op p of
             Inl e \<Rightarrow> (rt, Inl e)
           | Inr None \<Rightarrow> (rt, Inr (mk_result []))
           | Inr (Some op) \<Rightarrow>
               (case do_session_op env [] now fin changed chat op False rt of
                  (rt1, Inr r) \<Rightarrow> (rt1, Inr (if cr_reply r = cr_reply busy_reply then mk_result WAKE_BUSY else r))
                | (rt1, Inl e) \<Rightarrow> (rt1, Inl e)))"

end
