(* ===== verification/JsonText.thy ===== *)
theory JsonText
  imports Json
begin

section \<open>JSON texts\<close>

text \<open>
  The text \<open>json.dumps\<close> gives a value, with its default separators and the text of a float as the argument
  \<open>shf\<close>: as it is written with \<open>ensure_ascii=False\<close> (\<open>json_text\<close>), and with every character outside ASCII
  escaped (\<open>json_ascii\<close>, the default).
\<close>

subsection \<open>\<open>json.dumps(..., ensure_ascii=False)\<close>\<close>

definition hex_digit :: "nat \<Rightarrow> nat" where
  "hex_digit n = (if n < 10 then 48 + n else 87 + n)"

text \<open>Only quotes, backslashes and characters below 32 are escaped.\<close>

definition esc_char :: "nat \<Rightarrow> ustr" where
  "esc_char c =
     (if c = 34 then [92, 34] else if c = 92 then [92, 92]
      else if c = 10 then [92, 110] else if c = 13 then [92, 114] else if c = 9 then [92, 116]
      else if c = 12 then [92, 102] else if c = 8 then [92, 98]
      else if c < 32 then [92, 117, 48, 48, hex_digit (c div 16), hex_digit (c mod 16)]
      else [c])"

definition esc_text :: "ustr \<Rightarrow> ustr" where
  "esc_text s = concat (map esc_char s)"

definition json_str :: "ustr \<Rightarrow> ustr" where
  "json_str s = 34 # esc_text s @ [34]"

fun sep_join :: "ustr \<Rightarrow> ustr list \<Rightarrow> ustr" where
  "sep_join sep [] = []"
| "sep_join sep [x] = x"
| "sep_join sep (x # y # ys) = x @ sep @ sep_join sep (y # ys)"

fun json_text :: "(real \<Rightarrow> ustr) \<Rightarrow> json \<Rightarrow> ustr" where
  "json_text shf JNull = u ''null''"
| "json_text shf (JBool b) = (if b then u ''true'' else u ''false'')"
| "json_text shf (JInt i) = str_of_int i"
| "json_text shf (JFloat r) = shf r"
| "json_text shf (JStr s) = json_str s"
| "json_text shf (JList vs) = u ''['' @ sep_join (u '', '') (map (json_text shf) vs) @ u '']''"
| "json_text shf (JObj kvs) =
     u ''{'' @ sep_join (u '', '') (map (\<lambda>(k, v). json_str k @ u '': '' @ json_text shf v) kvs) @ u ''}''"

subsection \<open>\<open>json.dumps(...)\<close>\<close>

definition esc_unit :: "nat \<Rightarrow> ustr" where
  "esc_unit n = [92, 117, hex_digit (n div 4096 mod 16), hex_digit (n div 256 mod 16), hex_digit (n div 16 mod 16), hex_digit (n mod 16)]"

text \<open>Characters beyond the basic plane are escaped as a surrogate pair.\<close>

definition ascii_char :: "nat \<Rightarrow> ustr" where
  "ascii_char c =
     (if c < 127 then esc_char c
      else if c < 65536 then esc_unit c
      else esc_unit (55296 + (c - 65536) div 1024) @ esc_unit (56320 + (c - 65536) mod 1024))"

definition ascii_str :: "ustr \<Rightarrow> ustr" where
  "ascii_str s = 34 # concat (map ascii_char s) @ [34]"

fun json_ascii :: "(real \<Rightarrow> ustr) \<Rightarrow> json \<Rightarrow> ustr" where
  "json_ascii shf JNull = u ''null''"
| "json_ascii shf (JBool b) = (if b then u ''true'' else u ''false'')"
| "json_ascii shf (JInt i) = str_of_int i"
| "json_ascii shf (JFloat r) = shf r"
| "json_ascii shf (JStr s) = ascii_str s"
| "json_ascii shf (JList vs) = u ''['' @ sep_join (u '', '') (map (json_ascii shf) vs) @ u '']''"
| "json_ascii shf (JObj kvs) =
     u ''{'' @ sep_join (u '', '') (map (\<lambda>(k, v). ascii_str k @ u '': '' @ json_ascii shf v) kvs) @ u ''}''"

end
