(* ===== verification/AcpErrors.thy ===== *)
theory AcpErrors
  imports JsonText
begin

section \<open>Classifying the errors of the agent\<close>

text \<open>
  \<open>src/src/diploid_agent/acp_client/errors.py\<close>: the exception a JSON-RPC error response becomes, which
  decides what the harness does next (a new session, another model, a restart).  Parameters: \<open>lower\<close> is
  \<open>str.lower\<close>, \<open>str_of\<close> is \<open>str\<close> of a JSON value that is not a string, \<open>shf\<close> the text of a float.
\<close>

datatype acp_class = Acp_Error | Acp_Session_Stale | Acp_Model | Acp_Mcp

record acp_exception =
  ax_class :: acp_class
  ax_method :: ustr
  ax_code :: json
  ax_message :: json
  ax_data :: json

definition error_field :: "string \<Rightarrow> json \<Rightarrow> (ustr, json) dict \<Rightarrow> json" where
  "error_field k d e = (case dget (u k) e of None \<Rightarrow> d | Some v \<Rightarrow> v)"

definition acp_error :: "acp_class \<Rightarrow> ustr \<Rightarrow> (ustr, json) dict \<Rightarrow> acp_exception" where
  "acp_error c m e =
     \<lparr>ax_class = c, ax_method = m, ax_code = error_field ''code'' JNull e,
      ax_message = error_field ''message'' (JStr []) e,
      ax_data = (if truthy (error_field ''data'' JNull e) then error_field ''data'' JNull e else JObj [])\<rparr>"

text \<open>\<open>sub in s\<close>, and \<open>s.split(sub, 1)[1]\<close> when it is.\<close>

fun after_first :: "ustr \<Rightarrow> ustr \<Rightarrow> ustr option" where
  "after_first sub [] = (if sub = [] then Some [] else None)"
| "after_first sub (c # s) = (if prefix sub (c # s) then Some (drop (length sub) (c # s)) else after_first sub s)"

definition mentions :: "string \<Rightarrow> ustr \<Rightarrow> bool" where
  "mentions sub s \<longleftrightarrow> after_first (u sub) s \<noteq> None"

fun code_is :: "int \<Rightarrow> json \<Rightarrow> bool" where
  "code_is n (JInt i) = (i = n)"
| "code_is n (JFloat r) = (r = real_of_int n)"
| "code_is n v = False"

definition lowered_message :: "(ustr \<Rightarrow> ustr) \<Rightarrow> (ustr, json) dict \<Rightarrow> py_exn + ustr" where
  "lowered_message lower e =
     (let v = error_field ''message'' JNull e
      in if \<not> truthy v then Inr (lower [])
         else case v of JStr s \<Rightarrow> Inr (lower s) | _ \<Rightarrow> Inl AttributeError)"

definition quote_or_bracket :: "nat \<Rightarrow> bool" where
  "quote_or_bracket c \<longleftrightarrow> c \<in> {32, 34, 39, 91, 93}"

definition available_models :: "ustr \<Rightarrow> ustr" where
  "available_models detail =
     (case after_first (u ''available models:'') detail of
        None \<Rightarrow> []
      | Some rest \<Rightarrow> py_strip (strip_by quote_or_bracket rest))"

definition model_option :: ustr where
  "model_option = u ''config option '' @ [39] @ u ''model'' @ [39]"

definition invalid_params :: "ustr \<Rightarrow> acp_class" where
  "invalid_params combined =
     (if mentions ''mcp'' combined \<or> mentions ''mcpservers'' combined then Acp_Mcp
      else if after_first model_option combined \<noteq> None then Acp_Model
      else Acp_Error)"

definition resource_not_found :: "ustr \<Rightarrow> ustr \<Rightarrow> acp_class" where
  "resource_not_found detail mth =
     (let models = available_models detail
      in if prefix (u ''model not found'') detail \<or> (mentions ''model'' detail \<and> mentions ''not found'' detail)
         then (if models = [] then Acp_Session_Stale else Acp_Model)
         else if prefix (u ''session not found'') detail \<or> (mentions ''session'' detail \<and> mentions ''not found'' detail)
         then Acp_Session_Stale
         else if mentions ''model'' detail \<and> models \<noteq> [] then Acp_Model
         else if mentions ''session'' detail \<or> (mth \<noteq> [] \<and> prefix (u ''session/'') mth) then Acp_Session_Stale
         else Acp_Error)"

text \<open>\<open>str(data.get("uri", ""))\<close>.\<close>

definition uri_text :: "(json \<Rightarrow> ustr) \<Rightarrow> (ustr, json) dict \<Rightarrow> ustr" where
  "uri_text str_of d = (case error_field ''uri'' (JStr []) d of JStr s \<Rightarrow> s | v \<Rightarrow> str_of v)"

definition acp_error_from_response ::
  "(real \<Rightarrow> ustr) \<Rightarrow> (json \<Rightarrow> ustr) \<Rightarrow> (ustr \<Rightarrow> ustr) \<Rightarrow> ustr \<Rightarrow> (ustr, json) dict \<Rightarrow> py_exn + acp_exception" where
  "acp_error_from_response shf str_of lower mth e =
     (let code = error_field ''code'' JNull e;
          data = (if truthy (error_field ''data'' JNull e) then error_field ''data'' JNull e else JObj [])
      in case lowered_message lower e of
           Inl x \<Rightarrow> Inl x
         | Inr message \<Rightarrow>
             if code_is (-32602) code
             then Inr (acp_error (invalid_params (message @ u '' '' @ lower (json_ascii shf data))) mth e)
             else if code_is (-32002) code
             then (case data of
                     JObj d \<Rightarrow>
                       let uri = lower (uri_text str_of d)
                       in Inr (acp_error (resource_not_found (if uri \<noteq> [] then uri else message) mth) mth e)
                   | _ \<Rightarrow> Inl AttributeError)
             else Inr (acp_error Acp_Error mth e))"

subsection \<open>What the classes depend on\<close>

lemma after_first_append:
  "\<forall>k < length a. \<not> prefix sub (drop k (a @ sub @ y)) \<Longrightarrow> after_first sub (a @ sub @ y) = Some y"
proof (induction a)
  case Nil
  then show ?case by (cases sub; cases y) auto
next
  case (Cons c a)
  then have "\<not> prefix sub (c # a @ sub @ y)" by (auto dest: spec [of _ 0])
  moreover have "after_first sub (a @ sub @ y) = Some y" by (rule Cons.IH) (use Cons.prems in force)
  ultimately show ?case by simp
qed

lemma after_first_None: "after_first sub s = None \<longleftrightarrow> \<not> sublist sub s"
  by (induction sub s rule: after_first.induct) (auto simp: sublist_Cons_right)

lemma mentions_iff: "mentions sub s \<longleftrightarrow> sublist (u sub) s"
  by (simp add: mentions_def after_first_None)

lemma sublist_append_mid: "sublist x (a @ x @ b)"
  by (auto simp: sublist_def)

text \<open>A marker that ends with a character found nowhere else in it, nor before it, is found where it stands.\<close>

lemma after_first_marker:
  assumes "x \<notin> set N" and "A = B @ C" and "length B \<le> length N" and "x \<notin> set C"
  shows "after_first (N @ [x]) (A @ (N @ [x]) @ y) = Some y"
proof (rule after_first_append, intro allI impI notI)
  fix k assume k: "k < length A" and p: "prefix (N @ [x]) (drop k (A @ (N @ [x]) @ y))"
  from p obtain z where z: "drop k (A @ (N @ [x]) @ y) = (N @ [x]) @ z" by (auto simp: prefix_def)
  have "((N @ [x]) @ z) ! length N = x" by simp
  moreover have "drop k (A @ (N @ [x]) @ y) ! length N = (A @ (N @ [x]) @ y) ! (k + length N)"
    using k by (intro nth_drop) simp
  ultimately have e: "(A @ (N @ [x]) @ y) ! (k + length N) = x" unfolding z by simp
  show False
  proof (cases "k + length N < length A")
    case True
    with assms(2,3) have "A ! (k + length N) \<in> set C" by (simp add: nth_append)
    with e True assms(4) show False by (simp add: nth_append)
  next
    case False
    with k have "k + length N - length A < length N" by simp
    with e False have "N ! (k + length N - length A) = x" by (simp add: nth_append)
    with \<open>k + length N - length A < length N\<close> assms(1) show False by (metis nth_mem)
  qed
qed

text \<open>The list of models is what follows the first marker, and a model's name has no colon.\<close>

lemma marker_after_model:
  assumes "58 \<notin> set name"
  shows "after_first (u ''available models:'') (u ''model not found: '' @ name @ u ''. '' @ u ''available models:'' @ y) = Some y"
proof -
  have n: "u ''available models:'' = u ''available models'' @ [58]" by (simp add: u_def)
  have "u ''model not found: '' @ name @ u ''. '' = u ''model not found:'' @ (u '' '' @ name @ u ''. '')" by (simp add: u_def)
  from after_first_marker [OF _ this, of 58 "u ''available models''" y] assms
  have "after_first (u ''available models:'') ((u ''model not found: '' @ name @ u ''. '') @ u ''available models:'' @ y) = Some y"
    unfolding n by (simp add: u_def)
  then show ?thesis by simp
qed

lemma drop_prefix_model: "prefix (u ''model not found'') (u ''model not found: '' @ x)"
  by (simp add: u_def)

text \<open>
  When is a missing resource a stale session?  An error response with code -32002 that carries no
  data and whose message says that a model was not found counts as a stale session when it lists no
  available models, whatever the model and the method (also when the list is missing altogether), and as a
  missing model when it lists any; and an error with another code than -32002 and -32602 is never classified.
\<close>

theorem stale_session_or_missing_model:
  assumes "error_field ''message'' JNull e = JStr m" and "m \<noteq> []" and "error_field ''data'' JNull e = JNull"
    and "error_field ''code'' JNull e = JInt c" and "lower [] = []"
  shows "(c = -32002 \<and> lower m = u ''model not found: '' @ name \<and> \<not> sublist (u ''available models:'') (lower m) \<longrightarrow>
       acp_error_from_response shf str_of lower mth e = Inr (acp_error Acp_Session_Stale mth e))
    \<and> (c = -32002 \<and> lower m = u ''model not found: '' @ name @ u ''. '' @ u ''available models:'' @ list \<and> 58 \<notin> set name \<longrightarrow>
       acp_error_from_response shf str_of lower mth e
         = Inr (acp_error (if py_strip (strip_by quote_or_bracket list) = [] then Acp_Session_Stale else Acp_Model) mth e))
    \<and> (c \<notin> {-32002, -32602} \<longrightarrow> acp_error_from_response shf str_of lower mth e = Inr (acp_error Acp_Error mth e))"
proof -
  have msg: "lowered_message lower e = Inr (lower m)" using assms(1,2) by (simp add: lowered_message_def)
  have uri: "lower (uri_text str_of []) = []" using assms(5) by (simp add: uri_text_def error_field_def)
  have r: "acp_error_from_response shf str_of lower mth e = Inr (acp_error (resource_not_found (lower m) mth) mth e)"
    if "c = -32002" using that msg uri assms(3,4) by (simp add: acp_error_from_response_def Let_def)
  have model: "resource_not_found (lower m) mth
       = (if available_models (lower m) = [] then Acp_Session_Stale else Acp_Model)"
    if "lower m = u ''model not found: '' @ x" for x
    using drop_prefix_model [of x] that by (simp add: resource_not_found_def Let_def)
  have none: "available_models (lower m) = []" if "\<not> sublist (u ''available models:'') (lower m)"
    using that by (simp add: available_models_def after_first_None [symmetric])
  have some: "available_models (lower m) = py_strip (strip_by quote_or_bracket list)"
    if "lower m = u ''model not found: '' @ name @ u ''. '' @ u ''available models:'' @ list" "58 \<notin> set name"
    unfolding that(1) available_models_def marker_after_model [OF that(2)] by simp
  have other: "acp_error_from_response shf str_of lower mth e = Inr (acp_error Acp_Error mth e)"
    if "c \<notin> {-32002, -32602}" using that msg assms(4) by (simp add: acp_error_from_response_def Let_def)
  show ?thesis
  proof (intro conjI impI; (elim conjE)?)
    assume a: "c = -32002" "lower m = u ''model not found: '' @ name" "\<not> sublist (u ''available models:'') (lower m)"
    from r [OF a(1)] model [OF a(2)] none [OF a(3)] show "acp_error_from_response shf str_of lower mth e = Inr (acp_error Acp_Session_Stale mth e)" by simp
  next
    assume a: "c = -32002" "lower m = u ''model not found: '' @ name @ u ''. '' @ u ''available models:'' @ list" "58 \<notin> set name"
    from r [OF a(1)] model [OF a(2)] some [OF a(2,3)] show "acp_error_from_response shf str_of lower mth e
         = Inr (acp_error (if py_strip (strip_by quote_or_bracket list) = [] then Acp_Session_Stale else Acp_Model) mth e)" by simp
  qed (rule other)
qed

theorem stale_session_or_missing_model_witness:
  "acp_error_from_response (\<lambda>r. []) (\<lambda>v. []) id (u ''session/prompt'')
     [(u ''code'', JInt (-32002)), (u ''message'', JStr (u ''model not found: swe''))]
   = Inr (acp_error Acp_Session_Stale (u ''session/prompt'')
     [(u ''code'', JInt (-32002)), (u ''message'', JStr (u ''model not found: swe''))])"
proof -
  let ?e = "[(u ''code'', JInt (-32002)), (u ''message'', JStr (u ''model not found: swe''))]"
  have "error_field ''message'' JNull ?e = JStr (u ''model not found: swe'')" "u ''model not found: swe'' \<noteq> []"
    "error_field ''data'' JNull ?e = JNull" "error_field ''code'' JNull ?e = JInt (-32002)" "id [] = []"
    by (simp_all add: error_field_def)
  moreover have "id (u ''model not found: swe'') = u ''model not found: '' @ u ''swe''" by (simp add: u_def)
  moreover have "\<not> sublist (u ''available models:'') (id (u ''model not found: swe''))"
    unfolding after_first_None [symmetric] by (simp add: u_def)
  ultimately show ?thesis
    using stale_session_or_missing_model [of ?e "u ''model not found: swe''" "-32002" id "u ''swe''"] by blast
qed

text \<open>A text in \<open>data\<close> raises: the classifier expects an object there and does not check.\<close>

lemma text_data_raises:
  assumes "error_field ''message'' JNull e = JStr m" and "error_field ''code'' JNull e = JInt (-32002)"
    and "error_field ''data'' JNull e = JStr d" and "d \<noteq> []"
  shows "acp_error_from_response shf str_of lower mth e = Inl AttributeError"
  using assms by (cases m) (simp_all add: acp_error_from_response_def lowered_message_def Let_def)

end
