(* ===== verification/TurnStream.thy ===== *)
theory TurnStream
  imports WakeQueue
begin

section \<open>The stream of a running turn\<close>

text \<open>
  \<open>src/src/diploid_agent/turn/stream.py\<close> (the callbacks that fold the agent's updates into the running
  turn) with the parts of \<open>src/src/diploid_agent/models.py\<close> around it: \<open>PartialTurn\<close>,
  \<open>ActiveTurn.seed_from_wake\<close> and \<open>final_segment_reply\<close>.  An update is the decoded JSON object; \<open>fmt\<close> is
  Python's \<open>str()\<close> of a JSON value that is not a string.  The state is the running turn of the chat (if it
  has one) and the titles remembered per tool call; a step returns the snapshot handed to the plugins.
\<close>

subsection \<open>Reading JSON objects\<close>

text \<open>\<open>d.get(key)\<close> and \<open>a or b\<close>.\<close>

definition jget :: "string \<Rightarrow> (ustr, json) dict \<Rightarrow> json" where
  "jget k d = (case dget (u k) d of None \<Rightarrow> JNull | Some v \<Rightarrow> v)"

definition j_or :: "json \<Rightarrow> json \<Rightarrow> json" where
  "j_or a b = (if truthy a then a else b)"

fun py_str :: "(json \<Rightarrow> ustr) \<Rightarrow> json \<Rightarrow> ustr" where
  "py_str fmt (JStr s) = s"
| "py_str fmt v = fmt v"

fun as_obj :: "json \<Rightarrow> (ustr, json) dict option" where
  "as_obj (JObj kvs) = Some kvs" | "as_obj _ = None"

fun first_obj :: "json list \<Rightarrow> (ustr, json) dict" where
  "first_obj [] = []"
| "first_obj (JObj kvs # vs) = kvs"
| "first_obj (v # vs) = first_obj vs"

lemma j_or_truthy [simp]: "truthy b \<Longrightarrow> truthy (j_or a b)"
  by (simp add: j_or_def)

subsection \<open>\<open>PartialTurn\<close>\<close>

record partial_turn =
  pt_chat_id :: ustr
  pt_session_number :: int
  pt_turn_number :: int
  pt_user_message :: ustr
  pt_message_text :: ustr
  pt_thought_text :: ustr
  pt_thought_prefix :: ustr
  pt_thought_total :: nat
  pt_full_text_offset :: nat
  pt_updated_at :: secs
  pt_current_intent :: ustr
  pt_last_side_effect :: ustr
  pt_last_side_effect_at :: secs
  pt_side_effects :: "json list"

definition partial_from_active :: "active_turn \<Rightarrow> session_record option \<Rightarrow> secs \<Rightarrow> partial_turn" where
  "partial_from_active a r now =
     \<lparr>pt_chat_id = at_chat_id a,
      pt_session_number = (case r of None \<Rightarrow> 0 | Some r \<Rightarrow> sr_session_number r),
      pt_turn_number = (case r of None \<Rightarrow> 1 | Some r \<Rightarrow> next_turn_number r),
      pt_user_message = at_user_message a, pt_message_text = at_message_text a,
      pt_thought_text = at_thought_text a, pt_thought_prefix = at_thought_prefix a,
      pt_thought_total = at_thought_total a, pt_full_text_offset = at_full_text_offset a,
      pt_updated_at = now, pt_current_intent = at_current_intent a,
      pt_last_side_effect = at_last_side_effect a, pt_last_side_effect_at = at_last_side_effect_at a,
      pt_side_effects = at_side_effects a\<rparr>"

text \<open>
  \<open>int(v or 0)\<close> and \<open>float(v or 0.0)\<close>; \<open>parse\<close> reads a string.  What \<open>except (TypeError, ValueError)\<close>
  catches is \<open>None\<close>.
\<close>

fun int_or_zero :: "(ustr \<Rightarrow> int option) \<Rightarrow> json \<Rightarrow> int option" where
  "int_or_zero parse (JInt i) = Some i"
| "int_or_zero parse (JBool b) = Some (if b then 1 else 0)"
| "int_or_zero parse (JFloat r) = Some (trunc r)"
| "int_or_zero parse (JStr s) = (if s = [] then Some 0 else parse s)"
| "int_or_zero parse v = (if truthy v then None else Some 0)"

fun float_or_zero :: "(ustr \<Rightarrow> real option) \<Rightarrow> json \<Rightarrow> real option" where
  "float_or_zero parse (JInt i) = Some (real_of_int i)"
| "float_or_zero parse (JBool b) = Some (if b then 1 else 0)"
| "float_or_zero parse (JFloat r) = Some r"
| "float_or_zero parse (JStr s) = (if s = [] then Some 0 else parse s)"
| "float_or_zero parse v = (if truthy v then None else Some 0)"

text \<open>A text field: absent or null reads as empty, a value that is not a string rejects the snapshot.\<close>

fun text_field :: "json \<Rightarrow> ustr option" where
  "text_field JNull = Some []"
| "text_field (JStr s) = Some s"
| "text_field _ = None"

definition partial_from_persisted ::
  "(ustr \<Rightarrow> int option) \<Rightarrow> (ustr \<Rightarrow> real option) \<Rightarrow> ustr \<Rightarrow> (ustr, json) dict \<Rightarrow> ustr \<Rightarrow> partial_turn option" where
  "partial_from_persisted pint pfloat chat d msg =
     (case jget ''user_message'' d of
        JStr m \<Rightarrow>
          if py_strip m \<noteq> py_strip msg then None
          else (case (text_field (jget ''message_text'' d), text_field (jget ''thought_text'' d),
                      text_field (jget ''current_intent'' d), text_field (jget ''last_side_effect'' d)) of
             (Some mt, Some tt, Some ci, Some se) \<Rightarrow>
               (case (int_or_zero pint (jget ''session_number'' d), int_or_zero pint (jget ''turn_number'' d),
                      float_or_zero pfloat (jget ''updated_at'' d),
                      float_or_zero pfloat (jget ''last_side_effect_at'' d)) of
                  (Some sn, Some tn, Some up, Some sa) \<Rightarrow>
                    Some \<lparr>pt_chat_id = chat, pt_session_number = sn, pt_turn_number = tn, pt_user_message = m,
                      pt_message_text = mt, pt_thought_text = tt, pt_thought_prefix = [], pt_thought_total = 0,
                      pt_full_text_offset = 0, pt_updated_at = up, pt_current_intent = ci,
                      pt_last_side_effect = se, pt_last_side_effect_at = sa,
                      pt_side_effects = (case jget ''side_effects'' d of JList xs \<Rightarrow> xs | _ \<Rightarrow> [])\<rparr>
                | _ \<Rightarrow> None)
           | _ \<Rightarrow> None)
      | _ \<Rightarrow> None)"

subsection \<open>\<open>ActiveTurn.seed_from_wake\<close>\<close>

text \<open>A count that is not a non-negative integer is a value the code does not expect.\<close>

fun count_of :: "nat \<Rightarrow> json \<Rightarrow> nat option" where
  "count_of d JNull = Some d"
| "count_of d (JInt i) = (if i = 0 then Some d else if i > 0 then Some (nat i) else None)"
| "count_of d _ = None"

definition seed_from_wake :: "(ustr, json) dict option \<Rightarrow> active_turn \<Rightarrow> py_exn + active_turn" where
  "seed_from_wake payload a =
     (case payload of
        None \<Rightarrow> Inr a
      | Some d \<Rightarrow>
          (case (text_field (jget ''message_text'' d), text_field (jget ''thought_text'' d),
                 text_field (jget ''thought_prefix'' d)) of
             (Some m, Some t, Some pre) \<Rightarrow>
               let tt = last_n MAX_THOUGHT_TEXT_CHARS t
               in (case (count_of (length tt) (jget ''thought_total'' d), count_of 0 (jget ''full_text_offset'' d)) of
                     (Some n, Some off) \<Rightarrow>
                       Inr (recompute_message_text
                         (a\<lparr>at_thought_text := tt,
                            at_thought_prefix := (if pre \<noteq> [] then pre else take MAX_THOUGHT_TEXT_CHARS t),
                            at_full_text := tt @ m, at_thought_total := n, at_full_text_offset := off\<rparr>))
                   | _ \<Rightarrow> Inl Unmodelled)
           | _ \<Rightarrow> Inl Unmodelled))"

subsection \<open>The callbacks\<close>

record turn_stream =
  ts_active :: "active_turn option"
  ts_tool_commands :: "(ustr, json) dict"

definition emit_partial :: "turn_stream \<Rightarrow> session_record option \<Rightarrow> secs \<Rightarrow> partial_turn option" where
  "emit_partial s r now = map_option (\<lambda>a. partial_from_active a r now) (ts_active s)"

definition on_chunk :: "ustr \<Rightarrow> turn_stream \<Rightarrow> turn_stream" where
  "on_chunk text s =
     s\<lparr>ts_active := map_option (\<lambda>a. recompute_message_text (append_full_text a text)) (ts_active s)\<rparr>"

definition on_thought :: "ustr \<Rightarrow> turn_stream \<Rightarrow> turn_stream" where
  "on_thought text s =
     s\<lparr>ts_active := map_option (\<lambda>a. recompute_message_text (append_thought_text a text)) (ts_active s)\<rparr>"

text \<open>The content block of a tool update: the object itself, the first object of a list, or nothing.\<close>

fun content_block :: "json \<Rightarrow> (ustr, json) dict" where
  "content_block (JList vs) = first_obj vs"
| "content_block (JObj kvs) = kvs"
| "content_block v = []"

text \<open>The command line in \<open>rawInput\<close>: the first of four keys that holds a non-blank string.\<close>

fun first_command :: "ustr list \<Rightarrow> (ustr, json) dict \<Rightarrow> ustr option" where
  "first_command [] d = None"
| "first_command (k # ks) d =
     (case dget k d of
        Some (JStr c) \<Rightarrow> if py_strip c \<noteq> [] then Some (py_strip c) else first_command ks d
      | _ \<Rightarrow> first_command ks d)"

definition raw_command :: "(ustr, json) dict \<Rightarrow> ustr option" where
  "raw_command upd =
     (case jget ''rawInput'' upd of
        JObj d \<Rightarrow> first_command [u ''command'', u ''CommandLine'', u ''commandLine'', u ''cmd''] d
      | _ \<Rightarrow> None)"

definition plain_title :: "(ustr, json) dict \<Rightarrow> json" where
  "plain_title upd =
     j_or (jget ''title'' upd) (j_or (jget ''kind'' upd) (j_or (jget ''toolCallId'' upd)
       (j_or (jget ''title'' (content_block (j_or (jget ''content'' upd) (JObj [])))) (JStr (u ''tool'')))))"

definition tool_status :: "(ustr, json) dict \<Rightarrow> json" where
  "tool_status upd =
     j_or (jget ''status'' upd)
       (j_or (jget ''status'' (content_block (j_or (jget ''content'' upd) (JObj [])))) (JStr (u ''running'')))"

definition tool_title :: "(json \<Rightarrow> ustr) \<Rightarrow> (ustr, json) dict \<Rightarrow> (ustr, json) dict \<Rightarrow> json" where
  "tool_title fmt remembered upd =
     (case raw_command upd of
        Some c \<Rightarrow> JStr (py_str fmt (j_or (jget ''kind'' upd) (JStr (u ''exec''))) @ u '': '' @ c)
      | None \<Rightarrow>
          (case jget ''toolCallId'' upd of
             JStr i \<Rightarrow> (case dget i remembered of
                          Some t \<Rightarrow> if truthy t then t else plain_title upd
                        | None \<Rightarrow> plain_title upd)
           | _ \<Rightarrow> plain_title upd))"

definition remember_title :: "json \<Rightarrow> json \<Rightarrow> (ustr, json) dict \<Rightarrow> (ustr, json) dict" where
  "remember_title call title d =
     (case call of JStr i \<Rightarrow> if i \<noteq> [] \<and> title \<noteq> JStr i then dset i title d else d | _ \<Rightarrow> d)"

fun clip_value :: "json \<Rightarrow> json" where
  "clip_value (JStr s) = JStr (take 80 s)"
| "clip_value v = v"

definition side_effect_entry :: "json \<Rightarrow> json \<Rightarrow> secs \<Rightarrow> json \<Rightarrow> json" where
  "side_effect_entry title status now raw =
     JObj ([(u ''title'', title), (u ''status'', status), (u ''at'', JFloat now)] @
       (case raw of
          JObj d \<Rightarrow> if d \<noteq> [] then [(u ''input'', JObj (map (\<lambda>(k, v). (k, clip_value v)) (take 6 d)))] else []
        | _ \<Rightarrow> []))"

definition composed_line :: "(json \<Rightarrow> ustr) \<Rightarrow> json \<Rightarrow> json \<Rightarrow> ustr" where
  "composed_line fmt title status = take 160 (py_str fmt title @ u '' ('' @ py_str fmt status @ u '')'')"

definition on_tool_update :: "(json \<Rightarrow> ustr) \<Rightarrow> (ustr, json) dict \<Rightarrow> secs \<Rightarrow> turn_stream \<Rightarrow> turn_stream" where
  "on_tool_update fmt upd now s =
     (case ts_active s of
        None \<Rightarrow> s
      | Some a \<Rightarrow>
          let title = tool_title fmt (ts_tool_commands s) upd;
              status = tool_status upd;
              line = composed_line fmt title status;
              a1 = (if line \<noteq> at_last_side_effect a
                    then a\<lparr>at_last_side_effect := line, at_last_side_effect_at := now\<rparr> else a);
              a2 = a1\<lparr>at_side_effects := at_side_effects a1 @ [side_effect_entry title status now (jget ''rawInput'' upd)]\<rparr>
          in s\<lparr>ts_active := Some a2,
               ts_tool_commands := remember_title (jget ''toolCallId'' upd) title (ts_tool_commands s)\<rparr>)"

text \<open>The text of a thought update; \<open>''''.join\<close> and \<open>+=\<close> accept strings only.\<close>

fun join_texts :: "json list \<Rightarrow> py_exn + ustr" where
  "join_texts [] = Inr []"
| "join_texts (JObj b # vs) =
     (if jget ''type'' b = JStr (u ''text'')
      then (case dget (u ''text'') b of
              None \<Rightarrow> join_texts vs
            | Some (JStr s) \<Rightarrow> (case join_texts vs of Inl e \<Rightarrow> Inl e | Inr t \<Rightarrow> Inr (s @ t))
            | Some v \<Rightarrow> (case join_texts vs of Inl AttributeError \<Rightarrow> Inl AttributeError | _ \<Rightarrow> Inl TypeError))
      else join_texts vs)"
| "join_texts (v # vs) = Inl AttributeError"

fun thought_text_of :: "json \<Rightarrow> py_exn + ustr" where
  "thought_text_of (JList vs) = join_texts vs"
| "thought_text_of (JObj d) =
     (if jget ''type'' d = JStr (u ''text'')
      then (case dget (u ''text'') d of
              None \<Rightarrow> Inr []
            | Some (JStr s) \<Rightarrow> Inr s
            | Some v \<Rightarrow> if truthy v then Inl TypeError else Inr [])
      else Inr [])"
| "thought_text_of v = Inl AttributeError"

definition is_tool_update :: "(ustr, json) dict \<Rightarrow> bool" where
  "is_tool_update upd \<longleftrightarrow> jget ''sessionUpdate'' upd = JStr (u ''tool_call'')
     \<or> jget ''sessionUpdate'' upd = JStr (u ''tool_call_update'')"

definition is_thought_update :: "(ustr, json) dict \<Rightarrow> bool" where
  "is_thought_update upd \<longleftrightarrow> jget ''sessionUpdate'' upd = JStr (u ''agent_thought'')
     \<or> jget ''sessionUpdate'' upd = JStr (u ''agent_thought_chunk'')"

text \<open>A text that is not a string raises only when a turn is running to append it to.\<close>

definition on_update :: "(json \<Rightarrow> ustr) \<Rightarrow> (ustr, json) dict \<Rightarrow> secs \<Rightarrow> turn_stream \<Rightarrow> py_exn + turn_stream" where
  "on_update fmt upd now s =
     (if is_tool_update upd then Inr (on_tool_update fmt upd now s)
      else if \<not> is_thought_update upd then Inr s
      else case thought_text_of (case dget (u ''content'') upd of None \<Rightarrow> JObj [] | Some v \<Rightarrow> v) of
             Inl TypeError \<Rightarrow>
               if ts_active s = None \<and> as_obj (jget ''content'' upd) \<noteq> None then Inr s else Inl TypeError
           | Inl e \<Rightarrow> Inl e
           | Inr text \<Rightarrow> Inr (if text = [] then s else on_thought text s))"

subsection \<open>\<open>final_segment_reply\<close>\<close>

fun json_len :: "json \<Rightarrow> py_exn + nat" where
  "json_len (JStr s) = Inr (length s)"
| "json_len (JList vs) = Inr (length vs)"
| "json_len (JObj kvs) = Inr (length kvs)"
| "json_len v = Inl TypeError"

fun sum_lens :: "json list \<Rightarrow> py_exn + nat" where
  "sum_lens [] = Inr 0"
| "sum_lens (JObj b # vs) =
     (if jget ''type'' b = JStr (u ''text'')
      then (case json_len (case dget (u ''text'') b of None \<Rightarrow> JStr [] | Some v \<Rightarrow> v) of
              Inl e \<Rightarrow> Inl e
            | Inr n \<Rightarrow> map_sum id ((+) n) (sum_lens vs))
      else sum_lens vs)"
| "sum_lens (v # vs) = Inl AttributeError"

fun content_chars :: "json \<Rightarrow> py_exn + nat" where
  "content_chars (JList vs) = sum_lens vs"
| "content_chars (JObj b) =
     (if jget ''type'' b = JStr (u ''text'')
      then json_len (case dget (u ''text'') b of None \<Rightarrow> JStr [] | Some v \<Rightarrow> v) else Inr 0)"
| "content_chars v = Inr 0"

definition is_message_update :: "(ustr, json) dict \<Rightarrow> bool" where
  "is_message_update upd \<longleftrightarrow> jget ''sessionUpdate'' upd = JStr (u ''agent_message'')
     \<or> jget ''sessionUpdate'' upd = JStr (u ''agent_message_chunk'')"

text \<open>The updates after the last tool update, if there is one.\<close>

fun after_last_tool :: "(ustr, json) dict list \<Rightarrow> (ustr, json) dict list option" where
  "after_last_tool [] = None"
| "after_last_tool (x # xs) =
     (case after_last_tool xs of
        Some ys \<Rightarrow> Some ys
      | None \<Rightarrow> if is_tool_update x then Some xs else None)"

fun segment_chars :: "(ustr, json) dict list \<Rightarrow> py_exn + nat" where
  "segment_chars [] = Inr 0"
| "segment_chars (x # xs) =
     (if \<not> is_message_update x then segment_chars xs
      else case content_chars (case dget (u ''content'') x of None \<Rightarrow> JObj [] | Some v \<Rightarrow> v) of
             Inl e \<Rightarrow> Inl e
           | Inr n \<Rightarrow> map_sum id ((+) n) (segment_chars xs))"

definition final_segment_reply :: "(ustr, json) dict list \<Rightarrow> ustr \<Rightarrow> py_exn + ustr option" where
  "final_segment_reply updates reply =
     (case after_last_tool updates of
        None \<Rightarrow> Inr None
      | Some seg \<Rightarrow>
          (case segment_chars seg of
             Inl e \<Rightarrow> Inl e
           | Inr n \<Rightarrow> Inr (if n = 0 \<or> reply = [] then None
                            else Some (if n < length reply then last_n n reply else reply))))"

subsection \<open>Steps and runs\<close>

datatype stream_event = Chunk ustr | Update "(ustr, json) dict" secs

fun stream_step :: "(json \<Rightarrow> ustr) \<Rightarrow> stream_event \<Rightarrow> turn_stream \<Rightarrow> py_exn + turn_stream" where
  "stream_step fmt (Chunk t) s = Inr (on_chunk t s)"
| "stream_step fmt (Update upd now) s = on_update fmt upd now s"

fun stream_run :: "(json \<Rightarrow> ustr) \<Rightarrow> stream_event list \<Rightarrow> turn_stream \<Rightarrow> py_exn + turn_stream" where
  "stream_run fmt [] s = Inr s"
| "stream_run fmt (e # es) s =
     (case stream_step fmt e s of Inl x \<Rightarrow> Inl x | Inr s' \<Rightarrow> stream_run fmt es s')"

text \<open>What an event adds to the two text streams.\<close>

fun chunks_of :: "stream_event \<Rightarrow> chunk list" where
  "chunks_of (Chunk t) = [MessageChunk t]"
| "chunks_of (Update upd now) =
     (if is_thought_update upd
      then (case thought_text_of (case dget (u ''content'') upd of None \<Rightarrow> JObj [] | Some v \<Rightarrow> v) of
              Inr t \<Rightarrow> [ThoughtChunk t] | Inl e \<Rightarrow> [])
      else [])"

definition streamed :: "stream_event list \<Rightarrow> chunk list" where
  "streamed es = concat (map chunks_of es)"

text \<open>The window holds the streams, and the message text is up to date.\<close>

definition stream_ok :: "turn_stream \<Rightarrow> ustr \<Rightarrow> ustr \<Rightarrow> bool" where
  "stream_ok s T S =
     (case ts_active s of
        None \<Rightarrow> False
      | Some a \<Rightarrow> window_of a T S \<and> at_message_text a = at_message_text (recompute_message_text a))"

lemma recompute_window [simp]: "window_of (recompute_message_text a) T S = window_of a T S"
  by (simp add: window_of_def recompute_message_text_def Let_def)

lemma prefix_test_frame:
  "full_text_has_thought_prefix (a\<lparr>at_message_text := m\<rparr>) = full_text_has_thought_prefix a"
  "full_text_has_thought_prefix (a\<lparr>at_last_side_effect := l, at_last_side_effect_at := w\<rparr>)
     = full_text_has_thought_prefix a"
  "full_text_has_thought_prefix (a\<lparr>at_side_effects := es\<rparr>) = full_text_has_thought_prefix a"
  unfolding full_text_has_thought_prefix_def by simp_all

lemma recompute_message_frame:
  "recompute_message_text (a\<lparr>at_message_text := m\<rparr>) = recompute_message_text a"
  unfolding recompute_message_text_def prefix_test_frame Let_def by simp

lemma recompute_is_update: "\<exists>m. recompute_message_text a = a\<lparr>at_message_text := m\<rparr>"
  by (auto simp: recompute_message_text_def Let_def)

lemma recompute_idem: "recompute_message_text (recompute_message_text a) = recompute_message_text a"
  using recompute_is_update [of a] recompute_message_frame by metis

lemma thought_not_tool: "is_thought_update upd \<Longrightarrow> \<not> is_tool_update upd"
  by (auto simp: is_thought_update_def is_tool_update_def)

lemma on_chunk_ok: "stream_ok s T S \<Longrightarrow> stream_ok (on_chunk t s) T (S @ t)"
  by (auto simp: stream_ok_def on_chunk_def recompute_idem append_full_text_window split: option.splits)

lemma on_thought_ok: "stream_ok s T S \<Longrightarrow> stream_ok (on_thought t s) (T @ t) S"
  by (auto simp: stream_ok_def on_thought_def recompute_idem append_thought_text_window split: option.splits)

lemma tool_update_frame:
  "window_of (a\<lparr>at_last_side_effect := l, at_last_side_effect_at := w\<rparr>) T S = window_of a T S"
  "window_of (a\<lparr>at_side_effects := es\<rparr>) T S = window_of a T S"
  by (simp_all add: window_of_def)

lemma tool_update_recompute:
  "at_message_text (recompute_message_text (a\<lparr>at_last_side_effect := l, at_last_side_effect_at := w\<rparr>))
     = at_message_text (recompute_message_text a)"
  "at_message_text (recompute_message_text (a\<lparr>at_side_effects := es\<rparr>)) = at_message_text (recompute_message_text a)"
  unfolding recompute_message_text_def prefix_test_frame Let_def by simp_all

lemma on_tool_update_ok: "stream_ok s T S \<Longrightarrow> stream_ok (on_tool_update fmt upd now s) T S"
  by (auto simp: stream_ok_def on_tool_update_def Let_def tool_update_frame tool_update_recompute
      split: option.splits)

lemma stream_step_ok:
  assumes "stream_ok s T S" "stream_step fmt e s = Inr s'"
  shows "stream_ok s' (T @ thought_stream (chunks_of e)) (S @ message_stream (chunks_of e))"
proof (cases e)
  case (Chunk t)
  with assms on_chunk_ok show ?thesis by (auto simp: message_stream_def thought_stream_def)
next
  case (Update upd now)
  have act: "ts_active s \<noteq> None" using assms(1) by (auto simp: stream_ok_def split: option.splits)
  show ?thesis
  proof (cases "is_thought_update upd")
    case False
    with assms Update on_tool_update_ok show ?thesis
      by (auto simp: on_update_def message_stream_def thought_stream_def split: if_splits)
  next
    case th: True
    let ?t = "thought_text_of (case dget (u ''content'') upd of None \<Rightarrow> JObj [] | Some v \<Rightarrow> v)"
    obtain t where t: "?t = Inr t" "s' = (if t = [] then s else on_thought t s)"
      using assms(2) Update th thought_not_tool [OF th] act
      by (auto simp: on_update_def split: sum.splits py_exn.splits)
    with assms(1) Update th on_thought_ok [OF assms(1), of t] show ?thesis
      by (auto simp: message_stream_def thought_stream_def)
  qed
qed

lemma streams_append [simp]:
  "message_stream (xs @ ys) = message_stream xs @ message_stream ys"
  "thought_stream (xs @ ys) = thought_stream xs @ thought_stream ys"
  by (simp_all add: message_stream_def thought_stream_def)

lemma stream_run_ok:
  "stream_ok s T S \<Longrightarrow> stream_run fmt es s = Inr s' \<Longrightarrow>
   stream_ok s' (T @ thought_stream (streamed es)) (S @ message_stream (streamed es))"
proof (induction es arbitrary: s T S)
  case Nil
  then show ?case by (simp add: streamed_def message_stream_def thought_stream_def)
next
  case (Cons e es)
  from Cons.prems(2) obtain s1 where s1: "stream_step fmt e s = Inr s1" "stream_run fmt es s1 = Inr s'"
    by (auto split: sum.splits)
  from Cons.IH [OF stream_step_ok [OF Cons.prems(1) s1(1)] s1(2)] show ?case
    by (simp add: streamed_def)
qed

definition new_stream :: "active_turn \<Rightarrow> turn_stream" where
  "new_stream a = \<lparr>ts_active = Some a, ts_tool_commands = []\<rparr>"

lemma new_stream_ok: "new_active_turn chat sid msg t = Inr a \<Longrightarrow> stream_ok (new_stream a) [] []"
  using new_active_turn_window [of chat sid msg t a]
  by (auto simp: stream_ok_def new_stream_def new_active_turn_def recompute_message_text_def split: sum.splits)

lemma run_window:
  assumes "new_active_turn chat sid msg t = Inr a" "stream_run fmt es (new_stream a) = Inr s"
  obtains b where "ts_active s = Some b" "window_of b (thought_stream (streamed es)) (message_stream (streamed es))"
    "at_message_text b = at_message_text (recompute_message_text b)"
  using stream_run_ok [OF new_stream_ok [OF assms(1)] assms(2)]
  by (auto simp: stream_ok_def split: option.splits)

subsection \<open>Properties\<close>

text \<open>
  Claim C32.  The message text shown while a turn streams is the reply without the thought: when the
  message stream repeats the whole thought before the reply \<open>M\<close>, then after any sequence of chunks, thought
  updates and tool updates the text shown is the reply so far (its last 20000 characters), provided the
  streams still fit the window, or the reply alone fills it, or the thought exceeds it and the window has
  not moved past the recorded prefix.
\<close>

theorem message_text_is_the_reply_so_far:
  assumes "new_active_turn chat sid msg t = Inr a" and "stream_run fmt es (new_stream a) = Inr s"
    and "message_stream (streamed es) = thought_stream (streamed es) @ M"
    and "length (thought_stream (streamed es) @ M) \<le> MAX_THOUGHT_TEXT_CHARS \<or> MAX_THOUGHT_TEXT_CHARS \<le> length M \<or>
      (MAX_THOUGHT_TEXT_CHARS < length (thought_stream (streamed es))
        \<and> length (thought_stream (streamed es) @ M) < 2 * MAX_THOUGHT_TEXT_CHARS)"
  shows "\<exists>b. ts_active s = Some b \<and> at_message_text b = last_n MAX_THOUGHT_TEXT_CHARS M"
proof -
  obtain b where b: "ts_active s = Some b"
    "window_of b (thought_stream (streamed es)) (message_stream (streamed es))"
    "at_message_text b = at_message_text (recompute_message_text b)"
    by (rule run_window [OF assms(1,2)])
  with message_text_separated [of b "thought_stream (streamed es)" M] assms(3,4) show ?thesis by simp
qed

definition sample_turn :: active_turn where
  "sample_turn = \<lparr>at_chat_id = u ''c'', at_session_id = None, at_user_message = [],
     at_start_time = 0, at_message_text = [], at_thought_text = [], at_thought_prefix = [],
     at_full_text = [], at_thought_total = 0, at_full_text_offset = 0, at_stopped = False,
     at_current_intent = [], at_last_side_effect = [], at_last_side_effect_at = 0, at_side_effects = []\<rparr>"

lemma sample_turn_new: "new_active_turn (u ''c'') None [] 0 = Inr sample_turn"
  by (simp add: new_active_turn_def first_intent_def sample_turn_def)

definition thought_update :: "ustr \<Rightarrow> (ustr, json) dict" where
  "thought_update t = [(u ''sessionUpdate'', JStr (u ''agent_thought_chunk'')),
     (u ''content'', JObj [(u ''type'', JStr (u ''text'')), (u ''text'', JStr t)])]"

lemma thought_update_text [simp]:
  "is_thought_update (thought_update t)" "\<not> is_tool_update (thought_update t)"
  "thought_text_of (case dget (u ''content'') (thought_update t) of None \<Rightarrow> JObj [] | Some v \<Rightarrow> v) = Inr t"
  by (simp_all add: thought_update_def is_thought_update_def is_tool_update_def jget_def)

lemma thought_update_step:
  "stream_step fmt (Update (thought_update t) now) s = Inr (if t = [] then s else on_thought t s)"
  by (simp add: on_update_def)

lemma thought_then_message:
  "streamed [Update (thought_update t) now, Chunk m] = [ThoughtChunk t, MessageChunk m]"
  "thought_stream [ThoughtChunk t, MessageChunk m] = t" "message_stream [ThoughtChunk t, MessageChunk m] = m"
  by (simp_all add: streamed_def thought_stream_def message_stream_def)

lemma thought_then_message_run:
  "\<exists>s. stream_run fmt [Update (thought_update t) now, Chunk m] st = Inr s"
  by (simp add: thought_update_step del: stream_step.simps(2))

theorem message_text_is_the_reply_so_far_witness:
  "\<exists>s b. stream_run (\<lambda>v. []) [Update (thought_update (u ''hm'')) 1, Chunk (u ''hmyes'')] (new_stream sample_turn) = Inr s
     \<and> ts_active s = Some b \<and> at_message_text b = u ''yes''"
proof -
  obtain s where s: "stream_run (\<lambda>v. []) [Update (thought_update (u ''hm'')) 1, Chunk (u ''hmyes'')]
      (new_stream sample_turn) = Inr s" using thought_then_message_run by blast
  have hm: "u ''hmyes'' = u ''hm'' @ u ''yes''" by (simp add: u_def)
  have le: "length (u ''hm'' @ u ''yes'') \<le> MAX_THOUGHT_TEXT_CHARS" "length (u ''yes'') \<le> MAX_THOUGHT_TEXT_CHARS"
    by (simp_all add: u_def MAX_THOUGHT_TEXT_CHARS_def)
  from message_text_is_the_reply_so_far [OF sample_turn_new s, of "u ''yes''"] hm le s
  show ?thesis by (simp add: thought_then_message)
qed

text \<open>
  The exception: when a thought of at most 20000 characters is repeated in the message stream and
  the two together no longer fit the window, the test for the thought prefix compares the window with the
  whole thought and fails, and the tail of the thought that is still in the window is shown as part of the
  reply (unless the window happens to begin with the whole thought).
\<close>

theorem short_thought_tail_leaks:
  assumes "new_active_turn chat sid msg t = Inr a" and "stream_run fmt es (new_stream a) = Inr s"
    and "thought_stream (streamed es) = T" and "message_stream (streamed es) = T @ M"
    and "length T \<le> MAX_THOUGHT_TEXT_CHARS" and "MAX_THOUGHT_TEXT_CHARS < length (T @ M)"
    and "length M < MAX_THOUGHT_TEXT_CHARS"
    and "\<not> prefix T (drop (length (T @ M) - MAX_THOUGHT_TEXT_CHARS) T @ M)"
  shows "\<exists>b L. ts_active s = Some b \<and> at_message_text b = L @ M \<and> L \<noteq> [] \<and> suffix L T"
proof -
  obtain b where b: "ts_active s = Some b" "window_of b T (T @ M)"
    "at_message_text b = at_message_text (recompute_message_text b)"
    using run_window [OF assms(1,2)] assms(3,4) by metis
  from message_text_leak [OF b(2) assms(5-8)] b(1,3) suffix_drop show ?thesis by metis
qed

theorem short_thought_tail_leaks_witness:
  "\<exists>T M s b L. stream_run (\<lambda>v. []) [Update (thought_update T) 1, Chunk (T @ M)] (new_stream sample_turn) = Inr s
     \<and> ts_active s = Some b \<and> at_message_text b = L @ M \<and> L \<noteq> [] \<and> suffix L T"
proof -
  obtain T' :: ustr where T': "length T' = 99" "set T' \<subseteq> {2}"
    using length_replicate [of 99 "2::nat"] set_replicate_conv_if [of 99 "2::nat"] by (metis subset_refl zero_neq_numeral)
  obtain M :: ustr where M: "length M = 19950" using Ex_list_of_length by blast
  let ?T = "1 # T'"
  obtain s where s: "stream_run (\<lambda>v. []) [Update (thought_update ?T) 1, Chunk (?T @ M)] (new_stream sample_turn) = Inr s"
    using thought_then_message_run by blast
  have len: "length ?T \<le> MAX_THOUGHT_TEXT_CHARS" "MAX_THOUGHT_TEXT_CHARS < length (?T @ M)" "length M < MAX_THOUGHT_TEXT_CHARS"
    "length (?T @ M) - MAX_THOUGHT_TEXT_CHARS = Suc 49"
    using T' M by (simp_all add: MAX_THOUGHT_TEXT_CHARS_def)
  have "drop 49 T' \<noteq> []" using T' by simp
  then obtain x xs where d: "drop 49 T' = x # xs" by (cases "drop 49 T'") auto
  then have "x \<in> set T'" using set_drop_subset [of 49 T'] by auto
  with T' have "x = 2" by auto
  with d have np: "\<not> prefix ?T (drop (length (?T @ M) - MAX_THOUGHT_TEXT_CHARS) ?T @ M)"
    unfolding len(4) by simp
  have "\<exists>b L. ts_active s = Some b \<and> at_message_text b = L @ M \<and> L \<noteq> [] \<and> suffix L ?T"
    by (rule short_thought_tail_leaks [OF sample_turn_new s _ _ len(1-3) np])
      (simp_all only: thought_then_message)
  with s show ?thesis by blast
qed

text \<open>
  Tool titles do not flap: once an update of a tool call carried a command line, a later update of
  the same call that carries none is displayed under the same title, whatever title, kind or content it has.
\<close>

theorem tool_titles_do_not_flap:
  assumes "ts_active s \<noteq> None" and "raw_command upd = Some cmd" and "jget ''toolCallId'' upd = JStr i" and "i \<noteq> []"
    and "raw_command upd' = None" and "jget ''toolCallId'' upd' = JStr i"
    and "tool_title fmt (ts_tool_commands s) upd \<noteq> JStr i"
  shows "tool_title fmt (ts_tool_commands (on_tool_update fmt upd now s)) upd'
       = tool_title fmt (ts_tool_commands s) upd
    \<and> (\<exists>b. ts_active (on_tool_update fmt upd' now' (on_tool_update fmt upd now s)) = Some b
         \<and> at_last_side_effect b = composed_line fmt (tool_title fmt (ts_tool_commands s) upd) (tool_status upd'))"
proof -
  obtain a where a: "ts_active s = Some a" using assms(1) by blast
  let ?t = "tool_title fmt (ts_tool_commands s) upd"
  have tr: "truthy ?t" using assms(2) by (simp add: tool_title_def)
  have m: "dget i (ts_tool_commands (on_tool_update fmt upd now s)) = Some ?t"
    using a assms(3,4,7) by (simp add: on_tool_update_def Let_def remember_title_def)
  have t': "tool_title fmt (ts_tool_commands (on_tool_update fmt upd now s)) upd' = ?t"
    using m tr assms(5,6) by (simp add: tool_title_def)
  obtain b where "ts_active (on_tool_update fmt upd now s) = Some b"
    using a by (simp add: on_tool_update_def Let_def)
  with t' show ?thesis by (simp add: on_tool_update_def [of fmt upd'] Let_def)
qed

definition exec_update :: "(ustr, json) dict" where
  "exec_update = [(u ''toolCallId'', JStr (u ''x'')), (u ''rawInput'', JObj [(u ''cmd'', JStr (u ''ls''))])]"

theorem tool_titles_do_not_flap_witness:
  "tool_title (\<lambda>v. []) (ts_tool_commands (on_tool_update (\<lambda>v. []) exec_update 1 (new_stream sample_turn)))
     [(u ''toolCallId'', JStr (u ''x'')), (u ''title'', JStr (u ''other''))] = JStr (u ''exec: ls'')"
proof -
  have t: "tool_title (\<lambda>v. []) (ts_tool_commands (new_stream sample_turn)) exec_update = JStr (u ''exec: ls'')"
    "raw_command exec_update = Some (u ''ls'')" "jget ''toolCallId'' exec_update = JStr (u ''x'')"
    by (simp_all add: tool_title_def raw_command_def jget_def exec_update_def j_or_def)
      (simp_all add: u_def py_isspace_def strip_by_def lstrip_by_def rstrip_by_def)
  have o': "raw_command [(u ''toolCallId'', JStr (u ''x'')), (u ''title'', JStr (u ''other''))] = None"
    "jget ''toolCallId'' [(u ''toolCallId'', JStr (u ''x'')), (u ''title'', JStr (u ''other''))] = JStr (u ''x'')"
    by (simp_all add: raw_command_def jget_def)
  have ne: "ts_active (new_stream sample_turn) \<noteq> None" "u ''x'' \<noteq> []"
    "tool_title (\<lambda>v. []) (ts_tool_commands (new_stream sample_turn)) exec_update \<noteq> JStr (u ''x'')"
    unfolding t by (simp_all add: new_stream_def u_def)
  from tool_titles_do_not_flap [THEN conjunct1, OF ne(1) t(2,3) ne(2) o' ne(3)] t(1) show ?thesis by simp
qed

text \<open>
  The final reply.  An agent that repeats the thought before the reply is stripped of it; and when the
  updates end with text messages after a tool update, the final segment is that text.
\<close>

lemma final_reply_strips:
  assumes "window_of a T S" "T \<noteq> []"
  shows "final_reply_text a (T @ M) = lstrip_by (\<lambda>c. c = 10) M"
proof (cases "length T \<le> MAX_THOUGHT_TEXT_CHARS")
  case True
  with assms show ?thesis by (simp add: final_reply_text_def window_of_def)
next
  case False
  have "take MAX_THOUGHT_TEXT_CHARS T \<noteq> []" "prefix (take MAX_THOUGHT_TEXT_CHARS T) (T @ M)"
    using assms(2) by (simp_all add: MAX_THOUGHT_TEXT_CHARS_def prefix_prefix [OF take_is_prefix])
  with False assms show ?thesis by (simp add: final_reply_text_def window_of_def Let_def)
qed

definition message_update :: "ustr \<Rightarrow> (ustr, json) dict" where
  "message_update t = [(u ''sessionUpdate'', JStr (u ''agent_message_chunk'')),
     (u ''content'', JObj [(u ''type'', JStr (u ''text'')), (u ''text'', JStr t)])]"

lemma message_update_simps [simp]:
  "is_message_update (message_update t)" "\<not> is_tool_update (message_update t)"
  "content_chars (case dget (u ''content'') (message_update t) of None \<Rightarrow> JObj [] | Some v \<Rightarrow> v) = Inr (length t)"
  by (simp_all add: message_update_def is_message_update_def is_tool_update_def jget_def)

lemma segment_chars_messages: "segment_chars (map message_update ts) = Inr (length (concat ts))"
  by (induction ts) simp_all

lemma after_last_tool_none: "\<forall>x \<in> set xs. \<not> is_tool_update x \<Longrightarrow> after_last_tool xs = None"
  by (induction xs) simp_all

lemma after_last_tool_split:
  "is_tool_update x \<Longrightarrow> \<forall>y \<in> set ys. \<not> is_tool_update y \<Longrightarrow> after_last_tool (xs @ x # ys) = Some ys"
  by (induction xs) (simp_all add: after_last_tool_none)

lemma final_segment_messages:
  assumes "is_tool_update x" "concat ts \<noteq> []"
  shows "final_segment_reply (xs @ x # map message_update ts) (p @ concat ts) = Inr (Some (concat ts))"
proof -
  have "after_last_tool (xs @ x # map message_update ts) = Some (map message_update ts)"
    by (rule after_last_tool_split [OF assms(1)]) auto
  with assms(2) show ?thesis
    by (cases "p = []") (simp_all add: final_segment_reply_def segment_chars_messages last_n_def)
qed

text \<open>
  The delivered reply: when the reply repeats the thought streamed before it, of whatever length,
  the final reply is what follows the thought, without leading line feeds; and when the updates end with
  text messages after a tool update, the final segment of the reply is exactly the text of those messages.
\<close>

theorem delivered_reply_is_what_follows:
  assumes "new_active_turn chat sid msg t = Inr a" and "stream_run fmt es (new_stream a) = Inr s"
    and "thought_stream (streamed es) \<noteq> []" and "is_tool_update x" and "concat ts \<noteq> []"
  shows "(\<exists>b. ts_active s = Some b \<and>
           final_reply_text b (thought_stream (streamed es) @ M) = lstrip_by (\<lambda>c. c = 10) M)
       \<and> final_segment_reply (xs @ x # map message_update ts) (p @ concat ts) = Inr (Some (concat ts))"
proof -
  obtain b where "ts_active s = Some b" "window_of b (thought_stream (streamed es)) (message_stream (streamed es))"
    by (rule run_window [OF assms(1,2)])
  with final_reply_strips assms(3) final_segment_messages [OF assms(4,5)] show ?thesis by blast
qed

theorem delivered_reply_is_what_follows_witness:
  "\<exists>s b. stream_run (\<lambda>v. []) [Update (thought_update [7]) 1, Chunk [7, 8]] (new_stream sample_turn) = Inr s
     \<and> ts_active s = Some b \<and> final_reply_text b [7, 10, 8] = [8]"
proof -
  obtain s where s: "stream_run (\<lambda>v. []) [Update (thought_update [7]) 1, Chunk [7, 8]] (new_stream sample_turn) = Inr s"
    using thought_then_message_run by blast
  have ne: "thought_stream (streamed [Update (thought_update [7]) 1, Chunk [7, 8]]) \<noteq> []"
    by (simp only: thought_then_message) simp
  have tool: "is_tool_update [(u ''sessionUpdate'', JStr (u ''tool_call''))]"
    by (simp add: is_tool_update_def jget_def)
  from delivered_reply_is_what_follows [THEN conjunct1, OF sample_turn_new s ne tool, of "[[9]]" "[10, 8]"] s
  show ?thesis by (simp add: thought_then_message lstrip_by_def)
qed

end
