(* ===== verification/TurnReconcile.thy ===== *)
theory TurnReconcile
  imports TurnStream
begin

section \<open>Turns driven by another client\<close>

text \<open>
  \<open>src/src/diploid_agent/turn/reconcile.py\<close>: when an agent session is resumed, its whole history is replayed as
  updates; the turns in it are reconstructed, aligned with the user messages of the local transcript, and the
  turns another client drove meanwhile are adopted.  \<open>fmt\<close> is Python's \<open>str()\<close> of a JSON value that is no
  string.  Writing an adopted turn to the transcript may fail; it is logged and the turn still counts.
\<close>

record ext_turn =
  et_user :: ustr
  et_assistant :: ustr

text \<open>\<open>b.get("text", "")\<close> for the objects of a list; joining a text that is no string raises.\<close>

fun join_texts :: "json list \<Rightarrow> py_exn + ustr" where
  "join_texts [] = Inr []"
| "join_texts (JObj b # bs) =
     (case join_texts bs of
        Inl e \<Rightarrow> Inl e
      | Inr rest \<Rightarrow> (case dget (u ''text'') b of None \<Rightarrow> Inr rest | Some (JStr s) \<Rightarrow> Inr (s @ rest) | Some _ \<Rightarrow> Inl TypeError))"
| "join_texts (v # bs) = join_texts bs"

definition chunk_text :: "(json \<Rightarrow> ustr) \<Rightarrow> (ustr, json) dict \<Rightarrow> py_exn + ustr" where
  "chunk_text fmt update =
     (case dget (u ''content'') update of
        Some (JList bs) \<Rightarrow> join_texts bs
      | Some (JObj b) \<Rightarrow> Inr (case dget (u ''text'') b of None \<Rightarrow> [] | Some v \<Rightarrow> py_str fmt v)
      | _ \<Rightarrow> Inr [])"

definition empty_turn :: ext_turn where
  "empty_turn = \<lparr>et_user = [], et_assistant = []\<rparr>"

definition or_empty :: "ext_turn option \<Rightarrow> ext_turn" where
  "or_empty cur = (case cur of None \<Rightarrow> empty_turn | Some c \<Rightarrow> c)"

text \<open>The loop over the updates: \<open>current\<close> and the turns closed so far.\<close>

fun rebuild :: "(json \<Rightarrow> ustr) \<Rightarrow> (ustr, json) dict list \<Rightarrow> ext_turn option \<Rightarrow> ext_turn list \<Rightarrow> py_exn + ext_turn list" where
  "rebuild fmt [] cur done1 = Inr (case cur of None \<Rightarrow> done1 | Some c \<Rightarrow> done1 @ [c])"
| "rebuild fmt (up # ups) cur done1 =
     (let kind = jget ''sessionUpdate'' up
      in if kind = JStr (u ''user_message_chunk'')
         then (let (cur1, done2) = (case cur of
                      Some c \<Rightarrow> if et_assistant c \<noteq> [] then (None, done1 @ [c]) else (Some c, done1)
                    | None \<Rightarrow> (None, done1))
               in case chunk_text fmt up of
                    Inl e \<Rightarrow> Inl e
                  | Inr t \<Rightarrow> rebuild fmt ups (Some ((or_empty cur1)\<lparr>et_user := et_user (or_empty cur1) @ t\<rparr>)) done2)
         else if kind = JStr (u ''agent_message_chunk'')
         then (case chunk_text fmt up of
                 Inl e \<Rightarrow> Inl e
               | Inr t \<Rightarrow> rebuild fmt ups (Some ((or_empty cur)\<lparr>et_assistant := et_assistant (or_empty cur) @ t\<rparr>)) done1)
         else rebuild fmt ups cur done1)"

definition reconstruct_turns :: "(json \<Rightarrow> ustr) \<Rightarrow> (ustr, json) dict list \<Rightarrow> py_exn + ext_turn list" where
  "reconstruct_turns fmt ups = rebuild fmt ups None []"

text \<open>The last index whose user message is the one looked for.\<close>

fun last_index :: "ustr \<Rightarrow> ext_turn list \<Rightarrow> nat option" where
  "last_index msg [] = None"
| "last_index msg (t # ts) =
     (case last_index msg ts of Some i \<Rightarrow> Some (Suc i) | None \<Rightarrow> if et_user t = msg then Some 0 else None)"

text \<open>The divergences are the lines \<open>_log_divergence\<close> writes.\<close>

datatype divergence = Unaccounted_prefix "ustr list" nat | Tail_unmatched_fallback nat nat | Tail_unmatched nat nat

definition external_turns :: "ustr list \<Rightarrow> ext_turn list \<Rightarrow> ext_turn list \<times> divergence option" where
  "external_turns known replayed =
     (case (if known = [] then None else last_index (last known) replayed) of
        Some i \<Rightarrow>
          let skipped = map (take 120 \<circ> et_user) (filter (\<lambda>t. et_user t \<notin> set known) (take i replayed))
          in (drop (Suc i) replayed, if skipped = [] then None else Some (Unaccounted_prefix skipped i))
      | None \<Rightarrow>
          if length replayed > length known
          then (drop (length known) replayed, Some (Tail_unmatched_fallback (length replayed) (length known)))
          else ([], Some (Tail_unmatched (length replayed) (length known))))"

text \<open>
  \<open>reconcile_after_resume\<close>: the record (its count of external turns), the turns adopted, and whether the histories
  were aligned; \<open>Inr None\<close> when nothing was replayed.
\<close>

definition reconcile_after_resume ::
  "(json \<Rightarrow> ustr) \<Rightarrow> ustr list \<Rightarrow> (ustr, json) dict list \<Rightarrow> session_record \<Rightarrow>
   py_exn + (session_record \<times> ext_turn list \<times> bool) option" where
  "reconcile_after_resume fmt known ups r =
     (if ups = [] then Inr None
      else case reconstruct_turns fmt ups of
             Inl e \<Rightarrow> Inl e
           | Inr replayed \<Rightarrow>
               let (ext, dv) = external_turns known replayed;
                   found = known \<noteq> [] \<and> last_index (last known) replayed \<noteq> None
               in if \<not> found \<and> length replayed \<le> length known then Inr (Some (r, [], known = []))
                  else if ext = [] then Inr (Some (r, [], True))
                  else Inr (Some (r\<lparr>sr_external_turns := sr_external_turns r + int (length ext)\<rparr>, ext, found)))"

subsection \<open>What is adopted\<close>

lemma last_index_None: "last_index msg ts = None \<longleftrightarrow> msg \<notin> et_user ` set ts"
  by (induction ts) (auto split: option.splits)

lemma last_index_append:
  "last_index msg (xs @ t # ys) = Some (length xs)" if "et_user t = msg" and "msg \<notin> et_user ` set ys"
  using that last_index_None [of msg ys] by (induction xs) simp_all

text \<open>The updates an agent replays for a turn: a message in chunks, then its answer in chunks.\<close>

definition user_chunk :: "ustr \<Rightarrow> (ustr, json) dict" where
  "user_chunk s = [(u ''sessionUpdate'', JStr (u ''user_message_chunk'')), (u ''content'', JObj [(u ''text'', JStr s)])]"

definition agent_chunk :: "ustr \<Rightarrow> (ustr, json) dict" where
  "agent_chunk s = [(u ''sessionUpdate'', JStr (u ''agent_message_chunk'')), (u ''content'', JObj [(u ''text'', JStr s)])]"

definition replay_of :: "ustr list \<times> ustr list \<Rightarrow> (ustr, json) dict list" where
  "replay_of t = map user_chunk (fst t) @ map agent_chunk (snd t)"

definition turn_of :: "ustr list \<times> ustr list \<Rightarrow> ext_turn" where
  "turn_of t = \<lparr>et_user = concat (fst t), et_assistant = concat (snd t)\<rparr>"

lemma chunk_texts: "chunk_text fmt (user_chunk s) = Inr s" "chunk_text fmt (agent_chunk s) = Inr s"
  "jget ''sessionUpdate'' (user_chunk s) = JStr (u ''user_message_chunk'')"
  "jget ''sessionUpdate'' (agent_chunk s) = JStr (u ''agent_message_chunk'')"
  by (simp_all add: chunk_text_def user_chunk_def agent_chunk_def jget_def)

lemma rebuild_agents:
  "rebuild fmt (map agent_chunk as @ ups) (Some c) d = rebuild fmt ups (Some (c\<lparr>et_assistant := et_assistant c @ concat as\<rparr>)) d"
  by (induction as arbitrary: c) (simp_all add: chunk_texts or_empty_def)

lemma rebuild_users:
  "et_assistant c = [] \<Longrightarrow> rebuild fmt (map user_chunk us @ ups) (Some c) d = rebuild fmt ups (Some (c\<lparr>et_user := et_user c @ concat us\<rparr>)) d"
  by (induction us arbitrary: c) (simp_all add: chunk_texts or_empty_def)

text \<open>A turn of which something was answered.\<close>

definition answered :: "ustr list \<times> ustr list \<Rightarrow> bool" where
  "answered t \<longleftrightarrow> fst t \<noteq> [] \<and> concat (snd t) \<noteq> []"

lemma rebuild_turn:
  assumes "fst t \<noteq> []" and "case cur of None \<Rightarrow> True | Some c \<Rightarrow> et_assistant c \<noteq> []"
  shows "rebuild fmt (replay_of t @ ups) cur d = rebuild fmt ups (Some (turn_of t)) (d @ (case cur of None \<Rightarrow> [] | Some c \<Rightarrow> [c]))"
proof -
  obtain x us where t: "fst t = x # us" using assms(1) by (cases "fst t") auto
  have "rebuild fmt (replay_of t @ ups) cur d =
      rebuild fmt (map user_chunk us @ map agent_chunk (snd t) @ ups) (Some \<lparr>et_user = x, et_assistant = []\<rparr>) (d @ (case cur of None \<Rightarrow> [] | Some c \<Rightarrow> [c]))"
    using assms(2) by (cases cur) (simp_all add: replay_of_def t chunk_texts or_empty_def empty_turn_def)
  then show ?thesis by (simp add: rebuild_users rebuild_agents turn_of_def t)
qed

lemma rebuild_replay:
  "list_all answered ts \<Longrightarrow> (case cur of None \<Rightarrow> True | Some c \<Rightarrow> et_assistant c \<noteq> []) \<Longrightarrow>
   rebuild fmt (concat (map replay_of ts)) cur d = Inr (d @ (case cur of None \<Rightarrow> [] | Some c \<Rightarrow> [c]) @ map turn_of ts)"
proof (induction ts arbitrary: cur d)
  case (Cons t ts)
  have "rebuild fmt (concat (map replay_of ts)) (Some (turn_of t)) (d @ (case cur of None \<Rightarrow> [] | Some c \<Rightarrow> [c]))
      = Inr ((d @ (case cur of None \<Rightarrow> [] | Some c \<Rightarrow> [c])) @ [turn_of t] @ map turn_of ts)"
  proof -
    have "answered t" "list_all answered ts" using Cons.prems(1) by simp_all
    then show ?thesis by (subst Cons.IH) (simp_all add: answered_def turn_of_def)
  qed
  moreover have "fst t \<noteq> []" using Cons.prems(1) by (simp add: answered_def)
  ultimately show ?case using Cons.prems(2) by (simp add: rebuild_turn)
qed (simp split: option.split)

text \<open>
  The turns driven elsewhere are adopted, no more and no fewer: when the agent replays the local turns followed
  by foreign ones, each in any number of chunks, exactly the foreign ones are adopted with their texts in full
  and counted in the record; and no divergence is logged.
\<close>

theorem foreign_turns_are_adopted:
  assumes "list_all answered (own @ foreign)" and "own \<noteq> []"
    and "concat (fst (last own)) \<notin> (\<lambda>t. concat (fst t)) ` set foreign"
  shows "reconcile_after_resume fmt (map (\<lambda>t. concat (fst t)) own) (concat (map replay_of (own @ foreign))) r =
      Inr (Some (if foreign = [] then r else r\<lparr>sr_external_turns := sr_external_turns r + int (length foreign)\<rparr>, map turn_of foreign, True))
    \<and> snd (external_turns (map (\<lambda>t. concat (fst t)) own) (map turn_of (own @ foreign))) = None"
proof -
  let ?known = "map (\<lambda>t. concat (fst t)) own"
  have r: "reconstruct_turns fmt (concat (map replay_of (own @ foreign))) = Inr (map turn_of (own @ foreign))"
    unfolding reconstruct_turns_def using rebuild_replay [OF assms(1), of None fmt "[]"] by simp
  obtain own1 z where own: "own = own1 @ [z]" using assms(2) by (cases own rule: rev_cases) auto
  have l: "last_index (last ?known) (map turn_of (own @ foreign)) = Some (length own1)"
    using last_index_append [of "turn_of z" "last ?known" "map turn_of foreign" "map turn_of own1"] assms(3)
    by (simp add: own turn_of_def image_image)
  have s: "filter (\<lambda>t. et_user t \<notin> set ?known) (take (length own1) (map turn_of (own @ foreign))) = []"
    by (auto simp: own turn_of_def filter_empty_conv)
  have e: "external_turns ?known (map turn_of (own @ foreign)) = (map turn_of foreign, None)"
    unfolding external_turns_def using l s assms(2) by (simp add: own)
  have "z \<in> set own \<Longrightarrow> replay_of z \<noteq> []" using assms(1) by (auto simp: own replay_of_def answered_def)
  then have ne: "concat (map replay_of (own @ foreign)) \<noteq> []" by (auto simp: own)
  obtain every where every: "every = own @ foreign" by blast
  show ?thesis using l e ne r assms(2) unfolding every [symmetric] by (simp add: reconcile_after_resume_def)
qed

theorem foreign_turns_are_adopted_witness:
  "\<forall>r0. reconcile_after_resume (\<lambda>_. []) [u ''hi''] (replay_of ([u ''hi''], [u ''yo'']) @ replay_of ([u ''a'', u ''b''], [u ''c''])) r0 =
     Inr (Some (r0\<lparr>sr_external_turns := sr_external_turns r0 + 1\<rparr>, [\<lparr>et_user = u ''ab'', et_assistant = u ''c''\<rparr>], True))"
proof -
  have "list_all answered ([([u ''hi''], [u ''yo''])] @ [([u ''a'', u ''b''], [u ''c''])])" by (simp add: answered_def)
  note f = foreign_turns_are_adopted [OF this, of "\<lambda>_. []"]
  have "u ''hi'' \<noteq> u ''a'' @ u ''b''" "u ''a'' @ u ''b'' = u ''ab''" by (simp_all add: u_def)
  with f show ?thesis by (simp add: turn_of_def)
qed

end
