(* ===== verification/TurnPipeline.thy ===== *)
theory TurnPipeline
  imports SessionOps AcpErrors TurnReconcile
begin

section \<open>The engine call of a turn\<close>

text \<open>
  \<open>src/src/diploid_agent/turn/pipeline.py\<close> (\<open>TurnPipeline\<close>) and \<open>turn/rehydrate.py\<close> (\<open>TurnRehydrate._rehydrate\<close>): the call
  of the engine with its error classes (\<open>engine/acp.py\<close>), the recovery of a lost session by resuming, probing or
  rebuilding it, and the recording of the finished turn.  The engine is a parameter with a state of its own, so
  that a repeated call may be answered differently; what it streams is fed to the running turn.  The prompt
  builder, the plugin hooks and the memory file are parameters (\<open>turn_env\<close>); the reply references and the wake
  event of a turn only reach the prompt builder and are part of its function.  The lifecycle log, the plugin
  snapshots and the restart memory are left out.
\<close>

subsection \<open>Engine\<close>

text \<open>The text is \<open>str(exc)\<close>.  \<open>Other_exn\<close> is an exception that is neither a \<open>RuntimeError\<close> nor a \<open>TimeoutError\<close>.\<close>

datatype engine_exn =
    Timeout_exn ustr | Transport_exn ustr | Stale_exn ustr | Model_exn ustr | Mcp_exn ustr | Acp_exn ustr
  | Runtime_exn ustr | Other_exn ustr

fun exn_text :: "engine_exn \<Rightarrow> ustr" where
  "exn_text (Timeout_exn s) = s" | "exn_text (Transport_exn s) = s" | "exn_text (Stale_exn s) = s" | "exn_text (Model_exn s) = s"
| "exn_text (Mcp_exn s) = s" | "exn_text (Acp_exn s) = s" | "exn_text (Runtime_exn s) = s" | "exn_text (Other_exn s) = s"

fun caught :: "engine_exn \<Rightarrow> bool" where
  "caught (Other_exn _) = False" | "caught _ = True"

fun is_timeout :: "engine_exn \<Rightarrow> bool" where
  "is_timeout (Timeout_exn _) = True" | "is_timeout _ = False"

fun is_transport_error :: "engine_exn \<Rightarrow> bool" where
  "is_transport_error (Timeout_exn _) = True" | "is_transport_error (Transport_exn _) = True" | "is_transport_error _ = False"

fun is_fatal_acp_error :: "engine_exn \<Rightarrow> bool" where
  "is_fatal_acp_error (Model_exn _) = True" | "is_fatal_acp_error (Mcp_exn _) = True" | "is_fatal_acp_error _ = False"

fun is_acp_error :: "engine_exn \<Rightarrow> bool" where
  "is_acp_error (Timeout_exn _) = False" | "is_acp_error (Runtime_exn _) = False" | "is_acp_error (Other_exn _) = False"
| "is_acp_error _ = True"

definition stale_text :: "ustr \<Rightarrow> bool" where
  "stale_text msg \<longleftrightarrow>
     \<not> mentions ''model'' msg \<and> \<not> mentions ''mcp'' msg \<and> mentions ''session'' msg
     \<and> (mentions ''not found'' msg \<or> mentions ''invalid'' msg \<or> mentions ''expired'' msg \<or> mentions ''stale'' msg \<or> mentions ''empty reply'' msg)"

fun is_stale_session_error :: "(ustr \<Rightarrow> ustr) \<Rightarrow> engine_exn \<Rightarrow> bool" where
  "is_stale_session_error lower (Stale_exn _) = True"
| "is_stale_session_error lower (Acp_exn s) = stale_text (lower s)"
| "is_stale_session_error lower (Runtime_exn s) = stale_text (lower s)"
| "is_stale_session_error lower _ = False"

record prompt_result =
  pr_reply :: ustr
  pr_session_id :: "ustr option"
  pr_model :: "ustr option"
  pr_stop_reason :: "ustr option"
  pr_usage :: "(ustr, json) dict option"
  pr_cancelled :: bool
  pr_partial :: bool
  pr_timed_out :: bool

text \<open>A prompt: its text, the model, the MCP servers of a new session, the session (\<open>None\<close>: a new one).\<close>

record turn_request =
  rq_prompt :: ustr
  rq_model :: ustr
  rq_servers :: "rendered_server list option"
  rq_session :: "ustr option"

record 'e engine_ops =
  eo_prompt :: "turn_request \<Rightarrow> 'e \<Rightarrow> 'e \<times> chunk list \<times> (engine_exn + prompt_result)"
  eo_resume :: "ustr \<Rightarrow> ustr \<Rightarrow> rendered_server list \<Rightarrow> 'e \<Rightarrow> 'e \<times> (engine_exn + ustr option)"
  eo_alive :: "ustr \<Rightarrow> 'e \<Rightarrow> 'e \<times> (engine_exn + bool)"
  eo_restart :: "ustr \<Rightarrow> 'e \<Rightarrow> 'e \<times> engine_exn option"
  eo_drain :: "ustr option \<Rightarrow> 'e \<Rightarrow> 'e \<times> (engine_exn + (ustr, json) dict list)"

record turn_prompt = prompt_ctx +
  tp_force_new :: bool

datatype rehydration = By_timeout | By_restart | By_stale | By_resume

text \<open>What \<open>after_engine_call\<close> hands back.\<close>

record result_ctx =
  rc_result :: prompt_result
  rc_reply :: ustr
  rc_usage :: "(ustr, json) dict option"
  rc_stop_reason :: "ustr option"

record 'e turn_env =
  te_session :: session_env
  te_engine :: "'e engine_ops"
  te_lower :: "ustr \<Rightarrow> ustr"
  te_str :: "json \<Rightarrow> ustr"
  te_first :: "runtime \<Rightarrow> ustr \<Rightarrow> ustr \<Rightarrow> session_record option \<Rightarrow> ustr \<Rightarrow> rehydration option \<Rightarrow> turn_prompt"
  te_follow_up :: "runtime \<Rightarrow> ustr \<Rightarrow> ustr \<Rightarrow> session_record \<Rightarrow> rehydration option \<Rightarrow> turn_prompt"
  te_before_call :: "turn_request \<Rightarrow> chat_result + turn_request"
  te_after_call :: "prompt_result \<Rightarrow> result_ctx"
  te_known_users :: "runtime \<Rightarrow> ustr \<Rightarrow> ustr list"

record 'e call =
  cl_engine :: 'e
  cl_active :: active_turn
  cl_rt :: runtime

text \<open>A call ends early with a result, or with an exception.\<close>

datatype 'r ending = Done 'r | Early chat_result | Raised engine_exn

definition prompt_engine :: "'e turn_env \<Rightarrow> turn_request \<Rightarrow> 'e call \<Rightarrow> 'e call \<times> (engine_exn + prompt_result)" where
  "prompt_engine env rq c =
     (case eo_prompt (te_engine env) rq (cl_engine c) of
        (e, chunks, r) \<Rightarrow> (c\<lparr>cl_engine := e, cl_active := foldl feed (cl_active c) chunks\<rparr>, r))"

definition restart_engine :: "'e turn_env \<Rightarrow> ustr \<Rightarrow> 'e call \<Rightarrow> 'e call \<times> bool" where
  "restart_engine env reason c =
     (case eo_restart (te_engine env) reason (cl_engine c) of (e, x) \<Rightarrow> (c\<lparr>cl_engine := e\<rparr>, x = None))"

text \<open>Joining notices: the empty ones are left out.\<close>

definition join_notices :: "ustr option list \<Rightarrow> ustr option" where
  "join_notices parts =
     (let ps = filter (\<lambda>p. p \<noteq> []) (List.map_filter id parts)
      in if ps = [] then None else Some (foldl (\<lambda>s p. s @ [10, 10] @ p) (hd ps) (tl ps)))"

subsection \<open>Rehydrating a session\<close>

definition unrestartable :: chat_result where
  "unrestartable = (mk_result (u ''Could not restart the ACP transport.''))
     \<lparr>cr_notice := Some (u ''The agent is unavailable after a transport restart failure.'')\<rparr>"

definition unresponsive :: chat_result where
  "unresponsive = (mk_result (u ''The ACP transport is not responding after multiple attempts.''))
     \<lparr>cr_notice := Some (u ''Please check the agent configuration and try again.'')\<rparr>"

definition could_not_continue :: "engine_exn \<Rightarrow> ustr \<Rightarrow> chat_result" where
  "could_not_continue e notice = (mk_result (u ''Could not continue: '' @ exn_text e))\<lparr>cr_notice := Some notice\<rparr>"

text \<open>The record object as the registry holds it now (it may have been changed since it was read).\<close>

definition object_of :: "session_record option \<Rightarrow> runtime \<Rightarrow> session_record option" where
  "object_of old rt =
     (case old of None \<Rightarrow> None
      | Some r \<Rightarrow> (case dget (sr_session_number r) (sessions_of (sr_chat_id r) (st_states (rt_store rt))) of None \<Rightarrow> Some r | Some x \<Rightarrow> Some x))"

text \<open>The record object the turn began with is marked, in the registry only.\<close>

definition mark_error :: "session_record option \<Rightarrow> 'e call \<Rightarrow> 'e call" where
  "mark_error old c =
     (case object_of old (cl_rt c) of None \<Rightarrow> c | Some r \<Rightarrow> c\<lparr>cl_rt := put_record (r\<lparr>sr_last_stop_reason := Some (u ''error'')\<rparr>) (cl_rt c)\<rparr>)"

text \<open>\<open>_start_new_session\<close>: the skills are synchronised, then the engine opens a session.\<close>

definition open_session :: "'e turn_env \<Rightarrow> ustr \<Rightarrow> ustr \<Rightarrow> ustr \<Rightarrow> 'e call \<Rightarrow> 'e call \<times> (engine_exn + prompt_result)" where
  "open_session env chat prompt model c =
     (let se = te_session env; rt = cl_rt c; d = rt_dirs rt chat;
          rt1 = put_dirs chat (d\<lparr>sd_active := Some (se_sync_skills se (skill_names se chat rt) (case sd_active d of None \<Rightarrow> [] | Some a \<Rightarrow> a))\<rparr>) rt;
          rq = \<lparr>rq_prompt = prompt, rq_model = model, rq_servers = Some (active_mcp_servers (se_tools se) (se_chat_dir se) chat (rt_store rt)),
                rq_session = None\<rparr>
      in case prompt_engine env rq (c\<lparr>cl_rt := rt1\<rparr>) of
           (c1, Inl e) \<Rightarrow> (c1, Inl e)
         | (c1, Inr res) \<Rightarrow>
             (case pr_session_id res of
                None \<Rightarrow> (c1, Inl (Acp_exn (u ''ACP acp.create_session failed: Engine returned a result without a session id'')))
              | Some sid \<Rightarrow> (c1, Inr res)))"

text \<open>At most two attempts, with a restart in between.\<close>

definition unrecoverable :: "'e turn_env \<Rightarrow> engine_exn \<Rightarrow> bool" where
  "unrecoverable env e \<longleftrightarrow>
     is_fatal_acp_error e
     \<or> (\<not> is_timeout e \<and> is_acp_error e \<and> \<not> is_stale_session_error (te_lower env) e \<and> \<not> is_transport_error e)"

fun open_attempts ::
  "'e turn_env \<Rightarrow> ustr \<Rightarrow> session_record option \<Rightarrow> ustr \<Rightarrow> turn_prompt \<Rightarrow> ustr \<Rightarrow> nat \<Rightarrow> 'e call \<Rightarrow>
   'e call \<times> (prompt_result \<times> ustr option \<times> turn_prompt) ending" where
  "open_attempts env chat old lg pctx model retries c =
     (case open_session env chat (pc_prompt pctx) model c of
        (c1, Inr res) \<Rightarrow> (c1, Done (res, pr_session_id res, pctx))
      | (c1, Inl e) \<Rightarrow>
          if \<not> caught e then (c1, Raised e)
          else if unrecoverable env e
          then (mark_error old c1, Early (could_not_continue e (u ''An ACP configuration error prevented the turn from completing.'')))
          else case retries of
                 0 \<Rightarrow> (mark_error old c1, Early unresponsive)
               | Suc n \<Rightarrow>
                   (case restart_engine env lg c1 of
                      (c2, False) \<Rightarrow> (mark_error old c2, Early unrestartable)
                    | (c2, True) \<Rightarrow> open_attempts env chat old lg pctx model n c2))"

declare open_attempts.simps [simp del]

text \<open>
  A follow-up prompt on a session that was found again.  A failing reconciliation is logged and ignored; the
  count of adopted turns is kept in the record object.
\<close>

definition follow_request :: "'e turn_env \<Rightarrow> runtime \<Rightarrow> ustr \<Rightarrow> ustr \<Rightarrow> session_record \<Rightarrow> ustr \<Rightarrow> ustr option \<Rightarrow> turn_prompt \<times> turn_request" where
  "follow_request env rt chat msg r model sid =
     (let pctx = te_follow_up env rt chat msg r (Some By_resume)
      in (pctx, \<lparr>rq_prompt = pc_prompt pctx, rq_model = opt_or (pc_model pctx) model, rq_servers = None, rq_session = sid\<rparr>))"

definition adopt_external :: "'e turn_env \<Rightarrow> ustr \<Rightarrow> ustr option \<Rightarrow> session_record \<Rightarrow> 'e call \<Rightarrow> 'e call \<times> session_record \<times> nat" where
  "adopt_external env chat sid r c =
     (case eo_drain (te_engine env) sid (cl_engine c) of
        (e, Inl x) \<Rightarrow> (c\<lparr>cl_engine := e\<rparr>, r, 0)
      | (e, Inr ups) \<Rightarrow>
          (case reconcile_after_resume (te_str env) (te_known_users env (cl_rt c) chat) ups r of
             Inr (Some (r', ext, ok)) \<Rightarrow> (c\<lparr>cl_engine := e, cl_rt := put_record r' (cl_rt c)\<rparr>, r', length ext)
           | _ \<Rightarrow> (c\<lparr>cl_engine := e\<rparr>, r, 0)))"

definition adopted_notice :: "nat \<Rightarrow> ustr option" where
  "adopted_notice n = (if n = 0 then None else Some (u ''adopted '' @ str_of_nat n @ u '' externally-driven turn(s) on resume''))"

text \<open>\<open>Inl true\<close>: the session was resumed but the prompt failed, so that it is not probed again.\<close>

definition resume_and_prompt ::
  "'e turn_env \<Rightarrow> ustr \<Rightarrow> ustr \<Rightarrow> session_record \<Rightarrow> ustr \<Rightarrow> 'e call \<Rightarrow>
   'e call \<times> (bool + (prompt_result \<times> ustr option \<times> turn_prompt) ending)" where
  "resume_and_prompt env chat msg r model c =
     (case eo_resume (te_engine env) (sr_session_id r) model
             (active_mcp_servers (se_tools (te_session env)) (se_chat_dir (te_session env)) chat (rt_store (cl_rt c))) (cl_engine c) of
        (e, Inl x) \<Rightarrow> (c\<lparr>cl_engine := e\<rparr>, if caught x then Inl False else Inr (Raised x))
      | (e, Inr sid) \<Rightarrow>
          (case adopt_external env chat sid r (c\<lparr>cl_engine := e\<rparr>) of
             (c1, r1, n) \<Rightarrow>
               (case follow_request env (cl_rt c1) chat msg r1 model sid of
                  (pctx, rq) \<Rightarrow>
                    (case prompt_engine env rq c1 of
                       (c2, Inl x) \<Rightarrow> (c2, if caught x then Inl (nonempty_id sid \<noteq> None) else Inr (Raised x))
                     | (c2, Inr res) \<Rightarrow> (c2, Inr (Done (res, sid, pctx\<lparr>pc_notice := join_notices [pc_notice pctx, adopted_notice n]\<rparr>)))))))"

definition probe_and_prompt ::
  "'e turn_env \<Rightarrow> ustr \<Rightarrow> ustr \<Rightarrow> session_record \<Rightarrow> ustr \<Rightarrow> 'e call \<Rightarrow>
   'e call \<times> (prompt_result \<times> ustr option \<times> turn_prompt) ending option" where
  "probe_and_prompt env chat msg r model c =
     (case eo_alive (te_engine env) (sr_session_id r) (cl_engine c) of
        (e, Inr True) \<Rightarrow>
          (case follow_request env (cl_rt c) chat msg r model (Some (sr_session_id r)) of
             (pctx, rq) \<Rightarrow>
               (case prompt_engine env rq (c\<lparr>cl_engine := e\<rparr>) of
                  (c1, Inl x) \<Rightarrow> (c1, Some (Raised x))
                | (c1, Inr res) \<Rightarrow> (c1, Some (Done (res, Some (sr_session_id r), pctx)))))
      | (e, _) \<Rightarrow> (c\<lparr>cl_engine := e\<rparr>, None))"

definition rebuild_session ::
  "'e turn_env \<Rightarrow> ustr \<Rightarrow> ustr \<Rightarrow> session_record option \<Rightarrow> ustr \<Rightarrow> rehydration \<Rightarrow> ustr \<Rightarrow> 'e call \<Rightarrow>
   'e call \<times> (prompt_result \<times> ustr option \<times> turn_prompt) ending" where
  "rebuild_session env chat msg old model why lg c =
     (let pctx = te_first env (cl_rt c) chat msg old model (Some why)
      in open_attempts env chat old lg pctx (opt_or (pc_model pctx) model) 1 c)"

definition rehydrate ::
  "'e turn_env \<Rightarrow> ustr \<Rightarrow> ustr \<Rightarrow> session_record option \<Rightarrow> ustr \<Rightarrow> bool \<Rightarrow> ustr \<Rightarrow> bool \<Rightarrow> 'e call \<Rightarrow>
   'e call \<times> (prompt_result \<times> ustr option \<times> turn_prompt) ending" where
  "rehydrate env chat msg old model restart_first lg allow_resume c0 =
     (case (if restart_first then restart_engine env lg c0 else (c0, True)) of
        (c1, False) \<Rightarrow> (c1, Early unrestartable)
      | (c1, True) \<Rightarrow>
          let why = (if restart_first then By_restart else By_stale);
              rec1 = object_of old (cl_rt c1);
              can = allow_resume \<and> (case rec1 of None \<Rightarrow> False
                      | Some r \<Rightarrow> can_resume_record r (skill_names (te_session env) chat (cl_rt c1)))
          in case rec1 of
               None \<Rightarrow> rebuild_session env chat msg None model why lg c1
             | Some r \<Rightarrow>
                 (case (if se_resume_enabled (te_session env) \<and> can then resume_and_prompt env chat msg r model c1 else (c1, Inl False)) of
                    (c2, Inr res) \<Rightarrow> (c2, res)
                  | (c2, Inl resumed) \<Rightarrow>
                      (case (if can \<and> \<not> resumed then probe_and_prompt env chat msg r model c2 else (c2, None)) of
                         (c3, Some res) \<Rightarrow> (c3, res)
                       | (c3, None) \<Rightarrow> rebuild_session env chat msg (object_of old (cl_rt c3)) model why lg c3)))"

subsection \<open>The engine call\<close>

record call_args =
  ca_chat :: ustr
  ca_message :: ustr
  ca_prompt :: ustr
  ca_model :: ustr
  ca_old :: "session_record option"
  ca_is_new :: bool
  ca_force_new :: bool
  ca_resync :: bool

record engine_outcome =
  oc_result :: prompt_result
  oc_session_id :: "ustr option"
  oc_reply :: ustr
  oc_model :: ustr
  oc_is_new :: bool
  oc_notice :: "ustr option"
  oc_persona_exceeded :: bool
  oc_chat_exceeded :: bool

definition or_id :: "ustr option \<Rightarrow> ustr option \<Rightarrow> ustr option" where
  "or_id a b = (case nonempty_id a of None \<Rightarrow> b | Some x \<Rightarrow> Some x)"

text \<open>A record without a session id (\<open>None\<close> in Python) has the empty one.\<close>

definition recorded_id :: "session_record option \<Rightarrow> ustr option" where
  "recorded_id old = (case old of None \<Rightarrow> None | Some r \<Rightarrow> nonempty_id (Some (sr_session_id r)))"

definition boundary :: "call_args \<Rightarrow> bool" where
  "boundary a \<longleftrightarrow> ca_is_new a \<or> ca_force_new a"

definition first_request :: "'e turn_env \<Rightarrow> call_args \<Rightarrow> runtime \<Rightarrow> turn_request" where
  "first_request env a rt =
     \<lparr>rq_prompt = ca_prompt a, rq_model = ca_model a,
      rq_servers = (if boundary a then Some (active_mcp_servers (se_tools (te_session env)) (se_chat_dir (te_session env)) (ca_chat a) (rt_store rt)) else None),
      rq_session = (if boundary a then None else recorded_id (ca_old a))\<rparr>"

definition after_call :: "'e turn_env \<Rightarrow> prompt_result \<Rightarrow> prompt_result" where
  "after_call env res =
     (let rc = te_after_call env res
      in (rc_result rc)\<lparr>pr_reply := rc_reply rc, pr_usage := rc_usage rc, pr_stop_reason := rc_stop_reason rc\<rparr>)"

text \<open>The result of a plugin that answers in place of the engine.\<close>

definition plugin_result :: "chat_result \<Rightarrow> prompt_result" where
  "plugin_result cr = \<lparr>pr_reply = cr_reply cr, pr_session_id = cr_session_id cr, pr_model = None, pr_stop_reason = None, pr_usage = None,
     pr_cancelled = False, pr_partial = False, pr_timed_out = False\<rparr>"

text \<open>
  MCP drift on a live session: it is resumed with the new servers.  The flag says that the resume itself failed;
  a transport error of it counts as a stale session.
\<close>

definition resync :: "'e turn_env \<Rightarrow> call_args \<Rightarrow> turn_request \<Rightarrow> 'e call \<Rightarrow> 'e call \<times> bool \<times> (engine_exn + ustr option)" where
  "resync env a rq c =
     (case recorded_id (ca_old a) of
        None \<Rightarrow> (c, False, Inr None)
      | Some old \<Rightarrow>
          if \<not> ca_resync a \<or> rq_session rq \<notin> {None, Some old} then (c, False, Inr None)
          else case eo_resume (te_engine env) old (ca_model a)
                     (active_mcp_servers (se_tools (te_session env)) (se_chat_dir (te_session env)) (ca_chat a) (rt_store (cl_rt c))) (cl_engine c) of
                 (e, Inl x) \<Rightarrow> (c\<lparr>cl_engine := e\<rparr>, caught x, Inl (if is_transport_error x then Stale_exn (exn_text x) else x))
               | (e, Inr sid) \<Rightarrow>
                   if nonempty_id sid = None then (c\<lparr>cl_engine := e\<rparr>, False, Inr None)
                   else case eo_drain (te_engine env) sid e of
                          (e2, Inl x) \<Rightarrow> (c\<lparr>cl_engine := e2\<rparr>, False, Inl x)
                        | (e2, Inr ups) \<Rightarrow> (c\<lparr>cl_engine := e2\<rparr>, False, Inr sid))"

definition set_active_id :: "ustr option \<Rightarrow> 'e call \<Rightarrow> 'e call" where
  "set_active_id sid c = c\<lparr>cl_active := (cl_active c)\<lparr>at_session_id := sid\<rparr>\<rparr>"

text \<open>The body of the \<open>try\<close>: the result and the session it belongs to.\<close>

definition first_call :: "'e turn_env \<Rightarrow> call_args \<Rightarrow> 'e call \<Rightarrow> 'e call \<times> bool \<times> (engine_exn + prompt_result \<times> ustr option)" where
  "first_call env a c =
     (case te_before_call env (first_request env a (cl_rt c)) of
        Inl cr \<Rightarrow> (let res = rc_result (te_after_call env (plugin_result cr)) in (c, False, Inr (res, or_id (pr_session_id res) None)))
      | Inr rq \<Rightarrow>
          if boundary a
          then (case prompt_engine env (rq\<lparr>rq_session := None\<rparr>) c of
                  (c1, Inl x) \<Rightarrow> (c1, False, Inl x)
                | (c1, Inr res) \<Rightarrow>
                    let res' = after_call env res
                    in (set_active_id (pr_session_id res) c1, False, Inr (res', or_id (pr_session_id res') (pr_session_id res))))
          else (case resync env a rq c of
                  (c1, failed, Inl x) \<Rightarrow> (c1, failed, Inl x)
                | (c1, failed, Inr resumed) \<Rightarrow>
                    (case prompt_engine env (rq\<lparr>rq_session := or_id (rq_session rq) (or_id resumed (recorded_id (ca_old a)))\<rparr>) c1 of
                       (c2, Inl x) \<Rightarrow> (c2, False, Inl x)
                     | (c2, Inr res) \<Rightarrow>
                         let res' = after_call env res
                         in (c2, False, Inr (res', or_id (pr_session_id res') (or_id (pr_session_id res) (recorded_id (ca_old a))))))))"

definition settled ::
  "'e call \<Rightarrow> prompt_result \<Rightarrow> ustr option \<Rightarrow> ustr \<Rightarrow> bool \<Rightarrow> ustr option \<Rightarrow> bool \<Rightarrow> bool \<Rightarrow> engine_outcome" where
  "settled c res sid model is_new notice pe ce =
     \<lparr>oc_result = res, oc_session_id = sid, oc_reply = final_reply_text (cl_active c) (pr_reply res), oc_model = model, oc_is_new = is_new,
      oc_notice = notice, oc_persona_exceeded = pe, oc_chat_exceeded = ce\<rparr>"

text \<open>Taking over what a rehydration found.\<close>

definition after_rehydrate ::
  "call_args \<Rightarrow> ustr \<Rightarrow> ustr option \<Rightarrow> 'e call \<times> (prompt_result \<times> ustr option \<times> turn_prompt) ending \<Rightarrow> 'e call \<times> engine_outcome ending" where
  "after_rehydrate a model notice x =
     (case x of
        (c, Done (res, sid, pctx)) \<Rightarrow>
          (let c1 = set_active_id (pr_session_id res) c
           in (c1, Done (settled c1 res sid (opt_or (pc_model pctx) model) (sid \<noteq> recorded_id (ca_old a)) (join_notices [notice, pc_notice pctx])
                 (pc_persona_exceeded pctx) (pc_chat_exceeded pctx))))
      | (c, Early r) \<Rightarrow> (c, Early r)
      | (c, Raised e) \<Rightarrow> (c, Raised e))"

text \<open>The classes of errors and what is done about them.\<close>

definition recover ::
  "'e turn_env \<Rightarrow> call_args \<Rightarrow> bool \<Rightarrow> engine_exn \<Rightarrow> 'e call \<Rightarrow> 'e call \<times> engine_outcome ending" where
  "recover env a resync_failed x c =
     (let again = (\<lambda>restart_first lg. after_rehydrate a (ca_model a) None
             (rehydrate env (ca_chat a) (ca_message a) (ca_old a) (ca_model a) restart_first lg (\<not> boundary a \<and> \<not> resync_failed) c))
      in if \<not> caught x then (c, Raised x)
         else if is_transport_error x then again True (u ''ACP transport unresponsive'')
         else if is_stale_session_error (te_lower env) x then again False (u ''ACP session stale'')
         else if is_acp_error x
         then (mark_error (ca_old a) c, Early (could_not_continue x (u ''An ACP error prevented the turn from completing.'')))
         else (c, Early ((mk_result (u ''Unexpected error: '' @ exn_text x))\<lparr>cr_notice := Some (u ''The turn stopped due to an unexpected error.'')\<rparr>)))"

text \<open>An empty reply is taken for a stale session, once.\<close>

definition retry_empty :: "'e turn_env \<Rightarrow> call_args \<Rightarrow> 'e call \<times> engine_outcome ending \<Rightarrow> 'e call \<times> engine_outcome ending" where
  "retry_empty env a x =
     (case x of
        (c, Done oc) \<Rightarrow>
          if pr_reply (oc_result oc) = [] \<and> \<not> pr_partial (oc_result oc)
          then after_rehydrate a (oc_model oc) (oc_notice oc)
                 (rehydrate env (ca_chat a) (ca_message a) (ca_old a) (oc_model oc) False (u ''ACP empty-reply rehydration'')
                    (\<not> boundary a \<and> oc_session_id oc = recorded_id (ca_old a)) c)
          else (c, Done oc)
      | other \<Rightarrow> other)"

definition call_engine :: "'e turn_env \<Rightarrow> call_args \<Rightarrow> bool \<Rightarrow> bool \<Rightarrow> 'e call \<Rightarrow> 'e call \<times> engine_outcome ending" where
  "call_engine env a pe ce c =
     retry_empty env a
       (case first_call env a c of
          (c1, failed, Inr (res, sid)) \<Rightarrow> (c1, Done (settled c1 res sid (ca_model a) (ca_is_new a) None pe ce))
        | (c1, failed, Inl x) \<Rightarrow> recover env a failed x c1)"

end
