(* ===== verification/Metrics.thy ===== *)
theory Metrics
  imports Models "HOL-Library.List_Lexorder"
begin

section \<open>Metrics: the collector and the totals of the runtime\<close>

text \<open>
  \<open>src/src/diploid_agent/metrics.py\<close> (\<open>MetricsCollector\<close>) and the bookkeeping of
  \<open>src/src/diploid_agent/runtime/metrics.py\<close> (\<open>RuntimeMetrics\<close>): the totals of each chat and of all chats,
  recorded after each turn and read back from the session records at the start of the process.  The usage an
  engine reports maps names to integers; \<open>fl\<close> is Python's text of a number.  The health probe is left out.
\<close>

subsection \<open>Labels\<close>

definition replace_char :: "nat \<Rightarrow> ustr \<Rightarrow> ustr \<Rightarrow> ustr" where
  "replace_char c r s = concat (map (\<lambda>x. if x = c then r else [x]) s)"

definition escape_label_value :: "ustr \<Rightarrow> ustr" where
  "escape_label_value s = [34] @ replace_char 10 [92, 110] (replace_char 34 [92, 34] (replace_char 92 [92, 92] s)) @ [34]"

text \<open>How a scraper reads such a value: up to the first quote that is not escaped.\<close>

fun scan_label :: "ustr \<Rightarrow> (ustr \<times> ustr) option" where
  "scan_label [] = None"
| "scan_label (c # s) =
     (if c = 34 then Some ([], s)
      else if c = 92
      then (case s of
              [] \<Rightarrow> None
            | d # s' \<Rightarrow> map_option (\<lambda>(x, rest). ((if d = 110 then 10 else d) # x, rest)) (scan_label s'))
      else map_option (\<lambda>(x, rest). (c # x, rest)) (scan_label s))"

lemma replace_char_simps [simp]:
  "replace_char c r [] = []" "replace_char c r (x # s) = (if x = c then r else [x]) @ replace_char c r s"
  "replace_char c r (s @ t) = replace_char c r s @ replace_char c r t"
  by (simp_all add: replace_char_def)

lemma scan_escaped:
  "scan_label (replace_char 10 [92, 110] (replace_char 34 [92, 34] (replace_char 92 [92, 92] s)) @ 34 # rest) = Some (s, rest)"
  by (induction s) auto

subsection \<open>The collector\<close>

type_synonym label_set = "(ustr \<times> ustr) list"

record collector =
  mc_counters :: "(ustr, (label_set, real) dict) dict"
  mc_gauges :: "(ustr, (label_set, real) dict) dict"

definition label_key :: "(ustr, ustr) dict \<Rightarrow> label_set" where
  "label_key labels = sort labels"

definition values_of :: "ustr \<Rightarrow> (ustr, (label_set, real) dict) dict \<Rightarrow> (label_set, real) dict" where
  "values_of name d = (case dget name d of None \<Rightarrow> [] | Some vs \<Rightarrow> vs)"

definition value_at :: "label_set \<Rightarrow> (label_set, real) dict \<Rightarrow> real" where
  "value_at k vs = (case dget k vs of None \<Rightarrow> 0 | Some v \<Rightarrow> v)"

definition metric_inc :: "ustr \<Rightarrow> real \<Rightarrow> (ustr, ustr) dict \<Rightarrow> collector \<Rightarrow> collector" where
  "metric_inc name v labels c =
     (let vs = values_of name (mc_counters c); k = label_key labels
      in c\<lparr>mc_counters := dset name (dset k (value_at k vs + v) vs) (mc_counters c)\<rparr>)"

definition metric_set :: "ustr \<Rightarrow> real \<Rightarrow> (ustr, ustr) dict \<Rightarrow> collector \<Rightarrow> collector" where
  "metric_set name v labels c =
     c\<lparr>mc_gauges := dset name (dset (label_key labels) v (values_of name (mc_gauges c))) (mc_gauges c)\<rparr>"

definition metric_get :: "ustr \<Rightarrow> (ustr, ustr) dict \<Rightarrow> collector \<Rightarrow> real" where
  "metric_get name labels c =
     (case dget name (mc_counters c) of
        Some vs \<Rightarrow> value_at (label_key labels) vs
      | None \<Rightarrow> value_at (label_key labels) (values_of name (mc_gauges c)))"

fun join_with :: "ustr \<Rightarrow> ustr list \<Rightarrow> ustr" where
  "join_with sep [] = []"
| "join_with sep [x] = x"
| "join_with sep (x # y # xs) = x @ sep @ join_with sep (y # xs)"

definition format_labels :: "label_set \<Rightarrow> ustr" where
  "format_labels ls =
     (if ls = [] then []
      else u ''{'' @ join_with (u '','') (map (\<lambda>(k, v). k @ u ''='' @ escape_label_value v) ls) @ u ''}'')"

definition render_family :: "(real \<Rightarrow> ustr) \<Rightarrow> ustr \<Rightarrow> ustr \<Rightarrow> ustr \<Rightarrow> ustr \<times> (label_set, real) dict \<Rightarrow> ustr list" where
  "render_family fl pfx help kind nv =
     (let full = pfx @ u ''_'' @ fst nv
      in [u ''# HELP '' @ full @ u '' '' @ help, u ''# TYPE '' @ full @ u '' '' @ kind]
         @ map (\<lambda>(k, v). full @ format_labels k @ u '' '' @ fl v) (sort_key fst (snd nv)))"

definition render :: "(real \<Rightarrow> ustr) \<Rightarrow> ustr \<Rightarrow> collector \<Rightarrow> ustr" where
  "render fl pfx c =
     join_with [10] (concat (map (render_family fl pfx (u ''Total count'') (u ''counter'')) (sort_key fst (mc_counters c)))
       @ concat (map (render_family fl pfx (u ''Current value'') (u ''gauge'')) (sort_key fst (mc_gauges c)))) @ [10]"

lemma metric_get_inc:
  "metric_get n l (metric_inc name v labels c) =
     (if n = name then value_at (label_key l) (values_of name (mc_counters c)) + (if label_key l = label_key labels then v else 0)
      else metric_get n l c)"
  by (simp add: metric_get_def metric_inc_def value_at_def values_of_def Let_def split: option.split)

text \<open>The increments of one counter, in order.\<close>

definition incs :: "(ustr \<times> real \<times> (ustr, ustr) dict) list \<Rightarrow> collector \<Rightarrow> collector" where
  "incs xs c = foldl (\<lambda>c (name, v, labels). metric_inc name v labels c) c xs"

lemma incs_value:
  "value_at (label_key l) (values_of n (mc_counters (incs xs c))) =
     value_at (label_key l) (values_of n (mc_counters c))
     + sum_list (map (\<lambda>(name, v, labels). if name = n \<and> label_key labels = label_key l then v else 0) xs)"
proof (induction xs arbitrary: c)
  case (Cons x xs)
  obtain name v labels where x: "x = (name, v, labels)" by (cases x) auto
  have "incs (x # xs) c = incs xs (metric_inc name v labels c)" by (simp add: incs_def x)
  with Cons.IH [of "metric_inc name v labels c"] show ?case
    by (simp add: x metric_inc_def value_at_def values_of_def Let_def split: option.split)
qed (simp add: incs_def)

subsection \<open>Rounding\<close>

text \<open>\<open>round(x, n)\<close> of Python: halves to the even neighbour.\<close>

definition round_half_even :: "real \<Rightarrow> int" where
  "round_half_even x =
     (let f = \<lfloor>x\<rfloor>; r = x - of_int f
      in if r < 1 / 2 then f else if r > 1 / 2 then f + 1 else if even f then f else f + 1)"

definition py_round :: "nat \<Rightarrow> real \<Rightarrow> real" where
  "py_round n x = of_int (round_half_even (x * 10 ^ n)) / 10 ^ n"

subsection \<open>\<open>RuntimeMetrics\<close>\<close>

record totals =
  mt_turns :: int
  mt_input :: int
  mt_output :: int
  mt_total :: int
  mt_cached :: int
  mt_latency :: real

record chat_metrics = totals +
  cm_cumulative :: "(ustr, json) dict"
  cm_last_turn :: "(ustr, json) dict option"

record runtime_metrics =
  rm_per_chat :: "(ustr, chat_metrics) dict"
  rm_global :: totals
  rm_recent :: "(ustr, json) dict list"
  rm_collector :: collector

definition zero_totals :: totals where
  "zero_totals = \<lparr>mt_turns = 0, mt_input = 0, mt_output = 0, mt_total = 0, mt_cached = 0, mt_latency = 0\<rparr>"

definition new_metrics :: runtime_metrics where
  "new_metrics = \<lparr>rm_per_chat = [], rm_global = zero_totals, rm_recent = [], rm_collector = \<lparr>mc_counters = [], mc_gauges = []\<rparr>\<rparr>"

definition add_totals :: "totals \<Rightarrow> ('a totals_scheme) \<Rightarrow> ('a totals_scheme)" where
  "add_totals x t = t\<lparr>mt_turns := mt_turns t + mt_turns x, mt_input := mt_input t + mt_input x,
     mt_output := mt_output t + mt_output x, mt_total := mt_total t + mt_total x,
     mt_cached := mt_cached t + mt_cached x, mt_latency := mt_latency t + mt_latency x\<rparr>"

text \<open>\<open>usage.get(camel) or usage.get(snake, 0)\<close>.\<close>

definition usage_count :: "(ustr, int) dict \<Rightarrow> ustr \<Rightarrow> ustr \<Rightarrow> int" where
  "usage_count usage camel snake =
     (case dget camel usage of
        Some n \<Rightarrow> if n \<noteq> 0 then n else (case dget snake usage of None \<Rightarrow> 0 | Some m \<Rightarrow> m)
      | None \<Rightarrow> (case dget snake usage of None \<Rightarrow> 0 | Some m \<Rightarrow> m))"

definition turn_totals :: "(ustr, int) dict option \<Rightarrow> real \<Rightarrow> totals" where
  "turn_totals usage latency =
     (let us = (case usage of None \<Rightarrow> [] | Some d \<Rightarrow> d)
      in \<lparr>mt_turns = 1,
          mt_input = usage_count us (u ''inputTokens'') (u ''input_tokens''),
          mt_output = usage_count us (u ''outputTokens'') (u ''output_tokens''),
          mt_total = usage_count us (u ''totalTokens'') (u ''total_tokens''),
          mt_cached = usage_count us (u ''cachedReadTokens'') (u ''cached_tokens''),
          mt_latency = py_round 3 latency\<rparr>)"

definition turn_entry :: "ustr \<Rightarrow> int \<Rightarrow> ustr \<Rightarrow> int \<Rightarrow> totals \<Rightarrow> (ustr, json) dict" where
  "turn_entry chat turn_number model prompt_chars t =
     [(u ''chat_id'', JStr chat), (u ''turn_number'', JInt turn_number), (u ''model'', JStr model),
      (u ''input_tokens'', JInt (mt_input t)), (u ''output_tokens'', JInt (mt_output t)),
      (u ''total_tokens'', JInt (mt_total t)), (u ''cached_tokens'', JInt (mt_cached t)),
      (u ''prompt_chars'', JInt prompt_chars), (u ''latency_seconds'', JFloat (mt_latency t))]"

definition cumulative_of :: "('a totals_scheme) \<Rightarrow> (ustr, json) dict" where
  "cumulative_of t =
     [(u ''turns'', JInt (mt_turns t)), (u ''input_tokens'', JInt (mt_input t)), (u ''output_tokens'', JInt (mt_output t)),
      (u ''total_tokens'', JInt (mt_total t)), (u ''cached_tokens'', JInt (mt_cached t)),
      (u ''latency_seconds'', JFloat (py_round 3 (mt_latency t)))]"

definition new_chat_metrics :: chat_metrics where
  "new_chat_metrics = totals.extend zero_totals \<lparr>cm_cumulative = [], cm_last_turn = None\<rparr>"

definition count_turn :: "totals \<Rightarrow> collector \<Rightarrow> collector" where
  "count_turn t c =
     incs [(u ''turns_total'', 1, []),
           (u ''tokens_total'', of_int (mt_input t), [(u ''kind'', u ''input'')]),
           (u ''tokens_total'', of_int (mt_output t), [(u ''kind'', u ''output'')]),
           (u ''tokens_total'', of_int (mt_total t), [(u ''kind'', u ''total'')]),
           (u ''tokens_total'', of_int (mt_cached t), [(u ''kind'', u ''cached'')]),
           (u ''turn_latency_seconds_total'', mt_latency t, [])] c"

definition record_turn_metrics ::
  "nat \<Rightarrow> ustr \<Rightarrow> int \<Rightarrow> ustr \<Rightarrow> (ustr, int) dict option \<Rightarrow> real \<Rightarrow> int \<Rightarrow> runtime_metrics \<Rightarrow> runtime_metrics \<times> (ustr, json) dict" where
  "record_turn_metrics maxlen chat turn_number model usage latency prompt_chars rm =
     (let t = turn_totals usage latency;
          entry = turn_entry chat turn_number model prompt_chars t;
          pc = add_totals t (case dget chat (rm_per_chat rm) of None \<Rightarrow> new_chat_metrics | Some m \<Rightarrow> m)
      in (rm\<lparr>rm_per_chat := dset chat (pc\<lparr>cm_cumulative := cumulative_of pc, cm_last_turn := Some entry\<rparr>) (rm_per_chat rm),
             rm_global := add_totals t (rm_global rm),
             rm_recent := last_n maxlen (rm_recent rm @ [entry]),
             rm_collector := count_turn t (rm_collector rm)\<rparr>,
          entry))"

text \<open>The totals a session record holds; the code wrote them, so other JSON values are not modelled.\<close>

definition int_field :: "ustr \<Rightarrow> (ustr, json) dict \<Rightarrow> py_exn + int" where
  "int_field k d = (case dget k d of None \<Rightarrow> Inr 0 | Some (JInt i) \<Rightarrow> Inr i | _ \<Rightarrow> Inl Unmodelled)"

definition real_field :: "ustr \<Rightarrow> (ustr, json) dict \<Rightarrow> py_exn + real" where
  "real_field k d = (case dget k d of None \<Rightarrow> Inr 0 | Some (JInt i) \<Rightarrow> Inr (of_int i) | Some (JFloat r) \<Rightarrow> Inr r | _ \<Rightarrow> Inl Unmodelled)"

definition totals_of :: "(ustr, json) dict \<Rightarrow> py_exn + totals" where
  "totals_of d =
     (case (int_field (u ''turns'') d, int_field (u ''input_tokens'') d, int_field (u ''output_tokens'') d,
            int_field (u ''total_tokens'') d, int_field (u ''cached_tokens'') d, real_field (u ''latency_seconds'') d) of
        (Inr a, Inr b, Inr c, Inr e, Inr f, Inr g) \<Rightarrow>
          Inr \<lparr>mt_turns = a, mt_input = b, mt_output = c, mt_total = e, mt_cached = f, mt_latency = g\<rparr>
      | _ \<Rightarrow> Inl Unmodelled)"

fun rehydrate_metrics :: "chat_state list \<Rightarrow> runtime_metrics \<Rightarrow> py_exn + runtime_metrics" where
  "rehydrate_metrics [] rm = Inr rm"
| "rehydrate_metrics (cs # css) rm =
     (case py_max_key sr_updated_at (dvals (cs_sessions cs)) of
        None \<Rightarrow> rehydrate_metrics css rm
      | Some r \<Rightarrow>
          (case sr_cumulative_metrics r of
             None \<Rightarrow> rehydrate_metrics css rm
           | Some [] \<Rightarrow> rehydrate_metrics css rm
           | Some (p # ps) \<Rightarrow>
               (case totals_of (p # ps) of
                  Inl e \<Rightarrow> Inl e
                | Inr t \<Rightarrow>
                    rehydrate_metrics css
                      (rm\<lparr>rm_per_chat := dset (sr_chat_id r)
                            (totals.extend t \<lparr>cm_cumulative = p # ps, cm_last_turn = sr_last_turn_metrics r\<rparr>) (rm_per_chat rm),
                          rm_global := add_totals t (rm_global rm)\<rparr>))))"

definition get_metrics :: "ustr option \<Rightarrow> runtime_metrics \<Rightarrow> (totals \<times> (ustr, json) dict list) + (ustr \<times> (ustr, json) dict \<times> (ustr, json) dict option)" where
  "get_metrics chat rm =
     (case chat of
        None \<Rightarrow> Inl (rm_global rm, rm_recent rm)
      | Some c \<Rightarrow> (case dget c (rm_per_chat rm) of
                     None \<Rightarrow> Inr (c, [], None)
                   | Some m \<Rightarrow> Inr (c, cm_cumulative m, cm_last_turn m)))"

subsection \<open>The totals add up\<close>

definition sum_of :: "(chat_metrics \<Rightarrow> 'b::ab_group_add) \<Rightarrow> runtime_metrics \<Rightarrow> 'b" where
  "sum_of f rm = sum_list (map f (dvals (rm_per_chat rm)))"

definition adds_up :: "runtime_metrics \<Rightarrow> bool" where
  "adds_up rm \<longleftrightarrow> dict_ok (rm_per_chat rm)
     \<and> mt_turns (rm_global rm) = sum_of mt_turns rm \<and> mt_input (rm_global rm) = sum_of mt_input rm
     \<and> mt_output (rm_global rm) = sum_of mt_output rm \<and> mt_total (rm_global rm) = sum_of mt_total rm
     \<and> mt_cached (rm_global rm) = sum_of mt_cached rm \<and> mt_latency (rm_global rm) = sum_of mt_latency rm"

lemma sum_dset:
  fixes f :: "'v \<Rightarrow> 'b::ab_group_add"
  shows "dict_ok d \<Longrightarrow> sum_list (map f (dvals (dset k v d))) =
     sum_list (map f (dvals d)) - (case dget k d of None \<Rightarrow> 0 | Some w \<Rightarrow> f w) + f v"
proof (induction d)
  case (Cons p d)
  obtain k' w where p: "p = (k', w)" by force
  show ?case
  proof (cases "k = k'")
    case True
    with Cons.prems p show ?thesis by simp
  next
    case False
    with Cons p show ?thesis by (simp add: add_diff_eq)
  qed
qed simp

lemma add_totals_sel [simp]:
  "mt_turns (add_totals x t) = mt_turns t + mt_turns x" "mt_input (add_totals x t) = mt_input t + mt_input x"
  "mt_output (add_totals x t) = mt_output t + mt_output x" "mt_total (add_totals x t) = mt_total t + mt_total x"
  "mt_cached (add_totals x t) = mt_cached t + mt_cached x" "mt_latency (add_totals x t) = mt_latency t + mt_latency x"
  by (simp_all add: add_totals_def)

lemma new_chat_sel [simp]:
  "mt_turns new_chat_metrics = 0" "mt_input new_chat_metrics = 0" "mt_output new_chat_metrics = 0"
  "mt_total new_chat_metrics = 0" "mt_cached new_chat_metrics = 0" "mt_latency new_chat_metrics = 0"
  by (simp_all add: new_chat_metrics_def zero_totals_def totals.extend_def)

lemma record_turn_adds_up: "adds_up rm \<Longrightarrow> adds_up (fst (record_turn_metrics n chat k model usage l p rm))"
  by (cases "dget chat (rm_per_chat rm)")
    (simp_all add: adds_up_def record_turn_metrics_def Let_def sum_of_def sum_dset del: map_map)

lemma rehydrate_adds_up:
  "rehydrate_metrics css rm = Inr rm' \<Longrightarrow> adds_up rm \<Longrightarrow>
   distinct (map chat css) \<Longrightarrow> list_all (\<lambda>cs. list_all (\<lambda>r. sr_chat_id r = chat cs) (dvals (cs_sessions cs))) css \<Longrightarrow>
   (\<forall>cs \<in> set css. dget (chat cs) (rm_per_chat rm) = None) \<Longrightarrow> adds_up rm'"
proof (induction css arbitrary: rm)
  case (Cons cs css)
  show ?case
  proof (cases "py_max_key sr_updated_at (dvals (cs_sessions cs))")
    case None
    with Cons show ?thesis by simp
  next
    case (Some r)
    then have r: "sr_chat_id r = chat cs" using Cons.prems(4) py_max_key_mem [OF Some] by (auto simp: list_all_iff)
    show ?thesis
    proof (cases "sr_cumulative_metrics r = None \<or> sr_cumulative_metrics r = Some []")
      case True
      with Some Cons show ?thesis by auto
    next
      case False
      then obtain p ps where c: "sr_cumulative_metrics r = Some (p # ps)" by (metis not_None_eq list.exhaust)
      with Some Cons.prems(1) obtain t where t: "totals_of (p # ps) = Inr t" by (auto split: sum.splits)
      let ?rm = "rm\<lparr>rm_per_chat := dset (sr_chat_id r)
            (totals.extend t \<lparr>cm_cumulative = p # ps, cm_last_turn = sr_last_turn_metrics r\<rparr>) (rm_per_chat rm),
          rm_global := add_totals t (rm_global rm)\<rparr>"
      have "adds_up ?rm" using Cons.prems(2,5) r by (simp add: adds_up_def sum_of_def sum_dset totals.extend_def del: map_map)
      moreover have "rehydrate_metrics css ?rm = Inr rm'" using Cons.prems(1) Some c t by simp
      moreover have "\<forall>x \<in> set css. dget (chat x) (rm_per_chat ?rm) = None" using Cons.prems(3,5) r by (auto simp: image_iff)
      ultimately show ?thesis using Cons.IH [of ?rm] Cons.prems(3,4) by simp
    qed
  qed
qed simp

text \<open>The turns of a run, as the runtime records them.\<close>

type_synonym turn_record = "ustr \<times> int \<times> ustr \<times> (ustr, int) dict option \<times> real \<times> int"

fun record_turns :: "nat \<Rightarrow> turn_record list \<Rightarrow> runtime_metrics \<Rightarrow> runtime_metrics" where
  "record_turns n [] rm = rm"
| "record_turns n ((chat, k, model, usage, latency, p) # ts) rm =
     record_turns n ts (fst (record_turn_metrics n chat k model usage latency p rm))"

definition usage_of :: "turn_record \<Rightarrow> totals" where
  "usage_of t = (case t of (chat, k, model, usage, latency, p) \<Rightarrow> turn_totals usage latency)"

lemma record_turns_adds_up: "adds_up rm \<Longrightarrow> adds_up (record_turns n ts rm)"
  by (induction n ts rm rule: record_turns.induct) (simp_all add: record_turn_adds_up)

definition chat_total :: "ustr \<Rightarrow> runtime_metrics \<Rightarrow> int" where
  "chat_total chat rm = (case dget chat (rm_per_chat rm) of None \<Rightarrow> 0 | Some m \<Rightarrow> mt_total m)"

lemma record_turn_chat_total:
  "chat_total c (fst (record_turn_metrics n chat k model usage l p rm)) =
     chat_total c rm + (if c = chat then mt_total (turn_totals usage l) else 0)"
  by (simp add: chat_total_def record_turn_metrics_def Let_def split: option.split)

lemma chat_total_turns:
  "chat_total chat (record_turns n ts rm) = chat_total chat rm + sum_list (map (\<lambda>t. mt_total (usage_of t)) (filter (\<lambda>t. fst t = chat) ts))"
  by (induction n ts rm rule: record_turns.induct) (simp_all add: record_turn_chat_total usage_of_def)

lemma new_metrics_adds_up [simp]: "adds_up new_metrics"
  by (simp add: adds_up_def new_metrics_def sum_of_def zero_totals_def)

lemma recent_turns_bounded: "length (rm_recent rm) \<le> n \<Longrightarrow> length (rm_recent (record_turns n ts rm)) \<le> n"
  by (induction n ts rm rule: record_turns.induct) (simp_all add: record_turn_metrics_def Let_def)

text \<open>
  The totals add up: from the sessions read back at the start of the process and after any turns of
  any chats, the global token counts are the sums of the chats' counts, each chat's count is what was read
  back for it plus what its own turns used, and no more than the configured number of recent turns is kept.
\<close>

theorem global_totals_are_sums:
  assumes "rehydrate_metrics css new_metrics = Inr rm" and "distinct (map chat css)"
    and "list_all (\<lambda>cs. list_all (\<lambda>r. sr_chat_id r = chat cs) (dvals (cs_sessions cs))) css"
  shows "adds_up (record_turns n ts rm)
    \<and> chat_total c (record_turns n ts rm) = chat_total c rm + sum_list (map (\<lambda>t. mt_total (usage_of t)) (filter (\<lambda>t. fst t = c) ts))
    \<and> length (rm_recent (record_turns n ts rm)) \<le> n"
proof -
  have "adds_up rm" using rehydrate_adds_up [OF assms(1) new_metrics_adds_up assms(2,3)] by (simp add: new_metrics_def)
  moreover have "rehydrate_metrics css m = Inr rm \<Longrightarrow> rm_recent rm = rm_recent m" for css m
    by (induction css arbitrary: m) (auto split: option.splits list.splits sum.splits)
  then have "rm_recent rm = []" using assms(1) by (simp add: new_metrics_def)
  ultimately show ?thesis by (simp add: record_turns_adds_up chat_total_turns recent_turns_bounded)
qed

definition sample_turns :: "turn_record list" where
  "sample_turns = [(u ''a'', 1, u ''m'', Some [(u ''totalTokens'', 7)], 1, 10), (u ''b'', 1, u ''m'', None, 2, 5),
     (u ''a'', 2, u ''m'', Some [(u ''totalTokens'', 0), (u ''total_tokens'', 5)], 1, 10)]"

theorem global_totals_are_sums_witness:
  "adds_up (record_turns 2 sample_turns new_metrics)
    \<and> chat_total (u ''a'') (record_turns 2 sample_turns new_metrics)
        = chat_total (u ''a'') new_metrics + sum_list (map (\<lambda>t. mt_total (usage_of t)) (filter (\<lambda>t. fst t = u ''a'') sample_turns))
    \<and> length (rm_recent (record_turns 2 sample_turns new_metrics)) \<le> 2"
  by (rule global_totals_are_sums [where css = "[]" and chat = "\<lambda>_. []"]) simp_all

lemma sample_total: "chat_total (u ''a'') (record_turns 2 sample_turns new_metrics) = 12"
proof -
  have "chat_total (u ''a'') new_metrics = 0" by (simp add: chat_total_def new_metrics_def)
  then show ?thesis by (simp only: chat_total_turns) (simp add: sample_turns_def usage_of_def turn_totals_def usage_count_def Let_def)
qed

end
