(* ===== verification/Routing.thy ===== *)
theory Routing
  imports Metrics
begin

section \<open>Model routing, the conversation budget and context pressure\<close>

text \<open>
  \<open>src/src/diploid_agent/engine/router.py\<close> (\<open>ModelRouter\<close>), \<open>resolve_model\<close> and \<open>routing_context\<close> of
  \<open>runtime/prompts.py\<close>, \<open>context/token_estimator.py\<close> (\<open>TokenEstimator\<close>) and \<open>context/pressure.py\<close>
  (\<open>ContextPressure\<close>).  \<open>lower\<close> is Python's \<open>str.lower\<close>; the identity anchor, whose length the estimate uses,
  is an argument because it depends on the files that exist.
\<close>

subsection \<open>\<open>ModelRouter\<close>\<close>

record routing_config =
  rc_enabled :: bool
  rc_default_model :: ustr
  rc_fallback_model :: "ustr option"
  rc_lanes :: "(ustr, ustr) dict"
  rc_lane_keywords :: "(ustr, ustr list) dict"
  rc_budget_enabled :: bool
  rc_max_total_tokens :: int
  rc_warning_threshold :: real

record model_route =
  mr_model :: ustr
  mr_notice :: "ustr option"
  mr_budget_exceeded :: bool

text \<open>\<open>f"{n:,}"\<close>.\<close>

fun group_digits :: "ustr \<Rightarrow> ustr" where
  "group_digits (a # b # c # d # s) = a # b # c # 44 # group_digits (d # s)"
| "group_digits s = s"

definition with_commas :: "int \<Rightarrow> ustr" where
  "with_commas n = (if n < 0 then u ''-'' else []) @ rev (group_digits (rev (digits_of (nat \<bar>n\<bar>))))"

definition exceeded_notice :: "int \<Rightarrow> int \<Rightarrow> ustr" where
  "exceeded_notice used limit =
     u ''This conversation has reached its token budget ('' @ with_commas used @ u '' / '' @ with_commas limit
     @ u ''). Start a new session with /new to continue.''"

definition warning_notice :: "int \<Rightarrow> int \<Rightarrow> ustr" where
  "warning_notice used limit =
     u ''Approaching conversation token budget: '' @ with_commas used @ u '' / '' @ with_commas limit
     @ u '' ('' @ with_commas (limit - used) @ u '' remaining).''"

definition fallback_or_default :: "routing_config \<Rightarrow> ustr" where
  "fallback_or_default rc = (case rc_fallback_model rc of Some m \<Rightarrow> if m = [] then rc_default_model rc else m | None \<Rightarrow> rc_default_model rc)"

fun detect_lane :: "(ustr \<Rightarrow> ustr) \<Rightarrow> ustr \<Rightarrow> (ustr, ustr list) dict \<Rightarrow> ustr option" where
  "detect_lane lower text [] = None"
| "detect_lane lower text ((lane, kws) # lanes) =
     (if list_ex (\<lambda>kw. sublist (lower kw) (lower text)) kws then Some lane else detect_lane lower text lanes)"

definition route :: "(ustr \<Rightarrow> ustr) \<Rightarrow> routing_config \<Rightarrow> ustr \<Rightarrow> int \<Rightarrow> model_route" where
  "route lower rc msg used =
     (if \<not> rc_enabled rc then \<lparr>mr_model = rc_default_model rc, mr_notice = None, mr_budget_exceeded = False\<rparr>
      else if rc_budget_enabled rc \<and> used \<ge> rc_max_total_tokens rc
      then \<lparr>mr_model = fallback_or_default rc, mr_notice = Some (exceeded_notice used (rc_max_total_tokens rc)),
            mr_budget_exceeded = True\<rparr>
      else
        let model = (case detect_lane lower msg (rc_lane_keywords rc) of
                       None \<Rightarrow> fallback_or_default rc
                     | Some lane \<Rightarrow> (case dget lane (rc_lanes rc) of None \<Rightarrow> fallback_or_default rc | Some m \<Rightarrow> m));
            ratio = of_int used / of_int (rc_max_total_tokens rc) :: real
        in \<lparr>mr_model = model,
            mr_notice = (if rc_budget_enabled rc \<and> used > 0 \<and> ratio \<ge> rc_warning_threshold rc \<and> ratio < 1
                         then Some (warning_notice used (rc_max_total_tokens rc)) else None),
            mr_budget_exceeded = False\<rparr>)"

definition remaining_budget :: "routing_config \<Rightarrow> int \<Rightarrow> int" where
  "remaining_budget rc used = (if \<not> rc_budget_enabled rc then - 1 else max 0 (rc_max_total_tokens rc - used))"

text \<open>\<open>None\<close> stands for \<open>{"enabled": False}\<close>; otherwise limit, used, remaining and exceeded.\<close>

definition budget_status :: "routing_config \<Rightarrow> int \<Rightarrow> (int \<times> int \<times> int \<times> bool) option" where
  "budget_status rc used =
     (if \<not> rc_budget_enabled rc then None
      else Some (rc_max_total_tokens rc, used, remaining_budget rc used, used \<ge> rc_max_total_tokens rc))"

text \<open>The tokens a chat has used: from the record, or from the totals of the runtime.\<close>

definition cumulative_tokens :: "ustr \<Rightarrow> session_record option \<Rightarrow> runtime_metrics \<Rightarrow> py_exn + int" where
  "cumulative_tokens chat r rm =
     (case Option.bind r sr_cumulative_metrics of
        Some (p # ps) \<Rightarrow> int_field (u ''total_tokens'') (p # ps)
      | _ \<Rightarrow> Inr (chat_total chat rm))"

definition resolve_model :: "(ustr \<Rightarrow> ustr) \<Rightarrow> routing_config \<Rightarrow> ustr \<Rightarrow> ustr \<Rightarrow> session_record option \<Rightarrow> runtime_metrics \<Rightarrow> py_exn + model_route" where
  "resolve_model lower rc chat msg r rm = map_sum id (route lower rc msg) (cumulative_tokens chat r rm)"

definition routing_context :: "routing_config \<Rightarrow> ustr \<Rightarrow> session_record option \<Rightarrow> runtime_metrics \<Rightarrow> py_exn + (int \<times> int \<times> int \<times> bool) option" where
  "routing_context rc chat r rm = map_sum id (budget_status rc) (cumulative_tokens chat r rm)"

text \<open>
  The budget bands: with routing and a budget switched on, a turn is refused exactly when the chat
  has used the limit or more, and a warning is added exactly from the threshold up to the limit, naming what
  remains; otherwise no notice is given; and a turn that is not refused gets the model of the first lane a
  keyword of which occurs in the message, or the fallback.
\<close>

theorem budget_bands:
  assumes "rc_enabled rc" and "rc_budget_enabled rc" and "0 < rc_max_total_tokens rc"
  shows "mr_budget_exceeded (route lower rc msg used) = (rc_max_total_tokens rc \<le> used)
    \<and> mr_notice (route lower rc msg used) =
        (if rc_max_total_tokens rc \<le> used then Some (exceeded_notice used (rc_max_total_tokens rc))
         else if 0 < used \<and> rc_warning_threshold rc * of_int (rc_max_total_tokens rc) \<le> of_int used
         then Some (warning_notice used (used + remaining_budget rc used)) else None)
    \<and> (used < rc_max_total_tokens rc \<longrightarrow>
         mr_model (route lower rc msg used) =
           (case Option.bind (detect_lane lower msg (rc_lane_keywords rc)) (\<lambda>l. dget l (rc_lanes rc)) of
              None \<Rightarrow> fallback_or_default rc | Some m \<Rightarrow> m))"
proof -
  have "(of_int used / of_int (rc_max_total_tokens rc) \<ge> rc_warning_threshold rc) =
      (rc_warning_threshold rc * of_int (rc_max_total_tokens rc) \<le> of_int used)"
    "(of_int used / of_int (rc_max_total_tokens rc) < (1 :: real)) = (used < rc_max_total_tokens rc)"
    using assms(3) by (simp_all add: le_divide_eq divide_less_eq)
  with assms show ?thesis
    by (auto simp: route_def Let_def remaining_budget_def max_def split: option.split)
qed

definition sample_routing :: routing_config where
  "sample_routing = \<lparr>rc_enabled = True, rc_default_model = u ''base'', rc_fallback_model = None,
     rc_lanes = [(u ''code'', u ''big'')], rc_lane_keywords = [(u ''code'', [u ''bug''])],
     rc_budget_enabled = True, rc_max_total_tokens = 1000, rc_warning_threshold = 8 / 10\<rparr>"

theorem budget_bands_witness:
  "mr_budget_exceeded (route id sample_routing (u ''a bug'') 900) = (rc_max_total_tokens sample_routing \<le> 900)
    \<and> mr_notice (route id sample_routing (u ''a bug'') 900) =
        (if rc_max_total_tokens sample_routing \<le> 900 then Some (exceeded_notice 900 (rc_max_total_tokens sample_routing))
         else if (0 :: int) < 900 \<and> rc_warning_threshold sample_routing * of_int (rc_max_total_tokens sample_routing) \<le> of_int 900
         then Some (warning_notice 900 (900 + remaining_budget sample_routing 900)) else None)
    \<and> mr_model (route id sample_routing (u ''a bug'') 900) =
         (case Option.bind (detect_lane id (u ''a bug'') (rc_lane_keywords sample_routing)) (\<lambda>l. dget l (rc_lanes sample_routing)) of
            None \<Rightarrow> fallback_or_default sample_routing | Some m \<Rightarrow> m)"
proof -
  have "rc_enabled sample_routing" "rc_budget_enabled sample_routing" "0 < rc_max_total_tokens sample_routing"
    "900 < rc_max_total_tokens sample_routing" by (simp_all add: sample_routing_def)
  with budget_bands [where rc = sample_routing and lower = id and msg = "u ''a bug''" and used = 900]
  show ?thesis by blast
qed

lemma sample_model: "mr_model (route id sample_routing (u ''a bug'') 900) = u ''big''"
  by code_simp

text \<open>
  A spent budget stays spent: once the turns of a chat have used the budget up, every later turn is
  refused, whatever turns of other chats come in between, also in a session opened with /new (its record has
  no totals of its own and the chat's are taken), although the notice asks for just that.
\<close>

theorem new_session_keeps_spent_budget:
  assumes "rc_enabled rc" and "rc_budget_enabled rc" and "rc_max_total_tokens rc \<le> chat_total chat rm"
    and "list_all (\<lambda>t. fst t \<noteq> chat) ts" and "sr_cumulative_metrics new_record = None"
  shows "map_sum id mr_budget_exceeded (resolve_model lower rc chat msg (Some new_record) (record_turns n ts rm)) = Inr True"
proof -
  have "filter (\<lambda>t. fst t = chat) ts = []" using assms(4) by (simp add: filter_empty_conv list_all_iff)
  then have "chat_total chat (record_turns n ts rm) = chat_total chat rm" by (simp add: chat_total_turns)
  with assms show ?thesis by (simp add: resolve_model_def cumulative_tokens_def route_def)
qed

definition blank_record :: session_record where
  "blank_record = \<lparr>sr_chat_id = u ''a'', sr_session_number = 2, sr_session_id = u ''s'', sr_model = u ''base'', sr_persona = [],
     sr_cwd = [], sr_created_at = 0, sr_updated_at = 0, sr_turn_number = 0, sr_pending_turn_number = None, sr_label = None,
     sr_parent = None, sr_last_stop_reason = None, sr_persona_memory_exceeded = False, sr_chat_memory_exceeded = False,
     sr_cumulative_metrics = None, sr_last_turn_metrics = None, sr_first_turn_metrics = None, sr_enabled_mcp_servers = None,
     sr_disabled_mcp_servers = None, sr_enabled_skills = None, sr_disabled_skills = None, sr_plugin_overrides = None,
     sr_pressure_handoff_done = False, sr_external_turns = 0\<rparr>"

theorem new_session_keeps_spent_budget_witness:
  "map_sum id mr_budget_exceeded (resolve_model id sample_routing (u ''a'') (u ''hello'') (Some blank_record)
     (record_turns 5 [(u ''b'', 1, u ''m'', None, 1, 3)] (record_turns 5 [(u ''a'', 1, u ''m'', Some [(u ''totalTokens'', 1200)], 1, 9)] new_metrics)))
   = Inr True"
proof -
  have "chat_total (u ''a'') new_metrics = 0" by (simp add: chat_total_def new_metrics_def)
  then have "chat_total (u ''a'') (record_turns 5 [(u ''a'', 1, u ''m'', Some [(u ''totalTokens'', 1200)], 1, 9)] new_metrics) = 1200"
    by (simp only: chat_total_turns) (simp add: usage_of_def turn_totals_def usage_count_def)
  then show ?thesis
    by (intro new_session_keeps_spent_budget) (simp_all add: sample_routing_def blank_record_def)
qed

subsection \<open>\<open>TokenEstimator\<close>\<close>

record pressure_config =
  pq_calibration_enabled :: bool
  pq_calibration_min_chars :: int
  pq_context_window :: "int option"
  pq_max_short_term_chars :: int
  pq_soul_token_budget :: int
  pq_buffer_factor :: real
  pq_new_session_threshold :: real
  pq_soul_threshold :: real
  pq_soul_input_threshold :: real
  pq_soul_full_threshold :: real
  pq_soul_turns :: int

definition CHARS_PER_TOKEN :: "(ustr \<times> real) list" where
  "CHARS_PER_TOKEN =
     [(u ''swe-1-7'', 7 / 2), (u ''claude-sonnet-4-20250514'', 4), (u ''claude-sonnet-4'', 4), (u ''claude-opus-4'', 4),
      (u ''gpt-4o'', 4), (u ''gpt-4o-mini'', 4)]"

text \<open>\<open>metrics.get(k) or 0\<close>, used as a number.\<close>

definition count_field :: "ustr \<Rightarrow> (ustr, json) dict \<Rightarrow> py_exn + real" where
  "count_field k d =
     (case dget k d of
        None \<Rightarrow> Inr 0
      | Some j \<Rightarrow>
          if \<not> truthy j then Inr 0
          else (case j of JInt i \<Rightarrow> Inr (of_int i) | JFloat r \<Rightarrow> Inr r | JBool b \<Rightarrow> Inr 1 | _ \<Rightarrow> Inl TypeError))"

fun calibrate :: "int \<Rightarrow> (ustr, json) dict option list \<Rightarrow> py_exn + real option" where
  "calibrate min_chars [] = Inr None"
| "calibrate min_chars (m # ms) =
     (case m of
        None \<Rightarrow> calibrate min_chars ms
      | Some d \<Rightarrow>
          if d = [] then calibrate min_chars ms
          else (case count_field (u ''prompt_chars'') d of
                  Inl e \<Rightarrow> Inl e
                | Inr chars \<Rightarrow>
                    (case count_field (u ''input_tokens'') d of
                       Inl e \<Rightarrow> if chars < of_int min_chars then calibrate min_chars ms else Inl e
                     | Inr tokens \<Rightarrow>
                         if chars < of_int min_chars \<or> tokens \<le> 0 then calibrate min_chars ms
                         else if 1 \<le> chars / tokens \<and> chars / tokens \<le> 10 then Inr (Some (chars / tokens))
                         else calibrate min_chars ms)))"

fun table_ratio :: "ustr \<Rightarrow> (ustr \<times> real) list \<Rightarrow> real" where
  "table_ratio m [] = 4"
| "table_ratio m ((name, r) # xs) = (if sublist name m then r else table_ratio m xs)"

definition chars_per_token :: "(ustr \<Rightarrow> ustr) \<Rightarrow> pressure_config \<Rightarrow> ustr \<Rightarrow> session_record option \<Rightarrow> py_exn + real" where
  "chars_per_token lower cfg model r =
     (if model = [] then Inr 4
      else case (case r of
                   Some x \<Rightarrow> if pq_calibration_enabled cfg
                             then calibrate (pq_calibration_min_chars cfg) [sr_first_turn_metrics x, sr_last_turn_metrics x]
                             else Inr None
                 | None \<Rightarrow> Inr None) of
             Inl e \<Rightarrow> Inl e
           | Inr (Some ratio) \<Rightarrow> Inr ratio
           | Inr None \<Rightarrow> Inr (table_ratio (lower model) CHARS_PER_TOKEN))"

definition context_window_for :: "(ustr \<Rightarrow> int option) option \<Rightarrow> pressure_config \<Rightarrow> ustr option \<Rightarrow> int option" where
  "context_window_for fn cfg model =
     (case (fn, model) of
        (Some f, Some m) \<Rightarrow> if m \<noteq> [] then f m else pq_context_window cfg
      | _ \<Rightarrow> pq_context_window cfg)"

definition metrics_or_empty :: "(ustr, json) dict option \<Rightarrow> (ustr, json) dict" where
  "metrics_or_empty m = (case m of None \<Rightarrow> [] | Some d \<Rightarrow> d)"

text \<open>The window, the lifetime ratio and the ratio of the last turn.\<close>

definition context_pressure ::
  "(ustr \<Rightarrow> int option) option \<Rightarrow> pressure_config \<Rightarrow> session_record option \<Rightarrow> py_exn + int option \<times> real \<times> real" where
  "context_pressure fn cfg r =
     (let w = context_window_for fn cfg (map_option sr_model r);
          cumulative = metrics_or_empty (Option.bind r sr_cumulative_metrics);
          last_turn = metrics_or_empty (Option.bind r sr_last_turn_metrics)
      in case w of
           None \<Rightarrow> Inr (w, 0, 0)
         | Some n \<Rightarrow>
             if n = 0 then Inr (w, 0, 0)
             else (case (count_field (u ''total_tokens'') cumulative, count_field (u ''input_tokens'') last_turn) of
                     (Inr used, Inr inp) \<Rightarrow> Inr (w, py_round 4 (used / of_int n), py_round 4 (inp / of_int n))
                   | _ \<Rightarrow> Inl TypeError))"

record prompt_estimate =
  pe_chars_per_token :: real
  pe_last_total :: real
  pe_buffered_turn :: int
  pe_soul :: int
  pe_user :: int
  pe_short_term :: int
  pe_total :: int

definition estimate_next_prompt_tokens ::
  "(ustr \<Rightarrow> ustr) \<Rightarrow> pressure_config \<Rightarrow> ustr \<Rightarrow> session_record \<Rightarrow> ustr \<Rightarrow> py_exn + prompt_estimate" where
  "estimate_next_prompt_tokens lower cfg anchor r msg =
     (let last_turn = metrics_or_empty (sr_last_turn_metrics r)
      in case (count_field (u ''input_tokens'') last_turn, count_field (u ''output_tokens'') last_turn,
               chars_per_token lower cfg (sr_model r) (Some r)) of
           (Inr i, Inr out, Inr cpt) \<Rightarrow>
             let st = trunc (of_int (pq_max_short_term_chars cfg) / cpt);
                 soul = trunc (real (length anchor) / cpt) + pq_soul_token_budget cfg;
                 user = trunc (real (length msg) / cpt);
                 buffered = trunc ((i + out) * pq_buffer_factor cfg)
             in Inr \<lparr>pe_chars_per_token = cpt, pe_last_total = i + out, pe_buffered_turn = buffered, pe_soul = soul,
                     pe_user = user, pe_short_term = st, pe_total = buffered + soul + user + st\<rparr>
         | _ \<Rightarrow> Inl TypeError)"

definition estimate_prompt_tokens :: "(ustr \<Rightarrow> ustr) \<Rightarrow> pressure_config \<Rightarrow> ustr \<Rightarrow> session_record option \<Rightarrow> py_exn + int" where
  "estimate_prompt_tokens lower cfg prompt r =
     (case chars_per_token lower cfg (case r of None \<Rightarrow> [] | Some x \<Rightarrow> sr_model x) r of
        Inl e \<Rightarrow> Inl e
      | Inr cpt \<Rightarrow> Inr (trunc (real (length prompt) / cpt)))"

lemma calibrate_range: "calibrate k ms = Inr (Some x) \<Longrightarrow> 1 \<le> x \<and> x \<le> 10"
  by (induction k ms rule: calibrate.induct) (auto split: option.splits sum.splits if_splits)

lemma chars_per_token_range: "chars_per_token lower cfg model r = Inr x \<Longrightarrow> 1 \<le> x \<and> x \<le> 10"
proof -
  have "1 \<le> table_ratio m CHARS_PER_TOKEN \<and> table_ratio m CHARS_PER_TOKEN \<le> 10" for m by (simp add: CHARS_PER_TOKEN_def)
  then show "chars_per_token lower cfg model r = Inr x \<Longrightarrow> 1 \<le> x \<and> x \<le> 10"
    by (auto simp: chars_per_token_def dest: calibrate_range split: if_splits sum.splits option.splits)
qed

lemma trunc_mono: "0 \<le> x \<Longrightarrow> x \<le> y \<Longrightarrow> trunc x \<le> trunc y"
  by (simp add: trunc_nonneg floor_mono)

lemma estimate_mono:
  assumes "estimate_next_prompt_tokens lower cfg anchor r m = Inr a" and "length m \<le> length n"
  shows "\<exists>b. estimate_next_prompt_tokens lower cfg anchor r n = Inr b \<and> pe_total a \<le> pe_total b"
proof -
  from assms(1) obtain cpt where c: "chars_per_token lower cfg (sr_model r) (Some r) = Inr cpt"
    by (auto simp: estimate_next_prompt_tokens_def Let_def split: sum.splits)
  from chars_per_token_range [OF c] have "real (length m) / cpt \<le> real (length n) / cpt" "0 \<le> real (length m) / cpt"
    using assms(2) by (simp_all add: divide_right_mono)
  then have "trunc (real (length m) / cpt) \<le> trunc (real (length n) / cpt)" by (rule trunc_mono [rotated])
  with assms(1) c show ?thesis
    by (auto simp: estimate_next_prompt_tokens_def Let_def split: sum.splits)
qed

subsection \<open>\<open>ContextPressure\<close>\<close>

datatype soul = Soul_normal | Soul_small | Soul_full | Soul_fresh

definition soul_mode ::
  "(ustr \<Rightarrow> ustr) \<Rightarrow> (ustr \<Rightarrow> int option) option \<Rightarrow> pressure_config \<Rightarrow> ustr \<Rightarrow> (ustr, int) dict \<Rightarrow> ustr \<Rightarrow> session_record option \<Rightarrow> bool \<Rightarrow> ustr \<Rightarrow> py_exn + soul \<times> bool" where
  "soul_mode lower fn cfg anchor last_full chat r rehydrated msg =
     (case r of
        None \<Rightarrow> Inr (Soul_normal, False)
      | Some x \<Rightarrow>
          if rehydrated then Inr (Soul_full, False)
          else (case context_pressure fn cfg r of
                  Inl e \<Rightarrow> Inl e
                | Inr (w, cumulative_ratio, input_ratio) \<Rightarrow>
                    let known = (w \<noteq> None \<and> w \<noteq> Some 0)
                    in case (if known
                             then map_sum id (\<lambda>est. of_int (pe_total est) / of_int (the w)) (estimate_next_prompt_tokens lower cfg anchor x msg)
                             else Inr 0) of
                         Inl e \<Rightarrow> Inl e
                       | Inr estimated \<Rightarrow>
                           if known \<and> estimated > pq_new_session_threshold cfg then Inr (Soul_fresh, True)
                           else if input_ratio > pq_soul_full_threshold cfg then Inr (Soul_fresh, True)
                           else
                             let turns_since = sr_turn_number x - (case dget chat last_full of None \<Rightarrow> 0 | Some t \<Rightarrow> t)
                             in if known \<and> (estimated > pq_soul_threshold cfg \<or> input_ratio > pq_soul_input_threshold cfg)
                                then Inr (Soul_small, False)
                                else if \<not> known \<and> turns_since > pq_soul_turns cfg then Inr (Soul_small, False)
                                else Inr (Soul_normal, False)))"

fun level :: "soul \<Rightarrow> nat" where
  "level Soul_normal = 0"
| "level Soul_small = 1"
| "level Soul_full = 2"
| "level Soul_fresh = 3"

lemma soul_mode_full: "soul_mode lower fn cfg anchor lf chat r re msg = Inr (m, force) \<Longrightarrow>
    (m = Soul_full \<longleftrightarrow> re \<and> r \<noteq> None) \<and> (force \<longleftrightarrow> m = Soul_fresh)"
  by (auto simp: soul_mode_def Let_def split: option.splits if_splits sum.splits prod.splits)

text \<open>
  A longer message never relaxes the pressure: when a message is judged to need a soul mode, any
  message at least as long is judged (no error comes up) and gets the same mode or a stronger one; a full soul
  is given exactly to a rehydrated session, and a fresh session is forced exactly with the mode fresh.
\<close>

theorem longer_message_more_pressure:
  assumes "soul_mode lower fn cfg anchor last_full chat r rehydrated m = Inr (a, f)" and "length m \<le> length n"
    and "\<forall>w. context_window_for fn cfg (map_option sr_model r) = Some w \<longrightarrow> 0 \<le> w"
  shows "\<exists>b g. soul_mode lower fn cfg anchor last_full chat r rehydrated n = Inr (b, g) \<and> level a \<le> level b
     \<and> (b = Soul_full \<longleftrightarrow> rehydrated \<and> r \<noteq> None) \<and> (g \<longleftrightarrow> b = Soul_fresh)"
proof -
  have "\<exists>b g. soul_mode lower fn cfg anchor last_full chat r rehydrated n = Inr (b, g) \<and> level a \<le> level b"
  proof (cases "r = None \<or> rehydrated")
    case True
    with assms(1) show ?thesis by (auto simp: soul_mode_def split: option.splits)
  next
    case False
    then obtain x where x: "r = Some x" "\<not> rehydrated" by auto
    from assms(1) x obtain w cr ir where p: "context_pressure fn cfg r = Inr (w, cr, ir)"
      by (auto simp: soul_mode_def split: sum.splits)
    then have w: "w = context_window_for fn cfg (map_option sr_model r)"
      by (auto simp: context_pressure_def Let_def split: option.splits if_splits sum.splits)
    show ?thesis
    proof (cases "w \<noteq> None \<and> w \<noteq> Some 0")
      case known: True
      then obtain k where k: "w = Some k" "0 < k" using assms(3) w by fastforce
      from assms(1) x p known obtain e where e: "estimate_next_prompt_tokens lower cfg anchor x m = Inr e"
        by (cases "estimate_next_prompt_tokens lower cfg anchor x m") (auto simp: soul_mode_def)
      from estimate_mono [OF e assms(2)] obtain e' where e': "estimate_next_prompt_tokens lower cfg anchor x n = Inr e'"
        "pe_total e \<le> pe_total e'" by blast
      then have "real_of_int (pe_total e) / of_int k \<le> of_int (pe_total e') / of_int k"
        using k by (simp add: divide_right_mono)
      with assms(1) x p k e e'(1) show ?thesis by (auto simp: soul_mode_def Let_def split: if_splits)
    qed (use assms(1) x p in \<open>auto simp: soul_mode_def Let_def split: if_splits\<close>)
  qed
  then show ?thesis using soul_mode_full by blast
qed

definition sample_pressure :: pressure_config where
  "sample_pressure = \<lparr>pq_calibration_enabled = True, pq_calibration_min_chars = 100, pq_context_window = Some 100,
     pq_max_short_term_chars = 0, pq_soul_token_budget = 0, pq_buffer_factor = 1, pq_new_session_threshold = 85 / 100,
     pq_soul_threshold = 7 / 10, pq_soul_input_threshold = 6 / 10, pq_soul_full_threshold = 9 / 10, pq_soul_turns = 20\<rparr>"

theorem longer_message_more_pressure_witness:
  "\<exists>b g. soul_mode id None sample_pressure [] [] (u ''a'') (Some blank_record) False (replicate 400 97) = Inr (b, g)
     \<and> level Soul_normal \<le> level b \<and> (b = Soul_full \<longleftrightarrow> False \<and> Some blank_record \<noteq> None) \<and> (g \<longleftrightarrow> b = Soul_fresh)"
proof (rule longer_message_more_pressure [where m = "[]" and f = False])
  have "chars_per_token id sample_pressure (u ''base'') (Some blank_record) = Inr 4"
    by (simp add: chars_per_token_def sample_pressure_def blank_record_def CHARS_PER_TOKEN_def) (simp add: u_def sublist_Cons_right)
  then show "soul_mode id None sample_pressure [] [] (u ''a'') (Some blank_record) False [] = Inr (Soul_normal, False)"
    by (simp add: soul_mode_def context_pressure_def context_window_for_def estimate_next_prompt_tokens_def Let_def
        metrics_or_empty_def count_field_def py_round_def round_half_even_def sample_pressure_def blank_record_def)
qed (simp_all add: context_window_for_def sample_pressure_def)

end
