(* ===== verification/TurnProcess.thy ===== *)
theory TurnProcess
  imports TurnPipeline Routing
begin

section \<open>A turn\<close>

text \<open>
  \<open>src/src/diploid_agent/turn/process.py\<close> (\<open>TurnProcess.process\<close>), \<open>turn/dispatch.py\<close> (\<open>TurnDispatch.continue_turn\<close>) and
  \<open>_finalize_turn\<close>, \<open>_cleanup_turn\<close> of \<open>turn/pipeline.py\<close>.  A turn is begun under the lock (gate, routing, session
  boundary, prompt, reserved turn number), then the engine is called without it, then the turn is recorded and
  removed from the running ones.  \<open>begin_turn\<close>, \<open>call_engine\<close> and \<open>finish_turn\<close> are the three steps, so that other
  operations may run between them.  Left out: events, outbox, typing and notifier of the turn, the plugin hooks that
  only observe (\<open>on_turn_end\<close>, \<open>after_turn\<close>, \<open>on_sleeping\<close>), extra memory items and the metrics themselves (their values are
  parameters).
\<close>

datatype turn_exn = Py py_exn | Engine engine_exn

record record_ctx =
  xc_turn_number :: int
  xc_reply :: ustr
  xc_notice :: "ustr option"
  xc_persona_exceeded :: bool
  xc_chat_exceeded :: bool
  xc_metrics :: "(ustr, json) dict option"

record 'e process_env = "'e turn_env" +
  pe_route :: "runtime \<Rightarrow> ustr \<Rightarrow> ustr \<Rightarrow> session_record option \<Rightarrow> py_exn + model_route"
  pe_before_turn :: "runtime \<Rightarrow> ustr \<Rightarrow> ustr \<Rightarrow> ustr \<Rightarrow> chat_result + ustr \<times> ustr option"
  pe_match_skills :: "ustr \<Rightarrow> ustr set \<Rightarrow> ustr set"
  pe_all_skills :: "ustr set"
  pe_refresh_skills :: "ustr set \<Rightarrow> dir \<Rightarrow> dir"
  pe_auto_resend :: bool
  pe_continue_word :: ustr
  pe_is_continuation :: "ustr \<Rightarrow> bool"
  pe_seed :: "active_turn \<Rightarrow> py_exn + active_turn"
  pe_before_record :: "session_record \<Rightarrow> record_ctx \<Rightarrow> record_ctx"
  pe_label :: "ustr \<Rightarrow> ustr option"
  pe_metrics :: "engine_outcome \<Rightarrow> (ustr, json) dict option"
  pe_cumulative :: "(ustr, json) dict"

text \<open>What a turn that has begun carries along.\<close>

record turn =
  tn_args :: call_args
  tn_session_number :: int
  tn_turn_number :: int
  tn_notice :: "ustr option"
  tn_budget_notice :: "ustr option"
  tn_system_note :: "ustr option"
  tn_persona_exceeded :: bool
  tn_chat_exceeded :: bool
  tn_active :: active_turn

subsection \<open>Beginning a turn\<close>

definition draining_reply :: chat_result where
  "draining_reply = (mk_result (u ''The service is draining for a restart; please send your message again in a moment.''))
     \<lparr>cr_notice := Some (u ''Restart in progress; your turn was not started.'')\<rparr>"

definition session_op_reply :: chat_result where
  "session_op_reply = (mk_result (u ''A session operation is in progress for this chat.''))\<lparr>cr_notice := Some (u ''Please retry in a moment.'')\<rparr>"

definition turn_running_reply :: chat_result where
  "turn_running_reply = (mk_result (u ''A turn is already in progress for this chat.''))
     \<lparr>cr_notice := Some (u ''Send /stop to cancel it, or wait for it to finish.'')\<rparr>"

text \<open>\<open>None\<close>: the gate is open.\<close>

definition turn_gate :: "ustr \<Rightarrow> runtime \<Rightarrow> chat_result option" where
  "turn_gate chat rt =
     (if rt_draining rt then Some draining_reply
      else if chat \<in> set (rt_ops rt) then Some session_op_reply
      else if chat \<in> set (rt_turns rt) then Some turn_running_reply
      else None)"

definition interrupted_reply :: "ustr \<Rightarrow> session_record \<Rightarrow> chat_result" where
  "interrupted_reply word r =
     (mk_result (u ''The previous turn was interrupted by the hard time limit and did not complete. Reply `'' @ word @
         u ''` to retry it, or send a new message to start fresh.''))
       \<lparr>cr_notice := Some (u ''Waiting for confirmation before resending the interrupted turn.''), cr_session_id := nonempty_id (Some (sr_session_id r)),
        cr_session_number := Some (sr_session_number r), cr_turn_number := Some (sr_turn_number r)\<rparr>"

definition RESUMING_NOTE :: ustr where
  "RESUMING_NOTE = u ''Resuming the previous turn after it was interrupted by a hard timeout.''"

definition new_turn_active :: "'e process_env \<Rightarrow> ustr \<Rightarrow> ustr option \<Rightarrow> ustr \<Rightarrow> secs \<Rightarrow> py_exn + active_turn" where
  "new_turn_active env chat sid msg now = (case new_active_turn chat sid msg now of Inl e \<Rightarrow> Inl e | Inr a \<Rightarrow> pe_seed env a)"

definition active_dir :: "ustr \<Rightarrow> runtime \<Rightarrow> dir" where
  "active_dir chat rt = (case sd_active (rt_dirs rt chat) of None \<Rightarrow> [] | Some a \<Rightarrow> a)"

definition put_active_dir :: "ustr \<Rightarrow> dir \<Rightarrow> runtime \<Rightarrow> runtime" where
  "put_active_dir chat a rt = put_dirs chat ((rt_dirs rt chat)\<lparr>sd_active := Some a\<rparr>) rt"

text \<open>
  The turn is registered as running, then its number is reserved in the record it began with (if there is one)
  and written; \<open>io\<close> is what the write raises.
\<close>

definition register_turn :: "py_exn option \<Rightarrow> session_record option \<Rightarrow> turn \<Rightarrow> runtime \<Rightarrow> runtime \<times> (turn_exn + chat_result + turn)" where
  "register_turn io old tn rt =
     (let rt1 = rt\<lparr>rt_turns := rt_turns rt @ [ca_chat (tn_args tn)]\<rparr>
      in case old of
           None \<Rightarrow> (rt1, Inr (Inr (tn\<lparr>tn_turn_number := 1\<rparr>)))
         | Some r \<Rightarrow>
             (case reserve_turn_number r of
                (r', n) \<Rightarrow>
                  let rt2 = put_record r' rt1
                  in (case io of
                        Some e \<Rightarrow> (rt2, Inl (Py e))
                      | None \<Rightarrow> (write_record r' rt2, Inr (Inr (tn\<lparr>tn_turn_number := n\<rparr>))))))"

text \<open>A session boundary: the old session's files are archived, a number is taken, the first prompt is built.\<close>

definition begin_new ::
  "'e process_env \<Rightarrow> secs \<Rightarrow> py_exn option \<Rightarrow> ustr \<Rightarrow> ustr \<Rightarrow> session_record option \<Rightarrow> bool \<Rightarrow> ustr \<Rightarrow> bool \<Rightarrow> ustr set \<Rightarrow> ustr option \<Rightarrow> runtime \<Rightarrow>
   runtime \<times> (turn_exn + chat_result + turn)" where
  "begin_new env now io chat msg old timed_out use1 mcp_changed names budget_notice rt =
     (let rt1 = archive_if (te_session env) chat old rt;
          pctx = te_first env rt1 chat msg old use1 (if timed_out then Some By_timeout else None);
          (rt2, n) = take_number chat rt1;
          rt3 = put_active_dir chat (se_sync_skills (te_session env) names (active_dir chat rt2)) rt2
      in case new_turn_active env chat None msg now of
           Inl e \<Rightarrow> (rt3, Inl (Py e))
         | Inr act \<Rightarrow>
             register_turn io old
               \<lparr>tn_args = \<lparr>ca_chat = chat, ca_message = msg, ca_prompt = pc_prompt pctx, ca_model = opt_or (pc_model pctx) use1, ca_old = old,
                  ca_is_new = True, ca_force_new = False, ca_resync = mcp_changed \<and> se_resume_enabled (te_session env)\<rparr>,
                tn_session_number = n, tn_turn_number = 1, tn_notice = pc_notice pctx, tn_budget_notice = budget_notice,
                tn_system_note = (if timed_out then Some RESUMING_NOTE else None), tn_persona_exceeded = pc_persona_exceeded pctx,
                tn_chat_exceeded = pc_chat_exceeded pctx, tn_active = act\<rparr> rt3)"

text \<open>A follow-up turn; neither the notice nor the memory flags of the prompt are taken over.\<close>

definition begin_follow_up ::
  "'e process_env \<Rightarrow> secs \<Rightarrow> py_exn option \<Rightarrow> ustr \<Rightarrow> ustr \<Rightarrow> session_record \<Rightarrow> ustr \<Rightarrow> bool \<Rightarrow> ustr set \<Rightarrow> ustr option \<Rightarrow> runtime \<Rightarrow>
   runtime \<times> (turn_exn + chat_result + turn)" where
  "begin_follow_up env now io chat msg r use1 mcp_changed names budget_notice rt =
     (let rt1 = put_active_dir chat (pe_refresh_skills env names (active_dir chat rt)) rt;
          pctx = te_follow_up env rt1 chat msg r None
      in case new_turn_active env chat (nonempty_id (Some (sr_session_id r))) msg now of
           Inl e \<Rightarrow> (rt1, Inl (Py e))
         | Inr act \<Rightarrow>
             register_turn io (Some r)
               \<lparr>tn_args = \<lparr>ca_chat = chat, ca_message = msg, ca_prompt = pc_prompt pctx, ca_model = opt_or (pc_model pctx) use1, ca_old = Some r,
                  ca_is_new = False, ca_force_new = tp_force_new pctx, ca_resync = mcp_changed \<and> se_resume_enabled (te_session env)\<rparr>,
                tn_session_number = sr_session_number r, tn_turn_number = 1, tn_notice = None, tn_budget_notice = budget_notice,
                tn_system_note = None, tn_persona_exceeded = False, tn_chat_exceeded = False, tn_active = act\<rparr> rt1)"

definition begin_turn ::
  "'e process_env \<Rightarrow> secs \<Rightarrow> py_exn option \<Rightarrow> ustr \<Rightarrow> ustr \<Rightarrow> ustr option \<Rightarrow> runtime \<Rightarrow> runtime \<times> (turn_exn + chat_result + turn)" where
  "begin_turn env now io chat msg0 model rt =
     (case turn_gate chat rt of
        Some r \<Rightarrow> (rt, Inr (Inl r))
      | None \<Rightarrow>
          let old = active_record chat (rt_store rt) in
          case pe_route env rt chat msg0 old of
            Inl e \<Rightarrow> (rt, Inl (Py e))
          | Inr way \<Rightarrow>
              if mr_budget_exceeded way then (rt, Inr (Inl ((mk_result [])\<lparr>cr_notice := mr_notice way\<rparr>)))
              else let current = (if model = None then mr_model way else current_model (te_session env) old) in
              case pe_before_turn env rt chat msg0 (opt_or model current) of
                Inl cr \<Rightarrow> (rt, Inr (Inl cr))
              | Inr (msg, hook_model) \<Rightarrow>
                  let use1 = opt_or hook_model current;
                      (skills, names) = match_and_activate_skills (se_tools (te_session env)) (pe_match_skills env) (pe_all_skills env) chat msg (rt_skills rt) (rt_store rt);
                      rt1 = rt\<lparr>rt_skills := skills\<rparr>;
                      timed_out = (case old of None \<Rightarrow> False | Some r \<Rightarrow> sr_last_stop_reason r = Some (u ''timeout''));
                      drifted = (case old of None \<Rightarrow> True | Some r \<Rightarrow> use1 \<noteq> current \<or> timed_out \<or> opt_names (sr_enabled_skills r) \<noteq> names);
                      mcp_changed = mcp_record_drifted (se_tools (te_session env)) chat old (rt_store rt)
                  in case old of
                       Some r \<Rightarrow>
                         if timed_out \<and> \<not> pe_auto_resend env \<and> \<not> pe_is_continuation env msg
                         then (rt1, Inr (Inl (interrupted_reply (pe_continue_word env) r)))
                         else if drifted then begin_new env now io chat msg old timed_out use1 mcp_changed names (mr_notice way) rt1
                         else begin_follow_up env now io chat msg r use1 mcp_changed names (mr_notice way) rt1
                     | None \<Rightarrow> begin_new env now io chat msg None False use1 mcp_changed names (mr_notice way) rt1)"

subsection \<open>Recording a finished turn\<close>

definition partial_notice :: "ustr \<Rightarrow> prompt_result \<Rightarrow> ustr" where
  "partial_notice word res =
     (let tail = u '' before completing its reply. A partial result is shown. Reply `'' @ word @ u ''` to keep going, or tell me what to change.''
      in if pr_timed_out res \<or> pr_stop_reason res = Some (u ''timeout'') then u ''The agent reached the time limit'' @ tail
         else if pr_cancelled res \<or> pr_stop_reason res = Some (u ''cancelled'') then u ''The agent was stopped'' @ tail
         else if pr_partial res then u ''The agent reached the time limit'' @ tail
         else [])"

definition then_notice :: "ustr option \<Rightarrow> ustr option \<Rightarrow> ustr option" where
  "then_notice a b = (case (a, b) of (None, _) \<Rightarrow> b | (Some x, None) \<Rightarrow> a | (Some x, Some y) \<Rightarrow> Some (x @ [10, 10] @ y))"

definition stop_reason_of :: "bool \<Rightarrow> prompt_result \<Rightarrow> ustr" where
  "stop_reason_of stopped res =
     (if \<not> pr_partial res then u ''completed''
      else if stopped then u ''stopped''
      else if pr_cancelled res then u ''cancelled''
      else case nonempty_id (pr_stop_reason res) of Some s \<Rightarrow> s | None \<Rightarrow> u ''timeout'')"

text \<open>
  The record of the turn: a new one when the turn crossed a session boundary (or the agent session had to be
  rebuilt), else the record object it began with.
\<close>

definition turn_record ::
  "'e process_env \<Rightarrow> secs \<Rightarrow> turn \<Rightarrow> engine_outcome \<Rightarrow> ustr option \<Rightarrow> runtime \<Rightarrow> runtime \<times> session_record" where
  "turn_record env now tn oc label rt =
     (let se = te_session env; a = tn_args tn; chat = ca_chat a;
          mcp = server_names se chat rt; names = py_sorted (skill_names se chat rt);
          model = opt_or (pr_model (oc_result oc)) (oc_model oc); sid = (case oc_session_id oc of None \<Rightarrow> [] | Some s \<Rightarrow> s)
      in case (if oc_is_new oc \<or> ca_force_new a then None else object_of (ca_old a) rt) of
           Some r \<Rightarrow> (rt, r\<lparr>sr_enabled_mcp_servers := Some mcp, sr_enabled_skills := Some names, sr_session_id := sid, sr_model := model\<rparr>)
         | None \<Rightarrow>
             (case (if oc_is_new oc then (rt, tn_session_number tn) else take_number chat rt) of
                (rt1, n) \<Rightarrow>
                  let r = (create_record se now chat n sid model
                             \<lparr>pc_prompt = [], pc_notice = None, pc_model = None, pc_persona_exceeded = oc_persona_exceeded oc, pc_chat_exceeded = oc_chat_exceeded oc\<rparr>
                             None (case label of None \<Rightarrow> pe_label env (ca_message a) | Some l \<Rightarrow> Some l))
                          \<lparr>sr_pending_turn_number := Some (tn_turn_number tn), sr_enabled_mcp_servers := Some mcp, sr_enabled_skills := Some names\<rparr>
                  in (rt1, case object_of (ca_old a) rt of
                             None \<Rightarrow> r
                           | Some old \<Rightarrow> r\<lparr>sr_disabled_mcp_servers := Some (case sr_disabled_mcp_servers old of None \<Rightarrow> [] | Some xs \<Rightarrow> xs),
                                           sr_plugin_overrides := Some (case sr_plugin_overrides old of None \<Rightarrow> [] | Some ov \<Rightarrow> ov)\<rparr>)))"

text \<open>The record with its turn counted, and what \<open>before_record_turn\<close> made of the turn.\<close>

definition counted_record :: "'e process_env \<Rightarrow> secs \<Rightarrow> prompt_result \<Rightarrow> bool \<Rightarrow> session_record \<Rightarrow> session_record" where
  "counted_record env now res stopped r =
     (fst (consume_turn_number r))\<lparr>sr_updated_at := now, sr_cumulative_metrics := Some (pe_cumulative env),
        sr_last_stop_reason := Some (stop_reason_of stopped res)\<rparr>"

definition partial_part :: "'e process_env \<Rightarrow> prompt_result \<Rightarrow> ustr option" where
  "partial_part env res = (if pr_partial res then Some (partial_notice (pe_continue_word env) res) else None)"

definition hooked_turn :: "'e process_env \<Rightarrow> turn \<Rightarrow> engine_outcome \<Rightarrow> session_record \<Rightarrow> record_ctx" where
  "hooked_turn env tn oc r =
     pe_before_record env r \<lparr>xc_turn_number = sr_turn_number r, xc_reply = oc_reply oc,
       xc_notice = then_notice (nonempty_id (oc_notice oc)) (then_notice (tn_notice tn) (partial_part env (oc_result oc))),
       xc_persona_exceeded = oc_persona_exceeded oc, xc_chat_exceeded = oc_chat_exceeded oc, xc_metrics = pe_metrics env oc\<rparr>"

definition marked_record :: "'e process_env \<Rightarrow> turn \<Rightarrow> engine_outcome \<Rightarrow> record_ctx \<Rightarrow> session_record \<Rightarrow> session_record" where
  "marked_record env tn oc xc r =
     (let last_metrics = (case xc_metrics xc of None \<Rightarrow> pe_metrics env oc | Some m \<Rightarrow> Some m)
      in r\<lparr>sr_turn_number := xc_turn_number xc, sr_last_turn_metrics := last_metrics,
           sr_first_turn_metrics := (if (oc_is_new oc \<or> ca_force_new (tn_args tn)) \<and> sr_first_turn_metrics r = None \<and> last_metrics \<noteq> Some []
                                     then last_metrics else sr_first_turn_metrics r),
           sr_persona_memory_exceeded := xc_persona_exceeded xc, sr_chat_memory_exceeded := xc_chat_exceeded xc\<rparr>)"

text \<open>
  The notices: what a plugin made of the combined notice replaces both parts; else there is the notice of the
  rehydration and the one of a partial reply.
\<close>

definition notice_parts :: "'e process_env \<Rightarrow> engine_outcome \<Rightarrow> record_ctx \<Rightarrow> ustr option \<times> ustr option" where
  "notice_parts env oc xc =
     (let part = partial_part env (oc_result oc)
      in if xc_notice xc \<noteq> None \<and> xc_notice xc \<noteq> join_notices [oc_notice oc, part] then (xc_notice xc, None) else (oc_notice oc, part))"

text \<open>\<open>after\<close> runs right after the record is written.\<close>

definition finalize_turn ::
  "'e process_env \<Rightarrow> secs \<Rightarrow> turn \<Rightarrow> engine_outcome \<Rightarrow> ustr option \<Rightarrow> bool \<Rightarrow> (runtime \<Rightarrow> runtime) \<Rightarrow> runtime \<Rightarrow> runtime \<times> chat_result" where
  "finalize_turn env now tn oc label stopped after rt =
     (let (rt1, r0) = turn_record env now tn oc label rt;
          r1 = counted_record env now (oc_result oc) stopped r0;
          xc = hooked_turn env tn oc r1;
          r2 = marked_record env tn oc xc r1;
          (turn_notice, turn_partial) = notice_parts env oc xc;
          rt2 = rt1\<lparr>rt_recorded := rt_recorded rt1 @ [\<lparr>rd_chat = ca_chat (tn_args tn), rd_message = ca_message (tn_args tn), rd_reply = xc_reply xc,
                   rd_model = opt_or (pr_model (oc_result oc)) (oc_model oc), rd_session = sr_session_number r2, rd_turn = sr_turn_number r2,
                   rd_notice = join_notices [turn_notice, turn_partial]\<rparr>]\<rparr>;
          (r3, transition) = check_chat_memory_transition (te_session env) r2;
          shown = (if nonempty_id transition = None then turn_notice else join_notices [turn_notice, transition])
      in (after (write_record r3 (put_record r3 rt2)),
          (mk_result (xc_reply xc))
            \<lparr>cr_notice := join_notices [tn_budget_notice tn, shown, turn_partial], cr_session_id := nonempty_id (Some (sr_session_id r3)),
             cr_session_number := Some (sr_session_number r3), cr_turn_number := Some (sr_turn_number r3), cr_metrics := sr_last_turn_metrics r3\<rparr>))"

subsection \<open>The whole turn\<close>

text \<open>\<open>_cleanup_turn\<close>: whatever happened, the turn is not running any more.\<close>

definition cleanup_turn :: "ustr \<Rightarrow> runtime \<Rightarrow> runtime" where
  "cleanup_turn chat rt = rt\<lparr>rt_turns := filter (\<lambda>c. c \<noteq> chat) (rt_turns rt)\<rparr>"

definition has_pending_continuation :: "ustr \<Rightarrow> ustr option \<Rightarrow> wake_event list \<Rightarrow> bool" where
  "has_pending_continuation chat own evs \<longleftrightarrow>
     list_ex (\<lambda>e. Some (we_id e) \<noteq> own \<and> we_reason e = u ''auto_continue'' \<and> \<not> we_silent e) (filter (\<lambda>e. we_chat_id e = chat) evs)"

definition finish_turn ::
  "'e process_env \<Rightarrow> secs \<Rightarrow> turn \<Rightarrow> engine_outcome ending \<Rightarrow> bool \<Rightarrow> ustr option \<Rightarrow> (runtime \<Rightarrow> runtime) \<Rightarrow> runtime \<Rightarrow>
   runtime \<times> (turn_exn + chat_result)" where
  "finish_turn env now tn out stopped label after rt =
     (case out of
        Raised x \<Rightarrow> (cleanup_turn (ca_chat (tn_args tn)) rt, Inl (Engine x))
      | Early r \<Rightarrow> (cleanup_turn (ca_chat (tn_args tn)) rt, Inr r)
      | Done oc \<Rightarrow>
          (case finalize_turn env now tn oc label stopped after rt of
             (rt1, r) \<Rightarrow> (cleanup_turn (ca_chat (tn_args tn)) rt1, Inr r)))"

definition run_engine :: "'e process_env \<Rightarrow> turn \<Rightarrow> 'e \<Rightarrow> runtime \<Rightarrow> 'e call \<times> engine_outcome ending" where
  "run_engine env tn e rt =
     call_engine (turn_env.truncate env) (tn_args tn) (tn_persona_exceeded tn) (tn_chat_exceeded tn)
       \<lparr>cl_engine = e, cl_active = tn_active tn, cl_rt = rt\<rparr>"

text \<open>Another pending auto-continue wake of the chat is announced with the result.\<close>

definition with_continuation :: "ustr \<Rightarrow> ustr option \<Rightarrow> runtime \<Rightarrow> chat_result \<Rightarrow> turn_exn + chat_result" where
  "with_continuation chat own_wake rt r =
     (case rt_queue rt of
        None \<Rightarrow> Inl (Py AttributeError)
      | Some q \<Rightarrow> (case wake_load (wq_file q) of
                     Inl e \<Rightarrow> Inl (Py e)
                   | Inr d \<Rightarrow> Inr (r\<lparr>cr_continuation := has_pending_continuation chat own_wake (dvals d)\<rparr>)))"

text \<open>
  \<open>process\<close>, with nothing in between.  \<open>announce\<close> is what showing the placeholder raises, which is after the turn was
  registered and before the \<open>try\<close> that cleans up.
\<close>

definition process ::
  "'e process_env \<Rightarrow> secs \<Rightarrow> secs \<Rightarrow> py_exn option \<Rightarrow> py_exn option \<Rightarrow> ustr option \<Rightarrow> ustr \<Rightarrow> ustr \<Rightarrow> ustr option \<Rightarrow> 'e \<Rightarrow> runtime \<Rightarrow>
   'e \<times> runtime \<times> (turn_exn + chat_result)" where
  "process env now fin io announce own_wake chat msg model e rt =
     (case begin_turn env now io chat msg model rt of
        (rt1, Inl x) \<Rightarrow> (e, rt1, Inl x)
      | (rt1, Inr (Inl r)) \<Rightarrow> (e, rt1, Inr r)
      | (rt1, Inr (Inr tn)) \<Rightarrow>
          (case announce of
             Some x \<Rightarrow> (e, rt1, Inl (Py x))
           | None \<Rightarrow>
               (case run_engine env tn e rt1 of
                  (c, out) \<Rightarrow>
                    (case finish_turn env fin tn out (at_stopped (cl_active c)) None id (cl_rt c) of
                       (rt2, Inl x) \<Rightarrow> (cl_engine c, rt2, Inl x)
                     | (rt2, Inr r) \<Rightarrow> (cl_engine c, rt2, case out of Done oc \<Rightarrow> with_continuation chat own_wake rt2 r | _ \<Rightarrow> Inr r)))))"

subsection \<open>Continuing after a dispatch\<close>

definition dispatch_reply :: "ustr \<Rightarrow> string \<Rightarrow> chat_result" where
  "dispatch_reply i text = (mk_result (u text))\<lparr>cr_notice := Some (u ''dispatch:'' @ i)\<rparr>"

definition continue_gate :: "ustr \<Rightarrow> ustr \<Rightarrow> runtime \<Rightarrow> chat_result option" where
  "continue_gate i chat rt =
     (if rt_draining rt then Some (dispatch_reply i ''The service is draining for a restart; continuation deferred.'')
      else if chat \<in> set (rt_ops rt) then Some (dispatch_reply i ''A session operation is in progress for this chat.'')
      else if chat \<in> set (rt_turns rt) then Some (dispatch_reply i ''A turn is already in progress; continuation queued.'')
      else None)"

text \<open>
  \<open>hook\<close> is \<open>before_dispatch_continue\<close>, which may rewrite the result; the result is kept in the dispatch object.  The
  running turn is not seeded from a wake.
\<close>

definition begin_continuation ::
  "'e process_env \<Rightarrow> secs \<Rightarrow> py_exn option \<Rightarrow> (dispatch \<Rightarrow> ustr \<Rightarrow> ustr) \<Rightarrow> ustr \<Rightarrow> ustr \<Rightarrow> dispatch_store \<Rightarrow> runtime \<Rightarrow>
   dispatch_store \<times> runtime \<times> (turn_exn + chat_result + turn \<times> ustr)" where
  "begin_continuation env now io hook i result ds rt =
     (case dispatch_get i ds of
        None \<Rightarrow> (ds, rt, Inr (Inl (mk_result (u ''Unknown dispatch.''))))
      | Some d \<Rightarrow>
          if dp_status d = D_COMPLETED then (ds, rt, Inr (Inl (mk_result (u ''Dispatch already completed.''))))
          else
            let final = hook (d\<lparr>dp_result := Some result\<rparr>) result; chat = dp_chat_id d;
                ds1 = ds\<lparr>ds_items := dset i (d\<lparr>dp_result := Some final\<rparr>) (ds_items ds)\<rparr>
            in case continue_gate i chat rt of
                 Some r \<Rightarrow> (ds1, rt, Inr (Inl r))
               | None \<Rightarrow>
                   (case active_record chat (rt_store rt) of
                      None \<Rightarrow> (ds1, rt, Inr (Inl (mk_result (u ''No active session for this chat.''))))
                    | Some r \<Rightarrow>
                        (case pe_route env rt chat (u ''Continue'') (Some r) of
                           Inl e \<Rightarrow> (ds1, rt, Inl (Py e))
                         | Inr way \<Rightarrow>
                             if mr_budget_exceeded way then (ds1, rt, Inr (Inl ((mk_result [])\<lparr>cr_notice := mr_notice way\<rparr>)))
                             else case pe_before_turn env rt chat (u ''Continue'') (sr_model r) of
                                    Inl cr \<Rightarrow> (ds1, rt, Inr (Inl cr))
                                  | Inr (msg, hook_model) \<Rightarrow>
                                      let drift = mcp_record_drifted (se_tools (te_session env)) chat (Some r) (rt_store rt)
                                                    \<and> sr_last_stop_reason r \<noteq> Some (u ''timeout'')
                                      in case begin_follow_up (env\<lparr>pe_seed := Inr\<rparr>) now io chat msg r (opt_or hook_model (sr_model r)) drift (opt_names (sr_enabled_skills r))
                                                (mr_notice way) rt of
                                           (rt1, Inl e) \<Rightarrow> (ds1, rt1, Inl e)
                                         | (rt1, Inr (Inl cr)) \<Rightarrow> (ds1, rt1, Inr (Inl cr))
                                         | (rt1, Inr (Inr tn)) \<Rightarrow>
                                             (ds1, rt1, Inr (Inr (tn\<lparr>tn_args := (tn_args tn)\<lparr>ca_force_new := False\<rparr>\<rparr>, final))))))"

text \<open>\<open>fin\<close> is also the clock of the completion in the dispatch store.\<close>

definition continue_dispatch ::
  "'e process_env \<Rightarrow> secs \<Rightarrow> secs \<Rightarrow> py_exn option \<Rightarrow> (dispatch \<Rightarrow> ustr \<Rightarrow> ustr) \<Rightarrow> ustr \<Rightarrow> ustr \<Rightarrow> 'e \<Rightarrow> dispatch_store \<Rightarrow> runtime \<Rightarrow>
   'e \<times> dispatch_store \<times> runtime \<times> (turn_exn + chat_result)" where
  "continue_dispatch env now fin io hook i result e ds rt =
     (case begin_continuation env now io hook i result ds rt of
        (ds1, rt1, Inl x) \<Rightarrow> (e, ds1, rt1, Inl x)
      | (ds1, rt1, Inr (Inl r)) \<Rightarrow> (e, ds1, rt1, Inr r)
      | (ds1, rt1, Inr (Inr (tn, final))) \<Rightarrow>
          (case run_engine env tn e rt1 of
             (c, out) \<Rightarrow>
               (case finish_turn env fin tn out (at_stopped (cl_active c)) (Some (u ''dispatch continuation''))
                       (\<lambda>rt. rt\<lparr>rt_store := prune_and_compact (se_prune (te_session env)) fin (ca_chat (tn_args tn)) (rt_store rt)\<rparr>) (cl_rt c) of
                  (rt2, r) \<Rightarrow>
                    (cl_engine c, case out of Done oc \<Rightarrow> fst (dispatch_complete i final fin ds1) | _ \<Rightarrow> ds1, rt2, r))))"

end
