(* ===== verification/SessionRuns.thy ===== *)
theory SessionRuns
  imports SessionOps
begin

section \<open>What session operations do\<close>

text \<open>
  Properties of the operations of \<open>SessionOps\<close>: the registry and its file stay in step whatever the engine
  answers; what a fresh session does; and a parked operation is run as it was asked for.
\<close>

subsection \<open>The registry stays in step with its file\<close>

lemma dset_twice: "dset k v (dset k w d) = dset k v d"
  by (induction d) auto

lemma set_session_twice:
  assumes "sr_chat_id r1 = sr_chat_id r2" and "sr_session_number r1 = sr_session_number r2"
  shows "set_session r2 (set_session r1 s) = set_session r2 s"
proof -
  obtain s1 cs where c: "chat_state_of (sr_chat_id r2) s = (s1, cs)" by force
  then show ?thesis using assms by (simp add: set_session_def chat_state_of_def dset_twice)
qed

lemma consume_same: "sr_chat_id (fst (consume_turn_number r)) = sr_chat_id r \<and> sr_session_number (fst (consume_turn_number r)) = sr_session_number r
   \<and> sr_session_id (fst (consume_turn_number r)) = sr_session_id r \<and> sr_model (fst (consume_turn_number r)) = sr_model r"
  by (simp add: consume_turn_number_def split: option.split)

lemma reserve_same: "sr_chat_id (fst (reserve_turn_number r)) = sr_chat_id r \<and> sr_session_number (fst (reserve_turn_number r)) = sr_session_number r"
  by (simp add: reserve_turn_number_def Let_def)

lemma transition_same:
  "check_chat_memory_transition env r = (r', t) \<Longrightarrow>
   sr_chat_id r' = sr_chat_id r \<and> sr_session_number r' = sr_session_number r \<and> sr_updated_at r' = sr_updated_at r
   \<and> sr_turn_number r' = sr_turn_number r \<and> sr_session_id r' = sr_session_id r \<and> sr_pending_turn_number r' = sr_pending_turn_number r
   \<and> sr_model r' = sr_model r"
  by (auto simp: check_chat_memory_transition_def Let_def split: option.splits prod.splits if_splits)

lemma frames [simp]:
  "rt_store (put_dirs chat d rt) = rt_store rt" "rt_store (sync_active env chat names rt) = rt_store rt"
  "rt_store (archive_if env chat r rt) = rt_store rt"
  "rt_dirs (put_dirs chat d rt) = (rt_dirs rt)(chat := d)" "rt_dirs (put_record x rt) = rt_dirs rt" "rt_dirs (write_record x rt) = rt_dirs rt"
  by (auto simp: put_dirs_def sync_active_def archive_if_def put_record_def write_record_def Let_def split: option.split)

lemma start_store: "rt_store (fst (start_new_session env chat p m sv names rt)) = rt_store rt"
  by (auto simp: start_new_session_def Let_def split: sum.split option.split)

lemma swap_store: "rt_store (fst (swap_dirs env chat a n rt)) = rt_store rt"
  by (simp add: swap_dirs_def split: prod.split)

text \<open>The record a finished operation leaves.\<close>

definition activated :: "session_env \<Rightarrow> secs \<Rightarrow> session_record \<Rightarrow> session_record" where
  "activated env fin r = fst (check_chat_memory_transition env ((fst (consume_turn_number r))\<lparr>sr_updated_at := fin\<rparr>))"

lemma activated_same:
  "sr_chat_id (activated env fin r) = sr_chat_id r" "sr_session_number (activated env fin r) = sr_session_number r"
  "sr_updated_at (activated env fin r) = fin" "sr_session_id (activated env fin r) = sr_session_id r"
  "sr_turn_number (activated env fin r) = sr_turn_number (fst (consume_turn_number r))" "sr_model (activated env fin r) = sr_model r"
  unfolding activated_def using consume_same [of r]
  by (cases "check_chat_memory_transition env ((fst (consume_turn_number r))\<lparr>sr_updated_at := fin\<rparr>)"; auto dest!: transition_same)+

lemma finalize_store:
  "sr_chat_id x = sr_chat_id r \<Longrightarrow> sr_session_number x = sr_session_number r \<Longrightarrow>
   rt_store (fst (finalize_session_activation env fin r a b c d (put_record x rt))) =
     prune_and_compact (se_prune env) fin (sr_chat_id r) (put_session (activated env fin r) (rt_store rt))"
proof -
  obtain r2 t where r2: "check_chat_memory_transition env ((fst (consume_turn_number r))\<lparr>sr_updated_at := fin\<rparr>) = (r2, t)" by force
  then have act: "activated env fin r = r2" by (simp add: activated_def)
  assume "sr_chat_id x = sr_chat_id r" "sr_session_number x = sr_session_number r"
  with act activated_same [of env fin r] show ?thesis
    by (simp add: finalize_session_activation_def r2 Let_def write_record_def put_record_def put_session_def set_session_twice)
qed

lemma finalize_result:
  "\<exists>res. snd (finalize_session_activation env fin r a b c d rt) = Inr res \<and> cr_session_number res = Some (sr_session_number r)
     \<and> cr_session_id res = Some (sr_session_id r) \<and> cr_turn_number res = Some (sr_turn_number (fst (consume_turn_number r)))"
proof -
  obtain r2 t where r2: "check_chat_memory_transition env ((fst (consume_turn_number r))\<lparr>sr_updated_at := fin\<rparr>) = (r2, t)" by force
  with transition_same [OF this] consume_same [of r] show ?thesis
    by (simp add: finalize_session_activation_def Let_def)
qed

lemma synced_prune: "synced s \<Longrightarrow> synced (prune_and_compact cfg t c s)"
  using store_step_synced [of s cfg "Prune t c"] by simp

abbreviation numbered :: "session_record \<Rightarrow> runtime \<Rightarrow> bool" where
  "numbered r rt \<equiv> sr_session_number r < next_of (sr_chat_id r) (st_states (rt_store rt))"

lemma fresh_record_same [simp]:
  "sr_chat_id (fresh_record env now chat n label sid m pctx res old ov rt) = chat"
  "sr_session_number (fresh_record env now chat n label sid m pctx res old ov rt) = n"
  "sr_session_id (fresh_record env now chat n label sid m pctx res old ov rt) = sid"
  "sr_turn_number (fresh_record env now chat n label sid m pctx res old ov rt) = 0"
  "sr_pending_turn_number (fresh_record env now chat n label sid m pctx res old ov rt) = None"
  by (simp_all add: fresh_record_def create_record_def blank_session_def)

lemma branch_record_same [simp]:
  "sr_chat_id (branch_record env now chat new n src sid m pctx mcp names) = chat"
  "sr_session_number (branch_record env now chat new n src sid m pctx mcp names) = new"
  by (simp_all add: branch_record_def create_record_def)

lemma taken_over_same [simp]:
  "sr_chat_id (taken_over env fin chat mcp names r) = sr_chat_id r" "sr_session_number (taken_over env fin chat mcp names r) = sr_session_number r"
  "sr_chat_id (with_flags pctx r) = sr_chat_id r" "sr_session_number (with_flags pctx r) = sr_session_number r"
  by (simp_all add: taken_over_def with_flags_def)

lemma resumed_reply_swapped:
  "resumed_reply env fin r n reply (sync_active env chat names (put_record r rt)) =
   resumed_reply env fin r n reply (put_record r (sync_active env chat names rt))"
  by (cases rt) (simp add: sync_active_def put_dirs_def put_record_def Let_def)

text \<open>
  An invariant of the registry that the store's operations keep is kept by the session operations; of two such
  invariants use is made: the file and the registry agree, and the registry is well formed.
\<close>

locale registry_invariant =
  fixes ok :: "chat_store \<Rightarrow> bool"
  assumes registered: "ok s \<Longrightarrow> states_ok (st_states s)"
    and put: "ok s \<Longrightarrow> sr_session_number r < next_of (sr_chat_id r) (st_states s) \<Longrightarrow> ok (put_session r s)"
    and number: "ok s \<Longrightarrow> next_session_number chat s = (s', n) \<Longrightarrow> ok s' \<and> n < next_of chat (st_states s')"
    and pruned: "ok s \<Longrightarrow> ok (prune_and_compact cfg t chat s)"
    and seen: "ok s \<Longrightarrow> chat_state_of chat s = (s', cs) \<Longrightarrow> ok s'"
begin

lemma finalize_ok:
  assumes "ok (rt_store rt)" and "numbered r rt" and "sr_chat_id x = sr_chat_id r" and "sr_session_number x = sr_session_number r"
  shows "ok (rt_store (fst (finalize_session_activation env fin r a b c d (put_record x rt))))"
  unfolding finalize_store [OF assms(3,4)] using assms
  by (auto intro!: pruned put simp: activated_same)

lemma take_number_ok: "ok (rt_store rt) \<Longrightarrow> take_number chat rt = (rt', n) \<Longrightarrow> ok (rt_store rt') \<and> n < next_of chat (st_states (rt_store rt')) \<and> rt_dirs rt' = rt_dirs rt"
  by (auto simp: take_number_def split: prod.splits dest: number)

lemma reserve_ok:
  "ok (rt_store rt) \<Longrightarrow> numbered r rt \<Longrightarrow> reserve_and_write r rt = (rt', r') \<Longrightarrow>
   ok (rt_store rt') \<and> numbered r' rt' \<and> sr_chat_id r' = sr_chat_id r \<and> sr_session_number r' = sr_session_number r"
proof -
  assume a: "ok (rt_store rt)" "numbered r rt" "reserve_and_write r rt = (rt', r')"
  then have r': "r' = fst (reserve_turn_number r)" and rt': "rt_store rt' = put_session r' (rt_store rt)"
    by (auto simp: reserve_and_write_def Let_def write_record_def put_record_def put_session_def)
  with reserve_same [of r] a(1,2) have "ok (put_session r' (rt_store rt))" by (auto intro: put)
  moreover have "next_of c (st_states (put_session r' s)) = next_of c (st_states s)" for c s
  proof -
    obtain s1 cs where c: "chat_state_of (sr_chat_id r') s = (s1, cs)" by force
    from chat_state_of_eq [OF c] c show ?thesis by (simp add: put_session_def append_record_def set_session_def)
  qed
  ultimately show ?thesis using a r' rt' reserve_same [of r] by simp
qed

lemma fresh_session_ok:
  "ok (rt_store rt) \<Longrightarrow> ok (rt_store (fst (start_fresh_session env now fin chat desired kind label sys opening old clear ov rt)))"
proof -
  assume ok: "ok (rt_store rt)"
  let ?rt1 = "archive_if env chat (active_record chat (rt_store rt)) rt"
  let ?rt2 = "if clear then put_dirs chat (clear_active_session (se_durable env) (rt_dirs ?rt1 chat)) ?rt1 else ?rt1"
  obtain rt3 n where n: "take_number chat ?rt2 = (rt3, n)" by force
  have "ok (rt_store ?rt2)" using ok by simp
  from take_number_ok [OF this n] have 3: "ok (rt_store rt3)" "n < next_of chat (st_states (rt_store rt3))" by auto
  have "ok (rt_store (fst (finalize_session_activation env fin r a b c d (put_record r rt4))))"
    if "start_new_session env chat p m sv names rt3 = (rt4, x)" "sr_chat_id r = chat" "sr_session_number r = n" for r a b c d rt4 p m sv names x
    using start_store [of env chat p m sv names rt3] that 3 by (intro finalize_ok) auto
  moreover have "ok (rt_store rt4)" if "start_new_session env chat p m sv names rt3 = (rt4, x)" for rt4 p m sv names x
    using start_store [of env chat p m sv names rt3] that 3 by simp
  ultimately show ?thesis using ok 3 n
    by (auto simp: start_fresh_session_def Let_def split: sum.split prod.split)
qed

lemma registered_numbered:
  "ok (rt_store rt) \<Longrightarrow> dget n (sessions_of chat (st_states (rt_store rt))) = Some r \<Longrightarrow> sr_chat_id r = chat \<and> sr_session_number r = n \<and> numbered r rt"
proof -
  assume "ok (rt_store rt)" and d: "dget n (sessions_of chat (st_states (rt_store rt))) = Some r"
  then have "sessions_ok chat (state_of chat (st_states (rt_store rt)))" by (auto dest: registered intro: states_ok_get)
  with d show ?thesis by (auto simp: sessions_ok_def dest!: map_of_SomeD)
qed

lemma active_numbered: "ok (rt_store rt) \<Longrightarrow> active_record chat (rt_store rt) = Some r \<Longrightarrow> sr_chat_id r = chat \<and> numbered r rt"
  using active_record_in [of chat "rt_store rt" r] registered_numbered [where rt = rt and chat = chat and r = r and n = "sr_session_number r"] by (auto dest: registered)

lemma in_place_ok:
  "ok (rt_store rt) \<Longrightarrow> active_record chat (rt_store rt) = Some r \<Longrightarrow> ok (rt_store (fst (switch_model_in_place env fin ch chat r model cur rt)))"
  using active_numbered [where rt = rt and chat = chat and r = r]
  by (auto simp: switch_model_in_place_def Let_def put_record_def write_record_def put_session_def [symmetric]
      intro!: put split: sum.split)

lemma chat_state_ok: "ok (rt_store rt) \<Longrightarrow> chat_state_of chat (rt_store rt) = (st, cs) \<Longrightarrow> ok (rt_store (rt\<lparr>rt_store := st\<rparr>)) \<and> cs = state_of chat (st_states st)"
  using chat_state_of_eq [of chat "rt_store rt" st cs] seen [of "rt_store rt" chat st cs] by auto

lemma resumed_reply_ok:
  "ok (rt_store rt) \<Longrightarrow> numbered r rt \<Longrightarrow> ok (rt_store (fst (resumed_reply env fin r n reply (put_record r rt))))"
  unfolding resumed_reply_def by (rule finalize_ok) simp_all

lemma resume_on_session_ok:
  assumes "ok (rt_store rt)" and "numbered source rt"
  shows "ok (rt_store (fst (resume_on_session env fin chat source n sid mcp names rt)))"
proof -
  obtain rt1 r1 where r: "reserve_and_write source rt = (rt1, r1)" by force
  from reserve_ok [OF assms this] show ?thesis using assms
    by (auto simp: resume_on_session_def r Let_def resumed_reply_swapped intro!: resumed_reply_ok split: sum.split)
qed

lemma resume_rebuilt_ok:
  assumes "ok (rt_store rt)" and "numbered source rt"
  shows "ok (rt_store (fst (resume_rebuilt env fin chat active source n mcp names rt)))"
proof -
  obtain rt1 r1 where r: "reserve_and_write source rt = (rt1, r1)" by force
  have "rt_store rt2 = rt_store rt1" if "start_new_session env chat p m sv nm rt1 = (rt2, x)" for rt2 x p m sv nm
    using start_store [of env chat p m sv nm rt1] that by simp
  with reserve_ok [OF assms r] show ?thesis using assms
    by (auto simp: resume_rebuilt_def r Let_def intro!: resumed_reply_ok split: sum.split prod.split)
qed

lemma resume_held_ok: "ok (rt_store rt) \<Longrightarrow> ok (rt_store (fst (resume_held env fin chat n rt)))"
proof -
  assume ok: "ok (rt_store rt)"
  obtain st cs where c: "chat_state_of chat (rt_store rt) = (st, cs)" by force
  let ?rt = "rt\<lparr>rt_store := st\<rparr>"
  note k = chat_state_ok [OF ok c]
  have "ok (rt_store rt1) \<and> (dget n (cs_sessions cs) = Some r \<longrightarrow> sr_chat_id r = chat \<and> sr_session_number r < next_of chat (st_states (rt_store rt1)))"
    if "swap_dirs env chat a n ?rt = (rt1, b)" for rt1 b a r
  proof -
    have "rt_store rt1 = st" using swap_store [of env chat a n ?rt] that by simp
    then show ?thesis using k registered_numbered [where rt = ?rt and n = n and chat = chat and r = r] by auto
  qed
  then show ?thesis using ok k
    by (auto simp: resume_held_def c Let_def intro!: resume_on_session_ok resume_rebuilt_ok resumed_reply_ok
        split: option.split prod.split bool.split)
qed

lemma branch_finish_ok:
  "ok (rt_store rt) \<Longrightarrow> numbered r rt \<Longrightarrow> ok (rt_store (fst (branch_finish env fin n r reply notice rt)))"
  unfolding branch_finish_def by (rule finalize_ok) simp_all

lemma branch_started_ok:
  assumes "ok (rt_store rt)" and "new < next_of chat (st_states (rt_store rt))"
  shows "ok (rt_store (fst (branch_started env now fin chat new n active source ctx rt)))"
proof -
  have 1: "ok (rt_store (fst (branch_resumed env now fin chat new n source ctx sid use1 mcp names rt)))" for sid use1 mcp names
    using assms by (auto simp: branch_resumed_def Let_def intro!: branch_finish_ok split: sum.split)
  have "ok (rt_store rt1) \<and> new < next_of chat (st_states (rt_store rt1))"
    if "start_new_session env chat p m sv nm rt = (rt1, x)" for rt1 x p m sv nm
    using assms start_store [of env chat p m sv nm rt] that by simp
  then have 2: "ok (rt_store (fst (branch_rebuilt env now fin chat new n active source ctx use1 servers mcp names rt)))" for use1 servers mcp names
    by (auto simp: branch_rebuilt_def Let_def intro!: branch_finish_ok split: sum.split prod.split)
  show ?thesis unfolding branch_started_def Let_def by (simp add: 1 2 split: option.split)
qed

lemma branch_held_ok: "ok (rt_store rt) \<Longrightarrow> ok (rt_store (fst (branch_held env now fin chat n rt)))"
proof -
  assume ok: "ok (rt_store rt)"
  obtain st cs where c: "chat_state_of chat (rt_store rt) = (st, cs)" by force
  let ?rt = "rt\<lparr>rt_store := st\<rparr>"
  obtain rt1 b where w: "swap_dirs env chat (active_record chat st) n ?rt = (rt1, b)" by force
  obtain rt2 new where t: "take_number chat rt1 = (rt2, new)" by force
  have 1: "ok (rt_store ?rt)" "ok (rt_store rt1)" using chat_state_ok [OF ok c] swap_store [of env chat "active_record chat st" n ?rt] w by auto
  note 2 = take_number_ok [OF 1(2) t]
  from 1 2 show ?thesis
    by (simp add: branch_held_def c w t Let_def branch_started_ok split: option.split bool.split sum.split)
qed

lemma hold_ok:
  assumes "\<And>rt. ok (rt_store rt) \<Longrightarrow> ok (rt_store (fst (body rt)))" and "ok (rt_store rt)"
  shows "ok (rt_store (fst (hold_session_op chat body rt)))"
proof -
  have "ok (rt_store (rt\<lparr>rt_ops := rt_ops rt @ [chat]\<rparr>))" using assms(2) by simp
  from assms(1) [OF this] show ?thesis by (simp add: hold_session_op_def case_prod_unfold)
qed

lemma busy_ok: "ok (rt_store rt) \<Longrightarrow> session_op_busy fresh chat op q now rt = Some out \<Longrightarrow> ok (rt_store (fst out))"
  by (auto simp: session_op_busy_def queue_session_op_def split: if_splits option.splits sum.splits prod.splits)

lemma gated_ok:
  assumes "ok (rt_store rt)" and "\<And>rt. ok (rt_store rt) \<Longrightarrow> ok (rt_store (fst (body rt)))"
  shows "ok (rt_store (fst (case session_op_busy fresh chat op q now rt of Some out \<Rightarrow> out | None \<Rightarrow> hold_session_op chat body rt)))"
  using assms busy_ok [OF assms(1), of fresh chat op q now] by (auto split: option.split intro: hold_ok)

lemma switch_body_ok:
  "ok (rt_store rt) \<Longrightarrow> ok (rt_store (fst (let r = active_record chat (rt_store rt); cur = current_model env r
      in case r of
           Some x \<Rightarrow>
             if ip \<and> sr_session_id x \<noteq> [] then switch_model_in_place env fin ch chat x model cur rt
             else start_fresh_session env now fin chat model k l sy op1 (Some cur) False None rt
         | None \<Rightarrow> start_fresh_session env now fin chat model k l sy op1 (Some cur) False None rt)))"
  by (cases "active_record chat (rt_store rt)") (simp_all add: Let_def fresh_session_ok in_place_ok)

lemma switch_model_ok: "ok (rt_store rt) \<Longrightarrow> ok (rt_store (fst (switch_model env fresh now fin ch chat m b q rt)))"
  unfolding switch_model_def by (cases "rt_draining rt") (simp_all only: if_True if_False fst_conv gated_ok switch_body_ok)

lemma new_session_ok: "ok (rt_store rt) \<Longrightarrow> ok (rt_store (fst (new_session env fresh now fin chat m q rt)))"
  unfolding new_session_def by (rule gated_ok) (simp_all only: Let_def fresh_session_ok)

lemma resume_session_ok: "ok (rt_store rt) \<Longrightarrow> ok (rt_store (fst (resume_session env fresh now fin chat n q rt)))"
  unfolding resume_session_def by (intro gated_ok resume_held_ok)

lemma branch_session_ok: "ok (rt_store rt) \<Longrightarrow> ok (rt_store (fst (branch_session env fresh now fin chat n q rt)))"
  unfolding branch_session_def by (intro gated_ok branch_held_ok)

lemma session_op_ok: "ok (rt_store rt) \<Longrightarrow> ok (rt_store (fst (do_session_op env fresh now fin ch chat op q rt)))"
  by (cases op) (simp_all add: do_session_op_def switch_model_ok new_session_ok resume_session_ok branch_session_ok)

lemma session_op_result_ok: "do_session_op env fresh now fin ch chat op q rt = (rt1, x) \<Longrightarrow> ok (rt_store rt) \<Longrightarrow> ok (rt_store rt1)"
  using session_op_ok [of rt env fresh now fin ch chat op q] by simp

end

lemma seen_synced: "synced s \<Longrightarrow> chat_state_of chat s = (s', cs) \<Longrightarrow> synced s'"
  using chat_state_of_eq [of chat s s' cs] by (auto simp: synced_def)

interpretation file_synced: registry_invariant synced
proof unfold_locales
  show "states_ok (st_states s)" if "synced s" for s using that by (simp add: synced_def)
  show "synced s' \<and> n < next_of chat (st_states s')" if "synced s" "next_session_number chat s = (s', n)" for s chat s' n
    using next_number_synced [OF that] by blast
qed (rule put_session_synced synced_prune seen_synced; assumption)+

text \<open>What the registry becomes does not depend on the file.\<close>

lemma registry_alone:
  "st_states (put_session r (s\<lparr>st_file := f\<rparr>)) = st_states (put_session r s)"
  "st_states (fst (next_session_number chat (s\<lparr>st_file := f\<rparr>))) = st_states (fst (next_session_number chat s))"
  "snd (next_session_number chat (s\<lparr>st_file := f\<rparr>)) = snd (next_session_number chat s)"
  "st_states (prune_and_compact cfg t chat (s\<lparr>st_file := f\<rparr>)) = st_states (prune_and_compact cfg t chat s)"
  by (auto simp: put_session_def append_record_def set_session_def chat_state_of_def next_session_number_def prune_and_compact_def
      prune_chat_def compact_store_def active_record_def Let_def split: option.split prod.split)

lemma compacted_file: "\<exists>f. compact_store s = s\<lparr>st_file := f\<rparr>"
  by (auto simp: compact_store_def)

interpretation well_formed: registry_invariant "\<lambda>s. states_ok (st_states s)"
proof unfold_locales
  fix s :: chat_store assume ok: "states_ok (st_states s)"
  obtain f where f: "compact_store s = s\<lparr>st_file := f\<rparr>" using compacted_file by blast
  have sync: "synced (s\<lparr>st_file := f\<rparr>)" using compact_synced [OF ok] f by simp
  show "states_ok (st_states (put_session r s))" if "sr_session_number r < next_of (sr_chat_id r) (st_states s)" for r
    using put_session_synced [OF sync, of r] that by (simp add: synced_def registry_alone)
  show "states_ok (st_states s') \<and> n < next_of chat (st_states s')" if "next_session_number chat s = (s', n)" for chat s' n
  proof -
    obtain s1 n1 where n: "next_session_number chat (s\<lparr>st_file := f\<rparr>) = (s1, n1)" by force
    then have "st_states s1 = st_states s'" "n1 = n" using registry_alone(2,3) [where chat = chat and s = s and f = f] that by simp_all
    with next_number_synced [OF sync n] show ?thesis by (simp add: synced_def)
  qed
  show "states_ok (st_states (prune_and_compact cfg t chat s))" for cfg t chat
    using synced_prune [OF sync, of cfg t chat] by (simp add: synced_def registry_alone)
  show "states_ok (st_states s')" if "chat_state_of chat s = (s', cs)" for chat s' cs
    using chat_state_of_eq [OF that] ok by blast
qed

abbreviation rt_ok :: "runtime \<Rightarrow> bool" where
  "rt_ok rt \<equiv> synced (rt_store rt)"

text \<open>
  Claim C6.  Whatever session operation runs (or is parked or refused), and whatever the engine, the plugins and the clock
  answer, raising or not: the registry of sessions stays what reading the file back would give, so the sessions
  survive a restart of the service at any point between two operations.
\<close>

theorem session_ops_keep_the_store_synced:
  "synced (rt_store rt) \<Longrightarrow>
   synced (rt_store (fst (do_session_op env fresh now fin changed chat op queue_on_busy rt)))
   \<and> synced (rt_store (fst (run_session_op env now fin changed chat payload rt)))"
  by (auto simp: run_session_op_def file_synced.session_op_ok split: sum.split option.split prod.split intro: file_synced.session_op_result_ok)

subsection \<open>A fresh session\<close>

lemma py_max_key_unique:
  assumes "x \<in> set xs" and "\<forall>y \<in> set xs. y = x \<or> f y < f x"
  shows "py_max_key f xs = Some x"
proof -
  obtain z where z: "py_max_key f xs = Some z" using assms(1) by (cases xs) auto
  with assms(2) py_max_key_mem [OF z] py_max_key_ge [OF z assms(1)] show ?thesis by auto
qed

definition newest :: "secs \<Rightarrow> ustr \<Rightarrow> runtime \<Rightarrow> bool" where
  "newest fin chat rt \<longleftrightarrow> list_all (\<lambda>x. sr_updated_at x < fin) (dvals (sessions_of chat (st_states (rt_store rt))))"

lemma put_session_states:
  "sessions_of c (st_states (put_session r s)) =
     (if c = sr_chat_id r then dset (sr_session_number r) r (sessions_of c (st_states s)) else sessions_of c (st_states s))"
proof -
  obtain s1 cs where c: "chat_state_of (sr_chat_id r) s = (s1, cs)" by force
  from chat_state_of_eq [OF c] c show ?thesis by (simp add: put_session_def append_record_def set_session_def)
qed

text \<open>A session that is not the active one survives a pruning at time \<open>t\<close> unless it is too old.\<close>

definition kept :: "prune_config \<Rightarrow> secs \<Rightarrow> session_record option \<Rightarrow> session_record option" where
  "kept cfg t o1 =
     (case o1 of None \<Rightarrow> None
      | Some y \<Rightarrow> if pn_enabled cfg \<and> \<not> sr_updated_at y \<ge> t - of_int (pn_days cfg * 86400) then None else Some y)"

lemma prune_sessions:
  assumes "dget n (sessions_of chat (st_states s)) = Some x" and "active_record chat s = Some x" and "sr_session_number x = n"
    and "dict_ok (sessions_of chat (st_states s))"
  shows "dget n (sessions_of chat (st_states (prune_and_compact cfg t chat s))) = Some x
    \<and> set (sessions_of chat (st_states (prune_and_compact cfg t chat s))) \<subseteq> set (sessions_of chat (st_states s))
    \<and> dict_ok (sessions_of chat (st_states (prune_and_compact cfg t chat s)))
    \<and> (\<forall>m. m \<noteq> n \<longrightarrow> dget m (sessions_of chat (st_states (prune_and_compact cfg t chat s))) = kept cfg t (dget m (sessions_of chat (st_states s))))"
proof (cases "pn_enabled cfg")
  case True
  obtain s1 cs where c: "chat_state_of chat s = (s1, cs)" by force
  note e = chat_state_of_eq [OF c]
  let ?gone = "map fst (filter (prunable cfg t (active_record chat s1)) (cs_sessions cs))"
  have "active_record chat s1 = active_record chat s" unfolding active_record_eq using e by simp
  with assms(2) have act: "active_record chat s1 = Some x" by simp
  then have "n \<notin> set ?gone" using assms(2,3) by (auto simp: prunable_def)
  moreover have "sessions_of chat (st_states (prune_and_compact cfg t chat s)) = dpop_all ?gone (sessions_of chat (st_states s))"
    using True c e by (simp add: prune_and_compact_def prune_chat_def Let_def compact_store_def)
  moreover have "cs_sessions cs = sessions_of chat (st_states s)" using e by simp
  moreover have "m \<in> set ?gone \<longleftrightarrow> (\<exists>y. dget m (sessions_of chat (st_states s)) = Some y \<and> \<not> sr_updated_at y \<ge> t - of_int (pn_days cfg * 86400))"
    if "m \<noteq> n" for m
    using that assms(3,4) e unfolding act by (force simp: prunable_def dget_iff_mem)
  then have "(if m \<in> set ?gone then None else dget m (sessions_of chat (st_states s))) = kept cfg t (dget m (sessions_of chat (st_states s)))"
    if "m \<noteq> n" for m
    using that True by (auto simp: kept_def split: option.split)
  ultimately show ?thesis using assms(1,4) by (auto simp: dget_iff_mem [of "dpop_all _ _"] dpop_all_ok mem_dpop_all dget_iff_mem)
qed (use assms in \<open>auto simp: prune_and_compact_def kept_def split: option.split\<close>)

lemma activated_becomes_active:
  assumes "synced s" and "sr_session_number r < next_of chat (st_states s)" and "sr_chat_id r = chat"
    and "list_all (\<lambda>x. sr_updated_at x < fin) (dvals (sessions_of chat (st_states s)))"
  shows "active_record chat (prune_and_compact cfg fin chat (put_session (activated env fin r) s)) = Some (activated env fin r)
    \<and> (\<forall>m. m \<noteq> sr_session_number r \<longrightarrow>
         dget m (sessions_of chat (st_states (prune_and_compact cfg fin chat (put_session (activated env fin r) s)))) = kept cfg fin (dget m (sessions_of chat (st_states s))))"
proof -
  let ?x = "activated env fin r" and ?n = "sr_session_number r"
  let ?s1 = "put_session ?x s"
  let ?s2 = "prune_and_compact cfg fin chat ?s1"
  have sync: "synced ?s1" using assms(1-3) by (intro put_session_synced) (simp_all add: activated_same)
  then have ok: "sessions_ok chat (state_of chat (st_states ?s1))" by (auto simp: synced_def intro: states_ok_get)
  have ses: "sessions_of chat (st_states ?s1) = dset ?n ?x (sessions_of chat (st_states s))"
    using assms(3) by (simp add: put_session_states activated_same)
  have v: "y = ?x \<or> sr_updated_at y < sr_updated_at ?x" if "(k, y) \<in> set (sessions_of chat (st_states ?s1))" for k y
    using that assms(4) set_dset [of ?n ?x "sessions_of chat (st_states s)"] unfolding ses
    by (fastforce simp: activated_same list_all_iff)
  have at: "dget ?n (sessions_of chat (st_states ?s1)) = Some ?x" by (simp add: ses)
  then have "(?n, ?x) \<in> set (sessions_of chat (st_states ?s1))" by (rule map_of_SomeD)
  then have act: "active_record chat ?s1 = Some ?x"
    unfolding active_record_eq using v by (intro py_max_key_unique) force+
  have d: "dict_ok (sessions_of chat (st_states ?s1))" using ok by (simp add: sessions_ok_def)
  note p = prune_sessions [OF at act _ d, where cfg = cfg and t = fin, unfolded activated_same, OF refl]
  have "active_record chat ?s2 = Some ?x"
    unfolding active_record_eq using p v by (intro py_max_key_unique) (force dest: map_of_SomeD)+
  moreover have "dget m (sessions_of chat (st_states ?s2)) = kept cfg fin (dget m (sessions_of chat (st_states s)))" if "m \<noteq> ?n" for m
    using p that by (simp add: ses)
  ultimately show ?thesis by blast
qed

lemma finalize_frame [simp]:
  "rt_dirs (fst (finalize_session_activation env fin r a b c d rt)) = rt_dirs rt"
  "rt_turns (fst (finalize_session_activation env fin r a b c d rt)) = rt_turns rt"
  "rt_ops (fst (finalize_session_activation env fin r a b c d rt)) = rt_ops rt"
  "rt_queue (fst (finalize_session_activation env fin r a b c d rt)) = rt_queue rt"
  by (simp_all add: finalize_session_activation_def Let_def write_record_def put_record_def split: prod.split)

lemma op_frames [simp]:
  "rt_ops (put_dirs chat d rt) = rt_ops rt" "rt_turns (put_dirs chat d rt) = rt_turns rt" "rt_queue (put_dirs chat d rt) = rt_queue rt"
  "rt_ops (put_record r rt) = rt_ops rt" "rt_turns (put_record r rt) = rt_turns rt" "rt_queue (put_record r rt) = rt_queue rt"
  "rt_ops (archive_if env chat o1 rt) = rt_ops rt" "rt_turns (archive_if env chat o1 rt) = rt_turns rt" "rt_queue (archive_if env chat o1 rt) = rt_queue rt"
  by (simp_all add: put_dirs_def put_record_def archive_if_def split: option.split)

lemma take_number_frame:
  "take_number chat rt = (rt', n) \<Longrightarrow>
   rt_dirs rt' = rt_dirs rt \<and> rt_ops rt' = rt_ops rt \<and> rt_turns rt' = rt_turns rt \<and> rt_queue rt' = rt_queue rt
   \<and> (rt_ok rt \<longrightarrow> n = next_of chat (st_states (rt_store rt)) \<and> (\<forall>c. sessions_of c (st_states (rt_store rt')) = sessions_of c (st_states (rt_store rt))))"
proof -
  assume t: "take_number chat rt = (rt', n)"
  obtain s1 k where s1: "next_session_number chat (rt_store rt) = (s1, k)" by force
  obtain s0 cs where c: "chat_state_of chat (rt_store rt) = (s0, cs)" by force
  from chat_state_of_eq [OF c] c s1
  have "k = next_of chat (st_states (rt_store rt))" "sessions_of d (st_states s1) = sessions_of d (st_states (rt_store rt))" for d
    by (auto simp: next_session_number_def)
  with t s1 show ?thesis by (auto simp: take_number_def)
qed

definition dirs_archived :: "session_env \<Rightarrow> ustr \<Rightarrow> runtime \<Rightarrow> session_dirs" where
  "dirs_archived env chat rt =
     (case active_record chat (rt_store rt) of
        None \<Rightarrow> rt_dirs rt chat
      | Some r \<Rightarrow> archive_active_session (se_durable env) (sr_session_number r) (rt_dirs rt chat))"

lemma archive_if_dirs:
  "rt_dirs (archive_if env chat (active_record chat (rt_store rt)) rt) = (rt_dirs rt)(chat := dirs_archived env chat rt)"
  by (auto simp: archive_if_def dirs_archived_def split: option.split)

lemma start_frame:
  "start_new_session env chat p m sv names rt = (rt', x) \<Longrightarrow>
   rt_store rt' = rt_store rt \<and> rt_ops rt' = rt_ops rt \<and> rt_turns rt' = rt_turns rt \<and> rt_queue rt' = rt_queue rt
   \<and> (\<exists>ns. rt_dirs rt' = (rt_dirs rt)(chat := (rt_dirs rt chat)\<lparr>sd_active :=
         Some (se_sync_skills env ns (case sd_active (rt_dirs rt chat) of None \<Rightarrow> [] | Some a \<Rightarrow> a))\<rparr>))"
  by (auto simp: start_new_session_def Let_def split: sum.splits option.splits)

definition willing :: "session_env \<Rightarrow> bool" where
  "willing env \<longleftrightarrow> (\<forall>c. se_before_start env c = Inr c)
     \<and> (\<forall>p m sv. case se_start env p m sv of Inl e \<Rightarrow> False | Inr res \<Rightarrow> tr_session_id res \<noteq> None)"

lemma willing_start:
  assumes "willing env"
  obtains rt4 res sid where "start_new_session env chat p m sv names rt = (rt4, Inr (res, sid))"
proof -
  from assms have "case se_start env p m (if sv = [] then active_mcp_servers (se_tools env) (se_chat_dir env) chat (rt_store rt) else sv) of
      Inl e \<Rightarrow> False | Inr res \<Rightarrow> tr_session_id res \<noteq> None" unfolding willing_def by blast
  then show ?thesis using that by (auto simp: start_new_session_def Let_def split: sum.splits option.splits)
qed

definition opened :: "session_env \<Rightarrow> secs \<Rightarrow> ustr \<Rightarrow> runtime \<Rightarrow> runtime \<times> (py_exn + chat_result) \<Rightarrow> bool" where
  "opened env fin chat rt out \<longleftrightarrow>
     (\<exists>x res. snd out = Inr res \<and> active_record chat (rt_store (fst out)) = Some x
        \<and> sr_session_number x = next_of chat (st_states (rt_store rt)) \<and> sr_turn_number x = 1 \<and> sr_updated_at x = fin
        \<and> cr_session_number res = Some (sr_session_number x) \<and> cr_session_id res = Some (sr_session_id x) \<and> cr_turn_number res = Some 1
        \<and> (\<forall>m. m \<noteq> sr_session_number x \<longrightarrow>
             dget m (sessions_of chat (st_states (rt_store (fst out)))) = kept (se_prune env) fin (dget m (sessions_of chat (st_states (rt_store rt))))))"

lemma fresh_session_opens:
  assumes "rt_ok rt" and "newest fin chat rt" and "willing env" and "kind \<noteq> u ''switch_model''"
  shows "opened env fin chat rt (start_fresh_session env now fin chat desired kind label sys opening old True ov rt)
    \<and> (\<exists>ns. rt_dirs (fst (start_fresh_session env now fin chat desired kind label sys opening old True ov rt)) chat =
          (let d = clear_active_session (se_durable env) (dirs_archived env chat rt)
           in d\<lparr>sd_active := Some (se_sync_skills env ns (the (sd_active d)))\<rparr>))
    \<and> rt_queue (fst (start_fresh_session env now fin chat desired kind label sys opening old True ov rt)) = rt_queue rt
    \<and> rt_ops (fst (start_fresh_session env now fin chat desired kind label sys opening old True ov rt)) = rt_ops rt
    \<and> rt_turns (fst (start_fresh_session env now fin chat desired kind label sys opening old True ov rt)) = rt_turns rt"
proof -
  let ?r = "active_record chat (rt_store rt)"
  let ?cur = "current_model env ?r"
  let ?rt1 = "archive_if env chat ?r rt"
  let ?rt2 = "put_dirs chat (clear_active_session (se_durable env) (rt_dirs ?rt1 chat)) ?rt1"
  obtain rt3 n where n: "take_number chat ?rt2 = (rt3, n)" by force
  have "rt_ok ?rt2" using assms(1) by simp
  note 3 = file_synced.take_number_ok [OF this n] and f3 = take_number_frame [OF n]
  let ?m0 = "if desired = [] then ?cur else desired"
  let ?ctx = "\<lparr>sc_chat = chat, sc_kind = kind, sc_user_message = ACTIVATION, sc_model = Some ?m0, sc_session_number = n, sc_old_model = old,
      sc_skill_names = Some (skill_names env chat rt3), sc_mcp_servers = Some (active_mcp_servers (se_tools env) (se_chat_dir env) chat (rt_store rt3))\<rparr>"
  have ctx: "se_before_start env ?ctx = Inr ?ctx" using assms(3) by (simp add: willing_def)
  let ?use1 = "opt_or (Some ?m0) ?m0"
  let ?pctx = "se_build_first env rt3 chat ACTIVATION ?r ?use1 (Some (skill_names env chat rt3))"
  let ?use2 = "opt_or (pc_model ?pctx) ?use1"
  obtain rt4 res sid where 4: "start_new_session env chat (pc_prompt ?pctx) ?use2
      (servers_or_active env chat rt3 (Some (active_mcp_servers (se_tools env) (se_chat_dir env) chat (rt_store rt3))))
      (skills_or (Some (skill_names env chat rt3)) (skill_names env chat rt3)) rt3 = (rt4, Inr (res, sid))"
    using willing_start [OF assms(3)] by metis
  note f4 = start_frame [OF 4]
  let ?x = "fresh_record env now chat n label sid (opt_or (tr_model res) ?use2) ?pctx res ?r ov rt4"
  have out: "start_fresh_session env now fin chat desired kind label sys opening old True ov rt =
      finalize_session_activation env fin ?x (tr_reply res) sys opening (pc_notice ?pctx) (put_record ?x rt4)"
    using assms(4) by (simp add: start_fresh_session_def n ctx 4 Let_def)
  have st: "sessions_of chat (st_states (rt_store rt3)) = sessions_of chat (st_states (rt_store rt))"
    "sessions_of chat (st_states (rt_store rt4)) = sessions_of chat (st_states (rt_store rt))"
    and nn: "n = next_of chat (st_states (rt_store rt))"
    using f4 f3 assms(1) by simp_all
  have act: "active_record chat (prune_and_compact (se_prune env) fin chat (put_session (activated env fin ?x) (rt_store rt4))) = Some (activated env fin ?x)
    \<and> (\<forall>m. m \<noteq> sr_session_number ?x \<longrightarrow>
         dget m (sessions_of chat (st_states (prune_and_compact (se_prune env) fin chat (put_session (activated env fin ?x) (rt_store rt4)))))
           = kept (se_prune env) fin (dget m (sessions_of chat (st_states (rt_store rt4)))))"
    using 3 f4 assms(2) st by (intro activated_becomes_active) (simp_all add: newest_def)
  have t: "sr_turn_number (activated env fin ?x) = 1" by (simp add: activated_same consume_turn_number_def)
  have s: "rt_store (fst (finalize_session_activation env fin ?x (tr_reply res) sys opening (pc_notice ?pctx) (put_record ?x rt4))) =
      prune_and_compact (se_prune env) fin chat (put_session (activated env fin ?x) (rt_store rt4))"
    by (subst finalize_store) simp_all
  obtain ans where ans: "snd (finalize_session_activation env fin ?x (tr_reply res) sys opening (pc_notice ?pctx) (put_record ?x rt4)) = Inr ans"
    "cr_session_number ans = Some (sr_session_number ?x)" "cr_session_id ans = Some (sr_session_id ?x)"
    "cr_turn_number ans = Some (sr_turn_number (fst (consume_turn_number ?x)))"
    using finalize_result by blast
  have "opened env fin chat rt (start_fresh_session env now fin chat desired kind label sys opening old True ov rt)"
    unfolding opened_def out using act ans t s st nn
    by (intro exI [of _ "activated env fin ?x"] exI [of _ ans]) (auto simp: activated_same)
  moreover have "\<exists>ns. rt_dirs rt4 chat = (let d = clear_active_session (se_durable env) (dirs_archived env chat rt)
      in d\<lparr>sd_active := Some (se_sync_skills env ns (the (sd_active d)))\<rparr>)"
    using f4 f3 by (auto simp: Let_def archive_if_dirs clear_active_session_def split: option.split)
  ultimately show ?thesis unfolding out using f4 f3 by simp
qed

lemma hold_frame:
  assumes "\<not> chat_busy chat rt"
  shows "snd (hold_session_op chat body rt) = snd (body (rt\<lparr>rt_ops := rt_ops rt @ [chat]\<rparr>))"
    "rt_store (fst (hold_session_op chat body rt)) = rt_store (fst (body (rt\<lparr>rt_ops := rt_ops rt @ [chat]\<rparr>)))"
    "rt_dirs (fst (hold_session_op chat body rt)) = rt_dirs (fst (body (rt\<lparr>rt_ops := rt_ops rt @ [chat]\<rparr>)))"
    "rt_queue (fst (hold_session_op chat body rt)) = rt_queue (fst (body (rt\<lparr>rt_ops := rt_ops rt @ [chat]\<rparr>)))"
    "rt_turns (fst (hold_session_op chat body rt)) = rt_turns (fst (body (rt\<lparr>rt_ops := rt_ops rt @ [chat]\<rparr>)))"
    "chat \<notin> set (rt_ops (fst (hold_session_op chat body rt)))"
  by (simp_all add: hold_session_op_def case_prod_unfold)

abbreviation held :: "ustr \<Rightarrow> runtime \<Rightarrow> runtime" where
  "held chat rt \<equiv> rt\<lparr>rt_ops := rt_ops rt @ [chat]\<rparr>"

lemma dirs_archived_held: "dirs_archived env chat (held c rt) = dirs_archived env chat rt"
  by (simp add: dirs_archived_def split: option.split)

lemma idle_new_session:
  "\<not> chat_busy chat rt \<Longrightarrow> new_session env fresh now fin chat m q rt =
     hold_session_op chat (\<lambda>rt. start_fresh_session env now fin chat (opt_or m (current_model env (active_record chat (rt_store rt))))
       (u ''new'') (u ''new session'') (u ''new session started'') (u ''New session started.'') None True
       (Option.bind (active_record chat (rt_store rt)) sr_plugin_overrides) rt) rt"
  by (simp add: new_session_def session_op_busy_def Let_def)

lemma opened_cong: "snd out = snd out' \<Longrightarrow> rt_store (fst out) = rt_store (fst out') \<Longrightarrow> opened env fin chat rt out = opened env fin chat rt out'"
  by (simp add: opened_def)

lemma opened_held: "opened env fin chat (held chat rt) out = opened env fin chat rt out"
  by (simp add: opened_def)

text \<open>
  A new session succeeds when the engine answers: the chat's active session is then a new one with the next
  number, the model's answer as its first turn; the session active before (and every other one) is still
  registered as it was, unless pruning is on and it is older than the age limit; its files are in the archive under its number;
  and the chat is free again, whatever was queued for it still queued.
\<close>

theorem new_session_keeps_the_old_one:
  assumes "synced (rt_store rt)" and "\<not> chat_busy chat rt" and "newest fin chat rt" and "willing env"
  shows "opened env fin chat rt (new_session env fresh now fin chat m q rt)
    \<and> sd_archives (rt_dirs (fst (new_session env fresh now fin chat m q rt)) chat) = sd_archives (dirs_archived env chat rt)
    \<and> \<not> chat_busy chat (fst (new_session env fresh now fin chat m q rt))
    \<and> rt_queue (fst (new_session env fresh now fin chat m q rt)) = rt_queue rt"
proof -
  have ne: "u ''new'' \<noteq> u ''switch_model''" by simp
  let ?body = "\<lambda>rt. start_fresh_session env now fin chat (opt_or m (current_model env (active_record chat (rt_store rt))))
       (u ''new'') (u ''new session'') (u ''new session started'') (u ''New session started.'') None True
       (Option.bind (active_record chat (rt_store rt)) sr_plugin_overrides) rt"
  have h: "rt_ok (held chat rt)" "newest fin chat (held chat rt)" using assms(1,3) by (simp_all add: newest_def)
  note f = fresh_session_opens [OF h assms(4) ne]
  note w = hold_frame [OF assms(2), of ?body] and eq = idle_new_session [OF assms(2), of env fresh now fin m q]
  have "opened env fin chat rt (hold_session_op chat ?body rt)"
    using opened_cong [OF w(1,2)] f opened_held by blast
  moreover have "sd_archives (rt_dirs (fst (?body (held chat rt))) chat) = sd_archives (dirs_archived env chat rt)"
  proof -
    obtain ns where "rt_dirs (fst (?body (held chat rt))) chat =
        (let d = clear_active_session (se_durable env) (dirs_archived env chat (held chat rt))
         in d\<lparr>sd_active := Some (se_sync_skills env ns (the (sd_active d)))\<rparr>)" using f by blast
    then show ?thesis unfolding dirs_archived_held by (simp add: Let_def clear_active_session_def)
  qed
  moreover have "rt_queue (fst (?body (held chat rt))) = rt_queue rt" "rt_turns (fst (?body (held chat rt))) = rt_turns rt"
    using f [of now "opt_or m (current_model env (active_record chat (rt_store (held chat rt))))" "u ''new session''" "u ''new session started''"
        "u ''New session started.''" None "Option.bind (active_record chat (rt_store (held chat rt))) sr_plugin_overrides"] by simp_all
  ultimately show ?thesis unfolding eq using w(3-6) assms(2) by (simp add: chat_busy_def)
qed

subsection \<open>A parked operation\<close>

definition parked :: "ustr \<Rightarrow> ustr \<Rightarrow> session_op \<Rightarrow> secs \<Rightarrow> wake_event" where
  "parked fresh chat op now = (parked_wake chat op now)\<lparr>we_id := fresh\<rparr>"

definition storable :: "session_op \<Rightarrow> bool" where
  "storable op \<longleftrightarrow> no_surrogates (JObj (op_dict op)) \<and> (case op of Op_switch m b \<Rightarrow> m \<noteq> [] | _ \<Rightarrow> True)"

lemma op_payload_sanitized:
  "no_surrogates (JObj (op_dict op)) \<Longrightarrow> sanitize_dict (op_dict op @ [(u ''retry_after'', JFloat 2)]) = op_dict op @ [(u ''retry_after'', JFloat 2)]"
proof -
  let ?p = "op_dict op @ [(u ''retry_after'', JFloat 2)]"
  assume "no_surrogates (JObj (op_dict op))"
  moreover have "list_all (\<lambda>c. \<not> is_surrogate c) (u ''retry_after'')" by (auto simp: list_all_iff is_surrogate_def dest!: u_code_point)
  ultimately have "no_surrogates (JObj ?p)" by simp
  moreover have "keys_distinct (jopt JStr o1)" for o1 :: "ustr option" by (cases o1) simp_all
  then have "keys_distinct (JObj ?p)" by (cases op) (simp_all add: op_dict_def dict_ok_def)
  ultimately show ?thesis using sanitize_json_value_id [of "JObj ?p"] unfolding sanitize_JObj by blast
qed

lemma decode_parked:
  assumes "case op of Op_switch m b \<Rightarrow> m \<noteq> [] | _ \<Rightarrow> True"
  shows "decode_op (op_dict op @ [(u ''retry_after'', JFloat 2)]) = Inr (Some op)"
proof (cases op)
  case (Op_new m)
  then show ?thesis by (cases m) (simp_all add: decode_op_def op_dict_def get_or_def Let_def)
qed (use assms in \<open>simp_all add: decode_op_def op_dict_def get_or_def Let_def\<close>)

lemma queue_session_op_parks:
  assumes "rt_queue rt = Some q" and "wake_load (wq_file q) = Inr d" and "fresh \<noteq> []" and "no_surrogates (JObj (op_dict op))"
    and "\<not> list_ex (\<lambda>e. we_reason e = u ''session_op'') (snd (pending_body (Some chat) None d))"
  shows "queue_session_op fresh chat op now rt =
     (rt\<lparr>rt_queue := Some \<lparr>wq_file = wake_save (dset fresh (parked fresh chat op now) d), wq_in_memory = dset fresh (parked fresh chat op now) d\<rparr>\<rparr>,
      Inr ((mk_result (op_label op @ u '' queued '' @ [8212] @ u '' it will run when the current turn finishes.''))
        \<lparr>cr_notice := Some (u ''The session operation was parked behind the active turn.'')\<rparr>))"
proof -
  have ev: "enqueue_event fresh (parked_wake chat op now) = parked fresh chat op now"
    using op_payload_sanitized [OF assms(4)] by (simp add: enqueue_event_def parked_def parked_wake_def)
  have i: "we_id (parked fresh chat op now) = fresh" by (simp add: parked_def)
  note l = wake_load_ok [OF assms(2)]
  have "fst (pending_body (Some chat) None d) = d" by (simp add: pending_body_def)
  then show ?thesis using assms(1,5)
    by (simp add: queue_session_op_def wake_pending_def wake_enqueue_def wake_transaction_loaded [OF assms(2)] ev
        wake_transaction_loaded [where q = "\<lparr>wq_file = wake_save d, wq_in_memory = d\<rparr>"] wake_load_save [OF l] enqueue_body_def i)
qed

lemma queue_session_op_refuses:
  assumes "rt_queue rt = Some q" and "wake_load (wq_file q) = Inr d" and "e \<in> set (dvals d)" and "we_chat_id e = chat" and "we_reason e = u ''session_op''"
  shows "snd (queue_session_op fresh chat op now rt) = Inr ((mk_result (u ''A session operation is already queued for this chat.''))
      \<lparr>cr_notice := Some (u ''It will run when the current turn finishes.'')\<rparr>)
    \<and> rt_queue (fst (queue_session_op fresh chat op now rt)) = Some \<lparr>wq_file = wake_save d, wq_in_memory = d\<rparr>"
proof -
  have "list_ex (\<lambda>e. we_reason e = u ''session_op'') (snd (pending_body (Some chat) None d))"
    using assms(3-5) by (auto simp: pending_body_def list_ex_iff)
  moreover have "fst (pending_body (Some chat) None d) = d" by (simp add: pending_body_def)
  ultimately show ?thesis using assms(1)
    by (simp add: queue_session_op_def wake_pending_def wake_transaction_loaded [OF assms(2)])
qed

lemma busy_session_op:
  assumes "chat_busy chat rt" and "\<not> rt_draining rt"
  shows "do_session_op env fresh now fin ch chat op True rt = queue_session_op fresh chat op now rt"
  using assms by (cases op)
    (simp_all add: do_session_op_def new_session_def switch_model_def resume_session_def branch_session_def session_op_busy_def)

text \<open>
  Claim C33.  A session operation asked for while a turn runs is carried out as it was asked for: it changes no session and
  no file, and is put into the wake queue once (a second one is refused while it waits) as an event that is due
  immediately; woken when the chat is idle, it does exactly what the same operation called then would do.
\<close>

theorem parked_operation_runs_as_requested:
  assumes "chat_busy chat rt" and "\<not> rt_draining rt" and "rt_queue rt = Some q" and "wake_load (wq_file q) = Inr d" and "fresh \<noteq> []"
    and "storable op" and "\<not> list_ex (\<lambda>e. we_reason e = u ''session_op'') (snd (pending_body (Some chat) None d))"
    and "\<not> rt_draining rt2" and "\<not> chat_busy chat rt2"
  shows "let (rt1, res) = do_session_op env fresh now fin ch chat op True rt; d1 = dset fresh (parked fresh chat op now) d
    in rt1 = rt\<lparr>rt_queue := Some \<lparr>wq_file = wake_save d1, wq_in_memory = d1\<rparr>\<rparr>
      \<and> wake_load (wake_save d1) = Inr d1 \<and> fresh \<in> we_id ` set (snd (pop_due_body now l d1))
      \<and> rt_queue (fst (do_session_op env fresh2 now2 fin2 ch2 chat op2 True rt1)) = rt_queue rt1
      \<and> fst (run_session_op env now3 fin3 ch3 chat (we_payload (parked fresh chat op now)) rt2) =
          fst (do_session_op env [] now3 fin3 ch3 chat op False rt2)
      \<and> snd (run_session_op env now3 fin3 ch3 chat (we_payload (parked fresh chat op now)) rt2) =
          map_sum id (\<lambda>r. if cr_reply r = cr_reply busy_reply then mk_result WAKE_BUSY else r)
            (snd (do_session_op env [] now3 fin3 ch3 chat op False rt2))"
proof -
  let ?e = "parked fresh chat op now"
  let ?d1 = "dset fresh ?e d"
  let ?rt1 = "rt\<lparr>rt_queue := Some \<lparr>wq_file = wake_save ?d1, wq_in_memory = ?d1\<rparr>\<rparr>"
  from assms(6) have st: "no_surrogates (JObj (op_dict op))" "case op of Op_switch m b \<Rightarrow> m \<noteq> [] | _ \<Rightarrow> True" by (simp_all add: storable_def)
  have ok: "queue_ok ?d1" using wake_load_ok [OF assms(4)] by (intro queue_ok_dset) (simp_all add: parked_def)
  note ld = wake_load_save [OF ok]
  have e: "fst (do_session_op env fresh now fin ch chat op True rt) = ?rt1"
    using queue_session_op_parks [OF assms(3-5) st(1) assms(7)] busy_session_op [OF assms(1,2)] by simp
  have "fresh \<in> we_id ` set (snd (pop_due_body now l ?d1))"
    using ok by (subst pop_due_ids) (auto simp: due_def unleased_def parked_def parked_wake_def)
  moreover have "rt_queue (fst (do_session_op env fresh2 now2 fin2 ch2 chat op2 True ?rt1)) = rt_queue ?rt1"
  proof -
    have "chat_busy chat ?rt1" "\<not> rt_draining ?rt1" using assms(1,2) by (simp_all add: chat_busy_def)
    moreover have "?e \<in> set (dvals ?d1)" using queue_ok_vals [OF ok, of ?e] by (simp add: parked_def)
    moreover have "we_chat_id ?e = chat" "we_reason ?e = u ''session_op''" by (simp_all add: parked_def parked_wake_def)
    ultimately show ?thesis
      using queue_session_op_refuses [of ?rt1 _ ?d1 ?e chat fresh2 op2 now2] ld by (simp add: busy_session_op)
  qed
  moreover have "we_payload ?e = op_dict op @ [(u ''retry_after'', JFloat 2)]" by (simp add: parked_def parked_wake_def)
  ultimately show ?thesis using e ld assms(8,9) decode_parked [OF st(2)]
    by (cases "do_session_op env fresh now fin ch chat op True rt") (auto simp: run_session_op_def Let_def split: prod.split sum.split)
qed

end
