(* ===== verification/TurnEffects.thy ===== *)
theory TurnEffects
  imports TurnProcess SessionRuns
begin

section \<open>What the engine call of a turn may change\<close>

text \<open>
  Whatever the engine answers, the engine half of a turn (\<open>TurnPipeline\<close>) changes the runtime in two places only:
  the active directory of its chat (skills) and the record object the turn began with.
\<close>

definition key_of :: "session_record option \<Rightarrow> (ustr \<times> int) option" where
  "key_of o1 = map_option (\<lambda>r. (sr_chat_id r, sr_session_number r)) o1"

lemma key_of_simps [simp]: "key_of None = None" "key_of (Some r) = Some (sr_chat_id r, sr_session_number r)"
  by (simp_all add: key_of_def)

text \<open>The registry holds a record under its own key.\<close>

definition keyed :: "(ustr \<times> int) option \<Rightarrow> runtime \<Rightarrow> bool" where
  "keyed key rt \<longleftrightarrow>
     (case key of None \<Rightarrow> True
      | Some (c, n) \<Rightarrow> (case dget n (sessions_of c (st_states (rt_store rt))) of None \<Rightarrow> True | Some x \<Rightarrow> key_of (Some x) = key))"

definition registered :: "(ustr \<times> int) option \<Rightarrow> runtime \<Rightarrow> session_record option" where
  "registered key rt = (case key of None \<Rightarrow> None | Some (c, n) \<Rightarrow> dget n (sessions_of c (st_states (rt_store rt))))"

definition numbers :: "session_record \<Rightarrow> int \<times> int option" where
  "numbers r = (sr_turn_number r, sr_pending_turn_number r)"

text \<open>A version of the registered object: the same key, the same turn numbers.\<close>

definition version_of :: "(ustr \<times> int) option \<Rightarrow> runtime \<Rightarrow> session_record \<Rightarrow> bool" where
  "version_of key rt r \<longleftrightarrow> key_of (Some r) = key \<and> (\<forall>y. registered key rt = Some y \<longrightarrow> numbers r = numbers y)"

definition touched :: "ustr \<Rightarrow> (ustr \<times> int) option \<Rightarrow> runtime \<Rightarrow> runtime \<Rightarrow> bool" where
  "touched chat key rt rt' \<longleftrightarrow>
     rt_turns rt' = rt_turns rt \<and> rt_ops rt' = rt_ops rt \<and> rt_queue rt' = rt_queue rt \<and> rt_draining rt' = rt_draining rt
     \<and> (\<forall>c. c \<noteq> chat \<longrightarrow> rt_dirs rt' c = rt_dirs rt c) \<and> sd_archives (rt_dirs rt' chat) = sd_archives (rt_dirs rt chat)
     \<and> (rt_store rt' = rt_store rt \<or> (\<exists>x. version_of key rt x \<and> rt_store rt' = set_session x (rt_store rt)))"

lemma set_session_get:
  "sessions_of c (st_states (set_session x s)) =
     (if c = sr_chat_id x then dset (sr_session_number x) x (sessions_of c (st_states s)) else sessions_of c (st_states s))"
  using put_session_states [of c x s] by (simp add: put_session_def append_record_def)

lemma touched_keyed: "keyed key rt0 \<Longrightarrow> touched chat key rt0 rt \<Longrightarrow> keyed key rt"
  by (cases key) (auto simp: keyed_def touched_def set_session_get version_of_def)

lemma registered_set:
  "key_of (Some x) = key \<Longrightarrow> rt_store rt1 = set_session x (rt_store rt) \<Longrightarrow> registered key rt1 = Some x"
  by (auto simp: registered_def set_session_get)

lemma touched_version: "touched chat key rt0 rt \<Longrightarrow> version_of key rt x \<Longrightarrow> version_of key rt0 x"
  using registered_set [of _ key rt rt0]
  by (cases key) (auto simp: touched_def version_of_def registered_def)

lemma version_cong [simp]: "version_of key (rt\<lparr>rt_dirs := d\<rparr>) r = version_of key rt r"
  by (simp add: version_of_def registered_def split: option.split)

lemma object_version: "keyed key rt \<Longrightarrow> key_of old = key \<Longrightarrow> object_of old rt = Some r \<Longrightarrow> version_of key rt r"
  by (cases old) (auto simp: object_of_def keyed_def version_of_def registered_def split: option.splits)

lemma object_key: "keyed key rt \<Longrightarrow> key_of old = key \<Longrightarrow> key_of (object_of old rt) = key"
  by (cases old) (auto simp: object_of_def keyed_def split: option.splits)

text \<open>A call that started at runtime \<open>rt0\<close>.\<close>

definition inside :: "ustr \<Rightarrow> (ustr \<times> int) option \<Rightarrow> runtime \<Rightarrow> 'e call \<Rightarrow> bool" where
  "inside chat key rt0 c \<longleftrightarrow> keyed key rt0 \<and> touched chat key rt0 (cl_rt c)"

lemma inside_object: "inside chat key rt0 c \<Longrightarrow> key_of old = key \<Longrightarrow> key_of (object_of old (cl_rt c)) = key"
  using touched_keyed object_key unfolding inside_def by blast

lemma inside_version: "inside chat key rt0 c \<Longrightarrow> key_of old = key \<Longrightarrow> object_of old (cl_rt c) = Some r \<Longrightarrow> version_of key (cl_rt c) r"
  using touched_keyed object_version unfolding inside_def by blast

lemma inside_frame [simp]:
  "inside chat key rt0 (c\<lparr>cl_engine := e\<rparr>) = inside chat key rt0 c"
  "inside chat key rt0 (c\<lparr>cl_active := a\<rparr>) = inside chat key rt0 c"
  "inside chat key rt0 (set_active_id sid c) = inside chat key rt0 c"
  by (simp_all add: inside_def set_active_id_def)

lemma inside_dirs:
  "inside chat key rt0 c \<Longrightarrow> sd_archives d = sd_archives (rt_dirs (cl_rt c) chat) \<Longrightarrow> inside chat key rt0 (c\<lparr>cl_rt := put_dirs chat d (cl_rt c)\<rparr>)"
  by (auto simp: inside_def touched_def put_dirs_def)

lemma inside_record:
  assumes "inside chat key rt0 c" and "version_of key (cl_rt c) x"
  shows "inside chat key rt0 (c\<lparr>cl_rt := put_record x (cl_rt c)\<rparr>)"
proof -
  have "set_session x (set_session y s) = set_session x s" if "version_of key rt0 y" for y s
    using set_session_twice [of y x s] that assms(2) by (auto simp: version_of_def)
  moreover have "version_of key rt0 x" using touched_version assms by (auto simp: inside_def)
  ultimately show ?thesis using assms by (auto simp: inside_def touched_def put_record_def)
qed

lemma inside_prompt: "inside chat key rt0 c \<Longrightarrow> prompt_engine env rq c = (c1, x) \<Longrightarrow> inside chat key rt0 c1"
  by (auto simp: prompt_engine_def split: prod.splits)

lemma inside_restart: "inside chat key rt0 c \<Longrightarrow> restart_engine env reason c = (c1, x) \<Longrightarrow> inside chat key rt0 c1"
  by (auto simp: restart_engine_def split: prod.splits)

lemma inside_mark: "inside chat key rt0 c \<Longrightarrow> key_of old = key \<Longrightarrow> inside chat key rt0 (mark_error old c)"
proof (cases "object_of old (cl_rt c)")
  case (Some r)
  moreover assume "inside chat key rt0 c" "key_of old = key"
  ultimately show ?thesis using inside_version [of chat key rt0 c old r]
    by (simp add: mark_error_def) (rule inside_record, simp, simp add: version_of_def numbers_def)
qed (simp add: mark_error_def)

lemma inside_open:
  assumes "inside chat key rt0 c" and "open_session env chat prompt model c = (c1, x)"
  shows "inside chat key rt0 c1"
proof -
  define d where "d = (rt_dirs (cl_rt c) chat)\<lparr>sd_active := Some (se_sync_skills (te_session env) (skill_names (te_session env) chat (cl_rt c))
      (case sd_active (rt_dirs (cl_rt c) chat) of None \<Rightarrow> [] | Some a \<Rightarrow> a))\<rparr>"
  define rq where "rq = \<lparr>rq_prompt = prompt, rq_model = model,
      rq_servers = Some (active_mcp_servers (se_tools (te_session env)) (se_chat_dir (te_session env)) chat (rt_store (cl_rt c))), rq_session = None\<rparr>"
  have "inside chat key rt0 (c\<lparr>cl_rt := put_dirs chat d (cl_rt c)\<rparr>)" using assms(1) by (intro inside_dirs) (simp_all add: d_def)
  moreover obtain c2 y where 2: "prompt_engine env rq (c\<lparr>cl_rt := put_dirs chat d (cl_rt c)\<rparr>) = (c2, y)" by force
  ultimately have "inside chat key rt0 c2" using inside_prompt by blast
  moreover have "c1 = c2" using assms(2) 2
    by (auto simp: open_session_def Let_def d_def [symmetric] rq_def [symmetric] split: sum.splits option.splits)
  ultimately show ?thesis by simp
qed

lemma inside_attempts:
  "inside chat key rt0 c \<Longrightarrow> key_of old = key \<Longrightarrow> open_attempts env chat old lg pctx model n c = (c1, x) \<Longrightarrow> inside chat key rt0 c1"
proof (induction n arbitrary: c)
  case 0
  obtain c2 y where o: "open_session env chat (pc_prompt pctx) model c = (c2, y)" by force
  from inside_open [OF 0(1) o] 0(2,3) show ?case
    by (auto simp: open_attempts.simps [of env chat old lg pctx model 0] o inside_mark split: sum.splits if_splits)
next
  case (Suc n)
  obtain c2 y where o: "open_session env chat (pc_prompt pctx) model c = (c2, y)" by force
  from inside_open [OF Suc(2) o] have 2: "inside chat key rt0 c2" .
  obtain c3 b where r: "restart_engine env lg c2 = (c3, b)" by force
  from inside_restart [OF 2 r] have 3: "inside chat key rt0 c3" .
  show ?case using Suc.prems 2 3 Suc.IH [OF 3]
    by (cases b) (auto simp: open_attempts.simps [of env chat old lg pctx model "Suc n"] o r inside_mark split: sum.splits if_splits)
qed

lemma adopted_version: "reconcile_after_resume fmt known ups r = Inr (Some (r', ext, b)) \<Longrightarrow> version_of key rt r' = version_of key rt r"
  by (auto simp: reconcile_after_resume_def version_of_def numbers_def Let_def split: if_splits sum.splits prod.splits)

lemma inside_adopt:
  assumes "inside chat key rt0 c" and "version_of key (cl_rt c) r" and "adopt_external env chat sid r c = (c1, r1, n)"
  shows "inside chat key rt0 c1"
proof -
  have "inside chat key rt0 (c\<lparr>cl_engine := e, cl_rt := put_record r' (cl_rt c)\<rparr>)" if "version_of key (cl_rt c) r'" for e r'
    using inside_record [of chat key rt0 "c\<lparr>cl_engine := e\<rparr>" r'] assms(1) that by simp
  with assms show ?thesis by (auto simp: adopt_external_def dest!: adopted_version split: prod.splits sum.splits option.splits)
qed

lemma inside_resume:
  assumes "inside chat key rt0 c" and "version_of key (cl_rt c) r" and "resume_and_prompt env chat msg r model c = (c1, x)"
  shows "inside chat key rt0 c1"
proof -
  obtain e y where 1: "eo_resume (te_engine env) (sr_session_id r) model
      (active_mcp_servers (se_tools (te_session env)) (se_chat_dir (te_session env)) chat (rt_store (cl_rt c))) (cl_engine c) = (e, y)" by force
  have e: "inside chat key rt0 (c\<lparr>cl_engine := e\<rparr>)" using assms(1) by simp
  show ?thesis
  proof (cases y)
    case (Inr sid)
    obtain c2 r2 n where 2: "adopt_external env chat sid r (c\<lparr>cl_engine := e\<rparr>) = (c2, r2, n)" by (cases "adopt_external env chat sid r (c\<lparr>cl_engine := e\<rparr>)") auto
    obtain pctx rq where 3: "follow_request env (cl_rt c2) chat msg r2 model sid = (pctx, rq)" by force
    obtain c3 z where 4: "prompt_engine env rq c2 = (c3, z)" by force
    have "inside chat key rt0 c3" using inside_prompt [OF _ 4] inside_adopt [OF e _ 2] assms(2) by simp
    then show ?thesis using assms(3) by (auto simp: resume_and_prompt_def 1 Inr 2 3 4 split: sum.splits)
  qed (use assms e 1 in \<open>auto simp: resume_and_prompt_def\<close>)
qed

lemma inside_probe:
  assumes "inside chat key rt0 c" and "probe_and_prompt env chat msg r model c = (c1, x)"
  shows "inside chat key rt0 c1"
proof -
  obtain e y where 1: "eo_alive (te_engine env) (sr_session_id r) (cl_engine c) = (e, y)" by force
  obtain pctx rq where 3: "follow_request env (cl_rt c) chat msg r model (Some (sr_session_id r)) = (pctx, rq)" by force
  obtain c3 z where 4: "prompt_engine env rq (c\<lparr>cl_engine := e\<rparr>) = (c3, z)" by force
  have "inside chat key rt0 c3" using inside_prompt [OF _ 4] assms(1) by simp
  with assms 1 3 4 show ?thesis by (auto simp: probe_and_prompt_def split: sum.splits bool.splits)
qed

lemma inside_rehydrate:
  assumes "inside chat key rt0 c" and "key_of old = key" and "rehydrate env chat msg old model rf lg allow c = (c1, x)"
  shows "inside chat key rt0 c1"
proof -
  obtain c2 b where 2: "(if rf then restart_engine env lg c else (c, True)) = (c2, b)" by force
  have w2: "inside chat key rt0 c2" using inside_restart [OF assms(1)] 2 assms(1) by (cases rf) auto
  show ?thesis
  proof (cases b)
    case False
    with 2 w2 assms(3) show ?thesis by (simp add: rehydrate_def)
  next
    case True
    show ?thesis
    proof (cases "object_of old (cl_rt c2)")
      case None
      then have "key = None" using inside_object [OF w2 assms(2)] by simp
      then show ?thesis using assms(3) 2 True None w2 
        by (auto simp: rehydrate_def rebuild_session_def Let_def dest!: inside_attempts [OF w2, of None, rotated])
    next
      case (Some r)
      have r: "version_of key (cl_rt c2) r" using inside_version [OF w2 assms(2) Some] .
      let ?can = "allow \<and> can_resume_record r (skill_names (te_session env) chat (cl_rt c2))"
      obtain c3 y where 3: "(if se_resume_enabled (te_session env) \<and> ?can then resume_and_prompt env chat msg r model c2 else (c2, Inl False)) = (c3, y)" by force
      have w3: "inside chat key rt0 c3" using inside_resume [OF w2 r] 3 w2 by (auto split: if_splits)
      show ?thesis
      proof (cases y)
        case (Inr res)
        then show ?thesis using assms(3) 2 True Some 3 w3 by (simp add: rehydrate_def Let_def)
      next
        case (Inl res)
        obtain c4 z where 4: "(if ?can \<and> \<not> res then probe_and_prompt env chat msg r model c3 else (c3, None)) = (c4, z)" by force
        have w4: "inside chat key rt0 c4" using inside_probe [OF w3] 4 w3 by (auto split: if_splits)
        show ?thesis
          using assms(3) 2 True Some 3 4 Inl w4
          by (cases z) (auto simp: rehydrate_def Let_def rebuild_session_def dest!: inside_attempts [OF w4 inside_object [OF w4 assms(2)]])
      qed
    qed
  qed
qed

lemma inside_resync: "inside chat key rt0 c \<Longrightarrow> resync env a rq c = (c1, x) \<Longrightarrow> inside chat key rt0 c1"
  by (auto simp: resync_def split: option.splits if_splits prod.splits sum.splits)

lemma inside_first:
  assumes "inside chat key rt0 c" and "first_call env a c = (c1, x)"
  shows "inside chat key rt0 c1"
proof (cases "te_before_call env (first_request env a (cl_rt c))")
  case (Inr rq)
  show ?thesis
  proof (cases "boundary a")
    case True
    obtain c2 y where p: "prompt_engine env (rq\<lparr>rq_session := None\<rparr>) c = (c2, y)" by force
    from inside_prompt [OF assms(1) p] have "inside chat key rt0 c2" .
    with assms(2) Inr True p show ?thesis by (cases y) (auto simp: first_call_def Let_def)
  next
    case False
    obtain c2 f y where r: "resync env a rq c = (c2, f, y)" by (cases "resync env a rq c") auto
    from inside_resync [OF assms(1) r] have 2: "inside chat key rt0 c2" .
    show ?thesis
    proof (cases y)
      case (Inr sid)
      obtain c3 z where p: "prompt_engine env (rq\<lparr>rq_session := or_id (rq_session rq) (or_id sid (recorded_id (ca_old a)))\<rparr>) c2 = (c3, z)" by force
      from inside_prompt [OF 2 p] have "inside chat key rt0 c3" .
      with assms(2) \<open>te_before_call env _ = _\<close> False r Inr p show ?thesis by (cases z) (auto simp: first_call_def Let_def)
    qed (use assms(2) Inr False r 2 in \<open>auto simp: first_call_def\<close>)
  qed
qed (use assms in \<open>auto simp: first_call_def Let_def\<close>)

lemma inside_after: "inside chat key rt0 (fst x) \<Longrightarrow> inside chat key rt0 (fst (after_rehydrate a model notice x))"
  by (auto simp: after_rehydrate_def Let_def split: prod.split ending.split)

lemma inside_again:
  "inside (ca_chat a) key rt0 c \<Longrightarrow> key_of (ca_old a) = key \<Longrightarrow>
   inside (ca_chat a) key rt0 (fst (after_rehydrate a m n (rehydrate env (ca_chat a) msg (ca_old a) model rf lg allow c)))"
  using inside_rehydrate [of "ca_chat a" key rt0 c "ca_old a" env msg model rf lg allow]
  by (intro inside_after) (metis prod.collapse)

lemma inside_recover:
  "inside (ca_chat a) key rt0 c \<Longrightarrow> key_of (ca_old a) = key \<Longrightarrow> inside (ca_chat a) key rt0 (fst (recover env a f x c))"
  by (simp add: recover_def Let_def inside_again inside_mark)

lemma inside_retry:
  "inside (ca_chat a) key rt0 (fst x) \<Longrightarrow> key_of (ca_old a) = key \<Longrightarrow> inside (ca_chat a) key rt0 (fst (retry_empty env a x))"
  by (cases x; cases "snd x") (auto simp: retry_empty_def inside_again)

theorem engine_call_is_contained:
  assumes "keyed (key_of (ca_old a)) (cl_rt c)"
  shows "touched (ca_chat a) (key_of (ca_old a)) (cl_rt c) (cl_rt (fst (call_engine env a pe ce c)))"
proof -
  have w: "inside (ca_chat a) (key_of (ca_old a)) (cl_rt c) c" using assms by (simp add: inside_def touched_def)
  obtain c1 f y where fc: "first_call env a c = (c1, f, y)" by (cases "first_call env a c") auto
  from inside_first [OF w fc] have 1: "inside (ca_chat a) (key_of (ca_old a)) (cl_rt c) c1" .
  have "inside (ca_chat a) (key_of (ca_old a)) (cl_rt c) (fst (call_engine env a pe ce c))"
    unfolding call_engine_def fc using 1 by (intro inside_retry) (auto simp: inside_recover split: sum.split)
  then show ?thesis by (simp add: inside_def)
qed

end
