(* ===== verification/TurnRuns.thy ===== *)
theory TurnRuns
  imports TurnEffects
begin

section \<open>What turns do\<close>

text \<open>
  Properties of \<open>TurnPipeline\<close> and \<open>TurnProcess\<close>, together with the session operations of \<open>SessionOps\<close>: chats do not
  disturb each other, a running turn is not disturbed by its own chat, a chat is free again however its turn
  ends, a lost agent session is replaced within the turn, and what a finished turn writes.
\<close>

subsection \<open>Chats are isolated\<close>

text \<open>Sessions, directories and running turns of all chats but one are as they were.\<close>

definition elsewhere :: "ustr \<Rightarrow> runtime \<Rightarrow> runtime \<Rightarrow> bool" where
  "elsewhere chat rt rt' \<longleftrightarrow>
     (\<forall>c. c \<noteq> chat \<longrightarrow> state_of c (st_states (rt_store rt')) = state_of c (st_states (rt_store rt))
        \<and> rt_dirs rt' c = rt_dirs rt c \<and> (c \<in> set (rt_turns rt') \<longleftrightarrow> c \<in> set (rt_turns rt)))"

abbreviation registry_ok :: "runtime \<Rightarrow> bool" where
  "registry_ok rt \<equiv> states_ok (st_states (rt_store rt))"

named_theorems elsewhere_intros

lemma elsewhere_refl [simp]: "elsewhere chat rt rt"
  by (simp add: elsewhere_def)

lemma elsewhere_cong:
  "rt_store rt2 = rt_store rt1 \<Longrightarrow> rt_dirs rt2 = rt_dirs rt1 \<Longrightarrow> rt_turns rt2 = rt_turns rt1 \<Longrightarrow> elsewhere chat rt0 rt1 \<Longrightarrow> elsewhere chat rt0 rt2"
  by (simp add: elsewhere_def)

lemma elsewhere_trans: "elsewhere chat rt0 rt1 \<Longrightarrow> elsewhere chat rt1 rt2 \<Longrightarrow> elsewhere chat rt0 rt2"
  by (simp add: elsewhere_def)

lemma chat_state_elsewhere:
  "chat_state_of chat s = (s1, cs) \<Longrightarrow> state_of c (st_states s1) = state_of c (st_states s)"
  using chat_state_of_eq [of chat s s1 cs] by simp

lemma set_session_elsewhere: "c \<noteq> sr_chat_id r \<Longrightarrow> state_of c (st_states (set_session r s)) = state_of c (st_states s)"
  by (auto simp: set_session_def dest: chat_state_elsewhere split: prod.split)

lemma prune_elsewhere: "c \<noteq> chat \<Longrightarrow> state_of c (st_states (prune_and_compact cfg t chat s)) = state_of c (st_states s)"
  by (auto simp: prune_and_compact_def prune_chat_def compact_store_def Let_def dest: chat_state_elsewhere split: prod.split)

lemma elsewhere_fields [elsewhere_intros]:
  assumes "elsewhere chat rt0 rt"
  shows "elsewhere chat rt0 (rt\<lparr>rt_queue := q\<rparr>)" "elsewhere chat rt0 (rt\<lparr>rt_ops := ops\<rparr>)" "elsewhere chat rt0 (rt\<lparr>rt_skills := sk\<rparr>)"
    "elsewhere chat rt0 (rt\<lparr>rt_recorded := rc\<rparr>)" "elsewhere chat rt0 (rt\<lparr>rt_notes := ns\<rparr>)"
    "elsewhere chat rt0 (put_dirs chat d rt)"
    "elsewhere chat rt0 (rt\<lparr>rt_turns := rt_turns rt @ [chat]\<rparr>)"
    "elsewhere chat rt0 (rt\<lparr>rt_turns := filter (\<lambda>c. c \<noteq> chat) (rt_turns rt)\<rparr>)"
  using assms by (auto simp: elsewhere_def put_dirs_def)

lemma elsewhere_records [elsewhere_intros]:
  assumes "elsewhere chat rt0 rt"
  shows "sr_chat_id r = chat \<Longrightarrow> elsewhere chat rt0 (put_record r rt)" "elsewhere chat rt0 (write_record r rt)"
    "elsewhere chat rt0 (rt\<lparr>rt_store := prune_and_compact cfg t chat (rt_store rt)\<rparr>)"
    "elsewhere chat rt0 (archive_if env chat o1 rt)"
  using assms by (auto simp: elsewhere_def put_record_def write_record_def append_record_def set_session_elsewhere prune_elsewhere
      archive_if_def put_dirs_def split: option.split)

lemma elsewhere_number:
  "elsewhere chat rt0 rt \<Longrightarrow> take_number chat rt = (rt1, n) \<Longrightarrow> elsewhere chat rt0 rt1"
proof -
  assume a: "elsewhere chat rt0 rt" "take_number chat rt = (rt1, n)"
  obtain s1 cs where c: "chat_state_of chat (rt_store rt) = (s1, cs)" by force
  with a show ?thesis by (auto simp: take_number_def next_session_number_def elsewhere_def chat_state_elsewhere [OF c])
qed

lemma elsewhere_chat_state:
  "elsewhere chat rt0 rt \<Longrightarrow> chat_state_of chat (rt_store rt) = (st, cs) \<Longrightarrow> elsewhere chat rt0 (rt\<lparr>rt_store := st\<rparr>)"
  by (simp add: elsewhere_def chat_state_elsewhere)

lemma elsewhere_start:
  "elsewhere chat rt0 rt \<Longrightarrow> start_new_session env chat p m sv names rt = (rt1, x) \<Longrightarrow> elsewhere chat rt0 rt1"
  using start_frame [of env chat p m sv names rt rt1 x] by (auto simp: elsewhere_def)

lemma elsewhere_finalize:
  "elsewhere chat rt0 rt \<Longrightarrow> sr_chat_id r = chat \<Longrightarrow> elsewhere chat rt0 (fst (finalize_session_activation env fin r a b c d rt))"
proof -
  assume a: "elsewhere chat rt0 rt" "sr_chat_id r = chat"
  obtain r2 t where r2: "check_chat_memory_transition env ((fst (consume_turn_number r))\<lparr>sr_updated_at := fin\<rparr>) = (r2, t)" by force
  from transition_same [OF this] consume_same [of r] a(2) have "sr_chat_id r2 = chat" by simp
  with a show ?thesis by (simp add: finalize_session_activation_def r2 Let_def elsewhere_intros)
qed

lemma elsewhere_fresh:
  assumes "elsewhere chat rt0 rt"
  shows "elsewhere chat rt0 (fst (start_fresh_session env now fin chat desired kind label sys opn old clear ov rt))"
proof -
  let ?rt1 = "archive_if env chat (active_record chat (rt_store rt)) rt"
  let ?rt2 = "if clear then put_dirs chat (clear_active_session (se_durable env) (rt_dirs ?rt1 chat)) ?rt1 else ?rt1"
  obtain rt3 n where n: "take_number chat ?rt2 = (rt3, n)" by force
  have "elsewhere chat rt0 ?rt2" using assms by (simp add: elsewhere_intros)
  from elsewhere_number [OF this n] have 3: "elsewhere chat rt0 rt3" .
  have "elsewhere chat rt0 rt4 \<and> (sr_chat_id r = chat \<longrightarrow> elsewhere chat rt0 (fst (finalize_session_activation env fin r a b c d (put_record r rt4))))"
    if "start_new_session env chat p m sv names rt3 = (rt4, x)" for r a b c d rt4 p m sv names x
    using elsewhere_start [OF 3 that] by (simp add: elsewhere_finalize elsewhere_intros)
  then show ?thesis using assms 3 n by (simp add: start_fresh_session_def Let_def split: sum.split prod.split)
qed

lemma elsewhere_in_place:
  "elsewhere chat rt0 rt \<Longrightarrow> sr_chat_id r = chat \<Longrightarrow> elsewhere chat rt0 (fst (switch_model_in_place env fin ch chat r model cur rt))"
  by (simp add: switch_model_in_place_def Let_def elsewhere_intros split: sum.split)

lemma elsewhere_reserve:
  "elsewhere chat rt0 rt \<Longrightarrow> sr_chat_id r = chat \<Longrightarrow> reserve_and_write r rt = (rt1, r1) \<Longrightarrow> elsewhere chat rt0 rt1 \<and> sr_chat_id r1 = chat"
  using reserve_same [of r] by (auto simp: reserve_and_write_def Let_def elsewhere_intros)

lemma elsewhere_resumed_reply:
  "elsewhere chat rt0 rt \<Longrightarrow> sr_chat_id r = chat \<Longrightarrow> elsewhere chat rt0 (fst (resumed_reply env fin r n reply rt))"
  unfolding resumed_reply_def by (rule elsewhere_finalize)

lemma elsewhere_sync: "elsewhere chat rt0 rt \<Longrightarrow> elsewhere chat rt0 (sync_active env chat names rt)"
  by (simp add: sync_active_def Let_def elsewhere_intros)

lemma elsewhere_on_session:
  assumes "elsewhere chat rt0 rt" and "sr_chat_id source = chat"
  shows "elsewhere chat rt0 (fst (resume_on_session env fin chat source n sid mcp names rt))"
proof -
  obtain rt1 r1 where r: "reserve_and_write source rt = (rt1, r1)" by force
  from elsewhere_reserve [OF assms r] show ?thesis using assms
    by (simp add: resume_on_session_def r Let_def elsewhere_resumed_reply elsewhere_sync elsewhere_intros split: sum.split)
qed

lemma elsewhere_rebuilt:
  assumes "elsewhere chat rt0 rt" and "sr_chat_id source = chat"
  shows "elsewhere chat rt0 (fst (resume_rebuilt env fin chat active source n mcp names rt))"
proof -
  obtain rt1 r1 where r: "reserve_and_write source rt = (rt1, r1)" by force
  note 1 = elsewhere_reserve [OF assms r]
  have "elsewhere chat rt0 rt2" if "start_new_session env chat p m sv nm rt1 = (rt2, x)" for rt2 x p m sv nm
    using elsewhere_start [OF _ that] 1 by blast
  with 1 show ?thesis using assms
    by (simp add: resume_rebuilt_def r Let_def elsewhere_resumed_reply elsewhere_intros split: sum.split prod.split)
qed

lemma elsewhere_swap: "elsewhere chat rt0 rt \<Longrightarrow> swap_dirs env chat a n rt = (rt1, b) \<Longrightarrow> elsewhere chat rt0 rt1"
  by (auto simp: swap_dirs_def elsewhere_intros split: prod.splits)

lemma elsewhere_resume:
  assumes "registry_ok rt" and "elsewhere chat rt0 rt"
  shows "elsewhere chat rt0 (fst (resume_held env fin chat n rt))"
proof -
  obtain st cs where c: "chat_state_of chat (rt_store rt) = (st, cs)" by force
  let ?rt = "rt\<lparr>rt_store := st\<rparr>"
  have 1: "elsewhere chat rt0 ?rt" by (rule elsewhere_chat_state [OF assms(2) c])
  have 2: "elsewhere chat rt0 rt1" if "swap_dirs env chat a n ?rt = (rt1, b)" for a rt1 b by (rule elsewhere_swap [OF 1 that])
  have "sr_chat_id r = chat" if "dget n (cs_sessions cs) = Some r" for r
    using well_formed.registered_numbered [where rt = ?rt and n = n and chat = chat and r = r] well_formed.chat_state_ok [OF assms(1) c] that by simp
  then show ?thesis using 1
    by (auto simp: resume_held_def c Let_def dest!: 2 split: option.split prod.split bool.split
        intro!: elsewhere_on_session elsewhere_rebuilt elsewhere_resumed_reply elsewhere_sync elsewhere_intros)
qed

lemma elsewhere_branch_finish:
  "elsewhere chat rt0 rt \<Longrightarrow> sr_chat_id r = chat \<Longrightarrow> elsewhere chat rt0 (fst (branch_finish env fin n r reply notice rt))"
  by (simp add: branch_finish_def elsewhere_finalize elsewhere_intros)

lemma elsewhere_branch_started:
  assumes "elsewhere chat rt0 rt"
  shows "elsewhere chat rt0 (fst (branch_started env now fin chat new n active source ctx rt))"
proof -
  have 1: "elsewhere chat rt0 (fst (branch_resumed env now fin chat new n source ctx sid use1 mcp names rt))" for sid use1 mcp names
    using assms by (simp add: branch_resumed_def Let_def elsewhere_branch_finish split: sum.split)
  have "elsewhere chat rt0 rt1" if "start_new_session env chat p m sv nm rt = (rt1, x)" for rt1 x p m sv nm
    by (rule elsewhere_start [OF assms that])
  then have 2: "elsewhere chat rt0 (fst (branch_rebuilt env now fin chat new n active source ctx use1 servers mcp names rt))" for use1 servers mcp names
    by (simp add: branch_rebuilt_def Let_def elsewhere_branch_finish split: sum.split prod.split)
  show ?thesis unfolding branch_started_def Let_def by (simp add: 1 2 split: option.split)
qed

lemma elsewhere_branch:
  assumes "elsewhere chat rt0 rt"
  shows "elsewhere chat rt0 (fst (branch_held env now fin chat n rt))"
proof -
  obtain st cs where c: "chat_state_of chat (rt_store rt) = (st, cs)" by force
  let ?rt = "rt\<lparr>rt_store := st\<rparr>"
  have 1: "elsewhere chat rt0 ?rt" by (rule elsewhere_chat_state [OF assms c])
  obtain rt1 b where w: "swap_dirs env chat (active_record chat st) n ?rt = (rt1, b)" by force
  obtain rt2 new where t: "take_number chat rt1 = (rt2, new)" by force
  from elsewhere_swap [OF 1 w] have 2: "elsewhere chat rt0 rt1" .
  from elsewhere_number [OF 2 t] have "elsewhere chat rt0 rt2" .
  with 1 2 show ?thesis
    by (cases b) (simp_all add: branch_held_def c w t Let_def elsewhere_branch_started split: option.split sum.split)
qed

lemma elsewhere_hold:
  "(\<And>rt. registry_ok rt \<Longrightarrow> elsewhere chat rt0 rt \<Longrightarrow> elsewhere chat rt0 (fst (body rt))) \<Longrightarrow> registry_ok rt \<Longrightarrow> elsewhere chat rt0 rt \<Longrightarrow>
   elsewhere chat rt0 (fst (hold_session_op chat body rt))"
  by (simp add: hold_session_op_def case_prod_unfold elsewhere_intros)

lemma elsewhere_queue: "elsewhere chat rt0 rt \<Longrightarrow> elsewhere chat rt0 (fst (queue_session_op fresh chat op now rt))"
  by (simp add: queue_session_op_def elsewhere_intros split: option.split prod.split sum.split)

lemma elsewhere_busy: "elsewhere chat rt0 rt \<Longrightarrow> session_op_busy fresh chat op q now rt = Some out \<Longrightarrow> elsewhere chat rt0 (fst out)"
  using elsewhere_queue by (auto simp: session_op_busy_def split: if_splits)

text \<open>A session operation changes its own chat only.\<close>

lemma session_op_elsewhere:
  assumes "registry_ok rt" and "elsewhere chat rt0 rt"
  shows "elsewhere chat rt0 (fst (do_session_op env fresh now fin ch chat op q rt))"
proof -
  note h = elsewhere_hold [OF _ assms]
  have 1: "elsewhere chat rt0 (fst (hold_session_op chat (\<lambda>rt. let r = active_record chat (rt_store rt)
        in start_fresh_session env now fin chat (opt_or m (current_model env r)) k l sy opn None True (Option.bind r sr_plugin_overrides) rt) rt))"
    for m k l sy opn by (rule h) (simp add: Let_def elsewhere_fresh)
  have 2: "elsewhere chat rt0 (fst (hold_session_op chat (\<lambda>rt. let r = active_record chat (rt_store rt); cur = current_model env r
            in case r of
                 Some x \<Rightarrow>
                   if in_place \<and> sr_session_id x \<noteq> [] then switch_model_in_place env fin ch chat x model cur rt
                   else start_fresh_session env now fin chat model k l sy opn (Some cur) False None rt
               | None \<Rightarrow> start_fresh_session env now fin chat model k l sy opn (Some cur) False None rt) rt))" for in_place model k l sy opn
    by (rule h) (auto simp: Let_def elsewhere_fresh split: option.split intro!: elsewhere_in_place dest: well_formed.active_numbered)
  have 3: "elsewhere chat rt0 (fst (hold_session_op chat (resume_held env fin chat n) rt))" for n
    by (rule h) (rule elsewhere_resume)
  have 4: "elsewhere chat rt0 (fst (hold_session_op chat (branch_held env now fin chat n) rt))" for n
    by (rule h) (simp add: elsewhere_branch)
  show ?thesis using assms(2) elsewhere_busy [OF assms(2)]
    by (cases op) (simp_all add: do_session_op_def new_session_def switch_model_def resume_session_def branch_session_def 1 2 3 4 split: option.split)
qed

text \<open>A turn changes its own chat only.\<close>

lemma register_elsewhere:
  assumes "elsewhere chat rt0 rt" and "ca_chat (tn_args tn) = chat" and "\<forall>r. old = Some r \<longrightarrow> sr_chat_id r = chat"
  shows "elsewhere chat rt0 (fst (register_turn io old tn rt))"
proof (cases old)
  case (Some r)
  obtain r' n where r': "reserve_turn_number r = (r', n)" by force
  have "sr_chat_id r' = chat" using reserve_same [of r] r' assms(3) Some by simp
  then show ?thesis using assms(1,2) by (simp add: register_turn_def Some r' Let_def elsewhere_intros split: option.split)
qed (use assms in \<open>simp add: register_turn_def Let_def elsewhere_intros\<close>)

lemma begin_new_elsewhere:
  assumes "elsewhere chat rt0 rt" and "\<forall>r. old = Some r \<longrightarrow> sr_chat_id r = chat"
  shows "elsewhere chat rt0 (fst (begin_new env now io chat msg old timed_out use1 drift names notice rt))"
proof -
  obtain rt2 n where n: "take_number chat (archive_if (te_session env) chat old rt) = (rt2, n)" by force
  have "elsewhere chat rt0 (archive_if (te_session env) chat old rt)" using assms(1) by (rule elsewhere_intros)
  from elsewhere_number [OF this n] have "elsewhere chat rt0 rt2" .
  with assms(2) show ?thesis
    by (auto simp: begin_new_def n Let_def put_active_dir_def split: sum.split intro!: register_elsewhere elsewhere_intros)
qed

lemma begin_follow_up_elsewhere:
  assumes "elsewhere chat rt0 rt" and "sr_chat_id r = chat"
  shows "elsewhere chat rt0 (fst (begin_follow_up env now io chat msg r use1 drift names notice rt))"
  using assms by (auto simp: begin_follow_up_def Let_def put_active_dir_def split: sum.split intro!: register_elsewhere elsewhere_intros)

lemma begin_turn_elsewhere:
  assumes "registry_ok rt" and "elsewhere chat rt0 rt"
  shows "elsewhere chat rt0 (fst (begin_turn env now io chat msg model rt))"
proof -
  have 1: "sr_chat_id r = chat" if "active_record chat (rt_store rt) = Some r" for r
    using well_formed.active_numbered [of rt chat r] assms(1) that by simp
  have 2: "elsewhere chat rt0 (rt\<lparr>rt_skills := sk\<rparr>)" for sk using assms(2) by (rule elsewhere_intros)
  have 3: "elsewhere chat rt0 (fst (begin_new env now io chat m (active_record chat (rt_store rt)) b u1 d ns no (rt\<lparr>rt_skills := sk\<rparr>)))"
    for m b u1 d ns no sk by (rule begin_new_elsewhere [OF 2]) (simp add: 1)
  have 4: "elsewhere chat rt0 (fst (begin_follow_up env now io chat m r u1 d ns no (rt\<lparr>rt_skills := sk\<rparr>)))"
    if "active_record chat (rt_store rt) = Some r" for m r u1 d ns no sk by (rule begin_follow_up_elsewhere [OF 2 1 [OF that]])
  show ?thesis
    using 2 3 4 assms(2) by (cases "active_record chat (rt_store rt)")
      (auto simp: begin_turn_def Let_def split: option.split sum.split prod.split)
qed

lemma turn_record_cases:
  obtains (old) r where "object_of (ca_old (tn_args tn)) rt = Some r" "\<not> oc_is_new oc" "\<not> ca_force_new (tn_args tn)"
      "fst (turn_record env now tn oc label rt) = rt" "key_of (Some (snd (turn_record env now tn oc label rt))) = key_of (Some r)"
  | (fresh) n where "fst (turn_record env now tn oc label rt) = rt" "n = tn_session_number tn" "oc_is_new oc"
      "key_of (Some (snd (turn_record env now tn oc label rt))) = Some (ca_chat (tn_args tn), n)"
  | (taken) n where "take_number (ca_chat (tn_args tn)) rt = (fst (turn_record env now tn oc label rt), n)"
      "key_of (Some (snd (turn_record env now tn oc label rt))) = Some (ca_chat (tn_args tn), n)"
proof (cases "if oc_is_new oc \<or> ca_force_new (tn_args tn) then None else object_of (ca_old (tn_args tn)) rt")
  case (Some r)
  then show ?thesis using old [of r] by (simp add: turn_record_def Let_def split: if_splits)
next
  case None
  show ?thesis
  proof (cases "oc_is_new oc")
    case True
    then show ?thesis using fresh None by (simp add: turn_record_def Let_def create_record_def split: option.split)
  next
    case False
    obtain rt1 n where n: "take_number (ca_chat (tn_args tn)) rt = (rt1, n)" by force
    then show ?thesis using taken [of n] None False by (simp add: turn_record_def Let_def create_record_def split: option.split)
  qed
qed

lemma turn_record_elsewhere:
  assumes "elsewhere chat rt0 rt" and "ca_chat (tn_args tn) = chat" and "\<forall>r. object_of (ca_old (tn_args tn)) rt = Some r \<longrightarrow> sr_chat_id r = chat"
    and "turn_record env now tn oc label rt = (rt1, r0)"
  shows "elsewhere chat rt0 rt1 \<and> sr_chat_id r0 = chat"
proof (cases rule: turn_record_cases [where tn = tn and rt = rt and oc = oc and env = env and now = now and label = label])
  case (taken n)
  with elsewhere_number [OF assms(1), of rt1 n] assms show ?thesis by simp
qed (use assms in simp_all)

lemma transition_key: "key_of (Some (fst (check_chat_memory_transition se x))) = key_of (Some x)"
  by (cases "check_chat_memory_transition se x") (auto dest: transition_same)

definition final_record :: "'e process_env \<Rightarrow> secs \<Rightarrow> turn \<Rightarrow> engine_outcome \<Rightarrow> bool \<Rightarrow> session_record \<Rightarrow> session_record" where
  "final_record env now tn oc stopped r0 =
     (let r1 = counted_record env now (oc_result oc) stopped r0
      in fst (check_chat_memory_transition (te_session env) (marked_record env tn oc (hooked_turn env tn oc r1) r1)))"

lemma final_record_key: "key_of (Some (final_record env now tn oc stopped r0)) = key_of (Some r0)"
  using consume_same [of r0] by (simp only: final_record_def Let_def transition_key) (simp add: marked_record_def counted_record_def Let_def)

text \<open>The record is changed in place and written: \<open>put_session\<close>.\<close>

lemma finalize_turn_shape:
  assumes "turn_record env now tn oc label rt = (rt1, r0)"
  obtains rc where "fst (finalize_turn env now tn oc label stopped after rt) =
      after (rt1\<lparr>rt_recorded := rc, rt_store := put_session (final_record env now tn oc stopped r0) (rt_store rt1)\<rparr>)"
proof -
  have "\<exists>rc. fst (finalize_turn env now tn oc label stopped after rt) =
      after (rt1\<lparr>rt_recorded := rc, rt_store := put_session (final_record env now tn oc stopped r0) (rt_store rt1)\<rparr>)"
    by (simp add: finalize_turn_def assms final_record_def Let_def case_prod_unfold write_record_def put_record_def put_session_def) blast
  with that show ?thesis by blast
qed

subsection \<open>What a running turn relies on\<close>

abbreviation next_at :: "ustr \<Rightarrow> runtime \<Rightarrow> int" where
  "next_at chat rt \<equiv> next_of chat (st_states (rt_store rt))"

definition turn_ok :: "ustr \<Rightarrow> turn \<Rightarrow> runtime \<Rightarrow> bool" where
  "turn_ok chat tn rt \<longleftrightarrow> ca_chat (tn_args tn) = chat \<and> tn_session_number tn < next_at chat rt
     \<and> (\<forall>r. ca_old (tn_args tn) = Some r \<longrightarrow> sr_chat_id r = chat \<and> sr_session_number r < next_at chat rt)"

lemma set_session_registry:
  assumes "states_ok (st_states s)" and "sr_session_number x < next_of (sr_chat_id x) (st_states s)"
  shows "states_ok (st_states (set_session x s)) \<and> next_of c (st_states (set_session x s)) = next_of c (st_states s)"
proof -
  have "states_ok (st_states (put_session x s))" using well_formed.put [OF assms] .
  moreover obtain s1 cs where c: "chat_state_of (sr_chat_id x) s = (s1, cs)" by force
  ultimately show ?thesis using chat_state_of_eq [OF c] c by (simp add: put_session_def append_record_def set_session_def)
qed

lemma record_registry:
  assumes "registry_ok rt" and "sr_session_number x < next_at (sr_chat_id x) rt"
  shows "registry_ok (put_record x rt)" "next_at c (put_record x rt) = next_at c rt"
    "registry_ok (rt\<lparr>rt_store := put_session x (rt_store rt)\<rparr>)" "next_at c (rt\<lparr>rt_store := put_session x (rt_store rt)\<rparr>) = next_at c rt"
  using set_session_registry [OF assms] by (simp_all add: put_record_def put_session_def append_record_def)

lemma write_registry [simp]: "st_states (rt_store (write_record x rt)) = st_states (rt_store rt)"
  by (simp add: write_record_def append_record_def)

lemma number_registry:
  "registry_ok rt \<Longrightarrow> take_number chat rt = (rt1, n) \<Longrightarrow> registry_ok rt1 \<and> n < next_at chat rt1 \<and> next_at chat rt \<le> next_at chat rt1"
proof -
  assume a: "registry_ok rt" "take_number chat rt = (rt1, n)"
  obtain s1 cs where c: "chat_state_of chat (rt_store rt) = (s1, cs)" by force
  from chat_state_of_eq [OF c] a c have "next_at chat rt \<le> next_at chat rt1"
    by (auto simp: take_number_def next_session_number_def)
  with well_formed.take_number_ok [of rt chat rt1 n] a show ?thesis by simp
qed

lemma register_ok:
  assumes "registry_ok rt" and "turn_ok chat tn rt" and "ca_old (tn_args tn) = old" and "register_turn io old tn rt = (rt1, x)"
  shows "registry_ok rt1 \<and> (\<forall>tn1. x = Inr (Inr tn1) \<longrightarrow> turn_ok chat tn1 rt1 \<and> chat \<in> set (rt_turns rt1))"
proof (cases old)
  case (Some r)
  obtain r' n where r': "reserve_turn_number r = (r', n)" by force
  have k: "sr_session_number r' < next_at (sr_chat_id r') (rt\<lparr>rt_turns := ts\<rparr>)" for ts
    using reserve_same [of r] r' assms(2,3) Some by (simp add: turn_ok_def)
  have "registry_ok (put_record r' (rt\<lparr>rt_turns := ts\<rparr>)) \<and> next_at c (put_record r' (rt\<lparr>rt_turns := ts\<rparr>)) = next_at c rt" for ts c
    using record_registry(1,2) [where rt = "rt\<lparr>rt_turns := ts\<rparr>" and x = r', OF _ k] assms(1) by simp
  then show ?thesis using assms(2-4)
    by (auto simp: register_turn_def Some r' Let_def turn_ok_def put_record_def write_record_def append_record_def split: option.splits)
qed (use assms in \<open>auto simp: register_turn_def Let_def turn_ok_def\<close>)

lemma put_dirs_store [simp]: "rt_store (put_active_dir chat d rt) = rt_store rt"
  by (simp add: put_active_dir_def)

lemma begin_new_ok:
  assumes "registry_ok rt" and "\<forall>r. old = Some r \<longrightarrow> sr_chat_id r = chat \<and> sr_session_number r < next_at chat rt"
    and "begin_new env now io chat msg old timed_out use1 drift names notice rt = (rt1, x)"
  shows "registry_ok rt1 \<and> (\<forall>tn. x = Inr (Inr tn) \<longrightarrow> turn_ok chat tn rt1 \<and> chat \<in> set (rt_turns rt1))"
proof -
  let ?rta = "archive_if (te_session env) chat old rt"
  obtain rt2 n where n: "take_number chat ?rta = (rt2, n)" by force
  have 2: "registry_ok rt2" "n < next_at chat rt2" "next_at chat rt \<le> next_at chat rt2"
    using number_registry [OF _ n] assms(1) by simp_all
  define rt3 where "rt3 = put_active_dir chat (se_sync_skills (te_session env) names (active_dir chat rt2)) rt2"
  have 3: "registry_ok rt3" "next_at chat rt3 = next_at chat rt2" using 2 by (simp_all add: rt3_def)
  show ?thesis
  proof (cases "new_turn_active env chat None msg now")
    case (Inl e)
    with assms(3) 3 show ?thesis by (auto simp: begin_new_def n Let_def rt3_def [symmetric])
  next
    case (Inr act)
    then obtain tn where "register_turn io old tn rt3 = (rt1, x)" "turn_ok chat tn rt3" "ca_old (tn_args tn) = old"
      using assms(2,3) 2 3 by (force simp: begin_new_def n Let_def turn_ok_def rt3_def [symmetric])
    from register_ok [OF 3(1) this(2,3,1)] show ?thesis .
  qed
qed

lemma begin_follow_up_ok:
  assumes "registry_ok rt" and "sr_chat_id r = chat" and "sr_session_number r < next_at chat rt"
    and "begin_follow_up env now io chat msg r use1 drift names notice rt = (rt1, x)"
  shows "registry_ok rt1 \<and> (\<forall>tn. x = Inr (Inr tn) \<longrightarrow> turn_ok chat tn rt1 \<and> chat \<in> set (rt_turns rt1))"
proof -
  define rt2 where "rt2 = put_active_dir chat (pe_refresh_skills env names (active_dir chat rt)) rt"
  have 2: "registry_ok rt2" "next_at chat rt2 = next_at chat rt" using assms(1) by (simp_all add: rt2_def)
  show ?thesis
  proof (cases "new_turn_active env chat (nonempty_id (Some (sr_session_id r))) msg now")
    case (Inl e)
    with assms(4) 2 show ?thesis by (auto simp: begin_follow_up_def Let_def rt2_def [symmetric])
  next
    case (Inr act)
    have "\<exists>tn. register_turn io (Some r) tn rt2 = (rt1, x) \<and> ca_chat (tn_args tn) = chat
        \<and> tn_session_number tn = sr_session_number r \<and> ca_old (tn_args tn) = Some r"
      by (insert assms(4) Inr, simp add: begin_follow_up_def Let_def rt2_def [symmetric], rule exI, rule conjI, assumption, simp)
    then obtain tn where "register_turn io (Some r) tn rt2 = (rt1, x)" "turn_ok chat tn rt2" "ca_old (tn_args tn) = Some r"
      using assms(2,3) 2 by (auto simp: turn_ok_def)
    from register_ok [OF 2(1) this(2,3,1)] show ?thesis .
  qed
qed

lemma begin_turn_ok:
  assumes "registry_ok rt" and "begin_turn env now io chat msg model rt = (rt1, x)"
  shows "registry_ok rt1 \<and> (\<forall>tn. x = Inr (Inr tn) \<longrightarrow> turn_ok chat tn rt1 \<and> chat \<in> set (rt_turns rt1))"
proof -
  have 1: "sr_chat_id r = chat \<and> sr_session_number r < next_at chat rt" if "active_record chat (rt_store rt) = Some r" for r
    using well_formed.active_numbered [OF assms(1) that] by auto
  have r: "registry_ok (rt\<lparr>rt_skills := sk\<rparr>)" for sk using assms(1) by simp
  have 2: "registry_ok rt2 \<and> (\<forall>tn. y = Inr (Inr tn) \<longrightarrow> turn_ok chat tn rt2 \<and> chat \<in> set (rt_turns rt2))"
    if "begin_new env now io chat m (active_record chat (rt_store rt)) b u1 d ns no (rt\<lparr>rt_skills := sk\<rparr>) = (rt2, y)" for m b u1 d ns no sk rt2 y
    by (rule begin_new_ok [OF r _ that]) (simp add: 1)
  have 3: "registry_ok rt2 \<and> (\<forall>tn. y = Inr (Inr tn) \<longrightarrow> turn_ok chat tn rt2 \<and> chat \<in> set (rt_turns rt2))"
    if "active_record chat (rt_store rt) = Some q" "begin_follow_up env now io chat m q u1 d ns no (rt\<lparr>rt_skills := sk\<rparr>) = (rt2, y)" for m q u1 d ns no sk rt2 y
    by (rule begin_follow_up_ok [OF r _ _ that(2)]) (use 1 that in simp_all)
  show ?thesis
    using assms 2 3 by (cases "active_record chat (rt_store rt)")
      (auto simp: begin_turn_def Let_def split: option.splits sum.splits prod.splits if_splits)
qed

lemma turn_key: "turn_ok chat tn rt \<Longrightarrow> registry_ok rt \<Longrightarrow> keyed (key_of (ca_old (tn_args tn))) rt"
  using well_formed.registered_numbered [where rt = rt]
  by (cases "ca_old (tn_args tn)") (auto simp: keyed_def turn_ok_def split: option.splits)

lemma turn_ok_key:
  assumes "turn_ok chat tn rt" and "key_of (Some x) = key_of (ca_old (tn_args tn))"
  shows "sr_chat_id x = chat \<and> sr_session_number x < next_at chat rt"
  using assms by (cases "ca_old (tn_args tn)") (auto simp: turn_ok_def)

text \<open>The engine half of the turn.\<close>

lemma run_engine_touched:
  assumes "registry_ok rt" and "turn_ok chat tn rt" and "run_engine env tn e rt = (c, out)"
  shows "touched chat (key_of (ca_old (tn_args tn))) rt (cl_rt c)"
proof -
  let ?c = "\<lparr>cl_engine = e, cl_active = tn_active tn, cl_rt = rt\<rparr>"
  have "keyed (key_of (ca_old (tn_args tn))) (cl_rt ?c)" using turn_key [OF assms(2,1)] by simp
  from engine_call_is_contained [OF this, of "turn_env.truncate env" "tn_persona_exceeded tn" "tn_chat_exceeded tn"]
  show ?thesis using assms(2,3) by (simp add: run_engine_def turn_ok_def)
qed

lemma touched_registry:
  assumes "touched chat (key_of (ca_old (tn_args tn))) rt rt1" and "registry_ok rt" and "turn_ok chat tn rt"
  shows "registry_ok rt1 \<and> turn_ok chat tn rt1"
proof -
  have k: "sr_session_number x < next_of (sr_chat_id x) (st_states (rt_store rt))" if "key_of (Some x) = key_of (ca_old (tn_args tn))" for x
    using turn_ok_key [OF assms(3) that] by auto
  from assms(1) have "rt_store rt1 = rt_store rt \<or> (\<exists>x. key_of (Some x) = key_of (ca_old (tn_args tn)) \<and> rt_store rt1 = set_session x (rt_store rt))"
    by (auto simp: touched_def version_of_def)
  then show ?thesis
  proof
    assume "rt_store rt1 = rt_store rt"
    with assms(2,3) show ?thesis by (simp add: turn_ok_def)
  next
    assume "\<exists>x. key_of (Some x) = key_of (ca_old (tn_args tn)) \<and> rt_store rt1 = set_session x (rt_store rt)"
    then obtain x where x: "key_of (Some x) = key_of (ca_old (tn_args tn))" "rt_store rt1 = set_session x (rt_store rt)" by blast
    from set_session_registry [OF assms(2) k [OF x(1)]] assms(3) show ?thesis unfolding turn_ok_def x(2) by simp
  qed
qed

lemma touched_elsewhere:
  assumes "touched chat (key_of (ca_old (tn_args tn))) rt rt1" and "turn_ok chat tn rt"
  shows "elsewhere chat rt rt1"
proof -
  have "c \<noteq> sr_chat_id x" if "key_of (Some x) = key_of (ca_old (tn_args tn))" "c \<noteq> chat" for x c
    using turn_ok_key [OF assms(2) that(1)] that(2) by simp
  with assms(1) set_session_elsewhere show ?thesis unfolding touched_def elsewhere_def version_of_def by (metis)
qed

text \<open>What may follow a recorded turn: nothing, or pruning its chat.\<close>

definition prune_after :: "session_env \<Rightarrow> secs \<Rightarrow> ustr \<Rightarrow> bool \<Rightarrow> runtime \<Rightarrow> runtime" where
  "prune_after env fin chat b rt = (if b then rt\<lparr>rt_store := prune_and_compact (se_prune env) fin chat (rt_store rt)\<rparr> else rt)"

lemma prune_after_ok:
  "registry_ok rt \<Longrightarrow> elsewhere chat rt0 rt \<Longrightarrow> registry_ok (prune_after se fin chat b rt) \<and> elsewhere chat rt0 (prune_after se fin chat b rt)"
  by (simp add: prune_after_def elsewhere_intros well_formed.pruned)

lemma finish_ok:
  assumes "registry_ok rt" and "turn_ok chat tn rt"
    and "finish_turn env fin tn out stopped label (prune_after se fin chat b) rt = (rt1, x)"
  shows "registry_ok rt1 \<and> elsewhere chat rt rt1"
proof -
  have chat: "ca_chat (tn_args tn) = chat" using assms(2) by (simp add: turn_ok_def)
  have clean: "registry_ok rt2 \<and> elsewhere chat rt rt2 \<longrightarrow> registry_ok (cleanup_turn chat rt2) \<and> elsewhere chat rt (cleanup_turn chat rt2)" for rt2
    by (simp add: cleanup_turn_def elsewhere_intros)
  have obj: "sr_chat_id r = chat \<and> sr_session_number r < next_at chat rt" if "object_of (ca_old (tn_args tn)) rt = Some r" for r
    using object_key [OF turn_key [OF assms(2,1)] refl] that by (intro turn_ok_key [OF assms(2)]) simp
  have "registry_ok (fst (finalize_turn env fin tn oc label stopped (prune_after se fin chat b) rt))
      \<and> elsewhere chat rt (fst (finalize_turn env fin tn oc label stopped (prune_after se fin chat b) rt))" for oc
  proof -
    obtain rt2 r0 where t: "turn_record env fin tn oc label rt = (rt2, r0)" by force
    have e: "elsewhere chat rt rt2 \<and> sr_chat_id r0 = chat" using turn_record_elsewhere [OF elsewhere_refl chat _ t] obj by blast
    have r: "registry_ok rt2 \<and> sr_session_number r0 < next_at chat rt2"
    proof (cases rule: turn_record_cases [where tn = tn and rt = rt and oc = oc and env = env and now = fin and label = label])
      case (old r)
      with t obj assms(1) show ?thesis by simp
    next
      case (fresh n)
      with t assms(1,2) show ?thesis by (simp add: turn_ok_def)
    next
      case (taken n)
      with t number_registry [OF assms(1), of chat rt2 n] chat show ?thesis by simp
    qed
    let ?r3 = "final_record env fin tn oc stopped r0"
    have k: "sr_chat_id ?r3 = chat" "sr_session_number ?r3 = sr_session_number r0"
      using final_record_key [of env fin tn oc stopped r0] e by simp_all
    obtain rc where f: "fst (finalize_turn env fin tn oc label stopped (prune_after se fin chat b) rt) =
        prune_after se fin chat b (rt2\<lparr>rt_recorded := rc, rt_store := put_session ?r3 (rt_store rt2)\<rparr>)"
      using finalize_turn_shape [OF t] by blast
    let ?rt3 = "rt2\<lparr>rt_recorded := rc, rt_store := put_session ?r3 (rt_store rt2)\<rparr>"
    have 3: "registry_ok ?rt3" using well_formed.put [of "rt_store rt2" ?r3] r k by simp
    have "?rt3 = write_record ?r3 (put_record ?r3 (rt2\<lparr>rt_recorded := rc\<rparr>))"
      by (simp add: write_record_def put_record_def put_session_def)
    then have "elsewhere chat rt ?rt3" using e k by (simp add: elsewhere_intros)
    with 3 show ?thesis unfolding f by (rule prune_after_ok)
  qed
  note fin = this
  show ?thesis
  proof (cases out)
    case (Done oc)
    obtain rt2 res where f: "finalize_turn env fin tn oc label stopped (prune_after se fin chat b) rt = (rt2, res)" by force
    with fin [of oc] clean [of rt2] assms(3) Done chat show ?thesis by (auto simp: finish_turn_def)
  qed (use assms chat clean [of rt] in \<open>auto simp: finish_turn_def\<close>)
qed

subsection \<open>Turns and operations of many chats\<close>

text \<open>
  The steps of the service: a turn begins (or is refused, or fails to begin), a dispatch is continued, a running
  turn ends, a session operation is called or woken, the service starts or stops draining.  The engine half
  of a turn is taken together with its end: until then it only works on its own state.
\<close>

type_synonym world = "runtime \<times> (ustr \<Rightarrow> turn option)"

inductive world_step :: "'e process_env \<Rightarrow> world \<Rightarrow> world \<Rightarrow> bool" for env :: "'e process_env" where
  begins: "begin_turn env now io chat msg model rt = (rt', Inr (Inr tn)) \<Longrightarrow> world_step env (rt, run) (rt', run(chat \<mapsto> tn))"
| begins_not: "begin_turn env now io chat msg model rt = (rt', x) \<Longrightarrow> \<forall>tn. x \<noteq> Inr (Inr tn) \<Longrightarrow> world_step env (rt, run) (rt', run)"
| continues: "begin_continuation env now io hook i result ds rt = (ds', rt', Inr (Inr (tn, final))) \<Longrightarrow>
    world_step env (rt, run) (rt', run(ca_chat (tn_args tn) \<mapsto> tn))"
| continues_not: "begin_continuation env now io hook i result ds rt = (ds', rt', x) \<Longrightarrow> \<forall>tn. x \<noteq> Inr (Inr tn) \<Longrightarrow> world_step env (rt, run) (rt', run)"
| ends: "run chat = Some tn \<Longrightarrow> run_engine env tn e rt = (c, out) \<Longrightarrow>
    finish_turn env fin tn out stopped label (prune_after (te_session env) fin chat b) (cl_rt c) = (rt', x) \<Longrightarrow>
    world_step env (rt, run) (rt', run(chat := None))"
| operates: "do_session_op (te_session env) fresh now fin changed chat op q rt = (rt', x) \<Longrightarrow> world_step env (rt, run) (rt', run)"
| wakes: "run_session_op (te_session env) now fin changed chat p rt = (rt', x) \<Longrightarrow> world_step env (rt, run) (rt', run)"
| drains: "world_step env (rt, run) (rt\<lparr>rt_draining := b\<rparr>, run)"

inductive_cases world_stepE: "world_step env (rt, run) w"

definition world_ok :: "world \<Rightarrow> bool" where
  "world_ok w \<longleftrightarrow> registry_ok (fst w)
     \<and> (\<forall>chat tn. snd w chat = Some tn \<longrightarrow> turn_ok chat tn (fst w) \<and> chat \<in> set (rt_turns (fst w)))"

text \<open>What a chat sees of the runtime.\<close>

definition same_chat :: "ustr \<Rightarrow> runtime \<Rightarrow> runtime \<Rightarrow> bool" where
  "same_chat chat rt rt' \<longleftrightarrow> state_of chat (st_states (rt_store rt')) = state_of chat (st_states (rt_store rt))
     \<and> rt_dirs rt' chat = rt_dirs rt chat \<and> (chat \<in> set (rt_turns rt') \<longleftrightarrow> chat \<in> set (rt_turns rt))"

lemma elsewhere_same: "elsewhere chat rt rt' \<Longrightarrow> c \<noteq> chat \<Longrightarrow> same_chat c rt rt'"
  by (simp add: elsewhere_def same_chat_def)

lemma same_refl [simp]: "same_chat chat rt rt"
  by (simp add: same_chat_def)

lemma same_turn: "same_chat chat rt rt' \<Longrightarrow> turn_ok chat tn rt \<Longrightarrow> turn_ok chat tn rt'"
  by (simp add: same_chat_def turn_ok_def)

text \<open>The gate of a running turn keeps everything of its own chat out.\<close>

lemma gated_begin: "chat \<in> set (rt_turns rt) \<Longrightarrow> begin_turn env now io chat msg model rt = (rt', x) \<Longrightarrow> rt' = rt \<and> (\<forall>tn. x \<noteq> Inr (Inr tn))"
  by (auto simp: begin_turn_def turn_gate_def split: if_splits)

lemma gated_continuation:
  "dispatch_get i ds = Some d \<Longrightarrow> dp_chat_id d \<in> set (rt_turns rt) \<Longrightarrow> begin_continuation env now io hook i result ds rt = (ds', rt', x) \<Longrightarrow>
   rt' = rt \<and> (\<forall>tn. x \<noteq> Inr (Inr tn))"
  by (auto simp: begin_continuation_def continue_gate_def Let_def split: if_splits)

lemma queue_frame: "same_chat c rt (fst (queue_session_op fresh chat op now rt))"
  by (simp add: queue_session_op_def same_chat_def split: option.split prod.split sum.split)

lemma gated_operation: "chat_busy chat rt \<Longrightarrow> same_chat c rt (fst (do_session_op env fresh now fin ch chat op q rt))"
  using queue_frame [of c rt fresh chat _ now]
  by (cases op) (auto simp: do_session_op_def new_session_def switch_model_def resume_session_def branch_session_def session_op_busy_def)

lemma continuation_ok:
  assumes "registry_ok rt" and "begin_continuation env now io hook i result ds rt = (ds', rt', x)"
  shows "registry_ok rt' \<and> (\<exists>chat. elsewhere chat rt rt' \<and> (chat \<in> set (rt_turns rt) \<longrightarrow> rt' = rt \<and> (\<forall>tn. x \<noteq> Inr (Inr tn)))
    \<and> (\<forall>tn f. x = Inr (Inr (tn, f)) \<longrightarrow> ca_chat (tn_args tn) = chat \<and> turn_ok chat tn rt' \<and> chat \<in> set (rt_turns rt')))"
proof (cases "dispatch_get i ds")
  case None
  with assms show ?thesis by (auto simp: begin_continuation_def)
next
  case (Some d)
  let ?chat = "dp_chat_id d"
  have g: "?chat \<in> set (rt_turns rt) \<longrightarrow> rt' = rt \<and> (\<forall>tn. x \<noteq> Inr (Inr tn))"
    using gated_continuation [OF Some _ assms(2)] by blast
  consider "rt' = rt" "\<forall>tn. x \<noteq> Inr (Inr tn)"
    | r msg u1 d1 ns no y where "active_record ?chat (rt_store rt) = Some r"
        "begin_follow_up (env\<lparr>pe_seed := Inr\<rparr>) now io ?chat msg r u1 d1 ns no rt = (rt', y)"
        "\<forall>tn f. x = Inr (Inr (tn, f)) \<longrightarrow> (\<exists>t. y = Inr (Inr t) \<and> tn = t\<lparr>tn_args := (tn_args t)\<lparr>ca_force_new := False\<rparr>\<rparr>)"
    using assms(2) Some
    by (auto simp: begin_continuation_def Let_def split: if_splits option.splits sum.splits prod.splits)
  then show ?thesis
  proof cases
    case 1
    then show ?thesis using assms(1) by auto
  next
    case (2 r msg u1 d1 ns no y)
    have r: "sr_chat_id r = ?chat" "sr_session_number r < next_at ?chat rt" using well_formed.active_numbered [OF assms(1) 2(1)] by auto
    note ok = begin_follow_up_ok [OF assms(1) r 2(2)]
    have "elsewhere ?chat rt rt'" using begin_follow_up_elsewhere [OF elsewhere_refl r(1), of rt "env\<lparr>pe_seed := Inr\<rparr>" now io msg u1 d1 ns no] 2(2) by simp
    moreover have "ca_chat (tn_args tn) = ?chat \<and> turn_ok ?chat tn rt' \<and> ?chat \<in> set (rt_turns rt')" if "x = Inr (Inr (tn, f))" for tn f
    proof -
      from 2(3) that obtain t where "y = Inr (Inr t)" "tn = t\<lparr>tn_args := (tn_args t)\<lparr>ca_force_new := False\<rparr>\<rparr>" by blast
      with ok show ?thesis by (simp add: turn_ok_def)
    qed
    ultimately show ?thesis using ok g by blast
  qed
qed

text \<open>
  One step: the invariant is kept, and what a running turn's chat sees does not change unless the turn ends.
\<close>

lemma operation_step:
  assumes "registry_ok rt" and "do_session_op se fresh now fin ch chat op q rt = (rt', x)" and "c \<in> set (rt_turns rt) \<or> c \<noteq> chat"
  shows "registry_ok rt' \<and> same_chat c rt rt'"
proof -
  have "registry_ok rt'" using well_formed.session_op_ok [OF assms(1), of se fresh now fin ch chat op q] assms(2) by simp
  moreover have "same_chat c rt rt'"
  proof (cases "c = chat")
    case True
    then show ?thesis using gated_operation [of chat rt c se fresh now fin ch op q] assms(2,3) by (simp add: chat_busy_def)
  next
    case False
    then show ?thesis using elsewhere_same [OF session_op_elsewhere [OF assms(1) elsewhere_refl]] assms(2) by (metis fst_conv)
  qed
  ultimately show ?thesis by blast
qed

lemma wake_step:
  assumes "registry_ok rt" and "run_session_op se now fin ch chat p rt = (rt', x)" and "c \<in> set (rt_turns rt) \<or> c \<noteq> chat"
  shows "registry_ok rt' \<and> same_chat c rt rt'"
proof -
  have "rt' = rt \<or> (\<exists>op y. do_session_op se [] now fin ch chat op False rt = (rt', y))"
    using assms(2) by (auto simp: run_session_op_def split: if_splits sum.splits option.splits prod.splits)
  then show ?thesis using operation_step [OF assms(1) _ assms(3)] assms(1) by auto
qed

lemma world_okD: "world_ok (rt, run) \<Longrightarrow> run chat = Some tn \<Longrightarrow> turn_ok chat tn rt \<and> chat \<in> set (rt_turns rt)"
  by (simp add: world_ok_def)

lemma world_okI:
  assumes "registry_ok rt'" and "\<And>c tn. run' c = Some tn \<Longrightarrow> (turn_ok c tn rt' \<and> c \<in> set (rt_turns rt')) \<or> (run c = Some tn \<and> same_chat c rt rt')"
    and "world_ok (rt, run)"
  shows "world_ok (rt', run')"
  using assms same_turn unfolding world_ok_def same_chat_def by (fastforce simp: world_ok_def)

lemma world_step_preserves:
  assumes "world_step env w w'" and "world_ok w"
  shows "world_ok w' \<and> (\<forall>c \<in> set (rt_turns (fst w)).
    (snd w c \<noteq> None \<and> snd w' c = None) \<or> (snd w' c = snd w c \<and> same_chat c (fst w) (fst w')))"
  using assms
proof (induction rule: world_step.induct)
  case (begins now io chat msg model rt rt' tn run)
  have reg: "registry_ok rt" using begins by (simp add: world_ok_def)
  note ok = begin_turn_ok [OF reg begins(1)]
  have el: "elsewhere chat rt rt'" using begin_turn_elsewhere [OF reg elsewhere_refl, where chat = chat and env = env and now = now and io = io and msg = msg and model = model] begins(1) by simp
  have free: "chat \<notin> set (rt_turns rt)" using gated_begin [OF _ begins(1)] by blast
  have "world_ok (rt', run(chat \<mapsto> tn))"
    by (rule world_okI [OF _ _ begins(2)]) (use ok elsewhere_same [OF el] in \<open>auto split: if_splits\<close>)
  with free elsewhere_same [OF el] show ?case by auto
next
  case (begins_not now io chat msg model rt rt' x run)
  have reg: "registry_ok rt" using begins_not by (simp add: world_ok_def)
  note ok = begin_turn_ok [OF reg begins_not(1)]
  have el: "elsewhere chat rt rt'" using begin_turn_elsewhere [OF reg elsewhere_refl, where chat = chat and env = env and now = now and io = io and msg = msg and model = model] begins_not(1) by simp
  have same: "same_chat c rt rt'" if "c \<in> set (rt_turns rt)" for c
    using elsewhere_same [OF el, of c] gated_begin [OF _ begins_not(1)] begins_not(3) that by (cases "c = chat") (auto simp: world_ok_def)
  have "world_ok (rt', run)" by (rule world_okI [OF _ _ begins_not(3)]) (use ok same world_okD [OF begins_not(3)] in auto)
  with same show ?case by auto
next
  case (continues now io hook i result ds rt ds' rt' tn final run)
  have reg: "registry_ok rt" using continues by (simp add: world_ok_def)
  obtain chat where el: "elsewhere chat rt rt'" and g: "chat \<notin> set (rt_turns rt)" and c: "ca_chat (tn_args tn) = chat"
    and ok: "turn_ok chat tn rt'" "chat \<in> set (rt_turns rt')" and reg': "registry_ok rt'"
    using continuation_ok [OF reg continues(1)] by auto
  have "world_ok (rt', run(chat \<mapsto> tn))"
    by (rule world_okI [OF reg' _ continues(2)]) (use ok elsewhere_same [OF el] in \<open>auto split: if_splits\<close>)
  with g elsewhere_same [OF el] c show ?case by auto
next
  case (continues_not now io hook i result ds rt ds' rt' x run)
  have reg: "registry_ok rt" using continues_not by (simp add: world_ok_def)
  obtain chat where el: "elsewhere chat rt rt'" and g: "chat \<in> set (rt_turns rt) \<longrightarrow> rt' = rt" and reg': "registry_ok rt'"
    using continuation_ok [OF reg continues_not(1)] by auto
  have same: "same_chat c rt rt'" if "c \<in> set (rt_turns rt)" for c
    using elsewhere_same [OF el, of c] g continues_not(3) that by (cases "c = chat") (auto simp: world_ok_def)
  have "world_ok (rt', run)" by (rule world_okI [OF reg' _ continues_not(3)]) (use same world_okD [OF continues_not(3)] in auto)
  with same show ?case by auto
next
  case (ends run chat tn e rt c out fin stopped label b rt' x)
  have reg: "registry_ok rt" and t: "turn_ok chat tn rt" using ends by (simp_all add: world_ok_def)
  note to = run_engine_touched [OF reg t ends(2)]
  have 1: "registry_ok (cl_rt c)" "turn_ok chat tn (cl_rt c)" using touched_registry [OF to reg t] by simp_all
  note f = finish_ok [OF 1 ends(3)]
  have el: "elsewhere chat rt rt'" using elsewhere_trans [OF touched_elsewhere [OF to t]] f by blast
  have "world_ok (rt', run(chat := None))"
    by (rule world_okI [OF _ _ ends(4)]) (use f elsewhere_same [OF el] in \<open>auto split: if_splits\<close>)
  with elsewhere_same [OF el] ends(1) show ?case by auto
next
  case (operates fresh now fin changed chat op q rt rt' x run)
  have reg: "registry_ok rt" using operates by (simp add: world_ok_def)
  have same: "same_chat c rt rt'" if "c \<in> set (rt_turns rt)" for c
    using operation_step [OF reg operates(1), of c] operates(2) that by (auto simp: world_ok_def)
  have "registry_ok rt'" using well_formed.session_op_result_ok [OF operates(1) reg] .
  then have "world_ok (rt', run)" by (rule world_okI [OF _ _ operates(2)]) (use same world_okD [OF operates(2)] in auto)
  with same show ?case by auto
next
  case (wakes now fin changed chat p rt rt' x run)
  have reg: "registry_ok rt" using wakes by (simp add: world_ok_def)
  have same: "same_chat c rt rt'" if "c \<in> set (rt_turns rt)" for c
    using wake_step [OF reg wakes(1), of c] wakes(2) that by (auto simp: world_ok_def)
  have "registry_ok rt'" using wake_step [OF reg wakes(1), of "chat @ [0]"] by simp
  then have "world_ok (rt', run)" by (rule world_okI [OF _ _ wakes(2)]) (use same world_okD [OF wakes(2)] in auto)
  with same show ?case by auto
next
  case (drains rt run b)
  then show ?case by (auto simp: world_ok_def same_chat_def turn_ok_def)
qed

lemma reachable_ok: "rtranclp (world_step env) w w' \<Longrightarrow> world_ok w \<Longrightarrow> world_ok w'"
  by (induction rule: rtranclp_induct) (auto dest: world_step_preserves)

lemma initial_ok: "states_ok (st_states (rt_store rt)) \<Longrightarrow> world_ok (rt, Map.empty)"
  by (simp add: world_ok_def)

definition keeps_running :: "'e process_env \<Rightarrow> ustr \<Rightarrow> world \<Rightarrow> world \<Rightarrow> bool" where
  "keeps_running env chat w w' \<longleftrightarrow> world_step env w w' \<and> snd w' chat \<noteq> None"

lemma running_is_kept:
  assumes "world_ok w" and "snd w chat = Some tn" and "rtranclp (keeps_running env chat) w w'"
  shows "world_ok w' \<and> snd w' chat = Some tn \<and> same_chat chat (fst w) (fst w')"
  using assms(3)
proof (induction rule: rtranclp_induct)
  case base
  then show ?case using assms(1,2) by simp
next
  case (step w1 w2)
  have move: "world_step env w1 w2" "snd w2 chat \<noteq> None" using step(2) by (simp_all add: keeps_running_def)
  note p = world_step_preserves [OF move(1)]
  have "chat \<in> set (rt_turns (fst w1))" using step(3) by (auto simp: world_ok_def)
  with p step(3) move(2) show ?case by (auto simp: same_chat_def)
qed

text \<open>A chat that is registered without a running turn.\<close>

lemma stuck_step:
  assumes "rtranclp (world_step env) w w'" and "world_ok w" and "chat \<in> set (rt_turns (fst w))" and "snd w chat = None"
  shows "chat \<in> set (rt_turns (fst w')) \<and> snd w' chat = None \<and> same_chat chat (fst w) (fst w')"
  using assms(1)
proof (induction rule: rtranclp_induct)
  case (step w1 w2)
  have "world_ok w1" using reachable_ok [OF step(1) assms(2)] .
  from world_step_preserves [OF step(2) this] step(3) show ?case by (auto simp: same_chat_def)
qed (use assms in simp)


end
