(* ===== verification/TurnFacts.thy ===== *)
theory TurnFacts
  imports TurnRuns
begin

section \<open>What a turn leaves behind\<close>

text \<open>
  Properties of whole turns: the gate is open again after a turn, except when the turn fails between its
  registration and the \<open>try\<close> that cleans up; the reserved number is the one recorded; a session the agent has
  lost is rebuilt under the same session number; the memory notice of follow-up turns.
\<close>

subsection \<open>The running turns\<close>

definition registered_chat :: "ustr \<Rightarrow> turn_exn + chat_result + turn \<Rightarrow> ustr list" where
  "registered_chat chat x = (case x of Inr (Inr tn) \<Rightarrow> [chat] | _ \<Rightarrow> [])"

lemma registered_chat_simps [simp]:
  "registered_chat chat (Inl e) = []" "registered_chat chat (Inr (Inl r)) = []" "registered_chat chat (Inr (Inr tn)) = [chat]"
  by (simp_all add: registered_chat_def)

lemma frame_turns [simp]:
  "rt_turns (put_record r rt) = rt_turns rt" "rt_turns (write_record r rt) = rt_turns rt" "rt_turns (put_active_dir chat d rt) = rt_turns rt"
  "rt_turns (put_dirs chat s rt) = rt_turns rt"
  by (simp_all add: put_record_def write_record_def put_active_dir_def put_dirs_def)

lemma number_turns: "take_number chat rt = (rt1, n) \<Longrightarrow> rt_turns rt1 = rt_turns rt"
  by (auto simp: take_number_def split: prod.splits)

lemma archive_turns [simp]: "rt_turns (archive_if env chat old rt) = rt_turns rt"
  by (simp add: archive_if_def split: option.split)

lemma register_turns:
  "register_turn None old tn rt = (rt1, x) \<Longrightarrow> rt_turns rt1 = rt_turns rt @ [ca_chat (tn_args tn)] \<and> (\<exists>n. x = Inr (Inr (tn\<lparr>tn_turn_number := n\<rparr>)))"
  by (auto simp: register_turn_def Let_def split: option.splits prod.splits)

lemma begin_new_turns:
  assumes "begin_new env now None chat msg old timed_out use1 drift names notice rt = (rt1, x)"
  shows "rt_turns rt1 = rt_turns rt @ registered_chat chat x"
proof -
  obtain rt2 n where n: "take_number chat (archive_if (te_session env) chat old rt) = (rt2, n)" by force
  show ?thesis
    using assms number_turns [OF n] by (auto simp: begin_new_def n Let_def dest!: register_turns split: sum.splits)
qed

lemma begin_follow_up_turns:
  "begin_follow_up env now None chat msg r use1 drift names notice rt = (rt1, x) \<Longrightarrow> rt_turns rt1 = rt_turns rt @ registered_chat chat x"
  by (auto simp: begin_follow_up_def Let_def dest!: register_turns split: sum.splits)

lemma begin_turns:
  assumes "begin_turn env now None chat msg model rt = (rt1, x)"
  shows "rt_turns rt1 = rt_turns rt @ registered_chat chat x"
  using assms
  by (auto simp: begin_turn_def Let_def dest!: begin_new_turns begin_follow_up_turns split: option.splits sum.splits prod.splits if_splits)

lemma turn_record_turns: "turn_record env now tn oc label rt = (rt1, r) \<Longrightarrow> rt_turns rt1 = rt_turns rt"
  by (auto simp: turn_record_def Let_def dest: number_turns split: option.splits if_splits prod.splits)

lemma finalize_turns:
  assumes "finalize_turn env now tn oc label stopped id rt = (rt1, res)"
  shows "rt_turns rt1 = rt_turns rt"
proof -
  obtain rt2 r0 where t: "turn_record env now tn oc label rt = (rt2, r0)" by force
  from finalize_turn_shape [OF t, of stopped id] assms obtain rc where
    "rt1 = rt2\<lparr>rt_recorded := rc, rt_store := put_session (final_record env now tn oc stopped r0) (rt_store rt2)\<rparr>" by (metis fst_conv id_apply)
  with turn_record_turns [OF t] show ?thesis by simp
qed

lemma finish_turns:
  assumes "finish_turn env now tn out stopped label id rt = (rt1, x)"
  shows "rt_turns rt1 = filter (\<lambda>c. c \<noteq> ca_chat (tn_args tn)) (rt_turns rt)"
  using assms by (cases out) (auto simp: finish_turn_def cleanup_turn_def dest!: finalize_turns split: prod.splits)

lemma engine_turns:
  "registry_ok rt \<Longrightarrow> turn_ok chat tn rt \<Longrightarrow> run_engine env tn e rt = (c, out) \<Longrightarrow> rt_turns (cl_rt c) = rt_turns rt"
  using run_engine_touched [of rt chat tn env e c out] by (simp add: touched_def)

lemma process_split:
  assumes "begin_turn env now None chat msg model rt = (rt1, Inr (Inr tn))" and "run_engine env tn e rt1 = (c, out)"
    and "finish_turn env fin tn out (at_stopped (cl_active c)) None id (cl_rt c) = (rt2, y)"
  shows "fst (snd (process env now fin None None own chat msg model e rt)) = rt2"
  using assms by (cases y) (auto simp: process_def)

text \<open>
  Claim C8.  A turn frees its chat, however it ends: whatever the engine, the plugins and the wake queue do (a reply, an
  early result, an exception), after \<open>process\<close> the chats with a running turn are exactly the ones before; so the
  next message of the chat is not refused because of this one.
\<close>

theorem finished_turn_frees_its_chat:
  assumes "states_ok (st_states (rt_store rt))" and "chat \<notin> set (rt_turns rt)"
    and "process env now fin None None own chat msg model e rt = (e', rt', x)"
  shows "rt_turns rt' = rt_turns rt"
proof -
  obtain rt1 y where b: "begin_turn env now None chat msg model rt = (rt1, y)" by force
  note 1 = begin_turns [OF b]
  consider (no) "registered_chat chat y = []" "rt' = rt1" | (yes) tn where "y = Inr (Inr tn)"
    using assms(3) b by (auto simp: process_def split: sum.splits)
  then show ?thesis
  proof cases
    case (yes tn)
    have t: "registry_ok rt1" "turn_ok chat tn rt1" using begin_turn_ok [OF assms(1) b] yes by simp_all
    obtain c out where r: "run_engine env tn e rt1 = (c, out)" by force
    obtain rt2 z where f: "finish_turn env fin tn out (at_stopped (cl_active c)) None id (cl_rt c) = (rt2, z)" by force
    have "rt' = rt2" using process_split [OF b [unfolded yes] r f, of own] assms(3) by simp
    with finish_turns [OF f] engine_turns [OF t r] 1 yes assms(2) t(2) show ?thesis
      by (simp add: turn_ok_def filter_id_conv) (metis)
  qed (use 1 in simp)
qed


subsection \<open>Turn numbers\<close>

text \<open>The object the turn began with is registered and carries the number reserved for the turn.\<close>

definition reserved_ok :: "turn \<Rightarrow> runtime \<Rightarrow> bool" where
  "reserved_ok tn rt \<longleftrightarrow>
     (case ca_old (tn_args tn) of None \<Rightarrow> True
      | Some r \<Rightarrow> turn_floor r < tn_turn_number tn
          \<and> (\<exists>y. registered (key_of (Some r)) rt = Some y \<and> sr_pending_turn_number y = Some (tn_turn_number tn)))"

lemma registered_frame [simp]:
  "registered key (rt\<lparr>rt_turns := ts\<rparr>) = registered key rt" "registered key (write_record r rt) = registered key rt"
  by (simp_all add: registered_def split: option.split)

lemma register_reserves:
  assumes "register_turn None old tn rt = (rt1, Inr (Inr tn1))" and "ca_old (tn_args tn) = old"
  shows "reserved_ok tn1 rt1"
proof (cases old)
  case None
  with assms show ?thesis by (auto simp: register_turn_def Let_def reserved_ok_def)
next
  case (Some r)
  obtain r' n where r': "reserve_turn_number r = (r', n)" by force
  have p: "sr_pending_turn_number r' = Some n" "turn_floor r < n" "key_of (Some r') = key_of (Some r)"
    using r' reserve_floor [OF r'] by (auto simp: reserve_turn_number_def Let_def)
  have s: "registered (key_of (Some r)) (put_record r' rt2) = Some r'" for rt2
    by (rule registered_set [OF p(3), of _ rt2]) (simp add: put_record_def)
  have "rt1 = write_record r' (put_record r' (rt\<lparr>rt_turns := rt_turns rt @ [ca_chat (tn_args tn)]\<rparr>))" "tn1 = tn\<lparr>tn_turn_number := n\<rparr>"
    using assms(1) by (simp_all add: register_turn_def Some r' Let_def)
  then show ?thesis using p(1,2) s assms(2) Some by (simp add: reserved_ok_def del: key_of_simps)
qed

lemma begin_new_reserves:
  assumes "begin_new env now None chat msg old timed_out use1 drift names notice rt = (rt1, Inr (Inr tn))"
  shows "reserved_ok tn rt1"
proof -
  obtain rt2 n where n: "take_number chat (archive_if (te_session env) chat old rt) = (rt2, n)" by force
  define rt3 where "rt3 = put_active_dir chat (se_sync_skills (te_session env) names (active_dir chat rt2)) rt2"
  have "\<exists>t. register_turn None old t rt3 = (rt1, Inr (Inr tn)) \<and> ca_old (tn_args t) = old"
    by (insert assms, simp add: begin_new_def n Let_def rt3_def [symmetric] split: sum.splits, rule exI, rule conjI, assumption, simp)
  then show ?thesis using register_reserves by blast
qed

lemma begin_follow_up_reserves:
  assumes "begin_follow_up env now None chat msg r use1 drift names notice rt = (rt1, Inr (Inr tn))"
  shows "reserved_ok tn rt1"
proof -
  define rt2 where "rt2 = put_active_dir chat (pe_refresh_skills env names (active_dir chat rt)) rt"
  have "\<exists>t. register_turn None (Some r) t rt2 = (rt1, Inr (Inr tn)) \<and> ca_old (tn_args t) = Some r"
    by (insert assms, simp add: begin_follow_up_def Let_def rt2_def [symmetric] split: sum.splits, rule exI, rule conjI, assumption, simp)
  then show ?thesis using register_reserves by force
qed

lemma begin_reserves: "begin_turn env now None chat msg model rt = (rt1, Inr (Inr tn)) \<Longrightarrow> reserved_ok tn rt1"
  by (auto simp: begin_turn_def Let_def intro: begin_new_reserves begin_follow_up_reserves split: option.splits sum.splits prod.splits if_splits)

lemma same_reserved: "same_chat chat rt rt' \<Longrightarrow> turn_ok chat tn rt \<Longrightarrow> reserved_ok tn rt \<Longrightarrow> reserved_ok tn rt'"
  by (auto simp: same_chat_def turn_ok_def reserved_ok_def registered_def split: option.splits)

lemma touched_reserved: "touched chat (key_of (ca_old (tn_args tn))) rt rt1 \<Longrightarrow> reserved_ok tn rt \<Longrightarrow> reserved_ok tn rt1"
  using registered_set [of _ "key_of (ca_old (tn_args tn))" rt1 rt]
  by (auto simp: touched_def reserved_ok_def version_of_def numbers_def simp del: key_of_simps split: option.splits)
     (auto simp: registered_def)

lemma reserved_object: "reserved_ok tn rt \<Longrightarrow> object_of (ca_old (tn_args tn)) rt = Some y \<Longrightarrow> sr_pending_turn_number y = Some (tn_turn_number tn)"
  by (auto simp: reserved_ok_def object_of_def registered_def split: option.splits)

lemma pending_updates:
  "sr_pending_turn_number (r\<lparr>sr_disabled_mcp_servers := a, sr_plugin_overrides := b\<rparr>) = sr_pending_turn_number r"
  "sr_pending_turn_number (r\<lparr>sr_pending_turn_number := p, sr_enabled_mcp_servers := m, sr_enabled_skills := k\<rparr>) = p"
  by simp_all

lemma turn_record_pending:
  assumes "reserved_ok tn rt" and "turn_record env now tn oc label rt = (rt1, r)"
  shows "sr_pending_turn_number r = Some (tn_turn_number tn)"
proof (cases "if oc_is_new oc \<or> ca_force_new (tn_args tn) then None else object_of (ca_old (tn_args tn)) rt")
  case (Some y)
  then have "sr_pending_turn_number y = Some (tn_turn_number tn)" using reserved_object [OF assms(1), of y] by (simp split: if_splits)
  moreover have "sr_pending_turn_number r = sr_pending_turn_number y" using assms(2) Some by (auto simp: turn_record_def Let_def)
  ultimately show ?thesis by simp
next
  case None
  obtain rt2 n where n: "(if oc_is_new oc then (rt, tn_session_number tn) else take_number (ca_chat (tn_args tn)) rt) = (rt2, n)" by force
  have "sr_pending_turn_number (snd (turn_record env now tn oc label rt)) = Some (tn_turn_number tn)"
    unfolding turn_record_def Let_def None n option.case prod.case snd_conv
    by (cases "object_of (ca_old (tn_args tn)) rt") (simp_all only: option.case pending_updates)
  then show ?thesis using assms(2) by simp
qed

definition keeps_number :: "'e process_env \<Rightarrow> bool" where
  "keeps_number env \<longleftrightarrow> (\<forall>r xc. xc_turn_number (pe_before_record env r xc) = xc_turn_number xc)"

lemma final_number:
  assumes "keeps_number env" and "sr_pending_turn_number r = Some n"
  shows "sr_turn_number (final_record env now tn oc stopped r) = n \<and> sr_pending_turn_number (final_record env now tn oc stopped r) = None"
proof -
  have c: "counted_record env now (oc_result oc) stopped r = (r\<lparr>sr_turn_number := n, sr_pending_turn_number := None\<rparr>)\<lparr>sr_updated_at := now,
      sr_cumulative_metrics := Some (pe_cumulative env), sr_last_stop_reason := Some (stop_reason_of stopped (oc_result oc))\<rparr>"
    by (simp add: counted_record_def consume_turn_number_def assms(2))
  define r1 where "r1 = counted_record env now (oc_result oc) stopped r"
  define m where "m = marked_record env tn oc (hooked_turn env tn oc r1) r1"
  have "sr_turn_number m = n" "sr_pending_turn_number m = None"
    using assms(1) by (simp_all add: m_def r1_def c marked_record_def hooked_turn_def keeps_number_def Let_def)
  moreover have "final_record env now tn oc stopped r = fst (check_chat_memory_transition (te_session env) m)"
    by (simp only: final_record_def Let_def r1_def m_def)
  moreover obtain x t where t: "check_chat_memory_transition (te_session env) m = (x, t)" by force
  ultimately show ?thesis using transition_same [OF t] by simp
qed

lemma finalize_turn_result:
  assumes "turn_record env now tn oc label rt = (rt1, r0)"
  shows "cr_session_number (snd (finalize_turn env now tn oc label stopped after rt)) = Some (sr_session_number (final_record env now tn oc stopped r0))
    \<and> cr_turn_number (snd (finalize_turn env now tn oc label stopped after rt)) = Some (sr_turn_number (final_record env now tn oc stopped r0))
    \<and> cr_session_id (snd (finalize_turn env now tn oc label stopped after rt)) = nonempty_id (Some (sr_session_id (final_record env now tn oc stopped r0)))"
  by (simp add: finalize_turn_def assms final_record_def Let_def case_prod_unfold)

lemma finished_record:
  assumes "registry_ok rt" and "turn_ok chat tn rt" and "reserved_ok tn rt" and "keeps_number env"
    and "finish_turn env fin tn (Done oc) stopped label id rt = (rt2, Inr res)"
  shows "\<exists>x m. cr_session_number res = Some m \<and> cr_turn_number res = Some (tn_turn_number tn)
    \<and> dget m (sessions_of chat (st_states (rt_store rt2))) = Some x \<and> sr_turn_number x = tn_turn_number tn \<and> sr_pending_turn_number x = None"
proof -
  obtain rt1 r0 where t: "turn_record env fin tn oc label rt = (rt1, r0)" by force
  have chat: "ca_chat (tn_args tn) = chat" using assms(2) by (simp add: turn_ok_def)
  have obj: "sr_chat_id r = chat \<and> sr_session_number r < next_at chat rt" if "object_of (ca_old (tn_args tn)) rt = Some r" for r
    using object_key [OF turn_key [OF assms(2,1)] refl] that by (intro turn_ok_key [OF assms(2)]) simp
  have id0: "sr_chat_id r0 = chat" using turn_record_elsewhere [OF elsewhere_refl chat _ t] obj by blast
  let ?x = "final_record env fin tn oc stopped r0"
  have n: "sr_turn_number ?x = tn_turn_number tn" "sr_pending_turn_number ?x = None"
    using final_number [OF assms(4) turn_record_pending [OF assms(3) t]] by blast+
  have k: "sr_chat_id ?x = chat" using final_record_key [of env fin tn oc stopped r0] id0 by simp
  obtain rc where f: "fst (finalize_turn env fin tn oc label stopped id rt) = rt1\<lparr>rt_recorded := rc, rt_store := put_session ?x (rt_store rt1)\<rparr>"
    using finalize_turn_shape [OF t, of stopped id] by (metis id_apply)
  have r: "rt2 = cleanup_turn chat (fst (finalize_turn env fin tn oc label stopped id rt))" "res = snd (finalize_turn env fin tn oc label stopped id rt)"
    using assms(5) chat by (auto simp: finish_turn_def split: prod.splits)
  have "dget (sr_session_number ?x) (sessions_of chat (st_states (rt_store rt2))) = Some ?x"
    using k by (simp add: r(1) f cleanup_turn_def put_session_states)
  with n finalize_turn_result [OF t, of stopped id] r(2) show ?thesis by auto
qed


subsection \<open>A session the agent has lost\<close>

definition lost :: "'e turn_env \<Rightarrow> engine_exn \<Rightarrow> bool" where
  "lost env x \<longleftrightarrow> is_transport_error x \<or> is_stale_session_error (te_lower env) x"

lemma lost_caught: "lost env x \<Longrightarrow> caught x"
  by (cases x) (simp_all add: lost_def)

text \<open>
  An agent that knows none of its sessions any more: prompts and resumes of a session fail as stale or for the
  transport, the probe finds it dead, a restart works and a prompt without a session is answered.
\<close>

definition forgetful :: "'e turn_env \<Rightarrow> prompt_result \<Rightarrow> bool" where
  "forgetful env res \<longleftrightarrow>
     (\<forall>rq e. rq_session rq \<noteq> None \<longrightarrow> (\<exists>e' cs x. eo_prompt (te_engine env) rq e = (e', cs, Inl x) \<and> lost env x))
     \<and> (\<forall>rq e. rq_session rq = None \<longrightarrow> (\<exists>e' cs. eo_prompt (te_engine env) rq e = (e', cs, Inr res)))
     \<and> (\<forall>s m v e. \<exists>e' x. eo_resume (te_engine env) s m v e = (e', Inl x) \<and> lost env x)
     \<and> (\<forall>s e. \<exists>e' x. eo_alive (te_engine env) s e = (e', x) \<and> x \<noteq> Inr True)
     \<and> (\<forall>s e. \<exists>e'. eo_restart (te_engine env) s e = (e', None))
     \<and> te_before_call env = Inr"

lemma forgetfulD:
  assumes "forgetful env res"
  shows "rq_session rq \<noteq> None \<Longrightarrow> \<exists>e' cs x. eo_prompt (te_engine env) rq e = (e', cs, Inl x) \<and> lost env x"
    and "rq_session rq = None \<Longrightarrow> \<exists>e' cs. eo_prompt (te_engine env) rq e = (e', cs, Inr res)"
  using assms unfolding forgetful_def by blast+

lemma forgetful_old: "forgetful env res \<Longrightarrow> rq_session rq \<noteq> None \<Longrightarrow> \<exists>c1 x. prompt_engine env rq c = (c1, Inl x) \<and> lost env x"
  using forgetfulD(1) [of env res rq "cl_engine c"] by (auto simp: prompt_engine_def)

lemma forgetful_new: "forgetful env res \<Longrightarrow> rq_session rq = None \<Longrightarrow> \<exists>c1. prompt_engine env rq c = (c1, Inr res)"
  using forgetfulD(2) [of env res rq "cl_engine c"] by (auto simp: prompt_engine_def)

lemma forgetful_resume: "forgetful env res \<Longrightarrow> \<exists>e' x. eo_resume (te_engine env) s m v e = (e', Inl x) \<and> lost env x"
  unfolding forgetful_def by blast

lemma forgetful_alive: "forgetful env res \<Longrightarrow> \<exists>e' x. eo_alive (te_engine env) s e = (e', x) \<and> x \<noteq> Inr True"
  unfolding forgetful_def by blast

lemma forgetful_restart:
  assumes forgets: "forgetful env res"
  shows "\<exists>c1. restart_engine env lg c = (c1, True)"
proof -
  obtain e' where "eo_restart (te_engine env) lg (cl_engine c) = (e', None)" using forgets unfolding forgetful_def by blast
  then show ?thesis by (simp add: restart_engine_def)
qed

lemma forgetful_call: "forgetful env res \<Longrightarrow> te_before_call env rq = Inr rq"
  by (simp add: forgetful_def)

lemma reopened:
  assumes forgets: "forgetful env res" and sid: "pr_session_id res = Some sid"
  shows "\<exists>c1. open_attempts env chat old lg pctx model n c = (c1, Done (res, Some sid, pctx))"
proof -
  define d where "d = (rt_dirs (cl_rt c) chat)\<lparr>sd_active := Some (se_sync_skills (te_session env) (skill_names (te_session env) chat (cl_rt c))
      (case sd_active (rt_dirs (cl_rt c) chat) of None \<Rightarrow> [] | Some a \<Rightarrow> a))\<rparr>"
  define rq where "rq = \<lparr>rq_prompt = pc_prompt pctx, rq_model = model,
      rq_servers = Some (active_mcp_servers (se_tools (te_session env)) (se_chat_dir (te_session env)) chat (rt_store (cl_rt c))), rq_session = None\<rparr>"
  obtain c1 where "prompt_engine env rq (c\<lparr>cl_rt := put_dirs chat d (cl_rt c)\<rparr>) = (c1, Inr res)" using forgetful_new [OF forgets, of rq] by (auto simp: rq_def)
  then have "open_session env chat (pc_prompt pctx) model c = (c1, Inr res)"
    by (simp add: open_session_def Let_def d_def [symmetric] rq_def [symmetric] sid)
  then show ?thesis using sid by (cases n) (simp_all add: open_attempts.simps [of env chat old lg pctx model])
qed

lemma not_resumed:
  assumes forgets: "forgetful env res"
  shows "\<exists>c1. resume_and_prompt env chat msg r model c = (c1, Inl False)"
proof -
  obtain e x where "eo_resume (te_engine env) (sr_session_id r) model
      (active_mcp_servers (se_tools (te_session env)) (se_chat_dir (te_session env)) chat (rt_store (cl_rt c))) (cl_engine c) = (e, Inl x)" "lost env x"
    using forgetful_resume [OF forgets] by blast
  then show ?thesis using lost_caught [of env x] by (simp add: resume_and_prompt_def)
qed

lemma not_alive:
  assumes forgets: "forgetful env res"
  shows "\<exists>c1. probe_and_prompt env chat msg r model c = (c1, None)"
proof -
  obtain e x where "eo_alive (te_engine env) (sr_session_id r) (cl_engine c) = (e, x)" "x \<noteq> Inr True" using forgetful_alive [OF forgets] by blast
  then show ?thesis by (cases x) (auto simp: probe_and_prompt_def split: bool.split)
qed

lemma rehydrated:
  assumes forgets: "forgetful env res" and sid: "pr_session_id res = Some sid"
  shows "\<exists>c1 pctx. rehydrate env chat msg (Some r0) model rf lg allow c = (c1, Done (res, Some sid, pctx))"
proof -
  obtain c2 where 2: "(if rf then restart_engine env lg c else (c, True)) = (c2, True)" using forgetful_restart [OF forgets, of lg c] by (cases rf) auto
  obtain r where r: "object_of (Some r0) (cl_rt c2) = Some r"
    by (cases "dget (sr_session_number r0) (sessions_of (sr_chat_id r0) (st_states (rt_store (cl_rt c2))))") (simp_all add: object_of_def)
  let ?can = "allow \<and> can_resume_record r (skill_names (te_session env) chat (cl_rt c2))"
  obtain c3 where 3: "(if se_resume_enabled (te_session env) \<and> ?can then resume_and_prompt env chat msg r model c2 else (c2, Inl False)) = (c3, Inl False)"
    using not_resumed [OF forgets, of chat msg r model c2] by (cases "se_resume_enabled (te_session env) \<and> ?can") auto
  obtain c4 where 4: "(if ?can \<and> \<not> False then probe_and_prompt env chat msg r model c3 else (c3, None)) = (c4, None)"
    using not_alive [OF forgets, of chat msg r model c3] by (cases ?can) auto
  show ?thesis using reopened [OF forgets sid]
    by (simp add: rehydrate_def 2 r 3 4 [simplified] Let_def rebuild_session_def) blast
qed

lemma or_id_some: "b \<noteq> None \<Longrightarrow> or_id a b \<noteq> None"
  by (simp add: or_id_def split: option.split)

lemma first_lost:
  assumes forgets: "forgetful env res" and "\<not> boundary a" and "recorded_id (ca_old a) \<noteq> None"
  shows "\<exists>c1 f x. first_call env a c = (c1, f, Inl x) \<and> lost env x"
proof -
  define rq where "rq = first_request env a (cl_rt c)"
  have s: "rq_session rq \<noteq> None" using assms by (simp add: rq_def first_request_def)
  obtain c1 f y where r: "resync env a rq c = (c1, f, y)" by (cases "resync env a rq c") auto
  show ?thesis
  proof (cases y)
    case (Inl x)
    obtain old where old: "recorded_id (ca_old a) = Some old" using assms(3) by blast
    obtain e z where e: "eo_resume (te_engine env) old (ca_model a)
        (active_mcp_servers (se_tools (te_session env)) (se_chat_dir (te_session env)) (ca_chat a) (rt_store (cl_rt c))) (cl_engine c) = (e, Inl z)" "lost env z"
      using forgetful_resume [OF forgets] by blast
    have "x = z \<or> (\<exists>t. x = Stale_exn t)" using r Inl old e(1) by (auto simp: resync_def split: if_splits)
    then have "lost env x" using e(2) by (auto simp: lost_def)
    with r Inl assms(2) show ?thesis by (simp add: first_call_def forgetful_call [OF forgets] rq_def [symmetric])
  next
    case (Inr sid)
    obtain c2 x where "prompt_engine env (rq\<lparr>rq_session := or_id (rq_session rq) (or_id sid (recorded_id (ca_old a)))\<rparr>) c1 = (c2, Inl x)" "lost env x"
      using forgetful_old [OF forgets, of "rq\<lparr>rq_session := or_id (rq_session rq) (or_id sid (recorded_id (ca_old a)))\<rparr>" c1] or_id_some assms(3)
      by force
    with r Inr assms(2) show ?thesis by (auto simp: first_call_def forgetful_call [OF forgets] rq_def [symmetric])
  qed
qed

lemma call_rebuilds:
  assumes forgets: "forgetful env res" and "\<not> boundary a" and "ca_old a = Some r0" and "recorded_id (ca_old a) \<noteq> None" and "pr_session_id res = Some sid"
    and "Some sid \<noteq> recorded_id (ca_old a)" and "pr_reply res \<noteq> []"
  shows "\<exists>c1 oc. call_engine env a pe ce c = (c1, Done oc) \<and> oc_result oc = res \<and> oc_session_id oc = Some sid \<and> oc_is_new oc"
proof -
  obtain c1 f x where f: "first_call env a c = (c1, f, Inl x)" and x: "lost env x" using first_lost [OF forgets assms(2,4)] by blast
  have "\<exists>c2 oc. after_rehydrate a (ca_model a) None (rehydrate env (ca_chat a) (ca_message a) (ca_old a) (ca_model a) rf lg allow c1) = (c2, Done oc)
      \<and> oc_result oc = res \<and> oc_session_id oc = Some sid \<and> oc_is_new oc" for rf lg allow
  proof -
    obtain c2 pctx where "rehydrate env (ca_chat a) (ca_message a) (ca_old a) (ca_model a) rf lg allow c1 = (c2, Done (res, Some sid, pctx))"
      using rehydrated [OF forgets assms(5)] assms(3) by metis
    then show ?thesis using assms(6) by (simp add: after_rehydrate_def settled_def Let_def)
  qed
  then have "\<exists>c2 oc. recover env a f x c1 = (c2, Done oc) \<and> oc_result oc = res \<and> oc_session_id oc = Some sid \<and> oc_is_new oc"
    using x lost_caught [OF x] by (auto simp: recover_def Let_def lost_def)
  then show ?thesis using assms(7) by (auto simp: call_engine_def f retry_empty_def)
qed


lemma fresh_record:
  assumes "oc_is_new oc" and "turn_record env now tn oc label rt = (rt1, r)"
  shows "sr_session_number r = tn_session_number tn \<and> sr_session_id r = (case oc_session_id oc of None \<Rightarrow> [] | Some s \<Rightarrow> s)"
proof -
  have n: "(if oc_is_new oc then (rt, tn_session_number tn) else take_number (ca_chat (tn_args tn)) rt) = (rt, tn_session_number tn)" using assms(1) by simp
  have none: "(if oc_is_new oc \<or> ca_force_new (tn_args tn) then None else object_of (ca_old (tn_args tn)) rt) = None" using assms(1) by simp
  have "sr_session_number (snd (turn_record env now tn oc label rt)) = tn_session_number tn
      \<and> sr_session_id (snd (turn_record env now tn oc label rt)) = (case oc_session_id oc of None \<Rightarrow> [] | Some s \<Rightarrow> s)"
    unfolding turn_record_def Let_def none n option.case prod.case snd_conv
    by (cases "object_of (ca_old (tn_args tn)) rt") (simp_all add: create_record_def)
  then show ?thesis using assms(2) by simp
qed

lemma final_session:
  "sr_session_number (final_record env now tn oc stopped r) = sr_session_number r \<and> sr_session_id (final_record env now tn oc stopped r) = sr_session_id r"
proof -
  define r1 where "r1 = counted_record env now (oc_result oc) stopped r"
  define m where "m = marked_record env tn oc (hooked_turn env tn oc r1) r1"
  have "sr_session_number m = sr_session_number r" "sr_session_id m = sr_session_id r"
    using consume_same [of r] by (simp_all add: m_def r1_def counted_record_def marked_record_def Let_def)
  moreover obtain x t where t: "check_chat_memory_transition (te_session env) m = (x, t)" by force
  moreover have "final_record env now tn oc stopped r = fst (check_chat_memory_transition (te_session env) m)"
    by (simp only: final_record_def Let_def r1_def m_def)
  ultimately show ?thesis using transition_same [OF t] by simp
qed


subsection \<open>The memory notice\<close>

lemma join_contains:
  assumes "y \<noteq> []"
  shows "\<exists>pre post. join_notices [a, Some (p @ y @ q), c] = Some (pre @ y @ post)"
proof -
  have "join_notices [a, Some z, c] = Some ((case nonempty_id a of None \<Rightarrow> [] | Some x \<Rightarrow> x @ [10, 10]) @ z
      @ (case nonempty_id c of None \<Rightarrow> [] | Some x \<Rightarrow> [10, 10] @ x))" if "z \<noteq> []" for z
    using that by (cases a; cases c) (auto simp: join_notices_def List.map_filter_def nonempty_id_def)
  from this [of "p @ y @ q"] assms obtain pre post where "join_notices [a, Some (p @ y @ q), c] = Some (pre @ (p @ y @ q) @ post)" by auto
  then have "join_notices [a, Some (p @ y @ q), c] = Some ((pre @ p) @ y @ (q @ post))" by simp
  then show ?thesis by blast
qed

lemma join_second: "y \<noteq> [] \<Longrightarrow> \<exists>p. join_notices [a, Some y] = Some (p @ y)"
  by (cases a) (auto simp: join_notices_def List.map_filter_def)

lemma follow_up_flags:
  assumes "begin_follow_up env now io chat msg r use1 drift names notice rt = (rt1, Inr (Inr tn))"
  shows "\<not> tn_chat_exceeded tn \<and> \<not> ca_is_new (tn_args tn)"
proof -
  define rt2 where "rt2 = put_active_dir chat (pe_refresh_skills env names (active_dir chat rt)) rt"
  have "\<exists>t. register_turn io (Some r) t rt2 = (rt1, Inr (Inr tn)) \<and> \<not> tn_chat_exceeded t \<and> \<not> ca_is_new (tn_args t)"
    by (insert assms, simp add: begin_follow_up_def Let_def rt2_def [symmetric] split: sum.splits, rule exI, rule conjI, assumption, simp)
  moreover obtain r' n where "reserve_turn_number r = (r', n)" by force
  ultimately show ?thesis by (auto simp: register_turn_def Let_def split: option.splits)
qed

text \<open>
  The notice that the memory has \<^emph>\<open>just\<close> outgrown its budget comes with every follow-up turn: when the file is
  over the cap and no plugin interferes, a follow-up turn whose engine call settled with the flags it was given puts the
  notice into its result, whatever the record said before (also when the notice was shown by the turn before); the
  reason is that a follow-up turn takes no memory flags from its prompt, so recording it first clears the flag that the
  check then finds changed.
\<close>

theorem memory_notice_repeats:
  assumes "begin_follow_up env now io chat msg r use1 drift names notice rt = (rt1, Inr (Inr tn))"
    and "oc_chat_exceeded oc = tn_chat_exceeded tn" and "pe_before_record env = (\<lambda>_ xc. xc)"
    and "se_memory_cap (te_session env) \<noteq> 0" and "\<And>c. se_memory_file (te_session env) c = Some (path, len)"
    and "int len > se_memory_cap (te_session env)" and "se_transition (te_session env) = (\<lambda>_ _. (False, None))"
  shows "\<exists>pre post. cr_notice (snd (finalize_turn env fin tn oc label stopped after rt2))
    = Some (pre @ SessionOps.exceeded_notice path len (se_memory_cap (te_session env)) @ post)"
proof -
  obtain rt3 r0 where t: "turn_record env fin tn oc label rt2 = (rt3, r0)" by force
  let ?n = "SessionOps.exceeded_notice path len (se_memory_cap (te_session env))"
  have n: "?n \<noteq> []" by (simp add: SessionOps.exceeded_notice_def u_def)
  define r1 where "r1 = counted_record env fin (oc_result oc) stopped r0"
  define xc where "xc = hooked_turn env tn oc r1"
  define m where "m = marked_record env tn oc xc r1"
  obtain tnote part where p: "notice_parts env oc xc = (tnote, part)" by force
  have "\<not> sr_chat_memory_exceeded m"
    using follow_up_flags [OF assms(1)] assms(2,3) by (simp add: m_def marked_record_def xc_def hooked_turn_def Let_def)
  then have c: "check_chat_memory_transition (te_session env) m = (m\<lparr>sr_chat_memory_exceeded := True\<rparr>, Some ?n)"
    using assms(4-7) by (simp add: check_chat_memory_transition_def Let_def)
  obtain a where a: "join_notices [tnote, Some ?n] = Some (a @ ?n)" using join_second [OF n] by blast
  have "cr_notice (snd (finalize_turn env fin tn oc label stopped after rt2)) = join_notices [tn_budget_notice tn, Some (a @ ?n @ []), part]"
    using n by (simp add: finalize_turn_def t Let_def r1_def [symmetric] xc_def [symmetric] m_def [symmetric] p c a nonempty_id_def)
  with join_contains [OF n] show ?thesis by metis
qed

end
