(* ===== verification/SessionFailures.thy ===== *)
theory SessionFailures
  imports SessionRuns
begin

section \<open>Session operations that fail in the middle\<close>

text \<open>
  What an operation of \<open>SessionOps\<close> leaves behind when the engine call in it raises: the directories of the sessions
  have been moved by then, the registry has not.
\<close>

subsection \<open>A new session\<close>

definition refuses :: "session_env \<Rightarrow> py_exn \<Rightarrow> bool" where
  "refuses env e \<longleftrightarrow> (\<forall>c. se_before_start env c = Inr c) \<and> (\<forall>p m sv. se_start env p m sv = Inl e)"

text \<open>Whatever happens in a fresh session, its directory is the cleared one, with the skills synchronised or not.\<close>

lemma fresh_session_dirs:
  assumes "kind \<noteq> u ''switch_model''"
  shows "\<exists>g. (g = id \<or> (\<exists>ns. g = se_sync_skills env ns))
    \<and> rt_dirs (fst (start_fresh_session env now fin chat desired kind label sys opening old True ov rt)) chat =
        (let d = clear_active_session (se_durable env) (dirs_archived env chat rt) in d\<lparr>sd_active := Some (g (the (sd_active d)))\<rparr>)"
proof -
  let ?r = "active_record chat (rt_store rt)"
  let ?rt1 = "archive_if env chat ?r rt"
  let ?rt2 = "put_dirs chat (clear_active_session (se_durable env) (rt_dirs ?rt1 chat)) ?rt1"
  obtain rt3 n where n: "take_number chat ?rt2 = (rt3, n)" by force
  have d3: "rt_dirs rt3 chat = clear_active_session (se_durable env) (dirs_archived env chat rt)"
    using take_number_frame [OF n] by (simp add: archive_if_dirs)
  have act: "sd_active (clear_active_session (se_durable env) s) = Some (the (sd_active (clear_active_session (se_durable env) s)))" for s
    by (simp add: clear_active_session_def)
  have after: "\<exists>ns. rt_dirs rt4 chat = (rt_dirs rt3 chat)\<lparr>sd_active := Some (se_sync_skills env ns (the (sd_active (rt_dirs rt3 chat))))\<rparr>"
    if "start_new_session env chat p m sv names rt3 = (rt4, x)" for p m sv names rt4 x
  proof -
    have "(case sd_active (rt_dirs rt3 chat) of None \<Rightarrow> [] | Some a \<Rightarrow> a) = the (sd_active (rt_dirs rt3 chat))"
      unfolding d3 by (simp add: clear_active_session_def)
    with start_frame [OF that] show ?thesis by auto
  qed
  have id: "clear_active_session (se_durable env) s =
      (let d = clear_active_session (se_durable env) s in d\<lparr>sd_active := Some (id (the (sd_active d)))\<rparr>)" for s
    by (simp add: clear_active_session_def Let_def)
  show ?thesis
  proof (cases "se_before_start env \<lparr>sc_chat = chat, sc_kind = kind, sc_user_message = ACTIVATION,
      sc_model = Some (if desired = [] then current_model env ?r else desired), sc_session_number = n, sc_old_model = old,
      sc_skill_names = Some (skill_names env chat rt3), sc_mcp_servers = Some (active_mcp_servers (se_tools env) (se_chat_dir env) chat (rt_store rt3))\<rparr>")
    case (Inl res)
    then have "rt_dirs (fst (start_fresh_session env now fin chat desired kind label sys opening old True ov rt)) chat =
        clear_active_session (se_durable env) (dirs_archived env chat rt)"
      using assms d3 by (simp add: start_fresh_session_def n Let_def)
    then show ?thesis using id by metis
  next
    case (Inr ctx)
    let ?use1 = "opt_or (sc_model ctx) (if desired = [] then current_model env ?r else desired)"
    let ?pctx = "se_build_first env rt3 chat (sc_user_message ctx) ?r ?use1 (sc_skill_names ctx)"
    obtain rt4 x where st4: "start_new_session env chat (pc_prompt ?pctx) (opt_or (pc_model ?pctx) ?use1)
        (servers_or_active env chat rt3 (sc_mcp_servers ctx)) (skills_or (sc_skill_names ctx) (skill_names env chat rt3)) rt3 = (rt4, x)" by force
    have "rt_dirs (fst (start_fresh_session env now fin chat desired kind label sys opening old True ov rt)) = rt_dirs rt4"
      using assms Inr st4 by (simp add: start_fresh_session_def n Let_def split: sum.split prod.split)
    with after [OF st4] d3 show ?thesis by (auto simp: Let_def)
  qed
qed

lemma new_session_dirs:
  assumes "\<not> chat_busy chat rt"
  shows "\<exists>g. (g = id \<or> (\<exists>ns. g = se_sync_skills env ns))
    \<and> rt_dirs (fst (new_session env fresh now fin chat m q rt)) chat =
        (let d = clear_active_session (se_durable env) (dirs_archived env chat rt) in d\<lparr>sd_active := Some (g (the (sd_active d)))\<rparr>)"
proof -
  have ne: "u ''new'' \<noteq> u ''switch_model''" by simp
  show ?thesis unfolding idle_new_session [OF assms] hold_frame(3) [OF assms]
    using fresh_session_dirs [OF ne, of env now fin chat _ _ _ _ _ _ "held chat rt"] unfolding dirs_archived_held by blast
qed

lemma refused_start:
  "refuses env e \<Longrightarrow> start_new_session env chat p mo sv names rt = (rt4, y) \<Longrightarrow> rt_store rt4 = rt_store rt \<and> rt_turns rt4 = rt_turns rt \<and> y = Inl e"
  using start_frame [of env chat p mo sv names rt rt4 y] by (auto simp: start_new_session_def refuses_def Let_def)

lemma refused_fresh_session:
  assumes "rt_ok rt" and "refuses env e" and "kind \<noteq> u ''switch_model''"
  shows "snd (start_fresh_session env now fin chat desired kind label sys opn old True ov rt) = Inl e
    \<and> (\<forall>c. sessions_of c (st_states (rt_store (fst (start_fresh_session env now fin chat desired kind label sys opn old True ov rt))))
          = sessions_of c (st_states (rt_store rt)))
    \<and> rt_turns (fst (start_fresh_session env now fin chat desired kind label sys opn old True ov rt)) = rt_turns rt"
proof -
  let ?r = "active_record chat (rt_store rt)"
  let ?rt1 = "archive_if env chat ?r rt"
  let ?rt2 = "put_dirs chat (clear_active_session (se_durable env) (rt_dirs ?rt1 chat)) ?rt1"
  obtain rt3 n where n: "take_number chat ?rt2 = (rt3, n)" by force
  have "rt_ok ?rt2" using assms(1) by simp
  then have f3: "\<forall>c. sessions_of c (st_states (rt_store rt3)) = sessions_of c (st_states (rt_store rt))" "rt_turns rt3 = rt_turns rt"
    using take_number_frame [OF n] by simp_all
  have hook: "se_before_start env c = Inr c" for c using assms(2) by (simp add: refuses_def)
  have "\<exists>rt4. start_new_session env chat p mo sv names rt3 = (rt4, Inl e) \<and> rt_store rt4 = rt_store rt3 \<and> rt_turns rt4 = rt_turns rt3"
    for p mo sv names
    using refused_start [OF assms(2)] by (cases "start_new_session env chat p mo sv names rt3") auto
  then obtain rt4 where "\<And>p mo sv names. start_new_session env chat p mo sv names rt3 = (rt4 p mo sv names, Inl e)
      \<and> rt_store (rt4 p mo sv names) = rt_store rt3 \<and> rt_turns (rt4 p mo sv names) = rt_turns rt3"
    by metis
  then show ?thesis using f3 assms(3) by (simp add: start_fresh_session_def n hook Let_def)
qed

lemma refused_new_session:
  assumes "rt_ok rt" and "\<not> chat_busy chat rt" and "refuses env e"
  shows "snd (new_session env fresh now fin chat m q rt) = Inl e
    \<and> (\<forall>c. sessions_of c (st_states (rt_store (fst (new_session env fresh now fin chat m q rt)))) = sessions_of c (st_states (rt_store rt)))
    \<and> \<not> chat_busy chat (fst (new_session env fresh now fin chat m q rt))"
proof -
  have h: "rt_ok (held chat rt)" and ne: "u ''new'' \<noteq> u ''switch_model''" using assms(1) by simp_all
  note b = refused_fresh_session [OF h assms(3) ne, of now fin chat "opt_or m (current_model env (active_record chat (rt_store (held chat rt))))"
      "u ''new session''" "u ''new session started''" "u ''New session started.''" None
      "Option.bind (active_record chat (rt_store (held chat rt))) sr_plugin_overrides"]
  show ?thesis unfolding idle_new_session [OF assms(2)] chat_busy_def hold_frame(1,2,5) [OF assms(2)]
    using b assms(2) hold_frame(6) [OF assms(2)] by (simp add: chat_busy_def)
qed

definition own_file :: "session_env \<Rightarrow> ustr \<Rightarrow> bool" where
  "own_file env f \<longleftrightarrow> f \<notin> set (se_durable env) \<and> f \<noteq> u ''.snapshots'' \<and> \<not> lock_file f"

text \<open>Synchronising the skills touches files of its own only.\<close>

definition syncs_aside :: "session_env \<Rightarrow> ustr \<Rightarrow> bool" where
  "syncs_aside env f \<longleftrightarrow> (\<forall>ns d. dget f (se_sync_skills env ns d) = dget f d \<and> (dict_ok d \<longrightarrow> dict_ok (se_sync_skills env ns d)))"

abbreviation file_in :: "ustr \<Rightarrow> dir option \<Rightarrow> node option" where
  "file_in f d \<equiv> Option.bind d (dget f)"

abbreviation archived :: "int \<Rightarrow> ustr \<Rightarrow> runtime \<Rightarrow> dir option" where
  "archived k chat rt \<equiv> dget k (archives (rt_dirs rt chat))"

lemma new_session_files:
  assumes "\<not> chat_busy chat rt" and "active_record chat (rt_store rt) = Some r" and "sd_active (rt_dirs rt chat) = Some a" and "dict_ok a"
    and "a \<noteq> [] \<or> sd_archives (rt_dirs rt chat) \<noteq> None" and "own_file env f" and "syncs_aside env f"
    and out: "out = fst (new_session env fresh now fin chat m q rt)"
  shows "file_in f (archived (sr_session_number r) chat out) = dget f a \<and> archived (sr_session_number r) chat out \<noteq> None
    \<and> file_in f (sd_active (rt_dirs out chat)) = None \<and> (\<exists>b. sd_active (rt_dirs out chat) = Some b \<and> dict_ok b)
    \<and> sd_archives (rt_dirs out chat) \<noteq> None"
proof -
  let ?k = "sr_session_number r"
  let ?keep = "filter (\<lambda>p. fst p \<in> set (se_durable env) \<or> fst p = u ''.snapshots'' \<or> lock_file (fst p)) a"
  let ?arch = "fst (copy_session_dir (se_durable env) (Some a) (dget ?k (archives (rt_dirs rt chat))))"
  obtain g where g: "g = id \<or> (\<exists>ns. g = se_sync_skills env ns)"
    and d: "rt_dirs out chat = (let d = clear_active_session (se_durable env) (dirs_archived env chat rt) in d\<lparr>sd_active := Some (g (the (sd_active d)))\<rparr>)"
    using new_session_dirs [OF assms(1), of env fresh now fin m q] unfolding out by blast
  have da: "dirs_archived env chat rt = (rt_dirs rt chat)\<lparr>sd_archives := Some (dset ?k ?arch (archives (rt_dirs rt chat)))\<rparr>"
    using assms(2,3,5) by (auto simp: dirs_archived_def archive_active_session_def)
  have e: "rt_dirs out chat = \<lparr>sd_active = Some (g ?keep), sd_archives = Some (dset ?k ?arch (archives (rt_dirs rt chat)))\<rparr>"
    unfolding d da using assms(3) by (simp add: clear_active_session_def Let_def)
  have "dget f ?keep = None" using assms(6) by (auto simp: map_of_eq_None_iff own_file_def)
  moreover have "dict_ok ?keep" using assms(4) by (rule dict_ok_filter)
  ultimately have "dget f (g ?keep) = None \<and> dict_ok (g ?keep)" using g assms(7) by (auto simp: syncs_aside_def)
  moreover have "dget f ?arch = dget f a" using dget_copy [OF assms(4)] assms(6) by (simp add: own_file_def)
  ultimately show ?thesis unfolding e by (simp add: archives_def)
qed

text \<open>
  Retrying a new session loses the old one's files: when the engine cannot start the new session, the old
  one is still the active session but its directory has been emptied (its files are in the archive); the next
  attempt, whether it succeeds or not, archives the emptied directory over them, so that they are neither in the
  archive nor in the active directory any more.
\<close>

theorem retried_new_session_loses_files:
  assumes "synced (rt_store rt)" and "\<not> chat_busy chat rt" and "active_record chat (rt_store rt) = Some r"
    and "sd_active (rt_dirs rt chat) = Some a" and "dict_ok a" and "dget f a = Some x"
    and "own_file env f" and "syncs_aside env f" and "refuses env e"
    and "own_file env2 f" and "syncs_aside env2 f"
  shows "let rt1 = fst (new_session env fresh now fin chat m q rt); rt2 = fst (new_session env2 fresh2 now2 fin2 chat m2 q2 rt1)
    in active_record chat (rt_store rt1) = Some r
      \<and> file_in f (archived (sr_session_number r) chat rt1) = Some x \<and> file_in f (sd_active (rt_dirs rt1 chat)) = None
      \<and> archived (sr_session_number r) chat rt2 \<noteq> None \<and> file_in f (archived (sr_session_number r) chat rt2) = None
      \<and> file_in f (sd_active (rt_dirs rt2 chat)) = None"
proof -
  define rt1 where "rt1 = fst (new_session env fresh now fin chat m q rt)"
  define rt2 where "rt2 = fst (new_session env2 fresh2 now2 fin2 chat m2 q2 rt1)"
  have ne: "a \<noteq> [] \<or> sd_archives (rt_dirs rt chat) \<noteq> None" using assms(6) by auto
  note f1 = new_session_files [OF assms(2-5) ne assms(7,8) rt1_def]
  note r1 = refused_new_session [OF assms(1,2,9), of fresh now fin m q, folded rt1_def]
  have act: "active_record chat (rt_store rt1) = Some r" using assms(3) r1 by (simp add: active_record_eq)
  obtain b where b: "sd_active (rt_dirs rt1 chat) = Some b" "dict_ok b" using f1 by blast
  have idle: "\<not> chat_busy chat rt1" and ne1: "b \<noteq> [] \<or> sd_archives (rt_dirs rt1 chat) \<noteq> None" using r1 f1 by auto
  note f2 = new_session_files [OF idle act b ne1 assms(10,11) rt2_def]
  show ?thesis unfolding Let_def rt1_def [symmetric] rt2_def [symmetric] using act f1 f2 b assms(6) by simp
qed

subsection \<open>A resumed session\<close>

text \<open>Every prompt to the engine raises; whether it takes a session up again is open, none is alive.\<close>

definition engine_down :: "session_env \<Rightarrow> py_exn \<Rightarrow> bool" where
  "engine_down env e \<longleftrightarrow> refuses env e \<and> (\<forall>i p m. se_prompt env i p m = Inl e) \<and> (\<forall>i. se_alive env i \<noteq> Inr True)"

lemma reserve_dirs: "rt_dirs (fst (reserve_and_write r rt)) = rt_dirs rt \<and> rt_turns (fst (reserve_and_write r rt)) = rt_turns rt
    \<and> rt_ops (fst (reserve_and_write r rt)) = rt_ops rt \<and> rt_store (fst (reserve_and_write r rt)) = put_session (fst (reserve_turn_number r)) (rt_store rt)"
  by (simp add: reserve_and_write_def Let_def write_record_def put_record_def put_session_def)

lemma reserve_updated_at: "sr_updated_at (fst (reserve_turn_number r)) = sr_updated_at r"
  by (simp add: reserve_turn_number_def Let_def)

definition half_resumed :: "session_env \<Rightarrow> ustr \<Rightarrow> session_record \<Rightarrow> runtime \<Rightarrow> runtime \<Rightarrow> bool" where
  "half_resumed env chat source rt rt' \<longleftrightarrow>
     rt_store rt' = put_session (fst (reserve_turn_number source)) (rt_store rt) \<and> rt_turns rt' = rt_turns rt
     \<and> (\<exists>g. (g = id \<or> (\<exists>ns. g = se_sync_skills env ns))
          \<and> rt_dirs rt' chat = (rt_dirs rt chat)\<lparr>sd_active := Some (g (the (sd_active (rt_dirs rt chat))))\<rparr>)"

lemma half_resumed_on_session:
  assumes "engine_down env e" and "sd_active (rt_dirs rt chat) = Some c"
  shows "snd (resume_on_session env fin chat source n sid mcp names rt) = Inl e
    \<and> half_resumed env chat source rt (fst (resume_on_session env fin chat source n sid mcp names rt))"
proof -
  obtain rt1 r1 where r: "reserve_and_write source rt = (rt1, r1)" by force
  have "(rt_dirs rt chat) = (rt_dirs rt chat)\<lparr>sd_active := Some (id c)\<rparr>" using assms(2) by simp
  then show ?thesis using assms reserve_dirs [of source rt]
    by (auto simp: resume_on_session_def half_resumed_def engine_down_def refuses_def r Let_def)
qed

lemma half_resumed_rebuilt:
  assumes "engine_down env e" and "sd_active (rt_dirs rt chat) = Some c"
  shows "snd (resume_rebuilt env fin chat active source n mcp names rt) = Inl e
    \<and> half_resumed env chat source rt (fst (resume_rebuilt env fin chat active source n mcp names rt))"
proof -
  obtain rt1 r1 where r: "reserve_and_write source rt = (rt1, r1)" by force
  have re: "refuses env e" "\<And>c. se_before_start env c = Inr c" using assms(1) by (simp_all add: engine_down_def refuses_def)
  have "\<exists>rt2. start_new_session env chat p m sv nm rt1 = (rt2, Inl e) \<and> half_resumed env chat source rt rt2" for p m sv nm
  proof -
    obtain rt2 y where st: "start_new_session env chat p m sv nm rt1 = (rt2, y)" by force
    with refused_start [OF re(1) st] start_frame [OF st] reserve_dirs [of source rt] assms(2) r show ?thesis
      by (auto simp: half_resumed_def)
  qed
  then obtain rt2 where "\<And>p m sv nm. start_new_session env chat p m sv nm rt1 = (rt2 p m sv nm, Inl e) \<and> half_resumed env chat source rt (rt2 p m sv nm)"
    by metis
  then show ?thesis using re by (simp add: resume_rebuilt_def r Let_def)
qed

lemma known_chat_state:
  "dget n (sessions_of chat (st_states s)) = Some x \<Longrightarrow> chat_state_of chat s = (s, state_of chat (st_states s))"
  by (auto simp: chat_state_of_def state_of_def split: option.splits)

lemma failed_resume_held:
  assumes "engine_down env e" and "dget n (sessions_of chat (st_states (rt_store rt))) = Some source"
    and "active_record chat (rt_store rt) = Some r" and "sr_session_number r \<noteq> n"
    and "swap_dirs env chat (Some r) n rt = (rt1, True)" and "sd_active (rt_dirs rt1 chat) = Some c"
  shows "snd (resume_held env fin chat n rt) = Inl e \<and> half_resumed env chat source rt1 (fst (resume_held env fin chat n rt))"
proof -
  have s: "rt\<lparr>rt_store := rt_store rt\<rparr> = rt" by simp
  have p: "\<not> probe_alive env source names" for names
    using assms(1) by (auto simp: probe_alive_def engine_down_def split: sum.split)
  note h = half_resumed_on_session [OF assms(1,6)] half_resumed_rebuilt [OF assms(1,6)]
  show ?thesis using assms(2-5) h p
    by (simp add: resume_held_def known_chat_state [OF assms(2)] s Let_def split: option.split)
qed

text \<open>The directories of a chat whose sessions \<open>k\<close> (active) and \<open>n\<close> have files.\<close>

lemma swapped_dirs:
  assumes "sd_active d = Some a" and "dict_ok a" and "a \<noteq> []" and "dget n (archives d) = Some b" and "dict_ok b" and "k \<noteq> n"
    and "f \<notin> set durable" and "\<not> lock_file f"
  shows "\<exists>d1 c. resume_dirs durable (Some k) n d = (d1, True) \<and> sd_active d1 = Some c \<and> dict_ok c \<and> dget f c = dget f b
    \<and> sd_archives d1 \<noteq> None \<and> Option.bind (dget k (archives d1)) (dget f) = dget f a"
proof -
  let ?arch = "fst (copy_session_dir durable (Some a) (dget k (archives d)))"
  let ?c = "fst (copy_session_dir durable (Some b) (Some a))"
  have s1: "archive_active_session durable k d = d\<lparr>sd_archives := Some (dset k ?arch (archives d))\<rparr>"
    using assms(1,3) by (simp add: archive_active_session_def)
  have "resume_dirs durable (Some k) n d = (d\<lparr>sd_archives := Some (dset k ?arch (archives d)), sd_active := Some ?c\<rparr>, True)"
    using assms(1,4,6) unfolding resume_dirs_def by (simp add: s1 archives_def copy_session_dir_def Let_def)
  moreover have "dict_ok ?c" using assms(2) by (intro copy_ok) auto
  moreover have "dget f ?c = dget f b" "dget f ?arch = dget f a" using dget_copy [OF assms(5)] dget_copy [OF assms(2)] assms(7,8) by simp_all
  ultimately show ?thesis by (simp add: archives_def)
qed

text \<open>
  A resume that fails mixes two sessions up: when the engine cannot take session \<open>n\<close> up again, session \<open>k\<close> is
  still the active one but the active directory holds the files of session \<open>n\<close>; the next new session archives
  them as the files of session \<open>k\<close>, whose own files are gone.
\<close>

theorem failed_resume_mixes_sessions:
  assumes "synced (rt_store rt)" and "\<not> chat_busy chat rt" and "active_record chat (rt_store rt) = Some r"
    and "dget n (sessions_of chat (st_states (rt_store rt))) = Some source" and "n \<noteq> sr_session_number r"
    and "sd_active (rt_dirs rt chat) = Some a" and "dict_ok a" and "a \<noteq> []"
    and "dget n (archives (rt_dirs rt chat)) = Some b" and "dict_ok b"
    and "own_file env f" and "syncs_aside env f" and "engine_down env e"
    and "own_file env2 f" and "syncs_aside env2 f"
  shows "let out = resume_session env fresh now fin chat n q rt; rt1 = fst out;
      rt2 = fst (new_session env2 fresh2 now2 fin2 chat m2 q2 rt1)
    in snd out = Inl e \<and> active_record chat (rt_store rt1) = Some r
      \<and> file_in f (sd_active (rt_dirs rt1 chat)) = dget f b \<and> file_in f (archived (sr_session_number r) chat rt1) = dget f a
      \<and> file_in f (archived (sr_session_number r) chat rt2) = dget f b"
proof -
  let ?k = "sr_session_number r" and ?h = "held chat rt"
  define out where "out = resume_session env fresh now fin chat n q rt"
  have eq: "out = hold_session_op chat (resume_held env fin chat n) rt"
    using assms(2) by (simp add: out_def resume_session_def session_op_busy_def)
  have own: "f \<notin> set (se_durable env)" "\<not> lock_file f" using assms(11) by (simp_all add: own_file_def)
  obtain d1 c where d1: "resume_dirs (se_durable env) (Some ?k) n (rt_dirs rt chat) = (d1, True)" "sd_active d1 = Some c" "dict_ok c"
      "dget f c = dget f b" "sd_archives d1 \<noteq> None" "Option.bind (dget ?k (archives d1)) (dget f) = dget f a"
    using swapped_dirs [OF assms(6-10) assms(5) [symmetric] own] by blast
  have sw: "swap_dirs env chat (Some r) n ?h = (put_dirs chat d1 ?h, True)" using d1(1) by (simp add: swap_dirs_def)
  have act1: "sd_active (rt_dirs (put_dirs chat d1 ?h) chat) = Some c" using d1(2) by simp
  have h: "dget n (sessions_of chat (st_states (rt_store ?h))) = Some source" "active_record chat (rt_store ?h) = Some r" "?k \<noteq> n"
    using assms(3-5) by simp_all
  note fail = failed_resume_held [OF assms(13) h sw act1]
  note w = hold_frame [OF assms(2), of "resume_held env fin chat n", folded eq]
  obtain g where g: "g = id \<or> (\<exists>ns. g = se_sync_skills env ns)" and dirs: "rt_dirs (fst out) chat = d1\<lparr>sd_active := Some (g c)\<rparr>"
    using fail w(3) d1(2) by (auto simp: half_resumed_def)
  have gf: "dget f (g c) = dget f b" "dict_ok (g c)" using g assms(12) d1(3,4) by (auto simp: syncs_aside_def)
  have "rt_store (fst out) = put_session (fst (reserve_turn_number source)) (rt_store rt)" using fail w(2) by (simp add: half_resumed_def)
  moreover have "sr_chat_id source = chat" "sr_session_number source = n" using file_synced.registered_numbered [OF assms(1,4)] by simp_all
  ultimately have act: "active_record chat (rt_store (fst out)) = Some r"
    using active_record_replaced [OF _ assms(4), of "fst (reserve_turn_number source)"] assms(1,3,5) reserve_same [of source] reserve_updated_at [of source]
    by (simp add: synced_def)
  have idle: "\<not> chat_busy chat (fst out)" using fail w(5,6) assms(2) by (simp add: chat_busy_def half_resumed_def)
  define rt2 where "rt2 = fst (new_session env2 fresh2 now2 fin2 chat m2 q2 (fst out))"
  have ad: "sd_active (rt_dirs (fst out) chat) = Some (g c)" "g c \<noteq> [] \<or> sd_archives (rt_dirs (fst out) chat) \<noteq> None"
    using dirs d1(5) by simp_all
  have "file_in f (archived ?k chat rt2) = dget f b"
    using new_session_files [OF idle act ad(1) gf(2) ad(2) assms(14,15) rt2_def] gf(1) by simp
  moreover have "snd out = Inl e" using fail w(1) by simp
  moreover have "file_in f (archived ?k chat (fst out)) = dget f a" using dirs d1(6) by (simp add: archives_def)
  ultimately show ?thesis unfolding Let_def out_def [symmetric] rt2_def [symmetric] using act dirs gf(1) by simp
qed

end
