(* ===== verification/SessionSamples.thy ===== *)
theory SessionSamples
  imports SessionFailures
begin

section \<open>The properties of session operations at concrete states\<close>

text \<open>
  A chat with one session and a file, an engine that answers and one that does not: the properties of
  \<open>SessionRuns\<close> and \<open>SessionFailures\<close> applied to them.
\<close>

definition sample_tools :: tool_config where
  "sample_tools = \<lparr>tc_servers = [], tc_default_mcp = None, tc_plugin_mcp = [], tc_default_skills = [], tc_plugin_skills = [],
     tc_default_lazy = False, tc_sessions_root = u ''s'', tc_listen_host = u ''h'', tc_listen_port = 1, tc_api_key = None\<rparr>"

definition answer_once :: "ustr \<Rightarrow> turn_result" where
  "answer_once sid = \<lparr>tr_reply = u ''hello'', tr_session_id = Some sid, tr_model = None, tr_usage = None\<rparr>"

definition plain_prompt :: prompt_ctx where
  "plain_prompt = \<lparr>pc_prompt = u ''p'', pc_notice = None, pc_model = None, pc_persona_exceeded = False, pc_chat_exceeded = False\<rparr>"

definition sample_env :: "py_exn + turn_result \<Rightarrow> session_env" where
  "sample_env ans = \<lparr>se_tools = sample_tools, se_durable = CHAT_DURABLE_FILES, se_prune = \<lparr>pn_enabled = True, pn_days = 30\<rparr>,
     se_default_model = u ''m'', se_persona = u ''p'', se_resume_enabled = True, se_chat_dir = id, se_before_start = Inr,
     se_build_first = (\<lambda>_ _ _ _ _ _. plain_prompt), se_build_follow_up = (\<lambda>_ _ _ _ _. plain_prompt), se_sync_skills = (\<lambda>_ d. d),
     se_start = (\<lambda>_ _ _. ans), se_prompt = (\<lambda>_ _ _. ans), se_resume = (\<lambda>_ _ _. Inl TimeoutError), se_alive = (\<lambda>_. Inr False),
     se_set_model = (\<lambda>_ m. Inr (Some m)), se_memory_cap = 100, se_memory_file = (\<lambda>_. None), se_transition = (\<lambda>_ _. (False, None))\<rparr>"

abbreviation up :: session_env where "up \<equiv> sample_env (Inr (answer_once (u ''s9'')))"
abbreviation down :: session_env where "down \<equiv> sample_env (Inl TimeoutError)"

definition session_1 :: session_record where
  "session_1 = blank_session\<lparr>sr_session_id := u ''s1'', sr_updated_at := 5\<rparr>"

definition session_2 :: session_record where
  "session_2 = blank_session\<lparr>sr_session_number := 2, sr_session_id := u ''s2'', sr_updated_at := 7\<rparr>"

definition a_queue :: wake_queue where
  "a_queue = \<lparr>wq_file = wake_save [], wq_in_memory = []\<rparr>"

text \<open>Session 2 is active; session 1 is archived.\<close>

definition sample_rt :: "ustr list \<Rightarrow> runtime" where
  "sample_rt turns = \<lparr>rt_draining = False, rt_turns = turns, rt_ops = [], rt_queue = Some a_queue,
     rt_store = put_session session_2 (put_session session_1 \<lparr>st_states = [([], \<lparr>cs_sessions = [], cs_next_session_number = 3\<rparr>)], st_file = []\<rparr>),
     rt_dirs = (\<lambda>_. \<lparr>sd_active = Some [(u ''b.txt'', File (u ''two''))], sd_archives = Some [(1, [(u ''b.txt'', File (u ''one''))])]\<rparr>),
     rt_skills = [], rt_recorded = [], rt_notes = []\<rparr>"

lemma sample_states: "st_states (rt_store (sample_rt ts)) =
    [([], \<lparr>cs_sessions = [(1, session_1), (2, session_2)], cs_next_session_number = 3\<rparr>)]"
  by (simp add: sample_rt_def put_session_def append_record_def set_session_def chat_state_of_def session_1_def session_2_def blank_session_def)

lemma sample_synced: "synced (rt_store (sample_rt ts))"
proof -
  have "synced \<lparr>st_states = [([], \<lparr>cs_sessions = [], cs_next_session_number = 3\<rparr>)], st_file = []\<rparr>"
    by (auto simp: synced_def states_ok_def sessions_ok_def state_of_def no_sessions_def)
  then show ?thesis unfolding sample_rt_def
    by (simp, intro put_session_synced)
      (simp_all add: put_session_def append_record_def set_session_def chat_state_of_def session_1_def session_2_def blank_session_def state_of_def)
qed

lemma sample_active: "active_record [] (rt_store (sample_rt ts)) = Some session_2"
  by (simp add: active_record_eq sample_states state_of_def session_1_def session_2_def blank_session_def)

lemma sample_source: "dget 1 (sessions_of [] (st_states (rt_store (sample_rt ts)))) = Some session_1"
  by (simp add: sample_states state_of_def)

lemma sample_chat_idle: "\<not> chat_busy [] (sample_rt [])" "chat_busy [] (sample_rt [[]])"
  by (simp_all add: chat_busy_def sample_rt_def)

lemma sample_file: "own_file (sample_env x) (u ''b.txt'')" "syncs_aside (sample_env x) f"
  by (simp_all add: own_file_def syncs_aside_def sample_env_def CHAT_DURABLE_FILES_def lock_file_def suffix_def)

lemma sample_dirs_at: "sd_active (rt_dirs (sample_rt ts) c) = Some [(u ''b.txt'', File (u ''two''))]"
  "archives (rt_dirs (sample_rt ts) c) = [(1, [(u ''b.txt'', File (u ''one''))])]"
  by (simp_all add: sample_rt_def archives_def)

theorem session_ops_keep_the_store_synced_witness:
  "synced (rt_store (fst (do_session_op down (u ''w'') 9 9 False [] (Op_branch 1) True (sample_rt []))))
   \<and> synced (rt_store (fst (run_session_op up 9 9 False [] (op_dict (Op_resume 1)) (sample_rt []))))"
  using session_ops_keep_the_store_synced [OF sample_synced [of "[]"], where env = down and fresh = "u ''w''" and now = 9 and fin = 9 and changed = False
      and chat = "[]" and op = "Op_branch 1" and queue_on_busy = True]
    session_ops_keep_the_store_synced [OF sample_synced [of "[]"], where env = up and now = 9 and fin = 9 and changed = False
      and chat = "[]" and payload = "op_dict (Op_resume 1)"]
  by simp

theorem new_session_keeps_the_old_one_witness:
  "(\<exists>x. active_record [] (rt_store (fst (new_session up (u ''w'') 8 9 [] None False (sample_rt [])))) = Some x \<and> sr_session_number x = 3)
   \<and> dget 2 (sessions_of [] (st_states (rt_store (fst (new_session up (u ''w'') 8 9 [] None False (sample_rt [])))))) = Some session_2"
proof -
  have new: "newest 9 [] (sample_rt [])"
    by (simp add: newest_def sample_states state_of_def session_1_def session_2_def blank_session_def)
  have w: "willing up" by (simp add: willing_def sample_env_def answer_once_def)
  have n: "next_of [] (st_states (rt_store (sample_rt []))) = 3" by (simp add: sample_states state_of_def)
  have k: "kept (se_prune up) 9 (dget 2 (sessions_of [] (st_states (rt_store (sample_rt []))))) = Some session_2"
    by (simp add: sample_states state_of_def kept_def sample_env_def session_2_def)
  have "opened up 9 [] (sample_rt []) (new_session up (u ''w'') 8 9 [] None False (sample_rt []))"
    using new_session_keeps_the_old_one [OF sample_synced sample_chat_idle(1) new w] by blast
  then obtain x where x: "active_record [] (rt_store (fst (new_session up (u ''w'') 8 9 [] None False (sample_rt [])))) = Some x"
      "sr_session_number x = 3"
      "\<forall>m. m \<noteq> sr_session_number x \<longrightarrow> dget m (sessions_of [] (st_states (rt_store (fst (new_session up (u ''w'') 8 9 [] None False (sample_rt [])))))) =
         kept (se_prune up) 9 (dget m (sessions_of [] (st_states (rt_store (sample_rt [])))))"
    unfolding opened_def n by blast
  from x(3) [rule_format, of 2] x(2) have "dget 2 (sessions_of [] (st_states (rt_store (fst (new_session up (u ''w'') 8 9 [] None False (sample_rt [])))))) = Some session_2"
    unfolding k by simp
  with x(1,2) show ?thesis by blast
qed

lemma sample_refuses: "refuses down TimeoutError" "engine_down down TimeoutError"
  by (simp_all add: refuses_def engine_down_def sample_env_def)

theorem retried_new_session_loses_files_witness:
  "file_in (u ''b.txt'') (archived 2 [] (fst (new_session down (u ''w'') 8 9 [] None False (sample_rt [])))) = Some (File (u ''two''))
   \<and> file_in (u ''b.txt'') (archived 2 [] (fst (new_session up (u ''w'') 10 11 [] None False
        (fst (new_session down (u ''w'') 8 9 [] None False (sample_rt [])))))) = None"
proof -
  have d: "dict_ok [(u ''b.txt'', File (u ''two''))]" "dget (u ''b.txt'') [(u ''b.txt'', File (u ''two''))] = Some (File (u ''two''))"
    by (simp_all add: dict_ok_def)
  have n: "sr_session_number session_2 = 2" by (simp add: session_2_def)
  show ?thesis
    using retried_new_session_loses_files [OF sample_synced sample_chat_idle(1) sample_active sample_dirs_at(1) d sample_file sample_refuses(1) sample_file,
        where fresh = "u ''w''" and now = 8 and fin = 9 and m = None and q = False and ?fresh2.0 = "u ''w''" and ?now2.0 = 10 and ?fin2.0 = 11
          and ?m2.0 = None and ?q2.0 = False]
    unfolding Let_def n by blast
qed

theorem failed_resume_mixes_sessions_witness:
  "snd (resume_session down (u ''w'') 8 9 [] 1 False (sample_rt [])) = Inl TimeoutError
   \<and> file_in (u ''b.txt'') (archived 2 [] (fst (resume_session down (u ''w'') 8 9 [] 1 False (sample_rt [])))) = Some (File (u ''two''))
   \<and> file_in (u ''b.txt'') (archived 2 [] (fst (new_session up (u ''w'') 10 11 [] None False
        (fst (resume_session down (u ''w'') 8 9 [] 1 False (sample_rt [])))))) = Some (File (u ''one''))"
proof -
  have d: "dict_ok [(u ''b.txt'', File (u ''two''))]" "[(u ''b.txt'', File (u ''two''))] \<noteq> []"
    "dget 1 (archives (rt_dirs (sample_rt []) [])) = Some [(u ''b.txt'', File (u ''one''))]" "dict_ok [(u ''b.txt'', File (u ''one''))]"
    by (simp_all add: dict_ok_def sample_dirs_at)
  have n: "sr_session_number session_2 = 2" "(1::int) \<noteq> sr_session_number session_2" by (simp_all add: session_2_def)
  show ?thesis
    using failed_resume_mixes_sessions [OF sample_synced sample_chat_idle(1) sample_active sample_source n(2) sample_dirs_at(1) d sample_file sample_refuses(2) sample_file,
        where fresh = "u ''w''" and now = 8 and fin = 9 and q = False and ?fresh2.0 = "u ''w''" and ?now2.0 = 10 and ?fin2.0 = 11
          and ?m2.0 = None and ?q2.0 = False]
    unfolding Let_def n(1) by simp
qed

theorem parked_operation_runs_as_requested_witness:
  "fst (run_session_op up 9 9 False [] (we_payload (parked (u ''w'') [] (Op_new None) 3)) (sample_rt [])) =
     fst (do_session_op up [] 9 9 False [] (Op_new None) False (sample_rt []))"
proof -
  have q: "rt_queue (sample_rt [[]]) = Some a_queue" "wake_load (wq_file a_queue) = Inr []" "u ''w'' \<noteq> []" "\<not> rt_draining (sample_rt [])"
    "\<not> rt_draining (sample_rt [[]])"
    by (simp_all add: sample_rt_def a_queue_def wake_load_def wake_save_def jsonl_save_def)
  have st: "storable (Op_new None)"
    by (auto simp: storable_def op_dict_def op_label_def list_all_iff is_surrogate_def dest!: u_code_point)
  have none: "\<not> list_ex (\<lambda>e. we_reason e = u ''session_op'') (snd (pending_body (Some []) None []))"
    by (simp add: pending_body_def)
  obtain rt1 res where "do_session_op up (u ''w'') 3 3 False [] (Op_new None) True (sample_rt [[]]) = (rt1, res)" by force
  then show ?thesis
    using parked_operation_runs_as_requested [OF sample_chat_idle(2) q(5,1,2,3) st none q(4) sample_chat_idle(1),
        where now = 3 and fin = 3 and ch = False and env = up and ?now3.0 = 9 and ?fin3.0 = 9 and ?ch3.0 = False and l = 1
          and ?fresh2.0 = "[]" and ?now2.0 = 1 and ?fin2.0 = 1 and ?ch2.0 = False and ?op2.0 = "Op_new None"]
    unfolding Let_def by simp
qed

end
