(* ===== verification/TurnSamples.thy ===== *)
theory TurnSamples
  imports TurnFacts SessionSamples
begin

section \<open>The properties of turns at a concrete state\<close>

text \<open>
  The chat of \<open>SessionSamples\<close> (session 2 active) with an agent that has lost its sessions, no plugins and a chat
  memory over its budget: the properties of \<open>TurnRuns\<close> and \<open>TurnFacts\<close> applied to it.
\<close>

definition sample_answer :: prompt_result where
  "sample_answer = \<lparr>pr_reply = u ''hello'', pr_session_id = Some (u ''s9''), pr_model = None, pr_stop_reason = None, pr_usage = None,
     pr_cancelled = False, pr_partial = False, pr_timed_out = False\<rparr>"

definition lost_engine :: "unit engine_ops" where
  "lost_engine = \<lparr>eo_prompt = (\<lambda>rq e. (e, [], if rq_session rq = None then Inr sample_answer else Inl (Stale_exn (u ''gone'')))),
     eo_resume = (\<lambda>s m v e. (e, Inl (Timeout_exn []))), eo_alive = (\<lambda>s e. (e, Inr False)), eo_restart = (\<lambda>s e. (e, None)),
     eo_drain = (\<lambda>s e. (e, Inr []))\<rparr>"

definition a_prompt :: turn_prompt where
  "a_prompt = \<lparr>pc_prompt = u ''p'', pc_notice = None, pc_model = None, pc_persona_exceeded = False, pc_chat_exceeded = False, tp_force_new = False\<rparr>"

definition turn_sample :: "unit process_env" where
  "turn_sample = \<lparr>te_session = up\<lparr>se_memory_file := \<lambda>_. Some (u ''f'', 200)\<rparr>, te_engine = lost_engine, te_lower = id, te_str = (\<lambda>_. []),
     te_first = (\<lambda>_ _ _ _ _ _. a_prompt), te_follow_up = (\<lambda>_ _ _ _ _. a_prompt), te_before_call = Inr,
     te_after_call = (\<lambda>r. \<lparr>rc_result = r, rc_reply = pr_reply r, rc_usage = pr_usage r, rc_stop_reason = pr_stop_reason r\<rparr>),
     te_known_users = (\<lambda>_ _. []),
     pe_route = (\<lambda>_ _ _ _. Inr \<lparr>mr_model = sr_model session_2, mr_notice = None, mr_budget_exceeded = False\<rparr>),
     pe_before_turn = (\<lambda>_ _ m _. Inr (m, None)), pe_match_skills = (\<lambda>_ _. {}), pe_all_skills = {}, pe_refresh_skills = (\<lambda>_ d. d),
     pe_auto_resend = True, pe_continue_word = u ''continue'', pe_is_continuation = (\<lambda>_. False), pe_seed = Inr,
     pe_before_record = (\<lambda>_ xc. xc), pe_label = (\<lambda>_. None), pe_metrics = (\<lambda>_. None), pe_cumulative = []\<rparr>"

lemma sample_forgetful: "forgetful (turn_env.truncate turn_sample) sample_answer"
  by (simp add: forgetful_def turn_sample_def turn_env.defs lost_engine_def lost_def)

lemma sample_world: "world_ok (sample_rt [], Map.empty)"
  using sample_synced [of "[]"] by (intro initial_ok) (simp add: synced_def)

text \<open>The turn that begins there is a follow-up of session 2.\<close>

lemma sample_gate: "turn_gate [] (sample_rt []) = None"
  by (simp add: turn_gate_def sample_rt_def)

lemma sample_session: "sr_last_stop_reason session_2 = None" "sr_enabled_skills session_2 = None" "sr_session_id session_2 = u ''s2''"
  "sr_session_number session_2 = 2" "sr_chat_id session_2 = []" "sr_model session_2 = []" "sr_enabled_mcp_servers session_2 = None"
  "sr_enabled_mcp_servers session_2 = None" "sr_disabled_skills session_2 = None"
  by (simp_all add: session_2_def blank_session_def)

lemma sample_fields:
  "te_session turn_sample = up\<lparr>se_memory_file := \<lambda>_. Some (u ''f'', 200)\<rparr>"
  "pe_route turn_sample = (\<lambda>_ _ _ _. Inr \<lparr>mr_model = sr_model session_2, mr_notice = None, mr_budget_exceeded = False\<rparr>)"
  "pe_before_turn turn_sample = (\<lambda>_ _ m _. Inr (m, None))" "pe_match_skills turn_sample = (\<lambda>_ _. {})" "pe_seed turn_sample = Inr"
  "pe_before_record turn_sample = (\<lambda>_ xc. xc)" "te_follow_up turn_sample = (\<lambda>_ _ _ _ _. a_prompt)"
  by (simp_all add: turn_sample_def)

lemma sample_skills: "\<exists>sk. match_and_activate_skills sample_tools (\<lambda>_ _. {}) sk0 [] [] (rt_skills (sample_rt [])) (rt_store (sample_rt [])) = (sk, {})"
  using sample_session
  by (simp add: match_and_activate_skills_def sample_active active_skill_names_def skills_of_def default_active_skills_def opt_names_def sample_tools_def Let_def)

text \<open>The turn that begins there is a follow-up of session 2.\<close>

lemma sample_begins:
  obtains rt1 tn sk where "begin_turn turn_sample 9 None [] [] None (sample_rt []) = (rt1, Inr (Inr tn))"
    "begin_follow_up turn_sample 9 None [] [] session_2 [] False {} None ((sample_rt [])\<lparr>rt_skills := sk\<rparr>) = (rt1, Inr (Inr tn))"
    "\<not> boundary (tn_args tn)" "ca_old (tn_args tn) = Some session_2" "tn_session_number tn = 2" "\<not> tn_chat_exceeded tn"
proof -
  obtain sk where sk: "match_and_activate_skills sample_tools (\<lambda>_ _. {}) (pe_all_skills turn_sample) [] [] (rt_skills (sample_rt [])) (rt_store (sample_rt [])) = (sk, {})"
    using sample_skills by blast
  let ?b = "begin_follow_up turn_sample 9 None [] [] session_2 [] False {} None ((sample_rt [])\<lparr>rt_skills := sk\<rparr>)"
  have t: "se_tools (sample_env x) = sample_tools" for x by (simp add: sample_env_def)
  have b: "begin_turn turn_sample 9 None [] [] None (sample_rt []) = ?b"
    using sk by (simp add: begin_turn_def sample_gate sample_active sample_fields sample_session opt_or_def t Let_def mcp_record_drifted_def
        opt_names_def current_model_def)
  have "\<exists>rt1 tn. ?b = (rt1, Inr (Inr tn)) \<and> \<not> boundary (tn_args tn) \<and> ca_old (tn_args tn) = Some session_2 \<and> tn_session_number tn = 2 \<and> \<not> tn_chat_exceeded tn"
    by (simp add: begin_follow_up_def new_turn_active_def new_active_turn_def first_intent_def sample_fields register_turn_def Let_def
        a_prompt_def sample_session boundary_def reserve_turn_number_def)
  with b that show ?thesis by metis
qed

text \<open>The engine call of that turn: the session is rebuilt.\<close>

lemma sample_call:
  assumes "\<not> boundary (tn_args tn)" and "ca_old (tn_args tn) = Some session_2"
  obtains c oc where "run_engine turn_sample tn () rt = (c, Done oc)" "oc_result oc = sample_answer"
proof -
  have "u ''s9'' \<noteq> u ''s2''" "u ''s9'' \<noteq> []" "u ''s2'' \<noteq> []" "u ''hello'' \<noteq> []" by (simp_all add: u_def)
  then show ?thesis
    using call_rebuilds [OF sample_forgetful assms, of "u ''s9''" "tn_persona_exceeded tn" "tn_chat_exceeded tn"
        "\<lparr>cl_engine = (), cl_active = tn_active tn, cl_rt = rt\<rparr>"] that assms(2)
    by (auto simp: run_engine_def recorded_id_def nonempty_id_def sample_session sample_answer_def)
qed

lemma sample_begin_world:
  assumes "begin_turn turn_sample 9 None [] [] None (sample_rt []) = (rt1, Inr (Inr tn))"
  shows "world_step turn_sample (sample_rt [], Map.empty) (rt1, Map.empty([] \<mapsto> tn))"
  using assms by (rule world_step.begins)


theorem finished_turn_frees_its_chat_witness:
  "\<exists>e' rt' x. process turn_sample 9 10 None None None [] [] None () (sample_rt []) = (e', rt', x) \<and> rt_turns rt' = []"
proof -
  obtain e' rt' x where p: "process turn_sample 9 10 None None None [] [] None () (sample_rt []) = (e', rt', x)"
    by (cases "process turn_sample 9 10 None None None [] [] None () (sample_rt [])") auto
  have "rt_turns rt' = rt_turns (sample_rt [])"
    by (rule finished_turn_frees_its_chat [OF _ _ p]) (use sample_synced [of "[]"] in \<open>simp_all add: synced_def sample_rt_def\<close>)
  with p show ?thesis by (auto simp: sample_rt_def)
qed




theorem memory_notice_repeats_witness:
  "\<exists>tn. \<forall>oc rt2. \<not> oc_chat_exceeded oc \<longleftrightarrow> \<not> oc_chat_exceeded oc \<and>
     (\<exists>pre post. cr_notice (snd (finalize_turn turn_sample 10 tn oc None False id rt2)) = Some (pre @ SessionOps.exceeded_notice (u ''f'') 200 100 @ post))"
proof -
  obtain rt1 tn sk where b: "begin_turn turn_sample 9 None [] [] None (sample_rt []) = (rt1, Inr (Inr tn))"
    and f: "begin_follow_up turn_sample 9 None [] [] session_2 [] False {} None ((sample_rt [])\<lparr>rt_skills := sk\<rparr>) = (rt1, Inr (Inr tn))"
    and e: "\<not> tn_chat_exceeded tn" by (rule sample_begins)
  have "\<exists>pre post. cr_notice (snd (finalize_turn turn_sample 10 tn oc None False id rt2)) =
      Some (pre @ SessionOps.exceeded_notice (u ''f'') 200 (se_memory_cap (te_session turn_sample)) @ post)" if "\<not> oc_chat_exceeded oc" for oc rt2
    by (rule memory_notice_repeats [OF f]) (use e that in \<open>simp_all add: sample_fields sample_env_def\<close>)
  then show ?thesis by (intro exI [of _ tn]) (auto simp: sample_fields sample_env_def)
qed

end
