(* ===== verification/PlanResolve.thy ===== *)
theory PlanResolve
  imports Models
begin

section \<open>Plans, tasks and the dependency resolver\<close>

text \<open>
  \<open>src/src/diploid_agent/plan/models.py\<close> and the resolver of
  \<open>src/src/diploid_agent/plan/manager.py\<close> (\<open>_resolve_statuses\<close>, \<open>_update_plan_status\<close>).  The resolver
  sweeps the tasks until a sweep changes nothing; a task reads the status of its dependencies from
  \<open>status_map\<close>, which the sweep updates as it goes.  The loop is proved to stop for every plan,
  duplicated ids and dependency cycles included.
\<close>

datatype task_status = PENDING | READY | RUNNING | DONE | INCOMPLETE | FAILED | BLOCKED

datatype task_type = SHELL | NOOP | ACP | SUBAGENT

datatype plan_status = DRAFT | ACTIVE | PAUSED | COMPLETED | PLAN_FAILED

record task =
  tk_id :: ustr
  tk_name :: ustr
  tk_description :: ustr
  tk_type :: task_type
  tk_command :: ustr
  tk_prompt :: "ustr option"
  tk_depends_on :: "ustr list"
  tk_status :: task_status
  tk_result :: "ustr option"
  tk_log :: ustr
  tk_started_at :: "secs option"
  tk_completed_at :: "secs option"
  tk_created_at :: secs
  tk_cwd :: "ustr option"
  tk_stop_reason :: "ustr option"
  tk_cancelled :: bool
  tk_partial :: bool
  tk_timed_out :: bool
  tk_chat_id :: "ustr option"
  tk_acp_model :: "ustr option"
  tk_acp_timeout :: "secs option"
  tk_mcp_servers :: "json list option"
  tk_dispatch_id :: "ustr option"
  tk_quiet :: bool

record plan =
  pl_id :: ustr
  pl_name :: ustr
  pl_description :: ustr
  pl_status :: plan_status
  pl_chat_id :: "ustr option"
  pl_origin :: ustr
  pl_tasks :: "task list"
  pl_created_at :: secs
  pl_updated_at :: secs

type_synonym status_map = "(ustr, task_status) dict"

definition schedulable :: "task_status \<Rightarrow> bool" where
  "schedulable s \<longleftrightarrow> s = PENDING \<or> s = READY \<or> s = BLOCKED"

definition is_done :: "task_status \<Rightarrow> bool" where
  "is_done s \<longleftrightarrow> s = DONE \<or> s = INCOMPLETE"

definition is_stuck :: "task_status \<Rightarrow> bool" where
  "is_stuck s \<longleftrightarrow> s = FAILED \<or> s = BLOCKED"

text \<open>\<open>missing\<close>, \<open>any_failed\<close> and \<open>all_done\<close> of the loop body; \<open>ids\<close> are the keys of \<open>by_id\<close>.\<close>

definition missing_deps :: "ustr list \<Rightarrow> task \<Rightarrow> ustr list" where
  "missing_deps ids t = filter (\<lambda>d. d \<notin> set ids) (tk_depends_on t)"

definition dep_statuses :: "ustr list \<Rightarrow> status_map \<Rightarrow> task \<Rightarrow> task_status option list" where
  "dep_statuses ids sm t = map (\<lambda>d. dget d sm) (filter (\<lambda>d. d \<in> set ids) (tk_depends_on t))"

definition any_failed :: "ustr list \<Rightarrow> status_map \<Rightarrow> task \<Rightarrow> bool" where
  "any_failed ids sm t \<longleftrightarrow>
     list_ex (\<lambda>s. case s of None \<Rightarrow> False | Some s \<Rightarrow> is_stuck s) (dep_statuses ids sm t)"

definition all_done :: "ustr list \<Rightarrow> status_map \<Rightarrow> task \<Rightarrow> bool" where
  "all_done ids sm t \<longleftrightarrow>
     list_all (\<lambda>s. case s of None \<Rightarrow> False | Some s \<Rightarrow> is_done s) (dep_statuses ids sm t)
     \<and> missing_deps ids t = []"

text \<open>One task of one sweep: the task, the status map and whether the task changed.\<close>

definition resolve_task :: "ustr list \<Rightarrow> status_map \<Rightarrow> task \<Rightarrow> task \<times> status_map \<times> bool" where
  "resolve_task ids sm t =
     (if \<not> schedulable (tk_status t) then (t, sm, False)
      else if missing_deps ids t \<noteq> [] \<or> any_failed ids sm t
      then (if tk_status t \<noteq> BLOCKED
            then (t\<lparr>tk_status := BLOCKED\<rparr>, dset (tk_id t) BLOCKED sm, True) else (t, sm, False))
      else if (all_done ids sm t \<and> tk_depends_on t \<noteq> []) \<or> tk_depends_on t = []
      then (if tk_status t \<noteq> READY
            then (t\<lparr>tk_status := READY\<rparr>, dset (tk_id t) READY sm, True) else (t, sm, False))
      else (t, dset (tk_id t) (tk_status t) sm, False))"

fun resolve_sweep :: "ustr list \<Rightarrow> status_map \<Rightarrow> task list \<Rightarrow> task list \<times> status_map \<times> bool" where
  "resolve_sweep ids sm [] = ([], sm, False)"
| "resolve_sweep ids sm (t # ts) =
     (let (t', sm1, c1) = resolve_task ids sm t;
          (ts', sm2, c2) = resolve_sweep ids sm1 ts
      in (t' # ts', sm2, c1 \<or> c2))"

subsection \<open>The loop stops\<close>

text \<open>
  A status recorded by a sweep is never one of the finished ones, so the dependencies of a task can
  only stop being finished; each change of a task then moves it down the ranks: not ready, ready,
  about to be blocked, blocked.
\<close>

definition sm_le :: "status_map \<Rightarrow> status_map \<Rightarrow> bool" where
  "sm_le sm sm' \<longleftrightarrow> (\<forall>d. dget d sm' = dget d sm \<or> (\<exists>s. dget d sm' = Some s \<and> schedulable s))"

definition doneable :: "ustr list \<Rightarrow> status_map \<Rightarrow> task \<Rightarrow> bool" where
  "doneable ids sm t \<longleftrightarrow> missing_deps ids t = [] \<and> all_done ids sm t"

definition rank :: "ustr list \<Rightarrow> status_map \<Rightarrow> task \<Rightarrow> nat" where
  "rank ids sm t =
     (if doneable ids sm t then (if tk_status t = READY then 2 else 3)
      else (if tk_status t = BLOCKED then 0 else 1))"

definition total_rank :: "ustr list \<Rightarrow> status_map \<Rightarrow> task list \<Rightarrow> nat" where
  "total_rank ids sm ts = sum_list (map (rank ids sm) ts)"

lemma sm_le_refl [simp]: "sm_le sm sm"
  by (simp add: sm_le_def)

lemma sm_le_trans: "sm_le a b \<Longrightarrow> sm_le b c \<Longrightarrow> sm_le a c"
  unfolding sm_le_def by metis

lemma sm_le_dset: "schedulable s \<Longrightarrow> sm_le sm (dset k s sm)"
  by (auto simp: sm_le_def)

lemma not_done_schedulable: "schedulable s \<Longrightarrow> \<not> is_done s"
  by (auto simp: schedulable_def is_done_def)

lemma all_done_iff:
  "all_done ids sm t \<longleftrightarrow> (\<forall>d \<in> set (tk_depends_on t). d \<in> set ids \<and> (\<exists>s. dget d sm = Some s \<and> is_done s))"
proof -
  have "(case o' of None \<Rightarrow> False | Some s \<Rightarrow> is_done s) \<longleftrightarrow> (\<exists>s. o' = Some s \<and> is_done s)" for o'
    by (cases o') auto
  then show ?thesis
    by (auto simp: all_done_def dep_statuses_def missing_deps_def list_all_iff filter_empty_conv)
qed

lemma any_failed_iff:
  "any_failed ids sm t \<longleftrightarrow> (\<exists>d \<in> set (tk_depends_on t). d \<in> set ids \<and> (\<exists>s. dget d sm = Some s \<and> is_stuck s))"
  by (auto simp: any_failed_def dep_statuses_def list_ex_iff split: option.splits)

lemma missing_iff: "missing_deps ids t = [] \<longleftrightarrow> set (tk_depends_on t) \<subseteq> set ids"
  by (auto simp: missing_deps_def filter_empty_conv)

lemma doneable_mono: "sm_le sm sm' \<Longrightarrow> doneable ids sm' t \<Longrightarrow> doneable ids sm t"
  unfolding doneable_def all_done_iff sm_le_def by (metis not_done_schedulable option.inject)

lemma rank_mono: "sm_le sm sm' \<Longrightarrow> rank ids sm' t \<le> rank ids sm t"
  using doneable_mono [of sm sm' ids t] by (auto simp: rank_def)

lemma resolve_task_le: "resolve_task ids sm t = (t', sm', c) \<Longrightarrow> sm_le sm sm'"
  by (auto simp: resolve_task_def sm_le_dset schedulable_def split: if_splits)

lemma resolve_task_same: "resolve_task ids sm t = (t', sm', False) \<Longrightarrow> t' = t"
  by (auto simp: resolve_task_def split: if_splits)

lemma doneable_no_failed: "doneable ids sm t \<Longrightarrow> \<not> any_failed ids sm t"
  unfolding doneable_def all_done_iff any_failed_iff
  by (metis is_done_def is_stuck_def option.inject task_status.distinct)

lemma doneable_status [simp]: "doneable ids sm (t\<lparr>tk_status := s\<rparr>) = doneable ids sm t"
  by (simp add: doneable_def all_done_def missing_deps_def dep_statuses_def)

lemma resolve_task_rank:
  assumes "resolve_task ids sm t = (t', sm', True)"
  shows "rank ids sm t' < rank ids sm t"
  using assms doneable_no_failed [of ids sm t]
  by (auto simp: resolve_task_def rank_def doneable_def all_done_iff missing_iff split: if_splits)

lemma resolve_sweep_le: "resolve_sweep ids sm ts = (ts', sm', c) \<Longrightarrow> sm_le sm sm'"
proof (induction ts arbitrary: sm ts' sm' c)
  case (Cons t ts)
  obtain t1 sm1 c1 where 1: "resolve_task ids sm t = (t1, sm1, c1)" by (metis prod_cases3)
  obtain ts2 sm2 c2 where 2: "resolve_sweep ids sm1 ts = (ts2, sm2, c2)" by (metis prod_cases3)
  from Cons.prems 1 2 resolve_task_le [OF 1] Cons.IH [OF 2] show ?case by (auto intro: sm_le_trans)
qed simp

lemma resolve_sweep_rank:
  "resolve_sweep ids sm ts = (ts', sm', c) \<Longrightarrow>
   total_rank ids sm' ts' \<le> total_rank ids sm ts \<and> (c \<longrightarrow> total_rank ids sm' ts' < total_rank ids sm ts)"
proof (induction ts arbitrary: sm ts' sm' c)
  case (Cons t ts)
  obtain t1 sm1 c1 where 1: "resolve_task ids sm t = (t1, sm1, c1)" by (metis prod_cases3)
  obtain ts2 sm2 c2 where 2: "resolve_sweep ids sm1 ts = (ts2, sm2, c2)" by (metis prod_cases3)
  have le: "sm_le sm sm1" "sm_le sm1 sm2" by (rule resolve_task_le [OF 1]) (rule resolve_sweep_le [OF 2])
  have "rank ids sm2 t1 \<le> rank ids sm t1" by (rule rank_mono [OF sm_le_trans [OF le]])
  moreover have "if c1 then rank ids sm t1 < rank ids sm t else t1 = t"
    using 1 resolve_task_rank resolve_task_same by (cases c1) auto
  moreover have "total_rank ids sm1 ts \<le> total_rank ids sm ts"
    unfolding total_rank_def by (rule sum_list_mono) (rule rank_mono [OF le(1)])
  ultimately show ?case
    using Cons.IH [OF 2] Cons.prems 1 2 by (auto simp: total_rank_def split: if_splits)
qed (simp add: total_rank_def)

function resolve_loop :: "ustr list \<Rightarrow> status_map \<Rightarrow> task list \<Rightarrow> task list \<times> status_map" where
  "resolve_loop ids sm ts =
     (case resolve_sweep ids sm ts of
        (ts', sm', True) \<Rightarrow> resolve_loop ids sm' ts'
      | (ts', sm', False) \<Rightarrow> (ts', sm'))"
  by pat_completeness auto
termination
  by (relation "measure (\<lambda>(ids, sm, ts). total_rank ids sm ts)") (auto dest: resolve_sweep_rank [OF sym])

declare resolve_loop.simps [simp del]

definition status_map_of :: "task list \<Rightarrow> status_map" where
  "status_map_of ts = dmerge [] (map (\<lambda>t. (tk_id t, tk_status t)) ts)"

definition resolve_statuses :: "plan \<Rightarrow> plan" where
  "resolve_statuses p =
     p\<lparr>pl_tasks := fst (resolve_loop (map tk_id (pl_tasks p)) (status_map_of (pl_tasks p)) (pl_tasks p))\<rparr>"

definition plan_status_of :: "task list \<Rightarrow> plan_status" where
  "plan_status_of ts =
     (let busy = (\<lambda>t. tk_status t = RUNNING \<or> tk_status t = READY)
      in if ts = [] then DRAFT
         else if list_all (\<lambda>t. is_done (tk_status t)) ts then COMPLETED
         else if list_ex (\<lambda>t. tk_status t = FAILED) ts \<and> \<not> list_ex busy ts then PLAN_FAILED
         else if list_ex busy ts then ACTIVE
         else DRAFT)"

definition update_plan_status :: "plan \<Rightarrow> plan" where
  "update_plan_status p = p\<lparr>pl_status := plan_status_of (pl_tasks p)\<rparr>"

subsection \<open>What the resolver computes\<close>

text \<open>The map agrees with the tasks it was built from; a sweep keeps it so.\<close>

definition agree :: "status_map \<Rightarrow> task list \<Rightarrow> bool" where
  "agree sm ts \<longleftrightarrow> (\<forall>t \<in> set ts. dget (tk_id t) sm = Some (tk_status t))"

definition same_task :: "task \<Rightarrow> task \<Rightarrow> bool" where
  "same_task t t' \<longleftrightarrow> t' = t\<lparr>tk_status := tk_status t'\<rparr> \<and>
     (if schedulable (tk_status t) then schedulable (tk_status t') else tk_status t' = tk_status t)"

lemma same_task_refl [simp]: "same_task t t"
  by (simp add: same_task_def)

lemma same_task_frame:
  "same_task t t' \<Longrightarrow> tk_id t' = tk_id t \<and> tk_depends_on t' = tk_depends_on t \<and>
     (schedulable (tk_status t') \<longleftrightarrow> schedulable (tk_status t))"
  unfolding same_task_def by (metis task.select_convs task.surjective task.update_convs(8))

lemma same_task_settled: "same_task a b \<Longrightarrow> \<not> schedulable (tk_status a) \<Longrightarrow> tk_status b = tk_status a"
  by (simp add: same_task_def)

lemma same_task_trans: "same_task a b \<Longrightarrow> same_task b c \<Longrightarrow> same_task a c"
  unfolding same_task_def by (auto split: if_splits) (metis task.surjective task.update_convs(8))+

lemma dset_same: "dget k d = Some v \<Longrightarrow> dset k v d = d"
  by (induction d) (auto split: if_splits)

lemma agree_status_map_of: "distinct (map tk_id ts) \<Longrightarrow> agree (status_map_of ts) ts"
  unfolding agree_def status_map_of_def
  by (subst dmerge_Nil) (auto simp: dict_ok_def comp_def intro!: map_of_is_SomeI)

lemma resolve_task_frame:
  assumes "resolve_task ids sm t = (t', sm', c)" "dget (tk_id t) sm = Some (tk_status t)"
  shows "same_task t t'" "dget (tk_id t) sm' = Some (tk_status t')"
    "d \<noteq> tk_id t \<Longrightarrow> dget d sm' = dget d sm" "\<not> c \<Longrightarrow> sm' = sm"
  using assms
  by (auto simp: resolve_task_def same_task_def schedulable_def dset_same split: if_splits)

lemma resolve_sweep_frame:
  "resolve_sweep ids sm ts = (ts', sm', c) \<Longrightarrow> distinct (map tk_id ts) \<Longrightarrow> agree sm ts \<Longrightarrow>
   agree sm' ts' \<and> list_all2 same_task ts ts' \<and> (\<forall>d. d \<notin> tk_id ` set ts \<longrightarrow> dget d sm' = dget d sm)"
proof (induction ts arbitrary: sm ts' sm' c)
  case (Cons t ts)
  obtain t1 sm1 c1 where 1: "resolve_task ids sm t = (t1, sm1, c1)" by (metis prod_cases3)
  obtain ts2 sm2 c2 where 2: "resolve_sweep ids sm1 ts = (ts2, sm2, c2)" by (metis prod_cases3)
  have t: "dget (tk_id t) sm = Some (tk_status t)" using Cons.prems(3) by (simp add: agree_def)
  note fr = resolve_task_frame [OF 1 t]
  have "agree sm1 ts" using Cons.prems(2,3) fr(3) by (auto simp: agree_def) (metis imageI)
  from Cons.IH [OF 2 _ this] Cons.prems(2)
  have ih: "agree sm2 ts2" "list_all2 same_task ts ts2" "\<And>d. d \<notin> tk_id ` set ts \<Longrightarrow> dget d sm2 = dget d sm1"
    by auto
  have "dget (tk_id t1) sm2 = Some (tk_status t1)"
    using ih(3) [of "tk_id t"] fr(1,2) Cons.prems(2) same_task_frame by (auto simp: image_iff)
  with ih fr(1,3) Cons.prems(1) 1 2 show ?case by (auto simp: agree_def)
qed (auto simp: agree_def)

lemma resolve_sweep_stable:
  "resolve_sweep ids sm ts = (ts', sm', False) \<Longrightarrow> agree sm ts \<Longrightarrow>
   ts' = ts \<and> sm' = sm \<and> (\<forall>t \<in> set ts. resolve_task ids sm t = (t, sm, False))"
proof (induction ts arbitrary: sm ts' sm')
  case (Cons t ts)
  obtain t1 sm1 c1 where 1: "resolve_task ids sm t = (t1, sm1, c1)" by (metis prod_cases3)
  obtain ts2 sm2 c2 where 2: "resolve_sweep ids sm1 ts = (ts2, sm2, c2)" by (metis prod_cases3)
  from Cons.prems(1) 1 2 have c: "\<not> c1" "\<not> c2" by auto
  have t: "dget (tk_id t) sm = Some (tk_status t)" using Cons.prems(2) by (simp add: agree_def)
  have eq: "t1 = t" "sm1 = sm" using 1 c resolve_task_same resolve_task_frame(4) [OF 1 t] by auto
  from Cons.IH [of sm ts2 sm2] 2 eq c Cons.prems(2) have "ts2 = ts \<and> sm2 = sm \<and> (\<forall>t \<in> set ts. resolve_task ids sm t = (t, sm, False))"
    by (auto simp: agree_def)
  with Cons.prems(1) 1 2 eq c show ?case by auto
qed simp

lemma list_all2_same_ids: "list_all2 same_task ts ts' \<Longrightarrow> map tk_id ts' = map tk_id ts"
  by (induction ts ts' rule: list_all2_induct) (auto dest: same_task_frame)

lemma list_all2_same_trans:
  "list_all2 same_task xs ys \<Longrightarrow> list_all2 same_task ys zs \<Longrightarrow> list_all2 same_task xs zs"
  by (rule list_all2_trans [of same_task same_task same_task]) (auto intro: same_task_trans)

lemma resolve_task_same_task: "resolve_task ids sm t = (t', sm', c) \<Longrightarrow> same_task t t'"
  by (auto simp: resolve_task_def same_task_def schedulable_def split: if_splits)

lemma resolve_sweep_same_task: "resolve_sweep ids sm ts = (ts', sm', c) \<Longrightarrow> list_all2 same_task ts ts'"
proof (induction ts arbitrary: sm ts' sm' c)
  case (Cons t ts)
  obtain t1 sm1 c1 where 1: "resolve_task ids sm t = (t1, sm1, c1)" by (metis prod_cases3)
  obtain ts2 sm2 c2 where 2: "resolve_sweep ids sm1 ts = (ts2, sm2, c2)" by (metis prod_cases3)
  from Cons.prems 1 2 resolve_task_same_task [OF 1] Cons.IH [OF 2] show ?case by auto
qed simp

lemma resolve_loop_same_task: "list_all2 same_task ts (fst (resolve_loop ids sm ts))"
proof (induction ids sm ts rule: resolve_loop.induct)
  case (1 ids sm ts)
  obtain ts1 sm1 c where sw: "resolve_sweep ids sm ts = (ts1, sm1, c)" by (metis prod_cases3)
  note s = resolve_sweep_same_task [OF sw]
  show ?case
  proof (cases c)
    case True
    with "1.IH" [of ts1 "(sm1, c)" sm1 c] sw s show ?thesis
      by (auto simp: resolve_loop.simps [of ids sm ts] intro: list_all2_same_trans)
  next
    case False
    with sw s show ?thesis by (simp add: resolve_loop.simps [of ids sm ts])
  qed
qed

lemma resolve_statuses_same_task: "list_all2 same_task (pl_tasks p) (pl_tasks (resolve_statuses p))"
  by (simp add: resolve_statuses_def resolve_loop_same_task)

text \<open>Where the loop stops: any invariant of the sweeps holds, and no task would change.\<close>

lemma resolve_loop_result:
  assumes sweep: "\<And>sm ts ts' sm' c. I sm ts \<Longrightarrow> distinct (map tk_id ts) \<Longrightarrow> agree sm ts \<Longrightarrow>
      resolve_sweep ids sm ts = (ts', sm', c) \<Longrightarrow> I sm' ts'"
  shows "ids' = ids \<Longrightarrow> I sm ts \<Longrightarrow> distinct (map tk_id ts) \<Longrightarrow> agree sm ts \<Longrightarrow>
    resolve_loop ids' sm ts = (rs, smr) \<Longrightarrow>
    I smr rs \<and> list_all2 same_task ts rs \<and> agree smr rs \<and>
    (\<forall>t \<in> set rs. resolve_task ids smr t = (t, smr, False))"
proof (induction ids' sm ts arbitrary: rs smr rule: resolve_loop.induct)
  case (1 ids' sm ts)
  obtain ts1 sm1 c where sw: "resolve_sweep ids sm ts = (ts1, sm1, c)" by (metis prod_cases3)
  note fr = resolve_sweep_frame [OF sw "1.prems"(3,4)]
  have I1: "I sm1 ts1" by (rule sweep [OF "1.prems"(2,3,4) sw])
  show ?case
  proof (cases c)
    case True
    with sw "1.prems" have r: "resolve_loop ids' sm1 ts1 = (rs, smr)"
      by (simp add: resolve_loop.simps [of ids sm ts])
    have "distinct (map tk_id ts1)" using list_all2_same_ids [of ts ts1] fr "1.prems"(3) by simp
    with "1.IH" [of ts1 "(sm1, c)" sm1 c] sw True "1.prems"(1) I1 fr r
    show ?thesis by (auto intro: list_all2_same_trans)
  next
    case False
    with sw "1.prems" have r: "rs = ts1" "smr = sm1"
      by (auto simp: resolve_loop.simps [of ids sm ts])
    with False sw resolve_sweep_stable [of ids sm ts ts1 sm1] "1.prems"(4) I1 fr show ?thesis by auto
  qed
qed

text \<open>The specification of blocking: a task is doomed when it waits, directly or through other
  waiting tasks, for a missing or a failed task.\<close>

inductive doomed :: "task list \<Rightarrow> ustr \<Rightarrow> bool" for ts where
  dep_missing: "t \<in> set ts \<Longrightarrow> schedulable (tk_status t) \<Longrightarrow> d \<in> set (tk_depends_on t) \<Longrightarrow>
     d \<notin> tk_id ` set ts \<Longrightarrow> doomed ts (tk_id t)"
| dep_failed: "t \<in> set ts \<Longrightarrow> schedulable (tk_status t) \<Longrightarrow> t' \<in> set ts \<Longrightarrow>
     tk_id t' \<in> set (tk_depends_on t) \<Longrightarrow> tk_status t' = FAILED \<Longrightarrow> doomed ts (tk_id t)"
| dep_doomed: "t \<in> set ts \<Longrightarrow> schedulable (tk_status t) \<Longrightarrow> d \<in> set (tk_depends_on t) \<Longrightarrow>
     doomed ts d \<Longrightarrow> doomed ts (tk_id t)"

text \<open>Every dependency exists and is finished.\<close>

definition deps_finished :: "task list \<Rightarrow> task \<Rightarrow> bool" where
  "deps_finished ts t \<longleftrightarrow> (\<forall>d \<in> set (tk_depends_on t). \<exists>t' \<in> set ts. tk_id t' = d \<and> is_done (tk_status t'))"

text \<open>A plan whose waiting tasks are all still \<open>PENDING\<close>.\<close>

definition fresh_tasks :: "task list \<Rightarrow> bool" where
  "fresh_tasks ts \<longleftrightarrow> (\<forall>t \<in> set ts. tk_status t \<noteq> BLOCKED \<and> tk_status t \<noteq> READY)"

text \<open>What is true of the recorded statuses throughout the loop.\<close>

definition sm_sound :: "task list \<Rightarrow> status_map \<Rightarrow> bool" where
  "sm_sound ts0 sm \<longleftrightarrow> (\<forall>t \<in> set ts0. \<exists>s. dget (tk_id t) sm = Some s \<and>
     (s = BLOCKED \<longrightarrow> doomed ts0 (tk_id t)) \<and> (s = READY \<longrightarrow> deps_finished ts0 t) \<and>
     (\<not> schedulable (tk_status t) \<longrightarrow> s = tk_status t) \<and> (schedulable (tk_status t) \<longrightarrow> schedulable s))"

lemma sm_sound_dep:
  "sm_sound ts0 sm \<Longrightarrow> t \<in> set ts0 \<Longrightarrow> dget (tk_id t) sm = Some s \<Longrightarrow>
     (s = BLOCKED \<longrightarrow> doomed ts0 (tk_id t)) \<and> (\<not> schedulable s \<longrightarrow> tk_status t = s)"
  unfolding sm_sound_def by fastforce

lemma resolve_task_sound:
  assumes sound: "sm_sound ts0 sm" and dist: "distinct (map tk_id ts0)"
    and t0: "t0 \<in> set ts0" "same_task t0 t"
    and r: "resolve_task (map tk_id ts0) sm t = (t', sm', c)"
    and st: "dget (tk_id t) sm = Some (tk_status t)"
  shows "sm_sound ts0 sm'"
proof -
  let ?ids = "map tk_id ts0"
  have fr: "tk_id t = tk_id t0" "tk_depends_on t = tk_depends_on t0"
    "schedulable (tk_status t) \<longleftrightarrow> schedulable (tk_status t0)" using same_task_frame [OF t0(2)] by auto
  have uniq: "t1 = t0" if "t1 \<in> set ts0" "tk_id t1 = tk_id t0" for t1
    using that t0(1) dist by (auto simp: distinct_map inj_on_def)
  show ?thesis
  proof (cases "sm' = sm")
    case True
    with sound show ?thesis by simp
  next
    case False
    with r st have sched: "schedulable (tk_status t)" by (auto simp: resolve_task_def split: if_splits)
    have doom: "doomed ts0 (tk_id t0)" if "missing_deps ?ids t \<noteq> [] \<or> any_failed ?ids sm t"
    proof -
      from that consider d where "d \<in> set (tk_depends_on t0)" "d \<notin> tk_id ` set ts0"
        | t1 s where "t1 \<in> set ts0" "tk_id t1 \<in> set (tk_depends_on t0)" "dget (tk_id t1) sm = Some s" "is_stuck s"
        unfolding missing_iff any_failed_iff fr by auto
      then show ?thesis
      proof cases
        case 1
        with t0(1) sched fr show ?thesis by (auto intro: doomed.dep_missing)
      next
        case 2
        with sm_sound_dep [OF sound 2(1,3)] t0(1) sched fr show ?thesis
          by (cases "s = BLOCKED")
            (auto simp: is_stuck_def schedulable_def intro: doomed.dep_doomed doomed.dep_failed)
      qed
    qed
    have fin: "deps_finished ts0 t0" if "all_done ?ids sm t \<or> tk_depends_on t = []"
      unfolding deps_finished_def
    proof
      fix d assume d: "d \<in> set (tk_depends_on t0)"
      with that fr obtain t1 s where t1: "t1 \<in> set ts0" "tk_id t1 = d" "dget d sm = Some s" "is_done s"
        unfolding all_done_iff by auto
      with sm_sound_dep [OF sound t1(1)] have "tk_status t1 = s" by (auto dest: not_done_schedulable)
      with t1 show "\<exists>t' \<in> set ts0. tk_id t' = d \<and> is_done (tk_status t')" by blast
    qed
    show ?thesis
      unfolding sm_sound_def
    proof
      fix t1 assume t1: "t1 \<in> set ts0"
      show "\<exists>s. dget (tk_id t1) sm' = Some s \<and>
         (s = BLOCKED \<longrightarrow> doomed ts0 (tk_id t1)) \<and> (s = READY \<longrightarrow> deps_finished ts0 t1) \<and>
         (\<not> schedulable (tk_status t1) \<longrightarrow> s = tk_status t1) \<and> (schedulable (tk_status t1) \<longrightarrow> schedulable s)"
      proof (cases "tk_id t1 = tk_id t0")
        case True
        with uniq [OF t1] have "t1 = t0" by simp
        with False r st sched doom fin fr show ?thesis
          by (auto simp: resolve_task_def schedulable_def dset_same split: if_splits)
      next
        case False
        then have "dget (tk_id t1) sm' = dget (tk_id t1) sm"
          using resolve_task_frame(3) [OF r st] fr by simp
        with sound t1 show ?thesis unfolding sm_sound_def by simp
      qed
    qed
  qed
qed

lemma resolve_sweep_sound:
  "resolve_sweep (map tk_id ts0) sm ts = (ts', sm', c) \<Longrightarrow> sm_sound ts0 sm \<Longrightarrow> distinct (map tk_id ts0) \<Longrightarrow>
   distinct (map tk_id ts) \<Longrightarrow> agree sm ts \<Longrightarrow> (\<And>t. t \<in> set ts \<Longrightarrow> \<exists>t0 \<in> set ts0. same_task t0 t) \<Longrightarrow>
   sm_sound ts0 sm'"
proof (induction ts arbitrary: sm ts' sm' c)
  case (Cons t ts)
  obtain t1 sm1 c1 where 1: "resolve_task (map tk_id ts0) sm t = (t1, sm1, c1)" by (metis prod_cases3)
  obtain ts2 sm2 c2 where 2: "resolve_sweep (map tk_id ts0) sm1 ts = (ts2, sm2, c2)" by (metis prod_cases3)
  have t: "dget (tk_id t) sm = Some (tk_status t)" using Cons.prems(5) by (simp add: agree_def)
  obtain t0 where t0: "t0 \<in> set ts0" "same_task t0 t" using Cons.prems(6) [of t] by auto
  have "sm_sound ts0 sm1" by (rule resolve_task_sound [OF Cons.prems(2,3) t0 1 t])
  moreover have "agree sm1 ts"
    using Cons.prems(4,5) resolve_task_frame(3) [OF 1 t] by (auto simp: agree_def) (metis imageI)
  ultimately have "sm_sound ts0 sm2" using Cons.IH [OF 2] Cons.prems by auto
  with Cons.prems(1) 1 2 show ?case by auto
qed simp

lemma fresh_sound: "fresh_tasks ts \<Longrightarrow> distinct (map tk_id ts) \<Longrightarrow> sm_sound ts (status_map_of ts)"
  using agree_status_map_of [of ts] by (auto simp: sm_sound_def fresh_tasks_def agree_def)

lemma list_all2_mem2: "list_all2 P xs ys \<Longrightarrow> y \<in> set ys \<Longrightarrow> \<exists>x \<in> set xs. P x y"
  by (induction xs ys rule: list_all2_induct) auto

lemma list_all2_mem1: "list_all2 P xs ys \<Longrightarrow> x \<in> set xs \<Longrightarrow> \<exists>y \<in> set ys. P x y"
  by (induction xs ys rule: list_all2_induct) auto

lemma resolve_statuses_result:
  assumes dist: "distinct (map tk_id (pl_tasks p))"
  obtains sm where "list_all2 same_task (pl_tasks p) (pl_tasks (resolve_statuses p))"
    "agree sm (pl_tasks (resolve_statuses p))"
    "\<forall>t \<in> set (pl_tasks (resolve_statuses p)). resolve_task (map tk_id (pl_tasks p)) sm t = (t, sm, False)"
    "fresh_tasks (pl_tasks p) \<longrightarrow> sm_sound (pl_tasks p) sm"
proof -
  let ?ts = "pl_tasks p"
  let ?I = "\<lambda>sm ts. (fresh_tasks ?ts \<longrightarrow> sm_sound ?ts sm) \<and> list_all2 same_task ?ts ts"
  obtain rs sm where r: "resolve_loop (map tk_id ?ts) (status_map_of ?ts) ?ts = (rs, sm)" by force
  have "?I sm rs \<and> list_all2 same_task ?ts rs \<and> agree sm rs \<and>
      (\<forall>t \<in> set rs. resolve_task (map tk_id ?ts) sm t = (t, sm, False))"
  proof (rule resolve_loop_result [of ?I, OF _ refl _ dist agree_status_map_of [OF dist] r])
    fix sm ts ts' sm' c
    assume I: "?I sm ts" and d: "distinct (map tk_id ts)" and a: "agree sm ts"
      and sw: "resolve_sweep (map tk_id ?ts) sm ts = (ts', sm', c)"
    have "sm_sound ?ts sm'" if "fresh_tasks ?ts"
    proof (rule resolve_sweep_sound [OF sw _ dist d a])
      show "sm_sound ?ts sm" using I that by blast
    qed (rule list_all2_mem2 [OF conjunct2 [OF I]])
    with I resolve_sweep_frame [OF sw d a] show "?I sm' ts'" by (blast intro: list_all2_same_trans)
  qed (simp add: fresh_sound dist list_all2_refl)
  then show ?thesis using r that [of sm] by (simp add: resolve_statuses_def)
qed

definition task_with :: "task list \<Rightarrow> ustr \<Rightarrow> task_status \<Rightarrow> bool" where
  "task_with ts d s \<longleftrightarrow> (\<exists>t \<in> set ts. tk_id t = d \<and> tk_status t = s)"

lemma agree_dep: "agree sm ts \<Longrightarrow> t \<in> set ts \<Longrightarrow> dget (tk_id t) sm = Some (tk_status t)"
  by (simp add: agree_def)

lemma stable_blocked:
  assumes st: "resolve_task ids sm t = (t, sm, False)" and sch: "schedulable (tk_status t)"
    and bad: "missing_deps ids t \<noteq> [] \<or> any_failed ids sm t"
  shows "tk_status t = BLOCKED"
  using assms by (auto simp: resolve_task_def split: if_splits)

lemma stable_ready:
  assumes st: "resolve_task ids sm t = (t, sm, False)" and sch: "schedulable (tk_status t)"
    and fin: "all_done ids sm t"
  shows "tk_status t = READY"
proof -
  have "missing_deps ids t = []" "\<not> any_failed ids sm t"
    using fin doneable_no_failed [of ids sm t] by (auto simp: all_done_def doneable_def)
  with assms show ?thesis by (auto simp: resolve_task_def split: if_splits)
qed

lemma resolver_consistent:
  assumes dist: "distinct (map tk_id (pl_tasks p))"
  defines "rs \<equiv> pl_tasks (resolve_statuses p)"
  shows "list_all2 same_task (pl_tasks p) rs
    \<and> (\<forall>t \<in> set rs. schedulable (tk_status t) \<longrightarrow>
         ((\<exists>d \<in> set (tk_depends_on t). d \<notin> tk_id ` set rs \<or> task_with rs d FAILED \<or> task_with rs d BLOCKED)
            \<longrightarrow> tk_status t = BLOCKED)
       \<and> (deps_finished rs t \<longrightarrow> tk_status t = READY))"
proof -
  obtain sm where all2: "list_all2 same_task (pl_tasks p) rs" and ag: "agree sm rs"
    and st: "\<forall>t \<in> set rs. resolve_task (map tk_id (pl_tasks p)) sm t = (t, sm, False)"
    unfolding rs_def using resolve_statuses_result [OF dist] by metis
  have ids: "map tk_id (pl_tasks p) = map tk_id rs" using list_all2_same_ids [OF all2] by simp
  have "tk_status t = BLOCKED"
    if t: "t \<in> set rs" "schedulable (tk_status t)" and d: "d \<in> set (tk_depends_on t)"
      "d \<notin> tk_id ` set rs \<or> task_with rs d FAILED \<or> task_with rs d BLOCKED" for t d
  proof (rule stable_blocked [OF bspec [OF st t(1)] t(2)])
    show "missing_deps (map tk_id (pl_tasks p)) t \<noteq> [] \<or> any_failed (map tk_id (pl_tasks p)) sm t"
      using d agree_dep [OF ag] unfolding ids missing_iff any_failed_iff
      by (fastforce simp: task_with_def is_stuck_def)
  qed
  moreover have "tk_status t = READY"
    if t: "t \<in> set rs" "schedulable (tk_status t)" and d: "deps_finished rs t" for t
  proof (rule stable_ready [OF bspec [OF st t(1)] t(2)])
    show "all_done (map tk_id (pl_tasks p)) sm t"
      using d agree_dep [OF ag] unfolding ids all_done_iff by (fastforce simp: deps_finished_def)
  qed
  ultimately show ?thesis using all2 by blast
qed

text \<open>
  Claim C30.  The resolver reaches a consistent plan for any plan with distinct task ids (cycles
  included): it changes nothing but the status of waiting tasks; afterwards a waiting task with a
  missing, failed or blocked dependency is blocked, and one whose dependencies are all finished (in
  particular one without dependencies) is ready.
\<close>

theorem resolver_reaches_consistent_statuses:
  assumes "distinct (map tk_id (pl_tasks p))"
  shows "list_all2 same_task (pl_tasks p) (pl_tasks (resolve_statuses p))
    \<and> (\<forall>t \<in> set (pl_tasks (resolve_statuses p)). schedulable (tk_status t) \<longrightarrow>
         ((\<exists>d \<in> set (tk_depends_on t). d \<notin> tk_id ` set (pl_tasks (resolve_statuses p))
             \<or> task_with (pl_tasks (resolve_statuses p)) d FAILED
             \<or> task_with (pl_tasks (resolve_statuses p)) d BLOCKED) \<longrightarrow> tk_status t = BLOCKED)
       \<and> (deps_finished (pl_tasks (resolve_statuses p)) t \<longrightarrow> tk_status t = READY))"
  using assms by (rule resolver_consistent)

definition sample_task :: "string \<Rightarrow> string list \<Rightarrow> task_status \<Rightarrow> task" where
  "sample_task i deps s = \<lparr>tk_id = u i, tk_name = u i, tk_description = [], tk_type = NOOP,
     tk_command = [], tk_prompt = None, tk_depends_on = map u deps, tk_status = s, tk_result = None,
     tk_log = [], tk_started_at = None, tk_completed_at = None, tk_created_at = 0, tk_cwd = None,
     tk_stop_reason = None, tk_cancelled = False, tk_partial = False, tk_timed_out = False,
     tk_chat_id = None, tk_acp_model = None, tk_acp_timeout = None, tk_mcp_servers = None,
     tk_dispatch_id = None, tk_quiet = False\<rparr>"

definition sample_plan :: "task list \<Rightarrow> plan" where
  "sample_plan ts = \<lparr>pl_id = u ''p'', pl_name = u ''p'', pl_description = [], pl_status = DRAFT,
     pl_chat_id = None, pl_origin = u ''system'', pl_tasks = ts, pl_created_at = 0, pl_updated_at = 0\<rparr>"

theorem resolver_reaches_consistent_statuses_witness:
  "list_all2 same_task [sample_task ''a'' [''b''] PENDING, sample_task ''b'' [] PENDING]
     (pl_tasks (resolve_statuses (sample_plan [sample_task ''a'' [''b''] PENDING, sample_task ''b'' [] PENDING])))"
proof -
  have "distinct (map tk_id (pl_tasks (sample_plan [sample_task ''a'' [''b''] PENDING, sample_task ''b'' [] PENDING])))"
    by (simp add: sample_plan_def sample_task_def)
  from resolver_reaches_consistent_statuses [OF this] show ?thesis by (simp add: sample_plan_def)
qed

lemma doomed_is_blocked:
  assumes "doomed ts0 i" and all2: "list_all2 same_task ts0 rs" and ag: "agree sm rs"
    and st: "\<forall>t \<in> set rs. resolve_task (map tk_id ts0) sm t = (t, sm, False)"
  shows "\<exists>t \<in> set rs. tk_id t = i \<and> tk_status t = BLOCKED"
  using assms(1)
proof induction
  case (dep_missing t d)
  obtain t' where t': "t' \<in> set rs" "same_task t t'" using list_all2_mem1 [OF all2 dep_missing(1)] by blast
  note fr = same_task_frame [OF t'(2)]
  have "tk_status t' = BLOCKED"
    using stable_blocked [OF bspec [OF st t'(1)]] dep_missing fr by (auto simp: missing_iff)
  with t'(1) fr show ?case by auto
next
  case (dep_failed t f)
  obtain t' where t': "t' \<in> set rs" "same_task t t'" using list_all2_mem1 [OF all2 dep_failed(1)] by blast
  obtain f' where f': "f' \<in> set rs" "same_task f f'" using list_all2_mem1 [OF all2 dep_failed(3)] by blast
  note fr = same_task_frame [OF t'(2)]
  have "tk_id f' = tk_id f" "tk_status f' = FAILED"
    using same_task_frame [OF f'(2)] f'(2) dep_failed(5) by (auto simp: same_task_def schedulable_def)
  then have "any_failed (map tk_id ts0) sm t'"
    using agree_dep [OF ag f'(1)] dep_failed fr unfolding any_failed_iff by (auto simp: is_stuck_def)
  then have "tk_status t' = BLOCKED"
    using stable_blocked [OF bspec [OF st t'(1)]] dep_failed fr by auto
  with t'(1) fr show ?case by auto
next
  case (dep_doomed t d)
  obtain t' where t': "t' \<in> set rs" "same_task t t'" using list_all2_mem1 [OF all2 dep_doomed(1)] by blast
  obtain b where b: "b \<in> set rs" "tk_id b = d" "tk_status b = BLOCKED" using dep_doomed.IH by blast
  note fr = same_task_frame [OF t'(2)]
  have "d \<in> set (map tk_id ts0)" using b(1,2) list_all2_same_ids [OF all2] by (metis image_eqI list.set_map)
  then have "any_failed (map tk_id ts0) sm t'"
    using agree_dep [OF ag b(1)] b dep_doomed(3) fr unfolding any_failed_iff by (auto simp: is_stuck_def)
  then have "tk_status t' = BLOCKED"
    using stable_blocked [OF bspec [OF st t'(1)]] dep_doomed fr by auto
  with t'(1) fr show ?case by auto
qed

lemma sm_sound_all_done:
  assumes so: "sm_sound ts sm"
  shows "all_done (map tk_id ts) sm t \<longleftrightarrow> deps_finished ts t"
  unfolding all_done_iff deps_finished_def
proof (intro ball_cong refl iffI)
  fix d assume "d \<in> set (map tk_id ts) \<and> (\<exists>s. dget d sm = Some s \<and> is_done s)"
  then obtain x s where x: "x \<in> set ts" "tk_id x = d" "dget d sm = Some s" "is_done s" by auto
  with sm_sound_dep [OF so x(1)] not_done_schedulable have "tk_status x = s" by blast
  with x show "\<exists>t' \<in> set ts. tk_id t' = d \<and> is_done (tk_status t')" by blast
next
  fix d assume "\<exists>t' \<in> set ts. tk_id t' = d \<and> is_done (tk_status t')"
  then obtain x where x: "x \<in> set ts" "tk_id x = d" "is_done (tk_status x)" by blast
  then have "dget d sm = Some (tk_status x)"
    using so not_done_schedulable unfolding sm_sound_def by metis
  with x show "d \<in> set (map tk_id ts) \<and> (\<exists>s. dget d sm = Some s \<and> is_done s)" by auto
qed

text \<open>
  Claim C3.  On a plan whose waiting tasks are all still pending, the resolver computes exactly the
  specification: a task becomes blocked if and only if it waits, directly or through other waiting
  tasks, for a missing or failed task, and ready if and only if every dependency exists and has finished.
\<close>

theorem resolver_meets_specification:
  assumes dist: "distinct (map tk_id (pl_tasks p))" and fresh: "fresh_tasks (pl_tasks p)"
    and t: "t \<in> set (pl_tasks (resolve_statuses p))"
  shows "(tk_status t = BLOCKED \<longleftrightarrow> doomed (pl_tasks p) (tk_id t))
       \<and> (tk_status t = READY \<longleftrightarrow>
            task_with (pl_tasks p) (tk_id t) PENDING \<and> deps_finished (pl_tasks p) t)"
proof -
  let ?rs = "pl_tasks (resolve_statuses p)"
  obtain sm where all2: "list_all2 same_task (pl_tasks p) ?rs" and ag: "agree sm ?rs"
    and st: "\<forall>t \<in> set ?rs. resolve_task (map tk_id (pl_tasks p)) sm t = (t, sm, False)"
    and so: "sm_sound (pl_tasks p) sm"
    using resolve_statuses_result [OF dist] fresh by metis
  have uniq: "x = y" if "x \<in> set ?rs" "y \<in> set ?rs" "tk_id x = tk_id y" for x y
    using that dist list_all2_same_ids [OF all2] by (metis distinct_map inj_on_def)
  have uniq0: "x = y" if "x \<in> set (pl_tasks p)" "y \<in> set (pl_tasks p)" "tk_id x = tk_id y" for x y
    using that dist by (auto simp: distinct_map inj_on_def)
  obtain t0 where t0: "t0 \<in> set (pl_tasks p)" "same_task t0 t" using list_all2_mem2 [OF all2 t] by blast
  note fr = same_task_frame [OF t0(2)]
  have sm: "dget (tk_id t0) sm = Some (tk_status t)" using agree_dep [OF ag t] fr by simp
  have blocked: "tk_status t = BLOCKED \<longleftrightarrow> doomed (pl_tasks p) (tk_id t)"
  proof
    assume "tk_status t = BLOCKED"
    with sm_sound_dep [OF so t0(1) sm] fr show "doomed (pl_tasks p) (tk_id t)" by simp
  next
    assume "doomed (pl_tasks p) (tk_id t)"
    from doomed_is_blocked [OF this all2 ag st] uniq [OF t] show "tk_status t = BLOCKED" by metis
  qed
  have pend: "task_with (pl_tasks p) (tk_id t) PENDING \<longleftrightarrow> schedulable (tk_status t0)"
    using fresh t0(1) uniq0 [OF _ t0(1)] fr by (auto simp: task_with_def fresh_tasks_def schedulable_def)
  note fin = sm_sound_all_done [OF so, of t]
  have "tk_status t = READY \<longleftrightarrow> schedulable (tk_status t0) \<and> deps_finished (pl_tasks p) t"
  proof
    assume r: "tk_status t = READY"
    then have "schedulable (tk_status t0)" using fr by (simp add: schedulable_def)
    moreover have "deps_finished (pl_tasks p) t0"
      using so t0(1) sm r unfolding sm_sound_def by fastforce
    ultimately show "schedulable (tk_status t0) \<and> deps_finished (pl_tasks p) t"
      using fr by (simp add: deps_finished_def)
  next
    assume "schedulable (tk_status t0) \<and> deps_finished (pl_tasks p) t"
    with stable_ready [OF bspec [OF st t]] fin fr show "tk_status t = READY" by simp
  qed
  with blocked pend show ?thesis by simp
qed

theorem resolver_meets_specification_witness:
  "\<exists>t \<in> set (pl_tasks (resolve_statuses (sample_plan [sample_task ''a'' [''b''] PENDING, sample_task ''b'' [] FAILED]))).
     tk_id t = u ''a'' \<and> tk_status t = BLOCKED"
proof -
  let ?ts = "[sample_task ''a'' [''b''] PENDING, sample_task ''b'' [] FAILED]"
  let ?p = "sample_plan ?ts"
  have ts: "pl_tasks ?p = ?ts" by (simp add: sample_plan_def)
  have dist: "distinct (map tk_id (pl_tasks ?p))" unfolding ts by (simp add: sample_task_def)
  have fresh: "fresh_tasks (pl_tasks ?p)" unfolding ts by (simp add: fresh_tasks_def sample_task_def)
  have doom: "doomed (pl_tasks ?p) (u ''a'')"
    using doomed.dep_failed [of "sample_task ''a'' [''b''] PENDING" ?ts "sample_task ''b'' [] FAILED"]
    unfolding ts by (simp add: sample_task_def schedulable_def)
  obtain sm where all2: "list_all2 same_task (pl_tasks ?p) (pl_tasks (resolve_statuses ?p))"
    using resolve_statuses_result [OF dist] by metis
  obtain t where t: "t \<in> set (pl_tasks (resolve_statuses ?p))" "same_task (sample_task ''a'' [''b''] PENDING) t"
    using list_all2_mem1 [OF all2] by (auto simp: ts)
  then have "tk_id t = u ''a''" using same_task_frame [OF t(2)] by (simp add: sample_task_def)
  with resolver_meets_specification [OF dist fresh t(1)] t(1) doom show ?thesis by auto
qed

end
