(* ===== verification/PlanManager.thy ===== *)
theory PlanManager
  imports PlanResolve
begin

section \<open>The plan manager\<close>

text \<open>
  \<open>src/src/diploid_agent/plan/manager.py\<close>.  Plans live in a JSON-lines file; every operation runs as a
  transaction under the cross-process lock (re-read, apply, rewrite), like those of the wake queue.
  What \<open>Plan.model_dump\<close> and \<open>Plan.model_validate\<close> of the pydantic library make of a line is not
  modelled: a line is blank, rejected, or the plan it encodes.  An operation returns its value and
  the plan handed to \<open>_notify_change\<close>, if any.
\<close>

type_synonym plans = "(ustr, plan) dict"

record plan_store =
  ps_file :: "plan line list"
  ps_plans :: plans

definition plan_load :: "plan line list \<Rightarrow> py_exn + plans" where
  "plan_load ls = jsonl_load_from Good pl_id [] ls"

definition plan_save :: "plans \<Rightarrow> plan line list" where
  "plan_save d = jsonl_save (\<lambda>p. p) d"

interpretation plan_codec: jsonl_codec "\<lambda>p. p" Good pl_id "\<lambda>_. True"
  by unfold_locales simp_all

definition plan_transaction :: "(plans \<Rightarrow> plans \<times> 'r) \<Rightarrow> plan_store \<Rightarrow> plan_store \<times> (py_exn + 'r)" where
  "plan_transaction body q =
     (case plan_load (ps_file q) of
        Inl e \<Rightarrow> (q, Inl e)
      | Inr d \<Rightarrow> (let (d', r) = body d in (\<lparr>ps_file = plan_save d', ps_plans = d'\<rparr>, Inr r)))"

subsection \<open>Looking up and replacing a task of a plan\<close>

definition get_task_in_plan :: "plan \<Rightarrow> ustr \<Rightarrow> task option" where
  "get_task_in_plan p i = find (\<lambda>t. tk_id t = i) (pl_tasks p)"

text \<open>The found task is mutated in place: the first one with the id.\<close>

fun update_first :: "ustr \<Rightarrow> (task \<Rightarrow> task) \<Rightarrow> task list \<Rightarrow> task list" where
  "update_first i f [] = []"
| "update_first i f (t # ts) = (if tk_id t = i then f t # ts else t # update_first i f ts)"

definition set_task :: "ustr \<Rightarrow> (task \<Rightarrow> task) \<Rightarrow> plan \<Rightarrow> plan" where
  "set_task i f p = p\<lparr>pl_tasks := update_first i f (pl_tasks p)\<rparr>"

definition settle :: "plan \<Rightarrow> plan" where
  "settle p = update_plan_status (resolve_statuses p)"

definition touch :: "secs \<Rightarrow> plan \<Rightarrow> plan" where
  "touch t p = p\<lparr>pl_updated_at := t\<rparr>"

subsection \<open>Operations\<close>

type_synonym 'r changed = "'r \<times> plan option"

text \<open>\<open>fresh i\<close> is the id generated for the \<open>i\<close>-th task that has none.\<close>

definition assign_ids :: "(nat \<Rightarrow> ustr) \<Rightarrow> task list \<Rightarrow> task list" where
  "assign_ids fresh ts = map (\<lambda>(i, t). if tk_id t = [] then t\<lparr>tk_id := fresh i\<rparr> else t) (enumerate 0 ts)"

definition new_plan :: "ustr \<Rightarrow> (nat \<Rightarrow> ustr) \<Rightarrow> ustr \<Rightarrow> ustr \<Rightarrow> ustr option \<Rightarrow> task list \<Rightarrow> ustr \<Rightarrow> secs \<Rightarrow> plan" where
  "new_plan pid fresh name desc chat tasks origin now =
     settle \<lparr>pl_id = pid, pl_name = name, pl_description = desc, pl_status = DRAFT, pl_chat_id = chat,
       pl_origin = origin, pl_tasks = assign_ids fresh tasks, pl_created_at = now, pl_updated_at = now\<rparr>"

definition create_plan_body :: "plan \<Rightarrow> plans \<Rightarrow> plans \<times> plan changed" where
  "create_plan_body p d = (dset (pl_id p) p d, (p, Some p))"

definition get_plan_body :: "ustr \<Rightarrow> plans \<Rightarrow> plans \<times> plan option" where
  "get_plan_body pid d = (d, dget pid d)"

definition list_plans_body :: "ustr option \<Rightarrow> plans \<Rightarrow> plans \<times> plan list" where
  "list_plans_body chat d =
     (d, sort_key (\<lambda>p. - pl_created_at p)
        (filter (\<lambda>p. case chat of None \<Rightarrow> True | Some c \<Rightarrow> pl_chat_id p = Some c) (dvals d)))"

definition add_task_body :: "ustr \<Rightarrow> task \<Rightarrow> secs \<Rightarrow> plans \<Rightarrow> plans \<times> task option changed" where
  "add_task_body pid t now d =
     (case dget pid d of
        None \<Rightarrow> (d, (None, None))
      | Some p \<Rightarrow>
          if tk_id t \<in> tk_id ` set (pl_tasks p) then (d, (None, None))
          else let p' = touch now (settle (p\<lparr>pl_tasks := pl_tasks p @ [t]\<rparr>))
               in (dset pid p' d, (get_task_in_plan p' (tk_id t), Some p')))"

definition get_task_body :: "ustr \<Rightarrow> ustr \<Rightarrow> plans \<Rightarrow> plans \<times> task option" where
  "get_task_body pid tid d =
     (d, case dget pid d of None \<Rightarrow> None | Some p \<Rightarrow> get_task_in_plan p tid)"

definition get_ready_tasks_body :: "ustr \<Rightarrow> plans \<Rightarrow> plans \<times> task list" where
  "get_ready_tasks_body pid d =
     (d, case dget pid d of None \<Rightarrow> [] | Some p \<Rightarrow> filter (\<lambda>t. tk_status t = READY) (pl_tasks p))"

definition start_task_body :: "ustr \<Rightarrow> ustr \<Rightarrow> secs \<Rightarrow> plans \<Rightarrow> plans \<times> task option changed" where
  "start_task_body pid tid now d =
     (case dget pid d of
        None \<Rightarrow> (d, (None, None))
      | Some p \<Rightarrow>
          (case get_task_in_plan p tid of
             None \<Rightarrow> (d, (None, None))
           | Some t \<Rightarrow>
               if tk_status t \<noteq> READY then (d, (None, None))
               else let p' = touch now (update_plan_status
                           (set_task tid (\<lambda>t. t\<lparr>tk_status := RUNNING, tk_started_at := Some now\<rparr>) p))
                    in (dset pid p' d, (get_task_in_plan p' tid, Some p'))))"

text \<open>How a run ended: the keyword arguments of \<open>complete_task\<close> and \<open>fail_task\<close>.\<close>

record run_end =
  re_stop_reason :: "ustr option"
  re_cancelled :: bool
  re_partial :: bool
  re_timed_out :: bool

definition plain_end :: run_end where
  "plain_end = \<lparr>re_stop_reason = None, re_cancelled = False, re_partial = False, re_timed_out = False\<rparr>"

definition record_end :: "run_end \<Rightarrow> secs \<Rightarrow> task \<Rightarrow> task" where
  "record_end e now t = t\<lparr>tk_completed_at := Some now, tk_stop_reason := re_stop_reason e,
     tk_cancelled := re_cancelled e, tk_partial := re_partial e, tk_timed_out := re_timed_out e\<rparr>"

definition completed_task :: "ustr \<Rightarrow> ustr \<Rightarrow> run_end \<Rightarrow> secs \<Rightarrow> task \<Rightarrow> task" where
  "completed_task result lg e now t =
     (record_end e now t)\<lparr>tk_status :=
        (if re_cancelled e \<or> re_partial e \<or> re_timed_out e then INCOMPLETE else DONE),
        tk_result := Some result, tk_log := lg\<rparr>"

definition failed_task :: "ustr \<Rightarrow> run_end \<Rightarrow> secs \<Rightarrow> task \<Rightarrow> task" where
  "failed_task lg e now t = (record_end e now t)\<lparr>tk_status := FAILED, tk_log := lg\<rparr>"

definition finish_body :: "ustr \<Rightarrow> ustr \<Rightarrow> (task \<Rightarrow> task) \<Rightarrow> secs \<Rightarrow> plans \<Rightarrow> plans \<times> task option changed" where
  "finish_body pid tid f now' d =
     (case dget pid d of
        None \<Rightarrow> (d, (None, None))
      | Some p \<Rightarrow>
          (case get_task_in_plan p tid of
             None \<Rightarrow> (d, (None, None))
           | Some t \<Rightarrow>
               let p' = touch now' (settle (set_task tid f p))
               in (dset pid p' d, (get_task_in_plan p' tid, Some p'))))"

definition complete_task_body ::
  "ustr \<Rightarrow> ustr \<Rightarrow> ustr \<Rightarrow> ustr \<Rightarrow> run_end \<Rightarrow> secs \<Rightarrow> secs \<Rightarrow> plans \<Rightarrow> plans \<times> task option changed" where
  "complete_task_body pid tid result lg e now now' = finish_body pid tid (completed_task result lg e now) now'"

definition fail_task_body ::
  "ustr \<Rightarrow> ustr \<Rightarrow> ustr \<Rightarrow> run_end \<Rightarrow> secs \<Rightarrow> secs \<Rightarrow> plans \<Rightarrow> plans \<times> task option changed" where
  "fail_task_body pid tid lg e now now' = finish_body pid tid (failed_task lg e now) now'"

definition create_plan ::
  "ustr \<Rightarrow> (nat \<Rightarrow> ustr) \<Rightarrow> ustr \<Rightarrow> ustr \<Rightarrow> ustr option \<Rightarrow> task list \<Rightarrow> ustr \<Rightarrow> secs
    \<Rightarrow> plan_store \<Rightarrow> plan_store \<times> (py_exn + plan changed)" where
  "create_plan pid fresh name desc chat tasks origin now =
     plan_transaction (create_plan_body (new_plan pid fresh name desc chat tasks origin now))"

definition get_plan :: "ustr \<Rightarrow> plan_store \<Rightarrow> plan_store \<times> (py_exn + plan option)" where
  "get_plan pid = plan_transaction (get_plan_body pid)"

definition list_plans :: "ustr option \<Rightarrow> plan_store \<Rightarrow> plan_store \<times> (py_exn + plan list)" where
  "list_plans chat = plan_transaction (list_plans_body chat)"

definition add_task :: "ustr \<Rightarrow> ustr \<Rightarrow> task \<Rightarrow> secs \<Rightarrow> plan_store \<Rightarrow> plan_store \<times> (py_exn + task option changed)" where
  "add_task fresh pid t now =
     plan_transaction (add_task_body pid (if tk_id t = [] then t\<lparr>tk_id := fresh\<rparr> else t) now)"

definition get_task :: "ustr \<Rightarrow> ustr \<Rightarrow> plan_store \<Rightarrow> plan_store \<times> (py_exn + task option)" where
  "get_task pid tid = plan_transaction (get_task_body pid tid)"

definition get_ready_tasks :: "ustr \<Rightarrow> plan_store \<Rightarrow> plan_store \<times> (py_exn + task list)" where
  "get_ready_tasks pid = plan_transaction (get_ready_tasks_body pid)"

definition start_task :: "ustr \<Rightarrow> ustr \<Rightarrow> secs \<Rightarrow> plan_store \<Rightarrow> plan_store \<times> (py_exn + task option changed)" where
  "start_task pid tid now = plan_transaction (start_task_body pid tid now)"

definition complete_task ::
  "ustr \<Rightarrow> ustr \<Rightarrow> ustr \<Rightarrow> ustr \<Rightarrow> run_end \<Rightarrow> secs \<Rightarrow> secs \<Rightarrow> plan_store
    \<Rightarrow> plan_store \<times> (py_exn + task option changed)" where
  "complete_task pid tid result lg e now now' = plan_transaction (complete_task_body pid tid result lg e now now')"

definition fail_task ::
  "ustr \<Rightarrow> ustr \<Rightarrow> ustr \<Rightarrow> run_end \<Rightarrow> secs \<Rightarrow> secs \<Rightarrow> plan_store
    \<Rightarrow> plan_store \<times> (py_exn + task option changed)" where
  "fail_task pid tid lg e now now' = plan_transaction (fail_task_body pid tid lg e now now')"

subsection \<open>Well-formed stores\<close>

definition plans_ok :: "plans \<Rightarrow> bool" where
  "plans_ok d \<longleftrightarrow> keyed_ok pl_id (\<lambda>_. True) d"

lemma plan_load_save: "plans_ok d \<Longrightarrow> plan_load (plan_save d) = Inr d"
  unfolding plan_load_def plan_save_def plans_ok_def by (rule plan_codec.load_save)

lemma plan_load_ok: "plan_load ls = Inr d \<Longrightarrow> plans_ok d"
  unfolding plan_load_def plans_ok_def by (rule plan_codec.load_ok)

text \<open>Reading the store never fails: rejected lines are skipped.\<close>

lemma plan_load_from_total: "\<exists>d'. jsonl_load_from Good key d ls = Inr d'"
proof (induction ls arbitrary: d)
  case (Cons l ls)
  then show ?case by (cases l) auto
qed simp

lemma plan_load_total: "\<exists>d. plan_load ls = Inr d"
  unfolding plan_load_def by (rule plan_load_from_total)

lemma plans_ok_get: "plans_ok d \<Longrightarrow> dget i d = Some p \<Longrightarrow> pl_id p = i"
  unfolding plans_ok_def by (drule keyed_ok_get) auto

lemma plans_ok_dset: "plans_ok d \<Longrightarrow> pl_id p = i \<Longrightarrow> plans_ok (dset i p d)"
  by (auto simp: plans_ok_def intro: keyed_ok_dset)

lemma plan_frame [simp, frame_simps]:
  "pl_id (resolve_statuses p) = pl_id p" "pl_id (update_plan_status p) = pl_id p"
  "pl_id (settle p) = pl_id p" "pl_id (touch t p) = pl_id p" "pl_id (set_task i f p) = pl_id p"
  "pl_tasks (update_plan_status p) = pl_tasks p" "pl_tasks (touch t p) = pl_tasks p"
  "pl_status (touch t p) = pl_status p"
  "pl_tasks (settle p) = pl_tasks (resolve_statuses p)"
  "pl_tasks (set_task i f p) = update_first i f (pl_tasks p)"
  by (simp_all add: resolve_statuses_def update_plan_status_def settle_def touch_def set_task_def Let_def)

subsection \<open>Sequences of operations\<close>

datatype plan_op =
    CreatePlan plan
  | ReadPlans
  | AddTask ustr task secs
  | StartTask ustr ustr secs
  | CompleteTask ustr ustr ustr ustr run_end secs secs
  | FailTask ustr ustr ustr run_end secs secs

text \<open>The store after an operation, and the task it returns.\<close>

fun plan_apply :: "plan_op \<Rightarrow> plans \<Rightarrow> plans \<times> task option" where
  "plan_apply (CreatePlan p) d = (fst (create_plan_body (settle p) d), None)"
| "plan_apply ReadPlans d = (d, None)"
| "plan_apply (AddTask pid t now) d = (let (d', r, n) = add_task_body pid t now d in (d', r))"
| "plan_apply (StartTask pid tid now) d = (let (d', r, n) = start_task_body pid tid now d in (d', r))"
| "plan_apply (CompleteTask pid tid res lg e now now') d =
     (let (d', r, n) = complete_task_body pid tid res lg e now now' d in (d', r))"
| "plan_apply (FailTask pid tid lg e now now') d =
     (let (d', r, n) = fail_task_body pid tid lg e now now' d in (d', r))"

definition plan_step :: "plan_op \<Rightarrow> plans \<Rightarrow> plans \<times> task option list" where
  "plan_step op d = (let (d', r) = plan_apply op d in (d', [r]))"

definition plan_run :: "plan_op list \<Rightarrow> plans \<Rightarrow> plans \<times> task option list" where
  "plan_run ops d = run_steps plan_step ops d"

lemma plan_run_simps [simp]:
  "plan_run [] d = (d, [])"
  "plan_run (op # ops) d =
     (let (d', r) = plan_apply op d; (d'', rs) = plan_run ops d' in (d'', r # rs))"
  by (simp_all add: plan_run_def plan_step_def case_prod_unfold Let_def)

definition in_sync :: "plan \<Rightarrow> bool" where
  "in_sync p \<longleftrightarrow> pl_status p = plan_status_of (pl_tasks p)"

definition store_ok :: "plans \<Rightarrow> bool" where
  "store_ok d \<longleftrightarrow> plans_ok d \<and> list_all (\<lambda>(i, p). in_sync p) d"

lemma in_sync_update [simp]: "in_sync (update_plan_status p)" "in_sync (settle p)"
  "in_sync (touch t p) \<longleftrightarrow> in_sync p"
  by (simp_all add: in_sync_def settle_def update_plan_status_def touch_def)

lemma store_ok_dset: "store_ok d \<Longrightarrow> pl_id p = i \<Longrightarrow> in_sync p \<Longrightarrow> store_ok (dset i p d)"
  using set_dset [of i p d] by (auto simp: store_ok_def list_all_iff intro: plans_ok_dset)

lemma plan_apply_ok: "store_ok d \<Longrightarrow> store_ok (fst (plan_apply op d))"
  by (cases op) (auto simp: create_plan_body_def add_task_body_def start_task_body_def
      complete_task_body_def fail_task_body_def finish_body_def Let_def store_ok_dset
      plans_ok_get store_ok_def [of d] split: option.splits)

lemma plan_run_ok: "store_ok d \<Longrightarrow> store_ok (fst (plan_run ops d))"
  unfolding plan_run_def
  by (rule run_steps_inv) (auto simp: plan_step_def case_prod_unfold Let_def intro: plan_apply_ok)

lemma plans_apply_ok: "plans_ok d \<Longrightarrow> plans_ok (fst (plan_apply op d))"
  by (cases op) (auto simp: create_plan_body_def add_task_body_def start_task_body_def
      complete_task_body_def fail_task_body_def finish_body_def Let_def plans_ok_dset
      plans_ok_get split: option.splits)

subsection \<open>Processes sharing the plan file\<close>

definition plan_process :: "plans \<times> plan_op \<Rightarrow> plan line list \<Rightarrow> plan line list \<times> task option list" where
  "plan_process step fs =
     (let (q, r) = plan_transaction (plan_apply (snd step)) \<lparr>ps_file = fs, ps_plans = fst step\<rparr>
      in (ps_file q, case r of Inl e \<Rightarrow> [] | Inr t \<Rightarrow> [t]))"

lemma plan_transaction_loaded:
  "plan_load (ps_file q) = Inr d \<Longrightarrow> plan_transaction body q =
     (\<lparr>ps_file = plan_save (fst (body d)), ps_plans = fst (body d)\<rparr>, Inr (snd (body d)))"
  by (simp add: plan_transaction_def case_prod_unfold Let_def)

interpretation plan_file: atomic_store plan_load plan_save plans_ok plan_step plan_process
  by unfold_locales
    (auto simp: plan_load_save plans_apply_ok plan_process_def plan_step_def plan_transaction_loaded
      case_prod_unfold Let_def dest: plan_load_ok)

subsection \<open>A running task stays the only run\<close>

lemma find_same_task:
  "list_all2 same_task ts rs \<Longrightarrow> find (\<lambda>t. tk_id t = i) ts = Some t \<Longrightarrow>
   \<exists>t'. find (\<lambda>t. tk_id t = i) rs = Some t' \<and> same_task t t'"
proof (induction ts rs rule: list_all2_induct)
  case (Cons x xs y ys)
  with same_task_frame [of x y] show ?case by (auto split: if_splits)
qed simp

lemma find_update_first:
  "j \<noteq> i \<Longrightarrow> (\<And>t. tk_id (f t) = tk_id t) \<Longrightarrow>
   find (\<lambda>t. tk_id t = i) (update_first j f ts) = find (\<lambda>t. tk_id t = i) ts"
  by (induction ts) auto

lemma find_append_Some: "find P xs = Some x \<Longrightarrow> find P (xs @ ys) = Some x"
  by (induction xs) (auto split: if_splits)

definition running_in :: "plan \<Rightarrow> ustr \<Rightarrow> bool" where
  "running_in p tid \<longleftrightarrow> (\<exists>t. get_task_in_plan p tid = Some t \<and> tk_status t = RUNNING)"

definition running_at :: "plans \<Rightarrow> ustr \<Rightarrow> ustr \<Rightarrow> bool" where
  "running_at d pid tid \<longleftrightarrow> (\<exists>p. dget pid d = Some p \<and> running_in p tid)"

lemma running_in_frame [simp]:
  "running_in (update_plan_status p) tid = running_in p tid" "running_in (touch t p) tid = running_in p tid"
  by (simp_all add: running_in_def get_task_in_plan_def)

lemma running_in_resolve: "running_in p tid \<Longrightarrow> running_in (resolve_statuses p) tid"
  unfolding running_in_def get_task_in_plan_def
  using find_same_task [OF resolve_statuses_same_task [of p], of tid]
  by (fastforce simp: same_task_def schedulable_def)

lemma running_in_settle: "running_in p tid \<Longrightarrow> running_in (settle p) tid"
  by (simp add: settle_def running_in_resolve)

lemma running_in_set_other:
  "running_in p tid \<Longrightarrow> j \<noteq> tid \<Longrightarrow> (\<And>t. tk_id (f t) = tk_id t) \<Longrightarrow> running_in (set_task j f p) tid"
  by (simp add: running_in_def get_task_in_plan_def find_update_first)

lemma running_in_append: "running_in p tid \<Longrightarrow> running_in (p\<lparr>pl_tasks := pl_tasks p @ ts\<rparr>) tid"
  by (auto simp: running_in_def get_task_in_plan_def intro: find_append_Some)

text \<open>The operations that end the run of the task \<open>tid\<close> of \<open>pid\<close>.\<close>

fun ends_run :: "ustr \<Rightarrow> ustr \<Rightarrow> plan_op \<Rightarrow> bool" where
  "ends_run pid tid (CreatePlan p) = (pl_id p = pid)"
| "ends_run pid tid (CompleteTask p t res lg e now now') = (p = pid \<and> t = tid)"
| "ends_run pid tid (FailTask p t lg e now now') = (p = pid \<and> t = tid)"
| "ends_run pid tid _ = False"

lemma finished_task_id [simp]:
  "tk_id (completed_task res lg e now t) = tk_id t" "tk_id (failed_task lg e now t) = tk_id t"
  by (simp_all add: completed_task_def failed_task_def record_end_def)

lemma running_finish:
  "running_at d pid tid \<Longrightarrow> \<not> (p = pid \<and> j = tid) \<Longrightarrow> (\<And>t. tk_id (f t) = tk_id t) \<Longrightarrow>
   running_at (fst (finish_body p j f now d)) pid tid"
  by (auto simp: running_at_def finish_body_def Let_def running_in_settle running_in_set_other split: option.splits)

lemma running_step:
  assumes run: "running_at d pid tid" and keep: "\<not> ends_run pid tid op"
  shows "running_at (fst (plan_apply op d)) pid tid"
proof (cases op)
  case (StartTask p j now)
  show ?thesis
  proof (cases "p = pid \<and> j = tid")
    case True
    with run StartTask show ?thesis
      by (auto simp: running_at_def running_in_def start_task_body_def)
  next
    case False
    with run StartTask show ?thesis
      by (auto simp: running_at_def start_task_body_def Let_def running_in_set_other split: option.splits)
  qed
qed (use assms in \<open>auto simp: create_plan_body_def add_task_body_def complete_task_body_def fail_task_body_def
    case_prod_unfold Let_def running_finish running_at_def [of "dset _ _ _"] running_at_def [of d]
    running_in_settle running_in_append split: option.splits\<close>)

lemma running_no_start:
  "running_at d pid tid \<Longrightarrow> snd (plan_apply (StartTask pid tid now) d) = None"
  by (auto simp: running_at_def running_in_def start_task_body_def)

lemma running_run:
  "running_at d pid tid \<Longrightarrow> (\<And>op. op \<in> set ops \<Longrightarrow> \<not> ends_run pid tid op) \<Longrightarrow>
   running_at (fst (plan_run ops d)) pid tid \<and>
   (\<forall>k < length ops. \<forall>now. ops ! k = StartTask pid tid now \<longrightarrow> snd (plan_run ops d) ! k = None)"
proof (induction ops arbitrary: d)
  case (Cons op ops)
  from running_step [OF Cons.prems(1)] Cons.prems(2) have "running_at (fst (plan_apply op d)) pid tid" by simp
  from Cons.IH [OF this] Cons.prems running_no_start [OF Cons.prems(1)] show ?case
    by (auto simp: case_prod_unfold Let_def nth_Cons split: nat.splits)
qed simp

subsection \<open>Properties\<close>



text \<open>
  No task runs twice at once: \<open>start_task\<close> hands a task out only from \<open>READY\<close> and makes it
  \<open>RUNNING\<close>; from then on, whatever the processes do, every further \<open>start_task\<close> of it returns nothing
  until it is completed or failed (or its plan is replaced by a new one of the same id).
\<close>

theorem started_task_is_not_started_again:
  assumes "snd (plan_apply (StartTask pid tid now) d) = Some t"
    and "\<And>op. op \<in> set ops \<Longrightarrow> \<not> ends_run pid tid op"
  shows "(\<exists>p t0. dget pid d = Some p \<and> get_task_in_plan p tid = Some t0 \<and> tk_status t0 = READY)
       \<and> tk_status t = RUNNING
       \<and> (\<forall>k < length ops. \<forall>now'. ops ! k = StartTask pid tid now' \<longrightarrow>
            snd (plan_run ops (fst (plan_apply (StartTask pid tid now) d))) ! k = None)"
proof -
  from assms(1) obtain p t0 where p: "dget pid d = Some p" "get_task_in_plan p tid = Some t0" "tk_status t0 = READY"
    by (auto simp: start_task_body_def Let_def split: option.splits if_splits)
  let ?f = "\<lambda>t. t\<lparr>tk_status := RUNNING, tk_started_at := Some now\<rparr>"
  have found: "find (\<lambda>t. tk_id t = tid) (update_first tid ?f ts) = Some (?f x)"
    if "find (\<lambda>t. tk_id t = tid) ts = Some x" for ts x
    using that by (induction ts) (auto split: if_splits)
  have t: "t = ?f t0"
    using assms(1) p found by (simp add: start_task_body_def Let_def get_task_in_plan_def)
  have "running_at (fst (plan_apply (StartTask pid tid now) d)) pid tid"
    using p found by (simp add: start_task_body_def Let_def running_at_def running_in_def get_task_in_plan_def)
  from running_run [OF this assms(2)] p t show ?thesis by simp
qed

lemma sample_start:
  "snd (plan_apply (StartTask (u ''p'') (u ''a'') 3) [(u ''p'', sample_plan [sample_task ''a'' [] READY])])
     = Some ((sample_task ''a'' [] READY)\<lparr>tk_status := RUNNING, tk_started_at := Some 3\<rparr>)"
  by (simp add: start_task_body_def get_task_in_plan_def sample_plan_def sample_task_def Let_def)

theorem started_task_is_not_started_again_witness:
  "snd (plan_run [StartTask (u ''p'') (u ''a'') 4]
     (fst (plan_apply (StartTask (u ''p'') (u ''a'') 3) [(u ''p'', sample_plan [sample_task ''a'' [] READY])]))) ! 0 = None"
proof -
  have "\<not> ends_run (u ''p'') (u ''a'') op" if "op \<in> set [StartTask (u ''p'') (u ''a'') 4]" for op
    using that by auto
  note * = started_task_is_not_started_again [OF sample_start this, THEN conjunct2, THEN conjunct2,
      THEN spec, THEN mp, THEN spec, THEN mp]
  show ?thesis
  proof (rule *)
    show "0 < length [StartTask (u ''p'') (u ''a'') 4]" by simp
    show "[StartTask (u ''p'') (u ''a'') 4] ! 0 = StartTask (u ''p'') (u ''a'') 4" by simp
  qed simp
qed

lemma update_first_ids: "(\<And>t. tk_id (f t) = tk_id t) \<Longrightarrow> map tk_id (update_first i f ts) = map tk_id ts"
  by (induction ts) auto

lemma update_first_mem:
  "find (\<lambda>t. tk_id t = i) ts = Some t0 \<Longrightarrow> (\<And>t. tk_id (f t) = tk_id t) \<Longrightarrow>
   f t0 \<in> set (update_first i f ts) \<and> tk_id t0 = i"
  by (induction ts) (auto split: if_splits)

lemma finish_plan:
  assumes p: "dget pid d = Some p" "distinct (map tk_id (pl_tasks p))" "get_task_in_plan p tid = Some t0"
    and f: "\<And>t. tk_id (f t) = tk_id t"
  obtains p' where "dget pid (fst (finish_body pid tid f now d)) = Some p'"
    "pl_tasks p' = pl_tasks (resolve_statuses (set_task tid f p))"
    "distinct (map tk_id (pl_tasks (set_task tid f p)))"
    "\<exists>t \<in> set (pl_tasks p'). tk_id t = tid \<and> same_task (f t0) t"
proof -
  let ?q = "set_task tid f p"
  have t: "f t0 \<in> set (pl_tasks ?q)" "tk_id t0 = tid"
    using update_first_mem [of tid "pl_tasks p" t0 f] p(3) f by (auto simp: get_task_in_plan_def)
  obtain t' where t': "t' \<in> set (pl_tasks (resolve_statuses ?q))" "same_task (f t0) t'"
    using list_all2_mem1 [OF resolve_statuses_same_task t(1)] by blast
  have "tk_id t' = tid" using same_task_frame [OF t'(2)] f t(2) by simp
  show ?thesis
  proof (rule that)
    show "dget pid (fst (finish_body pid tid f now d)) = Some (touch now (settle ?q))"
      using p by (simp add: finish_body_def Let_def)
    show "distinct (map tk_id (pl_tasks ?q))" using p(2) f by (simp add: update_first_ids)
    show "\<exists>t \<in> set (pl_tasks (touch now (settle ?q))). tk_id t = tid \<and> same_task (f t0) t"
      using t' \<open>tk_id t' = tid\<close> by auto
  qed simp
qed

lemma completed_settled: "\<not> schedulable (tk_status (completed_task res lg e now t))"
  by (simp add: completed_task_def schedulable_def)

lemma failed_settled: "\<not> schedulable (tk_status (failed_task lg e now t))"
  by (simp add: failed_task_def schedulable_def)

lemma complete_reaches_dependents:
  assumes "dget pid d = Some p" "distinct (map tk_id (pl_tasks p))" "get_task_in_plan p tid = Some t0"
  shows "\<exists>p'. dget pid (fst (complete_task_body pid tid res lg e now now' d)) = Some p'
      \<and> task_with (pl_tasks p') tid (if re_cancelled e \<or> re_partial e \<or> re_timed_out e then INCOMPLETE else DONE)
      \<and> (\<forall>t \<in> set (pl_tasks p'). schedulable (tk_status t) \<and> deps_finished (pl_tasks p') t \<longrightarrow> tk_status t = READY)"
proof -
  let ?f = "completed_task res lg e now"
  obtain p' where p': "dget pid (fst (finish_body pid tid ?f now' d)) = Some p'"
    "pl_tasks p' = pl_tasks (resolve_statuses (set_task tid ?f p))"
    "distinct (map tk_id (pl_tasks (set_task tid ?f p)))"
    "\<exists>t \<in> set (pl_tasks p'). tk_id t = tid \<and> same_task (?f t0) t"
    by (rule finish_plan [OF assms finished_task_id(1)])
  then obtain t where t: "t \<in> set (pl_tasks p')" "tk_id t = tid" "same_task (?f t0) t" by blast
  have "tk_status t = (if re_cancelled e \<or> re_partial e \<or> re_timed_out e then INCOMPLETE else DONE)"
    using same_task_settled [OF t(3) completed_settled] by (simp add: completed_task_def)
  with t(1,2) have "task_with (pl_tasks p') tid
      (if re_cancelled e \<or> re_partial e \<or> re_timed_out e then INCOMPLETE else DONE)"
    unfolding task_with_def by blast
  moreover have "\<forall>t \<in> set (pl_tasks p'). schedulable (tk_status t) \<and> deps_finished (pl_tasks p') t \<longrightarrow> tk_status t = READY"
    unfolding p'(2) using resolver_consistent [OF p'(3)] by blast
  ultimately show ?thesis using p'(1) unfolding complete_task_body_def by blast
qed

lemma failure_reaches_dependents:
  assumes "dget pid d = Some p" "distinct (map tk_id (pl_tasks p))" "get_task_in_plan p tid = Some t0"
  shows "\<exists>p'. dget pid (fst (fail_task_body pid tid lg e now now' d)) = Some p'
      \<and> task_with (pl_tasks p') tid FAILED
      \<and> (\<forall>t \<in> set (pl_tasks p'). schedulable (tk_status t) \<and> tid \<in> set (tk_depends_on t) \<longrightarrow> tk_status t = BLOCKED)"
proof -
  let ?f = "failed_task lg e now"
  obtain p' where p': "dget pid (fst (finish_body pid tid ?f now' d)) = Some p'"
    "pl_tasks p' = pl_tasks (resolve_statuses (set_task tid ?f p))"
    "distinct (map tk_id (pl_tasks (set_task tid ?f p)))"
    "\<exists>t \<in> set (pl_tasks p'). tk_id t = tid \<and> same_task (?f t0) t"
    by (rule finish_plan [OF assms finished_task_id(2)])
  then obtain t where t: "t \<in> set (pl_tasks p')" "tk_id t = tid" "same_task (?f t0) t" by blast
  have "tk_status t = FAILED"
    using same_task_settled [OF t(3) failed_settled] by (simp add: failed_task_def)
  with t(1,2) have failed: "task_with (pl_tasks p') tid FAILED" unfolding task_with_def by blast
  then have "\<forall>t \<in> set (pl_tasks p'). schedulable (tk_status t) \<and> tid \<in> set (tk_depends_on t) \<longrightarrow> tk_status t = BLOCKED"
    unfolding p'(2) using resolver_consistent [OF p'(3)] by blast
  with failed show ?thesis using p'(1) unfolding fail_task_body_def by blast
qed

text \<open>
  Finishing a task reaches its dependents: when a task of a plan with distinct ids is
  completed, its status in the stored plan is \<open>DONE\<close>, or \<open>INCOMPLETE\<close> if it was cancelled, partial
  or timed out, and every waiting task whose dependencies are now all finished is \<open>READY\<close>; when it
  fails, its status is \<open>FAILED\<close> and every waiting task that depends on it is \<open>BLOCKED\<close>.
\<close>

theorem finishing_reaches_dependents:
  assumes "dget pid d = Some p" and "distinct (map tk_id (pl_tasks p))" and "get_task_in_plan p tid = Some t0"
  shows "(\<exists>p'. dget pid (fst (complete_task_body pid tid res lg e now now' d)) = Some p'
           \<and> task_with (pl_tasks p') tid (if re_cancelled e \<or> re_partial e \<or> re_timed_out e then INCOMPLETE else DONE)
           \<and> (\<forall>t \<in> set (pl_tasks p'). schedulable (tk_status t) \<and> deps_finished (pl_tasks p') t \<longrightarrow> tk_status t = READY))
       \<and> (\<exists>p'. dget pid (fst (fail_task_body pid tid lg e now now' d)) = Some p'
           \<and> task_with (pl_tasks p') tid FAILED
           \<and> (\<forall>t \<in> set (pl_tasks p'). schedulable (tk_status t) \<and> tid \<in> set (tk_depends_on t) \<longrightarrow> tk_status t = BLOCKED))"
  using complete_reaches_dependents [OF assms] failure_reaches_dependents [OF assms] by blast

theorem finishing_reaches_dependents_witness:
  "\<exists>p'. dget (u ''p'') (fst (complete_task_body (u ''p'') (u ''b'') [] [] plain_end 5 6
       [(u ''p'', sample_plan [sample_task ''a'' [''b''] PENDING, sample_task ''b'' [] RUNNING])])) = Some p'
     \<and> task_with (pl_tasks p') (u ''b'') DONE"
proof -
  let ?p = "sample_plan [sample_task ''a'' [''b''] PENDING, sample_task ''b'' [] RUNNING]"
  have g: "dget (u ''p'') [(u ''p'', ?p)] = Some ?p" by simp
  have dist: "distinct (map tk_id (pl_tasks ?p))" by (simp add: sample_plan_def sample_task_def)
  have t: "get_task_in_plan ?p (u ''b'') = Some (sample_task ''b'' [] RUNNING)"
    by (simp add: get_task_in_plan_def sample_plan_def) (simp add: sample_task_def)
  from finishing_reaches_dependents [OF g dist t, THEN conjunct1, of "[]" "[]" plain_end 5 6]
  show ?thesis by (auto simp: plain_end_def)
qed

end
