(* ===== verification/Planning.thy ===== *)
theory Planning
  imports Ingress PlanManager AcpErrors
begin

section \<open>Wakes of plans and results of subagents\<close>

text \<open>
  \<open>src/src/diploid_agent/runtime/planning.py\<close> (\<open>RuntimePlanning\<close>: the wake that reports a task, the wake with a plan's
  conclusion, the messages made of them) and \<open>runtime/subagent.py\<close> (\<open>RuntimeSubagent\<close>: starting a subagent, storing
  its result, waking the chat).  The engine, the MCP configuration and \<open>str\<close> of a JSON value are arguments; a
  result file is a name with a text, and its directory can be made.  Several clock readings of one step are one.
\<close>

subsection \<open>Task and plan wakes\<close>

fun task_status_value :: "task_status \<Rightarrow> ustr" where
  "task_status_value PENDING = u ''pending''" | "task_status_value READY = u ''ready''" | "task_status_value RUNNING = u ''running''"
| "task_status_value DONE = u ''done''" | "task_status_value INCOMPLETE = u ''incomplete''" | "task_status_value FAILED = u ''failed''"
| "task_status_value BLOCKED = u ''blocked''"

fun plan_status_value :: "plan_status \<Rightarrow> ustr" where
  "plan_status_value DRAFT = u ''draft''" | "plan_status_value ACTIVE = u ''active''" | "plan_status_value PAUSED = u ''paused''"
| "plan_status_value COMPLETED = u ''completed''" | "plan_status_value PLAN_FAILED = u ''failed''"

definition on_one_line :: "ustr \<Rightarrow> ustr" where
  "on_one_line s = py_strip (map (\<lambda>c. if c = 10 then 32 else c) s)"

definition truthy_text :: "ustr option \<Rightarrow> bool" where
  "truthy_text s \<longleftrightarrow> s \<noteq> None \<and> s \<noteq> Some []"

definition wake_detail :: "task \<Rightarrow> ustr" where
  "wake_detail t = take 500 (on_one_line (if is_done (tk_status t) \<and> truthy_text (tk_result t) then the (tk_result t) else tk_log t))"

definition quiet_success :: "task \<Rightarrow> bool" where
  "quiet_success t \<longleftrightarrow> tk_quiet t \<and> tk_status t = DONE \<and> \<not> tk_timed_out t \<and> \<not> tk_partial t \<and> \<not> tk_cancelled t"

definition task_entry :: "task \<Rightarrow> json" where
  "task_entry t = JObj [(u ''task_id'', JStr (tk_id t)), (u ''task_name'', JStr (tk_name t)),
     (u ''task_status'', JStr (task_status_value (tk_status t))), (u ''task_detail'', JStr (wake_detail t))]"

definition finished_count :: "plan \<Rightarrow> nat" where
  "finished_count p = length (filter (\<lambda>t. is_done (tk_status t)) (pl_tasks p)) + length (filter (\<lambda>t. tk_status t = FAILED) (pl_tasks p))"

definition task_wake_payload :: "plan \<Rightarrow> task \<Rightarrow> (ustr, json) dict" where
  "task_wake_payload p t =
     [(u ''plan_id'', JStr (pl_id p)), (u ''plan_name'', JStr (pl_name p)), (u ''plan_status'', JStr (plan_status_value (pl_status p))),
      (u ''task_id'', JStr (tk_id t)), (u ''task_name'', JStr (tk_name t)), (u ''task_status'', JStr (task_status_value (tk_status t))),
      (u ''task_detail'', JStr (wake_detail t)), (u ''tasks'', JList [task_entry t]), (u ''completed_count'', JInt (int (finished_count p))),
      (u ''total_count'', JInt (int (length (pl_tasks p)))), (u ''retry_after'', JFloat 5)]"

definition plan_wake :: "ustr \<Rightarrow> string \<Rightarrow> (ustr, json) dict \<Rightarrow> secs \<Rightarrow> wake_event" where
  "plan_wake chat reason payload now =
     \<lparr>we_id = [], we_chat_id = chat, we_reason = u reason, we_priority = 1, we_scheduled_at = now, we_payload = payload,
      we_silent = False, we_created_at = now, we_ready = True, we_attempts = 0, we_leased_until = None\<rparr>"

text \<open>A pending wake of the plan takes the task in; else there is a new one.\<close>

definition enqueue_plan_task_wake :: "ustr \<Rightarrow> secs \<Rightarrow> plan \<Rightarrow> task \<Rightarrow> wake_queue \<Rightarrow> wake_queue \<times> (py_exn + unit)" where
  "enqueue_plan_task_wake fresh now p t q =
     (case pl_chat_id p of
        None \<Rightarrow> (q, Inr ())
      | Some chat \<Rightarrow>
          if quiet_success t then (q, Inr ())
          else let ev = plan_wake chat ''plan_task_update'' (task_wake_payload p t) now
               in case wake_merge_into_ready ev (pl_id p) now q of
                    (q1, Inl e) \<Rightarrow> (q1, Inl e)
                  | (q1, Inr (Inl e)) \<Rightarrow> (q1, Inl e)
                  | (q1, Inr (Inr True)) \<Rightarrow> (q1, Inr ())
                  | (q1, Inr (Inr False)) \<Rightarrow> (case wake_enqueue fresh ev q1 of (q2, r) \<Rightarrow> (q2, map_sum id (\<lambda>_. ()) r)))"

definition first_words :: "ustr \<Rightarrow> ustr" where
  "first_words s = on_one_line (take 100 s)"

definition task_line :: "task \<Rightarrow> ustr" where
  "task_line t =
     u ''- '' @ tk_name t @ u '': '' @ task_status_value (tk_status t) @
     (if is_done (tk_status t) \<and> truthy_text (tk_result t) then u '' ('' @ first_words (the (tk_result t)) @ u '')''
      else if tk_status t = FAILED \<and> tk_log t \<noteq> [] then u '' ('' @ first_words (tk_log t) @ u '')''
      else [])"

definition join_lines :: "ustr list \<Rightarrow> ustr" where
  "join_lines ls = (case ls of [] \<Rightarrow> [] | l # rest \<Rightarrow> l @ concat (map (\<lambda>x. 10 # x) rest))"

definition conclusion_payload :: "plan \<Rightarrow> (ustr, json) dict" where
  "conclusion_payload p =
     [(u ''plan_id'', JStr (pl_id p)), (u ''plan_name'', JStr (pl_name p)), (u ''plan_status'', JStr (plan_status_value (pl_status p))),
      (u ''tasks_summary'', JStr (join_lines (map task_line (pl_tasks p)))), (u ''retry_after'', JFloat 5)]"

text \<open>The plan is marked before the event is written.\<close>

definition maybe_enqueue_plan_conclusion ::
  "ustr \<Rightarrow> secs \<Rightarrow> plan \<Rightarrow> ustr set \<Rightarrow> wake_queue \<Rightarrow> ustr set \<times> wake_queue \<times> (py_exn + unit)" where
  "maybe_enqueue_plan_conclusion fresh now p concluded q =
     (case pl_chat_id p of
        None \<Rightarrow> (concluded, q, Inr ())
      | Some chat \<Rightarrow>
          if (pl_status p \<noteq> COMPLETED \<and> pl_status p \<noteq> PLAN_FAILED) \<or> pl_id p \<in> concluded then (concluded, q, Inr ())
          else (case wake_enqueue fresh (plan_wake chat ''plan_completed'' (conclusion_payload p) now) q of
                  (q1, r) \<Rightarrow> (insert (pl_id p) concluded, q1, map_sum id (\<lambda>_. ()) r)))"

subsection \<open>Messages\<close>

text \<open>\<open>payload.get(key, default)\<close> in an f-string.\<close>

definition shown_field :: "(json \<Rightarrow> ustr) \<Rightarrow> (ustr, json) dict \<Rightarrow> string \<Rightarrow> string \<Rightarrow> ustr" where
  "shown_field fmt p k dflt = (case dget (u k) p of None \<Rightarrow> u dflt | Some j \<Rightarrow> fmt j)"

text \<open>One line of a digest; an entry that is no object raises.\<close>

definition digest_line :: "(json \<Rightarrow> ustr) \<Rightarrow> json \<Rightarrow> py_exn + ustr" where
  "digest_line fmt j =
     (case j of
        JObj t \<Rightarrow> Inr (u ''- '' @ shown_field fmt t ''task_name'' ''unknown'' @ u '': '' @ shown_field fmt t ''task_status'' ''unknown'' @
                   (case dget (u ''task_detail'') t of
                      None \<Rightarrow> []
                    | Some d \<Rightarrow> if truthy d then u '' ('' @ fmt d @ u '')'' else []))
      | _ \<Rightarrow> Inl AttributeError)"

fun digest_lines :: "(json \<Rightarrow> ustr) \<Rightarrow> json list \<Rightarrow> py_exn + ustr list" where
  "digest_lines fmt [] = Inr []"
| "digest_lines fmt (j # js) =
     (case digest_line fmt j of
        Inl e \<Rightarrow> Inl e
      | Inr l \<Rightarrow> (case digest_lines fmt js of Inl e \<Rightarrow> Inl e | Inr ls \<Rightarrow> Inr (l # ls)))"

definition update_header :: "(json \<Rightarrow> ustr) \<Rightarrow> (ustr, json) dict \<Rightarrow> ustr list" where
  "update_header fmt p =
     [u ''[system wake: plan task update]'', [], u ''Plan: '' @ shown_field fmt p ''plan_name'' ''unknown'',
      u ''Plan status: '' @ shown_field fmt p ''plan_status'' ''unknown'' @ u '' ('' @ shown_field fmt p ''completed_count'' ''0'' @ u ''/'' @
        shown_field fmt p ''total_count'' ''0'' @ u '' tasks finished)'']"

definition build_plan_task_update_message :: "(json \<Rightarrow> ustr) \<Rightarrow> (ustr, json) dict \<Rightarrow> py_exn + ustr" where
  "build_plan_task_update_message fmt p =
     (case task_list (dget (u ''tasks'') p) of
        None \<Rightarrow> Inl Unmodelled
      | Some tasks \<Rightarrow>
          if length tasks > 1
          then (case digest_lines fmt tasks of
                  Inl e \<Rightarrow> Inl e
                | Inr ls \<Rightarrow> Inr (join_lines (update_header fmt p @ [u ''Tasks:''] @ ls @ [[], u ''Summarize these task updates for the user in one line.''])))
          else Inr (join_lines (update_header fmt p @
                 [u ''Task: '' @ shown_field fmt p ''task_name'' ''unknown'', u ''Task status: '' @ shown_field fmt p ''task_status'' ''unknown''] @
                 (case dget (u ''task_detail'') p of
                    None \<Rightarrow> []
                  | Some d \<Rightarrow> if truthy d then [u ''Detail: '' @ fmt d] else []) @
                 [[], u ''Briefly report this task'' @ [39] @ u ''s status to the user.''])))"

definition build_plan_completed_message :: "(json \<Rightarrow> ustr) \<Rightarrow> (ustr, json) dict \<Rightarrow> ustr" where
  "build_plan_completed_message fmt p =
     join_lines ([u ''[system wake: plan completed]'', [], u ''Plan: '' @ shown_field fmt p ''plan_name'' ''unknown'',
        u ''Final status: '' @ shown_field fmt p ''plan_status'' ''unknown''] @
       (case dget (u ''tasks_summary'') p of
          None \<Rightarrow> []
        | Some s \<Rightarrow> if truthy s then [[], u ''Task summary:'', fmt s] else []) @
       [[], u ''Please give a concise final conclusion.''])"

subsection \<open>Subagents\<close>

record subagents =
  sb_queue :: wake_queue
  sb_dispatches :: dispatch_store
  sb_outbox :: outbox
  sb_files :: "(ustr, ustr) dict"  \<comment> \<open>the result files by path\<close>
  sb_plans :: plan_store

definition extract_summary :: "nat \<Rightarrow> ustr \<Rightarrow> ustr" where
  "extract_summary limit text0 =
     (let text = py_strip text0; ls = filter (\<lambda>l. l \<noteq> []) (map py_strip (splitlines text))
      in case ls of
           [] \<Rightarrow> []
         | l # _ \<Rightarrow> if take 1 l = [35] then take limit (py_strip (lstrip_by (\<lambda>c. c = 35) l)) else take limit text)"

text \<open>The status of the dispatch (\<open>None\<close>: it stays pending), its stop reason, and the three flags.\<close>

record terminal_state =
  ts_status :: "dispatch_status option"
  ts_stop_reason :: "ustr option"
  ts_timeout :: bool
  ts_cancelled :: bool
  ts_partial :: bool

definition subagent_terminal_state :: "(ustr \<Rightarrow> ustr) \<Rightarrow> task \<Rightarrow> terminal_state" where
  "subagent_terminal_state lower t =
     (let lg = lower (tk_log t); failed = (tk_status t = FAILED)
      in if tk_timed_out t \<or> tk_stop_reason t = Some (u ''timeout'') \<or> failed \<and> mentions ''timeout'' lg
         then \<lparr>ts_status = Some D_TIMEOUT, ts_stop_reason = Some (u ''timeout''), ts_timeout = True, ts_cancelled = False, ts_partial = True\<rparr>
         else if tk_cancelled t \<or> tk_stop_reason t = Some (u ''cancelled'') \<or> failed \<and> mentions ''cancel'' lg
         then \<lparr>ts_status = Some D_CANCELLED, ts_stop_reason = Some (u ''cancelled''), ts_timeout = False, ts_cancelled = True, ts_partial = True\<rparr>
         else if failed
         then \<lparr>ts_status = Some D_FAILED, ts_stop_reason = Some (u ''failed''), ts_timeout = False, ts_cancelled = False, ts_partial = tk_partial t\<rparr>
         else \<lparr>ts_status = None, ts_stop_reason = None, ts_timeout = False, ts_cancelled = False, ts_partial = tk_partial t\<rparr>)"

definition subagent_status_name :: "task \<Rightarrow> dispatch option \<Rightarrow> ustr" where
  "subagent_status_name t d =
     (let ds = map_option dp_status d
      in if tk_timed_out t \<or> ds = Some D_TIMEOUT then u ''timeout''
         else if tk_cancelled t \<or> ds = Some D_CANCELLED then u ''cancelled''
         else if tk_status t = RUNNING then u ''running''
         else if ds = Some D_PENDING \<and> Option.bind d dp_finished_at = None then u ''running''
         else (case tk_status t of DONE \<Rightarrow> u ''completed'' | INCOMPLETE \<Rightarrow> u ''incomplete'' | FAILED \<Rightarrow> u ''failed'' | _ \<Rightarrow> u ''pending''))"

definition subagent_summary :: "task \<Rightarrow> dispatch option \<Rightarrow> ustr option" where
  "subagent_summary t d =
     (case Option.bind d (\<lambda>x. nonempty_opt (dp_summary x)) of
        Some s \<Rightarrow> Some s
      | None \<Rightarrow> (case nonempty_opt (if tk_status t = FAILED then Some (tk_log t) else tk_result t) of
                   None \<Rightarrow> None
                 | Some text \<Rightarrow> Some (extract_summary 240 text)))"

definition human_duration :: "secs \<Rightarrow> ustr" where
  "human_duration s =
     (let n = nat \<lfloor>s\<rfloor>
      in if n < 60 then str_of_nat n @ u ''s''
         else if n div 60 < 60 then str_of_nat (n div 60) @ u ''m '' @ str_of_nat (n mod 60) @ u ''s''
         else str_of_nat (n div 60 div 60) @ u ''h '' @ str_of_nat (n div 60 mod 60) @ u ''m '' @ str_of_nat (n mod 60) @ u ''s'')"

definition result_path :: "(ustr \<Rightarrow> ustr) \<Rightarrow> dispatch \<Rightarrow> ustr" where
  "result_path chat_dir d = chat_dir (dp_chat_id d) @ u ''/subagent-results/subagent-'' @ dp_id d @ u ''.md''"

text \<open>\<open>writable\<close>: the file can be written; else the dispatch is left as it is.\<close>

definition persist_subagent_result :: "(ustr \<Rightarrow> ustr) \<Rightarrow> bool \<Rightarrow> secs \<Rightarrow> dispatch \<Rightarrow> ustr \<Rightarrow> subagents \<Rightarrow> subagents" where
  "persist_subagent_result chat_dir writable now d result s =
     (if \<not> writable then s
      else s\<lparr>sb_files := dset (result_path chat_dir d) result (sb_files s),
             sb_dispatches := fst (set_result (dp_id d)
               \<lparr>ru_result = result, ru_summary = Some (extract_summary 240 result), ru_finished_at = Some now, ru_status = None,
                ru_stop_reason = None, ru_cancelled = False, ru_partial = False, ru_timed_out = False,
                ru_full_result_path = Some (result_path chat_dir d)\<rparr> now (sb_dispatches s))\<rparr>)"

definition subagent_result :: "task \<Rightarrow> ustr" where
  "subagent_result t = (case nonempty_opt (tk_result t) of Some r \<Rightarrow> r | None \<Rightarrow> if tk_log t \<noteq> [] then tk_log t else u ''(no result)'')"

definition notify_subagent_timeout ::
  "outbox_config \<Rightarrow> task \<Rightarrow> ustr \<Rightarrow> ustr \<Rightarrow> dispatch \<Rightarrow> ustr \<Rightarrow> bool \<Rightarrow> subagents \<Rightarrow> subagents" where
  "notify_subagent_timeout cfg t chat i d summary timeout s =
     (let duration = (case (or_old (tk_started_at t) (dp_started_at d), or_old (tk_completed_at t) (dp_finished_at d)) of
                        (Some a, Some b) \<Rightarrow> human_duration (b - a)
                      | _ \<Rightarrow> u ''unknown'');
          text = u ''Subagent '' @ i @ u '' '' @ (if timeout then u ''timed out'' else u ''was cancelled'') @ u '' after '' @ duration @
                   u ''. Partial summary: '' @ summary
      in s\<lparr>sb_outbox :=
             (if oc_outbox_delivery cfg
              then enqueue_outbox cfg chat ((mk_result text)\<lparr>cr_dispatch_id := Some i, cr_session_id := Some (dp_session_id d), cr_transient := True\<rparr>) (sb_outbox s)
              else safe_notifier_send (create_notifier cfg) chat text (sb_outbox s))\<rparr>)"

text \<open>
  The result is stored twice (with the path, then with the terminal state) and the wake made ready; an
  exception of the wake queue is logged.  The result put into the copy of the wake is lost, but the dispatch has it.
\<close>

definition complete_subagent_task ::
  "(ustr \<Rightarrow> ustr) \<Rightarrow> (ustr \<Rightarrow> ustr) \<Rightarrow> bool \<Rightarrow> outbox_config \<Rightarrow> secs \<Rightarrow> task \<Rightarrow> subagents \<Rightarrow> subagents" where
  "complete_subagent_task lower chat_dir writable cfg now t s =
     (case (tk_dispatch_id t, tk_chat_id t) of
        (Some i, Some chat) \<Rightarrow>
          (case dispatch_get i (sb_dispatches s) of
             None \<Rightarrow> s
           | Some d \<Rightarrow>
               let result = subagent_result t; ts = subagent_terminal_state lower t;
                   s1 = persist_subagent_result chat_dir writable now d result s;
                   d1 = (case dispatch_get i (sb_dispatches s1) of None \<Rightarrow> d | Some x \<Rightarrow> x);
                   summary = (case nonempty_opt (dp_summary d1) of Some x \<Rightarrow> x | None \<Rightarrow> extract_summary 240 result);
                   s2 = s1\<lparr>sb_dispatches := fst (set_result i
                          \<lparr>ru_result = result, ru_summary = Some summary, ru_finished_at = Some now, ru_status = ts_status ts,
                           ru_stop_reason = ts_stop_reason ts, ru_cancelled = ts_cancelled ts, ru_partial = ts_partial ts,
                           ru_timed_out = ts_timeout ts, ru_full_result_path = dp_full_result_path d1\<rparr> now (sb_dispatches s1))\<rparr>;
                   s3 = (if ts_timeout ts \<or> ts_cancelled ts
                         then notify_subagent_timeout cfg t chat i (case dispatch_get i (sb_dispatches s2) of None \<Rightarrow> d1 | Some x \<Rightarrow> x) summary (ts_timeout ts) s2
                         else s2)
               in s3\<lparr>sb_queue := (case wake_get (u ''wake-'' @ i) (sb_queue s3) of
                                    (q1, Inl e) \<Rightarrow> q1
                                  | (q1, Inr _) \<Rightarrow> fst (wake_ready (u ''wake-'' @ i) (Some now) now q1))\<rparr>)
      | _ \<Rightarrow> s)"

definition subagent_wake :: "ustr \<Rightarrow> ustr \<Rightarrow> secs \<Rightarrow> wake_event" where
  "subagent_wake chat i now =
     \<lparr>we_id = u ''wake-'' @ i, we_chat_id = chat, we_reason = u ''dispatch'', we_priority = 1, we_scheduled_at = now,
      we_payload = [(u ''dispatch_id'', JStr i), (u ''notify'', JBool True), (u ''retry_after'', JFloat 5)], we_silent = False,
      we_created_at = now, we_ready = False, we_attempts = 0, we_leased_until = None\<rparr>"

text \<open>A task as its constructor fills it in; the ids of the dispatch, plan and task are arguments.\<close>

definition subagent_task :: "ustr \<Rightarrow> ustr \<Rightarrow> ustr \<Rightarrow> ustr \<Rightarrow> secs option \<Rightarrow> json list \<Rightarrow> ustr \<Rightarrow> ustr \<Rightarrow> secs \<Rightarrow> task" where
  "subagent_task tid chat prompt model timeout servers i cwd now =
     \<lparr>tk_id = tid, tk_name = u ''subagent'', tk_description = [], tk_type = SUBAGENT, tk_command = [], tk_prompt = Some prompt,
      tk_depends_on = [], tk_status = PENDING, tk_result = None, tk_log = [], tk_started_at = None, tk_completed_at = None,
      tk_created_at = now, tk_cwd = Some cwd, tk_stop_reason = None, tk_cancelled = False, tk_partial = False, tk_timed_out = False,
      tk_chat_id = Some chat, tk_acp_model = nonempty_opt (Some (py_strip model)), tk_acp_timeout = timeout, tk_mcp_servers = Some servers,
      tk_dispatch_id = Some i, tk_quiet = False\<rparr>"

definition subagent_started :: "ustr \<Rightarrow> chat_result" where
  "subagent_started i = (mk_result (u ''Subagent started. I'' @ [39] @ u ''ll report back when it finishes.''))\<lparr>cr_dispatch_id := Some i\<rparr>"

text \<open>\<open>start\<close> is the task engine, which starts the task of the plan and may raise.\<close>

definition subagent_start ::
  "(ustr \<Rightarrow> ustr) \<Rightarrow> (ustr \<Rightarrow> ustr \<Rightarrow> plan_store \<Rightarrow> plan_store \<times> (py_exn + unit)) \<Rightarrow> ustr \<Rightarrow> ustr \<Rightarrow> ustr \<Rightarrow> secs \<Rightarrow>
   ustr \<Rightarrow> ustr \<Rightarrow> ustr option \<Rightarrow> ustr option \<Rightarrow> ustr option \<Rightarrow> secs option \<Rightarrow> json list \<Rightarrow> session_record option \<Rightarrow> subagents \<Rightarrow>
   subagents \<times> (py_exn + chat_result)" where
  "subagent_start chat_dir start i pid tid now chat prompt ctx model cwd timeout servers r s =
     (case r of
        None \<Rightarrow> (s, Inr (mk_result (u ''No active session for this chat.'')))
      | Some r \<Rightarrow>
          let use1 = (case nonempty_opt model of Some m \<Rightarrow> m | None \<Rightarrow> sr_model r);
              (ds, d) = dispatch_add i chat (sr_session_id r) (Some (case nonempty_opt ctx of Some c \<Rightarrow> c | None \<Rightarrow> take 200 prompt))
                          (u ''subagent'') (Some now) now (sb_dispatches s);
              t = subagent_task tid chat prompt use1 timeout servers i (case nonempty_opt cwd of Some c \<Rightarrow> c | None \<Rightarrow> chat_dir chat) now
          in case create_plan pid (\<lambda>_. tid) (u ''subagent-'' @ take 8 i) (u ''Background subagent task'') (Some chat) [t] (u ''system'') now (sb_plans s) of
               (ps, Inl e) \<Rightarrow> (s\<lparr>sb_dispatches := ds, sb_plans := ps\<rparr>, Inl e)
             | (ps, Inr _) \<Rightarrow>
                 (case wake_enqueue [] (subagent_wake chat i now) (sb_queue s) of
                    (q, Inl e) \<Rightarrow> (s\<lparr>sb_dispatches := ds, sb_plans := ps, sb_queue := q\<rparr>, Inl e)
                  | (q, Inr _) \<Rightarrow>
                      (case start pid tid ps of
                         (ps2, Inl e) \<Rightarrow> (s\<lparr>sb_dispatches := ds, sb_plans := ps2, sb_queue := q\<rparr>, Inl e)
                       | (ps2, Inr _) \<Rightarrow> (s\<lparr>sb_dispatches := ds, sb_plans := ps2, sb_queue := q\<rparr>, Inr (subagent_started i)))))"

end
