(* ===== verification/Lifecycle.thy ===== *)
theory Lifecycle
  imports Planning TurnProcess
begin

section \<open>Events of the timer and of the task engine\<close>

text \<open>
  \<open>src/src/diploid_agent/runtime/lifecycle.py\<close> (\<open>RuntimeLifecycle\<close>): \<open>_handle_timer_fired\<close>, which wakes a chat for an
  event the timer has claimed and then completes or reschedules the event, and \<open>_handle_task_completed\<close> and
  \<open>_handle_task_failed\<close>, which settle the task in its plan and wake the chat.  \<open>wake\<close> is the runtime's
  \<open>wake\<close> (\<open>Ingress.ingress_wake\<close> with its arguments).  Starting and stopping the services is left out.
\<close>

definition WAKE_RETRY_REPLIES :: "ustr list" where
  "WAKE_RETRY_REPLIES =
     [u ''Chat is busy; wake re-enqueued.'', u ''A turn is already in progress for this chat.'',
      u ''Another instance is currently handling this chat.'', u ''A turn is already in progress; continuation queued.'',
      u ''A session operation is in progress for this chat.'', u ''A turn or session operation is in progress for this chat.'']"

definition WAKE_DROP_REPLIES :: "ustr list" where
  "WAKE_DROP_REPLIES = [u ''Unknown or already completed wake event.'']"

record harness =
  hn_ingress :: ingress
  hn_billed :: "ustr list"  \<comment> \<open>cron jobs whose turn was delivered\<close>
  hn_plans :: plan_store
  hn_files :: "(ustr, ustr) dict"
  hn_concluded :: "ustr set"

subsection \<open>A fired event\<close>

record fired =
  fr_event_id :: ustr
  fr_chat :: ustr
  fr_reason :: ustr
  fr_silent :: bool

type_synonym wake_fun = "ustr \<Rightarrow> ustr option \<Rightarrow> ustr option \<Rightarrow> bool option \<Rightarrow> ingress \<Rightarrow> ingress \<times> (py_exn + chat_result)"

text \<open>The delay before a retry; a value of the payload that is no number is outside the model.\<close>

definition retry_delay :: "secs \<Rightarrow> wake_event option \<Rightarrow> py_exn + secs" where
  "retry_delay dflt ev =
     (case Option.bind ev (\<lambda>e. dget (u ''retry_after'') (we_payload e)) of
        None \<Rightarrow> Inr dflt
      | Some j \<Rightarrow> (case as_num j of Some r \<Rightarrow> Inr r | None \<Rightarrow> Inl Unmodelled))"

definition set_queue :: "wake_queue \<Rightarrow> harness \<Rightarrow> harness" where
  "set_queue q h = h\<lparr>hn_ingress := (hn_ingress h)\<lparr>ig_queue := q\<rparr>\<rparr>"

definition queue_of :: "harness \<Rightarrow> wake_queue" where
  "queue_of h = ig_queue (hn_ingress h)"

definition fail_event :: "ustr \<Rightarrow> py_exn + secs \<Rightarrow> secs \<Rightarrow> harness \<Rightarrow> harness \<times> (py_exn + unit)" where
  "fail_event i ra now h =
     (case ra of
        Inl e \<Rightarrow> (h, Inl e)
      | Inr r \<Rightarrow> (case wake_fail i r None now (queue_of h) of (q, x) \<Rightarrow> (set_queue q h, map_sum id (\<lambda>_. ()) x)))"

definition complete_event :: "ustr \<Rightarrow> harness \<Rightarrow> harness \<times> (py_exn + unit)" where
  "complete_event i h = (case wake_complete i (queue_of h) of (q, x) \<Rightarrow> (set_queue q h, map_sum id (\<lambda>_. ()) x))"

definition surface_reply :: "(nat \<Rightarrow> bool) \<Rightarrow> outbox_config \<Rightarrow> ustr \<Rightarrow> chat_result \<Rightarrow> harness \<Rightarrow> harness" where
  "surface_reply isdigit cfg chat r h =
     (if (cr_reply r \<noteq> [] \<or> truthy_text (cr_notice r)) \<and> oc_outbox_delivery cfg
      then h\<lparr>hn_ingress := (hn_ingress h)\<lparr>ig_outbox := deliver_chat_result isdigit cfg chat r (log_result_event cfg chat r (ig_outbox (hn_ingress h)))\<rparr>\<rparr>
      else h)"

definition bill_turn :: "bool \<Rightarrow> wake_event option \<Rightarrow> harness \<Rightarrow> harness" where
  "bill_turn cron ev h =
     (case Option.bind ev (\<lambda>e. dget (u ''cron_job_id'') (we_payload e)) of
        Some (JStr j) \<Rightarrow> if cron \<and> j \<noteq> [] then h\<lparr>hn_billed := hn_billed h @ [j]\<rparr> else h
      | _ \<Rightarrow> h)"

text \<open>The body of the \<open>try\<close> once the wake has returned.\<close>

definition settle_event ::
  "(nat \<Rightarrow> bool) \<Rightarrow> outbox_config \<Rightarrow> bool \<Rightarrow> py_exn + secs \<Rightarrow> secs \<Rightarrow> fired \<Rightarrow> wake_event option \<Rightarrow> chat_result \<Rightarrow> harness \<Rightarrow> harness \<times> (py_exn + unit)" where
  "settle_event isdigit cfg cron ra now f ev r h =
     (if cr_turn_number r = None
      then (if cr_reply r \<in> set WAKE_RETRY_REPLIES then fail_event (fr_event_id f) ra now h
            else if cr_reply r \<in> set WAKE_DROP_REPLIES then complete_event (fr_event_id f) h
            else complete_event (fr_event_id f) (surface_reply isdigit cfg (fr_chat f) r h))
      else complete_event (fr_event_id f) (bill_turn cron ev h))"

definition handle_timer_fired ::
  "(nat \<Rightarrow> bool) \<Rightarrow> outbox_config \<Rightarrow> bool \<Rightarrow> secs \<Rightarrow> wake_fun \<Rightarrow> secs \<Rightarrow> fired \<Rightarrow> harness \<Rightarrow> harness \<times> (py_exn + unit)" where
  "handle_timer_fired isdigit cfg cron dflt wake now f h =
     (case wake_get (fr_event_id f) (queue_of h) of
        (q, Inl e) \<Rightarrow> (set_queue q h, Inl e)
      | (q, Inr ev) \<Rightarrow>
          let ra = retry_delay dflt ev; h1 = set_queue q h
          in case wake (fr_chat f) (Some (fr_event_id f)) (Some (fr_reason f)) (Some (fr_silent f)) (hn_ingress h1) of
               (s, Inl e) \<Rightarrow> fail_event (fr_event_id f) ra now (h1\<lparr>hn_ingress := s\<rparr>)
             | (s, Inr r) \<Rightarrow>
                 (case settle_event isdigit cfg cron ra now f ev r (h1\<lparr>hn_ingress := s\<rparr>) of
                    (h2, Inl e) \<Rightarrow> fail_event (fr_event_id f) ra now h2
                  | (h2, Inr _) \<Rightarrow> (h2, Inr ())))"

subsection \<open>A finished task\<close>

text \<open>The event of the task engine.\<close>

record task_event =
  te_plan_id :: ustr
  te_task_id :: ustr
  te_failed :: bool
  te_result :: ustr
  te_log :: ustr
  te_end :: run_end

definition subagents_of :: "harness \<Rightarrow> subagents" where
  "subagents_of h =
     \<lparr>sb_queue = ig_queue (hn_ingress h), sb_dispatches = ig_dispatches (hn_ingress h), sb_outbox = ig_outbox (hn_ingress h),
      sb_files = hn_files h, sb_plans = hn_plans h\<rparr>"

definition with_subagents :: "subagents \<Rightarrow> harness \<Rightarrow> harness" where
  "with_subagents s h =
     h\<lparr>hn_ingress := (hn_ingress h)\<lparr>ig_queue := sb_queue s, ig_dispatches := sb_dispatches s, ig_outbox := sb_outbox s\<rparr>,
       hn_files := sb_files s, hn_plans := sb_plans s\<rparr>"

text \<open>The chat learns of it: the wake of the task, then (perhaps) the conclusion of its plan.\<close>

definition wake_for_plan :: "ustr \<Rightarrow> ustr \<Rightarrow> secs \<Rightarrow> plan \<Rightarrow> task \<Rightarrow> harness \<Rightarrow> harness \<times> (py_exn + unit)" where
  "wake_for_plan fresh fresh2 now p t h =
     (case enqueue_plan_task_wake fresh now p t (queue_of h) of
        (q, Inl e) \<Rightarrow> (set_queue q h, Inl e)
      | (q, Inr _) \<Rightarrow>
          (case maybe_enqueue_plan_conclusion fresh2 now p (hn_concluded h) q of
             (c, q2, r) \<Rightarrow> ((set_queue q2 h)\<lparr>hn_concluded := c\<rparr>, r)))"

definition settle_task :: "secs \<Rightarrow> task_event \<Rightarrow> plan_store \<Rightarrow> plan_store \<times> (py_exn + task option changed)" where
  "settle_task now ev ps =
     (if te_failed ev then fail_task (te_plan_id ev) (te_task_id ev) (te_log ev) (te_end ev) now now ps
      else complete_task (te_plan_id ev) (te_task_id ev) (te_result ev) (te_log ev) (te_end ev) now now ps)"

definition handle_task_ended ::
  "(ustr \<Rightarrow> ustr) \<Rightarrow> (ustr \<Rightarrow> ustr) \<Rightarrow> bool \<Rightarrow> outbox_config \<Rightarrow> ustr \<Rightarrow> ustr \<Rightarrow> secs \<Rightarrow> task_event \<Rightarrow> harness \<Rightarrow> harness \<times> (py_exn + unit)" where
  "handle_task_ended lower chat_dir writable cfg fresh fresh2 now ev h =
     (case settle_task now ev (hn_plans h) of
        (ps, Inl e) \<Rightarrow> (h\<lparr>hn_plans := ps\<rparr>, Inl e)
      | (ps, Inr (None, _)) \<Rightarrow> (h\<lparr>hn_plans := ps\<rparr>, Inr ())
      | (ps, Inr (Some t, _)) \<Rightarrow>
          let h1 = h\<lparr>hn_plans := ps\<rparr>
          in if tk_type t = SUBAGENT
             then (with_subagents (complete_subagent_task lower chat_dir writable cfg now t (subagents_of h1)) h1, Inr ())
             else (case get_plan (te_plan_id ev) ps of
                     (ps2, Inl e) \<Rightarrow> (h1\<lparr>hn_plans := ps2\<rparr>, Inl e)
                   | (ps2, Inr None) \<Rightarrow> (h1\<lparr>hn_plans := ps2\<rparr>, Inr ())
                   | (ps2, Inr (Some p)) \<Rightarrow> wake_for_plan fresh fresh2 now p t (h1\<lparr>hn_plans := ps2\<rparr>)))"

end
