(* ===== verification/LifecycleFacts.thy ===== *)
theory LifecycleFacts
  imports Lifecycle
begin

section \<open>What becomes of wakes\<close>

text \<open>
  A claimed event is completed or rescheduled, never left claimed; a finished task reaches the chat's wakes, also
  when it is folded into a pending one; a finished subagent's result is handed to the turn that its wake
  starts; a continuation that fires during a drain is lost.
\<close>

subsection \<open>A fired event\<close>

lemma fail_loaded:
  assumes "wake_load (wq_file (queue_of h)) = Inr d"
  shows "\<exists>h'. fail_event i (Inr r) now h = (h', Inr ()) \<and> wake_load (wq_file (queue_of h')) = Inr (fst (fail_body i r now d))
    \<and> ig_dispatches (hn_ingress h') = ig_dispatches (hn_ingress h)"
  using wake_load_ok [OF assms] wake_apply_ok [of d "Fail i r now"]
  by (simp add: fail_event_def wake_fail_def now_or_def wake_transaction_loaded [OF assms] set_queue_def) (simp add: queue_of_def wake_load_save)

lemma complete_loaded:
  assumes "wake_load (wq_file (queue_of h)) = Inr d"
  shows "\<exists>h'. complete_event i h = (h', Inr ()) \<and> wake_load (wq_file (queue_of h')) = Inr (ddel i d)
    \<and> ig_dispatches (hn_ingress h') = ig_dispatches (hn_ingress h)"
  using wake_load_ok [OF assms] wake_apply_ok [of d "Complete i"]
  by (simp add: complete_event_def wake_complete_def complete_body_def wake_transaction_loaded [OF assms] set_queue_def) (simp add: queue_of_def wake_load_save)

lemma effects_keep_queue [simp]: "queue_of (surface_reply isdigit cfg chat r h) = queue_of h" "queue_of (bill_turn cron ev h) = queue_of h"
  "ig_dispatches (hn_ingress (surface_reply isdigit cfg chat r h)) = ig_dispatches (hn_ingress h)"
  "ig_dispatches (hn_ingress (bill_turn cron ev h)) = ig_dispatches (hn_ingress h)"
  by (simp_all add: surface_reply_def bill_turn_def queue_of_def split: option.split json.split)

text \<open>A wake that raised or was refused for now.\<close>

definition to_retry :: "py_exn + chat_result \<Rightarrow> bool" where
  "to_retry r = (case r of Inl e \<Rightarrow> True | Inr cr \<Rightarrow> cr_turn_number cr = None \<and> cr_reply cr \<in> set WAKE_RETRY_REPLIES)"

definition rescheduled :: "secs \<Rightarrow> wake_event \<Rightarrow> wake_event" where
  "rescheduled t e = e\<lparr>we_attempts := we_attempts e + 1, we_scheduled_at := t, we_leased_until := None\<rparr>"

lemma fail_body_get: "dget j (fst (fail_body i r now d)) = (if j = i then map_option (rescheduled (now + r)) (dget i d) else dget j d)"
  by (auto simp: fail_body_def rescheduled_def Let_def split: option.split)

lemma settle_cases:
  assumes "wake_load (wq_file (queue_of h)) = Inr d"
  shows "\<exists>h'. settle_event isdigit cfg cron (Inr ra) now f ev r h = (h', Inr ())
    \<and> wake_load (wq_file (queue_of h')) = Inr (if to_retry (Inr r) then fst (fail_body (fr_event_id f) ra now d) else ddel (fr_event_id f) d)
    \<and> ig_dispatches (hn_ingress h') = ig_dispatches (hn_ingress h)"
  using fail_loaded [OF assms, of "fr_event_id f" ra now] complete_loaded [OF assms, of "fr_event_id f"]
    complete_loaded [of "surface_reply isdigit cfg (fr_chat f) r h" d "fr_event_id f"] complete_loaded [of "bill_turn cron ev h" d "fr_event_id f"] assms
  by (simp add: settle_event_def to_retry_def)

lemma handler_settles:
  assumes "wake_load (wq_file (queue_of h)) = Inr d" and "retry_delay dflt (dget (fr_event_id f) d) = Inr ra"
    and "wake (fr_chat f) (Some (fr_event_id f)) (Some (fr_reason f)) (Some (fr_silent f))
           (hn_ingress (set_queue \<lparr>wq_file = wake_save d, wq_in_memory = d\<rparr> h)) = (s, r)"
    and "wake_load (wq_file (ig_queue s)) = Inr d2"
  shows "\<exists>h'. handle_timer_fired isdigit cfg cron dflt wake now f h = (h', Inr ())
    \<and> wake_load (wq_file (queue_of h')) = Inr (if to_retry r then fst (fail_body (fr_event_id f) ra now d2) else ddel (fr_event_id f) d2)
    \<and> ig_dispatches (hn_ingress h') = ig_dispatches s"
proof -
  let ?q = "\<lparr>wq_file = wake_save d, wq_in_memory = d\<rparr>"
  have g: "wake_get (fr_event_id f) (queue_of h) = (?q, Inr (dget (fr_event_id f) d))"
    by (simp add: wake_get_def get_body_def wake_transaction_loaded [OF assms(1)])
  have l: "wake_load (wq_file (queue_of ((set_queue ?q h)\<lparr>hn_ingress := s\<rparr>))) = Inr d2" using assms(4) by (simp add: queue_of_def)
  show ?thesis
  proof (cases r)
    case (Inl e)
    with fail_loaded [OF l] show ?thesis using assms(2,3) by (simp add: handle_timer_fired_def g Let_def to_retry_def)
  next
    case (Inr cr)
    obtain h' where "settle_event isdigit cfg cron (Inr ra) now f (dget (fr_event_id f) d) cr ((set_queue ?q h)\<lparr>hn_ingress := s\<rparr>) = (h', Inr ())"
      "wake_load (wq_file (queue_of h')) = Inr (if to_retry (Inr cr) then fst (fail_body (fr_event_id f) ra now d2) else ddel (fr_event_id f) d2)"
      "ig_dispatches (hn_ingress h') = ig_dispatches s"
      using settle_cases [OF l] by fastforce
    then show ?thesis using assms(2,3) Inr by (simp add: handle_timer_fired_def g Let_def)
  qed
qed

text \<open>
  Claim C17.  A fired event is settled: whatever the wake does (a turn, a refusal, a final message, an exception), as long
  as the queue can be read the handler ends without an exception, every other event is left as the wake left it,
  and the fired one is afterwards either gone, or, exactly when the wake raised or was refused for the moment, back
  in the queue without a claim, due after the delay its payload asks for, with one attempt more.
\<close>

theorem fired_event_is_settled:
  assumes "wake_load (wq_file (queue_of h)) = Inr d" and "retry_delay dflt (dget (fr_event_id f) d) = Inr ra"
    and "wake (fr_chat f) (Some (fr_event_id f)) (Some (fr_reason f)) (Some (fr_silent f))
           (hn_ingress (set_queue \<lparr>wq_file = wake_save d, wq_in_memory = d\<rparr> h)) = (s, r)"
    and "wake_load (wq_file (ig_queue s)) = Inr d2"
  shows "\<exists>h' d3. handle_timer_fired isdigit cfg cron dflt wake now f h = (h', Inr ()) \<and> wake_load (wq_file (queue_of h')) = Inr d3
    \<and> (\<forall>j. dget j d3 = (if j \<noteq> fr_event_id f then dget j d2
                         else if to_retry r then map_option (rescheduled (now + ra)) (dget j d2) else None))"
proof -
  obtain h' where h: "handle_timer_fired isdigit cfg cron dflt wake now f h = (h', Inr ())"
    "wake_load (wq_file (queue_of h')) = Inr (if to_retry r then fst (fail_body (fr_event_id f) ra now d2) else ddel (fr_event_id f) d2)"
    using handler_settles [where wake = wake and f = f, OF assms] by blast
  have "dict_ok d2" using queue_ok_dict [OF wake_load_ok [OF assms(4)]] .
  then have "\<forall>j. dget j (if to_retry r then fst (fail_body (fr_event_id f) ra now d2) else ddel (fr_event_id f) d2) =
      (if j \<noteq> fr_event_id f then dget j d2 else if to_retry r then map_option (rescheduled (now + ra)) (dget j d2) else None)"
    by (auto simp: fail_body_get)
  with h show ?thesis by blast
qed

subsection \<open>A continuation during a drain\<close>

lemma drained_replies: "dispatch_reply i ''The service is draining for a restart; continuation deferred.'' = r \<Longrightarrow> \<not> to_retry (Inr r)"
  by (auto simp: to_retry_def dispatch_reply_def mk_result_def WAKE_RETRY_REPLIES_def)

text \<open>
  A dispatch continuation that the timer fires while the service drains is lost: the turn is refused with the reply
  that it is deferred, but that reply is not among those that are retried, so the event is completed; the
  dispatch stays pending and nothing is left in the queue that would continue it.
\<close>

theorem drained_continuation_is_lost:
  assumes "wake_load (wq_file (queue_of h)) = Inr d" and "dget i d = Some ev" and "retry_delay dflt (Some ev) = Inr ra"
    and "we_reason ev = u ''dispatch''" and "we_ready ev" and "wake_dispatch (u ''dispatch'') (we_payload ev) (ig_dispatches (hn_ingress h)) = Some (n, result)"
    and "dispatch_get n (ig_dispatches (hn_ingress h)) = Some dp" and "i = u ''wake-'' @ n" and "dp_chat_id dp = we_chat_id ev"
    and "ig_acquire alive tid now (we_chat_id ev) (hn_ingress (set_queue \<lparr>wq_file = wake_save d, wq_in_memory = d\<rparr> h)) = (s1, True)"
    and "ig_acquire alive tid now (we_chat_id ev) s1 = (s2, True)"
    and "rt_draining rt" and "continue_gate n (we_chat_id ev) rt = Some gate" and "\<And>s. ctl (Continue n result) s = (s, Inr gate)"
  shows "\<exists>h' d3. handle_timer_fired isdigit cfg cron dflt (ingress_wake alive isdigit cfg2 ra2 dumps plan_msg ctl tid now) now
      \<lparr>fr_event_id = i, fr_chat = c0, fr_reason = u ''dispatch'', fr_silent = b\<rparr> h = (h', Inr ())
    \<and> wake_load (wq_file (queue_of h')) = Inr d3 \<and> dget i d3 = None
    \<and> dispatch_get n (ig_dispatches (hn_ingress h')) = Some dp"
proof -
  let ?q = "\<lparr>wq_file = wake_save d, wq_in_memory = d\<rparr>"
  let ?s = "hn_ingress (set_queue ?q h)"
  let ?rel = "\<lambda>s. ig_release (we_chat_id ev) (ig_release (we_chat_id ev) s)"
  have ok: "wake_load (wake_save d) = Inr d" by (rule wake_load_save [OF wake_load_ok [OF assms(1)]])
  have acq: "ig_queue y = ig_queue x \<and> ig_dispatches y = ig_dispatches x" if "ig_acquire alive tid now c x = (y, b1)" for x y c b1
    using that by (auto simp: ig_acquire_def split: prod.splits)
  have rel: "ig_queue (ig_release c x) = ig_queue x \<and> ig_dispatches (ig_release c x) = ig_dispatches x" for x c
    by (simp add: ig_release_def split: prod.split)
  have s1: "ig_queue s1 = ?q" "ig_dispatches s1 = ig_dispatches (hn_ingress h)" using acq [OF assms(10)] by (simp_all add: set_queue_def)
  have s2: "ig_queue s2 = ?q" "ig_dispatches s2 = ig_dispatches (hn_ingress h)" using acq [OF assms(11)] s1 by simp_all
  have rd: "wake_ready i (Some now) now ?q = (?q, Inr (Some ev))"
    using ok assms(2,5) by (simp add: wake_ready_def wake_transaction_loaded [of ?q d] ready_body_def)
  have gate: "gate = dispatch_reply n ''The service is draining for a restart; continuation deferred.''" using assms(12,13) by (simp add: continue_gate_def)
  then have turn: "cr_turn_number gate = None" by (simp add: dispatch_reply_def mk_result_def)
  have c: "continue_turn alive ra2 ctl tid now n result s1 = (ig_release (we_chat_id ev) (s2\<lparr>ig_queue := ?q\<rparr>), Inr gate)"
    using assms(7,9,11) s1 s2 rd turn by (simp add: continue_turn_def Let_def assms(8) [symmetric] assms(14))
  have same: "?s\<lparr>ig_queue := ?q\<rparr> = ?s" by (simp add: set_queue_def)
  have w: "ingress_wake alive isdigit cfg2 ra2 dumps plan_msg ctl tid now c0 (Some i) (Some (u ''dispatch'')) (Some b) ?s = (?rel (s2\<lparr>ig_queue := ?q\<rparr>), Inr gate)"
  proof -
    have "wake_get i (ig_queue ?s) = (?q, Inr (Some ev))"
      using ok assms(2) by (simp add: wake_get_def get_body_def set_queue_def wake_transaction_loaded [of ?q d])
    then show ?thesis using assms(4,6,10) s1 c same by (simp add: ingress_wake_def wake_locked_def Let_def)
  qed
  obtain h' where "handle_timer_fired isdigit cfg cron dflt (ingress_wake alive isdigit cfg2 ra2 dumps plan_msg ctl tid now) now
      \<lparr>fr_event_id = i, fr_chat = c0, fr_reason = u ''dispatch'', fr_silent = b\<rparr> h = (h', Inr ())"
    "wake_load (wq_file (queue_of h')) = Inr (if to_retry (Inr gate) then fst (fail_body i ra now d) else ddel i d)"
    "ig_dispatches (hn_ingress h') = ig_dispatches (?rel (s2\<lparr>ig_queue := ?q\<rparr>))"
    using handler_settles [where wake = "ingress_wake alive isdigit cfg2 ra2 dumps plan_msg ctl tid now"
        and f = "\<lparr>fr_event_id = i, fr_chat = c0, fr_reason = u ''dispatch'', fr_silent = b\<rparr>" and h = h and d = d and dflt = dflt and ra = ra and ?d2.0 = d
        and isdigit = isdigit and cfg = cfg and cron = cron and now = now, OF assms(1) _ _ _] w assms(2,3) ok rel s2
    by fastforce
  moreover have "\<not> to_retry (Inr gate)" using drained_replies [of n gate] gate by simp
  moreover have "dict_ok d" using queue_ok_dict [OF wake_load_ok [OF assms(1)]] .
  ultimately show ?thesis using rel s2 assms(7) by auto
qed

subsection \<open>A finished task reaches the chat\<close>

lemma sanitized_key: "list_all (\<lambda>c. c < 55296) k \<Longrightarrow> sanitize_surrogates k0 = k \<longleftrightarrow> k0 = k"
proof (induction k0 arbitrary: k)
  case (Cons a k0)
  then show ?case by (cases k) (auto simp: sanitize_surrogates_def is_surrogate_def)
qed (auto simp: sanitize_surrogates_def)

lemma sanitized_get:
  assumes "list_all (\<lambda>c. c < 55296) k" and "dict_ok kvs"
  shows "dget k (sanitize_dict kvs) = map_option sanitize_json_value (dget k kvs)"
proof -
  have "dget k (rev (map (\<lambda>(k, v). (sanitize_surrogates k, sanitize_json_value v)) kvs)) = map_option sanitize_json_value (dget k kvs)"
    using assms(2)
  proof (induction kvs)
    case (Cons p kvs)
    obtain a v where p: "p = (a, v)" by force
    have "dict_ok kvs" "a \<notin> set (dkeys kvs)" using Cons.prems by (auto simp: dict_ok_def p)
    moreover have "dget k kvs = None" if "a = k" using that calculation(2) by (auto simp: map_of_eq_None_iff)
    ultimately show ?case using Cons.IH sanitized_key [OF assms(1), of a]
      by (cases "a = k") (auto simp: p map_add_def map_of_append split: option.split)
  qed simp
  then show ?thesis by (simp add: sanitize_dict_def dget_dmerge split: option.split)
qed

lemma ascii_keys: "list_all (\<lambda>c. c < 55296) (u ''tasks'')" "list_all (\<lambda>c. c < 55296) (u ''plan_id'')"
  by (simp_all add: u_def)

text \<open>The tasks a wake reports; what is written to the queue is scrubbed.\<close>

definition entries :: "wake_event \<Rightarrow> json set" where
  "entries e = (case task_list (dget (u ''tasks'') (we_payload e)) of None \<Rightarrow> {} | Some ts \<Rightarrow> sanitize_json_value ` set ts)"

definition wakes_ok :: "events \<Rightarrow> bool" where
  "wakes_ok d \<longleftrightarrow> (\<forall>e \<in> set (dvals d). dict_ok (we_payload e) \<and> task_list (dget (u ''tasks'') (we_payload e)) \<noteq> None)"

definition reports :: "ustr \<Rightarrow> task \<Rightarrow> secs \<Rightarrow> wake_event \<Rightarrow> bool" where
  "reports chat t now e \<longleftrightarrow> we_chat_id e = chat \<and> we_reason e = u ''plan_task_update'' \<and> we_ready e \<and> unleased now e
     \<and> sanitize_json_value (task_entry t) \<in> entries e"

lemma sanitized_entries:
  assumes "dict_ok p" and "dget (u ''tasks'') p = Some (JList ts)"
  shows "entries (e\<lparr>we_payload := sanitize_dict p\<rparr>) = sanitize_json_value ` set ts"
  using sanitized_get [OF ascii_keys(1) assms(1)] assms(2) by (auto simp: entries_def sanitize_json_value_idem image_image)

lemma payload_ok: "dict_ok (task_wake_payload p t)" "dget (u ''tasks'') (task_wake_payload p t) = Some (JList [task_entry t])"
  by (simp_all add: task_wake_payload_def dict_ok_def)

text \<open>Every wake that was pending is still there, with at least its tasks.\<close>

definition kept_wakes :: "events \<Rightarrow> events \<Rightarrow> bool" where
  "kept_wakes d d' \<longleftrightarrow> (\<forall>e \<in> set (dvals d). \<exists>e' \<in> set (dvals d'). we_id e' = we_id e \<and> entries e \<subseteq> entries e')"

lemma dset_kept:
  assumes "queue_ok d" and "we_id e' = i" and "\<And>e. dget i d = Some e \<Longrightarrow> entries e \<subseteq> entries e'"
  shows "kept_wakes d (dset i e' d)"
  unfolding kept_wakes_def
proof
  fix e assume e: "e \<in> set (dvals d)"
  then have g: "dget (we_id e) d = Some e" using queue_ok_vals [OF assms(1)] by blast
  have ok: "queue_ok (dset i e' d)" using queue_ok_dset [OF assms(1,2)] .
  show "\<exists>x \<in> set (dvals (dset i e' d)). we_id x = we_id e \<and> entries e \<subseteq> entries x"
  proof (cases "we_id e = i")
    case True
    have "e' \<in> set (dvals (dset i e' d))" using queue_ok_vals [OF ok, of e'] assms(2) by simp
    with True g assms(2,3) show ?thesis by blast
  next
    case False
    then have "e \<in> set (dvals (dset i e' d))" using queue_ok_vals [OF ok, of e] g by simp
    then show ?thesis by blast
  qed
qed

lemma kept_refl [simp]: "kept_wakes d d"
  by (auto simp: kept_wakes_def)

lemma kept_trans: "kept_wakes d d1 \<Longrightarrow> kept_wakes d1 d2 \<Longrightarrow> kept_wakes d d2"
  unfolding kept_wakes_def by (metis subset_trans)

lemma task_wake_reaches:
  assumes "wake_load (wq_file q) = Inr d" and "wakes_ok d" and "pl_chat_id p = Some chat" and "\<not> quiet_success t"
    and "fresh \<noteq> []" and "dget fresh d = None"
  shows "\<exists>q' d' e. enqueue_plan_task_wake fresh now p t q = (q', Inr ()) \<and> wake_load (wq_file q') = Inr d'
    \<and> e \<in> set (dvals d') \<and> reports chat t now e \<and> kept_wakes d d' \<and> (\<forall>i. i \<noteq> fresh \<longrightarrow> dget i d = None \<longrightarrow> dget i d' = None)"
proof -
  let ?ev = "plan_wake chat ''plan_task_update'' (task_wake_payload p t) now"
  have ok: "queue_ok d" using wake_load_ok [OF assms(1)] .
  have fields: "we_chat_id ?ev = chat" "we_reason ?ev = u ''plan_task_update''" "we_payload ?ev = task_wake_payload p t" "we_ready ?ev" "we_id ?ev = []"
    "we_leased_until ?ev = None" by (simp_all add: plan_wake_def)
  show ?thesis
  proof (cases "py_max_key we_created_at (filter (merge_candidate ?ev (pl_id p) now) (dvals d))")
    case None
    then have m: "merge_body ?ev (pl_id p) now d = (d, Inr False)" by (simp add: merge_body_def)
    let ?e = "enqueue_event fresh ?ev"
    have e: "we_id ?e = fresh" "?e = ?ev\<lparr>we_id := fresh, we_payload := sanitize_dict (task_wake_payload p t)\<rparr>"
      by (simp_all add: enqueue_event_def fields)
    have ok2: "queue_ok (dset fresh ?e d)" using queue_ok_dset [OF ok e(1)] .
    have r: "reports chat t now ?e"
      using sanitized_entries [where e = "?ev\<lparr>we_id := fresh\<rparr>", OF payload_ok, of p t] fields e(2) by (simp add: reports_def unleased_def)
    have l: "wake_load (wake_save d) = Inr d" by (rule wake_load_save [OF ok])
    have run: "enqueue_plan_task_wake fresh now p t q = (\<lparr>wq_file = wake_save (dset fresh ?e d), wq_in_memory = dset fresh ?e d\<rparr>, Inr ())"
      using assms(3,4) e(1) by (simp add: enqueue_plan_task_wake_def Let_def wake_merge_into_ready_def wake_transaction_loaded [OF assms(1)] m
          wake_enqueue_def wake_transaction_loaded [of "\<lparr>wq_file = wake_save d, wq_in_memory = d\<rparr>" d] l enqueue_body_def)
    have mem: "?e \<in> set (dvals (dset fresh ?e d))" using queue_ok_vals [OF ok2, of ?e] e(1) by simp
    have k: "kept_wakes d (dset fresh ?e d)" by (rule dset_kept [OF ok e(1)]) (simp add: assms(6))
    show ?thesis
      by (rule exI, rule exI [of _ "dset fresh ?e d"], rule exI [of _ ?e], rule conjI, rule run)
        (use wake_load_save [OF ok2] mem r k in simp)
  next
    case (Some x)
    from py_max_key_mem [OF Some] have x: "x \<in> set (dvals d)" "merge_candidate ?ev (pl_id p) now x" by auto
    obtain ts where ts: "task_list (dget (u ''tasks'') (we_payload x)) = Some ts" using assms(2) x(1) by (auto simp: wakes_ok_def)
    let ?p = "merged_payload (we_payload x) (we_payload ?ev) (ts @ [task_entry t])"
    let ?x = "x\<lparr>we_payload := sanitize_dict ?p\<rparr>"
    have m: "merge_body ?ev (pl_id p) now d = (dset (we_id x) ?x d, Inr True)"
      by (simp add: merge_body_def Some ts fields payload_ok(2))
    have p: "dict_ok ?p" "dget (u ''tasks'') ?p = Some (JList (ts @ [task_entry t]))"
      using assms(2) x(1) dict_ok_dmerge [of "we_payload x"] by (auto simp: merged_payload_def wakes_ok_def)
    have en: "entries ?x = sanitize_json_value ` set (ts @ [task_entry t])" by (rule sanitized_entries [OF p])
    have g: "dget (we_id x) d = Some x" using queue_ok_vals [OF ok] x(1) by blast
    have ok2: "queue_ok (dset (we_id x) ?x d)" by (rule queue_ok_dset [OF ok]) simp
    have r: "reports chat t now ?x" using x(2) en by (simp add: reports_def merge_candidate_def fields unleased_def)
    have k: "kept_wakes d (dset (we_id x) ?x d)" by (rule dset_kept [OF ok]) (use g en ts in \<open>auto simp: entries_def\<close>)
    have run: "enqueue_plan_task_wake fresh now p t q = (\<lparr>wq_file = wake_save (dset (we_id x) ?x d), wq_in_memory = dset (we_id x) ?x d\<rparr>, Inr ())"
      using assms(3,4) by (simp add: enqueue_plan_task_wake_def Let_def wake_merge_into_ready_def wake_transaction_loaded [OF assms(1)] m)
    have mem: "?x \<in> set (dvals (dset (we_id x) ?x d))" using queue_ok_vals [OF ok2, of ?x] by simp
    show ?thesis
      by (rule exI, rule exI [of _ "dset (we_id x) ?x d"], rule exI [of _ ?x], rule conjI, rule run)
        (use wake_load_save [OF ok2] mem r k g in auto)
  qed
qed

text \<open>The conclusion of the plan is one more event, at most.\<close>

lemma conclusion_keeps:
  assumes "wake_load (wq_file q) = Inr d" and "fresh \<noteq> []" and "dget fresh d = None"
  shows "\<exists>c q' d'. maybe_enqueue_plan_conclusion fresh now p concluded q = (c, q', Inr ()) \<and> wake_load (wq_file q') = Inr d'
    \<and> (\<forall>e \<in> set (dvals d). e \<in> set (dvals d'))"
proof (cases "\<exists>chat. pl_chat_id p = Some chat \<and> \<not> ((pl_status p \<noteq> COMPLETED \<and> pl_status p \<noteq> PLAN_FAILED) \<or> pl_id p \<in> concluded)")
  case True
  then obtain chat where c: "pl_chat_id p = Some chat" "\<not> ((pl_status p \<noteq> COMPLETED \<and> pl_status p \<noteq> PLAN_FAILED) \<or> pl_id p \<in> concluded)" by blast
  let ?e = "enqueue_event fresh (plan_wake chat ''plan_completed'' (conclusion_payload p) now)"
  have e: "we_id ?e = fresh" by (simp add: enqueue_event_def plan_wake_def)
  have ok: "queue_ok d" using wake_load_ok [OF assms(1)] .
  have ok2: "queue_ok (dset fresh ?e d)" using queue_ok_dset [OF ok e] .
  have "\<forall>x \<in> set (dvals d). x \<in> set (dvals (dset fresh ?e d))"
  proof
    fix x assume "x \<in> set (dvals d)"
    then have "dget (we_id x) d = Some x" using queue_ok_vals [OF ok] by blast
    then have "dget (we_id x) (dset fresh ?e d) = Some x" using assms(3) by auto
    then show "x \<in> set (dvals (dset fresh ?e d))" using queue_ok_vals [OF ok2] by blast
  qed
  moreover have "maybe_enqueue_plan_conclusion fresh now p concluded q =
      (insert (pl_id p) concluded, \<lparr>wq_file = wake_save (dset fresh ?e d), wq_in_memory = dset fresh ?e d\<rparr>, Inr ())"
    using c e by (auto simp: maybe_enqueue_plan_conclusion_def wake_enqueue_def wake_transaction_loaded [OF assms(1)] enqueue_body_def)
  ultimately show ?thesis using wake_load_save [OF ok2] by auto
next
  case False
  then have "maybe_enqueue_plan_conclusion fresh now p concluded q = (concluded, q, Inr ())"
    by (auto simp: maybe_enqueue_plan_conclusion_def split: option.split)
  with assms(1) show ?thesis by auto
qed

definition ended_task :: "secs \<Rightarrow> task_event \<Rightarrow> task \<Rightarrow> task" where
  "ended_task now ev t = (if te_failed ev then failed_task (te_log ev) (te_end ev) now t else completed_task (te_result ev) (te_log ev) (te_end ev) now t)"

lemma ended_task_sel [simp]: "tk_id (ended_task now ev t) = tk_id t" "tk_type (ended_task now ev t) = tk_type t"
  "\<not> schedulable (tk_status (ended_task now ev t))"
  by (simp_all add: ended_task_def failed_task_def completed_task_def record_end_def schedulable_def)

lemma settle_task_eq: "settle_task now ev ps = plan_transaction (finish_body (te_plan_id ev) (te_task_id ev) (ended_task now ev) now) ps"
  by (simp add: settle_task_def ended_task_def [abs_def] fail_task_def complete_task_def fail_task_body_def complete_task_body_def)

lemma find_updated:
  "find (\<lambda>t. tk_id t = i) ts = Some t0 \<Longrightarrow> (\<And>t. tk_id (f t) = tk_id t) \<Longrightarrow> find (\<lambda>t. tk_id t = i) (update_first i f ts) = Some (f t0)"
  by (induction ts) (auto split: if_splits)

lemma same_task_fixed: "same_task x y \<Longrightarrow> \<not> schedulable (tk_status x) \<Longrightarrow> y = x"
  by (cases x) (simp add: same_task_def)

text \<open>The settled plan, as it is stored.\<close>

definition ended_plan :: "secs \<Rightarrow> task_event \<Rightarrow> plan \<Rightarrow> plan" where
  "ended_plan now ev p = touch now (settle (set_task (te_task_id ev) (ended_task now ev) p))"

lemma ended_plan_sel [simp]: "pl_id (ended_plan now ev p) = pl_id p" "pl_chat_id (ended_plan now ev p) = pl_chat_id p"
  by (simp_all add: ended_plan_def touch_def settle_def update_plan_status_def resolve_statuses_def set_task_def)

lemma ended_plan_task:
  assumes "get_task_in_plan p (te_task_id ev) = Some t"
  shows "get_task_in_plan (ended_plan now ev p) (te_task_id ev) = Some (ended_task now ev t)"
proof -
  let ?q = "set_task (te_task_id ev) (ended_task now ev) p"
  have "find (\<lambda>t. tk_id t = te_task_id ev) (pl_tasks ?q) = Some (ended_task now ev t)"
    using find_updated [of "te_task_id ev" "pl_tasks p" t "ended_task now ev"] assms by (simp add: set_task_def get_task_in_plan_def)
  from find_same_task [OF resolve_statuses_same_task this] obtain t1 where
    t1: "find (\<lambda>t. tk_id t = te_task_id ev) (pl_tasks (resolve_statuses ?q)) = Some t1" "same_task (ended_task now ev t) t1" by blast
  have "t1 = ended_task now ev t" by (rule same_task_fixed [OF t1(2)]) simp
  with t1(1) show ?thesis by (simp add: ended_plan_def get_task_in_plan_def touch_def settle_def update_plan_status_def)
qed

lemma settled_task:
  assumes "plan_load (ps_file ps) = Inr ds" and "dget (te_plan_id ev) ds = Some p0" and "get_task_in_plan p0 (te_task_id ev) = Some t0"
  shows "\<exists>ps1 ps2 p n. settle_task now ev ps = (ps1, Inr (Some (ended_task now ev t0), n)) \<and> get_plan (te_plan_id ev) ps1 = (ps2, Inr (Some p))
    \<and> pl_chat_id p = pl_chat_id p0"
proof -
  let ?p = "ended_plan now ev p0"
  let ?d = "dset (te_plan_id ev) ?p ds"
  let ?ps = "\<lparr>ps_file = plan_save ?d, ps_plans = ?d\<rparr>"
  have ok: "plans_ok ds" using plan_load_ok [OF assms(1)] .
  have "pl_id p0 = te_plan_id ev" using keyed_ok_get [OF ok [unfolded plans_ok_def] assms(2)] by simp
  then have "plans_ok ?d" using keyed_ok_dset [of pl_id "\<lambda>_. True" ds ?p "te_plan_id ev"] ok unfolding plans_ok_def ended_plan_sel by blast
  then have l: "plan_load (ps_file ?ps) = Inr ?d" using plan_load_save by simp
  have "finish_body (te_plan_id ev) (te_task_id ev) (ended_task now ev) now ds = (?d, (Some (ended_task now ev t0), Some ?p))"
    using assms(2,3) ended_plan_task [OF assms(3)] by (simp add: finish_body_def Let_def ended_plan_def)
  then have s: "settle_task now ev ps = (?ps, Inr (Some (ended_task now ev t0), Some ?p))"
    unfolding settle_task_eq plan_transaction_loaded [OF assms(1)] by simp
  have g: "get_plan (te_plan_id ev) ?ps = (?ps, Inr (Some ?p))"
    unfolding get_plan_def plan_transaction_loaded [OF l] get_plan_body_def by simp
  show ?thesis by (rule exI, rule exI, rule exI, rule exI, rule conjI, rule s, rule conjI, rule g) simp
qed

lemma queue_of_plans: "queue_of (h\<lparr>hn_plans := ps\<rparr>) = queue_of h"
  by (simp add: queue_of_def)


subsection \<open>The result of a subagent\<close>

lemma stored_result:
  assumes "saved_ok ds" and "dispatch_get i ds = Some dp" and "dp_status dp = D_PENDING" and "ru_status r = None"
  shows "saved_ok (fst (set_result i r now ds))" and "dispatch_get i (fst (set_result i r now ds)) = Some (updated r dp)"
    and "dp_status (updated r dp) = D_PENDING" and "dp_result (updated r dp) = Some (ru_result r)"
proof -
  have ok: "items_ok (ds_items ds)" using assms(1) by (simp add: saved_ok_def)
  have p: "dp_status (updated r dp) = D_PENDING" using assms(3,4) by (simp add: updated_def Let_def)
  have id: "dp_id dp = i" using dget_ids [OF ok] assms(2) by (simp add: dispatch_get_def)
  have "items_ok (dset i (updated r dp) (ds_items ds))" by (rule items_ok_dset [OF ok]) (simp add: updated_id id)
  then have "dget i (ds_items (dispatch_save now (ds\<lparr>ds_items := dset i (updated r dp) (ds_items ds)\<rparr>))) = Some (updated r dp)"
    by (intro save_keeps_pending) (simp_all add: p)
  then show "dispatch_get i (fst (set_result i r now ds)) = Some (updated r dp)"
    using assms(2) by (simp add: set_result_def change_dispatch_def dispatch_get_def)
  show "saved_ok (fst (set_result i r now ds))" unfolding set_result_def by (rule change_ok [OF assms(1) updated_id])
  show "dp_status (updated r dp) = D_PENDING" by (rule p)
  show "dp_result (updated r dp) = Some (ru_result r)" using assms(3) by (simp add: updated_def takes_result_def Let_def)
qed

lemma persisted:
  assumes "saved_ok (sb_dispatches s)" and "dispatch_get i (sb_dispatches s) = Some dp" and "dp_status dp = D_PENDING"
  obtains dp1 where "saved_ok (sb_dispatches (persist_subagent_result chat_dir w now dp r s))"
    "dispatch_get i (sb_dispatches (persist_subagent_result chat_dir w now dp r s)) = Some dp1" "dp_status dp1 = D_PENDING"
    "sb_queue (persist_subagent_result chat_dir w now dp r s) = sb_queue s"
proof (cases w)
  case True
  have "dp_id dp = i" using dget_ids [of "ds_items (sb_dispatches s)"] assms(1,2) by (simp add: saved_ok_def dispatch_get_def)
  with True that stored_result [OF assms] show ?thesis by (simp add: persist_subagent_result_def)
qed (use that assms in \<open>simp add: persist_subagent_result_def\<close>)

lemma clean_end: "ts_status (subagent_terminal_state lower t) = None \<Longrightarrow>
    \<not> ts_timeout (subagent_terminal_state lower t) \<and> \<not> ts_cancelled (subagent_terminal_state lower t)"
  by (auto simp: subagent_terminal_state_def Let_def split: if_splits)

text \<open>The wake is ready, at the latest from now on.\<close>

lemma made_ready:
  assumes "wake_load (wq_file q) = Inr d" and "dget i d = Some ev"
  obtains q1 d1 ev1 where "(case wake_get i q of (q1, Inl e) \<Rightarrow> q1 | (q1, Inr _) \<Rightarrow> fst (wake_ready i (Some now) now q1)) = q1"
    "wake_load (wq_file q1) = Inr d1" "dget i d1 = Some ev1" "we_ready ev1" "we_payload ev1 = we_payload ev" "we_reason ev1 = we_reason ev"
    "we_scheduled_at ev1 = (if we_ready ev then we_scheduled_at ev else now)"
proof -
  have ok: "queue_ok d" using wake_load_ok [OF assms(1)] .
  have i: "we_id ev = i" using keyed_ok_get [OF ok [unfolded queue_ok_def] assms(2)] by simp
  let ?q = "\<lparr>wq_file = wake_save d, wq_in_memory = d\<rparr>"
  have l: "wake_load (wq_file ?q) = Inr d" using wake_load_save [OF ok] by simp
  let ?e = "if we_ready ev then ev else ev\<lparr>we_ready := True, we_scheduled_at := now, we_leased_until := None\<rparr>"
  let ?d = "if we_ready ev then d else dset i ?e d"
  have r: "ready_body i now d = (?d, Some ?e)" using assms(2) by (simp add: ready_body_def Let_def)
  have "queue_ok ?d" using ok i by (auto intro!: queue_ok_dset)
  then have "wake_load (wake_save ?d) = Inr ?d" by (rule wake_load_save)
  moreover have "(case wake_get i q of (q1, Inl e) \<Rightarrow> q1 | (q1, Inr _) \<Rightarrow> fst (wake_ready i (Some now) now q1)) =
      \<lparr>wq_file = wake_save ?d, wq_in_memory = ?d\<rparr>"
    unfolding wake_get_def wake_transaction_loaded [OF assms(1)] get_body_def wake_ready_def fst_conv snd_conv prod.case sum.case
      wake_transaction_loaded [OF l] now_or_def option.case r ..
  ultimately show ?thesis using that [of _ ?d ?e] assms(2) by (simp split: if_splits)
qed

text \<open>
  Claim C19.  A subagent's result is handed to the turn that its wake starts: when the task of a pending dispatch ends
  without timeout, cancellation or failure, the wake that was stored when it was started is ready and due, and
  a wake for that event continues exactly this dispatch with exactly the task's result, whether or not the
  result file could be written.
\<close>

theorem subagent_result_is_handed_over:
  assumes "saved_ok (sb_dispatches s)" and "dispatch_get i (sb_dispatches s) = Some dp" and "dp_status dp = D_PENDING"
    and "wake_load (wq_file (sb_queue s)) = Inr d" and "dget (u ''wake-'' @ i) d = Some ev"
    and "we_reason ev = u ''dispatch''" and "dget (u ''dispatch_id'') (we_payload ev) = Some (JStr i)" and "dget (u ''result'') (we_payload ev) = None"
    and "we_ready ev \<longrightarrow> we_scheduled_at ev \<le> now"
    and "tk_dispatch_id t = Some i" and "tk_chat_id t = Some chat" and "ts_status (subagent_terminal_state lower t) = None"
  shows "let s' = complete_subagent_task lower chat_dir writable cfg now t s
    in \<exists>d' ev'. wake_load (wq_file (sb_queue s')) = Inr d' \<and> dget (u ''wake-'' @ i) d' = Some ev' \<and> we_ready ev' \<and> we_scheduled_at ev' \<le> now
      \<and> wake_dispatch (we_reason ev') (we_payload ev') (sb_dispatches s') = Some (i, subagent_result t)"
proof -
  let ?s1 = "persist_subagent_result chat_dir writable now dp (subagent_result t) s"
  obtain dp1 where p: "saved_ok (sb_dispatches ?s1)" "dispatch_get i (sb_dispatches ?s1) = Some dp1" "dp_status dp1 = D_PENDING" "sb_queue ?s1 = sb_queue s"
    by (rule persisted [OF assms(1-3)])
  let ?r = "\<lparr>ru_result = subagent_result t,
      ru_summary = Some (case nonempty_opt (dp_summary dp1) of Some x \<Rightarrow> x | None \<Rightarrow> extract_summary 240 (subagent_result t)),
      ru_finished_at = Some now, ru_status = None, ru_stop_reason = ts_stop_reason (subagent_terminal_state lower t),
      ru_cancelled = ts_cancelled (subagent_terminal_state lower t), ru_partial = ts_partial (subagent_terminal_state lower t),
      ru_timed_out = ts_timeout (subagent_terminal_state lower t), ru_full_result_path = dp_full_result_path dp1\<rparr>"
  have "ru_status ?r = None" by simp
  note sr = stored_result [OF p(1-3) this]
  obtain q1 d1 ev1 where q: "(case wake_get (u ''wake-'' @ i) (sb_queue s) of (q1, Inl e) \<Rightarrow> q1 | (q1, Inr _) \<Rightarrow> fst (wake_ready (u ''wake-'' @ i) (Some now) now q1)) = q1"
    "wake_load (wq_file q1) = Inr d1" "dget (u ''wake-'' @ i) d1 = Some ev1" "we_ready ev1" "we_payload ev1 = we_payload ev" "we_reason ev1 = we_reason ev"
    "we_scheduled_at ev1 = (if we_ready ev then we_scheduled_at ev else now)" by (rule made_ready [OF assms(4,5)])
  have run: "complete_subagent_task lower chat_dir writable cfg now t s =
      ?s1\<lparr>sb_dispatches := fst (set_result i ?r now (sb_dispatches ?s1)), sb_queue := q1\<rparr>"
    using clean_end [OF assms(12)] p(2,4) q(1) by (simp add: complete_subagent_task_def assms(2,10,11,12) Let_def)
  have "wake_dispatch (we_reason ev1) (we_payload ev1) (fst (set_result i ?r now (sb_dispatches ?s1))) = Some (i, subagent_result t)"
    using sr(2-4) assms(6-8) q(5,6) by (simp add: wake_dispatch_def)
  then show ?thesis unfolding run Let_def using q assms(9) by auto
qed

end
