(* ===== verification/LifecycleSamples.thy ===== *)
theory LifecycleSamples
  imports LifecycleFacts SessionSamples
begin

section \<open>The properties of wakes at concrete states\<close>

text \<open>
  The message of \<open>Ingress\<close>, queued for a busy chat and fired by the timer; a plan with one running task; a subagent whose
  task ends; a continuation that fires during a drain: the properties of \<open>LifecycleFacts\<close> applied to them.
\<close>

definition idle :: "ingress \<Rightarrow> plans \<Rightarrow> harness" where
  "idle s ps = \<lparr>hn_ingress = s, hn_billed = [], hn_plans = \<lparr>ps_file = plan_save ps, ps_plans = ps\<rparr>, hn_files = [], hn_concluded = {}\<rparr>"

definition loaded_state :: "(ustr, int) dict \<Rightarrow> events \<Rightarrow> dispatches \<Rightarrow> ingress" where
  "loaded_state who d dps = (sample_state who d)\<lparr>ig_queue := \<lparr>wq_file = wake_save d, wq_in_memory = d\<rparr>,
     ig_dispatches := \<lparr>ds_items = dps, ds_file = Some (jsonl_save id dps)\<rparr>\<rparr>"

lemma loaded_sel [simp]: "ig_queue (loaded_state who d dps) = \<lparr>wq_file = wake_save d, wq_in_memory = d\<rparr>"
  "ig_dispatches (loaded_state who d dps) = \<lparr>ds_items = dps, ds_file = Some (jsonl_save id dps)\<rparr>"
  by (simp_all add: loaded_state_def)

lemma loaded_same [simp]: "hn_ingress (set_queue \<lparr>wq_file = wake_save d, wq_in_memory = d\<rparr> (idle (loaded_state who d dps) ps)) = loaded_state who d dps"
  "(loaded_state who d dps)\<lparr>ig_queue := \<lparr>wq_file = wake_save d, wq_in_memory = d\<rparr>\<rparr> = loaded_state who d dps"
  "queue_of (idle (loaded_state who d dps) ps) = \<lparr>wq_file = wake_save d, wq_in_memory = d\<rparr>"
  "hn_plans (idle s ps) = \<lparr>ps_file = plan_save ps, ps_plans = ps\<rparr>" "hn_ingress (idle s ps) = s"
  by (simp_all add: idle_def set_queue_def loaded_state_def queue_of_def)

definition no_control :: controller where
  "no_control op s = (s, Inl RuntimeError)"

lemma sample_queue_ok: "queue_ok sample_events"
  by (simp add: queue_ok_def keyed_ok_def replayed_def)

lemma sample_loads [simp]: "wake_load (wake_save sample_events) = Inr sample_events"
  by (rule wake_load_save [OF sample_queue_ok])

lemma sample_acquire_busy: "ig_acquire (\<lambda>_. True) 2 3 (u ''a'') (loaded_state [(u ''a'', 1)] d dps) = (loaded_state [(u ''a'', 1)] d dps, False)"
  by (simp add: ig_acquire_def acquire_def sample_state_def loaded_state_def)

abbreviation busy_state :: ingress where
  "busy_state \<equiv> loaded_state [(u ''a'', 1)] sample_events []"

abbreviation sample_fire :: fired where
  "sample_fire \<equiv> \<lparr>fr_event_id = u ''w'', fr_chat = u ''a'', fr_reason = u ''user_request'', fr_silent = False\<rparr>"

abbreviation busy_wake :: wake_fun where
  "busy_wake \<equiv> ingress_wake (\<lambda>_. True) (\<lambda>_. False) mirror_config 5 (\<lambda>_. []) (\<lambda>_ _. []) no_control 2 3"

lemma sample_refused: "busy_wake (u ''a'') (Some (u ''w'')) (Some (u ''user_request'')) (Some False) busy_state = (busy_state, Inr (mk_result WAKE_BUSY))"
proof -
  have "wake_get (u ''w'') (ig_queue busy_state) = (ig_queue busy_state, Inr (Some (replayed (u ''w'') sample_call 3)))"
    by (simp add: wake_get_def get_body_def wake_transaction_loaded)
  moreover have "we_chat_id (replayed (u ''w'') sample_call 3) = u ''a''" by (simp add: replayed_def queued_wake_def sample_call_def)
  ultimately show ?thesis using sample_acquire_busy [of sample_events "[]"] by (simp add: ingress_wake_def Let_def)
qed

theorem fired_event_is_settled_witness:
  "\<exists>h' d3. handle_timer_fired (\<lambda>_. False) mirror_config False 5 busy_wake 3 sample_fire (idle busy_state []) = (h', Inr ())
     \<and> wake_load (wq_file (queue_of h')) = Inr d3
     \<and> dget (u ''w'') d3 = Some (rescheduled 5 (replayed (u ''w'') sample_call 3))"
proof -
  have l: "wake_load (wq_file (queue_of (idle busy_state []))) = Inr sample_events" by simp
  have d: "retry_delay 5 (dget (fr_event_id sample_fire) sample_events) = Inr 2"
    by (simp add: retry_delay_def replayed_def queued_wake_def queued_payload_def)
  have w: "busy_wake (fr_chat sample_fire) (Some (fr_event_id sample_fire)) (Some (fr_reason sample_fire)) (Some (fr_silent sample_fire))
      (hn_ingress (set_queue \<lparr>wq_file = wake_save sample_events, wq_in_memory = sample_events\<rparr> (idle busy_state []))) = (busy_state, Inr (mk_result WAKE_BUSY))"
    by (simp only: loaded_same fired.select_convs sample_refused)
  have q: "wake_load (wq_file (ig_queue busy_state)) = Inr sample_events" by simp
  have "to_retry (Inr (mk_result WAKE_BUSY))" by (simp add: to_retry_def mk_result_def WAKE_RETRY_REPLIES_def WAKE_BUSY_def)
  moreover obtain h' d3 where "handle_timer_fired (\<lambda>_. False) mirror_config False 5 busy_wake 3 sample_fire (idle busy_state []) = (h', Inr ())"
    "wake_load (wq_file (queue_of h')) = Inr d3"
    "\<forall>j. dget j d3 = (if j \<noteq> fr_event_id sample_fire then dget j sample_events
       else if to_retry (Inr (mk_result WAKE_BUSY)) then map_option (rescheduled (3 + 2)) (dget j sample_events) else None)"
    using fired_event_is_settled [where wake = busy_wake and f = sample_fire, OF l d w q] by blast
  ultimately show ?thesis by (auto intro!: exI [of _ h'] exI [of _ d3])
qed

text \<open>A failed task of a chat's plan.\<close>

abbreviation a_chat_plan :: plan where
  "a_chat_plan \<equiv> (sample_plan [sample_task ''a'' [] RUNNING])\<lparr>pl_chat_id := Some (u ''c'')\<rparr>"

abbreviation a_task_event :: task_event where
  "a_task_event \<equiv> \<lparr>te_plan_id = u ''p'', te_task_id = u ''a'', te_failed = True, te_result = [], te_log = u ''boom'', te_end = plain_end\<rparr>"

lemma no_wakes: "wake_load (wake_save []) = Inr []"
  by (rule wake_load_save) (simp add: queue_ok_def keyed_ok_def)


text \<open>A subagent that has been started and ends.\<close>

abbreviation a_subagent :: subagents where
  "a_subagent \<equiv> \<lparr>sb_queue = \<lparr>wq_file = wake_save [(u ''wake-d'', subagent_wake (u ''c'') (u ''d'') 3)], wq_in_memory = []\<rparr>,
     sb_dispatches = \<lparr>ds_items = [(u ''d'', sample_dispatch (u ''d'') D_PENDING (Some 3))],
       ds_file = Some (jsonl_save id [(u ''d'', sample_dispatch (u ''d'') D_PENDING (Some 3))])\<rparr>,
     sb_outbox = \<lparr>ob_queue = [], ob_logged = [], ob_sent = []\<rparr>, sb_files = [], sb_plans = \<lparr>ps_file = [], ps_plans = []\<rparr>\<rparr>"

abbreviation a_subagent_task :: task where
  "a_subagent_task \<equiv> (subagent_task (u ''t'') (u ''c'') (u ''go'') [] None [] (u ''d'') [] 3)\<lparr>tk_status := DONE, tk_result := Some (u ''found'')\<rparr>"

theorem subagent_result_is_handed_over_witness:
  "\<exists>d' ev'. wake_load (wq_file (sb_queue (complete_subagent_task id id False mirror_config 9 a_subagent_task a_subagent))) = Inr d'
     \<and> dget (u ''wake-d'') d' = Some ev' \<and> we_ready ev'
     \<and> wake_dispatch (we_reason ev') (we_payload ev') (sb_dispatches (complete_subagent_task id id False mirror_config 9 a_subagent_task a_subagent))
         = Some (u ''d'', u ''found'')"
proof -
  let ?d = "[(u ''wake-d'', subagent_wake (u ''c'') (u ''d'') 3)]"
  have w: "u ''wake-'' @ u ''d'' = u ''wake-d''" by (simp add: u_def)
  have "queue_ok ?d" by (simp add: queue_ok_def keyed_ok_def subagent_wake_def u_def)
  then have q: "wake_load (wq_file (sb_queue a_subagent)) = Inr ?d" by (simp add: wake_load_save)
  have s: "saved_ok (sb_dispatches a_subagent)" "dispatch_get (u ''d'') (sb_dispatches a_subagent) = Some (sample_dispatch (u ''d'') D_PENDING (Some 3))"
    "dp_status (sample_dispatch (u ''d'') D_PENDING (Some 3)) = D_PENDING"
    by (simp_all add: saved_ok_def items_ok_def keyed_ok_def dispatch_get_def kept_terminal_def terminal_def TERMINAL_MAX_KEPT_def)
  have e: "dget (u ''wake-'' @ u ''d'') ?d = Some (subagent_wake (u ''c'') (u ''d'') 3)" unfolding w by simp
  have f: "we_reason (subagent_wake (u ''c'') (u ''d'') 3) = u ''dispatch''"
    "dget (u ''dispatch_id'') (we_payload (subagent_wake (u ''c'') (u ''d'') 3)) = Some (JStr (u ''d''))"
    "dget (u ''result'') (we_payload (subagent_wake (u ''c'') (u ''d'') 3)) = None"
    "we_ready (subagent_wake (u ''c'') (u ''d'') 3) \<longrightarrow> we_scheduled_at (subagent_wake (u ''c'') (u ''d'') 3) \<le> 9"
    by (simp_all add: subagent_wake_def)
  have t: "tk_dispatch_id a_subagent_task = Some (u ''d'')" "tk_chat_id a_subagent_task = Some (u ''c'')"
    "ts_status (subagent_terminal_state id a_subagent_task) = None"
    by (simp_all add: subagent_task_def subagent_terminal_state_def Let_def)
  have r: "subagent_result a_subagent_task = u ''found''"
    by (simp add: subagent_result_def subagent_task_def nonempty_opt_def u_def)
  from subagent_result_is_handed_over [OF s q e f t, of id False mirror_config, unfolded w r Let_def] show ?thesis by blast
qed

text \<open>A subagent has answered, and its wake fires during a drain.\<close>

abbreviation drain_wake :: wake_event where
  "drain_wake \<equiv> (subagent_wake [] (u ''d'') 3)\<lparr>we_ready := True\<rparr>"

abbreviation drain_state :: ingress where
  "drain_state \<equiv> loaded_state [] [(u ''wake-d'', drain_wake)] [(u ''d'', sample_dispatch (u ''d'') D_PENDING (Some 3))]"

abbreviation drain_gate :: chat_result where
  "drain_gate \<equiv> dispatch_reply (u ''d'') ''The service is draining for a restart; continuation deferred.''"

lemma drain_acquire:
  "\<exists>s1 s2. ig_acquire (\<lambda>_. True) 2 9 [] drain_state = (s1, True) \<and> ig_acquire (\<lambda>_. True) 2 9 [] s1 = (s2, True)"
  by (simp add: ig_acquire_def acquire_def open_lock_def loaded_state_def sample_state_def new_manager_def no_files_def foreign_owner_def)

theorem drained_continuation_is_lost_witness:
  "\<exists>h' d3. handle_timer_fired (\<lambda>_. False) mirror_config False 5
       (ingress_wake (\<lambda>_. True) (\<lambda>_. False) mirror_config 5 (\<lambda>_. []) (\<lambda>_ _. []) (\<lambda>_ s. (s, Inr drain_gate)) 2 9) 9
       \<lparr>fr_event_id = u ''wake-d'', fr_chat = [], fr_reason = u ''dispatch'', fr_silent = False\<rparr> (idle drain_state []) = (h', Inr ())
     \<and> wake_load (wq_file (queue_of h')) = Inr d3 \<and> dget (u ''wake-d'') d3 = None
     \<and> dispatch_get (u ''d'') (ig_dispatches (hn_ingress h')) = Some (sample_dispatch (u ''d'') D_PENDING (Some 3))"
proof -
  let ?d = "[(u ''wake-d'', drain_wake)]"
  have "queue_ok ?d" by (simp add: queue_ok_def keyed_ok_def subagent_wake_def u_def)
  then have l: "wake_load (wq_file (queue_of (idle drain_state []))) = Inr ?d" by (simp add: wake_load_save)
  have g: "dget (u ''wake-d'') ?d = Some drain_wake" "retry_delay 5 (Some drain_wake) = Inr 5"
    "we_reason drain_wake = u ''dispatch''" "we_ready drain_wake" "we_chat_id drain_wake = []"
    by (simp_all add: retry_delay_def subagent_wake_def)
  have d: "wake_dispatch (u ''dispatch'') (we_payload drain_wake) (ig_dispatches (hn_ingress (idle drain_state []))) = Some (u ''d'', [])"
    "dispatch_get (u ''d'') (ig_dispatches (hn_ingress (idle drain_state []))) = Some (sample_dispatch (u ''d'') D_PENDING (Some 3))"
    "dp_chat_id (sample_dispatch (u ''d'') D_PENDING (Some 3)) = we_chat_id drain_wake"
    by (simp_all add: wake_dispatch_def dispatch_get_def subagent_wake_def sample_dispatch_def)
  have w: "u ''wake-d'' = u ''wake-'' @ u ''d''" by (simp add: u_def)
  obtain s1 s2 where a: "ig_acquire (\<lambda>_. True) 2 9 (we_chat_id drain_wake) (hn_ingress (set_queue \<lparr>wq_file = wake_save ?d, wq_in_memory = ?d\<rparr> (idle drain_state []))) = (s1, True)"
    "ig_acquire (\<lambda>_. True) 2 9 (we_chat_id drain_wake) s1 = (s2, True)"
    using drain_acquire unfolding loaded_same g(5) by blast
  have c: "rt_draining ((sample_rt [])\<lparr>rt_draining := True\<rparr>)"
    "continue_gate (u ''d'') (we_chat_id drain_wake) ((sample_rt [])\<lparr>rt_draining := True\<rparr>) = Some drain_gate"
    by (simp_all add: continue_gate_def)
  show ?thesis
    using drained_continuation_is_lost [where ctl = "\<lambda>_ s. (s, Inr drain_gate)", OF l g(1,2,3,4) d(1,2) w d(3) a c refl] by blast
qed

end
