(* ===== verification/AcpLifecycle.thy ===== *)
theory AcpLifecycle
  imports Json
begin

section \<open>The audit log of the ACP life cycle and the restart history\<close>

text \<open>
  \<open>src/src/diploid_agent/acp_client/lifecycle.py\<close>.  \<open>AcpRestartHistory\<close>: the restarts of the last
  \<open>window\<close> seconds, kept in memory and in a file that survives the process, with the limit that stops a
  restart loop.  \<open>AcpLifecycleLog\<close>: a JSON-lines file bounded by its number of lines.  Every operation reads
  the clock once.  The file of the history is a list of lines (blank, not JSON, or a JSON value); the text of
  an audit entry is abstract, so its file is a list of blank lines and entries.
\<close>

subsection \<open>\<open>AcpRestartHistory\<close>\<close>

record attempt =
  ra_timestamp :: secs
  ra_reason :: json

record history =
  rh_file :: "json line list option option"  \<comment> \<open>no path; a path without a file; the file's lines\<close>
  rh_window :: secs
  rh_attempts :: "attempt list"

text \<open>\<open>float(v)\<close>; \<open>parse\<close> reads a string.\<close>

fun py_float :: "(ustr \<Rightarrow> real option) \<Rightarrow> json \<Rightarrow> py_exn + real" where
  "py_float parse (JInt i) = Inr (real_of_int i)"
| "py_float parse (JBool b) = Inr (if b then 1 else 0)"
| "py_float parse (JFloat r) = Inr r"
| "py_float parse (JStr s) = (case parse s of None \<Rightarrow> Inl ValueError | Some r \<Rightarrow> Inr r)"
| "py_float parse v = Inl TypeError"

definition reason_or :: "json option \<Rightarrow> json" where
  "reason_or v = (case v of None \<Rightarrow> JStr (u ''transport_error'')
     | Some j \<Rightarrow> if truthy j then j else JStr (u ''transport_error''))"

text \<open>
  Reading the lines: the attempts appended up to the end or up to the line that raised.
\<close>

fun read_attempts :: "(ustr \<Rightarrow> real option) \<Rightarrow> json line list \<Rightarrow> attempt list \<Rightarrow> attempt list \<times> py_exn option" where
  "read_attempts parse [] acc = (acc, None)"
| "read_attempts parse (Blank # ls) acc = read_attempts parse ls acc"
| "read_attempts parse (Malformed # ls) acc = (acc, Some ValueError)"
| "read_attempts parse (Parsed (JObj d) # ls) acc =
     (case py_float parse (case dget (u ''timestamp'') d of None \<Rightarrow> JInt 0 | Some v \<Rightarrow> v) of
        Inl e \<Rightarrow> (acc, Some e)
      | Inr ts \<Rightarrow> read_attempts parse ls
          (if ts > 0 then acc @ [\<lparr>ra_timestamp = ts, ra_reason = reason_or (dget (u ''reason'') d)\<rparr>] else acc))"
| "read_attempts parse (Parsed v # ls) acc = (acc, Some AttributeError)"

definition attempt_json :: "attempt \<Rightarrow> json" where
  "attempt_json a = JObj [(u ''timestamp'', JFloat (ra_timestamp a)), (u ''reason'', ra_reason a)]"

definition prune :: "secs \<Rightarrow> history \<Rightarrow> history" where
  "prune now h = h\<lparr>rh_attempts := filter (\<lambda>a. ra_timestamp a > now - rh_window h) (rh_attempts h)\<rparr>"

definition prune_file :: "history \<Rightarrow> history" where
  "prune_file h = (case rh_file h of None \<Rightarrow> h
     | Some f \<Rightarrow> h\<lparr>rh_file := Some (Some (map (\<lambda>a. Parsed (attempt_json a)) (rh_attempts h)))\<rparr>)"

text \<open>\<open>OSError\<close>, \<open>ValueError\<close> and \<open>TypeError\<close> are caught: what was read by then stays, unpruned.\<close>

definition history_load :: "(ustr \<Rightarrow> real option) \<Rightarrow> secs \<Rightarrow> history \<Rightarrow> py_exn + history" where
  "history_load parse now h =
     (case rh_file h of
        Some (Some ls) \<Rightarrow>
          (case read_attempts parse ls (rh_attempts h) of
             (as, None) \<Rightarrow> Inr (prune_file (prune now (h\<lparr>rh_attempts := as\<rparr>)))
           | (as, Some e) \<Rightarrow> if e = ValueError \<or> e = TypeError then Inr (h\<lparr>rh_attempts := as\<rparr>) else Inl e)
      | _ \<Rightarrow> Inr h)"

definition history_open :: "(ustr \<Rightarrow> real option) \<Rightarrow> json line list option option \<Rightarrow> secs \<Rightarrow> secs \<Rightarrow> py_exn + history" where
  "history_open parse path window now =
     history_load parse now \<lparr>rh_file = path, rh_window = max 1 window, rh_attempts = []\<rparr>"

definition history_record :: "ustr \<Rightarrow> secs \<Rightarrow> history \<Rightarrow> history" where
  "history_record reason now h =
     (let h1 = prune now h
      in prune_file (h1\<lparr>rh_attempts := rh_attempts h1 @ [\<lparr>ra_timestamp = now, ra_reason = JStr reason\<rparr>]\<rparr>))"

definition of_reason :: "ustr option \<Rightarrow> attempt \<Rightarrow> bool" where
  "of_reason r a \<longleftrightarrow> (case r of None \<Rightarrow> True | Some x \<Rightarrow> ra_reason a = JStr x)"

definition history_count :: "ustr option \<Rightarrow> secs \<Rightarrow> history \<Rightarrow> history \<times> nat" where
  "history_count r now h = (let h1 = prune now h in (h1, length (filter (of_reason r) (rh_attempts h1))))"

text \<open>\<open>check\<close>: may a restart for this reason go ahead, or is \<open>AcpTransportError\<close> raised?\<close>

definition history_check :: "int \<Rightarrow> ustr \<Rightarrow> secs \<Rightarrow> history \<Rightarrow> history \<times> bool" where
  "history_check max_restarts reason now h =
     (if max_restarts \<le> 0 then (h, True)
      else let (h1, n) = history_count (Some reason) now h in (h1, \<not> (int n \<ge> max_restarts)))"

subsection \<open>The history counts the restarts of the window, across processes\<close>

datatype history_op =
    Record ustr
  | Count
  | Reopen  \<comment> \<open>the process ends and another one opens the file\<close>

fun history_step :: "(ustr \<Rightarrow> real option) \<Rightarrow> secs \<times> history_op \<Rightarrow> history \<Rightarrow> history" where
  "history_step parse (now, Record r) h = history_record r now h"
| "history_step parse (now, Count) h = fst (history_count None now h)"
| "history_step parse (now, Reopen) h =
     (case history_open parse (rh_file h) (rh_window h) now of Inl e \<Rightarrow> h | Inr h' \<Rightarrow> h')"

definition history_run :: "(ustr \<Rightarrow> real option) \<Rightarrow> (secs \<times> history_op) list \<Rightarrow> history \<Rightarrow> history" where
  "history_run parse ops h = foldl (\<lambda>h op. history_step parse op h) h ops"

text \<open>Specification: every restart ever recorded, in order.\<close>

fun recorded :: "(secs \<times> history_op) list \<Rightarrow> attempt list" where
  "recorded [] = []"
| "recorded ((now, Record r) # ops) = \<lparr>ra_timestamp = now, ra_reason = JStr r\<rparr> # recorded ops"
| "recorded ((now, Count) # ops) = recorded ops"
| "recorded ((now, Reopen) # ops) = recorded ops"

definition since :: "secs \<Rightarrow> attempt list \<Rightarrow> attempt list" where
  "since t as = filter (\<lambda>a. ra_timestamp a > t) as"

lemma since_since: "t \<le> t' \<Longrightarrow> since t' (since t as) = since t' as"
  by (auto simp: since_def intro: filter_cong)

lemma since_append: "since t (as @ bs) = since t as @ since t bs"
  by (simp add: since_def)

definition named :: "attempt \<Rightarrow> bool" where
  "named a \<longleftrightarrow> (\<exists>r. r \<noteq> [] \<and> ra_reason a = JStr r) \<and> ra_timestamp a > 0"

lemma read_back:
  "list_all named as \<Longrightarrow> read_attempts parse (map (\<lambda>a. Parsed (attempt_json a)) as) acc = (acc @ as, None)"
proof (induction as arbitrary: acc)
  case (Cons a as)
  have "attempt_json a = JObj [(u ''timestamp'', JFloat (ra_timestamp a)), (u ''reason'', ra_reason a)]"
    by (simp add: attempt_json_def)
  moreover have "a = \<lparr>ra_timestamp = ra_timestamp a, ra_reason = reason_or (Some (ra_reason a))\<rparr>"
    using Cons.prems by (auto simp: named_def reason_or_def)
  ultimately show ?case using Cons by (simp add: named_def)
qed simp

text \<open>What a file of the history holds; a path without a file yet holds nothing.\<close>

definition holds :: "json line list option option \<Rightarrow> attempt list \<Rightarrow> bool" where
  "holds f as \<longleftrightarrow> list_all named as \<and> (f = Some (Some (map (\<lambda>a. Parsed (attempt_json a)) as)) \<or> (f = Some None \<and> as = []))"

text \<open>
  The history at a time no earlier than all it knows: what it holds and what its file holds are the same,
  and agree with the specification on everything within the window.
\<close>

definition tracks :: "history \<Rightarrow> secs \<Rightarrow> attempt list \<Rightarrow> bool" where
  "tracks h now all \<longleftrightarrow> 1 \<le> rh_window h \<and> list_all named (rh_attempts h)
     \<and> (\<exists>as. holds (rh_file h) as \<and> since (now - rh_window h) as = since (now - rh_window h) all)
     \<and> since (now - rh_window h) (rh_attempts h) = since (now - rh_window h) all"

lemma list_all_since: "list_all P as \<Longrightarrow> list_all P (since t as)"
  by (auto simp: list_all_iff since_def)

lemma prune_since: "prune now h = h\<lparr>rh_attempts := since (now - rh_window h) (rh_attempts h)\<rparr>"
  by (simp add: prune_def since_def)

lemma history_step_tracks:
  assumes "tracks h t all" and "t \<le> now" and "0 < now" and "case op of Record r \<Rightarrow> r \<noteq> [] | _ \<Rightarrow> True"
  shows "tracks (history_step parse (now, op) h) now (all @ recorded [(now, op)])
    \<and> rh_window (history_step parse (now, op) h) = rh_window h"
proof -
  let ?w = "rh_window h" and ?c = "now - rh_window h"
  have le: "t - ?w \<le> ?c" using assms(2) by simp
  from assms(1) obtain as where as: "1 \<le> ?w" "list_all named (rh_attempts h)" "holds (rh_file h) as"
    "since (t - ?w) as = since (t - ?w) all" "since (t - ?w) (rh_attempts h) = since (t - ?w) all"
    by (auto simp: tracks_def)
  have e: "since ?c as = since ?c all" "since ?c (rh_attempts h) = since ?c all"
    using as(4,5) since_since [OF le] by metis+
  have n: "list_all named (since ?c all)" using list_all_since [OF as(2), of ?c] e(2) by simp
  show ?thesis
  proof (cases op)
    case (Record r)
    let ?b = "since ?c all @ [\<lparr>ra_timestamp = now, ra_reason = JStr r\<rparr>]"
    have f: "rh_file h \<noteq> None" using as(3) by (auto simp: holds_def)
    have b: "list_all named ?b" using n assms(3,4) Record by (simp add: named_def)
    have "history_step parse (now, op) h = h\<lparr>rh_attempts := ?b, rh_file := Some (Some (map (\<lambda>a. Parsed (attempt_json a)) ?b))\<rparr>"
      using f e by (auto simp: Record history_record_def prune_since prune_file_def Let_def)
    moreover have "holds (Some (Some (map (\<lambda>a. Parsed (attempt_json a)) ?b))) ?b" using b by (simp add: holds_def)
    moreover have "since ?c ?b = since ?c (all @ recorded [(now, op)])"
      by (simp add: Record since_append since_since)
    ultimately show ?thesis using as(1) b by (auto simp: tracks_def)
  next
    case Count
    show ?thesis using as(1,3) e n by (auto simp: Count tracks_def history_count_def prune_since Let_def since_since)
  next
    case Reopen
    have m: "max 1 ?w = ?w" using as(1) by simp
    from as(3) consider (saved) "rh_file h = Some (Some (map (\<lambda>a. Parsed (attempt_json a)) as))" "list_all named as"
      | (none) "rh_file h = Some None" "as = []" by (auto simp: holds_def)
    then show ?thesis
    proof cases
      case saved
      have "history_step parse (now, op) h = prune_file (prune now (h\<lparr>rh_attempts := as\<rparr>))"
        using saved read_back [OF saved(2), of parse "[]"] m
        by (cases h) (simp add: Reopen history_open_def history_load_def)
      also have "\<dots> = h\<lparr>rh_attempts := since ?c all, rh_file := Some (Some (map (\<lambda>a. Parsed (attempt_json a)) (since ?c all)))\<rparr>"
        using saved(1) e(1) by (simp add: prune_since prune_file_def)
      finally show ?thesis using as(1) n by (auto simp: Reopen tracks_def holds_def since_since)
    next
      case none
      have "history_step parse (now, op) h = h\<lparr>rh_attempts := []\<rparr>"
        using none m by (cases h) (simp add: Reopen history_open_def history_load_def)
      with none as(1) e(1) show ?thesis by (auto simp: Reopen tracks_def holds_def since_def)
    qed
  qed
qed

lemma history_run_tracks:
  "tracks h t all \<Longrightarrow> sorted (t # map fst ops) \<Longrightarrow> 0 \<le> t \<Longrightarrow> list_all (\<lambda>(now, op). 0 < now \<and> (case op of Record r \<Rightarrow> r \<noteq> [] | _ \<Rightarrow> True)) ops \<Longrightarrow>
   now = last (t # map fst ops) \<Longrightarrow>
   tracks (history_run parse ops h) now (all @ recorded ops) \<and> rh_window (history_run parse ops h) = rh_window h"
proof (induction ops arbitrary: h t all)
  case (Cons p ops)
  obtain s op where p: "p = (s, op)" by force
  have "tracks (history_step parse (s, op) h) s (all @ recorded [(s, op)])
      \<and> rh_window (history_step parse (s, op) h) = rh_window h"
    by (rule history_step_tracks) (use Cons.prems p in auto)
  moreover have "recorded [(s, op)] @ recorded ops = recorded ((s, op) # ops)" by (cases op) simp_all
  ultimately show ?case using Cons.IH [of "history_step parse (s, op) h" s "all @ recorded [(s, op)]"] Cons.prems p
    by (simp add: history_run_def)
qed (simp add: history_run_def)

text \<open>
  Claim C38.  The restart limit counts every restart of the window, also across processes: after any sequence
  of recorded restarts, counts and reopenings of the history's file (in the order of their times, with named
  reasons), a restart for a reason is refused exactly when at least the allowed number of restarts for that
  reason were recorded within the last \<open>window\<close> seconds, whichever process recorded them.
\<close>

theorem restart_limit_survives_restarts:
  assumes "history_open parse (Some None) window t = Inr h" and "sorted (t # map fst ops)" and "0 < t"
    and "list_all (\<lambda>(now, op). case op of Record r \<Rightarrow> r \<noteq> [] | _ \<Rightarrow> True) ops"
    and "last (t # map fst ops) \<le> now" and "0 < limit"
  shows "snd (history_check limit reason now (history_run parse ops h)) \<longleftrightarrow>
    int (length (filter (\<lambda>a. ra_reason a = JStr reason \<and> ra_timestamp a > now - max 1 window) (recorded ops))) < limit"
proof -
  have h: "h = \<lparr>rh_file = Some None, rh_window = max 1 window, rh_attempts = []\<rparr>"
    using assms(1) by (simp add: history_open_def history_load_def)
  have t: "tracks h t []" unfolding h by (auto simp: tracks_def holds_def since_def)
  have pos: "0 < s" if "s \<in> set (map fst ops)" for s using assms(2,3) that by auto
  have "list_all (\<lambda>(now, op). 0 < now \<and> (case op of Record r \<Rightarrow> r \<noteq> [] | _ \<Rightarrow> True)) ops"
    using assms(4) pos by (fastforce simp: list_all_iff)
  from history_run_tracks [OF t assms(2) _ this refl] assms(3)
  have r: "tracks (history_run parse ops h) (last (t # map fst ops)) (recorded ops)"
    "rh_window (history_run parse ops h) = max 1 window" unfolding h by simp_all
  let ?h = "history_run parse ops h" and ?l = "last (t # map fst ops)"
  have "since (now - max 1 window) (rh_attempts ?h) = since (now - max 1 window) (recorded ops)"
    using r since_since [of "?l - max 1 window" "now - max 1 window"] assms(5)
    unfolding tracks_def by (metis diff_right_mono)
  then have "length (filter (of_reason (Some reason)) (rh_attempts (prune now ?h)))
      = length (filter (of_reason (Some reason)) (since (now - max 1 window) (recorded ops)))"
    using r(2) by (simp add: prune_since)
  also have "\<dots> = length (filter (\<lambda>a. ra_reason a = JStr reason \<and> ra_timestamp a > now - max 1 window) (recorded ops))"
    by (simp add: since_def of_reason_def conj_commute)
  finally show ?thesis using assms(6) by (simp add: history_check_def history_count_def Let_def not_le)
qed

theorem restart_limit_survives_restarts_witness:
  "\<exists>h. history_open (\<lambda>s. None) (Some None) 600 1 = Inr h
     \<and> \<not> snd (history_check 2 (u ''mcp'') 20 (history_run (\<lambda>s. None) [(5, Record (u ''mcp'')), (9, Reopen), (10, Record (u ''mcp''))] h))"
proof -
  obtain h where h: "history_open (\<lambda>s. None) (Some None) 600 1 = Inr h" by (simp add: history_open_def history_load_def)
  have "sorted (1 # map fst [(5::real, Record (u ''mcp'')), (9, Reopen), (10, Record (u ''mcp''))])"
    "list_all (\<lambda>(now, op). case op of Record r \<Rightarrow> r \<noteq> [] | _ \<Rightarrow> True) [(5::real, Record (u ''mcp'')), (9, Reopen), (10, Record (u ''mcp''))]"
    "last (1 # map fst [(5::real, Record (u ''mcp'')), (9, Reopen), (10, Record (u ''mcp''))]) \<le> 20"
    by simp_all
  from restart_limit_survives_restarts [OF h this(1) _ this(2,3), of 2 "u ''mcp''"] h show ?thesis by simp
qed

text \<open>
  A damaged line makes the history forget the restarts after it: the line raises, what was read by then is
  kept, and the next record writes the file anew without the rest.
\<close>

lemma damaged_line_forgets_restarts:
  assumes "list_all named as"
  shows "\<exists>h. history_open parse (Some (Some (map (\<lambda>a. Parsed (attempt_json a)) as @ Malformed # ls))) window t = Inr h
    \<and> rh_attempts h = as
    \<and> rh_file (history_record r now h) = Some (Some (map (\<lambda>a. Parsed (attempt_json a))
        (since (now - max 1 window) as @ [\<lparr>ra_timestamp = now, ra_reason = JStr r\<rparr>])))"
proof -
  have "read_attempts parse (map (\<lambda>a. Parsed (attempt_json a)) as @ Malformed # ls) acc = (acc @ as, Some ValueError)" for acc
    using assms
  proof (induction as arbitrary: acc)
    case (Cons a as)
    moreover have "a = \<lparr>ra_timestamp = ra_timestamp a, ra_reason = reason_or (Some (ra_reason a))\<rparr>"
      using Cons.prems by (auto simp: named_def reason_or_def)
    ultimately show ?case by (simp add: attempt_json_def named_def)
  qed simp
  from this [of "[]"] show ?thesis
    by (simp add: history_open_def history_load_def history_record_def prune_since prune_file_def Let_def)
qed

text \<open>A line that is JSON but not an object is not caught: the history cannot be opened at all.\<close>

lemma foreign_line_stops_the_client:
  "history_open parse (Some (Some (Parsed (JList []) # ls))) window t = Inl AttributeError"
  by (simp add: history_open_def history_load_def)

subsection \<open>\<open>AcpLifecycleLog\<close>\<close>

record lifecycle_event =
  le_event :: ustr
  le_timestamp :: ustr
  le_chat_id :: "ustr option"
  le_session_id :: "ustr option"
  le_model :: "ustr option"
  le_reason :: "ustr option"
  le_detail :: "json option"
  le_pid :: "int option"
  le_transport_gen :: "int option"

record lifecycle_log =
  ll_max_lines :: nat
  ll_lines :: "lifecycle_event line list option"  \<comment> \<open>the file, when it exists\<close>

definition log_open :: "int \<Rightarrow> lifecycle_event line list option \<Rightarrow> lifecycle_log" where
  "log_open max_lines f = \<lparr>ll_max_lines = nat (max 1 max_lines), ll_lines = f\<rparr>"

definition read_tail :: "nat \<Rightarrow> 'a line list \<Rightarrow> 'a line list" where
  "read_tail n ls = last_n n (filter (\<lambda>l. l \<noteq> Blank) ls)"

definition trim_if_needed :: "lifecycle_log \<Rightarrow> lifecycle_log" where
  "trim_if_needed l =
     (case ll_lines l of
        None \<Rightarrow> l
      | Some ls \<Rightarrow>
          let t = read_tail (ll_max_lines l + 1) ls
          in if length t \<le> ll_max_lines l then l else l\<lparr>ll_lines := Some (last_n (ll_max_lines l) t)\<rparr>)"

text \<open>
  \<open>ctx\<close> is what the context provider gave (the process and the generation), \<open>None\<close> when there is none or
  it raised; a value given by the caller wins.
\<close>

definition stamp :: "(int option \<times> int option) option \<Rightarrow> lifecycle_event \<Rightarrow> lifecycle_event" where
  "stamp ctx e =
     (case ctx of
        None \<Rightarrow> e
      | Some (p, g) \<Rightarrow> e\<lparr>le_pid := (if le_pid e = None then p else le_pid e),
          le_transport_gen := (if le_transport_gen e = None then g else le_transport_gen e)\<rparr>)"

definition log_write :: "(int option \<times> int option) option \<Rightarrow> lifecycle_event \<Rightarrow> lifecycle_log \<Rightarrow> lifecycle_log" where
  "log_write ctx e l =
     trim_if_needed (l\<lparr>ll_lines := Some ((case ll_lines l of None \<Rightarrow> [] | Some ls \<Rightarrow> ls) @ [Parsed (stamp ctx e)])\<rparr>)"

text \<open>A line that is not JSON makes the readers raise.\<close>

fun decode_lines :: "'a line list \<Rightarrow> py_exn + 'a list" where
  "decode_lines [] = Inr []"
| "decode_lines (Blank # ls) = decode_lines ls"
| "decode_lines (Malformed # ls) = Inl ValueError"
| "decode_lines (Parsed e # ls) = (case decode_lines ls of Inl x \<Rightarrow> Inl x | Inr es \<Rightarrow> Inr (e # es))"

definition recent_events :: "nat \<Rightarrow> lifecycle_log \<Rightarrow> py_exn + lifecycle_event list" where
  "recent_events limit l =
     (case ll_lines l of None \<Rightarrow> Inr [] | Some ls \<Rightarrow> decode_lines (read_tail limit ls))"

definition wanted :: "ustr \<Rightarrow> ustr list option \<Rightarrow> lifecycle_event \<Rightarrow> bool" where
  "wanted chat types e \<longleftrightarrow> le_chat_id e = Some chat \<and> (case types of None \<Rightarrow> True | Some ts \<Rightarrow> le_event e \<in> set ts)"

text \<open>The scan over the reversed tail: it stops after the event that fills the limit.\<close>

fun scan_events :: "nat \<Rightarrow> (lifecycle_event \<Rightarrow> bool) \<Rightarrow> lifecycle_event list \<Rightarrow> lifecycle_event list \<Rightarrow> lifecycle_event list" where
  "scan_events limit P results [] = results"
| "scan_events limit P results (e # es) =
     (if \<not> P e then scan_events limit P results es
      else let r = results @ [e] in if length r \<ge> limit then r else scan_events limit P r es)"

definition recent_events_for :: "ustr \<Rightarrow> ustr list option \<Rightarrow> nat \<Rightarrow> lifecycle_log \<Rightarrow> py_exn + lifecycle_event list" where
  "recent_events_for chat types limit l =
     (case ll_lines l of
        None \<Rightarrow> Inr []
      | Some ls \<Rightarrow>
          (case decode_lines (read_tail (limit * 10) ls) of
             Inl x \<Rightarrow> Inl x
           | Inr es \<Rightarrow> Inr (rev (scan_events limit (wanted chat types) [] (rev es)))))"

definition wake_event_types :: "ustr list" where
  "wake_event_types = map u [''transport.restart'', ''session.resume.success'', ''session.load.success'',
     ''rehydrate.resume.success'', ''rehydrate.session_alive.success'', ''rehydrate.new_session.success'',
     ''rehydrate.timeout'', ''rehydrate.start'', ''rehydrate.transport_restart_failure'', ''session.new'',
     ''session.new.success'']"

definition last_wake_event_for :: "ustr \<Rightarrow> lifecycle_log \<Rightarrow> py_exn + lifecycle_event option" where
  "last_wake_event_for chat l =
     (case recent_events_for chat (Some wake_event_types) 1 l of
        Inl x \<Rightarrow> Inl x
      | Inr es \<Rightarrow> Inr (case es of [] \<Rightarrow> None | e # _ \<Rightarrow> Some e))"

subsection \<open>The audit log is a bounded queue\<close>

fun log_writes :: "((int option \<times> int option) option \<times> lifecycle_event) list \<Rightarrow> lifecycle_log \<Rightarrow> lifecycle_log" where
  "log_writes [] l = l"
| "log_writes ((ctx, e) # ws) l = log_writes ws (log_write ctx e l)"

lemma log_write_lines:
  assumes "ll_lines l = Some (map Parsed es)" and "length es \<le> ll_max_lines l" and "0 < ll_max_lines l"
  shows "ll_lines (log_write ctx e l) = Some (map Parsed (last_n (ll_max_lines l) (es @ [stamp ctx e])))
    \<and> ll_max_lines (log_write ctx e l) = ll_max_lines l"
proof -
  have f: "filter (\<lambda>l. l \<noteq> Blank) (map Parsed xs) = map Parsed xs" for xs :: "lifecycle_event list"
    by (simp add: filter_id_conv)
  have "read_tail (ll_max_lines l + 1) (map Parsed es @ [Parsed (stamp ctx e)]) = map Parsed (es @ [stamp ctx e])"
    using f [of "es @ [stamp ctx e]"] assms(2) by (simp add: read_tail_def)
  then show ?thesis using assms by (auto simp: log_write_def trim_if_needed_def last_n_def drop_map Let_def)
qed

lemma log_writes_lines:
  assumes "ll_lines l = Some (map Parsed es)" and "length es \<le> ll_max_lines l" and "0 < ll_max_lines l"
  shows "ll_lines (log_writes ws l) = Some (map Parsed (last_n (ll_max_lines l) (es @ map (\<lambda>(c, e). stamp c e) ws)))"
  using assms
proof (induction ws arbitrary: l es)
  case (Cons w ws)
  obtain c e where w: "w = (c, e)" by force
  from log_write_lines [OF Cons.prems, of c e] Cons.IH [of "log_write c e l" "last_n (ll_max_lines l) (es @ [stamp c e])"] Cons.prems
  show ?case by (simp add: w last_n_append_last_n)
qed simp

lemma scan_events_spec:
  "length results < limit \<Longrightarrow> scan_events limit P results es = results @ take (limit - length results) (filter P es)"
proof (induction es arbitrary: results)
  case (Cons e es)
  show ?case
  proof (cases "P e \<and> length results + 1 < limit")
    case True
    then have "scan_events limit P results (e # es) = scan_events limit P (results @ [e]) es" by simp
    moreover have "limit - length results = Suc (limit - Suc (length results))" using True by arith
    ultimately show ?thesis using Cons.IH [of "results @ [e]"] True by simp
  next
    case False
    with Cons show ?thesis by (cases "limit - length results") (auto simp: Let_def)
  qed
qed simp

lemma decode_parsed [simp]: "decode_lines (map Parsed es) = Inr es"
  by (induction es) simp_all

text \<open>
  The audit log is a bounded queue: written from empty, its file always holds exactly the last
  \<open>max_lines\<close> events (stamped with the process and the generation unless the caller gave them), in order;
  and asking it for the last \<open>limit\<close> events of a chat (of some types) gives exactly the last \<open>limit\<close> matching
  ones among the newest \<open>10 * limit\<close> it holds, in order.
\<close>

theorem audit_log_keeps_the_newest:
  assumes "0 < limit"
  shows "ll_lines (log_writes ws (log_open m (Some []))) = Some (map Parsed (last_n (nat (max 1 m)) (map (\<lambda>(c, e). stamp c e) ws)))
    \<and> recent_events_for chat types limit (log_writes ws (log_open m (Some [])))
      = Inr (last_n limit (filter (wanted chat types)
          (last_n (limit * 10) (last_n (nat (max 1 m)) (map (\<lambda>(c, e). stamp c e) ws)))))"
proof -
  have 1: "ll_lines (log_writes ws (log_open m (Some []))) = Some (map Parsed (last_n (nat (max 1 m)) (map (\<lambda>(c, e). stamp c e) ws)))"
    using log_writes_lines [of "log_open m (Some [])" "[]" ws] by (simp add: log_open_def)
  have f: "read_tail n (map Parsed xs) = map Parsed (last_n n xs)" for n and xs :: "lifecycle_event list"
    by (simp add: read_tail_def filter_id_conv last_n_def drop_map)
  have r: "rev (take n (rev xs)) = last_n n xs" for n and xs :: "lifecycle_event list"
    by (simp add: last_n_def rev_take)
  from 1 show ?thesis using assms
    by (simp add: recent_events_for_def f scan_events_spec rev_filter [symmetric] r)
qed

theorem audit_log_keeps_the_newest_witness:
  "\<exists>e. recent_events_for (u ''c'') None 1 (log_writes [(None, e), (Some (Some 7, Some 2), e)] (log_open 5 (Some [])))
     = Inr [e\<lparr>le_pid := Some 7, le_transport_gen := Some 2\<rparr>]"
proof -
  define e where "e = \<lparr>le_event = u ''transport.stop'', le_timestamp = [], le_chat_id = Some (u ''c''), le_session_id = None,
    le_model = None, le_reason = None, le_detail = None, le_pid = None, le_transport_gen = None\<rparr>"
  from audit_log_keeps_the_newest [of 1 "[(None, e), (Some (Some 7, Some 2), e)]" 5 "u ''c''" None]
  show ?thesis by (intro exI [of _ e]) (simp add: e_def stamp_def wanted_def last_n_def)
qed

end
