(* ===== verification/ShortTermMemory.thy ===== *)
theory ShortTermMemory
  imports Json
begin

section \<open>Short-term memory\<close>

text \<open>
  \<open>src/src/diploid_agent/memory_short_term.py\<close>, with \<open>_trim_to_section\<close> of \<open>memory_backends.py\<close>: the window
  of recent turns, the prompt block built from it, and the cache of summaries.  The transcript is the list
  of its entries; \<open>capitalize\<close> (the string method), \<open>digest\<close> (the hash of the entries as JSON) and the
  model (\<open>reply\<close>: the answer to a prompt, or \<open>None\<close> when it raises) are arguments.  The cache holds the
  summary files by name with their times; what is retained is the list of summaries handed to the backend.
\<close>

subsection \<open>\<open>_trim_to_section\<close>\<close>

text \<open>The last position where \<open>s\<close> continues with the pattern, as \<open>rfind\<close>.\<close>

fun rfind_sub :: "ustr \<Rightarrow> ustr \<Rightarrow> int" where
  "rfind_sub pat [] = (if pat = [] then 0 else -1)"
| "rfind_sub pat (x # s) =
     (let r = rfind_sub pat s in if r \<ge> 0 then r + 1 else if prefix pat (x # s) then 0 else -1)"

definition trim_to_section :: "ustr \<Rightarrow> int \<Rightarrow> ustr" where
  "trim_to_section text limit =
     (if int (length text) \<le> limit then text
      else let candidate = take (nat limit) text;
               blank = rfind_sub [10, 10] candidate;
               nl = rfind_sub [10] candidate
           in if blank > 0 then take (nat blank) text
              else if nl > 0 then take (nat nl) text
              else candidate)"

lemma rfind_sub_less: "pat \<noteq> [] \<Longrightarrow> rfind_sub pat s < int (length s)"
  by (induction s) (auto simp: Let_def)

lemma trim_to_section_prefix: "prefix (trim_to_section text limit) text"
  by (simp add: trim_to_section_def Let_def take_is_prefix)

lemma trim_to_section_length: "0 \<le> limit \<Longrightarrow> int (length (trim_to_section text limit)) \<le> limit"
  using rfind_sub_less [of "[10, 10]" "take (nat limit) text"] rfind_sub_less [of "[10]" "take (nat limit) text"]
  by (auto simp: trim_to_section_def Let_def)

subsection \<open>The window\<close>

record entry =
  te_role :: "ustr option"
  te_content :: ustr

record memory_config =
  mc_include_short_term :: bool
  mc_smart :: bool  \<comment> \<open>\<open>short_term_strategy\<close> is \<open>smart\<close>\<close>
  mc_short_term_turns :: int
  mc_min_short_term_turns :: int
  mc_max_short_term_chars :: int
  mc_precompute :: bool
  mc_precompute_min_turns :: int

text \<open>\<open>xs[-n:]\<close> and \<open>xs[:-n]\<close> for \<open>n\<close> at least 0: \<open>-0\<close> is 0.\<close>

definition slice_last :: "nat \<Rightarrow> 'a list \<Rightarrow> 'a list" where
  "slice_last n xs = (if n = 0 then xs else last_n n xs)"

definition slice_but :: "nat \<Rightarrow> 'a list \<Rightarrow> 'a list" where
  "slice_but n xs = (if n = 0 then [] else take (length xs - n) xs)"

definition st_window :: "memory_config \<Rightarrow> entry list \<Rightarrow> entry list \<times> entry list \<times> entry list" where
  "st_window cfg transcript =
     (let n = mc_short_term_turns cfg * 2;
          recent = (if n > 0 then last_n (nat n) transcript else transcript);
          min_pairs = max 0 (mc_min_short_term_turns cfg * 2)
      in if int (length recent) \<le> min_pairs then (recent, recent, [])
         else (recent, slice_last (nat min_pairs) recent, slice_but (nat min_pairs) recent))"

definition entry_text :: "(ustr \<Rightarrow> ustr) \<Rightarrow> entry \<Rightarrow> ustr" where
  "entry_text capitalize e =
     capitalize (case te_role e of None \<Rightarrow> u ''unknown'' | Some r \<Rightarrow> r) @ u '': '' @ te_content e"

fun join_blank :: "ustr list \<Rightarrow> ustr" where
  "join_blank [] = []"
| "join_blank [x] = x"
| "join_blank (x # y # ys) = x @ [10, 10] @ join_blank (y # ys)"

definition format_recent_turns :: "(ustr \<Rightarrow> ustr) \<Rightarrow> entry list \<Rightarrow> ustr" where
  "format_recent_turns capitalize es = join_blank (u ''Recent conversation:'' # map (entry_text capitalize) es)"

subsection \<open>Summaries\<close>

record summary_file =
  sf_name :: ustr
  sf_text :: ustr
  sf_mtime :: secs

record st_state =
  ss_cache :: "(ustr, summary_file) dict"
  ss_retained :: "ustr list"
  ss_prompts :: "ustr list"  \<comment> \<open>the prompts sent to the model\<close>

definition summary_path :: "(entry list \<Rightarrow> ustr) \<Rightarrow> entry list \<Rightarrow> ustr" where
  "summary_path digest es = u ''short-term-summary-'' @ take 12 (digest es) @ u ''.md''"

definition summary_prompt :: "(ustr \<Rightarrow> ustr) \<Rightarrow> entry list \<Rightarrow> ustr" where
  "summary_prompt capitalize es =
     u ''Summarize the following conversation turns into a concise, dense '' @
     u ''bullet list of key facts, questions, and decisions. Do not add '' @
     u ''pleasantries or invent information.'' @ [10, 10] @ join_blank (map (entry_text capitalize) es)"

text \<open>What the modelled code takes from outside.\<close>

record st_env =
  sv_capitalize :: "ustr \<Rightarrow> ustr"
  sv_digest :: "entry list \<Rightarrow> ustr"
  sv_reply :: "ustr \<Rightarrow> ustr option"
  sv_now :: secs

definition load_or_summarize :: "st_env \<Rightarrow> memory_config \<Rightarrow> entry list \<Rightarrow> st_state \<Rightarrow> st_state \<times> ustr" where
  "load_or_summarize env cfg es s =
     (let path = summary_path (sv_digest env) es
      in case dget path (ss_cache s) of
           Some f \<Rightarrow> (s, sf_text f)
         | None \<Rightarrow>
             let prompt = summary_prompt (sv_capitalize env) es;
                 summary = (case sv_reply env prompt of
                    Some r \<Rightarrow> py_strip r
                  | None \<Rightarrow> trim_to_section (join_blank (map (entry_text (sv_capitalize env)) es)) (mc_max_short_term_chars cfg))
             in (s\<lparr>ss_cache := dset path \<lparr>sf_name = path, sf_text = summary, sf_mtime = sv_now env\<rparr> (ss_cache s),
                   ss_prompts := ss_prompts s @ [prompt]\<rparr>, summary))"

definition summarize_and_retain ::
  "st_env \<Rightarrow> memory_config \<Rightarrow> entry list \<Rightarrow> int option \<Rightarrow> st_state \<Rightarrow> st_state \<times> ustr" where
  "summarize_and_retain env cfg transcript n s =
     (if \<not> mc_include_short_term cfg \<or> \<not> mc_smart cfg then (s, [])
      else let (recent, fresh, older) = st_window cfg transcript;
               raw_text = format_recent_turns (sv_capitalize env) recent;
               fresh_text = format_recent_turns (sv_capitalize env) fresh;
               max_chars = mc_max_short_term_chars cfg
           in if older = [] then (s, [])
              else if int (length raw_text) \<le> max_chars then (s, [])
              else if int (length fresh_text) \<ge> max_chars then (s, [])
              else let max_pairs = (case n of Some k \<Rightarrow> k | None \<Rightarrow> mc_short_term_turns cfg - mc_min_short_term_turns cfg);
                       max_entries = max 0 (max_pairs * 2);
                       older' = (if max_entries \<noteq> 0 \<and> int (length older) > max_entries
                                 then take (nat max_entries) older else older);
                       (s', summary) = load_or_summarize env cfg older' s
                   in if summary = [] then (s', [])
                      else (s'\<lparr>ss_retained := ss_retained s' @ [summary]\<rparr>, summary))"

definition TRUNCATED_NOTE :: ustr where
  "TRUNCATED_NOTE = [10, 10] @ u ''[... short-term context truncated because even the minimum '' @
     u ''fresh turns exceed the budget ...]''"

definition SUMMARY_PREFIX :: ustr where
  "SUMMARY_PREFIX = u ''Summary of earlier short-term turns:'' @ [10, 10]"

definition OLDER_NOTE :: ustr where
  "OLDER_NOTE = 10 # u ''[... older turns truncated ...]'' @ [10, 10]"

text \<open>A summary above the fresh turns, trimmed so that the fresh turns remain intact.\<close>

definition with_summary :: "int \<Rightarrow> ustr \<Rightarrow> ustr \<Rightarrow> ustr" where
  "with_summary max_chars summary fresh_text =
     (let combined = SUMMARY_PREFIX @ summary @ [10, 10] @ fresh_text
      in if int (length combined) \<le> max_chars then combined
         else let cap = max 0 (max_chars - int (length fresh_text) - int (length SUMMARY_PREFIX) - 2)
              in if cap = 0 then fresh_text
                 else SUMMARY_PREFIX @ trim_to_section summary cap @ OLDER_NOTE @ fresh_text)"

definition st_context :: "st_env \<Rightarrow> memory_config \<Rightarrow> entry list \<Rightarrow> st_state \<Rightarrow> st_state \<times> ustr" where
  "st_context env cfg transcript s =
     (if \<not> mc_include_short_term cfg then (s, [])
      else let (recent, fresh, older) = st_window cfg transcript;
               raw_text = format_recent_turns (sv_capitalize env) recent;
               max_chars = mc_max_short_term_chars cfg;
               fresh_text = format_recent_turns (sv_capitalize env) fresh
           in if recent = [] then (s, [])
              else if \<not> mc_smart cfg then (s, raw_text)
              else if int (length raw_text) \<le> max_chars then (s, raw_text)
              else if older = [] then (s, trim_to_section raw_text max_chars @ TRUNCATED_NOTE)
              else if int (length fresh_text) \<ge> max_chars then (s, trim_to_section fresh_text max_chars @ TRUNCATED_NOTE)
              else let (s', summary) = summarize_and_retain env cfg transcript
                         (Some (mc_short_term_turns cfg - mc_min_short_term_turns cfg)) s
                   in (s', if summary = [] then fresh_text else with_summary max_chars summary fresh_text))"

definition should_precompute :: "st_env \<Rightarrow> memory_config \<Rightarrow> entry list \<Rightarrow> int \<Rightarrow> bool" where
  "should_precompute env cfg transcript turn_number =
     (if \<not> mc_precompute cfg then False
      else if \<not> mc_smart cfg then False
      else if turn_number < mc_precompute_min_turns cfg then False
      else let (recent, fresh, older) = st_window cfg transcript
           in if recent = [] then False
              else int (length (format_recent_turns (sv_capitalize env) recent)) > mc_max_short_term_chars cfg)"

text \<open>The newest file with a text, of the files named as summaries.\<close>

fun first_nonempty :: "ustr list \<Rightarrow> ustr" where
  "first_nonempty [] = []"
| "first_nonempty [x] = x"
| "first_nonempty (x # y # ys) = (if x \<noteq> [] then x else first_nonempty (y # ys))"

definition newest_summary :: "(ustr, summary_file) dict \<Rightarrow> ustr" where
  "newest_summary cache =
     first_nonempty (map sf_text (sort_key (\<lambda>f. - sf_mtime f)
       (filter (\<lambda>f. prefix (u ''short-term-summary-'') (sf_name f)) (dvals cache))))"

definition compaction_context :: "st_env \<Rightarrow> memory_config \<Rightarrow> entry list \<Rightarrow> st_state \<Rightarrow> ustr" where
  "compaction_context env cfg transcript s =
     (if \<not> mc_include_short_term cfg then []
      else let (recent, fresh, older) = st_window cfg transcript;
               raw_text = format_recent_turns (sv_capitalize env) recent;
               fresh_text = format_recent_turns (sv_capitalize env) fresh;
               max_chars = mc_max_short_term_chars cfg
           in if recent = [] then []
              else if int (length raw_text) \<le> max_chars then raw_text
              else let summary = (if older = [] then []
                         else case dget (summary_path (sv_digest env) older) (ss_cache s) of
                                Some f \<Rightarrow> sf_text f
                              | None \<Rightarrow> newest_summary (ss_cache s))
                   in if summary = [] then fresh_text else with_summary max_chars summary fresh_text)"

text \<open>\<open>prune_cache\<close>: files older than the limit go.\<close>

definition prune_cache :: "int \<Rightarrow> secs \<Rightarrow> st_state \<Rightarrow> st_state" where
  "prune_cache days now s =
     s\<lparr>ss_cache := filter (\<lambda>(k, f). \<not> now - sf_mtime f > of_int days * 86400) (ss_cache s)\<rparr>"

subsection \<open>The window partitions the recent turns\<close>

lemma slice_split [simp]: "slice_but n xs @ slice_last n xs = xs"
  by (simp add: slice_but_def slice_last_def last_n_def)

lemma window_partition: "st_window cfg t = (recent, fresh, older) \<Longrightarrow> recent = older @ fresh"
  by (auto simp: st_window_def Let_def split: if_splits)

lemma window_older_short:
  assumes "st_window cfg t = (recent, fresh, older)" "0 < mc_min_short_term_turns cfg"
    "0 < mc_short_term_turns cfg"
  shows "int (length older) \<le> max 0 ((mc_short_term_turns cfg - mc_min_short_term_turns cfg) * 2)"
  using assms by (auto simp: st_window_def slice_but_def Let_def split: if_splits)

lemma window_no_minimum:
  "mc_min_short_term_turns cfg \<le> 0 \<Longrightarrow> \<exists>recent. st_window cfg t = (recent, recent, [])"
  by (simp add: st_window_def Let_def slice_last_def slice_but_def)

lemma window_whole: "st_window cfg t = (recent, fresh, []) \<Longrightarrow> fresh = recent"
  using window_partition [of cfg t recent fresh "[]"] by simp

subsection \<open>Summaries are found again\<close>

lemma load_or_summarize_cached:
  "load_or_summarize env cfg es s = (s', summary) \<Longrightarrow>
   \<exists>f. dget (summary_path (sv_digest env) es) (ss_cache s') = Some f \<and> sf_text f = summary"
  by (auto simp: load_or_summarize_def Let_def split: option.splits)

lemma load_or_summarize_again:
  assumes "dget (summary_path (sv_digest env) es) (ss_cache s) = Some f"
  shows "load_or_summarize env cfg es s = (s, sf_text f)"
  using assms by (simp add: load_or_summarize_def Let_def)

text \<open>The configuration of the summarising path: a positive minimum of fresh turns within the window.\<close>

definition summarising :: "memory_config \<Rightarrow> bool" where
  "summarising cfg \<longleftrightarrow> mc_include_short_term cfg \<and> mc_smart cfg \<and> 0 < mc_min_short_term_turns cfg
     \<and> mc_min_short_term_turns cfg < mc_short_term_turns cfg"

lemma summarize_all_older:
  assumes cfg: "summarising cfg" and w: "st_window cfg t = (recent, fresh, older)" and ne: "older \<noteq> []"
    and raw: "mc_max_short_term_chars cfg < int (length (format_recent_turns (sv_capitalize env) recent))"
    and fits: "int (length (format_recent_turns (sv_capitalize env) fresh)) < mc_max_short_term_chars cfg"
    and l: "load_or_summarize env cfg older s = (s', summary)"
  shows "summarize_and_retain env cfg t (Some (mc_short_term_turns cfg - mc_min_short_term_turns cfg)) s =
    (if summary = [] then (s', []) else (s'\<lparr>ss_retained := ss_retained s' @ [summary]\<rparr>, summary))"
proof -
  have "0 < mc_short_term_turns cfg" using cfg by (simp add: summarising_def)
  with window_older_short [OF w] cfg
  have "\<not> int (length older) > max 0 ((mc_short_term_turns cfg - mc_min_short_term_turns cfg) * 2)"
    by (simp add: summarising_def)
  with assms show ?thesis by (simp add: summarize_and_retain_def summarising_def Let_def)
qed

lemma context_summarised:
  assumes cfg: "summarising cfg" and w: "st_window cfg t = (recent, fresh, older)" and ne: "older \<noteq> []"
    and raw: "mc_max_short_term_chars cfg < int (length (format_recent_turns (sv_capitalize env) recent))"
    and fits: "int (length (format_recent_turns (sv_capitalize env) fresh)) < mc_max_short_term_chars cfg"
    and l: "load_or_summarize env cfg older s = (s1, summary)"
  shows "st_context env cfg t s =
    (if summary = [] then s1 else s1\<lparr>ss_retained := ss_retained s1 @ [summary]\<rparr>,
     if summary = [] then format_recent_turns (sv_capitalize env) fresh
     else with_summary (mc_max_short_term_chars cfg) summary (format_recent_turns (sv_capitalize env) fresh))"
proof -
  have "recent \<noteq> []" using window_partition [OF w] ne by simp
  with summarize_all_older [OF assms] cfg w raw ne fits show ?thesis
    by (simp add: st_context_def summarising_def Let_def)
qed

lemma with_summary_bounds:
  assumes "int (length fresh) < max_chars"
  shows "suffix fresh (with_summary max_chars summary fresh)"
    and "int (length (with_summary max_chars summary fresh)) \<le> max_chars + 32"
proof -
  let ?cap = "max 0 (max_chars - int (length fresh) - int (length SUMMARY_PREFIX) - 2)"
  have n: "length OLDER_NOTE = 34" by (simp add: OLDER_NOTE_def)
  show "suffix fresh (with_summary max_chars summary fresh)"
    by (simp add: with_summary_def Let_def suffix_def)
  show "int (length (with_summary max_chars summary fresh)) \<le> max_chars + 32"
    using trim_to_section_length [of ?cap summary] assms n
    by (auto simp: with_summary_def Let_def)
qed

subsection \<open>A concrete conversation\<close>

definition sample_config :: "int \<Rightarrow> memory_config" where
  "sample_config n = \<lparr>mc_include_short_term = True, mc_smart = True, mc_short_term_turns = 2,
     mc_min_short_term_turns = n, mc_max_short_term_chars = 70, mc_precompute = True, mc_precompute_min_turns = 5\<rparr>"

definition sample_entry :: entry where
  "sample_entry = \<lparr>te_role = Some (u ''User''), te_content = u ''0123456789''\<rparr>"

definition sample_env :: "ustr option \<Rightarrow> st_env" where
  "sample_env r = \<lparr>sv_capitalize = id, sv_digest = (\<lambda>es. []), sv_reply = (\<lambda>p. r), sv_now = 0\<rparr>"

definition fresh_state :: st_state where
  "fresh_state = \<lparr>ss_cache = [], ss_retained = [], ss_prompts = []\<rparr>"

lemma sample_window:
  "st_window (sample_config 1) (replicate 4 sample_entry) = (replicate 4 sample_entry, replicate 2 sample_entry, replicate 2 sample_entry)"
  by (simp add: st_window_def sample_config_def slice_last_def slice_but_def last_n_def numeral_eq_Suc)

lemma sample_facts:
  "summarising (sample_config 1)" "replicate 4 sample_entry \<noteq> []"
  "int (length (format_recent_turns (sv_capitalize (sample_env r)) (replicate 2 sample_entry)))
     < mc_max_short_term_chars (sample_config 1)"
  "mc_max_short_term_chars (sample_config n)
     < int (length (format_recent_turns (sv_capitalize (sample_env r)) (replicate 4 sample_entry)))"
  by (simp_all add: summarising_def sample_config_def format_recent_turns_def entry_text_def sample_entry_def
      sample_env_def numeral_eq_Suc)

subsection \<open>Properties\<close>

text \<open>
  The prompt block keeps the fresh turns within its budget: when the minimum of fresh turns fits
  the budget, the block is the recent turns verbatim if they fit, and otherwise ends with the fresh turns
  verbatim; it exceeds the configured budget by at most 32 characters (the note on truncated turns).
\<close>

theorem short_term_block_keeps_fresh_turns:
  assumes "summarising cfg" and "st_window cfg t = (recent, fresh, older)" and "recent \<noteq> []"
    and "int (length (format_recent_turns (sv_capitalize env) fresh)) < mc_max_short_term_chars cfg"
  shows "(if int (length (format_recent_turns (sv_capitalize env) recent)) \<le> mc_max_short_term_chars cfg
      then st_context env cfg t s = (s, format_recent_turns (sv_capitalize env) recent)
      else suffix (format_recent_turns (sv_capitalize env) fresh) (snd (st_context env cfg t s)))
    \<and> int (length (snd (st_context env cfg t s))) \<le> mc_max_short_term_chars cfg + 32"
proof (cases "int (length (format_recent_turns (sv_capitalize env) recent)) \<le> mc_max_short_term_chars cfg")
  case True
  with assms show ?thesis by (simp add: st_context_def summarising_def Let_def)
next
  case False
  then have ne: "older \<noteq> []" using window_whole assms(2,4) by force
  obtain s1 summary where l: "load_or_summarize env cfg older s = (s1, summary)" by force
  have raw: "mc_max_short_term_chars cfg < int (length (format_recent_turns (sv_capitalize env) recent))"
    using False by simp
  have c: "snd (st_context env cfg t s) = (if summary = [] then format_recent_turns (sv_capitalize env) fresh
     else with_summary (mc_max_short_term_chars cfg) summary (format_recent_turns (sv_capitalize env) fresh))"
    using context_summarised [OF assms(1,2) ne raw assms(4) l] by simp
  show ?thesis
    using False assms(4) with_summary_bounds [OF assms(4), of summary] unfolding c by (cases "summary = []") auto
qed

theorem short_term_block_keeps_fresh_turns_witness:
  "suffix (format_recent_turns id (replicate 2 sample_entry))
     (snd (st_context (sample_env (Some (u ''they met''))) (sample_config 1) (replicate 4 sample_entry) fresh_state))"
  using short_term_block_keeps_fresh_turns [OF sample_facts(1) sample_window sample_facts(2)
        sample_facts(3) [of "Some (u ''they met'')"], of fresh_state] sample_facts(4) [of 1 "Some (u ''they met'')"]
  by (auto simp: sample_env_def split: if_splits)

text \<open>
  A summary is paid for once: after the block was built, building it again sends no prompt to the
  model and gives the same block, and so does the block of a fresh start, which never calls the model.
\<close>

theorem summary_is_paid_for_once:
  assumes "summarising cfg" and "st_window cfg t = (recent, fresh, older)" and "recent \<noteq> []"
    and "int (length (format_recent_turns (sv_capitalize env) fresh)) < mc_max_short_term_chars cfg"
    and "st_context env cfg t s = (s', block)"
    and "sv_capitalize env' = sv_capitalize env" and "sv_digest env' = sv_digest env"
  shows "compaction_context env cfg t s' = block \<and> snd (st_context env' cfg t s') = block
    \<and> ss_prompts (fst (st_context env' cfg t s')) = ss_prompts s'"
proof -
  note e = assms(6,7)
  show "compaction_context env cfg t s' = block \<and> snd (st_context env' cfg t s') = block
    \<and> ss_prompts (fst (st_context env' cfg t s')) = ss_prompts s'"
  proof (cases "int (length (format_recent_turns (sv_capitalize env) recent)) \<le> mc_max_short_term_chars cfg")
    case True
    with assms e show ?thesis by (auto simp: st_context_def compaction_context_def summarising_def Let_def)
  next
    case False
    then have ne: "older \<noteq> []" using window_whole assms(2,4) by force
    have raw: "mc_max_short_term_chars cfg < int (length (format_recent_turns (sv_capitalize env) recent))"
      using False by simp
    obtain s1 summary where l: "load_or_summarize env cfg older s = (s1, summary)" by force
    note c = context_summarised [OF assms(1,2) ne raw assms(4) l]
    obtain f where f: "dget (summary_path (sv_digest env) older) (ss_cache s1) = Some f" "sf_text f = summary"
      using load_or_summarize_cached [OF l] by blast
    with c assms(5) have f': "dget (summary_path (sv_digest env') older) (ss_cache s') = Some f"
      using e by (auto split: if_splits)
    note l' = load_or_summarize_again [OF f', of cfg]
    note c' = context_summarised [OF assms(1,2) ne _ _ l'] 
    have "snd (st_context env' cfg t s') = block" "ss_prompts (fst (st_context env' cfg t s')) = ss_prompts s'"
      using c' raw assms(4,5) c e f(2) by auto
    moreover have "compaction_context env cfg t s' = block"
      using f' f(2) c assms raw ne e by (auto simp: compaction_context_def summarising_def Let_def split: if_splits)
    ultimately show ?thesis by blast
  qed
qed

theorem summary_is_paid_for_once_witness:
  "\<exists>s' block. st_context (sample_env (Some (u ''they met''))) (sample_config 1) (replicate 4 sample_entry) fresh_state = (s', block)
     \<and> snd (st_context (sample_env None) (sample_config 1) (replicate 4 sample_entry) s') = block"
proof -
  obtain s' block where b: "st_context (sample_env (Some (u ''they met''))) (sample_config 1)
      (replicate 4 sample_entry) fresh_state = (s', block)" by force
  have e: "sv_capitalize (sample_env None) = sv_capitalize (sample_env (Some (u ''they met'')))"
    "sv_digest (sample_env None) = sv_digest (sample_env (Some (u ''they met'')))" by (simp_all add: sample_env_def)
  from summary_is_paid_for_once [OF sample_facts(1) sample_window sample_facts(2,3) b e] b show ?thesis by blast
qed

text \<open>
  Without a minimum of fresh turns nothing is ever summarised: \<open>recent[-0:]\<close> is the whole window
  and \<open>recent[:-0]\<close> is empty, so with \<open>min_short_term_turns = 0\<close> every turn counts as fresh, no summary is made,
  and a window that exceeds the budget is cut from its end: the most recent turns are the ones dropped.
\<close>

theorem no_minimum_disables_summaries:
  assumes "mc_min_short_term_turns cfg \<le> 0" and "mc_include_short_term cfg" and "mc_smart cfg"
  shows "fst (st_context env cfg t s) = s \<and> summarize_and_retain env cfg t n s = (s, [])
    \<and> (\<exists>recent. st_window cfg t = (recent, recent, []) \<and>
         (mc_max_short_term_chars cfg < int (length (format_recent_turns (sv_capitalize env) recent)) \<and> recent \<noteq> []
          \<longrightarrow> snd (st_context env cfg t s) =
              trim_to_section (format_recent_turns (sv_capitalize env) recent) (mc_max_short_term_chars cfg) @ TRUNCATED_NOTE))"
proof -
  obtain recent where w: "st_window cfg t = (recent, recent, [])" using window_no_minimum [OF assms(1)] by blast
  with assms show ?thesis by (auto simp: st_context_def summarize_and_retain_def Let_def)
qed

theorem no_minimum_disables_summaries_witness:
  "fst (st_context (sample_env None) (sample_config 0) (replicate 4 sample_entry) fresh_state) = fresh_state"
proof -
  have "mc_min_short_term_turns (sample_config 0) \<le> 0" "mc_include_short_term (sample_config 0)" "mc_smart (sample_config 0)"
    by (simp_all add: sample_config_def)
  from no_minimum_disables_summaries [OF this] show ?thesis by blast
qed

end
