(* ===== verification/MemoryPockets.thy ===== *)
theory MemoryPockets
  imports Json
begin

section \<open>Retained turns and promoted facts\<close>

text \<open>
  \<open>src/src/diploid_agent/memory_retention.py\<close>: the buffer that bundles turn pairs into retained documents;
  and the promoted pocket of \<open>src/src/diploid_agent/memory_promoted.py\<close>, a text file of one fact per line.
  The backend's answer to a document is the argument \<open>accept\<close> (\<open>False\<close>: it raised); files can be read and
  written.  A buffered entry read from disk may lack its session or turn, on which the code raises
  \<open>KeyError\<close>.
\<close>

subsection \<open>\<open>TurnRetainBuffer\<close>\<close>

record turn_entry =
  rn_content :: ustr
  rn_turn :: "int option"
  rn_session :: "int option"
  rn_model :: "ustr option"
  rn_context :: "ustr option"
  rn_timestamp :: "ustr option"

record memory_item =
  mi_content :: ustr
  mi_context :: "ustr option"
  mi_timestamp :: ustr
  mi_document_id :: ustr
  mi_session :: int
  mi_role :: ustr
  mi_model :: "ustr option"
  mi_turn :: int
  mi_turns :: "int list"
  mi_tags :: "ustr list"

record retain_buffer =
  rb_entries :: "turn_entry list"
  rb_file :: "turn_entry line list option"
  rb_docs :: "memory_item list"  \<comment> \<open>what the backend has retained\<close>

record buffer_config =
  bc_bundle_turns :: int
  bc_chat_id :: ustr
  bc_persona :: ustr

text \<open>Entries without a text are dropped; the others are appended to what is buffered.\<close>

fun readable_entries :: "turn_entry line list \<Rightarrow> turn_entry list" where
  "readable_entries [] = []"
| "readable_entries (Parsed e # ls) = (if rn_content e \<noteq> [] then e # readable_entries ls else readable_entries ls)"
| "readable_entries (l # ls) = readable_entries ls"

definition buffer_load :: "retain_buffer \<Rightarrow> retain_buffer" where
  "buffer_load b =
     (case rb_file b of None \<Rightarrow> b | Some ls \<Rightarrow> b\<lparr>rb_entries := rb_entries b @ readable_entries ls\<rparr>)"

definition buffer_write :: "retain_buffer \<Rightarrow> retain_buffer" where
  "buffer_write b = b\<lparr>rb_file := (if rb_entries b \<noteq> [] then Some (map Parsed (rb_entries b)) else None)\<rparr>"

text \<open>The format \<open>06d\<close>.\<close>

definition pad6 :: "int \<Rightarrow> ustr" where
  "pad6 i =
     (let s = digits_of (nat \<bar>i\<bar>)
      in if i < 0 then 45 # replicate (5 - length s) 48 @ s else replicate (6 - length s) 48 @ s)"

fun join_rule :: "ustr list \<Rightarrow> ustr" where
  "join_rule [] = []"
| "join_rule [x] = x"
| "join_rule (x # y # ys) = x @ [10, 10] @ u ''---'' @ [10, 10] @ join_rule (y # ys)"

definition bundle_item :: "buffer_config \<Rightarrow> ustr \<Rightarrow> int \<Rightarrow> int list \<Rightarrow> turn_entry list \<Rightarrow> memory_item" where
  "bundle_item cfg now session turns es =
     (let bundled = length es > 1
      in \<lparr>mi_content = join_rule (map rn_content es),
          mi_context = (case filter (\<lambda>c. c \<noteq> None \<and> c \<noteq> Some []) (map rn_context es) of [] \<Rightarrow> None | c # _ \<Rightarrow> c),
          mi_timestamp = (case rn_timestamp (last es) of Some t \<Rightarrow> if t \<noteq> [] then t else now | None \<Rightarrow> now),
          mi_document_id =
            (if bundled then u ''turns-'' @ bc_chat_id cfg @ u ''-'' @ pad6 session @ u ''-'' @ pad6 (hd turns) @ u ''-'' @ pad6 (last turns)
             else u ''turn-'' @ bc_chat_id cfg @ u ''-'' @ pad6 session @ u ''-'' @ pad6 (hd turns)),
          mi_session = session,
          mi_role = (if bundled then u ''pair_bundle'' else u ''pair''),
          mi_model = rn_model (last es), mi_turn = last turns, mi_turns = turns,
          mi_tags = [u ''turn'', u ''chat:'' @ bc_chat_id cfg, u ''session:'' @ str_of_int session,
                     u ''persona:'' @ bc_persona cfg]\<rparr>)"

text \<open>The run of entries of one session at the front; \<open>None\<close> when the scan meets one without a session.\<close>

fun session_run :: "int \<Rightarrow> turn_entry list \<Rightarrow> (turn_entry list \<times> turn_entry list) option" where
  "session_run s [] = Some ([], [])"
| "session_run s (e # es) =
     (case rn_session e of
        None \<Rightarrow> None
      | Some t \<Rightarrow> if t = s then map_option (\<lambda>(a, b). (e # a, b)) (session_run s es) else Some ([], e # es))"

lemma session_run_append: "session_run s es = Some (a, b) \<Longrightarrow> es = a @ b"
  by (induction es arbitrary: a b) (auto split: option.splits if_splits)

lemma session_run_session: "session_run s es = Some (a, b) \<Longrightarrow> e \<in> set a \<Longrightarrow> rn_session e = Some s"
  by (induction es arbitrary: a b) (auto split: option.splits if_splits)

lemma session_run_ne: "session_run s (e # es) = Some (a, b) \<Longrightarrow> rn_session e = Some s \<Longrightarrow> a \<noteq> []"
  by (auto split: option.splits)

text \<open>One round of the loop of \<open>flush\<close>.\<close>

datatype flush_round = RoundRaises py_exn | RoundRefused | RoundStored memory_item "turn_entry list"

definition flush_round :: "(memory_item \<Rightarrow> bool) \<Rightarrow> buffer_config \<Rightarrow> ustr \<Rightarrow> turn_entry list \<Rightarrow> flush_round" where
  "flush_round accept cfg now es =
     (case rn_session (hd es) of
        None \<Rightarrow> RoundRaises KeyError
      | Some session \<Rightarrow>
          (case session_run session es of
             None \<Rightarrow> RoundRaises KeyError
           | Some (a, b) \<Rightarrow>
               if None \<in> set (map rn_turn a) then RoundRaises KeyError
               else let item = bundle_item cfg now session (map the (map rn_turn a)) a
                    in if accept item then RoundStored item b else RoundRefused))"

lemma flush_round_shorter: "es \<noteq> [] \<Longrightarrow> flush_round accept cfg now es = RoundStored item b \<Longrightarrow> length b < length es"
proof -
  assume "es \<noteq> []" and r: "flush_round accept cfg now es = RoundStored item b"
  then obtain e es' where es: "es = e # es'" by (cases es) auto
  from r obtain s a where sr: "rn_session e = Some s" "session_run s es = Some (a, b)"
    by (auto simp: flush_round_def es Let_def split: option.splits if_splits)
  from session_run_append [OF sr(2)] session_run_ne [OF sr(2) [unfolded es] sr(1)] show ?thesis by (cases a) auto
qed

function flush_loop ::
  "(memory_item \<Rightarrow> bool) \<Rightarrow> buffer_config \<Rightarrow> ustr \<Rightarrow> turn_entry list \<Rightarrow> memory_item list
    \<Rightarrow> turn_entry list \<times> memory_item list \<times> py_exn option" where
  "flush_loop accept cfg now es docs =
     (if es = [] then (es, docs, None)
      else case flush_round accept cfg now es of
             RoundRaises x \<Rightarrow> (es, docs, Some x)
           | RoundRefused \<Rightarrow> (es, docs, None)
           | RoundStored item b \<Rightarrow> flush_loop accept cfg now b (docs @ [item]))"
  by pat_completeness auto
termination
  by (relation "measure (\<lambda>(accept, cfg, now, es, docs). length es)") (auto dest: flush_round_shorter)

declare flush_loop.simps [simp del]

text \<open>An exception of the loop leaves the file as it is.\<close>

definition buffer_flush ::
  "(memory_item \<Rightarrow> bool) \<Rightarrow> buffer_config \<Rightarrow> ustr \<Rightarrow> retain_buffer \<Rightarrow> retain_buffer \<times> py_exn option" where
  "buffer_flush accept cfg now b =
     (case flush_loop accept cfg now (rb_entries b) (rb_docs b) of
        (es, docs, None) \<Rightarrow> (buffer_write (b\<lparr>rb_entries := es, rb_docs := docs\<rparr>), None)
      | (es, docs, Some x) \<Rightarrow> (b\<lparr>rb_entries := es, rb_docs := docs\<rparr>, Some x))"

record new_turn =
  nt_content :: ustr
  nt_turn :: int
  nt_session :: int
  nt_model :: ustr
  nt_context :: "ustr option"

definition entry_of :: "new_turn \<Rightarrow> ustr \<Rightarrow> turn_entry" where
  "entry_of t now = \<lparr>rn_content = nt_content t, rn_turn = Some (nt_turn t), rn_session = Some (nt_session t),
     rn_model = Some (nt_model t), rn_context = nt_context t, rn_timestamp = Some now\<rparr>"

definition flush_boundary ::
  "(memory_item \<Rightarrow> bool) \<Rightarrow> buffer_config \<Rightarrow> ustr \<Rightarrow> int \<Rightarrow> retain_buffer \<Rightarrow> retain_buffer \<times> py_exn option" where
  "flush_boundary accept cfg now session b =
     (case rb_entries b of
        [] \<Rightarrow> (b, None)
      | e # _ \<Rightarrow> (case rn_session e of
                    None \<Rightarrow> (b, Some KeyError)
                  | Some s \<Rightarrow> if s \<noteq> session then buffer_flush accept cfg now b else (b, None)))"

definition buffer_append ::
  "(memory_item \<Rightarrow> bool) \<Rightarrow> buffer_config \<Rightarrow> ustr \<Rightarrow> new_turn \<Rightarrow> retain_buffer \<Rightarrow> retain_buffer \<times> py_exn option" where
  "buffer_append accept cfg now t b =
     (case flush_boundary accept cfg now (nt_session t) b of
        (b1, Some x) \<Rightarrow> (b1, Some x)
      | (b1, None) \<Rightarrow>
          let b2 = b1\<lparr>rb_entries := rb_entries b1 @ [entry_of t now]\<rparr>
          in if int (length (rb_entries b2)) \<ge> max 1 (bc_bundle_turns cfg) then buffer_flush accept cfg now b2
             else (buffer_write b2, None))"

subsection \<open>No turn is lost\<close>

text \<open>The turns accounted for: those of the retained documents, then those in the buffer.\<close>

definition doc_turns :: "memory_item \<Rightarrow> (int \<times> int) list" where
  "doc_turns d = map (Pair (mi_session d)) (mi_turns d)"

definition entry_turn :: "turn_entry \<Rightarrow> int \<times> int" where
  "entry_turn e = (the (rn_session e), the (rn_turn e))"

definition accounted :: "retain_buffer \<Rightarrow> (int \<times> int) list" where
  "accounted b = concat (map doc_turns (rb_docs b)) @ map entry_turn (rb_entries b)"

definition complete_entry :: "turn_entry \<Rightarrow> bool" where
  "complete_entry e \<longleftrightarrow> rn_session e \<noteq> None \<and> rn_turn e \<noteq> None"

lemma session_run_total:
  "list_all complete_entry es \<Longrightarrow> session_run s es \<noteq> None"
  by (induction es) (auto simp: complete_entry_def)

lemma bundle_sel [simp]: "mi_session (bundle_item cfg now s ts es) = s" "mi_turns (bundle_item cfg now s ts es) = ts"
  by (simp_all add: bundle_item_def Let_def)

lemma flush_round_accounts:
  assumes "flush_round accept cfg now es = RoundStored item b"
  shows "map entry_turn es = doc_turns item @ map entry_turn b" "\<exists>a. es = a @ b"
proof -
  from assms obtain s a where sr: "session_run s es = Some (a, b)" "None \<notin> set (map rn_turn a)"
    "item = bundle_item cfg now s (map the (map rn_turn a)) a"
    by (auto simp: flush_round_def Let_def split: option.splits if_splits)
  note e = session_run_append [OF sr(1)]
  have "map entry_turn a = doc_turns item"
    using session_run_session [OF sr(1)] sr(3) by (auto simp: entry_turn_def doc_turns_def)
  with e show "map entry_turn es = doc_turns item @ map entry_turn b" "\<exists>a. es = a @ b" by auto
qed

lemma flush_loop_accounts:
  "flush_loop accept cfg now es docs = (es', docs', x) \<Longrightarrow>
   concat (map doc_turns docs') @ map entry_turn es' = concat (map doc_turns docs) @ map entry_turn es
   \<and> suffix es' es"
proof (induction accept cfg now es docs rule: flush_loop.induct)
  case (1 accept cfg now es docs)
  show ?case
  proof (cases "es = []")
    case True
    with "1.prems" show ?thesis by (simp add: flush_loop.simps [of _ _ _ "[]"])
  next
    case False
    show ?thesis
    proof (cases "flush_round accept cfg now es")
      case (RoundStored item b)
      with "1.prems" False have "flush_loop accept cfg now b (docs @ [item]) = (es', docs', x)"
        by (simp add: flush_loop.simps [of _ _ _ es])
      from "1.IH" [OF False RoundStored this] flush_round_accounts [OF RoundStored] show ?thesis
        by (auto simp: suffix_def)
    qed (use "1.prems" False in \<open>auto simp: flush_loop.simps [of _ _ _ es]\<close>)
  qed
qed

lemma flush_loop_complete:
  "flush_loop accept cfg now es docs = (es', docs', x) \<Longrightarrow> list_all complete_entry es \<Longrightarrow> x = None"
proof (induction accept cfg now es docs rule: flush_loop.induct)
  case (1 accept cfg now es docs)
  show ?case
  proof (cases "es = []")
    case True
    with "1.prems" show ?thesis by (simp add: flush_loop.simps [of _ _ _ "[]"])
  next
    case False
    then obtain e rest where es: "es = e # rest" by (cases es) auto
    show ?thesis
    proof (cases "flush_round accept cfg now es")
      case (RoundRaises y)
      from "1.prems"(2) obtain s where s: "rn_session e = Some s" by (auto simp: es complete_entry_def)
      obtain a b where ab: "session_run s es = Some (a, b)" using session_run_total [OF "1.prems"(2)] by force
      with session_run_append [OF ab] "1.prems"(2) have "None \<notin> set (map rn_turn a)"
        by (force simp: list_all_iff complete_entry_def)
      with RoundRaises s ab show ?thesis by (auto simp: flush_round_def es Let_def split: if_splits)
    next
      case (RoundStored item b)
      with "1.prems" False have l: "flush_loop accept cfg now b (docs @ [item]) = (es', docs', x)"
        by (simp add: flush_loop.simps [of _ _ _ es])
      from flush_round_accounts(2) [OF RoundStored] "1.prems"(2) have "list_all complete_entry b" by auto
      with "1.IH" [OF False RoundStored l] show ?thesis by simp
    qed (use "1.prems" False in \<open>auto simp: flush_loop.simps [of _ _ _ es]\<close>)
  qed
qed

lemma flush_loop_empties:
  "flush_loop accept cfg now es docs = (es', docs', x) \<Longrightarrow> list_all complete_entry es \<Longrightarrow> (\<And>d. accept d) \<Longrightarrow> es' = []"
proof (induction accept cfg now es docs rule: flush_loop.induct)
  case (1 accept cfg now es docs)
  show ?case
  proof (cases "es = []")
    case True
    with "1.prems" show ?thesis by (simp add: flush_loop.simps [of _ _ _ "[]"])
  next
    case False
    have "x = None" by (rule flush_loop_complete [OF "1.prems"(1,2)])
    show ?thesis
    proof (cases "flush_round accept cfg now es")
      case (RoundStored item b)
      with "1.prems"(1) False have l: "flush_loop accept cfg now b (docs @ [item]) = (es', docs', x)"
        by (simp add: flush_loop.simps [of _ _ _ es])
      from flush_round_accounts(2) [OF RoundStored] "1.prems"(2) have "list_all complete_entry b" by auto
      with "1.IH" [OF False RoundStored l] "1.prems"(3) show ?thesis by simp
    next
      case (RoundRaises y)
      with "1.prems"(1) False \<open>x = None\<close> show ?thesis by (simp add: flush_loop.simps [of _ _ _ es])
    next
      case RoundRefused
      with "1.prems"(3) show ?thesis by (auto simp: flush_round_def Let_def split: option.splits if_splits)
    qed
  qed
qed

definition buffer_ok :: "retain_buffer \<Rightarrow> bool" where
  "buffer_ok b \<longleftrightarrow> list_all (\<lambda>e. complete_entry e \<and> rn_content e \<noteq> []) (rb_entries b)
     \<and> rb_file b = (if rb_entries b \<noteq> [] then Some (map Parsed (rb_entries b)) else None)"

lemma buffer_flush_ok:
  assumes "list_all (\<lambda>e. complete_entry e \<and> rn_content e \<noteq> []) (rb_entries b)"
    "buffer_flush accept cfg now b = (b', x)"
  shows "buffer_ok b' \<and> accounted b' = accounted b \<and> x = None \<and> ((\<forall>d. accept d) \<longrightarrow> rb_entries b' = [])"
proof -
  have c: "list_all complete_entry (rb_entries b)" using assms(1) by (auto simp: list_all_iff)
  obtain es docs y where l: "flush_loop accept cfg now (rb_entries b) (rb_docs b) = (es, docs, y)"
    by (metis prod_cases3)
  have y: "y = None" by (rule flush_loop_complete [OF l c])
  note a = flush_loop_accounts [OF l]
  have "list_all (\<lambda>e. complete_entry e \<and> rn_content e \<noteq> []) es"
    using a assms(1) by (auto simp: suffix_def)
  moreover have "(\<forall>d. accept d) \<longrightarrow> es = []" using flush_loop_empties [OF l c] by blast
  ultimately show ?thesis using assms(2) l y a
    by (auto simp: buffer_flush_def buffer_ok_def buffer_write_def accounted_def)
qed

lemma flush_boundary_ok:
  assumes "buffer_ok b" "flush_boundary accept cfg now session b = (b', x)"
  shows "buffer_ok b' \<and> accounted b' = accounted b \<and> x = None \<and> length (rb_entries b') \<le> length (rb_entries b)"
proof (cases "rb_entries b")
  case Nil
  with assms show ?thesis by (auto simp: flush_boundary_def)
next
  case (Cons e es)
  have c: "list_all (\<lambda>e. complete_entry e \<and> rn_content e \<noteq> []) (rb_entries b)"
    using assms(1) by (simp add: buffer_ok_def)
  then obtain s where s: "rn_session e = Some s" using Cons by (auto simp: complete_entry_def)
  have "length (rb_entries b') \<le> length (rb_entries b)" if "buffer_flush accept cfg now b = (b', x)"
  proof -
    obtain es' docs y where l: "flush_loop accept cfg now (rb_entries b) (rb_docs b) = (es', docs, y)"
      by (metis prod_cases3)
    have "suffix es' (rb_entries b)" using flush_loop_accounts [OF l] by blast
    with l that show ?thesis
      by (cases y) (auto simp: buffer_flush_def buffer_write_def dest: suffix_length_le)
  qed
  with assms Cons s buffer_flush_ok [OF c, of accept cfg now b' x] show ?thesis
    by (auto simp: flush_boundary_def split: if_splits)
qed

lemma buffer_append_ok:
  assumes "buffer_ok b" "nt_content t \<noteq> []" "buffer_append accept cfg now t b = (b', x)"
  shows "buffer_ok b' \<and> accounted b' = accounted b @ [(nt_session t, nt_turn t)] \<and> x = None
    \<and> ((\<forall>d. accept d) \<longrightarrow> int (length (rb_entries b')) < max 1 (bc_bundle_turns cfg))"
proof -
  obtain b1 y where b1: "flush_boundary accept cfg now (nt_session t) b = (b1, y)" by force
  note o1 = flush_boundary_ok [OF assms(1) b1]
  let ?b2 = "b1\<lparr>rb_entries := rb_entries b1 @ [entry_of t now]\<rparr>"
  have c2: "list_all (\<lambda>e. complete_entry e \<and> rn_content e \<noteq> []) (rb_entries ?b2)"
    using o1 assms(2) by (auto simp: buffer_ok_def entry_of_def complete_entry_def)
  have a2: "accounted ?b2 = accounted b @ [(nt_session t, nt_turn t)]"
    using o1 by (simp add: accounted_def entry_of_def entry_turn_def)
  show ?thesis
  proof (cases "int (length (rb_entries ?b2)) \<ge> max 1 (bc_bundle_turns cfg)")
    case True
    with assms(3) b1 o1 have "buffer_flush accept cfg now ?b2 = (b', x)"
      by (simp add: buffer_append_def Let_def)
    from buffer_flush_ok [OF c2 this] a2 show ?thesis by auto
  next
    case False
    with assms(3) b1 o1 have "b' = buffer_write ?b2" "x = None" by (auto simp: buffer_append_def Let_def)
    with False c2 a2 show ?thesis by (auto simp: buffer_ok_def buffer_write_def accounted_def)
  qed
qed

subsection \<open>Runs with restarts\<close>

datatype retain_op = RecordTurn new_turn ustr "memory_item \<Rightarrow> bool" | RestartBuffer

text \<open>A restart keeps the file and the backend, and loads the file into an empty buffer.\<close>

fun retain_step :: "buffer_config \<Rightarrow> retain_op \<Rightarrow> retain_buffer \<Rightarrow> retain_buffer \<times> py_exn option" where
  "retain_step cfg (RecordTurn t now accept) b = buffer_append accept cfg now t b"
| "retain_step cfg RestartBuffer b = (buffer_load (b\<lparr>rb_entries := []\<rparr>), None)"

fun retain_run :: "buffer_config \<Rightarrow> retain_op list \<Rightarrow> retain_buffer \<Rightarrow> retain_buffer \<times> py_exn list" where
  "retain_run cfg [] b = (b, [])"
| "retain_run cfg (op # ops) b =
     (let (b1, x) = retain_step cfg op b; (b2, xs) = retain_run cfg ops b1
      in (b2, (case x of None \<Rightarrow> xs | Some y \<Rightarrow> y # xs)))"

fun recorded :: "retain_op list \<Rightarrow> (int \<times> int) list" where
  "recorded [] = []"
| "recorded (RecordTurn t now accept # ops) = (nt_session t, nt_turn t) # recorded ops"
| "recorded (RestartBuffer # ops) = recorded ops"

fun records_text :: "retain_op \<Rightarrow> bool" where
  "records_text (RecordTurn t now accept) = (nt_content t \<noteq> [])"
| "records_text RestartBuffer = True"

definition empty_buffer :: retain_buffer where
  "empty_buffer = \<lparr>rb_entries = [], rb_file = None, rb_docs = []\<rparr>"

lemma readable_all: "list_all (\<lambda>e. rn_content e \<noteq> []) es \<Longrightarrow> readable_entries (map Parsed es) = es"
  by (induction es) auto

lemma restart_ok: "buffer_ok b \<Longrightarrow> buffer_load (b\<lparr>rb_entries := []\<rparr>) = b"
proof -
  assume ok: "buffer_ok b"
  then have "list_all (\<lambda>e. rn_content e \<noteq> []) (rb_entries b)" by (auto simp: buffer_ok_def list_all_iff)
  with ok readable_all [OF this] show ?thesis by (auto simp: buffer_load_def buffer_ok_def)
qed

lemma retain_run_ok:
  "buffer_ok b \<Longrightarrow> list_all records_text ops \<Longrightarrow> retain_run cfg ops b = (b', xs) \<Longrightarrow>
   buffer_ok b' \<and> accounted b' = accounted b @ recorded ops \<and> xs = []"
proof (induction ops arbitrary: b xs)
  case (Cons op ops)
  obtain b1 x where st: "retain_step cfg op b = (b1, x)" by force
  obtain ys where r: "retain_run cfg ops b1 = (b', ys)" "xs = (case x of None \<Rightarrow> ys | Some y \<Rightarrow> y # ys)"
    using Cons.prems(3) st by (auto simp: Let_def split: prod.splits)
  have o1: "buffer_ok b1 \<and> accounted b1 = accounted b @ recorded [op] \<and> x = None"
  proof (cases op)
    case (RecordTurn t now accept)
    with buffer_append_ok [OF Cons.prems(1)] st Cons.prems(2) show ?thesis by auto
  next
    case RestartBuffer
    with st restart_ok [OF Cons.prems(1)] Cons.prems(1) show ?thesis by simp
  qed
  moreover have "recorded (op # ops) = recorded [op] @ recorded ops" by (cases op) simp_all
  ultimately show ?case using Cons.IH [of b1 ys] Cons.prems(2) r by auto
qed simp


definition hello_turn :: "int \<Rightarrow> int \<Rightarrow> new_turn" where
  "hello_turn s n = \<lparr>nt_content = u ''hi'', nt_turn = n, nt_session = s, nt_model = u ''m'', nt_context = None\<rparr>"


text \<open>
  A damaged entry blocks the buffer for good: when the first entry read back from the file has no
  session (a JSON object with a text is enough to be loaded), recording a turn raises \<open>KeyError\<close> and changes
  nothing, now and after every restart: no later turn is ever buffered or retained.
\<close>

theorem damaged_entry_blocks_the_buffer:
  assumes "rb_entries b = []" and "rb_file b = Some ls" and "readable_entries ls = e # es" and "rn_session e = None"
  shows "buffer_append accept cfg now t (buffer_load b) = (buffer_load b, Some KeyError)
    \<and> buffer_load ((buffer_load b)\<lparr>rb_entries := []\<rparr>) = buffer_load b"
  using assms by (simp add: buffer_append_def flush_boundary_def buffer_load_def)

theorem damaged_entry_blocks_the_buffer_witness:
  "\<exists>b. snd (buffer_append (\<lambda>d. True) \<lparr>bc_bundle_turns = 1, bc_chat_id = [], bc_persona = []\<rparr> [] (hello_turn 1 1) b)
     = Some KeyError"
proof -
  define e where "e = \<lparr>rn_content = u ''x'', rn_turn = None, rn_session = None, rn_model = None,
    rn_context = None, rn_timestamp = None\<rparr>"
  define b where "b = \<lparr>rb_entries = [], rb_file = Some [Parsed e], rb_docs = []\<rparr>"
  have "rb_entries b = []" "rb_file b = Some [Parsed e]" "readable_entries [Parsed e] = [e]" "rn_session e = None"
    by (simp_all add: b_def e_def)
  from damaged_entry_blocks_the_buffer [OF this] show ?thesis by (metis snd_conv)
qed

subsection \<open>\<open>PromotedMemory\<close>\<close>

text \<open>\<open>text.split()\<close>: the words between runs of white space.\<close>

fun words_acc :: "ustr \<Rightarrow> ustr \<Rightarrow> ustr list" where
  "words_acc acc [] = (if acc = [] then [] else [rev acc])"
| "words_acc acc (c # s) =
     (if py_isspace c then (if acc = [] then words_acc [] s else rev acc # words_acc [] s) else words_acc (c # acc) s)"

definition py_words :: "ustr \<Rightarrow> ustr list" where
  "py_words s = words_acc [] s"

fun join_spaces :: "ustr list \<Rightarrow> ustr" where
  "join_spaces [] = []"
| "join_spaces [x] = x"
| "join_spaces (x # y # ys) = x @ 32 # join_spaces (y # ys)"

function drop_dashes :: "ustr \<Rightarrow> ustr" where
  "drop_dashes [] = []"
| "drop_dashes (c # s) = (if c = 45 then drop_dashes (py_lstrip s) else c # s)"
  by pat_completeness auto
termination
  by (relation "measure length") (auto simp: le_imp_less_Suc length_lstrip_by)

definition normalize_line :: "ustr \<Rightarrow> ustr" where
  "normalize_line line = join_spaces (py_words (drop_dashes (py_strip line)))"

text \<open>The first line of each key, blank keys dropped.\<close>

fun dedup_lines :: "ustr list \<Rightarrow> ustr list \<Rightarrow> ustr list" where
  "dedup_lines seen [] = []"
| "dedup_lines seen (l # ls) =
     (let key = normalize_line l
      in if key \<noteq> [] \<and> key \<notin> set seen then l # dedup_lines (key # seen) ls else dedup_lines seen ls)"

text \<open>\<open>"\n".join(lines) + "\n"\<close>.\<close>

fun join_lines :: "ustr list \<Rightarrow> ustr" where
  "join_lines [] = []"
| "join_lines [x] = x"
| "join_lines (x # y # ys) = x @ 10 # join_lines (y # ys)"

type_synonym pocket = "ustr option"

definition tidied :: "nat \<Rightarrow> ustr \<Rightarrow> ustr list" where
  "tidied max_lines raw =
     (let ds = dedup_lines [] (filter (\<lambda>l. py_strip l \<noteq> []) (splitlines raw))
      in if max_lines > 0 \<and> length ds > max_lines then last_n max_lines ds else ds)"

definition tidy :: "nat \<Rightarrow> pocket \<Rightarrow> pocket" where
  "tidy max_lines p =
     (case p of
        None \<Rightarrow> None
      | Some raw \<Rightarrow>
          if tidied max_lines raw \<noteq> filter (\<lambda>l. py_strip l \<noteq> []) (splitlines raw)
          then Some (join_lines (tidied max_lines raw) @ [10]) else Some raw)"

definition pocket_keys :: "pocket \<Rightarrow> ustr list" where
  "pocket_keys p = (case p of None \<Rightarrow> [] | Some raw \<Rightarrow> map normalize_line (splitlines raw))"

definition promote :: "nat \<Rightarrow> ustr \<Rightarrow> pocket \<Rightarrow> pocket" where
  "promote max_lines content p =
     (if normalize_line content \<in> set (pocket_keys p) then p
      else tidy max_lines (Some ((case p of None \<Rightarrow> [] | Some raw \<Rightarrow> raw) @ u ''- '' @ py_strip content @ [10])))"

record promote_config =
  pc_enabled :: bool
  pc_tags :: "ustr list"
  pc_triggers :: "ustr list"

text \<open>\<open>lower\<close> is the string method.\<close>

definition should_auto_promote :: "(ustr \<Rightarrow> ustr) \<Rightarrow> promote_config \<Rightarrow> ustr \<Rightarrow> ustr list \<Rightarrow> bool" where
  "should_auto_promote lower cfg content tags =
     (if \<not> pc_enabled cfg then False
      else if u ''promoted'' \<in> set tags \<or> u ''no-promote'' \<in> set tags then False
      else if list_ex (\<lambda>t. t \<in> set (map lower (pc_tags cfg))) (map lower tags) then True
      else list_ex (\<lambda>t. sublist (lower t) (lower content)) (pc_triggers cfg))"

record memory_read =
  mr_text :: ustr
  mr_found :: bool
  mr_truncated :: bool
  mr_limit :: int
  mr_loaded :: nat
  mr_total :: nat

text \<open>\<open>trim\<close> is \<open>_trim_to_section\<close>.\<close>

definition persona_memory :: "(ustr \<Rightarrow> int \<Rightarrow> ustr) \<Rightarrow> int option \<Rightarrow> pocket \<Rightarrow> memory_read" where
  "persona_memory trim max_chars f =
     (let limit = (case max_chars of None \<Rightarrow> 0 | Some n \<Rightarrow> n)
      in case f of
           None \<Rightarrow> \<lparr>mr_text = [], mr_found = False, mr_truncated = False, mr_limit = limit, mr_loaded = 0, mr_total = 0\<rparr>
         | Some raw \<Rightarrow>
             if limit \<noteq> 0 \<and> int (length raw) > limit
             then \<lparr>mr_text = trim raw limit, mr_found = length raw > 0, mr_truncated = True, mr_limit = limit,
                   mr_loaded = length (trim raw limit), mr_total = length raw\<rparr>
             else \<lparr>mr_text = raw, mr_found = length raw > 0, mr_truncated = False, mr_limit = limit,
                   mr_loaded = length raw, mr_total = length raw\<rparr>)"

definition promoted_memory :: "(ustr \<Rightarrow> int \<Rightarrow> ustr) \<Rightarrow> int option \<Rightarrow> pocket \<Rightarrow> memory_read" where
  "promoted_memory trim max_chars f =
     (let limit = (case max_chars of None \<Rightarrow> 1000 | Some n \<Rightarrow> if n = 0 then 1000 else n)
      in case f of
           None \<Rightarrow> \<lparr>mr_text = [], mr_found = False, mr_truncated = False, mr_limit = limit, mr_loaded = 0, mr_total = 0\<rparr>
         | Some raw \<Rightarrow>
             if int (length raw) > limit
             then \<lparr>mr_text = trim raw limit, mr_found = length raw > 0, mr_truncated = True, mr_limit = limit,
                   mr_loaded = length (trim raw limit), mr_total = length raw\<rparr>
             else \<lparr>mr_text = raw, mr_found = length raw > 0, mr_truncated = False, mr_limit = limit,
                   mr_loaded = length raw, mr_total = length raw\<rparr>)"

subsection \<open>Lines of the pocket\<close>

lemma splitlines_acc_append:
  "splitlines_acc acc (a @ 10 # y) = splitlines_acc acc (a @ [10]) @ splitlines_acc [] y"
proof (induction acc a rule: splitlines_acc.induct)
  case (1 acc)
  then show ?case by (cases y) (simp_all add: is_line_break_def)
next
  case (2 acc c)
  then show ?case by (cases y) (simp_all add: is_line_break_def)
next
  case (3 acc c d s)
  show ?case
  proof (cases "c = 13 \<and> d = 10")
    case True
    with 3(1) show ?thesis by simp
  next
    case False
    show ?thesis
    proof (cases "is_line_break c")
      case True
      from 3(2) [OF False True] show ?thesis unfolding append_Cons splitlines_acc.simps(3) if_not_P [OF False] if_P [OF True] by simp
    next
      case nb: False
      from 3(3) [OF False nb] show ?thesis unfolding append_Cons splitlines_acc.simps(3) if_not_P [OF False] if_not_P [OF nb] by simp
    qed
  qed
qed

lemma splitlines_append: "splitlines ((a @ [10]) @ y) = splitlines (a @ [10]) @ splitlines y"
  using splitlines_acc_append [of "[]" a y] by (simp add: splitlines_def)

lemma splitlines_join: "list_all unbroken ls \<Longrightarrow> ls \<noteq> [] \<Longrightarrow> splitlines (join_lines ls @ [10]) = ls"
  by (induction ls rule: join_lines.induct) (simp_all add: splitlines_line)

lemma dedup_lines_append:
  "normalize_line l \<noteq> [] \<Longrightarrow> normalize_line l \<notin> set seen \<union> normalize_line ` set ls \<Longrightarrow>
   dedup_lines seen (ls @ [l]) = dedup_lines seen ls @ [l]"
  by (induction seen ls rule: dedup_lines.induct) (auto simp: Let_def)

lemma dedup_lines_subset: "set (dedup_lines seen ls) \<subseteq> set ls"
  by (induction seen ls rule: dedup_lines.induct) (simp, simp add: Let_def split: if_split, blast)

lemma dedup_lines_fresh: "l \<in> set (dedup_lines seen ls) \<Longrightarrow> normalize_line l \<notin> set seen"
  by (induction seen ls rule: dedup_lines.induct) (simp, simp add: Let_def split: if_split_asm, blast)

lemma dedup_lines_distinct: "distinct (map normalize_line (dedup_lines seen ls))"
proof (induction seen ls rule: dedup_lines.induct)
  case (2 seen l ls)
  then show ?case using dedup_lines_fresh [of _ "normalize_line l # seen" ls] by (simp add: Let_def) fastforce
qed simp

lemma normalize_blank: "py_strip l = [] \<Longrightarrow> normalize_line l = []"
  by (simp add: normalize_line_def py_words_def)

lemma py_strip_ne_last: "py_strip c \<noteq> [] \<Longrightarrow> \<not> py_isspace (last (py_strip c)) \<and> \<not> py_isspace (hd (py_strip c))"
proof -
  assume ne: "py_strip c \<noteq> []"
  then have l: "lstrip_by py_isspace c \<noteq> []" by (auto simp: strip_by_def rstrip_by_def)
  obtain s where s: "lstrip_by py_isspace c = rstrip_by py_isspace (lstrip_by py_isspace c) @ s"
    using rstrip_by_prefix [of py_isspace "lstrip_by py_isspace c"] by (auto simp: prefix_def)
  have "hd (py_strip c) = hd (lstrip_by py_isspace c)" using ne s by (metis hd_append2 strip_by_def)
  moreover have "\<not> py_isspace (hd (lstrip_by py_isspace c))" using l unfolding lstrip_by_def by (rule hd_dropWhile)
  ultimately show ?thesis using last_rstrip_by [of py_isspace "lstrip_by py_isspace c"] ne by (simp add: strip_by_def)
qed

lemma normalize_bullet: "normalize_line (u ''- '' @ py_strip c) = normalize_line c"
proof (cases "py_strip c = []")
  case True
  have "py_strip [45, 32] = [45]" by (simp add: strip_by_def lstrip_by_def rstrip_by_def py_isspace_def)
  with True show ?thesis by (simp add: normalize_line_def u_def lstrip_by_def)
next
  case False
  note x = py_strip_ne_last [OF False]
  have dash: "\<not> py_isspace 45" "py_isspace 32" by (simp_all add: py_isspace_def)
  have "py_strip (45 # 32 # py_strip c) = 45 # 32 # py_strip c"
    unfolding strip_by_def [of _ "45 # 32 # _"]
    using x False dash by (subst lstrip_by_id, simp, subst rstrip_by_id) auto
  moreover have "py_lstrip (32 # py_strip c) = py_strip c"
    using x False dash by (cases "py_strip c") (auto simp: lstrip_by_def)
  ultimately show ?thesis by (simp add: normalize_line_def u_def)
qed

definition pocket_lines :: "ustr \<Rightarrow> ustr list" where
  "pocket_lines raw = filter (\<lambda>l. py_strip l \<noteq> []) (splitlines raw)"

lemma tidied_subset: "set (tidied m raw) \<subseteq> set (pocket_lines raw)"
proof -
  have d: "set (dedup_lines [] (pocket_lines raw)) \<subseteq> set (pocket_lines raw)" by (rule dedup_lines_subset)
  have "set (last_n m (dedup_lines [] (pocket_lines raw))) \<subseteq> set (dedup_lines [] (pocket_lines raw))"
    by (rule set_mono_suffix [OF last_n_suffix])
  with d show ?thesis unfolding tidied_def pocket_lines_def [symmetric] Let_def by (simp split: if_splits) blast
qed

lemma tidy_lines:
  assumes "tidied m raw \<noteq> []"
  shows "\<exists>raw'. tidy m (Some raw) = Some raw' \<and> pocket_lines raw' = tidied m raw"
proof (cases "tidied m raw = pocket_lines raw")
  case True
  then show ?thesis by (simp add: tidy_def pocket_lines_def [symmetric])
next
  case False
  have all: "\<forall>x \<in> set (tidied m raw). unbroken x \<and> py_strip x \<noteq> []"
    using tidied_subset [of m raw] splitlines_unbroken by (fastforce simp: pocket_lines_def)
  then have "list_all unbroken (tidied m raw)" by (simp only: list_all_iff [of unbroken]) blast
  from splitlines_join [OF this assms] all
  have "pocket_lines (join_lines (tidied m raw) @ [10]) = tidied m raw"
    by (simp add: pocket_lines_def filter_id_conv)
  with False show ?thesis by (simp add: tidy_def pocket_lines_def [symmetric])
qed

text \<open>A pocket whose last line is terminated.\<close>

definition terminated :: "pocket \<Rightarrow> bool" where
  "terminated p \<longleftrightarrow> (case p of None \<Rightarrow> True | Some raw \<Rightarrow> raw = [] \<or> last raw = 10)"

lemma promote_lines:
  assumes t: "terminated p" and c: "unbroken (py_strip content)" "normalize_line content \<noteq> []"
    and new: "normalize_line content \<notin> set (pocket_keys p)"
  shows "\<exists>raw. promote m content p = Some raw \<and> normalize_line (last (pocket_lines raw)) = normalize_line content
    \<and> pocket_lines raw \<noteq> [] \<and> distinct (map normalize_line (pocket_lines raw)) \<and> (0 < m \<longrightarrow> length (pocket_lines raw) \<le> m)"
proof -
  let ?old = "case p of None \<Rightarrow> [] | Some raw \<Rightarrow> raw" and ?l = "u ''- '' @ py_strip content"
  have ul: "unbroken ?l" using c(1) by (simp add: u_def) (simp add: is_line_break_def)
  have key: "normalize_line ?l = normalize_line content" by (rule normalize_bullet)
  have "splitlines (?old @ ?l @ [10]) = splitlines ?old @ [?l]"
  proof (cases "?old = []")
    case True
    then show ?thesis using splitlines_line [OF ul, of "[]"] by simp
  next
    case False
    then obtain a where a: "?old = a @ [10]" using t
      by (auto simp: terminated_def split: option.splits) (metis append_butlast_last_id)
    show ?thesis unfolding a splitlines_append using splitlines_line [OF ul, of "[]"] by simp
  qed
  moreover have "py_strip ?l \<noteq> []" using key c(2) normalize_blank by metis
  ultimately have lines: "pocket_lines (?old @ ?l @ [10]) = pocket_lines ?old @ [?l]" by (simp add: pocket_lines_def)
  have "normalize_line ?l \<notin> set [] \<union> normalize_line ` set (pocket_lines ?old)"
    using new key by (auto simp: pocket_keys_def pocket_lines_def split: option.splits)
  then have d: "dedup_lines [] (pocket_lines (?old @ ?l @ [10])) = dedup_lines [] (pocket_lines ?old) @ [?l]"
    unfolding lines using c(2) key by (intro dedup_lines_append) simp_all
  let ?t = "tidied m (?old @ ?l @ [10])"
  have t: "?t \<noteq> []" "last ?t = ?l" "distinct (map normalize_line ?t)" "0 < m \<longrightarrow> length ?t \<le> m"
  proof -
    have dd: "distinct (map normalize_line (dedup_lines [] (pocket_lines (?old @ ?l @ [10]))))"
      by (rule dedup_lines_distinct)
    have "distinct (map normalize_line (last_n m (dedup_lines [] (pocket_lines (?old @ ?l @ [10])))))"
      using dd by (simp add: last_n_def drop_map [symmetric])
    with dd show "?t \<noteq> []" "last ?t = ?l" "distinct (map normalize_line ?t)" "0 < m \<longrightarrow> length ?t \<le> m"
      unfolding tidied_def pocket_lines_def [symmetric] Let_def d
      by (auto simp: last_n_def last_drop split: if_splits)
  qed
  obtain raw' where r: "tidy m (Some (?old @ ?l @ [10])) = Some raw'" "pocket_lines raw' = ?t"
    using tidy_lines [OF t(1)] by blast
  have "promote m content p = Some raw'" using new r(1) by (simp add: promote_def)
  with r(2) t key show ?thesis by auto
qed

lemma pocket_key_of_line: "l \<in> set (pocket_lines raw) \<Longrightarrow> normalize_line l \<in> set (pocket_keys (Some raw))"
  by (auto simp: pocket_lines_def pocket_keys_def)

text \<open>
  Promoting a fact keeps the pocket tidy: in a pocket whose last line is terminated, promoting a
  one-line fact leaves it there (up to white space and bullets), promoting it again changes nothing, and a
  fact that was not there becomes the last of at most \<open>max_lines\<close> lines, no two of which are the same fact.
\<close>

theorem promoted_fact_is_kept_once:
  assumes "terminated p" and "unbroken (py_strip content)" and "normalize_line content \<noteq> []"
  shows "normalize_line content \<in> set (pocket_keys (promote m content p))
    \<and> promote m content (promote m content p) = promote m content p
    \<and> (normalize_line content \<in> set (pocket_keys p)
       \<or> (\<exists>raw. promote m content p = Some raw \<and> normalize_line (last (pocket_lines raw)) = normalize_line content
            \<and> distinct (map normalize_line (pocket_lines raw)) \<and> (m = 0 \<or> length (pocket_lines raw) \<le> m)))"
proof -
  have k: "normalize_line content \<in> set (pocket_keys (promote m content p))"
  proof (cases "normalize_line content \<in> set (pocket_keys p)")
    case False
    from promote_lines [OF assms False] obtain raw where "promote m content p = Some raw"
      "normalize_line (last (pocket_lines raw)) = normalize_line content" "pocket_lines raw \<noteq> []" by blast
    with pocket_key_of_line [of "last (pocket_lines raw)" raw] show ?thesis by simp
  qed (simp add: promote_def)
  then have "promote m content (promote m content p) = promote m content p" by (simp add: promote_def [of _ _ "promote m content p"])
  with k promote_lines [OF assms, of m] show ?thesis by blast
qed

theorem promoted_fact_is_kept_once_witness:
  "normalize_line (u ''tea'') \<in> set (pocket_keys (promote 20 (u ''tea'') (Some (u ''milk'' @ [10]))))"
proof -
  have "terminated (Some (u ''milk'' @ [10]))" by (simp add: terminated_def)
  moreover have "py_strip (u ''tea'') = u ''tea''"
    by (simp add: u_def strip_by_def lstrip_by_def rstrip_by_def py_isspace_def)
  then have "unbroken (py_strip (u ''tea''))" by (simp add: u_def is_line_break_def)
  moreover have "normalize_line (u ''tea'') \<noteq> []"
    by (simp add: u_def normalize_line_def strip_by_def lstrip_by_def rstrip_by_def py_isspace_def py_words_def)
  ultimately show ?thesis by (rule promoted_fact_is_kept_once [THEN conjunct1])
qed

text \<open>
  On a pocket that does not end with a line feed (a file edited by hand), the promoted fact is
  glued to the last line: the file then holds one line, the old one followed by the bullet and the new fact.
\<close>

theorem unterminated_pocket_glues_facts:
  assumes "unbroken y" and "unbroken (py_strip content)" and "normalize_line content \<noteq> normalize_line y"
    and "y \<noteq> []" and "normalize_line (y @ u ''- '' @ py_strip content) \<noteq> []"
  shows "promote m content (Some y) = Some (y @ u ''- '' @ py_strip content @ [10])
    \<and> splitlines (y @ u ''- '' @ py_strip content @ [10]) = [y @ u ''- '' @ py_strip content]"
proof -
  let ?l = "y @ u ''- '' @ py_strip content"
  have "unbroken (u ''- '')" by (simp add: u_def is_line_break_def)
  then have ul: "unbroken ?l" using assms(1,2) by simp
  have s: "splitlines (?l @ [10]) = [?l]" using splitlines_line [OF ul, of "[]"] by simp
  have "splitlines y = [y]"
  proof -
    have "splitlines_acc acc y = [rev acc @ y]" if "unbroken y" "y \<noteq> []" for acc y
      using that by (induction acc y rule: splitlines_acc.induct) (auto simp: is_line_break_def)
    with assms(1,4) show ?thesis by (simp add: splitlines_def)
  qed
  then have new: "normalize_line content \<notin> set (pocket_keys (Some y))" using assms(3) by (simp add: pocket_keys_def)
  have nb: "py_strip ?l \<noteq> []" using assms(5) normalize_blank by metis
  then have "tidied m (?l @ [10]) = [?l]" using s assms(5) by (cases "m = 0") (simp_all add: tidied_def Let_def)
  then have "tidy m (Some (?l @ [10])) = Some (?l @ [10])" using s nb by (simp add: tidy_def)
  with new s show ?thesis by (simp add: promote_def)
qed

theorem unterminated_pocket_glues_facts_witness:
  "promote 20 (u ''tea'') (Some (u ''milk'')) = Some (u ''milk- tea'' @ [10])"
proof -
  have st: "py_strip (u ''tea'') = u ''tea''" "py_strip (u ''milk'') = u ''milk''"
    by (simp_all add: u_def strip_by_def lstrip_by_def rstrip_by_def py_isspace_def)
  have n: "normalize_line (u ''tea'') = u ''tea''" "normalize_line (u ''milk'') = u ''milk''"
    "normalize_line (u ''milk'' @ u ''- '' @ py_strip (u ''tea'')) \<noteq> []"
    by (simp_all add: u_def normalize_line_def strip_by_def lstrip_by_def rstrip_by_def py_isspace_def py_words_def)
  have ub: "unbroken (u ''milk'')" "unbroken (py_strip (u ''tea''))"
    unfolding st by (simp_all add: u_def is_line_break_def)
  have ne: "normalize_line (u ''tea'') \<noteq> normalize_line (u ''milk'')" "u ''milk'' \<noteq> []"
    unfolding n by (simp_all add: u_def)
  from unterminated_pocket_glues_facts [THEN conjunct1, OF ub ne n(3)] st show ?thesis by (simp add: u_def)
qed

end
