(* ===== verification/PromptParts.thy ===== *)
theory PromptParts
  imports Planning TurnStream AcpLifecycle ShortTermMemory MemoryPockets SessionDirs
begin

section \<open>Parts of a prompt\<close>

text \<open>
  \<open>context/anchors.py\<close> (\<open>PromptAnchors\<close>), \<open>context/wake_context.py\<close> (\<open>WakeContext\<close>), \<open>context/reply_quote.py\<close>
  (\<open>ReplyQuoteFormatter\<close>), \<open>context/handoff.py\<close> and \<open>persona_composer.py\<close>: the texts that the prompt builder puts
  together.  \<open>str\<close> and \<open>str.lower\<close>, the classes of the trigger regex, the printing of percentages, ISO times and the
  clock are arguments; a file is its text, if it exists.
\<close>

subsection \<open>Sections and durations\<close>

text \<open>\<open>s[:n]\<close>, also for a negative bound.\<close>

definition py_upto :: "int \<Rightarrow> 'a list \<Rightarrow> 'a list" where
  "py_upto n s = (if 0 \<le> n then take (nat n) s else take (nat (int (length s) + n)) s)"

definition section_trim :: "ustr \<Rightarrow> int \<Rightarrow> ustr" where
  "section_trim text limit =
     (if int (length text) \<le> limit then text
      else let candidate = py_upto limit text;
               blank = rfind_sub [10, 10] candidate;
               nl = rfind_sub [10] candidate
           in if blank > 0 then take (nat blank) text
              else if nl > 0 then take (nat nl) text
              else candidate)"

definition compact_duration :: "secs \<Rightarrow> ustr" where
  "compact_duration s0 =
     (let n = nat \<lfloor>max s0 0\<rfloor>
      in if max s0 0 < 60 then str_of_nat n @ u ''s''
         else if max s0 0 < 3600
         then (if n mod 60 \<noteq> 0 then str_of_nat (n div 60) @ u ''m '' @ str_of_nat (n mod 60) @ u ''s'' else str_of_nat (n div 60) @ u ''m'')
         else let h = n div 3600; m = n mod 3600 div 60
              in if m \<noteq> 0 then str_of_nat h @ u ''h '' @ str_of_nat m @ u ''m'' else str_of_nat h @ u ''h'')"

subsection \<open>\<open>PromptAnchors\<close>\<close>

datatype rehydration = R_none | R_resumed | R_stale | R_timeout | R_transport_error | R_restart | R_fresh

fun reason_value :: "rehydration \<Rightarrow> ustr" where
  "reason_value R_none = u ''none''" | "reason_value R_resumed = u ''resumed''" | "reason_value R_stale = u ''stale''"
| "reason_value R_timeout = u ''timeout''" | "reason_value R_transport_error = u ''transport_error''"
| "reason_value R_restart = u ''restart''" | "reason_value R_fresh = u ''fresh''"

fun rehydration_notice :: "rehydration \<Rightarrow> ustr" where
  "rehydration_notice R_none = []"
| "rehydration_notice R_resumed = u ''Resumed ACP session. The conversation history is intact.''"
| "rehydration_notice R_stale =
     u ''This ACP session was rehydrated. Full persona memory and long-term chat memory have been re-injected into the prompt.''"
| "rehydration_notice R_timeout = u ''The previous turn stopped due to a hard timeout. A fresh ACP session is being used.''"
| "rehydration_notice R_transport_error =
     u ''The ACP transport was restarted due to an error. A fresh ACP session is being used.''"
| "rehydration_notice R_restart = u ''The ACP transport was restarted. A fresh ACP session is being used.''"
| "rehydration_notice R_fresh =
     u ''Fresh ACP session for context pressure. Persona memory is compacted and long-term recall is skipped.''"

definition quoted :: "string \<Rightarrow> ustr" where
  "quoted s = [34] @ u s @ [34]"

text \<open>The first line of the user's message stands for a missing intent; a blank message has none, and raises.\<close>

definition anchor_intent :: "partial_turn \<Rightarrow> py_exn + ustr" where
  "anchor_intent p =
     (let intent = py_strip (pt_current_intent p)
      in if intent = [] \<and> pt_user_message p \<noteq> []
         then (case splitlines (py_strip (pt_user_message p)) of [] \<Rightarrow> Inl IndexError | l # _ \<Rightarrow> Inr (take 120 l))
         else Inr intent)"

definition str_or :: "(json \<Rightarrow> ustr) \<Rightarrow> string \<Rightarrow> json option \<Rightarrow> ustr" where
  "str_or fmt dflt v = (case v of None \<Rightarrow> u dflt | Some j \<Rightarrow> if truthy j then fmt j else u dflt)"

text \<open>A line of the tool trace; an entry that is no object, or a time that is no number, raises.\<close>

definition trace_line :: "(json \<Rightarrow> ustr) \<Rightarrow> secs \<Rightarrow> json \<Rightarrow> py_exn + ustr" where
  "trace_line fmt now j =
     (case j of
        JObj e \<Rightarrow>
          (case (case dget (u ''at'') e of
                   None \<Rightarrow> Inr []
                 | Some t \<Rightarrow> if \<not> truthy t then Inr []
                             else (case as_num t of None \<Rightarrow> Inl TypeError | Some r \<Rightarrow> Inr (compact_duration (now - r)))) of
             Inl x \<Rightarrow> Inl x
           | Inr age \<Rightarrow> Inr (u ''- '' @ str_or fmt ''tool'' (dget (u ''title'') e) @ u '' ('' @ str_or fmt ''running'' (dget (u ''status'') e) @ u '')'' @
                              (if age \<noteq> [] then u '' ('' @ age @ u '' ago)'' else [])))
      | _ \<Rightarrow> Inl AttributeError)"

fun trace_lines :: "(json \<Rightarrow> ustr) \<Rightarrow> secs \<Rightarrow> json list \<Rightarrow> py_exn + ustr list" where
  "trace_lines fmt now [] = Inr []"
| "trace_lines fmt now (j # js) =
     (case trace_line fmt now j of
        Inl e \<Rightarrow> Inl e
      | Inr l \<Rightarrow> (case trace_lines fmt now js of Inl e \<Rightarrow> Inl e | Inr ls \<Rightarrow> Inr (l # ls)))"

definition capped_text :: "string \<Rightarrow> int \<Rightarrow> ustr \<Rightarrow> ustr list" where
  "capped_text label cap s0 =
     (let s = py_strip s0; t = section_trim s cap
      in if s = [] then []
         else [u label @ [10, 10] @ t @ (if length t < length s then [10, 10] @ u ''[... truncated ...]'' else [])])"

definition interrupted_turn_anchor ::
  "(json \<Rightarrow> ustr) \<Rightarrow> int \<Rightarrow> int \<Rightarrow> secs \<Rightarrow> partial_turn option \<Rightarrow> rehydration option \<Rightarrow> py_exn + ustr option" where
  "interrupted_turn_anchor fmt message_cap thought_cap now partial reason =
     (case partial of
        None \<Rightarrow> Inr None
      | Some p \<Rightarrow>
          (case anchor_intent p of
             Inl e \<Rightarrow> Inl e
           | Inr intent \<Rightarrow>
               if intent = [] \<and> pt_last_side_effect p = [] \<and> pt_message_text p = [] \<and> pt_thought_text p = [] \<and> pt_side_effects p = []
               then Inr None
               else (case trace_lines fmt now (last_n 8 (pt_side_effects p)) of
                       Inl e \<Rightarrow> Inl e
                     | Inr ls \<Rightarrow>
                         let header = u ''The current assistant turn was interrupted'' @
                                (case reason of Some r \<Rightarrow> if r \<noteq> R_none then u '' ('' @ reason_value r @ u '')'' else [] | None \<Rightarrow> []) @ u ''.'';
                             effect = py_strip (pt_last_side_effect p);
                             age = (if pt_last_side_effect_at p \<noteq> 0 then compact_duration (now - pt_last_side_effect_at p) else [])
                         in Inr (Some (join_blank
                              ([header]
                               @ (if intent \<noteq> [] then [u ''Current intent: '' @ intent] else [])
                               @ (if effect \<noteq> [] then [u ''Last activity: '' @ effect @ (if age \<noteq> [] then u '' ('' @ age @ u '' ago)'' else [])] else [])
                               @ (if pt_side_effects p \<noteq> [] then [u ''Tool trace before interruption:'' @ [10] @ join_lines ls] else [])
                               @ capped_text ''Partial reply produced so far:'' message_cap (pt_message_text p)
                               @ capped_text ''Partial thought so far:'' thought_cap (pt_thought_text p)))))))"

text \<open>\<open>keep\<close> are the characters the trigger regex does not remove.\<close>

definition normalize_trigger :: "(ustr \<Rightarrow> ustr) \<Rightarrow> (nat \<Rightarrow> bool) \<Rightarrow> ustr \<Rightarrow> ustr" where
  "normalize_trigger lower keep s = lower (py_strip (filter keep s))"

definition is_continuation_message :: "(ustr \<Rightarrow> ustr) \<Rightarrow> (nat \<Rightarrow> bool) \<Rightarrow> ustr list \<Rightarrow> ustr \<Rightarrow> bool" where
  "is_continuation_message lower keep triggers msg =
     (let n = normalize_trigger lower keep msg in n \<noteq> [] \<and> n \<in> set (map (normalize_trigger lower keep) triggers))"

definition continuation_text :: "ustr \<Rightarrow> ustr option" where
  "continuation_text stop =
     (if stop = u ''timeout''
      then Some (u ''The previous assistant turn was interrupted by the hard time limit and did not produce a final response. The user has sent '' @
        quoted ''Continue'' @ u ''. Resume the task from the conversation context above. If the context is insufficient, ask the user for the missing piece.'')
      else if stop = u ''cancelled''
      then Some (u ''The previous assistant turn was interrupted (cancelled or soft timeout). The user has sent '' @
        quoted ''Continue'' @ u ''. Pick up the task from the partial result above and continue where you left off.'')
      else if stop = u ''stopped''
      then Some (u ''The previous assistant turn was stopped by the user. The user has sent '' @ quoted ''Continue'' @
        u ''. If they want you to resume, pick up the task from the partial result above and continue where you left off.'')
      else None)"

definition continuation_anchor :: "(ustr \<Rightarrow> bool) \<Rightarrow> session_record option \<Rightarrow> ustr \<Rightarrow> ustr option" where
  "continuation_anchor is_continuation r msg =
     (case Option.bind r sr_last_stop_reason of
        None \<Rightarrow> None
      | Some stop \<Rightarrow> if is_continuation msg then continuation_text stop else None)"

fun dispatch_status_value :: "dispatch_status \<Rightarrow> ustr" where
  "dispatch_status_value D_PENDING = u ''pending''" | "dispatch_status_value D_COMPLETED = u ''completed''"
| "dispatch_status_value D_FAILED = u ''failed''" | "dispatch_status_value D_TIMEOUT = u ''timeout''"
| "dispatch_status_value D_CANCELLED = u ''cancelled''"

definition dispatch_status_name :: "dispatch \<Rightarrow> ustr" where
  "dispatch_status_name d =
     (if dp_status d = D_TIMEOUT \<or> dp_status d = D_CANCELLED then dispatch_status_value (dp_status d)
      else case dp_stop_reason d of
             Some s \<Rightarrow>
               if s \<in> {u ''timeout'', u ''cancelled'', u ''failed''} then s
               else if dp_status d = D_PENDING
               then (if truthy_text (dp_result d) \<or> dp_finished_at d \<noteq> None then u ''completed'' else u ''running'')
               else dispatch_status_value (dp_status d)
           | None \<Rightarrow>
               if dp_status d = D_PENDING
               then (if truthy_text (dp_result d) \<or> dp_finished_at d \<noteq> None then u ''completed'' else u ''running'')
               else dispatch_status_value (dp_status d))"

text \<open>\<open>x or y\<close> on a time.\<close>

definition time_or :: "secs \<Rightarrow> secs option \<Rightarrow> secs" where
  "time_or d t = (case t of None \<Rightarrow> d | Some x \<Rightarrow> if x = 0 then d else x)"

definition build_dispatch_continuation :: "(ustr \<Rightarrow> ustr \<Rightarrow> ustr) \<Rightarrow> secs \<Rightarrow> dispatch \<Rightarrow> ustr" where
  "build_dispatch_continuation result_file now d =
     (let status = dispatch_status_name d;
          duration = human_duration (max 0 (time_or now (dp_finished_at d) - time_or 0 (dp_started_at d)));
          summary = (case nonempty_opt (dp_summary d) of Some s \<Rightarrow> s | None \<Rightarrow> u ''(no summary)'');
          path = (case nonempty_opt (dp_full_result_path d) of
                    Some p \<Rightarrow> p
                  | None \<Rightarrow> result_file (if dp_chat_id d = [] then u ''unknown'' else dp_chat_id d) (dp_id d))
      in join_lines
           ([u ''## Subagent result'', [], u ''- **status:** '' @ status, u ''- **duration:** '' @ duration, u ''- **summary:** '' @ summary,
             u ''- **full_result_path:** '' @ path]
            @ (case nonempty_opt (dp_context d) of Some c \<Rightarrow> [u ''- **context:** '' @ c] | None \<Rightarrow> [])
            @ (if status = u ''timeout'' \<or> status = u ''cancelled''
               then [[], u ''The subagent stopped because '' @ u (if status = u ''timeout'' then ''it ran out of time'' else ''it was cancelled'') @
                         u ''. The summary below is partial.'']
               else [])
            @ [[], u ''Please continue and present the result to the user.'']))"

subsection \<open>\<open>WakeContext\<close>\<close>

text \<open>What the last wake-relevant event says; other events say nothing.\<close>

definition wake_note :: "ustr \<Rightarrow> ustr \<Rightarrow> ustr option" where
  "wake_note ev reason =
     (if ev = u ''transport.restart'' \<and> reason = u ''mcp_change'' then Some (u ''I restarted a moment ago so a new tool could load.'')
      else if ev = u ''rehydrate.transport_restart_failure'' \<or> mentions ''restart'' ev \<and> mentions ''failure'' ev
      then Some (u ''I had trouble restarting the ACP transport and rebuilt from files.'')
      else if mentions ''restart'' ev then Some (u ''I restarted a moment ago; the thread is intact.'')
      else if ev \<in> {u ''session.resume.success'', u ''session.load.success'', u ''rehydrate.resume.success''}
      then Some (u ''I resumed the previous session; the thread continues.'')
      else if ev = u ''rehydrate.session_alive.success'' then Some (u ''The previous session was still alive; I picked up where we left off.'')
      else if ev = u ''rehydrate.timeout'' \<or> reason = u ''timeout'' then Some (u ''I am waking up after a hard timeout.'')
      else if ev = u ''rehydrate.start'' then Some (u ''I am waking up and rehydrating my state.'')
      else if ev \<in> {u ''session.new'', u ''session.new.success'', u ''rehydrate.new_session.success''}
      then Some (u ''I woke in a fresh session; earlier memory is loaded.'')
      else None)"

definition silence_note :: "(ustr \<Rightarrow> secs option) \<Rightarrow> ustr \<Rightarrow> session_record option \<Rightarrow> ustr list" where
  "silence_note fromiso ts r =
     (case r of
        None \<Rightarrow> []
      | Some x \<Rightarrow>
          if ts = [] \<or> sr_updated_at x = 0 then []
          else (case fromiso ts of
                  None \<Rightarrow> []
                | Some w \<Rightarrow> if w - sr_updated_at x > 1 then [u ''I was silent for '' @ compact_duration (w - sr_updated_at x) @ u ''.''] else []))"

definition stop_note :: "session_record option \<Rightarrow> ustr list \<Rightarrow> ustr list" where
  "stop_note r notes =
     (case Option.bind r (\<lambda>x. nonempty_opt (sr_last_stop_reason x)) of
        None \<Rightarrow> []
      | Some stop \<Rightarrow>
          if stop \<in> {u ''completed'', u ''new_session''} then []
          else if stop = u ''timeout'' \<and> list_ex (mentions ''hard timeout'') notes then []
          else if \<not> list_ex (sublist stop) notes then [u ''The previous turn stopped with reason: '' @ stop @ u ''.'']
          else [])"

definition wake_narrative :: "(ustr \<Rightarrow> secs option) \<Rightarrow> lifecycle_event option \<Rightarrow> session_record option \<Rightarrow> ustr" where
  "wake_narrative fromiso event r =
     (case event of
        None \<Rightarrow> []
      | Some e \<Rightarrow>
          (case wake_note (le_event e) (case le_reason e of None \<Rightarrow> [] | Some x \<Rightarrow> x) of
             None \<Rightarrow> []
           | Some note \<Rightarrow>
               let notes = [note] @ silence_note fromiso (le_timestamp e) r;
                   notes2 = notes @ stop_note r notes
               in join_spaces (notes2 @ (case nonempty_opt (le_session_id e) of None \<Rightarrow> [] | Some s \<Rightarrow> [u ''Session: '' @ s @ u ''.'']))))"

definition last_wake_event :: "ustr \<Rightarrow> lifecycle_log option \<Rightarrow> py_exn + lifecycle_event option" where
  "last_wake_event chat l = (case l of None \<Rightarrow> Inr None | Some lg \<Rightarrow> last_wake_event_for chat lg)"

definition compact_wake_state_line :: "session_record option \<Rightarrow> ustr" where
  "compact_wake_state_line r =
     (case r of
        None \<Rightarrow> []
      | Some x \<Rightarrow> u ''Last turn: session '' @ str_of_int (sr_session_number x) @ u '', turn '' @ str_of_int (sr_turn_number x) @ u '', '' @
                  (case nonempty_opt (sr_last_stop_reason x) of None \<Rightarrow> u ''completed'' | Some s \<Rightarrow> s) @ u ''.'')"

text \<open>\<open>fmt1\<close> prints with one decimal.\<close>

definition wake_context_budget_line :: "(real \<Rightarrow> ustr) \<Rightarrow> int \<Rightarrow> ustr \<Rightarrow> int \<Rightarrow> ustr option" where
  "wake_context_budget_line fmt1 budget mode estimated =
     (if budget = 0 then None
      else Some (u ''[Wake context budget: '' @ str_of_int estimated @ u ''/'' @ str_of_int budget @ u '' tokens ('' @
             fmt1 (min (of_int estimated / of_int budget) (999 / 100) * 100) @ u ''%); mode: '' @ mode @ u '']''))"

subsection \<open>\<open>ReplyQuoteFormatter\<close>\<close>

definition truncated_marker :: "int \<Rightarrow> ustr" where
  "truncated_marker n = [10, 10] @ u ''[... '' @ str_of_int n @ u '' characters truncated ...]''"

definition trim_reply_quote_to :: "ustr \<Rightarrow> int \<Rightarrow> ustr" where
  "trim_reply_quote_to q limit =
     (if q = [] \<or> limit \<le> 0 then []
      else if int (length q) \<le> limit then q
      else let t = section_trim q (limit - 30) in t @ truncated_marker (int (length q) - int (length t)))"

record quote_config =
  qc_max_reply :: int
  qc_max_bot_reply :: int

record user_message =
  um_raw :: ustr
  um_reply_to :: "ustr option"
  um_is_bot :: "bool option"
  um_message_id :: "int option"
  um_chat :: "ustr option"

text \<open>The label and the quote of a registered message; fields of another type are outside the model.\<close>

definition registered_quote :: "(json \<Rightarrow> ustr) \<Rightarrow> (ustr, json) dict \<Rightarrow> py_exn + ustr \<times> ustr" where
  "registered_quote fmt e =
     (case (dget (u ''preview'') e, dget (u ''original_length'') e) of
        (p, l) \<Rightarrow>
          (case (case p of None \<Rightarrow> Some [] | Some (JStr s) \<Rightarrow> Some s | _ \<Rightarrow> None) of
             None \<Rightarrow> Inl Unmodelled
           | Some preview \<Rightarrow>
               (case (case l of None \<Rightarrow> Some (int (length preview)) | Some (JInt i) \<Rightarrow> Some i | _ \<Rightarrow> None) of
                  None \<Rightarrow> Inl Unmodelled
                | Some len \<Rightarrow>
                    let label = u ''[In reply to the assistant'' @ [39] @ u ''s earlier message'' @
                          (case (dget (u ''session_number'') e, dget (u ''turn_number'') e) of
                             (Some a, Some b) \<Rightarrow>
                               if a \<noteq> JNull \<and> b \<noteq> JNull then u '' (session '' @ fmt a @ u '', turn '' @ fmt b @ u '')'' else []
                           | _ \<Rightarrow> []) @ u '':]''
                    in Inr (label, if preview = [] then []
                                   else preview @ (if len > int (length preview) then truncated_marker (len - int (length preview)) else [])))))"

definition quote_limit :: "quote_config \<Rightarrow> bool option \<Rightarrow> int" where
  "quote_limit cfg by_bot = (if by_bot = Some True then qc_max_bot_reply cfg else qc_max_reply cfg)"

definition quote_label :: "bool option \<Rightarrow> ustr" where
  "quote_label by_bot =
     (case by_bot of
        Some True \<Rightarrow> u ''[In reply to the assistant'' @ [39] @ u ''s earlier message:]''
      | Some False \<Rightarrow> u ''[In reply to your earlier message:]''
      | None \<Rightarrow> u ''[In reply to an earlier message:]'')"

definition truthy_id :: "int option \<Rightarrow> bool" where
  "truthy_id i \<longleftrightarrow> i \<noteq> None \<and> i \<noteq> Some 0"

text \<open>\<open>registry\<close> loads the messages of the chat.\<close>

definition format_message_impl ::
  "(json \<Rightarrow> ustr) \<Rightarrow> quote_config \<Rightarrow> (ustr \<Rightarrow> py_exn + (json, (ustr, json) dict) dict) \<Rightarrow> user_message \<Rightarrow> py_exn + ustr" where
  "format_message_impl fmt cfg registry m =
     (if \<not> truthy_text (um_reply_to m) \<and> \<not> truthy_id (um_message_id m) then Inr (um_raw m)
      else case (if truthy_id (um_message_id m) \<and> truthy_text (um_chat m)
                 then (case registry (the (um_chat m)) of
                         Inl e \<Rightarrow> Inl e
                       | Inr d \<Rightarrow> (case dget (JInt (the (um_message_id m))) d of
                                     None \<Rightarrow> Inr ([], [])
                                   | Some e \<Rightarrow> if e = [] then Inr ([], []) else registered_quote fmt e))
                 else Inr ([], [])) of
             Inl e \<Rightarrow> Inl e
           | Inr (label0, quote0) \<Rightarrow>
               let named = (quote0 = [] \<and> truthy_text (um_reply_to m));
                   label = (if named then quote_label (um_is_bot m) else label0);
                   quote = (if named then trim_reply_quote_to (py_strip (the (um_reply_to m))) (quote_limit cfg (um_is_bot m)) else quote0)
               in if quote = [] \<and> \<not> truthy_id (um_message_id m) then Inr (um_raw m)
                  else if quote \<noteq> [] then Inr (label @ [10] @ quote @ [10, 10] @ u ''[Your new message:]'' @ [10] @ um_raw m)
                  else Inr (label @ [10, 10] @ u ''[Your new message:]'' @ [10] @ um_raw m))"

text \<open>The plugin hook gets the formatter; it returns the message it wants and the raw one.\<close>

definition format_user_message ::
  "(json \<Rightarrow> ustr) \<Rightarrow> quote_config \<Rightarrow> (ustr \<Rightarrow> py_exn + (json, (ustr, json) dict) dict) \<Rightarrow>
   ((user_message \<Rightarrow> py_exn + ustr) \<Rightarrow> user_message \<Rightarrow> py_exn + ustr option \<times> ustr) option \<Rightarrow> user_message \<Rightarrow> py_exn + ustr" where
  "format_user_message fmt cfg registry hook m =
     (case (um_chat m, hook) of
        (Some c, Some h) \<Rightarrow>
          (case h (format_message_impl fmt cfg registry) m of
             Inl e \<Rightarrow> Inl e
           | Inr (formatted, raw) \<Rightarrow> Inr (case nonempty_opt formatted of Some s \<Rightarrow> s | None \<Rightarrow> raw))
      | _ \<Rightarrow> format_message_impl fmt cfg registry m)"

end
