(* ===== verification/PromptSlots.thy ===== *)
theory PromptSlots
  imports PromptParts Routing
begin

section \<open>Slots of a prompt\<close>

text \<open>
  \<open>persona_composer.py\<close> and the slot machinery of \<open>context/builder.py\<close> (\<open>ContextBuilder\<close>): the order of the slots, the
  allow and deny lists and caps of a persona, the trimming of a prompt to the wake budget, the chat-memory
  block and the notices.  Slots are an ordered dict from names to lists of texts.  Printing with one or two decimals, \<open>str\<close> of a
  JSON value, the files and their times, the skill manager and the token estimate are arguments.
\<close>

subsection \<open>The persona\<close>

record persona_config =
  pn_name :: ustr
  pn_root :: ustr
  pn_fleet_root :: ustr  \<comment> \<open>\<open>fleet_root\<close> or the parent of the root\<close>
  pn_memory_filename :: ustr

definition slash :: "ustr \<Rightarrow> ustr \<Rightarrow> ustr" where
  "slash a b = a @ [47] @ b"

definition shared_file :: "persona_config \<Rightarrow> ustr" where
  "shared_file c = slash (pn_fleet_root c) (u ''shared/AGENTS.md'')"

definition file_section :: "(ustr \<Rightarrow> ustr option) \<Rightarrow> ustr \<Rightarrow> ustr \<Rightarrow> ustr list" where
  "file_section files title path = (case files path of None \<Rightarrow> [] | Some t \<Rightarrow> [u ''## '' @ title @ [10, 10] @ t])"

definition compose_persona :: "(ustr \<Rightarrow> ustr option) \<Rightarrow> persona_config \<Rightarrow> py_exn + ustr" where
  "compose_persona files c =
     (let parts = file_section files (u ''SOUL'') (slash (pn_root c) (u ''SOUL.md'')) @
                  file_section files (u ''AGENTS'') (slash (pn_root c) (u ''AGENTS.md'')) @
                  file_section files (u ''Fleet shared AGENTS'') (shared_file c)
      in if parts = [] then Inl FileNotFoundError else Inr (join_blank (map py_strip parts)))"

definition identity_anchor :: "(ustr \<Rightarrow> ustr option) \<Rightarrow> persona_config \<Rightarrow> ustr" where
  "identity_anchor files c =
     join_lines ([u ''You are '' @ pn_name c @ u ''. Your full identity is in:'']
       @ map (\<lambda>p. u ''- '' @ p) (filter (\<lambda>p. files p \<noteq> None)
           [slash (pn_root c) (u ''SOUL.md''), slash (pn_root c) (u ''AGENTS.md''), shared_file c, slash (pn_root c) (pn_memory_filename c)])
       @ [u ''Follow them.''])"

subsection \<open>Slots\<close>

type_synonym slots = "(ustr, ustr list) dict"

definition SOUL_SLOTS :: "ustr list" where
  "SOUL_SLOTS = map u [''self_narrative'', ''self_state'', ''body'', ''authorship'', ''wake'', ''bridge'', ''mesh'', ''promoted'']"

definition PROMPT_REQUIRED_SLOTS :: "ustr list" where
  "PROMPT_REQUIRED_SLOTS = map u [''identity'', ''system_notice'', ''user'', ''continuation'']"

definition PROTECTED_SLOTS :: "ustr list" where
  "PROTECTED_SLOTS = PROMPT_REQUIRED_SLOTS @ SOUL_SLOTS"

definition COMPACT_REASONS :: "rehydration list" where
  "COMPACT_REASONS = [R_fresh, R_restart, R_timeout, R_transport_error]"

definition PROMPT_SLOT_ORDER :: "ustr list" where
  "PROMPT_SLOT_ORDER = map u [''identity'', ''self_narrative'', ''system_notice'', ''memory'', ''promoted'', ''recall'', ''chat_memory'',
     ''persistent_memory'', ''bridge'', ''checkpoint'', ''wake'', ''working_memory'', ''body'', ''self_state'', ''authorship'', ''mesh'',
     ''metrics'', ''cron'', ''skills'', ''continuation'', ''user'']"

definition WAKE_TRIM_STEPS :: "ustr list list" where
  "WAKE_TRIM_STEPS = map (map u) [[''metrics''], [''memory'', ''chat_memory'', ''persistent_memory''], [''recall'', ''working_memory'', ''checkpoint'']]"

definition slot_texts :: "slots \<Rightarrow> ustr \<Rightarrow> ustr list" where
  "slot_texts s k = (case dget k s of None \<Rightarrow> [] | Some xs \<Rightarrow> xs)"

definition render_slots :: "slots \<Rightarrow> ustr" where
  "render_slots s = join_blank (concat (map (slot_texts s) PROMPT_SLOT_ORDER))"

record blocks_config =
  bl_allow :: "ustr list"
  bl_deny :: "ustr list"
  bl_caps :: "(ustr, int) dict"

definition slot_allowed :: "blocks_config \<Rightarrow> ustr list \<Rightarrow> ustr \<Rightarrow> bool" where
  "slot_allowed cfg force k \<longleftrightarrow>
     (bl_allow cfg = [] \<or> k \<in> set (bl_allow cfg) \<or> k \<in> set force \<or> k \<in> set PROMPT_REQUIRED_SLOTS)
     \<and> \<not> (k \<in> set (bl_deny cfg) \<and> k \<notin> set PROMPT_REQUIRED_SLOTS)"

definition capped_slot :: "blocks_config \<Rightarrow> ustr \<Rightarrow> ustr list \<Rightarrow> slots" where
  "capped_slot cfg k xs =
     (case dget k (bl_caps cfg) of
        None \<Rightarrow> [(k, xs)]
      | Some cap \<Rightarrow>
          let joined = join_blank xs; t = section_trim joined cap
          in if xs = [] \<or> int (length joined) \<le> cap then [(k, xs)]
             else if t \<noteq> [] then [(k, [t])] else [])"

definition apply_prompt_blocks :: "blocks_config \<Rightarrow> ustr list \<Rightarrow> slots \<Rightarrow> slots" where
  "apply_prompt_blocks cfg force s =
     (if bl_allow cfg = [] \<and> bl_deny cfg = [] \<and> bl_caps cfg = [] then s
      else concat (map (\<lambda>(k, xs). if slot_allowed cfg force k then capped_slot cfg k xs else []) s))"

subsection \<open>The wake budget\<close>

definition clear_slots :: "(ustr \<Rightarrow> bool) \<Rightarrow> slots \<Rightarrow> slots" where
  "clear_slots P s = map (\<lambda>(k, xs). (k, if P k then [] else xs)) s"

definition clear_step :: "ustr list \<Rightarrow> slots \<Rightarrow> slots" where
  "clear_step st = clear_slots (\<lambda>k. k \<in> set st \<and> k \<notin> set PROTECTED_SLOTS)"

definition drop_optional :: "slots \<Rightarrow> slots" where
  "drop_optional = clear_slots (\<lambda>k. k \<notin> set PROMPT_REQUIRED_SLOTS)"

fun trim_steps :: "(ustr \<Rightarrow> py_exn + int) \<Rightarrow> int \<Rightarrow> ustr list list \<Rightarrow> slots \<Rightarrow> py_exn + slots" where
  "trim_steps est budget [] s = Inr (drop_optional s)"
| "trim_steps est budget (st # sts) s =
     (case est (render_slots (clear_step st s)) of
        Inl e \<Rightarrow> Inl e
      | Inr n \<Rightarrow> if n \<le> budget then Inr (clear_step st s) else trim_steps est budget sts (clear_step st s))"

definition trim_slots_to_budget :: "(ustr \<Rightarrow> py_exn + int) \<Rightarrow> int \<Rightarrow> slots \<Rightarrow> py_exn + slots \<times> ustr" where
  "trim_slots_to_budget est budget s =
     (case est (render_slots s) of
        Inl e \<Rightarrow> Inl e
      | Inr n \<Rightarrow> if n \<le> budget then Inr (s, render_slots s)
                 else map_sum id (\<lambda>t. (t, render_slots t)) (trim_steps est budget WAKE_TRIM_STEPS s))"

subsection \<open>Memory, metrics and notices\<close>

record recall_result =
  rr_text :: ustr
  rr_truncated :: bool
  rr_limit :: int
  rr_loaded :: int
  rr_total :: int

record memory_status =
  ms_path :: "ustr option"
  ms_limit :: int
  ms_total :: int
  ms_exceeded :: bool

record persona_prompt =
  pp_text :: ustr
  pp_memory_text :: ustr
  pp_truncated :: bool
  pp_path :: "ustr option"
  pp_limit :: int
  pp_loaded :: int
  pp_total :: int

definition path_name :: "ustr \<Rightarrow> ustr" where
  "path_name p = drop (nat (rfind_sub [47] p + 1)) p"

text \<open>The sibling \<open><stem>_archive<suffix>\<close> of a file.\<close>

definition archive_name :: "ustr \<Rightarrow> ustr" where
  "archive_name p =
     (let n = path_name p; i = rfind_sub [46] n
      in if 0 < i \<and> i < int (length n) - 1 then take (nat i) n @ u ''_archive'' @ drop (nat i) n else n @ u ''_archive'')"

definition archive_path :: "ustr \<Rightarrow> ustr" where
  "archive_path p = take (length p - length (path_name p)) p @ archive_name p"

definition chat_memory_summary :: "memory_status \<Rightarrow> ustr option" where
  "chat_memory_summary st =
     (if ms_total st = 0 then None
      else Some (str_of_int (ms_total st) @ u '' bytes in '' @ (case ms_path st of None \<Rightarrow> u ''chat memory'' | Some p \<Rightarrow> path_name p) @
             u ''. Say `/memory` or a memory phrase to recall the full history.''))"

definition combined_chat_memory_block :: "ustr \<Rightarrow> ustr \<Rightarrow> ustr option \<Rightarrow> ustr option \<times> ustr option" where
  "combined_chat_memory_block recalled short_term chat_mem =
     (let parts = (if recalled \<noteq> [] then [u ''### Recalled'' @ [10, 10] @ recalled] else []) @
                  (if short_term \<noteq> [] then [u ''### Recent turns'' @ [10, 10] @ short_term] else []);
          disk = map_option (\<lambda>m. u ''### On disk'' @ [10, 10] @ m) (nonempty_opt chat_mem)
      in if parts = [] then (None, map_option (\<lambda>d. u ''## Chat memory'' @ [10, 10] @ d) disk)
         else (Some (u ''## Chat memory'' @ [10, 10] @ join_blank parts), disk))"

definition strip_recall_heading :: "ustr \<Rightarrow> ustr" where
  "strip_recall_heading t =
     (let p = u ''Memory from previous turns:'' @ [10, 10] in if take (length p) t = p then drop (length p) t else t)"

definition format_system_notice :: "ustr list \<Rightarrow> bool \<Rightarrow> ustr" where
  "format_system_notice parts brief = (if brief then join_spaces parts else u ''## System notice'' @ [10, 10] @ join_blank parts)"

definition archive_lines :: "(ustr \<Rightarrow> bool) \<Rightarrow> ustr option \<Rightarrow> ustr list" where
  "archive_lines exists_file p =
     (case nonempty_opt p of
        None \<Rightarrow> []
      | Some p \<Rightarrow> if exists_file (archive_path p)
                  then [u ''Older chat memory sections were moved to '' @ archive_name p @ u ''; read that file for the archived history.''] else [])"

definition trimmed_to :: "int \<Rightarrow> int \<Rightarrow> int \<Rightarrow> ustr" where
  "trimmed_to loaded full limit =
     u '' was trimmed to '' @ str_of_int loaded @ u '' of '' @ str_of_int full @ u '' characters (limit: '' @ str_of_int limit @ u '').''"

definition shown_path :: "ustr option \<Rightarrow> ustr" where
  "shown_path p = (case p of None \<Rightarrow> u ''None'' | Some s \<Rightarrow> s)"

definition build_system_notice :: "(ustr \<Rightarrow> bool) \<Rightarrow> persona_prompt \<Rightarrow> recall_result \<Rightarrow> memory_status \<Rightarrow> ustr option" where
  "build_system_notice exists_file p r st =
     (let ls = (if pp_truncated p then [u ''Persona memory ('' @ shown_path (pp_path p) @ u '')'' @ trimmed_to (pp_loaded p) (pp_total p) (pp_limit p)] else []) @
               (if rr_truncated r
                then [u ''Chat memory (short-term transcript + recalled content)'' @ trimmed_to (rr_loaded r) (rr_total r) (rr_limit r)]
                else if ms_exceeded st
                then [u ''Chat memory ('' @ shown_path (ms_path st) @ u '')'' @ trimmed_to (min (ms_total st) (ms_limit st)) (ms_total st) (ms_limit st)]
                     @ archive_lines exists_file (ms_path st)
                else [])
      in if ls = [] then None
         else Some (u ''The following memory files or context are larger than the context budget and were partially loaded. Older content is still saved on disk but is not shown in this prompt.''
                @ [10, 10] @ join_lines (map (\<lambda>l. u ''- '' @ l) ls) @ [10, 10] @
                u ''You may use your file tools to read the full files and, if you choose, rewrite them. Preserve user-promoted facts unless the user explicitly says otherwise. If you edit a memory file, tell the user what changed.''))"

definition printed :: "(json \<Rightarrow> ustr) \<Rightarrow> (ustr, json) dict \<Rightarrow> string \<Rightarrow> py_exn + ustr" where
  "printed fmt d k = (case dget (u k) d of None \<Rightarrow> Inl KeyError | Some j \<Rightarrow> Inr (fmt j))"

text \<open>\<open>fmt\<close> prints a count, \<open>fmt2\<close> a number with two decimals.\<close>

definition metrics_context_for_prompt ::
  "(json \<Rightarrow> ustr) \<Rightarrow> (json \<Rightarrow> ustr) \<Rightarrow> bool \<Rightarrow> (ustr, json) dict \<Rightarrow> bool \<Rightarrow> py_exn + ustr option" where
  "metrics_context_for_prompt fmt fmt2 expose cum brief =
     (if \<not> expose \<or> cum = [] then Inr None
      else case (printed fmt cum ''turns'', printed fmt cum ''total_tokens'', printed fmt2 cum ''latency_seconds'',
                 printed fmt cum ''input_tokens'', printed fmt cum ''output_tokens'') of
             (Inr t, Inr n, Inr l, i, out) \<Rightarrow>
               if brief then Inr (Some (u ''[Cumulative usage: '' @ t @ u '' turns, '' @ n @ u '' tokens, '' @ l @ u ''s latency]''))
               else (case (i, out) of
                       (Inr i, Inr out) \<Rightarrow>
                         Inr (Some (u ''## Cumulative usage'' @ [10, 10] @ u ''This conversation has used '' @ t @ u '' turn(s), '' @ n @ u '' total token(s) ('' @
                           i @ u '' input / '' @ out @ u '' output), and '' @ l @ u '' second(s) of model latency. Keep the context budget in mind.''))
                     | _ \<Rightarrow> Inl KeyError)
           | _ \<Rightarrow> Inl KeyError)"

definition context_budget_line ::
  "(real \<Rightarrow> ustr) \<Rightarrow> (ustr \<Rightarrow> int option) option \<Rightarrow> pressure_config \<Rightarrow> session_record option \<Rightarrow> ustr \<Rightarrow> py_exn + ustr" where
  "context_budget_line fmt1 fn cfg r mode =
     (case context_pressure fn cfg r of
        Inl e \<Rightarrow> Inl e
      | Inr (w, cumulative, ratio) \<Rightarrow>
          if w = None \<or> w = Some 0 then Inr (u ''[Context mode: '' @ mode @ u ''; window unknown]'')
          else (case count_field (u ''input_tokens'') (metrics_or_empty (Option.bind r sr_last_turn_metrics)) of
                  Inl e \<Rightarrow> Inl e
                | Inr used \<Rightarrow> Inr (u ''[Context budget: '' @ str_of_int (trunc used) @ u ''/'' @ str_of_int (the w) @ u '' tokens ('' @
                                fmt1 (ratio * 100) @ u ''%); mode: '' @ mode @ u '']'')))"

definition generate_label :: "ustr \<Rightarrow> ustr" where
  "generate_label msg =
     (let short = map (\<lambda>c. if c = 10 then 32 else c) (py_strip msg)
      in if length short > 40 then take 37 short @ u ''...'' else short)"

subsection \<open>Skills\<close>

record skill_ops =
  so_active :: "ustr \<Rightarrow> ustr list"
  so_index :: "ustr list \<Rightarrow> bool \<Rightarrow> ustr option \<Rightarrow> ustr option"
  so_match :: "ustr \<Rightarrow> ustr list \<Rightarrow> ustr list"
  so_text :: "ustr list \<Rightarrow> ustr option"

definition skill_context :: "skill_ops option \<Rightarrow> ustr \<Rightarrow> ustr list option \<Rightarrow> bool \<Rightarrow> ustr option \<Rightarrow> ustr option" where
  "skill_context ops chat names brief msg =
     (case ops of
        None \<Rightarrow> None
      | Some so \<Rightarrow>
          let active = (case names of None \<Rightarrow> so_active so chat | Some ns \<Rightarrow> ns); index = so_index so active brief msg
          in if \<not> truthy_text msg \<or> \<not> truthy_text index \<or> active = [] then index
             else let matched = so_match so (the msg) active
                  in if matched = [] then index
                     else (case nonempty_opt (so_text so matched) of
                             None \<Rightarrow> index
                           | Some c \<Rightarrow> Some (the index @ [10, 10] @ c)))"

end
