(* ===== verification/HandoffStub.thy ===== *)
theory HandoffStub
  imports PromptParts
begin

section \<open>The handoff stub\<close>

text \<open>
  \<open>context/handoff.py\<close>: the block that the harness writes into the self-state file of a chat before a fold of the
  context.  The file is its text, if it exists; a write that raises \<open>OSError\<close> leaves it.  The block found is replaced by
  \<open>re.sub\<close>, which reads its replacement as a template: a backslash in the user's message is an escape there, and
  one that is not known raises \<open>re.error\<close>, which the handler (for \<open>OSError\<close>) lets through.
\<close>

definition MARKER_OPEN :: ustr where
  "MARKER_OPEN = u ''<!-- harness-handoff -->''"

definition MARKER_CLOSE :: ustr where
  "MARKER_CLOSE = u ''<!-- /harness-handoff -->''"

definition HEADING :: ustr where
  "HEADING = u ''## next-self''"

text \<open>What is before and after the first occurrence.\<close>

fun split_first :: "ustr \<Rightarrow> ustr \<Rightarrow> (ustr \<times> ustr) option" where
  "split_first sub [] = (if sub = [] then Some ([], []) else None)"
| "split_first sub (c # s) =
     (if prefix sub (c # s) then Some ([], drop (length sub) (c # s))
      else map_option (\<lambda>(a, b). (c # a, b)) (split_first sub s))"

subsection \<open>Templates of \<open>re.sub\<close>\<close>

datatype template_error = Bad_escape | Group_reference  \<comment> \<open>references and octal escapes are outside the model\<close>

definition simple_escape :: "nat \<Rightarrow> nat option" where
  "simple_escape c = map_of [(97, 7), (98, 8), (102, 12), (110, 10), (114, 13), (116, 9), (118, 11), (92, 92)] c"

definition ascii_letter :: "nat \<Rightarrow> bool" where
  "ascii_letter c \<longleftrightarrow> 65 \<le> c \<and> c \<le> 90 \<or> 97 \<le> c \<and> c \<le> 122"

fun expand_template :: "ustr \<Rightarrow> template_error + ustr" where
  "expand_template [] = Inr []"
| "expand_template [c] = (if c = 92 then Inl Bad_escape else Inr [c])"
| "expand_template (c # d # s) =
     (if c \<noteq> 92 then map_sum id (\<lambda>r. c # r) (expand_template (d # s))
      else case simple_escape d of
             Some x \<Rightarrow> map_sum id (\<lambda>r. x # r) (expand_template s)
           | None \<Rightarrow>
               if 48 \<le> d \<and> d \<le> 57 \<or> d = 103 then Inl Group_reference
               else if ascii_letter d then Inl Bad_escape
               else map_sum id (\<lambda>r. 92 # d # r) (expand_template s))"

subsection \<open>The stub\<close>

text \<open>The first of the two snapshot files that holds an object.\<close>

fun last_turn_snapshot :: "json option list \<Rightarrow> (ustr, json) dict" where
  "last_turn_snapshot [] = []"
| "last_turn_snapshot (Some (JObj d) # fs) = d"
| "last_turn_snapshot (f # fs) = last_turn_snapshot fs"

definition one_line :: "ustr \<Rightarrow> ustr" where
  "one_line s = take 300 (join_spaces (py_words s))"

definition or_none :: "string \<Rightarrow> ustr \<Rightarrow> ustr" where
  "or_none dflt s = (if s = [] then u dflt else s)"

definition stub_text :: "int \<Rightarrow> int \<Rightarrow> ustr \<Rightarrow> ustr \<Rightarrow> ustr \<Rightarrow> ustr \<Rightarrow> ustr" where
  "stub_text session turn_no intent effect arriving stamp_text =
     [10] @
     u ''Harness-written stub at the context-pressure fold (session '' @ str_of_int session @ u '', before turn '' @ str_of_int turn_no @ u '', '' @ stamp_text @
     u ''). The previous turn may not have survived to write its own handoff '' @ [8212] @ u '' if a fresher `## next-self` appears elsewhere in this file, prefer it.'' @ [10] @
     u ''- last durable intent: '' @ or_none ''(none recorded)'' intent @ [10] @
     u ''- last side effect: '' @ or_none ''(none recorded)'' effect @ [10] @
     u ''- message arriving at the fold: '' @ or_none ''(none)'' arriving @ [10] @
     u ''- durable record: chat_MEMORY.md + persona MEMORY.md + chat_open_items.jsonl; live thread: chat_transcript.jsonl tail'' @ [10]"

definition stub_block :: "int \<Rightarrow> int \<Rightarrow> ustr \<Rightarrow> ustr \<Rightarrow> ustr \<Rightarrow> ustr \<Rightarrow> ustr" where
  "stub_block session turn_no intent effect arriving stamp_text =
     HEADING @ [10, 10] @ MARKER_OPEN @ stub_text session turn_no intent effect arriving stamp_text @ MARKER_CLOSE @ [10]"

definition stub_intent :: "(json \<Rightarrow> ustr) \<Rightarrow> (ustr, json) dict \<Rightarrow> ustr" where
  "stub_intent fmt d =
     (let intent = one_line (str_or fmt '''' (dget (u ''current_intent'') d))
      in if intent \<noteq> [] then intent
         else (case splitlines (py_strip (str_or fmt '''' (dget (u ''user_message'') d))) of [] \<Rightarrow> [] | l # _ \<Rightarrow> take 200 l))"

definition stub_for :: "(json \<Rightarrow> ustr) \<Rightarrow> (ustr, json) dict \<Rightarrow> int \<Rightarrow> int \<Rightarrow> ustr \<Rightarrow> ustr \<Rightarrow> ustr" where
  "stub_for fmt d session turn_no arriving stamp_text =
     stub_block session turn_no (stub_intent fmt d) (one_line (str_or fmt '''' (dget (u ''last_side_effect'') d))) (one_line arriving) stamp_text"

text \<open>\<open>block.split(OPEN, 1)[1].rsplit(CLOSE, 1)[0]\<close>: the block ends with the marker and a line feed.\<close>

definition before_last :: "ustr \<Rightarrow> ustr \<Rightarrow> ustr" where
  "before_last sub s =
     (case split_first (rev sub) (rev s) of None \<Rightarrow> s | Some (a, b) \<Rightarrow> rev b)"

definition stub_inner :: "ustr \<Rightarrow> ustr" where
  "stub_inner block = (case split_first MARKER_OPEN block of None \<Rightarrow> [] | Some (a, b) \<Rightarrow> before_last MARKER_CLOSE b)"

text \<open>The template is read first; without a closing marker after the first opening one nothing is replaced.\<close>

definition refreshed :: "ustr \<Rightarrow> ustr \<Rightarrow> template_error + ustr" where
  "refreshed block text =
     (case expand_template (MARKER_OPEN @ stub_inner block @ MARKER_CLOSE) of
        Inl e \<Rightarrow> Inl e
      | Inr new \<Rightarrow>
          (case split_first MARKER_OPEN text of
             None \<Rightarrow> Inr text
           | Some (a, b) \<Rightarrow> (case split_first MARKER_CLOSE b of None \<Rightarrow> Inr text | Some (old, c) \<Rightarrow> Inr (a @ new @ c))))"

definition write_text :: "bool \<Rightarrow> ustr \<Rightarrow> ustr option \<Rightarrow> bool \<times> ustr option" where
  "write_text writable text file = (if writable then (True, Some text) else (False, file))"

definition write_handoff_stub :: "bool \<Rightarrow> ustr \<Rightarrow> ustr option \<Rightarrow> template_error + bool \<times> ustr option" where
  "write_handoff_stub writable block file =
     (let text = (case file of None \<Rightarrow> [] | Some t \<Rightarrow> t)
      in if split_first MARKER_OPEN text \<noteq> None
         then map_sum id (\<lambda>t. write_text writable t file) (refreshed block text)
         else if split_first HEADING text \<noteq> None then Inr (False, file)
         else Inr (write_text writable (rstrip_by (\<lambda>c. c = 10) text @ (if py_strip text \<noteq> [] then [10, 10] else []) @ block) file))"

subsection \<open>Occurrences\<close>

lemma split_first_parts: "split_first sub s = Some (a, b) \<Longrightarrow> s = a @ sub @ b"
proof (induction sub s arbitrary: a rule: split_first.induct)
  case (2 sub c s)
  show ?case
  proof (cases "prefix sub (c # s)")
    case True
    with 2 show ?thesis by (auto simp: prefix_def)
  next
    case False
    then obtain a1 where a: "split_first sub s = Some (a1, b)" "a = c # a1" using 2(2) by auto
    with 2(1) [OF False a(1)] show ?thesis by simp
  qed
qed (auto split: if_splits)

lemma split_first_at: "sub = x # ys \<Longrightarrow> x \<notin> set h \<Longrightarrow> split_first sub (h @ sub @ b) = Some (h, b)"
  by (induction h) auto

lemma prefix_line: "c \<notin> set sub \<Longrightarrow> prefix sub (t @ c # s) \<Longrightarrow> prefix sub t"
  unfolding prefix_append by (auto simp: prefix_Cons)

lemma split_first_line:
  "split_first sub t = None \<Longrightarrow> c \<notin> set sub \<Longrightarrow> split_first sub (t @ c # s) = map_option (\<lambda>(a, b). (t @ c # a, b)) (split_first sub s)"
proof (induction t)
  case Nil
  then have "\<not> prefix sub (c # s)" by (cases sub) auto
  then show ?case by (simp add: case_prod_unfold)
next
  case (Cons x t)
  have "\<not> prefix sub (x # t)" using Cons.prems(1) by (auto split: if_splits)
  then have p: "\<not> prefix sub (x # t @ c # s)" using prefix_line [OF Cons.prems(2), of "x # t" s] by auto
  moreover have "split_first sub t = None" using Cons.prems(1) by (auto split: if_splits)
  ultimately show ?case using p Cons.IH Cons.prems(2) by (auto simp: option.map_comp comp_def case_prod_unfold)
qed

lemma split_first_prefix: "split_first sub (t @ s) = None \<Longrightarrow> split_first sub t = None"
proof (induction t)
  case (Cons x t)
  have "\<not> prefix sub (x # t)"
  proof
    assume "prefix sub (x # t)"
    then have "prefix sub (x # t @ s)" by (metis append_Cons prefix_order.order_trans prefixI)
    with Cons.prems show False by simp
  qed
  with Cons show ?case by (auto split: if_splits)
qed (cases "sub = []"; cases s; auto)

lemma markers: "60 \<notin> set (HEADING @ [10, 10])" "MARKER_OPEN = 60 # tl MARKER_OPEN" "MARKER_CLOSE = 60 # tl MARKER_CLOSE"
  "rev MARKER_CLOSE = 62 # tl (rev MARKER_CLOSE)" "10 \<notin> set MARKER_OPEN" "92 \<notin> set MARKER_OPEN" "92 \<notin> set MARKER_CLOSE"
  by (simp_all add: HEADING_def MARKER_OPEN_def MARKER_CLOSE_def u_def)

lemma stub_inner_text: "stub_inner (stub_block n t i e a w) = stub_text n t i e a w"
proof -
  let ?x = "stub_text n t i e a w"
  have "split_first MARKER_OPEN ((HEADING @ [10, 10]) @ MARKER_OPEN @ ?x @ MARKER_CLOSE @ [10]) = Some (HEADING @ [10, 10], ?x @ MARKER_CLOSE @ [10])"
    by (rule split_first_at [OF markers(2,1)])
  moreover have "split_first (rev MARKER_CLOSE) ([10] @ rev MARKER_CLOSE @ rev ?x) = Some ([10], rev ?x)"
    by (rule split_first_at [OF markers(4)]) simp
  ultimately show ?thesis by (simp add: stub_inner_def stub_block_def before_last_def)
qed

subsection \<open>Nothing else is touched\<close>

text \<open>
  The handoff stub never competes with what a turn wrote: a file with a \<open>next-self\<close> section and no block of the
  harness is left, and any write either replaces exactly one block between the harness's markers, with the text before
  and after it kept to the letter, or (no block and no section) appends the block to the text, or leaves the text.
\<close>

theorem stub_leaves_the_rest:
  assumes "write_handoff_stub writable block file = Inr (wrote, file')"
  shows "let text = (case file of None \<Rightarrow> [] | Some t \<Rightarrow> t)
    in (\<not> wrote \<longrightarrow> file' = file)
      \<and> (split_first MARKER_OPEN text = None \<and> split_first HEADING text \<noteq> None \<longrightarrow> \<not> wrote)
      \<and> (wrote \<longrightarrow> file' = Some text
           \<or> (\<exists>a old c. text = a @ MARKER_OPEN @ old @ MARKER_CLOSE @ c
                \<and> map_sum id (\<lambda>new. Some (a @ new @ c)) (expand_template (MARKER_OPEN @ stub_inner block @ MARKER_CLOSE)) = Inr file')
           \<or> (split_first MARKER_OPEN text = None \<and> split_first HEADING text = None
                \<and> file' = Some (rstrip_by (\<lambda>c. c = 10) text @ (if py_strip text \<noteq> [] then [10, 10] else []) @ block)))"
proof -
  let ?t = "case file of None \<Rightarrow> [] | Some t \<Rightarrow> t"
  show ?thesis
  proof (cases "split_first MARKER_OPEN ?t")
    case None
    with assms show ?thesis by (auto simp: write_handoff_stub_def write_text_def Let_def split: if_splits)
  next
    case (Some p)
    then obtain a b where p: "split_first MARKER_OPEN ?t = Some (a, b)" by (cases p) auto
    then obtain t2 where t2: "refreshed block ?t = Inr t2" "(wrote, file') = write_text writable t2 file"
      using assms by (auto simp: write_handoff_stub_def Let_def map_sum_def split: sum.splits)
    then obtain new where new: "expand_template (MARKER_OPEN @ stub_inner block @ MARKER_CLOSE) = Inr new"
      by (auto simp: refreshed_def split: sum.splits)
    have whole: "?t = a @ MARKER_OPEN @ b" by (rule split_first_parts [OF p])
    show ?thesis
    proof (cases "split_first MARKER_CLOSE b")
      case None
      with t2 new p show ?thesis by (auto simp: refreshed_def write_text_def split: if_splits)
    next
      case (Some q)
      then obtain old c where q: "split_first MARKER_CLOSE b = Some (old, c)" by (cases q) auto
      then have "?t = a @ MARKER_OPEN @ old @ MARKER_CLOSE @ c" using whole split_first_parts [OF q] by simp
      moreover have "t2 = a @ new @ c" using t2(1) new p q by (simp add: refreshed_def)
      ultimately show ?thesis using t2(2) new p by (fastforce simp: write_text_def Let_def split: if_splits)
    qed
  qed
qed

subsection \<open>Repeated folds\<close>

lemma expand_plain: "92 \<notin> set s \<Longrightarrow> expand_template s = Inr s"
  by (induction s rule: expand_template.induct) auto

lemma expand_bad:
  assumes "92 \<notin> set pre" and "ascii_letter d" and "simple_escape d = None" and "d \<noteq> 103"
  shows "expand_template (pre @ 92 # d # post) = Inl Bad_escape"
  using assms(1)
proof (induction pre)
  case Nil
  then show ?case using assms(2-4) by (auto simp: ascii_letter_def)
next
  case (Cons x pre)
  then show ?case by (cases pre) auto
qed

text \<open>A text that can stand in the block: without the first character of the markers and without backslashes.\<close>

definition plain :: "ustr \<Rightarrow> bool" where
  "plain s \<longleftrightarrow> 60 \<notin> set s \<and> 92 \<notin> set s"

lemma plain_simps [simp]: "plain []" "plain (x @ y) \<longleftrightarrow> plain x \<and> plain y" "plain (c # x) \<longleftrightarrow> c \<noteq> 60 \<and> c \<noteq> 92 \<and> plain x"
  by (auto simp: plain_def)

lemma plain_digits: "plain (digits_of n)"
  by (induction n rule: digits_of.induct) (subst digits_of.simps, auto)

lemma plain_int: "plain (str_of_int i)"
  by (auto simp: str_of_int_def str_of_nat_def plain_digits u_def)

lemma plain_stub: "plain i \<Longrightarrow> plain e \<Longrightarrow> plain a \<Longrightarrow> plain w \<Longrightarrow> plain (stub_text n t i e a w)"
  by (simp add: stub_text_def or_none_def plain_int) (simp add: plain_def u_def)

lemma blank_strip:
  assumes "py_strip s = []" and "c \<in> set s"
  shows "py_isspace c"
proof -
  have "\<forall>x \<in> set (dropWhile py_isspace s). py_isspace x"
    using assms(1) by (simp add: strip_by_def lstrip_by_def rstrip_by_def dropWhile_eq_Nil_conv)
  moreover have "s = takeWhile py_isspace s @ dropWhile py_isspace s" by simp
  ultimately show ?thesis using assms(2) set_takeWhileD by (metis Un_iff set_append)
qed

definition appended :: "ustr \<Rightarrow> ustr" where
  "appended t = rstrip_by (\<lambda>c. c = 10) t @ (if py_strip t \<noteq> [] then [10, 10] else []) @ HEADING @ [10, 10]"

lemma appended_split:
  assumes "split_first MARKER_OPEN t = None"
  shows "split_first MARKER_OPEN (appended t @ MARKER_OPEN @ x) = Some (appended t, x)"
proof -
  let ?r = "rstrip_by (\<lambda>c. c = 10) t"
  obtain z where z: "t = ?r @ z" using rstrip_by_prefix [of "\<lambda>c. c = 10" t] by (auto simp: prefix_def)
  show ?thesis
  proof (cases "py_strip t = []")
    case True
    have "60 \<notin> set t" using blank_strip [OF True, of 60] by (auto simp: py_isspace_def)
    then have "60 \<notin> set ?r" using z by (metis Un_iff set_append)
    then have "60 \<notin> set (appended t)" using markers(1) True by (simp add: appended_def)
    then show ?thesis by (rule split_first_at [OF markers(2)])
  next
    case False
    have n: "split_first MARKER_OPEN ?r = None" by (rule split_first_prefix [of _ _ z]) (use assms z in metis)
    have h: "split_first MARKER_OPEN ((10 # HEADING @ [10, 10]) @ MARKER_OPEN @ x) = Some (10 # HEADING @ [10, 10], x)"
      by (rule split_first_at [OF markers(2)]) (use markers(1) in simp)
    have "split_first MARKER_OPEN (?r @ 10 # (10 # HEADING @ [10, 10]) @ MARKER_OPEN @ x) = Some (?r @ 10 # 10 # HEADING @ [10, 10], x)"
      unfolding split_first_line [OF n markers(5)] h by simp
    then show ?thesis using False by (simp add: appended_def)
  qed
qed

lemma first_fold:
  assumes "split_first MARKER_OPEN (case file of None \<Rightarrow> [] | Some t \<Rightarrow> t) = None" and "split_first HEADING (case file of None \<Rightarrow> [] | Some t \<Rightarrow> t) = None"
  shows "write_handoff_stub True (stub_block n k i e a w) file =
    Inr (True, Some (appended (case file of None \<Rightarrow> [] | Some t \<Rightarrow> t) @ MARKER_OPEN @ stub_text n k i e a w @ MARKER_CLOSE @ [10]))"
  using assms by (simp add: write_handoff_stub_def write_text_def stub_block_def appended_def)

text \<open>
  Claim C22.  Repeated folds keep one stub, and the newest: after a first fold of a file without a handoff, a second fold
  leaves exactly the file it would have written had there been no first one (for messages, intents and effects without
  a backslash or an opening angle bracket).
\<close>

theorem repeated_fold_rewrites_the_stub:
  assumes "split_first MARKER_OPEN (case file of None \<Rightarrow> [] | Some t \<Rightarrow> t) = None" and "split_first HEADING (case file of None \<Rightarrow> [] | Some t \<Rightarrow> t) = None"
    and "plain i1" "plain e1" "plain a1" "plain w1" and "plain i2" "plain e2" "plain a2" "plain w2"
  shows "\<exists>f1. write_handoff_stub True (stub_block n1 k1 i1 e1 a1 w1) file = Inr (True, Some f1)
    \<and> write_handoff_stub True (stub_block n2 k2 i2 e2 a2 w2) (Some f1) = write_handoff_stub True (stub_block n2 k2 i2 e2 a2 w2) file"
proof -
  let ?t = "case file of None \<Rightarrow> [] | Some t \<Rightarrow> t"
  let ?x1 = "stub_text n1 k1 i1 e1 a1 w1" and ?x2 = "stub_text n2 k2 i2 e2 a2 w2"
  let ?f1 = "appended ?t @ MARKER_OPEN @ ?x1 @ MARKER_CLOSE @ [10]"
  have o: "split_first MARKER_OPEN ?f1 = Some (appended ?t, ?x1 @ MARKER_CLOSE @ [10])" by (rule appended_split [OF assms(1)])
  have "60 \<notin> set ?x1" using plain_stub [OF assms(3-6), of n1 k1] by (simp add: plain_def)
  then have c: "split_first MARKER_CLOSE (?x1 @ MARKER_CLOSE @ [10]) = Some (?x1, [10])" by (rule split_first_at [OF markers(3)])
  have "92 \<notin> set (MARKER_OPEN @ ?x2 @ MARKER_CLOSE)" using plain_stub [OF assms(7-10), of n2 k2] markers(6,7) by (simp add: plain_def)
  then have "expand_template (MARKER_OPEN @ stub_inner (stub_block n2 k2 i2 e2 a2 w2) @ MARKER_CLOSE) = Inr (MARKER_OPEN @ ?x2 @ MARKER_CLOSE)"
    unfolding stub_inner_text by (rule expand_plain)
  then have "refreshed (stub_block n2 k2 i2 e2 a2 w2) ?f1 = Inr (appended ?t @ (MARKER_OPEN @ ?x2 @ MARKER_CLOSE) @ [10])"
    using o c by (simp add: refreshed_def)
  then have "write_handoff_stub True (stub_block n2 k2 i2 e2 a2 w2) (Some ?f1) = write_handoff_stub True (stub_block n2 k2 i2 e2 a2 w2) file"
    unfolding first_fold [OF assms(1,2)] using o by (simp add: write_handoff_stub_def write_text_def)
  with first_fold [OF assms(1,2)] show ?thesis by blast
qed

text \<open>
  A backslash in a message breaks the fold: once the file holds a stub, a message that (as one line) has a
  backslash before a letter that is no escape, as a Windows path has, makes the refresh raise an error that the
  handler does not catch, whatever the file is; the function is meant never to raise.
\<close>

theorem backslash_breaks_the_fold:
  assumes "split_first MARKER_OPEN t \<noteq> None" and "one_line arriving = pre @ 92 # d # post"
    and "92 \<notin> set pre" and "ascii_letter d" and "simple_escape d = None" and "d \<noteq> 103"
    and "92 \<notin> set (stub_intent fmt s)" and "92 \<notin> set (one_line (str_or fmt [] (dget (u ''last_side_effect'') s)))" and "92 \<notin> set w"
  shows "write_handoff_stub writable (stub_for fmt s n k arriving w) (Some t) = Inl Bad_escape"
proof -
  let ?i = "stub_intent fmt s" and ?e = "one_line (str_or fmt [] (dget (u ''last_side_effect'') s))"
  let ?p = "MARKER_OPEN @ [10] @
     u ''Harness-written stub at the context-pressure fold (session '' @ str_of_int n @ u '', before turn '' @ str_of_int k @ u '', '' @ w @
     u ''). The previous turn may not have survived to write its own handoff '' @ [8212] @ u '' if a fresher `## next-self` appears elsewhere in this file, prefer it.'' @ [10] @
     u ''- last durable intent: '' @ or_none ''(none recorded)'' ?i @ [10] @
     u ''- last side effect: '' @ or_none ''(none recorded)'' ?e @ [10] @
     u ''- message arriving at the fold: '' @ pre"
  let ?q = "post @ [10] @ u ''- durable record: chat_MEMORY.md + persona MEMORY.md + chat_open_items.jsonl; live thread: chat_transcript.jsonl tail'' @ [10] @ MARKER_CLOSE"
  have "or_none ''(none)'' (pre @ 92 # d # post) = pre @ 92 # d # post" by (simp add: or_none_def)
  then have split: "MARKER_OPEN @ stub_text n k ?i ?e (pre @ 92 # d # post) w @ MARKER_CLOSE = ?p @ 92 # d # ?q"
    by (simp only: stub_text_def append.assoc append_Cons append_Nil)
  have "92 \<notin> set (or_none ''(none recorded)'' x)" if "92 \<notin> set x" for x using that by (simp add: or_none_def u_def)
  then have "92 \<notin> set ?p"
    using assms(3,7-9) plain_int [of n] plain_int [of k] markers(6) by (simp add: plain_def) (simp add: u_def)
  from expand_bad [OF this assms(4-6)] show ?thesis
    using assms(1,2) split by (simp add: write_handoff_stub_def stub_for_def refreshed_def stub_inner_text)
qed

subsection \<open>Concrete files\<close>

lemma no_handoff: "split_first MARKER_OPEN (u ''notes'') = None" "split_first HEADING (u ''notes'') = None"
  by (simp_all add: MARKER_OPEN_def HEADING_def u_def)

theorem stub_leaves_the_rest_witness:
  "write_handoff_stub True (stub_block 1 2 [] [] [] []) (Some (HEADING @ u '' mine'')) = Inr (False, Some (HEADING @ u '' mine''))"
proof -
  have s: "split_first MARKER_OPEN (HEADING @ u '' mine'') = None" "split_first HEADING (HEADING @ u '' mine'') \<noteq> None"
    by (simp_all add: MARKER_OPEN_def HEADING_def u_def)
  then have "\<exists>r f. write_handoff_stub True (stub_block 1 2 [] [] [] []) (Some (HEADING @ u '' mine'')) = Inr (r, f)"
    by (simp add: write_handoff_stub_def) blast
  then obtain r f where w: "write_handoff_stub True (stub_block 1 2 [] [] [] []) (Some (HEADING @ u '' mine'')) = Inr (r, f)" by blast
  from stub_leaves_the_rest [OF w] s have "\<not> r \<and> f = Some (HEADING @ u '' mine'')" by (simp add: Let_def)
  with w show ?thesis by simp
qed

theorem repeated_fold_rewrites_the_stub_witness:
  "\<exists>f1. write_handoff_stub True (stub_block 1 2 [] [] (u ''first'') []) (Some (u ''notes'')) = Inr (True, Some f1)
     \<and> write_handoff_stub True (stub_block 1 3 [] [] (u ''second'') []) (Some f1) = write_handoff_stub True (stub_block 1 3 [] [] (u ''second'') []) (Some (u ''notes''))"
proof -
  have "plain (u ''first'')" "plain (u ''second'')" by (simp_all add: u_def)
  then show ?thesis using no_handoff
    by (intro repeated_fold_rewrites_the_stub) simp_all
qed

theorem backslash_breaks_the_fold_witness:
  "write_handoff_stub True (stub_for (\<lambda>_. []) [] 1 3 (u ''C:'' @ 92 # u ''path'') []) (Some (MARKER_OPEN @ u ''old'' @ MARKER_CLOSE)) = Inl Bad_escape"
proof -
  have o: "split_first MARKER_OPEN (MARKER_OPEN @ u ''old'' @ MARKER_CLOSE) \<noteq> None"
    using split_first_at [OF markers(2), of "[]"] by simp
  have l: "one_line (u ''C:'' @ 92 # u ''path'') = u ''C:'' @ 92 # 112 # u ''ath''"
    by (simp add: one_line_def py_words_def py_isspace_def u_def)
  have e: "stub_intent (\<lambda>_. []) [] = []" "one_line (str_or (\<lambda>_. []) [] None) = []"
    by (simp_all add: stub_intent_def str_or_def one_line_def py_words_def strip_by_def lstrip_by_def rstrip_by_def splitlines_def u_def)
  have d: "ascii_letter 112" "simple_escape 112 = None" "(112::nat) \<noteq> 103" "92 \<notin> set (u ''C:'')"
    by (simp_all add: ascii_letter_def simple_escape_def u_def)
  show ?thesis
    by (rule backslash_breaks_the_fold [OF o l d(4,1,2,3)]) (simp_all add: e)
qed

end
