(* ===== verification/PromptBuild.thy ===== *)
theory PromptBuild
  imports PromptSlots HandoffStub
begin

section \<open>Building a prompt\<close>

text \<open>
  \<open>_load_recall_and_short_term\<close>, \<open>_assemble_prompt\<close>, \<open>build_first\<close> and \<open>build_follow_up\<close> of \<open>context/builder.py\<close>
  (\<open>ContextBuilder\<close>) with the caches it keeps per chat.  The memory of the chat (\<open>memory.py\<close>), the plugin hooks that
  return something, the skill manager, the files and their times and the clock are arguments; \<open>on_waking\<close>, which only
  observes, is left out.  The self-state file of a chat is kept by chat.
\<close>

datatype prompt_error = Raised py_exn | Template template_error

text \<open>What the plugins remember of a chat.\<close>

type_synonym blocks = "(ustr \<times> ustr, ustr option) dict"

record builder_state =
  bs_blocks :: "(ustr, blocks) dict"
  bs_mtimes :: "(ustr, (ustr, secs) dict) dict"
  bs_prompt_time :: "(ustr, secs) dict"
  bs_full_soul_turn :: "(ustr, int) dict"
  bs_self_state :: "(ustr, ustr) dict"

definition reset_cache :: "ustr \<Rightarrow> builder_state \<Rightarrow> builder_state" where
  "reset_cache chat s =
     s\<lparr>bs_blocks := dset chat [] (bs_blocks s), bs_mtimes := dset chat [] (bs_mtimes s),
       bs_prompt_time := dset chat 0 (bs_prompt_time s), bs_full_soul_turn := dset chat 0 (bs_full_soul_turn s)\<rparr>"

definition mtimes_of :: "ustr \<Rightarrow> builder_state \<Rightarrow> (ustr, secs) dict" where
  "mtimes_of chat s = (case dget chat (bs_mtimes s) of None \<Rightarrow> [] | Some d \<Rightarrow> d)"

definition file_changed :: "(ustr \<Rightarrow> secs option) \<Rightarrow> ustr \<Rightarrow> ustr option \<Rightarrow> builder_state \<Rightarrow> bool" where
  "file_changed mtime chat path s =
     (case Option.bind path mtime of
        None \<Rightarrow> False
      | Some t \<Rightarrow> (case dget (the path) (mtimes_of chat s) of None \<Rightarrow> True | Some t0 \<Rightarrow> t > t0))"

definition record_file :: "(ustr \<Rightarrow> secs option) \<Rightarrow> ustr \<Rightarrow> ustr option \<Rightarrow> builder_state \<Rightarrow> builder_state" where
  "record_file mtime chat path s =
     (case Option.bind path mtime of
        None \<Rightarrow> s
      | Some t \<Rightarrow> s\<lparr>bs_mtimes := dset chat (dset (the path) t (mtimes_of chat s)) (bs_mtimes s)\<rparr>)"

subsection \<open>The environment\<close>

record memory_ops =
  mo_recall :: "ustr \<Rightarrow> ustr \<Rightarrow> int option \<Rightarrow> int option \<Rightarrow> bool \<Rightarrow> recall_result"  \<comment> \<open>query, model, characters, tokens, short term\<close>
  mo_compaction :: "ustr \<Rightarrow> ustr"
  mo_status :: memory_status
  mo_promoted :: "int option \<Rightarrow> memory_read"
  mo_persona :: "int \<Rightarrow> memory_read"
  mo_chat_block :: "int option \<Rightarrow> ustr option"
  mo_chat_path :: "ustr option"
  mo_persona_path :: ustr

record build_ctx =
  bc_model :: "ustr option"
  bc_is_first :: bool
  bc_continuation :: "ustr option"
  bc_interrupted :: "ustr option"
  bc_rehydrated :: bool
  bc_reason :: rehydration
  bc_compact :: bool

record prompt_context =
  px_prompt :: ustr
  px_notice :: "ustr option"
  px_persona_exceeded :: bool
  px_chat_exceeded :: bool
  px_slots :: slots
  px_model :: ustr
  px_force_new :: bool
  px_compact :: bool

record prompt_config =
  pf_persona :: persona_config
  pf_pressure :: pressure_config
  pf_blocks :: blocks_config
  pf_quote :: quote_config
  pf_model :: ustr
  pf_wake_budget :: int
  pf_expose_metrics :: bool
  pf_handoff :: bool
  pf_handoff_stub :: bool
  pf_triggers :: "ustr list"
  pf_recall_on_follow_up :: bool
  pf_fresh_chars :: int
  pf_fresh_results :: int
  pf_auto_chars :: int
  pf_auto_results :: int
  pf_tail_chars :: int
  pf_compact_promoted :: int
  pf_compact_chat :: int
  pf_compact_persona :: int
  pf_persona_chars :: int

record prompt_env =
  en_cfg :: prompt_config
  en_files :: "ustr \<Rightarrow> ustr option"
  en_mtime :: "ustr \<Rightarrow> secs option"
  en_lower :: "ustr \<Rightarrow> ustr"
  en_str :: "json \<Rightarrow> ustr"
  en_fmt1 :: "real \<Rightarrow> ustr"
  en_fmt2 :: "json \<Rightarrow> ustr"
  en_iso :: "ustr \<Rightarrow> secs option"
  en_stamp :: ustr
  en_window :: "(ustr \<Rightarrow> int option) option"
  en_memory :: "ustr \<Rightarrow> memory_ops"
  en_skills :: "skill_ops option"
  en_log :: "lifecycle_log option"
  en_cumulative :: "ustr \<Rightarrow> (ustr, json) dict"
  en_registry :: "ustr \<Rightarrow> py_exn + (json, (ustr, json) dict) dict"
  en_format_hook :: "((user_message \<Rightarrow> py_exn + ustr) \<Rightarrow> user_message \<Rightarrow> py_exn + ustr option \<times> ustr) option"
  en_before_build :: "build_ctx \<Rightarrow> build_ctx"
  en_fill :: "build_ctx \<Rightarrow> secs option \<Rightarrow> ustr list \<Rightarrow> slots \<Rightarrow> blocks \<Rightarrow> slots \<times> blocks"
  en_after_build :: "prompt_context \<Rightarrow> prompt_context"
  en_after_first :: "prompt_context \<Rightarrow> prompt_context"
  en_snapshot :: "ustr \<Rightarrow> (ustr, json) dict"
  en_writable :: bool
  en_now :: secs

fun soul_name :: "soul \<Rightarrow> ustr" where
  "soul_name Soul_normal = u ''normal''" | "soul_name Soul_small = u ''small''"
| "soul_name Soul_full = u ''full''" | "soul_name Soul_fresh = u ''fresh''"

subsection \<open>Recall\<close>

definition wants_memory_recall :: "(ustr \<Rightarrow> ustr) \<Rightarrow> ustr list \<Rightarrow> ustr \<Rightarrow> bool" where
  "wants_memory_recall lower triggers msg = list_ex (\<lambda>t. sublist (lower t) (lower msg)) triggers"

definition no_recall :: recall_result where
  "no_recall = \<lparr>rr_text = [], rr_truncated = False, rr_limit = 0, rr_loaded = 0, rr_total = 0\<rparr>"

definition load_recall_and_short_term ::
  "prompt_env \<Rightarrow> memory_ops \<Rightarrow> ustr \<Rightarrow> ustr \<Rightarrow> bool \<Rightarrow> soul \<Rightarrow> bool \<Rightarrow> recall_result \<times> ustr" where
  "load_recall_and_short_term env m formatted model brief mode short =
     (let c = en_cfg env
      in if brief \<and> wants_memory_recall (en_lower env) (pf_triggers c) formatted
         then (mo_recall m formatted model (Some (pf_fresh_chars c)) (Some (pf_fresh_results c * 150)) True, [])
         else if mode = Soul_fresh
         then let r = mo_recall m (if formatted = [] then u ''current threads and open state'' else formatted) model
                        (Some (pf_auto_chars c)) (Some (pf_auto_results c * 150)) False;
                  st = mo_compaction m model
              in (r\<lparr>rr_text := strip_recall_heading (rr_text r), rr_loaded := int (length (rr_text r))\<rparr>,
                  if st \<noteq> [] \<and> brief then section_trim st (pf_tail_chars c) else st)
         else if mode = Soul_full \<or> pf_recall_on_follow_up c
         then (mo_recall m formatted model None None short, [])
         else (no_recall, []))"

subsection \<open>Assembly\<close>

definition initial_slots :: "ustr \<Rightarrow> ustr \<Rightarrow> slots" where
  "initial_slots persona formatted =
     (u ''identity'', [persona]) #
     map (\<lambda>k. (u k, [])) [''self_narrative'', ''system_notice'', ''memory'', ''promoted'', ''recall'', ''chat_memory'', ''persistent_memory'', ''wake'',
       ''working_memory'', ''body'', ''self_state'', ''authorship'', ''mesh'', ''metrics'', ''skills'', ''continuation''] @
     [(u ''user'', [formatted])]"

definition opt_text :: "string \<Rightarrow> ustr option \<Rightarrow> (ustr \<times> ustr) list" where
  "opt_text k x = (case nonempty_opt x of None \<Rightarrow> [] | Some t \<Rightarrow> [(u k, t)])"

text \<open>A plugin that takes a slot away makes the next text for it raise.\<close>

fun add_texts :: "(ustr \<times> ustr) list \<Rightarrow> slots \<Rightarrow> py_exn + slots" where
  "add_texts [] s = Inr s"
| "add_texts ((k, x) # xs) s = (case dget k s of None \<Rightarrow> Inl KeyError | Some ts \<Rightarrow> add_texts xs (dset k (ts @ [x]) s))"

record pieces =
  pi_persona :: persona_prompt
  pi_recall :: recall_result
  pi_short :: ustr
  pi_status :: memory_status
  pi_promoted :: ustr
  pi_chat_mem :: "ustr option"

definition loaded_texts :: "ustr list \<Rightarrow> bool \<Rightarrow> pieces \<Rightarrow> (ustr \<times> ustr) list" where
  "loaded_texts parts brief p =
     (let (recalled, disk) = combined_chat_memory_block (rr_text (pi_recall p)) (pi_short p) (pi_chat_mem p); pp = pi_persona p
      in (if parts \<noteq> [] then [(u ''system_notice'', format_system_notice parts brief)] else [])
         @ (if pp_memory_text pp \<noteq> []
            then [(u ''memory'', u ''## Current memory ('' @ path_name (the (pp_path pp)) @ u '')'' @ [10, 10] @ pp_memory_text pp)] else [])
         @ (if pi_promoted p \<noteq> [] then [(u ''promoted'', u ''## Promoted memory'' @ [10, 10] @ pi_promoted p)] else [])
         @ opt_text ''recall'' recalled @ opt_text ''chat_memory'' disk)"

text \<open>The wake budget: the line about it, and the trimming with a new line.\<close>

definition replace_line :: "ustr list \<Rightarrow> ustr \<Rightarrow> ustr list" where
  "replace_line parts line =
     (if prefix (u ''[Wake context budget:'') (last parts) then butlast parts @ [line] else parts @ [line])"

definition fit_to_wake_budget ::
  "prompt_env \<Rightarrow> (ustr \<Rightarrow> py_exn + int) \<Rightarrow> int \<Rightarrow> ustr list \<Rightarrow> soul \<Rightarrow> slots \<Rightarrow> py_exn + slots" where
  "fit_to_wake_budget env est budget parts mode s =
     (let line = wake_context_budget_line (en_fmt1 env) (pf_wake_budget (en_cfg env)) (soul_name mode)
      in case est (render_slots s) of
           Inl e \<Rightarrow> Inl e
         | Inr n \<Rightarrow>
             let (parts1, s1) = (case line n of
                   None \<Rightarrow> (parts, s)
                 | Some l \<Rightarrow> (parts @ [l], dset (u ''system_notice'') [format_system_notice (parts @ [l]) True] s))
             in case est (render_slots s1) of
                  Inl e \<Rightarrow> Inl e
                | Inr n1 \<Rightarrow>
                    if n1 \<le> budget then Inr s1
                    else (case trim_slots_to_budget est budget s1 of
                            Inl e \<Rightarrow> Inl e
                          | Inr (s2, p2) \<Rightarrow>
                              (case est p2 of
                                 Inl e \<Rightarrow> Inl e
                               | Inr n2 \<Rightarrow>
                                   (case line n2 of
                                      Some l \<Rightarrow> if parts1 \<noteq> [] then Inr (dset (u ''system_notice'') [format_system_notice (replace_line parts1 l) True] s2)
                                                else Inr s2
                                    | None \<Rightarrow> Inr s2))))"

record assembly =
  as_brief :: bool
  as_mode :: soul
  as_first :: bool
  as_record_persona :: bool
  as_record_chat :: bool
  as_last_time :: "secs option"
  as_force_new :: bool
  as_notice :: "ustr option"
  as_metrics_brief :: bool
  as_wake_budget :: "int option"
  as_force_slots :: "ustr list"
  as_skill_names :: "ustr list option"
  as_model :: ustr

definition filled_slots ::
  "prompt_env \<Rightarrow> ustr \<Rightarrow> assembly \<Rightarrow> build_ctx \<Rightarrow> ustr list \<Rightarrow> ustr \<Rightarrow> pieces \<Rightarrow> blocks \<Rightarrow> blocks \<times> (py_exn + slots)" where
  "filled_slots env chat a bc parts formatted p blocks =
     (case add_texts (loaded_texts parts (as_brief a) p) (initial_slots (pp_text (pi_persona p)) formatted) of
        Inl e \<Rightarrow> (blocks, Inl e)
      | Inr s1 \<Rightarrow>
          (case en_fill env bc (as_last_time a) (as_force_slots a) s1 blocks of
             (s2, blocks2) \<Rightarrow>
               (case metrics_context_for_prompt (en_str env) (en_fmt2 env) (pf_expose_metrics (en_cfg env)) (en_cumulative env chat) (as_metrics_brief a) of
                  Inl e \<Rightarrow> (blocks2, Inl e)
                | Inr m \<Rightarrow>
                    (blocks2,
                      add_texts (opt_text ''metrics'' m @ opt_text ''continuation'' (bc_continuation bc) @ opt_text ''continuation'' (bc_interrupted bc) @
                         opt_text ''skills'' (skill_context (en_skills env) chat (as_skill_names a) True (Some formatted))) s2))))"

definition recorded_files :: "prompt_env \<Rightarrow> ustr \<Rightarrow> assembly \<Rightarrow> memory_ops \<Rightarrow> pieces \<Rightarrow> builder_state \<Rightarrow> builder_state" where
  "recorded_files env chat a m p s =
     (let s1 = (if as_record_persona a then record_file (en_mtime env) chat (pp_path (pi_persona p)) s else s)
      in if as_record_chat a then record_file (en_mtime env) chat (mo_chat_path m) s1 else s1)"

definition assemble_prompt ::
  "prompt_env \<Rightarrow> ustr \<Rightarrow> session_record option \<Rightarrow> assembly \<Rightarrow> memory_ops \<Rightarrow> build_ctx \<Rightarrow> ustr list \<Rightarrow> ustr \<Rightarrow> pieces \<Rightarrow> builder_state \<Rightarrow>
   builder_state \<times> (py_exn + prompt_context)" where
  "assemble_prompt env chat r a m bc parts0 formatted p s0 =
     (let c = en_cfg env; s = (if dget chat (bs_blocks s0) = None then reset_cache chat s0 else s0);
          est = (\<lambda>t. estimate_prompt_tokens (en_lower env) (pf_pressure c) t r)
      in case (if as_brief a then map_sum id (\<lambda>l. parts0 @ [l]) (context_budget_line (en_fmt1 env) (en_window env) (pf_pressure c) r (soul_name (as_mode a)))
               else Inr parts0) of
           Inl e \<Rightarrow> (s, Inl e)
         | Inr parts \<Rightarrow>
             let s1 = recorded_files env chat a m p s; old = (case dget chat (bs_blocks s1) of None \<Rightarrow> [] | Some b \<Rightarrow> b)
             in case filled_slots env chat a bc parts formatted p old of
                  (blocks, Inl e) \<Rightarrow> (s1\<lparr>bs_blocks := dset chat blocks (bs_blocks s1)\<rparr>, Inl e)
                | (blocks, Inr slots1) \<Rightarrow>
                    let slots2 = apply_prompt_blocks (pf_blocks c) (as_force_slots a) slots1;
                        s2 = s1\<lparr>bs_blocks := dset chat blocks (bs_blocks s1), bs_prompt_time := dset chat (en_now env) (bs_prompt_time s1)\<rparr>
                    in case (case as_wake_budget a of
                               Some b \<Rightarrow> if as_brief a then fit_to_wake_budget env est b parts (as_mode a) slots2 else Inr slots2
                             | None \<Rightarrow> Inr slots2) of
                         Inl e \<Rightarrow> (s2, Inl e)
                       | Inr slots3 \<Rightarrow>
                           (s2, Inr (en_after_build env
                              \<lparr>px_prompt = render_slots slots3, px_notice = as_notice a, px_persona_exceeded = pp_truncated (pi_persona p),
                               px_chat_exceeded = ms_exceeded (pi_status p), px_slots = slots3, px_model = as_model a,
                               px_force_new = as_force_new a, px_compact = as_brief a\<rparr>)))"

subsection \<open>\<open>build_first\<close>\<close>

definition resolved_reason :: "rehydration option \<Rightarrow> bool \<Rightarrow> rehydration" where
  "resolved_reason reason rehydrated = (case reason of Some r \<Rightarrow> r | None \<Rightarrow> if rehydrated then R_stale else R_none)"

definition engine_model :: "prompt_env \<Rightarrow> ustr option \<Rightarrow> ustr" where
  "engine_model env m = (case nonempty_opt m of Some x \<Rightarrow> x | None \<Rightarrow> pf_model (en_cfg env))"

definition persona_limit :: "prompt_config \<Rightarrow> bool \<Rightarrow> int" where
  "persona_limit c brief = (if brief then min (pf_persona_chars c) (pf_compact_persona c) else pf_persona_chars c)"

definition with_memory :: "ustr \<Rightarrow> ustr option \<Rightarrow> memory_read \<Rightarrow> persona_prompt" where
  "with_memory text0 path pm =
     \<lparr>pp_text = text0, pp_memory_text = mr_text pm, pp_truncated = mr_truncated pm, pp_path = path, pp_limit = mr_limit pm,
      pp_loaded = int (mr_loaded pm), pp_total = int (mr_total pm)\<rparr>"

definition found_path :: "memory_ops \<Rightarrow> memory_read \<Rightarrow> ustr option" where
  "found_path m pm = (if mr_found pm then Some (mo_persona_path m) else None)"

definition exists_in :: "prompt_env \<Rightarrow> ustr \<Rightarrow> bool" where
  "exists_in env p \<longleftrightarrow> en_mtime env p \<noteq> None"

definition narrative :: "prompt_env \<Rightarrow> ustr \<Rightarrow> session_record option \<Rightarrow> py_exn + ustr" where
  "narrative env chat r = map_sum id (\<lambda>e. wake_narrative (en_iso env) e r) (last_wake_event chat (en_log env))"

definition nonempty_parts :: "ustr list \<Rightarrow> ustr list" where
  "nonempty_parts ps = filter (\<lambda>p. p \<noteq> []) ps"

definition opt_or_empty :: "ustr option \<Rightarrow> ustr" where
  "opt_or_empty x = (case x of None \<Rightarrow> [] | Some s \<Rightarrow> s)"

definition formatted_message :: "prompt_env \<Rightarrow> user_message \<Rightarrow> py_exn + ustr" where
  "formatted_message env msg = format_user_message (en_str env) (pf_quote (en_cfg env)) (en_registry env) (en_format_hook env) msg"

text \<open>What a first prompt loads.\<close>

definition first_pieces :: "prompt_env \<Rightarrow> memory_ops \<Rightarrow> ustr \<Rightarrow> ustr \<Rightarrow> ustr \<Rightarrow> bool \<Rightarrow> pieces" where
  "first_pieces env m formatted model persona brief =
     (let c = en_cfg env; (recall, short) = load_recall_and_short_term env m formatted model brief (if brief then Soul_fresh else Soul_full) True;
          pm = mo_persona m (persona_limit c brief); fresh_query = (brief \<and> wants_memory_recall (en_lower env) (pf_triggers c) formatted)
      in \<lparr>pi_persona = with_memory persona (found_path m pm) pm, pi_recall = recall, pi_short = short, pi_status = mo_status m,
          pi_promoted = mr_text (mo_promoted m (if brief then Some (pf_compact_promoted c) else None)),
          pi_chat_mem = (if brief \<and> \<not> fresh_query then chat_memory_summary (mo_status m)
                         else mo_chat_block m (if brief then Some (pf_compact_chat c) else None))\<rparr>)"

record first_args =
  fa_message :: user_message
  fa_model :: "ustr option"
  fa_continuation :: "ustr option"
  fa_interrupted :: "ustr option"
  fa_skills :: "ustr list option"
  fa_rehydrated :: bool
  fa_reason :: "rehydration option"

definition first_ctx :: "prompt_env \<Rightarrow> first_args \<Rightarrow> build_ctx" where
  "first_ctx env a =
     (let reason = resolved_reason (fa_reason a) (fa_rehydrated a)
      in en_before_build env \<lparr>bc_model = Some (engine_model env (fa_model a)), bc_is_first = True, bc_continuation = fa_continuation a,
           bc_interrupted = fa_interrupted a, bc_rehydrated = fa_rehydrated a, bc_reason = reason, bc_compact = reason \<in> set COMPACT_REASONS\<rparr>)"

definition first_assembly :: "prompt_env \<Rightarrow> first_args \<Rightarrow> build_ctx \<Rightarrow> ustr option \<Rightarrow> assembly" where
  "first_assembly env a bc notice =
     (let brief = (resolved_reason (fa_reason a) (fa_rehydrated a) \<in> set COMPACT_REASONS)
      in \<lparr>as_brief = brief, as_mode = (if brief then Soul_fresh else Soul_full), as_first = True, as_record_persona = True, as_record_chat = True,
          as_last_time = None, as_force_new = False, as_notice = notice, as_metrics_brief = brief,
          as_wake_budget = (if brief \<and> pf_wake_budget (en_cfg env) > 0 then Some (pf_wake_budget (en_cfg env)) else None),
          as_force_slots = (if brief then SOUL_SLOTS else []), as_skill_names = fa_skills a, as_model = engine_model env (bc_model bc)\<rparr>)"

definition build_first ::
  "prompt_env \<Rightarrow> ustr \<Rightarrow> session_record option \<Rightarrow> first_args \<Rightarrow> builder_state \<Rightarrow> builder_state \<times> (py_exn + prompt_context)" where
  "build_first env chat r a s0 =
     (let s = reset_cache chat s0; bc = first_ctx env a;
          brief = (resolved_reason (fa_reason a) (fa_rehydrated a) \<in> set COMPACT_REASONS); m = en_memory env chat
      in case formatted_message env (fa_message a) of
           Inl e \<Rightarrow> (s, Inl e)
         | Inr formatted \<Rightarrow>
             (case (if brief then Inr (identity_anchor (en_files env) (pf_persona (en_cfg env))) else compose_persona (en_files env) (pf_persona (en_cfg env))) of
                Inl e \<Rightarrow> (s, Inl e)
              | Inr persona \<Rightarrow>
                  let p = first_pieces env m formatted (engine_model env (bc_model bc)) persona brief;
                      notice = build_system_notice (exists_in env) (pi_persona p) (pi_recall p) (pi_status p)
                  in case (if fa_rehydrated a \<or> r \<noteq> None \<and> en_log env \<noteq> None then narrative env chat r else Inr []) of
                       Inl e \<Rightarrow> (s, Inl e)
                     | Inr wn \<Rightarrow>
                         (case assemble_prompt env chat r (first_assembly env a bc notice) m bc
                                 (nonempty_parts [rehydration_notice (bc_reason bc), wn, opt_or_empty notice]) formatted p s of
                            (s1, Inl e) \<Rightarrow> (s1, Inl e)
                          | (s1, Inr px) \<Rightarrow> (s1, Inr (en_after_first env px)))))"

subsection \<open>\<open>build_follow_up\<close>\<close>

record follow_args =
  fo_message :: user_message
  fo_continuation :: "ustr option"
  fo_interrupted :: "ustr option"
  fo_skills :: "ustr list option"
  fo_rehydrated :: bool
  fo_reason :: "rehydration option"

text \<open>One turn is granted before a session is rebuilt for pressure.\<close>

definition grants_handoff :: "prompt_config \<Rightarrow> session_record option \<Rightarrow> bool \<Rightarrow> bool" where
  "grants_handoff c r force \<longleftrightarrow> force \<and> pf_handoff c \<and> (case r of None \<Rightarrow> False | Some x \<Rightarrow> \<not> sr_pressure_handoff_done x)"

definition follow_ctx :: "prompt_env \<Rightarrow> follow_args \<Rightarrow> session_record option \<Rightarrow> soul \<Rightarrow> build_ctx" where
  "follow_ctx env a r mode =
     en_before_build env \<lparr>bc_model = map_option sr_model r, bc_is_first = False, bc_continuation = fo_continuation a,
       bc_interrupted = fo_interrupted a, bc_rehydrated = fo_rehydrated a,
       bc_reason = (if mode = Soul_fresh then R_fresh else resolved_reason (fo_reason a) (fo_rehydrated a)), bc_compact = (mode = Soul_fresh)\<rparr>"

definition no_persona_memory :: memory_read where
  "no_persona_memory = \<lparr>mr_text = [], mr_found = False, mr_truncated = False, mr_limit = 0, mr_loaded = 0, mr_total = 0\<rparr>"

definition loads_persona :: "prompt_env \<Rightarrow> ustr \<Rightarrow> soul \<Rightarrow> builder_state \<Rightarrow> bool" where
  "loads_persona env chat mode s \<longleftrightarrow>
     mode = Soul_full \<or> mode = Soul_fresh \<and> file_changed (en_mtime env) chat (Some (mo_persona_path (en_memory env chat))) s"

definition loads_chat :: "prompt_env \<Rightarrow> ustr \<Rightarrow> soul \<Rightarrow> builder_state \<Rightarrow> bool" where
  "loads_chat env chat mode s \<longleftrightarrow>
     mode = Soul_full \<or> mode = Soul_fresh \<or> file_changed (en_mtime env) chat (mo_chat_path (en_memory env chat)) s"

definition follow_pieces :: "prompt_env \<Rightarrow> ustr \<Rightarrow> ustr \<Rightarrow> ustr \<Rightarrow> soul \<Rightarrow> rehydration \<Rightarrow> builder_state \<Rightarrow> pieces" where
  "follow_pieces env chat formatted model mode reason s =
     (let c = en_cfg env; m = en_memory env chat; brief = (mode = Soul_fresh);
          (recall, short) = load_recall_and_short_term env m formatted model brief mode (reason \<noteq> R_resumed);
          persona = identity_anchor (en_files env) (pf_persona c)
      in \<lparr>pi_persona = (if loads_persona env chat mode s
                         then let pm = mo_persona m (persona_limit c brief) in with_memory persona (found_path m pm) pm
                         else with_memory persona (Some (mo_persona_path m)) no_persona_memory),
          pi_recall = recall, pi_short = short, pi_status = mo_status m,
          pi_promoted = mr_text (mo_promoted m (if brief then Some (pf_compact_promoted c) else None)),
          pi_chat_mem = (if loads_chat env chat mode s then mo_chat_block m (if brief then Some (pf_compact_chat c) else None) else None)\<rparr>)"

definition HANDOFF_NOTICE :: ustr where
  "HANDOFF_NOTICE = u ''Context window is nearly full '' @ [8212] @ u '' this is your handoff turn. The next turn will start a fresh session with compacted memory, so while you still hold full context, write what the next you needs: update your self_state/next-self handoff and felt state, and promote any facts worth keeping. Still reply to the user, but the handoff is the priority.''"

definition FRESH_NOTICE :: ustr where
  "FRESH_NOTICE = u ''Fresh ACP session for context pressure. Persona memory is compacted and long-term recall is skipped unless the user asks about memory. If you need long-term facts, call `memory_recall(query, tags)`.''"

definition soul_notice :: "prompt_env \<Rightarrow> ustr \<Rightarrow> session_record option \<Rightarrow> bool \<Rightarrow> bool \<Rightarrow> soul \<Rightarrow> py_exn + ustr" where
  "soul_notice env chat r handoff force mode =
     (if handoff then Inr HANDOFF_NOTICE
      else if force
      then (if mode = Soul_fresh then map_sum id (\<lambda>wn. FRESH_NOTICE @ (if wn \<noteq> [] then 32 # wn else [])) (narrative env chat r)
            else Inr (u ''Context window is nearly full. This prompt includes the full soul and a fresh ACP session will be started.''))
      else if mode = Soul_small
      then Inr (u ''Context pressure is high. Re-injecting the cheap soul slots (self_state, body, wake, mesh, self_narrative) to keep continuity.'')
      else if mode = Soul_full
      then Inr (u ''Re-injecting the full soul: persona memory, chat memory, recall, and identity slots.'')
      else Inr [])"

definition follow_assembly :: "prompt_env \<Rightarrow> ustr \<Rightarrow> follow_args \<Rightarrow> build_ctx \<Rightarrow> soul \<Rightarrow> bool \<Rightarrow> ustr option \<Rightarrow> builder_state \<Rightarrow> assembly" where
  "follow_assembly env chat a bc mode force notice s =
     \<lparr>as_brief = (mode = Soul_fresh), as_mode = mode, as_first = False, as_record_persona = loads_persona env chat mode s,
      as_record_chat = loads_chat env chat mode s, as_last_time = dget chat (bs_prompt_time s), as_force_new = force, as_notice = notice,
      as_metrics_brief = True, as_wake_budget = None, as_force_slots = (if mode = Soul_normal then [] else SOUL_SLOTS),
      as_skill_names = fo_skills a, as_model = engine_model env (bc_model bc)\<rparr>"

text \<open>The stub is written before the prompt is built; what it raises ends the turn.\<close>

definition write_stub :: "prompt_env \<Rightarrow> ustr \<Rightarrow> session_record \<Rightarrow> ustr \<Rightarrow> builder_state \<Rightarrow> template_error + builder_state" where
  "write_stub env chat r arriving s =
     (case write_handoff_stub (en_writable env)
             (stub_for (en_str env) (en_snapshot env chat) (sr_session_number r) (next_turn_number r) arriving (en_stamp env)) (dget chat (bs_self_state s)) of
        Inl e \<Rightarrow> Inl e
      | Inr (w, f) \<Rightarrow> Inr (case f of None \<Rightarrow> s | Some t \<Rightarrow> s\<lparr>bs_self_state := dset chat t (bs_self_state s)\<rparr>))"

definition follow_up_prompt ::
  "prompt_env \<Rightarrow> ustr \<Rightarrow> session_record option \<Rightarrow> follow_args \<Rightarrow> ustr \<Rightarrow> soul \<Rightarrow> bool \<Rightarrow> bool \<Rightarrow> builder_state \<Rightarrow> builder_state \<times> (py_exn + prompt_context)" where
  "follow_up_prompt env chat r a formatted mode handoff force s =
     (let bc = follow_ctx env a r mode;
          p = follow_pieces env chat formatted (engine_model env (bc_model bc)) mode
                (if mode = Soul_fresh then R_fresh else resolved_reason (fo_reason a) (fo_rehydrated a)) s;
          notice = build_system_notice (exists_in env) (pi_persona p) (pi_recall p) (pi_status p)
      in case soul_notice env chat r handoff force mode of
           Inl e \<Rightarrow> (s, Inl e)
         | Inr sn \<Rightarrow>
             (case assemble_prompt env chat r (follow_assembly env chat a bc mode force notice s) (en_memory env chat) bc
                     (nonempty_parts [rehydration_notice (bc_reason bc), sn, opt_or_empty notice]) formatted p s of
                (s1, Inl e) \<Rightarrow> (s1, Inl e)
              | (s1, Inr px) \<Rightarrow>
                  (case r of
                     Some x \<Rightarrow> if mode = Soul_full then (s1\<lparr>bs_full_soul_turn := dset chat (sr_turn_number x) (bs_full_soul_turn s1)\<rparr>, Inr px) else (s1, Inr px)
                   | None \<Rightarrow> (s1, Inr px))))"

definition build_follow_up ::
  "prompt_env \<Rightarrow> ustr \<Rightarrow> session_record option \<Rightarrow> follow_args \<Rightarrow> builder_state \<Rightarrow> builder_state \<times> session_record option \<times> (prompt_error + prompt_context)" where
  "build_follow_up env chat r a s =
     (let c = en_cfg env
      in case formatted_message env (fo_message a) of
           Inl e \<Rightarrow> (s, r, Inl (Raised e))
         | Inr formatted \<Rightarrow>
             (case soul_mode (en_lower env) (en_window env) (pf_pressure c) (identity_anchor (en_files env) (pf_persona c)) (bs_full_soul_turn s)
                     chat r (fo_rehydrated a) formatted of
                Inl e \<Rightarrow> (s, r, Inl (Raised e))
              | Inr (mode0, force0) \<Rightarrow>
                  let handoff = grants_handoff c r force0;
                      r1 = (if handoff then map_option (\<lambda>x. x\<lparr>sr_pressure_handoff_done := True\<rparr>) r else r);
                      force = (force0 \<and> \<not> handoff); mode = (if handoff then Soul_small else mode0)
                  in case (case r1 of
                             Some x \<Rightarrow> if (handoff \<or> force) \<and> pf_handoff_stub c then write_stub env chat x (um_raw (fo_message a)) s else Inr s
                           | None \<Rightarrow> Inr s) of
                       Inl e \<Rightarrow> (s, r1, Inl (Template e))
                     | Inr s1 \<Rightarrow>
                         (case follow_up_prompt env chat r1 a formatted mode handoff force s1 of
                            (s2, x) \<Rightarrow> (s2, r1, map_sum Raised id x))))"

end
