(* ===== verification/PromptFacts.thy ===== *)
theory PromptFacts
  imports PromptBuild
begin

section \<open>What a prompt holds\<close>

text \<open>
  The required slots reach every prompt; the wake budget is met or nothing optional is left; the handoff turn is granted
  once; the chat memory is shown again exactly when its file has changed; a quote that is cut exceeds its limit.
\<close>

subsection \<open>Rendering\<close>

lemma join_blank_sublist: "x \<in> set xs \<Longrightarrow> sublist x (join_blank xs)"
proof (induction xs rule: join_blank.induct)
  case (3 a b ys)
  show ?case
  proof (cases "x = a")
    case False
    then have "sublist x (join_blank (b # ys))" using 3 by simp
    then show ?thesis by (simp add: sublist_append sublist_Cons_right)
  qed simp
qed simp_all

lemma rendered: "k \<in> set PROMPT_SLOT_ORDER \<Longrightarrow> x \<in> set (slot_texts s k) \<Longrightarrow> sublist x (render_slots s)"
  unfolding render_slots_def by (rule join_blank_sublist) auto

lemma required_ordered: "k \<in> set PROMPT_REQUIRED_SLOTS \<Longrightarrow> k \<in> set PROMPT_SLOT_ORDER"
  by (auto simp: PROMPT_REQUIRED_SLOTS_def PROMPT_SLOT_ORDER_def)

lemma dget_concat:
  "f k xs = [(k, xs)] \<or> (\<forall>v. dget k s \<noteq> Some v) \<or> dget k s \<noteq> Some xs \<Longrightarrow> (\<And>j ys p. p \<in> set (f j ys) \<Longrightarrow> fst p = j) \<Longrightarrow>
   dget k s = Some xs \<Longrightarrow> dget k (concat (map (\<lambda>(j, ys). f j ys) s)) = Some xs"
proof (induction s)
  case (Cons p s)
  obtain j ys where p: "p = (j, ys)" by force
  show ?case
  proof (cases "j = k")
    case True
    with Cons.prems p show ?thesis by auto
  next
    case False
    then have "k \<notin> fst ` set (f j ys)" using Cons.prems(2) by fastforce
    then have "dget k (f j ys) = None" by (simp add: map_of_eq_None_iff)
    with False Cons p show ?thesis by (auto simp: map_add_def)
  qed
qed simp

lemma capped_keys: "p \<in> set (if slot_allowed cfg force j then capped_slot cfg j ys else []) \<Longrightarrow> fst p = j"
  by (auto simp: capped_slot_def Let_def split: option.splits if_splits)

lemma blocks_keep_required:
  assumes "k \<in> set PROMPT_REQUIRED_SLOTS" and "dget k (bl_caps cfg) = None" and "dget k s = Some xs"
  shows "dget k (apply_prompt_blocks cfg force s) = Some xs"
proof -
  have "(if slot_allowed cfg force k then capped_slot cfg k xs else []) = [(k, xs)]"
    using assms(1,2) by (simp add: slot_allowed_def capped_slot_def)
  then have "dget k (concat (map (\<lambda>(j, ys). if slot_allowed cfg force j then capped_slot cfg j ys else []) s)) = Some xs"
    by (intro dget_concat [of "\<lambda>j ys. if slot_allowed cfg force j then capped_slot cfg j ys else []"] disjI1 assms(3) capped_keys)
  with assms(3) show ?thesis by (simp add: apply_prompt_blocks_def)
qed

lemma dget_clear: "dget k (clear_slots P s) = map_option (\<lambda>xs. if P k then [] else xs) (dget k s)"
  by (induction s) (auto simp: clear_slots_def)

lemma clear_keeps [simp]: "\<not> P k \<Longrightarrow> slot_texts (clear_slots P s) k = slot_texts s k"
  by (simp add: slot_texts_def dget_clear split: option.split)

lemma clear_empties: "P k \<Longrightarrow> slot_texts (clear_slots P s) k = []"
  by (simp add: slot_texts_def dget_clear split: option.split)

subsection \<open>The wake budget\<close>

lemma trim_steps_result:
  "trim_steps est budget sts s = Inr t \<Longrightarrow>
   (\<exists>n. est (render_slots t) = Inr n \<and> n \<le> budget \<and> (\<forall>k \<in> set PROTECTED_SLOTS. slot_texts t k = slot_texts s k))
   \<or> (\<forall>k. slot_texts t k = (if k \<in> set PROMPT_REQUIRED_SLOTS then slot_texts s k else []))"
proof (induction est budget sts s rule: trim_steps.induct)
  case (1 est budget s)
  then show ?case by (auto simp: drop_optional_def clear_empties)
next
  case (2 est budget st sts s)
  then obtain n where n: "est (render_slots (clear_step st s)) = Inr n" by (cases "est (render_slots (clear_step st s))") auto
  have keep: "slot_texts (clear_step st s) k = slot_texts s k" if "k \<in> set PROTECTED_SLOTS" for k using that by (simp add: clear_step_def)
  show ?case
  proof (cases "n \<le> budget")
    case True
    with 2 n keep show ?thesis by auto
  next
    case False
    with 2 n have "trim_steps est budget sts (clear_step st s) = Inr t" by simp
    from 2(1) [OF n False this] keep show ?thesis by (auto simp: PROTECTED_SLOTS_def)
  qed
qed

text \<open>
  Claim C24.  A wake prompt fits its budget or holds nothing optional: whatever the token estimate is, the trimmed slots
  render to a prompt that is estimated within the budget and still has every protected slot (identity, notice,
  message, continuation and the soul) unchanged, or they are the required slots, unchanged, and nothing else.
\<close>

theorem wake_prompt_fits_or_is_minimal:
  assumes "trim_slots_to_budget est budget s = Inr (t, p)"
  shows "p = render_slots t
    \<and> ((\<exists>n. est p = Inr n \<and> n \<le> budget \<and> (\<forall>k \<in> set PROTECTED_SLOTS. slot_texts t k = slot_texts s k))
       \<or> (\<forall>k. slot_texts t k = (if k \<in> set PROMPT_REQUIRED_SLOTS then slot_texts s k else [])))"
proof -
  obtain n where n: "est (render_slots s) = Inr n" using assms by (cases "est (render_slots s)") (auto simp: trim_slots_to_budget_def)
  show ?thesis
  proof (cases "n \<le> budget")
    case True
    with n assms show ?thesis by (auto simp: trim_slots_to_budget_def)
  next
    case False
    with n assms obtain "trim_steps est budget WAKE_TRIM_STEPS s = Inr t" "p = render_slots t"
      by (auto simp: trim_slots_to_budget_def map_sum_def split: sum.splits)
    with trim_steps_result [OF this(1)] show ?thesis by simp
  qed
qed

lemma texts_dset: "slot_texts (dset j xs s) k = (if k = j then xs else slot_texts s k)"
  by (simp add: slot_texts_def)

lemma trimmed_required:
  "trim_slots_to_budget est budget s = Inr (t, p) \<Longrightarrow> k \<in> set PROMPT_REQUIRED_SLOTS \<Longrightarrow> slot_texts t k = slot_texts s k"
proof -
  assume a: "trim_slots_to_budget est budget s = Inr (t, p)" and k: "k \<in> set PROMPT_REQUIRED_SLOTS"
  then obtain n where n: "est (render_slots s) = Inr n" by (cases "est (render_slots s)") (auto simp: trim_slots_to_budget_def)
  show ?thesis
  proof (cases "n \<le> budget")
    case False
    with n a have "trim_steps est budget WAKE_TRIM_STEPS s = Inr t"
      by (auto simp: trim_slots_to_budget_def map_sum_def split: sum.splits)
    from trim_steps_result [OF this] k show ?thesis by (auto simp: PROTECTED_SLOTS_def)
  qed (use n a in \<open>auto simp: trim_slots_to_budget_def\<close>)
qed

lemma budget_prefix: "wake_context_budget_line f b mode n = Some l \<Longrightarrow> prefix (u ''[Wake context budget:'') l"
  by (auto simp: wake_context_budget_line_def u_def split: if_splits)

lemma fitted:
  assumes "fit_to_wake_budget env est budget parts mode s = Inr t"
  shows "(\<forall>k \<in> set PROMPT_REQUIRED_SLOTS. k \<noteq> u ''system_notice'' \<longrightarrow> slot_texts t k = slot_texts s k)
    \<and> (pf_wake_budget (en_cfg env) \<noteq> 0 \<longrightarrow> (\<exists>l. slot_texts t (u ''system_notice'') = [format_system_notice (parts @ [l]) True]))"
proof -
  let ?line = "\<lambda>n. wake_context_budget_line (en_fmt1 env) (pf_wake_budget (en_cfg env)) (soul_name mode) n"
  have req: "u ''system_notice'' \<in> set PROMPT_REQUIRED_SLOTS" by (simp add: PROMPT_REQUIRED_SLOTS_def)
  obtain n where n: "est (render_slots s) = Inr n" using assms by (cases "est (render_slots s)") (auto simp: fit_to_wake_budget_def)
  define p1 where "p1 = (case ?line n of None \<Rightarrow> parts | Some l \<Rightarrow> parts @ [l])"
  define s1 where "s1 = (case ?line n of None \<Rightarrow> s | Some l \<Rightarrow> dset (u ''system_notice'') [format_system_notice (parts @ [l]) True] s)"
  have both: "(case ?line n of None \<Rightarrow> (parts, s) | Some l \<Rightarrow> (parts @ [l], dset (u ''system_notice'') [format_system_notice (parts @ [l]) True] s)) = (p1, s1)"
    by (simp add: p1_def s1_def split: option.split)
  have k1: "slot_texts s1 k = slot_texts s k" if "k \<noteq> u ''system_notice''" for k using that by (simp add: s1_def texts_dset split: option.split)
  have l1: "\<exists>l. ?line n = Some l" if "pf_wake_budget (en_cfg env) \<noteq> 0" using that by (simp add: wake_context_budget_line_def)
  obtain n1 where n1: "est (render_slots s1) = Inr n1" using assms n both by (cases "est (render_slots s1)") (auto simp: fit_to_wake_budget_def Let_def)
  show ?thesis
  proof (cases "n1 \<le> budget")
    case True
    then have "t = s1" using assms n both n1 by (simp add: fit_to_wake_budget_def Let_def)
    with k1 l1 show ?thesis by (force simp: s1_def texts_dset)
  next
    case False
    let ?fin = "\<lambda>n2 s2. case ?line n2 of Some l \<Rightarrow> if p1 \<noteq> [] then dset (u ''system_notice'') [format_system_notice (replace_line p1 l) True] s2 else s2 | None \<Rightarrow> s2"
    have F: "(case trim_slots_to_budget est budget s1 of
        Inl e \<Rightarrow> Inl e
      | Inr (s2, p2) \<Rightarrow>
          (case est p2 of
             Inl e \<Rightarrow> Inl e
           | Inr n2 \<Rightarrow>
               (case ?line n2 of
                  Some l \<Rightarrow> if p1 \<noteq> [] then Inr (dset (u ''system_notice'') [format_system_notice (replace_line p1 l) True] s2) else Inr s2
                | None \<Rightarrow> Inr s2))) = Inr t"
      using assms n n1 both False by (simp only: fit_to_wake_budget_def Let_def sum.case prod.case if_False)
    obtain s2 q where s2a: "trim_slots_to_budget est budget s1 = Inr (s2, q)" using F by (cases "trim_slots_to_budget est budget s1") auto
    obtain n2 where n2: "est q = Inr n2" using F s2a by (cases "est q") auto
    have t: "t = ?fin n2 s2" using F s2a n2 by (cases "?line n2") (auto split: if_splits)
    note s2 = s2a n2
    have k2: "slot_texts s2 k = slot_texts s1 k" if "k \<in> set PROMPT_REQUIRED_SLOTS" for k using trimmed_required [OF s2(1) that] .
    have "slot_texts t k = slot_texts s k" if "k \<in> set PROMPT_REQUIRED_SLOTS" "k \<noteq> u ''system_notice''" for k
      using that k1 k2 by (simp add: t texts_dset split: option.split)
    moreover have "\<exists>l. slot_texts t (u ''system_notice'') = [format_system_notice (parts @ [l]) True]" if z: "pf_wake_budget (en_cfg env) \<noteq> 0"
    proof -
      obtain l where l: "?line n = Some l" using l1 z by blast
      obtain m where m: "?line n2 = Some m" using z by (simp add: wake_context_budget_line_def)
      have "p1 = parts @ [l]" using l by (simp add: p1_def)
      then have "p1 \<noteq> []" "replace_line p1 m = parts @ [m]" using budget_prefix [OF l] by (simp_all add: replace_line_def)
      with m show ?thesis by (auto simp: t texts_dset)
    qed
    ultimately show ?thesis by blast
  qed
qed

subsection \<open>From the pieces to the prompt\<close>

text \<open>Plugins may add texts to a slot, not take them.\<close>

definition keeps_slot :: "prompt_env \<Rightarrow> ustr \<Rightarrow> bool" where
  "keeps_slot env k \<longleftrightarrow> (\<forall>bc t f s b. set (slot_texts s k) \<subseteq> set (slot_texts (fst (en_fill env bc t f s b)) k))"

lemma added: "add_texts xs s = Inr t \<Longrightarrow> set (slot_texts s k) \<subseteq> set (slot_texts t k)"
proof (induction xs s rule: add_texts.induct)
  case (2 k' x xs s)
  then obtain ts where ts: "dget k' s = Some ts" "add_texts xs (dset k' (ts @ [x]) s) = Inr t" by (auto split: option.splits)
  from 2(1) [OF ts] have "set (slot_texts (dset k' (ts @ [x]) s) k) \<subseteq> set (slot_texts t k)" .
  moreover have "set (slot_texts s k) \<subseteq> set (slot_texts (dset k' (ts @ [x]) s) k)" using ts(1) by (auto simp: texts_dset slot_texts_def)
  ultimately show ?case by blast
qed simp

lemma filled_keeps:
  assumes "filled_slots env chat a bc parts formatted p blocks = (b, Inr t)" and "keeps_slot env k"
  shows "set (slot_texts (initial_slots (pp_text (pi_persona p)) formatted) k) \<subseteq> set (slot_texts t k)"
proof -
  obtain s1 where s1: "add_texts (loaded_texts parts (as_brief a) p) (initial_slots (pp_text (pi_persona p)) formatted) = Inr s1"
    using assms(1) by (auto simp: filled_slots_def split: sum.splits)
  obtain s2 b2 where s2: "en_fill env bc (as_last_time a) (as_force_slots a) s1 blocks = (s2, b2)" by force
  obtain xs where "add_texts xs s2 = Inr t"
    using assms(1) s1 s2 by (auto simp: filled_slots_def map_sum_def split: sum.splits)
  from added [OF this] added [OF s1, of k] assms(2) s2 show ?thesis unfolding keeps_slot_def by (metis (no_types, lifting) dual_order.trans fst_conv)
qed

lemma slot_at: "slot_texts (initial_slots persona formatted) (u ''user'') = [formatted]" "slot_texts (initial_slots persona formatted) (u ''identity'') = [persona]"
  by (simp_all add: initial_slots_def slot_texts_def u_def)

lemma assembled:
  assumes "assemble_prompt env chat r a m bc parts formatted p s = (s', Inr px)" and "en_after_build env = id"
    and "k \<in> {u ''user'', u ''identity''}" and "keeps_slot env k" and "dget k (bl_caps (pf_blocks (en_cfg env))) = None"
  shows "\<forall>x \<in> set (slot_texts (initial_slots (pp_text (pi_persona p)) formatted) k). sublist x (px_prompt px)"
proof
  fix x assume x: "x \<in> set (slot_texts (initial_slots (pp_text (pi_persona p)) formatted) k)"
  have req: "k \<in> set PROMPT_REQUIRED_SLOTS" "k \<noteq> u ''system_notice''" using assms(3) by (auto simp: PROMPT_REQUIRED_SLOTS_def u_def)
  obtain ps fs fb t b t2 where f: "filled_slots env chat a bc ps formatted p fb = (b, Inr t)"
    and fit: "(case as_wake_budget a of
                 Some n \<Rightarrow> if as_brief a then fit_to_wake_budget env (\<lambda>t. estimate_prompt_tokens (en_lower env) (pf_pressure (en_cfg env)) t r) n ps (as_mode a)
                     (apply_prompt_blocks (pf_blocks (en_cfg env)) (as_force_slots a) t) else Inr (apply_prompt_blocks (pf_blocks (en_cfg env)) (as_force_slots a) t)
               | None \<Rightarrow> Inr (apply_prompt_blocks (pf_blocks (en_cfg env)) (as_force_slots a) t)) = Inr t2"
    and px: "px_prompt px = render_slots t2"
    using assms(1,2) by (auto simp: assemble_prompt_def Let_def split: sum.splits prod.splits)
  have "x \<in> set (slot_texts t k)" using filled_keeps [OF f assms(4)] x by blast
  then obtain xs where xs: "dget k t = Some xs" "x \<in> set xs" by (cases "dget k t") (simp_all add: slot_texts_def)
  have "x \<in> set (slot_texts (apply_prompt_blocks (pf_blocks (en_cfg env)) (as_force_slots a) t) k)"
    using blocks_keep_required [OF req(1) assms(5) xs(1)] xs(2) by (simp add: slot_texts_def)
  then have "x \<in> set (slot_texts t2 k)" using fit fitted req by (fastforce split: option.splits if_splits)
  then show "sublist x (px_prompt px)" unfolding px by (rule rendered [OF required_ordered [OF req(1)]])
qed

lemma first_persona: "pp_text (pi_persona (first_pieces env m formatted model persona brief)) = persona"
  by (simp add: first_pieces_def with_memory_def Let_def case_prod_unfold)

lemma follow_persona: "pp_text (pi_persona (follow_pieces env chat formatted model mode reason s)) = identity_anchor (en_files env) (pf_persona (en_cfg env))"
  by (simp add: follow_pieces_def with_memory_def Let_def case_prod_unfold)

definition persona_in_prompt :: "prompt_env \<Rightarrow> ustr \<Rightarrow> bool" where
  "persona_in_prompt env p \<longleftrightarrow>
     sublist (identity_anchor (en_files env) (pf_persona (en_cfg env))) p
     \<or> (\<exists>t. compose_persona (en_files env) (pf_persona (en_cfg env)) = Inr t \<and> sublist t p)"

text \<open>
  Claim C20.  The message and the identity reach every prompt: with plugins that take nothing from those two slots, and no cap on
  them, a first prompt and a follow-up both hold the whole formatted message and the persona (the composed files or the
  anchor that links them), whatever the allow and deny lists are and however much the wake budget trims.
\<close>

theorem message_and_identity_reach_the_prompt:
  assumes "formatted_message env (fa_message fa) = Inr f1" and "build_first env chat r fa s = (s1, Inr px1)"
    and "formatted_message env (fo_message fo) = Inr f2" and "build_follow_up env chat r fo s = (s2, r2, Inr px2)"
    and "en_after_build env = id" and "en_after_first env = id" and "keeps_slot env (u ''user'')" and "keeps_slot env (u ''identity'')"
    and "dget (u ''user'') (bl_caps (pf_blocks (en_cfg env))) = None" and "dget (u ''identity'') (bl_caps (pf_blocks (en_cfg env))) = None"
  shows "sublist f1 (px_prompt px1) \<and> persona_in_prompt env (px_prompt px1) \<and> sublist f2 (px_prompt px2) \<and> persona_in_prompt env (px_prompt px2)"
proof -
  have 1: "\<forall>x \<in> set (slot_texts (initial_slots (pp_text (pi_persona p)) f) (u ''user'')). sublist x (px_prompt px)"
    "\<forall>x \<in> set (slot_texts (initial_slots (pp_text (pi_persona p)) f) (u ''identity'')). sublist x (px_prompt px)"
    if "assemble_prompt env chat ra a m bc parts f p sa = (sb, Inr px)" for ra a m bc parts f p sa sb px
    using assembled [OF that assms(5), of "u ''user''"] assembled [OF that assms(5), of "u ''identity''"] assms(7-10) by simp_all
  obtain persona a bc parts m model brief sb px where b: "assemble_prompt env chat r a m bc parts f1 (first_pieces env m f1 model persona brief) (reset_cache chat s) = (sb, Inr px)"
    "(if brief then Inr (identity_anchor (en_files env) (pf_persona (en_cfg env))) else compose_persona (en_files env) (pf_persona (en_cfg env))) = Inr persona"
    "px1 = px"
    using assms(1,2,6) by (auto simp: build_first_def Let_def split: sum.splits prod.splits)
  have p: "persona_in_prompt env (px_prompt px1)" "sublist f1 (px_prompt px1)"
    using 1 [OF b(1)] b(2,3) by (auto simp: first_persona slot_at persona_in_prompt_def split: if_splits)
  obtain mode handoff force sc r3 where "follow_up_prompt env chat r3 fo f2 mode handoff force sc = (s2, Inr px2)"
    using assms(3,4) by (auto simp: build_follow_up_def Let_def map_sum_def split: sum.splits prod.splits)
  then obtain a bc parts m model reason sb where
    "assemble_prompt env chat r3 a m bc parts f2 (follow_pieces env chat f2 model mode reason sc) sc = (sb, Inr px2)"
    by (auto simp: follow_up_prompt_def Let_def split: sum.splits prod.splits option.splits if_splits)
  from 1 [OF this] have "persona_in_prompt env (px_prompt px2)" "sublist f2 (px_prompt px2)"
    by (auto simp: follow_persona slot_at persona_in_prompt_def)
  with p show ?thesis by blast
qed

text \<open>
  The cap of the system notice does not hold for a wake with a budget: the notice is written anew after the caps, with
  every part it has.
\<close>

theorem wake_budget_lifts_the_notice_cap:
  assumes "fit_to_wake_budget env est budget parts mode (apply_prompt_blocks cfg force s) = Inr t" and "pf_wake_budget (en_cfg env) \<noteq> 0"
  shows "\<exists>l. slot_texts t (u ''system_notice'') = [format_system_notice (parts @ [l]) True]"
  using fitted [OF assms(1)] assms(2) by blast

subsection \<open>The handoff turn\<close>

lemma assembled_force:
  assumes "assemble_prompt env chat r a m bc parts formatted p s = (s', Inr px)" and "en_after_build env = id"
  shows "px_force_new px = as_force_new a"
  using assms by (auto simp: assemble_prompt_def Let_def split: sum.splits prod.splits)

lemma follow_force:
  assumes "follow_up_prompt env chat r a formatted mode handoff force s = (s', Inr px)" and "en_after_build env = id"
  shows "px_force_new px = force"
proof -
  obtain bc parts p notice sb where
    "assemble_prompt env chat r (follow_assembly env chat a bc mode force notice s) (en_memory env chat) bc parts formatted p s = (sb, Inr px)"
    using assms(1) by (auto simp: follow_up_prompt_def Let_def split: sum.splits prod.splits option.splits if_splits)
  from assembled_force [OF this assms(2)] show ?thesis by (simp add: follow_assembly_def)
qed

text \<open>
  Claim C21.  The pressure on the context postpones the rebuild by exactly one turn: when the pressure asks for a new session and
  the record has had no handoff turn, the follow-up stays in the session and marks the record; a later follow-up of
  a record so marked, under pressure again, asks for the new session.
\<close>

theorem handoff_turn_is_granted_once:
  assumes "build_follow_up env chat (Some x) a s = (s1, r1, Inr px1)" and "formatted_message env (fo_message a) = Inr f"
    and "soul_mode (en_lower env) (en_window env) (pf_pressure (en_cfg env)) (identity_anchor (en_files env) (pf_persona (en_cfg env)))
           (bs_full_soul_turn s) chat (Some x) (fo_rehydrated a) f = Inr (m1, True)"
    and "pf_handoff (en_cfg env)" and "\<not> sr_pressure_handoff_done x"
    and "build_follow_up env chat (Some y) b s2 = (s3, r3, Inr px3)" and "formatted_message env (fo_message b) = Inr g"
    and "sr_pressure_handoff_done y"
    and "soul_mode (en_lower env) (en_window env) (pf_pressure (en_cfg env)) (identity_anchor (en_files env) (pf_persona (en_cfg env)))
           (bs_full_soul_turn s2) chat (Some y) (fo_rehydrated b) g = Inr (m3, True)"
    and "en_after_build env = id"
  shows "\<not> px_force_new px1 \<and> r1 = Some (x\<lparr>sr_pressure_handoff_done := True\<rparr>) \<and> px_force_new px3 \<and> r3 = Some y"
proof -
  have g1: "grants_handoff (en_cfg env) (Some x) True" using assms(4,5) by (simp add: grants_handoff_def)
  obtain sa where "r1 = Some (x\<lparr>sr_pressure_handoff_done := True\<rparr>)" "follow_up_prompt env chat r1 a f Soul_small True False sa = (s1, Inr px1)"
    using assms(1-3) g1 by (auto simp: build_follow_up_def Let_def map_sum_def split: sum.splits prod.splits if_splits)
  moreover have g3: "\<not> grants_handoff (en_cfg env) (Some y) True" using assms(8) by (simp add: grants_handoff_def)
  obtain sb where "r3 = Some y" "follow_up_prompt env chat (Some y) b g m3 False True sb = (s3, Inr px3)"
    using assms(6,7,9) g3 by (auto simp: build_follow_up_def Let_def map_sum_def split: sum.splits prod.splits if_splits)
  ultimately show ?thesis using follow_force [OF _ assms(10)] by blast
qed

subsection \<open>The files of the chat\<close>

lemma assembled_mtimes:
  assumes "assemble_prompt env chat r a m bc parts formatted p s = (s', Inr px)"
  shows "bs_mtimes s' = bs_mtimes (recorded_files env chat a m p (if dget chat (bs_blocks s) = None then reset_cache chat s else s))"
  using assms by (auto simp: assemble_prompt_def Let_def split: sum.splits prod.splits)

lemma recorded_time:
  "dget q (mtimes_of chat (record_file mtime chat path s)) = (if path = Some q \<and> mtime q \<noteq> None then mtime q else dget q (mtimes_of chat s))"
  by (auto simp: record_file_def mtimes_of_def split: option.splits Option.bind_splits)

lemma write_stub_times: "write_stub env chat x msg s = Inr t \<Longrightarrow> bs_mtimes t = bs_mtimes s \<and> bs_blocks t = bs_blocks s"
  by (auto simp: write_stub_def split: sum.splits option.splits)

lemma follow_up_records:
  assumes "follow_up_prompt env chat r a f mode handoff force s = (s1, Inr px)"
    and "mo_chat_path (en_memory env chat) = Some p" and "en_mtime env p = Some t"
    and "dget chat (bs_blocks s) \<noteq> None \<or> dget chat (bs_mtimes s) = None"
  shows "\<exists>t1. dget p (mtimes_of chat s1) = Some t1 \<and> t \<le> t1 \<and> (file_changed (en_mtime env) chat (Some p) s \<longrightarrow> t1 = t)"
proof -
  obtain bc parts pc notice s2 where
    a: "assemble_prompt env chat r (follow_assembly env chat a bc mode force notice s) (en_memory env chat) bc parts f pc s = (s2, Inr px)"
    and s1: "bs_mtimes s1 = bs_mtimes s2"
    using assms(1) by (auto simp: follow_up_prompt_def Let_def split: sum.splits prod.splits option.splits if_splits)
  let ?a = "follow_assembly env chat a bc mode force notice s"
  let ?s = "if dget chat (bs_blocks s) = None then reset_cache chat s else s"
  let ?s' = "if as_record_persona ?a then record_file (en_mtime env) chat (pp_path (pi_persona pc)) ?s else ?s"
  have same: "mtimes_of chat ?s = mtimes_of chat s" using assms(4) by (auto simp: mtimes_of_def reset_cache_def)
  have times: "mtimes_of chat s1 = mtimes_of chat (if as_record_chat ?a then record_file (en_mtime env) chat (Some p) ?s' else ?s')"
    using s1 assembled_mtimes [OF a] assms(2) by (simp add: mtimes_of_def recorded_files_def Let_def)
  show ?thesis
  proof (cases "as_record_chat ?a")
    case True
    then have "dget p (mtimes_of chat s1) = Some t" unfolding times using assms(3) by (simp add: recorded_time)
    then show ?thesis by simp
  next
    case False
    then have c: "\<not> file_changed (en_mtime env) chat (Some p) s" using assms(2) by (simp add: follow_assembly_def loads_chat_def)
    then obtain t0 where t0: "dget p (mtimes_of chat s) = Some t0" "t \<le> t0" using assms(3) by (auto simp: file_changed_def split: option.splits)
    have "dget p (mtimes_of chat s1) = (if as_record_persona ?a \<and> pp_path (pi_persona pc) = Some p then Some t else Some t0)"
      unfolding times using False assms(3) t0(1) same by (simp add: recorded_time)
    with t0(2) c show ?thesis by simp
  qed
qed


text \<open>The persona memory is not: without pressure it is left out, even when its file has changed.\<close>

theorem changed_persona_memory_is_not_shown:
  "mode = Soul_normal \<or> mode = Soul_small \<Longrightarrow> pp_memory_text (pi_persona (follow_pieces env chat f model mode reason s)) = []"
  by (auto simp: follow_pieces_def Let_def case_prod_unfold loads_persona_def with_memory_def no_persona_memory_def)

subsection \<open>Quotes\<close>

lemma rfind_absent: "c \<notin> set s \<Longrightarrow> rfind_sub (c # xs) s = -1"
  by (induction s) (auto simp: Let_def)

lemma marker_length: "int (length (truncated_marker n)) \<ge> 33"
  by (simp add: truncated_marker_def u_def)

text \<open>
  A quote that is cut does not fit its limit: the room kept for the marker of a cut quote (30 characters) is less than
  the marker takes, so every quote on one line that is longer than the limit is cut to a text longer than the limit.
\<close>

theorem cut_quote_exceeds_its_limit:
  assumes "0 < limit" and "limit < int (length q)" and "10 \<notin> set q"
  shows "limit < int (length (trim_reply_quote_to q limit))"
proof -
  have sub: "10 \<notin> set (py_upto (limit - 30) q)" using assms(3) by (auto simp: py_upto_def dest: in_set_takeD)
  have t: "section_trim q (limit - 30) = py_upto (limit - 30) q"
    using assms(2) rfind_absent [OF sub, of "[10]"] rfind_absent [OF sub, of "[]"] by (simp add: section_trim_def Let_def)
  have "limit - 30 \<le> int (length (py_upto (limit - 30) q))" using assms(2) by (auto simp: py_upto_def)
  moreover have "trim_reply_quote_to q limit = py_upto (limit - 30) q @ truncated_marker (int (length q) - int (length (py_upto (limit - 30) q)))"
    using assms(1,2) t by (auto simp: trim_reply_quote_to_def Let_def)
  ultimately show ?thesis using marker_length [of "int (length q) - int (length (py_upto (limit - 30) q))"] by simp
qed

end
