(* ===== verification/PromptSamples.thy ===== *)
theory PromptSamples
  imports PromptFacts
begin

section \<open>The properties of prompts at concrete chats\<close>

text \<open>
  A persona of one file, a chat without memory and a plugin manager that changes nothing: the properties of
  \<open>PromptFacts\<close> applied to its first prompt and to its follow-ups, with and without pressure.
\<close>

definition a_memory :: memory_ops where
  "a_memory = \<lparr>mo_recall = (\<lambda>_ _ _ _ _. no_recall), mo_compaction = (\<lambda>_. []),
     mo_status = \<lparr>ms_path = Some (u ''m.md''), ms_limit = 10, ms_total = 0, ms_exceeded = False\<rparr>,
     mo_promoted = (\<lambda>_. no_persona_memory), mo_persona = (\<lambda>_. no_persona_memory), mo_chat_block = (\<lambda>_. Some (u ''fact'')),
     mo_chat_path = Some (u ''m.md''), mo_persona_path = u ''p.md''\<rparr>"

definition a_config :: prompt_config where
  "a_config = \<lparr>pf_persona = \<lparr>pn_name = u ''Ada'', pn_root = u ''r'', pn_fleet_root = u ''f'', pn_memory_filename = u ''p.md''\<rparr>,
     pf_pressure = sample_pressure, pf_blocks = \<lparr>bl_allow = [u ''memory''], bl_deny = [u ''user''], bl_caps = []\<rparr>,
     pf_quote = \<lparr>qc_max_reply = 100, qc_max_bot_reply = 100\<rparr>, pf_model = u ''base'', pf_wake_budget = 0, pf_expose_metrics = False,
     pf_handoff = True, pf_handoff_stub = False, pf_triggers = [], pf_recall_on_follow_up = False, pf_fresh_chars = 10, pf_fresh_results = 1,
     pf_auto_chars = 10, pf_auto_results = 1, pf_tail_chars = 10, pf_compact_promoted = 10, pf_compact_chat = 10, pf_compact_persona = 10,
     pf_persona_chars = 10\<rparr>"

definition an_env :: prompt_env where
  "an_env = \<lparr>en_cfg = a_config, en_files = (\<lambda>p. if p = u ''r/SOUL.md'' then Some (u ''soul'') else None),
     en_mtime = (\<lambda>p. if p = u ''m.md'' then Some 5 else None), en_lower = id, en_str = (\<lambda>_. []), en_fmt1 = (\<lambda>_. []), en_fmt2 = (\<lambda>_. []),
     en_iso = (\<lambda>_. None), en_stamp = [], en_window = None, en_memory = (\<lambda>_. a_memory), en_skills = None, en_log = None,
     en_cumulative = (\<lambda>_. []), en_registry = (\<lambda>_. Inr []), en_format_hook = None, en_before_build = id,
     en_fill = (\<lambda>bc t f s b. (s, b)), en_after_build = id, en_after_first = id, en_snapshot = (\<lambda>_. []), en_writable = True, en_now = 9\<rparr>"

definition a_message :: "ustr \<Rightarrow> user_message" where
  "a_message t = \<lparr>um_raw = t, um_reply_to = None, um_is_bot = None, um_message_id = None, um_chat = Some (u ''c'')\<rparr>"

definition first_of :: "ustr \<Rightarrow> first_args" where
  "first_of t = \<lparr>fa_message = a_message t, fa_model = None, fa_continuation = None, fa_interrupted = None, fa_skills = None,
     fa_rehydrated = False, fa_reason = None\<rparr>"

definition next_of :: "ustr \<Rightarrow> follow_args" where
  "next_of t = \<lparr>fo_message = a_message t, fo_continuation = None, fo_interrupted = None, fo_skills = None, fo_rehydrated = False, fo_reason = None\<rparr>"

definition no_cache :: builder_state where
  "no_cache = \<lparr>bs_blocks = [], bs_mtimes = [], bs_prompt_time = [], bs_full_soul_turn = [], bs_self_state = []\<rparr>"

lemma env_sel [simp]:
  "en_cfg an_env = a_config" "en_after_build an_env = id" "en_after_first an_env = id" "en_format_hook an_env = None" "en_log an_env = None"
  "en_memory an_env = (\<lambda>_. a_memory)" "en_before_build an_env = id" "en_lower an_env = id" "en_window an_env = None" "en_skills an_env = None"
  "en_fill an_env = (\<lambda>bc t f s b. (s, b))" "en_cumulative an_env = (\<lambda>_. [])" "en_str an_env = (\<lambda>_. [])"
  "mo_chat_path a_memory = Some (u ''m.md'')" "en_mtime an_env (u ''m.md'') = Some 5"
  "pf_blocks a_config = \<lparr>bl_allow = [u ''memory''], bl_deny = [u ''user''], bl_caps = []\<rparr>" "pf_pressure a_config = sample_pressure"
  "pf_expose_metrics a_config = False" "pf_handoff a_config = True" "pf_handoff_stub a_config = False" "pf_wake_budget a_config = 0"
  by (simp_all add: an_env_def a_config_def a_memory_def)

lemma message_sel [simp]: "formatted_message an_env (a_message t) = Inr t" "fa_message (first_of t) = a_message t" "fo_message (next_of t) = a_message t"
  "fo_rehydrated (next_of t) = False"
  by (simp_all add: formatted_message_def format_user_message_def format_message_impl_def a_message_def truthy_text_def truthy_id_def first_of_def next_of_def)

lemma message_text: "formatted_message an_env (fo_message (next_of t)) = Inr t"
  by simp

lemma a_keeps: "keeps_slot an_env k"
  by (simp add: keeps_slot_def)

lemma add_texts_present: "list_all (\<lambda>p. dget (fst p) s \<noteq> None) xs \<Longrightarrow> \<exists>t. add_texts xs s = Inr t"
proof (induction xs arbitrary: s)
  case (Cons p xs)
  obtain k x where p: "p = (k, x)" by force
  then obtain ts where ts: "dget k s = Some ts" using Cons.prems by auto
  have "list_all (\<lambda>q. dget (fst q) (dset k (ts @ [x]) s) \<noteq> None) xs"
    using Cons.prems by (simp add: list_all_iff)
  from Cons.IH [OF this] show ?case using p ts by simp
qed simp

lemma added_keys: "add_texts xs s = Inr t \<Longrightarrow> dget k s \<noteq> None \<Longrightarrow> dget k t \<noteq> None"
  by (induction xs s rule: add_texts.induct) (auto split: option.splits if_splits)

text \<open>With this environment an assembly succeeds when its notice can be made.\<close>

lemma a_filled: "\<exists>t. filled_slots an_env chat a bc parts formatted p b = (b, Inr t)"
proof -
  let ?i = "initial_slots (pp_text (pi_persona p)) formatted"
  have keys: "dget k ?i \<noteq> None" if "k \<in> u ` {''system_notice'', ''memory'', ''promoted'', ''recall'', ''chat_memory'', ''continuation''}" for k
    using that by (auto simp: initial_slots_def)
  have "list_all (\<lambda>q. dget (fst q) ?i \<noteq> None) (loaded_texts parts (as_brief a) p)"
    using keys by (auto simp: loaded_texts_def opt_text_def Let_def case_prod_unfold list_all_iff split: option.splits)
  then obtain s1 where s1: "add_texts (loaded_texts parts (as_brief a) p) ?i = Inr s1" using add_texts_present by blast
  have "dget (u ''continuation'') s1 \<noteq> None" by (rule added_keys [OF s1 keys]) simp
  then have "list_all (\<lambda>q. dget (fst q) s1 \<noteq> None) (opt_text ''metrics'' None @ opt_text ''continuation'' (bc_continuation bc) @ opt_text ''continuation'' (bc_interrupted bc) @
      opt_text ''skills'' (skill_context None chat (as_skill_names a) True (Some formatted)))"
    by (auto simp: opt_text_def skill_context_def nonempty_opt_def list_all_iff split: option.splits)
  from add_texts_present [OF this] s1 show ?thesis by (auto simp: filled_slots_def metrics_context_for_prompt_def)
qed

lemma a_assembly:
  assumes "as_wake_budget a = None" and "as_brief a \<Longrightarrow> \<exists>l. context_budget_line (en_fmt1 an_env) None sample_pressure r (soul_name (as_mode a)) = Inr l"
  shows "\<exists>s' px. assemble_prompt an_env chat r a m bc parts formatted p s = (s', Inr px)"
proof -
  obtain ps where ps: "(if as_brief a then map_sum id (\<lambda>l. parts @ [l]) (context_budget_line (en_fmt1 an_env) None sample_pressure r (soul_name (as_mode a))) else Inr parts) = (Inr ps :: py_exn + ustr list)"
    using assms(2) by (cases "as_brief a") auto
  define s1 where "s1 = recorded_files an_env chat a m p (if dget chat (bs_blocks s) = None then reset_cache chat s else s)"
  define old where "old = (case dget chat (bs_blocks s1) of None \<Rightarrow> [] | Some b \<Rightarrow> b)"
  obtain t where t: "filled_slots an_env chat a bc ps formatted p old = (old, Inr t)" using a_filled by blast
  show ?thesis unfolding assemble_prompt_def Let_def env_sel ps sum.case s1_def [symmetric] old_def [symmetric] t prod.case assms(1) option.case
    by blast
qed

lemma a_persona: "\<exists>t. compose_persona (en_files an_env) (pf_persona a_config) = Inr t"
  by (simp add: compose_persona_def an_env_def a_config_def shared_file_def file_section_def slash_def u_def)

lemma a_narrative: "\<exists>w. narrative an_env chat r = Inr w"
  by (simp add: narrative_def last_wake_event_def)

lemma a_notice: "\<exists>sn. soul_notice an_env chat r h f m = Inr sn"
proof -
  obtain w where "narrative an_env chat r = Inr w" using a_narrative by blast
  then show ?thesis by (simp add: soul_notice_def)
qed

lemma first_succeeds: "\<exists>s1 px. build_first an_env chat None (first_of t) s = (s1, Inr px)"
proof -
  have b: "(resolved_reason (fa_reason (first_of t)) (fa_rehydrated (first_of t)) \<in> set COMPACT_REASONS) = False"
    by (simp add: resolved_reason_def first_of_def COMPACT_REASONS_def)
  obtain persona where persona: "compose_persona (en_files an_env) (pf_persona a_config) = Inr persona" using a_persona by blast
  let ?bc = "first_ctx an_env (first_of t)"
  let ?p = "first_pieces an_env a_memory t (engine_model an_env (bc_model ?bc)) persona False"
  let ?n = "build_system_notice (exists_in an_env) (pi_persona ?p) (pi_recall ?p) (pi_status ?p)"
  let ?a = "first_assembly an_env (first_of t) ?bc ?n"
  have a: "as_wake_budget ?a = None" "\<not> as_brief ?a" using b by (simp_all add: first_assembly_def Let_def)
  obtain s1 px where s1: "assemble_prompt an_env chat None ?a a_memory ?bc (nonempty_parts [rehydration_notice (bc_reason ?bc), [], opt_or_empty ?n]) t ?p
      (reset_cache chat s) = (s1, Inr px)"
    using a_assembly [of ?a None chat a_memory ?bc _ t ?p "reset_cache chat s"] a by blast
  have r: "(fa_rehydrated (first_of t) \<or> (None :: session_record option) \<noteq> None \<and> (None :: lifecycle_log option) \<noteq> None) = False" by (simp add: first_of_def)
  show ?thesis unfolding build_first_def Let_def env_sel message_sel b if_False sum.case persona r s1 prod.case by simp
qed

lemma follow_succeeds:
  assumes "soul_mode id None sample_pressure (identity_anchor (en_files an_env) (pf_persona a_config)) (bs_full_soul_turn s) chat r False t = Inr (m, g)"
    and "m = Soul_fresh \<Longrightarrow> \<exists>l. context_budget_line (en_fmt1 an_env) None sample_pressure r (soul_name Soul_fresh) = Inr l"
  shows "\<exists>s1 r1 px. build_follow_up an_env chat r (next_of t) s = (s1, r1, Inr px)"
proof -
  let ?h = "grants_handoff a_config r g"
  let ?r = "if ?h then map_option (\<lambda>x. x\<lparr>sr_pressure_handoff_done := True\<rparr>) r else r"
  let ?m = "if ?h then Soul_small else m"
  obtain sn where sn: "soul_notice an_env chat ?r ?h (g \<and> \<not> ?h) ?m = Inr sn" using a_notice by blast
  have "\<exists>s1 px. follow_up_prompt an_env chat ?r (next_of t) t ?m ?h (g \<and> \<not> ?h) s = (s1, Inr px)"
  proof -
    let ?bc = "follow_ctx an_env (next_of t) ?r ?m"
    let ?p = "follow_pieces an_env chat t (engine_model an_env (bc_model ?bc)) ?m (if ?m = Soul_fresh then R_fresh else resolved_reason (fo_reason (next_of t)) False) s"
    let ?n = "build_system_notice (exists_in an_env) (pi_persona ?p) (pi_recall ?p) (pi_status ?p)"
    let ?a = "follow_assembly an_env chat (next_of t) ?bc ?m (g \<and> \<not> ?h) ?n s"
    have a: "as_wake_budget ?a = None" "as_brief ?a \<Longrightarrow> \<exists>l. context_budget_line (en_fmt1 an_env) None sample_pressure ?r (soul_name (as_mode ?a)) = Inr l"
      using assms(2) by (auto simp: follow_assembly_def split: if_splits)
    obtain s1 px where s1: "assemble_prompt an_env chat ?r ?a a_memory ?bc (nonempty_parts [rehydration_notice (bc_reason ?bc), sn, opt_or_empty ?n]) t ?p s = (s1, Inr px)"
      using a_assembly [OF a] by blast
    show ?thesis unfolding follow_up_prompt_def Let_def sn sum.case env_sel message_sel s1 prod.case by (auto split: option.split)
  qed
  then obtain s1 px where p: "follow_up_prompt an_env chat ?r (next_of t) t ?m ?h (g \<and> \<not> ?h) s = (s1, Inr px)" by blast
  have w: "(case ?r of Some x \<Rightarrow> if (?h \<or> g \<and> \<not> ?h) \<and> False then write_stub an_env chat x (um_raw (fo_message (next_of t))) s else Inr s | None \<Rightarrow> Inr s) = (Inr s :: template_error + builder_state)"
    by (simp split: option.split)
  show ?thesis unfolding build_follow_up_def Let_def env_sel message_sel sum.case assms(1) prod.case w[unfolded message_sel] p by simp
qed

subsection \<open>The witnesses\<close>

theorem message_and_identity_reach_the_prompt_witness:
  "\<exists>s1 px1 s2 r2 px2. build_first an_env (u ''c'') None (first_of (u ''hello'')) no_cache = (s1, Inr px1)
     \<and> build_follow_up an_env (u ''c'') None (next_of (u ''bye'')) no_cache = (s2, r2, Inr px2)
     \<and> sublist (u ''hello'') (px_prompt px1) \<and> persona_in_prompt an_env (px_prompt px1)
     \<and> sublist (u ''bye'') (px_prompt px2) \<and> persona_in_prompt an_env (px_prompt px2)"
proof -
  obtain s1 px1 where 1: "build_first an_env (u ''c'') None (first_of (u ''hello'')) no_cache = (s1, Inr px1)" using first_succeeds by blast
  have "soul_mode id None sample_pressure (identity_anchor (en_files an_env) (pf_persona a_config)) (bs_full_soul_turn no_cache) (u ''c'') None False (u ''bye'') =
      Inr (Soul_normal, False)" by (simp add: soul_mode_def)
  from follow_succeeds [OF this] obtain s2 r2 px2 where 2: "build_follow_up an_env (u ''c'') None (next_of (u ''bye'')) no_cache = (s2, r2, Inr px2)" by auto
  have "sublist (u ''hello'') (px_prompt px1) \<and> persona_in_prompt an_env (px_prompt px1) \<and> sublist (u ''bye'') (px_prompt px2) \<and> persona_in_prompt an_env (px_prompt px2)"
    by (rule message_and_identity_reach_the_prompt [OF _ 1 _ 2]) (simp_all add: a_keeps)
  with 1 2 show ?thesis by blast
qed

lemma marked_pressure:
  "soul_mode id None sample_pressure anchor full chat (Some (blank_record\<lparr>sr_pressure_handoff_done := d\<rparr>)) False (replicate 400 97) = Inr (Soul_fresh, True)"
proof -
  let ?x = "blank_record\<lparr>sr_pressure_handoff_done := d\<rparr>"
  have "chars_per_token id sample_pressure (u ''base'') (Some ?x) = Inr 4"
    by (simp add: chars_per_token_def sample_pressure_def blank_record_def CHARS_PER_TOKEN_def) (simp add: u_def sublist_Cons_right)
  moreover have "0 \<le> trunc (real (length anchor) / 4)" by (simp add: trunc_nonneg)
  moreover have "trunc 100 = 100" "trunc 0 = 0" by (simp_all add: trunc_def)
  ultimately show ?thesis
    by (simp add: soul_mode_def context_pressure_def context_window_for_def estimate_next_prompt_tokens_def Let_def
        metrics_or_empty_def count_field_def py_round_def round_half_even_def sample_pressure_def blank_record_def)
qed

lemma marked_line: "\<exists>l. context_budget_line f None sample_pressure (Some (blank_record\<lparr>sr_pressure_handoff_done := d\<rparr>)) mode = Inr l"
  by (simp add: context_budget_line_def context_pressure_def context_window_for_def Let_def metrics_or_empty_def count_field_def sample_pressure_def blank_record_def)

theorem handoff_turn_is_granted_once_witness:
  "\<exists>s1 px1 s3 px3. build_follow_up an_env (u ''c'') (Some blank_record) (next_of (replicate 400 97)) no_cache =
        (s1, Some (blank_record\<lparr>sr_pressure_handoff_done := True\<rparr>), Inr px1) \<and> \<not> px_force_new px1
     \<and> build_follow_up an_env (u ''c'') (Some (blank_record\<lparr>sr_pressure_handoff_done := True\<rparr>)) (next_of (replicate 400 97)) s1 =
        (s3, Some (blank_record\<lparr>sr_pressure_handoff_done := True\<rparr>), Inr px3) \<and> px_force_new px3"
proof -
  let ?a = "next_of (replicate 400 97)" and ?anchor = "identity_anchor (en_files an_env) (pf_persona a_config)"
  let ?y = "blank_record\<lparr>sr_pressure_handoff_done := True\<rparr>"
  have x: "blank_record = blank_record\<lparr>sr_pressure_handoff_done := False\<rparr>" by (simp add: blank_record_def)
  have p: "soul_mode id None sample_pressure ?anchor full (u ''c'') (Some blank_record) False (replicate 400 97) = Inr (Soul_fresh, True)" for full
    using marked_pressure [of ?anchor full "u ''c''" False] x by simp
  have l: "\<exists>l. context_budget_line (en_fmt1 an_env) None sample_pressure (Some blank_record) (soul_name Soul_fresh) = Inr l"
    using marked_line [of "en_fmt1 an_env" False] x by simp
  obtain s1 r1 px1 where 1: "build_follow_up an_env (u ''c'') (Some blank_record) ?a no_cache = (s1, r1, Inr px1)"
    using follow_succeeds [OF p l] by blast
  obtain s3 r3 px3 where 3: "build_follow_up an_env (u ''c'') (Some ?y) ?a s1 = (s3, r3, Inr px3)"
    using follow_succeeds [OF marked_pressure marked_line] by blast
  have "\<not> px_force_new px1 \<and> r1 = Some ?y \<and> px_force_new px3 \<and> r3 = Some ?y"
  proof (rule handoff_turn_is_granted_once [OF 1 message_text _ _ _ 3 message_text, where ?m1.0 = Soul_fresh and ?m3.0 = Soul_fresh])
    show "\<not> sr_pressure_handoff_done blank_record" by (simp add: blank_record_def)
  qed (simp_all add: p marked_pressure)
  with 1 3 show ?thesis by blast
qed


theorem cut_quote_exceeds_its_limit_witness: "40 < int (length (trim_reply_quote_to (replicate 50 97) 40))"
  by (rule cut_quote_exceeds_its_limit) simp_all

definition long_slots :: slots where
  "long_slots = [(u ''user'', [replicate 8 65]), (u ''metrics'', [replicate 100 65])]"

lemma long_trimmed:
  "trim_slots_to_budget (\<lambda>t. Inr (int (length t))) 20 long_slots = Inr (clear_step [u ''metrics''] long_slots, replicate 8 65)"
  by (simp add: trim_slots_to_budget_def long_slots_def render_slots_def PROMPT_SLOT_ORDER_def slot_texts_def WAKE_TRIM_STEPS_def clear_step_def clear_slots_def
      PROTECTED_SLOTS_def PROMPT_REQUIRED_SLOTS_def SOUL_SLOTS_def u_def)

theorem wake_prompt_fits_or_is_minimal_witness:
  "replicate 8 65 = render_slots (clear_step [u ''metrics''] long_slots)
    \<and> ((\<exists>n. Inr (int (length (replicate 8 (65 :: nat)))) = (Inr n :: py_exn + int) \<and> n \<le> 20
          \<and> (\<forall>k \<in> set PROTECTED_SLOTS. slot_texts (clear_step [u ''metrics''] long_slots) k = slot_texts long_slots k))
       \<or> (\<forall>k. slot_texts (clear_step [u ''metrics''] long_slots) k = (if k \<in> set PROMPT_REQUIRED_SLOTS then slot_texts long_slots k else [])))"
  by (rule wake_prompt_fits_or_is_minimal [OF long_trimmed])

end
