(* ===== verification/TaskEngine.thy ===== *)
theory TaskEngine
  imports PlanManager
begin

section \<open>The worker pool and the task engine\<close>

text \<open>
  \<open>src/src/diploid_agent/task/worker.py\<close> and \<open>src/src/diploid_agent/task/engine.py\<close>.  A worker thread is
  a job id in the pool's list of unfinished futures; running one is the step \<open>run_task\<close>, which takes
  what executing the task came to (\<open>execution\<close>: the outcome of the subprocess or of the agent engine) as
  an argument.  The engine's state is the plan dictionary (one process, so the dictionary of the file),
  the pool and the events posted so far, in order.  Callbacks and log output are left out.
\<close>

subsection \<open>\<open>WorkerPool\<close>\<close>

text \<open>A future is the task id and whether it is done; the executor is its worker limit.\<close>

record worker_pool =
  wp_max_workers :: int
  wp_running :: bool
  wp_executor :: int  \<comment> \<open>worker limit of the current executor\<close>
  wp_futures :: "(ustr, bool) dict"  \<comment> \<open>done?\<close>

definition new_pool :: "int \<Rightarrow> py_exn + worker_pool" where
  "new_pool n = (if n < 1 then Inl ValueError
     else Inr \<lparr>wp_max_workers = n, wp_running = True, wp_executor = n, wp_futures = []\<rparr>)"

definition prune_done :: "worker_pool \<Rightarrow> worker_pool" where
  "prune_done w = w\<lparr>wp_futures := filter (\<lambda>(i, dn). \<not> dn) (wp_futures w)\<rparr>"

definition pool_resize :: "int \<Rightarrow> worker_pool \<Rightarrow> py_exn + worker_pool" where
  "pool_resize n w =
     (if n < 1 then Inl ValueError
      else if \<not> wp_running w then Inr w
      else if n = wp_max_workers w then Inr w
      else Inr ((prune_done w)\<lparr>wp_executor := n, wp_max_workers := n\<rparr>))"

text \<open>Submitting to an executor that was shut down raises \<open>RuntimeError\<close>.\<close>

definition pool_submit :: "ustr \<Rightarrow> worker_pool \<Rightarrow> worker_pool \<times> (py_exn + bool)" where
  "pool_submit i w =
     (let w' = prune_done w
      in case dget i (wp_futures w') of
           Some False \<Rightarrow> (w', Inr False)
         | _ \<Rightarrow> if \<not> wp_running w then (w', Inl RuntimeError)
                else (w'\<lparr>wp_futures := dset i False (wp_futures w')\<rparr>, Inr True))"

definition pool_is_running :: "ustr \<Rightarrow> worker_pool \<Rightarrow> bool" where
  "pool_is_running i w = (dget i (wp_futures w) = Some False)"

definition pool_shutdown :: "worker_pool \<Rightarrow> worker_pool" where
  "pool_shutdown w = prune_done (w\<lparr>wp_running := False\<rparr>)"

text \<open>The future of \<open>i\<close> finishes (its worker returned).\<close>

definition pool_finish :: "ustr \<Rightarrow> worker_pool \<Rightarrow> worker_pool" where
  "pool_finish i w = w\<lparr>wp_futures := map (\<lambda>(j, dn). (j, dn \<or> j = i)) (wp_futures w)\<rparr>"

definition busy_ids :: "worker_pool \<Rightarrow> ustr list" where
  "busy_ids w = dkeys (filter (\<lambda>(i, dn). \<not> dn) (wp_futures w))"

lemma prune_done_busy [simp]: "busy_ids (prune_done w) = busy_ids w"
  by (simp add: busy_ids_def prune_done_def)

lemma pool_resize_busy: "pool_resize n w = Inr w' \<Longrightarrow> busy_ids w' = busy_ids w"
  by (auto simp: pool_resize_def prune_done_def busy_ids_def split: if_splits)

lemma pool_submit_busy:
  "pool_submit i w = (w', r) \<Longrightarrow>
   busy_ids w' = (if r = Inr True then busy_ids w @ [i] else busy_ids w)"
proof -
  assume s: "pool_submit i w = (w', r)"
  have pruned: "snd x = False" if "x \<in> set (wp_futures (prune_done w))" for x
    using that by (auto simp: prune_done_def)
  show ?thesis
  proof (cases "dget i (wp_futures (prune_done w))")
    case None
    with s have "r = Inr True \<Longrightarrow> wp_futures w' = wp_futures (prune_done w) @ [(i, False)]"
      by (auto simp: pool_submit_def Let_def dset_new map_of_eq_None_iff split: if_splits)
    moreover have "r \<noteq> Inr True \<Longrightarrow> w' = prune_done w"
      using s None by (auto simp: pool_submit_def Let_def split: if_splits)
    moreover have "filter (\<lambda>(i, dn). \<not> dn) (wp_futures (prune_done w)) = wp_futures (prune_done w)"
      by (simp add: prune_done_def)
    ultimately show ?thesis
      by (cases "r = Inr True") (simp_all add: busy_ids_def prune_done_def)
  next
    case (Some b)
    then have "b = False" using pruned [OF map_of_SomeD [OF Some]] by simp
    with s Some show ?thesis by (auto simp: pool_submit_def Let_def)
  qed
qed

lemma pool_submit_distinct:
  "pool_submit i w = (w', r) \<Longrightarrow> distinct (busy_ids w) \<Longrightarrow> distinct (busy_ids w')"
proof -
  assume s: "pool_submit i w = (w', r)" and d: "distinct (busy_ids w)"
  have "i \<notin> set (busy_ids w)" if "r = Inr True"
  proof
    assume "i \<in> set (busy_ids w)"
    then have i: "(i, False) \<in> set (wp_futures (prune_done w))" by (auto simp: busy_ids_def prune_done_def)
    have "dkeys (wp_futures (prune_done w)) = busy_ids w" by (simp add: busy_ids_def prune_done_def)
    with d i have "dget i (wp_futures (prune_done w)) = Some False" by simp
    with s that show False by (simp add: pool_submit_def Let_def)
  qed
  with pool_submit_busy [OF s] d show ?thesis by simp
qed

subsection \<open>Executing one task\<close>

text \<open>What \<open>_execute\<close> returns: result, log, exit code and the extra keyword arguments, if any.\<close>

record execution =
  ex_result :: ustr
  ex_log :: ustr
  ex_exit :: int
  ex_extra :: "run_end option"

definition stopped :: "string \<Rightarrow> bool \<Rightarrow> run_end" where
  "stopped r timed_out = plain_end\<lparr>re_stop_reason := Some (u r), re_timed_out := timed_out\<rparr>"

text \<open>A subprocess: it exits, runs into the timeout, or cannot be run.\<close>

datatype proc_outcome = Exited int ustr ustr | ProcTimeout | ProcError ustr

text \<open>
  \<open>shlex.split\<close> (or its error message) is the argument \<open>split\<close>, \<open>subprocess.run\<close> the argument \<open>proc\<close>, and
  \<open>timeout_text\<close> the timeout as printed.
\<close>

definition run_shell ::
  "(ustr \<Rightarrow> ustr + ustr list) \<Rightarrow> (ustr list \<Rightarrow> proc_outcome) \<Rightarrow> ustr \<Rightarrow> task \<Rightarrow> execution" where
  "run_shell split proc timeout_text t =
     (if py_strip (tk_command t) = []
      then \<lparr>ex_result = [], ex_log = u ''Empty shell command'', ex_exit = -1, ex_extra = Some (stopped ''failed'' False)\<rparr>
      else case split (tk_command t) of
        Inl msg \<Rightarrow> \<lparr>ex_result = [], ex_log = u ''Invalid shell command: '' @ msg, ex_exit = -1,
                      ex_extra = Some (stopped ''failed'' False)\<rparr>
      | Inr cmd \<Rightarrow>
          if cmd = []
          then \<lparr>ex_result = [], ex_log = u ''Empty shell command after parsing'', ex_exit = -1,
                 ex_extra = Some (stopped ''failed'' False)\<rparr>
          else (case proc cmd of
             Exited code out err \<Rightarrow> \<lparr>ex_result = out, ex_log = err, ex_exit = code, ex_extra = None\<rparr>
           | ProcTimeout \<Rightarrow> \<lparr>ex_result = [], ex_log = u ''Timed out after '' @ timeout_text @ u ''s'', ex_exit = -1,
                             ex_extra = Some (stopped ''timeout'' True)\<rparr>
           | ProcError msg \<Rightarrow> \<lparr>ex_result = [], ex_log = msg, ex_exit = -1,
                                ex_extra = Some (stopped ''failed'' False)\<rparr>))"

text \<open>The result of an agent turn, or the exception the engine raised.\<close>

record acp_turn =
  tr_reply :: ustr
  tr_cancelled :: bool
  tr_timed_out :: bool
  tr_partial :: bool
  tr_stop_reason :: "ustr option"

datatype acp_outcome = AcpReply acp_turn | AcpTimedOut ustr | AcpRaised ustr

text \<open>How the end of the turn is recorded: the block after the \<open>try\<close> of \<open>_run_acp\<close>.\<close>

definition acp_end :: "acp_turn \<Rightarrow> run_end" where
  "acp_end r =
     (let cancelled = (tr_cancelled r \<and> \<not> tr_timed_out r)
      in if tr_timed_out r
         then \<lparr>re_stop_reason = Some (u ''timeout''), re_cancelled = cancelled, re_partial = tr_partial r,
                re_timed_out = True\<rparr>
         else if cancelled
         then \<lparr>re_stop_reason = Some (u ''cancelled''), re_cancelled = True, re_partial = tr_partial r,
                re_timed_out = False\<rparr>
         else if tr_stop_reason r = Some (u ''timeout'')
         then \<lparr>re_stop_reason = Some (u ''timeout''), re_cancelled = cancelled, re_partial = True, re_timed_out = True\<rparr>
         else if tr_stop_reason r = Some (u ''cancelled'')
         then \<lparr>re_stop_reason = Some (u ''cancelled''), re_cancelled = True, re_partial = True, re_timed_out = False\<rparr>
         else \<lparr>re_stop_reason = None, re_cancelled = cancelled, re_partial = tr_partial r, re_timed_out = False\<rparr>)"

definition acp_execution :: "acp_outcome \<Rightarrow> execution" where
  "acp_execution oc =
     (case oc of
        AcpTimedOut msg \<Rightarrow> \<lparr>ex_result = msg, ex_log = [], ex_exit = -1, ex_extra = Some (stopped ''timeout'' True)\<rparr>
      | AcpRaised msg \<Rightarrow> \<lparr>ex_result = msg, ex_log = [], ex_exit = -1, ex_extra = Some (stopped ''failed'' False)\<rparr>
      | AcpReply r \<Rightarrow>
          let e = acp_end r
          in \<lparr>ex_result = tr_reply r,
              ex_log = (if re_stop_reason e = Some (u ''timeout'') then u ''Subagent stopped early: timed out''
                        else if re_stop_reason e = Some (u ''cancelled'') then u ''Subagent stopped early: cancelled''
                        else []),
              ex_exit = 0,
              ex_extra = (if re_stop_reason e \<noteq> None \<or> re_partial e \<or> re_cancelled e \<or> re_timed_out e
                          then Some e else None)\<rparr>)"

text \<open>The request: the first configured model and soft timeout; the hard timeout is 30 s later.\<close>

record task_config =
  tc_workers :: int
  tc_enabled_types :: "task_type list"
  tc_acp_model :: "ustr option"
  tc_acp_timeout :: "secs option"

record turn_request =
  rq_prompt :: ustr
  rq_cwd :: "ustr option"
  rq_model :: ustr
  rq_mcp_servers :: "json list option"
  rq_soft_timeout :: "secs option"
  rq_timeout :: "secs option"

fun first_some :: "'a option list \<Rightarrow> 'a option" where
  "first_some [] = None"
| "first_some (None # xs) = first_some xs"
| "first_some (Some x # xs) = Some x"

definition acp_request ::
  "task_config \<Rightarrow> ustr option \<Rightarrow> secs option \<Rightarrow> ustr \<Rightarrow> secs option \<Rightarrow> task \<Rightarrow> turn_request option" where
  "acp_request cfg own_model own_timeout engine_model engine_soft t =
     (let prompt = (case tk_prompt t of Some p \<Rightarrow> if p \<noteq> [] then p else tk_command t | None \<Rightarrow> tk_command t);
          soft = first_some [tk_acp_timeout t, tc_acp_timeout cfg, own_timeout, engine_soft]
      in if prompt = [] then None
         else Some \<lparr>rq_prompt = prompt, rq_cwd = tk_cwd t,
           rq_model = the (first_some [tk_acp_model t, tc_acp_model cfg, own_model, Some engine_model]),
           rq_mcp_servers = tk_mcp_servers t, rq_soft_timeout = soft,
           rq_timeout = map_option (\<lambda>s. s + 30) soft\<rparr>)"

definition run_acp :: "turn_request option \<Rightarrow> bool \<Rightarrow> (turn_request \<Rightarrow> acp_outcome) \<Rightarrow> execution" where
  "run_acp req configured turn =
     (case req of
        None \<Rightarrow> \<lparr>ex_result = u ''ACP task has no prompt or command'', ex_log = [], ex_exit = -1,
                  ex_extra = Some (stopped ''failed'' False)\<rparr>
      | Some rq \<Rightarrow>
          if \<not> configured
          then \<lparr>ex_result = u ''ACP engine not configured'', ex_log = [], ex_exit = -1,
                 ex_extra = Some (stopped ''failed'' False)\<rparr>
          else acp_execution (turn rq))"

definition execute_task :: "(task \<Rightarrow> execution) \<Rightarrow> (task \<Rightarrow> execution) \<Rightarrow> task \<Rightarrow> execution" where
  "execute_task shell acp t =
     (case tk_type t of
        SHELL \<Rightarrow> shell t
      | ACP \<Rightarrow> acp t
      | SUBAGENT \<Rightarrow> acp t
      | NOOP \<Rightarrow> \<lparr>ex_result = u ''noop'', ex_log = [], ex_exit = 0, ex_extra = None\<rparr>)"

subsection \<open>The engine\<close>

datatype engine_event =
    TaskCompleted ustr ustr ustr ustr "run_end option"
  | TaskFailed ustr ustr ustr "run_end option"
  | TaskError ustr ustr ustr

record engine =
  en_plans :: plans
  en_pool :: worker_pool
  en_events :: "engine_event list"
  en_config :: task_config

definition post :: "engine_event \<Rightarrow> engine \<Rightarrow> engine" where
  "post ev g = g\<lparr>en_events := en_events g @ [ev]\<rparr>"

definition pick_task :: "ustr \<Rightarrow> ustr option \<Rightarrow> plans \<Rightarrow> py_exn + ustr" where
  "pick_task pid tid d =
     (case tid of
        None \<Rightarrow> (case snd (get_ready_tasks_body pid d) of [] \<Rightarrow> Inl ValueError | t # _ \<Rightarrow> Inr (tk_id t))
      | Some i \<Rightarrow> (case snd (get_task_body pid i d) of
                    None \<Rightarrow> Inl ValueError
                  | Some t \<Rightarrow> if tk_status t \<noteq> READY then Inl ValueError else Inr i))"

text \<open>The task is already marked running when the pool refuses it.\<close>

definition engine_start_task :: "ustr \<Rightarrow> ustr option \<Rightarrow> secs \<Rightarrow> engine \<Rightarrow> engine \<times> (py_exn + task)" where
  "engine_start_task pid tid now g =
     (case pick_task pid tid (en_plans g) of
        Inl e \<Rightarrow> (g, Inl e)
      | Inr i \<Rightarrow>
          (case start_task_body pid i now (en_plans g) of
             (d', None, n) \<Rightarrow> (g\<lparr>en_plans := d'\<rparr>, Inl ValueError)
           | (d', Some started, n) \<Rightarrow>
               let g1 = g\<lparr>en_plans := d'\<rparr>
               in case pool_resize (tc_workers (en_config g)) (en_pool g1) of
                    Inl e \<Rightarrow> (g1, Inl e)
                  | Inr w \<Rightarrow>
                      (case pool_submit (tk_id started) w of
                         (w', Inl e) \<Rightarrow> (g1\<lparr>en_pool := w'\<rparr>, Inl e)
                       | (w', Inr b) \<Rightarrow> (g1\<lparr>en_pool := w'\<rparr>, Inr started))))"

text \<open>The loop of \<open>_start_ready_dependents\<close> swallows \<open>ValueError\<close> only.\<close>

fun start_each :: "ustr \<Rightarrow> secs \<Rightarrow> task list \<Rightarrow> engine \<Rightarrow> engine \<times> py_exn option" where
  "start_each pid now [] g = (g, None)"
| "start_each pid now (t # ts) g =
     (if pool_is_running (tk_id t) (en_pool g) then start_each pid now ts g
      else case engine_start_task pid (Some (tk_id t)) now g of
             (g', Inr s) \<Rightarrow> start_each pid now ts g'
           | (g', Inl ValueError) \<Rightarrow> start_each pid now ts g'
           | (g', Inl e) \<Rightarrow> (g', Some e))"

definition start_ready_dependents :: "ustr \<Rightarrow> secs \<Rightarrow> engine \<Rightarrow> engine \<times> py_exn option" where
  "start_ready_dependents pid now g = start_each pid now (snd (get_ready_tasks_body pid (en_plans g))) g"

definition engine_fail :: "ustr \<Rightarrow> ustr \<Rightarrow> ustr \<Rightarrow> run_end \<Rightarrow> secs \<Rightarrow> engine \<Rightarrow> engine \<times> bool" where
  "engine_fail pid tid lg e now g =
     (let (d', r, n) = fail_task_body pid tid lg e now now (en_plans g)
      in (g\<lparr>en_plans := d'\<rparr>, r \<noteq> None))"

definition engine_complete :: "ustr \<Rightarrow> ustr \<Rightarrow> ustr \<Rightarrow> ustr \<Rightarrow> run_end \<Rightarrow> secs \<Rightarrow> engine \<Rightarrow> engine \<times> bool" where
  "engine_complete pid tid res lg e now g =
     (let (d', r, n) = complete_task_body pid tid res lg e now now (en_plans g)
      in (g\<lparr>en_plans := d'\<rparr>, r \<noteq> None))"

text \<open>The branch \<open>except Exception\<close>: \<open>msg\<close> is the exception's text, \<open>lg\<close> the text with the traceback.\<close>

definition on_exception :: "ustr \<Rightarrow> ustr \<Rightarrow> ustr \<Rightarrow> ustr \<Rightarrow> secs \<Rightarrow> engine \<Rightarrow> engine" where
  "on_exception pid tid lg msg now g =
     post (TaskError pid tid msg) (fst (engine_fail pid tid lg plain_end now g))"

datatype run_outcome = Executed execution | Raised ustr ustr

definition type_name :: "task_type \<Rightarrow> ustr" where
  "type_name ty = (case ty of SHELL \<Rightarrow> u ''shell'' | NOOP \<Rightarrow> u ''noop'' | ACP \<Rightarrow> u ''acp'' | SUBAGENT \<Rightarrow> u ''subagent'')"

text \<open>An executed task is recorded, announced and its dependents started, inside the \<open>try\<close> block.\<close>

definition record_execution :: "ustr \<Rightarrow> ustr \<Rightarrow> execution \<Rightarrow> secs \<Rightarrow> engine \<Rightarrow> engine \<times> py_exn option" where
  "record_execution pid tid x now g =
     (let e = (case ex_extra x of None \<Rightarrow> plain_end | Some e \<Rightarrow> e)
      in if ex_exit x = 0
         then (let (g1, ok) = engine_complete pid tid (ex_result x) (ex_log x) e now g
               in if ok then start_ready_dependents pid now
                    (post (TaskCompleted pid tid (ex_result x) (ex_log x) (ex_extra x)) g1)
                  else (g1, None))
         else (let lg = (if ex_log x \<noteq> [] then ex_log x else ex_result x);
                   (g1, ok) = engine_fail pid tid lg e now g
               in if ok then start_ready_dependents pid now (post (TaskFailed pid tid lg (ex_extra x)) g1)
                  else (g1, None)))"

definition run_task :: "(task \<Rightarrow> run_outcome) \<Rightarrow> (py_exn \<Rightarrow> ustr) \<Rightarrow> ustr \<Rightarrow> ustr \<Rightarrow> secs \<Rightarrow> engine \<Rightarrow> engine" where
  "run_task run exn_text pid tid now g =
     (case snd (get_task_body pid tid (en_plans g)) of
        None \<Rightarrow> g
      | Some t \<Rightarrow>
          if tk_type t \<notin> set (tc_enabled_types (en_config g))
          then (let msg = u ''Task type '' @ type_name (tk_type t) @ u '' is disabled'';
                    (g1, ok) = engine_fail pid tid msg plain_end now g
                in if ok then fst (start_ready_dependents pid now (post (TaskFailed pid tid msg None) g1)) else g1)
          else case run t of
                 Raised msg lg \<Rightarrow> on_exception pid tid lg msg now g
               | Executed x \<Rightarrow>
                   (case record_execution pid tid x now g of
                      (g', None) \<Rightarrow> g'
                    | (g', Some e) \<Rightarrow> on_exception pid tid (exn_text e) (exn_text e) now g'))"

subsection \<open>Settled tasks\<close>

definition settled_status :: "task_status \<Rightarrow> bool" where
  "settled_status s \<longleftrightarrow> s = DONE \<or> s = INCOMPLETE \<or> s = FAILED"

definition status_at :: "plans \<Rightarrow> ustr \<Rightarrow> ustr \<Rightarrow> task_status option" where
  "status_at d pid tid =
     (case dget pid d of None \<Rightarrow> None | Some p \<Rightarrow> map_option tk_status (get_task_in_plan p tid))"

lemma settled_not_schedulable: "settled_status s \<Longrightarrow> \<not> schedulable s \<and> s \<noteq> READY \<and> s \<noteq> RUNNING"
  by (auto simp: settled_status_def schedulable_def)

lemma find_update_first_same:
  "find (\<lambda>t. tk_id t = i) ts = Some t0 \<Longrightarrow> (\<And>t. tk_id (f t) = tk_id t) \<Longrightarrow>
   find (\<lambda>t. tk_id t = i) (update_first i f ts) = Some (f t0)"
  by (induction ts) (auto split: if_splits)

lemma status_finish:
  assumes "dget pid d = Some p" "get_task_in_plan p tid = Some t0"
    and f: "\<And>t. tk_id (f t) = tk_id t" "\<not> schedulable (tk_status (f t0))"
  shows "status_at (fst (finish_body pid tid f now d)) pid tid = Some (tk_status (f t0))"
    and "fst (snd (finish_body pid tid f now d)) \<noteq> None"
proof -
  have "find (\<lambda>t. tk_id t = tid) (pl_tasks (set_task tid f p)) = Some (f t0)"
    using find_update_first_same [of tid "pl_tasks p" t0 f] assms by (simp add: get_task_in_plan_def)
  from find_same_task [OF resolve_statuses_same_task this]
  obtain t' where "find (\<lambda>t. tk_id t = tid) (pl_tasks (resolve_statuses (set_task tid f p))) = Some t'"
    "tk_status t' = tk_status (f t0)" using same_task_settled [OF _ f(2)] by blast
  then show "status_at (fst (finish_body pid tid f now d)) pid tid = Some (tk_status (f t0))"
    and "fst (snd (finish_body pid tid f now d)) \<noteq> None"
    using assms by (simp_all add: finish_body_def Let_def status_at_def get_task_in_plan_def)
qed

lemma status_start_other:
  "status_at d pid tid = Some s \<Longrightarrow> s \<noteq> READY \<Longrightarrow>
   status_at (fst (start_task_body pid i now d)) pid tid = Some s"
proof -
  assume st: "status_at d pid tid = Some s" "s \<noteq> READY"
  show ?thesis
  proof (cases "snd (start_task_body pid i now d)")
    case (Pair r n)
    show ?thesis
    proof (cases "i = tid")
      case True
      with st show ?thesis
        by (auto simp: status_at_def start_task_body_def Let_def split: option.splits)
    next
      case False
      with st show ?thesis
        by (auto simp: status_at_def start_task_body_def Let_def get_task_in_plan_def find_update_first
            split: option.splits)
    qed
  qed
qed

lemma engine_start_plans:
  "fst (engine_start_task pid tid now g) = g \<or>
   (\<exists>i. en_plans (fst (engine_start_task pid tid now g)) = fst (start_task_body pid i now (en_plans g)))"
proof (cases "pick_task pid tid (en_plans g)")
  case (Inr i)
  obtain d' r n where b: "start_task_body pid i now (en_plans g) = (d', r, n)" by (metis prod_cases3)
  then have "en_plans (fst (engine_start_task pid tid now g)) = d'"
    using Inr by (auto simp: engine_start_task_def Let_def split: sum.splits option.splits prod.splits)
  with b show ?thesis by (metis fst_conv)
qed (simp add: engine_start_task_def)

lemma status_engine_start:
  "status_at (en_plans g) pid tid = Some s \<Longrightarrow> s \<noteq> READY \<Longrightarrow>
   status_at (en_plans (fst (engine_start_task pid i now g))) pid tid = Some s"
  using engine_start_plans [of pid i now g] status_start_other by metis

lemma status_start_each:
  "status_at (en_plans g) pid tid = Some s \<Longrightarrow> s \<noteq> READY \<Longrightarrow>
   status_at (en_plans (fst (start_each pid now ts g))) pid tid = Some s"
proof (induction pid now ts g rule: start_each.induct)
  case (2 pid now t ts g)
  note st = status_engine_start [OF "2.prems", of "Some (tk_id t)" now]
  obtain g' r where gr: "engine_start_task pid (Some (tk_id t)) now g = (g', r)" by force
  with st have st': "status_at (en_plans g') pid tid = Some s" by simp
  show ?case
  proof (cases "pool_is_running (tk_id t) (en_pool g)")
    case True
    with "2.IH"(1) "2.prems" show ?thesis by simp
  next
    case False
    show ?thesis
    proof (cases r)
      case (Inl e)
      with False gr st' "2.IH"(2) [OF False gr [symmetric]] "2.prems"(2) show ?thesis by (cases e) auto
    next
      case (Inr x)
      with False gr st' "2.IH"(3) [OF False gr [symmetric] Inr] "2.prems"(2) show ?thesis by simp
    qed
  qed
qed simp

lemma post_frame [simp, frame_simps]: "en_plans (post ev g) = en_plans g" "en_pool (post ev g) = en_pool g"
  "en_config (post ev g) = en_config g" "en_events (post ev g) = en_events g @ [ev]"
  by (simp_all add: post_def)

lemma status_fail:
  assumes "status_at (en_plans g) pid tid \<noteq> None"
  shows "status_at (en_plans (fst (engine_fail pid tid lg e now g))) pid tid = Some FAILED"
    and "snd (engine_fail pid tid lg e now g)"
proof -
  from assms obtain p t0 where p: "dget pid (en_plans g) = Some p" "get_task_in_plan p tid = Some t0"
    by (auto simp: status_at_def split: option.splits)
  note s = status_finish [OF p, where f = "failed_task lg e now", OF finished_task_id(2) failed_settled]
  from s(1) [of now] show "status_at (en_plans (fst (engine_fail pid tid lg e now g))) pid tid = Some FAILED"
    by (simp add: engine_fail_def fail_task_body_def case_prod_unfold Let_def failed_task_def)
  from s(2) [of now] show "snd (engine_fail pid tid lg e now g)"
    by (simp add: engine_fail_def fail_task_body_def case_prod_unfold Let_def)
qed

lemma status_complete:
  assumes "status_at (en_plans g) pid tid \<noteq> None"
  shows "status_at (en_plans (fst (engine_complete pid tid res lg e now g))) pid tid
      = Some (if re_cancelled e \<or> re_partial e \<or> re_timed_out e then INCOMPLETE else DONE)"
    and "snd (engine_complete pid tid res lg e now g)"
proof -
  from assms obtain p t0 where p: "dget pid (en_plans g) = Some p" "get_task_in_plan p tid = Some t0"
    by (auto simp: status_at_def split: option.splits)
  note s = status_finish [OF p, where f = "completed_task res lg e now", OF finished_task_id(1) completed_settled]
  from s(1) [of now]
  show "status_at (en_plans (fst (engine_complete pid tid res lg e now g))) pid tid
      = Some (if re_cancelled e \<or> re_partial e \<or> re_timed_out e then INCOMPLETE else DONE)"
    by (simp add: engine_complete_def complete_task_body_def case_prod_unfold Let_def completed_task_def)
  from s(2) [of now] show "snd (engine_complete pid tid res lg e now g)"
    by (simp add: engine_complete_def complete_task_body_def case_prod_unfold Let_def)
qed

lemma status_on_exception:
  "status_at (en_plans g) pid tid \<noteq> None \<Longrightarrow>
   status_at (en_plans (on_exception pid tid lg msg now g)) pid tid = Some FAILED"
  using status_fail(1) by (simp add: on_exception_def)

definition recorded_status :: "execution \<Rightarrow> task_status" where
  "recorded_status x =
     (if ex_exit x \<noteq> 0 then FAILED
      else case ex_extra x of
        None \<Rightarrow> DONE
      | Some e \<Rightarrow> if re_cancelled e \<or> re_partial e \<or> re_timed_out e then INCOMPLETE else DONE)"

lemma status_record:
  assumes "status_at (en_plans g) pid tid \<noteq> None"
  shows "status_at (en_plans (fst (record_execution pid tid x now g))) pid tid = Some (recorded_status x)"
proof (cases "ex_exit x = 0")
  case True
  let ?e = "case ex_extra x of None \<Rightarrow> plain_end | Some e \<Rightarrow> e"
  obtain g1 ok where g1: "engine_complete pid tid (ex_result x) (ex_log x) ?e now g = (g1, ok)" by force
  have "status_at (en_plans g1) pid tid = Some (recorded_status x)" "ok"
    using status_complete [OF assms, of "ex_result x" "ex_log x" ?e now] g1 True
    by (auto simp: recorded_status_def plain_end_def split: option.splits)
  moreover have "recorded_status x \<noteq> READY" by (auto simp: recorded_status_def split: option.splits)
  ultimately show ?thesis
    using True g1 status_start_each by (simp add: record_execution_def Let_def start_ready_dependents_def)
next
  case False
  let ?e = "case ex_extra x of None \<Rightarrow> plain_end | Some e \<Rightarrow> e"
  let ?lg = "if ex_log x \<noteq> [] then ex_log x else ex_result x"
  obtain g1 ok where g1: "engine_fail pid tid ?lg ?e now g = (g1, ok)" by force
  have "status_at (en_plans g1) pid tid = Some (recorded_status x)" "ok"
    using status_fail [OF assms, of ?lg ?e now] g1 False by (auto simp: recorded_status_def)
  moreover have "recorded_status x \<noteq> READY" using False by (simp add: recorded_status_def)
  ultimately show ?thesis
    using False g1 status_start_each by (simp add: record_execution_def Let_def start_ready_dependents_def)
qed

subsection \<open>Properties\<close>

lemma run_task_status:
  assumes "status_at (en_plans g) pid tid \<noteq> None"
  obtains t where "snd (get_task_body pid tid (en_plans g)) = Some t"
    "status_at (en_plans (run_task run txt pid tid now g)) pid tid = Some
       (if tk_type t \<notin> set (tc_enabled_types (en_config g)) then FAILED
        else case run t of
          Raised msg lg \<Rightarrow> FAILED
        | Executed x \<Rightarrow> if snd (record_execution pid tid x now g) = None then recorded_status x else FAILED)"
proof -
  from assms obtain t where t: "snd (get_task_body pid tid (en_plans g)) = Some t"
    by (auto simp: status_at_def get_task_body_def split: option.splits)
  show ?thesis
  proof (rule that [OF t])
    show "status_at (en_plans (run_task run txt pid tid now g)) pid tid = Some
       (if tk_type t \<notin> set (tc_enabled_types (en_config g)) then FAILED
        else case run t of
          Raised msg lg \<Rightarrow> FAILED
        | Executed x \<Rightarrow> if snd (record_execution pid tid x now g) = None then recorded_status x else FAILED)"
    proof (cases "tk_type t \<in> set (tc_enabled_types (en_config g))")
      case False
      let ?msg = "u ''Task type '' @ type_name (tk_type t) @ u '' is disabled''"
      obtain g1 ok where g1: "engine_fail pid tid ?msg plain_end now g = (g1, ok)" by force
      with status_fail [OF assms, of ?msg plain_end now]
      have "status_at (en_plans g1) pid tid = Some FAILED" "ok" by simp_all
      with False t g1 show ?thesis
        by (simp add: run_task_def Let_def start_ready_dependents_def status_start_each)
    next
      case True
      show ?thesis
      proof (cases "run t")
        case (Raised msg lg)
        with True t status_on_exception [OF assms] show ?thesis by (simp add: run_task_def)
      next
        case (Executed x)
        obtain g1 r where g1: "record_execution pid tid x now g = (g1, r)" by force
        from status_record [OF assms, of x now] g1
        have "status_at (en_plans g1) pid tid = Some (recorded_status x)" by simp
        with True t Executed g1 show ?thesis
          by (cases r) (simp_all add: run_task_def status_on_exception)
      qed
    qed
  qed
qed

text \<open>
  A worker always settles its task: whatever executing it comes to (a disabled type, an
  exception, any exit code), the task ends as \<open>DONE\<close>, \<open>INCOMPLETE\<close> or \<open>FAILED\<close>; and as long as starting
  its dependents raises nothing, a zero exit gives \<open>DONE\<close> or \<open>INCOMPLETE\<close> (when the run was cancelled,
  partial or timed out) and a non-zero one \<open>FAILED\<close>.
\<close>

theorem run_settles_the_task:
  assumes "status_at (en_plans g) pid tid \<noteq> None"
  shows "(\<exists>s. status_at (en_plans (run_task run txt pid tid now g)) pid tid = Some s \<and> settled_status s)
       \<and> (\<forall>t x. snd (get_task_body pid tid (en_plans g)) = Some t
            \<and> tk_type t \<in> set (tc_enabled_types (en_config g)) \<and> run t = Executed x
            \<and> snd (record_execution pid tid x now g) = None
          \<longrightarrow> status_at (en_plans (run_task run txt pid tid now g)) pid tid = Some (recorded_status x))"
proof -
  have "settled_status (recorded_status x)" for x
    by (auto simp: settled_status_def recorded_status_def split: option.splits)
  moreover have "settled_status FAILED" by (simp add: settled_status_def)
  moreover obtain t where "snd (get_task_body pid tid (en_plans g)) = Some t"
    "status_at (en_plans (run_task run txt pid tid now g)) pid tid = Some
       (if tk_type t \<notin> set (tc_enabled_types (en_config g)) then FAILED
        else case run t of
          Raised msg lg \<Rightarrow> FAILED
        | Executed x \<Rightarrow> if snd (record_execution pid tid x now g) = None then recorded_status x else FAILED)"
    by (rule run_task_status [OF assms])
  ultimately show ?thesis by (auto split: run_outcome.splits)
qed

definition sample_engine :: "task list \<Rightarrow> bool \<Rightarrow> engine" where
  "sample_engine ts up = \<lparr>en_plans = [(u ''p'', sample_plan ts)],
     en_pool = \<lparr>wp_max_workers = 4, wp_running = up, wp_executor = 4, wp_futures = [(u ''a'', False)]\<rparr>,
     en_events = [],
     en_config = \<lparr>tc_workers = 4, tc_enabled_types = [SHELL, NOOP], tc_acp_model = None, tc_acp_timeout = None\<rparr>\<rparr>"

lemma sample_engine_status:
  "status_at (en_plans (sample_engine [sample_task ''a'' [] RUNNING] up)) (u ''p'') (u ''a'') = Some RUNNING"
  by (simp add: sample_engine_def status_at_def get_task_in_plan_def sample_plan_def) (simp add: sample_task_def)

theorem run_settles_the_task_witness:
  "\<exists>s. status_at (en_plans (run_task (\<lambda>t. Raised (u ''boom'') (u ''boom'')) (\<lambda>e. []) (u ''p'') (u ''a'') 9
     (sample_engine [sample_task ''a'' [] RUNNING] True))) (u ''p'') (u ''a'') = Some s \<and> settled_status s"
proof -
  have "status_at (en_plans (sample_engine [sample_task ''a'' [] RUNNING] True)) (u ''p'') (u ''a'') \<noteq> None"
    by (simp add: sample_engine_status)
  from run_settles_the_task [OF this] show ?thesis by blast
qed

text \<open>
  An agent run that stopped early is never recorded as done: a reply that was cancelled, timed
  out, partial, or whose stop reason is a timeout or a cancellation ends its task as \<open>INCOMPLETE\<close>, any other
  reply as \<open>DONE\<close>, and an exception as \<open>FAILED\<close>; a timed-out reply is never also marked cancelled.
\<close>

theorem early_stop_is_never_done:
  shows "recorded_status (acp_execution (AcpReply r)) =
      (if tr_cancelled r \<or> tr_timed_out r \<or> tr_partial r \<or> tr_stop_reason r = Some (u ''timeout'')
          \<or> tr_stop_reason r = Some (u ''cancelled'') then INCOMPLETE else DONE)
    \<and> recorded_status (acp_execution (AcpTimedOut msg)) = FAILED
    \<and> recorded_status (acp_execution (AcpRaised msg)) = FAILED
    \<and> \<not> (re_timed_out (acp_end r) \<and> re_cancelled (acp_end r))"
  by (cases "tr_timed_out r"; cases "tr_cancelled r"; cases "tr_partial r";
      cases "tr_stop_reason r = Some (u ''timeout'')"; cases "tr_stop_reason r = Some (u ''cancelled'')")
    (simp_all add: recorded_status_def acp_execution_def acp_end_def stopped_def)

lemma pool_submit_shut_down:
  assumes "\<not> wp_running w" "dict_ok (wp_futures w)" "\<not> pool_is_running i w"
  shows "pool_submit i w = (prune_done w, Inl RuntimeError)"
proof -
  have "dget i (wp_futures (prune_done w)) \<noteq> Some False"
    using assms(2,3) by (auto simp: prune_done_def pool_is_running_def dget_filter split: option.splits if_splits)
  then show ?thesis using assms(1)
    by (auto simp: pool_submit_def prune_done_def Let_def split: option.splits bool.splits)
qed

lemma start_each_shut_down:
  assumes down: "\<not> wp_running (en_pool g)" "dict_ok (wp_futures (en_pool g))" and ws: "1 \<le> tc_workers (en_config g)"
    and b: "t \<in> set ts" "\<not> pool_is_running (tk_id t) (en_pool g)"
    and rd: "\<And>t. t \<in> set ts \<Longrightarrow> status_at (en_plans g) pid (tk_id t) = Some READY"
  shows "snd (start_each pid now ts g) = Some RuntimeError"
  using b rd
proof (induction ts)
  case (Cons x ts)
  show ?case
  proof (cases "pool_is_running (tk_id x) (en_pool g)")
    case True
    with Cons show ?thesis by auto
  next
    case False
    from Cons.prems(3) [of x] obtain p t0 where p: "dget pid (en_plans g) = Some p"
      "get_task_in_plan p (tk_id x) = Some t0" "tk_status t0 = READY"
      by (auto simp: status_at_def split: option.splits)
    let ?f = "\<lambda>t. t\<lparr>tk_status := RUNNING, tk_started_at := Some now\<rparr>"
    have t0: "tk_id t0 = tk_id x" using p(2) by (auto simp: get_task_in_plan_def find_Some_iff)
    obtain d' n where st: "start_task_body pid (tk_id x) now (en_plans g) = (d', Some (?f t0), n)"
      using p find_update_first_same [of "tk_id x" "pl_tasks p" t0 ?f]
      by (auto simp: start_task_body_def Let_def get_task_in_plan_def)
    have "pool_resize (tc_workers (en_config g)) (en_pool g) = Inr (en_pool g)"
      using ws down by (simp add: pool_resize_def)
    moreover have "snd (get_task_body pid (tk_id x) (en_plans g)) = Some t0"
      using p by (simp add: get_task_body_def)
    ultimately have "engine_start_task pid (Some (tk_id x)) now g
        = (g\<lparr>en_plans := d', en_pool := prune_done (en_pool g)\<rparr>, Inl RuntimeError)"
      using st t0 p(3) pool_submit_shut_down [OF down False]
      by (simp add: engine_start_task_def pick_task_def Let_def)
    with False show ?thesis by simp
  qed
qed simp

lemma find_distinct:
  "distinct (map tk_id ts) \<Longrightarrow> t \<in> set ts \<Longrightarrow> find (\<lambda>s. tk_id s = tk_id t) ts = Some t"
proof (induction ts)
  case (Cons a ts)
  then show ?case by (cases "t = a") (auto simp: image_iff)
qed simp

lemmas resolve_statuses_ids = list_all2_same_ids [OF resolve_statuses_same_task]

lemma ready_tasks_status:
  assumes "dget pid d = Some p" "distinct (map tk_id (pl_tasks p))"
    and "t \<in> set (snd (get_ready_tasks_body pid d))"
  shows "status_at d pid (tk_id t) = Some READY"
proof -
  have "t \<in> set (pl_tasks p)" "tk_status t = READY" using assms by (auto simp: get_ready_tasks_body_def)
  with find_distinct [OF assms(2)] assms(1) show ?thesis by (simp add: status_at_def get_task_in_plan_def)
qed

lemma complete_after_shutdown:
  assumes pool: "\<not> wp_running (en_pool g)" "dict_ok (wp_futures (en_pool g))" "1 \<le> tc_workers (en_config g)"
    and p: "dget pid (en_plans g) = Some p" "distinct (map tk_id (pl_tasks p))" "get_task_in_plan p tid = Some t0"
    and x: "ex_exit x = 0"
    and g1: "engine_complete pid tid (ex_result x) (ex_log x)
               (case ex_extra x of None \<Rightarrow> plain_end | Some e \<Rightarrow> e) now g = (g1, ok)"
    and w: "t \<in> set (snd (get_ready_tasks_body pid (en_plans g1)))" "\<not> pool_is_running (tk_id t) (en_pool g)"
  shows "snd (record_execution pid tid x now g) = Some RuntimeError"
proof -
  let ?e = "case ex_extra x of None \<Rightarrow> plain_end | Some e \<Rightarrow> e"
  have st: "status_at (en_plans g) pid tid \<noteq> None" using p by (simp add: status_at_def)
  have ok: ok using status_complete(2) [OF st, of "ex_result x" "ex_log x" ?e now] g1 by simp
  obtain p' where p': "dget pid (fst (finish_body pid tid (completed_task (ex_result x) (ex_log x) ?e now) now (en_plans g))) = Some p'"
    "pl_tasks p' = pl_tasks (resolve_statuses (set_task tid (completed_task (ex_result x) (ex_log x) ?e now) p))"
    "distinct (map tk_id (pl_tasks (set_task tid (completed_task (ex_result x) (ex_log x) ?e now) p)))"
    by (rule finish_plan [OF p finished_task_id(1)])
  have frame: "en_pool g1 = en_pool g" "en_config g1 = en_config g"
    "en_plans g1 = fst (finish_body pid tid (completed_task (ex_result x) (ex_log x) ?e now) now (en_plans g))"
    using g1 by (auto simp: engine_complete_def complete_task_body_def case_prod_unfold Let_def)
  have "distinct (map tk_id (pl_tasks p'))" using p'(2,3) by (simp add: resolve_statuses_ids)
  then have rd: "status_at (en_plans g1) pid (tk_id t) = Some READY"
    if "t \<in> set (snd (get_ready_tasks_body pid (en_plans g1)))" for t
    using ready_tasks_status that p'(1) frame(3) by metis
  have "snd (start_ready_dependents pid now (post (TaskCompleted pid tid (ex_result x) (ex_log x) (ex_extra x)) g1))
      = Some RuntimeError"
    unfolding start_ready_dependents_def
    by (rule start_each_shut_down) (use pool w rd frame in simp_all)
  with x g1 ok show ?thesis by (simp add: record_execution_def)
qed

text \<open>
  A shutdown during a run turns success into failure: when the pool was shut down while a worker
  was executing its task, and the finished task has a waiting dependent, then the refusal of the pool to
  start that dependent is taken for a failure of the task itself, so that a task that exited with 0 is
  recorded as \<open>FAILED\<close> and announced as failed after it was announced as completed.
\<close>

theorem shutdown_fails_a_completed_task:
  assumes "\<not> wp_running (en_pool g)" and "dict_ok (wp_futures (en_pool g))" and "1 \<le> tc_workers (en_config g)"
    and "dget pid (en_plans g) = Some p" and "distinct (map tk_id (pl_tasks p))" and "get_task_in_plan p tid = Some t0"
    and "tk_type t0 \<in> set (tc_enabled_types (en_config g))" and "run t0 = Executed x" and "ex_exit x = 0"
    and "engine_complete pid tid (ex_result x) (ex_log x)
               (case ex_extra x of None \<Rightarrow> plain_end | Some e \<Rightarrow> e) now g = (g1, ok)"
    and "t \<in> set (snd (get_ready_tasks_body pid (en_plans g1)))" and "\<not> pool_is_running (tk_id t) (en_pool g)"
  shows "status_at (en_plans (run_task run txt pid tid now g)) pid tid = Some FAILED
    \<and> last (en_events (run_task run txt pid tid now g)) = TaskError pid tid (txt RuntimeError)"
proof -
  have st: "status_at (en_plans g) pid tid \<noteq> None" using assms(4,6) by (simp add: status_at_def)
  obtain g2 where "record_execution pid tid x now g = (g2, Some RuntimeError)"
    using complete_after_shutdown [OF assms(1-6,9-12)] by (metis prod.collapse)
  with assms(4,6-8) have r: "run_task run txt pid tid now g
      = on_exception pid tid (txt RuntimeError) (txt RuntimeError) now g2"
    by (simp add: run_task_def get_task_body_def)
  have "status_at (en_plans g2) pid tid \<noteq> None"
    using status_record [OF st, of x now] \<open>record_execution pid tid x now g = _\<close> by simp
  with r show ?thesis by (simp add: status_on_exception) (simp add: on_exception_def)
qed


definition quick_success :: execution where
  "quick_success = \<lparr>ex_result = u ''ok'', ex_log = [], ex_exit = 0, ex_extra = None\<rparr>"

lemma resolve_waiting_pair:
  assumes x: "tk_status x = DONE" and y: "tk_depends_on y = [tk_id x]" "tk_status y = PENDING" "tk_id y \<noteq> tk_id x"
  shows "fst (resolve_loop [tk_id x, tk_id y] (status_map_of [x, y]) [x, y]) = [x, y\<lparr>tk_status := READY\<rparr>]"
proof -
  have m: "status_map_of [x, y] = [(tk_id x, DONE), (tk_id y, PENDING)]"
    using x y by (simp add: status_map_of_def dmerge_def dset_new)
  have once: "resolve_task [tk_id x, tk_id y] sm x = (x, sm, False)" for sm
    using x by (simp add: resolve_task_def schedulable_def)
  have y1: "resolve_task [tk_id x, tk_id y] [(tk_id x, DONE), (tk_id y, PENDING)] y
      = (y\<lparr>tk_status := READY\<rparr>, [(tk_id x, DONE), (tk_id y, READY)], True)"
    using y by (simp add: resolve_task_def schedulable_def missing_deps_def any_failed_def all_done_def
        dep_statuses_def is_stuck_def is_done_def)
  have y2: "resolve_task [tk_id x, tk_id y] [(tk_id x, DONE), (tk_id y, READY)] (y\<lparr>tk_status := READY\<rparr>)
      = (y\<lparr>tk_status := READY\<rparr>, [(tk_id x, DONE), (tk_id y, READY)], False)"
    using y by (simp add: resolve_task_def schedulable_def missing_deps_def any_failed_def all_done_def
        dep_statuses_def is_stuck_def is_done_def)
  have "resolve_loop [tk_id x, tk_id y] [(tk_id x, DONE), (tk_id y, READY)] [x, y\<lparr>tk_status := READY\<rparr>]
      = ([x, y\<lparr>tk_status := READY\<rparr>], [(tk_id x, DONE), (tk_id y, READY)])"
    by (subst resolve_loop.simps) (simp add: once y2)
  then show ?thesis unfolding m by (subst resolve_loop.simps) (simp add: once y1)
qed

lemma sample_completed:
  "sample_task ''b'' [''a''] READY \<in> set (snd (get_ready_tasks_body (u ''p'') (en_plans (fst
      (engine_complete (u ''p'') (u ''a'') r [] plain_end 9
        (sample_engine [sample_task ''a'' [] RUNNING, sample_task ''b'' [''a''] PENDING] False))))))"
proof -
  let ?a = "sample_task ''a'' [] RUNNING" and ?b = "sample_task ''b'' [''a''] PENDING"
  let ?f = "completed_task r [] plain_end 9"
  have ab: "tk_id ?a = u ''a''" "tk_status ?b = PENDING" "tk_id ?b = u ''b''" "tk_depends_on ?b = [u ''a'']"
    "?b\<lparr>tk_status := READY\<rparr> = sample_task ''b'' [''a''] READY"
    by (simp_all add: sample_task_def)
  have fa: "tk_status (?f ?a) = DONE" "tk_id (?f ?a) = u ''a''"
    using finished_task_id(1) ab(1) by (simp_all add: completed_task_def plain_end_def)
  have ready: "tk_status (sample_task ''b'' [''a''] READY) = READY" by (simp add: sample_task_def)
  have p: "dget (u ''p'') (en_plans (sample_engine [?a, ?b] False)) = Some (sample_plan [?a, ?b])"
    "distinct (map tk_id (pl_tasks (sample_plan [?a, ?b])))"
    "get_task_in_plan (sample_plan [?a, ?b]) (u ''a'') = Some ?a"
    using ab by (simp_all add: sample_engine_def sample_plan_def get_task_in_plan_def)
  have "pl_tasks (set_task (u ''a'') ?f (sample_plan [?a, ?b])) = [?f ?a, ?b]"
    using ab by (simp add: sample_plan_def set_task_def)
  then have q: "pl_tasks (resolve_statuses (set_task (u ''a'') ?f (sample_plan [?a, ?b])))
      = [?f ?a, sample_task ''b'' [''a''] READY]"
    using resolve_waiting_pair [of "?f ?a" ?b] fa ab by (simp add: resolve_statuses_def)
  obtain p' where "dget (u ''p'') (fst (finish_body (u ''p'') (u ''a'') ?f 9
        (en_plans (sample_engine [?a, ?b] False)))) = Some p'"
    "pl_tasks p' = pl_tasks (resolve_statuses (set_task (u ''a'') ?f (sample_plan [?a, ?b])))"
    by (rule finish_plan [OF p finished_task_id(1)])
  with q ready show ?thesis
    by (simp add: engine_complete_def complete_task_body_def case_prod_unfold Let_def get_ready_tasks_body_def)
qed

theorem shutdown_fails_a_completed_task_witness:
  "status_at (en_plans (run_task (\<lambda>t. Executed quick_success) (\<lambda>e. []) (u ''p'') (u ''a'') 9
     (sample_engine [sample_task ''a'' [] RUNNING, sample_task ''b'' [''a''] PENDING] False))) (u ''p'') (u ''a'')
   = Some FAILED"
proof -
  let ?ts = "[sample_task ''a'' [] RUNNING, sample_task ''b'' [''a''] PENDING]"
  let ?g = "sample_engine ?ts False"
  obtain g1 ok where g1: "engine_complete (u ''p'') (u ''a'') (u ''ok'') [] plain_end 9 ?g = (g1, ok)" by force
  have b: "sample_task ''b'' [''a''] READY \<in> set (snd (get_ready_tasks_body (u ''p'') (en_plans g1)))"
    using sample_completed [of "u ''ok''"] g1 by simp
  have g: "\<not> wp_running (en_pool ?g)" "dict_ok (wp_futures (en_pool ?g))" "1 \<le> tc_workers (en_config ?g)"
    "dget (u ''p'') (en_plans ?g) = Some (sample_plan ?ts)"
    "NOOP \<in> set (tc_enabled_types (en_config ?g))" "\<not> pool_is_running (u ''b'') (en_pool ?g)"
    by (simp_all add: sample_engine_def pool_is_running_def dict_ok_def)
  have t: "distinct (map tk_id (pl_tasks (sample_plan ?ts)))"
    "get_task_in_plan (sample_plan ?ts) (u ''a'') = Some (sample_task ''a'' [] RUNNING)"
    "tk_type (sample_task ''a'' [] RUNNING) = NOOP" "tk_id (sample_task ''b'' [''a''] READY) = u ''b''"
    by (simp_all add: sample_plan_def get_task_in_plan_def) (simp_all add: sample_task_def)
  have run: "(\<lambda>t. Executed quick_success) (sample_task ''a'' [] RUNNING) = Executed quick_success"
    "ex_exit quick_success = 0" by (simp_all add: quick_success_def)
  have ty: "tk_type (sample_task ''a'' [] RUNNING) \<in> set (tc_enabled_types (en_config ?g))"
    unfolding t(3) by (rule g(5))
  have busy: "\<not> pool_is_running (tk_id (sample_task ''b'' [''a''] READY)) (en_pool ?g)"
    unfolding t(4) by (rule g(6))
  have e: "engine_complete (u ''p'') (u ''a'') (ex_result quick_success) (ex_log quick_success)
      (case ex_extra quick_success of None \<Rightarrow> plain_end | Some e \<Rightarrow> e) 9 ?g = (g1, ok)"
    unfolding g1 [symmetric] by (simp add: quick_success_def)
  show ?thesis
    by (rule shutdown_fails_a_completed_task [THEN conjunct1, OF g(1-4) t(1,2) ty run e b busy])
qed

end
