(* ===== verification/TelegramSplit.thy ===== *)
theory TelegramSplit
  imports Prelude
begin

section \<open>Splitting long messages for Telegram\<close>

text \<open>
  The length helpers and \<open>split_telegram_text\<close> of
  \<open>src/src/diploid_agent/transport/telegram_format.py\<close>.  A message is split into chunks below a
  limit; a fenced code block that a chunk cuts is closed at its end and reopened in the next one.
  Lengths are those of the length function handed in: code points, or UTF-16 code units
  (\<open>utf16_len\<close>, defined on text without lone surrogates, on which Python's encoder raises).
  The loop need not end, so it is a partial function: \<open>None\<close> is the loop that runs for ever.
\<close>

subsection \<open>Lengths and prefixes\<close>

definition utf16_len :: "ustr \<Rightarrow> nat" where
  "utf16_len s = sum_list (map (\<lambda>c. if c > 65535 then 2 else 1) s)"

text \<open>The binary search of \<open>_safe_slice_budget\<close> and \<open>_prefix_within_utf16_limit\<close>.\<close>

function bisect :: "(ustr \<Rightarrow> nat) \<Rightarrow> int \<Rightarrow> ustr \<Rightarrow> nat \<Rightarrow> nat \<Rightarrow> nat" where
  "bisect lf budget s lo hi =
     (if lo < hi
      then (let m = (lo + hi + 1) div 2
            in if int (lf (take m s)) \<le> budget then bisect lf budget s m hi else bisect lf budget s lo (m - 1))
      else lo)"
  by pat_completeness auto
termination
  by (relation "measure (\<lambda>(lf, b, s, lo, hi). hi - lo)") auto

declare bisect.simps [simp del]

definition safe_slice_budget :: "ustr \<Rightarrow> int \<Rightarrow> (ustr \<Rightarrow> nat) \<Rightarrow> nat" where
  "safe_slice_budget s budget lf =
     (if int (lf s) \<le> budget then length s else bisect lf budget s 0 (length s))"

definition prefix_within_utf16_limit :: "ustr \<Rightarrow> int \<Rightarrow> ustr" where
  "prefix_within_utf16_limit s limit =
     (if int (utf16_len s) \<le> limit then s else take (bisect utf16_len limit s 0 (length s)) s)"

subsection \<open>Lines and fences\<close>

text \<open>\<open>s.split("\n")\<close>.\<close>

abbreviation lines_of :: "ustr \<Rightarrow> ustr list" where
  "lines_of \<equiv> split_on 10"

definition tick3 :: ustr where
  "tick3 = [96, 96, 96]"

definition FENCE_CLOSE :: ustr where
  "FENCE_CLOSE = 10 # tick3"

text \<open>The language of an opening fence: the first word after the ticks.\<close>

definition fence_tag :: "ustr \<Rightarrow> ustr" where
  "fence_tag stripped = takeWhile (\<lambda>c. \<not> py_isspace c) (py_strip (drop 3 stripped))"

fun code_step :: "bool \<times> ustr \<Rightarrow> ustr \<Rightarrow> bool \<times> ustr" where
  "code_step (in_code, lang) line =
     (if prefix tick3 (py_strip line)
      then (if in_code then (False, []) else (True, fence_tag (py_strip line)))
      else (in_code, lang))"

definition code_state :: "ustr \<Rightarrow> bool \<Rightarrow> ustr \<Rightarrow> bool \<times> ustr" where
  "code_state snippet in_code lang = foldl code_step (in_code, lang) (lines_of snippet)"

subsection \<open>Where to split\<close>

text \<open>\<open>s.rfind(ch)\<close>; \<open>s.rfind(ch, 0, e)\<close> is the search in \<open>take e s\<close>.\<close>

fun rfind :: "nat \<Rightarrow> ustr \<Rightarrow> int" where
  "rfind c [] = -1"
| "rfind c (x # s) = (let r = rfind c s in if r \<ge> 0 then r + 1 else if x = c then 0 else -1)"

fun count_escaped :: "ustr \<Rightarrow> nat" where
  "count_escaped (c # d # s) = (if c = 92 \<and> d = 96 then Suc (count_escaped s) else count_escaped (d # s))"
| "count_escaped s = 0"

definition unescaped_backticks :: "ustr \<Rightarrow> int" where
  "unescaped_backticks s = int (length (filter (\<lambda>c. c = 96) s)) - int (count_escaped s)"

lemma rfind_bound: "rfind c s < int (length s)"
  by (induction s) (auto simp: Let_def)

lemma rfind_ge: "-1 \<le> rfind c s"
  by (induction s) (auto simp: Let_def)

lemma rfind_take: "0 < b \<Longrightarrow> rfind c (take (nat b) s) < b"
  by (rule less_le_trans [OF rfind_bound]) simp

text \<open>The loop that steps back over escaped backticks.\<close>

function back_to_unescaped :: "ustr \<Rightarrow> int \<Rightarrow> int" where
  "back_to_unescaped s b =
     (if b > 0 \<and> s ! nat (b - 1) = 92 then back_to_unescaped s (rfind 96 (take (nat b) s)) else b)"
  by pat_completeness auto
termination
proof (relation "measure (\<lambda>(s, b). nat b)")
  fix s :: ustr and b :: int
  assume "b > 0 \<and> s ! nat (b - 1) = 92"
  with rfind_take [of b 96 s] show "((s, rfind 96 (take (nat b) s)), s, b) \<in> measure (\<lambda>(s, b). nat b)" by auto
qed simp

declare back_to_unescaped.simps [simp del]

definition first_split :: "nat \<Rightarrow> ustr \<Rightarrow> int" where
  "first_split cp region =
     (let a = rfind 10 region;
          b = (if a < int cp div 2 then rfind 32 region else a)
      in if b < 1 then int cp else b + 1)"

definition has_fenced_block :: "ustr \<Rightarrow> bool" where
  "has_fenced_block s = list_ex (prefix tick3) (lines_of s)"

definition avoid_inline_code :: "nat \<Rightarrow> ustr \<Rightarrow> int \<Rightarrow> int" where
  "avoid_inline_code cp candidate split_at =
     (if has_fenced_block candidate \<or> unescaped_backticks candidate mod 2 \<noteq> 1 then split_at
      else let bt = back_to_unescaped candidate (rfind 96 candidate)
           in if bt > 0
              then (let safe = max (rfind 32 (take (nat bt) candidate)) (rfind 10 (take (nat bt) candidate))
                    in if safe > int cp div 4
                       then (if candidate ! nat safe \<noteq> 92 then safe + 1 else safe)
                       else bt)
              else max 1 (int cp))"

definition split_point :: "nat \<Rightarrow> ustr \<Rightarrow> nat" where
  "split_point cp remaining =
     (let s = first_split cp (take cp remaining)
      in nat (avoid_inline_code cp (take (nat s) remaining) s))"

subsection \<open>The loop\<close>

definition fence_prefix :: "ustr option \<Rightarrow> ustr" where
  "fence_prefix carry = (case carry of None \<Rightarrow> [] | Some lang \<Rightarrow> tick3 @ lang @ [10])"

definition lang_of :: "ustr option \<Rightarrow> ustr" where
  "lang_of carry = (case carry of None \<Rightarrow> [] | Some lang \<Rightarrow> lang)"

definition final_fits :: "(ustr \<Rightarrow> nat) \<Rightarrow> int \<Rightarrow> int \<Rightarrow> ustr option \<Rightarrow> ustr \<Rightarrow> bool" where
  "final_fits lf max_length reserve carry remaining \<longleftrightarrow>
     (let in_code = fst (code_state remaining (carry \<noteq> None) (lang_of carry));
          extra = (if in_code then lf FENCE_CLOSE else 0)
      in int (lf (fence_prefix carry) + lf remaining + extra) \<le> max_length - reserve)"

definition final_chunk :: "ustr option \<Rightarrow> ustr \<Rightarrow> ustr" where
  "final_chunk carry remaining =
     (let (in_code, lang) = code_state remaining (carry \<noteq> None) (lang_of carry);
          chunk = fence_prefix carry @ remaining
      in if in_code \<and> fst (code_state remaining True lang) then chunk @ FENCE_CLOSE else chunk)"

definition headroom_of :: "(ustr \<Rightarrow> nat) \<Rightarrow> int \<Rightarrow> int \<Rightarrow> ustr option \<Rightarrow> int" where
  "headroom_of lf max_length reserve carry =
     (let h = max_length - reserve - int (lf (fence_prefix carry)) - int (lf FENCE_CLOSE)
      in if h < 1 then max 1 (max_length div 2) else h)"

text \<open>\<open>by_codepoints\<close> is the test \<open>_len is len\<close>.\<close>

definition cp_limit_of :: "(ustr \<Rightarrow> nat) \<Rightarrow> bool \<Rightarrow> int \<Rightarrow> ustr \<Rightarrow> nat" where
  "cp_limit_of lf by_codepoints headroom remaining =
     (if by_codepoints then min (nat headroom) (length remaining) else safe_slice_budget remaining headroom lf)"

definition cut_chunk :: "ustr option \<Rightarrow> ustr \<Rightarrow> ustr \<times> ustr option" where
  "cut_chunk carry body =
     (let (in_code, lang) = code_state body (carry \<noteq> None) (lang_of carry)
      in if in_code then (fence_prefix carry @ body @ FENCE_CLOSE, Some lang)
         else (fence_prefix carry @ body, None))"

partial_function (option) split_loop ::
  "(ustr \<Rightarrow> nat) \<Rightarrow> bool \<Rightarrow> int \<Rightarrow> int \<Rightarrow> ustr option \<Rightarrow> ustr \<Rightarrow> ustr list option" where
  "split_loop lf cps max_length reserve carry remaining =
     (if remaining = [] then Some []
      else if final_fits lf max_length reserve carry remaining then Some [final_chunk carry remaining]
      else let cp = cp_limit_of lf cps (headroom_of lf max_length reserve carry) remaining;
               n = split_point cp remaining;
               (chunk, carry') = cut_chunk carry (take n remaining)
           in Option.bind (split_loop lf cps max_length reserve carry' (drop n remaining))
                (\<lambda>chunks. Some (chunk # chunks)))"

definition split_telegram_text :: "(ustr \<Rightarrow> nat) \<Rightarrow> bool \<Rightarrow> ustr \<Rightarrow> int \<Rightarrow> int \<Rightarrow> ustr list option" where
  "split_telegram_text lf cps content max_length reserve =
     (if int (lf content) \<le> max_length then Some [content]
      else split_loop lf cps max_length reserve None content)"

subsection \<open>Length functions\<close>

text \<open>What the splitter needs of a length function.\<close>

locale text_length =
  fixes lf :: "ustr \<Rightarrow> nat" and cps :: bool
  assumes lf_append: "lf (s @ t) = lf s + lf t"
    and lf_ascii: "c < 128 \<Longrightarrow> lf [c] = 1"
    and lf_char: "lf [c] \<le> 2" "1 \<le> lf [c]"
    and cps_length: "cps \<Longrightarrow> lf = length"
begin

lemma lf_Nil [simp]: "lf [] = 0"
  using lf_append [of "[]" "[]"] by simp

lemma lf_Cons: "lf (c # s) = lf [c] + lf s"
  using lf_append [of "[c]" s] by simp

lemma lf_FENCE_CLOSE: "lf FENCE_CLOSE = 4" and lf_tick3: "lf tick3 = 3"
  by (simp_all add: FENCE_CLOSE_def tick3_def lf_Cons [of _ "_ # _"] lf_ascii)

lemma lf_fence_prefix: "lf (fence_prefix carry) \<le> 4 + lf (lang_of carry)"
  by (cases carry) (simp_all add: fence_prefix_def lang_of_def lf_append lf_tick3 lf_ascii)

lemma lf_take_mono: "m \<le> n \<Longrightarrow> lf (take m s) \<le> lf (take n s)"
  by (metis le_add1 le_add_diff_inverse lf_append take_add)

lemma lf_take_le: "lf (take m s) \<le> lf s"
  by (metis append_take_drop_id le_add1 lf_append)

lemma bisect_spec:
  assumes "lo \<le> hi" "int (lf (take lo s)) \<le> budget"
    and "\<And>n. hi < n \<Longrightarrow> n \<le> length s \<Longrightarrow> budget < int (lf (take n s))"
  shows "lo \<le> bisect lf budget s lo hi \<and> bisect lf budget s lo hi \<le> hi
    \<and> int (lf (take (bisect lf budget s lo hi) s)) \<le> budget
    \<and> (\<forall>n. bisect lf budget s lo hi < n \<longrightarrow> n \<le> length s \<longrightarrow> budget < int (lf (take n s)))"
  using assms
proof (induction "hi - lo" arbitrary: lo hi rule: less_induct)
  case less
  show ?case
  proof (cases "lo < hi")
    case False
    with less.prems have "lo = hi" by simp
    with less.prems show ?thesis by (simp add: bisect.simps [of _ _ _ hi hi])
  next
    case True
    define m where "m = (lo + hi + 1) div 2"
    have m: "lo < m" "m \<le> hi" using True by (auto simp: m_def)
    show ?thesis
    proof (cases "int (lf (take m s)) \<le> budget")
      case ok: True
      have e: "bisect lf budget s lo hi = bisect lf budget s m hi"
        using True ok by (simp add: bisect.simps [of _ _ _ lo hi] m_def)
      have "hi - m < hi - lo" using m by simp
      from less.hyps [OF this m(2) ok less.prems(3)] m show ?thesis unfolding e by auto
    next
      case bad: False
      have e: "bisect lf budget s lo hi = bisect lf budget s lo (m - 1)"
        using True bad by (simp add: bisect.simps [of _ _ _ lo hi] m_def)
      have above: "budget < int (lf (take n s))" if "m - 1 < n" for n
        using lf_take_mono [of m n s] that bad m by linarith
      have "m - 1 - lo < hi - lo" "lo \<le> m - 1" using m by auto
      from less.hyps [OF this less.prems(2) above] m show ?thesis unfolding e by auto
    qed
  qed
qed

lemma safe_slice_budget_spec:
  assumes "0 \<le> budget"
  shows "safe_slice_budget s budget lf \<le> length s"
    and "int (lf (take (safe_slice_budget s budget lf) s)) \<le> budget"
    and "safe_slice_budget s budget lf < n \<Longrightarrow> n \<le> length s \<Longrightarrow> budget < int (lf (take n s))"
  using bisect_spec [of 0 "length s" s budget] assms
  by (auto simp: safe_slice_budget_def split: if_splits)

lemma cp_limit_spec:
  assumes "2 \<le> h" "s \<noteq> []"
  shows "1 \<le> cp_limit_of lf cps h s" "cp_limit_of lf cps h s \<le> length s"
    "int (lf (take (cp_limit_of lf cps h s) s)) \<le> h"
proof -
  have one: "int (lf (take 1 s)) \<le> h" using assms lf_char(1) [of "hd s"] by (cases s) auto
  show "cp_limit_of lf cps h s \<le> length s" "int (lf (take (cp_limit_of lf cps h s) s)) \<le> h"
    using safe_slice_budget_spec [of h s] cps_length assms by (auto simp: cp_limit_of_def)
  show "1 \<le> cp_limit_of lf cps h s"
  proof (cases cps)
    case False
    have "\<not> safe_slice_budget s h lf < 1"
      using safe_slice_budget_spec(3) [of h s 1] one assms by (cases s) auto
    with False show ?thesis by (simp add: cp_limit_of_def)
  qed (use assms in \<open>simp add: cp_limit_of_def Suc_le_eq\<close>)
qed

end

lemma length_is_text_length: "text_length length b"
  by unfold_locales auto

interpretation cp_len: text_length length True by (rule length_is_text_length)

interpretation u16_len: text_length utf16_len False
  by unfold_locales (auto simp: utf16_len_def)

subsection \<open>The split point\<close>

lemma back_to_unescaped_le: "back_to_unescaped s b \<le> b"
proof (induction s b rule: back_to_unescaped.induct)
  case (1 s b)
  show ?case
  proof (cases "b > 0 \<and> s ! nat (b - 1) = 92")
    case True
    have "rfind 96 (take (nat b) s) < b" using rfind_take True by simp
    with 1 [OF True] True show ?thesis by (simp add: back_to_unescaped.simps [of s b])
  next
    case False
    then show ?thesis by (subst back_to_unescaped.simps) auto
  qed
qed

lemma first_split_bounds:
  assumes "1 \<le> cp" "length region \<le> cp"
  shows "1 \<le> first_split cp region" "first_split cp region \<le> int cp"
  using assms rfind_bound [of 10 region] rfind_bound [of 32 region] by (auto simp: first_split_def Let_def)

lemma avoid_inline_code_bounds:
  assumes "1 \<le> cp" "1 \<le> n" "n \<le> int cp" "int (length candidate) \<le> n"
  shows "1 \<le> avoid_inline_code cp candidate n" "avoid_inline_code cp candidate n \<le> int cp"
proof -
  let ?bt = "back_to_unescaped candidate (rfind 96 candidate)"
  have bt: "?bt < n"
    using back_to_unescaped_le [of candidate "rfind 96 candidate"] rfind_bound [of 96 candidate] assms by linarith
  have safe: "max (rfind 32 (take (nat ?bt) candidate)) (rfind 10 (take (nat ?bt) candidate)) < ?bt" if "?bt > 0"
    using rfind_take [OF that] by simp
  have quarter: "0 \<le> int cp div 4" by simp
  show "1 \<le> avoid_inline_code cp candidate n" "avoid_inline_code cp candidate n \<le> int cp"
    using bt assms safe quarter unfolding avoid_inline_code_def Let_def by (smt (verit))+
qed

lemma split_point_bounds:
  assumes "1 \<le> cp" "cp \<le> length s"
  shows "1 \<le> split_point cp s" "split_point cp s \<le> cp"
proof -
  have r: "length (take cp s) \<le> cp" by simp
  note f = first_split_bounds [OF assms(1) r]
  have "int (length (take (nat (first_split cp (take cp s))) s)) \<le> first_split cp (take cp s)"
    using f by simp
  note a = avoid_inline_code_bounds [OF assms(1) f this]
  then show "1 \<le> split_point cp s" "split_point cp s \<le> cp" by (auto simp: split_point_def Let_def)
qed

subsection \<open>Lines and fence states of concatenations\<close>

definition fence_flip :: "bool \<Rightarrow> ustr list \<Rightarrow> bool" where
  "fence_flip i ls = foldl (\<lambda>i l. if prefix tick3 (py_strip l) then \<not> i else i) i ls"

lemma fence_flip_append [simp]: "fence_flip i (xs @ ys) = fence_flip (fence_flip i xs) ys"
  by (simp add: fence_flip_def)

lemma fence_flip_not: "fence_flip (\<not> i) ls = (\<not> fence_flip i ls)"
  unfolding fence_flip_def by (induction ls arbitrary: i) auto

lemma fst_code_state: "fst (code_state s i l) = fence_flip i (lines_of s)"
proof -
  have "fst (foldl code_step (i, l) ls) = fence_flip i ls" for ls
    unfolding fence_flip_def by (induction ls arbitrary: i l) auto
  then show ?thesis by (simp add: code_state_def)
qed

lemma code_state_lang:
  assumes "P l" "P []" "\<And>x. x \<in> set (lines_of s) \<Longrightarrow> prefix tick3 (py_strip x) \<Longrightarrow> P (fence_tag (py_strip x))"
  shows "P (snd (code_state s i l))"
proof -
  have "P (snd (foldl code_step (i, l) ls))" if "P l" "set ls \<subseteq> set (lines_of s)" for ls
    using that by (induction ls arbitrary: i l) (auto simp: assms)
  with assms(1) show ?thesis by (simp add: code_state_def)
qed

lemma strip_tick3: "prefix tick3 (py_strip (tick3 @ s))"
proof -
  have l: "lstrip_by py_isspace (tick3 @ s) = tick3 @ s" by (rule lstrip_by_id) (simp add: tick3_def py_isspace_def)
  show ?thesis
  proof (cases "\<forall>c \<in> set s. py_isspace c")
    case True
    then have sp: "\<And>c. c \<in> set (rev s) \<Longrightarrow> py_isspace c" by simp
    have "dropWhile py_isspace (rev tick3) = rev tick3" by (simp add: tick3_def py_isspace_def)
    then have "dropWhile py_isspace (rev s @ rev tick3) = rev tick3" using dropWhile_append2 [of "rev s" py_isspace "rev tick3"] sp by simp
    then show ?thesis unfolding strip_by_def l by (simp add: rstrip_by_def)
  next
    case False
    then have "dropWhile py_isspace (rev s @ rev tick3) = dropWhile py_isspace (rev s) @ rev tick3"
      by (auto simp: dropWhile_append1)
    then show ?thesis unfolding strip_by_def l by (simp add: rstrip_by_def)
  qed
qed

lemma fence_flip_close: "fence_flip i (lines_of (b @ FENCE_CLOSE)) = (\<not> fence_flip i (lines_of b))"
proof -
  have "lines_of tick3 = [tick3]" by (rule split_on_single) (simp add: tick3_def)
  with strip_tick3 [of "[]"] show ?thesis
    unfolding FENCE_CLOSE_def split_on_append by (simp add: fence_flip_def)
qed

lemma fence_flip_prefix:
  "10 \<notin> set (lang_of carry) \<Longrightarrow>
   fence_flip False (lines_of (fence_prefix carry @ s)) = fence_flip (carry \<noteq> None) (lines_of s)"
proof (cases carry)
  case (Some lang)
  assume "10 \<notin> set (lang_of carry)"
  with Some have "10 \<notin> set (tick3 @ lang)" by (simp add: lang_of_def tick3_def)
  then have "lines_of ((tick3 @ lang) @ 10 # s) = (tick3 @ lang) # lines_of s"
    unfolding split_on_append using split_on_single [of 10 "tick3 @ lang"] by simp
  with Some strip_tick3 [of lang] show ?thesis by (simp add: fence_prefix_def fence_flip_def)
qed (simp add: fence_prefix_def)

definition balanced_fences :: "ustr \<Rightarrow> bool" where
  "balanced_fences s = (\<not> fst (code_state s False []))"

lemma cut_chunk_balanced:
  "10 \<notin> set (lang_of carry) \<Longrightarrow> balanced_fences (fst (cut_chunk carry body))"
  by (cases "fence_flip (carry \<noteq> None) (lines_of body)")
    (auto simp: cut_chunk_def balanced_fences_def case_prod_unfold Let_def fst_code_state
       fence_flip_prefix fence_flip_close)

lemma fence_tag_nl: "10 \<notin> set (fence_tag s)"
  by (auto simp: fence_tag_def py_isspace_def dest: set_takeWhileD)

lemma strip_subset: "set (py_strip s) \<subseteq> set s"
  by (auto simp: strip_by_def rstrip_by_def lstrip_by_def dest!: set_dropWhileD)

lemma lines_subset: "l \<in> set (split_on d s) \<Longrightarrow> set l \<subseteq> set s"
proof (induction s arbitrary: l)
  case (Cons c s)
  show ?case
  proof (cases "c = d")
    case False
    have "hd (split_on d s) \<in> set (split_on d s)" by simp
    with Cons False list.set_sel(2) [of "split_on d s"] show ?thesis by fastforce
  qed (use Cons in fastforce)
qed simp

lemma no_ticks: "96 \<notin> set s \<Longrightarrow> l \<in> set (lines_of s) \<Longrightarrow> \<not> prefix tick3 (py_strip l)"
  using lines_subset [of l 10 s] strip_subset [of l] by (auto simp: prefix_def tick3_def)

lemma plain_flip: "96 \<notin> set s \<Longrightarrow> fence_flip i (lines_of s) = i"
proof -
  assume s: "96 \<notin> set s"
  have "fence_flip i ls = i" if "set ls \<subseteq> set (lines_of s)" for ls
    using that unfolding fence_flip_def by (induction ls arbitrary: i) (auto simp: no_ticks [OF s])
  then show ?thesis by simp
qed

lemma plain_chunks:
  assumes "96 \<notin> set s"
  shows "cut_chunk None s = (s, None)" "final_chunk None s = s"
  using fst_code_state [of s False "[]"] plain_flip [OF assms]
  by (simp_all add: cut_chunk_def final_chunk_def fence_prefix_def lang_of_def case_prod_unfold Let_def)

subsection \<open>The chunks\<close>

text \<open>No cut of the text has a fence tag longer than \<open>n\<close>.\<close>

definition tags_fit :: "(ustr \<Rightarrow> nat) \<Rightarrow> nat \<Rightarrow> ustr \<Rightarrow> bool" where
  "tags_fit lf n content \<longleftrightarrow>
     (\<forall>b l. sublist b content \<longrightarrow> l \<in> set (lines_of b) \<longrightarrow> prefix tick3 (py_strip l) \<longrightarrow>
        lf (fence_tag (py_strip l)) \<le> n)"

text \<open>A chunk is a reopened fence, a piece of the text and a closed fence, the fences possibly empty.\<close>

definition glue :: "ustr \<times> ustr \<times> ustr \<Rightarrow> ustr" where
  "glue part = (case part of (p, b, q) \<Rightarrow> p @ b @ q)"

definition fences_only :: "ustr \<times> ustr \<times> ustr \<Rightarrow> bool" where
  "fences_only part = (case part of (p, b, q) \<Rightarrow> (p = [] \<or> (\<exists>lang. p = tick3 @ lang @ [10])) \<and> (q = [] \<or> q = FENCE_CLOSE))"

definition piece :: "ustr \<times> ustr \<times> ustr \<Rightarrow> ustr" where
  "piece part = fst (snd part)"

lemma tags_fit_drop: "tags_fit lf n s \<Longrightarrow> tags_fit lf n (drop k s)"
  unfolding tags_fit_def by (metis sublist_drop sublist_order.order_trans)

lemma tags_fit_take:
  "tags_fit lf n s \<Longrightarrow> l \<in> set (lines_of (take k s)) \<Longrightarrow> prefix tick3 (py_strip l) \<Longrightarrow> lf (fence_tag (py_strip l)) \<le> n"
  unfolding tags_fit_def by (metis sublist_take)

lemma fences_only_prefix: "fence_prefix carry = [] \<or> (\<exists>lang. fence_prefix carry = tick3 @ lang @ [10])"
  by (cases carry) (simp_all add: fence_prefix_def)

lemma cut_chunk_part:
  obtains part where "fst (cut_chunk carry b) = glue part" "piece part = b" "fences_only part"
    "\<exists>q. part = (fence_prefix carry, b, q) \<and> (q = [] \<or> q = FENCE_CLOSE)"
proof
  let ?q = "if fst (code_state b (carry \<noteq> None) (lang_of carry)) then FENCE_CLOSE else []"
  show "fst (cut_chunk carry b) = glue (fence_prefix carry, b, ?q)" "piece (fence_prefix carry, b, ?q) = b"
    "fences_only (fence_prefix carry, b, ?q)"
    "\<exists>q. (fence_prefix carry, b, ?q) = (fence_prefix carry, b, q) \<and> (q = [] \<or> q = FENCE_CLOSE)"
    using fences_only_prefix [of carry]
    by (simp_all add: cut_chunk_def glue_def piece_def fences_only_def case_prod_unfold Let_def)
qed

definition chunks_ok :: "(ustr \<Rightarrow> nat) \<Rightarrow> int \<Rightarrow> ustr list \<Rightarrow> ustr \<Rightarrow> bool" where
  "chunks_ok lf limit chunks content \<longleftrightarrow>
     (\<forall>c \<in> set chunks. int (lf c) \<le> limit) \<and> (\<forall>c \<in> set (butlast chunks). balanced_fences c) \<and>
     (\<exists>parts. chunks = map glue parts \<and> concat (map piece parts) = content \<and> list_all fences_only parts)"

lemma chunks_ok_Cons:
  assumes "int (lf c) \<le> limit" "balanced_fences c" "c = glue part" "piece part = b" "fences_only part"
    "chunks_ok lf limit cs s"
  shows "chunks_ok lf limit (c # cs) (b @ s)"
proof -
  obtain parts where p: "cs = map glue parts" "concat (map piece parts) = s" "list_all fences_only parts"
    using assms(6) by (auto simp: chunks_ok_def)
  have "c # cs = map glue (part # parts)" "concat (map piece (part # parts)) = b @ s" "list_all fences_only (part # parts)"
    using p assms by simp_all
  with assms show ?thesis unfolding chunks_ok_def by (metis butlast.simps(2) set_ConsD emptyE empty_set)
qed

lemma chunks_ok_Nil [simp]: "chunks_ok lf limit [] []"
  by (simp add: chunks_ok_def)

context text_length begin

lemma final_chunk_ok:
  assumes "final_fits lf max_length reserve carry s"
  shows "chunks_ok lf (max_length - reserve) [final_chunk carry s] s"
proof -
  let ?st = "code_state s (carry \<noteq> None) (lang_of carry)"
  let ?q = "if fst ?st \<and> fst (code_state s True (snd ?st)) then FENCE_CLOSE else []"
  have g: "final_chunk carry s = glue (fence_prefix carry, s, ?q)"
    by (simp add: final_chunk_def glue_def case_prod_unfold Let_def)
  have "int (lf (glue (fence_prefix carry, s, ?q))) \<le> max_length - reserve"
    using assms by (auto simp: final_fits_def glue_def lf_append Let_def split: if_splits)
  moreover have "fences_only (fence_prefix carry, s, ?q)"
    using fences_only_prefix [of carry] by (simp add: fences_only_def)
  ultimately show ?thesis
    unfolding chunks_ok_def g
    by (intro conjI exI [of _ "[(fence_prefix carry, s, ?q)]"]) (simp_all add: piece_def)
qed

lemma headroom:
  assumes "int n + 10 + reserve \<le> max_length" "lf (lang_of carry) \<le> n"
  shows "headroom_of lf max_length reserve carry = max_length - reserve - int (lf (fence_prefix carry)) - 4"
    and "2 \<le> headroom_of lf max_length reserve carry"
  using assms lf_fence_prefix [of carry] by (simp_all add: headroom_of_def lf_FENCE_CLOSE Let_def)

lemma cut_ok:
  assumes "int n + 10 + reserve \<le> max_length" "lf (lang_of carry) \<le> n" "10 \<notin> set (lang_of carry)"
    and s: "tags_fit lf n s" "s \<noteq> []"
    and k: "k = split_point (cp_limit_of lf cps (headroom_of lf max_length reserve carry) s) s"
    and c: "cut_chunk carry (take k s) = (chunk, carry')"
  shows "1 \<le> k" "int (lf chunk) \<le> max_length - reserve" "balanced_fences chunk"
    "lf (lang_of carry') \<le> n" "10 \<notin> set (lang_of carry')"
proof -
  let ?h = "headroom_of lf max_length reserve carry"
  note h = headroom [OF assms(1,2)]
  note cp = cp_limit_spec [OF h(2) s(2)]
  note b = split_point_bounds [OF cp(1,2)]
  show "1 \<le> k" using b k by simp
  have "int (lf (take k s)) \<le> ?h" using cp(3) lf_take_mono [OF b(2), of s] k by simp
  moreover have "lf chunk \<le> lf (fence_prefix carry) + lf (take k s) + 4"
    using c lf_FENCE_CLOSE by (auto simp: cut_chunk_def lf_append case_prod_unfold Let_def split: if_splits)
  ultimately show "int (lf chunk) \<le> max_length - reserve" using h(1) by linarith
  show "balanced_fences chunk" using cut_chunk_balanced [OF assms(3), of "take k s"] c by simp
  have l: "lang_of carry' = [] \<or> lang_of carry' = snd (code_state (take k s) (carry \<noteq> None) (lang_of carry))"
    using c by (auto simp: cut_chunk_def lang_of_def case_prod_unfold Let_def split: if_splits)
  have "lf (snd (code_state (take k s) (carry \<noteq> None) (lang_of carry))) \<le> n"
    by (rule code_state_lang [where P = "\<lambda>l. lf l \<le> n"]) (use assms(2) tags_fit_take [OF s(1)] in auto)
  with l show "lf (lang_of carry') \<le> n" by auto
  have "10 \<notin> set (snd (code_state (take k s) (carry \<noteq> None) (lang_of carry)))"
    by (rule code_state_lang [where P = "\<lambda>l. 10 \<notin> set l"]) (use assms(3) fence_tag_nl in auto)
  with l show "10 \<notin> set (lang_of carry')" by auto
qed

lemma split_loop_ok:
  assumes room: "int n + 10 + reserve \<le> max_length"
  shows "tags_fit lf n s \<Longrightarrow> lf (lang_of carry) \<le> n \<Longrightarrow> 10 \<notin> set (lang_of carry) \<Longrightarrow>
    \<exists>chunks. split_loop lf cps max_length reserve carry s = Some chunks
      \<and> chunks_ok lf (max_length - reserve) chunks s
      \<and> (96 \<notin> set s \<longrightarrow> carry = None \<longrightarrow> concat chunks = s)"
proof (induction "length s" arbitrary: s carry rule: less_induct)
  case less
  show ?case
  proof (cases "s = [] \<or> final_fits lf max_length reserve carry s")
    case True
    show ?thesis
    proof (cases "s = []")
      case True
      have "split_loop lf cps max_length reserve carry [] = Some []" by (subst split_loop.simps) simp
      with True show ?thesis by simp
    next
      case False
      with True have "split_loop lf cps max_length reserve carry s = Some [final_chunk carry s]"
        by (subst split_loop.simps) simp
      with True False final_chunk_ok [of max_length reserve carry s] plain_chunks(2) [of s] show ?thesis by auto
    qed
  next
    case False
    define k where "k = split_point (cp_limit_of lf cps (headroom_of lf max_length reserve carry) s) s"
    obtain chunk carry' where c: "cut_chunk carry (take k s) = (chunk, carry')" by force
    from False have ne: "s \<noteq> []" by simp
    note ok = cut_ok [OF room less.prems(2,3) less.prems(1) ne k_def c]
    have "length (drop k s) < length s" using ok(1) ne by simp
    from less.hyps [OF this tags_fit_drop [OF less.prems(1)] ok(4,5)]
    obtain chunks where ch: "split_loop lf cps max_length reserve carry' (drop k s) = Some chunks"
      "chunks_ok lf (max_length - reserve) chunks (drop k s)"
      "96 \<notin> set (drop k s) \<longrightarrow> carry' = None \<longrightarrow> concat chunks = drop k s" by blast
    have plain: "concat (chunk # chunks) = s" if "96 \<notin> set s" "carry = None"
    proof -
      have "96 \<notin> set (take k s)" "96 \<notin> set (drop k s)" using that by (auto dest: in_set_takeD in_set_dropD)
      with c ch(3) that plain_chunks(1) [of "take k s"] have "take k s = chunk" "concat chunks = drop k s" by auto
      then show ?thesis using append_take_drop_id [of k s] by simp
    qed
    have "split_loop lf cps max_length reserve carry s = Some (chunk # chunks)"
      using False c ch(1) by (simp add: split_loop.simps [of _ _ _ _ _ s] k_def Let_def)
    moreover obtain part where "chunk = glue part" "piece part = take k s" "fences_only part"
      using cut_chunk_part [of carry "take k s"] c by (metis fst_conv)
    from chunks_ok_Cons [OF ok(2,3) this ch(2)] have "chunks_ok lf (max_length - reserve) (chunk # chunks) s" by simp
    ultimately show ?thesis using plain by blast
  qed
qed

end

subsection \<open>Properties\<close>

lemma split_text_ok:
  assumes "text_length lf cps" "int n + 10 + reserve \<le> max_length" "0 \<le> reserve" "tags_fit lf n content"
  shows "\<exists>chunks. split_telegram_text lf cps content max_length reserve = Some chunks
    \<and> chunks_ok lf max_length chunks content \<and> (96 \<notin> set content \<longrightarrow> concat chunks = content)"
proof (cases "int (lf content) \<le> max_length")
  case True
  have "chunks_ok lf max_length [content] content"
    using True unfolding chunks_ok_def
    by (intro conjI exI [of _ "[([], content, [])]"]) (simp_all add: glue_def piece_def fences_only_def)
  with True show ?thesis by (simp add: split_telegram_text_def)
next
  case False
  have "lf (lang_of None) \<le> n" "10 \<notin> set (lang_of None)"
    using text_length.lf_Nil [OF assms(1)] by (simp_all add: lang_of_def)
  from text_length.split_loop_ok [OF assms(1,2,4) this] obtain chunks where
    "split_loop lf cps max_length reserve None content = Some chunks"
    "chunks_ok lf (max_length - reserve) chunks content" "96 \<notin> set content \<longrightarrow> concat chunks = content" by blast
  moreover from this(2) have "chunks_ok lf max_length chunks content"
    using assms(3) by (force simp: chunks_ok_def)
  ultimately show ?thesis using False by (simp add: split_telegram_text_def)
qed


lemma plain_tags_fit: "96 \<notin> set s \<Longrightarrow> tags_fit lf n s"
  unfolding tags_fit_def using no_ticks set_mono_sublist by blast




lemma split_loop_stuck:
  assumes "s \<noteq> []" "\<not> final_fits lf max_length reserve carry s"
    and "split_point (cp_limit_of lf cps (headroom_of lf max_length reserve carry) s) s = 0"
    and "cut_chunk carry [] = (chunk, carry)"
  shows "split_loop lf cps max_length reserve carry s = None"
proof (cases "split_loop lf cps max_length reserve carry s")
  case (Some cs)
  then have "Option.bind (split_loop lf cps max_length reserve carry s) (\<lambda>cs. Some (chunk # cs)) = Some cs"
    using assms by (subst (asm) split_loop.simps) (simp add: Let_def)
  with Some show ?thesis by simp
qed simp

lemma utf16_len_simps [simp]:
  "utf16_len [] = 0" "utf16_len (c # s) = (if c > 65535 then 2 else 1) + utf16_len s"
  "utf16_len (s @ t) = utf16_len s + utf16_len t"
  by (simp_all add: utf16_len_def)

lemma utf16_len_bmp: "\<forall>c \<in> set s. c \<le> 65535 \<Longrightarrow> utf16_len s = length s"
  by (induction s) auto

lemma strip_no_space: "\<forall>c \<in> set s. \<not> py_isspace c \<Longrightarrow> py_strip s = s"
  by (cases s rule: rev_cases) (auto simp: strip_by_def lstrip_by_id rstrip_by_id hd_append)

lemma tag_line_state:
  assumes "\<forall>c \<in> set tag. \<not> py_isspace c"
  shows "code_state (tick3 @ tag @ [10]) False [] = (True, tag)"
proof -
  have sp: "py_isspace 10" "\<not> py_isspace 96" by (simp_all add: py_isspace_def)
  with assms have "10 \<notin> set (tick3 @ tag)" by (auto simp: tick3_def)
  then have l: "lines_of (tick3 @ tag @ [10]) = [tick3 @ tag, []]"
    using split_on_append [of 10 "tick3 @ tag" "[]"] split_on_single [of 10 "tick3 @ tag"] by simp
  have "\<forall>c \<in> set (tick3 @ tag). \<not> py_isspace c" using assms sp by (auto simp: tick3_def)
  from strip_no_space [OF this] have st: "py_strip (tick3 @ tag) = tick3 @ tag" .
  have "py_strip tag = tag" "takeWhile (\<lambda>c. \<not> py_isspace c) tag = tag"
    using strip_no_space [OF assms] assms by (auto simp: takeWhile_eq_all_conv)
  then have "fence_tag (tick3 @ tag) = tag" by (simp add: fence_tag_def tick3_def)
  moreover have "py_strip [] = []" by (simp add: strip_by_def lstrip_by_def rstrip_by_def)
  ultimately show ?thesis unfolding code_state_def l by (simp add: st) (simp add: tick3_def)
qed

lemma tag_line_cut:
  assumes "\<forall>c \<in> set tag. \<not> py_isspace c"
  shows "cut_chunk None (tick3 @ tag @ [10]) = (tick3 @ tag @ [10] @ FENCE_CLOSE, Some tag)"
  using tag_line_state [OF assms] by (simp add: cut_chunk_def fence_prefix_def lang_of_def)

lemma cut_nothing: "cut_chunk (Some tag) [] = (tick3 @ tag @ [10] @ FENCE_CLOSE, Some tag)"
proof -
  have "py_strip [] = []" by (simp add: strip_by_def lstrip_by_def rstrip_by_def)
  then show ?thesis by (simp add: cut_chunk_def code_state_def lang_of_def fence_prefix_def tick3_def)
qed

lemma split_point_zero: "split_point 0 s = 0"
proof -
  have "\<not> has_fenced_block []" "unescaped_backticks [] = 0"
    by (simp_all add: has_fenced_block_def tick3_def unescaped_backticks_def)
  then show ?thesis by (simp add: split_point_def first_split_def avoid_inline_code_def)
qed

lemma rfind_last: "rfind c (s @ [c]) = int (length s)"
  by (induction s) (auto simp: Let_def)

lemma split_point_tag_line:
  assumes "length tag \<ge> 1" "cp = length tag + 4"
  shows "split_point cp (tick3 @ tag @ [10] @ s) = cp"
proof -
  let ?l = "tick3 @ tag @ [10]"
  have l: "length ?l = cp" using assms by (simp add: tick3_def)
  then have t: "take cp (?l @ s) = ?l" by (metis append_eq_conv_conj)
  have "rfind 10 ?l = int cp - 1" using rfind_last [of 10 "tick3 @ tag"] assms by (simp add: tick3_def)
  moreover have "\<not> int cp - 1 < int cp div 2" "\<not> int cp - 1 < 1" using assms by auto
  ultimately have f: "first_split cp ?l = int cp" by (simp only: first_split_def Let_def if_False)
  have "prefix tick3 (hd (lines_of ?l))" by (simp add: tick3_def)
  then have "has_fenced_block ?l" unfolding has_fenced_block_def
    by (metis hd_in_set list_ex_iff split_on_ne)
  with f t show ?thesis by (simp add: split_point_def avoid_inline_code_def)
qed

text \<open>
  The splitter can run for ever: when the language tag of an opening fence leaves room for
  exactly one unit beside the fence lines and the block goes on with a character outside the basic plane
  (an emoji, two UTF-16 units), no piece can be cut, the state does not change, and the loop never ends.
\<close>

theorem long_fence_tag_never_returns:
  assumes "\<forall>c \<in> set tag. \<not> py_isspace c" and "\<forall>c \<in> set tag. c \<le> 65535" and "int (length tag) = max_length - reserve - 9"
    and "1 \<le> length tag" and "65535 < e" and "96 \<notin> set (e # r)" and "0 \<le> reserve"
    and "max_length < int (utf16_len (tick3 @ tag @ [10] @ e # r))"
  shows "split_telegram_text utf16_len False (tick3 @ tag @ [10] @ e # r) max_length reserve = None"
proof -
  let ?l = "tick3 @ tag @ [10]" and ?s = "e # r"
  have ll: "utf16_len ?l = length tag + 4" "length ?l = length tag + 4"
    using utf16_len_bmp [OF assms(2)] by (simp_all add: tick3_def)
  have bmp: "\<forall>c \<in> set ?l. c \<le> 65535" using assms(2) by (auto simp: tick3_def)
  have close: "utf16_len FENCE_CLOSE = 4" by (simp add: FENCE_CLOSE_def tick3_def)
  have fp: "utf16_len (fence_prefix (Some tag)) = length tag + 4" using ll by (simp add: fence_prefix_def)
  have h2: "headroom_of utf16_len max_length reserve (Some tag) = 1"
    unfolding headroom_of_def Let_def fp close using assms(3) by simp
  have "safe_slice_budget ?s 1 utf16_len < 1"
  proof (rule ccontr)
    assume "\<not> safe_slice_budget ?s 1 utf16_len < 1"
    then have "utf16_len (take 1 ?s) \<le> utf16_len (take (safe_slice_budget ?s 1 utf16_len) ?s)"
      by (intro u16_len.lf_take_mono) simp
    with u16_len.safe_slice_budget_spec(2) [of 1 ?s] assms(5) show False by simp
  qed
  then have cp2: "cp_limit_of utf16_len False 1 ?s = 0" by (simp add: cp_limit_of_def)
  have "fst (code_state ?s True tag)" using plain_flip [OF assms(6)] by (simp add: fst_code_state)
  then have "\<not> final_fits utf16_len max_length reserve (Some tag) ?s"
    unfolding final_fits_def Let_def fp using assms(3,5) close by (simp add: lang_of_def)
  then have stuck: "split_loop utf16_len False max_length reserve (Some tag) ?s = None"
    by (rule split_loop_stuck [rotated]) (simp_all add: h2 cp2 split_point_zero cut_nothing)
  have h1: "headroom_of utf16_len max_length reserve None = int (length tag) + 5"
    using assms(3) by (simp add: headroom_of_def fence_prefix_def close Let_def)
  have cp1: "cp_limit_of utf16_len False (int (length tag) + 5) (?l @ ?s) = length tag + 4"
  proof -
    let ?b = "safe_slice_budget (?l @ ?s) (int (length tag) + 5) utf16_len"
    note sp = u16_len.safe_slice_budget_spec [of "int (length tag) + 5" "?l @ ?s"]
    have "utf16_len (take (length tag + 4) (?l @ ?s)) = length tag + 4" using ll by simp
    then have "\<not> ?b < length tag + 4" using sp(3) [of "length tag + 4"] ll by auto
    moreover have "utf16_len (take (length tag + 5) (?l @ ?s)) = length tag + 6"
      using ll assms(5) by (simp add: take_Cons')
    then have "\<not> length tag + 5 \<le> ?b"
      using sp(2) u16_len.lf_take_mono [of "length tag + 5" ?b "?l @ ?s"] by auto
    ultimately show ?thesis by (simp add: cp_limit_of_def)
  qed
  have nf: "\<not> final_fits utf16_len max_length reserve None (?l @ ?s)"
    unfolding final_fits_def Let_def using assms(7,8) by (simp add: fence_prefix_def)
  have k: "split_point (length tag + 4) (?l @ ?s) = length tag + 4"
    using split_point_tag_line [OF assms(4) refl, of ?s] by simp
  have t: "take (length tag + 4) (?l @ ?s) = ?l" "drop (length tag + 4) (?l @ ?s) = ?s" using ll(2) by simp_all
  have "split_loop utf16_len False max_length reserve None (?l @ ?s) = None"
    using nf stuck by (subst split_loop.simps) (simp only: Let_def h1 cp1 k t tag_line_cut [OF assms(1)], simp)
  with assms(8) show ?thesis by (simp add: split_telegram_text_def)
qed

theorem long_fence_tag_never_returns_witness:
  "\<exists>tag. split_telegram_text utf16_len False (tick3 @ tag @ [10] @ 128512 # replicate 20 97) 4096 12 = None"
proof -
  obtain tag :: ustr where tag: "length tag = 4075" "set tag \<subseteq> {97}"
    using length_replicate [of 4075 "97::nat"] set_replicate_conv_if [of 4075 "97::nat"]
    by (metis subset_refl zero_neq_numeral)
  have sp: "\<not> py_isspace 97" by (simp add: py_isspace_def)
  have c: "\<forall>c \<in> set tag. \<not> py_isspace c" "\<forall>c \<in> set tag. c \<le> 65535" using tag(2) sp by auto
  have len: "int (length tag) = 4096 - 12 - 9" "1 \<le> length tag" using tag by simp_all
  have r: "utf16_len (replicate 20 97) = 20" "96 \<notin> set (128512 # replicate 20 (97::nat))"
    by (subst utf16_len_bmp) auto
  have "(4096::int) < int (utf16_len (tick3 @ tag @ [10] @ 128512 # replicate 20 97))"
    using utf16_len_bmp [OF c(2)] tag r by (simp add: tick3_def)
  from long_fence_tag_never_returns [OF c len _ r(2) _ this] show ?thesis by auto
qed

text \<open>
  A code block opened in the last chunk is left open: when the rest of the text fits the last
  chunk and no block is carried over, the chunk is the rest verbatim, also when it ends inside a code block,
  although the room for the closing fence has been reserved.
\<close>

theorem last_chunk_is_left_open:
  assumes "s \<noteq> []" and "final_fits lf max_length reserve None s" and "\<not> balanced_fences s"
  shows "split_loop lf cps max_length reserve None s = Some [s]
    \<and> int (lf s + lf FENCE_CLOSE) + int (lf []) \<le> max_length - reserve"
proof -
  have "fst (code_state s False [])" using assms(3) by (simp add: balanced_fences_def)
  moreover from this have "\<not> fst (code_state s True l)" for l
    using fence_flip_not [of False "lines_of s"] by (simp add: fst_code_state)
  ultimately have "final_chunk None s = s"
    by (simp add: final_chunk_def fence_prefix_def lang_of_def case_prod_unfold Let_def)
  with assms \<open>fst (code_state s False [])\<close> show ?thesis
    by (subst split_loop.simps) (simp add: final_fits_def fence_prefix_def lang_of_def Let_def)
qed

theorem last_chunk_is_left_open_witness:
  "split_loop length True 40 0 None (tick3 @ [10, 97]) = Some [tick3 @ [10, 97]]"
proof -
  have l: "lines_of (tick3 @ [10, 97]) = [tick3, [97]]" by (simp add: tick3_def)
  have s: "py_strip tick3 = tick3" "py_strip [97] = [97]"
    by (rule strip_no_space; simp add: tick3_def py_isspace_def)+
  have "fst (code_state (tick3 @ [10, 97]) False [])"
    unfolding fst_code_state l fence_flip_def by (simp add: s) (simp add: tick3_def)
  moreover have "final_fits length True_limit 0 None (tick3 @ [10, 97])" if "True_limit = 40" for True_limit
    using that by (simp add: final_fits_def fence_prefix_def FENCE_CLOSE_def tick3_def Let_def)
  ultimately show ?thesis
    by (intro last_chunk_is_left_open [THEN conjunct1]) (simp_all add: balanced_fences_def)
qed

end
