(* ===== verification/EventLog.thy ===== *)
theory EventLog
  imports TurnStream JsonText
begin

section \<open>The durable event log of a chat\<close>

text \<open>
  \<open>src/src/diploid_agent/runtime/event_log.py\<close>.  A log is the text of the chat's \<open>chat_events.jsonl\<close> (\<open>None\<close>
  when there is none) and the ring of the last 500 events, read from the file at the first use after a
  start.  Events are JSON objects.  \<open>json.dumps(..., ensure_ascii=False)\<close> is \<open>json_text\<close>, with the text of
  a float as the argument \<open>shf\<close>; \<open>json.loads\<close> is the argument \<open>loads\<close>.  Long polling is the reply the
  call ends with: the state at its return.
\<close>

subsection \<open>The log\<close>

type_synonym event = "(ustr, json) dict"

definition RING_MAX :: nat where
  "RING_MAX = 500"

record event_log =
  el_text :: "ustr option"
  el_ring :: "event list option"

text \<open>\<open>isinstance(x, int)\<close> holds of booleans.\<close>

definition seq_of :: "event \<Rightarrow> int option" where
  "seq_of e = (case jget ''seq'' e of JInt i \<Rightarrow> Some i | JBool b \<Rightarrow> Some (if b then 1 else 0) | _ \<Rightarrow> None)"

definition read_line :: "(ustr \<Rightarrow> json option) \<Rightarrow> ustr \<Rightarrow> event list" where
  "read_line loads line =
     (if py_strip line = [] then []
      else case loads line of
             Some (JObj e) \<Rightarrow> if seq_of e \<noteq> None then [e] else []
           | _ \<Rightarrow> [])"

definition read_ring :: "(ustr \<Rightarrow> json option) \<Rightarrow> ustr option \<Rightarrow> event list" where
  "read_ring loads text =
     (case text of
        None \<Rightarrow> []
      | Some t \<Rightarrow> concat (map (read_line loads) (last_n RING_MAX (splitlines t))))"

definition ring_of :: "(ustr \<Rightarrow> json option) \<Rightarrow> event_log \<Rightarrow> event list" where
  "ring_of loads l = (case el_ring l of Some r \<Rightarrow> r | None \<Rightarrow> read_ring loads (el_text l))"

definition next_of :: "event list \<Rightarrow> int" where
  "next_of ring = (if ring = [] then 1 else the (seq_of (last ring)) + 1)"

definition next_seq :: "(ustr \<Rightarrow> json option) \<Rightarrow> event_log \<Rightarrow> int" where
  "next_seq loads l = next_of (ring_of loads l)"

definition new_event :: "int \<Rightarrow> secs \<Rightarrow> ustr \<Rightarrow> ustr \<Rightarrow> json \<Rightarrow> event" where
  "new_event seq now kind chat payload =
     [(u ''seq'', JInt seq), (u ''ts'', JFloat now), (u ''kind'', JStr kind), (u ''chat_id'', JStr chat),
      (u ''payload'', payload)]"

definition event_line :: "(real \<Rightarrow> ustr) \<Rightarrow> event \<Rightarrow> ustr" where
  "event_line shf e = json_text shf (JObj e) @ [10]"

text \<open>\<open>written\<close>: whether the write of the line succeeded; an \<open>OSError\<close> is ignored.\<close>

definition log_append ::
  "(ustr \<Rightarrow> json option) \<Rightarrow> (real \<Rightarrow> ustr) \<Rightarrow> ustr \<Rightarrow> ustr \<Rightarrow> json \<Rightarrow> secs \<Rightarrow> bool \<Rightarrow> event_log \<Rightarrow> event_log \<times> event" where
  "log_append loads shf chat kind payload now written l =
     (let ring = ring_of loads l;
          e = new_event (next_of ring) now kind chat payload
      in (\<lparr>el_text = (if written then Some ((case el_text l of None \<Rightarrow> [] | Some t \<Rightarrow> t) @ event_line shf e)
                      else el_text l),
           el_ring = Some (last_n RING_MAX (ring @ [e]))\<rparr>, e))"

record since_reply =
  sn_events :: "event list"
  sn_next_seq :: int
  sn_truncated :: bool

definition log_since :: "(ustr \<Rightarrow> json option) \<Rightarrow> int \<Rightarrow> nat \<Rightarrow> event_log \<Rightarrow> since_reply" where
  "log_since loads since limit l =
     (let ring = ring_of loads l
      in \<lparr>sn_events = take limit (filter (\<lambda>e. the (seq_of e) > since) ring),
          sn_next_seq = next_of ring,
          sn_truncated = (ring \<noteq> [] \<and> since < the (seq_of (hd ring)) - 1)\<rparr>)"

definition log_restart :: "event_log \<Rightarrow> event_log" where
  "log_restart l = l\<lparr>el_ring := None\<rparr>"

subsection \<open>Lines of the written text\<close>

fun no_breaks :: "(real \<Rightarrow> ustr) \<Rightarrow> json \<Rightarrow> bool" where
  "no_breaks shf (JStr s) = list_all (\<lambda>c. c \<noteq> 133 \<and> c \<noteq> 8232 \<and> c \<noteq> 8233) s"
| "no_breaks shf (JFloat r) = list_all (\<lambda>c. \<not> is_line_break c) (shf r)"
| "no_breaks shf (JList vs) = list_all (no_breaks shf) vs"
| "no_breaks shf (JObj kvs) =
     list_all (\<lambda>(k, v). list_all (\<lambda>c. c \<noteq> 133 \<and> c \<noteq> 8232 \<and> c \<noteq> 8233) k \<and> no_breaks shf v) kvs"
| "no_breaks shf v = True"

lemma unbroken_syntax [simp]:
  "unbroken (u ''['')" "unbroken (u '']'')" "unbroken (u ''{'')" "unbroken (u ''}'')" "unbroken (u '', '')"
  "unbroken (u '': '')" "unbroken (u ''-'')" "unbroken (u ''null'')" "unbroken (u ''true'')" "unbroken (u ''false'')"
  by (simp_all add: u_def is_line_break_def)

lemma unbroken_esc_char: "c \<noteq> 133 \<Longrightarrow> c \<noteq> 8232 \<Longrightarrow> c \<noteq> 8233 \<Longrightarrow> unbroken (esc_char c)"
  by (auto simp: esc_char_def is_line_break_def hex_digit_def)

lemma unbroken_esc_text: "list_all (\<lambda>c. c \<noteq> 133 \<and> c \<noteq> 8232 \<and> c \<noteq> 8233) s \<Longrightarrow> unbroken (esc_text s)"
  by (induction s) (simp_all add: esc_text_def unbroken_esc_char)

lemma unbroken_json_str: "list_all (\<lambda>c. c \<noteq> 133 \<and> c \<noteq> 8232 \<and> c \<noteq> 8233) s \<Longrightarrow> unbroken (json_str s)"
  by (simp add: json_str_def unbroken_esc_text) (simp add: is_line_break_def)

lemma unbroken_str_of_int: "unbroken (str_of_int i)"
proof -
  have "unbroken (digits_of n)" for n
    by (auto simp: list_all_iff is_line_break_def dest!: digits_of_digits)
  then show ?thesis by (auto simp: str_of_int_def)
qed

lemma unbroken_sep_join: "unbroken sep \<Longrightarrow> list_all unbroken xs \<Longrightarrow> unbroken (sep_join sep xs)"
  by (induction sep xs rule: sep_join.induct) auto

lemma unbroken_json_text: "no_breaks shf v \<Longrightarrow> unbroken (json_text shf v)"
proof (induction shf v rule: json_text.induct)
  case (6 shf vs)
  then have "list_all unbroken (map (json_text shf) vs)" by (auto simp: list_all_iff)
  then show ?case by (simp add: unbroken_sep_join)
next
  case (7 shf kvs)
  have "unbroken (json_str k @ u '': '' @ json_text shf v)" if "(k, v) \<in> set kvs" for k v
    using 7 that by (fastforce simp: list_all_iff [of _ kvs] intro: unbroken_json_str)
  then have "list_all unbroken (map (\<lambda>(k, v). json_str k @ u '': '' @ json_text shf v) kvs)"
    by (auto simp: list_all_iff)
  then show ?case by (simp add: unbroken_sep_join)
qed (auto simp: unbroken_str_of_int unbroken_json_str)

lemma splitlines_cut: "unbroken x \<Longrightarrow> splitlines (x @ 8232 # y) = x # splitlines y"
  using splitlines_acc_line [of x 8232 "[]" y] by (simp add: splitlines_def is_line_break_def)

subsection \<open>Runs with restarts\<close>

datatype log_op = AppendEvent ustr json secs | Restart

fun log_step ::
  "(ustr \<Rightarrow> json option) \<Rightarrow> (real \<Rightarrow> ustr) \<Rightarrow> ustr \<Rightarrow> log_op \<Rightarrow> event_log \<Rightarrow> event_log \<times> event list" where
  "log_step loads shf chat (AppendEvent kind payload now) l =
     (let (l', e) = log_append loads shf chat kind payload now True l in (l', [e]))"
| "log_step loads shf chat Restart l = (log_restart l, [])"

text \<open>The state after the operations and the events they appended, in order.\<close>

fun log_run ::
  "(ustr \<Rightarrow> json option) \<Rightarrow> (real \<Rightarrow> ustr) \<Rightarrow> ustr \<Rightarrow> log_op list \<Rightarrow> event_log \<Rightarrow> event_log \<times> event list" where
  "log_run loads shf chat [] l = (l, [])"
| "log_run loads shf chat (op # ops) l =
     (let (l1, es) = log_step loads shf chat op l; (l2, fs) = log_run loads shf chat ops l1
      in (l2, es @ fs))"

definition empty_log :: event_log where
  "empty_log = \<lparr>el_text = None, el_ring = None\<rparr>"

text \<open>An event whose line reads back: no line boundary in it, and decoding inverts encoding.\<close>

definition readable :: "(ustr \<Rightarrow> json option) \<Rightarrow> (real \<Rightarrow> ustr) \<Rightarrow> event \<Rightarrow> bool" where
  "readable loads shf e \<longleftrightarrow> no_breaks shf (JObj e) \<and> loads (json_text shf (JObj e)) = Some (JObj e)"

definition numbered :: "event list \<Rightarrow> bool" where
  "numbered es \<longleftrightarrow> map seq_of es = map (\<lambda>i. Some (int i)) [1..<Suc (length es)]"

definition log_holds :: "(ustr \<Rightarrow> json option) \<Rightarrow> (real \<Rightarrow> ustr) \<Rightarrow> event list \<Rightarrow> event_log \<Rightarrow> bool" where
  "log_holds loads shf es l \<longleftrightarrow>
     (case el_text l of None \<Rightarrow> [] | Some t \<Rightarrow> t) = concat (map (event_line shf) es) \<and>
     ring_of loads l = last_n RING_MAX es \<and> numbered es"

lemma seq_of_new [simp]: "seq_of (new_event n now kind chat payload) = Some n"
  by (simp add: seq_of_def new_event_def jget_def)

lemma numbered_append: "numbered es \<Longrightarrow> seq_of e = Some (int (length es) + 1) \<Longrightarrow> numbered (es @ [e])"
  by (simp add: numbered_def)

lemma numbered_nth: "numbered es \<Longrightarrow> i < length es \<Longrightarrow> seq_of (es ! i) = Some (int i + 1)"
  unfolding numbered_def by (drule arg_cong [where f = "\<lambda>xs. xs ! i"]) (simp del: upt_Suc add: nth_map)

lemma last_last_n: "0 < n \<Longrightarrow> xs \<noteq> [] \<Longrightarrow> last (last_n n xs) = last xs"
  by (simp add: last_n_def last_drop)

lemma next_of_numbered: "numbered es \<Longrightarrow> next_of (last_n RING_MAX es) = int (length es) + 1"
  by (cases es rule: rev_cases)
    (use numbered_nth [of es "length es - 1"] in \<open>auto simp: next_of_def last_n_def RING_MAX_def last_drop last_conv_nth\<close>)

lemma log_append_holds:
  assumes "log_holds loads shf es l" "log_append loads shf chat kind payload now True l = (l', e)"
  shows "log_holds loads shf (es @ [e]) l'"
proof -
  have r: "ring_of loads l = last_n RING_MAX es" and n: "numbered es"
    using assms(1) by (simp_all add: log_holds_def)
  have e: "e = new_event (int (length es) + 1) now kind chat payload"
    and l': "el_ring l' = Some (last_n RING_MAX (last_n RING_MAX es @ [e]))"
      "el_text l' = Some ((case el_text l of None \<Rightarrow> [] | Some t \<Rightarrow> t) @ event_line shf e)"
    using assms(2) r next_of_numbered [OF n] by (auto simp: log_append_def Let_def)
  have "numbered (es @ [e])" using e by (intro numbered_append [OF n]) simp
  with l' assms(1) show ?thesis
    by (simp add: log_holds_def ring_of_def last_n_append_last_n)
qed

lemma read_line_event: "readable loads shf e \<Longrightarrow> seq_of e \<noteq> None \<Longrightarrow> read_line loads (json_text shf (JObj e)) = [e]"
proof -
  assume r: "readable loads shf e" "seq_of e \<noteq> None"
  obtain x where x: "json_text shf (JObj e) = 123 # x" by (simp add: u_def)
  have "lstrip_by py_isspace (123 # x) = 123 # x" by (rule lstrip_by_id) (simp add: py_isspace_def)
  then have "py_strip (123 # x) = rstrip_by py_isspace (123 # x)" by (simp add: strip_by_def)
  also have "\<dots> \<noteq> []" by (auto simp: rstrip_by_def dropWhile_eq_Nil_conv py_isspace_def)
  finally have "py_strip (json_text shf (JObj e)) \<noteq> []" unfolding x .
  with r show ?thesis by (simp add: read_line_def readable_def)
qed

lemma last_n_map: "last_n n (map f xs) = map f (last_n n xs)"
  by (simp add: last_n_def drop_map)

lemma read_lines_back:
  "\<forall>e \<in> set es. readable loads shf e \<and> seq_of e \<noteq> None \<Longrightarrow>
   concat (map (read_line loads) (map (\<lambda>e. json_text shf (JObj e)) es)) = es"
  by (induction es) (simp_all add: read_line_event del: json_text.simps)

lemma event_line_map: "map (event_line shf) es = map (\<lambda>x. x @ [10]) (map (\<lambda>e. json_text shf (JObj e)) es)"
  by (simp add: event_line_def del: json_text.simps)

lemma read_ring_lines:
  assumes "\<forall>e \<in> set es. readable loads shf e \<and> seq_of e \<noteq> None"
  shows "read_ring loads (Some (concat (map (event_line shf) es))) = last_n RING_MAX es"
proof -
  let ?f = "\<lambda>e. json_text shf (JObj e)"
  have "\<forall>x \<in> set (map ?f es). unbroken x"
    using assms unbroken_json_text by (simp add: readable_def del: json_text.simps no_breaks.simps)
  then have "list_all unbroken (map ?f es)" by (simp only: list_all_iff [of unbroken])
  from splitlines_lines [OF this, of "[]"]
  have "splitlines (concat (map (event_line shf) es)) = map ?f es"
    unfolding event_line_map by simp
  then have "read_ring loads (Some (concat (map (event_line shf) es)))
      = concat (map (read_line loads) (map ?f (last_n RING_MAX es)))"
    by (simp add: read_ring_def last_n_map del: json_text.simps)
  also have "\<dots> = last_n RING_MAX es"
    using assms set_mono_suffix [OF last_n_suffix [of RING_MAX es]] by (intro read_lines_back) blast
  finally show ?thesis .
qed

lemma log_restart_holds:
  assumes "log_holds loads shf es l" "\<forall>e \<in> set es. readable loads shf e"
  shows "log_holds loads shf es (log_restart l)"
proof -
  have "\<forall>e \<in> set es. readable loads shf e \<and> seq_of e \<noteq> None"
    using assms by (metis in_set_conv_nth log_holds_def numbered_nth option.distinct(1))
  from read_ring_lines [OF this] assms(1) show ?thesis
    by (cases "el_text l") (auto simp: log_holds_def ring_of_def log_restart_def read_ring_def last_n_def
        event_line_def simp del: json_text.simps)
qed

lemma log_run_holds:
  "log_run loads shf chat ops l = (l', fs) \<Longrightarrow> log_holds loads shf es l \<Longrightarrow>
   \<forall>e \<in> set (es @ fs). readable loads shf e \<Longrightarrow> log_holds loads shf (es @ fs) l'"
proof (induction ops arbitrary: l es fs)
  case (Cons op ops)
  show ?case
  proof (cases op)
    case (AppendEvent kind payload now)
    obtain l1 e where a: "log_append loads shf chat kind payload now True l = (l1, e)" by force
    with Cons.prems(1) AppendEvent obtain gs where gs: "log_run loads shf chat ops l1 = (l', gs)" "fs = e # gs"
      by (auto split: prod.splits)
    from Cons.IH [OF gs(1) log_append_holds [OF Cons.prems(2) a]] Cons.prems(3) gs(2) show ?thesis by simp
  next
    case Restart
    with Cons.prems(1) have "log_run loads shf chat ops (log_restart l) = (l', fs)" by (auto split: prod.splits)
    from Cons.IH [OF this log_restart_holds] Cons.prems show ?thesis by simp
  qed
qed simp

lemma empty_log_holds: "log_holds loads shf [] empty_log"
  by (simp add: log_holds_def empty_log_def ring_of_def read_ring_def numbered_def last_n_def)

lemma filter_last_n:
  assumes "\<And>x. x \<in> set (take (length xs - n) xs) \<Longrightarrow> \<not> P x"
  shows "filter P (last_n n xs) = filter P xs"
proof -
  have "filter P xs = filter P (take (length xs - n) xs @ last_n n xs)" by (simp add: last_n_def)
  also have "\<dots> = filter P (last_n n xs)" unfolding filter_append using assms by simp
  finally show ?thesis by simp
qed

lemma since_complete:
  assumes h: "log_holds loads shf es l" and lim: "RING_MAX \<le> limit" and n: "0 \<le> n"
  shows "sn_truncated (log_since loads n limit l) \<longleftrightarrow> (\<exists>i < length es - RING_MAX. n < the (seq_of (es ! i)))"
    and "\<not> sn_truncated (log_since loads n limit l) \<Longrightarrow>
      sn_events (log_since loads n limit l) = filter (\<lambda>e. n < the (seq_of e)) es"
    and "sn_next_seq (log_since loads n limit l) = int (length es) + 1"
proof -
  have r: "ring_of loads l = last_n RING_MAX es" and num: "numbered es" using h by (simp_all add: log_holds_def)
  let ?k = "length es - RING_MAX"
  have lt: "?k < length es" if "es \<noteq> []" using that by (cases es) (simp_all add: RING_MAX_def)
  have ne: "last_n RING_MAX es \<noteq> [] \<longleftrightarrow> es \<noteq> []" using lt by (cases "es = []") (simp_all add: last_n_def)
  have hd: "seq_of (hd (last_n RING_MAX es)) = Some (int ?k + 1)" if "es \<noteq> []"
    using lt [OF that] numbered_nth [OF num, of ?k] by (simp add: last_n_def hd_drop_conv_nth)
  have old: "the (seq_of (es ! i)) = int i + 1" if "i < ?k" for i
    using numbered_nth [OF num, of i] that by simp
  have tr: "sn_truncated (log_since loads n limit l) \<longleftrightarrow> es \<noteq> [] \<and> n < int ?k"
    using r ne hd by (auto simp: log_since_def Let_def)
  show t: "sn_truncated (log_since loads n limit l) \<longleftrightarrow> (\<exists>i < ?k. n < the (seq_of (es ! i)))"
  proof
    assume "sn_truncated (log_since loads n limit l)"
    with tr n have "?k - 1 < ?k" "n < int (?k - 1) + 1" by auto
    with old [of "?k - 1"] show "\<exists>i < ?k. n < the (seq_of (es ! i))" by (intro exI [of _ "?k - 1"]) simp
  next
    assume "\<exists>i < ?k. n < the (seq_of (es ! i))"
    then obtain i where "i < ?k" "n < int i + 1" using old by auto
    then show "sn_truncated (log_since loads n limit l)" unfolding tr by auto
  qed
  have "length (filter (\<lambda>e. n < the (seq_of e)) (last_n RING_MAX es)) \<le> RING_MAX"
    by (rule order_trans [OF length_filter_le]) simp
  with lim have all: "take limit (filter (\<lambda>e. n < the (seq_of e)) (last_n RING_MAX es))
      = filter (\<lambda>e. n < the (seq_of e)) (last_n RING_MAX es)" by simp
  show "sn_events (log_since loads n limit l) = filter (\<lambda>e. n < the (seq_of e)) es"
    if "\<not> sn_truncated (log_since loads n limit l)"
  proof -
    have "\<not> n < the (seq_of x)" if "x \<in> set (take ?k es)" for x
      using that t \<open>\<not> sn_truncated _\<close> by (auto simp: in_set_conv_nth)
    then have "filter (\<lambda>e. n < the (seq_of e)) (last_n RING_MAX es) = filter (\<lambda>e. n < the (seq_of e)) es"
      by (rule filter_last_n)
    with all show ?thesis by (simp add: log_since_def Let_def r)
  qed
  show "sn_next_seq (log_since loads n limit l) = int (length es) + 1"
    by (simp add: log_since_def Let_def r next_of_numbered [OF num])
qed

subsection \<open>Properties\<close>


definition hi_event :: event where
  "hi_event = new_event 1 5 (u ''system'') (u ''c'') (JStr (u ''hi''))"

definition hi_loads :: "ustr \<Rightarrow> json option" where
  "hi_loads s = (if s = json_text (\<lambda>r. u ''5.0'') (JObj hi_event) then Some (JObj hi_event) else None)"

lemma hi_run: "\<exists>l. log_run hi_loads (\<lambda>r. u ''5.0'') (u ''c'') [AppendEvent (u ''system'') (JStr (u ''hi'')) 5, Restart] empty_log
    = (l, [hi_event])"
  by (simp add: log_append_def empty_log_def ring_of_def read_ring_def next_of_def hi_event_def Let_def)

lemma hi_readable: "readable hi_loads (\<lambda>r. u ''5.0'') hi_event"
  by (simp add: readable_def hi_loads_def) (simp add: hi_event_def new_event_def u_def is_line_break_def)


subsection \<open>A line separator in the text of an event\<close>

text \<open>Scanning JSON text: whether it ends inside a string.\<close>

fun in_string :: "bool \<Rightarrow> ustr \<Rightarrow> bool" where
  "in_string b [] = b"
| "in_string False (c # s) = in_string (c = 34) s"
| "in_string True [c] = (c \<noteq> 34)"
| "in_string True (c # d # s) = (if c = 92 then in_string True s else if c = 34 then in_string False (d # s) else in_string True (d # s))"

lemma in_string_plain: "34 \<notin> set x \<Longrightarrow> in_string False (x @ y) = in_string False y"
  by (induction x) auto

lemma in_string_close [simp]: "in_string True (34 # y) = in_string False y"
  by (cases y) auto

lemma in_string_plain_char: "c \<noteq> 34 \<Longrightarrow> c \<noteq> 92 \<Longrightarrow> in_string True (c # y) = in_string True y"
  by (cases y) auto

lemma in_string_esc_char: "in_string True (esc_char c @ y) = in_string True y"
  by (auto simp: esc_char_def in_string_plain_char hex_digit_def)

lemma in_string_esc_text: "in_string True (esc_text s @ y) = in_string True y"
  by (induction s) (simp_all add: esc_text_def in_string_esc_char)

lemma in_string_json_str: "in_string False (json_str s @ y) = in_string False y"
  by (simp add: json_str_def in_string_esc_text)

lemma in_string_u [simp]:
  "34 \<notin> set (u t) \<Longrightarrow> in_string False (u t @ y) = in_string False y"
  by (rule in_string_plain)

text \<open>An event whose payload is \<open>{"text": p + U+2028 + q}\<close>: its line falls into two pieces.\<close>

definition text_payload :: "ustr \<Rightarrow> json" where
  "text_payload s = JObj [(u ''text'', JStr s)]"

definition head_piece :: "(real \<Rightarrow> ustr) \<Rightarrow> int \<Rightarrow> secs \<Rightarrow> ustr \<Rightarrow> ustr \<Rightarrow> ustr \<Rightarrow> ustr" where
  "head_piece shf n now kind chat p =
     u ''{'' @ json_str (u ''seq'') @ u '': '' @ str_of_int n @ u '', '' @ json_str (u ''ts'') @ u '': '' @ shf now @ u '', '' @
     json_str (u ''kind'') @ u '': '' @ json_str kind @ u '', '' @ json_str (u ''chat_id'') @ u '': '' @ json_str chat @ u '', '' @
     json_str (u ''payload'') @ u '': '' @ u ''{'' @ json_str (u ''text'') @ u '': '' @ 34 # esc_text p"

definition tail_piece :: "ustr \<Rightarrow> ustr" where
  "tail_piece q = esc_text q @ 34 # u ''}'' @ u ''}''"

lemma event_pieces:
  "json_text shf (JObj (new_event n now kind chat (text_payload (p @ 8232 # q))))
     = head_piece shf n now kind chat p @ 8232 # tail_piece q"
  by (simp add: new_event_def text_payload_def head_piece_def tail_piece_def json_str_def esc_text_def esc_char_def)

lemma digits_no_quote: "34 \<notin> set (str_of_int i)"
  by (auto simp: str_of_int_def u_def dest!: digits_of_digits)

lemma no_quote_syntax [simp]: "34 \<notin> set (u ''{'')" "34 \<notin> set (u ''}'')" "34 \<notin> set (u '', '')" "34 \<notin> set (u '': '')"
  by (simp_all add: u_def)

lemma head_piece_open:
  assumes "34 \<notin> set (shf now)"
  shows "in_string False (head_piece shf n now kind chat p)"
proof -
  have "in_string True (esc_text p @ [])" by (simp only: in_string_esc_text) simp
  then show ?thesis
    unfolding head_piece_def using assms
    by (simp add: in_string_json_str in_string_plain [OF digits_no_quote] in_string_plain [of "shf now"])
qed

lemma esc_text_no_quote: "34 \<notin> set q \<Longrightarrow> 34 \<notin> set (esc_text q)"
  by (induction q) (auto simp: esc_text_def esc_char_def hex_digit_def)

lemma tail_piece_open: "34 \<notin> set q \<Longrightarrow> in_string False (tail_piece q)"
  unfolding tail_piece_def in_string_plain [OF esc_text_no_quote] by (simp add: u_def)

abbreviation clean :: "ustr \<Rightarrow> bool" where
  "clean s \<equiv> list_all (\<lambda>c. c \<noteq> 133 \<and> c \<noteq> 8232 \<and> c \<noteq> 8233) s"

lemma clean_words [simp]:
  "clean (u ''seq'')" "clean (u ''ts'')" "clean (u ''kind'')" "clean (u ''chat_id'')" "clean (u ''payload'')" "clean (u ''text'')"
  by (simp_all add: u_def)

lemma head_piece_unbroken:
  "clean kind \<Longrightarrow> clean chat \<Longrightarrow> clean p \<Longrightarrow> unbroken (shf now) \<Longrightarrow> unbroken (head_piece shf n now kind chat p)"
  by (simp add: head_piece_def unbroken_json_str unbroken_str_of_int unbroken_esc_text) (simp add: is_line_break_def)

lemma tail_piece_unbroken: "clean q \<Longrightarrow> unbroken (tail_piece q)"
  by (simp add: tail_piece_def unbroken_esc_text) (simp add: is_line_break_def)

lemma split_event_is_lost:
  assumes h: "log_holds loads shf es l" and rd: "\<forall>e \<in> set es. readable loads shf e"
    and room: "length es + 2 \<le> RING_MAX" and rej: "\<And>s. in_string False s \<Longrightarrow> loads s = None"
    and shf: "34 \<notin> set (shf now)" "unbroken (shf now)"
    and cl: "clean kind" "clean chat" "clean p" "clean q" "34 \<notin> set q"
    and a: "log_append loads shf chat kind (text_payload (p @ 8232 # q)) now True l = (l', e)"
  shows "ring_of loads (log_restart l') = es"
proof -
  let ?f = "\<lambda>e. json_text shf (JObj e)"
  have r: "ring_of loads l = es" and n: "numbered es"
    using h room by (simp_all add: log_holds_def)
  have e: "e = new_event (next_of es) now kind chat (text_payload (p @ 8232 # q))"
    and l': "el_text l' = Some ((case el_text l of None \<Rightarrow> [] | Some t \<Rightarrow> t) @ event_line shf e)"
    using a r by (auto simp: log_append_def Let_def)
  let ?h = "head_piece shf (next_of es) now kind chat p"
  have tx: "el_text l' = Some (concat (map (\<lambda>x. x @ [10]) (map ?f es)) @ ?h @ 8232 # tail_piece q @ [10])"
    using l' h event_pieces [of shf "next_of es" now kind chat p q]
    by (simp add: log_holds_def event_line_map e event_line_def del: json_text.simps map_map)
  have "\<forall>x \<in> set (map ?f es). unbroken x"
    using rd unbroken_json_text by (simp add: readable_def del: json_text.simps no_breaks.simps)
  then have "list_all unbroken (map ?f es)" by (simp only: list_all_iff [of unbroken])
  note lines = splitlines_lines [OF this]
  have uh: "unbroken ?h" using head_piece_unbroken [of kind chat p shf now] cl shf by blast
  have "splitlines (the (el_text l')) = map ?f es @ [?h, tail_piece q]"
    unfolding tx option.sel
    by (simp only: lines splitlines_cut [OF uh] splitlines_line [OF tail_piece_unbroken [OF cl(4)]] splitlines_Nil)
  moreover have "last_n RING_MAX (map ?f es @ [?h, tail_piece q]) = map ?f es @ [?h, tail_piece q]"
    using room by (simp del: json_text.simps)
  moreover have "read_line loads ?h = []" "read_line loads (tail_piece q) = []"
    using rej [OF head_piece_open [of shf now, OF shf(1)]] rej [OF tail_piece_open [OF cl(5)]] by (simp_all add: read_line_def)
  moreover have "\<forall>e \<in> set es. readable loads shf e \<and> seq_of e \<noteq> None"
    using rd n by (metis in_set_conv_nth numbered_nth option.distinct(1))
  then have "concat (map (read_line loads) (map ?f es)) = es" by (rule read_lines_back)
  ultimately show ?thesis
    using tx by (simp add: ring_of_def log_restart_def read_ring_def del: json_text.simps)
qed

text \<open>
  A line separator in an event loses it: \<open>json.dumps\<close> without \<open>ensure_ascii\<close> leaves U+2028 in the
  line and \<open>splitlines\<close> cuts there, so an event whose text contains one reads back as two pieces that are
  not JSON.  After a restart the event is gone and the next event is given the same sequence number, so a
  client that saw the lost event, and asks for what follows it, does not see the next one.
\<close>

theorem line_separator_loses_the_event:
  assumes "log_run loads shf chat ops empty_log = (l, es)" and "\<forall>e \<in> set es. readable loads shf e"
    and "length es + 2 \<le> RING_MAX" and "\<And>s. in_string False s \<Longrightarrow> loads s = None"
    and "34 \<notin> set (shf now)" and "unbroken (shf now)"
    and "clean kind" and "clean chat" and "clean p" and "clean q" and "34 \<notin> set q"
    and "log_append loads shf chat kind (text_payload (p @ 8232 # q)) now True l = (l', e)"
    and "log_append loads shf chat kind' payload' now' True (log_restart l') = (l'', e')"
  shows "ring_of loads (log_restart l') = es \<and> seq_of e' = seq_of e
    \<and> sn_events (log_since loads (the (seq_of e)) RING_MAX l'') = []"
proof -
  have h: "log_holds loads shf es l"
    using log_run_holds [where es = "[]", OF assms(1) empty_log_holds] assms(2) by simp
  have r: "ring_of loads (log_restart l') = es"
    by (rule split_event_is_lost [OF h assms(2-12)])
  have n: "numbered es" and rl: "ring_of loads l = es" using h assms(3) by (simp_all add: log_holds_def)
  have nx: "next_of es = int (length es) + 1" using next_of_numbered [OF n] assms(3) by simp
  have "seq_of e = Some (int (length es) + 1)" "seq_of e' = Some (int (length es) + 1)"
    and rl'': "ring_of loads l'' = last_n RING_MAX (es @ [e'])"
    using assms(12,13) r rl nx by (auto simp: log_append_def ring_of_def Let_def)
  moreover have "\<not> int (length es) + 1 < the (seq_of x)" if "x \<in> set (es @ [e'])" for x
    using that numbered_nth [OF n] calculation(2) by (auto simp: in_set_conv_nth)
  ultimately show ?thesis
    using r assms(3) by (auto simp: log_since_def Let_def filter_empty_conv)
qed

theorem line_separator_loses_the_event_witness:
  "\<exists>l' e. log_append (\<lambda>s. None) (\<lambda>r. u ''5.0'') (u ''c'') (u ''system'') (text_payload (u ''a'' @ 8232 # u ''b'')) 5 True empty_log
     = (l', e) \<and> ring_of (\<lambda>s. None) (log_restart l') = []"
proof -
  obtain l' e where a: "log_append (\<lambda>s. None) (\<lambda>r. u ''5.0'') (u ''c'') (u ''system'')
      (text_payload (u ''a'' @ 8232 # u ''b'')) 5 True empty_log = (l', e)" by force
  obtain l'' e' where b: "log_append (\<lambda>s. None) (\<lambda>r. u ''5.0'') (u ''c'') (u ''system'') JNull 6 True (log_restart l')
      = (l'', e')" by force
  have r: "log_run (\<lambda>s. None) (\<lambda>r. u ''5.0'') (u ''c'') [] empty_log = (empty_log, [])" by simp
  have c: "clean (u ''system'')" "clean (u ''c'')" "clean (u ''a'')" "clean (u ''b'')" "34 \<notin> set (u ''b'')"
    "34 \<notin> set (u ''5.0'')" "unbroken (u ''5.0'')" by (simp_all add: u_def is_line_break_def)
  from line_separator_loses_the_event [OF r _ _ _ c(6,7,1-5) a b] a show ?thesis by (auto simp: RING_MAX_def)
qed

end
