(* ===== verification/AcpTransport.thy ===== *)
theory AcpTransport
  imports Json
begin

section \<open>The ACP transport: one child process, its calls and its life cycle\<close>

text \<open>
  \<open>src/src/diploid_agent/acp_client/state.py\<close>, the life cycle and the call bookkeeping of
  \<open>acp_client/transport.py\<close>, and \<open>close\<close> of \<open>acp_client/client.py\<close>.  The state is the shared
  \<open>AcpClientState\<close>: a child process is a number (the identity of the Python object), its return code is
  looked up in \<open>ac_exit\<close>, a future is a number that is or is not among the finished ones.  Blocking
  operations are split at the points where they give up the lock (\<open>run\<close> and \<open>call\<close> into a beginning and an
  end), so that threads can be interleaved; the clock reading of an operation is an argument.  What leaves
  the process (kills, audit events, counters) is appended to \<open>ac_trace\<close>.
\<close>

datatype acp_effect =
    Killed nat          \<comment> \<open>\<open>_kill_process_group\<close> or \<open>proc.kill\<close>\<close>
  | Asked_to_exit nat   \<comment> \<open>\<open>proc.terminate\<close>\<close>
  | Loop_stop           \<comment> \<open>the event loop was asked to stop\<close>
  | Cancels_sent        \<comment> \<open>\<open>session/cancel\<close> scheduled for every active prompt\<close>
  | Audit string string \<comment> \<open>a lifecycle event and its reason\<close>
  | Counter string
  | Restart_recorded string

record acp_prompt =
  ap_cancelled :: bool
  ap_timed_out :: bool
  ap_cancel_done :: bool

record acp_state =
  ac_next_id :: nat
  ac_active_prompts :: "(ustr, acp_prompt) dict"
  ac_mcp_key :: ustr              \<comment> \<open>\<open>mcp_servers_key(_mcp_servers)\<close>\<close>
  ac_logged_stop_gen :: int
  ac_loop :: "bool option"        \<comment> \<open>the event loop: is it running?\<close>
  ac_proc :: "nat option"
  ac_exit :: "nat \<Rightarrow> int option"  \<comment> \<open>\<open>returncode\<close>\<close>
  ac_reader_done :: bool          \<comment> \<open>the stdout reader task has ended\<close>
  ac_last_stdout_at :: secs
  ac_last_progress_at :: secs
  ac_last_request_at :: secs
  ac_last_control_call_deadline :: secs
  ac_inflight :: "nat option"
  ac_inflight_deadline :: secs
  ac_finished :: "nat list"       \<comment> \<open>futures that are done\<close>
  ac_pending :: "nat list"        \<comment> \<open>ids of requests without a response\<close>
  ac_initialized :: bool
  ac_transport_healthy :: bool
  ac_terminated :: bool
  ac_generation :: nat
  ac_trace :: "acp_effect list"

definition fresh_state :: acp_state where
  "fresh_state = \<lparr>ac_next_id = 0, ac_active_prompts = [], ac_mcp_key = [], ac_logged_stop_gen = -1, ac_loop = None,
     ac_proc = None, ac_exit = (\<lambda>_. None), ac_reader_done = False, ac_last_stdout_at = 0, ac_last_progress_at = 0,
     ac_last_request_at = 0, ac_last_control_call_deadline = 0, ac_inflight = None, ac_inflight_deadline = 0,
     ac_finished = [], ac_pending = [], ac_initialized = False, ac_transport_healthy = False, ac_terminated = False,
     ac_generation = 0, ac_trace = []\<rparr>"

definition emit :: "acp_effect list \<Rightarrow> acp_state \<Rightarrow> acp_state" where
  "emit es s = s\<lparr>ac_trace := ac_trace s @ es\<rparr>"

text \<open>A child that has not exited.\<close>

definition live_proc :: "acp_state \<Rightarrow> nat option" where
  "live_proc s = (case ac_proc s of None \<Rightarrow> None | Some p \<Rightarrow> if ac_exit s p = None then Some p else None)"

definition inflight_open :: "acp_state \<Rightarrow> bool" where
  "inflight_open s \<longleftrightarrow> (case ac_inflight s of None \<Rightarrow> False | Some f \<Rightarrow> f \<notin> set (ac_finished s))"

subsection \<open>Health\<close>

definition healthy :: "secs \<Rightarrow> acp_state \<Rightarrow> bool" where
  "healthy now s =
     (if ac_terminated s then False
      else if \<not> ac_initialized s \<or> live_proc s = None then False
      else if inflight_open s \<and> now \<le> ac_inflight_deadline s then True
      else ac_transport_healthy s)"

definition is_transport_healthy :: "acp_state \<Rightarrow> bool" where
  "is_transport_healthy s =
     (if ac_terminated s then False
      else if \<not> ac_initialized s then False
      else if \<not> ac_transport_healthy s then False
      else if ac_loop s \<noteq> Some True then False
      else live_proc s \<noteq> None)"

datatype refusal = Transport_terminated | Not_running | Reader_stopped

definition check_accepting :: "acp_state \<Rightarrow> refusal option" where
  "check_accepting s =
     (if ac_terminated s then Some Transport_terminated
      else if live_proc s = None then Some Not_running
      else if ac_reader_done s then Some Reader_stopped
      else None)"

subsection \<open>Stopping callers and children\<close>

definition unblock_inflight :: "acp_state \<Rightarrow> acp_state" where
  "unblock_inflight s =
     (let s1 = (case ac_inflight s of None \<Rightarrow> s
                | Some f \<Rightarrow> if f \<in> set (ac_finished s) then s else s\<lparr>ac_finished := f # ac_finished s\<rparr>);
          s2 = s1\<lparr>ac_pending := [],
                  ac_active_prompts := map (\<lambda>(k, p). (k, p\<lparr>ap_cancelled := True, ap_timed_out := True, ap_cancel_done := True\<rparr>))
                     (ac_active_prompts s1)\<rparr>
      in if ac_loop s \<noteq> None then emit [Cancels_sent] s2 else s2)"

definition kill_process_group :: "nat \<Rightarrow> acp_state \<Rightarrow> acp_state" where
  "kill_process_group p s = emit [Killed p] (s\<lparr>ac_terminated := True\<rparr>)"

definition cleanup_stale_transport :: "acp_state \<Rightarrow> acp_state" where
  "cleanup_stale_transport s =
     (let s1 = (case live_proc s of None \<Rightarrow> s | Some p \<Rightarrow> kill_process_group p s);
          s2 = s1\<lparr>ac_proc := None\<rparr>
      in if ac_loop s = Some True then emit [Loop_stop] s2 else s2)"

text \<open>
  The reader task (or, with \<open>reader = False\<close>, the stderr drain) of the current generation ended by itself:
  that counts only while the child lives.
\<close>

definition on_io_task_done :: "bool \<Rightarrow> acp_state \<Rightarrow> acp_state" where
  "on_io_task_done reader s =
     (let s1 = (if reader then s\<lparr>ac_reader_done := True\<rparr> else s)
      in if live_proc s = None then s1
         else unblock_inflight (s1\<lparr>ac_terminated := True, ac_transport_healthy := False\<rparr>))"

subsection \<open>\<open>run\<close>: a blocking call from another thread\<close>

definition run_timeout :: "secs option \<Rightarrow> secs option \<Rightarrow> secs" where
  "run_timeout client_timeout t =
     (case t of Some x \<Rightarrow> x | None \<Rightarrow> (case client_timeout of Some x \<Rightarrow> x | None \<Rightarrow> 900))"

text \<open>\<open>f\<close> is the future of the scheduled coroutine; the caller then waits for it \<open>timeout + 5\<close> seconds.\<close>

definition run_begin :: "nat \<Rightarrow> secs \<Rightarrow> secs \<Rightarrow> acp_state \<Rightarrow> py_exn + acp_state" where
  "run_begin f now timeout s =
     (if ac_loop s = None then Inl RuntimeError
      else Inr (s\<lparr>ac_inflight := Some f, ac_inflight_deadline := now + timeout\<rparr>))"

datatype call_outcome =
    Returned
  | Timed_out
  | Acp_failed bool   \<comment> \<open>an \<open>AcpError\<close>; is it an \<open>AcpTransportError\<close>?\<close>
  | Runtime_failed
  | Io_failed
  | Other_failed

datatype raised = Transport_error | Acp_error | Other_error

definition run_end :: "bool \<Rightarrow> nat \<Rightarrow> call_outcome \<Rightarrow> acp_state \<Rightarrow> acp_state \<times> raised option" where
  "run_end background f out s =
     (let h = (case out of
                 Returned \<Rightarrow> True
               | Timed_out \<Rightarrow> if background then ac_transport_healthy s else False
               | Acp_failed transport \<Rightarrow> if transport then False else ac_transport_healthy s
               | _ \<Rightarrow> False);
          x = (case out of
                 Returned \<Rightarrow> None
               | Acp_failed transport \<Rightarrow> Some (if transport then Transport_error else Acp_error)
               | Other_failed \<Rightarrow> Some Other_error
               | _ \<Rightarrow> Some Transport_error);
          s1 = s\<lparr>ac_transport_healthy := h, ac_inflight := None, ac_inflight_deadline := 0,
                 ac_finished := (if f \<in> set (ac_finished s) then ac_finished s else f # ac_finished s)\<rparr>
      in (if out = Timed_out then emit [Counter ''acp_transport_errors_total''] s1 else s1, x))"

subsection \<open>\<open>call\<close>: one JSON-RPC request\<close>

definition call_begin :: "secs \<Rightarrow> secs \<Rightarrow> acp_state \<Rightarrow> (refusal option + nat) \<times> acp_state" where
  "call_begin now call_timeout s =
     (if ac_loop s = None then (Inl None, s)
      else case check_accepting s of
             Some r \<Rightarrow> (Inl (Some r), s)
           | None \<Rightarrow>
               let i = ac_next_id s + 1
               in (Inr i, s\<lparr>ac_next_id := i, ac_pending := ac_pending s @ [i], ac_last_request_at := now,
                            ac_last_control_call_deadline := now + call_timeout\<rparr>))"

text \<open>\<open>_send\<close> checks once more; after it, the deadline starts again.\<close>

definition call_sent :: "secs \<Rightarrow> secs \<Rightarrow> acp_state \<Rightarrow> refusal option \<times> acp_state" where
  "call_sent now call_timeout s =
     (case check_accepting s of
        Some r \<Rightarrow> (Some r, s)
      | None \<Rightarrow> (None, s\<lparr>ac_last_request_at := now, ac_last_control_call_deadline := now + call_timeout\<rparr>))"

text \<open>The reader resolves a response by its id; the end of a call that got none forgets the request.\<close>

definition reader_response :: "secs \<Rightarrow> nat \<Rightarrow> acp_state \<Rightarrow> acp_state" where
  "reader_response now i s =
     (if i \<in> set (ac_pending s)
      then s\<lparr>ac_last_stdout_at := now, ac_pending := remove1 i (ac_pending s), ac_last_progress_at := now\<rparr>
      else s\<lparr>ac_last_stdout_at := now\<rparr>)"

definition call_end :: "nat \<Rightarrow> bool \<Rightarrow> acp_state \<Rightarrow> acp_state" where
  "call_end i answered s =
     (let s1 = (if answered then s else s\<lparr>ac_pending := remove1 i (ac_pending s)\<rparr>)
      in s1\<lparr>ac_last_control_call_deadline := 0\<rparr>)"

subsection \<open>Starting and closing\<close>

text \<open>
  \<open>_start_transport\<close>: the generation begins, the child \<open>p\<close> is spawned and accepts calls, and the
  \<open>initialize\<close> request is one call.  A child that could not be spawned leaves the new generation without one.
\<close>

definition begin_generation :: "acp_state \<Rightarrow> acp_state" where
  "begin_generation s = s\<lparr>ac_generation := ac_generation s + 1, ac_active_prompts := []\<rparr>"

definition spawn :: "nat \<Rightarrow> acp_state \<Rightarrow> acp_state" where
  "spawn p s = emit [Audit ''transport.spawn'' '''']
     (s\<lparr>ac_proc := Some p, ac_exit := (ac_exit s)(p := None), ac_reader_done := False, ac_terminated := False\<rparr>)"

definition handshake :: "secs \<Rightarrow> bool \<Rightarrow> acp_state \<Rightarrow> acp_state" where
  "handshake now ok s = emit [Audit (if ok then ''transport.initialize.success'' else ''transport.initialize.failure'') '''']
     (s\<lparr>ac_next_id := ac_next_id s + 1, ac_last_request_at := now, ac_last_control_call_deadline := 0\<rparr>)"

definition start_transport :: "(nat \<times> secs) option \<Rightarrow> bool \<Rightarrow> acp_state \<Rightarrow> acp_state" where
  "start_transport child ok s =
     (case child of
        None \<Rightarrow> begin_generation s
      | Some (p, now) \<Rightarrow> handshake now ok (spawn p (begin_generation s)))"

text \<open>The coroutine \<open>AcpTransport.close\<close>; \<open>hung\<close>: the child did not exit within five seconds of \<open>terminate\<close>.\<close>

definition transport_close :: "bool \<Rightarrow> acp_state \<Rightarrow> acp_state" where
  "transport_close hung s =
     (let s1 = s\<lparr>ac_terminated := True\<rparr>;
          s2 = (case live_proc s1 of None \<Rightarrow> s1
                | Some p \<Rightarrow> let a = emit [Asked_to_exit p] s1 in if hung then kill_process_group p a else a)
      in unblock_inflight (s2\<lparr>ac_reader_done := True\<rparr>))"

text \<open>
  How the coroutine went when \<open>close\<close> waited for it on the running loop: it ended (after a hung child or
  not), or it failed or took more than ten seconds, and then the child is killed.
\<close>

datatype close_run = Closed bool | Close_failed

definition client_close :: "close_run \<Rightarrow> acp_state \<Rightarrow> acp_state" where
  "client_close r s =
     (if \<not> ac_initialized s \<and> ac_loop s = None \<and> ac_proc s = None then s
      else
        let s1 = (if ac_generation s > 0 \<and> int (ac_generation s) \<noteq> ac_logged_stop_gen s
                  then emit [Audit ''transport.stop'' ''''] (s\<lparr>ac_logged_stop_gen := int (ac_generation s)\<rparr>) else s);
            s2 = s1\<lparr>ac_initialized := False, ac_transport_healthy := False\<rparr>;
            s3 = (if ac_loop s = Some True
                  then (case r of
                          Closed hung \<Rightarrow> emit [Loop_stop] (transport_close hung s2)
                        | Close_failed \<Rightarrow> emit [Loop_stop]
                            (case live_proc s2 of None \<Rightarrow> s2 | Some p \<Rightarrow> emit [Killed p] s2))
                  else (case live_proc s2 of None \<Rightarrow> s2 | Some p \<Rightarrow> emit [Killed p] s2))
        in s3\<lparr>ac_loop := None, ac_proc := None, ac_reader_done := False\<rparr>)"

text \<open>
  \<open>ensure_started\<close>.  An attempt to start is one \<open>run\<close> of the coroutine (its future, the time, the startup
  timeout, how it ended, the child and the time of its handshake when one was spawned), and how the \<open>close\<close>
  after a failure went; or the control socket was in use.  Only transport errors are retried, once.
\<close>

datatype start_attempt =
    Attempt nat secs secs call_outcome "(nat \<times> secs) option" close_run
  | Socket_in_use

definition new_loop :: "acp_state \<Rightarrow> acp_state" where
  "new_loop s = s\<lparr>ac_loop := Some True\<rparr>"

fun start_attempts :: "start_attempt list \<Rightarrow> acp_state \<Rightarrow> bool \<times> acp_state" where
  "start_attempts [] s = (False, s)"
| "start_attempts (Attempt f now timeout out child r # as) s =
     (case run_begin f now timeout s of
        Inl e \<Rightarrow> (False, s)
      | Inr s0 \<Rightarrow>
          (case run_end False f out (start_transport child (out = Returned) s0) of
             (s1, None) \<Rightarrow> (True, s1)
           | (s1, Some Transport_error) \<Rightarrow>
               (let s2 = client_close r s1
                in if as = [] then (False, s2) else start_attempts as (new_loop s2))
           | (s1, Some x) \<Rightarrow> (False, s1)))"
| "start_attempts (Socket_in_use # as) s = (False, s)"

definition start_fresh :: "ustr \<Rightarrow> start_attempt \<Rightarrow> start_attempt \<Rightarrow> acp_state \<Rightarrow> bool \<times> acp_state" where
  "start_fresh key a1 a2 s =
     (let s1 = (if ac_initialized s then cleanup_stale_transport s else s);
          s2 = new_loop (s1\<lparr>ac_initialized := False, ac_transport_healthy := False\<rparr>)
      in case start_attempts [a1, a2] s2 of
           (False, s3) \<Rightarrow> (False, s3)
         | (True, s3) \<Rightarrow> (True, emit [Audit ''transport.start'' '''']
             (s3\<lparr>ac_initialized := True, ac_mcp_key := key, ac_transport_healthy := True\<rparr>)))"

text \<open>\<open>allowed\<close>: the restart history permits a restart for a change of the MCP list.\<close>

definition ensure_started ::
  "bool \<Rightarrow> ustr \<Rightarrow> close_run \<Rightarrow> start_attempt \<Rightarrow> start_attempt \<Rightarrow> acp_state \<Rightarrow> bool \<times> acp_state" where
  "ensure_started allowed key r a1 a2 s =
     (if is_transport_healthy s
      then if ac_mcp_key s = key then (True, s)
           else
             let s1 = emit [Audit ''transport.restart'' ''mcp_change''] s
             in if \<not> allowed then (False, s1)
                else start_fresh key a1 a2 (client_close r (emit [Restart_recorded ''mcp_change''] s1))
      else start_fresh key a1 a2 s)"

subsection \<open>What the operations keep\<close>

lemma emit_sel [frame_simps, simp]:
  "ac_generation (emit es s) = ac_generation s" "ac_proc (emit es s) = ac_proc s" "ac_exit (emit es s) = ac_exit s"
  "ac_loop (emit es s) = ac_loop s" "ac_initialized (emit es s) = ac_initialized s"
  "ac_transport_healthy (emit es s) = ac_transport_healthy s" "ac_terminated (emit es s) = ac_terminated s"
  "ac_inflight (emit es s) = ac_inflight s" "ac_finished (emit es s) = ac_finished s" "ac_pending (emit es s) = ac_pending s"
  "ac_inflight_deadline (emit es s) = ac_inflight_deadline s" "ac_active_prompts (emit es s) = ac_active_prompts s"
  "ac_last_request_at (emit es s) = ac_last_request_at s" "ac_reader_done (emit es s) = ac_reader_done s"
  "ac_last_control_call_deadline (emit es s) = ac_last_control_call_deadline s"
  "ac_mcp_key (emit es s) = ac_mcp_key s" "ac_trace (emit es s) = ac_trace s @ es" "ac_next_id (emit es s) = ac_next_id s"
  by (simp_all add: emit_def)

lemma unblock_sel [frame_simps, simp]:
  "ac_generation (unblock_inflight s) = ac_generation s" "ac_proc (unblock_inflight s) = ac_proc s"
  "ac_exit (unblock_inflight s) = ac_exit s" "ac_loop (unblock_inflight s) = ac_loop s"
  "ac_initialized (unblock_inflight s) = ac_initialized s" "ac_terminated (unblock_inflight s) = ac_terminated s"
  "ac_transport_healthy (unblock_inflight s) = ac_transport_healthy s" "ac_inflight (unblock_inflight s) = ac_inflight s"
  "ac_pending (unblock_inflight s) = []" "ac_reader_done (unblock_inflight s) = ac_reader_done s"
  "ac_trace (unblock_inflight s) = ac_trace s @ (if ac_loop s \<noteq> None then [Cancels_sent] else [])"
  by (simp_all add: unblock_inflight_def Let_def split: option.split)

lemma kill_sel [frame_simps, simp]:
  "ac_generation (kill_process_group p s) = ac_generation s" "ac_proc (kill_process_group p s) = ac_proc s"
  "ac_exit (kill_process_group p s) = ac_exit s" "ac_terminated (kill_process_group p s) = True"
  "ac_loop (kill_process_group p s) = ac_loop s" "ac_initialized (kill_process_group p s) = ac_initialized s"
  "ac_finished (kill_process_group p s) = ac_finished s" "ac_pending (kill_process_group p s) = ac_pending s"
  "ac_active_prompts (kill_process_group p s) = ac_active_prompts s"
  "ac_trace (kill_process_group p s) = ac_trace s @ [Killed p]" "ac_transport_healthy (kill_process_group p s) = ac_transport_healthy s"
  "ac_inflight (kill_process_group p s) = ac_inflight s" "ac_mcp_key (kill_process_group p s) = ac_mcp_key s"
  by (simp_all add: kill_process_group_def)

text \<open>After \<open>unblock_inflight\<close> nobody waits: no call in flight, no request pending, every prompt cancelled.\<close>

definition released :: "acp_state \<Rightarrow> bool" where
  "released s \<longleftrightarrow> \<not> inflight_open s \<and> ac_pending s = []
     \<and> (\<forall>p \<in> set (dvals (ac_active_prompts s)). ap_cancelled p \<and> ap_timed_out p \<and> ap_cancel_done p)"

lemma unblock_released: "released (unblock_inflight s)"
  by (auto simp: released_def inflight_open_def unblock_inflight_def Let_def split: option.splits)

subsection \<open>A started transport is usable\<close>

text \<open>An attempt whose coroutine returned has spawned a child.\<close>

fun attempt_ok :: "start_attempt \<Rightarrow> bool" where
  "attempt_ok (Attempt f now timeout out child r) \<longleftrightarrow> (out = Returned \<longrightarrow> child \<noteq> None)"
| "attempt_ok Socket_in_use \<longleftrightarrow> True"

lemma run_end_sel [frame_simps]:
  "ac_generation (fst (run_end b f out s)) = ac_generation s" "ac_proc (fst (run_end b f out s)) = ac_proc s"
  "ac_exit (fst (run_end b f out s)) = ac_exit s" "ac_loop (fst (run_end b f out s)) = ac_loop s"
  "ac_initialized (fst (run_end b f out s)) = ac_initialized s" "ac_terminated (fst (run_end b f out s)) = ac_terminated s"
  "ac_inflight (fst (run_end b f out s)) = None"
  "set (ac_finished (fst (run_end b f out s))) = insert f (set (ac_finished s))"
  "ac_pending (fst (run_end b f out s)) = ac_pending s"
  by (auto simp: run_end_def Let_def)

lemma run_end_None: "snd (run_end b f out s) = None \<longleftrightarrow> out = Returned"
  by (cases out) (simp_all add: run_end_def Let_def)

lemma start_transport_sel [frame_simps]:
  "ac_generation (start_transport c ok s) = ac_generation s + 1" "ac_loop (start_transport c ok s) = ac_loop s"
  "ac_initialized (start_transport c ok s) = ac_initialized s" "ac_finished (start_transport c ok s) = ac_finished s"
  "ac_pending (start_transport c ok s) = ac_pending s"
  by (auto simp: start_transport_def begin_generation_def spawn_def handshake_def split: option.split)

lemma start_transport_child:
  "c = Some (p, t) \<Longrightarrow> ac_proc (start_transport c ok s) = Some p \<and> ac_exit (start_transport c ok s) = (ac_exit s)(p := None)
     \<and> \<not> ac_terminated (start_transport c ok s)"
  by (simp add: start_transport_def begin_generation_def spawn_def handshake_def)

lemma transport_close_sel [frame_simps]:
  "ac_generation (transport_close h s) = ac_generation s" "ac_initialized (transport_close h s) = ac_initialized s"
  by (simp_all add: transport_close_def Let_def split: option.split)

lemma client_close_sel [frame_simps]:
  "ac_generation (client_close r s) = ac_generation s" "\<not> ac_initialized (client_close r s)"
  by (simp_all add: client_close_def Let_def frame_simps split: option.split close_run.split)

lemma start_attempts_ok:
  "start_attempts as s = (ok, s') \<Longrightarrow> ac_loop s = Some True \<Longrightarrow> list_all attempt_ok as \<Longrightarrow> \<not> ac_initialized s \<Longrightarrow>
   ac_generation s \<le> ac_generation s'
   \<and> (ok \<longrightarrow> ac_loop s' = Some True \<and> live_proc s' \<noteq> None \<and> \<not> ac_terminated s' \<and> ac_generation s < ac_generation s')
   \<and> (\<not> ok \<longrightarrow> \<not> ac_initialized s')"
proof (induction as s arbitrary: ok s' rule: start_attempts.induct)
  case (2 f now timeout out child r as s)
  define s0 where "s0 = s\<lparr>ac_inflight := Some f, ac_inflight_deadline := now + timeout\<rparr>"
  define s1 where "s1 = fst (run_end False f out (start_transport child (out = Returned) s0))"
  have b: "run_begin f now timeout s = Inr s0" using "2.prems"(2) by (simp add: run_begin_def s0_def)
  have s1: "ac_generation s1 = ac_generation s + 1" "ac_loop s1 = Some True" "\<not> ac_initialized s1"
    using "2.prems" by (simp_all add: s1_def s0_def frame_simps)
  obtain x where x: "run_end False f out (start_transport child (out = Returned) s0) = (s1, x)"
    unfolding s1_def by (metis prod.collapse)
  have n: "x = None \<longleftrightarrow> out = Returned" using run_end_None [of False f out] x by (metis snd_conv)
  note r = "2.prems"(1) [unfolded start_attempts.simps b sum.case x prod.case]
  show ?case
  proof (cases x)
    case None
    with n "2.prems"(3) obtain p t where c: "child = Some (p, t)" by auto
    from start_transport_child [OF c] None n have "live_proc s1 \<noteq> None" "\<not> ac_terminated s1"
      by (simp_all add: s1_def live_proc_def frame_simps)
    with None r s1 show ?thesis by simp
  next
    case (Some y)
    show ?thesis
    proof (cases "y = Transport_error \<and> as \<noteq> []")
      case True
      with Some r have r': "start_attempts as (new_loop (client_close r s1)) = (ok, s')" by (simp add: Let_def)
      have "ac_generation (new_loop (client_close r s1)) \<le> ac_generation s'
         \<and> (ok \<longrightarrow> ac_loop s' = Some True \<and> live_proc s' \<noteq> None \<and> \<not> ac_terminated s'
              \<and> ac_generation (new_loop (client_close r s1)) < ac_generation s')
         \<and> (\<not> ok \<longrightarrow> \<not> ac_initialized s')"
        by (rule "2.IH" [OF b x [symmetric] Some _ refl _ r']) (use True "2.prems"(3) in \<open>simp_all add: new_loop_def frame_simps\<close>)
      with s1 show ?thesis by (simp add: new_loop_def frame_simps)
    next
      case False
      then have "\<not> ok \<and> (s' = s1 \<or> s' = client_close r s1)"
        using Some r by (cases y) (auto simp: Let_def split: if_splits)
      with s1 client_close_sel [of r s1] show ?thesis by auto
    qed
  qed
qed simp_all

lemma start_fresh_ok:
  assumes "start_fresh key a1 a2 s = (ok, s')" and "attempt_ok a1" and "attempt_ok a2"
  shows "if ok then is_transport_healthy s' \<and> ac_mcp_key s' = key \<and> ac_generation s < ac_generation s'
         else \<not> is_transport_healthy s'"
proof -
  define s2 where "s2 = new_loop ((if ac_initialized s then cleanup_stale_transport s else s)
      \<lparr>ac_initialized := False, ac_transport_healthy := False\<rparr>)"
  have s2: "ac_loop s2 = Some True" "\<not> ac_initialized s2" "ac_generation s2 = ac_generation s"
    by (simp_all add: s2_def new_loop_def cleanup_stale_transport_def Let_def split: option.split)
  obtain b s3 where st: "start_attempts [a1, a2] s2 = (b, s3)" by force
  from start_attempts_ok [OF st s2(1) _ s2(2)] assms(2,3)
  have a: "b \<Longrightarrow> ac_loop s3 = Some True \<and> live_proc s3 \<noteq> None \<and> \<not> ac_terminated s3 \<and> ac_generation s < ac_generation s3"
    "\<not> b \<Longrightarrow> \<not> ac_initialized s3" using s2(3) by auto
  have r: "start_fresh key a1 a2 s = (case (b, s3) of (False, s3) \<Rightarrow> (False, s3)
      | (True, s3) \<Rightarrow> (True, emit [Audit ''transport.start'' '''']
             (s3\<lparr>ac_initialized := True, ac_mcp_key := key, ac_transport_healthy := True\<rparr>)))"
    unfolding start_fresh_def Let_def s2_def [symmetric] st by (rule refl)
  show ?thesis
  proof (cases b)
    case True
    with a(1) r assms(1) show ?thesis by (auto simp: is_transport_healthy_def live_proc_def split: option.splits)
  next
    case False
    with a(2) r assms(1) show ?thesis by (simp add: is_transport_healthy_def)
  qed
qed

lemma start_attempts_mono: "ac_generation s \<le> ac_generation (snd (start_attempts as s))"
proof (induction as s rule: start_attempts.induct)
  case (2 f now timeout out child r as s)
  show ?case
  proof (cases "run_begin f now timeout s")
    case (Inr s0)
    then have s0: "ac_generation s0 = ac_generation s" by (auto simp: run_begin_def split: if_splits)
    obtain s1 x where x: "run_end False f out (start_transport child (out = Returned) s0) = (s1, x)" by force
    have s1: "ac_generation s1 = ac_generation s + 1" using run_end_sel(1) x s0 start_transport_sel(1) by (metis fst_conv)
    show ?thesis
    proof (cases "x = Some Transport_error \<and> as \<noteq> []")
      case True
      with "2.IH" [OF Inr x [symmetric] _ refl refl] s1 Inr x show ?thesis
        by (simp add: Let_def new_loop_def frame_simps)
    next
      case False
      with s1 Inr x show ?thesis by (cases x) (auto simp: Let_def frame_simps split: raised.split)
    qed
  qed simp
qed simp_all

lemma start_fresh_mono: "ac_generation s \<le> ac_generation (snd (start_fresh key a1 a2 s))"
proof -
  define s2 where "s2 = new_loop ((if ac_initialized s then cleanup_stale_transport s else s)
      \<lparr>ac_initialized := False, ac_transport_healthy := False\<rparr>)"
  have "ac_generation s2 = ac_generation s"
    by (simp add: s2_def new_loop_def cleanup_stale_transport_def Let_def split: option.split)
  moreover have "ac_generation (snd (start_fresh key a1 a2 s)) = ac_generation (snd (start_attempts [a1, a2] s2))"
    unfolding start_fresh_def Let_def s2_def [symmetric] by (simp split: prod.split bool.split)
  ultimately show ?thesis using start_attempts_mono [of s2 "[a1, a2]"] by simp
qed

lemma ensure_started_mono: "ac_generation s \<le> ac_generation (snd (ensure_started allowed key r a1 a2 s))"
  using start_fresh_mono [of s key a1 a2] start_fresh_mono [of "client_close r (emit [Restart_recorded ''mcp_change'']
      (emit [Audit ''transport.restart'' ''mcp_change''] s))" key a1 a2]
  by (simp add: ensure_started_def Let_def frame_simps)

lemma ensure_started_replaces:
  assumes "ensure_started allowed key r a1 a2 s = (True, s')" and "attempt_ok a1" and "attempt_ok a2"
    and "\<not> (is_transport_healthy s \<and> ac_mcp_key s = key)"
  shows "is_transport_healthy s' \<and> ac_mcp_key s' = key \<and> ac_generation s < ac_generation s'"
proof -
  define t where "t = (if is_transport_healthy s then client_close r (emit [Restart_recorded ''mcp_change'']
      (emit [Audit ''transport.restart'' ''mcp_change''] s)) else s)"
  have "start_fresh key a1 a2 t = (True, s')"
    using assms(1,4) unfolding ensure_started_def Let_def t_def by (simp split: if_splits)
  moreover have "ac_generation t = ac_generation s" by (simp add: t_def frame_simps)
  ultimately show ?thesis using start_fresh_ok [of key a1 a2 t True s'] assms(2,3) by simp
qed

text \<open>
  Starting the transport either gives a usable one or says that it did not: when \<open>ensure_started\<close>
  returns, the transport is healthy (child alive, loop running, calls accepted from its child) and configured
  with the wanted tool servers; a transport that already was both is left exactly as it is, and otherwise
  the child is a new generation.  When it raises, no transport counts as healthy, unless the only reason was
  that the restart history forbade replacing a healthy transport of another configuration.
\<close>

theorem ensure_started_is_usable:
  assumes "ensure_started allowed key r a1 a2 s = (ok, s')" and "attempt_ok a1" and "attempt_ok a2"
  shows "(ok \<longrightarrow> is_transport_healthy s' \<and> ac_mcp_key s' = key)
    \<and> (if is_transport_healthy s \<and> ac_mcp_key s = key then ok \<and> s' = s
       else ok \<longrightarrow> ac_generation s < ac_generation s')
    \<and> (\<not> ok \<longrightarrow> \<not> is_transport_healthy s' \<or> (is_transport_healthy s \<and> \<not> allowed))"
proof (cases "is_transport_healthy s \<and> (ac_mcp_key s = key \<or> \<not> allowed)")
  case True
  with assms(1) show ?thesis by (auto simp: ensure_started_def Let_def split: if_splits)
next
  case False
  then obtain t where t: "ensure_started allowed key r a1 a2 s = start_fresh key a1 a2 t" "ac_generation t = ac_generation s"
    unfolding ensure_started_def Let_def by (cases "is_transport_healthy s") (auto simp: frame_simps)
  from start_fresh_ok [OF t(1) [symmetric, unfolded assms(1)] assms(2,3)] t(2) False show ?thesis by (auto split: if_splits)
qed

theorem ensure_started_is_usable_witness:
  "is_transport_healthy (snd (ensure_started True (u ''k'') Close_failed
     (Attempt 1 0 30 Timed_out (Some (7, 1)) (Closed True)) (Attempt 2 40 30 Returned (Some (8, 41)) Close_failed) fresh_state))"
proof -
  let ?r = "ensure_started True (u ''k'') Close_failed
     (Attempt 1 0 30 Timed_out (Some (7, 1)) (Closed True)) (Attempt 2 40 30 Returned (Some (8, 41)) Close_failed) fresh_state"
  have ok: "fst ?r"
    by (simp add: ensure_started_def is_transport_healthy_def fresh_state_def start_fresh_def Let_def new_loop_def
        run_begin_def run_end_def start_transport_def begin_generation_def spawn_def handshake_def client_close_def
        transport_close_def unblock_inflight_def live_proc_def kill_process_group_def emit_def)
  have "(fst ?r \<longrightarrow> is_transport_healthy (snd ?r) \<and> ac_mcp_key (snd ?r) = u ''k'')"
    by (rule ensure_started_is_usable [THEN conjunct1, OF prod.collapse [symmetric]]) simp_all
  with ok show ?thesis by simp
qed

subsection \<open>Two ways a start goes wrong\<close>

lemmas start_defs = start_fresh_def Let_def new_loop_def run_begin_def run_end_def start_transport_def
  begin_generation_def spawn_def handshake_def live_proc_def

text \<open>A start whose first attempt succeeds, on a transport that is not healthy.\<close>

lemma start_fresh_first:
  assumes "ac_initialized s" "ac_loop s = Some True" "live_proc s = Some q"
  shows "start_fresh key (Attempt h n w Returned (Some (p, v)) r) a2 s =
    (True, snd (start_fresh key (Attempt h n w Returned (Some (p, v)) r) a2 s))
    \<and> set (ac_finished (snd (start_fresh key (Attempt h n w Returned (Some (p, v)) r) a2 s))) = insert h (set (ac_finished s))
    \<and> ac_inflight (snd (start_fresh key (Attempt h n w Returned (Some (p, v)) r) a2 s)) = None
    \<and> {Killed q, Loop_stop} \<subseteq> set (ac_trace (snd (start_fresh key (Attempt h n w Returned (Some (p, v)) r) a2 s)))"
proof -
  from assms(3) have "ac_proc s = Some q" "ac_exit s q = None" by (auto simp: live_proc_def split: option.splits if_splits)
  with assms(1,2) show ?thesis by (auto simp: start_defs cleanup_stale_transport_def kill_process_group_def emit_def)
qed

text \<open>
  Resetting a stale transport strands the other caller: when two threads wait for calls on one
  healthy transport and one of the calls times out, the next \<open>ensure_started\<close> kills the child and stops the
  event loop the other call runs on, and succeeds with a new child; but unlike \<open>close\<close> it releases nobody: the
  other caller's future stays unfinished, nothing can finish it any more, and the slot the watchdog looks at
  is empty, so the caller waits for its whole timeout.
\<close>

theorem stale_reset_strands_a_caller:
  assumes "is_transport_healthy s" and "ac_proc s = Some q" and "f \<notin> set (ac_finished s)"
    and "run_begin f t0 d0 s = Inr s1" and "run_begin g t1 d1 s1 = Inr s2" and "run_end False g Timed_out s2 = (s3, x)"
    and "ensure_started allowed key c (Attempt h n w Returned (Some (p, v)) r) a2 s3 = (ok, s')"
    and "f \<noteq> g" and "f \<noteq> h"
  shows "x = Some Transport_error \<and> ok \<and> {Killed q, Loop_stop} \<subseteq> set (ac_trace s')
    \<and> f \<notin> set (ac_finished s') \<and> ac_inflight s' = None"
proof -
  from assms(1,2) have l: "ac_loop s = Some True" "live_proc s = Some q" "ac_initialized s"
    by (auto simp: is_transport_healthy_def live_proc_def split: if_splits)
  then have ex: "ac_proc s = Some q" "ac_exit s q = None" using assms(2) by (auto simp: live_proc_def split: if_splits)
  have s2: "s2 = s\<lparr>ac_inflight := Some g, ac_inflight_deadline := t1 + d1\<rparr>"
    using assms(4,5) l by (auto simp: run_begin_def)
  from assms(6) s2 l(1,3) have s3: "ac_loop s3 = Some True" "live_proc s3 = Some q" "ac_initialized s3" "\<not> ac_transport_healthy s3"
    "set (ac_finished s3) = insert g (set (ac_finished s))" "x = Some Transport_error"
    using ex by (auto simp: run_end_def Let_def live_proc_def emit_def split: if_splits)
  have "ensure_started allowed key c (Attempt h n w Returned (Some (p, v)) r) a2 s3
      = start_fresh key (Attempt h n w Returned (Some (p, v)) r) a2 s3"
    using s3(4) by (simp add: ensure_started_def is_transport_healthy_def)
  with start_fresh_first [OF s3(3,1,2), of key h n w p v r a2] assms(7) have
    "ok" "set (ac_finished s') = insert h (insert g (set (ac_finished s)))" "ac_inflight s' = None"
    "{Killed q, Loop_stop} \<subseteq> set (ac_trace s')" using s3(5) by auto
  with assms(3,8,9) s3(6) show ?thesis by auto
qed

definition running_transport :: acp_state where
  "running_transport = fresh_state\<lparr>ac_loop := Some True, ac_proc := Some 5, ac_initialized := True,
     ac_transport_healthy := True, ac_generation := 1\<rparr>"

theorem stale_reset_strands_a_caller_witness:
  "\<exists>s2 s3 s'. run_begin 2 0 60 (running_transport\<lparr>ac_inflight := Some 1, ac_inflight_deadline := 900\<rparr>) = Inr s2
     \<and> run_end False 2 Timed_out s2 = (s3, Some Transport_error)
     \<and> ensure_started True [] Close_failed (Attempt 3 70 30 Returned (Some (6, 71)) Close_failed) Socket_in_use s3 = (True, s')
     \<and> 1 \<notin> set (ac_finished s')"
proof -
  let ?s1 = "running_transport\<lparr>ac_inflight := Some 1, ac_inflight_deadline := 900\<rparr>"
  obtain s2 where s2: "run_begin 2 0 60 ?s1 = Inr s2" by (simp add: run_begin_def running_transport_def)
  obtain s3 x where s3: "run_end False 2 Timed_out s2 = (s3, x)" by force
  obtain ok s' where s': "ensure_started True [] Close_failed (Attempt 3 70 30 Returned (Some (6, 71)) Close_failed) Socket_in_use s3 = (ok, s')"
    by force
  have h: "is_transport_healthy running_transport" "ac_proc running_transport = Some 5" "1 \<notin> set (ac_finished running_transport)"
    "run_begin 1 0 900 running_transport = Inr ?s1"
    by (simp_all add: is_transport_healthy_def live_proc_def run_begin_def running_transport_def fresh_state_def)
  from stale_reset_strands_a_caller [OF h s2 s3 s'] s2 s3 s' show ?thesis by simp
qed

text \<open>
  A child whose handshake was refused is leaked: when the agent answers \<open>initialize\<close> with an error
  (any \<open>AcpError\<close> that is not a transport error), the start fails without closing, and because the transport
  was not yet marked initialized the next start does not clean it up either: it takes over the slot, and the
  first child is never killed, never asked to exit, and still running.
\<close>

theorem refused_handshake_leaks_the_child:
  assumes "\<not> ac_initialized s" and "{Killed p, Asked_to_exit p} \<inter> set (ac_trace s) = {}"
    and "ensure_started allowed key c (Attempt f n w (Acp_failed False) (Some (p, v)) r) a2 s = (ok1, s1)"
    and "ensure_started allowed' key' c' (Attempt g n' w' Returned (Some (q, v')) r') b2 s1 = (ok2, s2)"
    and "p \<noteq> q"
  shows "\<not> ok1 \<and> ok2 \<and> ac_proc s2 = Some q \<and> ac_exit s2 p = None
    \<and> {Killed p, Asked_to_exit p} \<inter> set (ac_trace s2) = {}"
proof -
  have h: "\<not> is_transport_healthy s" using assms(1) by (simp add: is_transport_healthy_def)
  from assms(1,2,3) h have s1: "\<not> ok1" "\<not> ac_initialized s1" "ac_exit s1 p = None"
    "{Killed p, Asked_to_exit p} \<inter> set (ac_trace s1) = {}"
    by (auto simp: ensure_started_def start_defs emit_def)
  then have "\<not> is_transport_healthy s1" by (simp add: is_transport_healthy_def)
  with s1 assms(4,5) have "ok2" "ac_proc s2 = Some q" "ac_exit s2 p = None"
    "{Killed p, Asked_to_exit p} \<inter> set (ac_trace s2) = {}"
    by (auto simp: ensure_started_def start_defs emit_def)
  with s1(1) show ?thesis by blast
qed

theorem refused_handshake_leaks_the_child_witness:
  "\<exists>s1 s2. ensure_started True [] Close_failed (Attempt 1 0 30 (Acp_failed False) (Some (7, 1)) Close_failed) Socket_in_use fresh_state = (False, s1)
     \<and> ensure_started True [] Close_failed (Attempt 2 9 30 Returned (Some (8, 10)) Close_failed) Socket_in_use s1 = (True, s2)
     \<and> ac_proc s2 = Some 8 \<and> ac_exit s2 7 = None"
proof -
  obtain ok1 s1 where 1: "ensure_started True [] Close_failed (Attempt 1 0 30 (Acp_failed False) (Some (7, 1)) Close_failed)
      Socket_in_use fresh_state = (ok1, s1)" by force
  obtain ok2 s2 where 2: "ensure_started True [] Close_failed (Attempt 2 9 30 Returned (Some (8, 10)) Close_failed)
      Socket_in_use s1 = (ok2, s2)" by force
  have i: "\<not> ac_initialized fresh_state" "{Killed 7, Asked_to_exit 7} \<inter> set (ac_trace fresh_state) = {}"
    by (simp_all add: fresh_state_def)
  from refused_handshake_leaks_the_child [OF i 1 2] 1 2 show ?thesis by simp
qed

end
