(* ===== verification/AcpWatchdog.thy ===== *)
theory AcpWatchdog
  imports AcpTransport
begin

section \<open>The watchdog of the ACP transport\<close>

text \<open>
  \<open>src/src/diploid_agent/acp_client/watchdog.py\<close>.  A check reads the shared state under the lock and judges;
  recovery waits for the life-cycle lock, so other threads may run in between, start and close transports
  included.  Both are therefore separate steps of the thread, and what the check observed (the trigger, the
  child, the generation) is carried from one to the other.  The two locked sections of the recovery itself are
  one step: no other thread can change the child or the generation while it holds the life-cycle lock.
\<close>

subsection \<open>Judging\<close>

datatype trigger = Proc_dead | Inflight_deadline | Control_deadline

type_synonym stall = "trigger \<times> nat option \<times> nat"

record watchdog_config =
  wc_timeout :: secs        \<comment> \<open>\<open>_watchdog_timeout\<close>\<close>
  wc_silence_after :: secs  \<comment> \<open>\<open>_silence_warn_after\<close>\<close>
  wc_metrics :: bool        \<comment> \<open>is there a metrics object?\<close>
  wc_audit :: bool          \<comment> \<open>is there a lifecycle log?\<close>

record watchdog =
  wd_running :: bool
  wd_last_silence_warn :: secs

definition proc_dead :: "acp_state \<Rightarrow> bool" where
  "proc_dead s \<longleftrightarrow> (case ac_proc s of None \<Rightarrow> False | Some p \<Rightarrow> ac_exit s p \<noteq> None)"

definition has_prompt :: "acp_state \<Rightarrow> bool" where
  "has_prompt s \<longleftrightarrow> ac_active_prompts s \<noteq> []"

definition control_overdue :: "watchdog_config \<Rightarrow> secs \<Rightarrow> acp_state \<Rightarrow> bool" where
  "control_overdue cfg now s \<longleftrightarrow>
     (if ac_last_control_call_deadline s \<noteq> 0 then now > ac_last_control_call_deadline s
      else now - ac_last_request_at s > wc_timeout cfg)"

definition silent :: "watchdog_config \<Rightarrow> secs \<Rightarrow> watchdog \<Rightarrow> acp_state \<Rightarrow> bool" where
  "silent cfg now w s \<longleftrightarrow> has_prompt s \<and> wc_silence_after cfg > 0 \<and> ac_last_stdout_at s > 0
     \<and> now - ac_last_stdout_at s \<ge> wc_silence_after cfg \<and> now - wd_last_silence_warn w \<ge> wc_silence_after cfg"

definition silence_effects :: "watchdog_config \<Rightarrow> acp_effect list" where
  "silence_effects cfg = (if wc_audit cfg then [Audit ''prompt.silence'' ''''] else [])
     @ (if wc_metrics cfg then [Counter ''acp_prompt_silence_total''] else [])"

definition wd_check ::
  "watchdog_config \<Rightarrow> secs \<Rightarrow> watchdog \<Rightarrow> acp_state \<Rightarrow> (watchdog \<times> acp_state) \<times> stall option" where
  "wd_check cfg now w s =
     (let stall = (\<lambda>t. ((w, s), Some (t, ac_proc s, ac_generation s)))
      in if \<not> wd_running w then ((w, s), None)
         else if \<not> inflight_open s then ((w, s), None)
         else if proc_dead s then stall Proc_dead
         else if now > ac_inflight_deadline s then stall Inflight_deadline
         else if ac_pending s \<noteq> [] \<and> \<not> has_prompt s \<and> control_overdue cfg now s then stall Control_deadline
         else if silent cfg now w s
              then ((w\<lparr>wd_last_silence_warn := now\<rparr>, emit (silence_effects cfg) s), None)
         else ((w, s), None))"

subsection \<open>Recovering\<close>

definition still_stalled :: "watchdog_config \<Rightarrow> secs \<Rightarrow> stall \<Rightarrow> acp_state \<Rightarrow> bool" where
  "still_stalled cfg now st s =
     (case st of (t, p, g) \<Rightarrow>
        (case t of
           Proc_dead \<Rightarrow> (case p of None \<Rightarrow> False | Some q \<Rightarrow> ac_exit s q \<noteq> None)
         | Inflight_deadline \<Rightarrow> inflight_open s \<and> now > ac_inflight_deadline s
         | Control_deadline \<Rightarrow> ac_pending s \<noteq> [] \<and> \<not> has_prompt s \<and> control_overdue cfg now s))"

definition audit :: "watchdog_config \<Rightarrow> string \<Rightarrow> string \<Rightarrow> acp_effect list" where
  "audit cfg e r = (if wc_audit cfg then [Audit e r] else [])"

definition count :: "watchdog_config \<Rightarrow> string \<Rightarrow> acp_effect list" where
  "count cfg c = (if wc_metrics cfg then [Counter c] else [])"

definition stall_recovery :: "watchdog_config \<Rightarrow> secs \<Rightarrow> stall \<Rightarrow> acp_state \<Rightarrow> acp_state" where
  "stall_recovery cfg now st s =
     (case st of (t, p, g) \<Rightarrow>
        if ac_generation s \<noteq> g \<or> ac_proc s \<noteq> p
        then emit (audit cfg ''watchdog.recovery.skipped'' ''stale_generation'') s
        else if \<not> still_stalled cfg now st s
        then emit (audit cfg ''watchdog.recovery.skipped'' ''cleared'') s
        else
          let s1 = emit (count cfg ''acp_watchdog_fired_total'' @ audit cfg ''transport.restart'' ''watchdog_stall''
                         @ [Restart_recorded ''transport_error'']) s;
              s2 = (unblock_inflight s1)\<lparr>ac_transport_healthy := False, ac_initialized := False\<rparr>;
              s3 = (case live_proc s2 of None \<Rightarrow> s2
                    | Some q \<Rightarrow> emit (count cfg ''acp_transport_killed_total'') (kill_process_group q s2))
          in if ac_loop s = Some True then emit [Loop_stop] s3 else s3)"

subsection \<open>The threads of the harness around it\<close>

text \<open>
  One step of another thread or of the world: a caller, the stdout reader, the child exiting, a start or a
  close of the transport (both hold the life-cycle lock), the watchdog being started or stopped.
\<close>

datatype acp_event =
    Run_begin nat secs secs
  | Run_end bool nat call_outcome
  | Call_begin secs secs
  | Call_sent secs secs
  | Call_end nat bool
  | Response secs nat
  | Prompt_begin ustr
  | Prompt_end ustr
  | Future_done nat
  | Child_exit nat int
  | Io_task_done bool
  | Ensure bool ustr close_run start_attempt start_attempt
  | Close close_run

fun acp_step :: "acp_event \<Rightarrow> acp_state \<Rightarrow> acp_state" where
  "acp_step (Run_begin f now t) s = (case run_begin f now t s of Inl e \<Rightarrow> s | Inr s' \<Rightarrow> s')"
| "acp_step (Run_end b f out) s = fst (run_end b f out s)"
| "acp_step (Call_begin now t) s = snd (call_begin now t s)"
| "acp_step (Call_sent now t) s = snd (call_sent now t s)"
| "acp_step (Call_end i answered) s = call_end i answered s"
| "acp_step (Response now i) s = reader_response now i s"
| "acp_step (Prompt_begin k) s =
     s\<lparr>ac_active_prompts := dset k \<lparr>ap_cancelled = False, ap_timed_out = False, ap_cancel_done = False\<rparr> (ac_active_prompts s)\<rparr>"
| "acp_step (Prompt_end k) s = s\<lparr>ac_active_prompts := ddel k (ac_active_prompts s)\<rparr>"
| "acp_step (Future_done f) s = s\<lparr>ac_finished := f # ac_finished s\<rparr>"
| "acp_step (Child_exit p c) s = s\<lparr>ac_exit := (ac_exit s)(p := Some c)\<rparr>"
| "acp_step (Io_task_done reader) s = on_io_task_done reader s"
| "acp_step (Ensure allowed key r a1 a2) s = snd (ensure_started allowed key r a1 a2 s)"
| "acp_step (Close r) s = client_close r s"

definition acp_run :: "acp_event list \<Rightarrow> acp_state \<Rightarrow> acp_state" where
  "acp_run es s = foldl (\<lambda>s e. acp_step e s) s es"

lemma acp_run_simps [simp]: "acp_run [] s = s" "acp_run (e # es) s = acp_run es (acp_step e s)"
  by (simp_all add: acp_run_def)

subsection \<open>Only the child that was judged is recovered\<close>

lemma acp_step_generation: "ac_generation s \<le> ac_generation (acp_step e s)"
  by (cases e)
    (simp_all add: frame_simps run_begin_def call_begin_def call_sent_def call_end_def reader_response_def
      on_io_task_done_def Let_def ensure_started_mono split: option.split sum.split)

lemma acp_run_generation: "ac_generation s \<le> ac_generation (acp_run es s)"
  by (induction es arbitrary: s) (auto intro: order.trans [OF acp_step_generation])

lemma acp_run_append: "acp_run (es @ es') s = acp_run es' (acp_run es s)"
  by (simp add: acp_run_def)

lemma wd_check_stall:
  assumes "wd_check cfg now w s = ((w', s'), Some st)"
  shows "w' = w \<and> s' = s \<and> (\<exists>t. st = (t, ac_proc s, ac_generation s)) \<and> still_stalled cfg now st s"
  using assms unfolding wd_check_def Let_def
  by (auto simp: still_stalled_def proc_dead_def split: if_splits option.splits)

lemma recovery_cases:
  "stall_recovery cfg now (t, p, g) s =
     (if ac_generation s = g \<and> ac_proc s = p \<and> still_stalled cfg now (t, p, g) s
      then stall_recovery cfg now (t, p, g) s
      else emit (audit cfg ''watchdog.recovery.skipped''
             (if ac_generation s \<noteq> g \<or> ac_proc s \<noteq> p then ''stale_generation'' else ''cleared'')) s)"
  by (simp add: stall_recovery_def)

lemma emit_observed: "live_proc (emit es s) = live_proc s" "released (emit es s) = released s"
  "check_accepting (emit es s) = check_accepting s"
proof -
  show l: "live_proc (emit es s) = live_proc s" by (simp add: live_proc_def split: option.split)
  show "released (emit es s) = released s" by (simp add: released_def inflight_open_def split: option.split)
  show "check_accepting (emit es s) = check_accepting s" by (simp add: check_accepting_def l)
qed

text \<open>What a recovery that goes ahead does.\<close>

lemma recovery_effect:
  assumes "ac_generation s = g" and "ac_proc s = p" and "still_stalled cfg now (t, p, g) s"
  shows "released (stall_recovery cfg now (t, p, g) s) \<and> \<not> is_transport_healthy (stall_recovery cfg now (t, p, g) s)
    \<and> (\<forall>i. \<not> healthy i (stall_recovery cfg now (t, p, g) s)) \<and> check_accepting (stall_recovery cfg now (t, p, g) s) \<noteq> None
    \<and> (\<forall>q. Killed q \<in> set (ac_trace (stall_recovery cfg now (t, p, g) s)) \<longleftrightarrow>
           Killed q \<in> set (ac_trace s) \<or> live_proc s = Some q)"
proof -
  define s1 where "s1 = emit (count cfg ''acp_watchdog_fired_total'' @ audit cfg ''transport.restart'' ''watchdog_stall''
                         @ [Restart_recorded ''transport_error'']) s"
  define s2 where "s2 = (unblock_inflight s1)\<lparr>ac_transport_healthy := False, ac_initialized := False\<rparr>"
  define s3 where "s3 = (case live_proc s2 of None \<Rightarrow> s2
                    | Some q \<Rightarrow> emit (count cfg ''acp_transport_killed_total'') (kill_process_group q s2))"
  have r: "stall_recovery cfg now (t, p, g) s = (if ac_loop s = Some True then emit [Loop_stop] s3 else s3)"
    using assms unfolding stall_recovery_def Let_def s3_def s2_def s1_def prod.case by (subst if_not_P, simp) (simp only: not_True_eq_False if_False)
  have k: "Killed q \<notin> set (count cfg c)" "Killed q \<notin> set (audit cfg c d)" for q c d
    by (simp_all add: count_def audit_def)
  have l: "live_proc s2 = live_proc s" 
    unfolding live_proc_def s2_def s1_def by (simp split: option.split)
  have u: "released (unblock_inflight s1)" by (rule unblock_released)
  then have "released s2" by (simp add: released_def inflight_open_def s2_def split: option.splits)
  then have rel: "released s3" by (auto simp: s3_def released_def inflight_open_def split: option.splits)
  have tr: "Killed q \<in> set (ac_trace s3) \<longleftrightarrow> Killed q \<in> set (ac_trace s) \<or> live_proc s = Some q" for q
    using k l by (auto simp: s3_def s2_def s1_def split: option.split)
  have i: "\<not> ac_initialized s3" by (simp add: s3_def s2_def split: option.split)
  have c: "check_accepting s3 \<noteq> None"
    by (cases "live_proc s2") (simp_all add: s3_def check_accepting_def)
  define s4 where "s4 = (if ac_loop s = Some True then emit [Loop_stop] s3 else s3)"
  have "released s4" "check_accepting s4 \<noteq> None" "\<not> ac_initialized s4"
    "Killed q \<in> set (ac_trace s4) \<longleftrightarrow> Killed q \<in> set (ac_trace s) \<or> live_proc s = Some q" for q
    using rel tr i c by (simp_all add: s4_def emit_observed)
  then show ?thesis unfolding r s4_def [symmetric] by (simp add: is_transport_healthy_def healthy_def)
qed

text \<open>
  Claim C37.  The watchdog recovers only the transport it judged: whatever the other threads do between the
  check and the recovery (calls beginning and ending, prompts, responses, exits, starts and closes), the
  recovery either changes nothing but the audit log, or the very child and generation that were judged are
  still in place, the stall still holds at that moment, and no other child is killed.  In particular, if some
  start replaced the transport in between, the new transport is left alone.
\<close>

theorem watchdog_recovers_what_it_judged:
  assumes "wd_check cfg now w s = ((w', s0), Some st)" and "s1 = acp_run es s0"
  shows "((\<exists>r. stall_recovery cfg later st s1 = emit (audit cfg ''watchdog.recovery.skipped'' r) s1)
     \<or> (ac_generation s1 = ac_generation s \<and> ac_proc s1 = ac_proc s \<and> still_stalled cfg later st s1
        \<and> (\<forall>q. Killed q \<in> set (ac_trace (stall_recovery cfg later st s1)) \<longrightarrow>
               Killed q \<in> set (ac_trace s1) \<or> ac_proc s = Some q)))
    \<and> (\<forall>es1 allowed key r a1 a2 es2. es = es1 @ Ensure allowed key r a1 a2 # es2 \<and> attempt_ok a1 \<and> attempt_ok a2
         \<and> fst (ensure_started allowed key r a1 a2 (acp_run es1 s0))
         \<and> \<not> (is_transport_healthy (acp_run es1 s0) \<and> ac_mcp_key (acp_run es1 s0) = key)
       \<longrightarrow> stall_recovery cfg later st s1 = emit (audit cfg ''watchdog.recovery.skipped'' ''stale_generation'') s1)"
proof (intro conjI allI impI)
  from wd_check_stall [OF assms(1)] obtain t where st: "s0 = s" "st = (t, ac_proc s, ac_generation s)" by auto
  show "(\<exists>r. stall_recovery cfg later st s1 = emit (audit cfg ''watchdog.recovery.skipped'' r) s1)
     \<or> (ac_generation s1 = ac_generation s \<and> ac_proc s1 = ac_proc s \<and> still_stalled cfg later st s1
        \<and> (\<forall>q. Killed q \<in> set (ac_trace (stall_recovery cfg later st s1)) \<longrightarrow>
               Killed q \<in> set (ac_trace s1) \<or> ac_proc s = Some q))"
  proof (cases "ac_generation s1 = ac_generation s \<and> ac_proc s1 = ac_proc s \<and> still_stalled cfg later st s1")
    case True
    with recovery_effect [of s1 "ac_generation s" "ac_proc s" cfg later t] show ?thesis
      unfolding st(2) by (auto simp: live_proc_def split: option.splits if_splits)
  next
    case False
    then show ?thesis unfolding st(2) by (subst recovery_cases) auto
  qed
  fix es1 allowed key r a1 a2 es2
  assume h: "es = es1 @ Ensure allowed key r a1 a2 # es2 \<and> attempt_ok a1 \<and> attempt_ok a2
     \<and> fst (ensure_started allowed key r a1 a2 (acp_run es1 s0))
     \<and> \<not> (is_transport_healthy (acp_run es1 s0) \<and> ac_mcp_key (acp_run es1 s0) = key)"
  let ?u = "snd (ensure_started allowed key r a1 a2 (acp_run es1 s0))"
  have "ensure_started allowed key r a1 a2 (acp_run es1 s0) = (True, ?u)" using h by (metis prod.collapse)
  then have "ac_generation (acp_run es1 s0) < ac_generation ?u" using ensure_started_replaces h by blast
  moreover have "s1 = acp_run es2 ?u" unfolding assms(2) using h by (simp add: acp_run_append)
  ultimately have "ac_generation s < ac_generation s1"
    using acp_run_generation [of s es1] acp_run_generation [of ?u es2] st(1) by simp
  then show "stall_recovery cfg later st s1 = emit (audit cfg ''watchdog.recovery.skipped'' ''stale_generation'') s1"
    unfolding st(2) by (simp add: stall_recovery_def)
qed

definition stalled_transport :: acp_state where
  "stalled_transport = running_transport\<lparr>ac_inflight := Some 1, ac_inflight_deadline := 60\<rparr>"

definition plain_watchdog :: "watchdog_config" where
  "plain_watchdog = \<lparr>wc_timeout = 120, wc_silence_after = 600, wc_metrics = False, wc_audit = False\<rparr>"

definition running_watchdog :: watchdog where
  "running_watchdog = \<lparr>wd_running = True, wd_last_silence_warn = 0\<rparr>"

lemmas stalled_defs = stalled_transport_def running_transport_def fresh_state_def running_watchdog_def plain_watchdog_def

lemma stalled_check:
  "wd_check plain_watchdog 61 running_watchdog stalled_transport
     = ((running_watchdog, stalled_transport), Some (Inflight_deadline, Some 5, 1))"
  by (simp add: wd_check_def inflight_open_def proc_dead_def stalled_defs Let_def)

theorem watchdog_recovers_what_it_judged_witness:
  "let s1 = acp_run [Close Close_failed, Ensure True [] Close_failed
       (Attempt 3 70 30 Returned (Some (6, 71)) Close_failed) Socket_in_use] stalled_transport
   in stall_recovery plain_watchdog 75 (Inflight_deadline, Some 5, 1) s1 = s1"
proof -
  let ?a1 = "Attempt 3 70 30 Returned (Some (6, 71)) Close_failed"
  let ?es = "[Close Close_failed, Ensure True [] Close_failed ?a1 Socket_in_use]"
  have s: "\<not> ac_initialized (client_close Close_failed stalled_transport)"
    "ac_exit (client_close Close_failed stalled_transport) = (\<lambda>_. None)"
    by (simp_all add: client_close_def Let_def live_proc_def emit_def stalled_defs)
  then have nh: "\<not> is_transport_healthy (client_close Close_failed stalled_transport)" by (simp add: is_transport_healthy_def)
  with s have e: "fst (ensure_started True [] Close_failed ?a1 Socket_in_use (client_close Close_failed stalled_transport))"
    by (simp add: ensure_started_def start_defs)
  have "?es = [Close Close_failed] @ Ensure True [] Close_failed ?a1 Socket_in_use # [] \<and> attempt_ok ?a1 \<and> attempt_ok Socket_in_use
     \<and> fst (ensure_started True [] Close_failed ?a1 Socket_in_use (acp_run [Close Close_failed] stalled_transport))
     \<and> \<not> (is_transport_healthy (acp_run [Close Close_failed] stalled_transport)
          \<and> ac_mcp_key (acp_run [Close Close_failed] stalled_transport) = [])"
    using e nh by simp
  from watchdog_recovers_what_it_judged [OF stalled_check refl, THEN conjunct2, rule_format, OF this]
  show ?thesis by (simp add: Let_def emit_def audit_def plain_watchdog_def)
qed

subsection \<open>A stalled call is detected and released\<close>

text \<open>
  A stalled call does not wait for ever: while a call is in flight, a check of a running watchdog
  reports a stall as soon as the child has exited or the call's deadline has passed; and a recovery of the
  transport it reported, at any later time at which nothing has changed, lets every waiting caller go (the
  call, all pending requests, all prompts), kills the child if it is still alive, and leaves a transport that
  accepts no calls and does not count as healthy, so that the next use starts a new one.
\<close>

theorem stalled_call_is_released:
  assumes "wd_running w" and "inflight_open s" and "proc_dead s \<or> now > ac_inflight_deadline s" and "now \<le> later"
  shows "\<exists>st. wd_check cfg now w s = ((w, s), Some st)
    \<and> released (stall_recovery cfg later st s) \<and> check_accepting (stall_recovery cfg later st s) \<noteq> None
    \<and> \<not> is_transport_healthy (stall_recovery cfg later st s) \<and> \<not> healthy i (stall_recovery cfg later st s)
    \<and> (\<forall>q. live_proc s = Some q \<longrightarrow> Killed q \<in> set (ac_trace (stall_recovery cfg later st s)))"
proof -
  let ?t = "if proc_dead s then Proc_dead else Inflight_deadline"
  have "wd_check cfg now w s = ((w, s), Some (?t, ac_proc s, ac_generation s))"
    using assms(1-3) by (auto simp: wd_check_def Let_def)
  moreover have "still_stalled cfg later (?t, ac_proc s, ac_generation s) s"
    using assms(2-4) by (auto simp: still_stalled_def proc_dead_def split: option.splits)
  from recovery_effect [OF refl refl this] have "released (stall_recovery cfg later (?t, ac_proc s, ac_generation s) s)
    \<and> check_accepting (stall_recovery cfg later (?t, ac_proc s, ac_generation s) s) \<noteq> None
    \<and> \<not> is_transport_healthy (stall_recovery cfg later (?t, ac_proc s, ac_generation s) s)
    \<and> \<not> healthy i (stall_recovery cfg later (?t, ac_proc s, ac_generation s) s)
    \<and> (\<forall>q. live_proc s = Some q \<longrightarrow> Killed q \<in> set (ac_trace (stall_recovery cfg later (?t, ac_proc s, ac_generation s) s)))"
    by blast
  ultimately show ?thesis by blast
qed

theorem stalled_call_is_released_witness:
  "\<exists>st. wd_check plain_watchdog 61 running_watchdog stalled_transport = ((running_watchdog, stalled_transport), Some st)
    \<and> released (stall_recovery plain_watchdog 62 st stalled_transport)
    \<and> Killed 5 \<in> set (ac_trace (stall_recovery plain_watchdog 62 st stalled_transport))"
proof -
  have "wd_running running_watchdog" "inflight_open stalled_transport" "live_proc stalled_transport = Some 5"
    "proc_dead stalled_transport \<or> 61 > ac_inflight_deadline stalled_transport" "(61::real) \<le> 62"
    by (simp_all add: inflight_open_def live_proc_def stalled_defs)
  then show ?thesis using stalled_call_is_released [of running_watchdog stalled_transport 61 62 plain_watchdog 0] by blast
qed

subsection \<open>A quiet prompt is reported, not killed\<close>

text \<open>The times at which successive checks report silence; the other threads run between them.\<close>

fun silence_reports :: "watchdog_config \<Rightarrow> (acp_event list \<times> secs) list \<Rightarrow> watchdog \<Rightarrow> acp_state \<Rightarrow> secs list" where
  "silence_reports cfg [] w s = []"
| "silence_reports cfg ((es, now) # rest) w s =
     (case wd_check cfg now w (acp_run es s) of
        ((w', s'), st) \<Rightarrow>
          (if wd_last_silence_warn w' \<noteq> wd_last_silence_warn w then [now] else []) @ silence_reports cfg rest w' s')"

lemma wd_check_silence:
  assumes "wd_check cfg now w s = ((w', s'), st)" and "wd_last_silence_warn w' \<noteq> wd_last_silence_warn w"
  shows "wd_last_silence_warn w' = now \<and> wc_silence_after cfg > 0 \<and> wc_silence_after cfg \<le> now - wd_last_silence_warn w"
  using assms by (auto simp: wd_check_def Let_def silent_def split: if_splits)

lemma silence_reports_gap:
  "silence_reports cfg steps w s = x # xs \<Longrightarrow> wc_silence_after cfg \<le> x - wd_last_silence_warn w
     \<and> successively (\<lambda>a b. wc_silence_after cfg \<le> b - a) (x # xs)"
proof (induction cfg steps w s arbitrary: x xs rule: silence_reports.induct)
  case (2 cfg es now rest w s)
  obtain w' s' st where c: "wd_check cfg now w (acp_run es s) = ((w', s'), st)" by (metis prod.collapse)
  show ?case
  proof (cases "wd_last_silence_warn w' \<noteq> wd_last_silence_warn w")
    case True
    with wd_check_silence [OF c] have n: "wd_last_silence_warn w' = now" "wc_silence_after cfg \<le> now - wd_last_silence_warn w"
      by simp_all
    from True "2.prems" c have x: "x = now" "xs = silence_reports cfg rest w' s'" by simp_all
    show ?thesis
    proof (cases xs)
      case (Cons y ys)
      with "2.IH" [OF c [symmetric] refl, of y ys] x n
      have "wc_silence_after cfg \<le> y - now \<and> successively (\<lambda>a b. wc_silence_after cfg \<le> b - a) (y # ys)" by simp
      with Cons x n show ?thesis by (simp del: silence_reports.simps)
    qed (use n x in simp)
  next
    case False
    with "2.prems" c have "silence_reports cfg rest w' s' = x # xs" by simp
    from "2.IH" [OF c [symmetric] refl this] False show ?thesis by simp
  qed
qed simp

text \<open>
  A quiet prompt is reported, not killed: while a prompt is active, its child is alive and its
  call is before its deadline, no check asks for a recovery, however long the child has been silent; and the
  reports of silence, over any sequence of checks with other threads in between, are at least the configured
  interval apart.
\<close>

theorem quiet_prompt_is_only_reported:
  assumes "live_proc s \<noteq> None" and "has_prompt s" and "now \<le> ac_inflight_deadline s"
  shows "snd (wd_check cfg now w s) = None
    \<and> successively (\<lambda>a b. wc_silence_after cfg \<le> b - a) (silence_reports cfg steps w' s')"
proof
  from assms have "\<not> proc_dead s" by (auto simp: live_proc_def proc_dead_def split: option.splits if_splits)
  with assms show "snd (wd_check cfg now w s) = None" by (simp add: wd_check_def Let_def)
  show "successively (\<lambda>a b. wc_silence_after cfg \<le> b - a) (silence_reports cfg steps w' s')"
    using silence_reports_gap by (cases "silence_reports cfg steps w' s'") auto
qed

theorem quiet_prompt_is_only_reported_witness:
  "snd (wd_check plain_watchdog 800 running_watchdog
     (acp_step (Prompt_begin (u ''s'')) (running_transport\<lparr>ac_inflight := Some 1, ac_inflight_deadline := 900, ac_last_stdout_at := 1\<rparr>))) = None"
proof -
  let ?s = "acp_step (Prompt_begin (u ''s'')) (running_transport\<lparr>ac_inflight := Some 1, ac_inflight_deadline := 900, ac_last_stdout_at := 1\<rparr>)"
  have "live_proc ?s \<noteq> None" "has_prompt ?s" "800 \<le> ac_inflight_deadline ?s"
    by (simp_all add: live_proc_def has_prompt_def running_transport_def fresh_state_def)
  from quiet_prompt_is_only_reported [THEN conjunct1, OF this] show ?thesis .
qed

subsection \<open>One slot for several callers\<close>

text \<open>
  The watchdog knows one caller only: when two threads have calls in flight, the end of the second
  empties the slot the watchdog looks at, and from then on no check ever reports a stall, whatever the time,
  although the first call is still waiting and even if the child has exited.  And a background call, which
  must not harm the shared transport when it times out, is killed by the watchdog: between its deadline and
  the five seconds its caller waits on, any check asks for a recovery of the transport.
\<close>

theorem watchdog_sees_one_caller:
  assumes "run_begin f t0 d0 s = Inr s1" and "run_begin g t1 d1 s1 = Inr s2" and "f \<noteq> g"
    and "f \<notin> set (ac_finished s)" and "g \<notin> set (ac_finished s)"
  shows "(\<forall>cfg now w c p. snd (wd_check cfg now w (acp_step (Child_exit p c) (fst (run_end b g out s2)))) = None
            \<and> f \<notin> set (ac_finished (acp_step (Child_exit p c) (fst (run_end b g out s2)))))
    \<and> (\<forall>cfg now w. wd_running w \<and> t1 + d1 < now \<and> now \<le> t1 + d1 + 5 \<longrightarrow> snd (wd_check cfg now w s2) \<noteq> None)"
proof -
  from assms have s2: "ac_inflight s2 = Some g" "ac_inflight_deadline s2 = t1 + d1" "ac_finished s2 = ac_finished s"
    by (auto simp: run_begin_def split: if_splits)
  have "ac_inflight (acp_step (Child_exit p c) (fst (run_end b g out s2))) = None"
    "f \<notin> set (ac_finished (acp_step (Child_exit p c) (fst (run_end b g out s2))))" for p c
    using assms(3,4) s2(3) by (simp_all add: frame_simps)
  moreover have "inflight_open s2" using s2 assms(5) by (simp add: inflight_open_def)
  then have "snd (wd_check cfg now w s2) \<noteq> None" if "wd_running w" "t1 + d1 < now" for cfg now w
    using that s2 by (simp add: wd_check_def Let_def)
  ultimately show ?thesis by (simp add: wd_check_def Let_def inflight_open_def)
qed

theorem watchdog_sees_one_caller_witness:
  "\<exists>s1 s2. run_begin 1 0 900 running_transport = Inr s1 \<and> run_begin 2 10 60 s1 = Inr s2
     \<and> snd (wd_check plain_watchdog 72 running_watchdog s2) \<noteq> None
     \<and> snd (wd_check plain_watchdog 10000 running_watchdog (acp_step (Child_exit 5 1) (fst (run_end True 2 Returned s2)))) = None"
proof -
  obtain s1 where 1: "run_begin 1 0 900 running_transport = Inr s1" by (simp add: run_begin_def running_transport_def)
  then obtain s2 where 2: "run_begin 2 10 60 s1 = Inr s2" by (auto simp: run_begin_def running_transport_def split: if_splits)
  have "(1::nat) \<noteq> 2" "1 \<notin> set (ac_finished running_transport)" "2 \<notin> set (ac_finished running_transport)"
    by (simp_all add: running_transport_def fresh_state_def)
  from watchdog_sees_one_caller [OF 1 2 this, of True Returned] 1 2 show ?thesis by (auto simp: running_watchdog_def)
qed

end
