(* ===== verification/StreamDisplay.thy ===== *)
theory StreamDisplay
  imports Json
begin

section \<open>The live display of a streamed turn in Telegram\<close>

text \<open>
  \<open>src/src/diploid_agent/transport/telegram/stream_display.py\<close> and the text helpers it uses from
  \<open>transport/telegram/formatting.py\<close>.  The chat is the list of its messages in order, with their ids; a send
  can fail (\<open>ok n\<close> says whether the \<open>n\<close>-th attempt succeeds), edits and deletions succeed.  Parameters:
  \<open>unask\<close> is the text without its ask block (\<open>extract_ask_block\<close>), \<open>parts\<close> are the rendered chunks the
  sender cuts a text into, and \<open>inplace\<close> whether it edits the first message or replaces it (plain text or
  MarkdownV2).  The clock reading of an operation is an argument; saving the placeholder's state for a
  restart is left out.
\<close>

subsection \<open>The chat\<close>

record chat =
  ch_next :: nat
  ch_attempts :: nat
  ch_messages :: "(nat \<times> ustr) list"
  ch_registered :: "(nat list \<times> int \<times> int \<times> ustr) list"  \<comment> \<open>messages known to belong to a turn\<close>

definition send_message :: "(nat \<Rightarrow> bool) \<Rightarrow> ustr \<Rightarrow> chat \<Rightarrow> nat option \<times> chat" where
  "send_message ok x c =
     (let c1 = c\<lparr>ch_attempts := ch_attempts c + 1\<rparr>
      in if ok (ch_attempts c)
         then (Some (ch_next c), c1\<lparr>ch_next := ch_next c + 1, ch_messages := ch_messages c @ [(ch_next c, x)]\<rparr>)
         else (None, c1))"

definition edit_message :: "nat \<Rightarrow> ustr \<Rightarrow> chat \<Rightarrow> chat" where
  "edit_message i x c = c\<lparr>ch_messages := map (\<lambda>(k, v). (k, if k = i then x else v)) (ch_messages c)\<rparr>"

definition delete_message :: "nat \<Rightarrow> chat \<Rightarrow> chat" where
  "delete_message i c = c\<lparr>ch_messages := filter (\<lambda>p. fst p \<noteq> i) (ch_messages c)\<rparr>"

fun send_all :: "(nat \<Rightarrow> bool) \<Rightarrow> ustr list \<Rightarrow> chat \<Rightarrow> (nat \<times> ustr) list \<times> chat" where
  "send_all ok [] c = ([], c)"
| "send_all ok (x # xs) c =
     (case send_message ok x c of
        (None, c1) \<Rightarrow> send_all ok xs c1
      | (Some i, c1) \<Rightarrow> (case send_all ok xs c1 of (s, c2) \<Rightarrow> ((i, x) # s, c2)))"

text \<open>\<open>_send_text\<close>: the ids and the chunks of the messages sent.\<close>

definition send_text ::
  "(nat \<Rightarrow> bool) \<Rightarrow> (ustr \<Rightarrow> ustr list) \<Rightarrow> bool \<Rightarrow> ustr \<Rightarrow> nat option \<Rightarrow> chat \<Rightarrow> (nat \<times> ustr) list \<times> chat" where
  "send_text ok parts inplace x first c =
     (if x = [] then ([], c)
      else case first of
             None \<Rightarrow> send_all ok (parts x) c
           | Some m \<Rightarrow>
               if inplace
               then (case parts x of
                       [] \<Rightarrow> ([], c)
                     | y # ys \<Rightarrow> (case send_all ok ys (edit_message m y c) of (s, c1) \<Rightarrow> ((m, y) # s, c1)))
               else send_all ok (parts x) (delete_message m c))"

subsection \<open>Texts of the placeholders\<close>

definition THINKING_PREFIX :: ustr where
  "THINKING_PREFIX = u ''Thinking...''"

definition THINKING_CONTINUED :: ustr where
  "THINKING_CONTINUED = u ''... (thinking continues)''"

definition HEARTBEAT_INTERVAL :: secs where
  "HEARTBEAT_INTERVAL = 30"

definition REPLY_PLACEHOLDER :: ustr where
  "REPLY_PLACEHOLDER = u ''...''"

text \<open>With the default limit of 4096, which is more than the marker's length.\<close>

definition format_thought :: "ustr \<Rightarrow> ustr" where
  "format_thought thought =
     (if thought = [] then []
      else let full = THINKING_PREFIX @ 10 # thought
           in if length full \<le> 4096 then full
              else THINKING_CONTINUED @ 10 # last_n (4096 - length THINKING_CONTINUED - 1) thought)"

definition format_elapsed :: "real \<Rightarrow> ustr" where
  "format_elapsed seconds =
     (let n = trunc seconds; m = n div 60; s = n mod 60
      in if m \<noteq> 0 then str_of_int m @ u ''m '' @ str_of_int s @ u ''s'' else str_of_int s @ u ''s'')"

definition heartbeat_suffix :: "real \<Rightarrow> ustr" where
  "heartbeat_suffix elapsed = [10, 10] @ u ''(still working, '' @ format_elapsed elapsed @ u '')''"

definition build_heartbeat_text :: "ustr \<Rightarrow> real \<Rightarrow> ustr" where
  "build_heartbeat_text base elapsed =
     (let suffix = heartbeat_suffix elapsed; total = base @ suffix
      in if base = [] then (if length suffix > 4096 then drop 1 suffix else suffix)
         else if length total \<le> 4096 then total
         else if length suffix + 3 \<ge> 4096 then take 4096 total
         else take (4096 - length suffix - 3) base @ u ''...'' @ suffix)"

subsection \<open>The display\<close>

record display_config =
  dc_intermediate_messages :: bool
  dc_intermediate_idle :: secs
  dc_intermediate_min_chars :: nat
  dc_tool_progress :: bool

record display =
  sd_message_id :: "nat option"
  sd_thought_id :: "nat option"
  sd_last_text_sent :: ustr
  sd_last_thought :: ustr
  sd_last_thought_sent :: ustr
  sd_text :: ustr
  sd_display_text :: ustr
  sd_tail_text :: ustr
  sd_visible :: ustr
  sd_committed_text :: ustr
  sd_committed_display :: ustr
  sd_committed_message_id :: "nat option"
  sd_committed_last_chunk :: ustr
  sd_committed_raw_ok :: bool
  sd_final_sent_ids :: "nat list"
  sd_final_text :: ustr
  sd_final_last_bubble :: ustr
  sd_side_effect :: ustr
  sd_last_side_effect_seen :: ustr
  sd_last_growth_at :: secs
  sd_turn_start_at :: secs
  sd_last_edit_at :: secs

definition new_display :: "nat option \<Rightarrow> nat option \<Rightarrow> secs \<Rightarrow> display" where
  "new_display mid tid now =
     \<lparr>sd_message_id = mid, sd_thought_id = tid, sd_last_text_sent = [], sd_last_thought = [], sd_last_thought_sent = [],
      sd_text = [], sd_display_text = [], sd_tail_text = [], sd_visible = [], sd_committed_text = [],
      sd_committed_display = [], sd_committed_message_id = None, sd_committed_last_chunk = [], sd_committed_raw_ok = True,
      sd_final_sent_ids = [], sd_final_text = [], sd_final_last_bubble = [], sd_side_effect = [],
      sd_last_side_effect_seen = [], sd_last_growth_at = now, sd_turn_start_at = now, sd_last_edit_at = now\<rparr>"

definition idle_placeholder :: "display \<Rightarrow> ustr" where
  "idle_placeholder d = (if sd_side_effect d \<noteq> [] then [183, 32] @ sd_side_effect d else REPLY_PLACEHOLDER)"

definition uncommitted_tail :: "ustr \<Rightarrow> ustr \<Rightarrow> ustr" where
  "uncommitted_tail committed full =
     (if full = [] then []
      else if committed \<noteq> [] \<and> prefix committed full then drop (length committed) full
      else full)"

definition sentence_end :: "ustr \<Rightarrow> bool" where
  "sentence_end t \<longleftrightarrow> py_rstrip t \<noteq> [] \<and> last (py_rstrip t) \<in> set (u ''.!?'' @ [10])"

definition should_commit :: "display_config \<Rightarrow> ustr \<Rightarrow> secs \<Rightarrow> bool" where
  "should_commit cfg t idle \<longleftrightarrow> dc_intermediate_messages cfg \<and> \<not> idle < dc_intermediate_idle cfg
     \<and> \<not> length t < dc_intermediate_min_chars cfg \<and> sentence_end t"

definition next_wait :: "display_config \<Rightarrow> secs \<Rightarrow> display \<Rightarrow> secs" where
  "next_wait cfg now d =
     (let remaining = HEARTBEAT_INTERVAL - (now - sd_last_edit_at d);
          idle = now - sd_last_growth_at d;
          t = uncommitted_tail (sd_committed_display d) (sd_display_text d);
          until = (if should_commit cfg t idle then 0
                   else if dc_intermediate_messages cfg \<and> length t \<ge> dc_intermediate_min_chars cfg \<and> sentence_end t
                   then max 0 (dc_intermediate_idle cfg - idle)
                   else remaining)
      in min HEARTBEAT_INTERVAL (max (1 / 2) (min remaining until)))"

text \<open>One poll of \<open>/turn\<close>; absent texts are empty.\<close>

record turn_status =
  tu_running :: bool
  tu_message_text :: ustr
  tu_side_effect :: ustr
  tu_thought_text :: ustr

abbreviation drop_newlines :: "ustr \<Rightarrow> ustr" where
  "drop_newlines \<equiv> lstrip_by (\<lambda>c. c = 10)"

definition read_status :: "(ustr \<Rightarrow> ustr) \<Rightarrow> display_config \<Rightarrow> turn_status \<Rightarrow> display \<Rightarrow> display" where
  "read_status unask cfg st d =
     (if tu_running st
      then let disp = py_strip (unask (tu_message_text st));
               tl = uncommitted_tail (sd_committed_display d) disp
           in d\<lparr>sd_text := tu_message_text st, sd_display_text := disp, sd_tail_text := tl,
                sd_visible := drop_newlines (take 4096 tl),
                sd_side_effect := (if dc_tool_progress cfg then tu_side_effect st else sd_side_effect d)\<rparr>
      else d\<lparr>sd_text := [], sd_display_text := [], sd_tail_text := [], sd_visible := [], sd_side_effect := []\<rparr>)"

definition start_placeholder :: "(nat \<Rightarrow> bool) \<Rightarrow> display \<times> chat \<Rightarrow> display \<times> chat" where
  "start_placeholder ok dc = (case dc of (d, c) \<Rightarrow>
     if sd_message_id d = None \<and> sd_display_text d \<noteq> []
     then (case send_message ok REPLY_PLACEHOLDER c of
             (m, c1) \<Rightarrow> (d\<lparr>sd_message_id := m, sd_last_text_sent := REPLY_PLACEHOLDER\<rparr>, c1))
     else (d, c))"

text \<open>Freezing the placeholder as a message of its own.\<close>

definition commit_fields :: "display \<Rightarrow> display" where
  "commit_fields d =
     (let shown = take 4096 (sd_tail_text d);
          raw = sd_committed_raw_ok d \<and> length (sd_tail_text d) \<le> 4096
      in d\<lparr>sd_committed_display :=
             (if sd_committed_display d \<noteq> [] \<and> prefix (sd_committed_display d) (sd_display_text d)
              then sd_committed_display d @ shown else shown),
           sd_committed_text := (if raw then sd_text d else []),
           sd_committed_raw_ok := raw,
           sd_committed_message_id := sd_message_id d,
           sd_committed_last_chunk := shown,
           sd_last_text_sent := REPLY_PLACEHOLDER\<rparr>)"

text \<open>The result's flag: was something edited?\<close>

definition show_tail :: "(nat \<Rightarrow> bool) \<Rightarrow> display_config \<Rightarrow> secs \<Rightarrow> display \<times> chat \<Rightarrow> (display \<times> chat) \<times> bool" where
  "show_tail ok cfg now dc = (case dc of (d, c) \<Rightarrow>
     case sd_message_id d of
       None \<Rightarrow> ((d, c), False)
     | Some m \<Rightarrow>
         if sd_display_text d = [] \<or> sd_visible d = [] then ((d, c), False)
         else if sd_visible d \<noteq> sd_last_text_sent d
         then ((d\<lparr>sd_last_text_sent := sd_visible d, sd_last_growth_at := now\<rparr>, edit_message m (sd_visible d) c), True)
         else if should_commit cfg (sd_tail_text d) (now - sd_last_growth_at d)
         then (case send_message ok REPLY_PLACEHOLDER c of
                 (m', c1) \<Rightarrow> (((commit_fields d)\<lparr>sd_last_growth_at := now, sd_message_id := m'\<rparr>, c1), True))
         else ((d, c), False))"

definition show_side_effect :: "display \<times> chat \<Rightarrow> (display \<times> chat) \<times> bool" where
  "show_side_effect dc = (case dc of (d, c) \<Rightarrow>
     case sd_message_id d of
       None \<Rightarrow> ((d, c), False)
     | Some m \<Rightarrow>
         if sd_visible d = [] \<and> sd_side_effect d \<noteq> sd_last_side_effect_seen d
         then ((d\<lparr>sd_last_text_sent := idle_placeholder d\<rparr>, edit_message m (idle_placeholder d) c), True)
         else ((d, c), False))"

definition show_thought :: "turn_status \<Rightarrow> display \<times> chat \<Rightarrow> (display \<times> chat) \<times> bool" where
  "show_thought st dc = (case dc of (d, c) \<Rightarrow>
     case sd_thought_id d of
       None \<Rightarrow> ((d, c), False)
     | Some t \<Rightarrow>
         if tu_thought_text st = [] then ((d, c), False)
         else let v = format_thought (tu_thought_text st); d1 = d\<lparr>sd_last_thought := tu_thought_text st\<rparr>
              in if v \<noteq> [] \<and> v \<noteq> sd_last_thought_sent d
                 then ((d1\<lparr>sd_last_thought_sent := v\<rparr>, edit_message t v c), True)
                 else ((d1, c), False))"

definition beat_reply :: "secs \<Rightarrow> display \<times> chat \<Rightarrow> display \<times> chat" where
  "beat_reply now dc = (case dc of (d, c) \<Rightarrow>
     case sd_message_id d of
       None \<Rightarrow> (d, c)
     | Some m \<Rightarrow>
         let v = drop_newlines (take 4096 (sd_tail_text d));
             h = build_heartbeat_text (if v \<noteq> [] then v else idle_placeholder d) (now - sd_turn_start_at d)
         in if h \<noteq> sd_last_text_sent d then (d\<lparr>sd_last_text_sent := h\<rparr>, edit_message m h c) else (d, c))"

definition beat_thought :: "secs \<Rightarrow> display \<times> chat \<Rightarrow> display \<times> chat" where
  "beat_thought now dc = (case dc of (d, c) \<Rightarrow>
     case sd_thought_id d of
       None \<Rightarrow> (d, c)
     | Some t \<Rightarrow>
         let h = build_heartbeat_text (if sd_last_thought d \<noteq> [] then format_thought (sd_last_thought d) else THINKING_PREFIX)
                   (now - sd_turn_start_at d)
         in if h \<noteq> sd_last_thought_sent d then (d\<lparr>sd_last_thought_sent := h\<rparr>, edit_message t h c) else (d, c))"

definition update :: "(nat \<Rightarrow> bool) \<Rightarrow> (ustr \<Rightarrow> ustr) \<Rightarrow> display_config \<Rightarrow> secs \<Rightarrow> turn_status \<Rightarrow> display \<times> chat \<Rightarrow> display \<times> chat" where
  "update ok unask cfg now st dc =
     (let dc1 = start_placeholder ok (read_status unask cfg st (fst dc), snd dc);
          (dc2, e1) = show_tail ok cfg now dc1;
          (dc3, e2) = show_side_effect dc2;
          (dc4, e3) = show_thought st dc3;
          dc5 = (if e1 \<or> e2 \<or> e3 then ((fst dc4)\<lparr>sd_last_edit_at := now\<rparr>, snd dc4)
                 else if now - sd_last_edit_at (fst dc4) \<ge> HEARTBEAT_INTERVAL
                 then (case beat_thought now (beat_reply now dc4) of (d, c) \<Rightarrow> (d\<lparr>sd_last_edit_at := now\<rparr>, c))
                 else dc4)
      in ((fst dc5)\<lparr>sd_last_side_effect_seen := sd_side_effect (fst dc5)\<rparr>, snd dc5))"

subsection \<open>The end of the turn\<close>

record turn_result =
  rs_reply :: ustr
  rs_notice :: "ustr option"
  rs_session_number :: "int option"
  rs_turn_number :: "int option"
  rs_continuation :: bool

text \<open>How waiting for the result ended; \<open>err\<close> is the failure line (\<open>_error_reply\<close>) of an exception.\<close>

datatype awaited = Result turn_result | Wait_timed_out | Wait_raised ustr

definition STOP_NOTICE :: ustr where
  "STOP_NOTICE = u ''Turn stopped by user; the harness did not return a final reply.''"

definition await_result :: "awaited \<Rightarrow> display \<Rightarrow> turn_result" where
  "await_result a d =
     (case a of
        Result r \<Rightarrow> r
      | Wait_timed_out \<Rightarrow>
          \<lparr>rs_reply = (if sd_display_text d \<noteq> [] then sd_display_text d else sd_text d), rs_notice = Some STOP_NOTICE,
           rs_session_number = None, rs_turn_number = None, rs_continuation = False\<rparr>
      | Wait_raised err \<Rightarrow>
          \<lparr>rs_reply = err, rs_notice = None, rs_session_number = None, rs_turn_number = None, rs_continuation = False\<rparr>)"

definition register_and_notice ::
  "(nat \<Rightarrow> bool) \<Rightarrow> (ustr \<Rightarrow> ustr list) \<Rightarrow> turn_result \<Rightarrow> nat list \<Rightarrow> ustr \<Rightarrow> chat \<Rightarrow> chat" where
  "register_and_notice ok parts r sent reply c =
     (let c1 = (case (rs_session_number r, rs_turn_number r) of
                  (Some s, Some t) \<Rightarrow> if sent \<noteq> [] then c\<lparr>ch_registered := ch_registered c @ [(sent, s, t, reply)]\<rparr> else c
                | _ \<Rightarrow> c)
      in case rs_notice r of
           None \<Rightarrow> c1
         | Some n \<Rightarrow> if n = [] then c1 else snd (send_text ok parts False (u ''System: '' @ n) None c1))"

definition delete_opt :: "nat option \<Rightarrow> chat \<Rightarrow> chat" where
  "delete_opt i c = (case i of None \<Rightarrow> c | Some m \<Rightarrow> delete_message m c)"

definition last_bubble :: "ustr \<Rightarrow> (nat \<times> ustr) list \<Rightarrow> ustr" where
  "last_bubble d sent = (if sent = [] then d else snd (last sent))"

definition finalize_with_thought ::
  "(nat \<Rightarrow> bool) \<Rightarrow> (ustr \<Rightarrow> ustr) \<Rightarrow> (ustr \<Rightarrow> ustr list) \<Rightarrow> bool \<Rightarrow> ustr \<Rightarrow> ustr \<Rightarrow> turn_result \<Rightarrow> display \<times> chat \<Rightarrow> display \<times> chat" where
  "finalize_with_thought ok unask parts inplace thought reply r dc = (case dc of (d, c) \<Rightarrow>
     let c1 = delete_opt (sd_committed_message_id d) (delete_opt (sd_message_id d) (delete_opt (sd_thought_id d) c));
         d1 = d\<lparr>sd_thought_id := None, sd_message_id := None, sd_committed_message_id := None\<rparr>;
         d2 = (if sd_committed_message_id d \<noteq> None then d1\<lparr>sd_committed_text := [], sd_committed_display := []\<rparr> else d1);
         c2 = snd (send_text ok parts inplace (THINKING_PREFIX @ 10 # thought) None c1);
         (sent, c3) = (if py_strip reply \<noteq> [] then send_text ok parts inplace reply None c2 else ([], c2))
     in (d2\<lparr>sd_final_sent_ids := map fst sent,
            sd_final_text := (if reply \<noteq> [] then py_strip (unask reply) else []),
            sd_final_last_bubble := last_bubble [] sent\<rparr>,
         register_and_notice ok parts r (map fst sent) reply c3))"

text \<open>What is still to be sent: the reply less what was committed, matched on the raw or on the shown text.\<close>

definition remaining_reply :: "(ustr \<Rightarrow> ustr) \<Rightarrow> display \<Rightarrow> ustr \<Rightarrow> ustr" where
  "remaining_reply unask d reply =
     (let disp = py_strip (unask reply)
      in if sd_committed_text d \<noteq> [] \<and> prefix (sd_committed_text d) reply
         then drop_newlines (drop (length (sd_committed_text d)) reply)
         else if sd_committed_display d \<noteq> [] \<and> prefix (sd_committed_display d) disp
         then drop_newlines (drop (length (sd_committed_display d)) disp)
         else reply)"

definition finalize_placeholder ::
  "(nat \<Rightarrow> bool) \<Rightarrow> (ustr \<Rightarrow> ustr) \<Rightarrow> (ustr \<Rightarrow> ustr list) \<Rightarrow> bool \<Rightarrow> ustr \<Rightarrow> turn_result \<Rightarrow> display \<times> chat \<Rightarrow> display \<times> chat" where
  "finalize_placeholder ok unask parts inplace reply0 r dc = (case dc of (d, c) \<Rightarrow>
     let c1 = delete_opt (sd_thought_id d) c;
         (m, c2) = (case sd_message_id d of
                      None \<Rightarrow> send_message ok REPLY_PLACEHOLDER c1
                    | Some m \<Rightarrow> (Some m, c1));
         reply = remaining_reply unask d reply0;
         (sent, c3) = (if py_strip reply = [] then ([], delete_opt m c2) else send_text ok parts inplace reply m c2)
     in (d\<lparr>sd_thought_id := None, sd_message_id := m, sd_final_sent_ids := map fst sent,
           sd_final_text := py_strip (unask reply0), sd_final_last_bubble := last_bubble (sd_committed_last_chunk d) sent\<rparr>,
         register_and_notice ok parts r (map fst sent) reply c3))"

definition finalize ::
  "(nat \<Rightarrow> bool) \<Rightarrow> (ustr \<Rightarrow> ustr) \<Rightarrow> (ustr \<Rightarrow> ustr list) \<Rightarrow> bool \<Rightarrow> turn_result \<Rightarrow> display \<times> chat \<Rightarrow> display \<times> chat" where
  "finalize ok unask parts inplace r dc = (case dc of (d, c) \<Rightarrow>
     if rs_continuation r
     then (d, if sd_committed_message_id d \<noteq> None \<and> sd_committed_message_id d \<noteq> sd_message_id d
              then delete_opt (sd_committed_message_id d) c else c)
     else
       let thought = (if sd_thought_id d \<noteq> None then sd_last_thought d else [])
       in if thought \<noteq> [] then finalize_with_thought ok unask parts inplace thought (rs_reply r) r (d, c)
          else finalize_placeholder ok unask parts inplace (rs_reply r) r (d, c))"

subsection \<open>Every character of the reply is shown once\<close>

definition nonblank :: "ustr \<Rightarrow> ustr" where
  "nonblank s = filter (\<lambda>c. \<not> py_isspace c) s"

lemma nonblank_append [simp]: "nonblank (s @ t) = nonblank s @ nonblank t"
  by (simp add: nonblank_def)

lemma nonblank_lstrip: "(\<And>c. P c \<Longrightarrow> py_isspace c) \<Longrightarrow> nonblank (lstrip_by P s) = nonblank s"
  unfolding nonblank_def lstrip_by_def by (induction s) auto

lemma nonblank_strip: "nonblank (py_strip s) = nonblank s"
proof -
  have "filter Q (rev (dropWhile P (rev t))) = filter Q t" if "\<And>c. P c \<Longrightarrow> \<not> Q c" for P Q and t :: ustr
    using that by (induction t rule: rev_induct) auto
  from this [of py_isspace "\<lambda>c. \<not> py_isspace c"]
  have "nonblank (py_rstrip t) = nonblank t" for t by (simp add: nonblank_def rstrip_by_def)
  with nonblank_lstrip [of py_isspace s] show ?thesis by (simp add: strip_by_def)
qed

lemma nonblank_newlines: "nonblank (drop_newlines s) = nonblank s"
  by (rule nonblank_lstrip) (simp add: py_isspace_def)

lemma py_strip_Nil_iff: "py_strip s = [] \<longleftrightarrow> nonblank s = []"
proof
  assume "nonblank s = []"
  then have "\<forall>c \<in> set s. py_isspace c" by (simp add: nonblank_def filter_empty_conv)
  then show "py_strip s = []"
    by (auto simp: strip_by_def lstrip_by_def rstrip_by_def dropWhile_eq_Nil_conv dest: set_dropWhileD)
qed (metis nonblank_strip nonblank_def filter.simps(1))

lemma dropWhile_append_ne: "dropWhile P s \<noteq> [] \<Longrightarrow> dropWhile P (s @ t) = dropWhile P s @ t"
  by (metis dropWhile_append dropWhile_eq_Nil_conv)

lemma py_strip_mono: "prefix s t \<Longrightarrow> prefix (py_strip s) (py_strip t)"
proof -
  assume "prefix s t"
  then obtain x where t: "t = s @ x" by (auto simp: prefix_def)
  show ?thesis
  proof (cases "py_strip s = []")
    case False
    let ?l = "dropWhile py_isspace s"
    have l: "?l \<noteq> []"
    proof
      assume "?l = []"
      then have "py_strip s = []" unfolding strip_by_def lstrip_by_def rstrip_by_def by (simp only: rev.simps dropWhile.simps)
      with False show False ..
    qed
    then have lt: "dropWhile py_isspace t = ?l @ x" unfolding t by (rule dropWhile_append_ne)
    show ?thesis
    proof (cases "nonblank x = []")
      case True
      then have b: "\<forall>c \<in> set (rev x). py_isspace c" by (simp add: nonblank_def filter_empty_conv)
      have "py_rstrip (?l @ x) = py_rstrip ?l" unfolding rstrip_by_def rev_append using b by (subst dropWhile_append2) auto
      then show ?thesis using lt by (simp add: strip_by_def lstrip_by_def)
    next
      case False
      then have "dropWhile py_isspace (rev x) \<noteq> []" by (auto simp: nonblank_def filter_empty_conv dropWhile_eq_Nil_conv)
      then have "py_rstrip (?l @ x) = ?l @ py_rstrip x" by (simp add: rstrip_by_def dropWhile_append_ne)
      moreover have "prefix (py_rstrip ?l) ?l" by (rule rstrip_by_prefix)
      ultimately show ?thesis using lt by (simp add: strip_by_def lstrip_by_def prefix_order.trans)
    qed
  qed simp
qed

text \<open>
  The state of the display and the chat: \<open>pre\<close> are the messages before the turn, \<open>ps\<close> the pieces of the
  text that were committed, \<open>raw\<close> and \<open>disp\<close> the latest text as streamed and as displayed.
\<close>

fun placeholder :: "nat option \<Rightarrow> ustr \<Rightarrow> (nat \<times> ustr) list" where
  "placeholder None x = []"
| "placeholder (Some m) x = [(m, x)]"

definition displays :: "ustr list \<Rightarrow> ustr list \<Rightarrow> ustr \<Rightarrow> ustr \<Rightarrow> display \<times> chat \<Rightarrow> bool" where
  "displays pre ps raw disp dc = (case dc of (d, c) \<Rightarrow>
     sd_thought_id d = None \<and> sd_committed_display d = concat ps \<and> prefix (concat ps) disp
     \<and> (sd_committed_text d = [] \<or> prefix (sd_committed_text d) raw \<and> nonblank (sd_committed_text d) = nonblank (concat ps))
     \<and> (\<exists>ms. ch_messages c = ms @ placeholder (sd_message_id d) (sd_last_text_sent d)
          \<and> map snd ms = pre @ map drop_newlines ps \<and> (\<forall>k \<in> fst ` set ms. k < ch_next c)
          \<and> (\<forall>m. sd_message_id d = Some m \<longrightarrow> m < ch_next c \<and> m \<notin> fst ` set ms)))"

text \<open>After the status was read, the tail and what is visible of it follow from the text.\<close>

definition status_read :: "ustr list \<Rightarrow> ustr \<Rightarrow> ustr \<Rightarrow> display \<Rightarrow> bool" where
  "status_read ps raw disp d \<longleftrightarrow> sd_text d = raw \<and> sd_display_text d = disp \<and> disp = py_strip raw
     \<and> sd_tail_text d = drop (length (concat ps)) disp \<and> sd_visible d = drop_newlines (take 4096 (sd_tail_text d))"

lemma edit_last: "m \<notin> fst ` set ms \<Longrightarrow> ch_messages (edit_message m x (c\<lparr>ch_messages := ms @ [(m, y)]\<rparr>)) = ms @ [(m, x)]"
proof -
  assume "m \<notin> fst ` set ms"
  then have "map (\<lambda>(k, v). (k, if k = m then x else v)) ms = ms" by (intro map_idI) (force simp: image_iff)
  then show ?thesis by (simp add: edit_message_def)
qed

lemma displays_edit:
  assumes "displays pre ps raw disp (d, c)" and "sd_message_id d = Some m"
  shows "displays pre ps raw disp (d\<lparr>sd_last_text_sent := x\<rparr>, edit_message m x c)"
proof -
  from assms obtain ms where ms: "ch_messages c = ms @ [(m, sd_last_text_sent d)]" "m \<notin> fst ` set ms" by (auto simp: displays_def)
  then have "c = c\<lparr>ch_messages := ms @ [(m, sd_last_text_sent d)]\<rparr>" by simp
  then have "ch_messages (edit_message m x c) = ms @ [(m, x)]" using edit_last [OF ms(2), where x = x and c = c and y = "sd_last_text_sent d"] by simp
  moreover have "ch_next (edit_message m x c) = ch_next c" by (simp add: edit_message_def)
  ultimately show ?thesis using assms ms by (auto simp: displays_def)
qed

lemma displays_other:
  "sd_thought_id d' = sd_thought_id d \<Longrightarrow> sd_committed_display d' = sd_committed_display d \<Longrightarrow>
   sd_committed_text d' = sd_committed_text d \<Longrightarrow> sd_message_id d' = sd_message_id d \<Longrightarrow>
   sd_last_text_sent d' = sd_last_text_sent d \<Longrightarrow> displays pre ps raw disp (d', c) \<longleftrightarrow> displays pre ps raw disp (d, c)"
  by (simp add: displays_def)

lemma read_status_displays:
  assumes "displays pre ps raw disp (d, c)" and "prefix raw (tu_message_text st)" and "tu_running st"
    and "disp = py_strip raw" and "unask (tu_message_text st) = tu_message_text st"
  shows "displays pre ps (tu_message_text st) (py_strip (tu_message_text st)) (read_status unask cfg st d, c)
    \<and> status_read ps (tu_message_text st) (py_strip (tu_message_text st)) (read_status unask cfg st d)"
proof -
  let ?t = "tu_message_text st"
  have pd: "prefix disp (py_strip ?t)" using py_strip_mono [OF assms(2)] assms(4) by simp
  from assms(1) have cp: "prefix (concat ps) (py_strip ?t)" "sd_committed_display d = concat ps"
    using pd by (auto simp: displays_def intro: prefix_order.trans)
  have "uncommitted_tail (sd_committed_display d) (py_strip ?t) = drop (length (concat ps)) (py_strip ?t)"
    using cp by (cases "concat ps = []") (auto simp: uncommitted_tail_def simp del: concat_eq_Nil_conv)
  moreover have "displays pre ps ?t (py_strip ?t) (d, c)"
    using assms(1,2) cp(1) by (auto simp: displays_def intro: prefix_order.trans)
  ultimately show ?thesis using assms(3,5) by (auto simp: read_status_def status_read_def Let_def displays_def)
qed

lemma start_placeholder_displays:
  assumes "displays pre ps raw disp (d, c)" and "status_read ps raw disp d" and "\<forall>n. ok n"
  shows "displays pre ps raw disp (start_placeholder ok (d, c)) \<and> status_read ps raw disp (fst (start_placeholder ok (d, c)))"
proof (cases "sd_message_id d = None \<and> sd_display_text d \<noteq> []")
  case True
  with assms show ?thesis
    by (fastforce simp: start_placeholder_def send_message_def Let_def displays_def status_read_def)
qed (use assms in \<open>auto simp: start_placeholder_def\<close>)

lemma show_tail_displays:
  assumes "displays pre ps raw disp (d, c)" and "status_read ps raw disp d" and "\<forall>n. ok n"
  shows "\<exists>ps'. displays pre ps' raw disp (fst (show_tail ok cfg now (d, c)))"
proof (cases "sd_message_id d")
  case (Some m)
  consider (blank) "sd_display_text d = [] \<or> sd_visible d = []"
    | (edit) "\<not> (sd_display_text d = [] \<or> sd_visible d = [])" "sd_visible d \<noteq> sd_last_text_sent d"
    | (commit) "\<not> (sd_display_text d = [] \<or> sd_visible d = [])" "sd_visible d = sd_last_text_sent d"
        "should_commit cfg (sd_tail_text d) (now - sd_last_growth_at d)"
    | (idle) "\<not> (sd_display_text d = [] \<or> sd_visible d = [])" "sd_visible d = sd_last_text_sent d"
        "\<not> should_commit cfg (sd_tail_text d) (now - sd_last_growth_at d)" by blast
  then show ?thesis
  proof cases
    case edit
    have "displays pre ps raw disp (d\<lparr>sd_last_text_sent := sd_visible d\<rparr>, edit_message m (sd_visible d) c)"
      by (rule displays_edit [OF assms(1) Some])
    then have "displays pre ps raw disp (d\<lparr>sd_last_text_sent := sd_visible d, sd_last_growth_at := now\<rparr>, edit_message m (sd_visible d) c)"
      by (simp add: displays_def Some)
    with edit Some show ?thesis by (auto simp: show_tail_def)
  next
    case commit
    let ?shown = "take 4096 (sd_tail_text d)"
    from assms(1) Some obtain ms where ms: "ch_messages c = ms @ [(m, sd_last_text_sent d)]"
      "map snd ms = pre @ map drop_newlines ps" "\<forall>k \<in> fst ` set ms. k < ch_next c" "m < ch_next c"
      "sd_committed_display d = concat ps" "prefix (concat ps) disp" "sd_thought_id d = None" by (auto simp: displays_def)
    from assms(2) have st: "sd_tail_text d = drop (length (concat ps)) disp" "sd_text d = raw" "disp = py_strip raw"
      "sd_visible d = drop_newlines ?shown" "sd_display_text d = disp" by (simp_all add: status_read_def)
    from ms(6) obtain z where z: "disp = concat ps @ z" by (auto simp: prefix_def)
    then have t: "sd_tail_text d = z" using st(1) by simp
    have cd: "sd_committed_display (commit_fields d) = concat (ps @ [?shown])"
      using ms(5,6) st(5) by (auto simp: commit_fields_def Let_def)
    moreover have "prefix (concat (ps @ [?shown])) disp" using z t by (simp add: take_is_prefix)
    moreover have "sd_committed_text (commit_fields d) = [] \<or>
        prefix (sd_committed_text (commit_fields d)) raw \<and> nonblank (sd_committed_text (commit_fields d)) = nonblank (concat (ps @ [?shown]))"
    proof (cases "sd_committed_raw_ok d \<and> length (sd_tail_text d) \<le> 4096")
      case True
      then have "concat (ps @ [?shown]) = py_strip raw" using z t st(3) by simp
      with True st(2) show ?thesis by (simp add: commit_fields_def Let_def nonblank_strip)
    qed (auto simp: commit_fields_def Let_def)
    ultimately have "displays pre (ps @ [?shown]) raw disp ((commit_fields d)\<lparr>sd_last_growth_at := now, sd_message_id := Some (ch_next c)\<rparr>,
        snd (send_message ok REPLY_PLACEHOLDER c))"
      using ms assms(3) commit(2) st(4)
      by (auto simp: displays_def send_message_def Let_def commit_fields_def less_SucI)
    moreover have "send_message ok REPLY_PLACEHOLDER c = (Some (ch_next c), snd (send_message ok REPLY_PLACEHOLDER c))"
      using assms(3) by (simp add: send_message_def Let_def)
    ultimately show ?thesis using commit Some by (auto simp: show_tail_def split: prod.split)
  qed (use assms Some in \<open>auto simp: show_tail_def\<close>)
qed (use assms in \<open>auto simp: show_tail_def\<close>)

lemma show_side_effect_displays: "displays pre ps raw disp dc \<Longrightarrow> displays pre ps raw disp (fst (show_side_effect dc))"
  by (cases dc) (auto simp: show_side_effect_def intro: displays_edit split: option.split)

lemma show_thought_displays: "displays pre ps raw disp dc \<Longrightarrow> displays pre ps raw disp (fst (show_thought st dc))"
  by (cases dc) (auto simp: show_thought_def displays_def)

lemma beat_displays: "displays pre ps raw disp dc \<Longrightarrow> displays pre ps raw disp (beat_thought now (beat_reply now dc))"
proof -
  assume d: "displays pre ps raw disp dc"
  then have "displays pre ps raw disp (beat_reply now dc)"
    by (cases dc) (auto simp: beat_reply_def Let_def intro: displays_edit split: option.split)
  then show ?thesis by (cases "beat_reply now dc") (auto simp: beat_thought_def displays_def)
qed

lemma update_displays:
  assumes "displays pre ps raw disp (d, c)" and "prefix raw (tu_message_text st)" and "tu_running st"
    and "disp = py_strip raw" and "unask (tu_message_text st) = tu_message_text st" and "\<forall>n. ok n"
  shows "\<exists>ps'. displays pre ps' (tu_message_text st) (py_strip (tu_message_text st)) (update ok unask cfg now st (d, c))"
proof -
  let ?raw = "tu_message_text st" and ?disp = "py_strip (tu_message_text st)"
  define dc1 where "dc1 = start_placeholder ok (read_status unask cfg st d, c)"
  define dc2 where "dc2 = show_tail ok cfg now dc1"
  define dc3 where "dc3 = show_side_effect (fst dc2)"
  define dc4 where "dc4 = show_thought st (fst dc3)"
  note r = read_status_displays [where cfg = cfg and unask = unask, OF assms(1,2,3,4,5)]
  obtain d1 c1 where 1: "dc1 = (d1, c1)" by force
  from start_placeholder_displays [of pre ps ?raw ?disp "read_status unask cfg st d" c ok] r assms(6)
  have d1: "displays pre ps ?raw ?disp (d1, c1)" "status_read ps ?raw ?disp d1" using 1 by (simp_all add: dc1_def)
  then obtain ps' where p: "displays pre ps' ?raw ?disp (fst dc2)"
    using show_tail_displays [OF d1 assms(6), where cfg = cfg and now = now] unfolding dc2_def 1 by blast
  have p4: "displays pre ps' ?raw ?disp (fst dc4)"
    unfolding dc4_def dc3_def by (intro show_thought_displays show_side_effect_displays p)
  have o: "displays pre ps' ?raw ?disp dc \<Longrightarrow> displays pre ps' ?raw ?disp ((fst dc)\<lparr>sd_last_edit_at := x\<rparr>, snd dc)
      \<and> displays pre ps' ?raw ?disp ((fst dc)\<lparr>sd_last_side_effect_seen := y\<rparr>, snd dc)" for dc x y
    by (simp add: displays_def case_prod_unfold)
  define dc5 where "dc5 = (if snd dc2 \<or> snd dc3 \<or> snd dc4 then ((fst (fst dc4))\<lparr>sd_last_edit_at := now\<rparr>, snd (fst dc4))
                 else if now - sd_last_edit_at (fst (fst dc4)) \<ge> HEARTBEAT_INTERVAL
                 then (case beat_thought now (beat_reply now (fst dc4)) of (d, c) \<Rightarrow> (d\<lparr>sd_last_edit_at := now\<rparr>, c))
                 else fst dc4)"
  have "update ok unask cfg now st (d, c) = ((fst dc5)\<lparr>sd_last_side_effect_seen := sd_side_effect (fst dc5)\<rparr>, snd dc5)"
    unfolding update_def fst_conv snd_conv dc1_def [symmetric] Let_def dc5_def
    by (simp add: case_prod_unfold dc2_def [symmetric] dc3_def [symmetric] dc4_def [symmetric])
  moreover have "displays pre ps' ?raw ?disp dc5"
    using o [OF p4] o [OF beat_displays [OF p4]] p4 by (simp add: dc5_def case_prod_unfold)
  ultimately show ?thesis using o [of dc5] by metis
qed

text \<open>A turn's polls, each with its time.\<close>

fun updates ::
  "(nat \<Rightarrow> bool) \<Rightarrow> (ustr \<Rightarrow> ustr) \<Rightarrow> display_config \<Rightarrow> (secs \<times> turn_status) list \<Rightarrow> display \<times> chat \<Rightarrow> display \<times> chat" where
  "updates ok unask cfg [] dc = dc"
| "updates ok unask cfg ((now, st) # ps) dc = updates ok unask cfg ps (update ok unask cfg now st dc)"

text \<open>The texts grow: each extends the one before.\<close>

fun growing :: "ustr \<Rightarrow> ustr list \<Rightarrow> bool" where
  "growing x [] = True"
| "growing x (y # ys) \<longleftrightarrow> prefix x y \<and> growing y ys"

lemma updates_displays:
  assumes "\<forall>n. ok n"
  shows "displays pre ps raw (py_strip raw) dc \<Longrightarrow> growing raw (map (\<lambda>(t, st). tu_message_text st) polls @ [reply]) \<Longrightarrow>
   list_all (\<lambda>(t, st). tu_running st \<and> unask (tu_message_text st) = tu_message_text st) polls \<Longrightarrow>
   \<exists>ps' raw'. displays pre ps' raw' (py_strip raw') (updates ok unask cfg polls dc) \<and> prefix raw' reply"
proof (induction polls arbitrary: ps raw dc)
  case (Cons p polls)
  obtain now st d c where p: "p = (now, st)" "dc = (d, c)" by force
  from Cons.prems p update_displays [of pre ps raw "py_strip raw" d c st unask ok cfg now] assms
  obtain ps' where "displays pre ps' (tu_message_text st) (py_strip (tu_message_text st)) (update ok unask cfg now st (d, c))"
    by auto
  from Cons.IH [OF this] Cons.prems p show ?case by simp
qed auto

lemma send_all_messages: "\<forall>n. ok n \<Longrightarrow> map snd (ch_messages (snd (send_all ok xs c))) = map snd (ch_messages c) @ xs"
proof (induction xs arbitrary: c)
  case (Cons x xs)
  then show ?case using Cons.IH [of "snd (send_message ok x c)"]
    by (simp add: send_message_def Let_def case_prod_unfold)
qed simp

lemma finalize_placeholder_messages:
  assumes "displays pre ps raw (py_strip raw) (d, c)" and "prefix raw reply" and "unask reply = reply"
    and "\<forall>n. ok n" and "rs_notice r = None" and "\<forall>x. py_strip x \<noteq> [] \<longrightarrow> parts x \<noteq> []"
  shows "\<exists>rest. map snd (ch_messages (snd (finalize_placeholder ok unask parts inplace reply r (d, c))))
      = pre @ map drop_newlines ps @ (if py_strip rest = [] then [] else parts rest)
     \<and> nonblank (concat ps @ rest) = nonblank reply"
proof -
  let ?rest = "remaining_reply unask d reply"
  from assms(1) have s: "sd_thought_id d = None" "sd_committed_display d = concat ps" "prefix (concat ps) (py_strip raw)"
    "sd_committed_text d = [] \<or> prefix (sd_committed_text d) raw \<and> nonblank (sd_committed_text d) = nonblank (concat ps)"
    by (auto simp: displays_def)
  have nb: "nonblank (concat ps @ ?rest) = nonblank reply"
  proof (cases "sd_committed_text d \<noteq> [] \<and> prefix (sd_committed_text d) reply")
    case True
    then obtain z where z: "reply = sd_committed_text d @ z" by (auto simp: prefix_def)
    with True s(4) show ?thesis by (simp add: remaining_reply_def Let_def nonblank_newlines)
  next
    case False
    have "prefix (concat ps) (py_strip reply)" using s(3) py_strip_mono [OF assms(2)] by (rule prefix_order.trans)
    then obtain z where z: "py_strip reply = concat ps @ z" by (auto simp: prefix_def)
    have "?rest = (if concat ps \<noteq> [] then drop_newlines z else reply)"
      using False s(2) assms(3) z unfolding remaining_reply_def Let_def by (simp only: if_False) simp
    moreover have "nonblank (concat ps @ z) = nonblank reply" unfolding z [symmetric] by (rule nonblank_strip)
    ultimately show ?thesis by (cases "concat ps = []") (simp_all add: nonblank_newlines del: concat_eq_Nil_conv)
  qed
  obtain ms m c2 where ms: "map snd ms = pre @ map drop_newlines ps" "m \<notin> fst ` set ms"
    "(case sd_message_id d of None \<Rightarrow> send_message ok REPLY_PLACEHOLDER c | Some m \<Rightarrow> (Some m, c)) = (Some m, c2)"
    "\<exists>x. ch_messages c2 = ms @ [(m, x)]"
    using assms(1,4)
    by (cases "sd_message_id d") (fastforce simp: displays_def send_message_def Let_def)+
  from ms(4) obtain x where x: "ch_messages c2 = ms @ [(m, x)]" ..
  have del: "ch_messages (delete_message m c2) = ms"
    using x ms(2) by (force simp: delete_message_def filter_id_conv image_iff)
  have snd_ed: "ch_messages (edit_message m y c2) = ms @ [(m, y)]" for y
    using edit_last [OF ms(2), where x = y and c = c2 and y = x] x by (metis chat.surjective chat.update_convs(3))
  have "map snd (ch_messages (snd (if py_strip ?rest = [] then ([], delete_opt (Some m) c2) else send_text ok parts inplace ?rest (Some m) c2)))
      = pre @ map drop_newlines ps @ (if py_strip ?rest = [] then [] else parts ?rest)"
  proof (cases "py_strip ?rest = []")
    case True
    then show ?thesis using del ms(1) by (simp add: delete_opt_def)
  next
    case False
    then have r: "?rest \<noteq> []" by (auto simp: strip_by_def lstrip_by_def rstrip_by_def)
    from assms(6) False obtain y ys where y: "parts ?rest = y # ys" by (cases "parts ?rest") auto
    have sa: "map snd (ch_messages (snd (send_all ok xs e))) = map snd (ch_messages e) @ xs" for xs e
      by (rule send_all_messages) (rule assms(4))
    show ?thesis using False r y del ms(1) snd_ed sa
      by (cases inplace) (simp_all add: send_text_def case_prod_unfold del: send_all.simps(2))
  qed
  moreover have "ch_messages (register_and_notice ok parts r sent reply c) = ch_messages c" for sent reply c
    using assms(5) by (simp add: register_and_notice_def Let_def split: option.split)
  ultimately have "map snd (ch_messages (snd (finalize_placeholder ok unask parts inplace reply r (d, c))))
      = pre @ map drop_newlines ps @ (if py_strip ?rest = [] then [] else parts ?rest)"
    using ms(3) s(1) unfolding finalize_placeholder_def prod.case Let_def s(1) delete_opt_def option.case ms(3)
    by (simp add: case_prod_unfold delete_opt_def)
  with nb show ?thesis by blast
qed


definition sample_config :: display_config where
  "sample_config = \<lparr>dc_intermediate_messages = True, dc_intermediate_idle = 10, dc_intermediate_min_chars = 3, dc_tool_progress = True\<rparr>"

definition poll :: "ustr \<Rightarrow> ustr \<Rightarrow> turn_status" where
  "poll x th = \<lparr>tu_running = True, tu_message_text = x, tu_side_effect = [], tu_thought_text = th\<rparr>"

definition sample_polls :: "(secs \<times> turn_status) list" where
  "sample_polls = [(1, poll (u ''One.'') []), (20, poll (u ''One.'') []), (21, poll (u ''One.Two.'') [])]"

definition sample_result :: turn_result where
  "sample_result = \<lparr>rs_reply = u ''One.Two.End'', rs_notice = None, rs_session_number = Some 1, rs_turn_number = Some 2, rs_continuation = False\<rparr>"

definition empty_chat :: chat where
  "empty_chat = \<lparr>ch_next = 1, ch_attempts = 0, ch_messages = [], ch_registered = []\<rparr>"


text \<open>
  With a thought stream only the message committed last is taken back with the two placeholders: pieces
  committed before it stay in the chat, and the whole reply is sent again below the thought.
\<close>

lemma thought_stream_keeps_earlier_commits:
  assumes "\<forall>n. ok n" and "rs_notice r = None" and "py_strip reply \<noteq> []"
  shows "map snd (ch_messages (snd (finalize_with_thought ok unask parts inplace thought reply r (d, c))))
     = map snd (filter (\<lambda>p. Some (fst p) \<notin> {sd_thought_id d, sd_message_id d, sd_committed_message_id d}) (ch_messages c))
       @ parts (THINKING_PREFIX @ 10 # thought) @ parts reply"
proof -
  have del: "ch_messages (delete_opt i e) = filter (\<lambda>p. Some (fst p) \<noteq> i) (ch_messages e)" for i e
    by (simp add: delete_opt_def delete_message_def split: option.split)
  have send: "x \<noteq> [] \<Longrightarrow> map snd (ch_messages (snd (send_text ok parts inplace x None e))) = map snd (ch_messages e) @ parts x" for x e
    by (simp add: send_text_def send_all_messages [OF assms(1)])
  have keep: "ch_messages (register_and_notice ok parts r s x e) = ch_messages e" for s x e
    using assms(2) by (simp add: register_and_notice_def Let_def split: option.split)
  have "reply \<noteq> []" using assms(3) by (auto simp: py_strip_Nil_iff nonblank_def)
  then show ?thesis using assms(3)
    by (simp add: finalize_with_thought_def Let_def case_prod_unfold keep send del THINKING_PREFIX_def conj_commute
        conj_left_commute eq_commute cong: conj_cong)
qed

end
