(* ===== verification/CronSpec.thy ===== *)
theory CronSpec
  imports InstanceLock
begin

section \<open>Cron job specifications and the merge of the job files\<close>

text \<open>
  The cron models of \<open>src/src/diploid_agent/config.py\<close> with their validators, and the configuration half
  of \<open>src/src/diploid_agent/runtime/cron_service.py\<close>: which jobs of the watched files are accepted
  (\<open>_merge_jobs\<close>, \<open>_resolve_job\<close>), and where a file trigger may look (\<open>_resolve_trigger_path\<close>).  The YAML
  parser, \<open>croniter\<close>, the home directories and the symbolic links are arguments (record \<open>world\<close>); a
  path is its absoluteness and its components.  A warning is a value carrying what its text shows.
\<close>

subsection \<open>Specifications\<close>

record schedule_spec =
  sc_cron :: "ustr option"
  sc_every_seconds :: "secs option"
  sc_at_daily :: "ustr option"

datatype cmp_op = OpGt | OpGe | OpLt | OpLe | OpEq | OpNe

datatype trigger_value = TNum real | TStr ustr | TBool bool

datatype trigger_type = FileTrigger | BodyTrigger

record trigger_spec =
  tg_type :: trigger_type
  tg_path :: "ustr option"
  tg_field :: "ustr option"
  tg_op :: "cmp_op option"
  tg_value :: "trigger_value option"
  tg_cooldown_seconds :: "secs option"

datatype call_type = ScriptCall | LlmCall

record call_spec =
  cl_type :: call_type
  cl_command :: "ustr option"
  cl_cwd :: "ustr option"
  cl_persona :: "ustr option"
  cl_prompt :: "ustr option"
  cl_model :: "ustr option"
  cl_timeout_seconds :: "secs option"

datatype delivery = SilentDelivery | DigestDelivery | TurnDelivery

datatype overlap = OverlapSkip | OverlapQueue

datatype catchup = CatchupOnce | CatchupSkip

record job_spec =
  jb_id :: ustr
  jb_enabled :: bool
  jb_schedule :: "schedule_spec option"
  jb_trigger :: "trigger_spec option"
  jb_call :: call_spec
  jb_delivery :: delivery
  jb_chat_id :: "ustr option"
  jb_overlap :: overlap
  jb_catchup :: catchup
  jb_max_consecutive_failures :: int

subsection \<open>Validators\<close>

text \<open>\<open>[0-2]\d:[0-5]\d\<close> and an hour up to 23; the decimal digits beyond ASCII that \<open>\d\<close> takes are left out.\<close>

definition is_digit :: "nat \<Rightarrow> bool" where
  "is_digit c \<longleftrightarrow> 48 \<le> c \<and> c \<le> 57"

fun clock_of :: "ustr \<Rightarrow> (nat \<times> nat) option" where
  "clock_of [a, b, c, d, e] =
     (if 48 \<le> a \<and> a \<le> 50 \<and> is_digit b \<and> c = 58 \<and> 48 \<le> d \<and> d \<le> 53 \<and> is_digit e
      then Some (10 * (a - 48) + (b - 48), 10 * (d - 48) + (e - 48)) else None)"
| "clock_of _ = None"

definition check_at_daily :: "ustr \<Rightarrow> bool" where
  "check_at_daily v = (case clock_of v of None \<Rightarrow> False | Some (h, m) \<Rightarrow> h \<le> 23)"

fun count_some :: "bool list \<Rightarrow> nat" where
  "count_some [] = 0"
| "count_some (b # bs) = (if b then Suc (count_some bs) else count_some bs)"

definition schedule_valid :: "schedule_spec \<Rightarrow> bool" where
  "schedule_valid s \<longleftrightarrow>
     (case sc_at_daily s of None \<Rightarrow> True | Some v \<Rightarrow> check_at_daily v)
     \<and> count_some [sc_cron s \<noteq> None, sc_every_seconds s \<noteq> None, sc_at_daily s \<noteq> None] = 1"

definition blank_text :: "ustr option \<Rightarrow> bool" where
  "blank_text x = (py_strip (case x of None \<Rightarrow> [] | Some s \<Rightarrow> s) = [])"

definition trigger_valid :: "trigger_spec \<Rightarrow> bool" where
  "trigger_valid t \<longleftrightarrow>
     (case tg_cooldown_seconds t of None \<Rightarrow> True | Some c \<Rightarrow> 0 < c \<and> c \<le> 86400)
     \<and> (if tg_type t = FileTrigger
        then \<not> blank_text (tg_path t) \<and> tg_field t = None \<and> tg_op t = None \<and> tg_value t = None
        else \<not> blank_text (tg_field t) \<and> tg_op t \<noteq> None \<and> tg_value t \<noteq> None \<and> tg_path t = None)"

definition call_valid :: "call_spec \<Rightarrow> bool" where
  "call_valid c \<longleftrightarrow> \<not> (cl_type c = ScriptCall \<and> blank_text (cl_command c))
     \<and> \<not> (cl_type c = LlmCall \<and> blank_text (cl_prompt c))"

definition slug_head :: "nat \<Rightarrow> bool" where
  "slug_head c \<longleftrightarrow> is_digit c \<or> (97 \<le> c \<and> c \<le> 122)"

definition slug_char :: "nat \<Rightarrow> bool" where
  "slug_char c \<longleftrightarrow> slug_head c \<or> c = 95 \<or> c = 45"

fun check_id :: "ustr \<Rightarrow> bool" where
  "check_id [] = False"
| "check_id (c # s) \<longleftrightarrow> slug_head c \<and> list_all slug_char s"

definition job_valid :: "job_spec \<Rightarrow> bool" where
  "job_valid j \<longleftrightarrow> check_id (jb_id j) \<and> (jb_schedule j = None) \<noteq> (jb_trigger j = None)
     \<and> (case jb_schedule j of None \<Rightarrow> True | Some s \<Rightarrow> schedule_valid s)
     \<and> (case jb_trigger j of None \<Rightarrow> True | Some t \<Rightarrow> trigger_valid t)
     \<and> call_valid (jb_call j) \<and> 1 \<le> jb_max_consecutive_failures j \<and> jb_max_consecutive_failures j \<le> 100"

subsection \<open>Paths and the world outside\<close>

type_synonym py_path = "bool \<times> ustr list"

definition parse_path :: "ustr \<Rightarrow> py_path" where
  "parse_path s = (s \<noteq> [] \<and> hd s = 47, filter (\<lambda>c. c \<noteq> [] \<and> c \<noteq> [46]) (split_on 47 s))"

text \<open>\<open>p / q\<close>: an absolute right operand replaces the left one.\<close>

definition path_join :: "py_path \<Rightarrow> py_path \<Rightarrow> py_path" where
  "path_join p q = (if fst q then q else (fst p, snd p @ snd q))"

text \<open>
  \<open>w_real_path\<close> is \<open>realpath\<close> of an absolute path, \<open>w_user_home\<close> the password database, \<open>w_cron_next\<close> the
  first fire of an expression after a moment in local time (\<open>None\<close>: \<open>croniter\<close> raises one of the exceptions
  the code catches), \<open>w_local_day\<close> the date a moment falls on.
\<close>

record world =
  w_real_path :: "ustr list \<Rightarrow> ustr list"
  w_cwd :: "ustr list"
  w_home :: "ustr list"
  w_user_home :: "ustr \<Rightarrow> ustr list option"
  w_exists :: "py_path \<Rightarrow> bool"
  w_cron_next :: "ustr \<Rightarrow> secs \<Rightarrow> secs option"
  w_local_day :: "secs \<Rightarrow> ustr"

definition resolve_path :: "world \<Rightarrow> py_path \<Rightarrow> ustr list" where
  "resolve_path w p = w_real_path w (if fst p then snd p else w_cwd w @ snd p)"

definition expanduser :: "world \<Rightarrow> py_path \<Rightarrow> py_exn + py_path" where
  "expanduser w p =
     (if fst p \<or> snd p = [] \<or> \<not> prefix [126] (hd (snd p)) then Inr p
      else if hd (snd p) = [126] then Inr (True, w_home w @ tl (snd p))
      else (case w_user_home w (tl (hd (snd p))) of
              None \<Rightarrow> Inl RuntimeError
            | Some h \<Rightarrow> Inr (True, h @ tl (snd p))))"

record persona =
  pn_name :: ustr
  pn_profile_root :: py_path
  pn_fleet_root :: "py_path option"

record plugin_entry =
  pg_name :: ustr
  pg_enabled :: bool
  pg_cron_enabled :: "bool option"  \<comment> \<open>\<open>None\<close>: the plugin's configuration does not validate\<close>

record cron_config =
  cc_enabled :: bool
  cc_max_jobs_per_persona :: int
  cc_max_jobs_global :: int
  cc_min_interval_seconds :: secs
  cc_max_llm_timeout_seconds :: secs
  cc_turn_delivery_max_per_day :: int
  cc_trigger_allowed_roots :: "py_path list"
  cc_fallback_chat_id :: ustr
  cc_persona :: "persona option"
  cc_plugins :: "plugin_entry list"
  cc_self_wake_max_pending :: int
  cc_self_wake_min_interval_seconds :: secs
  cc_sessions_root :: py_path

datatype source_label = GlobalFile | PersonaFile

record resolved_job =
  rj_spec :: job_spec
  rj_source_file :: ustr
  rj_source_label :: source_label
  rj_chat_id :: ustr
  rj_persona :: "persona option"
  rj_persona_dir :: "py_path option"

subsection \<open>Personas and their permission\<close>

fun persona_cron_permitted :: "plugin_entry list \<Rightarrow> bool" where
  "persona_cron_permitted [] = False"
| "persona_cron_permitted (p # ps) =
     (if pg_name p = u ''authorship'' \<and> pg_enabled p
      then (case pg_cron_enabled p of None \<Rightarrow> False | Some b \<Rightarrow> b)
      else persona_cron_permitted ps)"

definition path_parent :: "py_path \<Rightarrow> py_path" where
  "path_parent p = (fst p, butlast (snd p))"

definition resolve_persona :: "world \<Rightarrow> cron_config \<Rightarrow> ustr option \<Rightarrow> persona option" where
  "resolve_persona w cfg name =
     (case cc_persona cfg of
        None \<Rightarrow> None
      | Some p \<Rightarrow>
          (case name of
             None \<Rightarrow> Some p
           | Some n \<Rightarrow>
               if n = [] \<or> n = pn_name p then Some p
               else let fleet = (case pn_fleet_root p of Some f \<Rightarrow> f | None \<Rightarrow> path_parent (pn_profile_root p));
                        root = path_join fleet (parse_path n)
                    in if w_exists w (path_join root (parse_path (u ''SOUL.md'')))
                       then Some \<lparr>pn_name = n, pn_profile_root = root, pn_fleet_root = Some fleet\<rparr>
                       else None))"

subsection \<open>Where a file trigger may look\<close>

definition session_prefix :: ustr where
  "session_prefix = u ''session:''"

definition session_root :: "world \<Rightarrow> cron_config \<Rightarrow> ustr \<Rightarrow> ustr list" where
  "session_root w cfg chat = resolve_path w (path_join (cc_sessions_root cfg) (parse_path (safe_dir_name chat)))"

definition allowed_roots :: "world \<Rightarrow> cron_config \<Rightarrow> resolved_job \<Rightarrow> ustr list list" where
  "allowed_roots w cfg rj =
     (case rj_persona_dir rj of None \<Rightarrow> [] | Some d \<Rightarrow> [resolve_path w d])
     @ [session_root w cfg (rj_chat_id rj)]
     @ (if rj_source_label rj = GlobalFile then [w_real_path w (w_home w)] else [])
     @ map (resolve_path w) (cc_trigger_allowed_roots cfg)"

definition under_any :: "ustr list list \<Rightarrow> ustr list \<Rightarrow> ustr list option" where
  "under_any roots candidate = (if list_ex (\<lambda>r. prefix r candidate) roots then Some candidate else None)"

definition resolve_trigger_path ::
  "world \<Rightarrow> cron_config \<Rightarrow> resolved_job \<Rightarrow> ustr \<Rightarrow> py_exn + ustr list option" where
  "resolve_trigger_path w cfg rj raw =
     (let sroot = session_root w cfg (rj_chat_id rj)
      in if prefix session_prefix raw
         then Inr (under_any [sroot]
                (resolve_path w (path_join (True, sroot) (parse_path (drop (length session_prefix) raw)))))
         else case expanduser w (parse_path raw) of
                Inl e \<Rightarrow> Inl e
              | Inr p \<Rightarrow>
                  Inr (under_any (allowed_roots w cfg rj)
                    (if \<not> fst p
                     then resolve_path w (path_join
                            (case rj_persona_dir rj of Some d \<Rightarrow> d | None \<Rightarrow> (True, w_cwd w)) p)
                     else resolve_path w p)))"

subsection \<open>Resolving one job\<close>

datatype cron_warning =
    BelowMinInterval ustr secs secs
  | InvalidCron ustr
  | CronIntervalBelow ustr secs secs
  | CooldownBelow ustr secs secs
  | PersonaNotFound ustr "ustr option"
  | NoChat ustr
  | PathEscapes ustr "ustr option"
  | ParseError ustr ustr
  | PersonaIgnored ustr
  | OverCap ustr ustr source_label int
  | IdConflict ustr ustr ustr

text \<open>The next \<open>n\<close> fires after a moment, each found from the one before.\<close>

fun next_fires :: "(secs \<Rightarrow> secs option) \<Rightarrow> nat \<Rightarrow> secs \<Rightarrow> secs list option" where
  "next_fires nx 0 t = Some []"
| "next_fires nx (Suc n) t =
     (case nx t of None \<Rightarrow> None | Some t' \<Rightarrow> map_option (\<lambda>ts. t' # ts) (next_fires nx n t'))"

definition cron_gap :: "world \<Rightarrow> ustr \<Rightarrow> secs \<Rightarrow> nat \<Rightarrow> secs option" where
  "cron_gap w expr now samples =
     map_option (\<lambda>ts. min_list (map2 (\<lambda>prev cur. cur - prev) ts (tl ts)))
       (next_fires (w_cron_next w expr) (1 + max 1 (samples - 1)) now)"

definition cooldown_of :: "cron_config \<Rightarrow> trigger_spec \<Rightarrow> secs" where
  "cooldown_of cfg t =
     (case tg_cooldown_seconds t of
        None \<Rightarrow> cc_min_interval_seconds cfg
      | Some c \<Rightarrow> if c = 0 then cc_min_interval_seconds cfg else c)"

text \<open>The floor under the interval of a job: the warning of a job that is dropped.\<close>

definition interval_warning :: "world \<Rightarrow> cron_config \<Rightarrow> secs \<Rightarrow> job_spec \<Rightarrow> cron_warning option" where
  "interval_warning w cfg now j =
     (let floor = cc_min_interval_seconds cfg
      in case jb_schedule j of
           Some s \<Rightarrow>
             (case sc_every_seconds s of
                Some e \<Rightarrow> if e < floor then Some (BelowMinInterval (jb_id j) e floor) else None
              | None \<Rightarrow>
                  (case sc_cron s of
                     None \<Rightarrow> None
                   | Some expr \<Rightarrow>
                       (case cron_gap w expr now 5 of
                          None \<Rightarrow> Some (InvalidCron (jb_id j))
                        | Some gap \<Rightarrow> if gap < floor then Some (CronIntervalBelow (jb_id j) gap floor) else None)))
         | None \<Rightarrow>
             (case jb_trigger j of
                None \<Rightarrow> None
              | Some t \<Rightarrow> if cooldown_of cfg t < floor
                           then Some (CooldownBelow (jb_id j) (cooldown_of cfg t) floor) else None))"

definition resolved_of :: "job_spec \<Rightarrow> ustr \<Rightarrow> source_label \<Rightarrow> ustr \<Rightarrow> persona option \<Rightarrow> resolved_job" where
  "resolved_of j path label chat p =
     \<lparr>rj_spec = j, rj_source_file = path, rj_source_label = label, rj_chat_id = chat, rj_persona = p,
       rj_persona_dir = map_option pn_profile_root p\<rparr>"

definition resolve_job ::
  "world \<Rightarrow> cron_config \<Rightarrow> secs \<Rightarrow> ustr \<Rightarrow> source_label \<Rightarrow> job_spec \<Rightarrow> py_exn + (cron_warning + resolved_job)" where
  "resolve_job w cfg now path label j =
     (case interval_warning w cfg now j of
        Some wn \<Rightarrow> Inr (Inl wn)
      | None \<Rightarrow>
          (let p = resolve_persona w cfg (cl_persona (jb_call j));
               chat = (case jb_chat_id j of
                         Some c \<Rightarrow> if c = [] then cc_fallback_chat_id cfg else c
                       | None \<Rightarrow> cc_fallback_chat_id cfg);
               rj = resolved_of j path label chat p
           in if cl_type (jb_call j) = LlmCall \<and> p = None
              then Inr (Inl (PersonaNotFound (jb_id j) (cl_persona (jb_call j))))
              else if chat = [] then Inr (Inl (NoChat (jb_id j)))
              else (case jb_trigger j of
                      None \<Rightarrow> Inr (Inr rj)
                    | Some t \<Rightarrow>
                        if tg_type t \<noteq> FileTrigger then Inr (Inr rj)
                        else (case resolve_trigger_path w cfg rj (case tg_path t of None \<Rightarrow> [] | Some s \<Rightarrow> s) of
                                Inl e \<Rightarrow> Inl e
                              | Inr None \<Rightarrow> Inr (Inl (PathEscapes (jb_id j) (tg_path t)))
                              | Inr (Some c) \<Rightarrow> Inr (Inr rj)))))"

subsection \<open>Watched files and the merged job table\<close>

record file_watch =
  fw_path :: ustr
  fw_label :: source_label
  fw_mtime :: "secs option"
  fw_jobs :: "job_spec list"
  fw_error :: "cron_warning option"

text \<open>What a watched file holds: its modification time and what the YAML parser makes of it, if it exists.\<close>

type_synonym file_view = "(secs \<times> (ustr + job_spec list)) option"

definition reload_watch :: "bool \<Rightarrow> file_view \<Rightarrow> file_watch \<Rightarrow> file_watch \<times> bool" where
  "reload_watch force v fw =
     (if \<not> force \<and> map_option fst v = fw_mtime fw then (fw, False)
      else (let fw1 = fw\<lparr>fw_mtime := map_option fst v\<rparr>
            in case v of
                 None \<Rightarrow> (fw1\<lparr>fw_jobs := [], fw_error := None\<rparr>, True)
               | Some (m, Inl msg) \<Rightarrow> (fw1\<lparr>fw_error := Some (ParseError (fw_path fw) msg)\<rparr>, True)
               | Some (m, Inr js) \<Rightarrow>
                   if list_all job_valid js then (fw1\<lparr>fw_jobs := js, fw_error := None\<rparr>, True)
                   else (fw1\<lparr>fw_error := Some (ParseError (fw_path fw) (u ''validation error''))\<rparr>, True)))"

type_synonym job_table = "(ustr, resolved_job) dict"

fun merge_specs ::
  "world \<Rightarrow> cron_config \<Rightarrow> secs \<Rightarrow> file_watch \<Rightarrow> int \<Rightarrow> int \<Rightarrow> job_spec list \<Rightarrow> cron_warning list \<times> job_table
    \<Rightarrow> py_exn + cron_warning list \<times> job_table" where
  "merge_specs w cfg now fw cap kept [] acc = Inr acc"
| "merge_specs w cfg now fw cap kept (j # js) (ws, merged) =
     (if kept \<ge> cap
      then merge_specs w cfg now fw cap kept js (ws @ [OverCap (fw_path fw) (jb_id j) (fw_label fw) cap], merged)
      else case dget (jb_id j) merged of
             Some other \<Rightarrow>
               merge_specs w cfg now fw cap kept js
                 (ws @ [IdConflict (jb_id j) (fw_path fw) (rj_source_file other)], merged)
           | None \<Rightarrow>
               (case resolve_job w cfg now (fw_path fw) (fw_label fw) j of
                  Inl e \<Rightarrow> Inl e
                | Inr (Inl wn) \<Rightarrow> merge_specs w cfg now fw cap kept js (ws @ [wn], merged)
                | Inr (Inr rj) \<Rightarrow> merge_specs w cfg now fw cap (kept + 1) js (ws, dset (jb_id j) rj merged)))"

definition label_cap :: "cron_config \<Rightarrow> source_label \<Rightarrow> int" where
  "label_cap cfg l = (case l of GlobalFile \<Rightarrow> cc_max_jobs_global cfg | PersonaFile \<Rightarrow> cc_max_jobs_per_persona cfg)"

fun merge_watches ::
  "world \<Rightarrow> cron_config \<Rightarrow> secs \<Rightarrow> file_watch list \<Rightarrow> cron_warning list \<times> job_table
    \<Rightarrow> py_exn + cron_warning list \<times> job_table" where
  "merge_watches w cfg now [] acc = Inr acc"
| "merge_watches w cfg now (fw # fws) (ws, merged) =
     (let ws1 = (case fw_error fw of None \<Rightarrow> ws | Some e \<Rightarrow> ws @ [e])
      in if fw_label fw = PersonaFile \<and> \<not> persona_cron_permitted (cc_plugins cfg)
         then merge_watches w cfg now fws
                (if fw_jobs fw \<noteq> [] then ws1 @ [PersonaIgnored (fw_path fw)] else ws1, merged)
         else case merge_specs w cfg now fw (label_cap cfg (fw_label fw)) 0 (fw_jobs fw) (ws1, merged) of
                Inl e \<Rightarrow> Inl e
              | Inr acc \<Rightarrow> merge_watches w cfg now fws acc)"

definition merge_jobs ::
  "world \<Rightarrow> cron_config \<Rightarrow> secs \<Rightarrow> file_watch list \<Rightarrow> py_exn + cron_warning list \<times> job_table" where
  "merge_jobs w cfg now fws = merge_watches w cfg now fws ([], [])"

subsection \<open>What the merge lets through\<close>

text \<open>The resolution of the job under this key, by some watched file, as the merge saw it.\<close>

definition accepted_from :: "world \<Rightarrow> cron_config \<Rightarrow> secs \<Rightarrow> file_watch list \<Rightarrow> ustr \<Rightarrow> resolved_job \<Rightarrow> bool" where
  "accepted_from w cfg now fws i rj \<longleftrightarrow>
     (\<exists>fw \<in> set fws. \<exists>j \<in> set (fw_jobs fw). jb_id j = i \<and>
        resolve_job w cfg now (fw_path fw) (fw_label fw) j = Inr (Inr rj))"

lemma resolve_job_spec:
  "resolve_job w cfg now path label j = Inr (Inr rj) \<Longrightarrow>
   rj_spec rj = j \<and> rj_source_label rj = label \<and> interval_warning w cfg now j = None"
  by (auto simp: resolve_job_def resolved_of_def Let_def split: option.splits if_splits sum.splits)

lemma merge_specs_accepted:
  "merge_specs w cfg now fw cap kept js (ws, d) = Inr (ws', d') \<Longrightarrow>
   \<forall>i rj. dget i d = Some rj \<longrightarrow> P i rj \<Longrightarrow>
   \<forall>j \<in> set js. \<forall>rj. resolve_job w cfg now (fw_path fw) (fw_label fw) j = Inr (Inr rj) \<longrightarrow> P (jb_id j) rj \<Longrightarrow>
   \<forall>i rj. dget i d' = Some rj \<longrightarrow> P i rj"
proof (induction js arbitrary: kept ws d)
  case (Cons j js)
  show ?case
  proof (cases "\<exists>rj. kept < cap \<and> dget (jb_id j) d = None \<and>
      resolve_job w cfg now (fw_path fw) (fw_label fw) j = Inr (Inr rj)")
    case True
    then obtain rj where r: "kept < cap" "dget (jb_id j) d = None"
      "resolve_job w cfg now (fw_path fw) (fw_label fw) j = Inr (Inr rj)" by blast
    with Cons.prems(1) have "merge_specs w cfg now fw cap (kept + 1) js (ws, dset (jb_id j) rj d) = Inr (ws', d')"
      by simp
    then show ?thesis by (rule Cons.IH) (use Cons.prems r in auto)
  next
    case False
    with Cons.prems(1) obtain ws1 where "merge_specs w cfg now fw cap kept js (ws1, d) = Inr (ws', d')"
      by (auto split: if_splits option.splits sum.splits)
    then show ?thesis by (rule Cons.IH) (use Cons.prems in auto)
  qed
qed simp

lemma merge_watches_accepted:
  "merge_watches w cfg now fws (ws, d) = Inr (ws', d') \<Longrightarrow>
   \<forall>i rj. dget i d = Some rj \<longrightarrow> P i rj \<Longrightarrow>
   \<forall>i rj. accepted_from w cfg now fws i rj \<longrightarrow> P i rj \<Longrightarrow>
   \<forall>i rj. dget i d' = Some rj \<longrightarrow> P i rj"
proof (induction fws arbitrary: ws d)
  case (Cons fw fws)
  have acc: "\<forall>i rj. accepted_from w cfg now fws i rj \<longrightarrow> P i rj"
    using Cons.prems(3) by (auto simp: accepted_from_def)
  have own: "\<forall>j \<in> set (fw_jobs fw). \<forall>rj.
      resolve_job w cfg now (fw_path fw) (fw_label fw) j = Inr (Inr rj) \<longrightarrow> P (jb_id j) rj"
    using Cons.prems(3) by (auto simp: accepted_from_def)
  show ?case
  proof (cases "fw_label fw = PersonaFile \<and> \<not> persona_cron_permitted (cc_plugins cfg)")
    case True
    with Cons.prems(1) obtain ws1 where "merge_watches w cfg now fws (ws1, d) = Inr (ws', d')"
      by (auto simp: Let_def split: if_splits)
    then show ?thesis by (rule Cons.IH) (use Cons.prems acc in auto)
  next
    case False
    with Cons.prems(1) obtain ws1 ws2 d2 where
      m: "merge_specs w cfg now fw (label_cap cfg (fw_label fw)) 0 (fw_jobs fw) (ws1, d) = Inr (ws2, d2)"
      and rest: "merge_watches w cfg now fws (ws2, d2) = Inr (ws', d')"
      by (auto simp: Let_def split: if_splits sum.splits)
    from merge_specs_accepted [OF m Cons.prems(2) own] have "\<forall>i rj. dget i d2 = Some rj \<longrightarrow> P i rj" .
    with rest show ?thesis by (intro Cons.IH) (use acc in auto)
  qed
qed simp

lemma merged_job_accepted:
  assumes "merge_jobs w cfg now fws = Inr (ws, jobs)" and "dget i jobs = Some rj"
  shows "accepted_from w cfg now fws i rj"
proof -
  have "\<forall>i rj. dget i jobs = Some rj \<longrightarrow> accepted_from w cfg now fws i rj"
    by (rule merge_watches_accepted [OF assms(1) [unfolded merge_jobs_def]]) simp_all
  with assms(2) show ?thesis by blast
qed

lemma under_any_Some: "under_any roots c = Some p \<longleftrightarrow> p = c \<and> (\<exists>r \<in> set roots. prefix r c)"
  by (auto simp: under_any_def list_ex_iff)

lemma trigger_path_rooted:
  "resolve_trigger_path w cfg rj raw = Inr (Some p) \<Longrightarrow> \<exists>r \<in> set (allowed_roots w cfg rj). prefix r p"
  by (auto simp: resolve_trigger_path_def Let_def under_any_Some allowed_roots_def split: if_splits sum.splits)

lemma accepted_trigger_path:
  assumes "resolve_job w cfg now path label j = Inr (Inr rj)" and "jb_trigger j = Some t"
    and "tg_type t = FileTrigger" and "tg_path t = Some raw"
  shows "\<exists>p. resolve_trigger_path w cfg rj raw = Inr (Some p)"
  using assms by (auto simp: resolve_job_def Let_def split: option.splits if_splits sum.splits)


definition plain_world :: world where
  "plain_world = \<lparr>w_real_path = id, w_cwd = [u ''srv''], w_home = [u ''home'', u ''op''], w_user_home = (\<lambda>_. None),
     w_exists = (\<lambda>_. False), w_cron_next = (\<lambda>_ t. Some (t + 3600)), w_local_day = (\<lambda>_. u ''today'')\<rparr>"

definition plain_cron :: cron_config where
  "plain_cron = \<lparr>cc_enabled = True, cc_max_jobs_per_persona = 8, cc_max_jobs_global = 16, cc_min_interval_seconds = 300,
     cc_max_llm_timeout_seconds = 600, cc_turn_delivery_max_per_day = 4, cc_trigger_allowed_roots = [],
     cc_fallback_chat_id = u ''c1'', cc_persona = Some \<lparr>pn_name = u ''p'', pn_profile_root = (True, [u ''p'']),
       pn_fleet_root = None\<rparr>,
     cc_plugins = [\<lparr>pg_name = u ''authorship'', pg_enabled = True, pg_cron_enabled = Some True\<rparr>],
     cc_self_wake_max_pending = 3, cc_self_wake_min_interval_seconds = 60, cc_sessions_root = (True, [u ''s''])\<rparr>"

definition script_call :: call_spec where
  "script_call = \<lparr>cl_type = ScriptCall, cl_command = Some (u ''x''), cl_cwd = None, cl_persona = None, cl_prompt = None,
     cl_model = None, cl_timeout_seconds = None\<rparr>"

definition every_job :: "string \<Rightarrow> secs \<Rightarrow> job_spec" where
  "every_job i t = \<lparr>jb_id = u i, jb_enabled = True,
     jb_schedule = Some \<lparr>sc_cron = None, sc_every_seconds = Some t, sc_at_daily = None\<rparr>, jb_trigger = None,
     jb_call = script_call, jb_delivery = SilentDelivery, jb_chat_id = None, jb_overlap = OverlapSkip,
     jb_catchup = CatchupOnce, jb_max_consecutive_failures = 3\<rparr>"

definition file_trigger :: "string \<Rightarrow> trigger_spec" where
  "file_trigger path = \<lparr>tg_type = FileTrigger, tg_path = Some (u path), tg_field = None, tg_op = None, tg_value = None,
     tg_cooldown_seconds = None\<rparr>"

definition watch_job :: "string \<Rightarrow> string \<Rightarrow> job_spec" where
  "watch_job i path = (every_job i 0)\<lparr>jb_schedule := None, jb_trigger := Some (file_trigger path)\<rparr>"

definition persona_watch :: "job_spec list \<Rightarrow> file_watch" where
  "persona_watch js = \<lparr>fw_path = u ''crons.yaml'', fw_label = PersonaFile, fw_mtime = Some 1, fw_jobs = js, fw_error = None\<rparr>"

lemmas cron_sample_defs = plain_world_def plain_cron_def script_call_def every_job_def file_trigger_def
  watch_job_def persona_watch_def

definition sample_resolved :: "job_spec \<Rightarrow> resolved_job" where
  "sample_resolved j = resolved_of j (u ''crons.yaml'') PersonaFile (u ''c1'') (cc_persona plain_cron)"

lemma watch_job_merged:
  "merge_jobs plain_world plain_cron 0 [persona_watch [watch_job ''a'' ''in.flag'']] =
     Inr ([], [(u ''a'', sample_resolved (watch_job ''a'' ''in.flag''))])"
  by code_simp


lemma escaping_trigger_is_dropped:
  "merge_jobs plain_world plain_cron 0 [persona_watch [watch_job ''a'' ''/etc/x'', watch_job ''b'' ''in.flag'']] =
     Inr ([PathEscapes (u ''a'') (Some (u ''/etc/x''))], [(u ''b'', sample_resolved (watch_job ''b'' ''in.flag''))])"
  by code_simp

subsection \<open>Caps, floors and precedence\<close>

definition from_label :: "source_label \<Rightarrow> job_table \<Rightarrow> job_table" where
  "from_label l d = filter (\<lambda>(i, rj). rj_source_label rj = l) d"

lemma from_label_dset_new:
  "dget i d = None \<Longrightarrow> from_label l (dset i rj d) = from_label l d @ (if rj_source_label rj = l then [(i, rj)] else [])"
  by (simp add: dset_new map_of_eq_None_iff from_label_def)

lemma merge_specs_cap:
  "merge_specs w cfg now fw cap kept js (ws, d) = Inr (ws', d') \<Longrightarrow>
   (\<forall>l. l \<noteq> fw_label fw \<longrightarrow> from_label l d' = from_label l d)
   \<and> int (length (from_label (fw_label fw) d')) \<le> int (length (from_label (fw_label fw) d)) + max 0 (cap - kept)
   \<and> (dict_ok d \<longrightarrow> dict_ok d')"
proof (induction js arbitrary: kept ws d)
  case (Cons j js)
  show ?case
  proof (cases "\<exists>rj. kept < cap \<and> dget (jb_id j) d = None \<and>
      resolve_job w cfg now (fw_path fw) (fw_label fw) j = Inr (Inr rj)")
    case True
    then obtain rj where r: "kept < cap" "dget (jb_id j) d = None"
      "resolve_job w cfg now (fw_path fw) (fw_label fw) j = Inr (Inr rj)" by blast
    then have "rj_source_label rj = fw_label fw" using resolve_job_spec by blast
    moreover from r Cons.prems have "merge_specs w cfg now fw cap (kept + 1) js (ws, dset (jb_id j) rj d) = Inr (ws', d')"
      by simp
    ultimately show ?thesis using Cons.IH r by (fastforce simp: from_label_dset_new)
  next
    case False
    with Cons.prems obtain ws1 where "merge_specs w cfg now fw cap kept js (ws1, d) = Inr (ws', d')"
      by (auto split: if_splits option.splits sum.splits)
    then show ?thesis by (rule Cons.IH)
  qed
qed simp

lemma merge_watches_cap:
  "merge_watches w cfg now fws (ws, d) = Inr (ws', d') \<Longrightarrow> distinct (map fw_label fws) \<Longrightarrow>
   (l \<notin> set (map fw_label fws) \<longrightarrow> from_label l d' = from_label l d)
   \<and> int (length (from_label l d')) \<le> int (length (from_label l d)) + max 0 (label_cap cfg l)
   \<and> (dict_ok d \<longrightarrow> dict_ok d')"
proof (induction fws arbitrary: ws d)
  case (Cons fw fws)
  show ?case
  proof (cases "fw_label fw = PersonaFile \<and> \<not> persona_cron_permitted (cc_plugins cfg)")
    case True
    with Cons.prems(1) obtain ws1 where "merge_watches w cfg now fws (ws1, d) = Inr (ws', d')"
      by (auto simp: Let_def split: if_splits)
    from Cons.IH [OF this] Cons.prems(2) show ?thesis by simp
  next
    case False
    with Cons.prems(1) obtain ws1 ws2 d2 where
      m: "merge_specs w cfg now fw (label_cap cfg (fw_label fw)) 0 (fw_jobs fw) (ws1, d) = Inr (ws2, d2)"
      and rest: "merge_watches w cfg now fws (ws2, d2) = Inr (ws', d')"
      by (auto simp: Let_def split: if_splits sum.splits)
    from merge_specs_cap [OF m] Cons.IH [OF rest] Cons.prems(2) show ?thesis
      by (cases "l = fw_label fw") auto
  qed
qed simp

text \<open>The floor a job keeps: its interval, the gaps of its next fires, or the cooldown of its trigger.\<close>

definition keeps_floor :: "world \<Rightarrow> cron_config \<Rightarrow> secs \<Rightarrow> job_spec \<Rightarrow> bool" where
  "keeps_floor w cfg now j \<longleftrightarrow>
     (\<forall>s e. jb_schedule j = Some s \<longrightarrow> sc_every_seconds s = Some e \<longrightarrow> cc_min_interval_seconds cfg \<le> e)
     \<and> (\<forall>s x. jb_schedule j = Some s \<longrightarrow> sc_every_seconds s = None \<longrightarrow> sc_cron s = Some x \<longrightarrow>
          (\<exists>gap. cron_gap w x now 5 = Some gap \<and> cc_min_interval_seconds cfg \<le> gap))
     \<and> (\<forall>t. jb_schedule j = None \<longrightarrow> jb_trigger j = Some t \<longrightarrow> cc_min_interval_seconds cfg \<le> cooldown_of cfg t)"

lemma no_warning_keeps_floor: "interval_warning w cfg now j = None \<Longrightarrow> keeps_floor w cfg now j"
  by (auto simp: interval_warning_def keeps_floor_def Let_def split: option.splits if_splits)

text \<open>
  What the merge of the watched files admits: the job table has one job per id, every job of it
  comes from a watched file and keeps the minimum interval (its interval, the gaps between its next fires, or
  its cooldown), and neither the operator's jobs nor the persona's jobs exceed their cap.
\<close>

theorem merged_jobs_are_admissible:
  assumes "merge_jobs w cfg now fws = Inr (ws, jobs)" and "distinct (map fw_label fws)"
  shows "dict_ok jobs
    \<and> list_all (\<lambda>(i, rj). jb_id (rj_spec rj) = i \<and> keeps_floor w cfg now (rj_spec rj)
         \<and> list_ex (\<lambda>fw. rj_spec rj \<in> set (fw_jobs fw)) fws) jobs
    \<and> (\<forall>l. int (length (from_label l jobs)) \<le> max 0 (label_cap cfg l))"
proof (intro conjI allI)
  note m = assms(1) [unfolded merge_jobs_def]
  show ok: "dict_ok jobs" using merge_watches_cap [OF m assms(2)] by simp
  show "int (length (from_label l jobs)) \<le> max 0 (label_cap cfg l)" for l
    using merge_watches_cap [OF m assms(2), of l] by (simp add: from_label_def)
  have "jb_id (rj_spec rj) = i \<and> keeps_floor w cfg now (rj_spec rj) \<and> list_ex (\<lambda>fw. rj_spec rj \<in> set (fw_jobs fw)) fws"
    if "(i, rj) \<in> set jobs" for i rj
  proof -
    from that ok have "dget i jobs = Some rj" by (simp add: dget_iff_mem)
    with merged_job_accepted [OF assms(1)] obtain fw j where
      f: "fw \<in> set fws" "j \<in> set (fw_jobs fw)" "jb_id j = i"
      and r: "resolve_job w cfg now (fw_path fw) (fw_label fw) j = Inr (Inr rj)"
      unfolding accepted_from_def by blast
    from resolve_job_spec [OF r] have "rj_spec rj = j" "keeps_floor w cfg now j"
      by (auto intro: no_warning_keeps_floor)
    with f show ?thesis by (auto simp: list_ex_iff)
  qed
  then show "list_all (\<lambda>(i, rj). jb_id (rj_spec rj) = i \<and> keeps_floor w cfg now (rj_spec rj)
         \<and> list_ex (\<lambda>fw. rj_spec rj \<in> set (fw_jobs fw)) fws) jobs"
    by (auto simp: list_all_iff)
qed

theorem merged_jobs_are_admissible_witness:
  "dict_ok [(u ''a'', sample_resolved (watch_job ''a'' ''in.flag''))]
    \<and> list_all (\<lambda>(i, rj). jb_id (rj_spec rj) = i \<and> keeps_floor plain_world plain_cron 0 (rj_spec rj)
         \<and> list_ex (\<lambda>fw. rj_spec rj \<in> set (fw_jobs fw)) [persona_watch [watch_job ''a'' ''in.flag'']])
         [(u ''a'', sample_resolved (watch_job ''a'' ''in.flag''))]
    \<and> (\<forall>l. int (length (from_label l [(u ''a'', sample_resolved (watch_job ''a'' ''in.flag''))]))
         \<le> max 0 (label_cap plain_cron l))"
  by (rule merged_jobs_are_admissible [OF watch_job_merged]) simp

text \<open>The first file wins: an id already in the table keeps its job.\<close>

lemma merge_specs_keeps:
  "merge_specs w cfg now fw cap kept js (ws, d) = Inr (ws', d') \<Longrightarrow> dget i d = Some rj \<Longrightarrow> dget i d' = Some rj"
proof (induction js arbitrary: kept ws d)
  case (Cons j js)
  show ?case
  proof (cases "\<exists>rj. kept < cap \<and> dget (jb_id j) d = None \<and>
      resolve_job w cfg now (fw_path fw) (fw_label fw) j = Inr (Inr rj)")
    case True
    then obtain r where r: "kept < cap" "dget (jb_id j) d = None"
      "resolve_job w cfg now (fw_path fw) (fw_label fw) j = Inr (Inr r)" by blast
    with Cons.prems have "merge_specs w cfg now fw cap (kept + 1) js (ws, dset (jb_id j) r d) = Inr (ws', d')" by simp
    then show ?thesis by (rule Cons.IH) (use Cons.prems(2) r in auto)
  next
    case False
    with Cons.prems(1) obtain ws1 where "merge_specs w cfg now fw cap kept js (ws1, d) = Inr (ws', d')"
      by (auto split: if_splits option.splits sum.splits)
    then show ?thesis by (rule Cons.IH) (rule Cons.prems(2))
  qed
qed simp

lemma merge_watches_keeps:
  "merge_watches w cfg now fws (ws, d) = Inr (ws', d') \<Longrightarrow> dget i d = Some rj \<Longrightarrow> dget i d' = Some rj"
proof (induction fws arbitrary: ws d)
  case (Cons fw fws)
  then show ?case
    by (auto simp: Let_def split: if_splits option.splits sum.splits dest: merge_specs_keeps intro: Cons.IH)
qed simp

text \<open>A home directory that cannot be determined is the one error the merge does not turn into a warning.\<close>

theorem unknown_home_stops_the_merge:
  "merge_jobs plain_world plain_cron 0 [persona_watch [every_job ''a'' 300, watch_job ''b'' ''~nobody/x'']] = Inl RuntimeError"
  by code_simp

text \<open>A file that stopped parsing keeps its jobs.\<close>

lemma broken_file_keeps_last_good:
  "fw_jobs (fst (reload_watch force (Some (m, Inl msg)) fw)) = fw_jobs fw"
  by (simp add: reload_watch_def Let_def)

end
