(* ===== verification/CronState.thy ===== *)
theory CronState
  imports CronSpec
begin

section \<open>The cron state store\<close>

text \<open>
  \<open>src/src/diploid_agent/runtime/cron_state.py\<close>: the state row of a job and the store that keeps the rows in
  a JSON-lines file, with the transactions of the wake queue.  What pydantic makes of a line is not modelled: a
  line is blank, rejected, or the row it encodes.  The JSON text of a specification that a row carries
  (\<open>schedule_key\<close>, \<open>fired_spec\<close>) is the value it encodes, with \<open>None\<close> for the empty text.
\<close>

text \<open>What drives a job, as \<open>_driver_key\<close> records it.\<close>

datatype driver = Scheduled schedule_spec | Triggered trigger_spec

record cron_state =
  cj_job_id :: ustr
  cj_source_file :: ustr
  cj_last_run_at :: "secs option"
  cj_next_due_at :: "secs option"
  cj_last_status :: "ustr option"
  cj_running_task_id :: "ustr option"
  cj_running_plan_id :: "ustr option"
  cj_consecutive_failures :: int
  cj_disabled :: bool
  cj_last_finished_at :: "secs option"
  cj_last_summary :: ustr
  cj_last_task_id :: "ustr option"
  cj_queued_due :: bool
  cj_schedule_key :: "driver option"
  cj_fired_spec :: "job_spec option"
  cj_fired_chat_id :: ustr
  cj_turn_count :: int
  cj_turn_date :: ustr
  cj_trigger_seen_mtime :: "secs option"
  cj_trigger_fired_at :: "secs option"
  cj_trigger_held :: bool
  cj_updated_at :: secs

definition new_cron_state :: "ustr \<Rightarrow> ustr \<Rightarrow> secs \<Rightarrow> cron_state" where
  "new_cron_state job src now =
     \<lparr>cj_job_id = job, cj_source_file = src, cj_last_run_at = None, cj_next_due_at = None, cj_last_status = None,
       cj_running_task_id = None, cj_running_plan_id = None, cj_consecutive_failures = 0, cj_disabled = False,
       cj_last_finished_at = None, cj_last_summary = [], cj_last_task_id = None, cj_queued_due = False,
       cj_schedule_key = None, cj_fired_spec = None, cj_fired_chat_id = [], cj_turn_count = 0, cj_turn_date = [],
       cj_trigger_seen_mtime = None, cj_trigger_fired_at = None, cj_trigger_held = False, cj_updated_at = now\<rparr>"

type_synonym cron_rows = "(ustr, cron_state) dict"

record cron_store =
  cs_file :: "cron_state line list"
  cs_in_memory :: cron_rows

definition cron_load :: "cron_state line list \<Rightarrow> py_exn + cron_rows" where
  "cron_load ls = jsonl_load_from Good cj_job_id [] ls"

definition cron_save :: "cron_rows \<Rightarrow> cron_state line list" where
  "cron_save d = jsonl_save (\<lambda>st. st) d"

interpretation cron_codec: jsonl_codec "\<lambda>st. st" Good cj_job_id "\<lambda>_. True"
  by unfold_locales simp_all

text \<open>\<open>save=False\<close> leaves the file as it is.\<close>

definition cron_transaction ::
  "bool \<Rightarrow> (cron_rows \<Rightarrow> cron_rows \<times> 'r) \<Rightarrow> cron_store \<Rightarrow> cron_store \<times> (py_exn + 'r)" where
  "cron_transaction save body q =
     (case cron_load (cs_file q) of
        Inl e \<Rightarrow> (q, Inl e)
      | Inr d \<Rightarrow> (let (d', r) = body d
                 in (\<lparr>cs_file = (if save then cron_save d' else cs_file q), cs_in_memory = d'\<rparr>, Inr r)))"

subsection \<open>Operations\<close>

definition get_row :: "ustr \<Rightarrow> cron_rows \<Rightarrow> cron_rows \<times> cron_state option" where
  "get_row job d = (d, dget job d)"

definition update_row :: "cron_state \<Rightarrow> secs \<Rightarrow> cron_rows \<Rightarrow> cron_rows \<times> cron_state" where
  "update_row st now d = (let st' = st\<lparr>cj_updated_at := now\<rparr> in (dset (cj_job_id st) st' d, st'))"

definition ensure_row :: "ustr \<Rightarrow> ustr \<Rightarrow> secs \<Rightarrow> cron_rows \<Rightarrow> cron_rows \<times> cron_state" where
  "ensure_row job src now d =
     (case snd (get_row job d) of
        Some st \<Rightarrow> (d, st)
      | None \<Rightarrow> update_row (new_cron_state job src now) now d)"

definition remove_missing :: "ustr list \<Rightarrow> cron_rows \<Rightarrow> cron_rows" where
  "remove_missing jobs d = filter (\<lambda>(job, st). job \<in> set jobs \<or> cj_running_task_id st \<noteq> None) d"

definition drop_row :: "ustr \<Rightarrow> cron_rows \<Rightarrow> cron_rows" where
  "drop_row job d = ddel job d"

definition store_get :: "ustr \<Rightarrow> cron_store \<Rightarrow> cron_store \<times> (py_exn + cron_state option)" where
  "store_get job = cron_transaction False (get_row job)"

definition store_update :: "cron_state \<Rightarrow> secs \<Rightarrow> cron_store \<Rightarrow> cron_store \<times> (py_exn + cron_state)" where
  "store_update st now = cron_transaction True (update_row st now)"

text \<open>Two transactions: the row is looked up in one and created in another.\<close>

definition store_ensure :: "ustr \<Rightarrow> ustr \<Rightarrow> secs \<Rightarrow> cron_store \<Rightarrow> cron_store \<times> (py_exn + cron_state)" where
  "store_ensure job src now q =
     (case store_get job q of
        (q1, Inl e) \<Rightarrow> (q1, Inl e)
      | (q1, Inr (Some st)) \<Rightarrow> (q1, Inr st)
      | (q1, Inr None) \<Rightarrow> store_update (new_cron_state job src now) now q1)"

definition store_all :: "cron_store \<Rightarrow> cron_store \<times> (py_exn + cron_rows)" where
  "store_all = cron_transaction False (\<lambda>d. (d, d))"

definition store_remove_missing :: "ustr list \<Rightarrow> cron_store \<Rightarrow> cron_store \<times> (py_exn + unit)" where
  "store_remove_missing jobs = cron_transaction True (\<lambda>d. (remove_missing jobs d, ()))"

definition store_drop :: "ustr \<Rightarrow> cron_store \<Rightarrow> cron_store \<times> (py_exn + unit)" where
  "store_drop job = cron_transaction True (\<lambda>d. (drop_row job d, ()))"

subsection \<open>Rows keyed by their job\<close>

definition rows_ok :: "cron_rows \<Rightarrow> bool" where
  "rows_ok d \<longleftrightarrow> keyed_ok cj_job_id (\<lambda>_. True) d"

lemma cron_load_save: "rows_ok d \<Longrightarrow> cron_load (cron_save d) = Inr d"
  unfolding cron_load_def cron_save_def rows_ok_def by (rule cron_codec.load_save)

lemma cron_load_ok: "cron_load ls = Inr d \<Longrightarrow> rows_ok d"
  unfolding cron_load_def rows_ok_def by (rule cron_codec.load_ok)

lemma rows_ok_get: "rows_ok d \<Longrightarrow> dget job d = Some st \<Longrightarrow> cj_job_id st = job"
  unfolding rows_ok_def by (drule keyed_ok_get) auto

lemma rows_ok_update: "rows_ok d \<Longrightarrow> rows_ok (fst (update_row st now d))"
  by (auto simp: update_row_def Let_def rows_ok_def intro: keyed_ok_dset)

lemma rows_ok_remove_missing: "rows_ok d \<Longrightarrow> rows_ok (remove_missing jobs d)"
  by (auto simp: rows_ok_def remove_missing_def keyed_ok_def list_all_iff intro: dict_ok_filter)

lemma rows_ok_drop: "rows_ok d \<Longrightarrow> rows_ok (drop_row job d)"
  by (auto simp: rows_ok_def drop_row_def intro: keyed_ok_ddel)

lemma dget_update_row [simp, dict_simps]:
  "dget job (fst (update_row st now d)) = (if job = cj_job_id st then Some (st\<lparr>cj_updated_at := now\<rparr>) else dget job d)"
  by (simp add: update_row_def Let_def)

lemma dget_remove_missing:
  "rows_ok d \<Longrightarrow> dget job (remove_missing jobs d) =
     (case dget job d of None \<Rightarrow> None
      | Some st \<Rightarrow> if job \<in> set jobs \<or> cj_running_task_id st \<noteq> None then Some st else None)"
  unfolding remove_missing_def rows_ok_def keyed_ok_def by (subst dget_filter) (auto split: option.splits)

subsection \<open>Services sharing the file\<close>

datatype row_op = GetRow ustr | AllRows | UpdateRow cron_state secs | RemoveMissing "ustr list" | DropRow ustr

fun row_apply :: "row_op \<Rightarrow> cron_rows \<Rightarrow> cron_rows \<times> cron_state option" where
  "row_apply (GetRow job) d = get_row job d"
| "row_apply AllRows d = (d, None)"
| "row_apply (UpdateRow st now) d = (fst (update_row st now d), Some (snd (update_row st now d)))"
| "row_apply (RemoveMissing jobs) d = (remove_missing jobs d, None)"
| "row_apply (DropRow job) d = (drop_row job d, None)"

fun row_saves :: "row_op \<Rightarrow> bool" where
  "row_saves (GetRow job) = False"
| "row_saves AllRows = False"
| "row_saves op = True"

definition row_step :: "row_op \<Rightarrow> cron_rows \<Rightarrow> cron_rows \<times> cron_state option list" where
  "row_step op d = (let (d', r) = row_apply op d in (d', [r]))"

text \<open>A service with its own in-memory rows runs one transaction on the shared file.\<close>

definition row_process ::
  "cron_rows \<times> row_op \<Rightarrow> cron_state line list \<Rightarrow> cron_state line list \<times> cron_state option list" where
  "row_process step fs =
     (let (q, r) = cron_transaction (row_saves (snd step)) (row_apply (snd step)) \<lparr>cs_file = fs, cs_in_memory = fst step\<rparr>
      in (cs_file q, case r of Inl e \<Rightarrow> [] | Inr t \<Rightarrow> [t]))"

lemma row_apply_ok: "rows_ok d \<Longrightarrow> rows_ok (fst (row_apply op d))"
  by (cases op) (auto simp: get_row_def intro: rows_ok_update rows_ok_remove_missing rows_ok_drop)

lemma unsaved_row_apply: "\<not> row_saves op \<Longrightarrow> fst (row_apply op d) = d"
  by (cases op) (auto simp: get_row_def)

interpretation cron_file: loaded_store cron_load row_step row_process
proof
  fix f d c op
  assume l: "cron_load f = Inr d"
  then have "rows_ok (fst (row_apply op d))" by (intro row_apply_ok) (rule cron_load_ok)
  with l show "cron_load (fst (row_process (c, op) f)) = Inr (fst (row_step op d))
      \<and> snd (row_process (c, op) f) = snd (row_step op d)"
    by (cases "row_saves op") (simp_all add: row_process_def row_step_def cron_transaction_def case_prod_unfold
        Let_def cron_load_save unsaved_row_apply)
qed

text \<open>\<open>ensure\<close> finds the row or makes a new one, never both.\<close>

lemma store_ensure_row:
  "cron_load (cs_file q) = Inr d \<Longrightarrow>
   cron_load (cs_file (fst (store_ensure job src now q))) = Inr (fst (ensure_row job src now d))
   \<and> snd (store_ensure job src now q) = Inr (snd (ensure_row job src now d))"
  using rows_ok_update [of d] cron_load_ok [of "cs_file q" d]
  by (auto simp: store_ensure_def store_get_def store_update_def cron_transaction_def ensure_row_def get_row_def
      case_prod_unfold Let_def cron_load_save split: option.splits)

end
