(* ===== verification/CronService.thy ===== *)
theory CronService
  imports CronState TaskEngine WakeQueue JsonText
begin

section \<open>The cron service: firing, finishing and delivering jobs\<close>

text \<open>
  The running half of \<open>src/src/diploid_agent/runtime/cron_service.py\<close>.  A tick reloads the job files, attaches
  to running tasks again and walks the job table; a due job becomes a task of the standing plan of its chat and
  is started in the task engine (theory \<open>TaskEngine\<close>); the engine's event, or the next tick, finalizes the run,
  and the result is delivered to files and, for a turn delivery, to the wake queue (theory \<open>WakeQueue\<close>).  The
  rows are those of the state file (theory \<open>CronState\<close>: every access is a transaction that re-reads it).  A tick
  reads the clock once; generated ids are drawn from a supply; what the file system shows during a tick and
  the prompt's sources are arguments.  An exception is returned beside the state it leaves.
\<close>

subsection \<open>State\<close>

datatype turn_outcome = NoWakeQueue | DailyCapReached | WakeBudgetReached | TurnDeferred secs | TurnNow

datatype delivery_result = FilesOnly delivery | TurnResult turn_outcome

text \<open>One line of \<open><job>.log\<close> and the document \<open><job>.last\<close>.\<close>

record cron_result =
  cr_chat :: ustr
  cr_job :: ustr
  cr_task :: ustr
  cr_delivery :: delivery
  cr_delivery_result :: delivery_result
  cr_status :: "ustr option"
  cr_finished_at :: "secs option"
  cr_next_due_at :: "secs option"
  cr_failures :: int
  cr_last_summary :: ustr
  cr_log_summary :: ustr

record cron_service =
  sv_rows :: cron_rows
  sv_watches :: "file_watch list"
  sv_jobs :: job_table
  sv_warnings :: "cron_warning list"
  sv_service_last :: "cron_warning list option"
  sv_cron_plans :: "(ustr, ustr) dict"
  sv_task_to_job :: "(ustr, ustr) dict"
  sv_catchup :: "ustr list"
  sv_booted :: bool
  sv_engine :: engine
  sv_wakes :: "events option"
  sv_results :: "cron_result list"
  sv_drawn :: nat

datatype fire_reason = FileChanged "ustr list" | BodyCrossed trigger_spec json

record cron_env =
  ce_world :: world
  ce_config :: cron_config
  ce_fresh :: "nat \<Rightarrow> ustr"
  ce_reason_text :: "fire_reason \<Rightarrow> ustr"
  ce_exn_text :: "py_exn \<Rightarrow> ustr"
  ce_identity :: "persona \<Rightarrow> ustr option"  \<comment> \<open>trimmed; \<open>None\<close>: the persona files are missing\<close>
  ce_persona_memory :: "persona \<Rightarrow> ustr"
  ce_promoted :: "persona \<Rightarrow> ustr \<Rightarrow> ustr"
  ce_results_dir :: "ustr \<Rightarrow> ustr"

record fs_view =
  fv_file :: "ustr \<Rightarrow> file_view"
  fv_mtime :: "ustr list \<Rightarrow> secs option"
  fv_json :: "py_path \<Rightarrow> json option"

definition put_row :: "cron_state \<Rightarrow> secs \<Rightarrow> cron_service \<Rightarrow> cron_service" where
  "put_row st now svc = svc\<lparr>sv_rows := fst (update_row st now (sv_rows svc))\<rparr>"

definition driver_of :: "job_spec \<Rightarrow> driver option" where
  "driver_of j =
     (case jb_schedule j of Some s \<Rightarrow> Some (Scheduled s) | None \<Rightarrow> map_option Triggered (jb_trigger j))"

definition reset_trigger :: "cron_state \<Rightarrow> cron_state" where
  "reset_trigger st = st\<lparr>cj_trigger_seen_mtime := None, cj_trigger_held := False, cj_queued_due := False,
     cj_next_due_at := None\<rparr>"

subsection \<open>When a schedule is due next\<close>

definition at_daily_expr :: "nat \<times> nat \<Rightarrow> ustr" where
  "at_daily_expr hm = str_of_nat (snd hm) @ u '' '' @ str_of_nat (fst hm) @ u '' * * *''"

text \<open>\<open>croniter\<close> is installed; an expression without a next fire is its \<open>ValueError\<close>.\<close>

definition cron_fire :: "world \<Rightarrow> ustr \<Rightarrow> secs \<Rightarrow> py_exn + secs" where
  "cron_fire w expr base = (case w_cron_next w expr base of None \<Rightarrow> Inl ValueError | Some t \<Rightarrow> Inr t)"

definition next_due :: "world \<Rightarrow> schedule_spec \<Rightarrow> secs \<Rightarrow> py_exn + secs" where
  "next_due w s base =
     (case sc_every_seconds s of
        Some e \<Rightarrow> Inr (base + e)
      | None \<Rightarrow>
          (case sc_at_daily s of
             Some v \<Rightarrow> (case clock_of v of None \<Rightarrow> Inl ValueError | Some hm \<Rightarrow> cron_fire w (at_daily_expr hm) base)
           | None \<Rightarrow>
               (case sc_cron s of
                  Some x \<Rightarrow> cron_fire w x base
                | None \<Rightarrow> Inr (base + 86400))))"

text \<open>Of a job without a schedule it is an assertion error; the callers see to it that there is one.\<close>

definition job_next_due :: "world \<Rightarrow> job_spec \<Rightarrow> secs \<Rightarrow> py_exn + secs" where
  "job_next_due w j base = (case jb_schedule j of None \<Rightarrow> Inl Unmodelled | Some s \<Rightarrow> next_due w s base)"

subsection \<open>Materializing a job\<close>

definition CRON_PLAN_NAME :: ustr where
  "CRON_PLAN_NAME = u ''__cron__''"

definition cron_plan_id :: "cron_env \<Rightarrow> ustr \<Rightarrow> secs \<Rightarrow> cron_service \<Rightarrow> cron_service \<times> ustr" where
  "cron_plan_id env chat now svc =
     (let d = en_plans (sv_engine svc)
      in case Option.bind (dget chat (sv_cron_plans svc)) (\<lambda>pid. map_option (\<lambda>_. pid) (snd (get_plan_body pid d))) of
           Some pid \<Rightarrow> (svc, pid)
         | None \<Rightarrow>
             (case find (\<lambda>p. pl_name p = CRON_PLAN_NAME) (snd (list_plans_body (Some chat) d)) of
                Some p \<Rightarrow> (svc\<lparr>sv_cron_plans := dset chat (pl_id p) (sv_cron_plans svc)\<rparr>, pl_id p)
              | None \<Rightarrow>
                  (let pid = ce_fresh env (sv_drawn svc);
                       p = new_plan pid (\<lambda>_. []) CRON_PLAN_NAME (u ''Standing plan for cron-scheduled tasks.'')
                             (Some chat) [] (u ''system'') now;
                       g = sv_engine svc
                   in (svc\<lparr>sv_engine := g\<lparr>en_plans := fst (create_plan_body p d)\<rparr>,
                           sv_cron_plans := dset chat pid (sv_cron_plans svc), sv_drawn := sv_drawn svc + 1\<rparr>, pid))))"

definition opt_or :: "'a option \<Rightarrow> 'a option \<Rightarrow> 'a option" where
  "opt_or a b = (case a of Some x \<Rightarrow> Some x | None \<Rightarrow> b)"

definition prompt_section :: "string \<Rightarrow> ustr \<Rightarrow> ustr list" where
  "prompt_section title text = (if text = [] then [] else [[], u title, [], text])"

definition compose_phantom :: "cron_env \<Rightarrow> resolved_job \<Rightarrow> fire_reason option \<Rightarrow> ustr" where
  "compose_phantom env rj reason =
     (let p = opt_or (rj_persona rj) (cc_persona (ce_config env));
          spec = rj_spec rj
      in sep_join [10]
        ([u ''# '' @ (case p of Some p \<Rightarrow> pn_name p | None \<Rightarrow> u ''agent'') @ [32, 8212, 32] @ u ''background job'', []]
         @ (case p of
              None \<Rightarrow> []
            | Some p \<Rightarrow>
                [case ce_identity env p of
                   Some text \<Rightarrow> text
                 | None \<Rightarrow> u ''(persona files for '' @ pn_name p @ u '' unavailable)'']
                @ prompt_section ''## Persona memory'' (ce_persona_memory env p)
                @ prompt_section ''## Promoted facts (user-curated)'' (ce_promoted env p (rj_chat_id rj)))
         @ [[], u ''## Job'', []]
         @ (case reason of None \<Rightarrow> [] | Some r \<Rightarrow> [u ''Trigger: '' @ ce_reason_text env r, []])
         @ [py_strip (case cl_prompt (jb_call spec) of None \<Rightarrow> [] | Some t \<Rightarrow> t), [], u ''## Output contract'', [],
            u ''Write durable findings to '' @ ce_results_dir env (rj_chat_id rj) @ u ''/'' @ jb_id spec @ u ''.last.md.'',
            u ''Reply with a <=3-line summary '' @ [8212] @ u '' that becomes the job result.'']))"

definition path_text :: "py_path \<Rightarrow> ustr" where
  "path_text p = (if fst p then 47 # sep_join [47] (snd p) else if snd p = [] then [46] else sep_join [47] (snd p))"

definition job_cwd :: "cron_env \<Rightarrow> resolved_job \<Rightarrow> py_exn + ustr option" where
  "job_cwd env rj =
     (case cl_cwd (jb_call (rj_spec rj)) of
        Some c \<Rightarrow> if c = [] then Inr (map_option path_text (rj_persona_dir rj))
                  else map_sum id (Some \<circ> path_text) (expanduser (ce_world env) (parse_path c))
      | None \<Rightarrow> Inr (map_option path_text (rj_persona_dir rj)))"

definition label_text :: "source_label \<Rightarrow> ustr" where
  "label_text l = (case l of GlobalFile \<Rightarrow> u ''global'' | PersonaFile \<Rightarrow> u ''persona'')"

definition llm_timeout :: "cron_config \<Rightarrow> call_spec \<Rightarrow> secs" where
  "llm_timeout cfg c =
     (let cap = cc_max_llm_timeout_seconds cfg;
          t = (case cl_timeout_seconds c of Some t \<Rightarrow> if t = 0 then cap else t | None \<Rightarrow> cap)
      in min t cap)"

definition cron_task ::
  "cron_env \<Rightarrow> resolved_job \<Rightarrow> bool \<Rightarrow> bool \<Rightarrow> fire_reason option \<Rightarrow> ustr option \<Rightarrow> ustr \<Rightarrow> secs \<Rightarrow> task" where
  "cron_task env rj catchup manual reason cwd tid now =
     (let spec = rj_spec rj; llm = (cl_type (jb_call spec) = LlmCall)
      in \<lparr>tk_id = tid, tk_name = u ''cron:'' @ jb_id spec,
          tk_description = u ''cron job '' @ jb_id spec @ u '' ('' @ label_text (rj_source_label rj)
            @ (if catchup then u '', catchup'' else []) @ (if manual then u '', manual'' else []) @ u '')''
            @ (case reason of None \<Rightarrow> [] | Some r \<Rightarrow> [32, 8212, 32] @ ce_reason_text env r),
          tk_type = (if llm then ACP else SHELL),
          tk_command = (if llm then [] else case cl_command (jb_call spec) of None \<Rightarrow> [] | Some c \<Rightarrow> c),
          tk_prompt = (if llm then Some (compose_phantom env rj reason) else None),
          tk_depends_on = [], tk_status = PENDING, tk_result = None, tk_log = [], tk_started_at = None,
          tk_completed_at = None, tk_created_at = now, tk_cwd = cwd, tk_stop_reason = None, tk_cancelled = False,
          tk_partial = False, tk_timed_out = False, tk_chat_id = Some (rj_chat_id rj),
          tk_acp_model = (if llm then cl_model (jb_call spec) else None),
          tk_acp_timeout = (if llm then Some (llm_timeout (ce_config env) (jb_call spec)) else None),
          tk_mcp_servers = (if llm then Some [] else None), tk_dispatch_id = None,
          tk_quiet = (jb_delivery spec = SilentDelivery)\<rparr>)"

text \<open>The row of a job that fired; \<open>nd\<close> is the next due time computed from the schedule.\<close>

definition fired_row ::
  "resolved_job \<Rightarrow> ustr \<Rightarrow> ustr \<Rightarrow> secs option \<Rightarrow> bool \<Rightarrow> bool \<Rightarrow> secs \<Rightarrow> cron_state \<Rightarrow> cron_state" where
  "fired_row rj pid tid nd catchup manual now st =
     st\<lparr>cj_running_task_id := Some tid, cj_running_plan_id := Some pid, cj_last_task_id := Some tid,
        cj_last_run_at := Some now, cj_queued_due := False, cj_fired_spec := Some (rj_spec rj),
        cj_fired_chat_id := rj_chat_id rj,
        cj_next_due_at := (if \<not> manual \<and> jb_schedule (rj_spec rj) \<noteq> None then nd else cj_next_due_at st),
        cj_trigger_fired_at := (if \<not> manual \<and> jb_trigger (rj_spec rj) \<noteq> None then Some now else cj_trigger_fired_at st),
        cj_last_status := (if catchup then Some (u ''catchup'') else cj_last_status st)\<rparr>"

definition start_failed_row :: "ustr \<Rightarrow> cron_state \<Rightarrow> cron_state" where
  "start_failed_row msg st =
     st\<lparr>cj_running_task_id := None, cj_running_plan_id := None, cj_last_status := Some (u ''failed''),
        cj_last_summary := u ''could not start: '' @ msg\<rparr>"

definition start_fired ::
  "cron_env \<Rightarrow> ustr \<Rightarrow> ustr \<Rightarrow> secs \<Rightarrow> cron_state \<Rightarrow> cron_service \<Rightarrow> cron_service \<times> cron_state" where
  "start_fired env pid tid now st svc =
     (case engine_start_task pid (Some tid) now (sv_engine svc) of
        (g, Inr t) \<Rightarrow> (svc\<lparr>sv_engine := g\<rparr>, st)
      | (g, Inl e) \<Rightarrow>
          (let st' = start_failed_row (ce_exn_text env e) st;
               g' = fst (engine_fail pid tid (u ''cron could not start: '' @ ce_exn_text env e) plain_end now g)
           in (put_row st' now (svc\<lparr>sv_engine := g'\<rparr>), st')))"

text \<open>The next due time is computed only for a scheduled job that fires on its own.\<close>

definition fire_due :: "cron_env \<Rightarrow> resolved_job \<Rightarrow> bool \<Rightarrow> secs \<Rightarrow> py_exn + secs option" where
  "fire_due env rj manual now =
     (if \<not> manual \<and> jb_schedule (rj_spec rj) \<noteq> None
      then map_sum id Some (job_next_due (ce_world env) (rj_spec rj) now) else Inr None)"

definition materialize ::
  "cron_env \<Rightarrow> resolved_job \<Rightarrow> cron_state \<Rightarrow> secs \<Rightarrow> bool \<Rightarrow> bool \<Rightarrow> fire_reason option \<Rightarrow> cron_service
    \<Rightarrow> cron_service \<times> cron_state \<times> py_exn option" where
  "materialize env rj st now catchup manual reason svc =
     (let (svc1, pid) = cron_plan_id env (rj_chat_id rj) now svc
      in case job_cwd env rj of
           Inl e \<Rightarrow> (svc1, st, Some e)
         | Inr cwd \<Rightarrow>
             (let tid = ce_fresh env (sv_drawn svc1);
                  t = cron_task env rj catchup manual reason cwd tid now;
                  g = sv_engine svc1;
                  (d, r, n) = add_task_body pid t now (en_plans g);
                  svc2 = svc1\<lparr>sv_engine := g\<lparr>en_plans := d\<rparr>, sv_drawn := sv_drawn svc1 + 1\<rparr>
              in case r of
                   None \<Rightarrow> (svc2, st, None)
                 | Some added \<Rightarrow>
                     (case fire_due env rj manual now of
                        Inl e \<Rightarrow> (svc2, st, Some e)
                      | Inr nd \<Rightarrow>
                          (let st1 = fired_row rj pid (tk_id added) nd catchup manual now st;
                               svc3 = put_row st1 now (svc2\<lparr>sv_task_to_job :=
                                 dset (tk_id added) (jb_id (rj_spec rj)) (sv_task_to_job svc2)\<rparr>);
                               (svc4, st2) = start_fired env pid (tk_id added) now st1 svc3
                           in (svc4, st2, None)))))"

subsection \<open>Delivery\<close>

definition task_output :: "task \<Rightarrow> ustr" where
  "task_output t = py_strip (case tk_result t of Some r \<Rightarrow> (if r \<noteq> [] then r else tk_log t) | None \<Rightarrow> tk_log t)"

definition cron_prefix :: ustr where
  "cron_prefix = u ''cron:''"

definition budget_reason :: "ustr \<Rightarrow> bool" where
  "budget_reason r \<longleftrightarrow> prefix (u ''self_wake'') r \<or> prefix cron_prefix r"

definition budget_pending :: "ustr \<Rightarrow> events \<Rightarrow> wake_event list" where
  "budget_pending chat q = filter (\<lambda>e. budget_reason (we_reason e)) (snd (pending_body (Some chat) None q))"

definition turns_on :: "ustr \<Rightarrow> cron_rows \<Rightarrow> int" where
  "turns_on today d = sum_list (map cj_turn_count (filter (\<lambda>st. cj_turn_date st = today) (dvals d)))"

definition armed_cron :: "wake_event list \<Rightarrow> int" where
  "armed_cron es = int (length (filter (\<lambda>e. prefix cron_prefix (we_reason e)) es))"

text \<open>Fires are spaced: a pending fire inside the interval window pushes this one behind it.\<close>

definition spaced_time :: "cron_config \<Rightarrow> secs \<Rightarrow> wake_event list \<Rightarrow> secs" where
  "spaced_time cfg now es =
     (let i = cc_self_wake_min_interval_seconds cfg;
          colliding = map (\<lambda>e. max (we_scheduled_at e) now) (filter (\<lambda>e. we_scheduled_at e < now + i) es)
      in if colliding = [] then now else foldr max (tl colliding) (hd colliding) + i)"

definition turn_message :: "job_spec \<Rightarrow> ustr option \<Rightarrow> ustr \<Rightarrow> ustr" where
  "turn_message j status summary =
     u ''[cron: '' @ jb_id j @ u '' finished '' @ [8212, 32] @ (case status of None \<Rightarrow> u ''None'' | Some s \<Rightarrow> s) @ u '']'' @ [10]
     @ (if summary = [] then u ''(no summary)'' else summary) @ [10, 10]
     @ u ''A scheduled job delivered this result as a turn '' @ [8212] @ u '' respond with judgment.''"

definition turn_wake :: "ustr \<Rightarrow> resolved_job \<Rightarrow> cron_state \<Rightarrow> task \<Rightarrow> secs \<Rightarrow> secs \<Rightarrow> wake_event" where
  "turn_wake fresh rj st t at_time now = enqueue_event fresh
     \<lparr>we_id = [], we_chat_id = rj_chat_id rj, we_reason = cron_prefix @ jb_id (rj_spec rj), we_priority = 1,
       we_scheduled_at = at_time,
       we_payload = [(u ''user_message'', JStr (turn_message (rj_spec rj) (cj_last_status st) (task_output t))),
         (u ''agent_reason'', JStr (cron_prefix @ jb_id (rj_spec rj))), (u ''notify'', JBool True),
         (u ''cron_job_id'', JStr (jb_id (rj_spec rj)))],
       we_silent = False, we_created_at = now, we_ready = True, we_attempts = 0, we_leased_until = None\<rparr>"

definition deliver_turn ::
  "cron_env \<Rightarrow> resolved_job \<Rightarrow> cron_state \<Rightarrow> task \<Rightarrow> secs \<Rightarrow> cron_service \<Rightarrow> cron_service \<times> turn_outcome" where
  "deliver_turn env rj st t now svc =
     (case sv_wakes svc of
        None \<Rightarrow> (svc, NoWakeQueue)
      | Some q \<Rightarrow>
          (let cfg = ce_config env;
               es = budget_pending (rj_chat_id rj) q;
               at_time = spaced_time cfg now es
           in if turns_on (w_local_day (ce_world env) now) (sv_rows svc) + armed_cron es \<ge> cc_turn_delivery_max_per_day cfg
              then (svc, DailyCapReached)
              else if int (length es) \<ge> cc_self_wake_max_pending cfg then (svc, WakeBudgetReached)
              else (svc\<lparr>sv_wakes := Some (fst (enqueue_body
                       (turn_wake (ce_fresh env (sv_drawn svc)) rj st t at_time now) q)), sv_drawn := sv_drawn svc + 1\<rparr>,
                    if at_time > now then TurnDeferred (at_time - now) else TurnNow)))"

definition deliver :: "cron_env \<Rightarrow> resolved_job \<Rightarrow> cron_state \<Rightarrow> task \<Rightarrow> secs \<Rightarrow> cron_service \<Rightarrow> cron_service" where
  "deliver env rj st t now svc =
     (let spec = rj_spec rj;
          (svc1, outcome) = (if jb_delivery spec = TurnDelivery
             then (let (s, r) = deliver_turn env rj st t now svc in (s, TurnResult r))
             else (svc, FilesOnly (jb_delivery spec)))
      in svc1\<lparr>sv_results := sv_results svc1 @
           [\<lparr>cr_chat = rj_chat_id rj, cr_job = jb_id spec, cr_task = tk_id t, cr_delivery = jb_delivery spec,
             cr_delivery_result = outcome, cr_status = cj_last_status st, cr_finished_at = cj_last_finished_at st,
             cr_next_due_at = cj_next_due_at st, cr_failures = cj_consecutive_failures st,
             cr_last_summary = cj_last_summary st, cr_log_summary = take 500 (task_output t)\<rparr>]\<rparr>)"

text \<open>The firing specification wins over the current one.\<close>

definition delivery_context :: "cron_state \<Rightarrow> resolved_job option \<Rightarrow> resolved_job option" where
  "delivery_context st resolved =
     (let spec = opt_or (cj_fired_spec st) (map_option rj_spec resolved);
          chat = (if cj_fired_chat_id st \<noteq> [] then cj_fired_chat_id st
                  else case resolved of None \<Rightarrow> [] | Some rj \<Rightarrow> rj_chat_id rj)
      in case spec of
           None \<Rightarrow> None
         | Some j \<Rightarrow>
             if chat = [] then None
             else Some \<lparr>rj_spec = j,
               rj_source_file = (case resolved of Some rj \<Rightarrow> rj_source_file rj
                 | None \<Rightarrow> if cj_source_file st = [] then [46] else cj_source_file st),
               rj_source_label = (case resolved of Some rj \<Rightarrow> rj_source_label rj | None \<Rightarrow> PersonaFile),
               rj_chat_id = chat, rj_persona = Option.bind resolved rj_persona,
               rj_persona_dir = Option.bind resolved rj_persona_dir\<rparr>)"

definition record_turn_delivery :: "cron_env \<Rightarrow> ustr \<Rightarrow> secs \<Rightarrow> cron_service \<Rightarrow> cron_service" where
  "record_turn_delivery env job now svc =
     (case dget job (sv_rows svc) of
        None \<Rightarrow> svc
      | Some st \<Rightarrow>
          (let today = w_local_day (ce_world env) now;
               st1 = (if cj_turn_date st \<noteq> today then st\<lparr>cj_turn_date := today, cj_turn_count := 0\<rparr> else st)
           in put_row (st1\<lparr>cj_turn_count := cj_turn_count st1 + 1\<rparr>) now svc))"

end
