(* ===== verification/CronTick.thy ===== *)
theory CronTick
  imports CronService
begin

section \<open>The cron service: triggers, ticks and finished runs\<close>

text \<open>
  The other half of \<open>src/src/diploid_agent/runtime/cron_service.py\<close>: triggers, the tick with its boot pass
  and its reconciliation, finalizing a run, the bus event, the manual run, and the reload of the job files.
\<close>

subsection \<open>Triggers\<close>

text \<open>Python compares numbers (booleans among them) and strings; other pairs are unequal and have no order.\<close>

fun json_number :: "json \<Rightarrow> real option" where
  "json_number (JBool b) = Some (if b then 1 else 0)"
| "json_number (JInt i) = Some (of_int i)"
| "json_number (JFloat r) = Some r"
| "json_number _ = None"

fun value_number :: "trigger_value \<Rightarrow> real option" where
  "value_number (TNum r) = Some r"
| "value_number (TBool b) = Some (if b then 1 else 0)"
| "value_number (TStr s) = None"

fun str_less :: "ustr \<Rightarrow> ustr \<Rightarrow> bool" where
  "str_less s [] = False"
| "str_less [] (d # t) = True"
| "str_less (c # s) (d # t) = (c < d \<or> (c = d \<and> str_less s t))"

definition compare_by :: "cmp_op \<Rightarrow> bool \<Rightarrow> bool \<Rightarrow> bool" where
  "compare_by op lt eq =
     (case op of OpGt \<Rightarrow> \<not> lt \<and> \<not> eq | OpGe \<Rightarrow> \<not> lt | OpLt \<Rightarrow> lt | OpLe \<Rightarrow> lt \<or> eq | OpEq \<Rightarrow> eq | OpNe \<Rightarrow> \<not> eq)"

definition py_compare :: "json \<Rightarrow> cmp_op \<Rightarrow> trigger_value \<Rightarrow> bool" where
  "py_compare j op v =
     (case (json_number j, value_number v) of
        (Some x, Some y) \<Rightarrow> compare_by op (x < y) (x = y)
      | _ \<Rightarrow> (case (j, v) of
          (JStr s, TStr t) \<Rightarrow> compare_by op (str_less s t) (s = t)
        | _ \<Rightarrow> op = OpNe))"

definition trigger_compare :: "json \<Rightarrow> cmp_op option \<Rightarrow> trigger_value option \<Rightarrow> bool" where
  "trigger_compare current op v =
     (case op of None \<Rightarrow> False
      | Some op \<Rightarrow> current \<noteq> JNull \<and>
          (case v of Some v \<Rightarrow> py_compare current op v | None \<Rightarrow> op = OpNe))"

text \<open>
  An evaluation gives the row, saved if it changed, and the reason to fire, if any.  A path the merge accepted
  resolves without an error.
\<close>

type_synonym evaluation = "cron_state \<times> bool \<times> fire_reason option"

definition in_cooldown :: "cron_state \<Rightarrow> secs \<Rightarrow> secs \<Rightarrow> bool" where
  "in_cooldown st now cooldown = (case cj_trigger_fired_at st of None \<Rightarrow> False | Some f \<Rightarrow> now - f < cooldown)"

definition overlap_row :: "job_spec \<Rightarrow> cron_state \<Rightarrow> cron_state" where
  "overlap_row j st =
     (if jb_overlap j = OverlapQueue then st\<lparr>cj_queued_due := True\<rparr> else st\<lparr>cj_last_status := Some (u ''skipped'')\<rparr>)"

definition eval_file_trigger ::
  "cron_env \<Rightarrow> fs_view \<Rightarrow> resolved_job \<Rightarrow> trigger_spec \<Rightarrow> cron_state \<Rightarrow> secs \<Rightarrow> secs \<Rightarrow> evaluation" where
  "eval_file_trigger env view rj trig st now cooldown =
     (case resolve_trigger_path (ce_world env) (ce_config env) rj (case tg_path trig of None \<Rightarrow> [] | Some s \<Rightarrow> s) of
        Inr (Some path) \<Rightarrow>
          (case fv_mtime view path of
             None \<Rightarrow> (st, False, None)
           | Some mtime \<Rightarrow>
               if cj_trigger_seen_mtime st = None then (st\<lparr>cj_trigger_seen_mtime := Some mtime\<rparr>, True, None)
               else if cj_trigger_seen_mtime st = Some mtime then (st, False, None)
               else if in_cooldown st now cooldown then (st, False, None)
               else if cj_running_task_id st \<noteq> None
               then (overlap_row (rj_spec rj) (st\<lparr>cj_trigger_seen_mtime := Some mtime\<rparr>), True, None)
               else (st\<lparr>cj_trigger_seen_mtime := Some mtime\<rparr>, True, Some (FileChanged path)))
      | _ \<Rightarrow> (st, False, None))"

definition body_field :: "json option \<Rightarrow> ustr option \<Rightarrow> json" where
  "body_field data field =
     (case (data, field) of
        (Some (JObj kvs), Some f) \<Rightarrow> (case dget f kvs of None \<Rightarrow> JNull | Some v \<Rightarrow> v)
      | _ \<Rightarrow> JNull)"

fun body_value :: "json \<Rightarrow> json" where
  "body_value (JObj kvs) = (case dget (u ''value'') kvs of None \<Rightarrow> JObj kvs | Some v \<Rightarrow> v)"
| "body_value j = j"

definition current_value :: "cron_env \<Rightarrow> fs_view \<Rightarrow> resolved_job \<Rightarrow> trigger_spec \<Rightarrow> json" where
  "current_value env view rj trig =
     (let root = cc_sessions_root (ce_config env);
          own = body_field (fv_json view (path_join (path_join root (parse_path (safe_dir_name (rj_chat_id rj))))
                  (parse_path (u ''chat_body_state.json'')))) (tg_field trig)
      in body_value (if own \<noteq> JNull then own
           else body_field (fv_json view (path_join root (parse_path (u ''persona_body_state.json'')))) (tg_field trig)))"

definition eval_body_trigger ::
  "cron_env \<Rightarrow> fs_view \<Rightarrow> resolved_job \<Rightarrow> trigger_spec \<Rightarrow> cron_state \<Rightarrow> secs \<Rightarrow> secs \<Rightarrow> evaluation" where
  "eval_body_trigger env view rj trig st now cooldown =
     (let current = current_value env view rj trig
      in if \<not> trigger_compare current (tg_op trig) (tg_value trig)
         then (if cj_trigger_held st then (st\<lparr>cj_trigger_held := False\<rparr>, True, None) else (st, False, None))
         else if cj_trigger_held st then (st, False, None)
         else if in_cooldown st now cooldown then (st, False, None)
         else if cj_running_task_id st \<noteq> None
         then (overlap_row (rj_spec rj) (st\<lparr>cj_trigger_held := True\<rparr>), True, None)
         else (st\<lparr>cj_trigger_held := True\<rparr>, True, Some (BodyCrossed trig current)))"

definition eval_trigger ::
  "cron_env \<Rightarrow> fs_view \<Rightarrow> resolved_job \<Rightarrow> trigger_spec \<Rightarrow> cron_state \<Rightarrow> secs \<Rightarrow> evaluation" where
  "eval_trigger env view rj trig st now =
     (let cooldown = cooldown_of (ce_config env) trig
      in if tg_type trig = FileTrigger then eval_file_trigger env view rj trig st now cooldown
         else eval_body_trigger env view rj trig st now cooldown)"

definition tick_trigger ::
  "cron_env \<Rightarrow> fs_view \<Rightarrow> resolved_job \<Rightarrow> trigger_spec \<Rightarrow> cron_state \<Rightarrow> secs \<Rightarrow> cron_service
    \<Rightarrow> cron_service \<times> py_exn option" where
  "tick_trigger env view rj trig st now svc =
     (let (st1, saved, reason) = eval_trigger env view rj trig st now;
          svc1 = (if saved then put_row st1 now svc else svc)
      in case reason of
           None \<Rightarrow> (svc1, None)
         | Some r \<Rightarrow>
             (let (svc2, st2, e) = materialize env rj st1 now False False (Some r) svc1 in (svc2, e)))"

subsection \<open>One job of a tick\<close>

definition discard :: "ustr \<Rightarrow> ustr list \<Rightarrow> ustr list" where
  "discard x xs = filter (\<lambda>y. y \<noteq> x) xs"

datatype drift = Stop | Go cron_state

text \<open>A row whose recorded driver is not the current one; a job without a schedule resets its trigger.\<close>

definition sync_driver ::
  "cron_env \<Rightarrow> job_spec \<Rightarrow> cron_state \<Rightarrow> secs \<Rightarrow> cron_service \<Rightarrow> cron_service \<times> (py_exn + drift)" where
  "sync_driver env j st now svc =
     (if cj_schedule_key st = driver_of j then (svc, Inr (Go st))
      else if cj_schedule_key st = None
      then (let st1 = st\<lparr>cj_schedule_key := driver_of j\<rparr> in (put_row st1 now svc, Inr (Go st1)))
      else if cj_running_task_id st = None
      then (let st1 = st\<lparr>cj_schedule_key := driver_of j\<rparr>
            in if jb_trigger j \<noteq> None
               then (let st2 = reset_trigger st1 in (put_row st2 now svc, Inr (Go st2)))
               else (case job_next_due (ce_world env) j now of
                       Inl e \<Rightarrow> (svc, Inl e)
                     | Inr t \<Rightarrow> ((put_row (st1\<lparr>cj_next_due_at := Some t\<rparr>) now svc)
                                   \<lparr>sv_catchup := discard (jb_id j) (sv_catchup svc)\<rparr>, Inr Stop)))
      else (svc, Inr (Go st)))"

definition tick_schedule ::
  "cron_env \<Rightarrow> resolved_job \<Rightarrow> cron_state \<Rightarrow> secs \<Rightarrow> cron_service \<Rightarrow> cron_service \<times> py_exn option" where
  "tick_schedule env rj st now svc =
     (let j = rj_spec rj
      in case cj_next_due_at st of
           None \<Rightarrow>
             (case job_next_due (ce_world env) j now of
                Inl e \<Rightarrow> (svc, Some e)
              | Inr t \<Rightarrow> (put_row (st\<lparr>cj_next_due_at := Some t\<rparr>) now svc, None))
         | Some due_at \<Rightarrow>
             if due_at > now then (svc, None)
             else if cj_running_task_id st \<noteq> None then (put_row (overlap_row j st) now svc, None)
             else (case materialize env rj st now (jb_id j \<in> set (sv_catchup svc)) False None svc of
                     (svc1, st1, Some e) \<Rightarrow> (svc1, Some e)
                   | (svc1, st1, None) \<Rightarrow> (svc1\<lparr>sv_catchup := discard (jb_id j) (sv_catchup svc1)\<rparr>, None)))"

definition tick_job ::
  "cron_env \<Rightarrow> fs_view \<Rightarrow> secs \<Rightarrow> resolved_job \<Rightarrow> cron_service \<Rightarrow> cron_service \<times> py_exn option" where
  "tick_job env view now rj svc =
     (let j = rj_spec rj
      in if \<not> jb_enabled j then (svc, None)
         else (let (rows, st0) = ensure_row (jb_id j) (rj_source_file rj) now (sv_rows svc);
                   svc1 = svc\<lparr>sv_rows := rows\<rparr>
               in if cj_disabled st0 then (svc1, None)
                  else (case sync_driver env j (st0\<lparr>cj_source_file := rj_source_file rj\<rparr>) now svc1 of
                          (svc2, Inl e) \<Rightarrow> (svc2, Some e)
                        | (svc2, Inr Stop) \<Rightarrow> (svc2, None)
                        | (svc2, Inr (Go st)) \<Rightarrow>
                            (case jb_trigger j of
                               Some trig \<Rightarrow> tick_trigger env view rj trig st now svc2
                             | None \<Rightarrow> tick_schedule env rj st now svc2))))"

text \<open>An exception ends the walk over the table: the jobs after it are not looked at.\<close>

fun tick_jobs ::
  "cron_env \<Rightarrow> fs_view \<Rightarrow> secs \<Rightarrow> resolved_job list \<Rightarrow> cron_service \<Rightarrow> cron_service \<times> py_exn option" where
  "tick_jobs env view now [] svc = (svc, None)"
| "tick_jobs env view now (rj # rjs) svc =
     (case tick_job env view now rj svc of
        (svc1, Some e) \<Rightarrow> (svc1, Some e)
      | (svc1, None) \<Rightarrow> tick_jobs env view now rjs svc1)"

subsection \<open>Finished runs\<close>

definition first_line :: "ustr \<Rightarrow> ustr" where
  "first_line s = (case splitlines s of [] \<Rightarrow> [] | l # ls \<Rightarrow> take 200 l)"

definition run_succeeded :: "task \<Rightarrow> bool \<Rightarrow> bool" where
  "run_succeeded t failed_event \<longleftrightarrow> tk_status t = DONE \<and> \<not> tk_timed_out t \<and> \<not> failed_event"

definition failure_limit :: "resolved_job option \<Rightarrow> int" where
  "failure_limit resolved = (case resolved of Some rj \<Rightarrow> jb_max_consecutive_failures (rj_spec rj) | None \<Rightarrow> 3)"

definition disabled_summary :: "int \<Rightarrow> ustr \<Rightarrow> ustr" where
  "disabled_summary n summary = u ''auto-disabled after '' @ str_of_int n @ u '' consecutive failures: '' @ summary"

definition finished_row :: "resolved_job option \<Rightarrow> task \<Rightarrow> bool \<Rightarrow> secs \<Rightarrow> cron_state \<Rightarrow> cron_state" where
  "finished_row resolved t failed_event now st =
     (let ok = run_succeeded t failed_event; n = cj_consecutive_failures st + 1;
          summary = first_line (task_output t);
          st1 = st\<lparr>cj_last_summary := summary, cj_last_status := Some (if ok then u ''ok'' else u ''failed''),
            cj_last_finished_at := Some now, cj_running_task_id := None, cj_running_plan_id := None\<rparr>
      in if ok then st1\<lparr>cj_consecutive_failures := 0, cj_disabled := False\<rparr>
         else if n \<ge> failure_limit resolved
         then st1\<lparr>cj_consecutive_failures := n, cj_disabled := True, cj_last_status := Some (u ''disabled''),
                cj_last_summary := disabled_summary n summary\<rparr>
         else st1\<lparr>cj_consecutive_failures := n\<rparr>)"

text \<open>A driver edited while the run was in flight is adopted now.\<close>

definition adopt_driver :: "cron_env \<Rightarrow> resolved_job option \<Rightarrow> secs \<Rightarrow> cron_state \<Rightarrow> py_exn + cron_state" where
  "adopt_driver env resolved now st =
     (case resolved of
        None \<Rightarrow> Inr st
      | Some rj \<Rightarrow>
          if cj_schedule_key st = driver_of (rj_spec rj) then Inr st
          else (let st1 = st\<lparr>cj_schedule_key := driver_of (rj_spec rj)\<rparr>
                in if jb_trigger (rj_spec rj) \<noteq> None then Inr (reset_trigger st1)
                   else map_sum id (\<lambda>t. st1\<lparr>cj_next_due_at := Some t\<rparr>) (job_next_due (ce_world env) (rj_spec rj) now)))"

definition settle_run ::
  "cron_env \<Rightarrow> resolved_job option \<Rightarrow> task \<Rightarrow> secs \<Rightarrow> cron_state \<Rightarrow> cron_service \<Rightarrow> cron_service \<times> py_exn option" where
  "settle_run env resolved t now st svc =
     (let svc1 = put_row st now svc;
          svc2 = (case delivery_context st resolved of None \<Rightarrow> svc1 | Some ctx \<Rightarrow> deliver env ctx st t now svc1)
      in case resolved of
           None \<Rightarrow> (svc2\<lparr>sv_rows := drop_row (cj_job_id st) (sv_rows svc2)\<rparr>, None)
         | Some rj \<Rightarrow>
             if cj_queued_due st \<and> \<not> cj_disabled st
             then (let st1 = st\<lparr>cj_queued_due := False\<rparr>;
                       (svc3, st2, e) = materialize env rj st1 now False False None (put_row st1 now svc2)
                   in (svc3, e))
             else (svc2, None))"

definition finalize ::
  "cron_env \<Rightarrow> ustr \<Rightarrow> task \<Rightarrow> bool \<Rightarrow> secs \<Rightarrow> cron_service \<Rightarrow> cron_service \<times> py_exn option" where
  "finalize env job t failed_event now svc =
     (let resolved = dget job (sv_jobs svc)
      in case dget job (sv_rows svc) of
           None \<Rightarrow> (svc, None)
         | Some fresh \<Rightarrow>
             if cj_running_task_id fresh \<noteq> Some (tk_id t) then (svc, None)
             else (case adopt_driver env resolved now (finished_row resolved t failed_event now fresh) of
                     Inl e \<Rightarrow> (svc, Some e)
                   | Inr st \<Rightarrow> settle_run env resolved t now st svc))"

definition opt_text :: "ustr option \<Rightarrow> ustr" where
  "opt_text x = (case x of None \<Rightarrow> [] | Some s \<Rightarrow> s)"

definition lost_row :: "cron_state \<Rightarrow> cron_state" where
  "lost_row st = st\<lparr>cj_running_task_id := None, cj_running_plan_id := None, cj_last_status := Some (u ''failed''),
     cj_last_summary := u ''task record lost during restart''\<rparr>"

text \<open>The loop works on the rows as they were when it began.\<close>

definition reconcile_row :: "cron_env \<Rightarrow> secs \<Rightarrow> cron_state \<Rightarrow> cron_service \<Rightarrow> cron_service \<times> py_exn option" where
  "reconcile_row env now st svc =
     (case cj_running_task_id st of
        None \<Rightarrow> (svc, None)
      | Some tid \<Rightarrow>
          (case snd (get_task_body (opt_text (cj_running_plan_id st)) tid (en_plans (sv_engine svc))) of
             None \<Rightarrow> (put_row (lost_row st) now svc, None)
           | Some t \<Rightarrow>
               (let svc1 = svc\<lparr>sv_task_to_job := dset (tk_id t) (cj_job_id st) (sv_task_to_job svc)\<rparr>
                in if settled_status (tk_status t) then finalize env (cj_job_id st) t False now svc1 else (svc1, None))))"

fun reconcile_rows :: "cron_env \<Rightarrow> secs \<Rightarrow> cron_state list \<Rightarrow> cron_service \<Rightarrow> cron_service \<times> py_exn option" where
  "reconcile_rows env now [] svc = (svc, None)"
| "reconcile_rows env now (st # sts) svc =
     (case reconcile_row env now st svc of
        (svc1, Some e) \<Rightarrow> (svc1, Some e)
      | (svc1, None) \<Rightarrow> reconcile_rows env now sts svc1)"

definition reconcile_running :: "cron_env \<Rightarrow> secs \<Rightarrow> cron_service \<Rightarrow> cron_service \<times> py_exn option" where
  "reconcile_running env now svc = reconcile_rows env now (dvals (sv_rows svc)) svc"

text \<open>The event of the task engine; another event type, or a task of no job, is ignored.\<close>

fun finished_event :: "engine_event \<Rightarrow> (ustr \<times> bool) option" where
  "finished_event (TaskCompleted pid tid res lg e) = Some (tid, False)"
| "finished_event (TaskFailed pid tid lg e) = Some (tid, True)"
| "finished_event (TaskError pid tid msg) = None"

definition row_of_task :: "ustr \<Rightarrow> ustr option \<Rightarrow> cron_rows \<Rightarrow> cron_state option" where
  "row_of_task tid job d =
     (case Option.bind job (\<lambda>i. dget i d) of
        Some st \<Rightarrow> Some st
      | None \<Rightarrow> find (\<lambda>st. cj_running_task_id st = Some tid \<or> cj_last_task_id st = Some tid) (dvals d))"

definition on_event :: "cron_env \<Rightarrow> engine_event \<Rightarrow> secs \<Rightarrow> cron_service \<Rightarrow> cron_service \<times> py_exn option" where
  "on_event env ev now svc =
     (case finished_event ev of
        None \<Rightarrow> (svc, None)
      | Some (tid, failed) \<Rightarrow>
          if tid = [] then (svc, None)
          else (let job = dget tid (sv_task_to_job svc);
                    svc1 = svc\<lparr>sv_task_to_job := ddel tid (sv_task_to_job svc)\<rparr>
                in case row_of_task tid job (sv_rows svc1) of
                     None \<Rightarrow> (svc1, None)
                   | Some st \<Rightarrow>
                       (case snd (get_task_body (opt_text (cj_running_plan_id st)) tid (en_plans (sv_engine svc1))) of
                          None \<Rightarrow> (svc1, None)
                        | Some t \<Rightarrow> finalize env (cj_job_id st) t failed now svc1)))"

subsection \<open>Manual runs\<close>

datatype run_status = RunStarted | RunFailed

definition run_now ::
  "cron_env \<Rightarrow> ustr \<Rightarrow> secs \<Rightarrow> cron_service \<Rightarrow> cron_service \<times> (py_exn + ustr option \<times> run_status)" where
  "run_now env job now svc =
     (case dget job (sv_jobs svc) of
        None \<Rightarrow> (svc, Inl KeyError)
      | Some rj \<Rightarrow>
          (let (rows, st) = ensure_row job (rj_source_file rj) now (sv_rows svc); svc1 = svc\<lparr>sv_rows := rows\<rparr>
           in if cj_running_task_id st \<noteq> None then (svc1, Inl RuntimeError)
              else (case materialize env rj st now False True None svc1 of
                      (svc2, st2, Some e) \<Rightarrow> (svc2, Inl e)
                    | (svc2, st2, None) \<Rightarrow>
                        (svc2, Inr (cj_last_task_id st2,
                           if cj_running_task_id st2 \<noteq> None then RunStarted else RunFailed)))))"

subsection \<open>Reload, boot and the tick\<close>

definition reload_watches :: "bool \<Rightarrow> fs_view \<Rightarrow> file_watch list \<Rightarrow> (file_watch \<times> bool) list" where
  "reload_watches force view fws = map (\<lambda>fw. reload_watch force (fv_file view (fw_path fw)) fw) fws"

text \<open>The job table is replaced only when a file changed; an exception of the merge leaves the old one.\<close>

definition reload :: "cron_env \<Rightarrow> bool \<Rightarrow> fs_view \<Rightarrow> secs \<Rightarrow> cron_service \<Rightarrow> cron_service \<times> py_exn option" where
  "reload env force view now svc =
     (let rs = reload_watches force view (sv_watches svc); svc1 = svc\<lparr>sv_watches := map fst rs\<rparr>
      in if \<not> force \<and> \<not> list_ex snd rs then (svc1, None)
         else (case merge_jobs (ce_world env) (ce_config env) now (map fst rs) of
                 Inl e \<Rightarrow> (svc1, Some e)
               | Inr (ws, jobs) \<Rightarrow>
                   (svc1\<lparr>sv_jobs := jobs, sv_warnings := ws, sv_rows := remove_missing (dkeys jobs) (sv_rows svc1),
                      sv_service_last := (if cc_fallback_chat_id (ce_config env) = [] then sv_service_last svc1 else Some ws)\<rparr>,
                    None)))"

definition boot_job :: "cron_env \<Rightarrow> secs \<Rightarrow> cron_state option \<Rightarrow> resolved_job \<Rightarrow> cron_service \<Rightarrow> cron_service \<times> py_exn option" where
  "boot_job env now state rj svc =
     (let j = rj_spec rj
      in if jb_trigger j \<noteq> None then (svc, None)
         else (case Option.bind state (\<lambda>st. map_option (\<lambda>t. (st, t)) (cj_next_due_at st)) of
                 None \<Rightarrow> (svc, None)
               | Some (st, due_at) \<Rightarrow>
                   if due_at \<ge> now \<or> cj_disabled st then (svc, None)
                   else if jb_catchup j = CatchupOnce
                   then (svc\<lparr>sv_catchup := jb_id j # discard (jb_id j) (sv_catchup svc)\<rparr>, None)
                   else (case job_next_due (ce_world env) j now of
                           Inl e \<Rightarrow> (svc, Some e)
                         | Inr t \<Rightarrow> (put_row (st\<lparr>cj_next_due_at := Some t\<rparr>) now svc, None))))"

fun boot_jobs ::
  "cron_env \<Rightarrow> secs \<Rightarrow> cron_rows \<Rightarrow> resolved_job list \<Rightarrow> cron_service \<Rightarrow> cron_service \<times> py_exn option" where
  "boot_jobs env now rows [] svc = (svc, None)"
| "boot_jobs env now rows (rj # rjs) svc =
     (case boot_job env now (dget (jb_id (rj_spec rj)) rows) rj svc of
        (svc1, Some e) \<Rightarrow> (svc1, Some e)
      | (svc1, None) \<Rightarrow> boot_jobs env now rows rjs svc1)"

definition boot_pass :: "cron_env \<Rightarrow> secs \<Rightarrow> cron_service \<Rightarrow> cron_service \<times> py_exn option" where
  "boot_pass env now svc =
     (if sv_booted svc then (svc, None)
      else boot_jobs env now (sv_rows svc) (dvals (sv_jobs svc)) (svc\<lparr>sv_booted := True\<rparr>))"

text \<open>One phase after the other; an exception ends the tick.\<close>

definition and_then ::
  "cron_service \<times> py_exn option \<Rightarrow> (cron_service \<Rightarrow> cron_service \<times> py_exn option) \<Rightarrow> cron_service \<times> py_exn option" where
  "and_then r f = (case r of (svc, Some e) \<Rightarrow> (svc, Some e) | (svc, None) \<Rightarrow> f svc)"

definition cron_tick :: "cron_env \<Rightarrow> fs_view \<Rightarrow> secs \<Rightarrow> cron_service \<Rightarrow> cron_service \<times> py_exn option" where
  "cron_tick env view now svc =
     (if \<not> cc_enabled (ce_config env) then (svc, None)
      else and_then (reload env False view now svc)
        (\<lambda>svc1. and_then (boot_pass env now svc1)
        (\<lambda>svc2. and_then (reconcile_running env now svc2)
        (\<lambda>svc3. tick_jobs env view now (dvals (sv_jobs svc3)) svc3))))"

subsection \<open>Firing a job\<close>

text \<open>The ids still to be drawn are new, and the dictionaries are keyed by the ids of their values.\<close>

definition fresh_for :: "cron_env \<Rightarrow> nat \<Rightarrow> plans \<Rightarrow> bool" where
  "fresh_for env n d \<longleftrightarrow> inj (ce_fresh env) \<and> (\<forall>k. ce_fresh env k \<noteq> []) \<and>
     (\<forall>k \<ge> n. \<forall>pid p. dget pid d = Some p \<longrightarrow> pid \<noteq> ce_fresh env k \<and> ce_fresh env k \<notin> tk_id ` set (pl_tasks p))"

definition service_ok :: "cron_env \<Rightarrow> cron_service \<Rightarrow> bool" where
  "service_ok env svc \<longleftrightarrow> plans_ok (en_plans (sv_engine svc)) \<and> rows_ok (sv_rows svc)
     \<and> fresh_for env (sv_drawn svc) (en_plans (sv_engine svc))"

text \<open>What finding or making the standing plan leaves alone.\<close>

definition same_books :: "cron_service \<Rightarrow> cron_service \<Rightarrow> bool" where
  "same_books s s' \<longleftrightarrow> sv_rows s' = sv_rows s \<and> sv_jobs s' = sv_jobs s \<and> sv_results s' = sv_results s
     \<and> sv_wakes s' = sv_wakes s \<and> sv_task_to_job s' = sv_task_to_job s \<and> sv_catchup s' = sv_catchup s
     \<and> en_pool (sv_engine s') = en_pool (sv_engine s) \<and> en_config (sv_engine s') = en_config (sv_engine s)"

lemma same_books_refl [simp]: "same_books s s"
  by (simp add: same_books_def)

lemma plans_ok_dvals: "plans_ok d \<Longrightarrow> p \<in> set (dvals d) \<Longrightarrow> dget (pl_id p) d = Some p"
  unfolding plans_ok_def by (rule keyed_ok_vals [THEN iffD1])

lemma find_Some_mem: "find P xs = Some x \<Longrightarrow> x \<in> set xs \<and> P x"
  by (induction xs) (auto split: if_splits)

lemma find_snoc: "\<forall>x \<in> set xs. \<not> P x \<Longrightarrow> find P (xs @ [y]) = (if P y then Some y else None)"
  by (induction xs) auto

lemma resolve_Nil [simp]: "pl_tasks p = [] \<Longrightarrow> pl_tasks (resolve_statuses p) = []"
  using resolve_statuses_same_task [of p] by simp

lemma cron_plan_id_ok:
  assumes "service_ok env svc" and c: "cron_plan_id env chat now svc = (svc1, pid)"
  shows "service_ok env svc1 \<and> same_books svc svc1 \<and> sv_drawn svc \<le> sv_drawn svc1
    \<and> (\<exists>p. dget pid (en_plans (sv_engine svc1)) = Some p)"
proof (cases "Option.bind (dget chat (sv_cron_plans svc))
    (\<lambda>pid. map_option (\<lambda>_. pid) (snd (get_plan_body pid (en_plans (sv_engine svc)))))")
  case (Some q)
  with c assms(1) show ?thesis
    by (auto simp: cron_plan_id_def Let_def get_plan_body_def split: option.splits bind_splits)
next
  case None
  let ?d = "en_plans (sv_engine svc)"
  let ?f = "find (\<lambda>p. pl_name p = CRON_PLAN_NAME) (snd (list_plans_body (Some chat) ?d))"
  show ?thesis
  proof (cases ?f)
    case (Some p)
    then have "p \<in> set (dvals ?d)"
      by (auto simp: list_plans_body_def dest!: find_Some_mem)
    with assms(1) have "dget (pl_id p) ?d = Some p" by (intro plans_ok_dvals) (auto simp: service_ok_def)
    moreover from c None Some have "svc1 = svc\<lparr>sv_cron_plans := dset chat (pl_id p) (sv_cron_plans svc)\<rparr>" "pid = pl_id p"
      by (auto simp: cron_plan_id_def Let_def)
    ultimately show ?thesis using assms(1) by (auto simp: service_ok_def same_books_def)
  next
    case n: None
    let ?pid = "ce_fresh env (sv_drawn svc)"
    let ?p = "new_plan ?pid (\<lambda>_. []) CRON_PLAN_NAME (u ''Standing plan for cron-scheduled tasks.'') (Some chat) [] (u ''system'') now"
    have p: "pl_id ?p = ?pid" "pl_tasks ?p = []" by (simp_all add: new_plan_def assign_ids_def)
    from c None n have s: "pid = ?pid" "en_plans (sv_engine svc1) = dset ?pid ?p ?d" "sv_drawn svc1 = sv_drawn svc + 1"
      "same_books svc svc1"
      by (auto simp: cron_plan_id_def Let_def create_plan_body_def p same_books_def)
    have "fresh_for env (sv_drawn svc + 1) (dset ?pid ?p ?d)"
      using assms(1) p(2) unfolding service_ok_def fresh_for_def
      by (auto simp: inj_eq split: if_splits)
    moreover have "plans_ok (dset ?pid ?p ?d)" using assms(1) p(1) by (auto simp: service_ok_def intro: plans_ok_dset)
    ultimately show ?thesis using assms(1) s by (auto simp: service_ok_def same_books_def)
  qed
qed

text \<open>A task without dependencies is ready after any sweep.\<close>

definition free_ready :: "task list \<Rightarrow> bool" where
  "free_ready ts \<longleftrightarrow> (\<forall>t \<in> set ts. tk_depends_on t = [] \<longrightarrow> schedulable (tk_status t) \<longrightarrow> tk_status t = READY)"

lemma resolve_task_free:
  "resolve_task ids sm t = (t', sm', c) \<Longrightarrow> tk_depends_on t' = [] \<Longrightarrow> schedulable (tk_status t') \<Longrightarrow> tk_status t' = READY"
  by (auto simp: resolve_task_def missing_deps_def any_failed_def dep_statuses_def schedulable_def split: if_splits)

lemma resolve_sweep_free: "resolve_sweep ids sm ts = (ts', sm', c) \<Longrightarrow> free_ready ts'"
proof (induction ts arbitrary: sm ts' sm' c)
  case (Cons t ts)
  obtain t1 sm1 c1 where 1: "resolve_task ids sm t = (t1, sm1, c1)" by (metis prod_cases3)
  obtain ts2 sm2 c2 where 2: "resolve_sweep ids sm1 ts = (ts2, sm2, c2)" by (metis prod_cases3)
  with Cons.prems 1 have "ts' = t1 # ts2" by simp
  with Cons.IH [OF 2] resolve_task_free [OF 1] show ?case by (simp add: free_ready_def)
qed (simp add: free_ready_def)

lemma resolve_loop_free: "free_ready (fst (resolve_loop ids sm ts))"
proof (induction ids sm ts rule: resolve_loop.induct)
  case (1 ids sm ts)
  obtain ts1 sm1 c where sw: "resolve_sweep ids sm ts = (ts1, sm1, c)" by (metis prod_cases3)
  with "1.IH" resolve_sweep_free [OF sw] show ?case
    by (cases c) (simp_all add: resolve_loop.simps [of ids sm ts])
qed

lemma resolve_statuses_free: "free_ready (pl_tasks (resolve_statuses p))"
  by (simp add: resolve_statuses_def resolve_loop_free)

lemma add_fresh_task:
  assumes "plans_ok d" and "dget pid d = Some p" and "tk_id t \<notin> tk_id ` set (pl_tasks p)"
    and "tk_depends_on t = []" and "schedulable (tk_status t)"
  shows "\<exists>added p'. add_task_body pid t now d = (dset pid p' d, (Some added, Some p')) \<and> tk_id added = tk_id t
    \<and> same_task t added \<and> tk_status added = READY \<and> get_task_in_plan p' (tk_id t) = Some added \<and> pl_id p' = pid \<and> tk_id ` set (pl_tasks p') = insert (tk_id t) (tk_id ` set (pl_tasks p))"
proof -
  let ?p = "p\<lparr>pl_tasks := pl_tasks p @ [t]\<rparr>"
  have r: "list_all2 same_task (pl_tasks ?p) (pl_tasks (resolve_statuses ?p))" by (rule resolve_statuses_same_task)
  have "\<forall>x \<in> set (pl_tasks p). tk_id x \<noteq> tk_id t" using assms(3) by (metis imageI)
  then have "find (\<lambda>x. tk_id x = tk_id t) (pl_tasks ?p) = Some t"
    using find_snoc [of "pl_tasks p" "\<lambda>x. tk_id x = tk_id t" t] by simp
  from find_same_task [OF r this] obtain added where
    a: "find (\<lambda>x. tk_id x = tk_id t) (pl_tasks (resolve_statuses ?p)) = Some added" "same_task t added" by blast
  have "added \<in> set (pl_tasks (resolve_statuses ?p))" using find_Some_mem [OF a(1)] by blast
  with resolve_statuses_free [of ?p] same_task_frame [OF a(2)] assms(4,5) have ready: "tk_status added = READY"
    by (simp add: free_ready_def)
  have "map tk_id (pl_tasks (resolve_statuses ?p)) = map tk_id (pl_tasks ?p)" by (rule list_all2_same_ids [OF r])
  then have "set (map tk_id (pl_tasks (resolve_statuses ?p))) = set (map tk_id (pl_tasks ?p))" by simp
  then have "tk_id ` set (pl_tasks (resolve_statuses ?p)) = insert (tk_id t) (tk_id ` set (pl_tasks p))" by simp
  with a ready assms show ?thesis
    by (auto simp: add_task_body_def Let_def get_task_in_plan_def plans_ok_get dest: find_Some_mem)
qed

lemma pool_submit_runs: "pool_submit i w = (w', Inr b) \<Longrightarrow> pool_is_running i w'"
  by (auto simp: pool_submit_def pool_is_running_def Let_def split: option.splits bool.splits if_splits)

lemma engine_start_runs:
  "engine_start_task pid (Some tid) now g = (g', Inr t) \<Longrightarrow> pool_is_running (tk_id t) (en_pool g') \<and> tk_id t = tid"
  by (auto simp: engine_start_task_def pick_task_def start_task_body_def get_task_in_plan_def Let_def
      split: option.splits sum.splits prod.splits if_splits dest: pool_submit_runs find_Some_mem)

text \<open>An engine with at least one configured worker whose pool was not shut down takes a ready task.\<close>

definition accepting :: "engine \<Rightarrow> bool" where
  "accepting g \<longleftrightarrow> wp_running (en_pool g) \<and> 1 \<le> tc_workers (en_config g)"

lemma pool_resize_running: "pool_resize n w = Inr w' \<Longrightarrow> wp_running w' = wp_running w"
  by (auto simp: pool_resize_def prune_done_def split: if_splits)

lemma pool_submit_running: "wp_running (fst (pool_submit i w)) = wp_running w"
  by (auto simp: pool_submit_def prune_done_def Let_def split: option.splits bool.splits)

lemma accepting_start: "accepting (fst (engine_start_task pid tid now g)) = accepting g"
  using pool_submit_running pool_resize_running
  by (auto simp: engine_start_task_def accepting_def Let_def split: sum.splits option.splits prod.splits)
    (metis fst_conv)+

lemma accepting_fail: "accepting (fst (engine_fail pid tid lg e now g)) = accepting g"
  by (simp add: engine_fail_def accepting_def case_prod_unfold Let_def)

lemma engine_accepts:
  assumes "dget pid (en_plans g) = Some p" and "get_task_in_plan p tid = Some t" and "tk_status t = READY" and "accepting g"
  shows "\<exists>g' s. engine_start_task pid (Some tid) now g = (g', Inr s)"
proof -
  have "find (\<lambda>t. tk_id t = tid) (update_first tid (\<lambda>t. t\<lparr>tk_status := RUNNING, tk_started_at := Some now\<rparr>) (pl_tasks p))
      = Some (t\<lparr>tk_status := RUNNING, tk_started_at := Some now\<rparr>)"
    by (rule find_update_first_same) (use assms(2) in \<open>simp_all add: get_task_in_plan_def\<close>)
  then obtain d' s n where s: "start_task_body pid tid now (en_plans g) = (d', Some s, n)"
    using assms(1-3) by (auto simp: start_task_body_def get_task_in_plan_def Let_def)
  have p: "pick_task pid (Some tid) (en_plans g) = Inr tid"
    using assms(1-3) by (simp add: pick_task_def get_task_body_def)
  obtain w where w: "pool_resize (tc_workers (en_config g)) (en_pool g) = Inr w"
    using assms(4) by (simp add: pool_resize_def accepting_def) fastforce
  then have "wp_running w" using pool_resize_running assms(4) by (auto simp: accepting_def)
  then have "\<exists>w' b. pool_submit (tk_id s) w = (w', Inr b)"
    by (auto simp: pool_submit_def Let_def split: option.splits bool.splits)
  then obtain w' b where "pool_submit (tk_id s) w = (w', Inr b)" by blast
  with p s w show ?thesis by (simp add: engine_start_task_def Let_def)
qed

lemma put_row_sel [simp, frame_simps]:
  "sv_jobs (put_row st now svc) = sv_jobs svc" "sv_results (put_row st now svc) = sv_results svc"
  "sv_wakes (put_row st now svc) = sv_wakes svc" "sv_engine (put_row st now svc) = sv_engine svc"
  "sv_drawn (put_row st now svc) = sv_drawn svc" "sv_catchup (put_row st now svc) = sv_catchup svc"
  "sv_task_to_job (put_row st now svc) = sv_task_to_job svc"
  "dget i (sv_rows (put_row st now svc)) = (if i = cj_job_id st then Some (st\<lparr>cj_updated_at := now\<rparr>) else dget i (sv_rows svc))"
  by (simp_all add: put_row_def)

lemma fired_row_sel [simp]:
  "cj_job_id (fired_row rj pid tid nd c m now st) = cj_job_id st"
  "cj_job_id (start_failed_row msg st) = cj_job_id st"
  by (simp_all add: fired_row_def start_failed_row_def)

text \<open>A started run, or one the engine refused.\<close>

definition launched :: "ustr \<Rightarrow> cron_state \<Rightarrow> cron_state \<Rightarrow> cron_service \<Rightarrow> bool" where
  "launched tid st st' svc \<longleftrightarrow>
     (st' = st \<and> pool_is_running tid (en_pool (sv_engine svc)))
     \<or> (\<exists>msg. st' = start_failed_row msg st \<and> \<not> accepting (sv_engine svc))"

lemma start_fired_launches:
  assumes "start_fired env pid tid now st svc = (svc', st')"
    and "dget (cj_job_id st) (sv_rows svc) = Some (st\<lparr>cj_updated_at := now\<rparr>)"
    and "dget pid (en_plans (sv_engine svc)) = Some p" and "get_task_in_plan p tid = Some t" and "tk_status t = READY"
  shows "launched tid st st' svc' \<and> cj_job_id st' = cj_job_id st \<and>
    (\<forall>i. dget i (sv_rows svc') = (if i = cj_job_id st then Some (st'\<lparr>cj_updated_at := now\<rparr>) else dget i (sv_rows svc))) \<and>
    sv_jobs svc' = sv_jobs svc \<and> sv_results svc' = sv_results svc \<and> sv_wakes svc' = sv_wakes svc
    \<and> accepting (sv_engine svc') = accepting (sv_engine svc)"
proof (cases "engine_start_task pid (Some tid) now (sv_engine svc)")
  case (Pair g r)
  show ?thesis
  proof (cases r)
    case (Inl e)
    with Pair engine_accepts [OF assms(3-5), where now = now] have "\<not> accepting (sv_engine svc)" by auto
    with Pair accepting_start [of pid "Some tid" now "sv_engine svc"] have "\<not> accepting g" by simp
    with assms(1,2) Pair Inl accepting_start [of pid "Some tid" now "sv_engine svc"]
    show ?thesis by (auto simp: start_fired_def launched_def Let_def accepting_fail)
  next
    case (Inr t)
    with assms(1,2) Pair engine_start_runs [of pid tid now "sv_engine svc" g t] accepting_start [of pid "Some tid" now "sv_engine svc"]
    show ?thesis by (auto simp: start_fired_def launched_def)
  qed
qed

lemma materialize_fires:
  assumes ok: "service_ok env svc" and cwd: "job_cwd env rj = Inr cwd" and nd: "fire_due env rj manual now = Inr nd"
  shows "\<exists>pid k svc' st'. let tid = ce_fresh env k; st1 = fired_row rj pid tid nd catchup manual now st in
    materialize env rj st now catchup manual reason svc = (svc', st', None) \<and> sv_drawn svc \<le> k \<and>
    launched tid st1 st' svc' \<and> cj_job_id st' = cj_job_id st \<and>
    (\<forall>i. dget i (sv_rows svc') = (if i = cj_job_id st then Some (st'\<lparr>cj_updated_at := now\<rparr>) else dget i (sv_rows svc))) \<and>
    sv_jobs svc' = sv_jobs svc \<and> sv_results svc' = sv_results svc \<and> sv_wakes svc' = sv_wakes svc
    \<and> accepting (sv_engine svc') = accepting (sv_engine svc)"
proof -
  obtain svc1 pid where c: "cron_plan_id env (rj_chat_id rj) now svc = (svc1, pid)" by force
  from cron_plan_id_ok [OF ok c] obtain p where ok1: "service_ok env svc1" and same: "same_books svc svc1"
    and le: "sv_drawn svc \<le> sv_drawn svc1" and p: "dget pid (en_plans (sv_engine svc1)) = Some p" by blast
  let ?tid = "ce_fresh env (sv_drawn svc1)"
  let ?t = "cron_task env rj catchup manual reason cwd ?tid now"
  have t: "tk_id ?t = ?tid" "tk_depends_on ?t = []" "schedulable (tk_status ?t)"
    by (simp_all add: cron_task_def schedulable_def Let_def)
  from ok1 p t have new: "tk_id ?t \<notin> tk_id ` set (pl_tasks p)" by (auto simp: service_ok_def fresh_for_def)
  from ok1 have "plans_ok (en_plans (sv_engine svc1))" by (simp add: service_ok_def)
  from add_fresh_task [OF this p new t(2,3), where now = now] t(1) obtain added p' where
    a: "add_task_body pid ?t now (en_plans (sv_engine svc1)) = (dset pid p' (en_plans (sv_engine svc1)), Some added, Some p')"
      "tk_id added = ?tid" "get_task_in_plan p' ?tid = Some added" "tk_status added = READY" by auto
  let ?st1 = "fired_row rj pid ?tid nd catchup manual now st"
  let ?svc3 = "put_row ?st1 now (svc1\<lparr>sv_engine := (sv_engine svc1)\<lparr>en_plans := dset pid p' (en_plans (sv_engine svc1))\<rparr>,
      sv_drawn := sv_drawn svc1 + 1, sv_task_to_job := dset ?tid (jb_id (rj_spec rj)) (sv_task_to_job svc1)\<rparr>)"
  obtain svc4 st2 where s: "start_fired env pid ?tid now ?st1 ?svc3 = (svc4, st2)" by force
  have "materialize env rj st now catchup manual reason svc = (svc4, st2, None)"
    using c cwd a(1,2) nd s by (simp add: materialize_def Let_def)
  moreover have "launched ?tid ?st1 st2 svc4 \<and> cj_job_id st2 = cj_job_id ?st1 \<and>
    (\<forall>i. dget i (sv_rows svc4) = (if i = cj_job_id ?st1 then Some (st2\<lparr>cj_updated_at := now\<rparr>) else dget i (sv_rows ?svc3))) \<and>
    sv_jobs svc4 = sv_jobs ?svc3 \<and> sv_results svc4 = sv_results ?svc3 \<and> sv_wakes svc4 = sv_wakes ?svc3
    \<and> accepting (sv_engine svc4) = accepting (sv_engine ?svc3)"
    by (rule start_fired_launches [OF s]) (use a in simp_all)
  ultimately show ?thesis using le same
    by (intro exI [of _ pid] exI [of _ "sv_drawn svc1"] exI [of _ svc4] exI [of _ st2])
      (simp add: Let_def same_books_def accepting_def)
qed

end
