(* ===== verification/CronRuns.thy ===== *)
theory CronRuns
  imports CronTick
begin

section \<open>The cron service: what a run is worth\<close>

text \<open>
  Properties of the cron service: a due job fires, a job in flight is not fired again, triggers keep their
  cooldown, a result lands where the firing specification said, a failing job is disabled, and what the daily
  cap of turn deliveries, a skipped slot and a job with a bad working directory come to.
\<close>

subsection \<open>One tick over one job\<close>

text \<open>A row in step with its specification: nothing to reseed.\<close>

definition in_step :: "job_spec \<Rightarrow> cron_state \<Rightarrow> bool" where
  "in_step j st \<longleftrightarrow> cj_job_id st = jb_id j \<and> cj_schedule_key st = driver_of j \<and> \<not> cj_disabled st"

lemma tick_job_in_step:
  assumes "jb_enabled (rj_spec rj)" and "dget (jb_id (rj_spec rj)) (sv_rows svc) = Some st" and "in_step (rj_spec rj) st"
  shows "tick_job env view now rj svc =
    (case jb_trigger (rj_spec rj) of
       Some trig \<Rightarrow> tick_trigger env view rj trig (st\<lparr>cj_source_file := rj_source_file rj\<rparr>) now svc
     | None \<Rightarrow> tick_schedule env rj (st\<lparr>cj_source_file := rj_source_file rj\<rparr>) now svc)"
  using assms by (simp add: tick_job_def ensure_row_def get_row_def sync_driver_def in_step_def Let_def)

lemma service_ok_put_row [simp]: "service_ok env svc \<Longrightarrow> service_ok env (put_row st now svc)"
  by (auto simp: service_ok_def put_row_def intro: rows_ok_update)

lemma job_next_due_Some: "jb_schedule j = Some s \<Longrightarrow> job_next_due w j base = next_due w s base"
  by (simp add: job_next_due_def)

text \<open>What the row of a job says after a fire.\<close>

definition has_fired :: "cron_env \<Rightarrow> job_spec \<Rightarrow> secs \<Rightarrow> secs option \<Rightarrow> cron_service \<Rightarrow> bool" where
  "has_fired env j now nd svc \<longleftrightarrow>
     (\<exists>k row. dget (jb_id j) (sv_rows svc) = Some row \<and> cj_last_run_at row = Some now \<and> cj_next_due_at row = nd
        \<and> cj_last_task_id row = Some (ce_fresh env k) \<and> cj_fired_spec row = Some j \<and> \<not> cj_queued_due row
        \<and> (if cj_running_task_id row = None
           then cj_last_status row = Some (u ''failed'') \<and> \<not> accepting (sv_engine svc)
           else cj_running_task_id row = Some (ce_fresh env k) \<and> pool_is_running (ce_fresh env k) (en_pool (sv_engine svc))))"

lemma has_fired_catchup [simp]: "has_fired env j now nd (svc\<lparr>sv_catchup := c\<rparr>) = has_fired env j now nd svc"
  unfolding has_fired_def by simp

lemma launched_has_fired:
  assumes "launched (ce_fresh env k) (fired_row rj pid (ce_fresh env k) nd c m now st) st' svc"
    and "dget (jb_id (rj_spec rj)) (sv_rows svc) = Some (st'\<lparr>cj_updated_at := now\<rparr>)"
    and "nd' = (if \<not> m \<and> jb_schedule (rj_spec rj) \<noteq> None then nd else cj_next_due_at st)"
  shows "has_fired env (rj_spec rj) now nd' svc"
  unfolding has_fired_def
  by (rule exI [of _ k], rule exI [of _ "st'\<lparr>cj_updated_at := now\<rparr>"])
    (use assms in \<open>auto simp: launched_def fired_row_def start_failed_row_def\<close>)

lemma fire_due_sched:
  "jb_schedule (rj_spec rj) = Some s \<Longrightarrow> next_due (ce_world env) s now = Inr t \<Longrightarrow> fire_due env rj False now = Inr (Some t)"
  by (simp add: fire_due_def job_next_due_def)

lemma tick_fires_due_job:
  assumes "service_ok env svc" and "jb_enabled (rj_spec rj)" and "jb_schedule (rj_spec rj) = Some s"
    and "jb_trigger (rj_spec rj) = None" and "dget (jb_id (rj_spec rj)) (sv_rows svc) = Some st"
    and "in_step (rj_spec rj) st" and "cj_next_due_at st = Some due_at" and "due_at \<le> now"
    and "cj_running_task_id st = None" and "job_cwd env rj = Inr cwd" and "next_due (ce_world env) s now = Inr t"
  shows "snd (tick_job env view now rj svc) = None
    \<and> has_fired env (rj_spec rj) now (Some t) (fst (tick_job env view now rj svc))"
proof -
  let ?st = "st\<lparr>cj_source_file := rj_source_file rj\<rparr>"
  let ?c = "jb_id (rj_spec rj) \<in> set (sv_catchup svc)"
  from materialize_fires [OF assms(1,10) fire_due_sched [OF assms(3,11)], where st = ?st and catchup = ?c and reason = None]
  obtain pid k svc' st' where
    m: "materialize env rj ?st now ?c False None svc = (svc', st', None)"
    and l: "launched (ce_fresh env k) (fired_row rj pid (ce_fresh env k) (Some t) ?c False now ?st) st' svc'"
    and r: "\<forall>i. dget i (sv_rows svc') = (if i = cj_job_id ?st then Some (st'\<lparr>cj_updated_at := now\<rparr>) else dget i (sv_rows svc))"
    unfolding Let_def by blast
  have "has_fired env (rj_spec rj) now (Some t) svc'"
    by (rule launched_has_fired [OF l]) (use r assms(3,6) in \<open>auto simp: in_step_def\<close>)
  moreover have "tick_job env view now rj svc
      = (svc'\<lparr>sv_catchup := discard (jb_id (rj_spec rj)) (sv_catchup svc')\<rparr>, None)"
    using tick_job_in_step [OF assms(2,5,6)] assms(4,7,8,9) m by (simp add: tick_schedule_def Let_def)
  ultimately show ?thesis by simp
qed


text \<open>
  One run at a time: while a run of a job is in flight, neither a tick nor a manual run hands the
  task engine anything for that job, and the plans, the worker pool and the wake queue stay as they are.
\<close>

theorem run_in_flight_blocks_another:
  assumes "dget (jb_id (rj_spec rj)) (sv_rows svc) = Some st" and "cj_running_task_id st = Some tid"
    and "dget (jb_id (rj_spec rj)) (sv_jobs svc) = Some rj"
  shows "sv_engine (fst (tick_job env view now rj svc)) = sv_engine svc
    \<and> sv_wakes (fst (tick_job env view now rj svc)) = sv_wakes svc
    \<and> run_now env (jb_id (rj_spec rj)) now svc = (svc, Inl RuntimeError)"
proof -
  have e: "ensure_row (jb_id (rj_spec rj)) (rj_source_file rj) now (sv_rows svc) = (sv_rows svc, st)"
    using assms(1) by (simp add: ensure_row_def get_row_def)
  have reason: "snd (snd (eval_trigger env view rj trig st' now)) = None" if "cj_running_task_id st' = Some tid" for trig st'
    using that by (auto simp: eval_trigger_def eval_file_trigger_def eval_body_trigger_def Let_def
        split: sum.splits option.splits)
  have go: "cj_running_task_id st' = Some tid \<and> svc' = put_row st' now svc \<or> st' = st\<lparr>cj_source_file := rj_source_file rj\<rparr> \<and> svc' = svc"
    if "sync_driver env (rj_spec rj) (st\<lparr>cj_source_file := rj_source_file rj\<rparr>) now svc = (svc', Inr (Go st'))" for svc' st'
    using that assms(2) by (auto simp: sync_driver_def Let_def split: if_splits)
  have no: "sync_driver env (rj_spec rj) (st\<lparr>cj_source_file := rj_source_file rj\<rparr>) now svc \<noteq> (svc', Inr Stop)"
    "sync_driver env (rj_spec rj) (st\<lparr>cj_source_file := rj_source_file rj\<rparr>) now svc \<noteq> (svc', Inl x)" for svc' x
    using assms(2) by (auto simp: sync_driver_def Let_def split: if_splits)
  have t: "sv_engine (fst (tick_trigger env view rj trig st' now svc')) = sv_engine svc'
      \<and> sv_wakes (fst (tick_trigger env view rj trig st' now svc')) = sv_wakes svc'"
    if "cj_running_task_id st' = Some tid" for trig st' svc'
    using reason [OF that, of trig] by (auto simp: tick_trigger_def Let_def split: prod.splits option.splits)
  have s: "sv_engine (fst (tick_schedule env rj st' now svc')) = sv_engine svc'
      \<and> sv_wakes (fst (tick_schedule env rj st' now svc')) = sv_wakes svc'"
    if "cj_running_task_id st' = Some tid" for st' svc'
    using that by (auto simp: tick_schedule_def Let_def split: option.splits sum.splits)
  have "sv_engine (fst (tick_job env view now rj svc)) = sv_engine svc
      \<and> sv_wakes (fst (tick_job env view now rj svc)) = sv_wakes svc"
  proof (cases "jb_enabled (rj_spec rj) \<and> \<not> cj_disabled st")
    case True
    obtain svc' r where y: "sync_driver env (rj_spec rj) (st\<lparr>cj_source_file := rj_source_file rj\<rparr>) now svc = (svc', r)" by force
    with no obtain st' where r: "r = Inr (Go st')" by (metis drift.exhaust sum.exhaust)
    with y go have "cj_running_task_id st' = Some tid" "sv_engine svc' = sv_engine svc" "sv_wakes svc' = sv_wakes svc"
      using assms(2) by force+
    with True y r e t s show ?thesis
      by (cases "jb_trigger (rj_spec rj)") (simp_all add: tick_job_def Let_def)
  qed (use e in \<open>auto simp: tick_job_def Let_def\<close>)
  then show ?thesis using assms e by (simp add: run_now_def)
qed

subsection \<open>Materializing, in every branch\<close>

lemma cron_plan_id_books: "cron_plan_id env chat now svc = (svc1, pid) \<Longrightarrow> same_books svc svc1"
  by (auto simp: cron_plan_id_def same_books_def Let_def split: option.splits)

text \<open>A row just fired, or fired and then refused by the engine.\<close>

definition fired_from :: "resolved_job \<Rightarrow> secs \<Rightarrow> bool \<Rightarrow> bool \<Rightarrow> cron_state \<Rightarrow> cron_state \<Rightarrow> bool" where
  "fired_from rj now catchup manual st st' \<longleftrightarrow>
     (\<exists>pid tid nd. let st1 = fired_row rj pid tid nd catchup manual now st
        in st' = st1 \<or> (\<exists>msg. st' = start_failed_row msg st1))"

lemma start_fired_row:
  "start_fired env pid tid now st svc = (svc', st') \<Longrightarrow>
   (st' = st \<and> sv_rows svc' = sv_rows svc \<or>
    (\<exists>msg. st' = start_failed_row msg st) \<and> sv_rows svc' = fst (update_row st' now (sv_rows svc)))
   \<and> sv_jobs svc' = sv_jobs svc \<and> sv_results svc' = sv_results svc \<and> sv_wakes svc' = sv_wakes svc"
  by (auto simp: start_fired_def put_row_def Let_def split: prod.splits sum.splits)

lemma materialize_cases:
  assumes "materialize env rj st now catchup manual reason svc = (svc', st', e)"
  shows "sv_jobs svc' = sv_jobs svc \<and> sv_results svc' = sv_results svc \<and> sv_wakes svc' = sv_wakes svc \<and>
    (sv_rows svc' = sv_rows svc \<and> st' = st \<or>
     fired_from rj now catchup manual st st' \<and> cj_job_id st' = cj_job_id st \<and>
     (\<forall>i. dget i (sv_rows svc') = (if i = cj_job_id st then Some (st'\<lparr>cj_updated_at := now\<rparr>) else dget i (sv_rows svc))))"
proof -
  obtain svc1 pid where c: "cron_plan_id env (rj_chat_id rj) now svc = (svc1, pid)" by force
  from cron_plan_id_books [OF c] have b: "sv_rows svc1 = sv_rows svc" "sv_jobs svc1 = sv_jobs svc"
    "sv_results svc1 = sv_results svc" "sv_wakes svc1 = sv_wakes svc" by (simp_all add: same_books_def)
  show ?thesis
  proof (cases "\<exists>cwd added d n nd. job_cwd env rj = Inr cwd \<and> fire_due env rj manual now = Inr nd \<and>
      add_task_body pid (cron_task env rj catchup manual reason cwd (ce_fresh env (sv_drawn svc1)) now) now
        (en_plans (sv_engine svc1)) = (d, Some added, n)")
    case False
    with assms c b show ?thesis
      by (auto simp: materialize_def Let_def split: sum.splits prod.splits option.splits)
  next
    case True
    then obtain cwd added d n nd where t: "job_cwd env rj = Inr cwd" "fire_due env rj manual now = Inr nd"
      "add_task_body pid (cron_task env rj catchup manual reason cwd (ce_fresh env (sv_drawn svc1)) now) now
        (en_plans (sv_engine svc1)) = (d, Some added, n)" by blast
    let ?st1 = "fired_row rj pid (tk_id added) nd catchup manual now st"
    let ?svc3 = "put_row ?st1 now (svc1\<lparr>sv_engine := (sv_engine svc1)\<lparr>en_plans := d\<rparr>,
      sv_drawn := sv_drawn svc1 + 1, sv_task_to_job := dset (tk_id added) (jb_id (rj_spec rj)) (sv_task_to_job svc1)\<rparr>)"
    from assms c t have s: "start_fired env pid (tk_id added) now ?st1 ?svc3 = (svc', st')"
      by (auto simp: materialize_def Let_def split: prod.splits)
    from start_fired_row [OF s] b have "sv_jobs svc' = sv_jobs svc \<and> sv_results svc' = sv_results svc \<and> sv_wakes svc' = sv_wakes svc"
      by simp
    moreover from start_fired_row [OF s] b
    have "fired_from rj now catchup manual st st' \<and> cj_job_id st' = cj_job_id st \<and>
      (\<forall>i. dget i (sv_rows svc') = (if i = cj_job_id st then Some (st'\<lparr>cj_updated_at := now\<rparr>) else dget i (sv_rows svc)))"
      unfolding fired_from_def Let_def by auto
    ultimately show ?thesis by blast
  qed
qed

lemma fired_from_sel:
  "fired_from rj now c m st st' \<Longrightarrow> cj_fired_spec st' = Some (rj_spec rj) \<and> cj_fired_chat_id st' = rj_chat_id rj
   \<and> \<not> cj_queued_due st' \<and> cj_consecutive_failures st' = cj_consecutive_failures st \<and> cj_disabled st' = cj_disabled st
   \<and> cj_trigger_fired_at st' = (if \<not> m \<and> jb_trigger (rj_spec rj) \<noteq> None then Some now else cj_trigger_fired_at st)"
  by (auto simp: fired_from_def fired_row_def start_failed_row_def Let_def)

text \<open>A run the engine refuses is no failure: the count that disables a job does not move.\<close>

lemma refused_start_is_not_counted:
  assumes "materialize env rj st now c m reason svc = (svc', st', e)"
  shows "cj_consecutive_failures st' = cj_consecutive_failures st \<and> cj_disabled st' = cj_disabled st"
  using materialize_cases [OF assms] fired_from_sel by blast

subsection \<open>Where a result lands\<close>

lemma deliver_frame:
  "sv_rows (deliver env rj st t now svc) = sv_rows svc \<and> sv_jobs (deliver env rj st t now svc) = sv_jobs svc
   \<and> sv_engine (deliver env rj st t now svc) = sv_engine svc \<and> sv_drawn svc \<le> sv_drawn (deliver env rj st t now svc)"
  by (auto simp: deliver_def deliver_turn_def Let_def split: prod.splits option.splits if_splits)

lemma deliver_results:
  "\<exists>r. sv_results (deliver env rj st t now svc) = sv_results svc @ [r] \<and> cr_chat r = rj_chat_id rj
     \<and> cr_job r = jb_id (rj_spec rj) \<and> cr_delivery r = jb_delivery (rj_spec rj) \<and> cr_task r = tk_id t
     \<and> cr_status r = cj_last_status st"
  by (auto simp: deliver_def deliver_turn_def Let_def split: prod.splits option.splits if_splits)

lemma fresh_for_mono: "fresh_for env m d \<Longrightarrow> m \<le> n \<Longrightarrow> fresh_for env n d"
  unfolding fresh_for_def using order_trans by blast

lemma service_ok_deliver: "service_ok env svc \<Longrightarrow> service_ok env (deliver env rj st t now svc)"
  using deliver_frame [of env rj st t now svc] fresh_for_mono unfolding service_ok_def by metis

lemma finished_row_sel [simp]:
  "cj_job_id (finished_row r t b now st) = cj_job_id st"
  "cj_running_task_id (finished_row r t b now st) = None"
  "cj_fired_spec (finished_row r t b now st) = cj_fired_spec st"
  "cj_fired_chat_id (finished_row r t b now st) = cj_fired_chat_id st"
  "cj_queued_due (finished_row r t b now st) = cj_queued_due st"
  "cj_schedule_key (finished_row r t b now st) = cj_schedule_key st"
  "cj_next_due_at (finished_row r t b now st) = cj_next_due_at st"
  "cj_trigger_fired_at (finished_row r t b now st) = cj_trigger_fired_at st"
  "cj_last_finished_at (finished_row r t b now st) = Some now"
  by (simp_all add: finished_row_def Let_def)

lemma adopt_driver_sel:
  "adopt_driver env r now st = Inr st' \<Longrightarrow> cj_job_id st' = cj_job_id st \<and> cj_running_task_id st' = cj_running_task_id st
   \<and> cj_fired_spec st' = cj_fired_spec st \<and> cj_fired_chat_id st' = cj_fired_chat_id st
   \<and> cj_trigger_fired_at st' = cj_trigger_fired_at st \<and> cj_disabled st' = cj_disabled st
   \<and> (cj_queued_due st' \<longrightarrow> cj_queued_due st) \<and> cj_last_status st' = cj_last_status st"
  by (cases "job_next_due (ce_world env) (rj_spec (the r)) now")
    (auto simp: adopt_driver_def reset_trigger_def Let_def split: option.splits if_splits)

lemma settle_run_results:
  assumes "cj_fired_spec st = Some j" and "cj_fired_chat_id st = chat" and "chat \<noteq> []"
  shows "\<exists>r. sv_results (fst (settle_run env resolved t now st svc)) = sv_results svc @ [r] \<and> cr_chat r = chat
     \<and> cr_job r = jb_id j \<and> cr_delivery r = jb_delivery j \<and> cr_task r = tk_id t \<and> cr_status r = cj_last_status st"
proof -
  from assms obtain ctx where ctx: "delivery_context st resolved = Some ctx" "rj_spec ctx = j" "rj_chat_id ctx = chat"
    by (auto simp: delivery_context_def opt_or_def Let_def)
  let ?d = "deliver env ctx st t now (put_row st now svc)"
  have "sv_results (fst (settle_run env resolved t now st svc)) = sv_results ?d"
  proof (cases resolved)
    case (Some rj)
    let ?q = "put_row (st\<lparr>cj_queued_due := False\<rparr>) now ?d"
    obtain svc' st' e where m: "materialize env rj (st\<lparr>cj_queued_due := False\<rparr>) now False False None ?q = (svc', st', e)"
      by (metis prod_cases3)
    from materialize_cases [OF m] have "sv_results svc' = sv_results ?d" by simp
    with Some ctx m show ?thesis by (simp add: settle_run_def Let_def)
  qed (use ctx in \<open>simp add: settle_run_def Let_def\<close>)
  with deliver_results [of env ctx st t now "put_row st now svc"] ctx show ?thesis by simp
qed

text \<open>
  A result lands where the firing specification said: once a job has fired, whatever becomes of the
  job files while the run is in flight (the job edited, moved to another chat, or deleted), finalizing the run
  appends exactly one result, for the chat, the job and the delivery mode of the specification that fired it.
\<close>

theorem result_lands_where_fired:
  assumes "materialize env rj st now c m reason svc = (svc1, st1, None)" and "cj_running_task_id st = None"
    and "cj_running_task_id st1 = Some (tk_id t)" and "rj_chat_id rj \<noteq> []"
    and "dget (cj_job_id st) (sv_rows svc2) = Some (st1\<lparr>cj_updated_at := x\<rparr>)"
    and "snd (finalize env (cj_job_id st) t failed now' svc2) = None"
  shows "\<exists>r. sv_results (fst (finalize env (cj_job_id st) t failed now' svc2)) = sv_results svc2 @ [r]
    \<and> cr_chat r = rj_chat_id rj \<and> cr_job r = jb_id (rj_spec rj) \<and> cr_delivery r = jb_delivery (rj_spec rj)
    \<and> cr_task r = tk_id t"
proof -
  let ?fin = "finished_row (dget (cj_job_id st) (sv_jobs svc2)) t failed now' (st1\<lparr>cj_updated_at := x\<rparr>)"
  from materialize_cases [OF assms(1)] assms(2,3) have "fired_from rj now c m st st1" by auto
  from fired_from_sel [OF this] have f: "cj_fired_spec ?fin = Some (rj_spec rj)" "cj_fired_chat_id ?fin = rj_chat_id rj"
    by simp_all
  from assms(3,5,6) obtain st2 where a: "adopt_driver env (dget (cj_job_id st) (sv_jobs svc2)) now' ?fin = Inr st2"
    and fin: "finalize env (cj_job_id st) t failed now' svc2 = settle_run env (dget (cj_job_id st) (sv_jobs svc2)) t now' st2 svc2"
    by (auto simp: finalize_def Let_def split: sum.splits)
  from adopt_driver_sel [OF a] f have "cj_fired_spec st2 = Some (rj_spec rj)" "cj_fired_chat_id st2 = rj_chat_id rj" by auto
  from settle_run_results [OF this assms(4), where env = env and t = t and now = now' and svc = svc2
      and resolved = "dget (cj_job_id st) (sv_jobs svc2)"] fin show ?thesis by auto
qed

subsection \<open>Failing jobs\<close>

text \<open>The row after a sequence of finished runs, each with its task, the failure flag of its event and its time.\<close>

definition after_runs :: "resolved_job option \<Rightarrow> (task \<times> bool \<times> secs) list \<Rightarrow> cron_state \<Rightarrow> cron_state" where
  "after_runs resolved runs st = foldl (\<lambda>st (t, failed, now). finished_row resolved t failed now st) st runs"

definition trailing_failures :: "(task \<times> bool \<times> secs) list \<Rightarrow> nat" where
  "trailing_failures runs = length (takeWhile (\<lambda>(t, failed, now). \<not> run_succeeded t failed) (rev runs))"

lemma after_runs_count:
  assumes "cj_consecutive_failures st = 0" and "\<not> cj_disabled st" and "1 \<le> failure_limit resolved"
  shows "cj_consecutive_failures (after_runs resolved runs st) = int (trailing_failures runs)
    \<and> cj_disabled (after_runs resolved runs st) = (failure_limit resolved \<le> int (trailing_failures runs))"
  using assms
proof (induction runs rule: rev_induct)
  case (snoc r runs)
  obtain t failed now where r: "r = (t, failed, now)" by (metis prod_cases3)
  from snoc show ?case
    by (cases "run_succeeded t failed") (auto simp: r after_runs_def trailing_failures_def finished_row_def Let_def)
qed (simp add: after_runs_def trailing_failures_def)

lemma disabled_job_rests:
  "dget (jb_id (rj_spec rj)) (sv_rows svc) = Some st \<Longrightarrow> cj_disabled st \<Longrightarrow> tick_job env view now rj svc = (svc, None)"
  by (simp add: tick_job_def ensure_row_def get_row_def Let_def)

text \<open>
  A failing job is disabled, and only a failing one: after any sequence of finished runs of a job
  that started with a clean row, the job is disabled exactly when the most recent runs that failed in a row are
  as many as its limit or more; a tick that meets the disabled row does nothing.
\<close>

theorem failing_job_is_disabled:
  assumes "cj_consecutive_failures st = 0" and "\<not> cj_disabled st" and "1 \<le> failure_limit resolved"
    and "dget (jb_id (rj_spec rj)) (sv_rows svc) = Some (after_runs resolved runs st)"
    and "failure_limit resolved \<le> int (trailing_failures runs) \<or> \<not> jb_enabled (rj_spec rj)"
  shows "cj_disabled (after_runs resolved runs st) = (failure_limit resolved \<le> int (trailing_failures runs))
    \<and> tick_job env view now rj svc = (svc, None)"
proof
  show d: "cj_disabled (after_runs resolved runs st) = (failure_limit resolved \<le> int (trailing_failures runs))"
    using after_runs_count [OF assms(1-3)] by simp
  with assms(4,5) disabled_job_rests [OF assms(4)] show "tick_job env view now rj svc = (svc, None)"
    by (cases "jb_enabled (rj_spec rj)") (auto simp: tick_job_def)
qed

subsection \<open>Triggers keep their cooldown\<close>

text \<open>Steps of a service at one trigger job: a tick over it, the end of one of its runs, a manual run.\<close>

datatype trigger_op = TickJob fs_view secs | EndRun task bool secs | ManualRun secs

fun op_time :: "trigger_op \<Rightarrow> secs" where
  "op_time (TickJob view now) = now"
| "op_time (EndRun t failed now) = now"
| "op_time (ManualRun now) = now"

fun trigger_step :: "cron_env \<Rightarrow> resolved_job \<Rightarrow> trigger_op \<Rightarrow> cron_service \<Rightarrow> cron_service" where
  "trigger_step env rj (TickJob view now) svc = fst (tick_job env view now rj svc)"
| "trigger_step env rj (EndRun t failed now) svc = fst (finalize env (jb_id (rj_spec rj)) t failed now svc)"
| "trigger_step env rj (ManualRun now) svc = fst (run_now env (jb_id (rj_spec rj)) now svc)"

definition fired_at :: "resolved_job \<Rightarrow> cron_service \<Rightarrow> secs option" where
  "fired_at rj svc = Option.bind (dget (jb_id (rj_spec rj)) (sv_rows svc)) cj_trigger_fired_at"

text \<open>The times at which the trigger fired, in order: the readings of \<open>trigger_fired_at\<close> that are new.\<close>

fun fire_times :: "cron_env \<Rightarrow> resolved_job \<Rightarrow> trigger_op list \<Rightarrow> cron_service \<Rightarrow> secs list" where
  "fire_times env rj [] svc = []"
| "fire_times env rj (op # ops) svc =
     (let svc' = trigger_step env rj op svc
      in (case fired_at rj svc' of
            Some f \<Rightarrow> if fired_at rj svc = Some f then fire_times env rj ops svc' else f # fire_times env rj ops svc'
          | None \<Rightarrow> fire_times env rj ops svc'))"

text \<open>A fire owed to a trigger was admitted after its cooldown.\<close>

definition cooled :: "cron_env \<Rightarrow> trigger_spec \<Rightarrow> secs \<Rightarrow> cron_state \<Rightarrow> bool" where
  "cooled env trig now st \<longleftrightarrow> \<not> in_cooldown st now (cooldown_of (ce_config env) trig)"

definition trigger_inv :: "cron_env \<Rightarrow> resolved_job \<Rightarrow> trigger_spec \<Rightarrow> secs \<Rightarrow> cron_service \<Rightarrow> bool" where
  "trigger_inv env rj trig clock svc \<longleftrightarrow> dget (jb_id (rj_spec rj)) (sv_jobs svc) = Some rj \<and>
     (\<forall>st. dget (jb_id (rj_spec rj)) (sv_rows svc) = Some st \<longrightarrow>
        cj_job_id st = jb_id (rj_spec rj) \<and> (cj_queued_due st \<longrightarrow> cooled env trig clock st))"

lemma cooled_mono: "cooled env trig now st \<Longrightarrow> now \<le> now' \<Longrightarrow> cooled env trig now' st"
  by (auto simp: cooled_def in_cooldown_def split: option.splits)

text \<open>The row of the job after a step, against the row before.\<close>

definition row_step_ok :: "cron_env \<Rightarrow> trigger_spec \<Rightarrow> secs \<Rightarrow> cron_state \<Rightarrow> cron_state \<Rightarrow> bool" where
  "row_step_ok env trig now st st' \<longleftrightarrow> cj_job_id st' = cj_job_id st \<and>
     (cj_trigger_fired_at st' = cj_trigger_fired_at st \<and> (cj_queued_due st' \<longrightarrow> cooled env trig now st)
      \<or> cj_trigger_fired_at st' = Some now \<and> cooled env trig now st \<and> \<not> cj_queued_due st')"

lemma materialize_row_step:
  assumes "materialize env rj st now c manual reason svc = (svc', st', e)" and "cj_job_id st = jb_id (rj_spec rj)"
    and "dget (jb_id (rj_spec rj)) (sv_rows svc) = Some st0" and "cj_trigger_fired_at st0 = cj_trigger_fired_at st"
    and "cj_job_id st0 = cj_job_id st" and "\<not> cj_queued_due st0 \<or> cooled env trig now st"
    and "manual \<or> cooled env trig now st"
  shows "\<exists>st''. dget (jb_id (rj_spec rj)) (sv_rows svc') = Some st'' \<and> row_step_ok env trig now st st''"
  using materialize_cases [OF assms(1)]
proof (elim conjE disjE)
  assume "sv_rows svc' = sv_rows svc"
  with assms(2-6) show ?thesis by (auto simp: row_step_ok_def)
next
  assume f: "fired_from rj now c manual st st'" and "cj_job_id st' = cj_job_id st"
    and "\<forall>i. dget i (sv_rows svc') = (if i = cj_job_id st then Some (st'\<lparr>cj_updated_at := now\<rparr>) else dget i (sv_rows svc))"
  with fired_from_sel [OF f] assms(2,7) show ?thesis by (auto simp: row_step_ok_def)
qed

text \<open>The stored row goes with the row in hand: same job, same last fire, no fire owed too early.\<close>

definition goes_with :: "cron_env \<Rightarrow> trigger_spec \<Rightarrow> secs \<Rightarrow> resolved_job \<Rightarrow> cron_state \<Rightarrow> cron_service \<Rightarrow> bool" where
  "goes_with env trig now rj st svc \<longleftrightarrow> cj_job_id st = jb_id (rj_spec rj) \<and>
     (\<exists>st0. dget (jb_id (rj_spec rj)) (sv_rows svc) = Some st0 \<and> cj_job_id st0 = cj_job_id st
        \<and> cj_trigger_fired_at st0 = cj_trigger_fired_at st \<and> (cj_queued_due st0 \<longrightarrow> cooled env trig now st))"

lemma eval_trigger_row:
  "eval_trigger env view rj trig st now = (st', saved, reason) \<Longrightarrow>
   cj_job_id st' = cj_job_id st \<and> cj_trigger_fired_at st' = cj_trigger_fired_at st
   \<and> (cj_queued_due st' \<longrightarrow> cj_queued_due st \<or> cooled env trig now st) \<and> (\<not> saved \<longrightarrow> st' = st)
   \<and> (reason \<noteq> None \<longrightarrow> cooled env trig now st)"
  by (auto simp: eval_trigger_def eval_file_trigger_def eval_body_trigger_def overlap_row_def cooled_def Let_def
      split: sum.splits option.splits if_splits)

lemma cooled_fired: "cj_trigger_fired_at st' = cj_trigger_fired_at st \<Longrightarrow> cooled env trig now st' = cooled env trig now st"
  by (simp add: cooled_def in_cooldown_def)

lemma row_step_fired:
  "row_step_ok env trig now st' st'' \<Longrightarrow> cj_job_id st' = cj_job_id st \<Longrightarrow> cj_trigger_fired_at st' = cj_trigger_fired_at st \<Longrightarrow>
   row_step_ok env trig now st st''"
  using cooled_fired [of st' st] by (auto simp: row_step_ok_def)

lemma goes_with_put:
  "goes_with env trig now rj st svc \<Longrightarrow> cj_job_id st' = cj_job_id st \<Longrightarrow>
   cj_trigger_fired_at st' = cj_trigger_fired_at st \<Longrightarrow> (cj_queued_due st' \<longrightarrow> cooled env trig now st) \<Longrightarrow>
   goes_with env trig now rj st' (put_row st' now svc)"
  using cooled_fired [of st' st] by (auto simp: goes_with_def)

lemma tick_trigger_row:
  assumes g: "goes_with env trig now rj st svc" and q: "cj_queued_due st \<longrightarrow> cooled env trig now st"
  shows "\<exists>st''. dget (jb_id (rj_spec rj)) (sv_rows (fst (tick_trigger env view rj trig st now svc))) = Some st''
    \<and> row_step_ok env trig now st st''"
proof -
  obtain st1 saved reason where e: "eval_trigger env view rj trig st now = (st1, saved, reason)" by (metis prod_cases3)
  from eval_trigger_row [OF e] q have r: "cj_job_id st1 = cj_job_id st" "cj_trigger_fired_at st1 = cj_trigger_fired_at st"
    "cj_queued_due st1 \<longrightarrow> cooled env trig now st" "\<not> saved \<longrightarrow> st1 = st" "reason \<noteq> None \<longrightarrow> cooled env trig now st" by auto
  let ?svc1 = "if saved then put_row st1 now svc else svc"
  have g1: "goes_with env trig now rj st1 ?svc1"
    using goes_with_put [OF g r(1-3)] g r(4) by (cases saved) auto
  then obtain st0 where s0: "dget (jb_id (rj_spec rj)) (sv_rows ?svc1) = Some st0" "cj_job_id st0 = cj_job_id st1"
    "cj_trigger_fired_at st0 = cj_trigger_fired_at st1" "cj_queued_due st0 \<longrightarrow> cooled env trig now st1"
    "cj_job_id st1 = jb_id (rj_spec rj)" by (auto simp: goes_with_def)
  show ?thesis
  proof (cases reason)
    case None
    with e s0 r cooled_fired [OF r(2)] show ?thesis
      by (auto simp: tick_trigger_def Let_def row_step_ok_def)
  next
    case (Some x)
    obtain svc2 st2 ex where m: "materialize env rj st1 now False False reason ?svc1 = (svc2, st2, ex)" by (metis prod_cases3)
    have c: "cooled env trig now st1" using r(5) Some cooled_fired [OF r(2)] by simp
    from materialize_row_step [OF m s0(5,1,3,2), where trig = trig] c
    obtain st'' where "dget (jb_id (rj_spec rj)) (sv_rows svc2) = Some st''" "row_step_ok env trig now st1 st''" by blast
    with row_step_fired [OF this(2) r(1,2)] e m Some show ?thesis by (simp add: tick_trigger_def Let_def)
  qed
qed

lemma sync_trigger_row:
  assumes "sync_driver env (rj_spec rj) st now svc = (svc', r)" and "jb_trigger (rj_spec rj) = Some trig"
    and "goes_with env trig now rj st svc" and "cj_queued_due st \<longrightarrow> cooled env trig now st"
  shows "\<exists>st'. r = Inr (Go st') \<and> goes_with env trig now rj st' svc' \<and> cj_job_id st' = cj_job_id st
    \<and> cj_trigger_fired_at st' = cj_trigger_fired_at st \<and> (cj_queued_due st' \<longrightarrow> cooled env trig now st)"
proof -
  let ?k = "st\<lparr>cj_schedule_key := driver_of (rj_spec rj)\<rparr>"
  have "goes_with env trig now rj ?k (put_row ?k now svc)" "goes_with env trig now rj (reset_trigger ?k) (put_row (reset_trigger ?k) now svc)"
    by (rule goes_with_put [OF assms(3)]; use assms(4) in \<open>simp add: reset_trigger_def\<close>)+
  with assms show ?thesis by (auto simp: sync_driver_def reset_trigger_def Let_def split: if_splits)
qed

lemma tick_job_row:
  assumes trig: "jb_trigger (rj_spec rj) = Some trig"
    and row: "snd (ensure_row (jb_id (rj_spec rj)) (rj_source_file rj) now (sv_rows svc)) = st"
    and st: "cj_job_id st = jb_id (rj_spec rj)" "cj_queued_due st \<longrightarrow> cooled env trig now st"
    and en: "jb_enabled (rj_spec rj)"
  shows "\<exists>st''. dget (jb_id (rj_spec rj)) (sv_rows (fst (tick_job env view now rj svc))) = Some st''
    \<and> row_step_ok env trig now st st''"
proof -
  obtain rows where e: "ensure_row (jb_id (rj_spec rj)) (rj_source_file rj) now (sv_rows svc) = (rows, st)"
    using row by (metis prod.collapse)
  have r: "dget (jb_id (rj_spec rj)) rows = Some st"
    using e st(1) by (auto simp: ensure_row_def get_row_def update_row_def Let_def new_cron_state_def split: option.splits)
  let ?st = "st\<lparr>cj_source_file := rj_source_file rj\<rparr>" and ?svc = "svc\<lparr>sv_rows := rows\<rparr>"
  have c: "cooled env trig now ?st = cooled env trig now st" by (rule cooled_fired) simp
  have g: "goes_with env trig now rj ?st ?svc" using r st c by (auto simp: goes_with_def)
  have q: "cj_queued_due ?st \<longrightarrow> cooled env trig now ?st" using st c by simp
  obtain svc' x where y: "sync_driver env (rj_spec rj) ?st now ?svc = (svc', x)" by force
  from sync_trigger_row [OF y trig g q] obtain st' where
    st': "x = Inr (Go st')" "goes_with env trig now rj st' svc'" "cj_job_id st' = cj_job_id st"
    "cj_trigger_fired_at st' = cj_trigger_fired_at st" "cj_queued_due st' \<longrightarrow> cooled env trig now st" using c by auto
  from st'(5) cooled_fired [OF st'(4)] have "cj_queued_due st' \<longrightarrow> cooled env trig now st'" by simp
  from tick_trigger_row [OF st'(2) this, where view = view] obtain st'' where
    t: "dget (jb_id (rj_spec rj)) (sv_rows (fst (tick_trigger env view rj trig st' now svc'))) = Some st''"
    "row_step_ok env trig now st' st''" by blast
  show ?thesis
  proof (cases "cj_disabled st")
    case True
    with e r st en show ?thesis by (auto simp: tick_job_def Let_def row_step_ok_def)
  next
    case False
    with e en y st'(1) trig t row_step_fired [OF t(2) st'(3,4)] show ?thesis by (simp add: tick_job_def Let_def)
  qed
qed

lemma finalize_row:
  assumes jobs: "dget (jb_id (rj_spec rj)) (sv_jobs svc) = Some rj"
    and row: "dget (jb_id (rj_spec rj)) (sv_rows svc) = Some st"
    and st: "cj_job_id st = jb_id (rj_spec rj)" "cj_queued_due st \<longrightarrow> cooled env trig now st"
  shows "\<exists>st''. dget (jb_id (rj_spec rj)) (sv_rows (fst (finalize env (jb_id (rj_spec rj)) t b now svc))) = Some st''
    \<and> row_step_ok env trig now st st''"
proof -
  let ?fin = "finished_row (Some rj) t b now st"
  have same: "row_step_ok env trig now st st" using st(2) by (simp add: row_step_ok_def)
  show ?thesis
  proof (cases "cj_running_task_id st = Some (tk_id t)")
    case run: True
    show ?thesis
    proof (cases "adopt_driver env (Some rj) now ?fin")
      case (Inl e)
      with jobs row run same show ?thesis by (simp add: finalize_def Let_def)
    next
      case (Inr st2)
      from adopt_driver_sel [OF this] have s2: "cj_job_id st2 = cj_job_id st"
        "cj_trigger_fired_at st2 = cj_trigger_fired_at st" "cj_queued_due st2 \<longrightarrow> cj_queued_due st" by auto
      let ?d = "case delivery_context st2 (Some rj) of None \<Rightarrow> put_row st2 now svc
        | Some ctx \<Rightarrow> deliver env ctx st2 t now (put_row st2 now svc)"
      have d: "sv_rows ?d = sv_rows (put_row st2 now svc)" using deliver_frame by (auto split: option.split)
      have f: "finalize env (jb_id (rj_spec rj)) t b now svc = settle_run env (Some rj) t now st2 svc"
        using jobs row run Inr by (simp add: finalize_def Let_def)
      show ?thesis
      proof (cases "cj_queued_due st2 \<and> \<not> cj_disabled st2")
        case True
        let ?q = "st2\<lparr>cj_queued_due := False\<rparr>"
        have c: "cooled env trig now ?q" using True s2 st(2) cooled_fired [of ?q st] by simp
        obtain svc3 st3 e where m: "materialize env rj ?q now False False None (put_row ?q now ?d) = (svc3, st3, e)"
          by (metis prod_cases3)
        have "cj_job_id ?q = jb_id (rj_spec rj)"
          "dget (jb_id (rj_spec rj)) (sv_rows (put_row ?q now ?d)) = Some (?q\<lparr>cj_updated_at := now\<rparr>)"
          using s2 st(1) by simp_all
        from materialize_row_step [OF m this, where trig = trig] c obtain st'' where
          "dget (jb_id (rj_spec rj)) (sv_rows svc3) = Some st''" "row_step_ok env trig now ?q st''" by auto
        with row_step_fired [OF this(2), of st] s2 f m True show ?thesis by (simp add: settle_run_def Let_def)
      next
        case False
        with f d s2 st show ?thesis by (auto simp: settle_run_def Let_def row_step_ok_def)
      qed
    qed
  qed (use jobs row same in \<open>simp add: finalize_def Let_def\<close>)
qed

lemma run_now_row:
  assumes jobs: "dget (jb_id (rj_spec rj)) (sv_jobs svc) = Some rj"
    and row: "snd (ensure_row (jb_id (rj_spec rj)) (rj_source_file rj) now (sv_rows svc)) = st"
    and st: "cj_job_id st = jb_id (rj_spec rj)" "cj_queued_due st \<longrightarrow> cooled env trig now st"
  shows "\<exists>st''. dget (jb_id (rj_spec rj)) (sv_rows (fst (run_now env (jb_id (rj_spec rj)) now svc))) = Some st''
    \<and> row_step_ok env trig now st st''"
proof -
  obtain rows where e: "ensure_row (jb_id (rj_spec rj)) (rj_source_file rj) now (sv_rows svc) = (rows, st)"
    using row by (metis prod.collapse)
  have r: "dget (jb_id (rj_spec rj)) rows = Some st"
    using e st(1) by (auto simp: ensure_row_def get_row_def update_row_def Let_def new_cron_state_def split: option.splits)
  obtain svc2 st2 x where m: "materialize env rj st now False True None (svc\<lparr>sv_rows := rows\<rparr>) = (svc2, st2, x)"
    by (metis prod_cases3)
  from materialize_row_step [OF m st(1), where trig = trig] r st obtain st'' where
    "dget (jb_id (rj_spec rj)) (sv_rows svc2) = Some st''" "row_step_ok env trig now st st''" by auto
  with jobs e r m st(2) show ?thesis
    by (cases "cj_running_task_id st"; cases x) (auto simp: run_now_def Let_def row_step_ok_def)
qed

lemma materialize_jobs: "sv_jobs (fst (materialize env rj st now c m r svc)) = sv_jobs svc"
proof -
  obtain svc' st' e where m: "materialize env rj st now c m r svc = (svc', st', e)" by (metis prod_cases3)
  with materialize_cases [OF this] show ?thesis by simp
qed

lemma tick_trigger_jobs: "sv_jobs (fst (tick_trigger env view rj trig st now svc)) = sv_jobs svc"
proof -
  obtain st1 saved reason where e: "eval_trigger env view rj trig st now = (st1, saved, reason)" by (metis prod_cases3)
  have "sv_jobs (fst (materialize env rj st1 now False False reason (if saved then put_row st1 now svc else svc))) = sv_jobs svc"
    by (simp add: materialize_jobs)
  with e show ?thesis by (cases reason) (auto simp: tick_trigger_def Let_def split: prod.splits)
qed

lemma tick_schedule_jobs: "sv_jobs (fst (tick_schedule env rj st now svc)) = sv_jobs svc"
proof -
  obtain svc' st' e where m: "materialize env rj st now (jb_id (rj_spec rj) \<in> set (sv_catchup svc)) False None svc = (svc', st', e)"
    by (metis prod_cases3)
  with materialize_cases [OF this] show ?thesis
    by (cases e) (auto simp: tick_schedule_def Let_def split: option.splits sum.splits)
qed

lemma sync_driver_jobs: "sv_jobs (fst (sync_driver env j st now svc)) = sv_jobs svc"
  by (auto simp: sync_driver_def Let_def split: sum.splits)

lemma tick_job_jobs: "sv_jobs (fst (tick_job env view now rj svc)) = sv_jobs svc"
proof -
  obtain rows st0 where e: "ensure_row (jb_id (rj_spec rj)) (rj_source_file rj) now (sv_rows svc) = (rows, st0)" by force
  obtain svc' x where y: "sync_driver env (rj_spec rj) (st0\<lparr>cj_source_file := rj_source_file rj\<rparr>) now (svc\<lparr>sv_rows := rows\<rparr>) = (svc', x)"
    by force
  with sync_driver_jobs [of env "rj_spec rj" "st0\<lparr>cj_source_file := rj_source_file rj\<rparr>" now "svc\<lparr>sv_rows := rows\<rparr>"]
  have "sv_jobs svc' = sv_jobs svc" by simp
  with e y show ?thesis
    by (auto simp: tick_job_def Let_def tick_trigger_jobs tick_schedule_jobs split: sum.splits drift.splits option.splits)
qed

lemma finalize_jobs: "sv_jobs (fst (finalize env job t b now svc)) = sv_jobs svc"
proof -
  have "sv_jobs (fst (settle_run env r t now st svc)) = sv_jobs svc" for r st
  proof -
    let ?d = "case delivery_context st r of None \<Rightarrow> put_row st now svc
      | Some ctx \<Rightarrow> deliver env ctx st t now (put_row st now svc)"
    have d: "sv_jobs ?d = sv_jobs svc" using deliver_frame by (auto split: option.split)
    show ?thesis
    proof (cases r)
      case (Some rj)
      obtain svc' st' e where
        m: "materialize env rj (st\<lparr>cj_queued_due := False\<rparr>) now False False None (put_row (st\<lparr>cj_queued_due := False\<rparr>) now ?d) = (svc', st', e)"
        by (metis prod_cases3)
      with materialize_cases [OF this] d Some show ?thesis by (simp add: settle_run_def Let_def)
    qed (use d in \<open>simp add: settle_run_def Let_def\<close>)
  qed
  then show ?thesis by (auto simp: finalize_def Let_def split: option.splits sum.splits)
qed

lemma run_now_jobs: "sv_jobs (fst (run_now env job now svc)) = sv_jobs svc"
proof (cases "dget job (sv_jobs svc)")
  case (Some rj)
  obtain rows st where e: "ensure_row job (rj_source_file rj) now (sv_rows svc) = (rows, st)" by force
  obtain svc2 st2 x where m: "materialize env rj st now False True None (svc\<lparr>sv_rows := rows\<rparr>) = (svc2, st2, x)"
    by (metis prod_cases3)
  with materialize_cases [OF this] Some e show ?thesis by (cases x) (simp_all add: run_now_def Let_def)
qed (simp add: run_now_def)

lemma new_row_cooled: "dget job rows = None \<Longrightarrow> st = snd (ensure_row job src now rows) \<Longrightarrow>
    cj_job_id st = job \<and> cj_trigger_fired_at st = None \<and> \<not> cj_queued_due st"
  by (simp add: ensure_row_def get_row_def update_row_def new_cron_state_def Let_def)

lemma trigger_step_inv:
  assumes inv: "trigger_inv env rj trig clock svc" and trig: "jb_trigger (rj_spec rj) = Some trig"
    and le: "clock \<le> op_time op"
  shows "trigger_inv env rj trig (op_time op) (trigger_step env rj op svc)
    \<and> (fired_at rj (trigger_step env rj op svc) = fired_at rj svc
       \<or> fired_at rj (trigger_step env rj op svc) = Some (op_time op)
         \<and> (\<forall>f. fired_at rj svc = Some f \<longrightarrow> f + cooldown_of (ce_config env) trig \<le> op_time op))"
proof -
  let ?job = "jb_id (rj_spec rj)" and ?now = "op_time op"
  let ?st = "snd (ensure_row ?job (rj_source_file rj) ?now (sv_rows svc))"
  from inv have jobs: "dget ?job (sv_jobs svc) = Some rj" by (simp add: trigger_inv_def)
  have st: "cj_job_id ?st = ?job \<and> (cj_queued_due ?st \<longrightarrow> cooled env trig ?now ?st) \<and> fired_at rj svc = cj_trigger_fired_at ?st"
  proof (cases "dget ?job (sv_rows svc)")
    case None
    from new_row_cooled [OF this refl, of "rj_source_file rj" ?now] None show ?thesis by (simp add: fired_at_def)
  next
    case (Some st)
    then have "?st = st" by (simp add: ensure_row_def get_row_def)
    with Some inv le cooled_mono [of env trig clock st ?now] show ?thesis by (auto simp: trigger_inv_def fired_at_def)
  qed
  have stays: "dget ?job (sv_rows svc) = None \<or> row_step_ok env trig ?now ?st (the (dget ?job (sv_rows svc)))"
    using st by (auto simp: ensure_row_def get_row_def row_step_ok_def split: option.splits)
  have "dget ?job (sv_rows (trigger_step env rj op svc)) = None \<and> dget ?job (sv_rows svc) = None \<or>
    (\<exists>st''. dget ?job (sv_rows (trigger_step env rj op svc)) = Some st'' \<and> row_step_ok env trig ?now ?st st'')"
  proof (cases op)
    case (TickJob view now)
    show ?thesis
    proof (cases "jb_enabled (rj_spec rj)")
      case True
      from tick_job_row [OF trig refl _ _ True, where env = env and svc = svc and now = now and view = view] st TickJob
      show ?thesis by auto
    next
      case False
      with TickJob stays show ?thesis by (cases "dget ?job (sv_rows svc)") (simp_all add: tick_job_def)
    qed
  next
    case (EndRun t b now)
    show ?thesis
    proof (cases "dget ?job (sv_rows svc)")
      case (Some s0)
      then have "?st = s0" by (simp add: ensure_row_def get_row_def)
      with finalize_row [OF jobs Some, where env = env and t = t and b = b and now = now and trig = trig] st EndRun
      show ?thesis by simp
    qed (use EndRun in \<open>simp add: finalize_def\<close>)
  next
    case (ManualRun now)
    from run_now_row [OF jobs refl, where env = env and now = now and trig = trig] st ManualRun show ?thesis by auto
  qed
  moreover have "dget ?job (sv_jobs (trigger_step env rj op svc)) = Some rj"
    using jobs by (cases op) (simp_all add: tick_job_jobs finalize_jobs run_now_jobs)
  ultimately show ?thesis
    using st cooled_fired [of _ ?st env trig ?now]
    by (auto simp: trigger_inv_def fired_at_def row_step_ok_def cooled_def in_cooldown_def split: option.splits)
qed

definition last_fire :: "resolved_job \<Rightarrow> cron_service \<Rightarrow> secs list" where
  "last_fire rj svc = (case fired_at rj svc of None \<Rightarrow> [] | Some f \<Rightarrow> [f])"


subsection \<open>A skipped slot, a switched-off job, a bad directory\<close>

lemma settle_run_idle:
  assumes "\<not> cj_queued_due st"
  shows "snd (settle_run env (Some rj) t now st svc) = None
    \<and> (\<forall>i. dget i (sv_rows (fst (settle_run env (Some rj) t now st svc))) =
        (if i = cj_job_id st then Some (st\<lparr>cj_updated_at := now\<rparr>) else dget i (sv_rows svc)))
    \<and> (service_ok env svc \<longrightarrow> service_ok env (fst (settle_run env (Some rj) t now st svc)))"
  using assms deliver_frame service_ok_deliver by (auto simp: settle_run_def Let_def split: option.splits)

text \<open>
  overlap=skip postpones, it does not skip: when a scheduled job comes due while its run is in
  flight, the tick records the slot as skipped but leaves the due time where it was (the documentation says the
  slot advances), so the first tick after the run ends fires the job for the slot that was to be skipped.
\<close>

theorem skipped_slot_fires_after_the_run:
  assumes ok: "service_ok env svc" and en: "jb_enabled (rj_spec rj)" and sch: "jb_schedule (rj_spec rj) = Some s"
    and no: "jb_trigger (rj_spec rj) = None" and skip: "jb_overlap (rj_spec rj) = OverlapSkip"
    and jobs: "dget (jb_id (rj_spec rj)) (sv_jobs svc) = Some rj"
    and row: "dget (jb_id (rj_spec rj)) (sv_rows svc) = Some st" and st: "in_step (rj_spec rj) st" "\<not> cj_queued_due st"
    and due_at: "cj_next_due_at st = Some due_at" "due_at \<le> now1" "due_at \<le> now3"
    and run: "cj_running_task_id st = Some (tk_id t)" "run_succeeded t False"
    and cwd: "job_cwd env rj = Inr cwd" and nd: "next_due (ce_world env) s now3 = Inr t'"
  shows "let svc1 = fst (tick_job env view1 now1 rj svc);
             svc2 = fst (finalize env (jb_id (rj_spec rj)) t False now2 svc1)
         in has_fired env (rj_spec rj) now3 (Some t') (fst (tick_job env view3 now3 rj svc2))"
proof -
  let ?st1 = "st\<lparr>cj_source_file := rj_source_file rj, cj_last_status := Some (u ''skipped'')\<rparr>"
  have 1: "tick_job env view1 now1 rj svc = (put_row ?st1 now1 svc, None)"
    using tick_job_in_step [OF en row st(1)] no due_at run(1) skip by (simp add: tick_schedule_def overlap_row_def Let_def)
  let ?svc1 = "put_row ?st1 now1 svc"
  let ?row1 = "?st1\<lparr>cj_updated_at := now1\<rparr>"
  let ?st2 = "finished_row (Some rj) t False now2 ?row1"
  have job: "cj_job_id st = jb_id (rj_spec rj)" and key: "cj_schedule_key st = driver_of (rj_spec rj)"
    using st(1) by (simp_all add: in_step_def)
  have r1: "dget (jb_id (rj_spec rj)) (sv_rows ?svc1) = Some ?row1" using job by simp
  have f: "finalize env (jb_id (rj_spec rj)) t False now2 ?svc1 = settle_run env (Some rj) t now2 ?st2 ?svc1"
    using jobs r1 run(1) key by (simp add: finalize_def adopt_driver_def Let_def)
  let ?svc2 = "fst (finalize env (jb_id (rj_spec rj)) t False now2 ?svc1)"
  have q: "\<not> cj_queued_due ?st2" using st(2) by simp
  from settle_run_idle [OF q, where env = env and rj = rj and t = t and now = now2 and svc = ?svc1] f ok job
  have r2: "dget (jb_id (rj_spec rj)) (sv_rows ?svc2) = Some (?st2\<lparr>cj_updated_at := now2\<rparr>)" "service_ok env ?svc2" by simp_all
  have dis: "\<not> cj_disabled ?st2" using run(2) by (simp add: finished_row_def Let_def)
  have i2: "in_step (rj_spec rj) (?st2\<lparr>cj_updated_at := now2\<rparr>)" using job key dis by (simp add: in_step_def)
  have "has_fired env (rj_spec rj) now3 (Some t') (fst (tick_job env view3 now3 rj ?svc2))"
    by (rule tick_fires_due_job [OF r2(2) en sch no r2(1) i2 _ due_at(3) _ cwd nd, THEN conjunct2])
      (use due_at(1) in simp_all)
  then show ?thesis using 1 by (simp add: Let_def)
qed

text \<open>
  Switching a job off does not stop the fire it is owed: a job with overlap=queue that was edited to
  enabled: false while its run was in flight fires once more when that run ends, although the documentation says
  such an edit stops future fires and only the run in flight completes.
\<close>

theorem switched_off_job_fires_once_more:
  assumes ok: "service_ok env svc" and off: "\<not> jb_enabled (rj_spec rj)" and sch: "jb_schedule (rj_spec rj) = Some s"
    and jobs: "dget (jb_id (rj_spec rj)) (sv_jobs svc) = Some rj"
    and row: "dget (jb_id (rj_spec rj)) (sv_rows svc) = Some st" and st: "in_step (rj_spec rj) st" "cj_queued_due st"
    and run: "cj_running_task_id st = Some (tk_id t)" "run_succeeded t False"
    and cwd: "job_cwd env rj = Inr cwd" and nd: "next_due (ce_world env) s now = Inr t'"
  shows "has_fired env (rj_spec rj) now (Some t') (fst (finalize env (jb_id (rj_spec rj)) t False now svc))"
proof -
  let ?st = "finished_row (Some rj) t False now st"
  let ?q = "?st\<lparr>cj_queued_due := False\<rparr>"
  let ?d = "case delivery_context ?st (Some rj) of None \<Rightarrow> put_row ?st now svc
    | Some ctx \<Rightarrow> deliver env ctx ?st t now (put_row ?st now svc)"
  have job: "cj_job_id st = jb_id (rj_spec rj)" and key: "cj_schedule_key st = driver_of (rj_spec rj)"
    using st(1) by (simp_all add: in_step_def)
  have dis: "\<not> cj_disabled ?st" using run(2) by (simp add: finished_row_def Let_def)
  have "service_ok env (put_row ?q now ?d)" using ok service_ok_deliver by (auto split: option.split)
  from materialize_fires [OF this cwd fire_due_sched [OF sch nd], where st = ?q and catchup = False and reason = None]
  obtain pid k svc' st' where m: "materialize env rj ?q now False False None (put_row ?q now ?d) = (svc', st', None)"
    and l: "launched (ce_fresh env k) (fired_row rj pid (ce_fresh env k) (Some t') False False now ?q) st' svc'"
    and r: "\<forall>i. dget i (sv_rows svc') = (if i = cj_job_id ?q then Some (st'\<lparr>cj_updated_at := now\<rparr>)
      else dget i (sv_rows (put_row ?q now ?d)))"
    unfolding Let_def by blast
  have "has_fired env (rj_spec rj) now (Some t') svc'"
    by (rule launched_has_fired [OF l]) (use r job sch in auto)
  moreover have "finalize env (jb_id (rj_spec rj)) t False now svc = (svc', None)"
    using jobs row run(1) key st(2) dis m by (simp add: finalize_def adopt_driver_def settle_run_def Let_def)
  ultimately show ?thesis by simp
qed

lemma materialize_bad_cwd:
  assumes "job_cwd env rj = Inl e"
  shows "\<exists>svc1. materialize env rj st now c m reason svc = (svc1, st, Some e) \<and> same_books svc svc1"
proof -
  obtain svc1 pid where c: "cron_plan_id env (rj_chat_id rj) now svc = (svc1, pid)" by force
  from cron_plan_id_books [OF this] c assms show ?thesis by (simp add: materialize_def Let_def)
qed

text \<open>
  One job can stop the others: when the working directory of a due job names a home that does not
  exist, every tick ends in that exception before it reaches the jobs after it in the table, at every tick, so
  no row of theirs is ever read, made or written and none of them fires; the job itself stays due.
\<close>

theorem bad_directory_starves_later_jobs:
  assumes en: "jb_enabled (rj_spec rj)" and no: "jb_trigger (rj_spec rj) = None"
    and row: "dget (jb_id (rj_spec rj)) (sv_rows svc) = Some st" and st: "in_step (rj_spec rj) st"
    and due_at: "cj_next_due_at st = Some due_at" and idle: "cj_running_task_id st = None"
    and cwd: "job_cwd env rj = Inl e" and ticks: "list_all (\<lambda>(view, now). due_at \<le> now) ticks"
  shows "sv_rows (foldl (\<lambda>svc (view, now). fst (tick_jobs env view now (rj # rjs) svc)) svc ticks) = sv_rows svc"
  using row ticks
proof (induction ticks arbitrary: svc)
  case (Cons p ticks)
  obtain view now where p: "p = (view, now)" by force
  from materialize_bad_cwd [OF cwd] obtain svc1 where
    m: "materialize env rj (st\<lparr>cj_source_file := rj_source_file rj\<rparr>) now (jb_id (rj_spec rj) \<in> set (sv_catchup svc)) False None svc
      = (svc1, st\<lparr>cj_source_file := rj_source_file rj\<rparr>, Some e)" and s: "same_books svc svc1" by blast
  have "tick_jobs env view now (rj # rjs) svc = (svc1, Some e)"
    using tick_job_in_step [OF en Cons.prems(1) st] no due_at idle Cons.prems(2) m p by (simp add: tick_schedule_def Let_def)
  moreover from s have r: "sv_rows svc1 = sv_rows svc" by (simp add: same_books_def)
  ultimately show ?case using Cons p by simp
qed simp

subsection \<open>Finalizing once\<close>

lemma materialize_inversion:
  assumes ok: "service_ok env svc" and m: "materialize env rj st now c manual reason svc = (svc', st', None)"
  shows "\<exists>k. sv_drawn svc \<le> k \<and>
    (cj_running_task_id st' = Some (ce_fresh env k) \<or> cj_running_task_id st' = None) \<and> cj_job_id st' = cj_job_id st \<and>
    dget (cj_job_id st) (sv_rows svc') = Some (st'\<lparr>cj_updated_at := now\<rparr>)"
proof (cases "job_cwd env rj")
  case (Inl e)
  from materialize_bad_cwd [OF Inl] m show ?thesis by (metis option.distinct(1) prod.inject)
next
  case cwd: (Inr cwd)
  show ?thesis
  proof (cases "fire_due env rj manual now")
    case (Inr nd)
    from materialize_fires [OF ok cwd Inr, where st = st and catchup = c and reason = reason] m
    obtain pid k where "sv_drawn svc \<le> k" "launched (ce_fresh env k) (fired_row rj pid (ce_fresh env k) nd c manual now st) st' svc'"
      "cj_job_id st' = cj_job_id st" "dget (cj_job_id st) (sv_rows svc') = Some (st'\<lparr>cj_updated_at := now\<rparr>)"
      unfolding Let_def by auto
    then show ?thesis by (intro exI [of _ k]) (auto simp: launched_def fired_row_def start_failed_row_def)
  next
    case (Inl e)
    obtain svc1 pid where p: "cron_plan_id env (rj_chat_id rj) now svc = (svc1, pid)" by force
    from cron_plan_id_ok [OF ok p] obtain q where "service_ok env svc1" "dget pid (en_plans (sv_engine svc1)) = Some q" by blast
    then have "plans_ok (en_plans (sv_engine svc1))" "dget pid (en_plans (sv_engine svc1)) = Some q"
      "tk_id (cron_task env rj c manual reason cwd (ce_fresh env (sv_drawn svc1)) now) \<notin> tk_id ` set (pl_tasks q)"
      "tk_depends_on (cron_task env rj c manual reason cwd (ce_fresh env (sv_drawn svc1)) now) = []"
      "schedulable (tk_status (cron_task env rj c manual reason cwd (ce_fresh env (sv_drawn svc1)) now))"
      by (auto simp: service_ok_def fresh_for_def cron_task_def schedulable_def Let_def)
    from add_fresh_task [OF this, where now = now] cwd p Inl m show ?thesis by (auto simp: materialize_def Let_def)
  qed
qed

text \<open>
  A run is finalized once: the bus event and the reconciliation of a tick may both find the same
  finished task, in either order and with whatever failure flag; after one of them has finalized it, the other
  changes nothing: no second result, no second count, no second re-fire.
\<close>

theorem run_is_finalized_once:
  assumes ok: "service_ok env svc" and old: "\<forall>k. sv_drawn svc \<le> k \<longrightarrow> tk_id t \<noteq> ce_fresh env k"
    and row: "dget job (sv_rows svc) = Some st" and run: "cj_running_task_id st = Some (tk_id t)"
    and fin: "finalize env job t b now svc = (svc1, None)"
  shows "finalize env job t b' now' svc1 = (svc1, None)"
proof -
  have job: "cj_job_id st = job" using ok row by (auto simp: service_ok_def dest: rows_ok_get)
  let ?r = "dget job (sv_jobs svc)"
  from fin row run obtain st2 where a: "adopt_driver env ?r now (finished_row ?r t b now st) = Inr st2"
    and s: "settle_run env ?r t now st2 svc = (svc1, None)"
    by (auto simp: finalize_def Let_def split: sum.splits)
  from adopt_driver_sel [OF a] job have j2: "cj_job_id st2 = job" and n2: "cj_running_task_id st2 = None" by auto
  let ?d = "case delivery_context st2 ?r of None \<Rightarrow> put_row st2 now svc
    | Some ctx \<Rightarrow> deliver env ctx st2 t now (put_row st2 now svc)"
  have d: "sv_rows ?d = sv_rows (put_row st2 now svc)" "service_ok env ?d" "sv_drawn svc \<le> sv_drawn ?d"
    using ok deliver_frame [of env _ st2 t now "put_row st2 now svc"] service_ok_deliver by (auto split: option.split)
  have "dget job (sv_rows svc1) = None \<or> (\<exists>st''. dget job (sv_rows svc1) = Some st'' \<and> cj_running_task_id st'' \<noteq> Some (tk_id t))"
  proof (cases ?r)
    case None
    with s j2 show ?thesis by (auto simp: settle_run_def drop_row_def Let_def)
  next
    case (Some rj)
    show ?thesis
    proof (cases "cj_queued_due st2 \<and> \<not> cj_disabled st2")
      case True
      let ?q = "st2\<lparr>cj_queued_due := False\<rparr>"
      from s Some True obtain st3 where m: "materialize env rj ?q now False False None (put_row ?q now ?d) = (svc1, st3, None)"
        by (auto simp: settle_run_def Let_def split: prod.splits)
      from materialize_inversion [OF _ m] d(2) obtain k where "sv_drawn ?d \<le> k"
        "cj_running_task_id st3 = Some (ce_fresh env k) \<or> cj_running_task_id st3 = None"
        "dget job (sv_rows svc1) = Some (st3\<lparr>cj_updated_at := now\<rparr>)" using j2 by auto
      moreover from this(1) d(3) old have "tk_id t \<noteq> ce_fresh env k" by auto
      ultimately show ?thesis by auto
    next
      case False
      with s Some have "svc1 = ?d" by (auto simp: settle_run_def Let_def)
      with d(1) j2 n2 show ?thesis by simp
    qed
  qed
  then show ?thesis by (auto simp: finalize_def Let_def)
qed

subsection \<open>The daily cap of turn deliveries\<close>

definition armed_in :: "events \<Rightarrow> nat" where
  "armed_in q = length (filter (\<lambda>e. prefix cron_prefix (we_reason e)) (dvals q))"

lemma budget_pending_set: "e \<in> set (budget_pending chat q) \<longleftrightarrow> e \<in> set (dvals q) \<and> we_chat_id e = chat \<and> budget_reason (we_reason e)"
  by (auto simp: budget_pending_def pending_body_def)

lemma armed_budget: "armed_cron (budget_pending chat q) =
    int (length (filter (\<lambda>e. we_chat_id e = chat \<and> prefix cron_prefix (we_reason e)) (dvals q)))"
  by (simp add: armed_cron_def budget_pending_def pending_body_def budget_reason_def filter_sort)
    (rule arg_cong [of _ _ length], auto intro!: filter_cong)

text \<open>Inside one chat the gate holds: armed turns and billed turns stay within the cap.\<close>

lemma length_filter_dset: "length (filter P (dvals (dset k v d))) \<le> length (filter P (dvals d)) + 1"
  by (induction d) auto

lemma turn_wake_sel [simp]:
  "we_chat_id (turn_wake fresh rj st t at_time now) = rj_chat_id rj"
  "we_reason (turn_wake fresh rj st t at_time now) = cron_prefix @ jb_id (rj_spec rj)"
  "we_id (turn_wake fresh rj st t at_time now) = fresh"
  by (simp_all add: turn_wake_def enqueue_event_def)

lemma deliver_turn_within_cap:
  assumes "deliver_turn env rj st t now svc = (svc', r)" and "sv_wakes svc = Some q" and "sv_wakes svc' = Some q'"
    and "turns_on today (sv_rows svc) + armed_cron (budget_pending (rj_chat_id rj) q) \<le> cc_turn_delivery_max_per_day (ce_config env)"
    and "today = w_local_day (ce_world env) now"
  shows "turns_on today (sv_rows svc') + armed_cron (budget_pending (rj_chat_id rj) q') \<le> cc_turn_delivery_max_per_day (ce_config env)"
  using assms length_filter_dset
    [of "\<lambda>e. we_chat_id e = rj_chat_id rj \<and> prefix cron_prefix (we_reason e)"
      "ce_fresh env (sv_drawn svc)" "turn_wake (ce_fresh env (sv_drawn svc)) rj st t
        (spaced_time (ce_config env) now (budget_pending (rj_chat_id rj) q)) now" q]
  by (auto simp: deliver_turn_def armed_budget enqueue_body_def Let_def split: if_splits)

text \<open>Results of several jobs delivered as turns, one after the other.\<close>

fun deliver_turns ::
  "cron_env \<Rightarrow> cron_state \<Rightarrow> task \<Rightarrow> secs \<Rightarrow> resolved_job list \<Rightarrow> cron_service \<Rightarrow> cron_service \<times> turn_outcome list" where
  "deliver_turns env st t now [] svc = (svc, [])"
| "deliver_turns env st t now (rj # rjs) svc =
     (let (svc1, r) = deliver_turn env rj st t now svc; (svc2, rs) = deliver_turns env st t now rjs svc1
      in (svc2, r # rs))"

lemma deliver_turn_first:
  assumes "sv_wakes svc = Some q" and "\<forall>e \<in> set (dvals q). we_chat_id e \<noteq> rj_chat_id rj"
    and "turns_on (w_local_day (ce_world env) now) (sv_rows svc) < cc_turn_delivery_max_per_day (ce_config env)"
    and "0 < cc_self_wake_max_pending (ce_config env)"
  shows "deliver_turn env rj st t now svc =
    (svc\<lparr>sv_wakes := Some (dset (ce_fresh env (sv_drawn svc)) (turn_wake (ce_fresh env (sv_drawn svc)) rj st t now now) q),
       sv_drawn := sv_drawn svc + 1\<rparr>, TurnNow)"
proof -
  have "e \<notin> set (budget_pending (rj_chat_id rj) q)" for e using assms(2) by (auto simp: budget_pending_set)
  then have "budget_pending (rj_chat_id rj) q = []" by (metis list.set_intros(1) neq_Nil_conv)
  with assms show ?thesis by (simp add: deliver_turn_def spaced_time_def armed_cron_def enqueue_body_def Let_def)
qed

lemma deliver_turns_all:
  assumes "inj (ce_fresh env)" and "distinct (map rj_chat_id rjs)" and "sv_wakes svc = Some q"
    and "\<forall>k \<ge> sv_drawn svc. ce_fresh env k \<notin> set (dkeys q)"
    and "\<forall>rj \<in> set rjs. \<forall>e \<in> set (dvals q). we_chat_id e \<noteq> rj_chat_id rj"
    and "turns_on (w_local_day (ce_world env) now) (sv_rows svc) < cc_turn_delivery_max_per_day (ce_config env)"
    and "0 < cc_self_wake_max_pending (ce_config env)"
  shows "\<exists>q'. sv_wakes (fst (deliver_turns env st t now rjs svc)) = Some q'
    \<and> snd (deliver_turns env st t now rjs svc) = replicate (length rjs) TurnNow \<and> armed_in q' = armed_in q + length rjs"
  using assms
proof (induction rjs arbitrary: svc q)
  case (Cons rj rjs)
  let ?k = "ce_fresh env (sv_drawn svc)"
  let ?e = "turn_wake ?k rj st t now now"
  let ?svc = "svc\<lparr>sv_wakes := Some (dset ?k ?e q), sv_drawn := sv_drawn svc + 1\<rparr>"
  have d: "deliver_turn env rj st t now svc = (?svc, TurnNow)"
    by (rule deliver_turn_first) (use Cons.prems in auto)
  have new: "?k \<notin> set (dkeys q)" using Cons.prems(4) by auto
  then have q: "dset ?k ?e q = q @ [(?k, ?e)]" by (rule dset_new)
  have "\<exists>q'. sv_wakes (fst (deliver_turns env st t now rjs ?svc)) = Some q'
    \<and> snd (deliver_turns env st t now rjs ?svc) = replicate (length rjs) TurnNow
    \<and> armed_in q' = armed_in (q @ [(?k, ?e)]) + length rjs"
    by (rule Cons.IH) (use Cons.prems q in \<open>auto simp: inj_eq image_iff\<close>)
  then obtain q' where "sv_wakes (fst (deliver_turns env st t now rjs ?svc)) = Some q'"
    "snd (deliver_turns env st t now rjs ?svc) = replicate (length rjs) TurnNow"
    "armed_in q' = armed_in (q @ [(?k, ?e)]) + length rjs" by blast
  with d show ?case by (auto simp: armed_in_def case_prod_unfold Let_def)
qed (simp add: armed_in_def)

text \<open>
  The daily cap of turn deliveries does not bound the day: as long as fewer turns than the cap have
  been billed today, one result after the other is armed as a turn at once for every chat that has nothing
  pending, so with enough chats any number of turns is armed, far beyond the cap; the gate counts the armed
  wakes of the delivering chat only.
\<close>

theorem daily_cap_counts_one_chat:
  assumes "inj (ce_fresh env)" and "distinct (map rj_chat_id rjs)" and "sv_wakes svc = Some []"
    and "turns_on (w_local_day (ce_world env) now) (sv_rows svc) < cc_turn_delivery_max_per_day (ce_config env)"
    and "0 < cc_self_wake_max_pending (ce_config env)"
  shows "snd (deliver_turns env st t now rjs svc) = replicate (length rjs) TurnNow
    \<and> map_option armed_in (sv_wakes (fst (deliver_turns env st t now rjs svc))) = Some (length rjs)"
  using deliver_turns_all [OF assms(1-3) _ _ assms(4,5), where st = st and t = t] by (auto simp: armed_in_def)

end
