(* ===== verification/CronSamples.thy ===== *)
theory CronSamples
  imports CronRuns
begin

section \<open>The cron service: the properties at concrete inputs\<close>

text \<open>A service with one job, in the states the properties speak of, and each property applied there.\<close>

definition sample_env :: cron_env where
  "sample_env = \<lparr>ce_world = plain_world, ce_config = plain_cron, ce_fresh = (\<lambda>n. [116, n]), ce_reason_text = (\<lambda>_. u ''r''),
     ce_exn_text = (\<lambda>_. u ''x''), ce_identity = (\<lambda>_. None), ce_persona_memory = (\<lambda>_. []), ce_promoted = (\<lambda>_ _. []),
     ce_results_dir = id\<rparr>"

definition empty_view :: fs_view where
  "empty_view = \<lparr>fv_file = (\<lambda>_. None), fv_mtime = (\<lambda>_. None), fv_json = (\<lambda>_. None)\<rparr>"

definition idle_engine :: engine where
  "idle_engine = \<lparr>en_plans = [], en_pool = \<lparr>wp_max_workers = 1, wp_running = True, wp_executor = 1, wp_futures = []\<rparr>,
     en_events = [], en_config = \<lparr>tc_workers = 1, tc_enabled_types = [SHELL], tc_acp_model = None, tc_acp_timeout = None\<rparr>\<rparr>"

definition sample_service :: "resolved_job list \<Rightarrow> cron_state list \<Rightarrow> cron_service" where
  "sample_service rjs sts = \<lparr>sv_rows = map (\<lambda>st. (cj_job_id st, st)) sts, sv_watches = [],
     sv_jobs = map (\<lambda>rj. (jb_id (rj_spec rj), rj)) rjs, sv_warnings = [], sv_service_last = None, sv_cron_plans = [],
     sv_task_to_job = [], sv_catchup = [], sv_booted = True, sv_engine = idle_engine, sv_wakes = Some [],
     sv_results = [], sv_drawn = 0\<rparr>"

text \<open>The row of a job in step with its specification.\<close>

definition sample_row :: "job_spec \<Rightarrow> cron_state" where
  "sample_row j = (new_cron_state (jb_id j) (u ''crons.yaml'') 0)\<lparr>cj_schedule_key := driver_of j, cj_next_due_at := Some 10\<rparr>"

definition hourly :: resolved_job where
  "hourly = sample_resolved (every_job ''a'' 3600)"

lemma sample_row_in_step: "in_step j (sample_row j)"
  by (simp add: in_step_def sample_row_def new_cron_state_def)

lemma inj_fresh: "inj (ce_fresh sample_env)"
  by (simp add: sample_env_def inj_def)

lemma sample_service_ok:
  "distinct (map cj_job_id sts) \<Longrightarrow> service_ok sample_env (sample_service rjs sts)"
  by (auto simp: service_ok_def sample_service_def idle_engine_def plans_ok_def rows_ok_def keyed_ok_def dict_ok_def
      comp_def list_all_iff fresh_for_def inj_fresh) (simp add: sample_env_def)

lemmas sample_defs = hourly_def sample_resolved_def resolved_of_def every_job_def sample_service_def sample_row_def
  new_cron_state_def script_call_def plain_cron_def

lemma hourly_due: "next_due (ce_world sample_env) \<lparr>sc_cron = None, sc_every_seconds = Some 3600, sc_at_daily = None\<rparr> t = Inr (t + 3600)"
  by (simp add: next_due_def)

lemma hourly_cwd: "job_cwd sample_env hourly = Inr (Some (path_text (True, [u ''p''])))"
  by (simp add: job_cwd_def sample_defs)


definition busy_row :: "job_spec \<Rightarrow> cron_state" where
  "busy_row j = (sample_row j)\<lparr>cj_running_task_id := Some (u ''t'')\<rparr>"

theorem run_in_flight_blocks_another_witness:
  "sv_engine (fst (tick_job sample_env empty_view 20 hourly (sample_service [hourly] [busy_row (rj_spec hourly)])))
      = sv_engine (sample_service [hourly] [busy_row (rj_spec hourly)])
    \<and> sv_wakes (fst (tick_job sample_env empty_view 20 hourly (sample_service [hourly] [busy_row (rj_spec hourly)])))
      = sv_wakes (sample_service [hourly] [busy_row (rj_spec hourly)])
    \<and> run_now sample_env (jb_id (rj_spec hourly)) 20 (sample_service [hourly] [busy_row (rj_spec hourly)])
      = (sample_service [hourly] [busy_row (rj_spec hourly)], Inl RuntimeError)"
  by (rule run_in_flight_blocks_another [where st = "busy_row (rj_spec hourly)" and tid = "u ''t''"]) (simp_all add: busy_row_def sample_defs)

definition done_task :: "ustr \<Rightarrow> task" where
  "done_task i = (sample_task ''t'' [] DONE)\<lparr>tk_id := i\<rparr>"

lemma done_task_sel [simp]: "tk_id (done_task i) = i" "run_succeeded (done_task i) False"
  by (simp_all add: done_task_def sample_task_def run_succeeded_def)

theorem skipped_slot_fires_after_the_run_witness:
  "let svc1 = fst (tick_job sample_env empty_view 20 hourly (sample_service [hourly] [busy_row (rj_spec hourly)]));
       svc2 = fst (finalize sample_env (jb_id (rj_spec hourly)) (done_task (u ''t'')) False 30 svc1)
   in has_fired sample_env (rj_spec hourly) 40 (Some (40 + 3600)) (fst (tick_job sample_env empty_view 40 hourly svc2))"
  by (rule skipped_slot_fires_after_the_run [where st = "busy_row (rj_spec hourly)" and due_at = 10,
        OF sample_service_ok _ _ _ _ _ _ _ _ _ _ _ _ _ hourly_cwd hourly_due])
    (simp_all add: busy_row_def sample_defs in_step_def)

definition owed_job :: resolved_job where
  "owed_job = sample_resolved ((every_job ''a'' 3600)\<lparr>jb_enabled := False, jb_overlap := OverlapQueue\<rparr>)"

definition owed_row :: cron_state where
  "owed_row = (busy_row (rj_spec owed_job))\<lparr>cj_queued_due := True\<rparr>"

theorem switched_off_job_fires_once_more_witness:
  "has_fired sample_env (rj_spec owed_job) 20 (Some (20 + 3600))
     (fst (finalize sample_env (jb_id (rj_spec owed_job)) (done_task (u ''t'')) False 20 (sample_service [owed_job] [owed_row])))"
  by (rule switched_off_job_fires_once_more [where st = owed_row and cwd = "Some (path_text (True, [u ''p'']))",
        OF sample_service_ok _ _ _ _ _ _ _ _ _ hourly_due])
    (simp_all add: owed_row_def owed_job_def busy_row_def sample_defs in_step_def job_cwd_def)

definition lost_home :: resolved_job where
  "lost_home = sample_resolved ((every_job ''a'' 3600)\<lparr>jb_call := script_call\<lparr>cl_cwd := Some (u ''~nobody'')\<rparr>\<rparr>)"

lemma lost_home_cwd: "job_cwd sample_env lost_home = Inl RuntimeError"
  by code_simp

theorem bad_directory_starves_later_jobs_witness:
  "sv_rows (foldl (\<lambda>svc (view, now). fst (tick_jobs sample_env view now [lost_home, sample_resolved (every_job ''b'' 3600)] svc))
       (sample_service [lost_home, sample_resolved (every_job ''b'' 3600)] [sample_row (rj_spec lost_home)])
       [(empty_view, 20), (empty_view, 25), (empty_view, 30)])
     = sv_rows (sample_service [lost_home, sample_resolved (every_job ''b'' 3600)] [sample_row (rj_spec lost_home)])"
  by (rule bad_directory_starves_later_jobs [where st = "sample_row (rj_spec lost_home)" and due_at = 10, OF _ _ _ sample_row_in_step _ _ lost_home_cwd])
    (simp_all add: lost_home_def sample_defs)

text \<open>A fire, and the service it leaves; the job is then deleted from its file.\<close>

definition hourly_fire :: "cron_service \<times> cron_state \<times> py_exn option" where
  "hourly_fire = materialize sample_env hourly (sample_row (rj_spec hourly)) 20 False False None
     (sample_service [hourly] [sample_row (rj_spec hourly)])"

lemma hourly_fired: "cj_running_task_id (fst (snd hourly_fire)) \<noteq> None \<and> snd (snd hourly_fire) = None"
proof -
  let ?svc = "sample_service [hourly] [sample_row (rj_spec hourly)]"
  have ok: "service_ok sample_env ?svc" by (rule sample_service_ok) simp
  have nd: "fire_due sample_env hourly False 20 = Inr (Some (20 + 3600))"
    by (rule fire_due_sched [OF _ hourly_due]) (simp add: sample_defs)
  from materialize_fires [OF ok hourly_cwd nd, where st = "sample_row (rj_spec hourly)" and catchup = False and reason = None]
  obtain pid k svc' st' where m: "hourly_fire = (svc', st', None)"
    and l: "launched (ce_fresh sample_env k) (fired_row hourly pid (ce_fresh sample_env k) (Some (20 + 3600)) False False 20
      (sample_row (rj_spec hourly))) st' svc'" and e: "accepting (sv_engine svc') = accepting (sv_engine ?svc)"
    unfolding Let_def hourly_fire_def by auto
  have "accepting (sv_engine ?svc)" by (simp add: accepting_def sample_service_def idle_engine_def)
  with e l have "cj_running_task_id st' \<noteq> None" by (auto simp: launched_def fired_row_def)
  then show ?thesis unfolding m by simp
qed

definition fired_task :: ustr where
  "fired_task = the (cj_running_task_id (fst (snd hourly_fire)))"

definition deleted_mid_run :: cron_service where
  "deleted_mid_run = (fst hourly_fire)\<lparr>sv_jobs := []\<rparr>"

lemma deleted_mid_run_row:
  "dget (u ''a'') (sv_rows deleted_mid_run) = Some ((fst (snd hourly_fire))\<lparr>cj_updated_at := 20\<rparr>)"
proof -
  have m: "materialize sample_env hourly (sample_row (rj_spec hourly)) 20 False False None
     (sample_service [hourly] [sample_row (rj_spec hourly)]) = (fst hourly_fire, fst (snd hourly_fire), snd (snd hourly_fire))"
    by (simp add: hourly_fire_def)
  have "cj_running_task_id (sample_row (rj_spec hourly)) = None" by (simp add: sample_defs)
  then have "fst (snd hourly_fire) \<noteq> sample_row (rj_spec hourly)" using hourly_fired by auto
  with materialize_cases [OF m] show ?thesis by (simp add: deleted_mid_run_def sample_defs)
qed

theorem result_lands_where_fired_witness:
  "\<exists>r. sv_results (fst (finalize sample_env (cj_job_id (sample_row (rj_spec hourly))) (done_task fired_task) False 30 deleted_mid_run))
      = sv_results deleted_mid_run @ [r]
    \<and> cr_chat r = rj_chat_id hourly \<and> cr_job r = jb_id (rj_spec hourly) \<and> cr_delivery r = jb_delivery (rj_spec hourly)
    \<and> cr_task r = tk_id (done_task fired_task)"
proof (rule result_lands_where_fired)
  show "materialize sample_env hourly (sample_row (rj_spec hourly)) 20 False False None
     (sample_service [hourly] [sample_row (rj_spec hourly)]) = (fst hourly_fire, fst (snd hourly_fire), None)"
    using hourly_fired by (metis hourly_fire_def prod.collapse)
  show "cj_running_task_id (sample_row (rj_spec hourly)) = None" by (simp add: sample_defs)
  show "cj_running_task_id (fst (snd hourly_fire)) = Some (tk_id (done_task fired_task))" using hourly_fired by (auto simp: fired_task_def)
  show "rj_chat_id hourly \<noteq> []" by (simp add: sample_defs)
  show "dget (cj_job_id (sample_row (rj_spec hourly))) (sv_rows deleted_mid_run)
      = Some ((fst (snd hourly_fire))\<lparr>cj_updated_at := 20\<rparr>)"
    using deleted_mid_run_row by (simp add: sample_defs)
  show "snd (finalize sample_env (cj_job_id (sample_row (rj_spec hourly))) (done_task fired_task) False 30 deleted_mid_run) = None"
    using deleted_mid_run_row hourly_fired
    by (auto simp: fired_task_def sample_defs finalize_def deleted_mid_run_def adopt_driver_def settle_run_def Let_def)
qed

definition three_failures :: "(task \<times> bool \<times> secs) list" where
  "three_failures = [(done_task (u ''s''), False, 1), (done_task (u ''t''), True, 2), (done_task (u ''t''), True, 3), (done_task (u ''t''), True, 4)]"

lemma three_trailing: "trailing_failures three_failures = 3"
  by (simp add: trailing_failures_def three_failures_def) (simp add: run_succeeded_def)

definition failed_service :: cron_service where
  "failed_service = sample_service [hourly] [after_runs (Some hourly) three_failures (sample_row (rj_spec hourly))]"

lemma after_runs_job: "cj_job_id (after_runs r runs st) = cj_job_id st"
  by (induction runs rule: rev_induct) (auto simp: after_runs_def case_prod_unfold)

theorem failing_job_is_disabled_witness:
  "cj_disabled (after_runs (Some hourly) three_failures (sample_row (rj_spec hourly)))
      = (failure_limit (Some hourly) \<le> int (trailing_failures three_failures))
    \<and> tick_job sample_env empty_view 20 hourly failed_service = (failed_service, None)"
  by (rule failing_job_is_disabled)
    (simp_all add: three_trailing failed_service_def sample_service_def after_runs_job failure_limit_def,
     simp_all add: sample_defs)

definition watcher :: resolved_job where
  "watcher = sample_resolved (watch_job ''a'' ''in.flag'')"

definition watch_row :: cron_state where
  "watch_row = (new_cron_state (u ''a'') (u ''crons.yaml'') 0)\<lparr>cj_schedule_key := driver_of (rj_spec watcher),
     cj_trigger_seen_mtime := Some 1, cj_trigger_fired_at := Some 100\<rparr>"

definition touched :: fs_view where
  "touched = empty_view\<lparr>fv_mtime := (\<lambda>_. Some 2)\<rparr>"


definition ended_run :: cron_service where
  "ended_run = fst (finalize sample_env (u ''a'') (done_task (u ''x'')) False 20
     (sample_service [hourly] [(busy_row (rj_spec hourly))\<lparr>cj_running_task_id := Some (u ''x'')\<rparr>]))"

theorem run_is_finalized_once_witness:
  "finalize sample_env (u ''a'') (done_task (u ''x'')) True 25 ended_run = (ended_run, None)"
proof (rule run_is_finalized_once)
  let ?st = "(busy_row (rj_spec hourly))\<lparr>cj_running_task_id := Some (u ''x'')\<rparr>"
  show "service_ok sample_env (sample_service [hourly] [?st])" by (rule sample_service_ok) simp
  show "\<forall>k. sv_drawn (sample_service [hourly] [?st]) \<le> k \<longrightarrow> tk_id (done_task (u ''x'')) \<noteq> ce_fresh sample_env k"
    by (simp add: sample_env_def) (simp add: u_def)
  show "dget (u ''a'') (sv_rows (sample_service [hourly] [?st])) = Some ?st" by (simp add: busy_row_def sample_defs)
  show "cj_running_task_id ?st = Some (tk_id (done_task (u ''x'')))" by simp
  show "finalize sample_env (u ''a'') (done_task (u ''x'')) False 20 (sample_service [hourly] [?st]) = (ended_run, None)"
    by (simp add: ended_run_def finalize_def adopt_driver_def settle_run_def busy_row_def sample_defs Let_def prod_eq_iff)
qed

text \<open>Five chats and a cap of four turns a day.\<close>

definition chat_job :: "nat \<Rightarrow> resolved_job" where
  "chat_job n = hourly\<lparr>rj_chat_id := [n]\<rparr>"

theorem daily_cap_counts_one_chat_witness:
  "snd (deliver_turns sample_env (sample_row (rj_spec hourly)) (done_task []) 20 (map chat_job [1, 2, 3, 4, 5]) (sample_service [] []))
      = replicate (length (map chat_job [1, 2, 3, 4, 5])) TurnNow
    \<and> map_option armed_in (sv_wakes (fst (deliver_turns sample_env (sample_row (rj_spec hourly)) (done_task []) 20
        (map chat_job [1, 2, 3, 4, 5]) (sample_service [] [])))) = Some (length (map chat_job [1, 2, 3, 4, 5]))"
  by (rule daily_cap_counts_one_chat [OF inj_fresh])
    (simp_all add: chat_job_def sample_service_def sample_env_def turns_on_def plain_cron_def)

end
