(* ===== verification/Spec2Isabelle.thy ===== *)
theory Spec2Isabelle
  imports Restart TurnSamples LifecycleSamples PromptSamples TaskEngine TelegramSplit EventLog DispatchStore ShortTermMemory MemoryPockets AcpWatchdog AcpLifecycle AcpErrors StreamDisplay Routing Ingress CronSamples
begin

text \<open>
  A verification library for diploid-agent, a harness that runs an AI agent behind chats.  It follows the
  Python package \<open>src/src/diploid_agent\<close>; a theory is named after the part of the program it models and says in
  its opening text which files.  Definitions keep the program's names where HOL allows it.

  \<^bold>\<open>Parts and how they interact.\<close>  A message enters through \<open>runtime/ingress.py\<close>, which takes the chat's lock
  (\<open>runtime/instance.py\<close>) or queues the message as a wake event (\<open>runtime/wake_queue.py\<close>).  A turn (\<open>turn/\<close>) is refused,
  parked or started, builds its prompt (\<open>context/\<close>, \<open>persona_composer.py\<close>), talks to the
  agent over a child process (\<open>acp_client/\<close>) that a watchdog supervises; its stream is split into thought, tool
  titles and reply (\<open>turn/stream.py\<close>, \<open>models.py\<close>) and shown live in Telegram (\<open>transport/telegram/\<close>).  Results
  are delivered through the outbox (\<open>runtime/outbox.py\<close>) and logged (\<open>runtime/event_log.py\<close>); the turn is counted
  (\<open>runtime/metrics.py\<close>), which feeds routing, budget and context pressure (\<open>engine/router.py\<close>, \<open>context/\<close>), and
  remembered (\<open>memory_*.py\<close>).  Sessions are kept in \<open>runtime/store.py\<close>, background work in plans (\<open>plan/\<close>, run by
  \<open>task/engine.py\<close>) and dispatches (\<open>dispatch.py\<close>), which wake the chat again when they end (\<open>runtime/planning.py\<close>,
  \<open>runtime/subagent.py\<close>, \<open>runtime/lifecycle.py\<close>).  A restart drains the turns first (\<open>runtime/restart.py\<close>).

  \<^bold>\<open>Shared foundations.\<close>  \<open>Prelude\<close>: Python strings as lists of code points (lone surrogates included), slices,
  \<open>splitlines\<close>, \<open>strip\<close>, decimal text, truncation.  \<open>PyData\<close>: dictionaries in insertion order and the locales
  \<open>keyed_store\<close> and \<open>listed_store\<close>, interpreted on them.  \<open>Json\<close>: JSON values, the sanitizer, JSON-lines files; the
  locale \<open>jsonl_codec\<close> (a codec whose decoder undoes its encoder makes a saved dictionary load unchanged) and
  \<open>atomic_store\<close> (operations of several processes on one locked file act like operations on one value), both
  interpreted on the stores that use them.  \<open>JsonText\<close>: the text of a JSON value.

  \<^bold>\<open>Components.\<close>
  \<^item> \<open>Models\<close>: session records and turn numbers, the running turn's text window.
  \<^item> \<open>WakeQueue\<close>: the leased queue of wakes shared by processes.  It refines one dictionary, claims are exclusive
    and come back when they are not finished.
  \<^item> \<open>PlanResolve\<close>, \<open>PlanManager\<close>, \<open>TaskEngine\<close>: the status of a plan's tasks as a fixed point (equal to a
    specification by paths of dependencies, reached in as many rounds as there are tasks), the plan store, and
    the engine that runs ready tasks and settles each.
  \<^item> \<open>DispatchStore\<close>: background dispatches, durable and bounded.
  \<^item> \<open>EventLog\<close>: the event stream clients poll; no event is missed, sequence numbers are never reused as long as
    no event holds a line separator.
  \<^item> \<open>SessionStore\<close>, \<open>SessionDirs\<close>: the registry of sessions with its append-only file, pruning and compaction;
    what archiving, clearing and resuming do to the files of a session.
  \<^item> \<open>InstanceLock\<close>: processes and threads that lock a chat through a file, as a step relation with an
    invariant proved by rule induction; where the exclusion is lost.
  \<^item> \<open>McpSkills\<close>, \<open>SessionOps\<close>, \<open>SessionRuns\<close>, \<open>SessionFailures\<close> (applications in \<open>SessionSamples\<close>): the tools and skills
    of a chat; new, switch, resume and branch with the engine as a parameter, parked while a turn runs; the registry
    stays equal to the file whatever they do, a parked operation is carried out as asked for, and what a failing
    engine leaves behind.
  \<^item> \<open>Restart\<close>: draining restarts as a step relation over requests, turns, watchdogs and the stop; a drain ends.
  \<^item> \<open>TurnReconcile\<close>, \<open>TurnPipeline\<close>, \<open>TurnProcess\<close>, \<open>TurnEffects\<close>: a turn from its gate to its clean-up, with the call of the
    engine, the resume, probe and rebuild of a lost session and the turns it replays.  \<open>TurnRuns\<close>, \<open>TurnFacts\<close>
    (\<open>TurnSamples\<close>): in every reachable state a running turn is undisturbed by the other operations; a turn frees its chat
    however it ends, is recorded under the number it reserved, and survives the loss of the session.
  \<^item> \<open>Planning\<close>, \<open>Lifecycle\<close>, \<open>LifecycleFacts\<close> (\<open>LifecycleSamples\<close>): wakes of plans and subagents and the handlers of timer
    and task events; every fired event is settled, every finished task reported, a subagent's result handed to the
    turn that its wake starts.
  \<^item> \<open>PromptParts\<close>, \<open>PromptSlots\<close>, \<open>HandoffStub\<close>, \<open>PromptBuild\<close>, \<open>PromptFacts\<close> (\<open>PromptSamples\<close>): anchors, notes and quotes; slots
    with their lists, caps and budget; the stub written before a fold; the first prompt and the follow-up.  The message
    and the identity reach every prompt, a wake prompt fits its budget or is minimal, the handoff turn is
    granted once, the chat memory is shown again when its file changes.
  \<^item> \<open>Ingress\<close>: entry of messages, wakes and dispatch results, composed of locks, queue, dispatches and outbox.
  \<^item> \<open>Delivery\<close>: the outbox (a queue per chat), mirroring, auto-continue, timer and event bus.
  \<^item> \<open>Metrics\<close>, \<open>Routing\<close>: counters and totals; model, budget, token estimate and soul mode of a turn.
  \<^item> \<open>TurnStream\<close>: chunks and updates of a turn; the reply text is what was streamed less the thought.
  \<^item> \<open>TelegramSplit\<close>, \<open>StreamDisplay\<close>: cutting a text into messages of at most 4096 UTF-16 units with code blocks
    closed and reopened; the live placeholder with intermediate commits, after which every character of the
    reply is shown once.
  \<^item> \<open>ShortTermMemory\<close>, \<open>MemoryPockets\<close>: the block of recent turns with cached summaries, the retain buffer,
    promoted facts.
  \<^item> \<open>CronSpec\<close>, \<open>CronState\<close>, \<open>CronService\<close>, \<open>CronTick\<close>, \<open>CronRuns\<close> (samples and applications in
    \<open>CronSamples\<close>): the job table merged from the configuration and its file with paths confined to the allowed
    roots, the rows of the state file, materialization and delivery of a run, the tick over schedules and file
    triggers, and what follows for whole runs: due jobs fire, a run is finalized once, results land in the chat
    that fired them, triggers keep their cooldown.
  \<^item> \<open>AcpTransport\<close>, \<open>AcpWatchdog\<close>, \<open>AcpLifecycle\<close>, \<open>AcpErrors\<close>: starting, resetting and closing the child, the
    threads that wait for it, the supervision of silent calls, restart limits and audit log, error classes.

  \<^bold>\<open>Conventions.\<close>  State is passed explicitly; a Python exception is the left side of a sum (\<open>py_exn\<close>), with
  \<open>Unmodelled\<close> for values whose type the annotations exclude and the code does not check.  Each operation under a
  lock is one step; threads and processes are the order of steps.  A clock reading is an argument of the operation
  that makes it.  Random ids are arguments.  \<open>float\<close> is a real number: rounding is modelled only where the code
  calls \<open>round\<close> or \<open>int\<close>.  Loops are structural recursion or \<open>function\<close> with a measure; \<open>TelegramSplit.split_loop\<close>
  and \<open>PlanResolve.resolve_loop\<close> carry fuel, and theorems say how much is enough (for the splitter: when the
  tags of its code blocks leave room in a message; otherwise no fuel is enough, which is proved too).

  \<^bold>\<open>Parameters.\<close>  Code outside the modelled parts is an argument with its law as a hypothesis: \<open>str.lower\<close>,
  \<open>str.isdigit\<close>, the JSON text of a number and the JSON parser, the rendering of a Telegram message into parts, the
  extraction of an ask block, the summarizer, the embedding of an agent run, the turn controller.  The agent
  is a function on a state of its own, so that any behaviour of it is covered; plugin hooks that return something,
  the memory of a chat and the skill manager are records of functions.

  \<^bold>\<open>Not modelled.\<close>  Pydantic validation; the atomicity of \<open>flock\<close> and \<open>rename\<close> (assumed); the bytes of files other
  than their lines; Windows branches; the framing of JSON-RPC, HTTP routes and Telegram calls; the plugins
  themselves, the search in memory and its backends, configuration, the skill files, sandboxing and the Hindsight client
  (see the component list of the manifest).
\<close>

end
